(* ===== verification/Prelude.thy ===== *)
theory Prelude
  imports Main "HOL-Library.Word"
begin

text \<open>
  Shared ground of the development: the machine types the C and C++ sources use, the model of
  NUL-terminated strings, the memory faults a model can end in, and the generic lemmas on words and
  lists that the component theories share.

  A \<open>char\<close> or \<open>unsigned char\<close> of the byte-level components is an \<open>8 word\<close>; the text-level
  components (IRC lines, commands, settings) use HOL's \<open>string\<close>, whose characters are bytes too.
  \<open>unsigned int\<close> and \<open>ucschar\<close> are \<open>32 word\<close>, \<open>unsigned long\<close> (LP64) is \<open>64 word\<close>.
  An \<open>int\<close> that only counts positions of a string is an unbounded \<open>int\<close> or \<open>nat\<close>: the
  sources assume strings shorter than \<open>INT_MAX\<close>.
\<close>

unbundle bit_operations_syntax

type_synonym byte = "8 word"
type_synonym u32 = "32 word"
type_synonym u64 = "64 word"

text \<open>Faults of the memory model: what the C code does is undefined from there on.\<close>

datatype c_fault = Read_past_end | Write_past_end | Null_deref | Assert_failed

subsection \<open>NUL-terminated strings\<close>

text \<open>
  A pointer into a NUL-terminated string is the list of bytes from there on, without the terminator;
  reading the position just behind the last byte gives the terminator. \<open>p += n\<close> is \<open>drop n\<close>.
\<close>

definition cstr_at :: "byte list \<Rightarrow> nat \<Rightarrow> byte" where
  "cstr_at s i = (if i < length s then s ! i else 0)"

definition cstr_ok :: "byte list \<Rightarrow> bool" where
  "cstr_ok s \<longleftrightarrow> 0 \<notin> set s"

text \<open>\<open>std::string(const char *)\<close> and the C library stop at the first NUL.\<close>

definition until_nul :: "byte list \<Rightarrow> byte list" where
  "until_nul s = takeWhile (\<lambda>c. c \<noteq> 0) s"

text \<open>A string literal of the source.\<close>

definition c_lit :: "string \<Rightarrow> byte list" where
  "c_lit s = map of_char s"

lemma cstr_at_Nil [simp]: "cstr_at [] i = 0"
  by (simp add: cstr_at_def)

lemma cstr_at_Cons_0 [simp]: "cstr_at (c # s) 0 = c"
  by (simp add: cstr_at_def)

lemma cstr_at_Cons_Suc [simp]: "cstr_at (c # s) (Suc i) = cstr_at s i"
  by (simp add: cstr_at_def)

lemma cstr_at_numeral [simp]: "cstr_at (c # s) (numeral k) = cstr_at s (pred_numeral k)"
  by (simp add: numeral_eq_Suc)

lemma cstr_at_1 [simp]: "cstr_at (c # s) 1 = cstr_at s 0"
  by (simp add: cstr_at_def)

lemma cstr_at_drop: "cstr_at (drop n s) i = cstr_at s (n + i)"
  by (simp add: cstr_at_def add.commute less_diff_conv)

lemma cstr_at_append_left: "i < length s \<Longrightarrow> cstr_at (s @ t) i = cstr_at s i"
  by (simp add: cstr_at_def nth_append)

lemma cstr_at_append_right [simp]: "cstr_at (s @ t) (length s) = cstr_at t 0"
  by (simp add: cstr_at_def nth_append)

lemma cstr_at_nz: "cstr_at s i \<noteq> 0 \<Longrightarrow> i < length s"
  by (auto simp: cstr_at_def split: if_splits)

lemma cstr_ok_at: "cstr_ok s \<Longrightarrow> cstr_at s i \<noteq> 0 \<longleftrightarrow> i < length s"
  by (auto simp: cstr_ok_def cstr_at_def in_set_conv_nth)

lemma cstr_ok_simps [simp]:
  "cstr_ok []" "cstr_ok (c # s) \<longleftrightarrow> c \<noteq> 0 \<and> cstr_ok s"
  "cstr_ok (s @ t) \<longleftrightarrow> cstr_ok s \<and> cstr_ok t"
  by (auto simp: cstr_ok_def)

lemma cstr_ok_drop: "cstr_ok s \<Longrightarrow> cstr_ok (drop n s)"
  by (auto simp: cstr_ok_def dest: in_set_dropD)

lemma until_nul_cstr_ok [simp]: "cstr_ok (until_nul s)"
  by (auto simp: cstr_ok_def until_nul_def dest: set_takeWhileD)

lemma until_nul_id: "cstr_ok s \<Longrightarrow> until_nul s = s"
  by (auto simp: cstr_ok_def until_nul_def takeWhile_eq_all_conv)

subsection \<open>Bits of words\<close>

named_theorems word_bits \<open>equations that read a word bit by bit\<close>

lemma word_bit_less:
  fixes w :: "'a::len word"
  assumes "w < 2 ^ k" and "k < LENGTH('a)" and "k \<le> n"
  shows "\<not> bit w n"
proof -
  have "w AND mask k = w" using assms(1) by (rule less_mask_eq)
  then have "bit w n = bit (w AND mask k) n" by simp
  also have "\<dots> = False" using assms(3) by (auto simp: bit_simps)
  finally show ?thesis by simp
qed

lemma word_less_by_bits:
  fixes w :: "'a::len word"
  assumes "\<And>n. k \<le> n \<Longrightarrow> n < LENGTH('a) \<Longrightarrow> \<not> bit w n" and "k < LENGTH('a)"
  shows "w < 2 ^ k"
proof -
  have "w = w AND mask k"
    using assms(1) by (auto intro!: bit_word_eqI simp: bit_simps) (metis not_le)
  then show ?thesis using and_mask_less' [OF assms(2), of w] by simp
qed

lemma byte_unat_less: "unat (c :: byte) < 256"
proof -
  have "unat c < 2 ^ LENGTH(8)" by (rule unsigned_less)
  then show ?thesis by simp
qed

lemma byte_all: "(\<forall>c::byte. P c) \<longleftrightarrow> (\<forall>i<256. P (of_nat i))"
proof
  assume a: "\<forall>i<256. P (of_nat i)"
  show "\<forall>c::byte. P c"
  proof
    fix c :: byte
    have "unat c < 2 ^ LENGTH(8)" by (rule unsigned_less)
    then have "unat c < 256" by simp
    then have "P (of_nat (unat c))" using a by blast
    then show "P c" by simp
  qed
qed simp

lemma word_or_less:
  fixes a b :: "'a::len word"
  assumes "a < 2 ^ k" and "b < 2 ^ k" and "k < LENGTH('a)"
  shows "a OR b < 2 ^ k"
  using word_bit_less [OF assms(1,3)] word_bit_less [OF assms(2,3)]
  by (auto intro!: word_less_by_bits assms(3) simp: bit_simps)

lemma word_and_less: "c < n \<Longrightarrow> a AND c < (n::'a::len word)"
  by (rule le_less_trans [OF word_and_le1])

lemma u32_eq_bits: "(a::u32) = b \<longleftrightarrow> (\<forall>n<32. bit a n = bit b n)"
  by (auto intro!: bit_word_eqI)

lemma u8_eq_bits: "(a::byte) = b \<longleftrightarrow> (\<forall>n<8. bit a n = bit b n)"
  by (auto intro!: bit_word_eqI)

lemma all_less_numeral:
  "(\<forall>n<(numeral k :: nat). P n) \<longleftrightarrow> P (pred_numeral k) \<and> (\<forall>n<pred_numeral k. P n)"
  by (auto simp: numeral_eq_Suc less_Suc_eq)

lemma all_less_one: "(\<forall>n<(1::nat). P n) \<longleftrightarrow> P 0"
  by auto

lemma all_less_Suc_0: "(\<forall>n<Suc 0. P n) \<longleftrightarrow> P 0"
  by auto

lemmas word_enum = u32_eq_bits u8_eq_bits all_less_numeral all_less_one all_less_Suc_0 bit_simps

subsection \<open>Concatenations\<close>

lemma drop_concat_take [simp]: "drop (length (concat (take m cs))) (concat cs) = concat (drop m cs)"
proof -
  have "concat cs = concat (take m cs) @ concat (drop m cs)"
    by (metis append_take_drop_id concat_append)
  then show ?thesis by simp
qed

lemma take_concat_take [simp]: "take (length (concat (take n cs))) (concat cs) = concat (take n cs)"
proof -
  have "concat cs = concat (take n cs) @ concat (drop n cs)"
    by (metis append_take_drop_id concat_append)
  then show ?thesis by simp
qed

lemma length_concat_take_diff [simp]:
  "length (concat (take (m + n) cs)) - length (concat (take m cs)) = length (concat (take n (drop m cs)))"
  by (simp add: take_add)

lemma length_concat_take_mono: "m \<le> n \<Longrightarrow> length (concat (take m cs)) \<le> length (concat (take n cs))"
  using take_add [of m "n - m" cs] by simp

lemma concat_position:
  "p < length (concat cs) \<Longrightarrow> \<exists>k<length cs. \<exists>j<length (cs ! k). p = length (concat (take k cs)) + j"
proof (induction cs arbitrary: p)
  case (Cons c cs)
  show ?case
  proof (cases "p < length c")
    case False
    then have "p - length c < length (concat cs)" using Cons.prems by auto
    then obtain k j where "k < length cs" "j < length (cs ! k)" "p - length c = length (concat (take k cs)) + j"
      using Cons.IH [of "p - length c"] by blast
    then show ?thesis using False by (intro exI [of _ "Suc k"]) auto
  qed (intro exI [of _ 0], auto)
qed simp

end
