(* ===== verification/Utf8.thy ===== *)
theory Utf8
  imports Prelude
begin

text \<open>
  The UTF-8 primitives of \<open>utf8_impl.c\<close>, \<open>utf8_impl.h\<close> and their string wrappers in \<open>utf8.cpp\<close>:
  encoding and decoding one character, measuring it, and the position arithmetic on strings
  (length, character position, substring, validation, cutting to a byte limit).

  An output buffer is returned next to the result. A function that reports a position through
  pointers and fails with -1 returns an option of the position.
\<close>

subsection \<open>One character\<close>

text \<open>The bytes \<open>utf8_encode\<close> collects in \<open>utf8buf\<close>; none for a value that is no scalar value.\<close>

definition utf8_encode_buf :: "u32 \<Rightarrow> byte list" where
  "utf8_encode_buf u =
    (if u \<le> 0x7F then [ucast (u AND 0x7F)]
     else if u \<ge> 0x80 \<and> u \<le> 0x7FF then
       [ucast (0xC0 OR drop_bit 6 u), ucast (0x80 OR (u AND 0x3F))]
     else if u \<ge> 0x800 \<and> u \<le> 0xD7FF \<or> u \<ge> 0xE000 \<and> u \<le> 0xFFFF then
       [ucast (0xE0 OR drop_bit 12 u), ucast (0x80 OR (drop_bit 6 u AND 0x3F)),
        ucast (0x80 OR (u AND 0x3F))]
     else if u \<ge> 0x10000 \<and> u \<le> 0x10FFFF then
       [ucast (0xF0 OR drop_bit 15 u), ucast (0x80 OR (drop_bit 12 u AND 0x3F)),
        ucast (0x80 OR (drop_bit 6 u AND 0x3F)), ucast (0x80 OR (u AND 0x3F))]
     else [])"

text \<open>The result and the bytes stored at \<open>dest\<close>, which has room for \<open>sz\<close> bytes.\<close>

definition utf8_encode :: "u32 \<Rightarrow> nat \<Rightarrow> int \<times> byte list" where
  "utf8_encode u sz =
    (let utf8buf = utf8_encode_buf u; len = length utf8buf
     in if len = 0 then (0, [])
        else if sz < len then (- int len, [])
        else (int len, utf8buf))"

text \<open>The decoded value and \<open>*charlen\<close>; 0xFFFFFFFF stands for a character it cannot decode.\<close>

definition utf8_decode_v2 :: "byte list \<Rightarrow> nat \<Rightarrow> u32 \<times> nat" where
  "utf8_decode_v2 p sz =
    (let b = (\<lambda>i. ucast (cstr_at p i) :: u32)
     in if sz = 0 \<or> b 0 = 0 then (0xFFFFFFFF, 0)
        else if b 0 AND 0x80 = 0 then (b 0 AND 0x7F, 1)
        else if b 0 AND 0xE0 = 0xC0 then
          (if sz < 2 \<or> b 1 = 0 then 0xFFFFFFFF
           else push_bit 6 (b 0 AND 0x1F) OR (b 1 AND 0x3F), 2)
        else if b 0 AND 0xF0 = 0xE0 then
          (if sz < 3 \<or> b 1 = 0 \<or> b 2 = 0 then 0xFFFFFFFF
           else push_bit 12 (b 0 AND 0x0F) OR push_bit 6 (b 1 AND 0x3F) OR (b 2 AND 0x3F), 3)
        else if b 0 AND 0xF8 = 0xF0 then
          (if sz < 4 \<or> b 1 = 0 \<or> b 2 = 0 \<or> b 3 = 0 then 0xFFFFFFFF
           else push_bit 15 (b 0 AND 0x07) OR push_bit 12 (b 1 AND 0x3F)
             OR push_bit 6 (b 2 AND 0x3F) OR (b 3 AND 0x3F), 4)
        else (0xFFFFFFFF, 0))"

definition utf8_getsize :: "u32 \<Rightarrow> int" where
  "utf8_getsize u =
    (if u \<le> 0x7F then 1
     else if u \<ge> 0x80 \<and> u \<le> 0x7FF then 2
     else if u \<ge> 0x800 \<and> u \<le> 0xD7FF \<or> u \<ge> 0xE000 \<and> u \<le> 0xFFFF then 3
     else if u \<ge> 0x10000 \<and> u \<le> 0x10FFFF then 4
     else -1)"

definition utf8_getsize_char_nc :: "byte list \<Rightarrow> int" where
  "utf8_getsize_char_nc p =
    (let c = cstr_at p 0
     in if c = 0 then 0
        else if c AND 0x80 = 0 then 1
        else if c AND 0xE0 = 0xC0 then 2
        else if c AND 0xF0 = 0xE0 then 3
        else if c AND 0xF8 = 0xF0 then 4
        else -1)"

text \<open>The loop over the continuation bytes: \<open>True\<close> when bytes \<open>i..<i+n\<close> are all good.\<close>

primrec utf8_check_tail :: "byte list \<Rightarrow> nat \<Rightarrow> nat \<Rightarrow> bool" where
  "utf8_check_tail p i 0 = True"
| "utf8_check_tail p i (Suc n) =
    (if cstr_at p i = 0 \<or> cstr_at p i AND 0x80 \<noteq> 0x80 then False
     else utf8_check_tail p (Suc i) n)"

definition utf8_getsize_char :: "byte list \<Rightarrow> int" where
  "utf8_getsize_char p =
    (let len = utf8_getsize_char_nc p
     in if utf8_check_tail p 1 (nat (len - 1)) then len else - len)"

text \<open>\<open>utf8_encode_nt\<close> (the wrapper of \<open>utf8_impl.h\<close>): the result and the bytes before the
  terminator stored at \<open>dest\<close>.\<close>

definition utf8_encode_nt :: "u32 \<Rightarrow> nat \<Rightarrow> int \<times> byte list" where
  "utf8_encode_nt u sz =
    (let (len, dest) = utf8_encode u (if sz = 0 then 2 ^ 64 - 1 else sz - 1)
     in if len > 0 then (len, dest) else (len, []))"

definition utf8_decode :: "byte list \<Rightarrow> u32 \<times> nat" where
  "utf8_decode p = utf8_decode_v2 p (2 ^ 64 - 1)"

text \<open>\<open>utf8_enc_tmp\<close>: the bytes before the terminator stored in the thread-local \<open>tmp[8]\<close>.\<close>

definition utf8_enc_tmp :: "u32 \<Rightarrow> byte list" where
  "utf8_enc_tmp u = (if u = 0xFFFFFFFF then [] else snd (utf8_encode u 8))"

definition utf8_encode_s :: "u32 \<Rightarrow> byte list" where
  "utf8_encode_s u = (let (len, buf) = utf8_encode u 8 in if len \<le> 0 then [] else buf)"

definition utf8_decode_s :: "byte list \<Rightarrow> u32" where
  "utf8_decode_s s = fst (utf8_decode (until_nul s))"

subsection \<open>Strings\<close>

lemma utf8_getsize_char_nc_pos: "cstr_at p 0 \<noteq> 0 \<Longrightarrow> utf8_getsize_char_nc p \<noteq> 0"
  by (simp add: utf8_getsize_char_nc_def Let_def)

lemma utf8_getsize_char_zero: "utf8_getsize_char p = 0 \<longleftrightarrow> cstr_at p 0 = 0"
  by (simp add: utf8_getsize_char_def utf8_getsize_char_nc_def Let_def)

lemma utf8_getsize_char_step:
  assumes "cstr_at p 0 \<noteq> 0" and "\<not> utf8_getsize_char p < 0"
  shows "length (drop (nat (utf8_getsize_char p)) p) < length p"
proof -
  have "p \<noteq> []" using assms(1) by auto
  moreover have "utf8_getsize_char p \<noteq> 0" using assms(1) by (simp add: utf8_getsize_char_zero)
  ultimately show ?thesis using assms(2) by simp
qed

function utf8_strlen_loop :: "byte list \<Rightarrow> int \<Rightarrow> int" where
  "utf8_strlen_loop str len =
    (if cstr_at str 0 = 0 then len
     else let c = utf8_getsize_char str
       in if c < 0 then -1 else utf8_strlen_loop (drop (nat c) str) (len + 1))"
  by pat_completeness auto
termination
  by (relation "measure (\<lambda>(s, _). length s)") (auto dest: utf8_getsize_char_step)

definition utf8_strlen :: "byte list \<Rightarrow> int" where
  "utf8_strlen str = utf8_strlen_loop str 0"

function utf8_validate :: "byte list \<Rightarrow> bool" where
  "utf8_validate str =
    (if cstr_at str 0 = 0 then True
     else let c = utf8_getsize_char str
       in if c < 0 then False else utf8_validate (drop (nat c) str))"
  by pat_completeness auto
termination
  by (relation "measure length") (auto dest: utf8_getsize_char_step)

text \<open>
  \<open>utf8_strpos_getpos\<close>: the byte offset (also the result of the C function) and the byte length of
  the character at position \<open>pos\<close>, counted from the end when it is negative; \<open>None\<close> is -1.
\<close>

function utf8_strpos_loop :: "byte list \<Rightarrow> nat \<Rightarrow> nat \<Rightarrow> nat \<Rightarrow> (nat \<times> nat) option" where
  "utf8_strpos_loop str i n pos =
    (if cstr_at str 0 = 0 then None
     else let len = utf8_getsize_char str
       in if len < 0 then None
          else if pos = n then Some (i, nat len)
          else utf8_strpos_loop (drop (nat len) str) (i + nat len) (Suc n) pos)"
  by pat_completeness auto
termination
  by (relation "measure (\<lambda>(s, _). length s)") (auto dest: utf8_getsize_char_step)

definition utf8_strpos_getpos :: "byte list \<Rightarrow> int \<Rightarrow> (nat \<times> nat) option" where
  "utf8_strpos_getpos str pos =
    (if pos \<ge> 0 then utf8_strpos_loop str 0 0 (nat pos)
     else let len = utf8_strlen str
       in if len \<le> 0 then None
          else let newpos = len + pos
            in if newpos < 0 then None else utf8_strpos_loop str 0 0 (nat newpos))"

text \<open>The result of \<open>utf8_strpos\<close> and the string in \<open>dest[8]\<close>.\<close>

definition utf8_strpos :: "byte list \<Rightarrow> int \<Rightarrow> (nat \<times> byte list) option" where
  "utf8_strpos str pos =
    (case utf8_strpos_getpos str pos of
       None \<Rightarrow> None
     | Some (startpos, len) \<Rightarrow>
         Some (len, if len < 8 then take len (drop startpos str)
                    else take 7 (drop startpos str)))"

text \<open>
  The loop of \<open>utf8_substr_getpos\<close>; its state on exit is \<open>startpos\<close>, \<open>endpos\<close> (each -1, here
  \<open>None\<close>, until set) and \<open>pos\<close>.
\<close>

function utf8_substr_loop ::
    "byte list \<Rightarrow> nat \<Rightarrow> nat \<Rightarrow> nat option \<Rightarrow> int \<Rightarrow> int \<Rightarrow> nat option \<times> nat option \<times> nat" where
  "utf8_substr_loop str pos n startpos start nchar =
    (if cstr_at str 0 = 0 then (startpos, None, pos)
     else let len = utf8_getsize_char str
       in if len > 0 then
            let startpos' = (if int n = start then Some pos else startpos)
            in if int n = start \<and> nchar < 0 then
                 (startpos', Some (pos + length (until_nul str)), pos)
               else if nchar \<ge> 0 \<and> int n \<ge> start + nchar then (startpos', Some pos, pos)
               else utf8_substr_loop (drop (nat len) str) (pos + nat len) (Suc n) startpos' start nchar
          else (startpos, None, pos))"
  by pat_completeness auto
termination
  by (relation "measure (\<lambda>(s, _). length s)") (auto simp: not_less intro!: diff_less)

definition utf8_substr_getpos_nonneg :: "byte list \<Rightarrow> int \<Rightarrow> int \<Rightarrow> c_fault + (nat \<times> nat) option" where
  "utf8_substr_getpos_nonneg str start nchar =
    (case utf8_substr_loop str 0 0 None start nchar of
       (None, _, _) \<Rightarrow> Inr None
     | (Some startpos, endpos, pos) \<Rightarrow>
         (let endpos' = (case endpos of None \<Rightarrow> pos | Some e \<Rightarrow> e)
          in if endpos' \<ge> startpos then Inr (Some (startpos, endpos' - startpos))
             else Inl Assert_failed))"

definition utf8_substr_getpos :: "byte list \<Rightarrow> int \<Rightarrow> int \<Rightarrow> c_fault + (nat \<times> nat) option" where
  "utf8_substr_getpos str start nchar =
    (if start \<ge> 0 then utf8_substr_getpos_nonneg str start nchar
     else let len = utf8_strlen str
       in if len \<le> 0 then Inr None
          else let newpos = len + start
            in if newpos < 0 then Inr None else utf8_substr_getpos_nonneg str newpos nchar)"

text \<open>
  The result of \<open>utf8_substr\<close> and the string left in \<open>dest[size]\<close>. With \<open>sz = 0\<close> the last
  \<open>memcpy\<close> is asked for \<open>SIZE_MAX\<close> bytes.
\<close>

definition utf8_substr :: "byte list \<Rightarrow> int \<Rightarrow> int \<Rightarrow> nat \<Rightarrow> c_fault + (nat \<times> byte list) option" where
  "utf8_substr str start nchar sz =
    (case utf8_substr_getpos str start nchar of
       Inl e \<Rightarrow> Inl e
     | Inr None \<Rightarrow> Inr None
     | Inr (Some (startpos, len)) \<Rightarrow>
         if len < sz then Inr (Some (len, take len (drop startpos str)))
         else if sz = 0 then Inl Write_past_end
         else Inr (Some (len, take (sz - 1) (drop startpos str))))"

text \<open>The backward scan of \<open>utf8_cut_by_size\<close>: \<open>k\<close> counts the positions \<open>p\<close> still to look at.\<close>

primrec utf8_cut_loop :: "byte list \<Rightarrow> nat \<Rightarrow> nat \<Rightarrow> nat" where
  "utf8_cut_loop str maxsize 0 = 0"
| "utf8_cut_loop str maxsize (Suc p) =
    (let c = cstr_at str p AND 0xC0
     in if c = 0xC0 then
          let cs = utf8_getsize_char (drop p str)
          in if cs > 0 then
               let res = p + (nat cs - 1) + 1 in if res > maxsize then p else res
             else utf8_cut_loop str maxsize p
        else if c \<noteq> 0x80 then p + 1
        else utf8_cut_loop str maxsize p)"

definition utf8_cut_by_size :: "byte list \<Rightarrow> int \<Rightarrow> nat \<Rightarrow> nat" where
  "utf8_cut_by_size str len maxsize =
    (let len' = (if len < 0 then length (until_nul str) else nat len)
     in if len' \<le> maxsize then len' else utf8_cut_loop str maxsize maxsize)"

subsection \<open>The wrappers of \<open>utf8.cpp\<close>\<close>

definition utf8_sanitize_s :: "byte list \<Rightarrow> byte list" where
  "utf8_sanitize_s str = str"

definition utf8_getsize_char_s :: "byte list \<Rightarrow> int" where
  "utf8_getsize_char_s s = utf8_getsize_char (until_nul s)"

definition utf8_strlen_s :: "byte list \<Rightarrow> int" where
  "utf8_strlen_s s = utf8_strlen (until_nul s)"

definition utf8_strpos_s :: "byte list \<Rightarrow> int \<Rightarrow> byte list" where
  "utf8_strpos_s s pos =
    (case utf8_strpos (until_nul s) pos of None \<Rightarrow> [] | Some (_, buf) \<Rightarrow> buf)"

definition utf8_substr_s :: "byte list \<Rightarrow> int \<Rightarrow> int \<Rightarrow> c_fault + byte list" where
  "utf8_substr_s s start len =
    (case utf8_substr_getpos (until_nul s) start len of
       Inl e \<Rightarrow> Inl e
     | Inr None \<Rightarrow> Inr []
     | Inr (Some (startpos, sz)) \<Rightarrow> Inr (take sz (drop startpos (until_nul s))))"

function utf8_split_loop :: "byte list \<Rightarrow> byte list list" where
  "utf8_split_loop p =
    (let len = utf8_getsize_char p
     in if len \<le> 0 then [] else take (nat len) p # utf8_split_loop (drop (nat len) p))"
  by pat_completeness auto
termination
proof (relation "measure length")
  fix p :: "byte list" and x
  assume x: "x = utf8_getsize_char p" "\<not> x \<le> 0"
  then have "cstr_at p 0 \<noteq> 0" using utf8_getsize_char_zero [of p] by auto
  with x show "(drop (nat x) p, p) \<in> measure length"
    using utf8_getsize_char_step [of p] by simp
qed simp

definition utf8_split_chars :: "byte list \<Rightarrow> byte list list" where
  "utf8_split_chars s = utf8_split_loop (until_nul s)"

declare utf8_strlen_loop.simps [simp del] utf8_validate.simps [simp del]
  utf8_strpos_loop.simps [simp del] utf8_substr_loop.simps [simp del] utf8_split_loop.simps [simp del]

subsection \<open>Lemmas on one character\<close>

lemma utf8_encode_buf_length: "int (length (utf8_encode_buf u)) = (if utf8_getsize u < 0 then 0 else utf8_getsize u)"
  by (simp add: utf8_encode_buf_def utf8_getsize_def)

lemma utf8_check_tail_iff:
  "utf8_check_tail p i n \<longleftrightarrow> (\<forall>j<n. cstr_at p (i + j) \<noteq> 0 \<and> cstr_at p (i + j) AND 0x80 = 0x80)"
proof (induction n arbitrary: i)
  case (Suc n)
  show ?case
    by (auto simp: Suc.IH less_Suc_eq_0_disj)
qed simp

text \<open>A byte string that is one character, as the size functions see it.\<close>

definition utf8_char :: "byte list \<Rightarrow> bool" where
  "utf8_char c \<longleftrightarrow> c \<noteq> [] \<and> utf8_getsize_char c = int (length c)"

lemma utf8_getsize_char_nc_cong:
  "cstr_at p 0 = cstr_at q 0 \<Longrightarrow> utf8_getsize_char_nc p = utf8_getsize_char_nc q"
  by (simp add: utf8_getsize_char_nc_def)

lemma utf8_getsize_char_pos_iff:
  "utf8_getsize_char p = int n \<and> 0 < n \<longleftrightarrow>
    utf8_getsize_char_nc p = int n \<and> 0 < n \<and> utf8_check_tail p 1 (n - 1)"
proof -
  have "utf8_getsize_char_nc p \<ge> -1" by (simp add: utf8_getsize_char_nc_def Let_def)
  then show ?thesis
    by (auto simp: utf8_getsize_char_def Let_def nat_diff_distrib)
qed

lemma utf8_getsize_char_nc_le: "utf8_getsize_char_nc p \<le> 4"
  by (simp add: utf8_getsize_char_nc_def Let_def)

lemma utf8_char_append:
  assumes "utf8_char c"
  shows "utf8_getsize_char (c @ r) = int (length c)"
proof -
  have ne: "c \<noteq> []" and sz: "utf8_getsize_char c = int (length c)" using assms by (simp_all add: utf8_char_def)
  then have nc: "utf8_getsize_char_nc c = int (length c)" and tl: "utf8_check_tail c 1 (length c - 1)"
    using utf8_getsize_char_pos_iff [of c "length c"] by auto
  have "utf8_getsize_char_nc (c @ r) = int (length c)"
    using nc ne utf8_getsize_char_nc_cong [of "c @ r" c] by (simp add: cstr_at_append_left)
  moreover have "utf8_check_tail (c @ r) 1 (length c - 1)"
    using tl by (auto simp: utf8_check_tail_iff cstr_at_append_left)
  ultimately show ?thesis using ne utf8_getsize_char_pos_iff [of "c @ r" "length c"] by auto
qed

lemma utf8_char_take:
  assumes "utf8_getsize_char p = int n" and "0 < n"
  shows "utf8_char (take n p)" and "n \<le> length p"
proof -
  have nc: "utf8_getsize_char_nc p = int n" and tl: "utf8_check_tail p 1 (n - 1)"
    using assms utf8_getsize_char_pos_iff [of p n] by auto
  have nz: "cstr_at p j \<noteq> 0" if "j < n" for j
  proof (cases j)
    case 0
    then show ?thesis using assms utf8_getsize_char_zero [of p] by auto
  next
    case (Suc k)
    then show ?thesis using tl that by (simp add: utf8_check_tail_iff)
  qed
  show le: "n \<le> length p" using nz [of "n - 1"] assms(2) cstr_at_nz [of p "n - 1"] by simp
  have at: "cstr_at (take n p) j = cstr_at p j" if "j < n" for j
    using that le by (simp add: cstr_at_def)
  have "utf8_getsize_char_nc (take n p) = int n"
    using nc at [of 0] assms(2) utf8_getsize_char_nc_cong by metis
  moreover have "utf8_check_tail (take n p) 1 (n - 1)"
    using tl at by (auto simp: utf8_check_tail_iff)
  ultimately show "utf8_char (take n p)"
    using le assms(2) utf8_getsize_char_pos_iff [of "take n p" n] by (auto simp: utf8_char_def)
qed

lemma utf8_char_nz:
  assumes "utf8_char c"
  shows "cstr_ok c" and "cstr_at c 0 \<noteq> 0" and "0 < length c" and "length c \<le> 4"
proof -
  have ne: "c \<noteq> []" and sz: "utf8_getsize_char c = int (length c)" using assms by (simp_all add: utf8_char_def)
  then have nc: "utf8_getsize_char_nc c = int (length c)" and tl: "utf8_check_tail c 1 (length c - 1)"
    using utf8_getsize_char_pos_iff [of c "length c"] by auto
  show "0 < length c" using ne by simp
  show "length c \<le> 4" using nc utf8_getsize_char_nc_le [of c] by simp
  show 0: "cstr_at c 0 \<noteq> 0" using ne sz utf8_getsize_char_zero [of c] by auto
  have "cstr_at c j \<noteq> 0" if "j < length c" for j
  proof (cases j)
    case (Suc k)
    then show ?thesis using tl that by (simp add: utf8_check_tail_iff)
  qed (use 0 in simp)
  then show "cstr_ok c" by (auto simp: cstr_ok_def in_set_conv_nth cstr_at_def)
qed

text \<open>The encoder's output, bit by bit, for the values it can write without losing bits.\<close>

lemmas u32_bit_less7 = word_bit_less [where 'a = 32 and k = 7, simplified]
lemmas u32_bit_less11 = word_bit_less [where 'a = 32 and k = 11, simplified]
lemmas u32_bit_less16 = word_bit_less [where 'a = 32 and k = 16, simplified]
lemmas u32_bit_less18 = word_bit_less [where 'a = 32 and k = 18, simplified]

lemma u32_le_less: "u \<le> 0x7F \<longleftrightarrow> (u::u32) < 0x80" "u \<le> 0x7FF \<longleftrightarrow> u < 0x800"
    "u \<le> 0xFFFF \<longleftrightarrow> u < 0x10000" "u \<le> 0x3FFFF \<longleftrightarrow> u < 0x40000"
  by (simp_all add: word_le_nat_alt word_less_nat_alt) linarith+

lemma utf8_check_tail_numeral [simp]:
  "utf8_check_tail p i (numeral k) =
    (if cstr_at p i = 0 \<or> cstr_at p i AND 0x80 \<noteq> 0x80 then False
     else utf8_check_tail p (Suc i) (pred_numeral k))"
  by (simp add: numeral_eq_Suc)

lemma u32_surrogate_le: "u \<le> 0xD7FF \<Longrightarrow> (u::u32) < 0x10000"
  by (simp add: word_le_nat_alt word_less_nat_alt)

lemma utf8_enc1:
  assumes "u \<noteq> 0" and "u < 0x80"
  shows "utf8_char [ucast (u AND 0x7F)]"
    and "1 \<le> sz \<Longrightarrow> utf8_decode_v2 (ucast (u AND 0x7F) # r) sz = (u, 1)"
proof -
  have b: "\<forall>n\<ge>7. \<not> bit u n" using assms(2) u32_bit_less7 by auto
  have z: "\<not> (\<forall>n<32. \<not> bit u n)" using assms(1) by (auto simp: u32_eq_bits)
  show "utf8_char [ucast (u AND 0x7F)]"
    using z b
    by (simp add: utf8_char_def utf8_getsize_char_def utf8_getsize_char_nc_def Let_def word_enum)
  show "utf8_decode_v2 (ucast (u AND 0x7F) # r) sz = (u, 1)" if "1 \<le> sz"
    using that z b by (simp add: utf8_decode_v2_def Let_def word_enum)
qed

lemma utf8_enc2:
  assumes "u < 0x800"
  shows "utf8_char [ucast (0xC0 OR drop_bit 6 u), ucast (0x80 OR (u AND 0x3F))]"
    and "2 \<le> sz \<Longrightarrow>
      utf8_decode_v2 (ucast (0xC0 OR drop_bit 6 u) # ucast (0x80 OR (u AND 0x3F)) # r) sz = (u, 2)"
proof -
  have b: "\<forall>n\<ge>11. \<not> bit u n" using assms u32_bit_less11 by auto
  show "utf8_char [ucast (0xC0 OR drop_bit 6 u), ucast (0x80 OR (u AND 0x3F))]"
    using b
    by (simp add: utf8_char_def utf8_getsize_char_def utf8_getsize_char_nc_def Let_def word_enum)
  show "utf8_decode_v2 (ucast (0xC0 OR drop_bit 6 u) # ucast (0x80 OR (u AND 0x3F)) # r) sz = (u, 2)"
    if "2 \<le> sz"
    using that b by (simp add: utf8_decode_v2_def Let_def word_enum)
qed

lemma utf8_enc3:
  assumes "u < 0x10000"
  shows "utf8_char [ucast (0xE0 OR drop_bit 12 u), ucast (0x80 OR (drop_bit 6 u AND 0x3F)),
        ucast (0x80 OR (u AND 0x3F))]"
    and "3 \<le> sz \<Longrightarrow>
      utf8_decode_v2 (ucast (0xE0 OR drop_bit 12 u) # ucast (0x80 OR (drop_bit 6 u AND 0x3F)) #
        ucast (0x80 OR (u AND 0x3F)) # r) sz = (u, 3)"
proof -
  have b: "\<forall>n\<ge>16. \<not> bit u n" using assms u32_bit_less16 by auto
  show "utf8_char [ucast (0xE0 OR drop_bit 12 u), ucast (0x80 OR (drop_bit 6 u AND 0x3F)),
        ucast (0x80 OR (u AND 0x3F))]"
    using b
    by (simp add: utf8_char_def utf8_getsize_char_def utf8_getsize_char_nc_def Let_def word_enum)
  show "utf8_decode_v2 (ucast (0xE0 OR drop_bit 12 u) # ucast (0x80 OR (drop_bit 6 u AND 0x3F)) #
        ucast (0x80 OR (u AND 0x3F)) # r) sz = (u, 3)"
    if "3 \<le> sz"
    using that b by (simp add: utf8_decode_v2_def Let_def word_enum)
qed

lemma utf8_enc4:
  assumes "u < 0x40000"
  shows "utf8_char [ucast (0xF0 OR drop_bit 15 u), ucast (0x80 OR (drop_bit 12 u AND 0x3F)),
        ucast (0x80 OR (drop_bit 6 u AND 0x3F)), ucast (0x80 OR (u AND 0x3F))]"
    and "4 \<le> sz \<Longrightarrow>
      utf8_decode_v2 (ucast (0xF0 OR drop_bit 15 u) # ucast (0x80 OR (drop_bit 12 u AND 0x3F)) #
        ucast (0x80 OR (drop_bit 6 u AND 0x3F)) # ucast (0x80 OR (u AND 0x3F)) # r) sz = (u, 4)"
proof -
  have b: "\<forall>n\<ge>18. \<not> bit u n" using assms u32_bit_less18 by auto
  show "utf8_char [ucast (0xF0 OR drop_bit 15 u), ucast (0x80 OR (drop_bit 12 u AND 0x3F)),
        ucast (0x80 OR (drop_bit 6 u AND 0x3F)), ucast (0x80 OR (u AND 0x3F))]"
    using b
    by (simp add: utf8_char_def utf8_getsize_char_def utf8_getsize_char_nc_def Let_def word_enum)
  show "utf8_decode_v2 (ucast (0xF0 OR drop_bit 15 u) # ucast (0x80 OR (drop_bit 12 u AND 0x3F)) #
        ucast (0x80 OR (drop_bit 6 u AND 0x3F)) # ucast (0x80 OR (u AND 0x3F)) # r) sz = (u, 4)"
    if "4 \<le> sz"
    using that b by (simp add: utf8_decode_v2_def Let_def word_enum)
qed

text \<open>The values the encoder writes and the decoder can read back.\<close>

definition utf8_codable :: "u32 \<Rightarrow> bool" where
  "utf8_codable u \<longleftrightarrow> u \<noteq> 0 \<and> utf8_getsize u > 0 \<and> u < 0x40000"

lemma utf8_encode_buf_char: "utf8_codable u \<Longrightarrow> utf8_char (utf8_encode_buf u)"
  using utf8_enc1(1) [of u] utf8_enc2(1) [of u] utf8_enc3(1) [of u] utf8_enc4(1) [of u]
  by (auto simp: utf8_codable_def utf8_encode_buf_def utf8_getsize_def u32_le_less dest: u32_surrogate_le split: if_splits)

lemma utf8_decode_encode_buf:
  assumes "utf8_codable u" and "length (utf8_encode_buf u) \<le> sz"
  shows "utf8_decode_v2 (utf8_encode_buf u @ r) sz = (u, length (utf8_encode_buf u))"
  using assms utf8_enc1(2) [of u sz r] utf8_enc2(2) [of u sz r] utf8_enc3(2) [of u sz r]
    utf8_enc4(2) [of u sz r]
  by (auto simp: utf8_codable_def utf8_encode_buf_def utf8_getsize_def u32_le_less dest: u32_surrogate_le split: if_splits)

lemma utf8_encode_buf_4:
  "0x10000 \<le> u \<Longrightarrow> u \<le> 0x10FFFF \<Longrightarrow> utf8_encode_buf u =
    [ucast (0xF0 OR drop_bit 15 u), ucast (0x80 OR (drop_bit 12 u AND 0x3F)),
     ucast (0x80 OR (drop_bit 6 u AND 0x3F)), ucast (0x80 OR (u AND 0x3F))]"
proof -
  assume u: "0x10000 \<le> u" "u \<le> 0x10FFFF"
  then have "\<not> u \<le> 0x7F" "\<not> u \<le> 0x7FF" "\<not> u \<le> 0xD7FF" "\<not> u \<le> 0xFFFF"
    by (auto simp: word_le_nat_alt)
  with u show ?thesis by (simp add: utf8_encode_buf_def)
qed

text \<open>Three bits of the lead byte and three times six of the tail: 18 bits is all the decoder yields.\<close>

lemmas u32_or_less18 = word_or_less [where 'a = 32 and k = 18, simplified]

lemma utf8_decode_bound:
  "fst (utf8_decode_v2 p sz) = 0xFFFFFFFF \<or> fst (utf8_decode_v2 p sz) < 0x40000"
  by (simp add: utf8_decode_v2_def Let_def u32_or_less18 word_and_less)

subsection \<open>Lemmas on strings\<close>

text \<open>Every string is a sequence of characters and a rest that is none: empty, or malformed.\<close>

abbreviation utf8_chars :: "byte list list \<Rightarrow> bool" where
  "utf8_chars cs \<equiv> list_all utf8_char cs"

lemma utf8_split_loop_append [simp]:
  assumes "utf8_chars cs" and "utf8_getsize_char r \<le> 0"
  shows "utf8_split_loop (concat cs @ r) = cs"
  using assms(1)
proof (induction cs)
  case Nil
  then show ?case using assms(2) by (simp add: utf8_split_loop.simps)
next
  case (Cons c cs)
  then show ?case
    using utf8_char_append [of c "concat cs @ r"] utf8_char_nz [of c]
    by (simp add: utf8_split_loop.simps [of "c @ concat cs @ r"] Let_def)
qed

lemma utf8_split_loop_chars: "utf8_chars (utf8_split_loop p)"
proof (induction p rule: utf8_split_loop.induct)
  case (1 p)
  show ?case
  proof (cases "utf8_getsize_char p \<le> 0")
    case True
    then show ?thesis by (simp add: utf8_split_loop.simps [of p])
  next
    case False
    then show ?thesis using 1 utf8_char_take(1) [of p "nat (utf8_getsize_char p)"]
      by (simp add: utf8_split_loop.simps [of p] Let_def)
  qed
qed

lemma utf8_split_loop_rest:
  "\<exists>r. p = concat (utf8_split_loop p) @ r \<and> utf8_getsize_char r \<le> 0"
proof (induction p rule: utf8_split_loop.induct)
  case (1 p)
  show ?case
  proof (cases "utf8_getsize_char p \<le> 0")
    case True
    then show ?thesis by (simp add: utf8_split_loop.simps [of p])
  next
    case False
    define n where "n = nat (utf8_getsize_char p)"
    obtain r where r: "drop n p = concat (utf8_split_loop (drop n p)) @ r" "utf8_getsize_char r \<le> 0"
      using 1 [OF refl] False by (auto simp: n_def)
    have "utf8_split_loop p = take n p # utf8_split_loop (drop n p)"
      using False by (simp add: utf8_split_loop.simps [of p] Let_def n_def)
    then have "p = concat (utf8_split_loop p) @ r"
      using r(1) append_take_drop_id [of n p] by simp
    then show ?thesis using r(2) by blast
  qed
qed

lemma utf8_decompose:
  obtains cs r where "p = concat cs @ r" and "utf8_chars cs" and "utf8_getsize_char r \<le> 0"
    and "utf8_split_loop p = cs"
  using utf8_split_loop_rest [of p] utf8_split_loop_chars [of p] by blast

lemma utf8_char_cons:
  assumes "utf8_char c"
  shows "cstr_at (c @ s) 0 \<noteq> 0" "utf8_getsize_char (c @ s) = int (length c)"
  using utf8_char_nz [OF assms] utf8_char_append [OF assms] by (simp_all add: cstr_at_append_left)

lemma utf8_getsize_char_nonpos: "utf8_getsize_char r \<le> 0 \<Longrightarrow> cstr_at r 0 \<noteq> 0 \<Longrightarrow> utf8_getsize_char r < 0"
  using utf8_getsize_char_zero [of r] by linarith

lemma utf8_validate_append [simp]:
  assumes "utf8_chars cs" and "utf8_getsize_char r \<le> 0"
  shows "utf8_validate (concat cs @ r) \<longleftrightarrow> cstr_at r 0 = 0"
  using assms(1)
proof (induction cs)
  case Nil
  then show ?case using assms(2) utf8_getsize_char_nonpos [of r] by (simp add: utf8_validate.simps [of r] Let_def)
next
  case (Cons c cs)
  then show ?case
    using utf8_char_cons [of c "concat cs @ r"]
    by (simp add: utf8_validate.simps [of "c @ concat cs @ r"] Let_def)
qed

lemma utf8_strlen_loop_append:
  assumes "utf8_chars cs" and "utf8_getsize_char r \<le> 0"
  shows "utf8_strlen_loop (concat cs @ r) n = (if cstr_at r 0 = 0 then n + int (length cs) else -1)"
  using assms(1)
proof (induction cs arbitrary: n)
  case Nil
  then show ?case using assms(2) utf8_getsize_char_nonpos [of r] by (simp add: utf8_strlen_loop.simps [of r] Let_def)
next
  case (Cons c cs)
  then show ?case
    using utf8_char_cons [of c "concat cs @ r"]
    by (simp add: utf8_strlen_loop.simps [of "c @ concat cs @ r"] Let_def)
qed

lemma utf8_strlen_append [simp]:
  "utf8_chars cs \<Longrightarrow> utf8_getsize_char r \<le> 0 \<Longrightarrow>
    utf8_strlen (concat cs @ r) = (if cstr_at r 0 = 0 then int (length cs) else -1)"
  by (simp add: utf8_strlen_def utf8_strlen_loop_append)

lemma utf8_strpos_loop_append:
  assumes "utf8_chars cs" and "utf8_getsize_char r \<le> 0"
  shows "utf8_strpos_loop (concat cs @ r) i n (n + d) =
    (if d < length cs then Some (i + length (concat (take d cs)), length (cs ! d)) else None)"
  using assms(1)
proof (induction cs arbitrary: i n d)
  case Nil
  then show ?case using assms(2) utf8_getsize_char_nonpos [of r] by (simp add: utf8_strpos_loop.simps [of r] Let_def)
next
  case (Cons c cs)
  then have c: "utf8_char c" by simp
  show ?case
  proof (cases d)
    case 0
    then show ?thesis using utf8_char_cons [OF c]
      by (simp add: utf8_strpos_loop.simps [of "c @ concat cs @ r"] Let_def)
  next
    case (Suc k)
    have "utf8_strpos_loop (concat (c # cs) @ r) i n (n + d) =
        utf8_strpos_loop (concat cs @ r) (i + length c) (Suc n) (Suc n + k)"
      using utf8_char_cons [OF c] Suc
      by (simp add: utf8_strpos_loop.simps [of "c @ concat cs @ r"] Let_def)
    then show ?thesis using Cons Suc by (simp del: add_Suc)
  qed
qed

lemma utf8_strpos_getpos_append:
  assumes "utf8_chars cs" and "utf8_getsize_char r \<le> 0"
  shows "utf8_strpos_getpos (concat cs @ r) pos =
    (let k = (if pos \<ge> 0 then pos else if cstr_at r 0 = 0 then int (length cs) + pos else -1)
     in if 0 \<le> k \<and> k < int (length cs)
        then Some (length (concat (take (nat k) cs)), length (cs ! nat k)) else None)"
  using utf8_strpos_loop_append [OF assms, of 0 0] assms
  by (auto simp: utf8_strpos_getpos_def Let_def nat_less_iff)

lemma until_nul_chars: "utf8_chars cs \<Longrightarrow> until_nul (concat cs @ r) = concat cs @ until_nul r"
proof (induction cs)
  case (Cons c cs)
  have "\<forall>x\<in>set c. x \<noteq> 0" using utf8_char_nz(1) [of c] Cons.prems by (auto simp: cstr_ok_def)
  then show ?case using Cons by (simp add: until_nul_def takeWhile_append2)
qed simp

text \<open>The substring loop, once its start has been passed and before.\<close>

lemma utf8_substr_loop_after:
  assumes "utf8_chars cs" and "utf8_getsize_char r \<le> 0" and "start < int n" and "0 \<le> nchar"
    and "int n \<le> start + nchar"
  shows "\<exists>e p. utf8_substr_loop (concat cs @ r) pos n (Some sp) start nchar = (Some sp, e, p) \<and>
    (case e of None \<Rightarrow> p | Some x \<Rightarrow> x) =
      pos + length (concat (take (nat (start + nchar - int n)) cs))"
  using assms(1,3,5)
proof (induction cs arbitrary: pos n)
  case Nil
  then show ?case using assms(2) utf8_getsize_char_nonpos [of r]
    by (simp add: utf8_substr_loop.simps [of r] Let_def)
next
  case (Cons c cs)
  then have c: "utf8_char c" by simp
  show ?case
  proof (cases "int n = start + nchar")
    case True
    then show ?thesis using utf8_char_cons [OF c] utf8_char_nz [OF c] Cons.prems assms(4)
      by (simp add: utf8_substr_loop.simps [of "c @ concat cs @ r"] Let_def)
  next
    case False
    have "utf8_substr_loop (concat (c # cs) @ r) pos n (Some sp) start nchar =
        utf8_substr_loop (concat cs @ r) (pos + length c) (Suc n) (Some sp) start nchar"
      using utf8_char_cons [OF c] utf8_char_nz [OF c] False Cons.prems assms(4)
      by (simp add: utf8_substr_loop.simps [of "c @ concat cs @ r"] Let_def)
    moreover have "nat (start + nchar - int n) = Suc (nat (start + nchar - int (Suc n)))"
      using False Cons.prems by linarith
    ultimately show ?thesis using Cons.IH [of "Suc n" "pos + length c"] Cons.prems False
      by (simp add: add.assoc)
  qed
qed

lemma utf8_substr_loop_before:
  assumes "utf8_chars cs" and "utf8_getsize_char r \<le> 0" and "int n \<le> start"
  shows "(if start - int n < int (length cs)
    then \<exists>e p. utf8_substr_loop (concat cs @ r) pos n None start nchar =
        (Some (pos + length (concat (take (nat (start - int n)) cs))), e, p) \<and>
      (case e of None \<Rightarrow> p | Some x \<Rightarrow> x) =
        (if nchar < 0 then pos + length (concat cs @ until_nul r)
         else pos + length (concat (take (nat (start + nchar - int n)) cs)))
    else \<exists>e p. utf8_substr_loop (concat cs @ r) pos n None start nchar = (None, e, p))"
  using assms(1,3)
proof (induction cs arbitrary: pos n)
  case Nil
  then show ?case using assms(2) utf8_getsize_char_nonpos [of r]
    by (simp add: utf8_substr_loop.simps [of r] Let_def)
next
  case (Cons c cs)
  then have c: "utf8_char c" by simp
  have un: "until_nul (c @ concat cs @ r) = c @ concat cs @ until_nul r"
    using Cons.prems(1) until_nul_chars [of "c # cs" r] by simp
  show ?case
  proof (cases "int n = start")
    case True
    show ?thesis
    proof (cases "nchar \<le> 0")
      case True
      then show ?thesis using \<open>int n = start\<close> utf8_char_cons [OF c] utf8_char_nz [OF c] un
        by (auto simp add: utf8_substr_loop.simps [of "c @ concat cs @ r"] Let_def)
    next
      case False
      have "utf8_substr_loop (concat (c # cs) @ r) pos n None start nchar =
          utf8_substr_loop (concat cs @ r) (pos + length c) (Suc n) (Some pos) start nchar"
        using utf8_char_cons [OF c] utf8_char_nz [OF c] False \<open>int n = start\<close>
        by (simp add: utf8_substr_loop.simps [of "c @ concat cs @ r"] Let_def)
      moreover have "nat nchar = Suc (nat (start + nchar - int (Suc n)))"
        using False \<open>int n = start\<close> by linarith
      ultimately show ?thesis
        using utf8_substr_loop_after [of cs r start "Suc n" nchar "pos + length c" pos]
          Cons.prems False \<open>int n = start\<close> assms(2)
        by (simp add: add.assoc)
    qed
  next
    case False
    then have lt: "int (Suc n) \<le> start" using Cons.prems by simp
    then have eq: "utf8_substr_loop (concat (c # cs) @ r) pos n None start nchar =
        utf8_substr_loop (concat cs @ r) (pos + length c) (Suc n) None start nchar"
      using utf8_char_cons [OF c] utf8_char_nz [OF c] False Cons.prems
      by (auto simp add: utf8_substr_loop.simps [of "c @ concat cs @ r"] Let_def)
    have s1: "nat (start - int n) = Suc (nat (start - int (Suc n)))" using lt by linarith
    have s2: "nat (start + nchar - int n) = Suc (nat (start + nchar - int (Suc n)))" if "\<not> nchar < 0"
      using lt that by linarith
    show ?thesis
      using Cons.IH [OF _ lt, of "pos + length c"] Cons.prems(1) s1 s2 unfolding eq
      by (auto simp: add.assoc split: if_splits)
  qed
qed

text \<open>What the byte range of a substring selects.\<close>

lemma utf8_substr_getpos_nonneg_append:
  assumes "utf8_chars cs" and "utf8_getsize_char r \<le> 0" and "0 \<le> start"
  shows "utf8_substr_getpos_nonneg (concat cs @ r) start nchar =
    Inr (if nat start < length cs
      then Some (length (concat (take (nat start) cs)),
        if nchar < 0 then length (concat (drop (nat start) cs) @ until_nul r)
        else length (concat (take (nat nchar) (drop (nat start) cs))))
      else None)"
proof (cases "nat start < length cs")
  case False
  then have "\<exists>e p. utf8_substr_loop (concat cs @ r) 0 0 None start nchar = (None, e, p)"
    using utf8_substr_loop_before [OF assms(1,2), of 0 start 0 nchar] assms(3) by (auto split: if_splits)
  then show ?thesis using False by (auto simp: utf8_substr_getpos_nonneg_def)
next
  case True
  let ?st = "length (concat (take (nat start) cs))"
  let ?en = "if nchar < 0 then length (concat cs @ until_nul r)
     else length (concat (take (nat (start + nchar)) cs))"
  obtain e p where e: "utf8_substr_loop (concat cs @ r) 0 0 None start nchar = (Some ?st, e, p)"
      "(case e of None \<Rightarrow> p | Some x \<Rightarrow> x) = ?en"
    using utf8_substr_loop_before [OF assms(1,2), of 0 start 0 nchar] assms(3) True
    by (auto simp: nat_less_iff)
  have cd: "concat cs = concat (take (nat start) cs) @ concat (drop (nat start) cs)"
    by (metis append_take_drop_id concat_append)
  have le: "?st \<le> ?en"
    using length_concat_take_mono [of "nat start" "nat (start + nchar)" cs] assms(3) cd by auto
  have "?en - ?st = (if nchar < 0 then length (concat (drop (nat start) cs) @ until_nul r)
        else length (concat (take (nat nchar) (drop (nat start) cs))))"
    using assms(3) by (simp add: cd nat_add_distrib)
  then show ?thesis using e le True by (auto simp: utf8_substr_getpos_nonneg_def)
qed

lemma utf8_substr_getpos_append:
  assumes "utf8_chars cs" and "utf8_getsize_char r \<le> 0"
  shows "utf8_substr_getpos (concat cs @ r) start nchar =
    (let k = (if start \<ge> 0 then start else if cstr_at r 0 = 0 then int (length cs) + start else -1)
     in if 0 \<le> k \<and> k < int (length cs)
        then Inr (Some (length (concat (take (nat k) cs)),
          if nchar < 0 then length (concat (drop (nat k) cs) @ until_nul r)
          else length (concat (take (nat nchar) (drop (nat k) cs)))))
        else Inr None)"
  using utf8_substr_getpos_nonneg_append [OF assms] assms
  by (auto simp: utf8_substr_getpos_def Let_def nat_less_iff)

lemma until_nul_rest: "cstr_at r 0 = 0 \<Longrightarrow> until_nul r = []"
  by (cases r) (auto simp: until_nul_def)

lemma utf8_cut_loop_append:
  assumes c: "utf8_char c" "\<forall>b\<in>set (tl c). b AND 0xC0 = 0x80"
    and "j < length c" and "length A + j < maxsize"
  shows "utf8_cut_loop (A @ c @ R) maxsize (Suc (length A + j)) =
    (if length A + length c \<le> maxsize then length A + length c else length A)"
  using assms(3,4)
proof (induction j)
  case 0
  have nc: "utf8_getsize_char_nc c = int (length c)"
    using c(1) utf8_getsize_char_pos_iff [of c "length c"] utf8_char_nz(3) [OF c(1)]
    by (auto simp: utf8_char_def)
  have at: "cstr_at (A @ c @ R) (length A) = cstr_at c 0"
    using utf8_char_nz(3) [OF c(1)] by (simp add: cstr_at_append_left)
  show ?case
  proof (cases "length c = 1")
    case True
    then have "cstr_at c 0 AND 0x80 = 0" using nc by (auto simp: utf8_getsize_char_nc_def Let_def split: if_splits)
    then have "cstr_at c 0 AND 0xC0 \<noteq> 0xC0" "cstr_at c 0 AND 0xC0 \<noteq> 0x80" by (simp_all add: word_enum)
    then show ?thesis using True at 0 by (simp add: Let_def)
  next
    case False
    then have "2 \<le> length c" using utf8_char_nz(3) [OF c(1)] by linarith
    then have "cstr_at c 0 AND 0xE0 = 0xC0 \<or> cstr_at c 0 AND 0xF0 = 0xE0 \<or> cstr_at c 0 AND 0xF8 = 0xF0"
      using nc by (auto simp: utf8_getsize_char_nc_def Let_def split: if_splits)
    then have "cstr_at c 0 AND 0xC0 = 0xC0" by (auto simp: word_enum)
    moreover have "Suc (length A + (length c - Suc 0)) = length A + length c"
      using utf8_char_nz(3) [OF c(1)] by simp
    ultimately show ?thesis using at utf8_char_cons(2) [OF c(1), of R] utf8_char_nz(3) [OF c(1)]
      by (simp add: Let_def del: length_greater_0_conv)
  qed
next
  case (Suc j)
  have "cstr_at (A @ c @ R) (length A + Suc j) = c ! Suc j"
    using Suc.prems by (simp add: cstr_at_def nth_append)
  moreover have "c ! Suc j \<in> set (tl c)"
    using Suc.prems by (cases c) auto
  ultimately have "cstr_at (A @ c @ R) (length A + Suc j) AND 0xC0 = 0x80" using c(2) by auto
  then show ?case using Suc by (simp add: Let_def)
qed


subsection \<open>Properties\<close>



text \<open>\<open>utf8_validate\<close> accepts exactly the concatenations of characters, \<open>utf8_split_chars\<close> returns
  these characters, and \<open>utf8_strlen\<close> their number, or -1 for a malformed string.\<close>

theorem utf8_split_validate_strlen:
  "list_all utf8_char (utf8_split_chars s) \<and>
   (utf8_validate (until_nul s) \<longleftrightarrow> concat (utf8_split_chars s) = until_nul s) \<and>
   utf8_strlen_s s = (if utf8_validate (until_nul s) then int (length (utf8_split_chars s)) else -1)"
proof -
  obtain cs r where d: "until_nul s = concat cs @ r" "utf8_chars cs" "utf8_getsize_char r \<le> 0"
      "utf8_split_chars s = cs"
    using utf8_decompose [of "until_nul s"] by (metis utf8_split_chars_def)
  have "cstr_ok r" using until_nul_cstr_ok [of s] d(1) by simp
  then have "cstr_at r 0 = 0 \<longleftrightarrow> r = []" using cstr_ok_at [of r 0] by auto
  then show ?thesis using d by (simp add: utf8_strlen_s_def)
qed

lemma utf8_valid_chars:
  assumes "utf8_validate (until_nul s)"
  obtains cs where "until_nul s = concat cs" and "utf8_chars cs" and "utf8_split_chars s = cs"
proof -
  obtain cs r where d: "until_nul s = concat cs @ r" "utf8_chars cs" "utf8_getsize_char r \<le> 0"
      "utf8_split_chars s = cs"
    using utf8_decompose [of "until_nul s"] by (metis utf8_split_chars_def)
  have "cstr_at r 0 = 0" using assms d by simp
  moreover have "cstr_ok r" using until_nul_cstr_ok [of s] d(1) by simp
  ultimately have "r = []" using cstr_ok_at [of r 0] by auto
  then show ?thesis using d that by simp
qed

lemma utf8_getsize_char_Nil [simp]: "utf8_getsize_char [] = 0"
  by (simp add: utf8_getsize_char_zero)



text \<open>\<open>utf8_cut_by_size\<close> never cuts a character in two: on a string of characters whose tail bytes are
  continuation bytes it returns the longest prefix of whole characters that fits \<open>maxsize\<close>.\<close>

theorem utf8_cut_by_size_boundary:
  assumes "\<forall>c\<in>set cs. utf8_char c \<and> (\<forall>b\<in>set (tl c). b AND 0xC0 = 0x80)"
  shows "\<exists>k\<le>length cs. utf8_cut_by_size (concat cs) (-1) maxsize = length (concat (take k cs)) \<and>
    length (concat (take k cs)) \<le> maxsize \<and>
    (k < length cs \<longrightarrow> maxsize < length (concat (take (Suc k) cs)))"
proof -
  have chars: "utf8_chars cs" using assms by (simp add: list_all_iff)
  have len: "length (until_nul (concat cs)) = length (concat cs)"
    using until_nul_chars [OF chars, of "[]"] by (simp add: until_nul_rest)
  have ne: "0 < length (cs ! k)" if "k < length cs" for k
    using assms that utf8_char_nz(3) [of "cs ! k"] by auto
  have step: "length (concat (take (Suc k) cs)) = length (concat (take k cs)) + length (cs ! k)"
    if "k < length cs" for k
    using that by (simp add: take_Suc_conv_app_nth)
  show ?thesis
  proof (cases "length (concat cs) \<le> maxsize")
    case True
    then show ?thesis using len by (intro exI [of _ "length cs"]) (simp add: utf8_cut_by_size_def)
  next
    case False
    then have cut: "utf8_cut_by_size (concat cs) (-1) maxsize = utf8_cut_loop (concat cs) maxsize maxsize"
      using len by (simp add: utf8_cut_by_size_def)
    show ?thesis
    proof (cases maxsize)
      case 0
      then show ?thesis using cut ne [of 0] step [of 0] by (intro exI [of _ 0]) auto
    next
      case (Suc p)
      then obtain k j where k: "k < length cs" "j < length (cs ! k)" "p = length (concat (take k cs)) + j"
        using concat_position [of p cs] False by auto
      have split: "concat cs = concat (take k cs) @ cs ! k @ concat (drop (Suc k) cs)"
        using id_take_nth_drop [OF k(1)] by (metis concat.simps(2) concat_append)
      have "utf8_char (cs ! k)" "\<forall>b\<in>set (tl (cs ! k)). b AND 0xC0 = 0x80" using assms k(1) by auto
      from utf8_cut_loop_append [OF this k(2), of "concat (take k cs)" maxsize "concat (drop (Suc k) cs)"]
      have r: "utf8_cut_by_size (concat cs) (-1) maxsize =
          (if length (concat (take (Suc k) cs)) \<le> maxsize then length (concat (take (Suc k) cs))
           else length (concat (take k cs)))"
        using cut Suc k split step [OF k(1)] by simp
      show ?thesis
      proof (cases "length (concat (take (Suc k) cs)) \<le> maxsize")
        case True
        then show ?thesis using r k Suc step [OF k(1)] ne [of "Suc k"] step [of "Suc k"]
          by (intro exI [of _ "Suc k"]) (auto simp del: length_greater_0_conv)
      next
        case False
        then show ?thesis using r k Suc by (intro exI [of _ k]) auto
      qed
    qed
  qed
qed

lemma utf8_cut_by_size_boundary_witness:
  "utf8_cut_by_size [0x41, 0xEA, 0xB0, 0x80, 0xC3, 0xA9] (-1) 5 = 4"
proof -
  let ?cs = "[[0x41], [0xEA, 0xB0, 0x80], [0xC3, 0xA9]] :: byte list list"
  have "\<forall>c\<in>set ?cs. utf8_char c \<and> (\<forall>b\<in>set (tl c). b AND 0xC0 = 0x80)"
    by (simp add: utf8_char_def utf8_getsize_char_def utf8_getsize_char_nc_def Let_def)
  from utf8_cut_by_size_boundary [OF this, of 5]
  obtain k where "k \<le> length ?cs" "utf8_cut_by_size (concat ?cs) (-1) 5 = length (concat (take k ?cs))"
    "length (concat (take k ?cs)) \<le> 5" "k < length ?cs \<longrightarrow> 5 < length (concat (take (Suc k) ?cs))"
    by blast
  moreover have "k = 0 \<or> k = 1 \<or> k = 2 \<or> k = 3" using \<open>k \<le> length ?cs\<close> by simp arith
  ultimately show ?thesis by auto
qed

end
