(* ===== verification/Pcre.thy ===== *)
theory Pcre
  imports Main
begin

text \<open>
  The regular-expression library (libpcre behind \<open>pcrecpp::RE\<close>) as a parameter of the model: a
  record of the three operations the sources call, each on the pattern text of the source.
  \<open>re_full\<close> and \<open>re_partial\<close> return the captured groups, \<open>re_global_replace\<close> the rewritten
  string. The components state as named hypotheses what they rely on for their own patterns.
\<close>

record 'c pcre =
  re_full :: "'c list \<Rightarrow> 'c list \<Rightarrow> 'c list list option"
  re_partial :: "'c list \<Rightarrow> 'c list \<Rightarrow> 'c list list option"
  re_global_replace :: "'c list \<Rightarrow> 'c list \<Rightarrow> 'c list \<Rightarrow> 'c list"

end
