(* ===== verification/Hangul.thy ===== *)
theory Hangul
  imports Utf8 Pcre
begin

text \<open>
  Hangul composition and decomposition: \<open>hangul_impl.h\<close>, \<open>hangul_impl.c\<close> (the jamo tables and the
  part taken from libhangul) and the text functions of \<open>hangul.cpp\<close>.

  A table access with an index the code checks first is \<open>table ! unat (c - base)\<close>. Functions that
  write through pointers return an option of the tuple, \<open>None\<close> being -1. Korean string literals
  of the source are given by their UTF-8 bytes.
\<close>

subsection \<open>Code points\<close>

abbreviation HANGUL_CODE_NONE :: u32 where "HANGUL_CODE_NONE \<equiv> 0x0"
abbreviation HANGUL_CONSONANT_G :: u32 where "HANGUL_CONSONANT_G \<equiv> 0x3131"
abbreviation HANGUL_CONSONANT_GG :: u32 where "HANGUL_CONSONANT_GG \<equiv> 0x3132"
abbreviation HANGUL_CONSONANT_GS :: u32 where "HANGUL_CONSONANT_GS \<equiv> 0x3133"
abbreviation HANGUL_CONSONANT_N :: u32 where "HANGUL_CONSONANT_N \<equiv> 0x3134"
abbreviation HANGUL_CONSONANT_NJ :: u32 where "HANGUL_CONSONANT_NJ \<equiv> 0x3135"
abbreviation HANGUL_CONSONANT_NH :: u32 where "HANGUL_CONSONANT_NH \<equiv> 0x3136"
abbreviation HANGUL_CONSONANT_D :: u32 where "HANGUL_CONSONANT_D \<equiv> 0x3137"
abbreviation HANGUL_CONSONANT_DD :: u32 where "HANGUL_CONSONANT_DD \<equiv> 0x3138"
abbreviation HANGUL_CONSONANT_L :: u32 where "HANGUL_CONSONANT_L \<equiv> 0x3139"
abbreviation HANGUL_CONSONANT_LG :: u32 where "HANGUL_CONSONANT_LG \<equiv> 0x313a"
abbreviation HANGUL_CONSONANT_LM :: u32 where "HANGUL_CONSONANT_LM \<equiv> 0x313b"
abbreviation HANGUL_CONSONANT_LB :: u32 where "HANGUL_CONSONANT_LB \<equiv> 0x313c"
abbreviation HANGUL_CONSONANT_LS :: u32 where "HANGUL_CONSONANT_LS \<equiv> 0x313d"
abbreviation HANGUL_CONSONANT_LT :: u32 where "HANGUL_CONSONANT_LT \<equiv> 0x313e"
abbreviation HANGUL_CONSONANT_LP :: u32 where "HANGUL_CONSONANT_LP \<equiv> 0x313f"
abbreviation HANGUL_CONSONANT_LH :: u32 where "HANGUL_CONSONANT_LH \<equiv> 0x3140"
abbreviation HANGUL_CONSONANT_M :: u32 where "HANGUL_CONSONANT_M \<equiv> 0x3141"
abbreviation HANGUL_CONSONANT_B :: u32 where "HANGUL_CONSONANT_B \<equiv> 0x3142"
abbreviation HANGUL_CONSONANT_BB :: u32 where "HANGUL_CONSONANT_BB \<equiv> 0x3143"
abbreviation HANGUL_CONSONANT_BS :: u32 where "HANGUL_CONSONANT_BS \<equiv> 0x3144"
abbreviation HANGUL_CONSONANT_S :: u32 where "HANGUL_CONSONANT_S \<equiv> 0x3145"
abbreviation HANGUL_CONSONANT_SS :: u32 where "HANGUL_CONSONANT_SS \<equiv> 0x3146"
abbreviation HANGUL_CONSONANT_NG :: u32 where "HANGUL_CONSONANT_NG \<equiv> 0x3147"
abbreviation HANGUL_CONSONANT_J :: u32 where "HANGUL_CONSONANT_J \<equiv> 0x3148"
abbreviation HANGUL_CONSONANT_JJ :: u32 where "HANGUL_CONSONANT_JJ \<equiv> 0x3149"
abbreviation HANGUL_CONSONANT_CH :: u32 where "HANGUL_CONSONANT_CH \<equiv> 0x314a"
abbreviation HANGUL_CONSONANT_K :: u32 where "HANGUL_CONSONANT_K \<equiv> 0x314b"
abbreviation HANGUL_CONSONANT_T :: u32 where "HANGUL_CONSONANT_T \<equiv> 0x314c"
abbreviation HANGUL_CONSONANT_P :: u32 where "HANGUL_CONSONANT_P \<equiv> 0x314d"
abbreviation HANGUL_CONSONANT_H :: u32 where "HANGUL_CONSONANT_H \<equiv> 0x314e"
abbreviation HANGUL_VOWEL_A :: u32 where "HANGUL_VOWEL_A \<equiv> 0x314f"
abbreviation HANGUL_VOWEL_AE :: u32 where "HANGUL_VOWEL_AE \<equiv> 0x3150"
abbreviation HANGUL_VOWEL_YA :: u32 where "HANGUL_VOWEL_YA \<equiv> 0x3151"
abbreviation HANGUL_VOWEL_YAE :: u32 where "HANGUL_VOWEL_YAE \<equiv> 0x3152"
abbreviation HANGUL_VOWEL_EO :: u32 where "HANGUL_VOWEL_EO \<equiv> 0x3153"
abbreviation HANGUL_VOWEL_E :: u32 where "HANGUL_VOWEL_E \<equiv> 0x3154"
abbreviation HANGUL_VOWEL_YEO :: u32 where "HANGUL_VOWEL_YEO \<equiv> 0x3155"
abbreviation HANGUL_VOWEL_YE :: u32 where "HANGUL_VOWEL_YE \<equiv> 0x3156"
abbreviation HANGUL_VOWEL_O :: u32 where "HANGUL_VOWEL_O \<equiv> 0x3157"
abbreviation HANGUL_VOWEL_WA :: u32 where "HANGUL_VOWEL_WA \<equiv> 0x3158"
abbreviation HANGUL_VOWEL_WAE :: u32 where "HANGUL_VOWEL_WAE \<equiv> 0x3159"
abbreviation HANGUL_VOWEL_OE :: u32 where "HANGUL_VOWEL_OE \<equiv> 0x315a"
abbreviation HANGUL_VOWEL_YO :: u32 where "HANGUL_VOWEL_YO \<equiv> 0x315b"
abbreviation HANGUL_VOWEL_U :: u32 where "HANGUL_VOWEL_U \<equiv> 0x315c"
abbreviation HANGUL_VOWEL_WO :: u32 where "HANGUL_VOWEL_WO \<equiv> 0x315d"
abbreviation HANGUL_VOWEL_WE :: u32 where "HANGUL_VOWEL_WE \<equiv> 0x315e"
abbreviation HANGUL_VOWEL_WI :: u32 where "HANGUL_VOWEL_WI \<equiv> 0x315f"
abbreviation HANGUL_VOWEL_YU :: u32 where "HANGUL_VOWEL_YU \<equiv> 0x3160"
abbreviation HANGUL_VOWEL_EU :: u32 where "HANGUL_VOWEL_EU \<equiv> 0x3161"
abbreviation HANGUL_VOWEL_UI :: u32 where "HANGUL_VOWEL_UI \<equiv> 0x3162"
abbreviation HANGUL_VOWEL_I :: u32 where "HANGUL_VOWEL_I \<equiv> 0x3163"
abbreviation HANGUL_OLDCONSONANT_NN :: u32 where "HANGUL_OLDCONSONANT_NN \<equiv> 0x3165"
abbreviation HANGUL_OLDCONSONANT_ND :: u32 where "HANGUL_OLDCONSONANT_ND \<equiv> 0x3166"
abbreviation HANGUL_OLDCONSONANT_NS :: u32 where "HANGUL_OLDCONSONANT_NS \<equiv> 0x3167"
abbreviation HANGUL_OLDCONSONANT_NZ :: u32 where "HANGUL_OLDCONSONANT_NZ \<equiv> 0x3168"
abbreviation HANGUL_OLDCONSONANT_LGS :: u32 where "HANGUL_OLDCONSONANT_LGS \<equiv> 0x3169"
abbreviation HANGUL_OLDCONSONANT_LD :: u32 where "HANGUL_OLDCONSONANT_LD \<equiv> 0x316a"
abbreviation HANGUL_OLDCONSONANT_LBS :: u32 where "HANGUL_OLDCONSONANT_LBS \<equiv> 0x316b"
abbreviation HANGUL_OLDCONSONANT_LZ :: u32 where "HANGUL_OLDCONSONANT_LZ \<equiv> 0x316c"
abbreviation HANGUL_OLDCONSONANT_LNG2 :: u32 where "HANGUL_OLDCONSONANT_LNG2 \<equiv> 0x316d"
abbreviation HANGUL_OLDCONSONANT_MB :: u32 where "HANGUL_OLDCONSONANT_MB \<equiv> 0x316e"
abbreviation HANGUL_OLDCONSONANT_MS :: u32 where "HANGUL_OLDCONSONANT_MS \<equiv> 0x316f"
abbreviation HANGUL_OLDCONSONANT_MZ :: u32 where "HANGUL_OLDCONSONANT_MZ \<equiv> 0x3170"
abbreviation HANGUL_OLDCONSONANT_MNG :: u32 where "HANGUL_OLDCONSONANT_MNG \<equiv> 0x3171"
abbreviation HANGUL_OLDCONSONANT_BG :: u32 where "HANGUL_OLDCONSONANT_BG \<equiv> 0x3172"
abbreviation HANGUL_OLDCONSONANT_BD :: u32 where "HANGUL_OLDCONSONANT_BD \<equiv> 0x3173"
abbreviation HANGUL_OLDCONSONANT_BSG :: u32 where "HANGUL_OLDCONSONANT_BSG \<equiv> 0x3174"
abbreviation HANGUL_OLDCONSONANT_BSD :: u32 where "HANGUL_OLDCONSONANT_BSD \<equiv> 0x3175"
abbreviation HANGUL_OLDCONSONANT_BJ :: u32 where "HANGUL_OLDCONSONANT_BJ \<equiv> 0x3176"
abbreviation HANGUL_OLDCONSONANT_BT :: u32 where "HANGUL_OLDCONSONANT_BT \<equiv> 0x3177"
abbreviation HANGUL_OLDCONSONANT_BNG :: u32 where "HANGUL_OLDCONSONANT_BNG \<equiv> 0x3178"
abbreviation HANGUL_OLDCONSONANT_BBNG :: u32 where "HANGUL_OLDCONSONANT_BBNG \<equiv> 0x3179"
abbreviation HANGUL_OLDCONSONANT_SG :: u32 where "HANGUL_OLDCONSONANT_SG \<equiv> 0x317a"
abbreviation HANGUL_OLDCONSONANT_SN :: u32 where "HANGUL_OLDCONSONANT_SN \<equiv> 0x317b"
abbreviation HANGUL_OLDCONSONANT_SD :: u32 where "HANGUL_OLDCONSONANT_SD \<equiv> 0x317c"
abbreviation HANGUL_OLDCONSONANT_SB :: u32 where "HANGUL_OLDCONSONANT_SB \<equiv> 0x317d"
abbreviation HANGUL_OLDCONSONANT_SJ :: u32 where "HANGUL_OLDCONSONANT_SJ \<equiv> 0x317e"
abbreviation HANGUL_OLDCONSONANT_Z :: u32 where "HANGUL_OLDCONSONANT_Z \<equiv> 0x317f"
abbreviation HANGUL_OLDCONSONANT_NGNG :: u32 where "HANGUL_OLDCONSONANT_NGNG \<equiv> 0x3180"
abbreviation HANGUL_OLDCONSONANT_NNG :: u32 where "HANGUL_OLDCONSONANT_NNG \<equiv> 0x3181"
abbreviation HANGUL_OLDCONSONANT_NNGS :: u32 where "HANGUL_OLDCONSONANT_NNGS \<equiv> 0x3182"
abbreviation HANGUL_OLDCONSONANT_NNGZ :: u32 where "HANGUL_OLDCONSONANT_NNGZ \<equiv> 0x3183"
abbreviation HANGUL_OLDCONSONANT_PNG :: u32 where "HANGUL_OLDCONSONANT_PNG \<equiv> 0x3184"
abbreviation HANGUL_OLDCONSONANT_HH :: u32 where "HANGUL_OLDCONSONANT_HH \<equiv> 0x3185"
abbreviation HANGUL_OLDCONSONANT_NG2 :: u32 where "HANGUL_OLDCONSONANT_NG2 \<equiv> 0x3186"
abbreviation HANGUL_OLDVOWEL_YOYA :: u32 where "HANGUL_OLDVOWEL_YOYA \<equiv> 0x3187"
abbreviation HANGUL_OLDVOWEL_YOYAE :: u32 where "HANGUL_OLDVOWEL_YOYAE \<equiv> 0x3188"
abbreviation HANGUL_OLDVOWEL_YOI :: u32 where "HANGUL_OLDVOWEL_YOI \<equiv> 0x3189"
abbreviation HANGUL_OLDVOWEL_YUYEO :: u32 where "HANGUL_OLDVOWEL_YUYEO \<equiv> 0x318a"
abbreviation HANGUL_OLDVOWEL_YUYE :: u32 where "HANGUL_OLDVOWEL_YUYE \<equiv> 0x318b"
abbreviation HANGUL_OLDVOWEL_YUI :: u32 where "HANGUL_OLDVOWEL_YUI \<equiv> 0x318c"
abbreviation HANGUL_OLDVOWEL_OA :: u32 where "HANGUL_OLDVOWEL_OA \<equiv> 0x318d"
abbreviation HANGUL_OLDVOWEL_OAI :: u32 where "HANGUL_OLDVOWEL_OAI \<equiv> 0x318e"
abbreviation HANGUL_CODE_END :: u32 where "HANGUL_CODE_END \<equiv> 0xffff"

definition hangul_is_consonant :: "u32 \<Rightarrow> bool" where
  "hangul_is_consonant c \<longleftrightarrow> c \<ge> 0x3131 \<and> c \<le> 0x314e"

definition hangul_is_vowel :: "u32 \<Rightarrow> bool" where
  "hangul_is_vowel c \<longleftrightarrow> c \<ge> 0x314f \<and> c \<le> 0x3163"

definition hangul_is_oldconsonant :: "u32 \<Rightarrow> bool" where
  "hangul_is_oldconsonant c \<longleftrightarrow> c \<ge> 0x3165 \<and> c \<le> 0x3186"

definition hangul_is_oldvowel :: "u32 \<Rightarrow> bool" where
  "hangul_is_oldvowel c \<longleftrightarrow> c \<ge> 0x3187 \<and> c \<le> 0x318e"

definition hangul_is_jamo :: "u32 \<Rightarrow> bool" where
  "hangul_is_jamo c \<longleftrightarrow> c \<ge> 0x3131 \<and> c \<le> 0x3163"

definition hangul_is_oldjamo :: "u32 \<Rightarrow> bool" where
  "hangul_is_oldjamo c \<longleftrightarrow> c \<ge> 0x3165 \<and> c \<le> 0x318e"

definition hangul_is_jamo_all :: "u32 \<Rightarrow> bool" where
  "hangul_is_jamo_all c \<longleftrightarrow> c \<ge> 0x3131 \<and> c \<le> 0x318e"

definition hangul_is_choseong :: "u32 \<Rightarrow> bool" where
  "hangul_is_choseong c \<longleftrightarrow> c \<ge> 0x1100 \<and> c \<le> 0x1159"

definition hangul_is_jungseong :: "u32 \<Rightarrow> bool" where
  "hangul_is_jungseong c \<longleftrightarrow> c \<ge> 0x1161 \<and> c \<le> 0x11a2"

definition hangul_is_jongseong :: "u32 \<Rightarrow> bool" where
  "hangul_is_jongseong c \<longleftrightarrow> c \<ge> 0x11a8 \<and> c \<le> 0x11f9"

definition hangul_is_choseong_conjoinable :: "u32 \<Rightarrow> bool" where
  "hangul_is_choseong_conjoinable c \<longleftrightarrow> c \<ge> 0x1100 \<and> c \<le> 0x1112"

definition hangul_is_jungseong_conjoinable :: "u32 \<Rightarrow> bool" where
  "hangul_is_jungseong_conjoinable c \<longleftrightarrow> c \<ge> 0x1161 \<and> c \<le> 0x1175"

definition hangul_is_jongseong_conjoinable :: "u32 \<Rightarrow> bool" where
  "hangul_is_jongseong_conjoinable c \<longleftrightarrow> c \<ge> 0x11a7 \<and> c \<le> 0x11c2"

definition hangul_is_jaso :: "u32 \<Rightarrow> bool" where
  "hangul_is_jaso c \<longleftrightarrow> hangul_is_choseong c \<or> hangul_is_jungseong c \<or> hangul_is_jongseong c"

definition hangul_is_syllable :: "u32 \<Rightarrow> bool" where
  "hangul_is_syllable c \<longleftrightarrow> c \<ge> 0xac00 \<and> c \<le> 0xd7a3"

definition hangul_is_choseong_jamo :: "u32 \<Rightarrow> bool" where
  "hangul_is_choseong_jamo c \<longleftrightarrow>
    c = 0x3131 \<or> c = 0x3132 \<or> c = 0x3134 \<or> (c \<ge> 0x3137 \<and> c \<le> 0x3139) \<or>
    (c \<ge> 0x3141 \<and> c \<le> 0x3143) \<or> (c \<ge> 0x3145 \<and> c \<le> 0x314e)"

definition hangul_is_jongseong_jamo :: "u32 \<Rightarrow> bool" where
  "hangul_is_jongseong_jamo c \<longleftrightarrow>
    (c \<ge> 0x3131 \<and> c \<le> 0x3137) \<or> (c \<ge> 0x3139 \<and> c \<le> 0x3142) \<or>
    (c \<ge> 0x3144 \<and> c \<le> 0x3148) \<or> (c \<ge> 0x314a \<and> c \<le> 0x314e)"

subsection \<open>Joining and splitting syllables\<close>

definition jamo_table :: "(u32 \<times> u32 \<times> u32) list" where
  "jamo_table =
   [(1, 0, 1), (2, 0, 2), (0, 0, 3), (3, 0, 4), (0, 0, 5), (0, 0, 6), (4, 0, 7), (5, 0, 0),
   (6, 0, 8), (0, 0, 9), (0, 0, 10), (0, 0, 11), (0, 0, 12), (0, 0, 13), (0, 0, 14), (0, 0, 15),
   (7, 0, 16), (8, 0, 17), (9, 0, 0), (0, 0, 18), (10, 0, 19), (11, 0, 20), (12, 0, 21),
   (13, 0, 22), (14, 0, 0), (15, 0, 23), (16, 0, 24), (17, 0, 25), (18, 0, 26), (19, 0, 27),
   (0, 1, 0), (0, 2, 0), (0, 3, 0), (0, 4, 0), (0, 5, 0), (0, 6, 0), (0, 7, 0), (0, 8, 0),
   (0, 9, 0), (0, 10, 0), (0, 11, 0), (0, 12, 0), (0, 13, 0), (0, 14, 0), (0, 15, 0), (0, 16, 0),
   (0, 17, 0), (0, 18, 0), (0, 19, 0), (0, 20, 0), (0, 21, 0)]"

definition hangul_join :: "u32 \<Rightarrow> u32 \<Rightarrow> u32 \<Rightarrow> u32" where
  "hangul_join lead vowel tail =
    (if lead < 0x3131 \<or> lead > 0x3163 then 0
     else let lead = fst (jamo_table ! unat (lead - 0x3131))
       in if vowel < 0x3131 \<or> vowel > 0x3163 then 0
          else let vowel = fst (snd (jamo_table ! unat (vowel - 0x3131)))
            in if tail \<noteq> 0 \<and> (tail < 0x3131 \<or> tail > 0x3163) then 0
               else let tail' = (if tail \<noteq> 0 then snd (snd (jamo_table ! unat (tail - 0x3131))) else 0)
                 in if tail \<noteq> 0 \<and> tail' = 0 then 0
                    else if lead \<noteq> 0 \<and> vowel \<noteq> 0
                         then tail' + (vowel - 1) * 28 + (lead - 1) * 588 + 44032
                         else 0)"

text \<open>A null pointer argument is \<open>None\<close>.\<close>

definition hangul_join_utf8char :: "byte list option \<Rightarrow> byte list option \<Rightarrow> byte list option \<Rightarrow> u32" where
  "hangul_join_utf8char lead_utf8char vowel_utf8char tail_utf8char =
    (let lead = (case lead_utf8char of None \<Rightarrow> 0 | Some p \<Rightarrow> fst (utf8_decode p));
         vowel = (case vowel_utf8char of None \<Rightarrow> 0 | Some p \<Rightarrow> fst (utf8_decode p));
         tail = (case tail_utf8char of None \<Rightarrow> 0
                 | Some p \<Rightarrow> if cstr_at p 0 \<noteq> 0 then fst (utf8_decode p) else 0)
     in hangul_join lead vowel tail)"

definition initials :: "u32 list" where
  "initials =
   [0x3131, 0x3132, 0x3134, 0x3137, 0x3138, 0x3139, 0x3141, 0x3142, 0x3143, 0x3145, 0x3146, 0x3147,
   0x3148, 0x3149, 0x314a, 0x314b, 0x314c, 0x314d, 0x314e]"

definition medials :: "u32 list" where
  "medials =
   [0x314f, 0x3150, 0x3151, 0x3152, 0x3153, 0x3154, 0x3155, 0x3156, 0x3157, 0x3158, 0x3159, 0x315a,
   0x315b, 0x315c, 0x315d, 0x315e, 0x315f, 0x3160, 0x3161, 0x3162, 0x3163]"

definition finals :: "u32 list" where
  "finals =
   [0x0000, 0x3131, 0x3132, 0x3133, 0x3134, 0x3135, 0x3136, 0x3137, 0x3139, 0x313a, 0x313b, 0x313c,
   0x313d, 0x313e, 0x313f, 0x3140, 0x3141, 0x3142, 0x3144, 0x3145, 0x3146, 0x3147, 0x3148, 0x314a,
   0x314b, 0x314c, 0x314d, 0x314e]"

definition hangul_split :: "u32 \<Rightarrow> (u32 \<times> u32 \<times> u32) option" where
  "hangul_split chr =
    (if chr \<ge> 0xAC00 \<and> chr \<le> 0xD7A3 then
       (let c = chr - 0xAC00; a = c div (21 * 28); c = c mod (21 * 28); b = c div 28; c = c mod 28
        in Some (initials ! unat a, medials ! unat b, finals ! unat c))
     else None)"

definition hangul_split_utf8char :: "byte list \<Rightarrow> (byte list \<times> byte list \<times> byte list) option" where
  "hangul_split_utf8char utf8char =
    (case hangul_split (fst (utf8_decode utf8char)) of
       None \<Rightarrow> None
     | Some (lead, vowel, tail) \<Rightarrow>
         Some (snd (utf8_encode_nt lead 4), snd (utf8_encode_nt vowel 4),
               if tail \<noteq> 0 then snd (utf8_encode_nt tail 4) else []))"

subsection \<open>Merging jamo\<close>

definition hangul_consonant_merge_table :: "(u32 \<times> u32 \<times> u32) list" where
  "hangul_consonant_merge_table =
   [(HANGUL_CONSONANT_G, HANGUL_CONSONANT_G, HANGUL_CONSONANT_GG),
    (HANGUL_CONSONANT_G, HANGUL_CONSONANT_S, HANGUL_CONSONANT_GS),
    (HANGUL_CONSONANT_N, HANGUL_CONSONANT_J, HANGUL_CONSONANT_NJ),
    (HANGUL_CONSONANT_N, HANGUL_CONSONANT_H, HANGUL_CONSONANT_NH),
    (HANGUL_CONSONANT_D, HANGUL_CONSONANT_D, HANGUL_CONSONANT_DD),
    (HANGUL_CONSONANT_L, HANGUL_CONSONANT_G, HANGUL_CONSONANT_LG),
    (HANGUL_CONSONANT_L, HANGUL_CONSONANT_M, HANGUL_CONSONANT_LM),
    (HANGUL_CONSONANT_L, HANGUL_CONSONANT_B, HANGUL_CONSONANT_LB),
    (HANGUL_CONSONANT_L, HANGUL_CONSONANT_S, HANGUL_CONSONANT_LS),
    (HANGUL_CONSONANT_L, HANGUL_CONSONANT_T, HANGUL_CONSONANT_LT),
    (HANGUL_CONSONANT_L, HANGUL_CONSONANT_P, HANGUL_CONSONANT_LP),
    (HANGUL_CONSONANT_L, HANGUL_CONSONANT_H, HANGUL_CONSONANT_LH),
    (HANGUL_CONSONANT_B, HANGUL_CONSONANT_B, HANGUL_CONSONANT_BB),
    (HANGUL_CONSONANT_B, HANGUL_CONSONANT_S, HANGUL_CONSONANT_BS),
    (HANGUL_CONSONANT_S, HANGUL_CONSONANT_S, HANGUL_CONSONANT_SS),
    (HANGUL_CONSONANT_J, HANGUL_CONSONANT_J, HANGUL_CONSONANT_JJ)]"

text \<open>The loop over a merge table, up to its all-zero end mark.\<close>

primrec merge_scan :: "(u32 \<times> u32 \<times> u32) list \<Rightarrow> u32 \<Rightarrow> u32 \<Rightarrow> u32" where
  "merge_scan [] c1 c2 = 0"
| "merge_scan (p # ps) c1 c2 =
    (if fst p = c1 \<and> fst (snd p) = c2 then snd (snd p) else merge_scan ps c1 c2)"

definition hangul_merge_consonant :: "u32 \<Rightarrow> u32 \<Rightarrow> u32" where
  "hangul_merge_consonant cons1 cons2 = merge_scan hangul_consonant_merge_table cons1 cons2"

definition hangul_vowel_merge_table :: "(u32 \<times> u32 \<times> u32) list" where
  "hangul_vowel_merge_table =
   [(HANGUL_VOWEL_O, HANGUL_VOWEL_A, HANGUL_VOWEL_WA),
    (HANGUL_VOWEL_O, HANGUL_VOWEL_AE, HANGUL_VOWEL_WAE),
    (HANGUL_VOWEL_O, HANGUL_VOWEL_I, HANGUL_VOWEL_OE),
    (HANGUL_VOWEL_U, HANGUL_VOWEL_EO, HANGUL_VOWEL_WO),
    (HANGUL_VOWEL_U, HANGUL_VOWEL_E, HANGUL_VOWEL_WE),
    (HANGUL_VOWEL_U, HANGUL_VOWEL_I, HANGUL_VOWEL_WI),
    (HANGUL_VOWEL_EU, HANGUL_VOWEL_I, HANGUL_VOWEL_UI)]"

definition hangul_merge_vowel :: "u32 \<Rightarrow> u32 \<Rightarrow> u32" where
  "hangul_merge_vowel vowel1 vowel2 = merge_scan hangul_vowel_merge_table vowel1 vowel2"

definition hangul_oldconsonant_merge_table :: "(u32 \<times> u32 \<times> u32 \<times> u32) list" where
  "hangul_oldconsonant_merge_table =
   [(HANGUL_CONSONANT_N, HANGUL_CONSONANT_N, 0, HANGUL_OLDCONSONANT_NN),
    (HANGUL_CONSONANT_N, HANGUL_CONSONANT_D, 0, HANGUL_OLDCONSONANT_ND),
    (HANGUL_CONSONANT_N, HANGUL_CONSONANT_S, 0, HANGUL_OLDCONSONANT_NS),
    (HANGUL_CONSONANT_N, HANGUL_OLDCONSONANT_Z, 0, HANGUL_OLDCONSONANT_NZ),
    (HANGUL_CONSONANT_L, HANGUL_CONSONANT_G, HANGUL_CONSONANT_S, HANGUL_OLDCONSONANT_LGS),
    (HANGUL_CONSONANT_LG, HANGUL_CONSONANT_S, 0, HANGUL_OLDCONSONANT_LGS),
    (HANGUL_CONSONANT_L, HANGUL_CONSONANT_GS, 0, HANGUL_OLDCONSONANT_LGS),
    (HANGUL_CONSONANT_L, HANGUL_CONSONANT_D, 0, HANGUL_OLDCONSONANT_LD),
    (HANGUL_CONSONANT_L, HANGUL_CONSONANT_B, HANGUL_CONSONANT_S, HANGUL_OLDCONSONANT_LBS),
    (HANGUL_CONSONANT_LB, HANGUL_CONSONANT_S, 0, HANGUL_OLDCONSONANT_LBS),
    (HANGUL_CONSONANT_L, HANGUL_CONSONANT_BS, 0, HANGUL_OLDCONSONANT_LBS),
    (HANGUL_CONSONANT_L, HANGUL_OLDCONSONANT_Z, 0, HANGUL_OLDCONSONANT_LZ),
    (HANGUL_CONSONANT_L, HANGUL_OLDCONSONANT_NG2, 0, HANGUL_OLDCONSONANT_LNG2),
    (HANGUL_CONSONANT_M, HANGUL_CONSONANT_B, 0, HANGUL_OLDCONSONANT_MB),
    (HANGUL_CONSONANT_M, HANGUL_CONSONANT_S, 0, HANGUL_OLDCONSONANT_MS),
    (HANGUL_CONSONANT_M, HANGUL_OLDCONSONANT_Z, 0, HANGUL_OLDCONSONANT_MZ),
    (HANGUL_CONSONANT_M, HANGUL_CONSONANT_NG, 0, HANGUL_OLDCONSONANT_MNG),
    (HANGUL_CONSONANT_B, HANGUL_CONSONANT_G, 0, HANGUL_OLDCONSONANT_BG),
    (HANGUL_CONSONANT_B, HANGUL_CONSONANT_D, 0, HANGUL_OLDCONSONANT_BD),
    (HANGUL_CONSONANT_B, HANGUL_CONSONANT_S, HANGUL_CONSONANT_G, HANGUL_OLDCONSONANT_BSG),
    (HANGUL_CONSONANT_BS, HANGUL_CONSONANT_G, 0, HANGUL_OLDCONSONANT_BSG),
    (HANGUL_CONSONANT_B, HANGUL_OLDCONSONANT_SG, 0, HANGUL_OLDCONSONANT_BSG),
    (HANGUL_CONSONANT_B, HANGUL_CONSONANT_S, HANGUL_CONSONANT_D, HANGUL_OLDCONSONANT_BSD),
    (HANGUL_CONSONANT_BS, HANGUL_CONSONANT_D, 0, HANGUL_OLDCONSONANT_BSD),
    (HANGUL_CONSONANT_B, HANGUL_OLDCONSONANT_SD, 0, HANGUL_OLDCONSONANT_BSD),
    (HANGUL_CONSONANT_B, HANGUL_CONSONANT_J, 0, HANGUL_OLDCONSONANT_BJ),
    (HANGUL_CONSONANT_B, HANGUL_CONSONANT_T, 0, HANGUL_OLDCONSONANT_BT),
    (HANGUL_CONSONANT_B, HANGUL_CONSONANT_NG, 0, HANGUL_OLDCONSONANT_BNG),
    (HANGUL_CONSONANT_BB, HANGUL_CONSONANT_NG, 0, HANGUL_OLDCONSONANT_BBNG),
    (HANGUL_CONSONANT_S, HANGUL_CONSONANT_G, 0, HANGUL_OLDCONSONANT_SG),
    (HANGUL_CONSONANT_S, HANGUL_CONSONANT_N, 0, HANGUL_OLDCONSONANT_SN),
    (HANGUL_CONSONANT_S, HANGUL_CONSONANT_D, 0, HANGUL_OLDCONSONANT_SD),
    (HANGUL_CONSONANT_S, HANGUL_CONSONANT_B, 0, HANGUL_OLDCONSONANT_SB),
    (HANGUL_CONSONANT_S, HANGUL_CONSONANT_J, 0, HANGUL_OLDCONSONANT_SJ),
    (HANGUL_CONSONANT_NG, HANGUL_CONSONANT_NG, 0, HANGUL_OLDCONSONANT_NGNG),
    (HANGUL_OLDCONSONANT_NNG, HANGUL_CONSONANT_S, 0, HANGUL_OLDCONSONANT_NNGS),
    (HANGUL_OLDCONSONANT_NNG, HANGUL_OLDCONSONANT_Z, 0, HANGUL_OLDCONSONANT_NNGZ),
    (HANGUL_CONSONANT_P, HANGUL_CONSONANT_NG, 0, HANGUL_OLDCONSONANT_PNG),
    (HANGUL_CONSONANT_H, HANGUL_CONSONANT_H, 0, HANGUL_OLDCONSONANT_HH)]"

primrec merge_scan3 :: "(u32 \<times> u32 \<times> u32 \<times> u32) list \<Rightarrow> u32 \<Rightarrow> u32 \<Rightarrow> u32 \<Rightarrow> u32" where
  "merge_scan3 [] c1 c2 c3 = 0"
| "merge_scan3 (p # ps) c1 c2 c3 =
    (if fst p = c1 \<and> fst (snd p) = c2 \<and> fst (snd (snd p)) = c3 then snd (snd (snd p))
     else merge_scan3 ps c1 c2 c3)"

definition hangul_merge_allconsonant :: "u32 \<Rightarrow> u32 \<Rightarrow> u32 \<Rightarrow> u32" where
  "hangul_merge_allconsonant cons1 cons2 cons3 =
    (let result = (if cons3 = 0 then hangul_merge_consonant cons1 cons2 else 0)
     in if result \<noteq> 0 then result
        else merge_scan3 hangul_oldconsonant_merge_table cons1 cons2 cons3)"

definition hangul_oldvowel_merge_table :: "(u32 \<times> u32 \<times> u32) list" where
  "hangul_oldvowel_merge_table =
   [(HANGUL_VOWEL_YO, HANGUL_VOWEL_YA, HANGUL_OLDVOWEL_YOYA),
    (HANGUL_VOWEL_YO, HANGUL_VOWEL_YAE, HANGUL_OLDVOWEL_YOYAE),
    (HANGUL_VOWEL_YO, HANGUL_VOWEL_I, HANGUL_OLDVOWEL_YOI),
    (HANGUL_VOWEL_YU, HANGUL_VOWEL_YEO, HANGUL_OLDVOWEL_YUYEO),
    (HANGUL_VOWEL_YU, HANGUL_VOWEL_YE, HANGUL_OLDVOWEL_YUYE),
    (HANGUL_VOWEL_YU, HANGUL_VOWEL_I, HANGUL_OLDVOWEL_YUI),
    (HANGUL_OLDVOWEL_OA, HANGUL_VOWEL_I, HANGUL_OLDVOWEL_OAI)]"

definition hangul_merge_allvowel :: "u32 \<Rightarrow> u32 \<Rightarrow> u32" where
  "hangul_merge_allvowel vowel1 vowel2 =
    (let result = hangul_merge_vowel vowel1 vowel2
     in if result \<noteq> 0 then result else merge_scan hangul_oldvowel_merge_table vowel1 vowel2)"

text \<open>\<open>!strncmp(s, lit, sizeof(lit) - 1)\<close> for a literal without NUL bytes.\<close>

definition strncmp_eq :: "byte list \<Rightarrow> byte list \<Rightarrow> bool" where
  "strncmp_eq s lit \<longleftrightarrow> take (length lit) s = lit"

definition hangul_merge_consonant_utf8char :: "byte list \<Rightarrow> byte list \<Rightarrow> byte list" where
  "hangul_merge_consonant_utf8char cons1 cons2 =
    (if strncmp_eq cons1 [0xE3, 0x84, 0xB1] \<and> strncmp_eq cons2 [0xE3, 0x84, 0xB1] then [0xE3, 0x84, 0xB2]
     else if strncmp_eq cons1 [0xE3, 0x84, 0xB1] \<and> strncmp_eq cons2 [0xE3, 0x85, 0x85] then [0xE3, 0x84, 0xB3]
     else if strncmp_eq cons1 [0xE3, 0x84, 0xB4] \<and> strncmp_eq cons2 [0xE3, 0x85, 0x88] then [0xE3, 0x84, 0xB5]
     else if strncmp_eq cons1 [0xE3, 0x84, 0xB4] \<and> strncmp_eq cons2 [0xE3, 0x85, 0x8E] then [0xE3, 0x84, 0xB6]
     else if strncmp_eq cons1 [0xE3, 0x84, 0xB7] \<and> strncmp_eq cons2 [0xE3, 0x84, 0xB7] then [0xE3, 0x84, 0xB8]
     else if strncmp_eq cons1 [0xE3, 0x84, 0xB9] \<and> strncmp_eq cons2 [0xE3, 0x84, 0xB1] then [0xE3, 0x84, 0xBA]
     else if strncmp_eq cons1 [0xE3, 0x84, 0xB9] \<and> strncmp_eq cons2 [0xE3, 0x85, 0x81] then [0xE3, 0x84, 0xBB]
     else if strncmp_eq cons1 [0xE3, 0x84, 0xB9] \<and> strncmp_eq cons2 [0xE3, 0x85, 0x82] then [0xE3, 0x84, 0xBC]
     else if strncmp_eq cons1 [0xE3, 0x84, 0xB9] \<and> strncmp_eq cons2 [0xE3, 0x85, 0x85] then [0xE3, 0x84, 0xBD]
     else if strncmp_eq cons1 [0xE3, 0x84, 0xB9] \<and> strncmp_eq cons2 [0xE3, 0x85, 0x8C] then [0xE3, 0x84, 0xBE]
     else if strncmp_eq cons1 [0xE3, 0x84, 0xB9] \<and> strncmp_eq cons2 [0xE3, 0x85, 0x8D] then [0xE3, 0x84, 0xBF]
     else if strncmp_eq cons1 [0xE3, 0x84, 0xB9] \<and> strncmp_eq cons2 [0xE3, 0x85, 0x8E] then [0xE3, 0x85, 0x80]
     else if strncmp_eq cons1 [0xE3, 0x85, 0x82] \<and> strncmp_eq cons2 [0xE3, 0x85, 0x82] then [0xE3, 0x85, 0x83]
     else if strncmp_eq cons1 [0xE3, 0x85, 0x82] \<and> strncmp_eq cons2 [0xE3, 0x85, 0x85] then [0xE3, 0x85, 0x84]
     else if strncmp_eq cons1 [0xE3, 0x85, 0x85] \<and> strncmp_eq cons2 [0xE3, 0x85, 0x85] then [0xE3, 0x85, 0x86]
     else if strncmp_eq cons1 [0xE3, 0x85, 0x88] \<and> strncmp_eq cons2 [0xE3, 0x85, 0x88] then [0xE3, 0x85, 0x89]
     else [])"

definition hangul_merge_vowel_utf8char :: "byte list \<Rightarrow> byte list \<Rightarrow> byte list" where
  "hangul_merge_vowel_utf8char vowel1 vowel2 =
    (if strncmp_eq vowel1 [0xE3, 0x85, 0x97] \<and> strncmp_eq vowel2 [0xE3, 0x85, 0x8F] then [0xE3, 0x85, 0x98]
     else if strncmp_eq vowel1 [0xE3, 0x85, 0x97] \<and> strncmp_eq vowel2 [0xE3, 0x85, 0x90] then [0xE3, 0x85, 0x99]
     else if strncmp_eq vowel1 [0xE3, 0x85, 0x97] \<and> strncmp_eq vowel2 [0xE3, 0x85, 0xA3] then [0xE3, 0x85, 0x9A]
     else if strncmp_eq vowel1 [0xE3, 0x85, 0x9C] \<and> strncmp_eq vowel2 [0xE3, 0x85, 0x93] then [0xE3, 0x85, 0x9D]
     else if strncmp_eq vowel1 [0xE3, 0x85, 0x9C] \<and> strncmp_eq vowel2 [0xE3, 0x85, 0x94] then [0xE3, 0x85, 0x9E]
     else if strncmp_eq vowel1 [0xE3, 0x85, 0x9C] \<and> strncmp_eq vowel2 [0xE3, 0x85, 0xA3] then [0xE3, 0x85, 0x9F]
     else if strncmp_eq vowel1 [0xE3, 0x85, 0xA1] \<and> strncmp_eq vowel2 [0xE3, 0x85, 0xA3] then [0xE3, 0x85, 0xA2]
     else [])"

subsection \<open>Conjoining jamo (the libhangul part)\<close>

definition jaso_choseong :: "u32 list" where
  "jaso_choseong =
   [0x3131, 0x3132, 0x3134, 0x3137, 0x3138, 0x3139, 0x3141, 0x3142, 0x3143, 0x3145, 0x3146, 0x3147,
   0x3148, 0x3149, 0x314a, 0x314b, 0x314c, 0x314d, 0x314e]"

definition jaso_jungseong :: "u32 list" where
  "jaso_jungseong =
   [0x314f, 0x3150, 0x3151, 0x3152, 0x3153, 0x3154, 0x3155, 0x3156, 0x3157, 0x3158, 0x3159, 0x315a,
   0x315b, 0x315c, 0x315d, 0x315e, 0x315f, 0x3160, 0x3161, 0x3162, 0x3163]"

definition jaso_jongseong :: "u32 list" where
  "jaso_jongseong =
   [0x3131, 0x3132, 0x3133, 0x3134, 0x3135, 0x3136, 0x3137, 0x3139, 0x313a, 0x313b, 0x313c, 0x313d,
   0x313e, 0x313f, 0x3140, 0x3141, 0x3142, 0x3144, 0x3145, 0x3146, 0x3147, 0x3148, 0x314a, 0x314b,
   0x314c, 0x314d, 0x314e]"

definition hangul_jaso_to_jamo :: "u32 \<Rightarrow> u32" where
  "hangul_jaso_to_jamo c =
    (if c \<ge> 0x1100 \<and> c \<le> 0x1112 then jaso_choseong ! unat (c - 0x1100)
     else if c \<ge> 0x1161 \<and> c \<le> 0x1175 then jaso_jungseong ! unat (c - 0x1161)
     else if c \<ge> 0x11a8 \<and> c \<le> 0x11c2 then jaso_jongseong ! unat (c - 0x11a8)
     else c)"

definition choseong_to_jongseong_table :: "u32 list" where
  "choseong_to_jongseong_table =
   [0x11a8, 0x11a9, 0x11ab, 0x11ae, 0x0, 0x11af, 0x11b7, 0x11b8, 0x0, 0x11ba, 0x11bb, 0x11bc,
   0x11bd, 0x0, 0x11be, 0x11bf, 0x11c0, 0x11c1, 0x11c2]"

definition hangul_choseong_to_jongseong :: "u32 \<Rightarrow> u32" where
  "hangul_choseong_to_jongseong c = (if c < 0x1100 \<or> c > 0x1112 then 0 else choseong_to_jongseong_table ! unat (c - 0x1100))"

definition jongseong_to_choseong_table :: "u32 list" where
  "jongseong_to_choseong_table =
   [0x1100, 0x1101, 0x1109, 0x1102, 0x110c, 0x1112, 0x1103, 0x1105, 0x1100, 0x1106, 0x1107, 0x1109,
   0x1110, 0x1111, 0x1112, 0x1106, 0x1107, 0x1109, 0x1109, 0x110a, 0x110b, 0x110c, 0x110e, 0x110f,
   0x1110, 0x1111, 0x1112]"

definition hangul_jongseong_to_choseong :: "u32 \<Rightarrow> u32" where
  "hangul_jongseong_to_choseong c = (if c < 0x11a8 \<or> c > 0x11c2 then 0 else jongseong_to_choseong_table ! unat (c - 0x11a8))"

definition jongseong_dicompose_table :: "(u32 \<times> u32) list" where
  "jongseong_dicompose_table =
   [(0, 0x1100), (0x11a8, 0x1100), (0x11a8, 0x1109), (0, 0x1102), (0x11ab, 0x110c),
   (0x11ab, 0x1112), (0, 0x1103), (0, 0x1105), (0x11af, 0x1100), (0x11af, 0x1106),
   (0x11af, 0x1107), (0x11af, 0x1109), (0x11af, 0x1110), (0x11af, 0x1111), (0x11af, 0x1112),
   (0, 0x1106), (0, 0x1107), (0x11b8, 0x1109), (0, 0x1109), (0x11ba, 0x1109), (0, 0x110b),
   (0, 0x110c), (0, 0x110e), (0, 0x110f), (0, 0x1110), (0, 0x1111), (0, 0x1112)]"

text \<open>\<open>hangul_jongseong_dicompose\<close> does not check its argument: outside the table the read is undefined.\<close>

definition hangul_jongseong_dicompose :: "u32 \<Rightarrow> c_fault + u32 \<times> u32" where
  "hangul_jongseong_dicompose c =
    (let i = unat (c - 0x11a8)
     in if i < length jongseong_dicompose_table then Inr (jongseong_dicompose_table ! i) else Inl Read_past_end)"

definition hangul_jaso_to_syllable :: "u32 \<Rightarrow> u32 \<Rightarrow> u32 \<Rightarrow> u32" where
  "hangul_jaso_to_syllable choseong jungseong jongseong =
    (let jongseong = (if jongseong = 0 then 0x11a7 else jongseong)
     in if \<not> hangul_is_choseong_conjoinable choseong then 0
        else if \<not> hangul_is_jungseong_conjoinable jungseong then 0
        else if \<not> hangul_is_jongseong_conjoinable jongseong then 0
        else (((choseong - 0x1100) * 21) + (jungseong - 0x1161)) * 28 + (jongseong - 0x11a7) + 0xac00)"

definition hangul_syllable_to_jaso :: "u32 \<Rightarrow> (u32 \<times> u32 \<times> u32) option" where
  "hangul_syllable_to_jaso syllable =
    (if \<not> hangul_is_syllable syllable then None
     else let s = syllable - 0xac00;
              jongseong = (if s mod 28 \<noteq> 0 then 0x11a7 + s mod 28 else 0);
              s = s div 28; jungseong = 0x1161 + s mod 21; s = s div 21
       in Some (0x1100 + s, jungseong, jongseong))"

subsection \<open>Strings (\<open>hangul.cpp\<close>)\<close>

definition hangul_join_utf8str :: "byte list \<Rightarrow> byte list \<Rightarrow> byte list \<Rightarrow> byte list" where
  "hangul_join_utf8str initial medial final =
    (let ch = hangul_join_utf8char (Some (until_nul initial)) (Some (until_nul medial)) (Some (until_nul final))
     in if ch = 0 then [] else until_nul (take 3 (snd (utf8_encode ch 8))))"

definition hangul_split_utf8str :: "byte list \<Rightarrow> (byte list \<times> byte list \<times> byte list) option" where
  "hangul_split_utf8str ch =
    (case hangul_split_utf8char (until_nul ch) of
       None \<Rightarrow> None
     | Some (ibuf, mbuf, fbuf) \<Rightarrow>
         Some (until_nul (take 3 ibuf), until_nul (take 3 mbuf), until_nul (take 3 fbuf)))"

text \<open>The new initial of \<open>apply_head_pron_rule\<close>, from the initial \<open>i\<close> and the medial \<open>m\<close>.\<close>

definition head_pron_initial :: "byte list \<Rightarrow> byte list \<Rightarrow> byte list" where
  "head_pron_initial i m =
    (if i = [0xE3, 0x84, 0xB4] then
       (if m \<in> set [[0xE3, 0x85, 0x95],
          [0xE3, 0x85, 0x9B],
          [0xE3, 0x85, 0xA0],
          [0xE3, 0x85, 0xA3]] then [0xE3, 0x85, 0x87] else i)
     else if i = [0xE3, 0x84, 0xB9] then
       (if m \<in> set [[0xE3, 0x85, 0x91],
          [0xE3, 0x85, 0x95],
          [0xE3, 0x85, 0x96],
          [0xE3, 0x85, 0x9B],
          [0xE3, 0x85, 0xA0],
          [0xE3, 0x85, 0xA3]] then [0xE3, 0x85, 0x87]
        else if m \<in> set [[0xE3, 0x85, 0x8F],
          [0xE3, 0x85, 0x90],
          [0xE3, 0x85, 0x97],
          [0xE3, 0x85, 0x9A],
          [0xE3, 0x85, 0x9C],
          [0xE3, 0x85, 0xA1]] then [0xE3, 0x84, 0xB4]
        else i)
     else i)"

definition head_pron_second :: "byte list \<Rightarrow> byte list" where
  "head_pron_second secondchar =
    (if secondchar = [0xEB, 0xA0, 0xAC] then [0xEC, 0x97, 0xB4]
     else if secondchar = [0xEB, 0xA5, 0xA0] then [0xEC, 0x9C, 0xA8]
     else secondchar)"

definition apply_head_pron_rule :: "byte list \<Rightarrow> byte list" where
  "apply_head_pron_rule word =
    (let orig = until_nul word; hlen = utf8_getsize_char orig
     in if hlen < 0 then word
        else let firstchar = utf8_strpos_s word 0; remainedstr = drop (nat hlen) word
          in case hangul_split_utf8str firstchar of
               None \<Rightarrow> word
             | Some (i, m, f) \<Rightarrow>
                 (let result = hangul_join_utf8str (head_pron_initial i m) m f @ remainedstr
                  in if f = [] \<or> f = [0xE3, 0x84, 0xB4] then
                       (let hlen2 = utf8_getsize_char (drop (nat hlen) orig)
                        in if hlen2 > 0 then
                             utf8_strpos_s result 0 @ head_pron_second (utf8_strpos_s result 1) @
                               drop (nat (hlen2 + hlen)) result
                           else result)
                     else result))"

definition get_alternative_josa :: "byte list \<Rightarrow> byte list" where
  "get_alternative_josa josa =
    (if josa = [0xEC, 0x9D, 0x80, 0xEB, 0x8A, 0x94] then [0xEC, 0x9D, 0x80, 0x28, 0xEB, 0x8A, 0x94, 0x29]
     else if josa = [0xEC, 0x9D, 0xB4, 0xEA, 0xB0, 0x80] then [0xEC, 0x9D, 0xB4, 0x28, 0xEA, 0xB0, 0x80, 0x29]
     else if josa = [0xEC, 0x9D, 0x84, 0xEB, 0xA5, 0xBC] then [0xEC, 0x9D, 0x84, 0x28, 0xEB, 0xA5, 0xBC, 0x29]
     else if josa = [0xEA, 0xB3, 0xBC, 0xEC, 0x99, 0x80] then [0xEA, 0xB3, 0xBC, 0x28, 0xEC, 0x99, 0x80, 0x29]
     else if josa = [0xEC, 0x95, 0x84, 0xEC, 0x95, 0xBC] then [0xEC, 0x95, 0x84, 0x28, 0xEC, 0x95, 0xBC, 0x29]
     else if josa = [0xEC, 0x9D, 0xB4] then [0x28, 0xEC, 0x9D, 0xB4, 0x29]
     else if josa = [0xEC, 0x9C, 0xBC] then [0x28, 0xEC, 0x9C, 0xBC, 0x29]
     else if josa = [0x73] then [0x28, 0x73, 0x29]
     else josa)"

text \<open>The patterns of \<open>select_josa\<close>, in UTF-8.\<close>

definition re_usable_chars_level1 :: "byte list" where
  "re_usable_chars_level1 =
   [0x5B, 0x5E, 0xEA, 0xB0, 0x80, 0x2D, 0xED, 0x9E, 0xA3, 0x30, 0x2D, 0x39, 0x61, 0x2D, 0x7A,
    0x41, 0x2D, 0x5A, 0x5D]"

definition re_usable_chars_level2 :: "byte list" where
  "re_usable_chars_level2 =
   [0x5B, 0x5E, 0xEA, 0xB0, 0x80, 0x2D, 0xED, 0x9E, 0xA3, 0x30, 0x2D, 0x39, 0x61, 0x2D, 0x7A,
    0x41, 0x2D, 0x5A, 0xE3, 0x84, 0xB1, 0x2D, 0xE3, 0x85, 0x8E, 0xE3, 0x85, 0x8F, 0x2D, 0xE3,
    0x85, 0xA3, 0xE3, 0x85, 0xA5, 0x2D, 0xE3, 0x86, 0x86, 0xE3, 0x86, 0x87, 0x2D, 0xE3, 0x86,
    0x8E, 0x5D]"

definition re_check_consonants :: "byte list" where
  "re_check_consonants =
   [0x5E, 0x5B, 0xE3, 0x84, 0xB1, 0x2D, 0xE3, 0x85, 0x8E, 0xE3, 0x85, 0xA5, 0x2D, 0xE3, 0x86,
    0x86, 0x5D, 0x24]"

definition re_check_vowels :: "byte list" where
  "re_check_vowels =
   [0x5E, 0x5B, 0xE3, 0x85, 0x8F, 0x2D, 0xE3, 0x85, 0xA3, 0xE3, 0x86, 0x87, 0x2D, 0xE3, 0x86,
    0x8E, 0x5D, 0x24]"

definition re_extract_realjosa :: "byte list" where
  "re_extract_realjosa =
   [0x5E, 0x28, 0x5B, 0x5E, 0xEC, 0x9D, 0x80, 0xEB, 0x8A, 0x94, 0xEC, 0x9D, 0xB4, 0xEA, 0xB0,
    0x80, 0xEC, 0x9D, 0x84, 0xEB, 0xA5, 0xBC, 0xEA, 0xB3, 0xBC, 0xEC, 0x99, 0x80, 0xEC, 0x95,
    0x84, 0xEC, 0x95, 0xBC, 0xEC, 0x9C, 0xBC, 0x5D, 0x2A, 0x29, 0x28, 0x5B, 0xEC, 0x9D, 0x80,
    0xEB, 0x8A, 0x94, 0xEC, 0x9D, 0xB4, 0xEA, 0xB0, 0x80, 0xEC, 0x9D, 0x84, 0xEB, 0xA5, 0xBC,
    0xEA, 0xB3, 0xBC, 0xEC, 0x99, 0x80, 0xEC, 0x95, 0x84, 0xEC, 0x95, 0xBC, 0xEC, 0x9C, 0xBC,
    0x5D, 0x2B, 0x29, 0x28, 0x2E, 0x2A, 0x29]"

text \<open>The branch for \<open>josa == "s"\<close>: \<open>p\<close> counts the bytes still to look at, from the end.\<close>

definition c_isdigit :: "byte \<Rightarrow> bool" where
  "c_isdigit c \<longleftrightarrow> 0x30 \<le> c \<and> c \<le> 0x39"

primrec josa_s_loop :: "byte list \<Rightarrow> nat \<Rightarrow> byte list" where
  "josa_s_loop ctx 0 = [0x28, 0x73, 0x29]"
| "josa_s_loop ctx (Suc p) =
    (if c_isdigit (ctx ! p) then
       (if ctx ! p \<noteq> 0x31 \<or> (p > 0 \<and> c_isdigit (ctx ! (p - 1))) then [0x73] else [])
     else josa_s_loop ctx p)"

text \<open>Whether the last character reads with a final consonant, from the first bytes of the last two
  characters: 1, 0, or -1 when they do not tell.\<close>

definition josa_ascii_jongseong :: "byte \<Rightarrow> byte \<Rightarrow> int" where
  "josa_ascii_jongseong lastc c2 =
    (let c = (if 0x41 \<le> lastc \<and> lastc \<le> 0x5A then lastc + 0x20 else lastc)
     in if c2 = 0x6C \<and> c = 0x65 then 1
        else if c2 = 0x6E \<and> c = 0x67 then 1
        else if c = 0x30 then 1 else if c = 0x31 then 1 else if c = 0x32 then 0
        else if c = 0x33 then 1 else if c = 0x34 then 0 else if c = 0x35 then 0
        else if c = 0x36 then 1 else if c = 0x37 then 1 else if c = 0x38 then 1
        else if c = 0x39 then 0
        else if (0x61 \<le> c \<and> c \<le> 0x7A) \<and> (0x61 \<le> c2 \<and> c2 \<le> 0x7A) then
          (if (0x61 \<le> c \<and> c \<le> 0x6A) \<or> c = 0x6F \<or> c = 0x71 \<or> c = 0x73 \<or> (0x75 \<le> c \<and> c \<le> 0x7A) then 0
           else if c \<in> set [0x6B, 0x70, 0x6C, 0x6D, 0x6E, 0x72, 0x74] then 1 else -1)
        else
          (if (0x61 \<le> c \<and> c \<le> 0x6B) \<or> c = 0x6F \<or> c = 0x70 \<or> c = 0x71 \<or> (0x73 \<le> c \<and> c \<le> 0x7A) then 0
           else if c \<in> set [0x6C, 0x6D, 0x6E, 0x72] then 1 else -1))"

definition josa_jongseong :: "byte pcre \<Rightarrow> byte list \<Rightarrow> int" where
  "josa_jongseong R pctx =
    (let lastchar = utf8_strpos_s pctx (-1); lastchar2 = utf8_strpos_s pctx (-2);
         j = josa_ascii_jongseong (cstr_at lastchar 0) (cstr_at lastchar2 0);
         j = (if j < 0 then
                (case hangul_split_utf8str lastchar of
                   Some (_, _, f) \<Rightarrow> if f = [] then 0 else 1
                 | None \<Rightarrow> j)
              else j)
     in if j < 0 then
          (if re_full R re_check_consonants lastchar \<noteq> None then 1
           else if re_full R re_check_vowels lastchar \<noteq> None then 0
           else j)
        else j)"

text \<open>The particle proper, for a context that ends with (\<open>jongseong \<noteq> 0\<close>) or without a final consonant.\<close>

definition josa_realjosa :: "int \<Rightarrow> byte list \<Rightarrow> byte list" where
  "josa_realjosa jongseong realjosa =
    (if realjosa = [0xEC, 0x9D, 0x80, 0xEB, 0x8A, 0x94] then (if jongseong \<noteq> 0 then [0xEC, 0x9D, 0x80] else [0xEB, 0x8A, 0x94])
     else if realjosa = [0xEC, 0x9D, 0xB4, 0xEA, 0xB0, 0x80] then (if jongseong \<noteq> 0 then [0xEC, 0x9D, 0xB4] else [0xEA, 0xB0, 0x80])
     else if realjosa = [0xEC, 0x9D, 0x84, 0xEB, 0xA5, 0xBC] then (if jongseong \<noteq> 0 then [0xEC, 0x9D, 0x84] else [0xEB, 0xA5, 0xBC])
     else if realjosa = [0xEA, 0xB3, 0xBC, 0xEC, 0x99, 0x80] then (if jongseong \<noteq> 0 then [0xEA, 0xB3, 0xBC] else [0xEC, 0x99, 0x80])
     else if realjosa = [0xEC, 0x95, 0x84, 0xEC, 0x95, 0xBC] then (if jongseong \<noteq> 0 then [0xEC, 0x95, 0x84] else [0xEC, 0x95, 0xBC])
     else if realjosa = [0xEC, 0x9D, 0xB4] then (if jongseong \<noteq> 0 then [0xEC, 0x9D, 0xB4] else [])
     else if realjosa = [0xEC, 0x9C, 0xBC] then (if jongseong \<noteq> 0 then [0xEC, 0x9C, 0xBC] else [])
     else realjosa)"

definition select_josa :: "byte pcre \<Rightarrow> byte list \<Rightarrow> byte list \<Rightarrow> byte list" where
  "select_josa R ctx josa =
    (if ctx = [] \<or> josa = [] then get_alternative_josa josa
     else if josa = [0x73] then josa_s_loop ctx (length ctx)
     else
       let pctx1 = re_global_replace R re_usable_chars_level1 [] ctx;
           pctx = (if pctx1 = [] then re_global_replace R re_usable_chars_level2 [] ctx else pctx1)
       in if pctx = [] then get_alternative_josa josa
          else let jongseong = josa_jongseong R pctx
            in if jongseong < 0 then get_alternative_josa josa
               else let (pre, realjosa, suf) =
                      (case re_full R re_extract_realjosa josa of
                         Some [pre, realjosa, suf] \<Rightarrow> (pre, realjosa, suf)
                       | _ \<Rightarrow> ([], josa, []))
                 in pre @ josa_realjosa jongseong realjosa @ suf)"

subsection \<open>Lemmas on syllables\<close>

text \<open>A syllable is given by the indices of its three letters.\<close>

definition syllable_of :: "nat \<Rightarrow> nat \<Rightarrow> nat \<Rightarrow> u32" where
  "syllable_of a b c = of_nat (44032 + (a * 588 + (b * 28 + c)))"

lemma unat_of_nat_small: "n < 4294967296 \<Longrightarrow> unat (of_nat n :: u32) = n"
  by (simp add: unsigned_of_nat take_bit_nat_eq_self)

lemma syllable_of_unat:
  assumes "a < 19" "b < 21" "c < 28"
  shows "unat (syllable_of a b c) = 44032 + (a * 588 + (b * 28 + c))"
    and "unat (syllable_of a b c - 0xAC00) = a * 588 + (b * 28 + c)"
    and "0xAC00 \<le> syllable_of a b c" and "syllable_of a b c \<le> 0xD7A3" and "syllable_of a b c \<noteq> 0"
proof -
  have n: "a * 588 + (b * 28 + c) < 11172" using assms by linarith
  then show u: "unat (syllable_of a b c) = 44032 + (a * 588 + (b * 28 + c))"
    unfolding syllable_of_def by (subst unat_of_nat_small) simp_all
  show le: "0xAC00 \<le> syllable_of a b c" using u by (simp add: word_le_nat_alt)
  show "syllable_of a b c \<le> 0xD7A3" using u n by (simp add: word_le_nat_alt)
  show "unat (syllable_of a b c - 0xAC00) = a * 588 + (b * 28 + c)" using u unat_sub [OF le] by simp
  show "syllable_of a b c \<noteq> 0" using u by auto
qed

lemma syllable_of_cases:
  assumes "0xAC00 \<le> s" and "s \<le> 0xD7A3"
  obtains a b c where "a < 19" "b < 21" "c < 28" "s = syllable_of a b c"
proof -
  define n where "n = unat s - 44032"
  have b: "44032 \<le> unat s" "unat s \<le> 55203" using assms by (simp_all add: word_le_nat_alt)
  then have n: "n < 11172" "44032 + n = unat s" by (auto simp: n_def)
  have e: "n = n div 588 * 588 + (n mod 588 div 28 * 28 + n mod 588 mod 28)" by simp
  have "syllable_of (n div 588) (n mod 588 div 28) (n mod 588 mod 28) = of_nat (44032 + n)"
    using e by (simp add: syllable_of_def)
  also have "\<dots> = s" using n(2) by simp
  finally have s: "s = syllable_of (n div 588) (n mod 588 div 28) (n mod 588 mod 28)" by simp
  moreover have "n div 588 < 19" "n mod 588 div 28 < 21" "n mod 588 mod 28 < 28" using n(1) by (auto simp: less_mult_imp_div_less)
  ultimately show ?thesis using that by blast
qed

lemma syllable_digits:
  assumes "b < 21" "c < 28"
  shows "(a * 588 + (b * 28 + c)) div 588 = (a::nat)" "(a * 588 + (b * 28 + c)) mod 588 = b * 28 + c"
    "(a * 588 + (b * 28 + c)) div 28 = a * 21 + b" "(a * 588 + (b * 28 + c)) mod 28 = c"
proof -
  have lt: "b * 28 + c < 588" using assms by linarith
  then show "(a * 588 + (b * 28 + c)) div 588 = a" "(a * 588 + (b * 28 + c)) mod 588 = b * 28 + c"
    by simp_all
  have e: "a * 588 + (b * 28 + c) = c + (a * 21 + b) * 28" by simp
  show "(a * 588 + (b * 28 + c)) div 28 = a * 21 + b" unfolding e using assms(2) by simp
  show "(a * 588 + (b * 28 + c)) mod 28 = c"
    unfolding e using assms(2) by (simp only: mod_mult_self1 mod_less)
qed

lemma hangul_split_syllable:
  assumes "a < 19" "b < 21" "c < 28"
  shows "hangul_split (syllable_of a b c) = Some (initials ! a, medials ! b, finals ! c)"
  using syllable_of_unat [OF assms] syllable_digits [OF assms(2,3), of a]
  by (simp add: hangul_split_def Let_def unat_div unat_mod)

lemma u32_of_nat_div_mod:
  assumes "m < 4294967296" "k < 4294967296"
  shows "of_nat m div (of_nat k :: u32) = of_nat (m div k)" "of_nat m mod (of_nat k :: u32) = of_nat (m mod k)"
proof -
  have "m div k < 4294967296" "m mod k < 4294967296"
    using assms(1) div_le_dividend [of m k] mod_less_eq_dividend [of m k] by linarith+
  then show "of_nat m div (of_nat k :: u32) = of_nat (m div k)" "of_nat m mod (of_nat k :: u32) = of_nat (m mod k)"
    using assms by (simp_all add: word_unat_eq_iff unat_div unat_mod unat_of_nat_small del: of_nat_numeral)
qed

lemma hangul_syllable_to_jaso_syllable:
  assumes "a < 19" "b < 21" "c < 28"
  shows "hangul_syllable_to_jaso (syllable_of a b c) =
    Some (0x1100 + of_nat a, 0x1161 + of_nat b, if c = 0 then 0 else 0x11a7 + of_nat c)"
proof -
  let ?n = "a * 588 + (b * 28 + c)"
  have w: "syllable_of a b c - 0xAC00 = of_nat ?n" by (simp add: syllable_of_def)
  have lt: "?n < 4294967296" "a * 21 + b < 4294967296" using assms by linarith+
  have m: "of_nat ?n mod (28::u32) = of_nat c" "of_nat ?n div (28::u32) = of_nat (a * 21 + b)"
    using u32_of_nat_div_mod [OF lt(1), of 28] syllable_digits [OF assms(2,3), of a] by simp_all
  have d: "of_nat (a * 21 + b) mod (21::u32) = of_nat b" "of_nat (a * 21 + b) div (21::u32) = of_nat a"
    using u32_of_nat_div_mod [OF lt(2), of 21] assms(2) by simp_all
  have z: "(of_nat c :: u32) = 0 \<longleftrightarrow> c = 0"
    using unat_of_nat_small [of c] assms(3) by (auto simp: word_unat_eq_iff simp del: unsigned_of_nat)
  show ?thesis
    using syllable_of_unat [OF assms]
    by (simp add: hangul_syllable_to_jaso_def hangul_is_syllable_def Let_def w m d z del: of_nat_add of_nat_mult)
qed

lemma jamo_table_initials:
  "\<forall>a<19. 0x3131 \<le> initials ! a \<and> initials ! a \<le> 0x3163 \<and>
    fst (jamo_table ! unat (initials ! a - 0x3131)) = of_nat (a + 1)"
  by (simp add: all_less_numeral all_less_one all_less_Suc_0 initials_def jamo_table_def)

lemma jamo_table_medials:
  "\<forall>a<21. 0x3131 \<le> medials ! a \<and> medials ! a \<le> 0x3163 \<and>
    fst (snd (jamo_table ! unat (medials ! a - 0x3131))) = of_nat (a + 1)"
  by (simp add: all_less_numeral all_less_one all_less_Suc_0 medials_def jamo_table_def)

lemma jamo_table_finals:
  "\<forall>a<28. a = 0 \<and> finals ! a = 0 \<or> finals ! a \<noteq> 0 \<and> 0x3131 \<le> finals ! a \<and> finals ! a \<le> 0x3163 \<and>
    snd (snd (jamo_table ! unat (finals ! a - 0x3131))) = of_nat a \<and> (of_nat a :: u32) \<noteq> 0"
  by (simp add: all_less_numeral all_less_one all_less_Suc_0 finals_def jamo_table_def)

lemma jamo_table_inverse:
  "\<forall>i<51. (fst (jamo_table ! i) \<noteq> 0 \<longrightarrow> unat (fst (jamo_table ! i)) - 1 < 19 \<and>
      initials ! (unat (fst (jamo_table ! i)) - 1) = 0x3131 + of_nat i) \<and>
    (fst (snd (jamo_table ! i)) \<noteq> 0 \<longrightarrow> unat (fst (snd (jamo_table ! i))) - 1 < 21 \<and>
      medials ! (unat (fst (snd (jamo_table ! i))) - 1) = 0x3131 + of_nat i) \<and>
    (snd (snd (jamo_table ! i)) \<noteq> 0 \<longrightarrow> unat (snd (snd (jamo_table ! i))) < 28 \<and>
      finals ! unat (snd (snd (jamo_table ! i))) = 0x3131 + of_nat i)"
  by (simp add: all_less_numeral all_less_one all_less_Suc_0 initials_def medials_def finals_def jamo_table_def)

lemma hangul_join_indices:
  assumes "a < 19" "b < 21" "c < 28"
  shows "hangul_join (initials ! a) (medials ! b) (finals ! c) = syllable_of a b c"
proof -
  have 1: "\<not> initials ! a < 0x3131" "\<not> initials ! a > 0x3163"
      "fst (jamo_table ! unat (initials ! a - 0x3131)) = of_nat (a + 1)"
    using jamo_table_initials assms(1) by auto
  have 2: "\<not> medials ! b < 0x3131" "\<not> medials ! b > 0x3163"
      "fst (snd (jamo_table ! unat (medials ! b - 0x3131))) = of_nat (b + 1)"
    using jamo_table_medials assms(2) by auto
  have nz: "(of_nat (n + 1) :: u32) \<noteq> 0" if "n < 100" for n
    using unat_of_nat_small [of "n + 1"] that by (auto simp: word_unat_eq_iff simp del: of_nat_add unsigned_of_nat)
  have v: "of_nat c + (of_nat (b + 1) - 1) * 28 + (of_nat (a + 1) - 1) * 588 + 44032 = syllable_of a b c"
    by (simp add: syllable_of_def algebra_simps)
  consider "c = 0" "finals ! c = 0"
    | "finals ! c \<noteq> 0" "\<not> finals ! c < 0x3131" "\<not> finals ! c > 0x3163"
      "snd (snd (jamo_table ! unat (finals ! c - 0x3131))) = of_nat c" "(of_nat c :: u32) \<noteq> 0"
    using jamo_table_finals assms(3) by (auto simp: not_less)
  then show ?thesis
    using 1 2 nz [of a] nz [of b] assms v
    by cases (simp_all add: hangul_join_def Let_def del: of_nat_add of_nat_Suc)
qed

lemma jamo_offset:
  assumes "\<not> x < 0x3131" and "\<not> x > (0x3163::u32)"
  shows "unat (x - 0x3131) < 51" and "x = 0x3131 + of_nat (unat (x - 0x3131))"
proof -
  have le: "0x3131 \<le> x" "x \<le> 0x3163" using assms by auto
  have "unat (x - 0x3131) = unat x - 0x3131" using unat_sub [OF le(1)] by simp
  then show "unat (x - 0x3131) < 51" using le by (simp add: word_le_nat_alt)
  show "x = 0x3131 + of_nat (unat (x - 0x3131))" by simp
qed

lemma hangul_join_nonzero:
  assumes "hangul_join l v t \<noteq> 0"
  obtains a b c where "a < 19" "b < 21" "c < 28" "l = initials ! a" "v = medials ! b" "t = finals ! c"
proof -
  let ?a = "fst (jamo_table ! unat (l - 0x3131))" and ?b = "fst (snd (jamo_table ! unat (v - 0x3131)))"
    and ?c = "snd (snd (jamo_table ! unat (t - 0x3131)))"
  have l: "\<not> l < 0x3131" "\<not> l > 0x3163" "?a \<noteq> 0" and v: "\<not> v < 0x3131" "\<not> v > 0x3163" "?b \<noteq> 0"
    and t: "t = 0 \<or> t \<noteq> 0 \<and> \<not> t < 0x3131 \<and> \<not> t > 0x3163 \<and> ?c \<noteq> 0"
    using assms by (auto simp: hangul_join_def Let_def split: if_splits)
  have la: "unat ?a - 1 < 19" "initials ! (unat ?a - 1) = l"
    using jamo_table_inverse jamo_offset [OF l(1,2)] l(3) by auto
  have vb: "unat ?b - 1 < 21" "medials ! (unat ?b - 1) = v"
    using jamo_table_inverse jamo_offset [OF v(1,2)] v(3) by auto
  have "\<exists>c<28. t = finals ! c"
  proof (cases "t = 0")
    case True
    then show ?thesis by (intro exI [of _ 0]) (simp add: finals_def)
  next
    case False
    then have "unat ?c < 28" "finals ! unat ?c = t"
      using jamo_table_inverse jamo_offset [of t] t by auto
    then show ?thesis by auto
  qed
  then obtain c where c: "c < 28" "t = finals ! c" by blast
  show ?thesis by (rule that [OF la(1) vb(1) c(1) la(2) [symmetric] vb(2) [symmetric] c(2)])
qed

text \<open>\<open>hangul_split\<close> and \<open>hangul_join\<close> are inverse to each other: a code point splits into three
  letters exactly when it is the nonzero code point these letters join to.\<close>

theorem hangul_split_join:
  "hangul_split s = Some (l, v, t) \<longleftrightarrow> s \<noteq> 0 \<and> hangul_join l v t = s"
proof
  assume sp: "hangul_split s = Some (l, v, t)"
  then have "0xAC00 \<le> s" "s \<le> 0xD7A3" by (auto simp: hangul_split_def split: if_splits)
  then obtain a b c where abc: "a < 19" "b < 21" "c < 28" "s = syllable_of a b c"
    by (rule syllable_of_cases)
  then show "s \<noteq> 0 \<and> hangul_join l v t = s"
    using sp hangul_split_syllable [OF abc(1-3)] hangul_join_indices [OF abc(1-3)]
      syllable_of_unat(5) [OF abc(1-3)] by auto
next
  assume j: "s \<noteq> 0 \<and> hangul_join l v t = s"
  then obtain a b c where abc: "a < 19" "b < 21" "c < 28" "l = initials ! a" "v = medials ! b" "t = finals ! c"
    using hangul_join_nonzero [of l v t] by auto
  then show "hangul_split s = Some (l, v, t)"
    using j hangul_split_syllable [OF abc(1-3)] hangul_join_indices [OF abc(1-3)] by auto
qed

lemma jaso_to_jamo_tables:
  "\<forall>a<19. hangul_jaso_to_jamo (0x1100 + of_nat a) = initials ! a"
  "\<forall>b<21. hangul_jaso_to_jamo (0x1161 + of_nat b) = medials ! b"
  "\<forall>c<28. hangul_jaso_to_jamo (if c = 0 then 0 else 0x11a7 + of_nat c) = finals ! c"
  by (simp_all add: all_less_numeral all_less_one all_less_Suc_0 hangul_jaso_to_jamo_def initials_def
      medials_def finals_def jaso_choseong_def jaso_jungseong_def jaso_jongseong_def)

text \<open>The table-driven decomposition and the arithmetic one of the libhangul part agree: the letters
  \<open>hangul_split\<close> finds are the compatibility letters of the conjoining ones, on every code point.\<close>

theorem hangul_split_eq_jaso:
  "hangul_split s = map_option (\<lambda>(cho, jung, jong).
      (hangul_jaso_to_jamo cho, hangul_jaso_to_jamo jung, hangul_jaso_to_jamo jong)) (hangul_syllable_to_jaso s)"
proof (cases "0xAC00 \<le> s \<and> s \<le> 0xD7A3")
  case True
  then obtain a b c where abc: "a < 19" "b < 21" "c < 28" "s = syllable_of a b c"
    by (auto intro: syllable_of_cases)
  then show ?thesis
    using hangul_split_syllable [OF abc(1-3)] hangul_syllable_to_jaso_syllable [OF abc(1-3)]
      jaso_to_jamo_tables by simp
next
  case False
  then show ?thesis by (auto simp: hangul_split_def hangul_syllable_to_jaso_def hangul_is_syllable_def)
qed

lemma hangul_jaso_to_syllable_indices:
  assumes "a < 19" "b < 21" "c < 28"
  shows "hangul_jaso_to_syllable (0x1100 + of_nat a) (0x1161 + of_nat b) (if c = 0 then 0 else 0x11a7 + of_nat c)
    = syllable_of a b c"
proof -
  have u: "unat (k + of_nat n :: u32) = unat k + n" if "unat k < 10000" "n < 100" for k n
    using that by (simp add: unat_word_ariths unat_of_nat_small)
  have "(0x11a7 + of_nat c :: u32) \<noteq> 0" using u [of "0x11a7" c] assms(3) by (auto simp: word_unat_eq_iff)
  moreover have "hangul_is_choseong_conjoinable (0x1100 + of_nat a)"
    "hangul_is_jungseong_conjoinable (0x1161 + of_nat b)" "hangul_is_jongseong_conjoinable (0x11a7 + of_nat c)"
    using assms u [of "0x1100" a] u [of "0x1161" b] u [of "0x11a7" c]
    by (simp_all add: hangul_is_choseong_conjoinable_def hangul_is_jungseong_conjoinable_def
        hangul_is_jongseong_conjoinable_def word_le_nat_alt)
  ultimately show ?thesis
    by (auto simp: hangul_jaso_to_syllable_def syllable_of_def Let_def algebra_simps)
qed

lemma hangul_jaso_to_syllable_nonzero:
  assumes "hangul_jaso_to_syllable x y z \<noteq> 0"
  obtains a b c where "a < 19" "b < 21" "c < 28" "x = 0x1100 + of_nat a" "y = 0x1161 + of_nat b"
    "z = 0 \<and> c = 0 \<or> z = 0x11a7 + of_nat c"
proof -
  have off: "unat (w - k) < n \<and> w = k + of_nat (unat (w - k))" if "k \<le> w" "unat w < unat k + n" for w k :: u32 and n
    using that unat_sub [OF that(1)] by (simp add: word_le_nat_alt)
  have r: "0x1100 \<le> x" "x \<le> 0x1112" "0x1161 \<le> y" "y \<le> 0x1175" "z = 0 \<or> 0x11a7 \<le> z \<and> z \<le> 0x11c2"
    using assms by (auto simp: hangul_jaso_to_syllable_def Let_def hangul_is_choseong_conjoinable_def
        hangul_is_jungseong_conjoinable_def hangul_is_jongseong_conjoinable_def split: if_splits)
  have "\<exists>c<28. z = 0 \<and> c = 0 \<or> z = 0x11a7 + of_nat c"
  proof (cases "z = 0")
    case False
    then show ?thesis using r(5) off [of "0x11a7" z 28] by (auto simp: word_le_nat_alt)
  qed (intro exI [of _ 0], simp)
  then obtain c where c: "c < 28" "z = 0 \<and> c = 0 \<or> z = 0x11a7 + of_nat c" by blast
  have x: "unat (x - 0x1100) < 19 \<and> x = 0x1100 + of_nat (unat (x - 0x1100))"
    using r(1,2) off [of "0x1100" x 19] by (simp add: word_le_nat_alt)
  have y: "unat (y - 0x1161) < 21 \<and> y = 0x1161 + of_nat (unat (y - 0x1161))"
    using r(3,4) off [of "0x1161" y 21] by (simp add: word_le_nat_alt)
  show ?thesis by (rule that [of "unat (x - 0x1100)" "unat (y - 0x1161)" c]) (use x y c in auto)
qed

text \<open>The libhangul pair is inverse too, up to the filler 0x11a7 that \<open>hangul_jaso_to_syllable\<close>
  accepts for a missing final consonant; what it composes is a syllable or 0.\<close>

theorem hangul_syllable_jaso:
  "hangul_syllable_to_jaso s = Some (cho, jung, jong) \<longleftrightarrow>
    s \<noteq> 0 \<and> hangul_jaso_to_syllable cho jung jong = s \<and> jong \<noteq> 0x11a7"
proof
  assume sp: "hangul_syllable_to_jaso s = Some (cho, jung, jong)"
  then have "0xAC00 \<le> s" "s \<le> 0xD7A3"
    by (auto simp: hangul_syllable_to_jaso_def hangul_is_syllable_def split: if_splits)
  then obtain a b c where abc: "a < 19" "b < 21" "c < 28" "s = syllable_of a b c"
    by (rule syllable_of_cases)
  have "(of_nat c :: u32) = 0 \<longleftrightarrow> c = 0"
    using unat_of_nat_small [of c] abc(3) by (auto simp: word_unat_eq_iff simp del: unsigned_of_nat)
  then show "s \<noteq> 0 \<and> hangul_jaso_to_syllable cho jung jong = s \<and> jong \<noteq> 0x11a7"
    using sp hangul_syllable_to_jaso_syllable [OF abc(1-3)] hangul_jaso_to_syllable_indices [OF abc(1-3)]
      syllable_of_unat(5) [OF abc(1-3)] abc(4) by (auto split: if_splits)
next
  assume j: "s \<noteq> 0 \<and> hangul_jaso_to_syllable cho jung jong = s \<and> jong \<noteq> 0x11a7"
  then obtain a b c where abc: "a < 19" "b < 21" "c < 28" "cho = 0x1100 + of_nat a" "jung = 0x1161 + of_nat b"
      "jong = 0 \<and> c = 0 \<or> jong = 0x11a7 + of_nat c"
    using hangul_jaso_to_syllable_nonzero [of cho jung jong] by auto
  then have "jong = (if c = 0 then 0 else 0x11a7 + of_nat c)" using j by auto
  then show "hangul_syllable_to_jaso s = Some (cho, jung, jong)"
    using j abc hangul_syllable_to_jaso_syllable [OF abc(1-3)] hangul_jaso_to_syllable_indices [OF abc(1-3)]
    by auto
qed

text \<open>\<open>hangul_jongseong_dicompose\<close> splits a final consonant into letters whose merge is the
  consonant: a cluster into a final and an initial that \<open>hangul_merge_consonant\<close> joins again, a
  simple one into the same letter. Outside the finals it reads past its table.\<close>

theorem hangul_dicompose_merge:
  "case hangul_jongseong_dicompose c of
     Inl e \<Rightarrow> e = Read_past_end \<and> \<not> (0x11a8 \<le> c \<and> c \<le> 0x11c2)
   | Inr (jong, cho) \<Rightarrow> 0x11a8 \<le> c \<and> c \<le> 0x11c2 \<and> hangul_is_choseong_conjoinable cho \<and>
       (if jong = 0 then hangul_jaso_to_jamo cho = hangul_jaso_to_jamo c \<and> hangul_jongseong_to_choseong c = cho
        else hangul_merge_consonant (hangul_jaso_to_jamo jong) (hangul_jaso_to_jamo cho) = hangul_jaso_to_jamo c)"
proof (cases "0x11a8 \<le> c \<and> c \<le> 0x11c2")
  case True
  have "\<forall>i<27. case hangul_jongseong_dicompose (0x11a8 + of_nat i) of
     Inl e \<Rightarrow> False
   | Inr (jong, cho) \<Rightarrow> hangul_is_choseong_conjoinable cho \<and>
       (if jong = 0 then hangul_jaso_to_jamo cho = hangul_jaso_to_jamo (0x11a8 + of_nat i) \<and>
          hangul_jongseong_to_choseong (0x11a8 + of_nat i) = cho
        else hangul_merge_consonant (hangul_jaso_to_jamo jong) (hangul_jaso_to_jamo cho) =
          hangul_jaso_to_jamo (0x11a8 + of_nat i))"
    by (simp add: all_less_numeral all_less_one all_less_Suc_0 hangul_jongseong_dicompose_def Let_def
        jongseong_dicompose_table_def hangul_jaso_to_jamo_def jaso_choseong_def jaso_jongseong_def
        hangul_merge_consonant_def hangul_consonant_merge_table_def hangul_is_choseong_conjoinable_def
        hangul_jongseong_to_choseong_def jongseong_to_choseong_table_def)
  moreover have "unat (c - 0x11a8) < 27" "0x11a8 + of_nat (unat (c - 0x11a8)) = c"
    using True unat_sub [of "0x11a8" c] by (auto simp: word_le_nat_alt)
  ultimately show ?thesis using True by (auto split: sum.splits) 
next
  case False
  have "\<not> unat (c - 0x11a8) < 27"
    using False by (auto simp: unat_sub_if' word_le_nat_alt)
  then show ?thesis using False by (simp add: hangul_jongseong_dicompose_def Let_def jongseong_dicompose_table_def)
qed

lemma merge_scan_in: "merge_scan ps a b \<noteq> 0 \<Longrightarrow> (a, b, merge_scan ps a b) \<in> set ps"
  by (induction ps) (auto split: if_splits)

text \<open>Encodings of different characters are no prefix of each other.\<close>

lemma utf8_encode_buf_prefix:
  assumes "utf8_codable u" and "utf8_codable w"
  shows "take (length (utf8_encode_buf w)) (utf8_encode_buf u @ r) = utf8_encode_buf w \<longleftrightarrow> u = w"
proof
  assume t: "take (length (utf8_encode_buf w)) (utf8_encode_buf u @ r) = utf8_encode_buf w"
  define q where "q = drop (length (utf8_encode_buf w)) (utf8_encode_buf u @ r)"
  have e: "utf8_encode_buf u @ r = utf8_encode_buf w @ q"
    using t append_take_drop_id [of "length (utf8_encode_buf w)" "utf8_encode_buf u @ r"] by (simp add: q_def)
  have "length (utf8_encode_buf x) \<le> 4" for x by (simp add: utf8_encode_buf_def)
  then show "u = w"
    using utf8_decode_encode_buf [OF assms(1), of 4 r] utf8_decode_encode_buf [OF assms(2), of 4 q] e by simp
qed simp

lemma strncmp_eq_encode:
  assumes "utf8_codable u" and "utf8_codable w" and "lit = utf8_encode_buf w"
  shows "strncmp_eq (utf8_encode_buf u @ r) lit \<longleftrightarrow> u = w"
  using utf8_encode_buf_prefix [OF assms(1,2)] assms(3) by (simp add: strncmp_eq_def)

lemma strncmp_eq_jamo:
  assumes "utf8_codable u"
  shows
    "strncmp_eq (utf8_encode_buf u @ r) [0xE3, 0x84, 0xB1] \<longleftrightarrow> u = 0x3131"
    "strncmp_eq (utf8_encode_buf u @ r) [0xE3, 0x84, 0xB4] \<longleftrightarrow> u = 0x3134"
    "strncmp_eq (utf8_encode_buf u @ r) [0xE3, 0x84, 0xB7] \<longleftrightarrow> u = 0x3137"
    "strncmp_eq (utf8_encode_buf u @ r) [0xE3, 0x84, 0xB9] \<longleftrightarrow> u = 0x3139"
    "strncmp_eq (utf8_encode_buf u @ r) [0xE3, 0x85, 0x81] \<longleftrightarrow> u = 0x3141"
    "strncmp_eq (utf8_encode_buf u @ r) [0xE3, 0x85, 0x82] \<longleftrightarrow> u = 0x3142"
    "strncmp_eq (utf8_encode_buf u @ r) [0xE3, 0x85, 0x85] \<longleftrightarrow> u = 0x3145"
    "strncmp_eq (utf8_encode_buf u @ r) [0xE3, 0x85, 0x88] \<longleftrightarrow> u = 0x3148"
    "strncmp_eq (utf8_encode_buf u @ r) [0xE3, 0x85, 0x8C] \<longleftrightarrow> u = 0x314C"
    "strncmp_eq (utf8_encode_buf u @ r) [0xE3, 0x85, 0x8D] \<longleftrightarrow> u = 0x314D"
    "strncmp_eq (utf8_encode_buf u @ r) [0xE3, 0x85, 0x8E] \<longleftrightarrow> u = 0x314E"
    "strncmp_eq (utf8_encode_buf u @ r) [0xE3, 0x85, 0x8F] \<longleftrightarrow> u = 0x314F"
    "strncmp_eq (utf8_encode_buf u @ r) [0xE3, 0x85, 0x90] \<longleftrightarrow> u = 0x3150"
    "strncmp_eq (utf8_encode_buf u @ r) [0xE3, 0x85, 0x93] \<longleftrightarrow> u = 0x3153"
    "strncmp_eq (utf8_encode_buf u @ r) [0xE3, 0x85, 0x94] \<longleftrightarrow> u = 0x3154"
    "strncmp_eq (utf8_encode_buf u @ r) [0xE3, 0x85, 0x97] \<longleftrightarrow> u = 0x3157"
    "strncmp_eq (utf8_encode_buf u @ r) [0xE3, 0x85, 0x9C] \<longleftrightarrow> u = 0x315C"
    "strncmp_eq (utf8_encode_buf u @ r) [0xE3, 0x85, 0xA1] \<longleftrightarrow> u = 0x3161"
    "strncmp_eq (utf8_encode_buf u @ r) [0xE3, 0x85, 0xA3] \<longleftrightarrow> u = 0x3163"
  by (rule strncmp_eq_encode [OF assms]; simp add: utf8_encode_buf_def utf8_codable_def utf8_getsize_def)+

lemma utf8_encode_buf_jamo:
  "utf8_encode_buf 0x3132 = [0xE3, 0x84, 0xB2]"
  "utf8_encode_buf 0x3133 = [0xE3, 0x84, 0xB3]"
  "utf8_encode_buf 0x3135 = [0xE3, 0x84, 0xB5]"
  "utf8_encode_buf 0x3136 = [0xE3, 0x84, 0xB6]"
  "utf8_encode_buf 0x3138 = [0xE3, 0x84, 0xB8]"
  "utf8_encode_buf 0x313A = [0xE3, 0x84, 0xBA]"
  "utf8_encode_buf 0x313B = [0xE3, 0x84, 0xBB]"
  "utf8_encode_buf 0x313C = [0xE3, 0x84, 0xBC]"
  "utf8_encode_buf 0x313D = [0xE3, 0x84, 0xBD]"
  "utf8_encode_buf 0x313E = [0xE3, 0x84, 0xBE]"
  "utf8_encode_buf 0x313F = [0xE3, 0x84, 0xBF]"
  "utf8_encode_buf 0x3140 = [0xE3, 0x85, 0x80]"
  "utf8_encode_buf 0x3143 = [0xE3, 0x85, 0x83]"
  "utf8_encode_buf 0x3144 = [0xE3, 0x85, 0x84]"
  "utf8_encode_buf 0x3146 = [0xE3, 0x85, 0x86]"
  "utf8_encode_buf 0x3149 = [0xE3, 0x85, 0x89]"
  "utf8_encode_buf 0x3158 = [0xE3, 0x85, 0x98]"
  "utf8_encode_buf 0x3159 = [0xE3, 0x85, 0x99]"
  "utf8_encode_buf 0x315A = [0xE3, 0x85, 0x9A]"
  "utf8_encode_buf 0x315D = [0xE3, 0x85, 0x9D]"
  "utf8_encode_buf 0x315E = [0xE3, 0x85, 0x9E]"
  "utf8_encode_buf 0x315F = [0xE3, 0x85, 0x9F]"
  "utf8_encode_buf 0x3162 = [0xE3, 0x85, 0xA2]"
  by (simp_all add: utf8_encode_buf_def)

text \<open>The character of a merge result, the empty string for none.\<close>

definition merged_char :: "u32 \<Rightarrow> byte list" where
  "merged_char m = (if m = 0 then [] else utf8_encode_buf m)"

text \<open>The string versions of the merge functions, written as a chain of comparisons, agree with the
  table lookups: on the encodings of any two characters they return the encoding of the merged
  letter, or the empty string where the tables have none.\<close>

theorem hangul_merge_utf8char:
  assumes "utf8_codable u" and "utf8_codable w"
  shows "hangul_merge_consonant_utf8char (utf8_encode_buf u @ r) (utf8_encode_buf w @ q) =
      merged_char (hangul_merge_consonant u w) \<and>
    hangul_merge_vowel_utf8char (utf8_encode_buf u @ r) (utf8_encode_buf w @ q) =
      merged_char (hangul_merge_vowel u w)"
proof -
  have m: "merged_char (if c then x else y) = (if c then merged_char x else merged_char y)" for c x y
    by simp
  have "hangul_merge_consonant_utf8char (utf8_encode_buf u @ r) (utf8_encode_buf w @ q) =
      merged_char (hangul_merge_consonant u w)"
    unfolding hangul_merge_consonant_utf8char_def hangul_merge_consonant_def hangul_consonant_merge_table_def
      strncmp_eq_jamo [OF assms(1)] strncmp_eq_jamo [OF assms(2)] merge_scan.simps fst_conv snd_conv m
    by (simp only: merged_char_def utf8_encode_buf_jamo eq_commute) (simp add: eq_commute)
  moreover have "hangul_merge_vowel_utf8char (utf8_encode_buf u @ r) (utf8_encode_buf w @ q) =
      merged_char (hangul_merge_vowel u w)"
    unfolding hangul_merge_vowel_utf8char_def hangul_merge_vowel_def hangul_vowel_merge_table_def
      strncmp_eq_jamo [OF assms(1)] strncmp_eq_jamo [OF assms(2)] merge_scan.simps fst_conv snd_conv m
    by (simp only: merged_char_def utf8_encode_buf_jamo eq_commute) (simp add: eq_commute)
  ultimately show ?thesis ..
qed

lemma hangul_merge_utf8char_witness:
  "hangul_merge_consonant_utf8char [0xE3, 0x84, 0xB9, 0x41] [0xE3, 0x85, 0x81] = [0xE3, 0x84, 0xBB]"
proof -
  have c: "utf8_codable 0x3139" "utf8_codable 0x3141"
    by (simp_all add: utf8_codable_def utf8_getsize_def)
  show ?thesis
    using hangul_merge_utf8char [OF c, of "[0x41]" "[]"]
    by (simp add: merged_char_def utf8_encode_buf_def hangul_merge_consonant_def hangul_consonant_merge_table_def)
qed

subsection \<open>Strings of Hangul\<close>

text \<open>A code point with a three-byte encoding that the decoder reads back.\<close>

definition kor :: "u32 \<Rightarrow> bool" where
  "kor u \<longleftrightarrow> 0x800 \<le> u \<and> u \<le> 0xD7FF"

lemma kor_codable: "kor u \<Longrightarrow> utf8_codable u"
  by (auto simp: kor_def utf8_codable_def utf8_getsize_def word_le_nat_alt word_less_nat_alt)

lemma kor_length: "kor u \<Longrightarrow> length (utf8_encode_buf u) = 3"
  by (auto simp: kor_def utf8_encode_buf_def word_le_nat_alt)

lemma kor_char: "kor u \<Longrightarrow> utf8_char (utf8_encode_buf u)"
  by (simp add: kor_codable utf8_encode_buf_char)

lemma kor_encode:
  assumes "kor u"
  shows "utf8_encode_nt u 4 = (3, utf8_encode_buf u)" "utf8_encode u 8 = (3, utf8_encode_buf u)"
  using kor_length [OF assms] by (auto simp add: utf8_encode_nt_def utf8_encode_def Let_def)

lemma kor_until_nul [simp]:
  "kor u \<Longrightarrow> until_nul (utf8_encode_buf u) = utf8_encode_buf u"
  "kor u \<Longrightarrow> until_nul (utf8_encode_buf u @ r) = utf8_encode_buf u @ until_nul r"
  using until_nul_chars [of "[utf8_encode_buf u]" r] until_nul_chars [of "[utf8_encode_buf u]" "[]"] kor_char [of u]
  by (simp_all add: until_nul_rest)

lemma kor_decode [simp]: "kor u \<Longrightarrow> utf8_decode (utf8_encode_buf u @ r) = (u, 3)"
    "kor u \<Longrightarrow> utf8_decode (utf8_encode_buf u) = (u, 3)"
  using utf8_decode_encode_buf [of u "2 ^ 64 - 1" r] utf8_decode_encode_buf [of u "2 ^ 64 - 1" "[]"]
  by (simp_all add: utf8_decode_def kor_codable kor_length)

lemma kor_head_nz: "kor u \<Longrightarrow> cstr_at (utf8_encode_buf u) 0 \<noteq> 0"
  using utf8_char_nz(2) [OF kor_char] by simp

lemma kor_encode_eq:
  assumes "kor u" and "utf8_codable w" and "lit = utf8_encode_buf w"
  shows "utf8_encode_buf u = lit \<longleftrightarrow> u = w"
proof
  assume "utf8_encode_buf u = lit"
  then show "u = w" using utf8_encode_buf_prefix [of u w "[]"] assms kor_codable by auto
qed (use assms in simp)

lemma kor_letters:
  assumes "a < 19" "b < 21" "c < 28"
  shows "kor (initials ! a)" "kor (medials ! b)" "finals ! c \<noteq> 0 \<Longrightarrow> kor (finals ! c)" "kor (syllable_of a b c)"
  using jamo_table_initials jamo_table_medials jamo_table_finals assms syllable_of_unat [OF assms]
  by (auto simp: kor_def word_le_nat_alt)

text \<open>The letters of a syllable, and what is known of them.\<close>

lemma hangul_split_kor:
  assumes "hangul_split s = Some (l, v, t)"
  shows "kor s" "kor l" "kor v" "t \<noteq> 0 \<Longrightarrow> kor t" "hangul_join l v t = s"
proof -
  have "0xAC00 \<le> s" "s \<le> 0xD7A3" using assms by (auto simp: hangul_split_def split: if_splits)
  then obtain a b c where abc: "a < 19" "b < 21" "c < 28" "s = syllable_of a b c"
    by (rule syllable_of_cases)
  have lvt: "l = initials ! a" "v = medials ! b" "t = finals ! c"
    using assms hangul_split_syllable [OF abc(1-3)] abc(4) by auto
  show "kor s" "kor l" "kor v" "t \<noteq> 0 \<Longrightarrow> kor t"
    using kor_letters [OF abc(1-3)] abc(4) lvt by auto
  show "hangul_join l v t = s" using hangul_join_indices [OF abc(1-3)] abc(4) lvt by simp
qed

text \<open>The string of an optional letter: empty for 0.\<close>

definition kor_str :: "u32 \<Rightarrow> byte list" where
  "kor_str u = (if u = 0 then [] else utf8_encode_buf u)"

lemma hangul_split_utf8str_syllable:
  assumes "hangul_split s = Some (l, v, t)"
  shows "hangul_split_utf8str (utf8_encode_buf s) = Some (utf8_encode_buf l, utf8_encode_buf v, kor_str t)"
  using hangul_split_kor [OF assms] assms
  by (auto simp: hangul_split_utf8str_def hangul_split_utf8char_def kor_encode kor_str_def kor_length until_nul_rest)

lemma hangul_join_utf8str_letters:
  assumes "kor l" "kor v" "t \<noteq> 0 \<Longrightarrow> kor t" "hangul_join l v t = s" "kor s"
  shows "hangul_join_utf8str (utf8_encode_buf l) (utf8_encode_buf v) (kor_str t) = utf8_encode_buf s"
proof -
  have "s \<noteq> 0" using assms(5) by (auto simp: kor_def)
  then show ?thesis using assms
    by (auto simp: hangul_join_utf8str_def hangul_join_utf8char_def kor_str_def kor_encode kor_length
        until_nul_rest kor_head_nz)
qed

lemma kor_encode_eq_letters:
  assumes "kor u"
  shows
    "utf8_encode_buf u = [0xE3, 0x84, 0xB4] \<longleftrightarrow> u = 0x3134"
    "utf8_encode_buf u = [0xE3, 0x85, 0x95] \<longleftrightarrow> u = 0x3155"
    "utf8_encode_buf u = [0xE3, 0x85, 0x9B] \<longleftrightarrow> u = 0x315B"
    "utf8_encode_buf u = [0xE3, 0x85, 0xA0] \<longleftrightarrow> u = 0x3160"
    "utf8_encode_buf u = [0xE3, 0x85, 0xA3] \<longleftrightarrow> u = 0x3163"
    "utf8_encode_buf u = [0xE3, 0x85, 0x87] \<longleftrightarrow> u = 0x3147"
    "utf8_encode_buf u = [0xE3, 0x84, 0xB9] \<longleftrightarrow> u = 0x3139"
    "utf8_encode_buf u = [0xE3, 0x85, 0x91] \<longleftrightarrow> u = 0x3151"
    "utf8_encode_buf u = [0xE3, 0x85, 0x96] \<longleftrightarrow> u = 0x3156"
    "utf8_encode_buf u = [0xE3, 0x85, 0x8F] \<longleftrightarrow> u = 0x314F"
    "utf8_encode_buf u = [0xE3, 0x85, 0x90] \<longleftrightarrow> u = 0x3150"
    "utf8_encode_buf u = [0xE3, 0x85, 0x97] \<longleftrightarrow> u = 0x3157"
    "utf8_encode_buf u = [0xE3, 0x85, 0x9A] \<longleftrightarrow> u = 0x315A"
    "utf8_encode_buf u = [0xE3, 0x85, 0x9C] \<longleftrightarrow> u = 0x315C"
    "utf8_encode_buf u = [0xE3, 0x85, 0xA1] \<longleftrightarrow> u = 0x3161"
    "utf8_encode_buf u = [0xEB, 0xA0, 0xAC] \<longleftrightarrow> u = 0xB82C"
    "utf8_encode_buf u = [0xEB, 0xA5, 0xA0] \<longleftrightarrow> u = 0xB960"
  by (rule kor_encode_eq [OF assms]; simp add: utf8_encode_buf_def utf8_codable_def utf8_getsize_def)+

text \<open>The rule on letters: what the initial becomes, and the second character.\<close>

definition head_pron_letter :: "u32 \<Rightarrow> u32 \<Rightarrow> u32" where
  "head_pron_letter l v =
    (if l = HANGUL_CONSONANT_N \<and>
        v \<in> {HANGUL_VOWEL_YEO, HANGUL_VOWEL_YO, HANGUL_VOWEL_YU, HANGUL_VOWEL_I} then HANGUL_CONSONANT_NG
     else if l = HANGUL_CONSONANT_L \<and> v \<in> {HANGUL_VOWEL_YA, HANGUL_VOWEL_YEO, HANGUL_VOWEL_YE,
        HANGUL_VOWEL_YO, HANGUL_VOWEL_YU, HANGUL_VOWEL_I} then HANGUL_CONSONANT_NG
     else if l = HANGUL_CONSONANT_L \<and> v \<in> {HANGUL_VOWEL_A, HANGUL_VOWEL_AE, HANGUL_VOWEL_O,
        HANGUL_VOWEL_OE, HANGUL_VOWEL_U, HANGUL_VOWEL_EU} then HANGUL_CONSONANT_N
     else l)"

definition head_pron_rest :: "byte list \<Rightarrow> byte list" where
  "head_pron_rest rest =
    (if take 3 rest = utf8_encode_buf 0xB82C then utf8_encode_buf 0xC5F4 @ drop 3 rest
     else if take 3 rest = utf8_encode_buf 0xB960 then utf8_encode_buf 0xC728 @ drop 3 rest
     else rest)"

lemma head_pron_initial_letter:
  assumes "kor l" "kor v"
  shows "head_pron_initial (utf8_encode_buf l) (utf8_encode_buf v) = utf8_encode_buf (head_pron_letter l v)"
  unfolding head_pron_initial_def set_simps insert_iff empty_iff kor_encode_eq_letters [OF assms(1)]
    kor_encode_eq_letters [OF assms(2)] head_pron_letter_def
  by (auto simp: utf8_encode_buf_def)

lemma head_pron_letter_join:
  assumes "hangul_split s = Some (l, v, t)"
  shows "kor (head_pron_letter l v)" "hangul_join (head_pron_letter l v) v t \<noteq> 0" "kor (hangul_join (head_pron_letter l v) v t)"
proof -
  have "0xAC00 \<le> s" "s \<le> 0xD7A3" using assms by (auto simp: hangul_split_def split: if_splits)
  then obtain a b c where abc: "a < 19" "b < 21" "c < 28" "s = syllable_of a b c"
    by (rule syllable_of_cases)
  have lvt: "l = initials ! a" "v = medials ! b" "t = finals ! c"
    using assms hangul_split_syllable [OF abc(1-3)] abc(4) by auto
  have "head_pron_letter l v = l \<or> head_pron_letter l v = initials ! 11 \<or> head_pron_letter l v = initials ! 2"
    by (simp add: head_pron_letter_def initials_def)
  then have "\<exists>a'. a' < 19 \<and> head_pron_letter l v = initials ! a'"
    using abc(1) lvt(1) by (elim disjE) (intro exI [of _ a] exI [of _ 11] exI [of _ 2], simp)+
  then obtain a' where a': "a' < 19" "head_pron_letter l v = initials ! a'" by blast
  show "kor (head_pron_letter l v)" "hangul_join (head_pron_letter l v) v t \<noteq> 0" "kor (hangul_join (head_pron_letter l v) v t)"
    using a' lvt hangul_join_indices [OF a'(1) abc(2,3)] kor_letters [OF a'(1) abc(2,3)]
      syllable_of_unat(5) [OF a'(1) abc(2,3)] by simp_all
qed

lemma utf8_strpos_s_append:
  assumes "utf8_chars cs" and "cstr_ok r" and "k < length cs"
  shows "utf8_strpos_s (concat cs @ r) (int k) = cs ! k"
proof -
  obtain ds q where d: "r = concat ds @ q" "utf8_chars ds" "utf8_getsize_char q \<le> 0"
    by (rule utf8_decompose [of r])
  have ok: "until_nul (concat cs @ r) = concat (cs @ ds) @ q"
    using until_nul_chars [OF assms(1), of r] until_nul_id [OF assms(2)] d(1) by simp
  have "utf8_strpos_getpos (concat (cs @ ds) @ q) (int k) =
      Some (length (concat (take k cs)), length (cs ! k))"
    using utf8_strpos_getpos_append [of "cs @ ds" q "int k"] assms d by (simp add: nth_append)
  moreover have "concat (cs @ ds) @ q = concat (take k cs) @ cs ! k @ concat (drop (Suc k) cs) @ concat ds @ q"
    using id_take_nth_drop [OF assms(3)] by (metis append.assoc concat.simps(2) concat_append)
  moreover have "length (cs ! k) < 8"
    using utf8_char_nz(4) [of "cs ! k"] assms by (fastforce simp: list_all_length)
  ultimately show ?thesis unfolding utf8_strpos_s_def utf8_strpos_def ok by simp
qed

lemma kor_prefix_size:
  assumes "take 3 rest = utf8_encode_buf w" and "kor w"
  shows "utf8_getsize_char rest = 3"
  using utf8_char_append [OF kor_char [OF assms(2)], of "drop 3 rest"] kor_length [OF assms(2)]
    append_take_drop_id [of 3 rest] assms(1) by simp

lemma head_pron_second_rest:
  assumes "utf8_getsize_char rest > 0"
  shows "head_pron_second (take (nat (utf8_getsize_char rest)) rest) @ drop (nat (utf8_getsize_char rest)) rest =
    head_pron_rest rest"
proof -
  define n where "n = nat (utf8_getsize_char rest)"
  have n: "n \<le> length rest" using utf8_char_take [of rest n] assms by (auto simp: n_def)
  have e: "take n rest = utf8_encode_buf w \<longleftrightarrow> take 3 rest = utf8_encode_buf w \<and> n = 3" if "kor w" for w
  proof
    assume t: "take n rest = utf8_encode_buf w"
    have "length (take n rest) = n" using n by simp
    then have "n = 3" using t kor_length [OF that] by simp
    then show "take 3 rest = utf8_encode_buf w \<and> n = 3" using t by simp
  qed auto
  have p: "take 3 rest = utf8_encode_buf w \<Longrightarrow> n = 3" if "kor w" for w
    using kor_prefix_size [OF _ that, of rest] by (simp add: n_def)
  have w: "kor 0xB82C" "kor 0xB960" by (simp_all add: kor_def)
  have b: "utf8_encode_buf 0xB82C = [0xEB, 0xA0, 0xAC]" "utf8_encode_buf 0xB960 = [0xEB, 0xA5, 0xA0]"
    "utf8_encode_buf 0xC5F4 = [0xEC, 0x97, 0xB4]" "utf8_encode_buf 0xC728 = [0xEC, 0x9C, 0xA8]"
    by (simp_all add: utf8_encode_buf_def)
  have f1: "take n rest = [0xEB, 0xA0, 0xAC] \<longleftrightarrow> take 3 rest = [0xEB, 0xA0, 0xAC]"
    and f2: "take n rest = [0xEB, 0xA5, 0xA0] \<longleftrightarrow> take 3 rest = [0xEB, 0xA5, 0xA0]"
    and f3: "take 3 rest = [0xEB, 0xA0, 0xAC] \<Longrightarrow> n = 3" and f4: "take 3 rest = [0xEB, 0xA5, 0xA0] \<Longrightarrow> n = 3"
    using e [OF w(1)] e [OF w(2)] p [OF w(1)] p [OF w(2)] unfolding b by blast+
  consider "take 3 rest = [0xEB, 0xA0, 0xAC]" | "take 3 rest = [0xEB, 0xA5, 0xA0]"
    | "take 3 rest \<noteq> [0xEB, 0xA0, 0xAC]" "take 3 rest \<noteq> [0xEB, 0xA5, 0xA0]" by blast
  then have "head_pron_second (take n rest) @ drop n rest = head_pron_rest rest"
  proof cases
    case 1
    then show ?thesis unfolding head_pron_second_def head_pron_rest_def f1 f2 b using f3 by simp
  next
    case 2
    then show ?thesis unfolding head_pron_second_def head_pron_rest_def f1 f2 b using f4 by simp
  next
    case 3
    then show ?thesis unfolding head_pron_second_def head_pron_rest_def f1 f2 b by simp
  qed
  then show ?thesis by (simp add: n_def)
qed

text \<open>\<open>apply_head_pron_rule\<close> on a word that begins with a syllable applies the initial-sound rule to
  its first letter and leaves the medial and the final alone; when the syllable ends open or in
  NIEUN, a second syllable RYEOL or RYUL loses its initial. Everything else is unchanged.\<close>

theorem apply_head_pron_rule_letters:
  assumes "hangul_split s = Some (l, v, t)" and "cstr_ok rest"
  shows "apply_head_pron_rule (utf8_encode_buf s @ rest) =
    utf8_encode_buf (hangul_join (head_pron_letter l v) v t) @
      (if t = 0 \<or> t = HANGUL_CONSONANT_N then head_pron_rest rest else rest)"
proof -
  note k = hangul_split_kor [OF assms(1)] and j = head_pron_letter_join [OF assms(1)]
  let ?s' = "hangul_join (head_pron_letter l v) v t"
  have un: "until_nul (utf8_encode_buf s @ rest) = utf8_encode_buf s @ rest"
    using k(1) until_nul_id [OF assms(2)] by simp
  have hl: "utf8_getsize_char (utf8_encode_buf s @ rest) = 3"
    using utf8_char_append [OF kor_char [OF k(1)], of rest] kor_length [OF k(1)] by simp
  have fc: "utf8_strpos_s (utf8_encode_buf s @ rest) 0 = utf8_encode_buf s"
    using utf8_strpos_s_append [of "[utf8_encode_buf s]" rest 0] kor_char [OF k(1)] assms(2) by simp
  have jn: "hangul_join_utf8str (head_pron_initial (utf8_encode_buf l) (utf8_encode_buf v)) (utf8_encode_buf v) (kor_str t)
      = utf8_encode_buf ?s'"
    using hangul_join_utf8str_letters [of "head_pron_letter l v" v t ?s'] head_pron_initial_letter [OF k(2,3)] j k
    by simp
  have tt: "kor_str t = [] \<or> kor_str t = [0xE3, 0x84, 0xB4] \<longleftrightarrow> t = 0 \<or> t = HANGUL_CONSONANT_N"
    using kor_encode_eq_letters(1) [of t] k(4) kor_length [of t] by (auto simp: kor_str_def utf8_encode_buf_def)
  have sp: "hangul_split_utf8str (utf8_encode_buf s) = Some (utf8_encode_buf l, utf8_encode_buf v, kor_str t)"
    by (rule hangul_split_utf8str_syllable [OF assms(1)])
  have snd: "utf8_strpos_s (utf8_encode_buf ?s' @ rest) 0 @ head_pron_second (utf8_strpos_s (utf8_encode_buf ?s' @ rest) 1) @
      drop (nat (utf8_getsize_char rest + 3)) (utf8_encode_buf ?s' @ rest) = utf8_encode_buf ?s' @ head_pron_rest rest"
    if "utf8_getsize_char rest > 0"
  proof -
    let ?n = "nat (utf8_getsize_char rest)"
    let ?cs = "[utf8_encode_buf ?s', take ?n rest]"
    have c: "utf8_chars ?cs" "cstr_ok (drop ?n rest)"
      using utf8_char_take [of rest ?n] that kor_char [OF j(3)] cstr_ok_drop [OF assms(2)] by auto
    have e: "utf8_encode_buf ?s' @ rest = concat ?cs @ drop ?n rest" by simp
    have "utf8_strpos_s (concat ?cs @ drop ?n rest) 0 = utf8_encode_buf ?s'"
      "utf8_strpos_s (concat ?cs @ drop ?n rest) 1 = take ?n rest"
      using utf8_strpos_s_append [OF c, of 0] utf8_strpos_s_append [OF c, of 1] by simp_all
    then show ?thesis
      using head_pron_second_rest [OF that] kor_length [OF j(3)] that unfolding e [symmetric]
      by (simp add: nat_add_distrib)
  qed
  have r0: "head_pron_rest rest = rest" if "\<not> utf8_getsize_char rest > 0"
  proof -
    have "take 3 rest \<noteq> utf8_encode_buf w" if "kor w" for w
      using kor_prefix_size [OF _ that, of rest] \<open>\<not> utf8_getsize_char rest > 0\<close> by auto
    then show ?thesis by (simp add: head_pron_rest_def kor_def)
  qed
  have d: "drop 3 (utf8_encode_buf s @ rest) = rest" using kor_length [OF k(1)] by simp
  show ?thesis
    unfolding apply_head_pron_rule_def Let_def un hl fc sp option.case prod.case
    using tt snd r0 jn d by (auto simp: )
qed

lemma apply_head_pron_rule_letters_witness:
  "apply_head_pron_rule [0xEB, 0x9D, 0xBC, 0xEB, 0xA0, 0xAC] = [0xEB, 0x82, 0x98, 0xEC, 0x97, 0xB4]"
proof -
  have 1: "hangul_split 0xB77C = Some (0x3139, 0x314F, 0)"
    by (simp add: hangul_split_def Let_def initials_def medials_def finals_def)
  have 2: "cstr_ok [0xEB, 0xA0, 0xAC]" by simp
  have 3: "hangul_join 0x3134 0x314F 0 = 0xB098" by (simp add: hangul_join_def jamo_table_def Let_def)
  show ?thesis
    using apply_head_pron_rule_letters [OF 1 2] 3
    by (simp add: head_pron_letter_def head_pron_rest_def utf8_encode_buf_def)
qed

text \<open>What \<open>select_josa\<close> relies on of the regular-expression library: removing the characters outside a
  class from a valid string, and the decomposition of a string made of particle letters only.\<close>

definition josa_usable1 :: "u32 \<Rightarrow> bool" where
  "josa_usable1 u \<longleftrightarrow> 0xAC00 \<le> u \<and> u \<le> 0xD7A3 \<or> 0x30 \<le> u \<and> u \<le> 0x39 \<or>
    0x61 \<le> u \<and> u \<le> 0x7A \<or> 0x41 \<le> u \<and> u \<le> 0x5A"

definition josa_letters :: "u32 set" where
  "josa_letters = set [0xC740, 0xB294, 0xC774, 0xAC00, 0xC744, 0xB97C, 0xACFC, 0xC640, 0xC544, 0xC57C, 0xC73C]"

definition josa_pcre :: "byte pcre \<Rightarrow> bool" where
  "josa_pcre R \<longleftrightarrow>
    (\<forall>cs. list_all utf8_char cs \<longrightarrow>
      re_global_replace R re_usable_chars_level1 [] (concat cs) =
        concat (filter (\<lambda>c. josa_usable1 (fst (utf8_decode c))) cs)) \<and>
    (\<forall>us. us \<noteq> [] \<and> set us \<subseteq> josa_letters \<longrightarrow>
      re_full R re_extract_realjosa (concat (map utf8_encode_buf us)) =
        Some [[], concat (map utf8_encode_buf us), []])"

text \<open>The particles and their forms after a final consonant and after a vowel.\<close>

definition josa_pairs :: "(u32 list \<times> u32 list \<times> u32 list) list" where
  "josa_pairs =
   [([0xC740, 0xB294], [0xC740], [0xB294]),
    ([0xC774, 0xAC00], [0xC774], [0xAC00]),
    ([0xC744, 0xB97C], [0xC744], [0xB97C]),
    ([0xACFC, 0xC640], [0xACFC], [0xC640]),
    ([0xC544, 0xC57C], [0xC544], [0xC57C]),
    ([0xC774], [0xC774], []),
    ([0xC73C], [0xC73C], [])]"

lemma utf8_strpos_s_last:
  assumes "utf8_chars cs" and "cs \<noteq> []"
  shows "utf8_strpos_s (concat cs) (-1) = last cs"
proof -
  let ?k = "length cs - 1"
  have k: "?k < length cs" "cs ! ?k = last cs" "nat (int (length cs) - 1) = ?k"
    using assms(2) by (simp_all add: last_conv_nth)
  have ok: "until_nul (concat cs) = concat cs"
    using until_nul_chars [OF assms(1), of "[]"] by (simp add: until_nul_rest)
  have "utf8_strpos_getpos (concat cs) (-1) = Some (length (concat (take ?k cs)), length (last cs))"
    using utf8_strpos_getpos_append [of cs "[]" "-1"] assms k by (simp add: Let_def Suc_le_eq)
  moreover have "take (length (last cs)) (concat (drop ?k cs)) = last cs"
    using assms(2) by (cases cs rule: rev_cases) auto
  moreover have "length (last cs) < 8"
    using utf8_char_nz(4) [of "last cs"] assms by (fastforce simp: list_all_iff)
  ultimately show ?thesis unfolding utf8_strpos_s_def utf8_strpos_def ok by simp
qed

lemma kor_lead_byte:
  assumes "kor u"
  shows "\<not> cstr_at (utf8_encode_buf u) 0 < 0x80"
proof -
  have "\<not> u \<le> 0x7F" "\<not> u \<le> 0x7FF" "0x800 \<le> u \<and> u \<le> 0xD7FF"
    using assms by (auto simp: kor_def word_le_nat_alt)
  then have "cstr_at (utf8_encode_buf u) 0 = ucast (0xE0 OR drop_bit 12 u)"
    by (simp add: utf8_encode_buf_def)
  moreover have "bit (ucast (0xE0 OR drop_bit 12 u) :: byte) 7" by (simp add: bit_simps)
  ultimately show ?thesis
    using word_bit_less [of "cstr_at (utf8_encode_buf u) 0" 7 7] by auto
qed

lemma josa_ascii_high: "\<not> c < 0x80 \<Longrightarrow> josa_ascii_jongseong c c2 = -1"
  by (auto simp: josa_ascii_jongseong_def Let_def word_le_nat_alt word_less_nat_alt)

lemma josa_pairs_letters:
  "\<forall>(us, w, wo)\<in>set josa_pairs. us \<noteq> [] \<and> set us \<subseteq> josa_letters \<and>
    concat (map utf8_encode_buf us) \<noteq> [] \<and> concat (map utf8_encode_buf us) \<noteq> [0x73] \<and>
    josa_realjosa 1 (concat (map utf8_encode_buf us)) = concat (map utf8_encode_buf w) \<and>
    josa_realjosa 0 (concat (map utf8_encode_buf us)) = concat (map utf8_encode_buf wo)"
  by (simp add: josa_pairs_def josa_letters_def josa_realjosa_def utf8_encode_buf_def)

text \<open>After a context that ends in a Hangul syllable, \<open>select_josa\<close> picks the form of the particle
  for a final consonant exactly when the syllable has one, whatever precedes it.\<close>

theorem select_josa_syllable:
  assumes "josa_pcre R" and "list_all utf8_char cs" and "hangul_split s = Some (l, v, t)"
    and "(us, w, wo) \<in> set josa_pairs"
  shows "select_josa R (concat cs @ utf8_encode_buf s) (concat (map utf8_encode_buf us)) =
    concat (map utf8_encode_buf (if t = 0 then wo else w))"
proof -
  let ?josa = "concat (map utf8_encode_buf us)" and ?ctx = "concat cs @ utf8_encode_buf s"
  let ?ds = "filter (\<lambda>c. josa_usable1 (fst (utf8_decode c))) cs @ [utf8_encode_buf s]"
  note k = hangul_split_kor [OF assms(3)]
  have us: "us \<noteq> []" "set us \<subseteq> josa_letters" "?josa \<noteq> []" "?josa \<noteq> [0x73]"
      "josa_realjosa 1 ?josa = concat (map utf8_encode_buf w)"
      "josa_realjosa 0 ?josa = concat (map utf8_encode_buf wo)"
    using josa_pairs_letters assms(4) by blast+
  have ex: "re_full R re_extract_realjosa ?josa = Some [[], ?josa, []]"
    using assms(1) us(1,2) by (simp add: josa_pcre_def)
  have syl: "0xAC00 \<le> s" "s \<le> 0xD7A3" using assms(3) by (auto simp: hangul_split_def split: if_splits)
  have ne: "utf8_encode_buf s \<noteq> []" using kor_length [OF k(1)] by auto
  have all: "utf8_chars (cs @ [utf8_encode_buf s])" using assms(2) kor_char [OF k(1)] by simp
  have "re_global_replace R re_usable_chars_level1 [] (concat (cs @ [utf8_encode_buf s])) =
      concat (filter (\<lambda>c. josa_usable1 (fst (utf8_decode c))) (cs @ [utf8_encode_buf s]))"
    using assms(1) all unfolding josa_pcre_def by blast
  then have pctx: "re_global_replace R re_usable_chars_level1 [] ?ctx = concat ?ds"
    using k(1) syl by (simp add: josa_usable1_def)
  have chars: "utf8_chars ?ds" using assms(2) kor_char [OF k(1)] by (auto simp: list_all_iff)
  have last: "utf8_strpos_s (concat ?ds) (-1) = utf8_encode_buf s"
    using utf8_strpos_s_last [OF chars] by simp
  have j: "josa_jongseong R (concat ?ds) = (if t = 0 then 0 else 1)"
    unfolding josa_jongseong_def Let_def last josa_ascii_high [OF kor_lead_byte [OF k(1)]]
      hangul_split_utf8str_syllable [OF assms(3)]
    using k(4) kor_length [of t] by (cases "t = 0") (auto simp: kor_str_def)
  have "concat ?ds \<noteq> []" using ne by simp
  then show ?thesis
    unfolding select_josa_def Let_def pctx using us ex j ne by (auto simp: us)
qed

text \<open>A library that behaves so on these patterns.\<close>

definition josa_pcre_instance :: "byte pcre" where
  "josa_pcre_instance =
    \<lparr>re_full = \<lambda>p s. Some [[], s, []], re_partial = \<lambda>p s. None,
     re_global_replace = \<lambda>p w s. concat (filter (\<lambda>c. josa_usable1 (fst (utf8_decode c))) (utf8_split_loop s))\<rparr>"

lemma josa_pcre_instance: "josa_pcre josa_pcre_instance"
proof -
  have "utf8_split_loop (concat cs) = cs" if "utf8_chars cs" for cs
    using utf8_split_loop_append [OF that, of "[]"] by simp
  then show ?thesis by (simp add: josa_pcre_def josa_pcre_instance_def)
qed

lemma select_josa_syllable_witness:
  "select_josa josa_pcre_instance [0x21, 0xEA, 0xB3, 0xB0] [0xEC, 0x9D, 0x80, 0xEB, 0x8A, 0x94] = [0xEC, 0x9D, 0x80]"
proof -
  have 1: "hangul_split 0xACF0 = Some (0x3131, 0x3157, 0x3141)"
    by (simp add: hangul_split_def Let_def initials_def medials_def finals_def)
  have 2: "list_all utf8_char [[0x21]]"
    by (simp add: utf8_char_def utf8_getsize_char_def utf8_getsize_char_nc_def Let_def)
  have 3: "([0xC740, 0xB294], [0xC740], [0xB294]) \<in> set josa_pairs" by (simp add: josa_pairs_def)
  show ?thesis
    using select_josa_syllable [OF josa_pcre_instance 2 1 3] by (simp add: utf8_encode_buf_def)
qed

end
