(* ===== verification/Numstr.thy ===== *)
theory Numstr
  imports Prelude
begin

text \<open>
  Numbers and their decimal or hexadecimal text: \<open>my_atoi\<close>, \<open>my_atoi_base\<close> and \<open>int2string\<close> of \<open>etc.cpp\<close>,
  and what the sources use of \<open>atoi\<close>, \<open>isspace\<close> and \<open>printf\<close> of the C library for numbers. The \<open>int\<close> that
  \<open>my_atoi\<close> computes in is a 32-bit word, so an overflow wraps around as the machine does it.
\<close>

subsection \<open>The C library\<close>

definition c_isspace :: "byte \<Rightarrow> bool" where
  "c_isspace c \<longleftrightarrow> c = 0x20 \<or> (0x09 \<le> c \<and> c \<le> 0x0D)"

definition digits_val :: "byte list \<Rightarrow> int" where
  "digits_val s = foldl (\<lambda>n c. n * 10 + (uint c - 48)) 0 (takeWhile (\<lambda>c. 0x30 \<le> c \<and> c \<le> 0x39) s)"

definition c_atoi :: "byte list \<Rightarrow> int" where
  "c_atoi s =
    (case dropWhile c_isspace (until_nul s) of
       [] \<Rightarrow> 0
     | c # r \<Rightarrow> if c = 0x2D then - digits_val r else if c = 0x2B then digits_val r else digits_val (c # r))"

text \<open>The decimal digits of an \<open>unsigned int\<close>.\<close>

fun dec_str :: "nat \<Rightarrow> byte list" where
  "dec_str n = (if n < 10 then [of_nat (48 + n)] else dec_str (n div 10) @ [of_nat (48 + n mod 10)])"

declare dec_str.simps [simp del]

text \<open>\<open>snprintf\<close> with \<open>%d\<close> into sixteen bytes, which hold every \<open>int\<close>.\<close>

definition int2string :: "int \<Rightarrow> byte list" where
  "int2string n = take 15 ((if n < 0 then [0x2D] else []) @ dec_str (nat \<bar>n\<bar>))"

subsection \<open>\<open>my_atoi\<close>\<close>

text \<open>One digit of the loop; None where the loop breaks.\<close>

definition atoi_digit :: "int \<Rightarrow> byte \<Rightarrow> u32 option" where
  "atoi_digit base c =
    (if base \<le> 10 then
       (if 0x30 \<le> sint c \<and> sint c < base + 0x30 then Some (ucast c - 0x30) else None)
     else if base \<le> 16 then
       (if 0x30 \<le> c \<and> c \<le> 0x39 then Some (ucast c - 0x30)
        else if 0x41 \<le> c \<and> c \<le> 0x5A then Some (ucast c - 0x41 + 10)
        else if 0x61 \<le> c \<and> c \<le> 0x7A then Some (ucast c - 0x61 + 10)
        else None)
     else None)"

fun atoi_loop :: "int \<Rightarrow> byte list \<Rightarrow> u32 \<Rightarrow> u32" where
  "atoi_loop base [] val = val"
| "atoi_loop base (c # str) val =
    (if c = 0 then val
     else case atoi_digit base c of
         None \<Rightarrow> val
       | Some d \<Rightarrow> atoi_loop base str (val * of_int base + d))"

definition atoi_sign :: "byte list \<Rightarrow> bool \<times> byte list" where
  "atoi_sign str =
    (if cstr_at str 0 = 0x2D then (True, drop 1 str)
     else if cstr_at str 0 = 0x2B then (False, drop 1 str) else (False, str))"

definition atoi_base_of :: "byte list \<Rightarrow> int \<times> byte list" where
  "atoi_base_of str =
    (let c = cstr_at str 0
     in if c = 0x30 \<and> cstr_at str 1 = 0x78 then (16, drop 2 str)
        else if 0x61 \<le> c \<and> c \<le> 0x66 \<or> 0x41 \<le> c \<and> c \<le> 0x46 then (16, str)
        else if c = 0x30 \<and> cstr_at str 1 = 0x62 then (1, drop 2 str)
        else (10, str))"

definition my_atoi :: "byte list \<Rightarrow> u32" where
  "my_atoi str =
    (let (isnegative, str) = atoi_sign str; (base, str) = atoi_base_of str; val = atoi_loop base str 0
     in if isnegative then - val else val)"

definition my_atoi_base :: "byte list \<Rightarrow> int \<Rightarrow> u32" where
  "my_atoi_base str base =
    (let (isnegative, str) = atoi_sign str; val = atoi_loop base str 0
     in if isnegative then - val else val)"

subsection \<open>Printing and reading\<close>

lemma dec_digit:
  assumes "n < 10"
  shows "of_nat (48 + n) \<noteq> (0::byte)" "atoi_digit 10 (of_nat (48 + n)) = Some (of_nat n)"
    "unat (of_nat (48 + n) :: byte) = 48 + n"
proof -
  have u: "unat (of_nat (48 + n) :: byte) = 48 + n" using assms by (simp add: unat_of_nat del: of_nat_add)
  show "unat (of_nat (48 + n) :: byte) = 48 + n" by (rule u)
  show "of_nat (48 + n) \<noteq> (0::byte)" using u by (metis add_is_0 numeral_eq_iff unat_0 zero_neq_numeral)
  have "n \<in> {0..<10}" using assms by simp
  then have "n = 0 \<or> n = 1 \<or> n = 2 \<or> n = 3 \<or> n = 4 \<or> n = 5 \<or> n = 6 \<or> n = 7 \<or> n = 8 \<or> n = 9" by auto
  then show "atoi_digit 10 (of_nat (48 + n)) = Some (of_nat n)"
    by (elim disjE) (simp_all add: atoi_digit_def)
qed

lemma dec_str_small: "n < 10 \<Longrightarrow> dec_str n = [of_nat (48 + n)]"
  by (simp add: dec_str.simps [of n])

lemma dec_str_big: "\<not> n < 10 \<Longrightarrow> dec_str n = dec_str (n div 10) @ [of_nat (48 + n mod 10)]"
  by (simp add: dec_str.simps [of n])

lemma dec_str_digits: "c \<in> set (dec_str n) \<Longrightarrow> 0x30 \<le> c \<and> c \<le> (0x39::byte)"
proof (induction n rule: dec_str.induct)
  case (1 n)
  have d: "m < 10 \<Longrightarrow> 0x30 \<le> (of_nat (48 + m) :: byte) \<and> of_nat (48 + m) \<le> (0x39::byte)" for m
    using dec_digit(3) [of m] by (simp add: word_le_nat_alt)
  show ?case
    using 1 d [of n] d [of "n mod 10"] by (cases "n < 10") (auto simp: dec_str_small dec_str_big)
qed

lemma dec_str_length: "0 < length (dec_str n)" "n < 10 ^ k \<Longrightarrow> 0 < k \<Longrightarrow> length (dec_str n) \<le> k"
proof -
  show "0 < length (dec_str n)" by (subst dec_str.simps) auto
  show "n < 10 ^ k \<Longrightarrow> 0 < k \<Longrightarrow> length (dec_str n) \<le> k"
  proof (induction n arbitrary: k rule: dec_str.induct)
    case (1 n)
    show ?case
    proof (cases "n < 10")
      case False
      then obtain j where k: "k = Suc j" "0 < j" using 1(2,3) by (cases k; cases "k - 1") auto
      then have "n div 10 < 10 ^ j" using 1(2) by (simp add: less_mult_imp_div_less mult.commute)
      then show ?thesis using 1(1) [OF False, of j] k False by (simp add: dec_str_big)
    qed (use 1(3) in \<open>simp add: dec_str_small\<close>)
  qed
qed

lemma atoi_dec:
  "atoi_loop 10 (dec_str n @ s) v = atoi_loop 10 s (v * 10 ^ length (dec_str n) + of_nat n)"
proof (induction n arbitrary: s v rule: dec_str.induct)
  case (1 n)
  show ?case
  proof (cases "n < 10")
    case True
    then show ?thesis using dec_digit [OF True] by (simp add: dec_str_small del: of_nat_add)
  next
    case False
    have m: "n mod 10 < 10" by simp
    have "of_nat n = (of_nat (n div 10 * 10 + n mod 10) :: u32)" by (simp only: div_mult_mod_eq)
    then have "of_nat n = (of_nat (n div 10) * 10 + of_nat (n mod 10) :: u32)"
      by (simp only: of_nat_add of_nat_mult of_nat_numeral)
    then show ?thesis
      using 1 [OF False] dec_digit [OF m] by (simp add: dec_str_big [OF False] algebra_simps del: of_nat_add)
  qed
qed

lemma atoi_loop_end: "cstr_at s 0 = 0 \<Longrightarrow> atoi_loop b s v = v"
  by (cases s) auto

lemma atoi_loop_stop: "atoi_digit b (cstr_at s 0) = None \<Longrightarrow> atoi_loop b s v = v"
  by (cases s) auto

lemma dec_str_head: "\<exists>c r. dec_str n = c # r \<and> 0x30 \<le> c \<and> c \<le> (0x39::byte)"
  using dec_str_length(1) [of n] dec_str_digits [of _ n] by (cases "dec_str n") auto

lemma dec_digit_zero: "n < 10 \<Longrightarrow> (of_nat (48 + n) :: byte) = 0x30 \<longleftrightarrow> n = 0"
  using dec_digit(3) [of n] by (auto simp: word_unat_eq_iff simp del: of_nat_add)

lemma dec_str_second:
  assumes "dec_str n = 0x30 # r"
  shows "r = []"
proof -
  have pos: "0 < n \<Longrightarrow> \<exists>c r. dec_str n = c # r \<and> c \<noteq> 0x30" for n
  proof (induction n rule: dec_str.induct)
    case (1 n)
    show ?case
    proof (cases "n < 10")
      case True
      then show ?thesis using 1(2) dec_digit_zero [of n] by (auto simp: dec_str_small simp del: of_nat_add)
    next
      case False
      then have "0 < n div 10" by auto
      then show ?thesis using 1(1) [OF False] False by (auto simp: dec_str_big)
    qed
  qed
  have "n = 0" using pos [of n] assms by (cases n) auto
  then show ?thesis using assms by (simp add: dec_str_small)
qed

text \<open>What \<open>my_atoi\<close> makes of a printed number with anything behind it that is no digit, except that a
  lone 0 in front of \<open>x\<close> or \<open>b\<close> starts a hexadecimal or binary number.\<close>

lemma my_atoi_dec:
  assumes "atoi_digit 10 (cstr_at s 0) = None" and "n \<noteq> 0 \<or> cstr_at s 0 \<noteq> 0x78 \<and> cstr_at s 0 \<noteq> 0x62"
  shows "my_atoi (dec_str n @ s) = of_nat n" "my_atoi (0x2D # dec_str n @ s) = - of_nat n"
    "my_atoi (0x2B # dec_str n @ s) = of_nat n"
proof -
  obtain c r where d: "dec_str n = c # r" "0x30 \<le> c" "c \<le> 0x39" using dec_str_head by blast
  have nx: "\<not> (c = 0x30 \<and> (cstr_at (r @ s) 0 = 0x78 \<or> cstr_at (r @ s) 0 = 0x62))"
  proof
    assume a: "c = 0x30 \<and> (cstr_at (r @ s) 0 = 0x78 \<or> cstr_at (r @ s) 0 = 0x62)"
    then have r: "r = []" using dec_str_second d(1) by blast
    then have "n = 0" using d(1) a dec_str_big [of n] dec_digit_zero [of n] dec_str_length(1) [of "n div 10"]
      by (cases "n < 10") (auto simp: dec_str_small simp del: of_nat_add)
    then show False using assms(2) a r by simp
  qed
  have lt: "c < 0x41" using d(3) by (rule le_less_trans) simp
  have base: "atoi_base_of (dec_str n @ s) = (10, dec_str n @ s)"
  proof -
    have "\<not> 0x61 \<le> c" "\<not> 0x41 \<le> c" using lt by (auto simp: word_le_nat_alt word_less_nat_alt)
    then show ?thesis using nx d by (auto simp: atoi_base_of_def Let_def)
  qed
  have loop: "atoi_loop 10 (dec_str n @ s) 0 = of_nat n"
    using atoi_dec [of n s 0] atoi_loop_stop [OF assms(1)] by simp
  have "c \<noteq> 0x2D" "c \<noteq> 0x2B" using d(2) by auto
  then show "my_atoi (dec_str n @ s) = of_nat n"
    using base loop d(1) by (simp add: my_atoi_def atoi_sign_def)
  show "my_atoi (0x2D # dec_str n @ s) = - of_nat n" "my_atoi (0x2B # dec_str n @ s) = of_nat n"
    using base loop by (simp_all add: my_atoi_def atoi_sign_def)
qed

lemma int2string_full:
  assumes "- (2 ^ 31) \<le> n" "n < 2 ^ 31"
  shows "int2string n = (if n < 0 then [0x2D] else []) @ dec_str (nat \<bar>n\<bar>)"
proof -
  have "nat \<bar>n\<bar> < 10 ^ 10" using assms by auto
  then have "length (dec_str (nat \<bar>n\<bar>)) \<le> 10" by (rule dec_str_length(2)) simp
  then show ?thesis by (cases "n < 0") (simp_all add: int2string_def)
qed

lemma of_nat_abs: "(of_nat (nat \<bar>n\<bar>) :: u32) = (if n < 0 then - of_int n else of_int n)"
  by simp

lemma sint_of_int: "- (2 ^ 31) \<le> n \<Longrightarrow> n < 2 ^ 31 \<Longrightarrow> sint (of_int n :: u32) = n"
  by (simp add: signed_of_int signed_take_bit_int_eq_self)

text \<open>\<open>my_atoi\<close> reads back every \<open>int\<close> that \<open>int2string\<close> prints, also with a plus sign, and stops at the
  first character that is no digit. It is \<open>my_atoi_base\<close> with the base its prefix names.\<close>

theorem my_atoi_int2string:
  assumes "- (2 ^ 31) \<le> n" "n < 2 ^ 31" "atoi_digit 10 (cstr_at s 0) = None"
    and "n \<noteq> 0 \<or> cstr_at s 0 \<noteq> 0x78 \<and> cstr_at s 0 \<noteq> 0x62"
  shows "sint (my_atoi (int2string n @ s)) = n \<and> (0 \<le> n \<longrightarrow> sint (my_atoi (0x2B # int2string n @ s)) = n) \<and>
    my_atoi_base (int2string n @ s) 10 = my_atoi (int2string n @ s)"
proof -
  have z: "nat \<bar>n\<bar> \<noteq> 0 \<or> cstr_at s 0 \<noteq> 0x78 \<and> cstr_at s 0 \<noteq> 0x62" using assms(4) by auto
  note dec = my_atoi_dec [OF assms(3) z]
  have val: "my_atoi (int2string n @ s) = of_int n"
    using dec(1,2) unfolding int2string_full [OF assms(1,2)] of_nat_abs by (cases "n < 0") simp_all
  have plus: "my_atoi (0x2B # int2string n @ s) = of_int n" if "0 \<le> n"
    using that dec(3) unfolding int2string_full [OF assms(1,2)] of_nat_abs by simp
  obtain c r where d: "dec_str (nat \<bar>n\<bar>) = c # r" "0x30 \<le> c" "c \<le> 0x39" using dec_str_head by blast
  have c: "c \<noteq> 0x2D" "c \<noteq> 0x2B" using d(2) by auto
  have loop: "atoi_loop 10 (dec_str (nat \<bar>n\<bar>) @ s) 0 = of_nat (nat \<bar>n\<bar>)"
    using atoi_dec [of "nat \<bar>n\<bar>" s 0] atoi_loop_stop [OF assms(3)] by simp
  have "my_atoi_base (int2string n @ s) 10 = of_int n"
  proof (cases "n < 0")
    case True
    then show ?thesis using loop int2string_full [OF assms(1,2)] of_nat_abs [of n]
      by (simp add: my_atoi_base_def atoi_sign_def)
  next
    case False
    then show ?thesis using loop int2string_full [OF assms(1,2)] of_nat_abs [of n] c d(1)
      by (simp add: my_atoi_base_def atoi_sign_def)
  qed
  then show ?thesis using val plus sint_of_int [OF assms(1,2)] by simp
qed

lemma my_atoi_int2string_witness:
  "sint (my_atoi (int2string (- 42) @ [0x20])) = - 42"
  using my_atoi_int2string [of "- 42" "[0x20]"] by (simp add: atoi_digit_def)

text \<open>A number with the prefix 0b is not read as binary: the base is 1, so only zeros count as digits.\<close>

lemma my_atoi_binary: "my_atoi [0x30, 0x62, 0x31, 0x30, 0x31] = 0"
  by (simp add: my_atoi_def atoi_sign_def atoi_base_of_def atoi_digit_def)

end
