(* ===== verification/Printf.thy ===== *)
theory Printf
  imports Hangul Numstr "HOL-Library.Sublist"
begin

text \<open>
  The formatted printing of \<open>my_vsprintf.cpp\<close> and \<open>my_vsprintf_core_impl.h\<close>: \<open>number\<close>, \<open>my_vsnprintf\<close> and the
  functions on top of it, and \<open>s_vsprintf\<close> of \<open>etc.cpp\<close>. The source writes every character with
  \<open>if (str <= end) *str = c; ++str\<close>, here \<open>emit\<close>; what a conversion writes is the list of its characters. A
  \<open>va_list\<close> is a list of typed arguments; fetching one that is missing or of another type is a fault.
  Counts are unbounded where the source has \<open>int\<close>: widths, precisions and lengths are assumed to stay below
  \<open>INT_MAX\<close>. The conversion of a floating point number to digits (\<open>fcvt_r\<close>) is a parameter.
\<close>

subsection \<open>Numbers\<close>

definition ZEROPAD :: u32 where "ZEROPAD = 1"
definition SIGN :: u32 where "SIGN = 2"
definition PLUS :: u32 where "PLUS = 4"
definition SPACE :: u32 where "SPACE = 8"
definition LEFT :: u32 where "LEFT = 16"
definition SPECIAL :: u32 where "SPECIAL = 32"
definition LARGE :: u32 where "LARGE = 64"

definition has :: "u32 \<Rightarrow> u32 \<Rightarrow> bool" where
  "has flags f \<longleftrightarrow> flags AND f \<noteq> 0"

definition is_digit :: "byte \<Rightarrow> bool" where
  "is_digit c \<longleftrightarrow> 0x30 \<le> c \<and> c \<le> 0x39"

text \<open>The number in front of \<open>s\<close> and what follows it.\<close>

fun skip_atoi :: "byte list \<Rightarrow> int \<Rightarrow> int \<times> byte list" where
  "skip_atoi [] i = (i, [])"
| "skip_atoi (c # s) i = (if is_digit c then skip_atoi s (i * 10 + (uint c - 48)) else (i, c # s))"

text \<open>\<open>digits[n]\<close> of the two tables.\<close>

definition digit_char :: "bool \<Rightarrow> nat \<Rightarrow> byte" where
  "digit_char large n =
    (if n < 10 then of_nat (48 + n) else if large then of_nat (65 + (n - 10)) else of_nat (97 + (n - 10)))"

text \<open>\<open>tmp\<close>, the digits from the last to the first.\<close>

fun number_tmp :: "bool \<Rightarrow> nat \<Rightarrow> nat \<Rightarrow> byte list" where
  "number_tmp large base num =
    (if base < 2 \<or> num < base then [digit_char large num]
     else digit_char large (num mod base) # number_tmp large base (num div base))"

declare number_tmp.simps [simp del]

definition pad :: "int \<Rightarrow> byte \<Rightarrow> byte list" where
  "pad n c = replicate (nat n) c"

text \<open>The value of \<open>size\<close> after a loop \<open>while (size-- > 0)\<close>.\<close>

definition ran_down :: "int \<Rightarrow> int" where
  "ran_down n = (if n > 0 then - 1 else n - 1)"

definition number_sign :: "u64 \<Rightarrow> u32 \<Rightarrow> byte \<times> u64" where
  "number_sign num type =
    (if has type SIGN then
       (if sint num < 0 then (0x2D, - num) else if has type PLUS then (0x2B, num)
        else if has type SPACE then (0x20, num) else (0, num))
     else (0, num))"

definition number :: "u64 \<Rightarrow> nat \<Rightarrow> int \<Rightarrow> int \<Rightarrow> u32 \<Rightarrow> byte list option" where
  "number num base sz precision type =
    (let large = has type LARGE;
         type = (if has type LEFT then type AND NOT ZEROPAD else type)
     in if base < 2 \<or> base > 36 then None
        else
       (let c = (if has type ZEROPAD then 0x30 else 0x20);
            (sign, num) = number_sign num type;
            sz = (if sign \<noteq> 0 then sz - 1 else sz);
            sz = (if has type SPECIAL then (if base = 16 then sz - 2 else if base = 8 then sz - 1 else sz) else sz);
            tmp = number_tmp large base (unat num);
            i = int (length tmp);
            precision = (if i > precision then i else precision);
            sz = sz - precision;
            front = \<not> has type ZEROPAD \<and> \<not> has type LEFT;
            pad1 = (if front then pad sz 0x20 else []);
            sz = (if front then ran_down sz else sz);
            special = (if has type SPECIAL
                       then (if base = 8 then [0x30] else if base = 16 then [0x30, digit_char large 33] else [])
                       else []);
            pad2 = (if \<not> has type LEFT then pad sz c else []);
            sz = (if \<not> has type LEFT then ran_down sz else sz)
        in Some (pad1 @ (if sign \<noteq> 0 then [sign] else []) @ special @ pad2 @
                 pad (precision - i) 0x30 @ rev tmp @ pad sz 0x20)))"

subsection \<open>Arguments\<close>

text \<open>Numbers by the width they are passed in, strings (None for a null pointer), floating point numbers and
  the pointers that \<open>%n\<close> stores to. Negative values are two's complements.\<close>

datatype 'f varg =
  Arg_int u32
| Arg_long u64
| Arg_str "byte list option"
| Arg_std_string "byte list option"
| Arg_double 'f
| Arg_store

fun arg_int :: "'f varg list \<Rightarrow> c_fault + (u32 \<times> 'f varg list)" where
  "arg_int (Arg_int n # args) = Inr (n, args)"
| "arg_int _ = Inl Read_past_end"

fun arg_long :: "'f varg list \<Rightarrow> c_fault + (u64 \<times> 'f varg list)" where
  "arg_long (Arg_long n # args) = Inr (n, args)"
| "arg_long _ = Inl Read_past_end"

subsection \<open>The specification of a conversion\<close>

text \<open>Flags, behind the percent sign.\<close>

fun fmt_flags :: "byte list \<Rightarrow> u32 \<Rightarrow> u32 \<times> byte list" where
  "fmt_flags [] flags = (flags, [])"
| "fmt_flags (c # fmt) flags =
    (if c = 0x2D then fmt_flags fmt (flags OR LEFT)
     else if c = 0x2B then fmt_flags fmt (flags OR PLUS)
     else if c = 0x20 then fmt_flags fmt (flags OR SPACE)
     else if c = 0x23 then fmt_flags fmt (flags OR SPECIAL)
     else if c = 0x30 then fmt_flags fmt (flags OR ZEROPAD)
     else (flags, c # fmt))"

definition fmt_width ::
  "byte list \<Rightarrow> u32 \<Rightarrow> 'f varg list \<Rightarrow> c_fault + (int \<times> u32 \<times> byte list \<times> 'f varg list)" where
  "fmt_width fmt flags args =
    (if is_digit (cstr_at fmt 0) then
       (case skip_atoi fmt 0 of (w, fmt) \<Rightarrow> Inr (w, flags, fmt, args))
     else if cstr_at fmt 0 = 0x2A then
       (case arg_int args of
          Inl f \<Rightarrow> Inl f
        | Inr (n, args) \<Rightarrow>
            (let w = sint n
             in Inr (if w < 0 then (- w, flags OR LEFT, drop 1 fmt, args) else (w, flags, drop 1 fmt, args))))
     else Inr (- 1, flags, fmt, args))"

text \<open>The precision, -1 if none is given, and \<open>dotflag\<close>.\<close>

definition fmt_precision ::
  "byte list \<Rightarrow> 'f varg list \<Rightarrow> c_fault + (int \<times> bool \<times> byte list \<times> 'f varg list)" where
  "fmt_precision fmt args =
    (if cstr_at fmt 0 = 0x2E then
       (let fmt = drop 1 fmt
        in if is_digit (cstr_at fmt 0) then
             (case skip_atoi fmt 0 of (p, fmt) \<Rightarrow> Inr (p, True, fmt, args))
           else if cstr_at fmt 0 = 0x2A then
             (case arg_int args of
                Inl f \<Rightarrow> Inl f
              | Inr (n, args) \<Rightarrow> Inr (sint n, True, drop 1 fmt, args))
           else Inr (- 1, True, fmt, args))
     else Inr (- 1, False, fmt, args))"

definition fmt_qualifier :: "byte list \<Rightarrow> byte \<times> byte list" where
  "fmt_qualifier fmt =
    (let q = cstr_at fmt 0
     in if q = 0x68 \<or> q = 0x6C \<or> q = 0x4C \<or> q = 0x5A \<or> q = 0x7A then
          (let fmt = drop 1 fmt
           in if q = 0x6C \<and> cstr_at fmt 0 = 0x6C then (0x4C, drop 1 fmt) else (q, fmt))
        else (0, fmt))"

record conv_spec =
  cs_flags :: u32
  cs_field_width :: int
  cs_precision :: int
  cs_dotflag :: bool
  cs_qualifier :: byte

definition fmt_spec :: "byte list \<Rightarrow> 'f varg list \<Rightarrow> c_fault + (conv_spec \<times> byte list \<times> 'f varg list)" where
  "fmt_spec fmt args =
    (let (flags, fmt) = fmt_flags fmt 0
     in case fmt_width fmt flags args of
          Inl f \<Rightarrow> Inl f
        | Inr (w, flags, fmt, args) \<Rightarrow>
       (case fmt_precision fmt args of
          Inl f \<Rightarrow> Inl f
        | Inr (p, dot, fmt, args) \<Rightarrow>
            (let (q, fmt) = fmt_qualifier fmt
             in Inr (\<lparr>cs_flags = flags, cs_field_width = w, cs_precision = p, cs_dotflag = dot, cs_qualifier = q\<rparr>,
                     fmt, args))))"

subsection \<open>What the conversions write\<close>

text \<open>\<open>while (--field_width > 0)\<close> writes \<open>pad (w - 1)\<close> and leaves this width.\<close>

definition fmt_c :: "u32 \<Rightarrow> int \<Rightarrow> byte \<Rightarrow> byte list" where
  "fmt_c flags w c =
    (let front = \<not> has flags LEFT; pad1 = (if front then pad (w - 1) 0x20 else []);
         w = (if front then (if w > 1 then 0 else w - 1) else w)
     in pad1 @ [c] @ pad (w - 1) 0x20)"

text \<open>\<open>while (len < field_width--)\<close>; \<open>len\<close> is \<open>strnlen(s, precision)\<close>.\<close>

definition fmt_s :: "u32 \<Rightarrow> int \<Rightarrow> int \<Rightarrow> bool \<Rightarrow> byte list option \<Rightarrow> byte list" where
  "fmt_s flags w precision dotflag s =
    (let precision = (if dotflag \<and> precision < 0 then 0 else precision);
         s = (case s of None \<Rightarrow> c_lit ''(null)'' | Some s \<Rightarrow> until_nul s);
         s = (if precision < 0 then s else take (nat precision) s);
         len = int (length s); front = \<not> has flags LEFT;
         pad1 = (if front then pad (w - len) 0x20 else []);
         w = (if front then (if w > len then len - 1 else w - 1) else w)
     in pad1 @ s @ pad (w - len) 0x20)"

text \<open>The significant digits with the decimal point.\<close>

function float_digits :: "int \<Rightarrow> int \<Rightarrow> byte list \<Rightarrow> byte list" where
  "float_digits decpt i cbp =
    (if i = decpt \<and> cbp = [] then []
     else (if i = decpt then [0x2E] else []) @
       (case cbp of
          c # cs \<Rightarrow> c # float_digits decpt (i + 1) cs
        | [] \<Rightarrow> if i < decpt then 0x30 # float_digits decpt (i + 1) [] else []))"
  by pat_completeness auto
termination by (relation "measure (\<lambda>(decpt, i, cbp). length cbp + nat (decpt - i))") auto

declare float_digits.simps [simp del]

text \<open>\<open>fcvt\<close> gives the digits, the position of the decimal point and the sign, None if it fails.\<close>

type_synonym 'f fcvt = "'f \<Rightarrow> nat \<Rightarrow> (byte list \<times> int \<times> bool) option"

definition fmt_f :: "'f fcvt \<Rightarrow> u32 \<Rightarrow> int \<Rightarrow> bool \<Rightarrow> 'f \<Rightarrow> byte list" where
  "fmt_f fcvt flags precision dotflag dval =
    (let precision = (if dotflag \<and> precision < 0 then 6 else precision);
         precision = (if precision < 0 then 2 else precision);
         ndigit = (if precision < 16 then precision else 16)
     in case fcvt dval (nat ndigit) of
          None \<Rightarrow> [0x25, 0x66]
        | Some (cbp, decpt, sign) \<Rightarrow>
            (let cbp = take 511 (until_nul cbp)
             in if \<not> is_digit (cstr_at cbp 0) then cbp
                else
                  (if sign then [0x2D] else if has flags PLUS then [0x2B] else if has flags SPACE then [0x20] else []) @
                  (if decpt \<le> 0 then [0x30] else []) @
                  (if decpt < 0 then 0x2E # pad (- decpt) 0x30 else []) @
                  float_digits decpt 0 cbp))"

text \<open>The number an integer conversion takes from the arguments.\<close>

definition fmt_num :: "byte \<Rightarrow> u32 \<Rightarrow> 'f varg list \<Rightarrow> c_fault + (u64 \<times> 'f varg list)" where
  "fmt_num q flags args =
    (if q = 0x4C \<or> q = 0x6C \<or> q = 0x5A \<or> q = 0x7A then arg_long args
     else if q = 0x68 then
       map_sum id (\<lambda>(n, args).
         (if has flags SIGN then scast (ucast n :: 16 word) else ucast (ucast n :: 16 word), args)) (arg_int args)
     else
       map_sum id (\<lambda>(n, args). (if has flags SIGN then scast n else ucast n, args)) (arg_int args))"

text \<open>The base and the flags that the letter of an integer conversion selects, None for other letters.\<close>

definition int_conv :: "byte \<Rightarrow> u32 \<Rightarrow> (nat \<times> u32) option" where
  "int_conv c flags =
    (if c = 0x6F then Some (8, flags)
     else if c = 0x58 then Some (16, flags OR LARGE)
     else if c = 0x78 then Some (16, flags)
     else if c = 0x64 \<or> c = 0x69 then Some (10, flags OR SIGN)
     else if c = 0x75 then Some (10, flags)
     else None)"

text \<open>The conversions whose characters do not depend on the buffer: the characters and the arguments left.\<close>

definition conv_chars ::
  "'f fcvt \<Rightarrow> conv_spec \<Rightarrow> byte \<Rightarrow> 'f varg list \<Rightarrow> c_fault + (byte list \<times> 'f varg list)" where
  "conv_chars fcvt sp c args =
    (let flags = cs_flags sp; w = cs_field_width sp; precision = cs_precision sp; dotflag = cs_dotflag sp
     in if c = 0x63 then map_sum id (\<lambda>(n, args). (fmt_c flags w (ucast n), args)) (arg_int args)
        else if c = 0x53 then
          (case args of Arg_std_string s # args \<Rightarrow> Inr (fmt_s flags w precision dotflag s, args) | _ \<Rightarrow> Inl Read_past_end)
        else if c = 0x73 then
          (case args of Arg_str s # args \<Rightarrow> Inr (fmt_s flags w precision dotflag s, args) | _ \<Rightarrow> Inl Read_past_end)
        else if c = 0x66 then
          (case args of Arg_double d # args \<Rightarrow> Inr (fmt_f fcvt flags precision dotflag d, args) | _ \<Rightarrow> Inl Read_past_end)
        else if c = 0x70 then
          (case arg_long args of
             Inl f \<Rightarrow> Inl f
           | Inr (n, args) \<Rightarrow>
               (case number n 16 (if w = - 1 then 16 else w) (if dotflag \<and> precision < 0 then 0 else precision)
                   (if w = - 1 then flags OR ZEROPAD else flags) of
                  None \<Rightarrow> Inl Null_deref
                | Some cs \<Rightarrow> Inr (cs, args)))
        else if c = 0x25 then Inr ([0x25], args)
        else
          (case int_conv c flags of
             None \<Rightarrow> Inr (0x25 # (if c = 0 then [] else [c]), args)
           | Some (base, flags) \<Rightarrow>
               (case fmt_num (cs_qualifier sp) flags args of
                  Inl f \<Rightarrow> Inl f
                | Inr (n, args) \<Rightarrow>
                    (case number n base w (if dotflag \<and> precision < 0 then 0 else precision) flags of
                       None \<Rightarrow> Inl Null_deref
                     | Some cs \<Rightarrow> Inr (cs, args)))))"

subsection \<open>The buffer\<close>

text \<open>The offset of \<open>str\<close>, the memory at \<open>buf\<close> and what \<open>%n\<close> has stored, last first.\<close>

record fmt_out =
  fo_pos :: nat
  fo_buf :: "byte list"
  fo_stores :: "int list"

definition put :: "nat \<Rightarrow> byte \<Rightarrow> fmt_out \<Rightarrow> c_fault + fmt_out" where
  "put sz c fo =
    (if fo_pos fo < sz then
       (if fo_pos fo < length (fo_buf fo)
        then Inr (fo\<lparr>fo_buf := (fo_buf fo)[fo_pos fo := c], fo_pos := fo_pos fo + 1\<rparr>)
        else Inl Write_past_end)
     else Inr (fo\<lparr>fo_pos := fo_pos fo + 1\<rparr>))"

fun emit :: "nat \<Rightarrow> byte list \<Rightarrow> fmt_out \<Rightarrow> c_fault + fmt_out" where
  "emit sz [] fo = Inr fo"
| "emit sz (c # cs) fo = (case put sz c fo of Inl f \<Rightarrow> Inl f | Inr fo \<Rightarrow> emit sz cs fo)"

text \<open>\<open>%J{...}\<close>: the particle that fits what has been written. The results are what follows in the format
  and the buffer.\<close>

definition conv_josa ::
  "byte pcre \<Rightarrow> nat \<Rightarrow> byte list \<Rightarrow> fmt_out \<Rightarrow> c_fault + (byte list \<times> fmt_out)" where
  "conv_josa R sz fmt fo =
    (if fo_pos fo \<ge> sz then Inr (drop 1 fmt, fo\<lparr>fo_pos := fo_pos fo + 12\<rparr>)
     else if cstr_at fmt 1 \<noteq> 0x7B then Inr (drop 1 fmt, fo)
     else
       (let body = drop 2 fmt; josa = takeWhile (\<lambda>c. c \<noteq> 0x7D) body
        in if 0x7D \<notin> set body \<or> josa = [] then Inr (drop 1 fmt, fo)
           else if fo_pos fo \<ge> length (fo_buf fo) then Inl Write_past_end
           else
             (let fo = fo\<lparr>fo_buf := (fo_buf fo)[fo_pos fo := 0]\<rparr>
              in map_sum id (\<lambda>fo. (drop (length josa + 1) body, fo))
                   (emit sz (select_josa R (until_nul (fo_buf fo)) josa) fo))))"

text \<open>One conversion, \<open>fmt\<close> from its letter on.\<close>

definition vs_conv ::
  "byte pcre \<Rightarrow> 'f fcvt \<Rightarrow> nat \<Rightarrow> conv_spec \<Rightarrow> byte list \<Rightarrow> 'f varg list \<Rightarrow> fmt_out \<Rightarrow>
    c_fault + (byte list \<times> 'f varg list \<times> fmt_out)" where
  "vs_conv R fcvt sz sp fmt args fo =
    (let c = cstr_at fmt 0
     in if c = 0x4A then map_sum id (\<lambda>(fmt, fo). (fmt, args, fo)) (conv_josa R sz fmt fo)
        else if c = 0x6E then
          (case args of
             Arg_store # args \<Rightarrow> Inr (drop 1 fmt, args, fo\<lparr>fo_stores := int (fo_pos fo) # fo_stores fo\<rparr>)
           | _ \<Rightarrow> Inl Read_past_end)
        else
          (case conv_chars fcvt sp c args of
             Inl f \<Rightarrow> Inl f
           | Inr (cs, args) \<Rightarrow> map_sum id (\<lambda>fo. (drop 1 fmt, args, fo)) (emit sz cs fo)))"

text \<open>What is left of a format is a suffix of it.\<close>

lemma skip_atoi_suffix: "suffix (snd (skip_atoi s i)) s"
  by (induction s i rule: skip_atoi.induct) (auto intro: suffix_ConsI)

lemma fmt_flags_suffix: "suffix (snd (fmt_flags fmt flags)) fmt"
  by (induction fmt flags rule: fmt_flags.induct) (auto intro: suffix_ConsI)

lemma fmt_width_suffix: "fmt_width fmt flags args = Inr (w, flags', fmt', args') \<Longrightarrow> suffix fmt' fmt"
  using skip_atoi_suffix [of fmt 0]
  by (auto simp: fmt_width_def Let_def suffix_drop split: if_splits sum.splits prod.splits)

lemma fmt_precision_suffix: "fmt_precision fmt args = Inr (p, dot, fmt', args') \<Longrightarrow> suffix fmt' fmt"
  using suffix_order.trans [OF skip_atoi_suffix [of "drop 1 fmt" 0] suffix_drop [of 1 fmt]] suffix_drop [of 2 fmt]
  by (auto simp: fmt_precision_def Let_def suffix_drop split: if_splits sum.splits prod.splits)

lemma fmt_qualifier_suffix: "suffix (snd (fmt_qualifier fmt)) fmt"
  by (simp add: fmt_qualifier_def Let_def suffix_drop)

lemma fmt_spec_suffix: "fmt_spec fmt args = Inr (sp, fmt', args') \<Longrightarrow> suffix fmt' fmt"
proof -
  assume a: "fmt_spec fmt args = Inr (sp, fmt', args')"
  obtain flags f1 where f1: "fmt_flags fmt 0 = (flags, f1)" by force
  from a f1 obtain w flags2 f2 a2 where f2: "fmt_width f1 flags args = Inr (w, flags2, f2, a2)"
    by (auto simp: fmt_spec_def split: sum.splits)
  from a f1 f2 obtain p dot f3 a3 where f3: "fmt_precision f2 a2 = Inr (p, dot, f3, a3)"
    by (auto simp: fmt_spec_def split: sum.splits)
  obtain q f4 where f4: "fmt_qualifier f3 = (q, f4)" by force
  have eq: "f4 = fmt'" using a f1 f2 f3 f4 by (simp add: fmt_spec_def)
  have "suffix f1 fmt" "suffix f4 f3"
    using fmt_flags_suffix [of fmt 0] fmt_qualifier_suffix [of f3] f1 f4 by simp_all
  then show ?thesis using fmt_width_suffix [OF f2] fmt_precision_suffix [OF f3] eq
    by (blast intro: suffix_order.trans)
qed

lemma vs_conv_suffix: "vs_conv R fcvt sz sp fmt args fo = Inr (fmt', args', fo') \<Longrightarrow> suffix fmt' (drop 1 fmt)"
proof -
  have "suffix (drop (length j + 1) (drop 2 fmt)) (drop 1 fmt)" for j :: "byte list"
    using suffix_drop [of "length j + 2" "drop 1 fmt"] by (simp add: add.commute)
  then show "vs_conv R fcvt sz sp fmt args fo = Inr (fmt', args', fo') \<Longrightarrow> suffix fmt' (drop 1 fmt)"
    by (auto simp: vs_conv_def conv_josa_def Let_def map_sum_def split: if_splits sum.splits list.splits varg.splits prod.splits)
qed

text \<open>The loop over the format: the arguments left and the buffer.\<close>

function (sequential) vs_loop ::
  "byte pcre \<Rightarrow> 'f fcvt \<Rightarrow> nat \<Rightarrow> byte list \<Rightarrow> 'f varg list \<Rightarrow> fmt_out \<Rightarrow> c_fault + ('f varg list \<times> fmt_out)" where
  "vs_loop R fcvt sz [] args fo = Inr (args, fo)"
| "vs_loop R fcvt sz (c # fmt) args fo =
    (if c \<noteq> 0x25 then
       (case put sz c fo of Inl f \<Rightarrow> Inl f | Inr fo \<Rightarrow> vs_loop R fcvt sz fmt args fo)
     else
       (case fmt_spec fmt args of
          Inl f \<Rightarrow> Inl f
        | Inr (sp, fmt, args) \<Rightarrow>
            (case vs_conv R fcvt sz sp fmt args fo of
               Inl f \<Rightarrow> Inl f
             | Inr (fmt, args, fo) \<Rightarrow> vs_loop R fcvt sz fmt args fo)))"
  by pat_completeness auto
termination
  by (relation "measure (\<lambda>(R, fcvt, sz, fmt, args, fo). length fmt)")
     (auto dest!: fmt_spec_suffix [THEN suffix_length_le] vs_conv_suffix [THEN suffix_length_le])

text \<open>The terminator.\<close>

definition vs_end :: "nat \<Rightarrow> fmt_out \<Rightarrow> c_fault + fmt_out" where
  "vs_end sz fo =
    (let p = (if fo_pos fo < sz then fo_pos fo else sz - 1)
     in if sz = 0 then Inr fo
        else if p < length (fo_buf fo) then Inr (fo\<lparr>fo_buf := (fo_buf fo)[p := 0]\<rparr>)
        else Inl Write_past_end)"

text \<open>The return value, the arguments left, the memory and what has been stored.\<close>

definition my_vsnprintf ::
  "byte pcre \<Rightarrow> 'f fcvt \<Rightarrow> byte list \<Rightarrow> nat \<Rightarrow> byte list \<Rightarrow> 'f varg list \<Rightarrow>
    c_fault + (int \<times> 'f varg list \<times> byte list \<times> int list)" where
  "my_vsnprintf R fcvt buf sz fmt args =
    (if sint (of_nat sz :: u32) < 0 then Inr (0, args, buf, [])
     else
       (case vs_loop R fcvt sz (until_nul fmt) args \<lparr>fo_pos = 0, fo_buf = buf, fo_stores = []\<rparr> of
          Inl f \<Rightarrow> Inl f
        | Inr (args, fo) \<Rightarrow>
            map_sum id (\<lambda>fo'. (int (fo_pos fo), args, fo_buf fo', fo_stores fo')) (vs_end sz fo)))"

definition my_vscnprintf ::
  "byte pcre \<Rightarrow> 'f fcvt \<Rightarrow> byte list \<Rightarrow> nat \<Rightarrow> byte list \<Rightarrow> 'f varg list \<Rightarrow>
    c_fault + (int \<times> 'f varg list \<times> byte list \<times> int list)" where
  "my_vscnprintf R fcvt buf sz fmt args =
    map_sum id (\<lambda>(i, r). (if i \<ge> 0 \<and> i \<ge> int sz then int sz - 1 else i, r)) (my_vsnprintf R fcvt buf sz fmt args)"

definition my_snprintf ::
  "byte pcre \<Rightarrow> 'f fcvt \<Rightarrow> byte list \<Rightarrow> nat \<Rightarrow> byte list \<Rightarrow> 'f varg list \<Rightarrow> c_fault + (int \<times> byte list \<times> int list)" where
  "my_snprintf R fcvt buf sz fmt args =
    map_sum id (\<lambda>(i, args, r). (i, r)) (my_vsnprintf R fcvt buf sz fmt args)"

definition my_scnprintf ::
  "byte pcre \<Rightarrow> 'f fcvt \<Rightarrow> byte list \<Rightarrow> nat \<Rightarrow> byte list \<Rightarrow> 'f varg list \<Rightarrow> c_fault + (int \<times> byte list \<times> int list)" where
  "my_scnprintf R fcvt buf sz fmt args =
    map_sum id (\<lambda>(i, args, r). (if i \<ge> 0 \<and> i \<ge> int sz then int sz - 1 else i, r)) (my_vsnprintf R fcvt buf sz fmt args)"

definition my_vsprintf ::
  "byte pcre \<Rightarrow> 'f fcvt \<Rightarrow> byte list \<Rightarrow> byte list \<Rightarrow> 'f varg list \<Rightarrow>
    c_fault + (int \<times> 'f varg list \<times> byte list \<times> int list)" where
  "my_vsprintf R fcvt buf fmt args = my_vsnprintf R fcvt buf 2147483647 fmt args"

definition my_sprintf ::
  "byte pcre \<Rightarrow> 'f fcvt \<Rightarrow> byte list \<Rightarrow> byte list \<Rightarrow> 'f varg list \<Rightarrow> c_fault + (int \<times> byte list \<times> int list)" where
  "my_sprintf R fcvt buf fmt args = map_sum id (\<lambda>(i, args, r). (i, r)) (my_vsprintf R fcvt buf fmt args)"

text \<open>\<open>s_vsprintf\<close>: \<open>buf\<close> are the 1024 bytes on the stack, \<open>junk\<close> fills new memory. On machines where a
  \<open>va_list\<close> is an array, the second call goes on with the arguments that the first has left.\<close>

definition s_vsprintf ::
  "byte pcre \<Rightarrow> 'f fcvt \<Rightarrow> byte list \<Rightarrow> byte \<Rightarrow> byte list \<Rightarrow> 'f varg list \<Rightarrow> c_fault + (int \<times> byte list)" where
  "s_vsprintf R fcvt buf junk fmt args =
    (case my_vsnprintf R fcvt buf 1024 fmt args of
       Inl f \<Rightarrow> Inl f
     | Inr (len, args, buf, _) \<Rightarrow>
         if len < 0 then Inl Assert_failed
         else if len \<ge> 1024 then
           (case my_vsnprintf R fcvt (replicate (nat len + 1) junk) (nat len + 1) fmt args of
              Inl f \<Rightarrow> Inl f
            | Inr (len2, args, buf2, _) \<Rightarrow>
                if len2 > len + 1 then Inl Read_past_end else Inr (len2, take (nat len2) buf2))
         else Inr (len, take (nat len) buf))"

subsection \<open>Writing stays inside the buffer\<close>

text \<open>Memory whose first \<open>sz\<close> bytes belong to the buffer and whose bytes behind it are \<open>rest\<close>.\<close>

definition inside :: "nat \<Rightarrow> byte list \<Rightarrow> fmt_out \<Rightarrow> bool" where
  "inside sz rest fo \<longleftrightarrow> sz \<le> length (fo_buf fo) \<and> drop sz (fo_buf fo) = rest"

text \<open>Two runs with buffers of \<open>sz\<close> bytes and of more: they have written the same as far as the smaller goes.\<close>

definition same_text :: "nat \<Rightarrow> nat \<Rightarrow> fmt_out \<Rightarrow> fmt_out \<Rightarrow> bool" where
  "same_text sz sz2 fo fo2 \<longleftrightarrow> sz \<le> sz2 \<and> sz \<le> length (fo_buf fo) \<and> sz2 \<le> length (fo_buf fo2) \<and>
    fo_pos fo = fo_pos fo2 \<and> fo_stores fo = fo_stores fo2 \<and>
    take (min (fo_pos fo) sz) (fo_buf fo) = take (min (fo_pos fo) sz) (fo_buf fo2)"

lemma put_inside:
  assumes "inside sz rest fo"
  shows "\<exists>fo'. put sz c fo = Inr fo' \<and> inside sz rest fo'"
  using assms by (auto simp: put_def inside_def)

lemma emit_inside: "inside sz rest fo \<Longrightarrow> \<exists>fo'. emit sz cs fo = Inr fo' \<and> inside sz rest fo'"
proof (induction cs arbitrary: fo)
  case (Cons c cs)
  then obtain fo' where "put sz c fo = Inr fo'" "inside sz rest fo'" using put_inside by blast
  then show ?case using Cons.IH by simp
qed simp

lemma put_same_text:
  assumes "same_text sz sz2 fo fo2"
  shows "\<exists>fo' fo2'. put sz c fo = Inr fo' \<and> put sz2 c fo2 = Inr fo2' \<and> same_text sz sz2 fo' fo2'"
proof (cases "fo_pos fo < sz")
  case True
  then show ?thesis using assms
    by (auto simp: put_def same_text_def min_def take_Suc_conv_app_nth)
next
  case False
  then show ?thesis using assms by (auto simp: put_def same_text_def min_def split: if_splits)
qed

lemma emit_same_text:
  "same_text sz sz2 fo fo2 \<Longrightarrow> \<exists>fo' fo2'. emit sz cs fo = Inr fo' \<and> emit sz2 cs fo2 = Inr fo2' \<and> same_text sz sz2 fo' fo2'"
proof (induction cs arbitrary: fo fo2)
  case (Cons c cs)
  obtain fo' fo2' where "put sz c fo = Inr fo'" "put sz2 c fo2 = Inr fo2'" "same_text sz sz2 fo' fo2'"
    using put_same_text [OF Cons.prems] by blast
  then show ?case using Cons.IH by simp
qed simp

text \<open>The faults that a wrong argument can cause; a store outside the buffer is not among them.\<close>

definition arg_fault :: "c_fault \<Rightarrow> bool" where
  "arg_fault f \<longleftrightarrow> f = Read_past_end"

lemma number_some: "base = 8 \<or> base = 10 \<or> base = 16 \<Longrightarrow> \<exists>cs. number n base w p t = Some cs"
  by (auto simp: number_def Let_def split: prod.splits)

lemma arg_faults: "arg_int args = Inl f \<Longrightarrow> arg_fault f" "arg_long args = Inl f \<Longrightarrow> arg_fault f"
  by (auto elim!: arg_int.elims arg_long.elims simp: arg_fault_def)

lemma fmt_num_faults: "fmt_num q flags args = Inl f \<Longrightarrow> arg_fault f"
  by (auto simp: fmt_num_def map_sum_def arg_faults split: if_splits sum.splits)

lemma int_conv_base: "int_conv c flags = Some (base, flags') \<Longrightarrow> base = 8 \<or> base = 10 \<or> base = 16"
  by (auto simp: int_conv_def split: if_splits)

lemma number_none: "number n base w p t = None \<Longrightarrow> base \<noteq> 8 \<and> base \<noteq> 10 \<and> base \<noteq> 16"
  using number_some [of base n w p t] by auto

lemma conv_chars_faults: "conv_chars fcvt sp c args = Inl f \<Longrightarrow> arg_fault f"
  by (auto simp: conv_chars_def Let_def map_sum_def dest: number_none int_conv_base arg_faults fmt_num_faults
      split: if_splits sum.splits list.splits varg.splits option.splits prod.splits)
    (auto simp: arg_fault_def)

lemma fmt_width_faults: "fmt_width fmt flags args = Inl f \<Longrightarrow> arg_fault f"
  by (auto simp: fmt_width_def Let_def dest: arg_faults split: if_splits sum.splits prod.splits)

lemma fmt_precision_faults: "fmt_precision fmt args = Inl f \<Longrightarrow> arg_fault f"
  by (auto simp: fmt_precision_def Let_def dest: arg_faults split: if_splits sum.splits prod.splits)

lemma fmt_spec_faults: "fmt_spec fmt args = Inl f \<Longrightarrow> arg_fault f"
  by (auto simp: fmt_spec_def dest: fmt_width_faults fmt_precision_faults split: sum.splits prod.splits)

lemma conv_josa_inside:
  assumes "inside sz rest fo"
  shows "\<exists>fmt' fo'. conv_josa R sz fmt fo = Inr (fmt', fo') \<and> inside sz rest fo'"
proof (cases "fo_pos fo < sz")
  case True
  let ?fo = "fo\<lparr>fo_buf := (fo_buf fo)[fo_pos fo := 0]\<rparr>"
  let ?cs = "select_josa R (until_nul (fo_buf ?fo)) (takeWhile (\<lambda>c. c \<noteq> 0x7D) (drop 2 fmt))"
  have "inside sz rest ?fo" using assms True by (simp add: inside_def)
  then obtain fo' where "emit sz ?cs ?fo = Inr fo'" "inside sz rest fo'" using emit_inside by blast
  then show ?thesis using assms True by (auto simp: conv_josa_def Let_def inside_def)
next
  case False
  then show ?thesis using assms by (simp add: conv_josa_def inside_def)
qed

lemma vs_conv_inside:
  assumes "inside sz rest fo"
  shows "(\<exists>f. vs_conv R fcvt sz sp fmt args fo = Inl f \<and> arg_fault f) \<or>
    (\<exists>fmt' args' fo'. vs_conv R fcvt sz sp fmt args fo = Inr (fmt', args', fo') \<and> inside sz rest fo')"
proof -
  let ?c = "cstr_at fmt 0"
  consider "?c = 0x4A" | "?c = 0x6E" | "?c \<noteq> 0x4A" "?c \<noteq> 0x6E" by blast
  then show ?thesis
  proof cases
    case 1
    then show ?thesis using conv_josa_inside [OF assms, of R fmt] by (auto simp: vs_conv_def)
  next
    case 2
    have "inside sz rest (fo\<lparr>fo_stores := st\<rparr>)" for st using assms by (simp add: inside_def)
    then show ?thesis using 2 by (auto simp: vs_conv_def arg_fault_def split: list.splits varg.splits)
  next
    case 3
    show ?thesis
    proof (cases "conv_chars fcvt sp ?c args")
      case (Inl f)
      then show ?thesis using 3 conv_chars_faults by (auto simp: vs_conv_def)
    next
      case (Inr r)
      then show ?thesis using 3 emit_inside [OF assms, of "fst r"] by (auto simp: vs_conv_def split: prod.splits)
    qed
  qed
qed

lemma vs_loop_inside:
  assumes "inside sz rest fo"
  shows "(\<exists>f. vs_loop R fcvt sz fmt args fo = Inl f \<and> arg_fault f) \<or>
    (\<exists>args' fo'. vs_loop R fcvt sz fmt args fo = Inr (args', fo') \<and> inside sz rest fo')"
  using assms
proof (induction R fcvt sz fmt args fo rule: vs_loop.induct)
  case (2 R fcvt sz c fmt args fo)
  show ?case
  proof (cases "c = 0x25")
    case False
    obtain fo' where p: "put sz c fo = Inr fo'" "inside sz rest fo'" using put_inside [OF 2(3)] by blast
    then show ?thesis using 2(1) [OF False p] False by simp
  next
    case True
    show ?thesis
    proof (cases "fmt_spec fmt args")
      case (Inl f)
      then show ?thesis using True fmt_spec_faults by auto
    next
      case (Inr r)
      then obtain sp fmt1 args1 where s: "fmt_spec fmt args = Inr (sp, fmt1, args1)" by (cases r) auto
      show ?thesis using vs_conv_inside [OF 2(3), of R fcvt sp fmt1 args1]
      proof (elim disjE exE conjE)
        fix f assume "vs_conv R fcvt sz sp fmt1 args1 fo = Inl f" "arg_fault f"
        then show ?thesis using True s by simp
      next
        fix fmt2 args2 fo2
        assume c: "vs_conv R fcvt sz sp fmt1 args1 fo = Inr (fmt2, args2, fo2)" "inside sz rest fo2"
        then show ?thesis using 2(2) [of "(sp, fmt1, args1)" sp "(fmt1, args1)" fmt1 args1 "(fmt2, args2, fo2)" fmt2 "(args2, fo2)" args2 fo2]
            True s by simp
      qed
    qed
  qed
qed simp

text \<open>Formats without \<open>%J\<close> write the same whatever the size of the buffer.\<close>

lemma vs_conv_same_text:
  assumes "same_text sz sz2 fo fo2" "cstr_at fmt 0 \<noteq> 0x4A"
    and "vs_conv R fcvt sz2 sp fmt args fo2 = Inr (fmt', args', fo2')"
  shows "\<exists>fo'. vs_conv R fcvt sz sp fmt args fo = Inr (fmt', args', fo') \<and> same_text sz sz2 fo' fo2'"
proof (cases "cstr_at fmt 0 = 0x6E")
  case True
  then show ?thesis using assms
    by (auto simp: vs_conv_def same_text_def split: list.splits varg.splits)
next
  case False
  show ?thesis
  proof (cases "conv_chars fcvt sp (cstr_at fmt 0) args")
    case (Inl f)
    then show ?thesis using assms(2,3) False by (simp add: vs_conv_def)
  next
    case (Inr r)
    obtain fo' fo2' where "emit sz (fst r) fo = Inr fo'" "emit sz2 (fst r) fo2 = Inr fo2'" "same_text sz sz2 fo' fo2'"
      using emit_same_text [OF assms(1)] by blast
    then show ?thesis using assms(2,3) False Inr by (auto simp: vs_conv_def split: prod.splits)
  qed
qed

lemma vs_loop_same_text:
  assumes "same_text sz sz2 fo fo2" "0x4A \<notin> set fmt" "vs_loop R fcvt sz2 fmt args fo2 = Inr (args', fo2')"
  shows "\<exists>fo'. vs_loop R fcvt sz fmt args fo = Inr (args', fo') \<and> same_text sz sz2 fo' fo2'"
  using assms
proof (induction R fcvt sz fmt args fo arbitrary: fo2 rule: vs_loop.induct)
  case (2 R fcvt sz c fmt args fo)
  show ?case
  proof (cases "c = 0x25")
    case False
    obtain fo' fo2'' where p: "put sz c fo = Inr fo'" "put sz2 c fo2 = Inr fo2''" "same_text sz sz2 fo' fo2''"
      using put_same_text [OF 2(3)] by blast
    then show ?thesis using 2(1) [OF False p(1,3)] 2(4,5) False by simp
  next
    case True
    from 2(5) True obtain sp fmt1 args1 where s: "fmt_spec fmt args = Inr (sp, fmt1, args1)"
      by (auto split: sum.splits)
    from 2(5) True s obtain fmt2 args2 fo2'' where c: "vs_conv R fcvt sz2 sp fmt1 args1 fo2 = Inr (fmt2, args2, fo2'')"
      "vs_loop R fcvt sz2 fmt2 args2 fo2'' = Inr (args', fo2')"
      by (auto split: sum.splits)
    have sub: "set fmt1 \<subseteq> set fmt" "set fmt2 \<subseteq> set fmt"
      using set_mono_suffix [OF fmt_spec_suffix [OF s]] set_mono_suffix [OF vs_conv_suffix [OF c(1)]]
        set_drop_subset [of 1 fmt1] by auto
    have noJ: "0x4A \<notin> set fmt" using 2(4) by simp
    then have "cstr_at fmt1 0 \<noteq> 0x4A" using sub(1) by (cases fmt1) auto
    then obtain fo' where "vs_conv R fcvt sz sp fmt1 args1 fo = Inr (fmt2, args2, fo')" "same_text sz sz2 fo' fo2''"
      using vs_conv_same_text [OF 2(3) _ c(1)] by blast
    then show ?thesis
      using 2(2) [of "(sp, fmt1, args1)" sp "(fmt1, args1)" fmt1 args1 "(fmt2, args2, fo')" fmt2 "(args2, fo')" args2 fo' fo2'']
        True s c(2) sub(2) noJ by auto
  qed
qed simp

lemma size_ok: "sz < 2 ^ 31 \<Longrightarrow> \<not> sint (of_nat sz :: u32) < 0"
proof -
  assume "sz < 2 ^ 31"
  then have "sint (of_nat sz :: u32) = int sz"
    by (simp add: signed_of_nat signed_take_bit_int_eq_self)
  then show ?thesis by simp
qed

lemma vs_end_inside:
  assumes "inside sz rest fo"
  shows "\<exists>fo'. vs_end sz fo = Inr fo' \<and> inside sz rest fo' \<and> (0 < sz \<longrightarrow> 0 \<in> set (take sz (fo_buf fo')))"
proof (cases "sz = 0")
  case False
  let ?p = "if fo_pos fo < sz then fo_pos fo else sz - 1"
  have p: "?p < sz" "?p < length (fo_buf fo)" using False assms by (auto simp: inside_def)
  have "0 \<in> set ((take sz (fo_buf fo))[?p := 0])" using p by (intro set_update_memI) simp
  then show ?thesis using False p assms
    by (intro exI [of _ "fo\<lparr>fo_buf := (fo_buf fo)[?p := 0]\<rparr>"])
       (simp add: vs_end_def inside_def Let_def take_update_swap del: set_take_subset)
qed (use assms in \<open>simp add: vs_end_def\<close>)

lemma vs_end_text:
  assumes "vs_end sz fo = Inr fo'"
  shows "fo_pos fo' = fo_pos fo" "fo_stores fo' = fo_stores fo"
    "take (min (fo_pos fo) (sz - 1)) (fo_buf fo') = take (min (fo_pos fo) (sz - 1)) (fo_buf fo)"
  using assms by (auto simp: vs_end_def Let_def min_def split: if_splits)

lemma my_vsnprintf_run:
  assumes "sz < 2 ^ 31"
  shows "my_vsnprintf R fcvt buf sz fmt args =
    (case vs_loop R fcvt sz (until_nul fmt) args \<lparr>fo_pos = 0, fo_buf = buf, fo_stores = []\<rparr> of
       Inl f \<Rightarrow> Inl f
     | Inr (args, fo) \<Rightarrow> map_sum id (\<lambda>fo'. (int (fo_pos fo), args, fo_buf fo', fo_stores fo')) (vs_end sz fo))"
  using size_ok [OF assms] by (simp add: my_vsnprintf_def)

lemma vsnprintf_inside:
  assumes "sz \<le> length buf" "sz < 2 ^ 31"
  shows "case my_vsnprintf R fcvt buf sz fmt args of
      Inl f \<Rightarrow> f = Read_past_end
    | Inr (n, args', buf', st) \<Rightarrow>
        length buf' = length buf \<and> drop sz buf' = drop sz buf \<and> (0 < sz \<longrightarrow> 0 \<in> set (take sz buf'))"
proof -
  let ?fo = "\<lparr>fo_pos = 0, fo_buf = buf, fo_stores = []\<rparr>"
  have ins: "inside sz (drop sz buf) ?fo" using assms(1) by (simp add: inside_def)
  show ?thesis using vs_loop_inside [OF ins, of R fcvt "until_nul fmt" args]
  proof (elim disjE exE conjE)
    fix f assume "vs_loop R fcvt sz (until_nul fmt) args ?fo = Inl f" "arg_fault f"
    then show ?thesis by (simp add: my_vsnprintf_run [OF assms(2)] arg_fault_def)
  next
    fix args' fo assume l: "vs_loop R fcvt sz (until_nul fmt) args ?fo = Inr (args', fo)" "inside sz (drop sz buf) fo"
    obtain fo' where e: "vs_end sz fo = Inr fo'" "inside sz (drop sz buf) fo'"
      "0 < sz \<longrightarrow> 0 \<in> set (take sz (fo_buf fo'))" using vs_end_inside [OF l(2)] by blast
    have d: "drop sz (fo_buf fo') = drop sz buf" "sz \<le> length (fo_buf fo')" using e(2) by (simp_all add: inside_def)
    then have "length (fo_buf fo') = length buf"
      using assms(1) by (metis le_add_diff_inverse length_drop)
    then show ?thesis using l(1) e(1,3) d(1) by (simp add: my_vsnprintf_run [OF assms(2)])
  qed
qed

lemma vsnprintf_truncates:
  assumes "sz \<le> length buf" "sz < 2 ^ 31" "0x4A \<notin> set fmt" "sz \<le> sz2" "sz2 \<le> length buf2" "sz2 < 2 ^ 31"
    and "my_vsnprintf R fcvt buf2 sz2 fmt args = Inr (n, args', buf2', st)"
  shows "\<exists>buf'. my_vsnprintf R fcvt buf sz fmt args = Inr (n, args', buf', st) \<and>
    take (min (nat n) (sz - 1)) buf' = take (min (nat n) (sz - 1)) buf2'"
proof -
  let ?fo = "\<lambda>b. \<lparr>fo_pos = 0, fo_buf = b, fo_stores = []\<rparr>"
  have noJ: "0x4A \<notin> set (until_nul fmt)" using assms(3) by (auto simp: until_nul_def dest: set_takeWhileD)
  have st: "same_text sz sz2 (?fo buf) (?fo buf2)" using assms by (simp add: same_text_def)
  from assms(7) obtain fo2 fo2' where l2: "vs_loop R fcvt sz2 (until_nul fmt) args (?fo buf2) = Inr (args', fo2)"
    and e2: "vs_end sz2 fo2 = Inr fo2'" "n = int (fo_pos fo2)" "st = fo_stores fo2'" "buf2' = fo_buf fo2'"
    by (auto simp: my_vsnprintf_run [OF assms(6)] map_sum_def split: sum.splits)
  obtain fo where l: "vs_loop R fcvt sz (until_nul fmt) args (?fo buf) = Inr (args', fo)" "same_text sz sz2 fo fo2"
    using vs_loop_same_text [OF st noJ l2] by blast
  have "inside sz (drop sz (fo_buf fo)) fo" using l(2) by (simp add: inside_def same_text_def)
  then obtain fo' where e: "vs_end sz fo = Inr fo'" using vs_end_inside by blast
  note t = vs_end_text [OF e] and t2 = vs_end_text [OF e2(1)]
  have eq: "fo_pos fo = fo_pos fo2" "fo_stores fo = fo_stores fo2" using l(2) by (simp_all add: same_text_def)
  have cut: "take (min m (sz - 1)) xs = take (min m (sz - 1)) (take k xs)" if "min m (sz - 1) \<le> k" for m k and xs :: "byte list"
    using that by (simp add: min_def)
  let ?m = "min (fo_pos fo2) (sz - 1)"
  have m: "?m \<le> min (fo_pos fo2) sz" "?m \<le> min (fo_pos fo2) (sz2 - 1)" using assms(4) by auto
  have "take ?m (fo_buf fo') = take ?m (fo_buf fo)" using t(3) eq by simp
  also have "\<dots> = take ?m (take (min (fo_pos fo2) sz) (fo_buf fo))" by (rule cut [OF m(1)])
  also have "take (min (fo_pos fo2) sz) (fo_buf fo) = take (min (fo_pos fo2) sz) (fo_buf fo2)"
    using l(2) eq by (simp add: same_text_def)
  also have "take ?m (take (min (fo_pos fo2) sz) (fo_buf fo2)) = take ?m (fo_buf fo2)" by (rule cut [OF m(1), symmetric])
  also have "\<dots> = take ?m (take (min (fo_pos fo2) (sz2 - 1)) (fo_buf fo2))" by (rule cut [OF m(2)])
  also have "\<dots> = take ?m (take (min (fo_pos fo2) (sz2 - 1)) (fo_buf fo2'))" using t2(3) by simp
  also have "\<dots> = take ?m (fo_buf fo2')" by (rule cut [OF m(2), symmetric])
  finally have "take ?m (fo_buf fo') = take ?m buf2'" using e2(4) by simp
  then show ?thesis using l(1) e e2(2,3) t t2 eq by (simp add: my_vsnprintf_run [OF assms(2)])
qed


definition pcre_none :: "byte pcre" where
  "pcre_none = \<lparr>re_full = \<lambda>_ _. None, re_partial = \<lambda>_ _. None, re_global_replace = \<lambda>_ _ s. s\<rparr>"


subsection \<open>The text of a number\<close>

lemma number_tmp_dec: "rev (number_tmp large 10 n) = dec_str n"
proof (induction large "10::nat" n rule: number_tmp.induct)
  case (1 large num)
  have d: "m < 10 \<Longrightarrow> digit_char large m = of_nat (48 + m)" for m by (simp add: digit_char_def)
  show ?case
  proof (cases "num < 10")
    case True
    then show ?thesis using d by (simp add: number_tmp.simps [of large 10 num] dec_str_small)
  next
    case False
    then show ?thesis using 1 d [of "num mod 10"] by (simp add: number_tmp.simps [of large 10 num] dec_str_big)
  qed
qed

text \<open>\<open>tmp\<close> has room for 66 digits; a 64-bit number has at most 64 in any base.\<close>

lemma number_tmp_length: "2 \<le> base \<Longrightarrow> n < base ^ k \<Longrightarrow> 0 < k \<Longrightarrow> length (number_tmp large base n) \<le> k"
proof (induction k arbitrary: n)
  case (Suc k)
  show ?case
  proof (cases "n < base")
    case True
    then show ?thesis by (simp add: number_tmp.simps)
  next
    case False
    then have k: "0 < k" using Suc.prems by (cases k) auto
    have "n div base < base ^ k" using Suc.prems by (simp add: less_mult_imp_div_less mult.commute)
    then show ?thesis using Suc.IH [of "n div base"] Suc.prems False k by (simp add: number_tmp.simps [of large base n])
  qed
qed simp

lemma number_tmp_fits: "2 \<le> base \<Longrightarrow> length (number_tmp large base (unat (n :: u64))) \<le> 64"
proof (rule number_tmp_length)
  assume "2 \<le> base"
  then have "(2::nat) ^ 64 \<le> base ^ 64" by (rule power_mono) simp
  moreover have "unat n < 2 ^ 64" using unsigned_less [of n] by simp
  ultimately show "unat n < base ^ 64" by simp
qed simp_all

lemma unat_word_of_int: "0 \<le> k \<Longrightarrow> k < 2 ^ 64 \<Longrightarrow> unat (word_of_int k :: u64) = nat k"
  using uint_word_of_int [of k, where ?'a = 64] by (simp add: unat_eq_nat_uint mod_pos_pos_trivial)

lemma unat_minus: "sint n < 0 \<Longrightarrow> unat (- n) = nat (- sint n)" for n :: u64
  using unat_word_of_int [of "- sint n"] sint_ge [of n] by simp

lemma unat_sint: "0 \<le> sint n \<Longrightarrow> unat n = nat (sint n)" for n :: u64
  using unat_word_of_int [of "sint n"] sint_lt [of n] by simp

lemma has_clear:
  "has (t AND NOT ZEROPAD) SIGN = has t SIGN" "has (t AND NOT ZEROPAD) PLUS = has t PLUS"
  "has (t AND NOT ZEROPAD) SPACE = has t SPACE" "has (t AND NOT ZEROPAD) SPECIAL = has t SPECIAL"
  "has (t AND NOT ZEROPAD) LEFT = has t LEFT" "\<not> has (t AND NOT ZEROPAD) ZEROPAD"
  by (simp_all add: has_def ZEROPAD_def SIGN_def PLUS_def SPACE_def SPECIAL_def LEFT_def and.assoc)

lemma pad_ran_down: "pad (ran_down n) c = []" "pad (if n > 0 then ran_down n else m) c = (if n > 0 then [] else pad m c)"
  by (simp_all add: pad_def ran_down_def)

lemma number_signed:
  assumes "has type SIGN" "\<not> has type PLUS" "\<not> has type SPACE" "\<not> has type SPECIAL"
    and "sg = (if sint n < 0 then [0x2D] else [])" "ds = dec_str (nat \<bar>sint n\<bar>)"
    and "zs = pad (precision - int (length ds)) 0x30" "fill = width - int (length (sg @ zs @ ds))"
  shows "\<exists>t. number n 10 width precision type = Some t \<and>
    t = (if has type LEFT then sg @ zs @ ds @ pad fill 0x20
         else if has type ZEROPAD then sg @ pad fill 0x30 @ zs @ ds
         else pad fill 0x20 @ sg @ zs @ ds) \<and>
    int (length t) = max width (int (length (sg @ zs @ ds)))"
proof -
  have tmp: "rev (number_tmp large 10 (unat (snd (number_sign n t)))) = ds" if "has t SIGN" for large t
    using that assms(6) unat_minus [of n] unat_sint [of n]
    by (auto simp: number_sign_def number_tmp_dec abs_if)
  then have len: "length (number_tmp large 10 (unat (snd (number_sign n t)))) = length ds" if "has t SIGN" for large t
    using that by (metis length_rev)
  have sign: "(if fst (number_sign n t) \<noteq> 0 then [fst (number_sign n t)] else []) = sg"
    "(fst (number_sign n t) \<noteq> 0) = (sint n < 0)"
    if "has t SIGN" "\<not> has t PLUS" "\<not> has t SPACE" for t
    using that assms(5) by (auto simp: number_sign_def)
  have zs: "int (length zs) = max 0 (precision - int (length ds))" using assms(7) by (simp add: pad_def)
  let ?t = "if has type LEFT then sg @ zs @ ds @ pad fill 0x20
         else if has type ZEROPAD then sg @ pad fill 0x30 @ zs @ ds
         else pad fill 0x20 @ sg @ zs @ ds"
  have "number n 10 width precision type = Some ?t"
  proof -
    let ?u = "if has type LEFT then type AND NOT ZEROPAD else type"
    have u: "has ?u SIGN" "\<not> has ?u PLUS" "\<not> has ?u SPACE" "\<not> has ?u SPECIAL" "has ?u LEFT = has type LEFT"
      "has ?u ZEROPAD = (\<not> has type LEFT \<and> has type ZEROPAD)"
      using assms(1-4) by (simp_all add: has_clear)
    obtain s0 num0 where s0: "number_sign n ?u = (s0, num0)" by force
    have sg: "(if s0 \<noteq> 0 then [s0] else []) = sg" "(s0 \<noteq> 0) = (sg \<noteq> [])" "length sg = (if s0 \<noteq> 0 then 1 else 0)"
      using sign [OF u(1-3)] s0 by auto
    have ds: "rev (number_tmp large 10 (unat num0)) = ds" "length (number_tmp large 10 (unat num0)) = length ds" for large
      using tmp [OF u(1)] len [OF u(1)] s0 by simp_all
    let ?i = "int (length ds)" let ?p = "if ?i > precision then ?i else precision"
    have zp: "pad (?p - ?i) 0x30 = zs" using assms(7) by (simp add: pad_def)
    have fl: "(if s0 \<noteq> 0 then width - 1 else width) - ?p = fill"
      using assms(8) sg(3) zs by auto
    show ?thesis
      unfolding number_def Let_def s0 prod.case ds sg(1) zp
      using u fl by (auto simp: pad_ran_down pad_def ran_down_def split: if_splits)
  qed
  moreover have "int (length ?t) = max width (int (length (sg @ zs @ ds)))"
    using assms(8) by (auto simp: pad_def)
  ultimately show ?thesis by blast
qed

text \<open>How \<open>number\<close> prints a signed decimal: an optional minus sign and the digits of the absolute value, with
  zeros in front up to the precision, are padded to the field width with spaces on the right when \<open>-\<close> was
  given, else with zeros behind the sign when \<open>0\<close> was given, else with spaces on the left. The text is exactly
  as long as the larger of the two, for every 64-bit number, the smallest included.\<close>

theorem number_decimal:
  assumes "has type SIGN" "\<not> has type PLUS" "\<not> has type SPACE" "\<not> has type SPECIAL"
    and "sg = (if sint n < 0 then [0x2D] else [])" "ds = dec_str (nat \<bar>sint n\<bar>)"
    and "zs = pad (precision - int (length ds)) 0x30" "fill = width - int (length (sg @ zs @ ds))"
  shows "\<exists>t. number n 10 width precision type = Some t \<and>
    t = (if has type LEFT then sg @ zs @ ds @ pad fill 0x20
         else if has type ZEROPAD then sg @ pad fill 0x30 @ zs @ ds
         else pad fill 0x20 @ sg @ zs @ ds) \<and>
    int (length t) = max width (int (length (sg @ zs @ ds)))"
  using number_signed [OF assms] .

lemma number_decimal_witness:
  "number (- 42) 10 6 0 (SIGN OR ZEROPAD) = Some [0x2D, 0x30, 0x30, 0x30, 0x34, 0x32] \<and>
   number (- 42) 10 6 3 SIGN = Some [0x20, 0x20, 0x2D, 0x30, 0x34, 0x32]"
proof -
  have f: "has (SIGN OR ZEROPAD) SIGN" "\<not> has (SIGN OR ZEROPAD) PLUS" "\<not> has (SIGN OR ZEROPAD) SPACE"
    "\<not> has (SIGN OR ZEROPAD) SPECIAL" "\<not> has (SIGN OR ZEROPAD) LEFT" "has (SIGN OR ZEROPAD) ZEROPAD"
    "has SIGN SIGN" "\<not> has SIGN PLUS" "\<not> has SIGN SPACE" "\<not> has SIGN SPECIAL" "\<not> has SIGN LEFT" "\<not> has SIGN ZEROPAD"
    by (simp_all add: has_def ZEROPAD_def SIGN_def PLUS_def SPACE_def SPECIAL_def LEFT_def)
  have n: "sint (- 42 :: u64) = - 42" by simp
  have d: "dec_str 42 = [0x34, 0x32]" by code_simp
  have r: "replicate 3 (0x30 :: byte) = [0x30, 0x30, 0x30]" "replicate 2 (0x20 :: byte) = [0x20, 0x20]"
    by (simp_all add: numeral_eq_Suc)
  show ?thesis
    using number_decimal [OF f(1-4) refl refl refl refl, of "- 42" 6 0] number_decimal [OF f(7-10) refl refl refl refl, of "- 42" 6 3]
    by (simp add: n d f pad_def r)
qed

lemma emit_fits:
  "fo_pos fo + length cs \<le> sz \<Longrightarrow> sz \<le> length (fo_buf fo) \<Longrightarrow>
    emit sz cs fo = Inr (fo\<lparr>fo_buf := take (fo_pos fo) (fo_buf fo) @ cs @ drop (fo_pos fo + length cs) (fo_buf fo),
      fo_pos := fo_pos fo + length cs\<rparr>)"
proof (induction cs arbitrary: fo)
  case (Cons c cs)
  let ?fo = "fo\<lparr>fo_buf := (fo_buf fo)[fo_pos fo := c], fo_pos := Suc (fo_pos fo)\<rparr>"
  have "put sz c fo = Inr ?fo" using Cons.prems by (simp add: put_def)
  moreover have "take (Suc (fo_pos fo)) (fo_buf ?fo) = take (fo_pos fo) (fo_buf fo) @ [c]"
    using Cons.prems by (simp add: take_Suc_conv_app_nth)
  ultimately show ?case using Cons.IH [of ?fo] Cons.prems by simp
qed simp

text \<open>\<open>%d\<close> prints every \<open>int\<close> completely into a buffer of twelve bytes, as \<open>int2string\<close> does, and \<open>my_atoi\<close>
  reads the number back from the buffer.\<close>

theorem printf_atoi:
  assumes "12 \<le> sz" "sz \<le> length buf" "sz < 2 ^ 31"
  shows "\<exists>buf'. my_vsnprintf R fcvt buf sz (c_lit ''%d'') [Arg_int n] =
      Inr (int (length (int2string (sint n))), [], buf', []) \<and>
    until_nul buf' = int2string (sint n) \<and> my_atoi (until_nul buf') = n"
proof -
  let ?k = "sint n" let ?t = "int2string ?k"
  have k: "- (2 ^ 31) \<le> ?k" "?k < 2 ^ 31" using sint_ge [of n] sint_lt [of n] by simp_all
  note full = int2string_full [OF k]
  have "nat \<bar>?k\<bar> < 10 ^ 10" using k by auto
  then have len: "length ?t \<le> 11" using dec_str_length(2) [of "nat \<bar>?k\<bar>" 10] unfolding full by auto
  have nz: "0 \<notin> set ?t" using dec_str_digits [of 0 "nat \<bar>?k\<bar>"] unfolding full by auto
  have spec: "fmt_spec [0x64] args = Inr (\<lparr>cs_flags = 0, cs_field_width = - 1, cs_precision = - 1, cs_dotflag = False,
      cs_qualifier = 0\<rparr>, [0x64], args)" for args :: "'a varg list"
    by (simp add: fmt_spec_def fmt_width_def fmt_precision_def fmt_qualifier_def is_digit_def Let_def)
  have f: "has SIGN SIGN" "\<not> has SIGN PLUS" "\<not> has SIGN SPACE" "\<not> has SIGN SPECIAL" "\<not> has SIGN LEFT" "\<not> has SIGN ZEROPAD"
    by (simp_all add: has_def ZEROPAD_def SIGN_def PLUS_def SPACE_def SPECIAL_def LEFT_def)
  have sc: "sint (scast n :: u64) = ?k" using k by (simp add: signed_scast_eq signed_take_bit_int_eq_self)
  have num: "number (scast n) 10 (- 1) (- 1) SIGN = Some ?t"
    using number_signed [OF f(1-4) refl refl refl refl, of "scast n" "- 1" "- 1"] f
    by (simp add: sc full pad_def)
  have conv: "conv_chars fcvt \<lparr>cs_flags = 0, cs_field_width = - 1, cs_precision = - 1, cs_dotflag = False, cs_qualifier = 0\<rparr>
      0x64 [Arg_int n] = Inr (?t, [])"
    using num f by (simp add: conv_chars_def int_conv_def fmt_num_def Let_def)
  let ?fo = "\<lparr>fo_pos = 0, fo_buf = buf, fo_stores = []\<rparr>"
  have e: "emit sz ?t ?fo = Inr (?fo\<lparr>fo_buf := ?t @ drop (length ?t) buf, fo_pos := length ?t\<rparr>)"
    using emit_fits [of ?fo ?t sz] len assms by simp
  have fmt: "until_nul (c_lit ''%d'') = [0x25, 0x64]" by code_simp
  let ?b = "?t @ 0 # drop (Suc (length ?t)) buf"
  have upd: "(?t @ drop (length ?t) buf)[length ?t := 0] = ?b"
    using len assms by (simp add: list_update_append Cons_nth_drop_Suc [symmetric])
  have "my_vsnprintf R fcvt buf sz (c_lit ''%d'') [Arg_int n] = Inr (int (length ?t), [], ?b, [])"
    using spec conv e upd len assms by (simp add: my_vsnprintf_run [OF assms(3)] fmt vs_conv_def vs_end_def Let_def)
  moreover have "until_nul ?b = ?t" using nz by (simp add: until_nul_def takeWhile_append)
  moreover have "my_atoi ?t = n"
    using my_atoi_dec [of "[]" "nat \<bar>?k\<bar>"] of_nat_abs [of ?k] unfolding full
    by (cases "?k < 0") (simp_all add: atoi_digit_def)
  ultimately show ?thesis by auto
qed

lemma printf_atoi_witness:
  "\<exists>buf'. my_vsnprintf pcre_none (\<lambda>_ _. None) (replicate 12 7) 12 (c_lit ''%d'') [Arg_int (- 5) :: unit varg] = Inr (2, [], buf', []) \<and>
    until_nul buf' = c_lit ''-5'' \<and> my_atoi (until_nul buf') = - 5"
proof -
  have t: "int2string (- 5) = c_lit ''-5''" by code_simp
  have l: "length (c_lit ''-5'') = 2" by code_simp
  show ?thesis
    using printf_atoi [of 12 "replicate 12 7" pcre_none "(\<lambda>_ _. None) :: unit fcvt" "- 5"] by (simp add: t l)
qed

text \<open>A text of 1024 characters or more is formatted twice, and where a \<open>va_list\<close> is an array the second time
  with the arguments that the first has left: a format that uses its only argument reads one that is not there.\<close>

lemma s_vsprintf_long:
  assumes "length buf = 1024" "1024 \<le> length s" "cstr_ok s" "length s < 2 ^ 31 - 1"
  shows "s_vsprintf R fcvt buf junk (c_lit ''%s'') [Arg_str (Some s)] = Inl Read_past_end"
proof -
  have spec: "fmt_spec [0x73] args = Inr (\<lparr>cs_flags = 0, cs_field_width = - 1, cs_precision = - 1, cs_dotflag = False,
      cs_qualifier = 0\<rparr>, [0x73], args)" for args :: "'a varg list"
    by (simp add: fmt_spec_def fmt_width_def fmt_precision_def fmt_qualifier_def is_digit_def Let_def)
  have shown: "fmt_s 0 (- 1) (- 1) False (Some s) = s"
    using assms(3) by (simp add: fmt_s_def Let_def pad_def until_nul_id has_def)
  have fmt: "until_nul (c_lit ''%s'') = [0x25, 0x73]" by code_simp
  have pos: "emit sz cs fo = Inr fo' \<Longrightarrow> fo_pos fo' = fo_pos fo + length cs" for sz cs fo fo'
    by (induction cs arbitrary: fo) (auto simp: put_def split: sum.splits if_splits)
  let ?fo = "\<lparr>fo_pos = 0, fo_buf = buf, fo_stores = []\<rparr>"
  have "inside 1024 [] ?fo" using assms(1) by (simp add: inside_def)
  then obtain fo where fo: "emit 1024 s ?fo = Inr fo" "inside 1024 [] fo" using emit_inside by blast
  then have n: "fo_pos fo = length s" using pos by fastforce
  obtain fo' where e: "vs_end 1024 fo = Inr fo'" using vs_end_inside [OF fo(2)] by blast
  have "my_vsnprintf R fcvt buf 1024 (c_lit ''%s'') [Arg_str (Some s)] = Inr (int (length s), [], fo_buf fo', fo_stores fo')"
    using spec fo(1) n e shown by (simp add: my_vsnprintf_run fmt vs_conv_def conv_chars_def)
  moreover have "my_vsnprintf R fcvt b sz (c_lit ''%s'') [] = Inl Read_past_end" if "sz < 2 ^ 31" for b sz
    using spec by (simp add: my_vsnprintf_run [OF that] fmt vs_conv_def conv_chars_def)
  ultimately show ?thesis using assms(2,4) by (simp add: s_vsprintf_def)
qed

text \<open>Once the buffer is full \<open>%J\<close> counts twelve characters for the particle and then copies the braces and
  what is between them as text: the length returned is not that of the full text.\<close>

lemma josa_overflow:
  "my_vsnprintf pcre_none fcvt [7, 7] 2 (c_lit ''abc%J{xy}'') [] = Inr (19, [], [0x61, 0], [])"
  by (simp add: my_vsnprintf_run until_nul_def c_lit_def put_def vs_conv_def conv_josa_def fmt_spec_def fmt_width_def
      fmt_precision_def fmt_qualifier_def is_digit_def vs_end_def Let_def)

end
