(* ===== verification/Ircdefs.thy ===== *)
theory Ircdefs
  imports Prelude
begin

text \<open>
  \<open>ircdefs.h\<close>: the constants and enumerations of the IRC client. An enumeration whose members only
  name alternatives is a datatype; one whose numeric values the code computes with is a group of
  integers. The reply codes of \<open>enum irc_codes\<close> are a table from the enumerator to its value (the
  client compares the numeric commands as strings, see \<open>Irc\<close>).
\<close>

definition irc_codes :: "(string \<times> nat) list" where
  "irc_codes =
    [(''IRC_RPL_WELCOME'', 1),
     (''IRC_RPL_YOURHOST'', 2),
     (''IRC_RPL_CREATED'', 3),
     (''IRC_RPL_MYINFO'', 4),
     (''IRC_RPL_BOUNCE'', 5),
     (''IRC_RPL_USERHOST'', 302),
     (''IRC_RPL_ISON'', 303),
     (''IRC_RPL_AWAY'', 301),
     (''IRC_RPL_UNAWAY'', 305),
     (''IRC_RPL_NOWAWAY'', 306),
     (''IRC_RPL_WHOISUSER'', 311),
     (''IRC_RPL_WHOISSERVER'', 312),
     (''IRC_RPL_WHOISOPERATOR'', 313),
     (''IRC_RPL_WHOISIDLE'', 317),
     (''IRC_RPL_ENDOFWHOIS'', 318),
     (''IRC_RPL_WHOISCHANNELS'', 319),
     (''IRC_RPL_WHOWASUSER'', 314),
     (''IRC_RPL_ENDOFWHOWAS'', 369),
     (''IRC_RPL_LISTSTART'', 321),
     (''IRC_RPL_LIST'', 322),
     (''IRC_RPL_LISTEND'', 323),
     (''IRC_RPL_UNIQOPIS'', 325),
     (''IRC_RPL_CHANNELMODEIS'', 324),
     (''IRC_RPL_NOTOPIC'', 331),
     (''IRC_RPL_TOPIC'', 332),
     (''IRC_RPL_INVITING'', 341),
     (''IRC_RPL_SUMMONING'', 342),
     (''IRC_RPL_INVITELIST'', 346),
     (''IRC_RPL_ENDOFINVITELIST'', 347),
     (''IRC_RPL_EXCEPTLIST'', 348),
     (''IRC_RPL_ENDOFEXCEPTLIST'', 349),
     (''IRC_RPL_VERSION'', 351),
     (''IRC_RPL_WHOREPLY'', 352),
     (''IRC_RPL_ENDOFWHO'', 315),
     (''IRC_RPL_NAMREPLY'', 353),
     (''IRC_RPL_ENDOFNAMES'', 366),
     (''IRC_RPL_LINKS'', 364),
     (''IRC_RPL_ENDOFLINKS'', 365),
     (''IRC_RPL_BANLIST'', 367),
     (''IRC_RPL_ENDOFBANLIST'', 368),
     (''IRC_RPL_INFO'', 371),
     (''IRC_RPL_ENDOFINFO'', 374),
     (''IRC_RPL_MOTDSTART'', 375),
     (''IRC_RPL_MOTD'', 372),
     (''IRC_RPL_ENDOFMOTD'', 376),
     (''IRC_RPL_YOUREOPER'', 381),
     (''IRC_RPL_REHASHING'', 382),
     (''IRC_RPL_YOURESERVICE'', 383),
     (''IRC_RPL_TIME'', 391),
     (''IRC_RPL_USERSSTART'', 392),
     (''IRC_RPL_USERS'', 393),
     (''IRC_RPL_ENDOFUSERS'', 394),
     (''IRC_RPL_NOUSERS'', 395),
     (''IRC_RPL_TRACELINK'', 200),
     (''IRC_RPL_TRACECONNECTING'', 201),
     (''IRC_RPL_TRACEHANDSHAKE'', 202),
     (''IRC_RPL_TRACEUNKNOWN'', 203),
     (''IRC_RPL_TRACEOPERATOR'', 204),
     (''IRC_RPL_TRACEUSER'', 205),
     (''IRC_RPL_TRACESERVER'', 206),
     (''IRC_RPL_TRACESERVICE'', 207),
     (''IRC_RPL_TRACENEWTYPE'', 208),
     (''IRC_RPL_TRACECLASS'', 209),
     (''IRC_RPL_TRACERECONNECT'', 210),
     (''IRC_RPL_TRACELOG'', 261),
     (''IRC_RPL_TRACEEND'', 262),
     (''IRC_RPL_STATSLINKINFO'', 211),
     (''IRC_RPL_STATSCOMMANDS'', 212),
     (''IRC_RPL_ENDOFSTATS'', 219),
     (''IRC_RPL_STATSUPTIME'', 242),
     (''IRC_RPL_STATSOLINE'', 243),
     (''IRC_RPL_UMODEIS'', 221),
     (''IRC_RPL_SERVLIST'', 234),
     (''IRC_RPL_SERVLISTEND'', 235),
     (''IRC_RPL_LUSERCLIENT'', 251),
     (''IRC_RPL_LUSEROP'', 252),
     (''IRC_RPL_LUSERUNKNOWN'', 253),
     (''IRC_RPL_LUSERCHANNELS'', 254),
     (''IRC_RPL_LUSERME'', 255),
     (''IRC_RPL_ADMINME'', 256),
     (''IRC_RPL_ADMINLOC1'', 257),
     (''IRC_RPL_ADMINLOC2'', 258),
     (''IRC_RPL_ADMINEMAIL'', 259),
     (''IRC_RPL_TRYAGAIN'', 263),
     (''IRC_ERR_NOSUCHNICK'', 401),
     (''IRC_ERR_NOSUCHSERVER'', 402),
     (''IRC_ERR_NOSUCHCHANNEL'', 403),
     (''IRC_ERR_CANNOTSENDTOCHAN'', 404),
     (''IRC_ERR_TOOMANYCHANNELS'', 405),
     (''IRC_ERR_WASNOSUCHNICK'', 406),
     (''IRC_ERR_TOOMANYTARGETS'', 407),
     (''IRC_ERR_NOSUCHSERVICE'', 408),
     (''IRC_ERR_NOORIGIN'', 409),
     (''IRC_ERR_NORECIPIENT'', 411),
     (''IRC_ERR_NOTEXTTOSEND'', 412),
     (''IRC_ERR_NOTOPLEVEL'', 413),
     (''IRC_ERR_WILDTOPLEVEL'', 414),
     (''IRC_ERR_BADMASK'', 415),
     (''IRC_ERR_UNKNOWNCOMMAND'', 421),
     (''IRC_ERR_NOMOTD'', 422),
     (''IRC_ERR_NOADMININFO'', 423),
     (''IRC_ERR_FILEERROR'', 424),
     (''IRC_ERR_NONICKNAMEGIVEN'', 431),
     (''IRC_ERR_ERRONEUSNICKNAME'', 432),
     (''IRC_ERR_NICKNAMEINUSE'', 433),
     (''IRC_ERR_NICKCOLLISION'', 436),
     (''IRC_ERR_UNAVAILRESOURCE'', 437),
     (''IRC_ERR_USERNOTINCHANNEL'', 441),
     (''IRC_ERR_NOTONCHANNEL'', 442),
     (''IRC_ERR_USERONCHANNEL'', 443),
     (''IRC_ERR_NOLOGIN'', 444),
     (''IRC_ERR_SUMMONDISABLED'', 445),
     (''IRC_ERR_USERSDISABLED'', 446),
     (''IRC_ERR_NOTREGISTERED'', 451),
     (''IRC_ERR_NEEDMOREPARAMS'', 461),
     (''IRC_ERR_ALREADYREGISTRED'', 462),
     (''IRC_ERR_NOPERMFORHOST'', 463),
     (''IRC_ERR_PASSWDMISMATCH'', 464),
     (''IRC_ERR_YOUREBANNEDCREEP'', 465),
     (''IRC_ERR_YOUWILLBEBANNED'', 466),
     (''IRC_ERR_KEYSET'', 467),
     (''IRC_ERR_CHANNELISFULL'', 471),
     (''IRC_ERR_UNKNOWNMODE'', 472),
     (''IRC_ERR_INVITEONLYCHAN'', 473),
     (''IRC_ERR_BANNEDFROMCHAN'', 474),
     (''IRC_ERR_BADCHANNELKEY'', 475),
     (''IRC_ERR_BADCHANMASK'', 476),
     (''IRC_ERR_NOCHANMODES'', 477),
     (''IRC_ERR_BANLISTFULL'', 478),
     (''IRC_ERR_NOPRIVILEGES'', 481),
     (''IRC_ERR_CHANOPRIVSNEEDED'', 482),
     (''IRC_ERR_CANTKILLSERVER'', 483),
     (''IRC_ERR_RESTRICTED'', 484),
     (''IRC_ERR_UNIQOPPRIVSNEEDED'', 485),
     (''IRC_ERR_NOOPERHOST'', 491),
     (''IRC_ERR_UMODEUNKNOWNFLAG'', 501),
     (''IRC_ERR_USERSDONTMATCH'', 502)]"

definition IRC_MAX_LINE_SIZE :: nat where
  "IRC_MAX_LINE_SIZE = 510"

subsection \<open>Text attributes\<close>

definition IRCTEXT_BOLD :: "byte list" where
  "IRCTEXT_BOLD = [0x02]"

definition IRCTEXT_UNDERLINE :: "byte list" where
  "IRCTEXT_UNDERLINE = [0x1F]"

definition IRCTEXT_NORMAL :: "byte list" where
  "IRCTEXT_NORMAL = [0x0F]"

definition IRCTEXT_COLOR :: "byte list" where
  "IRCTEXT_COLOR = [0x03]"

definition irctext_colors :: "(string \<times> byte list) list" where
  "irctext_colors =
    [(''IRCTEXT_COLOR_WHITE'', c_lit ''00''),
     (''IRCTEXT_COLOR_BLACK'', c_lit ''01''),
     (''IRCTEXT_COLOR_NAVY'', c_lit ''02''),
     (''IRCTEXT_COLOR_GREEN'', c_lit ''03''),
     (''IRCTEXT_COLOR_RED'', c_lit ''04''),
     (''IRCTEXT_COLOR_BROWN'', c_lit ''05''),
     (''IRCTEXT_COLOR_PURPLE'', c_lit ''06''),
     (''IRCTEXT_COLOR_ORANGE'', c_lit ''07''),
     (''IRCTEXT_COLOR_YELLOW'', c_lit ''08''),
     (''IRCTEXT_COLOR_LIME'', c_lit ''09''),
     (''IRCTEXT_COLOR_TEAL'', c_lit ''10''),
     (''IRCTEXT_COLOR_SKYBLUE'', c_lit ''11''),
     (''IRCTEXT_COLOR_BLUE'', c_lit ''12''),
     (''IRCTEXT_COLOR_PINK'', c_lit ''13''),
     (''IRCTEXT_COLOR_GRAY'', c_lit ''14''),
     (''IRCTEXT_COLOR_SILVER'', c_lit ''15'')]"

definition IRCTEXT_COLOR_FG :: "byte list \<Rightarrow> byte list" where
  "IRCTEXT_COLOR_FG c = IRCTEXT_COLOR @ c"

definition IRCTEXT_COLOR_BG :: "byte list \<Rightarrow> byte list" where
  "IRCTEXT_COLOR_BG c = IRCTEXT_COLOR @ c_lit '','' @ c"

definition IRCTEXT_COLOR_FGBG :: "byte list \<Rightarrow> byte list \<Rightarrow> byte list" where
  "IRCTEXT_COLOR_FGBG fg bg = IRCTEXT_COLOR @ fg @ c_lit '','' @ bg"

subsection \<open>Enumerations\<close>

datatype IRCSTATUS = IRCSTATUS_DISCONNECTED | IRCSTATUS_CONNECTING | IRCSTATUS_CONNECTED | IRCSTATUS_END

definition IRC_PRIORITY_MIN :: int where "IRC_PRIORITY_MIN = - 99"
definition IRC_PRIORITY_LOW :: int where "IRC_PRIORITY_LOW = - 5"
definition IRC_PRIORITY_BNORMAL :: int where "IRC_PRIORITY_BNORMAL = - 1"
definition IRC_PRIORITY_NORMAL :: int where "IRC_PRIORITY_NORMAL = 0"
definition IRC_PRIORITY_ANORMAL :: int where "IRC_PRIORITY_ANORMAL = 1"
definition IRC_PRIORITY_HIGH :: int where "IRC_PRIORITY_HIGH = 5"
definition IRC_PRIORITY_MAX :: int where "IRC_PRIORITY_MAX = 99"

lemmas irc_priority_defs = IRC_PRIORITY_MIN_def IRC_PRIORITY_LOW_def IRC_PRIORITY_BNORMAL_def
  IRC_PRIORITY_NORMAL_def IRC_PRIORITY_ANORMAL_def IRC_PRIORITY_HIGH_def IRC_PRIORITY_MAX_def

datatype irc_chantype = IRC_CHANTYPE_NONE | IRC_CHANTYPE_CHAN | IRC_CHANTYPE_QUERY | IRC_CHANTYPE_DCC
  | IRC_CHANTYPE_TELNET | IRC_CHANTYPE_END

datatype irc_msgtype = IRC_MSGTYPE_NONE | IRC_MSGTYPE_NORMAL | IRC_MSGTYPE_NOTICE | IRC_MSGTYPE_ACTION
  | IRC_MSGTYPE_CTCP | IRC_MSGTYPE_CTCPREPLY | IRC_MSGTYPE_END

text \<open>No two reply codes share a value: a \<open>switch\<close> over them has one case for each.\<close>

lemma irc_codes_distinct: "distinct (map snd irc_codes)" "list_all (\<lambda>n. n < 1000) (map snd irc_codes)"
  unfolding irc_codes_def by simp_all

end
