(* ===== verification/Strmap.thy ===== *)
theory Strmap
  imports Prelude "HOL-Library.List_Lexorder"
begin

text \<open>
  The ordered maps of the C++ sources: \<open>std::map\<close> with a comparator, as a list of pairs sorted by the
  comparator, and what a comparator of strings has to satisfy. The locale \<open>key_order\<close> is the contract
  of \<open>std::map\<close> with its comparator, a strict weak ordering; the locale \<open>strcasecmp_like\<close> derives it for
  a comparison function that goes through two strings byte by byte.
\<close>

subsection \<open>\<open>std::map\<close>\<close>

type_synonym ('k, 'v) smap = "('k \<times> 'v) list"

fun smap_find :: "('k \<Rightarrow> 'k \<Rightarrow> bool) \<Rightarrow> 'k \<Rightarrow> ('k, 'v) smap \<Rightarrow> 'v option" where
  "smap_find lt k [] = None"
| "smap_find lt k ((x, v) # m) =
    (if lt x k then smap_find lt k m else if lt k x then None else Some v)"

text \<open>\<open>m[k] = v\<close>: an equivalent key stays as it is.\<close>

fun smap_set :: "('k \<Rightarrow> 'k \<Rightarrow> bool) \<Rightarrow> 'k \<Rightarrow> 'v \<Rightarrow> ('k, 'v) smap \<Rightarrow> ('k, 'v) smap" where
  "smap_set lt k v [] = [(k, v)]"
| "smap_set lt k v ((x, w) # m) =
    (if lt x k then (x, w) # smap_set lt k v m
     else if lt k x then (k, v) # (x, w) # m else (x, v) # m)"

text \<open>\<open>m.insert(pair)\<close>: an existing entry is kept.\<close>

definition smap_insert :: "('k \<Rightarrow> 'k \<Rightarrow> bool) \<Rightarrow> 'k \<Rightarrow> 'v \<Rightarrow> ('k, 'v) smap \<Rightarrow> ('k, 'v) smap" where
  "smap_insert lt k v m = (if smap_find lt k m = None then smap_set lt k v m else m)"

fun smap_erase :: "('k \<Rightarrow> 'k \<Rightarrow> bool) \<Rightarrow> 'k \<Rightarrow> ('k, 'v) smap \<Rightarrow> ('k, 'v) smap" where
  "smap_erase lt k [] = []"
| "smap_erase lt k ((x, v) # m) =
    (if lt x k then (x, v) # smap_erase lt k m else if lt k x then (x, v) # m else m)"

definition smap_ok :: "('k \<Rightarrow> 'k \<Rightarrow> bool) \<Rightarrow> ('k, 'v) smap \<Rightarrow> bool" where
  "smap_ok lt m \<longleftrightarrow> sorted_wrt (\<lambda>p q. lt (fst p) (fst q)) m"

lemma smap_ok_simps [simp]:
  "smap_ok lt []" "smap_ok lt ((x, v) # m) \<longleftrightarrow> (\<forall>p\<in>set m. lt x (fst p)) \<and> smap_ok lt m"
  by (auto simp: smap_ok_def)

locale key_order =
  fixes lt :: "'k \<Rightarrow> 'k \<Rightarrow> bool"
  assumes irrefl: "\<not> lt x x"
    and trans: "lt x y \<Longrightarrow> lt y z \<Longrightarrow> lt x z"
    and weak: "lt x z \<Longrightarrow> lt x y \<or> lt y z"
begin

lemma asym: "lt x y \<Longrightarrow> \<not> lt y x"
  using irrefl trans by blast

lemma eq_left: "lt x y \<Longrightarrow> \<not> lt x z \<Longrightarrow> lt z y"
  using weak by blast

lemma eq_right: "lt x y \<Longrightarrow> \<not> lt z y \<Longrightarrow> lt x z"
  using weak by blast

lemma find_below: "\<forall>p\<in>set m. lt k (fst p) \<Longrightarrow> smap_find lt k m = None"
  by (cases m) (auto dest: asym)

lemma find_same: "\<not> lt k k' \<Longrightarrow> \<not> lt k' k \<Longrightarrow> smap_find lt k m = smap_find lt k' m"
proof (induction m)
  case (Cons p m)
  then have "lt (fst p) k = lt (fst p) k'" "lt k (fst p) = lt k' (fst p)"
    using eq_right trans eq_left by blast+
  then show ?case using Cons by (cases p) simp
qed simp

lemma find_set:
  assumes "smap_ok lt m"
  shows "smap_find lt k' (smap_set lt k v m) =
    (if lt k k' \<or> lt k' k then smap_find lt k' m else Some v)"
  using assms
proof (induction m)
  case Nil
  then show ?case by simp
next
  case (Cons p m)
  obtain x w where p: "p = (x, w)" by (cases p)
  have IH: "smap_find lt k' (smap_set lt k v m) =
      (if lt k k' \<or> lt k' k then smap_find lt k' m else Some v)"
    using Cons p by simp
  consider "lt x k" | "lt k x" "\<not> lt x k" | "\<not> lt x k" "\<not> lt k x" by blast
  then show ?case
  proof cases
    case 1
    have "lt k' x \<Longrightarrow> lt k' k" "\<not> lt x k' \<Longrightarrow> \<not> lt k' x \<Longrightarrow> lt k' k" "\<not> lt x k' \<Longrightarrow> \<not> lt k k'"
      using 1 trans eq_left by blast+
    then show ?thesis using 1 IH p by auto
  next
    case 2
    have "lt k' k \<Longrightarrow> lt k' x" "\<not> lt k k' \<Longrightarrow> \<not> lt k' k \<Longrightarrow> lt k' x" "\<not> lt k k' \<Longrightarrow> \<not> lt x k'"
      using 2 trans eq_left by blast+
    then show ?thesis using 2 p asym by auto
  next
    case 3
    have "lt x k' \<longleftrightarrow> lt k k'" "lt k' x \<longleftrightarrow> lt k' k" using 3 eq_left eq_right by blast+
    then show ?thesis using 3 p asym by auto
  qed
qed

lemma find_erase:
  assumes "smap_ok lt m"
  shows "smap_find lt k' (smap_erase lt k m) =
    (if lt k k' \<or> lt k' k then smap_find lt k' m else None)"
  using assms
proof (induction m)
  case Nil
  then show ?case by simp
next
  case (Cons p m)
  obtain x w where p: "p = (x, w)" by (cases p)
  have IH: "smap_find lt k' (smap_erase lt k m) =
      (if lt k k' \<or> lt k' k then smap_find lt k' m else None)"
    using Cons p by simp
  have above: "\<forall>q\<in>set m. lt x (fst q)" using Cons.prems p by simp
  consider "lt x k" | "lt k x" "\<not> lt x k" | "\<not> lt x k" "\<not> lt k x" by blast
  then show ?case
  proof cases
    case 1
    have "\<not> lt x k' \<Longrightarrow> \<not> lt k' x \<Longrightarrow> lt k' k" "lt k' x \<Longrightarrow> lt k' k" using 1 trans eq_left by blast+
    then show ?thesis using 1 IH p by auto
  next
    case 2
    have "\<not> lt k k' \<Longrightarrow> \<not> lt k' k \<Longrightarrow> lt k' x" using 2 eq_left by blast
    then show ?thesis using 2 p asym by auto
  next
    case 3
    have e: "lt x k' \<longleftrightarrow> lt k k'" "lt k' x \<longleftrightarrow> lt k' k" using 3 eq_left eq_right by blast+
    have "smap_find lt k' m = None" if "\<not> lt x k'"
    proof (rule find_below)
      show "\<forall>q\<in>set m. lt k' (fst q)" using above eq_left that by blast
    qed
    then show ?thesis using 3 e p by auto
  qed
qed

lemma find_insert:
  "smap_ok lt m \<Longrightarrow> smap_find lt k' (smap_insert lt k v m) =
    (if lt k k' \<or> lt k' k \<or> smap_find lt k m \<noteq> None then smap_find lt k' m else Some v)"
  by (simp add: smap_insert_def find_set)

lemma set_keys: "p \<in> set (smap_set lt k v m) \<Longrightarrow> fst p = k \<or> fst p \<in> fst ` set m"
  by (induction m) (auto split: if_splits)

lemma erase_subset: "set (smap_erase lt k m) \<subseteq> set m"
  by (induction m) (auto split: if_splits)

lemma set_ok:
  assumes "smap_ok lt m"
  shows "smap_ok lt (smap_set lt k v m)"
  using assms
proof (induction m)
  case (Cons p m)
  obtain x w where p: "p = (x, w)" by (cases p)
  have "lt x (fst q)" if "lt x k" "q \<in> set (smap_set lt k v m)" for q
    using set_keys [OF that(2)] that(1) Cons.prems p by auto
  then show ?case using Cons p trans by auto
qed simp

lemma erase_ok:
  assumes "smap_ok lt m"
  shows "smap_ok lt (smap_erase lt k m)"
  using assms
proof (induction m)
  case (Cons p m)
  then show ?case using erase_subset [of k m] by (cases p) auto
qed simp

lemma insert_ok: "smap_ok lt m \<Longrightarrow> smap_ok lt (smap_insert lt k v m)"
  by (simp add: smap_insert_def set_ok)

end

text \<open>
  Comparison of NUL-terminated strings byte by byte: \<open>val\<close> is the number a byte is compared by. Two
  strings compare as their lists of numbers with the terminator's 0 at the end, lexicographically.
\<close>

locale strcasecmp_like =
  fixes cmp :: "byte list \<Rightarrow> byte list \<Rightarrow> int" and val :: "byte \<Rightarrow> int"
  assumes val_zero: "val c = 0 \<longleftrightarrow> c = 0"
    and cmp_step: "cmp s t =
      (let r = val (cstr_at s 0) - val (cstr_at t 0)
       in if r \<noteq> 0 then r else if cstr_at s 0 = 0 then r else cmp (drop 1 s) (drop 1 t))"
begin

definition key :: "byte list \<Rightarrow> int list" where
  "key s = map val (until_nul s) @ [0]"

lemma key_step: "key s = (if cstr_at s 0 = 0 then [0] else val (cstr_at s 0) # key (drop 1 s))"
  by (cases s) (simp_all add: key_def until_nul_def)

lemma cmp_key: "(cmp s t < 0 \<longleftrightarrow> key s < key t) \<and> (cmp s t = 0 \<longleftrightarrow> key s = key t)"
proof (induction s arbitrary: t)
  case Nil
  show ?case
    using val_zero [of "cstr_at t 0"] val_zero [of 0]
    unfolding cmp_step [of "[]" t] by (auto simp: key_step [of "[]"] key_step [of t] Let_def)
next
  case (Cons a s)
  have z: "val a = val (cstr_at t 0) \<Longrightarrow> a = 0 \<longleftrightarrow> cstr_at t 0 = 0"
    using val_zero [of a] val_zero [of "cstr_at t 0"] by simp
  show ?case
    using val_zero [of a] val_zero [of "cstr_at t 0"] val_zero [of 0] z Cons.IH [of "drop 1 t"]
    unfolding cmp_step [of "a # s" t] by (auto simp: key_step [of "a # s"] key_step [of t] Let_def)
qed

lemma cmp_sym: "cmp s t < 0 \<longleftrightarrow> cmp t s > 0"
  using cmp_key [of s t] cmp_key [of t s] by (metis less_asym linorder_neqE not_less_iff_gr_or_eq)

end

sublocale strcasecmp_like \<subseteq> key_order "\<lambda>s t. cmp s t < 0"
proof
  show "\<not> cmp x x < 0" for x using cmp_key by simp
  show "cmp x z < 0" if "cmp x y < 0" "cmp y z < 0" for x y z using that cmp_key less_trans by meson
  show "cmp x y < 0 \<or> cmp y z < 0" if "cmp x z < 0" for x y z
    using that cmp_key by (meson not_less less_le_trans)
qed

text \<open>The keys of a \<open>std::map<std::string, T>\<close> are compared byte by byte as unsigned numbers.\<close>

abbreviation string_less :: "byte list \<Rightarrow> byte list \<Rightarrow> bool" where
  "string_less \<equiv> (<)"

type_synonym 'v std_strmap = "(byte list, 'v) smap"

interpretation std_string: key_order string_less
  by unfold_locales auto

lemma std_find_set:
  "smap_ok string_less m \<Longrightarrow> smap_find string_less k' (smap_set string_less k v m) =
    (if k = k' then Some v else smap_find string_less k' m)"
  by (auto simp: std_string.find_set)

lemma std_find_in: "smap_ok string_less m \<Longrightarrow> (k, v) \<in> set m \<longleftrightarrow> smap_find string_less k m = Some v"
  by (induction m) (force dest: std_string.find_below)+

lemma std_map_unique:
  "smap_ok string_less m \<Longrightarrow> smap_ok string_less n \<Longrightarrow> set m = set n \<Longrightarrow> m = n"
proof (induction m arbitrary: n)
  case (Cons p m)
  then obtain q n' where n: "n = q # n'" by (cases n) auto
  have above: "\<forall>r\<in>set m. fst p < fst r" "\<forall>r\<in>set n'. fst q < fst r"
    using Cons.prems(1,2) n by (cases p, cases q, simp)+
  have "p = q"
  proof (rule ccontr)
    assume "p \<noteq> q"
    then have "p \<in> set n'" "q \<in> set m" using Cons.prems(3) n by auto
    then show False using above by force
  qed
  moreover have "p \<notin> set m" "q \<notin> set n'" using above by auto
  ultimately have "set m = set n'" using Cons.prems(3) n by auto
  then show ?case using Cons.IH [of n'] Cons.prems(1,2) n \<open>p = q\<close> by (cases p, cases q) simp
qed simp

lemma std_map_ext:
  assumes "smap_ok string_less m" "smap_ok string_less n" "\<And>k. smap_find string_less k m = smap_find string_less k n"
  shows "m = n"
proof (rule std_map_unique [OF assms(1,2)])
  show "set m = set n" using std_find_in [OF assms(1)] std_find_in [OF assms(2)] assms(3) by auto
qed

end
