(* ===== verification/Ircstring.thy ===== *)
theory Ircstring
  imports Strmap
begin

text \<open>
  Case-insensitive strings: \<open>ircstring.h\<close> and \<open>ircstring.cpp\<close> with the case map in force,
  \<open>IRC_CHARMAP_RFC1459E\<close>, and the two map templates keyed by such strings. \<open>char\<close> is signed, so
  differences of characters are differences of \<open>sint\<close>.
\<close>

definition irc_tolowertab :: "byte list" where
  "irc_tolowertab =
   [0x00, 0x01, 0x02, 0x03, 0x04, 0x05, 0x06, 0x07, 0x08, 0x09, 0x0A, 0x0B, 0x0C, 0x0D, 0x0E,
    0x0F, 0x10, 0x11, 0x12, 0x13, 0x14, 0x15, 0x16, 0x17, 0x18, 0x19, 0x1A, 0x1B, 0x1C, 0x1D,
    0x1E, 0x1F, 0x20, 0x21, 0x22, 0x23, 0x24, 0x25, 0x26, 0x27, 0x28, 0x29, 0x2A, 0x2B, 0x2C,
    0x2D, 0x2E, 0x2F, 0x30, 0x31, 0x32, 0x33, 0x34, 0x35, 0x36, 0x37, 0x38, 0x39, 0x3A, 0x3B,
    0x3C, 0x3D, 0x3E, 0x3F, 0x40, 0x61, 0x62, 0x63, 0x64, 0x65, 0x66, 0x67, 0x68, 0x69, 0x6A,
    0x6B, 0x6C, 0x6D, 0x6E, 0x6F, 0x70, 0x71, 0x72, 0x73, 0x74, 0x75, 0x76, 0x77, 0x78, 0x79,
    0x7A, 0x7B, 0x7C, 0x7D, 0x7E, 0x5F, 0x60, 0x61, 0x62, 0x63, 0x64, 0x65, 0x66, 0x67, 0x68,
    0x69, 0x6A, 0x6B, 0x6C, 0x6D, 0x6E, 0x6F, 0x70, 0x71, 0x72, 0x73, 0x74, 0x75, 0x76, 0x77,
    0x78, 0x79, 0x7A, 0x7B, 0x7C, 0x7D, 0x7E, 0x7F, 0x80, 0x81, 0x82, 0x83, 0x84, 0x85, 0x86,
    0x87, 0x88, 0x89, 0x8A, 0x8B, 0x8C, 0x8D, 0x8E, 0x8F, 0x90, 0x91, 0x92, 0x93, 0x94, 0x95,
    0x96, 0x97, 0x98, 0x99, 0x9A, 0x9B, 0x9C, 0x9D, 0x9E, 0x9F, 0xA0, 0xA1, 0xA2, 0xA3, 0xA4,
    0xA5, 0xA6, 0xA7, 0xA8, 0xA9, 0xAA, 0xAB, 0xAC, 0xAD, 0xAE, 0xAF, 0xB0, 0xB1, 0xB2, 0xB3,
    0xB4, 0xB5, 0xB6, 0xB7, 0xB8, 0xB9, 0xBA, 0xBB, 0xBC, 0xBD, 0xBE, 0xBF, 0xC0, 0xC1, 0xC2,
    0xC3, 0xC4, 0xC5, 0xC6, 0xC7, 0xC8, 0xC9, 0xCA, 0xCB, 0xCC, 0xCD, 0xCE, 0xCF, 0xD0, 0xD1,
    0xD2, 0xD3, 0xD4, 0xD5, 0xD6, 0xD7, 0xD8, 0xD9, 0xDA, 0xDB, 0xDC, 0xDD, 0xDE, 0xDF, 0xE0,
    0xE1, 0xE2, 0xE3, 0xE4, 0xE5, 0xE6, 0xE7, 0xE8, 0xE9, 0xEA, 0xEB, 0xEC, 0xED, 0xEE, 0xEF,
    0xF0, 0xF1, 0xF2, 0xF3, 0xF4, 0xF5, 0xF6, 0xF7, 0xF8, 0xF9, 0xFA, 0xFB, 0xFC, 0xFD, 0xFE, 0xFF]"

definition irc_touppertab :: "byte list" where
  "irc_touppertab =
   [0x00, 0x01, 0x02, 0x03, 0x04, 0x05, 0x06, 0x07, 0x08, 0x09, 0x0A, 0x0B, 0x0C, 0x0D, 0x0E,
    0x0F, 0x10, 0x11, 0x12, 0x13, 0x14, 0x15, 0x16, 0x17, 0x18, 0x19, 0x1A, 0x1B, 0x1C, 0x1D,
    0x1E, 0x1F, 0x20, 0x21, 0x22, 0x23, 0x24, 0x25, 0x26, 0x27, 0x28, 0x29, 0x2A, 0x2B, 0x2C,
    0x2D, 0x2E, 0x2F, 0x30, 0x31, 0x32, 0x33, 0x34, 0x35, 0x36, 0x37, 0x38, 0x39, 0x3A, 0x3B,
    0x3C, 0x3D, 0x3E, 0x3F, 0x40, 0x41, 0x42, 0x43, 0x44, 0x45, 0x46, 0x47, 0x48, 0x49, 0x4A,
    0x4B, 0x4C, 0x4D, 0x4E, 0x4F, 0x50, 0x51, 0x52, 0x53, 0x54, 0x55, 0x56, 0x57, 0x58, 0x59,
    0x5A, 0x5B, 0x5C, 0x5D, 0x5E, 0x5F, 0x60, 0x41, 0x42, 0x43, 0x44, 0x45, 0x46, 0x47, 0x48,
    0x49, 0x4A, 0x4B, 0x4C, 0x4D, 0x4E, 0x4F, 0x50, 0x51, 0x52, 0x53, 0x54, 0x55, 0x56, 0x57,
    0x58, 0x59, 0x5A, 0x5B, 0x5C, 0x5D, 0x5E, 0x7F, 0x80, 0x81, 0x82, 0x83, 0x84, 0x85, 0x86,
    0x87, 0x88, 0x89, 0x8A, 0x8B, 0x8C, 0x8D, 0x8E, 0x8F, 0x90, 0x91, 0x92, 0x93, 0x94, 0x95,
    0x96, 0x97, 0x98, 0x99, 0x9A, 0x9B, 0x9C, 0x9D, 0x9E, 0x9F, 0xA0, 0xA1, 0xA2, 0xA3, 0xA4,
    0xA5, 0xA6, 0xA7, 0xA8, 0xA9, 0xAA, 0xAB, 0xAC, 0xAD, 0xAE, 0xAF, 0xB0, 0xB1, 0xB2, 0xB3,
    0xB4, 0xB5, 0xB6, 0xB7, 0xB8, 0xB9, 0xBA, 0xBB, 0xBC, 0xBD, 0xBE, 0xBF, 0xC0, 0xC1, 0xC2,
    0xC3, 0xC4, 0xC5, 0xC6, 0xC7, 0xC8, 0xC9, 0xCA, 0xCB, 0xCC, 0xCD, 0xCE, 0xCF, 0xD0, 0xD1,
    0xD2, 0xD3, 0xD4, 0xD5, 0xD6, 0xD7, 0xD8, 0xD9, 0xDA, 0xDB, 0xDC, 0xDD, 0xDE, 0xDF, 0xE0,
    0xE1, 0xE2, 0xE3, 0xE4, 0xE5, 0xE6, 0xE7, 0xE8, 0xE9, 0xEA, 0xEB, 0xEC, 0xED, 0xEE, 0xEF,
    0xF0, 0xF1, 0xF2, 0xF3, 0xF4, 0xF5, 0xF6, 0xF7, 0xF8, 0xF9, 0xFA, 0xFB, 0xFC, 0xFD, 0xFE, 0xFF]"

definition irc_tolower :: "byte \<Rightarrow> byte" where
  "irc_tolower c = irc_tolowertab ! unat c"

definition irc_toupper :: "byte \<Rightarrow> byte" where
  "irc_toupper c = irc_touppertab ! unat c"

text \<open>The copy loops stop behind the first NUL they write; the result is the string before it.\<close>

fun irc_strlower_loop :: "byte list \<Rightarrow> byte list" where
  "irc_strlower_loop [] = []"
| "irc_strlower_loop (c # src) = (if irc_tolower c = 0 then [] else irc_tolower c # irc_strlower_loop src)"

definition irc_strlower :: "byte list \<Rightarrow> byte list" where
  "irc_strlower s = irc_strlower_loop s"

fun irc_strupper_loop :: "byte list \<Rightarrow> byte list" where
  "irc_strupper_loop [] = []"
| "irc_strupper_loop (c # src) = (if irc_toupper c = 0 then [] else irc_toupper c # irc_strupper_loop src)"

definition irc_strupper :: "byte list \<Rightarrow> byte list" where
  "irc_strupper s = irc_strupper_loop s"

text \<open>Comparison of NUL-terminated strings.\<close>

function irc_strcasecmp :: "byte list \<Rightarrow> byte list \<Rightarrow> int" where
  "irc_strcasecmp us1 us2 =
    (let r = sint (irc_tolower (cstr_at us1 0)) - sint (irc_tolower (cstr_at us2 0))
     in if r \<noteq> 0 then r
        else if cstr_at us1 0 = 0 then r
        else irc_strcasecmp (drop 1 us1) (drop 1 us2))"
  by pat_completeness auto
termination
  by (relation "measure (\<lambda>(s, _). length s)") (auto simp: cstr_at_def split: if_splits)

text \<open>With \<open>--n == 0\<close> as the test, a limit that is not positive is no limit.\<close>

function irc_strncasecmp :: "byte list \<Rightarrow> byte list \<Rightarrow> int \<Rightarrow> int" where
  "irc_strncasecmp us1 us2 n =
    (let r = sint (irc_tolower (cstr_at us1 0)) - sint (irc_tolower (cstr_at us2 0))
     in if r \<noteq> 0 then r
        else if cstr_at us1 0 = 0 \<or> n - 1 = 0 then r
        else irc_strncasecmp (drop 1 us1) (drop 1 us2) (n - 1))"
  by pat_completeness auto
termination
  by (relation "measure (\<lambda>(s, _, _). length s)") (auto simp: cstr_at_def split: if_splits)

declare irc_strcasecmp.simps [simp del] irc_strncasecmp.simps [simp del]

text \<open>The overloads on \<open>std::string\<close>.\<close>

definition irc_strcasecmp_s :: "byte list \<Rightarrow> byte list \<Rightarrow> int" where
  "irc_strcasecmp_s s1 s2 = irc_strcasecmp (until_nul s1) (until_nul s2)"

definition irc_strncasecmp_s :: "byte list \<Rightarrow> byte list \<Rightarrow> int \<Rightarrow> int" where
  "irc_strncasecmp_s s1 s2 n = irc_strncasecmp (until_nul s1) (until_nul s2) n"

subsection \<open>\<open>irc_char_traits\<close> and \<open>irc_strmap\<close>\<close>

definition irc_traits_eq :: "byte \<Rightarrow> byte \<Rightarrow> bool" where
  "irc_traits_eq c1 c2 \<longleftrightarrow> irc_tolower c1 = irc_tolower c2"

definition irc_traits_ne :: "byte \<Rightarrow> byte \<Rightarrow> bool" where
  "irc_traits_ne c1 c2 \<longleftrightarrow> irc_tolower c1 \<noteq> irc_tolower c2"

definition irc_traits_lt :: "byte \<Rightarrow> byte \<Rightarrow> bool" where
  "irc_traits_lt c1 c2 \<longleftrightarrow> sint (irc_tolower c1) < sint (irc_tolower c2)"

definition irc_traits_compare :: "byte list \<Rightarrow> byte list \<Rightarrow> nat \<Rightarrow> int" where
  "irc_traits_compare str1 str2 n = irc_strncasecmp str1 str2 (int n)"

text \<open>\<open>find\<close>: the offset of the returned pointer, \<open>n\<close> itself when the character does not occur.\<close>

fun irc_traits_find :: "byte list \<Rightarrow> nat \<Rightarrow> byte \<Rightarrow> nat" where
  "irc_traits_find str 0 c = 0"
| "irc_traits_find str (Suc n) c =
    (if irc_tolower (cstr_at str 0) \<noteq> irc_tolower c then Suc (irc_traits_find (drop 1 str) n c) else 0)"

definition irc_string_less :: "byte list \<Rightarrow> byte list \<Rightarrow> bool" where
  "irc_string_less s1 s2 \<longleftrightarrow> irc_strcasecmp (until_nul s1) (until_nul s2) < 0"

type_synonym 'v irc_strmap = "(byte list, 'v) smap"

subsection \<open>\<open>caseless_char_traits\<close> and \<open>caseless_strmap\<close>\<close>

text \<open>\<open>tolower\<close>, \<open>strcasecmp\<close> and \<open>strncasecmp\<close> of the C library in the C locale.\<close>

definition c_tolower :: "byte \<Rightarrow> byte" where
  "c_tolower c = (if 0x41 \<le> c \<and> c \<le> 0x5A then c + 0x20 else c)"

function c_strcasecmp :: "byte list \<Rightarrow> byte list \<Rightarrow> int" where
  "c_strcasecmp s1 s2 =
    (let r = uint (c_tolower (cstr_at s1 0)) - uint (c_tolower (cstr_at s2 0))
     in if r \<noteq> 0 then r
        else if cstr_at s1 0 = 0 then r
        else c_strcasecmp (drop 1 s1) (drop 1 s2))"
  by pat_completeness auto
termination
  by (relation "measure (\<lambda>(s, _). length s)") (auto simp: cstr_at_def split: if_splits)

fun c_strncasecmp :: "byte list \<Rightarrow> byte list \<Rightarrow> nat \<Rightarrow> int" where
  "c_strncasecmp s1 s2 0 = 0"
| "c_strncasecmp s1 s2 (Suc n) =
    (let r = uint (c_tolower (cstr_at s1 0)) - uint (c_tolower (cstr_at s2 0))
     in if r \<noteq> 0 then r
        else if cstr_at s1 0 = 0 then r
        else c_strncasecmp (drop 1 s1) (drop 1 s2) n)"

declare c_strcasecmp.simps [simp del]

definition caseless_traits_eq :: "byte \<Rightarrow> byte \<Rightarrow> bool" where
  "caseless_traits_eq c1 c2 \<longleftrightarrow> c_tolower c1 = c_tolower c2"

definition caseless_traits_ne :: "byte \<Rightarrow> byte \<Rightarrow> bool" where
  "caseless_traits_ne c1 c2 \<longleftrightarrow> c_tolower c1 \<noteq> c_tolower c2"

definition caseless_traits_lt :: "byte \<Rightarrow> byte \<Rightarrow> bool" where
  "caseless_traits_lt c1 c2 \<longleftrightarrow> sint (c_tolower c1) < sint (c_tolower c2)"

definition caseless_traits_compare :: "byte list \<Rightarrow> byte list \<Rightarrow> nat \<Rightarrow> int" where
  "caseless_traits_compare str1 str2 n = c_strncasecmp str1 str2 n"

fun caseless_traits_find :: "byte list \<Rightarrow> nat \<Rightarrow> byte \<Rightarrow> nat" where
  "caseless_traits_find str 0 c = 0"
| "caseless_traits_find str (Suc n) c =
    (if c_tolower (cstr_at str 0) \<noteq> c_tolower c then Suc (caseless_traits_find (drop 1 str) n c) else 0)"

definition caseless_string_less :: "byte list \<Rightarrow> byte list \<Rightarrow> bool" where
  "caseless_string_less s1 s2 \<longleftrightarrow> c_strcasecmp (until_nul s1) (until_nul s2) < 0"

type_synonym 'v caseless_strmap = "(byte list, 'v) smap"

subsection \<open>Lemmas\<close>

text \<open>The tables are the folding of the extended RFC 1459 case map.\<close>

definition irc_fold :: "byte \<Rightarrow> byte" where
  "irc_fold c = (if 0x41 \<le> c \<and> c \<le> 0x5D then c + 0x20 else if c = 0x5E then 0x7E else c)"

definition irc_unfold :: "byte \<Rightarrow> byte" where
  "irc_unfold c = (if 0x61 \<le> c \<and> c \<le> 0x7D then c - 0x20 else if c = 0x7E then 0x5E else c)"

lemma byte_le_one [simp]: "\<not> 0x41 \<le> (1 :: byte)" "\<not> 0x61 \<le> (1 :: byte)"
  by (simp_all add: word_le_nat_alt)

lemma irc_tolowertab_fold: "irc_tolowertab = map (\<lambda>i. irc_fold (of_nat i)) [0..<256]"
  by (simp add: irc_tolowertab_def irc_fold_def upt_conv_Cons)

lemma irc_touppertab_fold: "irc_touppertab = map (\<lambda>i. irc_unfold (of_nat i)) [0..<256]"
  by (simp add: irc_touppertab_def irc_unfold_def upt_conv_Cons)

lemma irc_tolower_fold: "irc_tolower c = irc_fold c"
  using byte_unat_less [of c] by (simp add: irc_tolower_def irc_tolowertab_fold)

lemma irc_toupper_unfold: "irc_toupper c = irc_unfold c"
  using byte_unat_less [of c] by (simp add: irc_toupper_def irc_touppertab_fold)

lemma irc_fold_laws:
  "irc_fold c = 0 \<longleftrightarrow> c = 0" "irc_unfold c = 0 \<longleftrightarrow> c = 0"
  "irc_fold (irc_fold c) = irc_fold c" "irc_unfold (irc_unfold c) = irc_unfold c"
  "irc_fold (irc_unfold c) = irc_fold c" "irc_unfold (irc_fold c) = irc_unfold c"
proof -
  have p: "unat (c + 0x20) = unat c + 32" if "unat c \<le> 0x5D" using that by (simp add: unat_word_ariths)
  have m: "unat (c - 0x20) = unat c - 32" if "0x61 \<le> unat c" using that by (simp add: unat_sub word_le_nat_alt)
  show "irc_fold c = 0 \<longleftrightarrow> c = 0" "irc_unfold c = 0 \<longleftrightarrow> c = 0"
    using p m by (auto simp: irc_fold_def irc_unfold_def word_le_nat_alt word_unat_eq_iff)
  show "irc_fold (irc_fold c) = irc_fold c" "irc_unfold (irc_unfold c) = irc_unfold c"
    "irc_fold (irc_unfold c) = irc_fold c" "irc_unfold (irc_fold c) = irc_unfold c"
    using p m by (auto simp: irc_fold_def irc_unfold_def word_le_nat_alt word_unat_eq_iff)
qed

lemma irc_tolower_zero [simp]: "irc_tolower c = 0 \<longleftrightarrow> c = 0"
  by (simp add: irc_tolower_fold irc_fold_laws)

lemma irc_toupper_zero [simp]: "irc_toupper c = 0 \<longleftrightarrow> c = 0"
  by (simp add: irc_toupper_unfold irc_fold_laws)

lemma sint_byte_zero [simp]: "sint (c :: byte) = 0 \<longleftrightarrow> c = 0"
  using signed_word_eqI [of c 0] by auto

lemma irc_strlower_loop: "irc_strlower_loop s = map irc_tolower (until_nul s)"
  by (induction s) (simp_all add: until_nul_def)

lemma irc_strupper_loop: "irc_strupper_loop s = map irc_toupper (until_nul s)"
  by (induction s) (simp_all add: until_nul_def)

lemma key_order_vimage: "key_order lt \<Longrightarrow> key_order (\<lambda>x y. lt (f x) (f y))"
  unfolding key_order_def by blast

interpretation irc_cmp: strcasecmp_like irc_strcasecmp "\<lambda>c. sint (irc_tolower c)"
proof
  show "(sint (irc_tolower c) = 0) = (c = 0)" for c by simp
  show "irc_strcasecmp s t =
      (let r = sint (irc_tolower (cstr_at s 0)) - sint (irc_tolower (cstr_at t 0))
       in if r \<noteq> 0 then r else if cstr_at s 0 = 0 then r else irc_strcasecmp (drop 1 s) (drop 1 t))" for s t
    by (rule irc_strcasecmp.simps)
qed

interpretation irc_map: key_order irc_string_less
  unfolding irc_string_less_def
  by (rule key_order_vimage [where f = until_nul]) (rule irc_cmp.key_order_axioms)

lemma c_tolower_zero [simp]: "c_tolower c = 0 \<longleftrightarrow> c = 0"
proof -
  have "unat (c + 0x20) = unat c + 32" if "unat c \<le> 0x5A" using that by (simp add: unat_word_ariths)
  then show ?thesis by (auto simp: c_tolower_def word_le_nat_alt word_unat_eq_iff)
qed

interpretation c_cmp: strcasecmp_like c_strcasecmp "\<lambda>c. uint (c_tolower c)"
proof
  show "(uint (c_tolower c) = 0) = (c = 0)" for c by (simp add: uint_0_iff)
  show "c_strcasecmp s t =
      (let r = uint (c_tolower (cstr_at s 0)) - uint (c_tolower (cstr_at t 0))
       in if r \<noteq> 0 then r else if cstr_at s 0 = 0 then r else c_strcasecmp (drop 1 s) (drop 1 t))" for s t
    by (rule c_strcasecmp.simps)
qed

interpretation caseless_map: key_order caseless_string_less
  unfolding caseless_string_less_def
  by (rule key_order_vimage [where f = until_nul]) (rule c_cmp.key_order_axioms)

lemma irc_strlower_eq: "irc_strlower s = map irc_tolower (until_nul s)"
  by (simp add: irc_strlower_def irc_strlower_loop)

lemma until_nul_idem [simp]: "until_nul (until_nul s) = until_nul s"
  by (simp add: until_nul_id)

lemma irc_cmp_zero: "irc_strcasecmp s t = 0 \<longleftrightarrow> irc_strlower s = irc_strlower t"
proof -
  have "inj (sint :: byte \<Rightarrow> int)" by (auto intro: injI signed_word_eqI)
  then have "inj (map (sint :: byte \<Rightarrow> int))" by simp
  moreover have "irc_cmp.key s = map sint (irc_strlower s) @ [0]" for s
    by (simp add: irc_cmp.key_def irc_strlower_eq)
  ultimately show ?thesis using irc_cmp.cmp_key [of s t] by (auto dest: injD)
qed

lemma irc_string_equiv:
  "\<not> irc_string_less s t \<and> \<not> irc_string_less t s \<longleftrightarrow> irc_strlower s = irc_strlower t"
  using irc_cmp.cmp_sym [of "until_nul t" "until_nul s"] irc_cmp_zero [of "until_nul s" "until_nul t"]
  by (auto simp: irc_string_less_def irc_strlower_eq)

subsection \<open>Properties\<close>

text \<open>\<open>irc_string_lesscomparator\<close> is a strict weak ordering whose equivalence is equality of the
  lower-cased strings, so an \<open>irc_strmap\<close> is a map on lower-cased names: assignment and erasure act on
  every spelling of a key, leave the other keys alone and keep the order.\<close>

theorem irc_strmap_laws:
  assumes "smap_ok irc_string_less m"
  shows "smap_find irc_string_less k' (smap_set irc_string_less k v m) =
      (if irc_strlower k = irc_strlower k' then Some v else smap_find irc_string_less k' m) \<and>
    smap_find irc_string_less k' (smap_erase irc_string_less k m) =
      (if irc_strlower k = irc_strlower k' then None else smap_find irc_string_less k' m) \<and>
    smap_ok irc_string_less (smap_set irc_string_less k v m) \<and>
    smap_ok irc_string_less (smap_erase irc_string_less k m)"
  using irc_map.find_set [OF assms] irc_map.find_erase [OF assms] irc_map.set_ok [OF assms]
    irc_map.erase_ok [OF assms] irc_string_equiv [of k k'] by auto

lemma irc_strmap_laws_witness:
  "smap_find irc_string_less (c_lit ''[BOT]^'') (smap_set irc_string_less (c_lit ''{bot}~'') (7::int) []) = Some 7"
  using irc_strmap_laws [of "[]" "c_lit ''[BOT]^''" "c_lit ''{bot}~''" "7::int"]
  by (simp add: irc_strlower_eq c_lit_def until_nul_def irc_tolower_fold irc_fold_def)

lemma irc_strncasecmp_pos:
  "0 < n \<Longrightarrow> irc_strncasecmp s t n = irc_strcasecmp (take (nat n) s) (take (nat n) t)"
proof (induction s t n rule: irc_strncasecmp.induct)
  case (1 s t n)
  have at: "cstr_at (take (nat n) x) 0 = cstr_at x 0" for x using "1.prems" by (cases x) (auto simp: cstr_at_def)
  show ?case
  proof (cases "n = 1")
    case True
    have "cstr_at (take (Suc 0) x) 0 = cstr_at x 0" for x :: "byte list" by (cases x) auto
    moreover have "irc_strcasecmp [] [] = 0" by (simp add: irc_strcasecmp.simps)
    ultimately show ?thesis
      using True by (simp add: irc_strncasecmp.simps [of s t] irc_strcasecmp.simps [of "take (Suc 0) s"] Let_def drop_take)
  next
    case False
    have "nat n - Suc 0 = nat (n - 1)" by simp
    then have d: "drop (Suc 0) (take (nat n) x) = take (nat (n - 1)) (drop (Suc 0) x)" for x :: "byte list"
      by (simp add: drop_take)
    have "0 < n - 1" using False "1.prems" by simp
    then show ?thesis
      using 1 False by (simp add: irc_strncasecmp.simps [of s t] irc_strcasecmp.simps [of "take (nat n) s"] at d Let_def)
  qed
qed

lemma irc_strncasecmp_nonpos: "n \<le> 0 \<Longrightarrow> irc_strncasecmp s t n = irc_strcasecmp s t"
proof (induction s t n rule: irc_strncasecmp.induct)
  case (1 s t n)
  then show ?case by (simp add: irc_strncasecmp.simps [of s t] irc_strcasecmp.simps [of s t] Let_def)
qed

text \<open>\<open>irc_strcasecmp\<close> is 0 exactly on strings with the same lower-casing and antisymmetric in its
  sign; \<open>irc_strncasecmp\<close> with a positive limit compares the prefixes of that length, and with the
  limit 0, as \<open>irc_char_traits::compare\<close> passes it for empty strings, it compares without a limit.\<close>

theorem irc_strcasecmp_folds:
  "(irc_strcasecmp s t = 0 \<longleftrightarrow> irc_strlower s = irc_strlower t) \<and>
   (irc_strcasecmp s t < 0 \<longleftrightarrow> irc_strcasecmp t s > 0) \<and>
   irc_strncasecmp s t n =
     (if 0 < n then irc_strcasecmp (take (nat n) s) (take (nat n) t) else irc_strcasecmp s t)"
  using irc_cmp_zero irc_cmp.cmp_sym irc_strncasecmp_pos irc_strncasecmp_nonpos by simp

end
