(* ===== verification/Ircutils.thy ===== *)
theory Ircutils
  imports Ircdefs Ircstring Pcre
begin

text \<open>
  \<open>ircutils.h\<close> and \<open>ircutils.cpp\<close>: the value classes of the IRC client. \<open>irc_ident\<close> is the origin
  \<open>nick!user@host\<close> of a line, \<open>irc_msginfo\<close> the destination of a message, \<open>irc_privmsg\<close> a received
  message with its classification, \<open>irc_user\<close> a user on a channel with the channel modes. A method that
  changes its object takes the record and returns it updated, after its result value if it has one.

  The regular expressions are the parameter \<open>R\<close>; \<open>irc_pcre\<close> says what the documented pattern
  semantics of PCRE gives for the patterns used here.
\<close>

subsection \<open>Nick and user mode\<close>

definition re_split_nick_usermode :: "byte list" where
  "re_split_nick_usermode = c_lit ''^([~&@%+]*+)(.*)''"

text \<open>An output pointer is the string it points to, or None for a null pointer.\<close>

definition split_nick_usermode ::
  "byte pcre \<Rightarrow> byte list \<Rightarrow> byte list option \<Rightarrow> byte list option \<Rightarrow>
    bool \<times> byte list option \<times> byte list option" where
  "split_nick_usermode R str mode nick =
    (if mode = None \<and> nick = None then (False, mode, nick)
     else (case re_full R re_split_nick_usermode str of
        Some gs \<Rightarrow> (True, map_option (\<lambda>_. gs ! 0) mode, map_option (\<lambda>_. gs ! 1) nick)
      | None \<Rightarrow> (False, mode, nick)))"

subsection \<open>irc\_ident\<close>

record irc_ident =
  ii_ident :: "byte list"
  ii_nick :: "byte list"
  ii_user :: "byte list"
  ii_host :: "byte list"

definition re_split_ident :: "byte list" where
  "re_split_ident = c_lit ''^([^!]+)!([^@]+)@(.*)'' @ [0x5C] @ c_lit ''z''"

definition re_remove_modechar_from_nick :: "byte list" where
  "re_remove_modechar_from_nick = c_lit ''^[~&@%+]*''"

definition irc_ident_set_ident ::
  "byte pcre \<Rightarrow> byte list \<Rightarrow> 'a irc_ident_scheme \<Rightarrow> int \<times> 'a irc_ident_scheme" where
  "irc_ident_set_ident R ident i =
    (let i = i\<lparr>ii_ident := ident\<rparr>
     in if ident = [] then
       (0, i\<lparr>ii_nick := [], ii_user := [], ii_host := [], ii_ident := c_lit ''!@''\<rparr>)
     else (case re_full R re_split_ident ident of
        Some gs \<Rightarrow>
          (0, i\<lparr>ii_nick := re_global_replace R re_remove_modechar_from_nick [] (gs ! 0),
                ii_user := gs ! 1, ii_host := gs ! 2\<rparr>)
      | None \<Rightarrow> (- 1, i\<lparr>ii_nick := ident, ii_user := [], ii_host := ident\<rparr>)))"

definition irc_ident_new :: "byte pcre \<Rightarrow> byte list \<Rightarrow> irc_ident" where
  "irc_ident_new R ident =
    snd (irc_ident_set_ident R ident \<lparr>ii_ident = [], ii_nick = [], ii_user = [], ii_host = []\<rparr>)"

definition irc_ident_eq :: "'a irc_ident_scheme \<Rightarrow> 'b irc_ident_scheme \<Rightarrow> bool" where
  "irc_ident_eq i obj \<longleftrightarrow> ii_ident obj = ii_ident i"

definition reconstruct_ident :: "'a irc_ident_scheme \<Rightarrow> 'a irc_ident_scheme" where
  "reconstruct_ident i = i\<lparr>ii_ident := ii_nick i @ c_lit ''!'' @ ii_user i @ c_lit ''@'' @ ii_host i\<rparr>"

definition irc_ident_set_nick ::
  "byte pcre \<Rightarrow> byte list \<Rightarrow> 'a irc_ident_scheme \<Rightarrow> 'a irc_ident_scheme" where
  "irc_ident_set_nick R nick i =
    reconstruct_ident (i\<lparr>ii_nick := re_global_replace R re_remove_modechar_from_nick [] nick\<rparr>)"

definition irc_ident_set_user :: "byte list \<Rightarrow> 'a irc_ident_scheme \<Rightarrow> 'a irc_ident_scheme" where
  "irc_ident_set_user user i = reconstruct_ident (i\<lparr>ii_user := user\<rparr>)"

definition irc_ident_set_host :: "byte list \<Rightarrow> 'a irc_ident_scheme \<Rightarrow> 'a irc_ident_scheme" where
  "irc_ident_set_host host i = reconstruct_ident (i\<lparr>ii_host := host\<rparr>)"

subsection \<open>irc\_msginfo\<close>

record irc_msginfo =
  mi_chantype :: irc_chantype
  mi_msgtype :: irc_msgtype
  mi_chan :: "byte list"
  mi_priority :: int
  mi_line_converted :: bool

definition irc_msginfo_default :: irc_msginfo where
  "irc_msginfo_default =
    \<lparr>mi_chantype = IRC_CHANTYPE_CHAN, mi_msgtype = IRC_MSGTYPE_NORMAL, mi_chan = [],
     mi_priority = IRC_PRIORITY_BNORMAL, mi_line_converted = False\<rparr>"

definition irc_msginfo_new :: "byte list \<Rightarrow> irc_msgtype \<Rightarrow> irc_chantype \<Rightarrow> bool \<Rightarrow> irc_msginfo" where
  "irc_msginfo_new chan msgtype chantype line_converted =
    \<lparr>mi_chantype = chantype, mi_msgtype = msgtype, mi_chan = chan,
     mi_priority = IRC_PRIORITY_BNORMAL, mi_line_converted = line_converted\<rparr>"

definition irc_msginfo_retype :: "irc_msginfo \<Rightarrow> irc_msgtype \<Rightarrow> irc_msginfo" where
  "irc_msginfo_retype mi msgtype =
    \<lparr>mi_chantype = mi_chantype mi, mi_msgtype = msgtype, mi_chan = mi_chan mi,
     mi_priority = mi_priority mi, mi_line_converted = mi_line_converted mi\<rparr>"

text \<open>The priority is ignored in a comparison.\<close>

definition irc_msginfo_eq :: "irc_msginfo \<Rightarrow> irc_msginfo \<Rightarrow> bool" where
  "irc_msginfo_eq mi obj \<longleftrightarrow>
    mi_chantype obj = mi_chantype mi \<and> mi_msgtype obj = mi_msgtype mi \<and>
    irc_strcasecmp_s (mi_chan obj) (mi_chan mi) = 0"

definition irc_msginfo_ne :: "irc_msginfo \<Rightarrow> irc_msginfo \<Rightarrow> bool" where
  "irc_msginfo_ne mi obj \<longleftrightarrow> \<not> irc_msginfo_eq obj mi"

subsection \<open>irc\_privmsg\<close>

record irc_privmsg =
  pm_ident :: irc_ident
  pm_msginfo :: irc_msginfo
  pm_msg :: "byte list"

definition re_action_message :: "byte list" where
  "re_action_message = c_lit ''^'' @ [1] @ c_lit ''ACTION (.*)'' @ [1] @ c_lit ''$''"

definition re_ctcp_message :: "byte list" where
  "re_ctcp_message = c_lit ''^'' @ [1] @ c_lit ''(.*)'' @ [1] @ c_lit ''$''"

definition privmsg_classify :: "byte pcre \<Rightarrow> irc_msgtype \<Rightarrow> byte list \<Rightarrow> irc_msgtype \<times> byte list" where
  "privmsg_classify R msgtype msg =
    (if msgtype = IRC_MSGTYPE_NOTICE then
      (case re_full R re_ctcp_message msg of
         Some gs \<Rightarrow> (IRC_MSGTYPE_CTCPREPLY, gs ! 0)
       | None \<Rightarrow> (msgtype, msg))
     else
      (case re_full R re_action_message msg of
         Some gs \<Rightarrow> (IRC_MSGTYPE_ACTION, gs ! 0)
       | None \<Rightarrow>
         (case re_full R re_ctcp_message msg of
            Some gs \<Rightarrow> (IRC_MSGTYPE_CTCP, gs ! 0)
          | None \<Rightarrow> (msgtype, msg))))"

definition privmsg_target :: "irc_ident \<Rightarrow> irc_msginfo \<Rightarrow> irc_msginfo" where
  "privmsg_target i mi =
    (if mi_chantype mi \<noteq> IRC_CHANTYPE_DCC then
       if cstr_at (mi_chan mi) 0 = 0x23 \<or> cstr_at (mi_chan mi) 0 = 0x26
       then mi\<lparr>mi_chantype := IRC_CHANTYPE_CHAN\<rparr>
       else mi\<lparr>mi_chantype := IRC_CHANTYPE_QUERY, mi_chan := ii_nick i\<rparr>
     else mi)"

definition irc_privmsg_new :: "byte pcre \<Rightarrow> irc_ident \<Rightarrow> irc_msginfo \<Rightarrow> byte list \<Rightarrow> irc_privmsg" where
  "irc_privmsg_new R i mi msg =
    (let (t, m) = privmsg_classify R (mi_msgtype mi) msg
     in \<lparr>pm_ident = i, pm_msginfo = privmsg_target i (mi\<lparr>mi_msgtype := t\<rparr>), pm_msg = m\<rparr>)"

definition irc_privmsg_default :: "byte pcre \<Rightarrow> irc_privmsg" where
  "irc_privmsg_default R =
    \<lparr>pm_ident = irc_ident_new R [], pm_msginfo = irc_msginfo_default, pm_msg = []\<rparr>"

subsection \<open>irc\_user\<close>

record irc_user = irc_ident +
  iu_chanmode :: "byte list"

definition irc_user_set_nick :: "byte pcre \<Rightarrow> byte list \<Rightarrow> irc_user \<Rightarrow> int \<times> irc_user" where
  "irc_user_set_nick R nick u =
    (case split_nick_usermode R nick (Some (iu_chanmode u)) (Some (ii_nick u)) of
       (_, m, n) \<Rightarrow> (0, u\<lparr>iu_chanmode := the m, ii_nick := the n\<rparr>))"

definition irc_user_default :: irc_user where
  "irc_user_default =
    \<lparr>ii_ident = c_lit ''!@'', ii_nick = [], ii_user = [], ii_host = [], iu_chanmode = []\<rparr>"

definition irc_user_new :: "byte pcre \<Rightarrow> byte list \<Rightarrow> irc_user" where
  "irc_user_new R nick = snd (irc_user_set_nick R nick irc_user_default)"

definition setchanusermode :: "byte list \<Rightarrow> irc_user \<Rightarrow> irc_user" where
  "setchanusermode newmode u = u\<lparr>iu_chanmode := newmode\<rparr>"

primrec chanmode_add :: "byte list \<Rightarrow> byte list \<Rightarrow> byte list" where
  "chanmode_add m [] = m"
| "chanmode_add m (c # cs) = chanmode_add (if c \<in> set m then m else m @ [c]) cs"

definition add_to_chanusermode :: "byte list \<Rightarrow> irc_user \<Rightarrow> irc_user" where
  "add_to_chanusermode newmode u = u\<lparr>iu_chanmode := chanmode_add (iu_chanmode u) newmode\<rparr>"

text \<open>\<open>find\<close> gives the first position of the character, \<open>erase\<close> removes that one.\<close>

primrec chanmode_del :: "byte list \<Rightarrow> byte list \<Rightarrow> byte list" where
  "chanmode_del m [] = m"
| "chanmode_del m (c # cs) = chanmode_del (if c \<in> set m then remove1 c m else m) cs"

definition del_from_chanusermode :: "byte list \<Rightarrow> irc_user \<Rightarrow> irc_user" where
  "del_from_chanusermode newmode u = u\<lparr>iu_chanmode := chanmode_del (iu_chanmode u) newmode\<rparr>"

definition is_user_has_owner_priv :: "irc_user \<Rightarrow> bool" where
  "is_user_has_owner_priv u \<longleftrightarrow> 0x7E \<in> set (iu_chanmode u)"

definition is_user_protected :: "irc_user \<Rightarrow> bool" where
  "is_user_protected u \<longleftrightarrow> 0x26 \<in> set (iu_chanmode u)"

definition is_user_has_op_priv :: "irc_user \<Rightarrow> bool" where
  "is_user_has_op_priv u \<longleftrightarrow>
    (if 0x7E \<in> set (iu_chanmode u) then True
     else if 0x40 \<in> set (iu_chanmode u) then True else False)"

definition is_user_has_hop_priv :: "irc_user \<Rightarrow> bool" where
  "is_user_has_hop_priv u \<longleftrightarrow>
    (if 0x7E \<in> set (iu_chanmode u) then True
     else if 0x40 \<in> set (iu_chanmode u) then True
     else if 0x25 \<in> set (iu_chanmode u) then True else False)"

definition is_user_has_voice :: "irc_user \<Rightarrow> bool" where
  "is_user_has_voice u \<longleftrightarrow> 0x2B \<in> set (iu_chanmode u)"

definition add_owner_priv :: "irc_user \<Rightarrow> bool \<times> irc_user" where
  "add_owner_priv u =
    (if 0x7E \<in> set (iu_chanmode u) then (False, u)
     else (True, u\<lparr>iu_chanmode := iu_chanmode u @ [0x7E]\<rparr>))"

definition add_protected_priv :: "irc_user \<Rightarrow> bool \<times> irc_user" where
  "add_protected_priv u =
    (if 0x26 \<in> set (iu_chanmode u) then (False, u)
     else (True, u\<lparr>iu_chanmode := iu_chanmode u @ [0x26]\<rparr>))"

definition add_op_priv :: "irc_user \<Rightarrow> bool \<times> irc_user" where
  "add_op_priv u =
    (if 0x40 \<in> set (iu_chanmode u) then (False, u)
     else (True, u\<lparr>iu_chanmode := iu_chanmode u @ [0x40]\<rparr>))"

definition add_hop_priv :: "irc_user \<Rightarrow> bool \<times> irc_user" where
  "add_hop_priv u =
    (if 0x25 \<in> set (iu_chanmode u) then (False, u)
     else (True, u\<lparr>iu_chanmode := iu_chanmode u @ [0x25]\<rparr>))"

definition add_voice_priv :: "irc_user \<Rightarrow> bool \<times> irc_user" where
  "add_voice_priv u =
    (if 0x2B \<in> set (iu_chanmode u) then (False, u)
     else (True, u\<lparr>iu_chanmode := iu_chanmode u @ [0x2B]\<rparr>))"

subsection \<open>What the patterns match\<close>

text \<open>
  The documented meaning of the five patterns on whole subjects: \<open>.\<close> matches anything but a
  newline, the classes are sets of bytes, and the possessive prefix takes every mode character.
\<close>

definition modechar :: "byte \<Rightarrow> bool" where
  "modechar c \<longleftrightarrow> c \<in> set (c_lit ''~&@%+'')"

definition match_ident :: "byte list \<Rightarrow> byte list list option" where
  "match_ident s =
    (let n = takeWhile (\<lambda>c. c \<noteq> 0x21) s; r = drop (Suc (length n)) s;
         u = takeWhile (\<lambda>c. c \<noteq> 0x40) r; h = drop (Suc (length u)) r
     in if n \<noteq> [] \<and> length n < length s \<and> u \<noteq> [] \<and> length u < length r \<and> 0x0A \<notin> set h
        then Some [n, u, h] else None)"

definition match_framed :: "byte list \<Rightarrow> byte list \<Rightarrow> byte list list option" where
  "match_framed tag s =
    (let x = take (length s - length tag - 2) (drop (Suc (length tag)) s)
     in if length tag + 2 \<le> length s \<and> s = [1] @ tag @ x @ [1] \<and> 0x0A \<notin> set x then Some [x] else None)"

definition irc_pcre :: "byte pcre \<Rightarrow> bool" where
  "irc_pcre R \<longleftrightarrow>
    (\<forall>s. re_full R re_split_nick_usermode s =
       (if 0x0A \<in> set (dropWhile modechar s) then None
        else Some [takeWhile modechar s, dropWhile modechar s])) \<and>
    (\<forall>s. re_full R re_split_ident s = match_ident s) \<and>
    (\<forall>s. re_global_replace R re_remove_modechar_from_nick [] s = dropWhile modechar s) \<and>
    (\<forall>s. re_full R re_action_message s = match_framed (c_lit ''ACTION '') s) \<and>
    (\<forall>s. re_full R re_ctcp_message s = match_framed [] s)"

definition irc_pcre_instance :: "byte pcre" where
  "irc_pcre_instance =
    \<lparr>re_full = (\<lambda>p s.
       if p = re_split_nick_usermode then
         (if 0x0A \<in> set (dropWhile modechar s) then None
          else Some [takeWhile modechar s, dropWhile modechar s])
       else if p = re_split_ident then match_ident s
       else if p = re_action_message then match_framed (c_lit ''ACTION '') s
       else if p = re_ctcp_message then match_framed [] s
       else None),
     re_partial = (\<lambda>p s. None),
     re_global_replace = (\<lambda>p r s. dropWhile modechar s)\<rparr>"

lemma irc_patterns_distinct:
  "distinct [re_split_nick_usermode, re_split_ident, re_action_message, re_ctcp_message]"
  by (simp add: re_split_nick_usermode_def re_split_ident_def re_action_message_def
      re_ctcp_message_def c_lit_def)

lemma irc_pcre_instance: "irc_pcre irc_pcre_instance"
  using irc_patterns_distinct by (auto simp: irc_pcre_def irc_pcre_instance_def)

lemma irc_pcreD:
  assumes "irc_pcre R"
  shows "re_full R re_split_nick_usermode s =
      (if 0x0A \<in> set (dropWhile modechar s) then None
       else Some [takeWhile modechar s, dropWhile modechar s])"
    and "re_full R re_split_ident s = match_ident s"
    and "re_global_replace R re_remove_modechar_from_nick [] s = dropWhile modechar s"
    and "re_full R re_action_message s = match_framed (c_lit ''ACTION '') s"
    and "re_full R re_ctcp_message s = match_framed [] s"
  using assms by (auto simp: irc_pcre_def)

lemma takeWhile_sep: "c \<notin> set n \<Longrightarrow> takeWhile (\<lambda>x. x \<noteq> c) (n @ c # r) = n"
  by (induction n) auto

lemma takeWhile_neq_split:
  "length (takeWhile (\<lambda>x. x \<noteq> c) s) < length s \<Longrightarrow>
    s = takeWhile (\<lambda>x. x \<noteq> c) s @ c # drop (Suc (length (takeWhile (\<lambda>x. x \<noteq> c) s))) s"
  by (induction s) auto

lemma match_ident_iff:
  "match_ident s = Some gs \<longleftrightarrow>
    (\<exists>n u h. gs = [n, u, h] \<and> s = n @ 0x21 # u @ 0x40 # h \<and>
      n \<noteq> [] \<and> 0x21 \<notin> set n \<and> u \<noteq> [] \<and> 0x40 \<notin> set u \<and> 0x0A \<notin> set h)" (is "?l \<longleftrightarrow> ?r")
proof
  assume l: ?l
  define n where "n = takeWhile (\<lambda>c. c \<noteq> 0x21) s"
  define r where "r = drop (Suc (length n)) s"
  define u where "u = takeWhile (\<lambda>c. c \<noteq> 0x40) r"
  define h where "h = drop (Suc (length u)) r"
  have c: "n \<noteq> []" "length n < length s" "u \<noteq> []" "length u < length r" "0x0A \<notin> set h" "gs = [n, u, h]"
    using l by (auto simp: match_ident_def Let_def n_def r_def u_def h_def split: if_splits)
  have s: "s = n @ 0x21 # r" and r: "r = u @ 0x40 # h"
    using takeWhile_neq_split [of "0x21" s] takeWhile_neq_split [of "0x40" r] c(2,4)
    unfolding n_def u_def r_def h_def by simp_all
  have "0x21 \<notin> set n" "0x40 \<notin> set u"
    unfolding n_def u_def by (auto dest: set_takeWhileD)
  then show ?r using c s r by auto
next
  assume ?r
  then obtain n u h where gs: "gs = [n, u, h]" and s: "s = n @ 0x21 # u @ 0x40 # h"
    and c: "n \<noteq> []" "0x21 \<notin> set n" "u \<noteq> []" "0x40 \<notin> set u" "0x0A \<notin> set h" by blast
  show ?l using c unfolding s gs by (simp add: match_ident_def Let_def takeWhile_sep)
qed

lemma match_framed_iff:
  "match_framed tag s = Some gs \<longleftrightarrow> (\<exists>x. gs = [x] \<and> s = [1] @ tag @ x @ [1] \<and> 0x0A \<notin> set x)"
proof
  show "match_framed tag s = Some gs \<Longrightarrow> \<exists>x. gs = [x] \<and> s = [1] @ tag @ x @ [1] \<and> 0x0A \<notin> set x"
    unfolding match_framed_def Let_def by (metis option.inject option.distinct(1))
  assume "\<exists>x. gs = [x] \<and> s = [1] @ tag @ x @ [1] \<and> 0x0A \<notin> set x"
  then show "match_framed tag s = Some gs"
    by (auto simp: match_framed_def Let_def)
qed

subsection \<open>Identities\<close>

definition ident_parts :: "byte list \<Rightarrow> byte list \<Rightarrow> byte list \<Rightarrow> byte list \<Rightarrow> bool" where
  "ident_parts s n u h \<longleftrightarrow>
    s = n @ 0x21 # u @ 0x40 # h \<and> n \<noteq> [] \<and> 0x21 \<notin> set n \<and> u \<noteq> [] \<and> 0x40 \<notin> set u \<and> 0x0A \<notin> set h"

lemma ident_parts_nonempty [simp]: "\<not> ident_parts [] n u h"
  by (simp add: ident_parts_def)

lemma set_ident_parts:
  "irc_pcre R \<Longrightarrow> ident_parts s n u h \<Longrightarrow> irc_ident_set_ident R s i =
    (0, i\<lparr>ii_ident := s, ii_nick := dropWhile modechar n, ii_user := u, ii_host := h\<rparr>)"
  using match_ident_iff [of s "[n, u, h]"]
  by (auto simp: ident_parts_def irc_ident_set_ident_def irc_pcreD Let_def)

lemma set_ident_malformed:
  "irc_pcre R \<Longrightarrow> s \<noteq> [] \<Longrightarrow> (\<And>n u h. \<not> ident_parts s n u h) \<Longrightarrow> irc_ident_set_ident R s i =
    (- 1, i\<lparr>ii_ident := s, ii_nick := s, ii_user := [], ii_host := s\<rparr>)"
  using match_ident_iff [of s "the (match_ident s)"]
  by (cases "match_ident s") (simp_all add: ident_parts_def irc_ident_set_ident_def irc_pcreD Let_def, blast)

lemma set_ident_empty:
  "irc_ident_set_ident R [] i =
    (0, i\<lparr>ii_ident := c_lit ''!@'', ii_nick := [], ii_user := [], ii_host := []\<rparr>)"
  by (simp add: irc_ident_set_ident_def Let_def)

lemma set_ident_cases:
  assumes "irc_pcre R"
  obtains "s = []" | n u h where "ident_parts s n u h"
    | "s \<noteq> []" "irc_ident_set_ident R s i =
        (- 1, i\<lparr>ii_ident := s, ii_nick := s, ii_user := [], ii_host := s\<rparr>)"
  using set_ident_malformed [OF assms, of s i] by blast

text \<open>\<open>set_ident\<close> succeeds exactly on the empty string and on \<open>nick!user@host\<close> with a nonempty
  nick without \<open>!\<close>, a nonempty user without \<open>@\<close> and a host on one line; it then stores the three
  parts, without the mode characters in front of the nick. On any other string it returns -1 and
  takes the whole string for nick and host. The stored identity is the argument, and other fields of
  a derived class are kept.\<close>

theorem irc_ident_parse:
  assumes "irc_pcre R"
  shows "(fst (irc_ident_set_ident R s i) = 0 \<longleftrightarrow> s = [] \<or> (\<exists>n u h. ident_parts s n u h)) \<and>
    (ident_parts s n u h \<longrightarrow> snd (irc_ident_set_ident R s i) =
      i\<lparr>ii_ident := s, ii_nick := dropWhile modechar n, ii_user := u, ii_host := h\<rparr>) \<and>
    (fst (irc_ident_set_ident R s i) \<noteq> 0 \<longrightarrow> irc_ident_set_ident R s i =
      (- 1, i\<lparr>ii_ident := s, ii_nick := s, ii_user := [], ii_host := s\<rparr>)) \<and>
    (s = [] \<longrightarrow> ii_ident (snd (irc_ident_set_ident R s i)) = c_lit ''!@'')"
  by (cases rule: set_ident_cases [OF assms, where s = s and i = i])
    (auto simp: set_ident_empty set_ident_parts [OF assms])

lemma irc_ident_parse_witness:
  "ii_nick (snd (irc_ident_set_ident irc_pcre_instance (c_lit ''@nick!user@host'') irc_user_default)) = c_lit ''nick''"
proof -
  have "ident_parts (c_lit ''@nick!user@host'') (c_lit ''@nick'') (c_lit ''user'') (c_lit ''host'')"
    by (simp add: ident_parts_def c_lit_def)
  with irc_ident_parse [OF irc_pcre_instance, of "c_lit ''@nick!user@host''" irc_user_default
      "c_lit ''@nick''" "c_lit ''user''" "c_lit ''host''"]
  have "ii_nick (snd (irc_ident_set_ident irc_pcre_instance (c_lit ''@nick!user@host'') irc_user_default)) =
      dropWhile modechar (c_lit ''@nick'')" by simp
  then show ?thesis by (simp add: c_lit_def modechar_def)
qed

text \<open>After the three parts have been set one by one, in any previous state, parsing the
  reconstructed identity gives the same parts back, provided they can be told apart: the nick is
  nonempty, has no \<open>!\<close> and does not begin with a mode character, the user is nonempty and has no
  \<open>@\<close>, the host has no newline.\<close>

theorem irc_ident_roundtrip:
  assumes "irc_pcre R"
    and "nick \<noteq> []" "0x21 \<notin> set nick" "\<not> modechar (hd nick)"
    and "user \<noteq> []" "0x40 \<notin> set user" "0x0A \<notin> set host"
  shows "irc_ident_set_ident R
      (ii_ident (irc_ident_set_host host (irc_ident_set_user user (irc_ident_set_nick R nick i)))) i =
    (0, irc_ident_set_host host (irc_ident_set_user user (irc_ident_set_nick R nick i)))"
proof -
  have d: "dropWhile modechar nick = nick"
    using assms(2,4) by (cases nick) auto
  have "ident_parts (nick @ 0x21 # user @ 0x40 # host) nick user host"
    using assms by (simp add: ident_parts_def)
  from set_ident_parts [OF assms(1) this, of i] show ?thesis
    by (cases i) (simp add: irc_ident_set_host_def irc_ident_set_user_def irc_ident_set_nick_def
        reconstruct_ident_def irc_pcreD [OF assms(1)] d c_lit_def)
qed

lemma irc_ident_roundtrip_witness:
  "fst (irc_ident_set_ident irc_pcre_instance (c_lit ''pjm!meow@localhost'') (irc_ident_new irc_pcre_instance [])) = 0"
  using irc_ident_roundtrip [OF irc_pcre_instance, of "c_lit ''pjm''" "c_lit ''meow''" "c_lit ''localhost''"
      "irc_ident_new irc_pcre_instance []"]
  by (simp add: irc_ident_set_host_def irc_ident_set_user_def irc_ident_set_nick_def
        reconstruct_ident_def irc_pcreD [OF irc_pcre_instance] c_lit_def modechar_def)

subsection \<open>Channel modes of a user\<close>

lemma chanmode_add_ext:
  "\<exists>e. chanmode_add m n = m @ e \<and> set e = set n - set m \<and> distinct e"
proof (induction n arbitrary: m)
  case (Cons c n)
  show ?case
  proof (cases "c \<in> set m")
    case False
    obtain e where "chanmode_add (m @ [c]) n = (m @ [c]) @ e" "set e = set n - set (m @ [c])" "distinct e"
      using Cons.IH by blast
    then show ?thesis using False by (intro exI [of _ "c # e"]) auto
  qed (use Cons.IH in auto)
qed simp

lemma chanmode_add_set: "set (chanmode_add m n) = set m \<union> set n"
  by (induction n arbitrary: m) auto

lemma chanmode_add_distinct: "distinct m \<Longrightarrow> distinct (chanmode_add m n)"
  by (induction n arbitrary: m) auto

lemma chanmode_del_filter: "distinct m \<Longrightarrow> chanmode_del m n = filter (\<lambda>c. c \<notin> set n) m"
proof (induction n arbitrary: m)
  case (Cons c n)
  have e: "(if c \<in> set m then remove1 c m else m) = filter (\<lambda>x. x \<noteq> c) m"
  proof (cases "c \<in> set m")
    case False
    then have "filter (\<lambda>x. x \<noteq> c) m = m" by (auto simp: filter_id_conv)
    with False show ?thesis by simp
  qed (use Cons.prems in \<open>simp add: distinct_remove1_removeAll removeAll_filter_not_eq eq_commute\<close>)
  have "chanmode_del m (c # n) = filter (\<lambda>c. c \<notin> set n) (filter (\<lambda>x. x \<noteq> c) m)"
    unfolding chanmode_del.simps e by (rule Cons.IH) (simp add: Cons.prems)
  then show ?case by (simp add: conj_commute)
qed simp

lemma chanmode_del_add:
  assumes "distinct m" and "set m \<inter> set n = {}"
  shows "chanmode_del (chanmode_add m n) n = m"
proof -
  obtain e where "chanmode_add m n = m @ e" and "set e = set n - set m"
    using chanmode_add_ext by blast
  moreover have "filter (\<lambda>c. c \<notin> set n) m = m" using assms(2) by (auto simp: filter_id_conv)
  ultimately show ?thesis
    using chanmode_del_filter [OF chanmode_add_distinct [OF assms(1)], of n n]
    by (auto simp: filter_empty_conv)
qed

text \<open>The mode string of a channel user is a set of modes: adding modes gives the union, keeps the
  string free of duplicates and never reorders what was there; deleting modes from a duplicate-free
  string gives the difference; and deleting modes that had just been added restores the user.\<close>

theorem chanusermode_set:
  assumes "distinct (iu_chanmode u)"
  shows "set (iu_chanmode (add_to_chanusermode n u)) = set (iu_chanmode u) \<union> set n \<and>
    distinct (iu_chanmode (add_to_chanusermode n u)) \<and>
    take (length (iu_chanmode u)) (iu_chanmode (add_to_chanusermode n u)) = iu_chanmode u \<and>
    set (iu_chanmode (del_from_chanusermode n u)) = set (iu_chanmode u) - set n \<and>
    distinct (iu_chanmode (del_from_chanusermode n u)) \<and>
    (set (iu_chanmode u) \<inter> set n = {} \<longrightarrow> del_from_chanusermode n (add_to_chanusermode n u) = u)"
proof (intro conjI impI)
  show "set (iu_chanmode u) \<inter> set n = {} \<Longrightarrow> del_from_chanusermode n (add_to_chanusermode n u) = u"
    by (simp add: add_to_chanusermode_def del_from_chanusermode_def chanmode_del_add [OF assms])
  show "take (length (iu_chanmode u)) (iu_chanmode (add_to_chanusermode n u)) = iu_chanmode u"
    using chanmode_add_ext [of "iu_chanmode u" n] by (elim exE) (simp add: add_to_chanusermode_def)
qed (use assms in \<open>auto simp: add_to_chanusermode_def del_from_chanusermode_def chanmode_add_set
      chanmode_add_distinct chanmode_del_filter\<close>)

lemma chanusermode_set_witness:
  "distinct (iu_chanmode (del_from_chanusermode (c_lit ''@'') irc_user_default))"
  using chanusermode_set [of irc_user_default "c_lit ''@''"] by (simp add: irc_user_default_def)

text \<open>Each of the \<open>add_..._priv\<close> methods is \<open>add_to_chanusermode\<close> with the one mode character, and
  tells whether it was new; after it the user has the privilege, and the channel owner has operator
  and half-operator privileges, an operator those of a half-operator.\<close>

theorem add_priv_modes:
  "add_owner_priv u = (0x7E \<notin> set (iu_chanmode u), add_to_chanusermode (c_lit ''~'') u) \<and>
   add_protected_priv u = (0x26 \<notin> set (iu_chanmode u), add_to_chanusermode (c_lit ''&'') u) \<and>
   add_op_priv u = (0x40 \<notin> set (iu_chanmode u), add_to_chanusermode (c_lit ''@'') u) \<and>
   add_hop_priv u = (0x25 \<notin> set (iu_chanmode u), add_to_chanusermode (c_lit ''%'') u) \<and>
   add_voice_priv u = (0x2B \<notin> set (iu_chanmode u), add_to_chanusermode (c_lit ''+'') u) \<and>
   is_user_has_owner_priv (snd (add_owner_priv u)) \<and> is_user_has_op_priv (snd (add_owner_priv u)) \<and>
   is_user_protected (snd (add_protected_priv u)) \<and>
   is_user_has_op_priv (snd (add_op_priv u)) \<and> is_user_has_hop_priv (snd (add_op_priv u)) \<and>
   is_user_has_hop_priv (snd (add_hop_priv u)) \<and> is_user_has_voice (snd (add_voice_priv u)) \<and>
   (is_user_has_hop_priv u \<longleftrightarrow> 0x25 \<in> set (iu_chanmode u) \<or> is_user_has_op_priv u) \<and>
   (is_user_has_op_priv u \<longleftrightarrow> 0x40 \<in> set (iu_chanmode u) \<or> is_user_has_owner_priv u)"
proof -
  have l: "c_lit ''~'' = [0x7E]" "c_lit ''&'' = [0x26]" "c_lit ''@'' = [0x40]" "c_lit ''%'' = [0x25]" "c_lit ''+'' = [0x2B]"
    by (simp_all add: c_lit_def)
  have u: "u\<lparr>iu_chanmode := iu_chanmode u\<rparr> = u" "\<And>m. iu_chanmode (u\<lparr>iu_chanmode := m\<rparr>) = m" by simp_all
  show ?thesis
    unfolding l add_to_chanusermode_def chanmode_add.simps
    by (intro conjI) (auto simp only: u add_owner_priv_def add_protected_priv_def add_op_priv_def add_hop_priv_def
      add_voice_priv_def is_user_has_owner_priv_def is_user_protected_def
      is_user_has_op_priv_def is_user_has_hop_priv_def is_user_has_voice_def
      set_append list.set Un_iff insert_iff fst_conv snd_conv not_True_eq_False not_False_eq_True split: if_splits)
qed

text \<open>Setting the nick of a channel user splits off the modes in front of it.\<close>

lemma irc_user_set_nick_split:
  "irc_pcre R \<Longrightarrow> 0x0A \<notin> set (dropWhile modechar nick) \<Longrightarrow> irc_user_set_nick R nick u =
    (0, u\<lparr>iu_chanmode := takeWhile modechar nick, ii_nick := dropWhile modechar nick\<rparr>)"
  by (simp add: irc_user_set_nick_def split_nick_usermode_def irc_pcreD)

lemma split_nick_only:
  "irc_pcre R \<Longrightarrow> split_nick_usermode R s None (Some n) =
    (if 0x0A \<in> set (dropWhile modechar s) then (False, None, Some n)
     else (True, None, Some (dropWhile modechar s)))"
  by (simp add: split_nick_usermode_def irc_pcreD)

end
