(* ===== verification/Ircevent.thy ===== *)
theory Ircevent
  imports Ircutils
begin

text \<open>
  \<open>ircevent.h\<close>: the events that the connection and the bot hand to event handlers. A class derived
  from \<open>ircevent\<close> is a constructor with its members in the order of the source; the virtual method
  \<open>duplicate\<close> is defined on values (\<open>ircevent_copy\<close>, what a copy holds) and on an object store
  (\<open>duplicate\<close>, which pointer it returns and what it allocates), so that \<open>delete_ircevent\<close> can be
  checked against it. The members of \<open>botevent_command\<close> are references; the constructor holds the
  values they refer to. \<open>botevent_evhandler_done\<close> holds the event its pointer refers to.
\<close>

definition IRCEVENT_NONE :: int where "IRCEVENT_NONE = - 1"
definition IRCEVENT_IDLE :: int where "IRCEVENT_IDLE = 0"
definition IRCEVENT_CONNECTED :: int where "IRCEVENT_CONNECTED = 1"
definition IRCEVENT_LOGGEDIN :: int where "IRCEVENT_LOGGEDIN = 2"
definition IRCEVENT_DISCONNECTED :: int where "IRCEVENT_DISCONNECTED = 3"
definition IRCEVENT_JOIN :: int where "IRCEVENT_JOIN = 4"
definition IRCEVENT_PART :: int where "IRCEVENT_PART = 5"
definition IRCEVENT_KICK :: int where "IRCEVENT_KICK = 6"
definition IRCEVENT_QUIT :: int where "IRCEVENT_QUIT = 7"
definition IRCEVENT_NICK :: int where "IRCEVENT_NICK = 8"
definition IRCEVENT_PRIVMSG :: int where "IRCEVENT_PRIVMSG = 9"
definition IRCEVENT_MODE :: int where "IRCEVENT_MODE = 10"
definition IRCEVENT_INVITE :: int where "IRCEVENT_INVITE = 11"
definition IRCEVENT_SRVINCOMING :: int where "IRCEVENT_SRVINCOMING = 12"
definition IRCEVENT_END :: int where "IRCEVENT_END = 13"
definition BOTEVENT_START :: int where "BOTEVENT_START = IRCEVENT_END + 1"
definition BOTEVENT_COMMAND :: int where "BOTEVENT_COMMAND = BOTEVENT_START + 1"
definition BOTEVENT_EVHANDLER_DONE :: int where "BOTEVENT_EVHANDLER_DONE = BOTEVENT_COMMAND + 1"
definition BOTEVENT_PRIVMSG_SEND :: int where "BOTEVENT_PRIVMSG_SEND = BOTEVENT_EVHANDLER_DONE + 1"
definition BOTEVENT_END :: int where "BOTEVENT_END = BOTEVENT_PRIVMSG_SEND + 1"

lemmas event_id_defs =
  IRCEVENT_NONE_def IRCEVENT_IDLE_def IRCEVENT_CONNECTED_def IRCEVENT_LOGGEDIN_def
  IRCEVENT_DISCONNECTED_def IRCEVENT_JOIN_def IRCEVENT_PART_def IRCEVENT_KICK_def IRCEVENT_QUIT_def
  IRCEVENT_NICK_def IRCEVENT_PRIVMSG_def IRCEVENT_MODE_def IRCEVENT_INVITE_def
  IRCEVENT_SRVINCOMING_def IRCEVENT_END_def BOTEVENT_START_def BOTEVENT_COMMAND_def
  BOTEVENT_EVHANDLER_DONE_def BOTEVENT_PRIVMSG_SEND_def BOTEVENT_END_def

text \<open>The table of names, up to the terminating null pointer.\<close>

definition gsc_botevent_2str_tab :: "string list" where
  "gsc_botevent_2str_tab =
    [''IRCEVENT_IDLE'', ''IRCEVENT_CONNECTED'', ''IRCEVENT_LOGGEDIN'', ''IRCEVENT_DISCONNECTED'',
     ''IRCEVENT_JOIN'', ''IRCEVENT_PART'', ''IRCEVENT_KICK'', ''IRCEVENT_QUIT'',
     ''IRCEVENT_NICK'', ''IRCEVENT_PRIVMSG'', ''IRCEVENT_MODE'', ''IRCEVENT_INVITE'',
     ''IRCEVENT_SRVINCOMING'', ''IRCEVENT_END'',
     ''BOTEVENT_START'', ''BOTEVENT_COMMAND'', ''BOTEVENT_EVHANDLER_DONE'', ''BOTEVENT_END'']"

datatype ircevent =
    Ircevent int
  | Ircevent_idle
  | Ircevent_connected
  | Ircevent_loggedin
  | Ircevent_disconnected
  | Ircevent_join irc_ident "byte list"
  | Ircevent_part irc_ident "byte list" "byte list"
  | Ircevent_kick irc_ident "byte list" irc_user "byte list"
  | Ircevent_quit irc_ident "byte list"
  | Ircevent_nick irc_ident "byte list"
  | Ircevent_privmsg irc_privmsg
  | Ircevent_mode irc_ident "byte list" "byte list" "byte list"
  | Ircevent_invite irc_ident "byte list"
  | Ircevent_srvincoming "byte list" bool
  | Botevent_command irc_privmsg irc_msginfo "byte list" "byte list" "byte list"
  | Botevent_evhandler_done ircevent
  | Botevent_privmsg_send irc_msginfo "byte list"

fun event_id :: "ircevent \<Rightarrow> int" where
  "event_id (Ircevent n) = n"
| "event_id Ircevent_idle = IRCEVENT_IDLE"
| "event_id Ircevent_connected = IRCEVENT_CONNECTED"
| "event_id Ircevent_loggedin = IRCEVENT_LOGGEDIN"
| "event_id Ircevent_disconnected = IRCEVENT_DISCONNECTED"
| "event_id (Ircevent_join who chan) = IRCEVENT_JOIN"
| "event_id (Ircevent_part who chan msg) = IRCEVENT_PART"
| "event_id (Ircevent_kick who chan kicked_user msg) = IRCEVENT_KICK"
| "event_id (Ircevent_quit who msg) = IRCEVENT_QUIT"
| "event_id (Ircevent_nick who newnick) = IRCEVENT_NICK"
| "event_id (Ircevent_privmsg pmsg) = IRCEVENT_PRIVMSG"
| "event_id (Ircevent_mode who target mode modeparam) = IRCEVENT_MODE"
| "event_id (Ircevent_invite who chan) = IRCEVENT_INVITE"
| "event_id (Ircevent_srvincoming line is_line_converted) = IRCEVENT_SRVINCOMING"
| "event_id (Botevent_command pmsg mdest cmd_trigger cmd carg) = BOTEVENT_COMMAND"
| "event_id (Botevent_evhandler_done ev) = BOTEVENT_EVHANDLER_DONE"
| "event_id (Botevent_privmsg_send mdest msg) = BOTEVENT_PRIVMSG_SEND"

text \<open>The constructor of \<open>ircevent_privmsg\<close>, from an identity or from its string.\<close>

definition ircevent_privmsg_new :: "byte pcre \<Rightarrow> irc_ident \<Rightarrow> irc_msginfo \<Rightarrow> byte list \<Rightarrow> ircevent" where
  "ircevent_privmsg_new R i mi msg = Ircevent_privmsg (irc_privmsg_new R i mi msg)"

definition ircevent_privmsg_new_s :: "byte pcre \<Rightarrow> byte list \<Rightarrow> irc_msginfo \<Rightarrow> byte list \<Rightarrow> ircevent" where
  "ircevent_privmsg_new_s R ident mi msg = Ircevent_privmsg (irc_privmsg_new R (irc_ident_new R ident) mi msg)"

text \<open>What the object returned by \<open>duplicate\<close> holds. \<open>ircevent_privmsg::duplicate\<close> constructs the
  message anew from the identity string, the message information and the text.\<close>

fun ircevent_copy :: "byte pcre \<Rightarrow> ircevent \<Rightarrow> ircevent" where
  "ircevent_copy R (Ircevent_privmsg pmsg) =
    ircevent_privmsg_new_s R (ii_ident (pm_ident pmsg)) (pm_msginfo pmsg) (pm_msg pmsg)"
| "ircevent_copy R ev = ev"

text \<open>Objects live in a store indexed by their pointers; a deleted object leaves None. \<open>new\<close> takes
  the next free pointer.\<close>

type_synonym ev_store = "ircevent option list"

definition ev_new :: "ircevent \<Rightarrow> ev_store \<Rightarrow> nat \<times> ev_store" where
  "ev_new ev h = (length h, h @ [Some ev])"

definition ev_deref :: "ev_store \<Rightarrow> nat \<Rightarrow> ircevent option" where
  "ev_deref h p = (if p < length h then h ! p else None)"

text \<open>Whether \<open>duplicate\<close> returns \<open>this\<close> or a new object.\<close>

fun returns_this :: "ircevent \<Rightarrow> bool" where
  "returns_this Ircevent_idle = True"
| "returns_this Ircevent_connected = True"
| "returns_this Ircevent_loggedin = True"
| "returns_this Ircevent_disconnected = True"
| "returns_this ev = False"

definition duplicate :: "byte pcre \<Rightarrow> nat \<Rightarrow> ev_store \<Rightarrow> c_fault + (nat \<times> ev_store)" where
  "duplicate R p h = (case ev_deref h p of
     None \<Rightarrow> Inl Null_deref
   | Some ev \<Rightarrow> Inr (if returns_this ev then (p, h) else ev_new (ircevent_copy R ev) h))"

text \<open>A null pointer is None. Deleting an object that is not there is a fault.\<close>

definition delete_ircevent :: "nat option \<Rightarrow> ev_store \<Rightarrow> c_fault + ev_store" where
  "delete_ircevent evdata h = (case evdata of
     None \<Rightarrow> Inr h
   | Some p \<Rightarrow> (case ev_deref h p of
       None \<Rightarrow> Inl Null_deref
     | Some ev \<Rightarrow>
         (let evid = event_id ev
          in if \<not> (evid = IRCEVENT_IDLE \<or> evid = IRCEVENT_CONNECTED \<or> evid = IRCEVENT_LOGGEDIN \<or>
                   evid = IRCEVENT_DISCONNECTED \<or> evid = BOTEVENT_EVHANDLER_DONE)
             then Inr (h[p := None]) else Inr h)))"

subsection \<open>Copies of events\<close>

text \<open>Framed texts are the ones the message constructor takes for a CTCP message.\<close>

definition ctcp_framed :: "byte list \<Rightarrow> bool" where
  "ctcp_framed s \<longleftrightarrow> (\<exists>x. s = [1] @ x @ [1] \<and> 0x0A \<notin> set x)"

lemma match_ctcp: "match_framed [] s = (if ctcp_framed s then Some [take (length s - 2) (drop 1 s)] else None)"
proof (cases "match_framed [] s")
  case None
  then have "\<not> ctcp_framed s" using match_framed_iff [of "[]" s] by (auto simp: ctcp_framed_def)
  then show ?thesis using None by simp
next
  case (Some gs)
  then obtain x where "gs = [x]" "s = [1] @ x @ [1]" "0x0A \<notin> set x"
    using match_framed_iff [of "[]" s gs] by auto
  then show ?thesis using Some by (auto simp: ctcp_framed_def)
qed

lemma action_framed: "match_framed tag s = Some gs \<Longrightarrow> 0x0A \<notin> set tag \<Longrightarrow> ctcp_framed s"
  unfolding match_framed_iff ctcp_framed_def by (metis append_assoc set_append Un_iff)

lemma action_tag_no_newline: "0x0A \<notin> set (c_lit ''ACTION '')"
  by (simp add: c_lit_def)

lemma classify_framed_shrinks:
  assumes "irc_pcre R" and "ctcp_framed s"
  shows "length (snd (privmsg_classify R t s)) < length s"
proof -
  obtain x where s: "s = [1] @ x @ [1]" using assms(2) by (auto simp: ctcp_framed_def)
  have "match_framed (c_lit ''ACTION '') s = Some gs \<Longrightarrow> length (gs ! 0) < length s" for gs
    using match_framed_iff [of "c_lit ''ACTION ''" s gs] by auto
  then show ?thesis using assms(2) s
    by (auto simp: privmsg_classify_def irc_pcreD [OF assms(1)] match_ctcp split: option.splits)
qed

lemma classify_unframed:
  assumes "irc_pcre R" and "\<not> ctcp_framed s"
  shows "privmsg_classify R t s = (t, s)"
proof -
  have "match_framed (c_lit ''ACTION '') s = None"
    using action_framed [OF _ action_tag_no_newline] assms(2) by (cases "match_framed (c_lit ''ACTION '') s") auto
  then show ?thesis using assms(2)
    by (auto simp: privmsg_classify_def irc_pcreD [OF assms(1)] match_ctcp)
qed

lemma privmsg_target_idem:
  assumes "cstr_at (ii_nick i) 0 \<noteq> 0x23" and "cstr_at (ii_nick i) 0 \<noteq> 0x26"
  shows "privmsg_target i (privmsg_target i mi) = privmsg_target i mi"
  using assms by (simp add: privmsg_target_def)

lemma privmsg_target_msgtype: "privmsg_target i (mi\<lparr>mi_msgtype := t\<rparr>) = (privmsg_target i mi)\<lparr>mi_msgtype := t\<rparr>"
  by (simp add: privmsg_target_def)

lemma set_ident_ident: "irc_pcre R \<Longrightarrow> s \<noteq> [] \<Longrightarrow> ii_ident (irc_ident_new R s) = s"
  by (rule set_ident_cases [where R = R and s = s and
        i = "\<lparr>ii_ident = [], ii_nick = [], ii_user = [], ii_host = []\<rparr>"]) (auto simp: irc_ident_new_def set_ident_parts)

text \<open>\<open>duplicate\<close> returns a copy that holds the same data as the event, for every kind of event,
  with one exception: a message event whose text, after the CTCP or ACTION frame has been removed, is
  framed again loses this inner frame in the copy, because the copy is classified anew from the text.
  The message was constructed from a nonempty identity, whose nick is not a channel name.\<close>

theorem ircevent_copy_faithful:
  assumes "irc_pcre R" and "s \<noteq> []"
    and "cstr_at (ii_nick (irc_ident_new R s)) 0 \<noteq> 0x23" "cstr_at (ii_nick (irc_ident_new R s)) 0 \<noteq> 0x26"
  shows "(ircevent_copy R (ircevent_privmsg_new_s R s mi msg) = ircevent_privmsg_new_s R s mi msg \<longleftrightarrow>
      \<not> ctcp_framed (snd (privmsg_classify R (mi_msgtype mi) msg))) \<and>
    ((\<forall>pm. ev \<noteq> Ircevent_privmsg pm) \<longrightarrow> ircevent_copy R ev = ev)"
proof (intro conjI impI)
  let ?i = "irc_ident_new R s"
  obtain t m where tm: "privmsg_classify R (mi_msgtype mi) msg = (t, m)" by force
  have new: "irc_privmsg_new R ?i mi msg = \<lparr>pm_ident = ?i, pm_msginfo = (privmsg_target ?i mi)\<lparr>mi_msgtype := t\<rparr>, pm_msg = m\<rparr>"
    by (simp add: irc_privmsg_new_def tm privmsg_target_msgtype)
  have copy: "ircevent_copy R (ircevent_privmsg_new_s R s mi msg) =
      Ircevent_privmsg (irc_privmsg_new R ?i ((privmsg_target ?i mi)\<lparr>mi_msgtype := t\<rparr>) m)"
    by (simp add: ircevent_privmsg_new_s_def new set_ident_ident [OF assms(1,2)])
  show "ircevent_copy R (ircevent_privmsg_new_s R s mi msg) = ircevent_privmsg_new_s R s mi msg \<longleftrightarrow>
      \<not> ctcp_framed (snd (privmsg_classify R (mi_msgtype mi) msg))"
  proof (cases "ctcp_framed m")
    case True
    have "length (snd (privmsg_classify R t m)) < length m"
      by (rule classify_framed_shrinks [OF assms(1) True])
    then have "pm_msg (irc_privmsg_new R ?i ((privmsg_target ?i mi)\<lparr>mi_msgtype := t\<rparr>) m) \<noteq> m"
      by (auto simp: irc_privmsg_new_def split: prod.splits)
    then show ?thesis using True unfolding copy by (auto simp: ircevent_privmsg_new_s_def new tm)
  next
    case False
    have "irc_privmsg_new R ?i ((privmsg_target ?i mi)\<lparr>mi_msgtype := t\<rparr>) m = irc_privmsg_new R ?i mi msg"
      unfolding new using False privmsg_target_idem [OF assms(3,4), of mi]
      by (simp add: irc_privmsg_new_def classify_unframed [OF assms(1)] privmsg_target_msgtype)
    then show ?thesis using False unfolding copy by (simp add: ircevent_privmsg_new_s_def tm)
  qed
qed (cases ev; simp)

lemma ircevent_copy_faithful_witness:
  "ircevent_copy irc_pcre_instance (ircevent_privmsg_new_s irc_pcre_instance (c_lit ''a!b@c'') irc_msginfo_default (c_lit ''hi''))
    = ircevent_privmsg_new_s irc_pcre_instance (c_lit ''a!b@c'') irc_msginfo_default (c_lit ''hi'')"
proof -
  have p: "ident_parts (c_lit ''a!b@c'') (c_lit ''a'') (c_lit ''b'') (c_lit ''c'')"
    by (simp add: ident_parts_def c_lit_def)
  have n: "ii_nick (irc_ident_new irc_pcre_instance (c_lit ''a!b@c'')) = c_lit ''a''"
    unfolding irc_ident_new_def set_ident_parts [OF irc_pcre_instance p]
    by (simp add: c_lit_def modechar_def)
  have f: "\<not> ctcp_framed (c_lit ''hi'')" by (simp add: ctcp_framed_def c_lit_def)
  show ?thesis
    using ircevent_copy_faithful [OF irc_pcre_instance, of "c_lit ''a!b@c''" irc_msginfo_default "c_lit ''hi''" Ircevent_idle]
    unfolding n classify_unframed [OF irc_pcre_instance f] using f by (simp add: c_lit_def)
qed

text \<open>On a store where the event is alive, \<open>duplicate\<close> succeeds, leaves every live object as it is,
  and \<open>delete_ircevent\<close> of the pointer it returned succeeds and again changes no object that was live
  before, in particular not the event itself. No copy is left behind, except for an event whose
  \<open>delete_ircevent\<close> deletes nothing although its \<open>duplicate\<close> allocates: \<open>botevent_evhandler_done\<close>
  and an \<open>ircevent\<close> of the base class with the number of one of the exempted events.\<close>

theorem duplicate_delete:
  assumes "ev_deref h p = Some ev"
  shows "\<exists>q h' h''. duplicate R p h = Inr (q, h') \<and> delete_ircevent (Some q) h' = Inr h'' \<and>
    (\<forall>r < length h. ev_deref h' r = ev_deref h r \<and> ev_deref h'' r = ev_deref h r) \<and>
    ((\<exists>r \<ge> length h. ev_deref h'' r \<noteq> None) \<longleftrightarrow>
      (\<exists>e. ev = Botevent_evhandler_done e) \<or> (\<exists>n \<in> {0, 1, 2, 3, 16}. ev = Ircevent n))"
proof (cases "returns_this ev")
  case True
  then have "event_id ev \<in> {0, 1, 2, 3}" and "\<nexists>e. ev = Botevent_evhandler_done e" and "\<nexists>n. ev = Ircevent n"
    by (cases ev; simp add: event_id_defs)+
  then have "delete_ircevent (Some p) h = Inr h"
    by (auto simp: delete_ircevent_def assms event_id_defs Let_def)
  moreover have "\<forall>r \<ge> length h. ev_deref h r = None" by (simp add: ev_deref_def)
  moreover have "duplicate R p h = Inr (p, h)" using True by (simp add: duplicate_def assms)
  ultimately show ?thesis using \<open>\<nexists>e. ev = Botevent_evhandler_done e\<close> \<open>\<nexists>n. ev = Ircevent n\<close> by auto
next
  case False
  let ?c = "ircevent_copy R ev"
  have dup: "duplicate R p h = Inr (length h, h @ [Some ?c])"
    using False by (simp add: duplicate_def assms ev_new_def)
  have at: "ev_deref (h @ [Some ?c]) (length h) = Some ?c" by (simp add: ev_deref_def)
  have keep: "r < length h \<Longrightarrow> ev_deref (h @ [x]) r = ev_deref h r" for r x
    by (simp add: ev_deref_def nth_append)
  have id: "event_id ?c \<in> {0, 1, 2, 3, 16} \<longleftrightarrow>
      (\<exists>e. ev = Botevent_evhandler_done e) \<or> (\<exists>n \<in> {0, 1, 2, 3, 16}. ev = Ircevent n)"
    using False by (cases ev) (simp_all add: event_id_defs ircevent_privmsg_new_s_def)
  show ?thesis
  proof (cases "event_id ?c \<in> {0, 1, 2, 3, 16}")
    case True
    then have "delete_ircevent (Some (length h)) (h @ [Some ?c]) = Inr (h @ [Some ?c])"
      by (auto simp: delete_ircevent_def at event_id_defs Let_def)
    then show ?thesis using dup keep at True id by fastforce
  next
    case False
    then have "delete_ircevent (Some (length h)) (h @ [Some ?c]) = Inr (h @ [None])"
      by (auto simp: delete_ircevent_def at event_id_defs Let_def)
    moreover have "\<forall>r \<ge> length h. ev_deref (h @ [None]) r = None"
      by (auto simp: ev_deref_def nth_append)
    ultimately show ?thesis using dup keep False id by auto
  qed
qed

lemma duplicate_delete_witness:
  "\<exists>q h' h''. duplicate irc_pcre_instance 0 [Some Ircevent_idle] = Inr (q, h') \<and>
    delete_ircevent (Some q) h' = Inr h'' \<and> ev_deref h'' 0 = Some Ircevent_idle"
  using duplicate_delete [of "[Some Ircevent_idle]" 0 Ircevent_idle irc_pcre_instance]
  by (fastforce simp: ev_deref_def)

text \<open>The name table has no entry for \<open>BOTEVENT_PRIVMSG_SEND\<close>: it and \<open>BOTEVENT_END\<close> read the entries
  of their successors, the last one the terminating null pointer.\<close>

lemma botevent_names:
  "gsc_botevent_2str_tab ! nat BOTEVENT_COMMAND = ''BOTEVENT_COMMAND''"
  "gsc_botevent_2str_tab ! nat BOTEVENT_PRIVMSG_SEND = ''BOTEVENT_END''"
  "nat BOTEVENT_END = length gsc_botevent_2str_tab"
  by (simp_all add: gsc_botevent_2str_tab_def event_id_defs)

end
