(* ===== verification/Ircparse.thy ===== *)
theory Ircparse
  imports Ircdefs Ircstring
begin

text \<open>
  The line parser of the IRC client, \<open>irc::parse_irc_line\<close> and \<open>concat_param\<close> of \<open>irc.cpp\<close>. The local
  variables of the parser are a record; the token buffer \<open>buf[0..pos)\<close> is the list \<open>ps_buf\<close>. A grammar
  of lines is given by \<open>render_line\<close>, the inverse that the round trip is stated with.
\<close>

datatype parse_state = STATE_PREFIX | STATE_CMD | STATE_PARAM

record parse_irc =
  ps_state :: parse_state
  ps_buf :: "byte list"
  ps_isspace :: bool
  ps_prefix :: "byte list"
  ps_cmd :: "byte list"
  ps_params :: "byte list list"

definition COMMIT_BUFFER :: "parse_irc \<Rightarrow> parse_irc" where
  "COMMIT_BUFFER p =
    (if ps_buf p \<noteq> [] then
      (case ps_state p of
         STATE_PARAM \<Rightarrow> p\<lparr>ps_params := ps_params p @ [ps_buf p], ps_buf := []\<rparr>
       | STATE_CMD \<Rightarrow> p\<lparr>ps_cmd := irc_strupper (ps_buf p), ps_state := STATE_PARAM, ps_buf := []\<rparr>
       | STATE_PREFIX \<Rightarrow> p\<lparr>ps_prefix := ps_buf p, ps_state := STATE_CMD, ps_buf := []\<rparr>)
     else p)"

text \<open>The loop over the characters of the line; the end of the list is the terminating NUL. The buffer
  has \<open>IRC_MAX_LINE_SIZE\<close> bytes, its last one is for the terminator.\<close>

fun parse_loop :: "byte list \<Rightarrow> parse_irc \<Rightarrow> parse_irc" where
  "parse_loop [] p = COMMIT_BUFFER p"
| "parse_loop (c # s) p =
    (if c = 0 then COMMIT_BUFFER p
     else if c = 0x20 then parse_loop s (COMMIT_BUFFER (p\<lparr>ps_isspace := True\<rparr>))
     else if c = 0x3A \<and> ps_isspace p \<and> ps_state p = STATE_PARAM then
       p\<lparr>ps_params := ps_params p @ [until_nul s]\<rparr>
     else if IRC_MAX_LINE_SIZE - 1 \<le> length (ps_buf p) then parse_loop s (COMMIT_BUFFER p)
     else parse_loop s (p\<lparr>ps_buf := ps_buf p @ [c], ps_isspace := False\<rparr>))"

text \<open>The result: the return value, the prefix, the command and the parameters.\<close>

definition parse_irc_line :: "byte list \<Rightarrow> int \<times> byte list \<times> byte list \<times> byte list list" where
  "parse_irc_line line =
    (let p = \<lparr>ps_state = STATE_CMD, ps_buf = [], ps_isspace = False, ps_prefix = [], ps_cmd = [], ps_params = []\<rparr>;
         p = (if cstr_at line 0 = 0x3A then parse_loop (drop 1 line) (p\<lparr>ps_state := STATE_PREFIX\<rparr>)
              else parse_loop line p)
     in (if ps_state p = STATE_PARAM then 0 else - 1, ps_prefix p, ps_cmd p, ps_params p))"

text \<open>The iterator compared with \<open>params.begin()\<close> tells whether the parameter is the very first one;
  \<open>n\<close> is its position.\<close>

fun concat_param_loop :: "nat \<Rightarrow> byte list list \<Rightarrow> byte list \<Rightarrow> byte list" where
  "concat_param_loop n [] buf = buf"
| "concat_param_loop n (x # xs) buf =
    (if x = [] then concat_param_loop (Suc n) xs buf
     else concat_param_loop (Suc n) xs ((if n \<noteq> 0 then buf @ [0x20] else buf) @ x))"

definition concat_param :: "byte list list \<Rightarrow> nat \<Rightarrow> byte list" where
  "concat_param params start = concat_param_loop start (drop start params) []"

subsection \<open>Lines as the grammar of the protocol has them\<close>

text \<open>A word is a token without spaces that fits the token buffer; a parameter word does not begin with
  a colon. The last parameter may be any text, written behind a colon.\<close>

definition line_word :: "byte list \<Rightarrow> bool" where
  "line_word w \<longleftrightarrow> w \<noteq> [] \<and> 0x20 \<notin> set w \<and> cstr_ok w \<and> length w < IRC_MAX_LINE_SIZE"

definition middle_word :: "byte list \<Rightarrow> bool" where
  "middle_word w \<longleftrightarrow> line_word w \<and> hd w \<noteq> 0x3A"

fun render_trailing :: "byte list option \<Rightarrow> byte list" where
  "render_trailing None = []"
| "render_trailing (Some t) = 0x20 # 0x3A # t"

definition render_line ::
  "byte list option \<Rightarrow> byte list \<Rightarrow> byte list list \<Rightarrow> byte list option \<Rightarrow> byte list" where
  "render_line prefix cmd middles trailing =
    (case prefix of None \<Rightarrow> [] | Some x \<Rightarrow> 0x3A # x @ [0x20]) @ cmd @
    concat (map (\<lambda>w. 0x20 # w) middles) @ render_trailing trailing"

lemma COMMIT_BUFFER_empty: "ps_buf p = [] \<Longrightarrow> COMMIT_BUFFER p = p"
  by (simp add: COMMIT_BUFFER_def)

text \<open>Inside a word the loop only fills the buffer. The word may begin with a colon where no parameter
  can begin: in the prefix, in the command, or without a space in front.\<close>

lemma parse_loop_word:
  assumes "0x20 \<notin> set w" and "cstr_ok w" and "length (ps_buf p) + length w < IRC_MAX_LINE_SIZE"
    and "w \<noteq> [] \<Longrightarrow> hd w = 0x3A \<Longrightarrow> \<not> (ps_isspace p \<and> ps_state p = STATE_PARAM)"
  shows "parse_loop (w @ s) p =
    parse_loop s (p\<lparr>ps_buf := ps_buf p @ w, ps_isspace := (w = [] \<and> ps_isspace p)\<rparr>)"
  using assms
proof (induction w arbitrary: p)
  case (Cons c w)
  have "parse_loop (w @ s) (p\<lparr>ps_buf := ps_buf p @ [c], ps_isspace := False\<rparr>) =
      parse_loop s (p\<lparr>ps_buf := ps_buf p @ c # w, ps_isspace := False\<rparr>)"
    using Cons.IH [of "p\<lparr>ps_buf := ps_buf p @ [c], ps_isspace := False\<rparr>"] Cons.prems by simp
  then show ?case using Cons.prems by auto
qed simp

lemma parse_loop_space:
  "parse_loop (0x20 # s) p = parse_loop s (COMMIT_BUFFER (p\<lparr>ps_isspace := True\<rparr>))"
  by simp

text \<open>In the parameter state with an empty buffer behind a space, or at the end of a pending word.\<close>

definition param_at :: "byte list \<Rightarrow> byte list \<Rightarrow> byte list list \<Rightarrow> byte list \<Rightarrow> bool \<Rightarrow> parse_irc" where
  "param_at px c ps b sp =
    \<lparr>ps_state = STATE_PARAM, ps_buf = b, ps_isspace = sp, ps_prefix = px, ps_cmd = c, ps_params = ps\<rparr>"

lemma parse_loop_trailing:
  "cstr_ok (case t of None \<Rightarrow> [] | Some x \<Rightarrow> x) \<Longrightarrow>
    parse_loop (render_trailing t) (param_at px c ps b False) =
    param_at px c (ps @ (if b = [] then [] else [b]) @ (case t of None \<Rightarrow> [] | Some x \<Rightarrow> [x])) [] (t \<noteq> None)"
  by (cases t) (simp_all add: COMMIT_BUFFER_def param_at_def until_nul_id)

lemma parse_loop_middles:
  assumes "list_all middle_word ms"
  shows "parse_loop (concat (map (\<lambda>w. 0x20 # w) ms) @ s) (param_at px c ps b False) =
    (if ms = [] then parse_loop s (param_at px c ps b False)
     else parse_loop s (param_at px c (ps @ (if b = [] then [] else [b]) @ butlast ms) (last ms) False))"
  using assms
proof (induction ms arbitrary: ps b)
  case (Cons m ms)
  let ?ps = "ps @ (if b = [] then [] else [b])"
  have m: "m \<noteq> []" "0x20 \<notin> set m" "cstr_ok m" "length m < IRC_MAX_LINE_SIZE" "hd m \<noteq> 0x3A"
    using Cons.prems by (auto simp: middle_word_def line_word_def)
  have "parse_loop (0x20 # m @ concat (map (\<lambda>w. 0x20 # w) ms) @ s) (param_at px c ps b False) =
      parse_loop (m @ concat (map (\<lambda>w. 0x20 # w) ms) @ s) (param_at px c ?ps [] True)"
    unfolding parse_loop_space by (simp add: COMMIT_BUFFER_def param_at_def)
  also have "\<dots> = parse_loop (concat (map (\<lambda>w. 0x20 # w) ms) @ s) (param_at px c ?ps m False)"
    using m by (subst parse_loop_word) (simp_all add: param_at_def)
  finally show ?case using Cons.IH [of ?ps m] Cons.prems m(1) by simp
qed simp

lemma parse_loop_command:
  assumes "line_word cmd" and "list_all middle_word ms" and "cstr_ok (case t of None \<Rightarrow> [] | Some x \<Rightarrow> x)"
    and "ps_state p = STATE_CMD" "ps_buf p = []" "ps_params p = []"
  shows "\<exists>sp. parse_loop (cmd @ concat (map (\<lambda>w. 0x20 # w) ms) @ render_trailing t) p =
    param_at (ps_prefix p) (irc_strupper cmd) (ms @ (case t of None \<Rightarrow> [] | Some x \<Rightarrow> [x])) [] sp"
proof -
  have w: "cmd \<noteq> []" "0x20 \<notin> set cmd" "cstr_ok cmd" "length cmd < IRC_MAX_LINE_SIZE"
    using assms(1) by (auto simp: line_word_def)
  let ?q = "p\<lparr>ps_buf := cmd, ps_isspace := False\<rparr>"
  let ?r = "param_at (ps_prefix p) (irc_strupper cmd) [] []"
  have cmd: "parse_loop (cmd @ s) p = parse_loop s ?q" for s
    using w assms(4,5) by (subst parse_loop_word) simp_all
  have commit: "COMMIT_BUFFER (?q\<lparr>ps_isspace := sp\<rparr>) = ?r sp" for sp
    using w(1) assms(4,6) by (simp add: COMMIT_BUFFER_def param_at_def)
  show ?thesis
  proof (cases ms)
    case Nil
    show ?thesis
    proof (cases t)
      case None
      then show ?thesis using commit [of False] cmd [of "[]"] Nil by auto
    next
      case (Some x)
      have "parse_loop (0x20 # 0x3A # x) ?q = parse_loop (0x3A # x) (?r True)"
        unfolding parse_loop_space commit [of True, simplified] by (simp add: commit [of True, simplified])
      also have "\<dots> = param_at (ps_prefix p) (irc_strupper cmd) [x] [] True"
        using assms(3) Some by (simp add: param_at_def until_nul_id)
      finally show ?thesis using Nil Some by (auto simp: cmd)
    qed
  next
    case (Cons m ms')
    have m: "m \<noteq> []" "0x20 \<notin> set m" "cstr_ok m" "length m < IRC_MAX_LINE_SIZE" "hd m \<noteq> 0x3A"
      using assms(2) Cons by (auto simp: middle_word_def line_word_def)
    let ?s = "concat (map (\<lambda>w. 0x20 # w) ms') @ render_trailing t"
    have "parse_loop (0x20 # m @ ?s) ?q = parse_loop (m @ ?s) (?r True)"
      unfolding parse_loop_space by (simp add: commit [of True, simplified])
    also have "\<dots> = parse_loop ?s (param_at (ps_prefix p) (irc_strupper cmd) [] m False)"
      using m by (subst parse_loop_word) (simp_all add: param_at_def)
    also have "\<dots> = (if ms' = [] then parse_loop (render_trailing t) (param_at (ps_prefix p) (irc_strupper cmd) [] m False)
        else parse_loop (render_trailing t)
          (param_at (ps_prefix p) (irc_strupper cmd) (m # butlast ms') (last ms') False))"
      using assms(2) Cons m(1) by (subst parse_loop_middles) simp_all
    also have "\<dots> = param_at (ps_prefix p) (irc_strupper cmd) (ms @ (case t of None \<Rightarrow> [] | Some x \<Rightarrow> [x])) [] (t \<noteq> None)"
    proof (cases "ms' = []")
      case False
      then have "last ms' \<noteq> []" using assms(2) Cons
        by (auto simp: list_all_iff middle_word_def line_word_def)
      then have "parse_loop (render_trailing t) (param_at (ps_prefix p) (irc_strupper cmd) (m # butlast ms') (last ms') False) =
          param_at (ps_prefix p) (irc_strupper cmd)
            (m # (butlast ms' @ [last ms']) @ (case t of None \<Rightarrow> [] | Some x \<Rightarrow> [x])) [] (t \<noteq> None)"
        using assms(3) by (simp only: parse_loop_trailing if_False append_Cons append_assoc)
      then show ?thesis using False Cons by (simp only: append_butlast_last_id [OF False] append_Cons if_False)
    qed (use Cons m(1) assms(3) in \<open>simp add: parse_loop_trailing\<close>)
    finally show ?thesis using Cons by (auto simp: cmd)
  qed
qed

lemma parse_render:
  assumes "pred_option line_word prefix" and "line_word cmd" and "prefix = None \<Longrightarrow> hd cmd \<noteq> 0x3A"
    and "list_all middle_word middles" and "pred_option cstr_ok trailing"
  shows "parse_irc_line (render_line prefix cmd middles trailing) =
    (0, case prefix of None \<Rightarrow> [] | Some x \<Rightarrow> x, irc_strupper cmd,
     middles @ (case trailing of None \<Rightarrow> [] | Some t \<Rightarrow> [t]))"
proof -
  let ?s = "cmd @ concat (map (\<lambda>w. 0x20 # w) middles) @ render_trailing trailing"
  have t: "cstr_ok (case trailing of None \<Rightarrow> [] | Some x \<Rightarrow> x)"
    using assms(5) by (cases trailing) simp_all
  let ?p = "\<lparr>ps_state = STATE_CMD, ps_buf = [], ps_isspace = False, ps_prefix = [], ps_cmd = [], ps_params = []\<rparr>"
  show ?thesis
  proof (cases prefix)
    case None
    have "cstr_at ?s 0 \<noteq> 0x3A" using assms(2,3) None by (cases cmd) (auto simp: line_word_def)
    moreover obtain sp where "parse_loop ?s ?p = param_at [] (irc_strupper cmd)
        (middles @ (case trailing of None \<Rightarrow> [] | Some t \<Rightarrow> [t])) [] sp"
      using parse_loop_command [OF assms(2,4) t, of ?p] by auto
    ultimately show ?thesis using None
      by (simp add: parse_irc_line_def render_line_def Let_def param_at_def)
  next
    case (Some x)
    have x: "x \<noteq> []" "0x20 \<notin> set x" "cstr_ok x" "length x < IRC_MAX_LINE_SIZE"
      using assms(1) Some by (auto simp: line_word_def)
    let ?q = "?p\<lparr>ps_state := STATE_PREFIX\<rparr>"
    have "parse_loop (x @ 0x20 # ?s) ?q = parse_loop (0x20 # ?s) (?q\<lparr>ps_buf := x\<rparr>)"
      using x by (subst parse_loop_word) simp_all
    also have "\<dots> = parse_loop ?s (?p\<lparr>ps_prefix := x, ps_isspace := True\<rparr>)"
      unfolding parse_loop_space using x(1) by (simp add: COMMIT_BUFFER_def)
    finally have "parse_loop (x @ 0x20 # ?s) ?q = parse_loop ?s (?p\<lparr>ps_prefix := x, ps_isspace := True\<rparr>)" .
    moreover obtain sp where "parse_loop ?s (?p\<lparr>ps_prefix := x, ps_isspace := True\<rparr>) = param_at x (irc_strupper cmd)
        (middles @ (case trailing of None \<Rightarrow> [] | Some t \<Rightarrow> [t])) [] sp"
      using parse_loop_command [OF assms(2,4) t, of "?p\<lparr>ps_prefix := x, ps_isspace := True\<rparr>"] by auto
    ultimately show ?thesis using Some
      by (simp add: parse_irc_line_def render_line_def Let_def param_at_def)
  qed
qed

text \<open>C15: the parser undoes the grammar. For any prefix, command, middle parameters and trailing text
  of the protocol, with words that fit the token buffer of 509 characters, parsing the written line
  succeeds and returns the prefix, the command in upper case, and the parameters in order with the
  trailing text, spaces and all, as the last one.\<close>

theorem parse_irc_line_render:
  assumes "pred_option line_word prefix" and "line_word cmd" and "prefix = None \<Longrightarrow> hd cmd \<noteq> 0x3A"
    and "list_all middle_word middles" and "pred_option cstr_ok trailing"
  shows "parse_irc_line (render_line prefix cmd middles trailing) =
    (0, case prefix of None \<Rightarrow> [] | Some x \<Rightarrow> x, irc_strupper cmd,
     middles @ (case trailing of None \<Rightarrow> [] | Some t \<Rightarrow> [t]))"
  using assms by (rule parse_render)

lemma parse_irc_line_render_witness:
  "parse_irc_line (c_lit '':a!b@c privmsg #chan :hello world'') =
    (0, c_lit ''a!b@c'', c_lit ''PRIVMSG'', [c_lit ''#chan'', c_lit ''hello world''])"
proof -
  have "parse_irc_line (render_line (Some (c_lit ''a!b@c'')) (c_lit ''privmsg'') [c_lit ''#chan''] (Some (c_lit ''hello world''))) =
    (0, c_lit ''a!b@c'', irc_strupper (c_lit ''privmsg''), [c_lit ''#chan'', c_lit ''hello world''])"
    by (subst parse_irc_line_render)
      (simp_all add: line_word_def middle_word_def IRC_MAX_LINE_SIZE_def c_lit_def)
  moreover have "irc_strupper (c_lit ''privmsg'') = c_lit ''PRIVMSG''"
    by (simp add: irc_strupper_def irc_strupper_loop until_nul_def c_lit_def irc_toupper_unfold irc_unfold_def)
  ultimately show ?thesis by (simp add: render_line_def c_lit_def)
qed

end
