(* ===== verification/Irc.thy ===== *)
theory Irc
  imports Ircevent Ircparse "HOL-Library.Sublist" "HOL-Library.Multiset"
begin

text \<open>
  The IRC session, \<open>irc.h\<close> and \<open>irc.cpp\<close>: the class \<open>irc\<close> as a record, its operations as functions on
  it. What leaves the object is recorded in it: \<open>ir_sent\<close> holds the lines written to the socket without
  the send queue, \<open>ir_events\<close> the events passed to the event callback, in order. The locks of the two
  lists make each operation that holds them one step; \<open>main_loop\<close> (theory \<open>Ircloop\<close>) and the send thread
  (theory \<open>Ircsend\<close>) are sequences of such steps.

  The environment \<open>irc_env\<close> has the regular expressions and the character set conversion: \<open>en_convert\<close>
  is \<open>encconv::convert\<close> for a pair of encodings and the flag \<open>fail_on_invalid_seq\<close>, None for a
  conversion that fails.
\<close>

record irc_env =
  en_pcre :: "byte pcre"
  en_convert :: "byte list \<times> byte list \<Rightarrow> byte list \<Rightarrow> bool \<Rightarrow> byte list option"

record irc_sendq_data =
  sq_line :: "byte list"
  sq_priority :: int

record irc_srvinfo =
  si_uhnames_on :: bool
  si_namesx_on :: bool
  si_netname :: "byte list"
  si_chantypes :: "byte list"
  si_chanmodes :: "byte list"
  si_chanusermode_prefixes :: "byte list"
  si_chanusermodes :: "byte list"
  si_max_channels :: u64
  si_nicklen :: u64
  si_casemapping :: "byte list"
  si_charset :: "byte list"

type_synonym chanusers = "(byte list, irc_user) smap"

record irc =
  ir_status :: IRCSTATUS
  ir_port :: int
  ir_server :: "byte list"
  ir_nick :: "byte list"
  ir_username :: "byte list"
  ir_realname :: "byte list"
  ir_server_pass :: "byte list"
  ir_last_ping :: int
  ir_last_pong :: int
  ir_quit_on_timer :: int
  ir_chans :: "byte list list"
  ir_chan_users :: "(byte list, chanusers) smap"
  ir_srv_encoding :: "byte list"
  ir_conv_m2s :: "(byte list \<times> byte list) option"
  ir_conv_s2m :: "(byte list \<times> byte list) option"
  ir_send_queue :: "irc_sendq_data list"
  ir_send_thread_id :: bool
  ir_send_ready :: bool
  ir_sendq_added :: bool
  ir_srvinfo :: irc_srvinfo
  ir_preserve_eilseq_line :: bool
  ir_enable_flood_protection :: bool
  ir_pause_main_thread :: bool
  ir_sent :: "byte list list"
  ir_events :: "ircevent list"

subsection \<open>Events and the send queue\<close>

definition send_event :: "ircevent \<Rightarrow> irc \<Rightarrow> irc" where
  "send_event ev st = st\<lparr>ir_events := ir_events st @ [ev]\<rparr>"

definition add_to_send_queue :: "byte list \<Rightarrow> int \<Rightarrow> irc \<Rightarrow> int \<times> irc" where
  "add_to_send_queue line priority st =
    (if line = [] then (- 1, st)
     else if ir_enable_flood_protection st then
       (0, st\<lparr>ir_send_queue := ir_send_queue st @ [\<lparr>sq_line = line, sq_priority = priority\<rparr>],
              ir_sendq_added := True\<rparr>)
     else (0, st\<lparr>ir_sent := ir_sent st @ [until_nul line]\<rparr>))"

text \<open>The copying loop of \<open>quote\<close>: \<open>n\<close> is \<open>len\<close>, \<open>c\<close> the character read last, the end of the list the
  terminating NUL.\<close>

fun quote_copy :: "byte list \<Rightarrow> nat \<Rightarrow> byte \<Rightarrow> byte list \<Rightarrow> byte list \<times> byte" where
  "quote_copy [] n c dst = (if n < IRC_MAX_LINE_SIZE then (dst, 0) else (dst, c))"
| "quote_copy (x # src) n c dst =
    (if n < IRC_MAX_LINE_SIZE then
       (if x = 0 then (dst, 0)
        else if x = 0x0A \<or> x = 0x0D then quote_copy src n x dst
        else quote_copy src (Suc n) x (dst @ [x]))
     else (dst, c))"

text \<open>The text after the conversion; a failed conversion leaves the line as it was.\<close>

definition quote_text :: "irc_env \<Rightarrow> byte list \<Rightarrow> bool \<Rightarrow> irc \<Rightarrow> byte list" where
  "quote_text E line convert_enc st =
    (let orig_line = until_nul line
     in case ir_conv_m2s st of
          Some cv \<Rightarrow> if convert_enc then
              (case en_convert E cv orig_line False of Some l \<Rightarrow> l | None \<Rightarrow> orig_line)
            else orig_line
        | None \<Rightarrow> orig_line)"

definition quote :: "irc_env \<Rightarrow> byte list \<Rightarrow> int \<Rightarrow> bool \<Rightarrow> irc \<Rightarrow> int \<times> irc" where
  "quote E line priority convert_enc st =
    (if ir_status st = IRCSTATUS_DISCONNECTED then (- 1, st)
     else
       (let (dst, c) = quote_copy (quote_text E line convert_enc st) 0 0 [];
            st' = snd (add_to_send_queue (dst @ [0x0D, 0x0A]) priority st)
        in (if c \<noteq> 0 then - 1 else 0, st')))"

text \<open>Calls that ignore the result and use the default conversion.\<close>

definition quote_line :: "irc_env \<Rightarrow> byte list \<Rightarrow> int \<Rightarrow> irc \<Rightarrow> irc" where
  "quote_line E line priority st = snd (quote E line priority True st)"

subsection \<open>Channel list\<close>

definition chan_known :: "byte list \<Rightarrow> byte list list \<Rightarrow> bool" where
  "chan_known chan cs \<longleftrightarrow> list_ex (\<lambda>x. irc_strcasecmp_s x chan = 0) cs"

definition clear_chanuserlist :: "byte list \<Rightarrow> irc \<Rightarrow> irc" where
  "clear_chanuserlist chan st =
    st\<lparr>ir_chan_users := smap_set irc_string_less chan [] (ir_chan_users st)\<rparr>"

definition add_to_chanlist :: "byte list \<Rightarrow> irc \<Rightarrow> int \<times> irc" where
  "add_to_chanlist chan st =
    (if chan = [] then (- 1, st)
     else if chan_known chan (ir_chans st) then (- 1, st)
     else (0, clear_chanuserlist chan (st\<lparr>ir_chans := ir_chans st @ [chan]\<rparr>)))"

text \<open>Erasing the first channel that compares equal.\<close>

fun erase_chan :: "byte list \<Rightarrow> byte list list \<Rightarrow> byte list list option" where
  "erase_chan chan [] = None"
| "erase_chan chan (x # xs) =
    (if irc_strcasecmp_s x chan = 0 then Some xs else map_option ((#) x) (erase_chan chan xs))"

definition del_from_chanlist :: "byte list \<Rightarrow> irc \<Rightarrow> int \<times> irc" where
  "del_from_chanlist chan st =
    (if chan = [] then (- 1, st)
     else (case erase_chan chan (ir_chans st) of
         Some cs \<Rightarrow> (0, clear_chanuserlist chan (st\<lparr>ir_chans := cs\<rparr>))
       | None \<Rightarrow> (- 1, st)))"

text \<open>\<open>return -1\<close> in a function of type \<open>bool\<close> is true.\<close>

definition is_joined :: "byte list \<Rightarrow> irc \<Rightarrow> bool" where
  "is_joined chan st = (if chan = [] then True else chan_known chan (ir_chans st))"

subsection \<open>Channel user lists\<close>

text \<open>\<open>chan_users[chan]\<close> and \<open>users[nick]\<close> create a missing entry.\<close>

definition touch_chan :: "byte list \<Rightarrow> irc \<Rightarrow> irc" where
  "touch_chan chan st = st\<lparr>ir_chan_users := smap_insert irc_string_less chan [] (ir_chan_users st)\<rparr>"

definition users_of :: "byte list \<Rightarrow> irc \<Rightarrow> chanusers" where
  "users_of chan st = (case smap_find irc_string_less chan (ir_chan_users st) of Some us \<Rightarrow> us | None \<Rightarrow> [])"

definition set_users :: "byte list \<Rightarrow> chanusers \<Rightarrow> irc \<Rightarrow> irc" where
  "set_users chan us st = st\<lparr>ir_chan_users := smap_set irc_string_less chan us (ir_chan_users st)\<rparr>"

definition user_at :: "byte list \<Rightarrow> chanusers \<Rightarrow> irc_user" where
  "user_at nick us = (case smap_find irc_string_less nick us of Some u \<Rightarrow> u | None \<Rightarrow> irc_user_default)"

definition realnick_of :: "irc_env \<Rightarrow> byte list \<Rightarrow> byte list" where
  "realnick_of E nick = the (snd (snd (split_nick_usermode (en_pcre E) nick None (Some []))))"

definition add_to_chanuserlist :: "irc_env \<Rightarrow> byte list \<Rightarrow> byte list \<Rightarrow> byte list \<Rightarrow> irc \<Rightarrow> int \<times> irc" where
  "add_to_chanuserlist E chan nick ident st =
    (let st = touch_chan chan st; users = users_of chan st
     in if chan = [] \<or> nick = [] then (- 1, st)
     else
       (let realnick = realnick_of E nick;
            users = (if ident \<noteq> [] then
                smap_set irc_string_less realnick
                  (snd (irc_ident_set_ident (en_pcre E) ident (user_at realnick users))) users
              else users);
            users = smap_set irc_string_less realnick
                (snd (irc_user_set_nick (en_pcre E) nick (user_at realnick users))) users
        in (0, set_users chan users st)))"

definition refresh_chanuserlist :: "irc_env \<Rightarrow> byte list \<Rightarrow> irc \<Rightarrow> irc" where
  "refresh_chanuserlist E chan st =
    (if si_namesx_on (ir_srvinfo st) then quote_line E (c_lit ''NAMES '' @ chan) IRC_PRIORITY_ANORMAL st
     else quote_line E (c_lit ''WHO '' @ chan) IRC_PRIORITY_ANORMAL st)"

definition del_from_chanuserlist :: "irc_env \<Rightarrow> byte list \<Rightarrow> byte list \<Rightarrow> irc \<Rightarrow> int \<times> irc" where
  "del_from_chanuserlist E chan nick st =
    (let st = touch_chan chan st; users = users_of chan st
     in if chan = [] \<or> nick = [] then (- 1, st)
     else
       (let realnick = realnick_of E nick
        in if smap_find irc_string_less realnick users \<noteq> None then
             (0, set_users chan (smap_erase irc_string_less realnick users) st)
           else (- 1, refresh_chanuserlist E chan st)))"

definition re_extract_nick :: "byte list" where
  "re_extract_nick = c_lit ''^[~&@%+]*(.*)''"

definition is_user_joined :: "irc_env \<Rightarrow> byte list \<Rightarrow> byte list \<Rightarrow> irc \<Rightarrow> bool \<times> irc" where
  "is_user_joined E chan nick st =
    (if chan = [] \<or> nick = [] then (True, st)
     else
       (let st = touch_chan chan st;
            realnick = (case re_full (en_pcre E) re_extract_nick nick of Some gs \<Rightarrow> gs ! 0 | None \<Rightarrow> nick)
        in (smap_find irc_string_less realnick (users_of chan st) \<noteq> None, st)))"

primrec del_from_chans :: "irc_env \<Rightarrow> byte list list \<Rightarrow> byte list \<Rightarrow> irc \<Rightarrow> irc" where
  "del_from_chans E [] nick st = st"
| "del_from_chans E (chan # cs) nick st =
    (let (joined, st) = is_user_joined E chan nick st
     in del_from_chans E cs nick (if joined then snd (del_from_chanuserlist E chan nick st) else st))"

definition del_from_chanuserlist_all :: "irc_env \<Rightarrow> byte list \<Rightarrow> irc \<Rightarrow> irc" where
  "del_from_chanuserlist_all E nick st = del_from_chans E (ir_chans st) nick st"

definition get_user_data :: "byte list \<Rightarrow> byte list \<Rightarrow> irc \<Rightarrow> irc_user option \<times> irc" where
  "get_user_data chan nick st =
    (let st = touch_chan chan st; users = users_of chan st
     in if chan = [] \<or> nick = [] then (None, st) else (smap_find irc_string_less nick users, st))"

subsection \<open>The interface\<close>

definition irc_srvinfo_reset :: "irc_srvinfo \<Rightarrow> irc_srvinfo" where
  "irc_srvinfo_reset si =
    \<lparr>si_uhnames_on = False, si_namesx_on = False, si_netname = [], si_chantypes = [], si_chanmodes = [],
     si_chanusermode_prefixes = [], si_chanusermodes = [], si_max_channels = 20, si_nicklen = 31,
     si_casemapping = [], si_charset = []\<rparr>"

text \<open>The constructor. The members it leaves uninitialised get any values \<open>ping\<close>, \<open>pong\<close>, \<open>timer\<close> and \<open>si\<close>.\<close>

definition irc_new :: "int \<Rightarrow> int \<Rightarrow> int \<Rightarrow> irc_srvinfo \<Rightarrow> irc" where
  "irc_new ping pong timer si =
    \<lparr>ir_status = IRCSTATUS_DISCONNECTED, ir_port = 0, ir_server = [], ir_nick = [],
     ir_username = c_lit ''user'', ir_realname = c_lit ''user'', ir_server_pass = [],
     ir_last_ping = ping, ir_last_pong = pong, ir_quit_on_timer = timer,
     ir_chans = [], ir_chan_users = [], ir_srv_encoding = [], ir_conv_m2s = None, ir_conv_s2m = None,
     ir_send_queue = [], ir_send_thread_id = False, ir_send_ready = False, ir_sendq_added = False,
     ir_srvinfo = si, ir_preserve_eilseq_line = False, ir_enable_flood_protection = True,
     ir_pause_main_thread = False, ir_sent = [], ir_events = []\<rparr>"

text \<open>\<open>ret\<close> is the result of \<open>pthread_create\<close>. On success the function waits until the new thread has
  set \<open>send_ready\<close>.\<close>

definition create_send_thread :: "int \<Rightarrow> irc \<Rightarrow> int \<times> irc" where
  "create_send_thread ret st =
    (let st = st\<lparr>ir_send_queue := [], ir_sendq_added := False\<rparr>
     in if ret < 0 then (- 1, st\<lparr>ir_send_thread_id := False\<rparr>)
        else (0, st\<lparr>ir_send_thread_id := True, ir_send_ready := True\<rparr>))"

definition kill_send_thread :: "irc \<Rightarrow> int \<times> irc" where
  "kill_send_thread st =
    (if \<not> ir_send_thread_id st then (- 1, st)
     else (0, st\<lparr>ir_send_ready := False, ir_send_thread_id := False, ir_send_queue := [],
                 ir_sendq_added := False\<rparr>))"

text \<open>\<open>sret\<close> is the result of connecting the socket, \<open>pret\<close> that of creating the send thread.\<close>

definition irc_connect :: "byte list \<Rightarrow> int \<Rightarrow> int \<Rightarrow> int \<Rightarrow> irc \<Rightarrow> int \<times> irc" where
  "irc_connect server port sret pret st =
    (if ir_status st \<noteq> IRCSTATUS_DISCONNECTED then (- 1, st)
     else
       (let st = st\<lparr>ir_status := IRCSTATUS_CONNECTING, ir_quit_on_timer := 0\<rparr>
        in if sret < 0 then (- 1, st\<lparr>ir_status := IRCSTATUS_DISCONNECTED\<rparr>)
        else
          (let st = st\<lparr>ir_chans := [], ir_chan_users := [], ir_server := server, ir_port := port,
                       ir_srvinfo := irc_srvinfo_reset (ir_srvinfo st)\<rparr>;
               st = snd (create_send_thread pret st)
           in (0, send_event Ircevent_connected st))))"

definition irc_disconnect :: "irc \<Rightarrow> int \<times> irc" where
  "irc_disconnect st =
    (let st = snd (kill_send_thread st);
         st = (if ir_status st = IRCSTATUS_CONNECTED \<or> ir_status st = IRCSTATUS_CONNECTING
               then send_event Ircevent_disconnected st else st)
     in (0, st\<lparr>ir_status := IRCSTATUS_DISCONNECTED\<rparr>))"

definition change_nick :: "irc_env \<Rightarrow> byte list \<Rightarrow> irc \<Rightarrow> int \<times> irc" where
  "change_nick E nick st =
    (if ir_status st \<noteq> IRCSTATUS_CONNECTED then (1, st\<lparr>ir_nick := nick\<rparr>)
     else (0, quote_line E (c_lit ''NICK '' @ nick) IRC_PRIORITY_ANORMAL st))"

definition join_channel :: "irc_env \<Rightarrow> byte list \<Rightarrow> irc \<Rightarrow> int \<times> irc" where
  "join_channel E channel st =
    (if ir_status st \<noteq> IRCSTATUS_CONNECTED then (- 1, st)
     else (0, quote_line E (c_lit ''JOIN '' @ channel) IRC_PRIORITY_ANORMAL st))"

definition leave_channel :: "irc_env \<Rightarrow> byte list \<Rightarrow> byte list \<Rightarrow> irc \<Rightarrow> int \<times> irc" where
  "leave_channel E channel reason st =
    (if ir_status st \<noteq> IRCSTATUS_CONNECTED then (- 1, st)
     else if \<not> is_joined channel st then (- 2, st)
     else (0, quote_line E (if reason = [] then c_lit ''PART '' @ channel
                        else c_lit ''PART '' @ channel @ c_lit '' :'' @ reason) IRC_PRIORITY_ANORMAL st))"

definition irc_quit :: "irc_env \<Rightarrow> int \<Rightarrow> byte list \<Rightarrow> irc \<Rightarrow> int \<times> irc" where
  "irc_quit E now quitmsg st =
    (if ir_status st = IRCSTATUS_DISCONNECTED then (- 1, st)
     else
       (let st = st\<lparr>ir_quit_on_timer := now\<rparr>
        in (0, quote_line E (if quitmsg = [] then c_lit ''QUIT'' else c_lit ''QUIT :'' @ quitmsg) IRC_PRIORITY_MAX st)))"

text \<open>The line that a message is sent as; None for a message type that cannot be sent.\<close>

definition privmsg_line :: "irc_msgtype \<Rightarrow> byte list \<Rightarrow> byte list \<Rightarrow> byte list option" where
  "privmsg_line msgtype chan msg =
    (case msgtype of
       IRC_MSGTYPE_NORMAL \<Rightarrow> Some (c_lit ''PRIVMSG '' @ chan @ c_lit '' :'' @ msg)
     | IRC_MSGTYPE_NOTICE \<Rightarrow> Some (c_lit ''NOTICE '' @ chan @ c_lit '' :'' @ msg)
     | IRC_MSGTYPE_ACTION \<Rightarrow> Some (c_lit ''PRIVMSG '' @ chan @ c_lit '' :'' @ [1] @ c_lit ''ACTION '' @ msg @ [1])
     | IRC_MSGTYPE_CTCP \<Rightarrow> Some (c_lit ''PRIVMSG '' @ chan @ c_lit '' :'' @ [1] @ msg @ [1])
     | IRC_MSGTYPE_CTCPREPLY \<Rightarrow> Some (c_lit ''NOTICE '' @ chan @ c_lit '' :'' @ [1] @ msg @ [1])
     | _ \<Rightarrow> None)"

definition privmsg :: "irc_env \<Rightarrow> irc_msginfo \<Rightarrow> byte list \<Rightarrow> irc \<Rightarrow> int \<times> irc" where
  "privmsg E dest msg st =
    (if ir_status st \<noteq> IRCSTATUS_CONNECTED then (- 1, st)
     else if msg \<noteq> [] \<and> mi_chantype dest \<noteq> IRC_CHANTYPE_DCC then
       (case privmsg_line (mi_msgtype dest) (until_nul (mi_chan dest)) (until_nul msg) of
          Some line \<Rightarrow> (0, snd (quote E line (mi_priority dest) (\<not> mi_line_converted dest) st))
        | None \<Rightarrow> (- 2, st))
     else (0, st))"

text \<open>The assertion on the status is a fault.\<close>

definition login_to_server :: "irc_env \<Rightarrow> irc \<Rightarrow> c_fault + irc" where
  "login_to_server E st =
    (if ir_status st \<noteq> IRCSTATUS_CONNECTING then Inl Assert_failed
     else
       (let st = (if ir_server_pass st \<noteq> [] then
              quote_line E (c_lit ''PASS :'' @ ir_server_pass st) IRC_PRIORITY_ANORMAL st else st);
            st = quote_line E (c_lit ''NICK '' @ ir_nick st) IRC_PRIORITY_ANORMAL st
        in Inr (quote_line E (c_lit ''USER '' @ ir_username st @ c_lit '' 8 * :'' @ ir_realname st)
             IRC_PRIORITY_ANORMAL st)))"

definition re_enc_opts :: "byte list" where
  "re_enc_opts = c_lit ''^(.*)//(IGNORE|TRANSLIT)$''"

text \<open>The two converters are opened with these encodings; \<open>new\<close> gives no null pointers.\<close>

definition set_encoding :: "irc_env \<Rightarrow> byte list \<Rightarrow> irc \<Rightarrow> int \<times> irc" where
  "set_encoding E enc st =
    (let st = st\<lparr>ir_conv_m2s := None, ir_conv_s2m := None, ir_srv_encoding := enc\<rparr>
     in if enc \<noteq> [] then
       (case re_full (en_pcre E) re_enc_opts enc of
          Some gs \<Rightarrow> (0, st\<lparr>ir_conv_m2s := Some (c_lit ''utf-8//TRANSLIT'', gs ! 0),
                            ir_conv_s2m := Some (enc, c_lit ''utf-8'')\<rparr>)
        | None \<Rightarrow> (0, st\<lparr>ir_conv_m2s := Some (c_lit ''utf-8'', enc), ir_conv_s2m := Some (enc, c_lit ''utf-8'')\<rparr>))
     else (0, st))"

text \<open>The destructor's part that leaves the object.\<close>

definition irc_destroy :: "irc_env \<Rightarrow> int \<Rightarrow> irc \<Rightarrow> irc" where
  "irc_destroy E now st =
    (let st = (if ir_status st = IRCSTATUS_CONNECTED \<or> ir_status st = IRCSTATUS_CONNECTING
               then snd (irc_disconnect (snd (irc_quit E now [] st))) else st)
     in st\<lparr>ir_conv_m2s := None, ir_conv_s2m := None\<rparr>)"

subsection \<open>Lines for the server\<close>

text \<open>What may be written to the socket: one line of at most 510 bytes and its terminator.\<close>

definition wire_line :: "byte list \<Rightarrow> bool" where
  "wire_line l \<longleftrightarrow> (\<exists>p. l = p @ [0x0D, 0x0A] \<and> length p \<le> IRC_MAX_LINE_SIZE \<and>
    0 \<notin> set p \<and> 0x0A \<notin> set p \<and> 0x0D \<notin> set p)"

definition one_line :: "byte list \<Rightarrow> byte list" where
  "one_line s = filter (\<lambda>c. c \<noteq> 0x0A \<and> c \<noteq> 0x0D) (until_nul s)"

lemma one_line_clean: "0 \<notin> set (one_line s)" "0x0A \<notin> set (one_line s)" "0x0D \<notin> set (one_line s)"
  using until_nul_cstr_ok [of s] by (auto simp: one_line_def cstr_ok_def)

lemma one_line_id:
  assumes "cstr_ok s" and "0x0A \<notin> set s" and "0x0D \<notin> set s"
  shows "one_line s = s"
proof -
  have "\<forall>c \<in> set s. c \<noteq> 0x0A \<and> c \<noteq> 0x0D" using assms(2,3) by blast
  then show ?thesis unfolding one_line_def until_nul_id [OF assms(1)] by (rule filter_True)
qed

lemma one_line_Cons:
  "one_line (x # s) = (if x = 0 then [] else if x = 0x0A \<or> x = 0x0D then one_line s else x # one_line s)"
proof (cases "x = 0")
  case False
  then have "until_nul (x # s) = x # until_nul s" by (simp add: until_nul_def)
  then show ?thesis using False by (simp only: one_line_def filter.simps if_False) auto
qed (simp add: one_line_def until_nul_def)

lemma one_line_Nil [simp]: "one_line [] = []"
  by (simp add: one_line_def until_nul_def)

lemma quote_copy_line:
  assumes "n \<le> IRC_MAX_LINE_SIZE" and "n = IRC_MAX_LINE_SIZE \<Longrightarrow> c \<noteq> 0"
  shows "fst (quote_copy s n c dst) = dst @ take (IRC_MAX_LINE_SIZE - n) (one_line s) \<and>
    (snd (quote_copy s n c dst) = 0 \<longleftrightarrow> n + length (one_line s) < IRC_MAX_LINE_SIZE)"
  using assms
proof (induction s n c dst rule: quote_copy.induct)
  case (2 x src n c dst)
  show ?case
  proof (cases "n < IRC_MAX_LINE_SIZE \<and> x \<noteq> 0 \<and> x \<noteq> 0x0A \<and> x \<noteq> 0x0D")
    case True
    then have d: "IRC_MAX_LINE_SIZE - n = Suc (IRC_MAX_LINE_SIZE - Suc n)" by arith
    show ?thesis using True 2(2) d by (simp add: one_line_Cons)
  next
    case False
    then show ?thesis using 2 by (auto simp: one_line_Cons)
  qed
qed auto

lemma wire_line_take: "wire_line (take IRC_MAX_LINE_SIZE (one_line s) @ [0x0D, 0x0A])"
  using one_line_clean [of s] unfolding wire_line_def
  by (intro exI [of _ "take IRC_MAX_LINE_SIZE (one_line s)"]) (auto dest: in_set_takeD)

lemma wire_line_cstr: "wire_line l \<Longrightarrow> until_nul l = l"
  by (rule until_nul_id) (auto simp: wire_line_def cstr_ok_def)

lemma quote_connected:
  assumes "ir_status st \<noteq> IRCSTATUS_DISCONNECTED"
  shows "quote E line pri cv st =
    (let t = one_line (quote_text E line cv st); l = take IRC_MAX_LINE_SIZE t @ [0x0D, 0x0A]
     in (if length t < IRC_MAX_LINE_SIZE then 0 else - 1,
         if ir_enable_flood_protection st
         then st\<lparr>ir_send_queue := ir_send_queue st @ [\<lparr>sq_line = l, sq_priority = pri\<rparr>], ir_sendq_added := True\<rparr>
         else st\<lparr>ir_sent := ir_sent st @ [l]\<rparr>))"
proof -
  let ?t = "one_line (quote_text E line cv st)"
  obtain dst c where q: "quote_copy (quote_text E line cv st) 0 0 [] = (dst, c)" by force
  have "dst = take IRC_MAX_LINE_SIZE ?t" and "c = 0 \<longleftrightarrow> length ?t < IRC_MAX_LINE_SIZE"
    using quote_copy_line [of 0 0 "quote_text E line cv st" "[]"] by (simp_all add: q IRC_MAX_LINE_SIZE_def)
  then show ?thesis
    using assms wire_line_cstr [OF wire_line_take, of "quote_text E line cv st"]
    by (simp add: quote_def q Let_def add_to_send_queue_def)
qed

text \<open>C10: whatever text \<open>quote\<close> is given, exactly one line leaves it: the text up to the first NUL, without
  its carriage returns and newlines, cut to 510 bytes and terminated by CR LF, is appended to the send
  queue (or written to the socket without flood protection). No text smuggles a second command into the
  session. The result is 0 exactly when the text has fewer than 510 bytes: a text of exactly 510 bytes
  is sent whole but reported as too long.\<close>

theorem quote_one_line:
  assumes "ir_status st \<noteq> IRCSTATUS_DISCONNECTED" and "quote E line pri cv st = (ret, st')"
  shows "\<exists>l. wire_line l \<and> l = take IRC_MAX_LINE_SIZE (one_line (quote_text E line cv st)) @ [0x0D, 0x0A] \<and>
    (if ir_enable_flood_protection st
     then ir_send_queue st' = ir_send_queue st @ [\<lparr>sq_line = l, sq_priority = pri\<rparr>] \<and> ir_sent st' = ir_sent st
     else ir_sent st' = ir_sent st @ [l] \<and> ir_send_queue st' = ir_send_queue st) \<and>
    (ret = 0 \<longleftrightarrow> length (one_line (quote_text E line cv st)) < IRC_MAX_LINE_SIZE)"
  using assms(2) wire_line_take [of "quote_text E line cv st"]
  unfolding quote_connected [OF assms(1)] Let_def by (auto split: if_splits)

definition env_witness :: irc_env where
  "env_witness = \<lparr>en_pcre = irc_pcre_instance, en_convert = (\<lambda>cv s b. Some s)\<rparr>"

lemma quote_one_line_witness:
  "\<exists>l. wire_line l \<and> ir_send_queue (snd (quote env_witness (c_lit ''PRIVMSG #a :x'') 1 True
      ((irc_new 0 0 0 undefined)\<lparr>ir_status := IRCSTATUS_CONNECTED\<rparr>))) = [\<lparr>sq_line = l, sq_priority = 1\<rparr>]"
proof -
  let ?st = "(irc_new 0 0 0 undefined)\<lparr>ir_status := IRCSTATUS_CONNECTED\<rparr>"
  have s: "ir_status ?st \<noteq> IRCSTATUS_DISCONNECTED" by simp
  show ?thesis
    using quote_one_line [OF s prod.collapse [symmetric], where E = env_witness and line = "c_lit ''PRIVMSG #a :x''"
        and pri = 1 and cv = True]
    by (auto simp: irc_new_def)
qed

subsection \<open>The invariant of a session\<close>

lemma smap_set_vals: "snd ` set (smap_set lt k v m) \<subseteq> insert v (snd ` set m)"
  by (induction lt k v m rule: smap_set.induct) auto

lemma smap_find_val: "smap_find lt k m = Some v \<Longrightarrow> v \<in> snd ` set m"
  by (induction lt k m rule: smap_find.induct) (auto split: if_splits)

definition users_ok :: "(byte list, chanusers) smap \<Rightarrow> bool" where
  "users_ok m \<longleftrightarrow> smap_ok irc_string_less m \<and> (\<forall>us \<in> snd ` set m. smap_ok irc_string_less us)"

definition chans_ok :: "byte list list \<Rightarrow> bool" where
  "chans_ok cs \<longleftrightarrow> [] \<notin> set cs \<and> distinct (map irc_strlower cs)"

definition sendq_ok :: "irc \<Rightarrow> bool" where
  "sendq_ok st \<longleftrightarrow> (\<forall>q \<in> set (ir_send_queue st). wire_line (sq_line q)) \<and> (\<forall>l \<in> set (ir_sent st). wire_line l) \<and>
    (ir_status st = IRCSTATUS_DISCONNECTED \<longrightarrow> ir_send_queue st = []) \<and>
    (ir_send_thread_id st \<longleftrightarrow> ir_status st \<noteq> IRCSTATUS_DISCONNECTED) \<and> ir_status st \<noteq> IRCSTATUS_END"

definition irc_inv :: "irc \<Rightarrow> bool" where
  "irc_inv st \<longleftrightarrow> users_ok (ir_chan_users st) \<and> chans_ok (ir_chans st) \<and> sendq_ok st"

lemma users_ok_set: "users_ok m \<Longrightarrow> smap_ok irc_string_less us \<Longrightarrow> users_ok (smap_set irc_string_less chan us m)"
  using smap_set_vals [of irc_string_less chan us m] irc_map.set_ok [of m chan us]
  unfolding users_ok_def by blast

lemma users_ok_insert: "users_ok m \<Longrightarrow> users_ok (smap_insert irc_string_less chan [] m)"
  by (simp add: smap_insert_def users_ok_set)

lemma users_of_ok: "users_ok (ir_chan_users st) \<Longrightarrow> smap_ok irc_string_less (users_of chan st)"
  using smap_find_val [of irc_string_less chan "ir_chan_users st"]
  by (auto simp: users_of_def users_ok_def split: option.split)

text \<open>Operations that only change the user lists, or only the queue, keep the rest.\<close>

lemma inv_touch [intro]: "irc_inv st \<Longrightarrow> irc_inv (touch_chan chan st)"
  by (simp add: irc_inv_def touch_chan_def users_ok_insert sendq_ok_def)

lemma inv_set_users [intro]: "irc_inv st \<Longrightarrow> smap_ok irc_string_less us \<Longrightarrow> irc_inv (set_users chan us st)"
  by (simp add: irc_inv_def set_users_def users_ok_set sendq_ok_def)

lemma inv_clear [intro]: "irc_inv st \<Longrightarrow> irc_inv (clear_chanuserlist chan st)"
  by (simp add: irc_inv_def clear_chanuserlist_def users_ok_set sendq_ok_def)

lemma inv_event [intro]: "irc_inv st \<Longrightarrow> irc_inv (send_event ev st)"
  by (simp add: irc_inv_def send_event_def sendq_ok_def)

lemma inv_users_of [intro]: "irc_inv st \<Longrightarrow> smap_ok irc_string_less (users_of chan st)"
  by (simp add: irc_inv_def users_of_ok)

lemma inv_quote [intro]: "irc_inv st \<Longrightarrow> irc_inv (snd (quote E line pri cv st))"
proof (cases "ir_status st = IRCSTATUS_DISCONNECTED")
  case False
  then show "irc_inv st \<Longrightarrow> irc_inv (snd (quote E line pri cv st))"
    using wire_line_take [of "quote_text E line cv st"]
    by (auto simp: quote_connected irc_inv_def sendq_ok_def Let_def)
qed (simp add: quote_def)

lemma inv_quote_line [intro]: "irc_inv st \<Longrightarrow> irc_inv (quote_line E line pri st)"
  unfolding quote_line_def by (rule inv_quote)

lemma inv_refresh [intro]: "irc_inv st \<Longrightarrow> irc_inv (refresh_chanuserlist E chan st)"
  by (simp add: refresh_chanuserlist_def inv_quote_line)

lemma inv_add_user [intro]: "irc_inv st \<Longrightarrow> irc_inv (snd (add_to_chanuserlist E chan nick ident st))"
  by (auto simp: add_to_chanuserlist_def Let_def intro!: inv_set_users inv_touch irc_map.set_ok inv_users_of)

lemma inv_del_user [intro]: "irc_inv st \<Longrightarrow> irc_inv (snd (del_from_chanuserlist E chan nick st))"
  by (auto simp: del_from_chanuserlist_def Let_def intro!: inv_set_users inv_touch irc_map.erase_ok inv_users_of inv_refresh)

lemma inv_is_user_joined [intro]: "irc_inv st \<Longrightarrow> irc_inv (snd (is_user_joined E chan nick st))"
  by (auto simp: is_user_joined_def Let_def)

lemma inv_get_user_data [intro]: "irc_inv st \<Longrightarrow> irc_inv (snd (get_user_data chan nick st))"
  by (auto simp: get_user_data_def Let_def)

lemma inv_del_from_chans [intro]: "irc_inv st \<Longrightarrow> irc_inv (del_from_chans E cs nick st)"
proof (induction cs arbitrary: st)
  case (Cons c cs)
  obtain j st' where j: "is_user_joined E c nick st = (j, st')" by force
  have "irc_inv st'" using inv_is_user_joined [OF Cons.prems, of E c nick] by (simp add: j)
  then have "irc_inv (if j then snd (del_from_chanuserlist E c nick st') else st')"
    by (simp add: inv_del_user)
  then show ?case by (simp add: j Cons.IH)
qed simp

lemma strcasecmp_s_zero: "irc_strcasecmp_s s t = 0 \<longleftrightarrow> irc_strlower s = irc_strlower t"
  by (simp add: irc_strcasecmp_s_def irc_cmp_zero irc_strlower_eq)

lemma chan_known_iff: "chan_known chan cs \<longleftrightarrow> irc_strlower chan \<in> irc_strlower ` set cs"
  unfolding chan_known_def list_ex_iff strcasecmp_s_zero image_iff by metis

lemma erase_chan_some:
  "erase_chan chan cs = Some cs' \<Longrightarrow> \<exists>x. irc_strlower x = irc_strlower chan \<and> mset cs = add_mset x (mset cs') \<and> subseq cs' cs"
proof (induction cs arbitrary: cs')
  case (Cons y ys)
  show ?case
  proof (cases "irc_strcasecmp_s y chan = 0")
    case True
    then show ?thesis using Cons.prems
      by (auto simp: strcasecmp_s_zero intro!: exI [of _ y])
  next
    case False
    then obtain zs where z: "erase_chan chan ys = Some zs" "cs' = y # zs" using Cons.prems by auto
    show ?thesis using Cons.IH [OF z(1)] z(2) by auto
  qed
qed simp

subsection \<open>The lists as maps on folded names\<close>

definition same_name :: "byte list \<Rightarrow> byte list \<Rightarrow> bool" where
  "same_name s t \<longleftrightarrow> irc_strlower s = irc_strlower t"

lemma find_set_name:
  "smap_ok irc_string_less m \<Longrightarrow> smap_find irc_string_less k' (smap_set irc_string_less k v m) =
    (if same_name k k' then Some v else smap_find irc_string_less k' m)"
  using irc_map.find_set [of m k' k v] irc_string_equiv [of k k'] by (auto simp: same_name_def)

lemma find_erase_name:
  "smap_ok irc_string_less m \<Longrightarrow> smap_find irc_string_less k' (smap_erase irc_string_less k m) =
    (if same_name k k' then None else smap_find irc_string_less k' m)"
  using irc_map.find_erase [of m k' k] irc_string_equiv [of k k'] by (auto simp: same_name_def)

lemma find_insert_name:
  "smap_ok irc_string_less m \<Longrightarrow> smap_find irc_string_less k' (smap_insert irc_string_less k v m) =
    (if same_name k k' \<and> smap_find irc_string_less k m = None then Some v else smap_find irc_string_less k' m)"
  by (auto simp: smap_insert_def find_set_name)

lemma find_same_name: "same_name k k' \<Longrightarrow> smap_find irc_string_less k m = smap_find irc_string_less k' m"
  using irc_map.find_same [of k k'] irc_string_equiv [of k k'] by (simp add: same_name_def)

lemma irc_inv_users: "irc_inv st \<Longrightarrow> smap_ok irc_string_less (ir_chan_users st)"
  by (simp add: irc_inv_def users_ok_def)

lemma users_of_touch [simp]: "irc_inv st \<Longrightarrow> users_of c (touch_chan chan st) = users_of c st"
  using find_same_name [of chan c "ir_chan_users st"]
  by (auto simp: users_of_def touch_chan_def find_insert_name irc_inv_users split: option.splits)

lemma users_of_set [simp]:
  "irc_inv st \<Longrightarrow> users_of c (set_users chan us st) = (if same_name chan c then us else users_of c st)"
  by (simp add: users_of_def set_users_def find_set_name irc_inv_users)

lemma users_of_clear [simp]:
  "irc_inv st \<Longrightarrow> users_of c (clear_chanuserlist chan st) = (if same_name chan c then [] else users_of c st)"
  by (simp add: users_of_def clear_chanuserlist_def find_set_name irc_inv_users)

lemma users_of_cong: "ir_chan_users st = ir_chan_users st' \<Longrightarrow> users_of c st = users_of c st'"
  by (simp add: users_of_def)

lemma quote_disconnected: "ir_status st = IRCSTATUS_DISCONNECTED \<Longrightarrow> snd (quote E line pri cv st) = st"
  by (simp add: quote_def)

lemma quote_frame:
  "snd (quote E line pri cv st) = st \<or>
   (\<exists>q. snd (quote E line pri cv st) = st\<lparr>ir_send_queue := q, ir_sendq_added := True\<rparr>) \<or>
   (\<exists>l. snd (quote E line pri cv st) = st\<lparr>ir_sent := l\<rparr>)"
proof (cases "ir_status st = IRCSTATUS_DISCONNECTED")
  case False
  show ?thesis
  proof (cases "ir_enable_flood_protection st")
    case True
    have "snd (quote E line pri cv st) = st\<lparr>ir_send_queue := ir_send_queue st @
        [\<lparr>sq_line = take IRC_MAX_LINE_SIZE (one_line (quote_text E line cv st)) @ [0x0D, 0x0A], sq_priority = pri\<rparr>],
        ir_sendq_added := True\<rparr>"
      by (simp only: quote_connected [OF False] Let_def True if_True snd_conv)
    then show ?thesis by blast
  next
    case f: False
    have "snd (quote E line pri cv st) = st\<lparr>ir_sent := ir_sent st @
        [take IRC_MAX_LINE_SIZE (one_line (quote_text E line cv st)) @ [0x0D, 0x0A]]\<rparr>"
      by (simp only: quote_connected [OF False] Let_def f if_False snd_conv)
    then show ?thesis by blast
  qed
qed (rule disjI1, rule quote_disconnected)

lemma quote_users [simp]: "ir_chan_users (snd (quote E line pri cv st)) = ir_chan_users st"
  "ir_chans (snd (quote E line pri cv st)) = ir_chans st"
  "ir_events (snd (quote E line pri cv st)) = ir_events st"
  "ir_status (snd (quote E line pri cv st)) = ir_status st"
  "ir_nick (snd (quote E line pri cv st)) = ir_nick st"
  using quote_frame [of E line pri cv st] by auto

lemma quote_line_users [simp]: "ir_chan_users (quote_line E line pri st) = ir_chan_users st"
  "ir_chans (quote_line E line pri st) = ir_chans st"
  "ir_events (quote_line E line pri st) = ir_events st"
  "ir_status (quote_line E line pri st) = ir_status st"
  "ir_nick (quote_line E line pri st) = ir_nick st"
  by (simp_all add: quote_line_def)

lemma refresh_users [simp]: "ir_chan_users (refresh_chanuserlist E c st) = ir_chan_users st"
  "ir_chans (refresh_chanuserlist E c st) = ir_chans st"
  "ir_events (refresh_chanuserlist E c st) = ir_events st"
  "ir_status (refresh_chanuserlist E c st) = ir_status st"
  "ir_nick (refresh_chanuserlist E c st) = ir_nick st"
  by (simp_all add: refresh_chanuserlist_def)

text \<open>The user of a nick on a channel, as the interface sees it.\<close>

definition chan_user :: "byte list \<Rightarrow> byte list \<Rightarrow> irc \<Rightarrow> irc_user option" where
  "chan_user chan nick st = smap_find irc_string_less nick (users_of chan st)"

lemma chan_user_quote [simp]: "chan_user c n (snd (quote E line pri cv st)) = chan_user c n st"
  "chan_user c n (quote_line E line pri st) = chan_user c n st"
  "chan_user c n (refresh_chanuserlist E c' st) = chan_user c n st"
  by (simp_all add: chan_user_def users_of_def)

lemma chan_user_touch [simp]: "irc_inv st \<Longrightarrow> chan_user c n (touch_chan chan st) = chan_user c n st"
  by (simp add: chan_user_def)

lemma realnick_strip:
  "irc_pcre (en_pcre E) \<Longrightarrow> 0x0A \<notin> set nick \<Longrightarrow> realnick_of E nick = dropWhile modechar nick"
  by (auto simp: realnick_of_def split_nick_only dest: set_dropWhileD)

lemma set_nick_strip:
  "irc_pcre R \<Longrightarrow> 0x0A \<notin> set nick \<Longrightarrow> snd (irc_user_set_nick R nick u) =
    u\<lparr>iu_chanmode := takeWhile modechar nick, ii_nick := dropWhile modechar nick\<rparr>"
  by (subst irc_user_set_nick_split) (auto dest: set_dropWhileD)

lemma chan_same: "irc_inv st \<Longrightarrow> same_name chan c \<Longrightarrow> users_of chan st = users_of c st"
  using find_same_name [of chan c "ir_chan_users st"] by (simp add: users_of_def)

lemma add_user_lookup:
  assumes "irc_pcre (en_pcre E)" and "irc_inv st" and "chan \<noteq> []" "nick \<noteq> []" "0x0A \<notin> set nick"
  defines "real \<equiv> dropWhile modechar nick"
  shows "chan_user c n (snd (add_to_chanuserlist E chan nick ident st)) =
      (if same_name chan c \<and> same_name real n
       then (let u = (case chan_user chan real st of Some u \<Rightarrow> u | None \<Rightarrow> irc_user_default);
                 u = (if ident = [] then u else snd (irc_ident_set_ident (en_pcre E) ident u))
             in Some (u\<lparr>iu_chanmode := takeWhile modechar nick, ii_nick := real\<rparr>))
       else chan_user c n st)"
proof -
  note inv = assms(2)
  have us: "smap_ok irc_string_less (users_of chan st)" using inv by (rule inv_users_of)
  have r: "realnick_of E nick = real" unfolding real_def by (rule realnick_strip [OF assms(1,5)])
  show ?thesis
    using chan_same [OF inv, of chan c] inv inv_touch [OF inv, of chan] us irc_map.set_ok [OF us] set_nick_strip [OF assms(1,5)]
    by (auto simp: add_to_chanuserlist_def Let_def assms(3,4) r chan_user_def find_set_name user_at_def
        same_name_def real_def split: option.split)
qed

lemma del_user_lookup:
  assumes "irc_pcre (en_pcre E)" and "irc_inv st" and "chan \<noteq> []" "nick \<noteq> []" "0x0A \<notin> set nick"
  defines "real \<equiv> dropWhile modechar nick"
  shows "chan_user c n (snd (del_from_chanuserlist E chan nick st)) =
      (if same_name chan c \<and> same_name real n then None else chan_user c n st)"
    and "fst (del_from_chanuserlist E chan nick st) = 0 \<longleftrightarrow> chan_user chan real st \<noteq> None"
proof -
  note inv = assms(2)
  have us: "smap_ok irc_string_less (users_of chan st)" using inv by (rule inv_users_of)
  have r: "realnick_of E nick = real" unfolding real_def by (rule realnick_strip [OF assms(1,5)])
  show "chan_user c n (snd (del_from_chanuserlist E chan nick st)) =
      (if same_name chan c \<and> same_name real n then None else chan_user c n st)"
    using chan_same [OF inv, of chan c] inv inv_touch [OF inv, of chan] us find_same_name [of real n "users_of c st"]
    by (auto simp: del_from_chanuserlist_def Let_def assms(3,4) r chan_user_def find_erase_name users_of_cong [OF refresh_users(1)])
  show "fst (del_from_chanuserlist E chan nick st) = 0 \<longleftrightarrow> chan_user chan real st \<noteq> None"
    using inv by (simp add: del_from_chanuserlist_def Let_def assms(3,4) r chan_user_def)
qed


text \<open>A session in the middle of its life, for the witnesses.\<close>

definition session_witness :: irc where
  "session_witness = (irc_new 0 0 0 (irc_srvinfo_reset undefined))
    \<lparr>ir_status := IRCSTATUS_CONNECTED, ir_send_thread_id := True, ir_send_ready := True, ir_nick := c_lit ''bot''\<rparr>"

lemma session_witness_inv: "irc_inv session_witness"
  by (simp add: session_witness_def irc_new_def irc_inv_def users_ok_def chans_ok_def sendq_ok_def)

lemma env_witness_pcre: "irc_pcre (en_pcre env_witness)"
  by (simp add: env_witness_def irc_pcre_instance)


lemma chans_ok_names:
  assumes "chans_ok cs" and "erase_chan chan cs = Some cs'"
  shows "chans_ok cs' \<and> (chan_known c cs' \<longleftrightarrow> chan_known c cs \<and> \<not> same_name chan c)"
proof -
  from erase_chan_some [OF assms(2)] obtain x where x: "irc_strlower x = irc_strlower chan"
    "mset cs = add_mset x (mset cs')" "subseq cs' cs" by blast
  have m: "image_mset irc_strlower (mset cs) = add_mset (irc_strlower x) (image_mset irc_strlower (mset cs'))"
    using x(2) by simp
  have d: "distinct (map irc_strlower cs)" using assms(1) by (simp add: chans_ok_def)
  have "mset (map irc_strlower cs) = mset (irc_strlower x # map irc_strlower cs')" using m by simp
  then have d': "distinct (irc_strlower x # map irc_strlower cs')"
    using d mset_eq_imp_distinct_iff by blast
  have s: "set cs = insert x (set cs')" using x(2) by (metis set_mset_add_mset_insert set_mset_mset)
  show ?thesis using assms(1) d' s x(1)
    by (auto simp: chans_ok_def chan_known_iff same_name_def)
qed

lemma erase_chan_none: "erase_chan chan cs = None \<longleftrightarrow> \<not> chan_known chan cs"
  by (induction cs) (auto simp: chan_known_def)

lemma inv_set_chans: "irc_inv st \<Longrightarrow> chans_ok cs \<Longrightarrow> irc_inv (st\<lparr>ir_chans := cs\<rparr>)"
  by (simp add: irc_inv_def sendq_ok_def)

lemma chans_ok_snoc: "chans_ok cs \<Longrightarrow> chan \<noteq> [] \<Longrightarrow> \<not> chan_known chan cs \<Longrightarrow> chans_ok (cs @ [chan])"
  by (auto simp: chans_ok_def chan_known_iff)

lemma inv_add_chan [intro]: "irc_inv st \<Longrightarrow> irc_inv (snd (add_to_chanlist chan st))"
  by (auto simp: add_to_chanlist_def irc_inv_def [of st] intro!: inv_clear inv_set_chans chans_ok_snoc)

lemma inv_del_chan [intro]: "irc_inv st \<Longrightarrow> irc_inv (snd (del_from_chanlist chan st))"
  using chans_ok_names [of "ir_chans st" chan]
  by (auto simp: del_from_chanlist_def split: option.split intro!: inv_clear inv_set_chans)
    (simp_all add: irc_inv_def)

lemma chans_clear [simp]: "ir_chans (clear_chanuserlist c st) = ir_chans st"
  by (simp add: clear_chanuserlist_def)

text \<open>The channel list is a set of channel names under IRC case folding: adding a channel that is not
  in it makes exactly this channel joined and empties its user list, deleting takes exactly this channel
  away; adding a known or deleting an unknown channel fails with -1 and changes nothing. The list keeps
  its invariant: no empty name, no two spellings of one channel. \<open>is_joined\<close> takes the empty name for
  joined, because \<open>-1\<close> is returned as \<open>bool\<close>.\<close>

theorem chanlist_set:
  assumes "irc_inv st" and "chan \<noteq> []"
  shows "(fst (add_to_chanlist chan st) = 0 \<longleftrightarrow> \<not> is_joined chan st) \<and>
    (is_joined c (snd (add_to_chanlist chan st)) \<longleftrightarrow> is_joined c st \<or> same_name chan c) \<and>
    (\<not> is_joined chan st \<longrightarrow> users_of chan (snd (add_to_chanlist chan st)) = []) \<and>
    (is_joined chan st \<longrightarrow> snd (add_to_chanlist chan st) = st) \<and>
    (fst (del_from_chanlist chan st) = 0 \<longleftrightarrow> is_joined chan st) \<and>
    (is_joined c (snd (del_from_chanlist chan st)) \<longleftrightarrow> c = [] \<or> is_joined c st \<and> \<not> same_name chan c) \<and>
    (\<not> is_joined chan st \<longrightarrow> snd (del_from_chanlist chan st) = st) \<and>
    irc_inv (snd (add_to_chanlist chan st)) \<and> irc_inv (snd (del_from_chanlist chan st)) \<and> is_joined [] st"
proof -
  have ok: "chans_ok (ir_chans st)" using assms(1) by (simp add: irc_inv_def)
  have known: "chan_known c (cs @ [chan]) \<longleftrightarrow> chan_known c cs \<or> same_name chan c" for cs
    by (auto simp: chan_known_iff same_name_def)
  have sub: "same_name chan c \<Longrightarrow> chan_known chan (ir_chans st) \<longleftrightarrow> chan_known c (ir_chans st)"
    by (simp add: chan_known_iff same_name_def)
  have empty: "users_of chan (clear_chanuserlist chan (st\<lparr>ir_chans := ir_chans st @ [chan]\<rparr>)) = []"
    if "\<not> chan_known chan (ir_chans st)"
    using inv_set_chans [OF assms(1) chans_ok_snoc [OF ok assms(2) that]] by (simp add: same_name_def)
  have inv: "irc_inv (snd (add_to_chanlist chan st))" "irc_inv (snd (del_from_chanlist chan st))"
    using assms(1) by auto
  show ?thesis
    unfolding eqTrueI [OF inv(1)] eqTrueI [OF inv(2)]
    using assms ok known sub empty chans_ok_names [OF ok, of chan _ c] erase_chan_none [of chan "ir_chans st"]
    by (intro conjI) (auto simp: add_to_chanlist_def del_from_chanlist_def is_joined_def split: option.splits)
qed

lemma chanlist_set_witness:
  "is_joined (c_lit ''#Chan[1]'') (snd (add_to_chanlist (c_lit ''#chan{1}'') session_witness))"
  using chanlist_set [OF session_witness_inv, of "c_lit ''#chan{1}''" "c_lit ''#Chan[1]''"]
  by (simp add: c_lit_def same_name_def irc_strlower_eq until_nul_def irc_tolower_fold irc_fold_def)

end
