(* ===== verification/Ircloop.thy ===== *)
theory Ircloop
  imports Irc Numstr
begin

text \<open>
  \<open>irc::main_loop\<close> of \<open>irc.cpp\<close>: one turn of the loop is \<open>loop_step\<close>, with a function for each command
  of the server. The local variables that live across turns are the record \<open>loop_vars\<close>. A turn takes the
  time and the result of \<open>sock.readline\<close> as inputs; the time does not pass within a turn. A handler gives
  a fault where it reads the parameter vector out of its range. The \<open>continue\<close> of a handler is its
  return.
\<close>

record loop_vars =
  lv_names_receiving :: "byte list \<Rightarrow> bool"
  lv_who_receiving :: "byte list \<Rightarrow> bool"
  lv_line_converted :: bool

subsection \<open>Handlers\<close>

definition params_at :: "byte list list \<Rightarrow> nat \<Rightarrow> c_fault + byte list" where
  "params_at params i = (if i < length params then Inr (params ! i) else Inl Read_past_end)"

text \<open>\<open>params.resize(32)\<close> for a shorter vector.\<close>

definition resize_params :: "byte list list \<Rightarrow> byte list list" where
  "resize_params params = params @ replicate (32 - length params) []"

definition chan_prefix :: "byte list \<Rightarrow> bool" where
  "chan_prefix chan \<longleftrightarrow> cstr_at chan 0 = 0x23 \<or> cstr_at chan 0 = 0x26"

definition on_PING :: "irc_env \<Rightarrow> byte list list \<Rightarrow> irc \<Rightarrow> irc" where
  "on_PING E params st = quote_line E (c_lit ''PONG '' @ concat_param params 0) IRC_PRIORITY_MAX st"

text \<open>\<open>PRIVMSG\<close> and \<open>NOTICE\<close> differ in the message type.\<close>

definition on_PRIVMSG ::
  "irc_env \<Rightarrow> irc_msgtype \<Rightarrow> irc_ident \<Rightarrow> byte list \<Rightarrow> nat \<Rightarrow> byte list list \<Rightarrow> bool \<Rightarrow> irc \<Rightarrow> irc" where
  "on_PRIVMSG E msgtype origin ident nparam params conv st =
    (if nparam < 2 then st
     else if ident = [] then st
     else send_event (ircevent_privmsg_new (en_pcre E) origin
         (irc_msginfo_new (params ! 0) msgtype IRC_CHANTYPE_CHAN conv) (params ! 1)) st)"

definition mode_char :: "byte \<Rightarrow> byte" where
  "mode_char m = (if m = 0x71 then 0x7E else if m = 0x61 then 0x26 else if m = 0x6F then 0x40
    else if m = 0x68 then 0x25 else 0x2B)"

definition mode_user_update :: "byte \<Rightarrow> byte \<Rightarrow> byte list \<Rightarrow> byte list \<Rightarrow> irc \<Rightarrow> irc" where
  "mode_user_update sign mode chan nick st =
    (let st = touch_chan chan st; users = users_of chan st; user = user_at nick users;
         user = (if sign = 0x2B then add_to_chanusermode [mode_char mode] user
                 else del_from_chanusermode [mode_char mode] user)
     in set_users chan (smap_set irc_string_less nick user users) st)"

text \<open>The modes that take a parameter other than a nick. (\<open>q\<close> has been taken for an owner before.)\<close>

definition mode_has_param :: "byte \<Rightarrow> byte \<Rightarrow> bool" where
  "mode_has_param sign mode \<longleftrightarrow>
    mode = 0x62 \<or> mode = 0x64 \<or> mode = 0x65 \<or> mode = 0x49 \<or> mode = 0x71 \<or> mode = 0x67 \<or>
    (mode = 0x6C \<and> sign = 0x2B) \<or> mode = 0x66 \<or> mode = 0x4A \<or> mode = 0x6B \<or> mode = 0x46"

fun mode_loop ::
  "irc_ident \<Rightarrow> byte list \<Rightarrow> byte list list \<Rightarrow> byte list \<Rightarrow> byte \<Rightarrow> nat \<Rightarrow> irc \<Rightarrow> c_fault + irc" where
  "mode_loop origin chan params [] sign pi st = Inr st"
| "mode_loop origin chan params (mode # modes) sign pi st =
    (if mode = 0x2B \<or> mode = 0x2D then mode_loop origin chan params modes mode pi st
     else if mode = 0x71 \<or> mode = 0x61 \<or> mode = 0x6F \<or> mode = 0x68 \<or> mode = 0x76 then
       (case params_at params pi of
          Inl f \<Rightarrow> Inl f
        | Inr nick \<Rightarrow>
            (if nick = [] then Inr st
             else mode_loop origin chan params modes sign (Suc pi)
               (send_event (Ircevent_mode origin chan [sign, mode] nick)
                 (mode_user_update sign mode chan nick st))))
     else if mode_has_param sign mode then
       (case params_at params pi of
          Inl f \<Rightarrow> Inl f
        | Inr param \<Rightarrow>
            (if param = [] then Inr st
             else mode_loop origin chan params modes sign (Suc pi)
               (send_event (Ircevent_mode origin chan [sign, mode] param) st)))
     else mode_loop origin chan params modes sign pi
       (send_event (Ircevent_mode origin chan [sign, mode] []) st))"

text \<open>The first character of the mode string is taken for the sign whatever it is.\<close>

definition on_MODE :: "irc_ident \<Rightarrow> nat \<Rightarrow> byte list list \<Rightarrow> irc \<Rightarrow> c_fault + irc" where
  "on_MODE origin nparam params st =
    (if nparam < 2 then Inr st
     else (case until_nul (params ! 1) of
         [] \<Rightarrow> Inr st
       | sign # modes \<Rightarrow> mode_loop origin (params ! 0) params modes sign 2 st))"

definition on_JOIN :: "irc_env \<Rightarrow> irc_ident \<Rightarrow> byte list \<Rightarrow> nat \<Rightarrow> byte list list \<Rightarrow> irc \<Rightarrow> irc" where
  "on_JOIN E origin ident nparam params st =
    (if nparam < 1 then st
     else
       (let chan = params ! 0; nick = ii_nick origin;
            st = (if nick = ir_nick st then
                (let st = snd (add_to_chanlist chan st);
                     st = (if \<not> si_namesx_on (ir_srvinfo st) then refresh_chanuserlist E chan st else st)
                 in quote_line E (c_lit ''MODE '' @ chan) IRC_PRIORITY_ANORMAL st)
              else snd (add_to_chanuserlist E chan nick ident st))
        in send_event (Ircevent_join origin chan) st))"

definition on_PART :: "irc_env \<Rightarrow> irc_ident \<Rightarrow> nat \<Rightarrow> byte list list \<Rightarrow> irc \<Rightarrow> irc" where
  "on_PART E origin nparam params st =
    (if nparam < 1 then st
     else
       (let chan = params ! 0; nick = ii_nick origin;
            st = (if nick = ir_nick st then snd (del_from_chanlist chan st)
                  else snd (del_from_chanuserlist E chan nick st))
        in send_event (Ircevent_part origin chan (params ! 1)) st))"

definition on_KICK :: "irc_env \<Rightarrow> irc_ident \<Rightarrow> nat \<Rightarrow> byte list list \<Rightarrow> irc \<Rightarrow> irc" where
  "on_KICK E origin nparam params st =
    (if nparam < 2 then st
     else
       (let chan = params ! 0; nick = params ! 1; st = touch_chan chan st
        in case smap_find irc_string_less nick (users_of chan st) of
             None \<Rightarrow> refresh_chanuserlist E chan st
           | Some kicked_user \<Rightarrow>
               (let st = (if nick = ir_nick st then snd (del_from_chanlist chan st)
                          else snd (del_from_chanuserlist E chan nick st))
                in send_event (Ircevent_kick origin chan kicked_user (params ! 2)) st)))"

definition nick_chan :: "irc_env \<Rightarrow> byte list \<Rightarrow> byte list \<Rightarrow> byte list \<Rightarrow> byte list \<Rightarrow> irc \<Rightarrow> irc" where
  "nick_chan E chan nick newnick ident st =
    (let (joined, st) = is_user_joined E chan nick st
     in if joined then
       (let (iu_tmp, st) = get_user_data chan nick st;
            newnick2 = (case iu_tmp of Some u \<Rightarrow> iu_chanmode u @ newnick | None \<Rightarrow> newnick);
            st = snd (del_from_chanuserlist E chan nick st)
        in snd (add_to_chanuserlist E chan newnick2 ident st))
     else st)"

primrec nick_chans :: "irc_env \<Rightarrow> byte list list \<Rightarrow> byte list \<Rightarrow> byte list \<Rightarrow> byte list \<Rightarrow> irc \<Rightarrow> irc" where
  "nick_chans E [] nick newnick ident st = st"
| "nick_chans E (chan # cs) nick newnick ident st =
    nick_chans E cs nick newnick ident (nick_chan E chan nick newnick ident st)"

definition on_NICK :: "irc_env \<Rightarrow> irc_ident \<Rightarrow> byte list \<Rightarrow> nat \<Rightarrow> byte list list \<Rightarrow> irc \<Rightarrow> irc" where
  "on_NICK E origin ident nparam params st =
    (if nparam < 1 then st
     else
       (let newnick = params ! 0; nick = ii_nick origin;
            st = (if nick = ir_nick st then st\<lparr>ir_nick := newnick\<rparr> else st);
            st = nick_chans E (ir_chans st) nick newnick ident st
        in send_event (Ircevent_nick origin newnick) st))"

text \<open>A turn of the loop goes on or ends the loop with a result.\<close>

datatype loop_result = Go_on | Goto_end int

text \<open>The user lists are updated by the bot's event handler (\<open>ircbot_event_handler\<close>), for which the
  loop waits a bounded time.\<close>

definition on_QUIT :: "irc_ident \<Rightarrow> byte list list \<Rightarrow> irc \<Rightarrow> loop_result \<times> irc" where
  "on_QUIT origin params st =
    (if ii_nick origin = ir_nick st then (Goto_end (if ir_quit_on_timer st = 0 then - 1 else 0), st)
     else (Go_on, (send_event (Ircevent_quit origin (params ! 0)) (st\<lparr>ir_pause_main_thread := True\<rparr>))
        \<lparr>ir_pause_main_thread := False\<rparr>))"

definition ircbot_event_handler :: "irc_env \<Rightarrow> ircevent \<Rightarrow> irc \<Rightarrow> irc" where
  "ircbot_event_handler E evdata st =
    (case evdata of
       Botevent_evhandler_done (Ircevent_quit who msg) \<Rightarrow>
         (del_from_chanuserlist_all E (ii_nick who) st)\<lparr>ir_pause_main_thread := False\<rparr>
     | _ \<Rightarrow> st)"

definition re_extract_mode_chars :: "byte list" where
  "re_extract_mode_chars = c_lit ''([~&@%+]+)''"

definition on_352 :: "irc_env \<Rightarrow> nat \<Rightarrow> byte list list \<Rightarrow> loop_vars \<Rightarrow> irc \<Rightarrow> loop_vars \<times> irc" where
  "on_352 E nparam params lv st =
    (if si_namesx_on (ir_srvinfo st) then (lv, st)
     else if nparam < 7 then (lv, st)
     else
       (let chan = params ! 1; nick = params ! 5; username = params ! 2; host = params ! 3
        in if \<not> chan_prefix chan then (lv, st)
        else
          (let st = (if \<not> lv_who_receiving lv chan then clear_chanuserlist chan st else st);
               lv = lv\<lparr>lv_who_receiving := (lv_who_receiving lv)(chan := True)\<rparr>;
               mode = (case re_partial (en_pcre E) re_extract_mode_chars (params ! 6) of
                   Some gs \<Rightarrow> gs ! 0 | None \<Rightarrow> [])
           in (lv, snd (add_to_chanuserlist E chan (mode @ nick)
                (nick @ c_lit ''!'' @ username @ c_lit ''@'' @ host) st)))))"

definition on_315 :: "irc_env \<Rightarrow> nat \<Rightarrow> byte list list \<Rightarrow> loop_vars \<Rightarrow> irc \<Rightarrow> loop_vars \<times> irc" where
  "on_315 E nparam params lv st =
    (if si_namesx_on (ir_srvinfo st) then (lv, st)
     else if nparam < 2 then (lv, st)
     else
       (let chan = params ! 1
        in if \<not> chan_prefix chan then (lv, st)
        else (lv\<lparr>lv_who_receiving := (lv_who_receiving lv)(chan := False)\<rparr>,
          if si_uhnames_on (ir_srvinfo st)
          then quote_line E (c_lit ''NAMES '' @ chan) IRC_PRIORITY_ANORMAL st else st)))"

text \<open>The names of the list, cut at the spaces: a space at the very end does not start a name.\<close>

fun names_args :: "byte list \<Rightarrow> byte list \<Rightarrow> byte list list" where
  "names_args [] arg = [arg]"
| "names_args (c # s) arg =
    (if c = 0x20 then (if s = [] then [arg] else arg # names_args s []) else names_args s (arg @ [c]))"

definition re_mode_and_nick :: "byte list" where
  "re_mode_and_nick = c_lit ''^([~&@%+]*[^!]+)''"

definition names_add :: "irc_env \<Rightarrow> byte list \<Rightarrow> byte list \<Rightarrow> irc \<Rightarrow> irc" where
  "names_add E chan arg st =
    (if si_namesx_on (ir_srvinfo st) then
       (let tmp = irc_ident_new (en_pcre E) arg;
            modenick = (case re_partial (en_pcre E) re_mode_and_nick arg of Some gs \<Rightarrow> gs ! 0 | None \<Rightarrow> [])
        in snd (add_to_chanuserlist E chan modenick (ii_ident tmp) st))
     else snd (add_to_chanuserlist E chan arg [] st))"

definition on_353 :: "irc_env \<Rightarrow> nat \<Rightarrow> byte list list \<Rightarrow> loop_vars \<Rightarrow> irc \<Rightarrow> loop_vars \<times> irc" where
  "on_353 E nparam params lv st =
    (if nparam < 4 then (lv, st)
     else
       (let chan = params ! 2
        in if \<not> chan_prefix chan then (lv, st)
        else if lv_who_receiving lv chan then (lv, st)
        else
          (let st = (if \<not> lv_names_receiving lv chan \<and> si_namesx_on (ir_srvinfo st)
                     then clear_chanuserlist chan st else st);
               lv = lv\<lparr>lv_names_receiving := (lv_names_receiving lv)(chan := True)\<rparr>
           in (lv, fold (names_add E chan) (names_args (until_nul (params ! 3)) []) st))))"

definition on_366 :: "nat \<Rightarrow> byte list list \<Rightarrow> loop_vars \<Rightarrow> loop_vars" where
  "on_366 nparam params lv =
    (if nparam < 1 then lv
     else if \<not> chan_prefix (params ! 1) then lv
     else lv\<lparr>lv_names_receiving := (lv_names_receiving lv)(params ! 1 := False)\<rparr>)"

definition on_INVITE :: "irc_ident \<Rightarrow> nat \<Rightarrow> byte list list \<Rightarrow> irc \<Rightarrow> irc" where
  "on_INVITE origin nparam params st =
    (if nparam < 2 then st
     else if params ! 0 = ir_nick st then send_event (Ircevent_invite origin (params ! 1)) st else st)"

definition on_433 :: "irc_env \<Rightarrow> irc \<Rightarrow> irc" where
  "on_433 E st =
    (if ir_status st = IRCSTATUS_CONNECTING then
       (let st = st\<lparr>ir_nick := ir_nick st @ c_lit ''_''\<rparr>
        in quote_line E (c_lit ''NICK '' @ ir_nick st) IRC_PRIORITY_ANORMAL st)
     else st)"

subsection \<open>ISUPPORT\<close>

definition re_005_param :: "byte list" where
  "re_005_param = c_lit ''^([^=]+)=(.*)$''"

definition re_split_005_prefix :: "byte list" where
  "re_split_005_prefix = c_lit ''^'' @ [0x5C] @ c_lit ''(([a-z]+)'' @ [0x5C] @ c_lit '')(.+)$''"

definition isupport_setting :: "irc_env \<Rightarrow> byte list \<Rightarrow> byte list \<Rightarrow> irc_srvinfo \<Rightarrow> irc_srvinfo" where
  "isupport_setting E pname parg si =
    (if pname = c_lit ''NETWORK'' then si\<lparr>si_netname := parg\<rparr>
     else if pname = c_lit ''CHANTYPES'' then si\<lparr>si_chantypes := parg\<rparr>
     else if pname = c_lit ''CHANMODES'' then si\<lparr>si_chanmodes := parg\<rparr>
     else if pname = c_lit ''PREFIX'' then
       (case re_full (en_pcre E) re_split_005_prefix parg of
          Some gs \<Rightarrow> si\<lparr>si_chanusermode_prefixes := gs ! 0, si_chanusermodes := gs ! 1\<rparr>
        | None \<Rightarrow> si)
     else if pname = c_lit ''MAXCHANNELS'' then si\<lparr>si_max_channels := of_int (c_atoi parg)\<rparr>
     else if pname = c_lit ''NICKLEN'' then si\<lparr>si_nicklen := of_int (c_atoi parg)\<rparr>
     else if pname = c_lit ''CASEMAPPING'' then si\<lparr>si_casemapping := parg\<rparr>
     else if pname = c_lit ''CHARSET'' then si\<lparr>si_charset := parg\<rparr>
     else si)"

definition isupport_param :: "irc_env \<Rightarrow> byte list \<Rightarrow> irc \<Rightarrow> irc" where
  "isupport_param E param st =
    (if param = c_lit ''UHNAMES'' then
       quote_line E (c_lit ''PROTOCTL UHNAMES'') IRC_PRIORITY_ANORMAL
         (st\<lparr>ir_srvinfo := (ir_srvinfo st)\<lparr>si_uhnames_on := True\<rparr>\<rparr>)
     else if param = c_lit ''NAMESX'' then
       quote_line E (c_lit ''PROTOCTL NAMESX'') IRC_PRIORITY_ANORMAL
         (st\<lparr>ir_srvinfo := (ir_srvinfo st)\<lparr>si_namesx_on := True\<rparr>\<rparr>)
     else (case re_full (en_pcre E) re_005_param param of
        Some gs \<Rightarrow> st\<lparr>ir_srvinfo := isupport_setting E (gs ! 0) (gs ! 1) (ir_srvinfo st)\<rparr>
      | None \<Rightarrow> st))"

text \<open>The loop \<open>for(i = 1; i < nparam-1; i++)\<close>; \<open>n\<close> is the bound.\<close>

function isupport_loop :: "irc_env \<Rightarrow> byte list list \<Rightarrow> nat \<Rightarrow> nat \<Rightarrow> irc \<Rightarrow> c_fault + irc" where
  "isupport_loop E params n i st =
    (if i < n then
      (if i < length params then isupport_loop E params n (Suc i) (isupport_param E (params ! i) st)
       else Inl Read_past_end)
     else Inr st)"
  by pat_completeness auto
termination by (relation "measure (\<lambda>(E, params, n, i, st). length params - i)") auto

declare isupport_loop.simps [simp del]

text \<open>The bound is computed in \<open>unsigned int\<close>.\<close>

definition on_005 :: "irc_env \<Rightarrow> nat \<Rightarrow> byte list list \<Rightarrow> irc \<Rightarrow> c_fault + irc" where
  "on_005 E nparam params st = isupport_loop E params (unat ((of_nat nparam :: u32) - 1)) 1 st"

subsection \<open>The loop\<close>

text \<open>The chain of comparisons with the command. The commands that are only printed or ignored change
  nothing.\<close>

definition handle_cmd ::
  "irc_env \<Rightarrow> int \<Rightarrow> byte list \<Rightarrow> irc_ident \<Rightarrow> byte list \<Rightarrow> nat \<Rightarrow> byte list list \<Rightarrow> loop_vars \<Rightarrow> irc \<Rightarrow>
    c_fault + (loop_result \<times> loop_vars \<times> irc)" where
  "handle_cmd E now cmd origin ident nparam params lv st =
    (if cmd = c_lit ''PING'' then Inr (Go_on, lv, on_PING E params st)
     else if cmd = c_lit ''PRIVMSG'' then
       Inr (Go_on, lv, on_PRIVMSG E IRC_MSGTYPE_NORMAL origin ident nparam params (lv_line_converted lv) st)
     else if cmd = c_lit ''NOTICE'' then
       Inr (Go_on, lv, on_PRIVMSG E IRC_MSGTYPE_NOTICE origin ident nparam params (lv_line_converted lv) st)
     else if cmd = c_lit ''MODE'' then map_sum id (\<lambda>st. (Go_on, lv, st)) (on_MODE origin nparam params st)
     else if cmd = c_lit ''JOIN'' then Inr (Go_on, lv, on_JOIN E origin ident nparam params st)
     else if cmd = c_lit ''PART'' then Inr (Go_on, lv, on_PART E origin nparam params st)
     else if cmd = c_lit ''KICK'' then Inr (Go_on, lv, on_KICK E origin nparam params st)
     else if cmd = c_lit ''NICK'' then Inr (Go_on, lv, on_NICK E origin ident nparam params st)
     else if cmd = c_lit ''QUIT'' then (case on_QUIT origin params st of (r, st) \<Rightarrow> Inr (r, lv, st))
     else if cmd = c_lit ''352'' then Inr (Go_on, on_352 E nparam params lv st)
     else if cmd = c_lit ''315'' then Inr (Go_on, on_315 E nparam params lv st)
     else if cmd = c_lit ''353'' then Inr (Go_on, on_353 E nparam params lv st)
     else if cmd = c_lit ''366'' then Inr (Go_on, on_366 nparam params lv, st)
     else if cmd = c_lit ''ERROR'' then Inr (Goto_end (if ir_quit_on_timer st = 0 then - 1 else 0), lv, st)
     else if cmd = c_lit ''INVITE'' then Inr (Go_on, lv, on_INVITE origin nparam params st)
     else if cmd = c_lit ''PONG'' then Inr (Go_on, lv, st\<lparr>ir_last_pong := now\<rparr>)
     else if cmd = c_lit ''433'' then Inr (Go_on, lv, on_433 E st)
     else if cmd = c_lit ''005'' then map_sum id (\<lambda>st. (Go_on, lv, st)) (on_005 E nparam params st)
     else if (cmd = c_lit ''376'' \<or> cmd = c_lit ''422'') \<and> ir_status st = IRCSTATUS_CONNECTING then
       Inr (Go_on, lv, send_event Ircevent_loggedin (st\<lparr>ir_status := IRCSTATUS_CONNECTED\<rparr>))
     else Inr (Go_on, lv, st))"

text \<open>A received line: conversion, event, parsing and dispatch.\<close>

definition handle_line ::
  "irc_env \<Rightarrow> int \<Rightarrow> byte list \<Rightarrow> loop_vars \<Rightarrow> irc \<Rightarrow> c_fault + (loop_result \<times> loop_vars \<times> irc)" where
  "handle_line E now line lv st =
    (let (line, lv) = (case ir_conv_s2m st of
         Some cv \<Rightarrow> (case en_convert E cv line (ir_preserve_eilseq_line st) of
             Some l \<Rightarrow> (l, lv\<lparr>lv_line_converted := True\<rparr>)
           | None \<Rightarrow> (line, lv\<lparr>lv_line_converted := False\<rparr>))
       | None \<Rightarrow> (line, lv));
         st = send_event (Ircevent_srvincoming line (lv_line_converted lv)) st;
         (ret, ident, cmd, params) = parse_irc_line line
     in if ret \<noteq> 0 then Inr (Go_on, lv, st)
     else
       (let origin = irc_ident_new (en_pcre E) ident
        in handle_cmd E now cmd origin ident (length params) (resize_params params) lv st))"

definition on_timeout :: "irc_env \<Rightarrow> int \<Rightarrow> irc \<Rightarrow> loop_result \<times> irc" where
  "on_timeout E now st =
    (if now - ir_last_pong st > 60 * 6 then (Goto_end (- 1), st)
     else
       (let st = (if now - ir_last_ping st > 60 * 5 then
              (quote_line E (c_lit ''PING :PING'' @ dec_str (unat (of_int now :: u32))) IRC_PRIORITY_NORMAL st)
                \<lparr>ir_last_ping := now\<rparr>
            else st)
        in (Go_on, if ir_status st = IRCSTATUS_CONNECTED then send_event Ircevent_idle st else st)))"

text \<open>One turn: \<open>len\<close> and \<open>line\<close> are what \<open>sock.readline\<close> gave.\<close>

definition loop_step ::
  "irc_env \<Rightarrow> int \<Rightarrow> int \<Rightarrow> byte list \<Rightarrow> loop_vars \<Rightarrow> irc \<Rightarrow> c_fault + (loop_result \<times> loop_vars \<times> irc)" where
  "loop_step E now len line lv st =
    (if ir_quit_on_timer st \<noteq> 0 \<and> ir_quit_on_timer st + 5 > now then Inr (Goto_end 0, lv, st)
     else if len \<le> - 2 then Inr (Goto_end (if ir_quit_on_timer st = 0 then - 1 else 0), lv, st)
     else if len = 0 then Inr (Go_on, lv, st)
     else if len = - 1 then (case on_timeout E now st of (r, st) \<Rightarrow> Inr (r, lv, st))
     else handle_line E now line lv st)"

text \<open>The loop on a finite sequence of inputs (time, result and line of \<open>readline\<close>): the result and the
  state after \<open>disconnect\<close>, or None for the result when the loop is still running.\<close>

type_synonym loop_input = "int \<times> int \<times> byte list"

fun loop_run :: "irc_env \<Rightarrow> loop_input list \<Rightarrow> loop_vars \<Rightarrow> irc \<Rightarrow> c_fault + (int option \<times> irc)" where
  "loop_run E [] lv st = Inr (None, st)"
| "loop_run E ((now, len, line) # ins) lv st =
    (case loop_step E now len line lv st of
       Inl f \<Rightarrow> Inl f
     | Inr (Goto_end r, lv, st) \<Rightarrow> Inr (Some r, snd (irc_disconnect st))
     | Inr (Go_on, lv, st) \<Rightarrow> loop_run E ins lv st)"

text \<open>The local variables at the start: \<open>conv\<close> is the value of the uninitialised
  \<open>is_line_converted\<close>.\<close>

definition loop_vars_start :: "bool \<Rightarrow> loop_vars" where
  "loop_vars_start conv =
    \<lparr>lv_names_receiving = (\<lambda>_. False), lv_who_receiving = (\<lambda>_. False), lv_line_converted = conv\<rparr>"

definition main_loop ::
  "irc_env \<Rightarrow> int \<Rightarrow> bool \<Rightarrow> loop_input list \<Rightarrow> irc \<Rightarrow> c_fault + (int option \<times> irc)" where
  "main_loop E now conv ins st =
    loop_run E ins (loop_vars_start conv)
      (st\<lparr>ir_last_ping := now, ir_last_pong := now\<rparr>)"

subsection \<open>What the operations on the lists leave alone\<close>

lemma frame_touch [simp]: "ir_events (touch_chan c st) = ir_events st" "ir_status (touch_chan c st) = ir_status st"
  "ir_chans (touch_chan c st) = ir_chans st" "ir_nick (touch_chan c st) = ir_nick st"
  "ir_srvinfo (touch_chan c st) = ir_srvinfo st"
  by (simp_all add: touch_chan_def)

lemma frame_set_users [simp]: "ir_events (set_users c us st) = ir_events st" "ir_status (set_users c us st) = ir_status st"
  "ir_chans (set_users c us st) = ir_chans st" "ir_nick (set_users c us st) = ir_nick st"
  "ir_srvinfo (set_users c us st) = ir_srvinfo st"
  by (simp_all add: set_users_def)

lemma frame_clear [simp]: "ir_events (clear_chanuserlist c st) = ir_events st"
  "ir_status (clear_chanuserlist c st) = ir_status st" "ir_nick (clear_chanuserlist c st) = ir_nick st"
  "ir_srvinfo (clear_chanuserlist c st) = ir_srvinfo st"
  by (simp_all add: clear_chanuserlist_def)

lemma frame_add_user [simp]: "ir_events (snd (add_to_chanuserlist E c n i st)) = ir_events st"
  "ir_status (snd (add_to_chanuserlist E c n i st)) = ir_status st"
  "ir_chans (snd (add_to_chanuserlist E c n i st)) = ir_chans st"
  "ir_nick (snd (add_to_chanuserlist E c n i st)) = ir_nick st"
  by (simp_all add: add_to_chanuserlist_def Let_def)

lemma frame_del_user [simp]: "ir_events (snd (del_from_chanuserlist E c n st)) = ir_events st"
  "ir_status (snd (del_from_chanuserlist E c n st)) = ir_status st"
  "ir_chans (snd (del_from_chanuserlist E c n st)) = ir_chans st"
  "ir_nick (snd (del_from_chanuserlist E c n st)) = ir_nick st"
  by (simp_all add: del_from_chanuserlist_def Let_def)

lemma frame_is_user_joined [simp]: "ir_events (snd (is_user_joined E c n st)) = ir_events st"
  "ir_status (snd (is_user_joined E c n st)) = ir_status st"
  "ir_chans (snd (is_user_joined E c n st)) = ir_chans st"
  "ir_nick (snd (is_user_joined E c n st)) = ir_nick st"
  by (simp_all add: is_user_joined_def Let_def)

lemma frame_get_user_data [simp]: "ir_events (snd (get_user_data c n st)) = ir_events st"
  "ir_status (snd (get_user_data c n st)) = ir_status st"
  "ir_chans (snd (get_user_data c n st)) = ir_chans st"
  "ir_nick (snd (get_user_data c n st)) = ir_nick st"
  by (simp_all add: get_user_data_def Let_def)

lemma frame_add_chan [simp]: "ir_events (snd (add_to_chanlist c st)) = ir_events st"
  "ir_status (snd (add_to_chanlist c st)) = ir_status st" "ir_nick (snd (add_to_chanlist c st)) = ir_nick st"
  by (simp_all add: add_to_chanlist_def)

lemma frame_del_chan [simp]: "ir_events (snd (del_from_chanlist c st)) = ir_events st"
  "ir_status (snd (del_from_chanlist c st)) = ir_status st" "ir_nick (snd (del_from_chanlist c st)) = ir_nick st"
  by (simp_all add: del_from_chanlist_def split: option.split)

lemma frame_del_from_chans [simp]: "ir_events (del_from_chans E cs n st) = ir_events st"
  "ir_status (del_from_chans E cs n st) = ir_status st" "ir_nick (del_from_chans E cs n st) = ir_nick st"
  by (induction cs arbitrary: st) (simp_all add: split_beta Let_def)

lemma frame_event [simp]: "ir_status (send_event ev st) = ir_status st" "ir_nick (send_event ev st) = ir_nick st"
  "ir_chans (send_event ev st) = ir_chans st" "ir_chan_users (send_event ev st) = ir_chan_users st"
  "ir_events (send_event ev st) = ir_events st @ [ev]" "ir_srvinfo (send_event ev st) = ir_srvinfo st"
  by (simp_all add: send_event_def)

subsection \<open>The life of a session\<close>

text \<open>The events that a client of the session may rely on: \<open>connected\<close> starts a session, \<open>loggedin\<close>
  comes once in it, \<open>idle\<close> only while logged in, \<open>disconnected\<close> ends it. \<open>life_step\<close> is the automaton,
  None an event that may not come.\<close>

fun life_step :: "IRCSTATUS \<Rightarrow> ircevent \<Rightarrow> IRCSTATUS option" where
  "life_step s Ircevent_connected =
    (if s = IRCSTATUS_DISCONNECTED then Some IRCSTATUS_CONNECTING else None)"
| "life_step s Ircevent_loggedin =
    (if s = IRCSTATUS_CONNECTING then Some IRCSTATUS_CONNECTED else None)"
| "life_step s Ircevent_idle = (if s = IRCSTATUS_CONNECTED then Some s else None)"
| "life_step s Ircevent_disconnected =
    (if s = IRCSTATUS_CONNECTING \<or> s = IRCSTATUS_CONNECTED then Some IRCSTATUS_DISCONNECTED else None)"
| "life_step s ev = Some s"

fun life_run :: "IRCSTATUS \<Rightarrow> ircevent list \<Rightarrow> IRCSTATUS option" where
  "life_run s [] = Some s"
| "life_run s (ev # evs) = (case life_step s ev of None \<Rightarrow> None | Some s' \<Rightarrow> life_run s' evs)"

definition life_of :: "ircevent list \<Rightarrow> IRCSTATUS option" where
  "life_of evs = life_run IRCSTATUS_DISCONNECTED evs"

definition sess_ok :: "irc \<Rightarrow> bool" where
  "sess_ok st \<longleftrightarrow> irc_inv st \<and> life_of (ir_events st) = Some (ir_status st)"

lemma life_run_snoc: "life_run s (evs @ [ev]) = (case life_run s evs of None \<Rightarrow> None | Some s' \<Rightarrow> life_step s' ev)"
  by (induction evs arbitrary: s) (auto split: option.split)

lemma sess_okD: "sess_ok st \<Longrightarrow> irc_inv st"
  by (simp add: sess_ok_def)

lemma sess_ok_frame:
  "sess_ok st \<Longrightarrow> irc_inv st' \<Longrightarrow> ir_events st' = ir_events st \<Longrightarrow> ir_status st' = ir_status st \<Longrightarrow> sess_ok st'"
  by (simp add: sess_ok_def)

lemma sess_ok_event:
  "sess_ok st \<Longrightarrow> life_step (ir_status st) ev = Some (ir_status st) \<Longrightarrow> sess_ok (send_event ev st)"
  by (auto simp: sess_ok_def life_of_def life_run_snoc)

text \<open>Fields that the invariants do not look at.\<close>

lemma inv_other_fields:
  "irc_inv (st\<lparr>ir_nick := x\<rparr>) = irc_inv st" "irc_inv (st\<lparr>ir_last_ping := i\<rparr>) = irc_inv st"
  "irc_inv (st\<lparr>ir_last_pong := i\<rparr>) = irc_inv st" "irc_inv (st\<lparr>ir_quit_on_timer := i\<rparr>) = irc_inv st"
  "irc_inv (st\<lparr>ir_srvinfo := si\<rparr>) = irc_inv st" "irc_inv (st\<lparr>ir_pause_main_thread := b\<rparr>) = irc_inv st"
  "irc_inv (st\<lparr>ir_conv_m2s := cv\<rparr>) = irc_inv st" "irc_inv (st\<lparr>ir_conv_s2m := cv\<rparr>) = irc_inv st"
  "irc_inv (st\<lparr>ir_srv_encoding := x\<rparr>) = irc_inv st" "irc_inv (st\<lparr>ir_enable_flood_protection := b\<rparr>) = irc_inv st"
  "irc_inv (st\<lparr>ir_username := x\<rparr>) = irc_inv st" "irc_inv (st\<lparr>ir_realname := x\<rparr>) = irc_inv st"
  "irc_inv (st\<lparr>ir_server_pass := x\<rparr>) = irc_inv st" "irc_inv (st\<lparr>ir_preserve_eilseq_line := b\<rparr>) = irc_inv st"
  "irc_inv (st\<lparr>ir_server := x\<rparr>) = irc_inv st" "irc_inv (st\<lparr>ir_port := i\<rparr>) = irc_inv st"
  by (simp_all add: irc_inv_def sendq_ok_def)

lemma sess_other_fields:
  "sess_ok (st\<lparr>ir_nick := x\<rparr>) = sess_ok st" "sess_ok (st\<lparr>ir_last_ping := i\<rparr>) = sess_ok st"
  "sess_ok (st\<lparr>ir_last_pong := i\<rparr>) = sess_ok st" "sess_ok (st\<lparr>ir_quit_on_timer := i\<rparr>) = sess_ok st"
  "sess_ok (st\<lparr>ir_srvinfo := si\<rparr>) = sess_ok st" "sess_ok (st\<lparr>ir_pause_main_thread := b\<rparr>) = sess_ok st"
  "sess_ok (st\<lparr>ir_conv_m2s := cv\<rparr>) = sess_ok st" "sess_ok (st\<lparr>ir_conv_s2m := cv\<rparr>) = sess_ok st"
  "sess_ok (st\<lparr>ir_srv_encoding := x\<rparr>) = sess_ok st" "sess_ok (st\<lparr>ir_enable_flood_protection := b\<rparr>) = sess_ok st"
  "sess_ok (st\<lparr>ir_username := x\<rparr>) = sess_ok st" "sess_ok (st\<lparr>ir_realname := x\<rparr>) = sess_ok st"
  "sess_ok (st\<lparr>ir_server_pass := x\<rparr>) = sess_ok st" "sess_ok (st\<lparr>ir_preserve_eilseq_line := b\<rparr>) = sess_ok st"
  "sess_ok (st\<lparr>ir_server := x\<rparr>) = sess_ok st" "sess_ok (st\<lparr>ir_port := i\<rparr>) = sess_ok st"
  by (simp_all add: sess_ok_def inv_other_fields)

subsection \<open>Every operation keeps the session in order\<close>

named_theorems sess \<open>an operation keeps \<open>sess_ok\<close>\<close>

lemma sess_basic [sess]:
  assumes "sess_ok st"
  shows "sess_ok (touch_chan c st)" "sess_ok (clear_chanuserlist c st)"
    "sess_ok (quote_line E l p st)" "sess_ok (snd (quote E l p cv st))" "sess_ok (refresh_chanuserlist E c st)"
    "sess_ok (snd (add_to_chanuserlist E c n i st))" "sess_ok (snd (del_from_chanuserlist E c n st))"
    "sess_ok (snd (is_user_joined E c n st))" "sess_ok (snd (get_user_data c n st))"
    "sess_ok (snd (add_to_chanlist c st))" "sess_ok (snd (del_from_chanlist c st))"
    "sess_ok (del_from_chans E cs n st)" "smap_ok irc_string_less us \<Longrightarrow> sess_ok (set_users c us st)"
  using sess_okD [OF assms] by (intro sess_ok_frame [OF assms]; auto)+

lemma sess_users: "sess_ok st \<Longrightarrow> smap_ok irc_string_less (users_of c st)"
  by (simp add: sess_ok_def inv_users_of)

text \<open>Events that the automaton ignores.\<close>

lemma sess_event [sess]:
  "sess_ok st \<Longrightarrow> sess_ok (send_event (ircevent_privmsg_new R i mi m) st)"
  "sess_ok st \<Longrightarrow> sess_ok (send_event (Ircevent_mode w c m p) st)"
  "sess_ok st \<Longrightarrow> sess_ok (send_event (Ircevent_join w c) st)"
  "sess_ok st \<Longrightarrow> sess_ok (send_event (Ircevent_part w c m) st)"
  "sess_ok st \<Longrightarrow> sess_ok (send_event (Ircevent_kick w c u m) st)"
  "sess_ok st \<Longrightarrow> sess_ok (send_event (Ircevent_nick w n) st)"
  "sess_ok st \<Longrightarrow> sess_ok (send_event (Ircevent_quit w m) st)"
  "sess_ok st \<Longrightarrow> sess_ok (send_event (Ircevent_invite w c) st)"
  "sess_ok st \<Longrightarrow> sess_ok (send_event (Ircevent_srvincoming l b) st)"
  by (rule sess_ok_event; simp add: ircevent_privmsg_new_def)+

lemma sess_mode_user [sess]: "sess_ok st \<Longrightarrow> sess_ok (mode_user_update sign mode chan nick st)"
  unfolding mode_user_update_def Let_def
  by (intro sess irc_map.set_ok sess_users)

lemma sess_mode_loop:
  "sess_ok st \<Longrightarrow> mode_loop origin chan params modes sign pi st = Inr st' \<Longrightarrow> sess_ok st'"
  by (induction origin chan params modes sign pi st rule: mode_loop.induct)
    (auto simp: split: if_splits sum.splits intro: sess)

lemma sess_on_MODE: "sess_ok st \<Longrightarrow> on_MODE origin nparam params st = Inr st' \<Longrightarrow> sess_ok st'"
  by (auto simp: on_MODE_def split: if_splits list.splits dest: sess_mode_loop)

lemma sess_nick_chan [sess]:
  assumes "sess_ok st"
  shows "sess_ok (nick_chan E c nick newnick ident st)"
proof -
  obtain j st1 where j: "is_user_joined E c nick st = (j, st1)" by force
  obtain u st2 where u: "get_user_data c nick st1 = (u, st2)" by force
  have 1: "sess_ok st1" using sess_basic(8) [OF assms, of E c nick] by (simp add: j)
  have 2: "sess_ok st2" using sess_basic(9) [OF 1, of c nick] by (simp add: u)
  show ?thesis using 1 2 by (auto simp: nick_chan_def j u Let_def intro!: sess)
qed

lemma sess_nick_chans [sess]: "sess_ok st \<Longrightarrow> sess_ok (nick_chans E cs nick newnick ident st)"
  by (induction cs arbitrary: st) (auto intro: sess)

lemma sess_isupport_param [sess]: "sess_ok st \<Longrightarrow> sess_ok (isupport_param E p st)"
  by (auto simp: isupport_param_def sess_other_fields split: option.split intro!: sess)

lemma sess_isupport_loop:
  "sess_ok st \<Longrightarrow> isupport_loop E params n i st = Inr st' \<Longrightarrow> sess_ok st'"
proof (induction E params n i st rule: isupport_loop.induct)
  case (1 E params n i st)
  show ?case
  proof (cases "i < n")
    case True
    then show ?thesis using 1 by (auto simp: isupport_loop.simps [of _ _ _ i] intro: sess split: if_splits)
  qed (use 1(2,3) in \<open>simp add: isupport_loop.simps [of _ _ _ i]\<close>)
qed

lemma sess_names [sess]: "sess_ok st \<Longrightarrow> sess_ok (fold (names_add E chan) args st)"
  by (induction args arbitrary: st) (auto simp: names_add_def Let_def intro!: sess)

lemma sess_handlers [sess]:
  assumes "sess_ok st"
  shows "sess_ok (on_PING E params st)" "sess_ok (on_PRIVMSG E t origin ident nparam params cv st)"
    "sess_ok (on_JOIN E origin ident nparam params st)" "sess_ok (on_PART E origin nparam params st)"
    "sess_ok (on_KICK E origin nparam params st)" "sess_ok (on_NICK E origin ident nparam params st)"
    "sess_ok (snd (on_QUIT origin params st))" "sess_ok (snd (on_352 E nparam params lv st))"
    "sess_ok (snd (on_315 E nparam params lv st))" "sess_ok (snd (on_353 E nparam params lv st))"
    "sess_ok (on_INVITE origin nparam params st)" "sess_ok (on_433 E st)"
  using assms
  by (auto simp: on_PING_def on_PRIVMSG_def on_JOIN_def on_PART_def on_KICK_def on_NICK_def on_QUIT_def
      on_352_def on_315_def on_353_def on_INVITE_def on_433_def Let_def sess_other_fields
      split: option.split intro!: sess)

text \<open>A property of the session a turn leaves, if the turn ends without a fault.\<close>

definition res_all :: "(irc \<Rightarrow> bool) \<Rightarrow> c_fault + (loop_result \<times> loop_vars \<times> irc) \<Rightarrow> bool" where
  "res_all P x \<longleftrightarrow> (\<forall>r lv st. x = Inr (r, lv, st) \<longrightarrow> P st)"

lemma res_all_if: "(c \<Longrightarrow> res_all P x) \<Longrightarrow> res_all P y \<Longrightarrow> res_all P (if c then x else y)"
  by simp

lemma res_all_simps:
  "res_all P (Inl f) = True" "res_all P (Inr (r, lv, st)) = P st" "res_all P (Inr (r, p)) = P (snd p)"
  "res_all P (map_sum id (\<lambda>st. (r, lv, st)) y) = (\<forall>st. y = Inr st \<longrightarrow> P st)"
  by (cases p; cases y; auto simp: res_all_def)+

lemma sess_login:
  "sess_ok st \<Longrightarrow> ir_status st = IRCSTATUS_CONNECTING \<Longrightarrow>
    sess_ok (send_event Ircevent_loggedin (st\<lparr>ir_status := IRCSTATUS_CONNECTED\<rparr>))"
  by (auto simp: sess_ok_def life_of_def life_run_snoc irc_inv_def sendq_ok_def send_event_def)

lemma sess_handle_cmd:
  assumes "sess_ok st"
  shows "res_all sess_ok (handle_cmd E now cmd origin ident nparam params lv st)"
proof -
  have q: "res_all sess_ok (case on_QUIT origin params st of (r, st) \<Rightarrow> Inr (r, lv, st))"
    using sess_handlers(7) [OF assms, of origin params]
    by (cases "on_QUIT origin params st") (simp add: res_all_simps)
  have sup: "\<forall>st'. on_005 E nparam params st = Inr st' \<longrightarrow> sess_ok st'"
    using assms sess_isupport_loop by (auto simp: on_005_def)
  have mode: "\<forall>st'. on_MODE origin nparam params st = Inr st' \<longrightarrow> sess_ok st'"
    using assms sess_on_MODE by blast
  have pong: "sess_ok (st\<lparr>ir_last_pong := now\<rparr>)" using assms by (simp add: sess_other_fields)
  show ?thesis
    unfolding handle_cmd_def
    by (intro res_all_if q; (simp only: res_all_simps)?; (intro allI impI)?)
      (use assms sup mode pong sess_login in \<open>auto intro: sess\<close>)
qed

lemma sess_on_timeout [sess]: "sess_ok st \<Longrightarrow> sess_ok (snd (on_timeout E now st))"
  by (auto simp: on_timeout_def Let_def sess_other_fields intro!: sess_ok_event sess)

lemma sess_loop_step:
  assumes "sess_ok st"
  shows "res_all sess_ok (loop_step E now len line lv st)"
proof -
  have line: "res_all sess_ok (handle_line E now line lv st)"
    using sess_event(9) [OF assms] by (auto simp: handle_line_def Let_def res_all_simps sess_handle_cmd split: option.split prod.split)
  have t: "res_all sess_ok (case on_timeout E now st of (r, st) \<Rightarrow> Inr (r, lv, st))"
    using sess_on_timeout [OF assms, of E now]
    by (cases "on_timeout E now st") (simp add: res_all_simps)
  show ?thesis
    unfolding loop_step_def by (intro res_all_if line t) (simp_all add: res_all_simps assms)
qed

subsection \<open>Reads outside the parameter vector\<close>

lemma mode_loop_padded:
  "pi \<le> n \<Longrightarrow> n < length params \<Longrightarrow> params ! n = [] \<Longrightarrow>
    \<exists>st'. mode_loop origin chan params modes sign pi st = Inr st'"
proof (induction origin chan params modes sign pi st rule: mode_loop.induct)
  case (2 origin chan params mode modes sign pi st)
  have at: "params_at params pi = Inr (params ! pi)" using 2(5,6) by (simp add: params_at_def)
  have step: "params ! pi \<noteq> [] \<Longrightarrow> Suc pi \<le> n" using 2(5,7) by (metis Suc_leI le_neq_implies_less)
  consider "mode = 0x2B \<or> mode = 0x2D"
    | "\<not> (mode = 0x2B \<or> mode = 0x2D)" "mode = 0x71 \<or> mode = 0x61 \<or> mode = 0x6F \<or> mode = 0x68 \<or> mode = 0x76"
    | "\<not> (mode = 0x2B \<or> mode = 0x2D)" "\<not> (mode = 0x71 \<or> mode = 0x61 \<or> mode = 0x6F \<or> mode = 0x68 \<or> mode = 0x76)"
      "mode_has_param sign mode"
    | "\<not> (mode = 0x2B \<or> mode = 0x2D)" "\<not> (mode = 0x71 \<or> mode = 0x61 \<or> mode = 0x6F \<or> mode = 0x68 \<or> mode = 0x76)"
      "\<not> mode_has_param sign mode" by blast
  then show ?case
  proof cases
    case 1
    then show ?thesis using "2.IH"(1) 2(5,6,7) by simp
  next
    case c: 2
    show ?thesis using "2.IH"(2) [OF c at] step 2(6,7) c(1)
      by (simp only: mode_loop.simps c(2) at if_False if_True sum.case) auto
  next
    case c: 3
    show ?thesis using "2.IH"(3) [OF c at] step 2(6,7)
      by (simp only: mode_loop.simps c at if_False if_True sum.case) auto
  next
    case c: 4
    show ?thesis using "2.IH"(4) [OF c] 2(5,6,7)
      by (simp only: mode_loop.simps c if_False)
  qed
qed simp

lemma mode_loop_overrun:
  "\<forall>p \<in> set params. p \<noteq> [] \<Longrightarrow> pi \<le> length params \<Longrightarrow> length params < pi + k \<Longrightarrow>
    mode_loop origin chan params (replicate k 0x6F) sign pi st = Inl Read_past_end"
proof (induction k arbitrary: pi st)
  case (Suc k)
  show ?case
  proof (cases "pi < length params")
    case True
    then have "params ! pi \<noteq> []" using Suc.prems(1) by simp
    then show ?thesis using True Suc.IH [of "Suc pi"] Suc.prems by (simp add: params_at_def)
  qed (simp add: params_at_def)
qed (auto simp: params_at_def)

lemma isupport_loop_inrange: "n \<le> length params \<Longrightarrow> \<exists>st'. isupport_loop E params n i st = Inr st'"
proof (induction E params n i st rule: isupport_loop.induct)
  case (1 E params n i st)
  then show ?case by (cases "i < n") (simp_all add: isupport_loop.simps [of _ _ _ i])
qed

lemma isupport_loop_overrun:
  "length params < n \<Longrightarrow> i \<le> length params \<Longrightarrow> isupport_loop E params n i st = Inl Read_past_end"
proof (induction E params n i st rule: isupport_loop.induct)
  case (1 E params n i st)
  show ?case
  proof (cases "i < length params")
    case True
    then show ?thesis using 1 by (subst isupport_loop.simps) simp
  next
    case False
    then show ?thesis using 1(2,3) by (subst isupport_loop.simps) simp
  qed
qed

lemma handle_cmd_fault_only:
  "handle_cmd E now cmd origin ident nparam params lv st = Inl f \<Longrightarrow>
    (cmd = c_lit ''MODE'' \<and> on_MODE origin nparam params st = Inl f) \<or>
    (cmd = c_lit ''005'' \<and> on_005 E nparam params st = Inl f)"
  unfolding handle_cmd_def
  by (auto simp: map_sum.simps split: if_splits prod.splits) (auto simp: map_sum_def split: sum.splits)

lemma on_MODE_padded:
  assumes "length params < 32"
  shows "\<exists>st'. on_MODE origin (length params) (resize_params params) st = Inr st'"
proof (cases "2 \<le> length params")
  case True
  let ?p = "resize_params params"
  have "?p ! length params = []" "length params < length ?p"
    using assms by (simp_all add: resize_params_def nth_append)
  then show ?thesis using mode_loop_padded [OF True, of ?p]
    by (auto simp: on_MODE_def split: list.split)
qed (simp add: on_MODE_def)

lemma on_005_nonempty:
  assumes "params \<noteq> []" and "length params < 2 ^ 32"
  shows "\<exists>st'. on_005 E (length params) (resize_params params) st = Inr st'"
proof -
  have "unat ((of_nat (length params) :: u32) - 1) = length params - 1"
  proof -
    have "(of_nat (length params) :: u32) - 1 = of_nat (length params - 1)"
      using assms(1) by (simp add: of_nat_diff Suc_leI)
    then show ?thesis using assms(2) by (simp only: unat_of_nat) simp
  qed
  then show ?thesis unfolding on_005_def
    by (intro isupport_loop_inrange) (simp add: resize_params_def)
qed



subsection \<open>Who is where\<close>

text \<open>The abstract state of the user lists: the pairs of a channel and a nick on it, both folded. An
  event of the server changes it as \<open>member_step\<close> says; \<open>J\<close> is the set of channels the client is on.\<close>

definition members :: "irc \<Rightarrow> (byte list \<times> byte list) set" where
  "members st = {(irc_strlower c, irc_strlower n) | c n. chan_user c n st \<noteq> None}"

datatype member_event =
    Joins "byte list" "byte list" | Parts "byte list" "byte list"
  | Quits "byte list" | Renames "byte list" "byte list"

fun member_step :: "byte list set \<Rightarrow> member_event \<Rightarrow> (byte list \<times> byte list) set \<Rightarrow> (byte list \<times> byte list) set" where
  "member_step J (Joins n c) M = insert (c, n) M"
| "member_step J (Parts n c) M = M - {(c, n)}"
| "member_step J (Quits n) M = {(c, m) \<in> M. \<not> (m = n \<and> c \<in> J)}"
| "member_step J (Renames n m) M =
    {(c, k) \<in> M. \<not> (k = n \<and> c \<in> J)} \<union> {(c, m) | c. c \<in> J \<and> (c, n) \<in> M}"

definition joined_chans :: "irc \<Rightarrow> byte list set" where
  "joined_chans st = irc_strlower ` set (ir_chans st)"

lemma chan_user_same:
  assumes "irc_inv st" and "same_name c c'" and "same_name n n'"
  shows "chan_user c n st = chan_user c' n' st"
  using chan_same [OF assms(1,2)] find_same_name [OF assms(3)]
  by (simp add: chan_user_def)

lemma members_iff: "irc_inv st \<Longrightarrow> (irc_strlower c, irc_strlower n) \<in> members st \<longleftrightarrow> chan_user c n st \<noteq> None"
proof
  assume i: "irc_inv st" and "(irc_strlower c, irc_strlower n) \<in> members st"
  then obtain c' n' where "irc_strlower c = irc_strlower c'" "irc_strlower n = irc_strlower n'" "chan_user c' n' st \<noteq> None"
    by (auto simp: members_def)
  then show "chan_user c n st \<noteq> None" using chan_user_same [OF i, of c c' n n'] by (simp add: same_name_def)
qed (use members_def in blast)

lemma members_eqI:
  assumes "irc_inv st" and "\<And>c n. chan_user c n st \<noteq> None \<longleftrightarrow> (irc_strlower c, irc_strlower n) \<in> M"
    and "\<And>c n. (c, n) \<in> M \<Longrightarrow> c \<in> range irc_strlower \<and> n \<in> range irc_strlower"
  shows "members st = M"
proof (intro set_eqI iffI; clarify)
  fix c n assume "(c, n) \<in> members st"
  then show "(c, n) \<in> M" using assms(2) by (auto simp: members_def)
next
  fix c n assume m: "(c, n) \<in> M"
  then obtain c' n' where "c = irc_strlower c'" "n = irc_strlower n'" using assms(3) by blast
  then show "(c, n) \<in> members st" using m assms(2) members_iff [OF assms(1)] by simp
qed

lemma members_range: "(c, n) \<in> members st \<Longrightarrow> c \<in> range irc_strlower \<and> n \<in> range irc_strlower"
  by (auto simp: members_def)

text \<open>A nick as a server writes it: nonempty, on one line, without mode characters in front.\<close>

definition plain_nick :: "byte list \<Rightarrow> bool" where
  "plain_nick n \<longleftrightarrow> n \<noteq> [] \<and> \<not> modechar (hd n) \<and> 0x0A \<notin> set n"

lemma plain_nickD:
  "plain_nick n \<Longrightarrow> dropWhile modechar n = n" "plain_nick n \<Longrightarrow> takeWhile modechar n = []"
  "plain_nick n \<Longrightarrow> n \<noteq> []" "plain_nick n \<Longrightarrow> 0x0A \<notin> set n"
  by (cases n; simp add: plain_nick_def)+

lemma members_add:
  assumes "irc_pcre (en_pcre E)" "irc_inv st" "c \<noteq> []" "n \<noteq> []" "0x0A \<notin> set n"
  shows "members (snd (add_to_chanuserlist E c n i st)) =
    insert (irc_strlower c, irc_strlower (dropWhile modechar n)) (members st)"
  using add_user_lookup [OF assms, of _ _ i] assms(2) members_iff [OF assms(2)] members_range [of _ _ st]
  by (intro members_eqI) (auto simp: same_name_def Let_def)

lemma members_del:
  assumes "irc_pcre (en_pcre E)" "irc_inv st" "c \<noteq> []" "n \<noteq> []" "0x0A \<notin> set n"
  shows "members (snd (del_from_chanuserlist E c n st)) =
    members st - {(irc_strlower c, irc_strlower (dropWhile modechar n))}"
  using del_user_lookup(1) [OF assms] assms(2) members_iff [OF assms(2)] members_range [of _ _ st]
  by (intro members_eqI) (auto simp: same_name_def)

lemma members_users: "ir_chan_users st' = ir_chan_users st \<Longrightarrow> members st' = members st"
  by (simp add: members_def chan_user_def users_of_def)

lemma members_event [simp]: "members (send_event ev st) = members st"
  "members (st\<lparr>ir_pause_main_thread := b\<rparr>) = members st" "members (st\<lparr>ir_nick := x\<rparr>) = members st"
  by (rule members_users; simp)+

text \<open>\<open>re_extract_nick\<close> strips the mode characters like \<open>re_split_nick_usermode\<close> does.\<close>

definition nick_pcre :: "byte pcre \<Rightarrow> bool" where
  "nick_pcre R \<longleftrightarrow> irc_pcre R \<and> (\<forall>s. re_full R re_extract_nick s =
    (if 0x0A \<in> set (dropWhile modechar s) then None else Some [dropWhile modechar s]))"

lemma nick_pcreD: "nick_pcre R \<Longrightarrow> irc_pcre R"
  by (simp add: nick_pcre_def)

lemma user_joined_eq:
  assumes "nick_pcre (en_pcre E)" "irc_inv st" "c \<noteq> []" "plain_nick n"
  shows "fst (is_user_joined E c n st) \<longleftrightarrow> chan_user c n st \<noteq> None"
  using assms plain_nickD [OF assms(4)] by (simp add: is_user_joined_def Let_def nick_pcre_def chan_user_def)

lemma user_joined_members: "irc_inv st \<Longrightarrow> members (snd (is_user_joined E c n st)) = members st"
  by (simp add: members_def is_user_joined_def Let_def)

lemma members_del_chans:
  assumes "nick_pcre (en_pcre E)" "plain_nick n"
  shows "irc_inv st \<Longrightarrow> [] \<notin> set cs \<Longrightarrow>
    members (del_from_chans E cs n st) = member_step (irc_strlower ` set cs) (Quits (irc_strlower n)) (members st)"
proof (induction cs arbitrary: st)
  case (Cons c cs)
  note p = plain_nickD [OF assms(2)]
  obtain j st1 where j: "is_user_joined E c n st = (j, st1)" by force
  have i1: "irc_inv st1" and m1: "members st1 = members st"
    using inv_is_user_joined [OF Cons.prems(1), of E c n] user_joined_members [OF Cons.prems(1), of E c n]
    by (simp_all add: j)
  have ne: "c \<noteq> []" using Cons.prems(2) by auto
  have jn: "j \<longleftrightarrow> (irc_strlower c, irc_strlower n) \<in> members st"
    using user_joined_eq [OF assms(1) Cons.prems(1) ne assms(2)]
    by (simp add: j members_iff [OF Cons.prems(1)])
  let ?st2 = "if j then snd (del_from_chanuserlist E c n st1) else st1"
  have i2: "irc_inv ?st2" using i1 by (auto intro: inv_del_user)
  have m2: "members ?st2 = members st - {(irc_strlower c, irc_strlower n)}"
    using members_del [OF nick_pcreD [OF assms(1)] i1, of c n] Cons.prems(2) p jn m1 by auto
  have "members (del_from_chans E (c # cs) n st) = members (del_from_chans E cs n ?st2)"
    by (simp add: j)
  also have "\<dots> = member_step (irc_strlower ` set cs) (Quits (irc_strlower n)) (members ?st2)"
    using Cons.IH [OF i2] Cons.prems(2) by auto
  finally show ?case unfolding m2 by auto
qed auto

text \<open>Every user's mode string consists of mode characters.\<close>

definition modes_ok :: "irc \<Rightarrow> bool" where
  "modes_ok st \<longleftrightarrow> (\<forall>m \<in> snd ` set (ir_chan_users st). \<forall>u \<in> snd ` set m. \<forall>x \<in> set (iu_chanmode u). modechar x)"

lemma modes_ok_user: "modes_ok st \<Longrightarrow> chan_user c n st = Some u \<Longrightarrow> \<forall>x \<in> set (iu_chanmode u). modechar x"
  using smap_find_val [of irc_string_less n "users_of c st" u] smap_find_val [of irc_string_less c "ir_chan_users st"]
  by (auto simp: chan_user_def users_of_def modes_ok_def split: option.splits)

text \<open>The user after a change of nick on a channel.\<close>

definition renamed_user :: "irc_env \<Rightarrow> byte list \<Rightarrow> byte list \<Rightarrow> byte list \<Rightarrow> byte list \<Rightarrow> irc \<Rightarrow> irc_user \<Rightarrow> irc_user" where
  "renamed_user E c nick newnick ident st u =
    (let v = (if same_name nick newnick then irc_user_default
              else case chan_user c newnick st of Some v \<Rightarrow> v | None \<Rightarrow> irc_user_default);
         v = (if ident = [] then v else snd (irc_ident_set_ident (en_pcre E) ident v))
     in v\<lparr>iu_chanmode := iu_chanmode u, ii_nick := newnick\<rparr>)"

lemma same_name_refl [simp]: "same_name n n"
  by (simp add: same_name_def)

lemma inv_nick_chan: "irc_inv st \<Longrightarrow> irc_inv (nick_chan E c nick newnick ident st)"
proof -
  assume i: "irc_inv st"
  obtain j st1 where j: "is_user_joined E c nick st = (j, st1)" by force
  obtain u st2 where u: "get_user_data c nick st1 = (u, st2)" by force
  have 1: "irc_inv st1" using inv_is_user_joined [OF i, of E c nick] by (simp add: j)
  have 2: "irc_inv st2" using inv_get_user_data [OF 1, of c nick] by (simp add: u)
  show ?thesis using 1 2 by (auto simp: nick_chan_def j u Let_def)
qed

lemma nick_chan_lookup:
  assumes "nick_pcre (en_pcre E)" "irc_inv st" "c \<noteq> []" "plain_nick nick" "plain_nick newnick"
    and "\<And>u. chan_user c nick st = Some u \<Longrightarrow> \<forall>x \<in> set (iu_chanmode u). modechar x"
  shows "chan_user c' n' (nick_chan E c nick newnick ident st) =
    (case chan_user c nick st of
       Some u \<Rightarrow>
         (if same_name c c' then
            (if same_name newnick n' then Some (renamed_user E c nick newnick ident st u)
             else if same_name nick n' then None else chan_user c' n' st)
          else chan_user c' n' st)
     | None \<Rightarrow> chan_user c' n' st)"
proof -
  note p = plain_nickD [OF assms(4)] and q = plain_nickD [OF assms(5)]
  note R = nick_pcreD [OF assms(1)]
  obtain j st1 where j: "is_user_joined E c nick st = (j, st1)" by force
  have st1: "st1 = touch_chan c st" using j assms(3) p(3) by (auto simp: is_user_joined_def Let_def)
  have i1: "irc_inv st1" unfolding st1 using assms(2) by (rule inv_touch)
  have jn: "j \<longleftrightarrow> chan_user c nick st \<noteq> None"
    using user_joined_eq [OF assms(1-4)] by (simp add: j)
  have g: "get_user_data c nick st1 = (chan_user c nick st, touch_chan c st1)"
    using assms(2,3) p(3) by (simp add: get_user_data_def Let_def st1 chan_user_def inv_touch)
  let ?st2 = "touch_chan c st1"
  have i2: "irc_inv ?st2" using i1 by (rule inv_touch)
  have cu2: "chan_user a b ?st2 = chan_user a b st" for a b
    using i1 assms(2) by (simp add: st1)
  show ?thesis
  proof (cases "chan_user c nick st")
    case None
    then show ?thesis using jn assms(2) by (simp add: nick_chan_def j st1)
  next
    case (Some u)
    let ?n2 = "iu_chanmode u @ newnick"
    let ?st3 = "snd (del_from_chanuserlist E c nick ?st2)"
    have i3: "irc_inv ?st3" using i2 by (rule inv_del_user)
    have cu3: "chan_user a b ?st3 = (if same_name c a \<and> same_name nick b then None else chan_user a b st)" for a b
      using del_user_lookup(1) [OF R i2 assms(3) p(3,4)] by (simp add: p(1) cu2)
    have m: "\<forall>x \<in> set (iu_chanmode u). modechar x" by (rule assms(6) [OF Some])
    have n2: "takeWhile modechar ?n2 = iu_chanmode u" "dropWhile modechar ?n2 = newnick" "?n2 \<noteq> []" "0x0A \<notin> set ?n2"
      using m p q by (auto simp: modechar_def c_lit_def)
    have "nick_chan E c nick newnick ident st = snd (add_to_chanuserlist E c ?n2 ident ?st3)"
      using jn Some by (simp add: nick_chan_def j g)
    then show ?thesis
      using add_user_lookup [OF R i3 assms(3) n2(3,4), of c' n' ident] n2(1,2)
      by (auto simp: cu3 Some renamed_user_def Let_def same_name_def)
  qed
qed

lemma renamed_user_cong:
  "chan_user c newnick st = chan_user c' newnick st' \<Longrightarrow>
    renamed_user E c nick newnick ident st u = renamed_user E c' nick newnick ident st' u"
  by (simp add: renamed_user_def)

lemma nick_chans_lookup:
  assumes "nick_pcre (en_pcre E)" "plain_nick nick" "plain_nick newnick"
  shows "irc_inv st \<Longrightarrow> [] \<notin> set cs \<Longrightarrow> distinct (map irc_strlower cs) \<Longrightarrow>
    (\<And>c u. chan_user c nick st = Some u \<Longrightarrow> \<forall>x \<in> set (iu_chanmode u). modechar x) \<Longrightarrow>
    chan_user c' n' (nick_chans E cs nick newnick ident st) =
    (case chan_user c' nick st of
       Some u \<Rightarrow>
         (if irc_strlower c' \<in> irc_strlower ` set cs then
            (if same_name newnick n' then Some (renamed_user E c' nick newnick ident st u)
             else if same_name nick n' then None else chan_user c' n' st)
          else chan_user c' n' st)
     | None \<Rightarrow> chan_user c' n' st)"
proof (induction cs arbitrary: st)
  case (Cons c cs)
  let ?st' = "nick_chan E c nick newnick ident st"
  have c: "c \<noteq> []" using Cons.prems(2) by auto
  have look: "chan_user c' n' ?st' = (case chan_user c nick st of
       Some u \<Rightarrow>
         (if same_name c c' then
            (if same_name newnick n' then Some (renamed_user E c nick newnick ident st u)
             else if same_name nick n' then None else chan_user c' n' st)
          else chan_user c' n' st)
     | None \<Rightarrow> chan_user c' n' st)" for c' n'
    by (rule nick_chan_lookup [OF assms(1) Cons.prems(1) c assms(2,3) Cons.prems(4)])
  have inv': "irc_inv ?st'" by (rule inv_nick_chan [OF Cons.prems(1)])
  have modes': "\<forall>x \<in> set (iu_chanmode u). modechar x" if "chan_user d nick ?st' = Some u" for d u
    using that Cons.prems(4) look [of d nick]
    by (auto simp: renamed_user_def Let_def split: option.splits if_splits)
  have IH: "chan_user c' n' (nick_chans E (c # cs) nick newnick ident st) =
    (case chan_user c' nick ?st' of
       Some u \<Rightarrow>
         (if irc_strlower c' \<in> irc_strlower ` set cs then
            (if same_name newnick n' then Some (renamed_user E c' nick newnick ident ?st' u)
             else if same_name nick n' then None else chan_user c' n' ?st')
          else chan_user c' n' ?st')
     | None \<Rightarrow> chan_user c' n' ?st')"
    unfolding nick_chans.simps using Cons.prems(2,3) by (intro Cons.IH [OF inv' _ _ modes']) auto
  show ?case
  proof (cases "same_name c c'")
    case True
    have same: "chan_user c m st = chan_user c' m st" for m
      using chan_user_same [OF Cons.prems(1) True] by simp
    have "irc_strlower c' \<notin> irc_strlower ` set cs"
      using Cons.prems(3) True by (auto simp: same_name_def)
    then have "chan_user c' n' (nick_chans E (c # cs) nick newnick ident st) = chan_user c' n' ?st'"
      unfolding IH by (simp split: option.split)
    then show ?thesis using True look [of c' n'] renamed_user_cong [OF same, of E nick newnick ident]
      by (auto simp: same same_name_def split: option.split)
  next
    case False
    then have "chan_user c' m ?st' = chan_user c' m st" for m
      using look [of c' m] by (simp split: option.splits)
    moreover have "irc_strlower c' \<in> irc_strlower ` set (c # cs) \<longleftrightarrow> irc_strlower c' \<in> irc_strlower ` set cs"
      using False by (auto simp: same_name_def)
    ultimately show ?thesis unfolding IH using renamed_user_cong [of c' newnick ?st' c' st E nick ident]
      by (simp split: option.split)
  qed
qed (simp split: option.split)

lemma inv_nick_chans: "irc_inv st \<Longrightarrow> irc_inv (nick_chans E cs nick newnick ident st)"
  by (induction cs arbitrary: st) (auto intro: inv_nick_chan)

lemma members_nick_chans:
  assumes "nick_pcre (en_pcre E)" "plain_nick nick" "plain_nick newnick"
    and "irc_inv st" "[] \<notin> set cs" "distinct (map irc_strlower cs)" "modes_ok st"
  shows "members (nick_chans E cs nick newnick ident st) =
    member_step (irc_strlower ` set cs) (Renames (irc_strlower nick) (irc_strlower newnick)) (members st)"
proof (rule members_eqI)
  show "irc_inv (nick_chans E cs nick newnick ident st)" using assms(4) by (rule inv_nick_chans)
  fix c n
  have u: "chan_user a nick st = Some v \<Longrightarrow> \<forall>x \<in> set (iu_chanmode v). modechar x" for a v
    by (rule modes_ok_user [OF assms(7)])
  have look: "chan_user c n (nick_chans E cs nick newnick ident st) =
    (case chan_user c nick st of
       Some u \<Rightarrow>
         (if irc_strlower c \<in> irc_strlower ` set cs then
            (if same_name newnick n then Some (renamed_user E c nick newnick ident st u)
             else if same_name nick n then None else chan_user c n st)
          else chan_user c n st)
     | None \<Rightarrow> chan_user c n st)"
    by (rule nick_chans_lookup [OF assms(1-6)]) (rule u)
  have same: "same_name nick n \<Longrightarrow> chan_user c n st = chan_user c nick st"
    using chan_user_same [OF assms(4), of c c nick n] by simp
  show "chan_user c n (nick_chans E cs nick newnick ident st) \<noteq> None \<longleftrightarrow> (irc_strlower c, irc_strlower n) \<in>
      member_step (irc_strlower ` set cs) (Renames (irc_strlower nick) (irc_strlower newnick)) (members st)"
    unfolding look using same
    by (cases "chan_user c nick st") (auto simp: members_iff [OF assms(4)] same_name_def split: if_splits)
next
  fix c n
  assume "(c, n) \<in> member_step (irc_strlower ` set cs) (Renames (irc_strlower nick) (irc_strlower newnick)) (members st)"
  then show "c \<in> range irc_strlower \<and> n \<in> range irc_strlower"
    using members_range [of _ _ st] by auto
qed


definition nick_pcre_instance :: "byte pcre" where
  "nick_pcre_instance = irc_pcre_instance\<lparr>re_full := (\<lambda>p s.
    if p = re_extract_nick then
      (if 0x0A \<in> set (dropWhile modechar s) then None else Some [dropWhile modechar s])
    else re_full irc_pcre_instance p s)\<rparr>"

lemma re_extract_nick_distinct:
  "re_extract_nick \<notin> {re_split_nick_usermode, re_split_ident, re_action_message, re_ctcp_message}"
  by (simp add: re_extract_nick_def re_split_nick_usermode_def re_split_ident_def re_action_message_def
      re_ctcp_message_def c_lit_def)

lemma nick_pcre_instance: "nick_pcre nick_pcre_instance"
  using irc_pcre_instance re_extract_nick_distinct
  by (auto simp: nick_pcre_def irc_pcre_def nick_pcre_instance_def)

definition env_witness2 :: irc_env where
  "env_witness2 = env_witness\<lparr>en_pcre := nick_pcre_instance\<rparr>"


subsection \<open>A change of nick\<close>

text \<open>On every channel of the client a user who changes the nick keeps the channel modes: the user is
  found under the new nick with the same modes, also when it is the client itself, whose own nick
  follows. The stored identity string is that of the \<open>NICK\<close> line, with the old nick: \<open>irc_user::set_nick\<close>
  does not rebuild it.\<close>

theorem nick_change_keeps_modes:
  assumes "nick_pcre (en_pcre E)" "irc_inv st" "modes_ok st"
    and "plain_nick (ii_nick origin)" "plain_nick (params ! 0)" "1 \<le> nparam"
    and "is_joined c st" "c \<noteq> []" "chan_user c (ii_nick origin) st = Some u" "ident \<noteq> []"
  shows "(\<exists>v. chan_user c (params ! 0) (on_NICK E origin ident nparam params st) = Some v \<and>
      iu_chanmode v = iu_chanmode u \<and> ii_nick v = params ! 0 \<and> ii_ident v = ident) \<and>
    ir_nick (on_NICK E origin ident nparam params st) =
      (if ii_nick origin = ir_nick st then params ! 0 else ir_nick st)"
proof -
  let ?s = "if ii_nick origin = ir_nick st then st\<lparr>ir_nick := params ! 0\<rparr> else st"
  have s: "irc_inv ?s" "ir_chans ?s = ir_chans st" "chan_user a b ?s = chan_user a b st" for a b
    using assms(2) by (simp_all add: inv_other_fields chan_user_def users_of_def)
  have chans: "[] \<notin> set (ir_chans st)" "distinct (map irc_strlower (ir_chans st))"
    using assms(2) by (simp_all add: irc_inv_def chans_ok_def)
  have c: "irc_strlower c \<in> irc_strlower ` set (ir_chans st)"
    using assms(7,8) by (simp add: is_joined_def chan_known_iff)
  have nick: "ir_nick (nick_chans E cs n m ident t) = ir_nick t" for cs n m t
    by (induction cs arbitrary: t) (simp_all add: nick_chan_def Let_def split_beta)
  have mods: "chan_user a (ii_nick origin) ?s = Some v \<Longrightarrow> \<forall>x \<in> set (iu_chanmode v). modechar x" for a v
    using modes_ok_user [OF assms(3)] by (simp only: s)
  have "chan_user c (params ! 0) (nick_chans E (ir_chans ?s) (ii_nick origin) (params ! 0) ident ?s) =
      Some (renamed_user E c (ii_nick origin) (params ! 0) ident ?s u)"
  proof -
    have "chan_user c (params ! 0) (nick_chans E (ir_chans st) (ii_nick origin) (params ! 0) ident ?s) =
      (case chan_user c (ii_nick origin) ?s of
       Some u \<Rightarrow>
         (if irc_strlower c \<in> irc_strlower ` set (ir_chans st) then
            (if same_name (params ! 0) (params ! 0) then Some (renamed_user E c (ii_nick origin) (params ! 0) ident ?s u)
             else if same_name (ii_nick origin) (params ! 0) then None else chan_user c (params ! 0) ?s)
          else chan_user c (params ! 0) ?s)
       | None \<Rightarrow> chan_user c (params ! 0) ?s)"
      by (rule nick_chans_lookup [OF assms(1,4,5) s(1) chans]) (rule mods)
    then show ?thesis using c assms(9) by (simp only: s) simp
  qed
  moreover have "ii_ident (snd (irc_ident_set_ident (en_pcre E) ident v)) = ident" for v :: irc_user
    by (rule set_ident_cases [where R = "en_pcre E" and s = ident and i = v])
      (use nick_pcreD [OF assms(1)] assms(10) in \<open>auto simp: set_ident_parts\<close>)
  ultimately show ?thesis using assms(6,10)
    by (auto simp: on_NICK_def Let_def nick renamed_user_def chan_user_def users_of_def)
qed

subsection \<open>A message on its way\<close>

lemma framed_parts: "match_framed tag ([1] @ tag @ x @ [1]) = (if 0x0A \<in> set x then None else Some [x])"
  using match_framed_iff [of tag "[1] @ tag @ x @ [1]" "[x]"] match_framed_iff [of tag "[1] @ tag @ x @ [1]"]
  by (cases "match_framed tag ([1] @ tag @ x @ [1])") auto

definition wire_text :: "irc_msgtype \<Rightarrow> byte list \<Rightarrow> byte list" where
  "wire_text t msg =
    (if t = IRC_MSGTYPE_ACTION then [1] @ c_lit ''ACTION '' @ msg @ [1]
     else if t = IRC_MSGTYPE_CTCP \<or> t = IRC_MSGTYPE_CTCPREPLY then [1] @ msg @ [1] else msg)"

definition wire_cmd :: "irc_msgtype \<Rightarrow> byte list" where
  "wire_cmd t = (if t = IRC_MSGTYPE_NOTICE \<or> t = IRC_MSGTYPE_CTCPREPLY then c_lit ''NOTICE'' else c_lit ''PRIVMSG'')"

text \<open>The messages that arrive as they were sent: no frame of their own, and a CTCP request that is not
  an action.\<close>

definition sendable :: "irc_msgtype \<Rightarrow> byte list \<Rightarrow> bool" where
  "sendable t msg \<longleftrightarrow> msg \<noteq> [] \<and> cstr_ok msg \<and> 0x0A \<notin> set msg \<and> 0x0D \<notin> set msg \<and>
    (t = IRC_MSGTYPE_NORMAL \<and> \<not> ctcp_framed msg \<or> t = IRC_MSGTYPE_NOTICE \<and> \<not> ctcp_framed msg \<or>
     t = IRC_MSGTYPE_ACTION \<or> t = IRC_MSGTYPE_CTCP \<and> (\<nexists>x. msg = c_lit ''ACTION '' @ x) \<or> t = IRC_MSGTYPE_CTCPREPLY)"

lemma classify_wire:
  assumes "irc_pcre R" and "sendable t msg"
  shows "privmsg_classify R (if t = IRC_MSGTYPE_NOTICE \<or> t = IRC_MSGTYPE_CTCPREPLY then IRC_MSGTYPE_NOTICE
      else IRC_MSGTYPE_NORMAL) (wire_text t msg) = (t, msg)"
proof -
  have nl: "0x0A \<notin> set msg" using assms(2) by (simp add: sendable_def)
  have f: "match_framed [] ([1] @ msg @ [1]) = Some [msg]" using framed_parts [of "[]" msg] nl by simp
  have a: "match_framed (c_lit ''ACTION '') ([1] @ c_lit ''ACTION '' @ msg @ [1]) = Some [msg]"
    using framed_parts nl by simp
  have n: "match_framed (c_lit ''ACTION '') ([1] @ msg @ [1]) = None" if "\<nexists>x. msg = c_lit ''ACTION '' @ x"
    using that match_framed_iff [of "c_lit ''ACTION ''" "[1] @ msg @ [1]"]
    by (cases "match_framed (c_lit ''ACTION '') ([1] @ msg @ [1])") auto
  consider "t = IRC_MSGTYPE_NORMAL" "\<not> ctcp_framed msg" | "t = IRC_MSGTYPE_NOTICE" "\<not> ctcp_framed msg"
    | "t = IRC_MSGTYPE_ACTION" | "t = IRC_MSGTYPE_CTCP" "\<nexists>x. msg = c_lit ''ACTION '' @ x" | "t = IRC_MSGTYPE_CTCPREPLY"
    using assms(2) by (auto simp: sendable_def)
  then show ?thesis
  proof cases
    case 3
    then show ?thesis using a unfolding privmsg_classify_def wire_text_def irc_pcreD [OF assms(1)] by simp
  next
    case 4
    then show ?thesis using f n unfolding privmsg_classify_def wire_text_def irc_pcreD [OF assms(1)] by simp
  next
    case 5
    then show ?thesis using f unfolding privmsg_classify_def wire_text_def irc_pcreD [OF assms(1)] by simp
  qed (simp_all add: wire_text_def classify_unframed [OF assms(1)])
qed

lemma privmsg_line_wire:
  "sendable t msg \<Longrightarrow> privmsg_line t chan msg = Some (render_line None (wire_cmd t) [chan] (Some (wire_text t msg)))"
  by (auto simp: sendable_def privmsg_line_def render_line_def wire_cmd_def wire_text_def c_lit_def)

lemma strupper_cmd: "irc_strupper (c_lit ''PRIVMSG'') = c_lit ''PRIVMSG''" "irc_strupper (c_lit ''NOTICE'') = c_lit ''NOTICE''"
  by (simp_all add: irc_strupper_def irc_strupper_loop until_nul_def c_lit_def irc_toupper_unfold irc_unfold_def)

lemma wire_line_words:
  assumes "sendable t msg"
  shows "line_word (wire_cmd t)" "irc_strupper (wire_cmd t) = wire_cmd t" "cstr_ok (wire_text t msg)"
    "0x0A \<notin> set (wire_text t msg)" "0x0D \<notin> set (wire_text t msg)"
  using assms strupper_cmd
  by (auto simp: wire_cmd_def wire_text_def sendable_def line_word_def IRC_MAX_LINE_SIZE_def c_lit_def)

lemma handle_wire:
  assumes "irc_pcre (en_pcre E)" and "sendable t msg" and "middle_word chan" and "line_word src" and "ir_conv_s2m B = None"
  defines "line \<equiv> 0x3A # src @ 0x20 # render_line None (wire_cmd t) [chan] (Some (wire_text t msg))"
  shows "handle_line E now line lv B = Inr (Go_on, lv,
    send_event (Ircevent_privmsg (irc_privmsg_new (en_pcre E) (irc_ident_new (en_pcre E) src)
      (irc_msginfo_new chan (if t = IRC_MSGTYPE_NOTICE \<or> t = IRC_MSGTYPE_CTCPREPLY then IRC_MSGTYPE_NOTICE
      else IRC_MSGTYPE_NORMAL) IRC_CHANTYPE_CHAN (lv_line_converted lv)) (wire_text t msg)))
    (send_event (Ircevent_srvincoming line (lv_line_converted lv)) B))"
proof -
  note w = wire_line_words [OF assms(2)]
  have l: "line = render_line (Some src) (wire_cmd t) [chan] (Some (wire_text t msg))"
    by (simp add: line_def render_line_def)
  have p: "parse_irc_line line = (0, src, wire_cmd t, [chan, wire_text t msg])"
    unfolding l using assms(3,4) w by (subst parse_render) simp_all
  have src: "src \<noteq> []" using assms(4) by (simp add: line_word_def)
  have r: "resize_params [chan, wire_text t msg] ! 0 = chan" "resize_params [chan, wire_text t msg] ! 1 = wire_text t msg"
    by (simp_all add: resize_params_def)
  show ?thesis
  proof (cases "t = IRC_MSGTYPE_NOTICE \<or> t = IRC_MSGTYPE_CTCPREPLY")
    case True
    then have "wire_cmd t = c_lit ''NOTICE''" by (simp add: wire_cmd_def)
    then show ?thesis unfolding handle_line_def assms(5) option.case prod.case Let_def p if_P [OF True]
      by (simp add: handle_cmd_def c_lit_def on_PRIVMSG_def src r ircevent_privmsg_new_def del: One_nat_def)
  next
    case False
    then have "wire_cmd t = c_lit ''PRIVMSG''" by (simp add: wire_cmd_def)
    then show ?thesis unfolding handle_line_def assms(5) option.case prod.case Let_def p if_not_P [OF False]
      by (simp add: handle_cmd_def c_lit_def on_PRIVMSG_def src r ircevent_privmsg_new_def del: One_nat_def)
  qed
qed

text \<open>What one client sends with \<open>privmsg\<close> and the server relays behind the sender's prefix, as a line that
  another client handles.\<close>

lemma privmsg_relayed:
  assumes "ir_status A = IRCSTATUS_CONNECTED" "ir_enable_flood_protection A" "ir_conv_m2s A = None"
    and "mi_chantype dest \<noteq> IRC_CHANTYPE_DCC" "sendable (mi_msgtype dest) msg"
    and "middle_word (mi_chan dest)" "0x0A \<notin> set (mi_chan dest)" "0x0D \<notin> set (mi_chan dest)"
    and "length (mi_chan dest) + length msg < 480"
    and "irc_pcre (en_pcre E')" "line_word src" "ir_conv_s2m B = None"
  shows "\<exists>A' l B' pm. privmsg E dest msg A = (0, A') \<and> one_line l = l \<and> length l < IRC_MAX_LINE_SIZE \<and>
    ir_send_queue A' = ir_send_queue A @ [\<lparr>sq_line = l @ [0x0D, 0x0A], sq_priority = mi_priority dest\<rparr>] \<and>
    handle_line E' now (0x3A # src @ 0x20 # l) lv B = Inr (Go_on, lv, B') \<and>
    ir_events B' = ir_events B @
      [Ircevent_srvincoming (0x3A # src @ 0x20 # l) (lv_line_converted lv), Ircevent_privmsg pm] \<and>
    pm_ident pm = irc_ident_new (en_pcre E') src \<and> pm_msg pm = msg \<and> mi_msgtype (pm_msginfo pm) = mi_msgtype dest \<and>
    (chan_prefix (mi_chan dest) \<longrightarrow>
      mi_chantype (pm_msginfo pm) = IRC_CHANTYPE_CHAN \<and> mi_chan (pm_msginfo pm) = mi_chan dest)"
proof -
  let ?t = "mi_msgtype dest"
  let ?l = "render_line None (wire_cmd ?t) [mi_chan dest] (Some (wire_text ?t msg))"
  note w = wire_line_words [OF assms(5)]
  have chan: "cstr_ok (mi_chan dest)" using assms(6) by (simp add: middle_word_def line_word_def)
  have msg: "cstr_ok msg" "msg \<noteq> []" using assms(5) by (simp_all add: sendable_def)
  have cmd: "cstr_ok (wire_cmd ?t)" "0x0A \<notin> set (wire_cmd ?t)" "0x0D \<notin> set (wire_cmd ?t)" "length (wire_cmd ?t) \<le> 7"
    by (simp_all add: wire_cmd_def c_lit_def)
  have clean: "cstr_ok ?l" "0x0A \<notin> set ?l" "0x0D \<notin> set ?l"
    using w(3-5) cmd chan assms(7,8) by (simp_all add: render_line_def)
  have "length (wire_text ?t msg) \<le> length msg + 9" by (simp add: wire_text_def c_lit_def)
  then have len: "length ?l < IRC_MAX_LINE_SIZE"
    using assms(9) cmd(4) by (simp add: render_line_def IRC_MAX_LINE_SIZE_def)
  have qt: "quote_text E ?l cv A = ?l" for cv
    using clean(1) by (simp add: quote_text_def Let_def assms(3) until_nul_id)
  have q: "quote E ?l pri cv A =
      (0, A\<lparr>ir_send_queue := ir_send_queue A @ [\<lparr>sq_line = ?l @ [0x0D, 0x0A], sq_priority = pri\<rparr>], ir_sendq_added := True\<rparr>)" for pri cv
    using assms(1,2) len by (subst quote_connected) (simp_all add: qt one_line_id [OF clean] Let_def)
  have s: "privmsg E dest msg A =
      (0, A\<lparr>ir_send_queue := ir_send_queue A @ [\<lparr>sq_line = ?l @ [0x0D, 0x0A], sq_priority = mi_priority dest\<rparr>], ir_sendq_added := True\<rparr>)"
    using assms(1,4) msg(2)
    unfolding privmsg_def until_nul_id [OF chan] until_nul_id [OF msg(1)] privmsg_line_wire [OF assms(5)]
      option.case q snd_conv by simp
  let ?pm = "irc_privmsg_new (en_pcre E') (irc_ident_new (en_pcre E') src)
      (irc_msginfo_new (mi_chan dest) (if ?t = IRC_MSGTYPE_NOTICE \<or> ?t = IRC_MSGTYPE_CTCPREPLY then IRC_MSGTYPE_NOTICE
      else IRC_MSGTYPE_NORMAL) IRC_CHANTYPE_CHAN (lv_line_converted lv)) (wire_text ?t msg)"
  have pm: "?pm = \<lparr>pm_ident = irc_ident_new (en_pcre E') src,
      pm_msginfo = privmsg_target (irc_ident_new (en_pcre E') src)
        (irc_msginfo_new (mi_chan dest) ?t IRC_CHANTYPE_CHAN (lv_line_converted lv)), pm_msg = msg\<rparr>"
    using classify_wire [OF assms(10,5)] by (simp add: irc_privmsg_new_def irc_msginfo_new_def)
  have fields: "pm_ident ?pm = irc_ident_new (en_pcre E') src" "pm_msg ?pm = msg" "mi_msgtype (pm_msginfo ?pm) = ?t"
    "chan_prefix (mi_chan dest) \<Longrightarrow>
      mi_chantype (pm_msginfo ?pm) = IRC_CHANTYPE_CHAN \<and> mi_chan (pm_msginfo ?pm) = mi_chan dest"
    unfolding pm by (simp_all add: privmsg_target_def irc_msginfo_new_def chan_prefix_def)
  show ?thesis
    unfolding s using handle_wire [OF assms(10,5,6,11,12), of now lv] fields len one_line_id [OF clean] by fastforce
qed

lemma nick_change_keeps_modes_witness:
  "iu_chanmode (the (chan_user (c_lit ''#a'') (c_lit ''rob'')
    (on_NICK env_witness2 (irc_ident_new (en_pcre env_witness2) (c_lit ''bob!b@h'')) (c_lit ''bob!b@h'') 1 [c_lit ''rob'']
      (session_witness\<lparr>ir_chans := [c_lit ''#a''],
        ir_chan_users := [(c_lit ''#a'', [(c_lit ''bob'', irc_user_default\<lparr>iu_chanmode := c_lit ''@'', ii_nick := c_lit ''bob''\<rparr>)])]\<rparr>))))
    = c_lit ''@''"
proof -
  let ?u = "irc_user_default\<lparr>iu_chanmode := c_lit ''@'', ii_nick := c_lit ''bob''\<rparr>"
  let ?st = "session_witness\<lparr>ir_chans := [c_lit ''#a''], ir_chan_users := [(c_lit ''#a'', [(c_lit ''bob'', ?u)])]\<rparr>"
  let ?o = "irc_ident_new (en_pcre env_witness2) (c_lit ''bob!b@h'')"
  have p: "ident_parts (c_lit ''bob!b@h'') (c_lit ''bob'') (c_lit ''b'') (c_lit ''h'')"
    by (simp add: ident_parts_def c_lit_def)
  have n: "nick_pcre (en_pcre env_witness2)" by (simp add: env_witness2_def nick_pcre_instance)
  have o: "ii_nick ?o = c_lit ''bob''"
    unfolding irc_ident_new_def set_ident_parts [OF nick_pcreD [OF n] p] by (simp add: c_lit_def modechar_def)
  have i: "irc_inv ?st"
    by (simp add: session_witness_def irc_new_def irc_inv_def users_ok_def chans_ok_def sendq_ok_def c_lit_def)
  have m: "modes_ok ?st" by (simp add: modes_ok_def modechar_def c_lit_def)
  have find: "chan_user (c_lit ''#a'') (c_lit ''bob'') ?st = Some ?u"
    by (simp add: chan_user_def users_of_def irc_map.irrefl)
  have j: "is_joined (c_lit ''#a'') ?st"
    by (simp add: is_joined_def chan_known_iff)
  have pl: "plain_nick (c_lit ''bob'')" "plain_nick ([c_lit ''rob''] ! 0)"
    by (simp_all add: plain_nick_def c_lit_def modechar_def)
  from nick_change_keeps_modes [OF n i m, of ?o "[c_lit ''rob'']" 1 "c_lit ''#a''" ?u "c_lit ''bob!b@h''"]
  show ?thesis using o pl j find by (auto simp: c_lit_def)
qed

subsection \<open>Time\<close>



text \<open>After \<open>quit\<close> the client does not wait for the server: the very next turn of the loop, if it
  comes less than five seconds later, ends with 0 whatever was read, so that a reply to the \<open>QUIT\<close> and
  every line before it is dropped. Five seconds after the \<open>quit\<close> the condition no longer holds, and the
  client waits for the server without a limit other than the ping timeout.\<close>

theorem quit_ends_loop:
  assumes "ir_status st \<noteq> IRCSTATUS_DISCONNECTED" "irc_quit E t quitmsg st = (r, st1)" "t \<noteq> 0"
  shows "r = 0 \<and> (now < t + 5 \<longrightarrow> loop_step E' now len line lv st1 = Inr (Goto_end 0, lv, st1)) \<and>
    (t + 5 \<le> now \<longrightarrow> loop_step E' now 0 line lv st1 = Inr (Go_on, lv, st1)) \<and>
    (t + 5 \<le> now \<and> now - ir_last_pong st1 \<le> 360 \<longrightarrow>
      (\<exists>st2. loop_step E' now (- 1) line lv st1 = Inr (Go_on, lv, st2)))"
proof -
  have q: "ir_quit_on_timer st1 = t"
    using assms(2) quote_frame [of E "if quitmsg = [] then c_lit ''QUIT'' else c_lit ''QUIT :'' @ quitmsg" IRC_PRIORITY_MAX True
        "st\<lparr>ir_quit_on_timer := t\<rparr>"]
    by (auto simp: irc_quit_def assms(1) Let_def quote_line_def)
  show ?thesis using assms by (auto simp: loop_step_def q irc_quit_def Let_def on_timeout_def)
qed

lemma quit_ends_loop_witness:
  "loop_step env_witness 101 10 (c_lit '':x PING :1'') (loop_vars_start False) (snd (irc_quit env_witness 100 [] session_witness)) =
    Inr (Goto_end 0, loop_vars_start False, snd (irc_quit env_witness 100 [] session_witness))"
proof -
  have s: "ir_status session_witness \<noteq> IRCSTATUS_DISCONNECTED" by (simp add: session_witness_def)
  show ?thesis using quit_ends_loop [OF s prod.collapse [symmetric], where E = env_witness and t = 100 and quitmsg = "[]"
      and now = 101 and len = 10 and line = "c_lit '':x PING :1''" and lv = "loop_vars_start False" and E' = env_witness] by simp
qed

end
