(* ===== verification/Ircsend.thy ===== *)
theory Ircsend
  imports Irc
begin

text \<open>
  The send thread of \<open>irc.cpp\<close> and its flood protection. The thread and the threads that queue lines
  interleave as the mutex \<open>send_mutex\<close> lets them: \<open>send_step\<close> has one rule for each thing that can happen
  next. The thread holds the mutex except while it waits for the condition variable or sleeps. The
  clock moves on in steps of its own; \<open>time(NULL)\<close> reads it. \<open>ss_log\<close> records the time of each line that
  the thread sends. Times are \<open>time_t\<close> values, as \<open>int\<close>.
\<close>

record send_timer =
  tm_next_send :: int
  tm_prev_now :: int

definition sendq_priority_comparator :: "irc_sendq_data \<Rightarrow> irc_sendq_data \<Rightarrow> bool" where
  "sendq_priority_comparator d1 d2 \<longleftrightarrow> sq_priority d1 > sq_priority d2"

text \<open>\<open>std::stable_sort\<close> with this comparator.\<close>

definition sort_sendq :: "irc_sendq_data list \<Rightarrow> irc_sendq_data list" where
  "sort_sendq q = sort_key (\<lambda>d. - sq_priority d) q"

text \<open>The extra penalty: the length from the first space on, in units of 120 bytes.\<close>

definition send_penalty :: "byte list \<Rightarrow> int" where
  "send_penalty line = int (length (dropWhile (\<lambda>c. c \<noteq> 0x20) line) div 120)"

text \<open>A turn up to the sleep: the timer, and how long the thread has to sleep, if it has to.\<close>

definition send_wait :: "irc \<Rightarrow> int \<Rightarrow> send_timer \<Rightarrow> send_timer \<times> int option" where
  "send_wait st now tm =
    (let next_send = (if \<not> ir_enable_flood_protection st then now else tm_next_send tm);
         next_send = (if next_send < now then now else next_send)
     in if next_send - now \<ge> 10 then
       (if now < tm_prev_now tm then (tm\<lparr>tm_next_send := now\<rparr>, None)
        else (tm\<lparr>tm_next_send := next_send\<rparr>, Some (next_send - now - 10)))
     else (tm\<lparr>tm_next_send := next_send\<rparr>, None))"

text \<open>The rest of the turn, on a queue that is not empty: sorting, sending, the penalties, \<open>pop_front\<close>.\<close>

definition send_front :: "int \<Rightarrow> irc \<Rightarrow> send_timer \<Rightarrow> irc \<times> send_timer" where
  "send_front now st tm =
    (let st = (if ir_sendq_added st
               then st\<lparr>ir_send_queue := sort_sendq (ir_send_queue st), ir_sendq_added := False\<rparr> else st);
         line = sq_line (hd (ir_send_queue st));
         st = st\<lparr>ir_sent := ir_sent st @ [until_nul line]\<rparr>;
         next_send = tm_next_send tm + 2;
         next_send = next_send + send_penalty line
     in (st\<lparr>ir_send_queue := tl (ir_send_queue st)\<rparr>, \<lparr>tm_next_send = next_send, tm_prev_now = now\<rparr>))"

datatype send_pc = Send_waiting | Send_running | Send_sleeping int | Send_done

record send_sys =
  ss_irc :: irc
  ss_tm :: send_timer
  ss_pc :: send_pc
  ss_clock :: int
  ss_signal :: bool
  ss_log :: "int list"

text \<open>After a line the thread looks at \<open>send_ready\<close> and goes on or leaves.\<close>

definition after_line :: "irc \<Rightarrow> send_pc" where
  "after_line st = (if ir_send_ready st then Send_running else Send_done)"

inductive send_step :: "send_sys \<Rightarrow> send_sys \<Rightarrow> bool" where
  tick: "ss_clock s \<le> c \<Longrightarrow> send_step s (s\<lparr>ss_clock := c\<rparr>)"
| enqueue: "ss_pc s \<noteq> Send_running \<Longrightarrow> ir_enable_flood_protection (ss_irc s) \<Longrightarrow> line \<noteq> [] \<Longrightarrow>
    send_step s (s\<lparr>ss_irc := snd (add_to_send_queue line pri (ss_irc s)),
      ss_signal := (ss_signal s \<or> ss_pc s = Send_waiting)\<rparr>)"
| kill: "send_step s (s\<lparr>ss_irc := (ss_irc s)\<lparr>ir_send_ready := False\<rparr>,
      ss_signal := (ss_signal s \<or> ss_pc s = Send_waiting)\<rparr>)"
| wake: "ss_pc s = Send_waiting \<Longrightarrow> ss_signal s \<Longrightarrow>
    send_step s (s\<lparr>ss_pc := (if ir_send_ready (ss_irc s) then Send_running else Send_done), ss_signal := False\<rparr>)"
| idle: "ss_pc s = Send_running \<Longrightarrow> ir_send_queue (ss_irc s) = [] \<Longrightarrow> send_step s (s\<lparr>ss_pc := Send_waiting\<rparr>)"
| nap: "ss_pc s = Send_running \<Longrightarrow> ir_send_queue (ss_irc s) \<noteq> [] \<Longrightarrow>
    send_wait (ss_irc s) (ss_clock s) (ss_tm s) = (tm, Some d) \<Longrightarrow>
    send_step s (s\<lparr>ss_tm := tm, ss_pc := Send_sleeping (ss_clock s + d)\<rparr>)"
| send: "ss_pc s = Send_running \<Longrightarrow> ir_send_queue (ss_irc s) \<noteq> [] \<Longrightarrow>
    send_wait (ss_irc s) (ss_clock s) (ss_tm s) = (tm, None) \<Longrightarrow>
    send_front (ss_clock s) (ss_irc s) tm = (st', tm') \<Longrightarrow>
    send_step s (s\<lparr>ss_irc := st', ss_tm := tm', ss_pc := after_line st', ss_log := ss_log s @ [ss_clock s]\<rparr>)"
| slept: "ss_pc s = Send_sleeping u \<Longrightarrow> u \<le> ss_clock s \<Longrightarrow>
    send_front (ss_clock s) (ss_irc s) (ss_tm s) = (st', tm') \<Longrightarrow>
    send_step s (s\<lparr>ss_irc := st', ss_tm := tm', ss_pc := after_line st', ss_log := ss_log s @ [ss_clock s]\<rparr>)"

text \<open>The thread when \<open>create_send_thread\<close> returns: it waits, with both times 0.\<close>

definition send_start :: "irc \<Rightarrow> int \<Rightarrow> send_sys" where
  "send_start st now =
    \<lparr>ss_irc = st, ss_tm = \<lparr>tm_next_send = 0, tm_prev_now = 0\<rparr>, ss_pc = Send_waiting, ss_clock = now,
     ss_signal = False, ss_log = []\<rparr>"

inductive send_run :: "send_sys \<Rightarrow> send_sys \<Rightarrow> bool" where
  run_refl: "send_run s s"
| run_step: "send_run s t \<Longrightarrow> send_step t u \<Longrightarrow> send_run s u"

inductive_cases send_stepE: "send_step s t"

subsection \<open>The queue as one FIFO per priority\<close>

definition level :: "int \<Rightarrow> irc_sendq_data list \<Rightarrow> irc_sendq_data list" where
  "level p q = filter (\<lambda>d. sq_priority d = p) q"

text \<open>The queue is sorted unless lines have been added since.\<close>

definition sendq_sorted :: "irc \<Rightarrow> bool" where
  "sendq_sorted st \<longleftrightarrow> ir_sendq_added st \<or> sorted_wrt (\<lambda>d e. sq_priority e \<le> sq_priority d) (ir_send_queue st)"

lemma sort_sendq_sorted: "sorted_wrt (\<lambda>d e. sq_priority e \<le> sq_priority d) (sort_sendq q)"
  using sorted_sort_key [of "\<lambda>d. - sq_priority d" q] by (simp add: sort_sendq_def sorted_map)

lemma sort_sendq_level: "level p (sort_sendq q) = level p q"
  using sort_key_stable [of "\<lambda>d. - sq_priority d" "- p" q] by (simp add: level_def sort_sendq_def)

lemma sort_sendq_props: "length (sort_sendq q) = length q" "set (sort_sendq q) = set q" "sort_sendq q = [] \<longleftrightarrow> q = []"
  by (simp_all add: sort_sendq_def flip: length_0_conv)

lemma send_front_queue:
  assumes "ir_send_queue st \<noteq> []" and "sendq_sorted st" and "send_front now st tm = (st', tm')"
  obtains d where "ir_sent st' = ir_sent st @ [until_nul (sq_line d)]" "d \<in> set (ir_send_queue st)"
    "\<forall>e \<in> set (ir_send_queue st). sq_priority e \<le> sq_priority d"
    "level (sq_priority d) (ir_send_queue st) = d # level (sq_priority d) (ir_send_queue st')"
    "\<forall>p. p \<noteq> sq_priority d \<longrightarrow> level p (ir_send_queue st') = level p (ir_send_queue st)"
    "sendq_sorted st'" "length (ir_send_queue st) = Suc (length (ir_send_queue st'))"
    "ir_send_ready st' = ir_send_ready st" "ir_enable_flood_protection st' = ir_enable_flood_protection st"
    "tm_next_send tm' = tm_next_send tm + 2 + send_penalty (sq_line d)" "tm_prev_now tm' = now"
    "\<not> ir_sendq_added st'"
proof -
  let ?q = "if ir_sendq_added st then sort_sendq (ir_send_queue st) else ir_send_queue st"
  have s: "sorted_wrt (\<lambda>d e. sq_priority e \<le> sq_priority d) ?q"
    using assms(2) sort_sendq_sorted by (auto simp: sendq_sorted_def)
  have l: "level p ?q = level p (ir_send_queue st)" for p by (simp add: sort_sendq_level)
  have p: "set ?q = set (ir_send_queue st)" "length ?q = length (ir_send_queue st)" "?q \<noteq> []"
    using assms(1) by (simp_all add: sort_sendq_props)
  obtain d r where q: "?q = d # r" using p(3) by (cases ?q) auto
  have st': "ir_send_queue st' = r" "ir_sent st' = ir_sent st @ [until_nul (sq_line d)]"
    "ir_send_ready st' = ir_send_ready st" "ir_enable_flood_protection st' = ir_enable_flood_protection st"
    "\<not> ir_sendq_added st'"
    "tm_next_send tm' = tm_next_send tm + 2 + send_penalty (sq_line d)" "tm_prev_now tm' = now"
    using assms(3) q by (auto simp: send_front_def Let_def split: if_splits)
  show ?thesis
  proof (rule that [of d])
    show "\<forall>e \<in> set (ir_send_queue st). sq_priority e \<le> sq_priority d"
      using s unfolding q p(1) [symmetric] by auto
    show "level (sq_priority d) (ir_send_queue st) = d # level (sq_priority d) (ir_send_queue st')"
      using l [of "sq_priority d"] unfolding q st' by (simp add: level_def)
    show "\<forall>p. p \<noteq> sq_priority d \<longrightarrow> level p (ir_send_queue st') = level p (ir_send_queue st)"
    proof (intro allI impI)
      fix p assume "p \<noteq> sq_priority d"
      then show "level p (ir_send_queue st') = level p (ir_send_queue st)"
        using l [of p] unfolding q st' by (simp add: level_def)
    qed
    show "sendq_sorted st'" using s unfolding q by (simp add: sendq_sorted_def st')
    show "length (ir_send_queue st) = Suc (length (ir_send_queue st'))"
      using p(2) unfolding q st' by simp
    show "d \<in> set (ir_send_queue st)" using p(1) unfolding q by auto
  qed (simp_all add: st')
qed

subsection \<open>Invariants of the thread\<close>

text \<open>Between its lines: the queue is sorted unless added to, a sleeping thread has something to send and
  will wake at most ten seconds early, and the timer is ahead of every line sent so far by two seconds
  for each line that followed it.\<close>

definition timer_ahead :: "int list \<Rightarrow> int \<Rightarrow> bool" where
  "timer_ahead ts x \<longleftrightarrow> (\<forall>i < length ts. ts ! i + 2 * (int (length ts) - 1 - int i) \<le> x)"

definition log_spread :: "int list \<Rightarrow> bool" where
  "log_spread ts \<longleftrightarrow> (\<forall>i j. i \<le> j \<and> j < length ts \<longrightarrow> 2 * (int j - int i) \<le> ts ! j - ts ! i + 12)"

definition send_inv :: "send_sys \<Rightarrow> bool" where
  "send_inv s \<longleftrightarrow>
    ir_enable_flood_protection (ss_irc s) \<and> sendq_sorted (ss_irc s) \<and> log_spread (ss_log s) \<and>
    (\<forall>t \<in> set (ss_log s). t \<le> ss_clock s) \<and>
    tm_prev_now (ss_tm s) \<le> ss_clock s \<and>
    (case ss_pc s of
       Send_sleeping u \<Rightarrow> ir_send_queue (ss_irc s) \<noteq> [] \<and> tm_next_send (ss_tm s) \<le> u + 10 \<and>
         timer_ahead (ss_log s) (tm_next_send (ss_tm s))
     | _ \<Rightarrow> timer_ahead (ss_log s) (max (tm_next_send (ss_tm s)) (ss_clock s)))"

lemma timer_ahead_mono: "timer_ahead ts x \<Longrightarrow> x \<le> y \<Longrightarrow> timer_ahead ts y"
  unfolding timer_ahead_def by (meson order_trans)

lemma timer_ahead_snoc:
  assumes "timer_ahead ts x" and "x + 2 \<le> y" and "t \<le> z" "y \<le> z"
  shows "timer_ahead (ts @ [t]) z"
  unfolding timer_ahead_def
proof (intro allI impI)
  fix i assume i: "i < length (ts @ [t])"
  show "(ts @ [t]) ! i + 2 * (int (length (ts @ [t])) - 1 - int i) \<le> z"
  proof (cases "i < length ts")
    case True
    then have "ts ! i + 2 * (int (length ts) - 1 - int i) \<le> x" using assms(1) by (simp add: timer_ahead_def)
    then show ?thesis using True assms(2,4) by (simp add: nth_append)
  next
    case False
    then have "i = length ts" using i by simp
    then show ?thesis using assms(3) by simp
  qed
qed

lemma log_spread_snoc:
  assumes "log_spread ts" and "timer_ahead ts x" and "x \<le> t + 10"
  shows "log_spread (ts @ [t])"
  unfolding log_spread_def
proof (intro allI impI)
  fix i j assume ij: "i \<le> j \<and> j < length (ts @ [t])"
  show "2 * (int j - int i) \<le> (ts @ [t]) ! j - (ts @ [t]) ! i + 12"
  proof (cases "j < length ts")
    case True
    then show ?thesis using assms(1) ij by (simp add: log_spread_def nth_append)
  next
    case False
    then have j: "j = length ts" using ij by simp
    show ?thesis
    proof (cases "i = j")
      case i: False
      then have "i < length ts" using ij j by simp
      then have "ts ! i + 2 * (int (length ts) - 1 - int i) \<le> t + 10"
        using assms(2,3) unfolding timer_ahead_def by (meson order_trans)
      then show ?thesis using \<open>i < length ts\<close> by (simp add: j nth_append)
    qed simp
  qed
qed

text \<open>What the check before a line establishes.\<close>

lemma send_wait_flood:
  assumes "ir_enable_flood_protection st" and "send_wait st now tm = (tm', r)" and "tm_prev_now tm \<le> now"
  shows "tm_next_send tm' = max (tm_next_send tm) now" "tm_prev_now tm' = tm_prev_now tm"
    "r = None \<Longrightarrow> tm_next_send tm' < now + 10" "r = Some d \<Longrightarrow> tm_next_send tm' = now + d + 10 \<and> 0 \<le> d"
  using assms by (auto simp: send_wait_def Let_def split: if_splits)

lemma send_penalty_nonneg: "0 \<le> send_penalty line"
  by (simp add: send_penalty_def)

lemma send_inv_line:
  assumes "sendq_sorted (ss_irc s)" "ir_enable_flood_protection (ss_irc s)" "log_spread (ss_log s)"
    and "\<forall>t \<in> set (ss_log s). t \<le> ss_clock s"
    and "ir_send_queue (ss_irc s) \<noteq> []" "timer_ahead (ss_log s) (tm_next_send tm)" "tm_next_send tm \<le> ss_clock s + 10"
    and "send_front (ss_clock s) (ss_irc s) tm = (st', tm')"
  shows "send_inv (s\<lparr>ss_irc := st', ss_tm := tm', ss_pc := after_line st', ss_log := ss_log s @ [ss_clock s]\<rparr>)"
proof -
  obtain d :: irc_sendq_data where d: "sendq_sorted st'" "ir_enable_flood_protection st' = ir_enable_flood_protection (ss_irc s)"
      "tm_next_send tm' = tm_next_send tm + 2 + send_penalty (sq_line d)" "tm_prev_now tm' = ss_clock s"
    by (rule send_front_queue [OF assms(5,1,8)]) blast
  have "timer_ahead (ss_log s @ [ss_clock s]) (max (tm_next_send tm') (ss_clock s))"
    using send_penalty_nonneg [of "sq_line d"] d(3) by (intro timer_ahead_snoc [OF assms(6)]) auto
  moreover have "log_spread (ss_log s @ [ss_clock s])"
    by (rule log_spread_snoc [OF assms(3,6,7)])
  ultimately show ?thesis using d assms(2,4) by (auto simp: send_inv_def after_line_def)
qed

lemma send_step_inv: "send_step s t \<Longrightarrow> send_inv s \<Longrightarrow> send_inv t"
proof (induction rule: send_step.induct)
  case (tick s c)
  then show ?case
    by (auto simp: send_inv_def split: send_pc.splits intro: order_trans timer_ahead_mono [where y = "max _ _"])
next
  case (enqueue s line pri)
  then show ?case by (auto simp: send_inv_def add_to_send_queue_def sendq_sorted_def split: send_pc.splits)
next
  case (kill s)
  then show ?case by (auto simp: send_inv_def sendq_sorted_def split: send_pc.splits)
next
  case (wake s)
  then show ?case by (auto simp: send_inv_def split: send_pc.splits)
next
  case (idle s)
  then show ?case by (auto simp: send_inv_def split: send_pc.splits)
next
  case (nap s tm d)
  have f: "ir_enable_flood_protection (ss_irc s)" "tm_prev_now (ss_tm s) \<le> ss_clock s"
    using nap(4) by (simp_all add: send_inv_def)
  note w = send_wait_flood [OF f(1) nap(3) f(2)]
  show ?case using nap(1,2,4) w(1,2) w(4) [OF refl] by (auto simp: send_inv_def)
next
  case (send s tm st' tm')
  have f: "ir_enable_flood_protection (ss_irc s)" "tm_prev_now (ss_tm s) \<le> ss_clock s"
    using send(5) by (simp_all add: send_inv_def)
  note w = send_wait_flood [OF f(1) send(3) f(2)]
  show ?case using send(1,5) w(1) w(3) [OF refl]
    by (intro send_inv_line [OF _ _ _ _ send(2) _ _ send(4)]) (auto simp: send_inv_def)
next
  case (slept s u st' tm')
  then show ?case
    by (intro send_inv_line [OF _ _ _ _ _ _ _ slept(3)]) (auto simp: send_inv_def)
qed

lemma send_run_inv: "send_run s t \<Longrightarrow> send_inv s \<Longrightarrow> send_inv t"
  by (induction rule: send_run.induct) (auto intro: send_step_inv)

lemma send_start_inv:
  "ir_enable_flood_protection st \<Longrightarrow> ir_send_queue st = [] \<Longrightarrow> 0 \<le> now \<Longrightarrow> send_inv (send_start st now)"
  by (simp add: send_inv_def send_start_def sendq_sorted_def log_spread_def timer_ahead_def)

text \<open>C9: flood protection. However threads queue lines and the send thread wakes and sleeps, of the lines
  it sends, the later of two lines that are \<open>n\<close> lines apart comes at least \<open>2 * n - 12\<close> seconds after the
  earlier one: no server sees more than seven lines at once or more than one line in two seconds in the
  long run. The clock does not go back and the flood protection stays on.\<close>

theorem flood_protection:
  assumes "ir_enable_flood_protection st" "ir_send_queue st = []" "0 \<le> now"
    and "send_run (send_start st now) s" and "i \<le> j" "j < length (ss_log s)"
  shows "2 * (int j - int i) - 12 \<le> ss_log s ! j - ss_log s ! i"
proof -
  have "log_spread (ss_log s)"
    using send_run_inv [OF assms(4) send_start_inv [OF assms(1-3)]] by (simp add: send_inv_def)
  then have "2 * (int j - int i) \<le> ss_log s ! j - ss_log s ! i + 12"
    using assms(5,6) unfolding log_spread_def by blast
  then show ?thesis by linarith
qed

lemma send_first:
  assumes "ss_pc s = Send_running" "ir_send_queue (ss_irc s) = d # q" "sorted_wrt (\<lambda>d e. sq_priority e \<le> sq_priority d) (d # q)"
    and "send_wait (ss_irc s) (ss_clock s) (ss_tm s) = (tm, None)" "ir_send_ready (ss_irc s)"
  shows "\<exists>t. send_step s t \<and> ss_pc t = Send_running \<and> ir_send_queue (ss_irc t) = q \<and> ss_clock t = ss_clock s \<and>
    ss_tm t = \<lparr>tm_next_send = tm_next_send tm + 2 + send_penalty (sq_line d), tm_prev_now = ss_clock s\<rparr> \<and>
    ir_enable_flood_protection (ss_irc t) = ir_enable_flood_protection (ss_irc s) \<and> ir_send_ready (ss_irc t) \<and>
    ss_log t = ss_log s @ [ss_clock s]"
proof -
  have "sort_sendq (d # q) = d # q"
    unfolding sort_sendq_def by (rule sort_key_id_if_sorted) (use assms(3) in \<open>auto simp: sorted_map\<close>)
  then obtain st' where f: "send_front (ss_clock s) (ss_irc s) tm =
      (st', \<lparr>tm_next_send = tm_next_send tm + 2 + send_penalty (sq_line d), tm_prev_now = ss_clock s\<rparr>)"
    "ir_send_queue st' = q" "ir_enable_flood_protection st' = ir_enable_flood_protection (ss_irc s)" "ir_send_ready st'"
    using assms(2,5) by (simp add: send_front_def Let_def)
  show ?thesis
    using send_step.send [OF assms(1) _ assms(4) f(1)] assms(2) f(2-4) by (force simp: after_line_def)
qed

lemma flood_protection_witness:
  "\<exists>s. send_run (send_start (session_witness\<lparr>ir_send_queue := []\<rparr>) 100) s \<and> length (ss_log s) = 2 \<and>
    2 * (int 1 - int 0) - 12 \<le> ss_log s ! 1 - ss_log s ! 0"
proof -
  let ?st = "session_witness\<lparr>ir_send_queue := []\<rparr>"
  let ?enq = "\<lambda>s. s\<lparr>ss_irc := snd (add_to_send_queue (c_lit ''QUIT'') 0 (ss_irc s)),
      ss_signal := (ss_signal s \<or> ss_pc s = Send_waiting)\<rparr>"
  let ?s0 = "send_start ?st 100" and ?s2 = "?enq (?enq (send_start ?st 100))"
  let ?s3 = "?s2\<lparr>ss_pc := (if ir_send_ready (ss_irc ?s2) then Send_running else Send_done), ss_signal := False\<rparr>"
  have w: "ir_enable_flood_protection session_witness" "ir_send_ready session_witness"
    by (simp_all add: session_witness_def irc_new_def)
  note eval = send_start_def add_to_send_queue_def w c_lit_def Let_def
  have 1: "send_step ?s0 (?enq ?s0)" by (rule send_step.enqueue) (simp_all add: eval)
  have 2: "send_step (?enq ?s0) ?s2" by (rule send_step.enqueue) (simp_all add: eval)
  have 3: "send_step ?s2 ?s3" by (rule send_step.wake) (simp_all add: eval)
  have q: "ir_send_queue (ss_irc ?s3) = [\<lparr>sq_line = c_lit ''QUIT'', sq_priority = 0\<rparr>, \<lparr>sq_line = c_lit ''QUIT'', sq_priority = 0\<rparr>]"
    "ss_pc ?s3 = Send_running" "ir_send_ready (ss_irc ?s3)" "ir_enable_flood_protection (ss_irc ?s3)"
    "ss_tm ?s3 = \<lparr>tm_next_send = 0, tm_prev_now = 0\<rparr>" "ss_clock ?s3 = 100" "ss_log ?s3 = []"
    by (simp_all add: eval)
  obtain t where t: "send_step ?s3 t" "ss_pc t = Send_running" "ir_send_queue (ss_irc t) = [\<lparr>sq_line = c_lit ''QUIT'', sq_priority = 0\<rparr>]"
    "ss_clock t = 100" "ss_tm t = \<lparr>tm_next_send = 102, tm_prev_now = 100\<rparr>" "ir_enable_flood_protection (ss_irc t)"
    "ir_send_ready (ss_irc t)" "ss_log t = [100]"
    using send_first [OF q(2,1) _ _ q(3), where tm = "\<lparr>tm_next_send = 100, tm_prev_now = 0\<rparr>"] q(4-7)
    by (auto simp: send_wait_def Let_def send_penalty_def c_lit_def simp del: irc.simps send_sys.simps)
  obtain u where u: "send_step t u" "ss_log u = [100, 100]"
    using send_first [OF t(2,3) _ _ t(7), where tm = "\<lparr>tm_next_send = 102, tm_prev_now = 100\<rparr>"] t(4-8)
    by (auto simp: send_wait_def Let_def)
  have run: "send_run ?s0 u"
    by (rule run_step [OF run_step [OF run_step [OF run_step [OF run_step [OF run_refl 1] 2] 3] t(1)] u(1)])
  have len: "length (ss_log u) = 2" by (simp add: u(2))
  have "2 * (int 1 - int 0) - 12 \<le> ss_log u ! 1 - ss_log u ! 0"
    by (rule flood_protection [OF _ _ _ run]) (simp_all add: len w)
  then show ?thesis using run len by blast
qed

text \<open>C16: the send queue is one first-in first-out queue for each priority. Queueing a line appends it to
  the queue of its priority and leaves the others alone; the thread takes the oldest line of the highest
  priority that has any, sends it and leaves the rest. The lazy stable sort (only after lines have been
  added) implements this, because a queue without additions is already sorted.\<close>

theorem sendq_priority_fifo:
  assumes "sendq_sorted st" and "ir_enable_flood_protection st"
  shows "(line \<noteq> [] \<longrightarrow> sendq_sorted (snd (add_to_send_queue line pri st)) \<and>
      (\<forall>p. level p (ir_send_queue (snd (add_to_send_queue line pri st))) =
        level p (ir_send_queue st) @ (if p = pri then [\<lparr>sq_line = line, sq_priority = pri\<rparr>] else []))) \<and>
    (ir_send_queue st \<noteq> [] \<longrightarrow> (\<exists>d st' tm'. send_front now st tm = (st', tm') \<and> sendq_sorted st' \<and>
      (\<forall>p > sq_priority d. level p (ir_send_queue st) = []) \<and>
      level (sq_priority d) (ir_send_queue st) = d # level (sq_priority d) (ir_send_queue st') \<and>
      (\<forall>p. p \<noteq> sq_priority d \<longrightarrow> level p (ir_send_queue st') = level p (ir_send_queue st)) \<and>
      ir_sent st' = ir_sent st @ [until_nul (sq_line d)]))"
proof (intro conjI impI)
  assume q: "ir_send_queue st \<noteq> []"
  obtain st' tm' where sf: "send_front now st tm = (st', tm')" by force
  show "\<exists>d st' tm'. send_front now st tm = (st', tm') \<and> sendq_sorted st' \<and>
      (\<forall>p > sq_priority d. level p (ir_send_queue st) = []) \<and>
      level (sq_priority d) (ir_send_queue st) = d # level (sq_priority d) (ir_send_queue st') \<and>
      (\<forall>p. p \<noteq> sq_priority d \<longrightarrow> level p (ir_send_queue st') = level p (ir_send_queue st)) \<and>
      ir_sent st' = ir_sent st @ [until_nul (sq_line d)]"
  proof (rule send_front_queue [OF q assms(1) sf])
    fix d :: irc_sendq_data
    assume a: "ir_sent st' = ir_sent st @ [until_nul (sq_line d)]"
      "\<forall>e \<in> set (ir_send_queue st). sq_priority e \<le> sq_priority d"
      "level (sq_priority d) (ir_send_queue st) = d # level (sq_priority d) (ir_send_queue st')"
      "\<forall>p. p \<noteq> sq_priority d \<longrightarrow> level p (ir_send_queue st') = level p (ir_send_queue st)" "sendq_sorted st'"
    have "\<forall>p > sq_priority d. level p (ir_send_queue st) = []"
      using a(2) by (auto simp: level_def filter_empty_conv)
    then show ?thesis using a sf by blast
  qed
qed (use assms in \<open>auto simp: add_to_send_queue_def sendq_sorted_def level_def\<close>)

lemma sendq_priority_fifo_witness:
  "level 5 (ir_send_queue (snd (add_to_send_queue (c_lit ''x'') 5 session_witness))) = [\<lparr>sq_line = c_lit ''x'', sq_priority = 5\<rparr>]"
proof -
  have s: "sendq_sorted session_witness" "ir_enable_flood_protection session_witness" "ir_send_queue session_witness = []"
    by (simp_all add: session_witness_def irc_new_def sendq_sorted_def)
  show ?thesis using sendq_priority_fifo [OF s(1,2), of "c_lit ''x''" 5] by (simp add: s(3) level_def c_lit_def)
qed

subsection \<open>Progress\<close>

definition sendq_order :: "irc \<Rightarrow> irc_sendq_data list" where
  "sendq_order st = (if ir_sendq_added st then sort_sendq (ir_send_queue st) else ir_send_queue st)"

lemma send_front_order:
  assumes "send_front now st tm = (st', tm')" and "sendq_order st = d # r"
  shows "sendq_order st' = r \<and> ir_sent st' = ir_sent st @ [until_nul (sq_line d)] \<and>
    ir_send_ready st' = ir_send_ready st \<and> ir_enable_flood_protection st' = ir_enable_flood_protection st \<and>
    tm_prev_now tm' = now"
  using assms by (auto simp: send_front_def sendq_order_def Let_def split: if_splits)

lemma sendq_order_empty: "sendq_order st = [] \<longleftrightarrow> ir_send_queue st = []"
  by (simp add: sendq_order_def sort_sendq_props)

lemma send_run_trans: "send_run t u \<Longrightarrow> send_run s t \<Longrightarrow> send_run s u"
  by (induction rule: send_run.induct) (auto intro: run_step)

lemma send_one:
  assumes "ss_pc s = Send_running" "ir_send_ready (ss_irc s)" "sendq_order (ss_irc s) = d # r"
  shows "\<exists>t. send_run s t \<and> ss_pc t = Send_running \<and> ir_send_ready (ss_irc t) \<and> sendq_order (ss_irc t) = r \<and>
    ir_sent (ss_irc t) = ir_sent (ss_irc s) @ [until_nul (sq_line d)]"
proof -
  have q: "ir_send_queue (ss_irc s) \<noteq> []" using assms(3) sendq_order_empty [of "ss_irc s"] by auto
  obtain tm w where w: "send_wait (ss_irc s) (ss_clock s) (ss_tm s) = (tm, w)" by force
  show ?thesis
  proof (cases w)
    case None
    obtain st' tm' where sf: "send_front (ss_clock s) (ss_irc s) tm = (st', tm')" by force
    let ?t = "s\<lparr>ss_irc := st', ss_tm := tm', ss_pc := after_line st', ss_log := ss_log s @ [ss_clock s]\<rparr>"
    have "send_run s ?t" by (rule run_step [OF run_refl send_step.send [OF assms(1) q w [unfolded None] sf]])
    then show ?thesis using send_front_order [OF sf assms(3)] assms(2)
      by (intro exI [of _ ?t]) (simp add: after_line_def)
  next
    case (Some e)
    let ?n = "s\<lparr>ss_tm := tm, ss_pc := Send_sleeping (ss_clock s + e)\<rparr>"
    let ?m = "?n\<lparr>ss_clock := max (ss_clock s) (ss_clock s + e)\<rparr>"
    obtain st' tm' where sf: "send_front (ss_clock ?m) (ss_irc ?m) (ss_tm ?m) = (st', tm')" by force
    let ?t = "?m\<lparr>ss_irc := st', ss_tm := tm', ss_pc := after_line st', ss_log := ss_log ?m @ [ss_clock ?m]\<rparr>"
    have 1: "send_step s ?n" by (rule send_step.nap [OF assms(1) q w [unfolded Some]])
    have 2: "send_step ?n ?m" by (rule send_step.tick) simp
    have 3: "send_step ?m ?t" by (rule send_step.slept [OF _ _ sf, of "ss_clock s + e"]) simp_all
    have "send_run s ?t" by (rule run_step [OF run_step [OF run_step [OF run_refl 1] 2] 3])
    moreover have "sendq_order (ss_irc ?m) = d # r" using assms(3) by simp
    ultimately show ?thesis using send_front_order [OF sf] assms(2)
      by (intro exI [of _ ?t]) (simp add: after_line_def)
  qed
qed

lemma send_drain:
  "ss_pc s = Send_running \<Longrightarrow> ir_send_ready (ss_irc s) \<Longrightarrow>
    \<exists>t. send_run s t \<and> ss_pc t = Send_waiting \<and> ir_send_queue (ss_irc t) = [] \<and>
      ir_sent (ss_irc t) = ir_sent (ss_irc s) @ map (\<lambda>d. until_nul (sq_line d)) (sendq_order (ss_irc s))"
proof (induction "sendq_order (ss_irc s)" arbitrary: s)
  case Nil
  then have q: "ir_send_queue (ss_irc s) = []" by (simp add: sendq_order_empty [symmetric])
  have "send_run s (s\<lparr>ss_pc := Send_waiting\<rparr>)"
    by (rule run_step [OF run_refl send_step.idle [OF Nil.prems(1) q]])
  then show ?case using q Nil.hyps by (intro exI [of _ "s\<lparr>ss_pc := Send_waiting\<rparr>"]) simp
next
  case (Cons d r)
  obtain t where t: "send_run s t" "ss_pc t = Send_running" "ir_send_ready (ss_irc t)" "sendq_order (ss_irc t) = r"
    "ir_sent (ss_irc t) = ir_sent (ss_irc s) @ [until_nul (sq_line d)]"
    using send_one [OF Cons.prems Cons.hyps(2) [symmetric]] by blast
  obtain u where u: "send_run t u" "ss_pc u = Send_waiting" "ir_send_queue (ss_irc u) = []"
    "ir_sent (ss_irc u) = ir_sent (ss_irc t) @ map (\<lambda>d. until_nul (sq_line d)) (sendq_order (ss_irc t))"
    using Cons.hyps(1) [OF t(4) [symmetric] t(2,3)] by blast
  have "sendq_order (ss_irc s) = d # sendq_order (ss_irc t)" using t(4) Cons.hyps(2) by simp
  then show ?case using send_run_trans [OF u(1) t(1)] u t(5) by (intro exI [of _ u]) simp
qed

text \<open>Nothing queued is stuck. A thread that waits with its signal set, as every queued line leaves it,
  can run until the queue is empty, and then has sent every queued line, in the order of the priorities
  and first in first out within one; it is then waiting again.\<close>

theorem sendq_drains:
  assumes "ss_pc s = Send_waiting" "ir_send_ready (ss_irc s)" "ir_enable_flood_protection (ss_irc s)" "line \<noteq> []"
  shows "\<exists>t u. send_step s t \<and> ir_send_queue (ss_irc t) = ir_send_queue (ss_irc s) @ [\<lparr>sq_line = line, sq_priority = pri\<rparr>] \<and>
    send_run t u \<and> ss_pc u = Send_waiting \<and> ir_send_queue (ss_irc u) = [] \<and>
    ir_sent (ss_irc u) = ir_sent (ss_irc s) @
      map (\<lambda>d. until_nul (sq_line d)) (sort_sendq (ir_send_queue (ss_irc s) @ [\<lparr>sq_line = line, sq_priority = pri\<rparr>]))"
proof -
  let ?t = "s\<lparr>ss_irc := snd (add_to_send_queue line pri (ss_irc s)),
      ss_signal := (ss_signal s \<or> ss_pc s = Send_waiting)\<rparr>"
  let ?r = "?t\<lparr>ss_pc := (if ir_send_ready (ss_irc ?t) then Send_running else Send_done), ss_signal := False\<rparr>"
  have add: "snd (add_to_send_queue line pri (ss_irc s)) =
      (ss_irc s)\<lparr>ir_send_queue := ir_send_queue (ss_irc s) @ [\<lparr>sq_line = line, sq_priority = pri\<rparr>], ir_sendq_added := True\<rparr>"
    using assms(3,4) by (simp add: add_to_send_queue_def)
  have 1: "send_step s ?t" by (rule send_step.enqueue) (use assms in simp_all)
  have 2: "send_step ?t ?r" by (rule send_step.wake) (use assms in simp_all)
  obtain u where u: "send_run ?r u" "ss_pc u = Send_waiting" "ir_send_queue (ss_irc u) = []"
    "ir_sent (ss_irc u) = ir_sent (ss_irc ?r) @ map (\<lambda>d. until_nul (sq_line d)) (sendq_order (ss_irc ?r))"
    using send_drain [of ?r] assms(2) by (auto simp: add)
  have "send_run ?t u" by (rule send_run_trans [OF u(1) run_step [OF run_refl 2]])
  then show ?thesis using 1 u(2-4) by (intro exI [of _ ?t] exI [of _ u]) (simp add: add sendq_order_def)
qed

lemma sendq_drains_witness:
  "\<exists>u. send_run (send_start session_witness 5) u \<and> ir_sent (ss_irc u) = [c_lit ''QUIT'']"
proof -
  let ?s = "send_start session_witness 5"
  have s: "ss_pc ?s = Send_waiting" "ir_send_ready (ss_irc ?s)" "ir_enable_flood_protection (ss_irc ?s)"
    "ir_send_queue (ss_irc ?s) = []" "ir_sent (ss_irc ?s) = []"
    by (simp_all add: send_start_def session_witness_def irc_new_def)
  have l: "c_lit ''QUIT'' \<noteq> []" "until_nul (c_lit ''QUIT'') = c_lit ''QUIT''" by (simp_all add: c_lit_def until_nul_def)
  obtain t u where "send_step ?s t" "send_run t u" "ir_sent (ss_irc u) = [c_lit ''QUIT'']"
    using sendq_drains [OF s(1-3) l(1), of 0] by (auto simp: s l sort_sendq_def)
  then show ?thesis using send_run_trans [OF _ run_step [OF run_refl]] by blast
qed

text \<open>\<open>kill_send_thread\<close> clears \<open>send_ready\<close> and signals without holding the mutex: when the thread has
  emptied the queue but does not wait yet, the signal is lost, and the thread waits for good unless
  another line is queued or another signal is given. \<open>pthread_join\<close> does not return then.\<close>

lemma kill_signal_lost:
  assumes "ss_pc s = Send_running" "ir_send_queue (ss_irc s) = []" "\<not> ss_signal s"
  shows "\<exists>k t. send_step s k \<and> \<not> ir_send_ready (ss_irc k) \<and> send_step k t \<and>
    ss_pc t = Send_waiting \<and> \<not> ss_signal t \<and> (\<forall>u. send_step t u \<longrightarrow> ss_pc u = Send_waiting)"
proof -
  let ?k = "s\<lparr>ss_irc := (ss_irc s)\<lparr>ir_send_ready := False\<rparr>, ss_signal := (ss_signal s \<or> ss_pc s = Send_waiting)\<rparr>"
  let ?t = "?k\<lparr>ss_pc := Send_waiting\<rparr>"
  have 1: "send_step s ?k" by (rule send_step.kill)
  have 2: "send_step ?k ?t" by (rule send_step.idle) (use assms in simp_all)
  have "send_step ?t u \<Longrightarrow> ss_pc u = Send_waiting" for u
    by (erule send_stepE) (use assms in auto)
  then show ?thesis using 1 2 assms by (intro exI [of _ ?k] exI [of _ ?t]) auto
qed

end
