(* ===== verification/Ircsession.thy ===== *)
theory Ircsession
  imports Ircloop Ircsend
begin

text \<open>
  The session as a whole: everything that may happen to an \<open>irc\<close> object as one step relation. Other
  threads call the interface, the main thread takes the turns of its loop, the bot hands a finished event
  back, and the send thread takes lines from the queue. Each step is one that the locks keep from being
  interrupted by another on the same data. The invariants of a session hold in every reachable state.
\<close>

inductive irc_reach :: "irc_env \<Rightarrow> irc \<Rightarrow> bool" for E where
  new: "irc_reach E (irc_new ping pong timer si)"
| connect: "irc_reach E st \<Longrightarrow> 0 \<le> pret \<Longrightarrow> irc_reach E (snd (irc_connect server port sret pret st))"
| disconnect: "irc_reach E st \<Longrightarrow> irc_reach E (snd (irc_disconnect st))"
| quoted: "irc_reach E st \<Longrightarrow> irc_reach E (snd (quote E line pri cv st))"
| message: "irc_reach E st \<Longrightarrow> irc_reach E (snd (privmsg E dest msg st))"
| nick: "irc_reach E st \<Longrightarrow> irc_reach E (snd (change_nick E n st))"
| join: "irc_reach E st \<Longrightarrow> irc_reach E (snd (join_channel E c st))"
| leave: "irc_reach E st \<Longrightarrow> irc_reach E (snd (leave_channel E c reason st))"
| quit: "irc_reach E st \<Longrightarrow> irc_reach E (snd (irc_quit E now reason st))"
| login: "irc_reach E st \<Longrightarrow> login_to_server E st = Inr st' \<Longrightarrow> irc_reach E st'"
| encoding: "irc_reach E st \<Longrightarrow> irc_reach E (snd (set_encoding E enc st))"
| settings: "irc_reach E st \<Longrightarrow> irc_reach E (st\<lparr>ir_username := u, ir_realname := r, ir_server_pass := p,
    ir_preserve_eilseq_line := b, ir_enable_flood_protection := f\<rparr>)"
| user_data: "irc_reach E st \<Longrightarrow> irc_reach E (snd (get_user_data c n st))"
| user_joined: "irc_reach E st \<Longrightarrow> irc_reach E (snd (is_user_joined E c n st))"
| refresh: "irc_reach E st \<Longrightarrow> irc_reach E (refresh_chanuserlist E c st)"
| start_loop: "irc_reach E st \<Longrightarrow> irc_reach E (st\<lparr>ir_last_ping := now, ir_last_pong := now\<rparr>)"
| turn: "irc_reach E st \<Longrightarrow> loop_step E now len line lv st = Inr (r, lv', st') \<Longrightarrow> irc_reach E st'"
| event_done: "irc_reach E st \<Longrightarrow> irc_reach E (ircbot_event_handler E (Botevent_evhandler_done ev) st)"
| line_sent: "irc_reach E st \<Longrightarrow> ir_send_thread_id st \<Longrightarrow> ir_send_queue st \<noteq> [] \<Longrightarrow>
    send_front now st tm = (st', tm') \<Longrightarrow> irc_reach E st'"

lemma sess_connect:
  assumes "sess_ok st" and "0 \<le> pret"
  shows "sess_ok (snd (irc_connect server port sret pret st))"
proof (cases "ir_status st = IRCSTATUS_DISCONNECTED \<and> 0 \<le> sret")
  case True
  then show ?thesis using assms
    by (simp add: irc_connect_def create_send_thread_def Let_def sess_ok_def irc_inv_def users_ok_def chans_ok_def
        sendq_ok_def send_event_def life_of_def life_run_snoc)
next
  case False
  then show ?thesis using assms(1)
    by (auto simp: irc_connect_def Let_def sess_ok_def irc_inv_def sendq_ok_def)
qed

lemma sess_disconnect: "sess_ok st \<Longrightarrow> sess_ok (snd (irc_disconnect st))"
  by (cases "ir_status st") (auto simp: irc_disconnect_def kill_send_thread_def Let_def sess_ok_def irc_inv_def sendq_ok_def send_event_def
      life_of_def life_run_snoc)

lemma sess_send_front:
  assumes "sess_ok st" "ir_send_queue st \<noteq> []" "ir_send_thread_id st" "send_front now st tm = (st', tm')"
  shows "sess_ok st'"
proof -
  let ?q = "sendq_order st"
  have q: "set ?q = set (ir_send_queue st)" by (simp add: sendq_order_def sort_sendq_props)
  obtain d r where dr: "?q = d # r" using assms(2) sendq_order_empty [of st] by (cases ?q) auto
  have st': "st' = st\<lparr>ir_send_queue := r, ir_sendq_added := False, ir_sent := ir_sent st @ [until_nul (sq_line d)]\<rparr>"
    using assms(4) dr by (auto simp: send_front_def sendq_order_def Let_def split: if_splits)
  have "wire_line (sq_line d)" "\<forall>x \<in> set r. wire_line (sq_line x)"
    using assms(1) q unfolding dr by (auto simp: sess_ok_def irc_inv_def sendq_ok_def)
  then show ?thesis using assms(1,3) wire_line_cstr [of "sq_line d"]
    by (auto simp: st' sess_ok_def irc_inv_def sendq_ok_def)
qed


lemma sess_api:
  assumes "sess_ok st"
  shows "sess_ok (snd (privmsg E dest msg st))" "sess_ok (snd (change_nick E n st))"
    "sess_ok (snd (join_channel E c st))" "sess_ok (snd (leave_channel E c reason st))"
    "sess_ok (snd (irc_quit E now reason st))" "login_to_server E st = Inr st' \<Longrightarrow> sess_ok st'"
    "sess_ok (snd (set_encoding E enc st))" "sess_ok (ircbot_event_handler E ev st)"
  using assms
  by (auto simp: privmsg_def change_nick_def join_channel_def leave_channel_def irc_quit_def login_to_server_def
      set_encoding_def ircbot_event_handler_def del_from_chanuserlist_all_def Let_def sess_other_fields
      split: option.split ircevent.split if_splits intro!: sess)

subsection \<open>The mode strings\<close>

named_theorems modes \<open>an operation keeps \<open>modes_ok\<close>\<close>

definition users_modes :: "chanusers \<Rightarrow> bool" where
  "users_modes us \<longleftrightarrow> (\<forall>u \<in> snd ` set us. \<forall>x \<in> set (iu_chanmode u). modechar x)"

definition user_modes :: "irc_user \<Rightarrow> bool" where
  "user_modes u \<longleftrightarrow> (\<forall>x \<in> set (iu_chanmode u). modechar x)"

lemma modes_ok_users: "modes_ok st \<longleftrightarrow> (\<forall>us \<in> snd ` set (ir_chan_users st). users_modes us)"
  by (simp add: modes_ok_def users_modes_def)

lemma modes_frame: "modes_ok st \<Longrightarrow> ir_chan_users st' = ir_chan_users st \<Longrightarrow> modes_ok st'"
  by (simp add: modes_ok_def)

lemma smap_set_all: "\<forall>v \<in> snd ` set m. P v \<Longrightarrow> P v \<Longrightarrow> \<forall>w \<in> snd ` set (smap_set lt k v m). P w"
  using smap_set_vals [of lt k v m] by blast

lemma modes_chan_users:
  assumes "modes_ok st" "users_modes us"
  shows "modes_ok (st\<lparr>ir_chan_users := smap_set irc_string_less c us (ir_chan_users st)\<rparr>)"
proof -
  have "\<forall>w \<in> snd ` set (smap_set irc_string_less c us (ir_chan_users st)). users_modes w"
    using assms unfolding modes_ok_users by (rule smap_set_all)
  then show ?thesis by (simp add: modes_ok_users)
qed

lemma users_modes_Nil: "users_modes []"
  by (simp add: users_modes_def)

lemma modes_lists [modes]:
  "modes_ok st \<Longrightarrow> modes_ok (touch_chan c st)" "modes_ok st \<Longrightarrow> modes_ok (clear_chanuserlist c st)"
  "modes_ok st \<Longrightarrow> users_modes us \<Longrightarrow> modes_ok (set_users c us st)"
  "modes_ok st \<Longrightarrow> users_modes (users_of c st)"
  by (auto simp: touch_chan_def smap_insert_def clear_chanuserlist_def set_users_def users_of_def users_modes_Nil
      intro: modes_chan_users split: option.split)
    (auto simp: modes_ok_users dest: smap_find_val)

lemma modes_users [modes]:
  assumes "users_modes us"
  shows "user_modes u \<Longrightarrow> users_modes (smap_set irc_string_less n u us)"
    "users_modes (smap_erase irc_string_less n us)" "user_modes (user_at n us)"
proof -
  show "user_modes u \<Longrightarrow> users_modes (smap_set irc_string_less n u us)"
    using assms unfolding users_modes_def user_modes_def by (rule smap_set_all)
  show "users_modes (smap_erase irc_string_less n us)"
    using assms irc_map.erase_subset [of n us] by (auto simp: users_modes_def)
  show "user_modes (user_at n us)"
    using assms smap_find_val [of irc_string_less n us]
    by (auto simp: users_modes_def user_modes_def user_at_def irc_user_default_def split: option.split)
qed

lemma user_modes_set_ident [modes]: "user_modes u \<Longrightarrow> user_modes (snd (irc_ident_set_ident R i u))"
  by (auto simp: user_modes_def irc_ident_set_ident_def Let_def split: option.split)

lemma user_modes_set_nick [modes]: "irc_pcre R \<Longrightarrow> user_modes u \<Longrightarrow> user_modes (snd (irc_user_set_nick R n u))"
  by (auto simp: user_modes_def irc_user_set_nick_def split_nick_usermode_def irc_pcreD dest: set_takeWhileD)

lemma user_modes_update [modes]:
  "user_modes u \<Longrightarrow> user_modes (add_to_chanusermode [mode_char m] u)"
  "user_modes u \<Longrightarrow> user_modes (del_from_chanusermode x u)"
proof -
  have "modechar (mode_char m)" by (simp add: mode_char_def modechar_def c_lit_def)
  then show "user_modes u \<Longrightarrow> user_modes (add_to_chanusermode [mode_char m] u)"
    by (auto simp: user_modes_def add_to_chanusermode_def chanmode_add_set)
  have "set (chanmode_del m x) \<subseteq> set m" for m
    by (induction x arbitrary: m) (auto dest: notin_set_remove1 subsetD [OF set_remove1_subset])
  then show "user_modes u \<Longrightarrow> user_modes (del_from_chanusermode x u)"
    by (auto simp: user_modes_def del_from_chanusermode_def)
qed

lemma modes_queue [modes]:
  "modes_ok st \<Longrightarrow> modes_ok (snd (quote E l p cv st))" "modes_ok st \<Longrightarrow> modes_ok (quote_line E l p st)"
  "modes_ok st \<Longrightarrow> modes_ok (refresh_chanuserlist E c st)" "modes_ok st \<Longrightarrow> modes_ok (send_event ev st)"
  by (auto intro: modes_frame)

lemma modes_add_user [modes]:
  "irc_pcre (en_pcre E) \<Longrightarrow> modes_ok st \<Longrightarrow> modes_ok (snd (add_to_chanuserlist E c n i st))"
  by (auto simp: add_to_chanuserlist_def Let_def intro!: modes)

lemma modes_user_ops [modes]:
  assumes "modes_ok st"
  shows "modes_ok (snd (del_from_chanuserlist E c n st))" "modes_ok (snd (is_user_joined E c n st))"
    "modes_ok (snd (get_user_data c n st))" "modes_ok (mode_user_update sign m c n st)"
  using assms
  by (auto simp: del_from_chanuserlist_def is_user_joined_def get_user_data_def mode_user_update_def Let_def
      intro!: modes)

lemma modes_chans [modes]:
  assumes "modes_ok st"
  shows "modes_ok (snd (add_to_chanlist c st))" "modes_ok (snd (del_from_chanlist c st))"
proof -
  have "modes_ok (st\<lparr>ir_chans := cs\<rparr>)" for cs using assms by (rule modes_frame) simp
  then show "modes_ok (snd (add_to_chanlist c st))" "modes_ok (snd (del_from_chanlist c st))"
    using assms by (auto simp: add_to_chanlist_def del_from_chanlist_def split: option.split intro: modes)
qed

lemma modes_del_chans [modes]: "modes_ok st \<Longrightarrow> modes_ok (del_from_chans E cs n st)"
proof (induction cs arbitrary: st)
  case (Cons c cs)
  obtain j st1 where j: "is_user_joined E c n st = (j, st1)" by force
  have "modes_ok st1" using modes_user_ops(2) [OF Cons.prems, of E c n] by (simp add: j)
  then show ?case by (auto simp: j intro!: Cons.IH modes)
qed simp

lemma modes_mode_loop:
  "modes_ok st \<Longrightarrow> mode_loop origin chan params ms sign pi st = Inr st' \<Longrightarrow> modes_ok st'"
  by (induction origin chan params ms sign pi st rule: mode_loop.induct)
    (auto split: if_splits sum.splits intro: modes)

lemma modes_isupport [modes]: "modes_ok st \<Longrightarrow> modes_ok (isupport_param E p st)"
  by (auto simp: isupport_param_def split: option.split intro: modes_frame)

lemma modes_isupport_loop:
  "modes_ok st \<Longrightarrow> isupport_loop E params n i st = Inr st' \<Longrightarrow> modes_ok st'"
proof (induction E params n i st rule: isupport_loop.induct)
  case (1 E params n i st)
  show ?case
  proof (cases "i < n")
    case True
    then show ?thesis using 1 by (auto simp: isupport_loop.simps [of _ _ _ i] intro: modes split: if_splits)
  qed (use 1(2,3) in \<open>simp add: isupport_loop.simps [of _ _ _ i]\<close>)
qed

lemma modes_nick_chan [modes]:
  assumes "irc_pcre (en_pcre E)" "modes_ok st"
  shows "modes_ok (nick_chan E c nick newnick ident st)"
proof -
  obtain j st1 where j: "is_user_joined E c nick st = (j, st1)" by force
  obtain u st2 where u: "get_user_data c nick st1 = (u, st2)" by force
  have 1: "modes_ok st1" using modes_user_ops(2) [OF assms(2), of E c nick] by (simp add: j)
  have 2: "modes_ok st2" using modes_user_ops(3) [OF 1, of c nick] by (simp add: u)
  show ?thesis using 1 2 assms(1) by (auto simp: nick_chan_def j u Let_def intro!: modes)
qed

lemma modes_folds [modes]:
  "irc_pcre (en_pcre E) \<Longrightarrow> modes_ok st \<Longrightarrow> modes_ok (nick_chans E cs nick newnick ident st)"
  "irc_pcre (en_pcre E) \<Longrightarrow> modes_ok st \<Longrightarrow> modes_ok (fold (names_add E chan) args st)"
proof -
  assume R: "irc_pcre (en_pcre E)"
  show "modes_ok st \<Longrightarrow> modes_ok (nick_chans E cs nick newnick ident st)"
    using R by (induction cs arbitrary: st) (auto intro: modes)
  show "modes_ok st \<Longrightarrow> modes_ok (fold (names_add E chan) args st)"
    using R by (induction args arbitrary: st) (auto simp: names_add_def Let_def intro!: modes)
qed

lemma modes_field [modes]:
  "modes_ok st \<Longrightarrow> modes_ok (st\<lparr>ir_nick := x\<rparr>)" "modes_ok st \<Longrightarrow> modes_ok (st\<lparr>ir_pause_main_thread := b\<rparr>)"
  "modes_ok st \<Longrightarrow> modes_ok (st\<lparr>ir_last_pong := i\<rparr>)" "modes_ok st \<Longrightarrow> modes_ok (st\<lparr>ir_last_ping := i\<rparr>)"
  "modes_ok st \<Longrightarrow> modes_ok (st\<lparr>ir_status := s\<rparr>)"
  by (erule modes_frame; simp)+

lemma modes_handlers:
  assumes "irc_pcre (en_pcre E)" "modes_ok st"
  shows "modes_ok (on_PING E params st)" "modes_ok (on_PRIVMSG E t origin ident nparam params cv st)"
    "modes_ok (on_JOIN E origin ident nparam params st)" "modes_ok (on_PART E origin nparam params st)"
    "modes_ok (on_KICK E origin nparam params st)" "modes_ok (on_NICK E origin ident nparam params st)"
    "modes_ok (snd (on_QUIT origin params st))" "modes_ok (snd (on_352 E nparam params lv st))"
    "modes_ok (snd (on_315 E nparam params lv st))" "modes_ok (snd (on_353 E nparam params lv st))"
    "modes_ok (on_INVITE origin nparam params st)" "modes_ok (on_433 E st)"
  using assms
  by (auto simp: on_PING_def on_PRIVMSG_def on_JOIN_def on_PART_def on_KICK_def on_NICK_def on_QUIT_def
      on_352_def on_315_def on_353_def on_INVITE_def on_433_def Let_def split: option.split intro!: modes)

lemma modes_on_MODE: "modes_ok st \<Longrightarrow> on_MODE origin nparam params st = Inr st' \<Longrightarrow> modes_ok st'"
  by (auto simp: on_MODE_def Let_def split: if_splits list.splits intro: modes_mode_loop)

lemma modes_event_login [modes]:
  "modes_ok st \<Longrightarrow> modes_ok (snd (set_encoding E enc st))"
  "modes_ok st \<Longrightarrow> login_to_server E st = Inr st' \<Longrightarrow> modes_ok st'"
  by (auto simp: set_encoding_def login_to_server_def Let_def split: option.split if_splits intro: modes_frame modes)

lemma modes_handle_cmd:
  assumes "irc_pcre (en_pcre E)" "modes_ok st"
  shows "res_all modes_ok (handle_cmd E now cmd origin ident nparam params lv st)"
proof -
  have q: "res_all modes_ok (case on_QUIT origin params st of (r, st) \<Rightarrow> Inr (r, lv, st))"
    using modes_handlers(7) [OF assms, of origin params]
    by (cases "on_QUIT origin params st") (simp add: res_all_simps)
  have sup: "\<forall>st'. on_005 E nparam params st = Inr st' \<longrightarrow> modes_ok st'"
    using assms modes_isupport_loop by (auto simp: on_005_def)
  have mode: "\<forall>st'. on_MODE origin nparam params st = Inr st' \<longrightarrow> modes_ok st'"
    using assms modes_on_MODE by blast
  show ?thesis
    unfolding handle_cmd_def
    by (intro res_all_if q; (simp only: res_all_simps)?; (intro allI impI)?)
      (use assms sup mode in \<open>auto intro: modes modes_handlers\<close>)
qed

lemma modes_loop_step:
  assumes "irc_pcre (en_pcre E)" "modes_ok st"
  shows "res_all modes_ok (loop_step E now len line lv st)"
proof -
  have line: "res_all modes_ok (handle_line E now line lv st)"
    using assms by (auto simp: handle_line_def Let_def res_all_simps modes_handle_cmd modes_queue split: option.split prod.split)
  have t: "res_all modes_ok (case on_timeout E now st of (r, st) \<Rightarrow> Inr (r, lv, st))"
    using assms by (auto simp: res_all_simps on_timeout_def Let_def intro!: modes)
  show ?thesis
    unfolding loop_step_def by (intro res_all_if line t) (simp_all add: res_all_simps assms)
qed

lemma modes_connect: "modes_ok st \<Longrightarrow> modes_ok (snd (irc_connect server port sret pret st))"
  by (auto simp: irc_connect_def create_send_thread_def Let_def send_event_def modes_ok_def)

lemma modes_steps:
  "modes_ok st \<Longrightarrow> modes_ok (snd (irc_disconnect st))" "modes_ok st \<Longrightarrow> modes_ok (snd (privmsg E dest msg st))"
  "modes_ok st \<Longrightarrow> modes_ok (snd (change_nick E n st))" "modes_ok st \<Longrightarrow> modes_ok (snd (join_channel E c st))"
  "modes_ok st \<Longrightarrow> modes_ok (snd (leave_channel E c reason st))"
  "modes_ok st \<Longrightarrow> modes_ok (snd (irc_quit E now reason st))"
  "modes_ok st \<Longrightarrow> modes_ok (ircbot_event_handler E ev st)"
  by (auto simp: irc_disconnect_def kill_send_thread_def privmsg_def
      change_nick_def join_channel_def leave_channel_def irc_quit_def ircbot_event_handler_def
      del_from_chanuserlist_all_def Let_def split: option.split ircevent.split intro: modes_frame modes)

lemma reach_modes:
  assumes "irc_reach E st"
  shows "irc_pcre (en_pcre E) \<longrightarrow> modes_ok st"
  using assms
proof (induction rule: irc_reach.induct)
  case (new ping pong timer si)
  then show ?case by (simp add: irc_new_def modes_ok_def)
next
  case (turn st now len line lv r lv' st')
  then show ?case using modes_loop_step [of E st now len line lv] by (simp add: res_all_def)
next
  case (line_sent st now st' tm tm')
  then show ?case by (auto simp: send_front_def Let_def split: if_splits intro: modes_frame)
qed (auto intro: modes modes_connect modes_steps modes_frame)

lemma reach_sess:
  assumes "irc_reach E st"
  shows "sess_ok st"
  using assms
proof (induction rule: irc_reach.induct)
  case (new ping pong timer si)
  then show ?case
    by (simp add: irc_new_def sess_ok_def irc_inv_def users_ok_def chans_ok_def sendq_ok_def life_of_def)
next
  case (turn st now len line lv r lv' st')
  then show ?case using sess_loop_step [of st E now len line lv] by (simp add: res_all_def)
next
  case (line_sent st now tm st' tm')
  then show ?case using sess_send_front by blast
qed (auto simp: sess_other_fields intro: sess sess_api sess_connect sess_disconnect)



end
