(* ===== verification/Wildcard.thy ===== *)
theory Wildcard
  imports Ircstring
begin

text \<open>
  Wildcard masks: \<open>wildcard.cpp\<close> and the string overloads of \<open>wildcard.h\<close>. The template is a function
  of its case converter; pointers into the two strings are the lists of bytes from there on. The
  locale \<open>case_converter\<close> is what the algorithm needs of a converter; it is interpreted on all three.
\<close>

abbreviation wc_star :: byte where "wc_star \<equiv> 0x2A"
abbreviation wc_any :: byte where "wc_any \<equiv> 0x3F"

subsection \<open>The matcher\<close>

text \<open>The first loop: \<open>None\<close> is the early \<open>return false\<close>.\<close>

function wc_loop1 :: "(byte \<Rightarrow> byte) \<Rightarrow> byte list \<Rightarrow> byte list \<Rightarrow> (byte list \<times> byte list) option" where
  "wc_loop1 conv msk str =
    (if cstr_at str 0 \<noteq> 0 \<and> cstr_at msk 0 \<noteq> wc_star then
       (if conv (cstr_at msk 0) \<noteq> conv (cstr_at str 0) \<and> cstr_at msk 0 \<noteq> wc_any then None
        else wc_loop1 conv (drop 1 msk) (drop 1 str))
     else Some (msk, str))"
  by pat_completeness auto
termination
  by (relation "measure (\<lambda>(_, _, str). length str)") (auto simp: cstr_at_def split: if_splits)

text \<open>The last loop and the final test.\<close>

fun wc_tail :: "byte list \<Rightarrow> bool" where
  "wc_tail [] = True"
| "wc_tail (m # msk) = (if m = wc_star then wc_tail msk else m = 0)"

text \<open>
  The second loop. \<open>mp\<close> is \<open>None\<close> while it is the null pointer; dereferencing it is the fault. For
  its termination: a star leaves fewer stars behind, a failed attempt moves \<open>cp\<close>, a matched character
  moves \<open>str\<close>.
\<close>

definition wc_stars :: "byte list \<Rightarrow> nat" where
  "wc_stars m = count_list m wc_star"

lemma wc_stars_drop: "wc_stars (drop 1 m) \<le> wc_stars m"
  by (cases m) (simp_all add: wc_stars_def)

lemma wc_stars_drop_star: "cstr_at m 0 = wc_star \<Longrightarrow> wc_stars (drop 1 m) < wc_stars m"
  by (cases m) (simp_all add: wc_stars_def)

function wc_loop2 ::
    "(byte \<Rightarrow> byte) \<Rightarrow> byte list \<Rightarrow> byte list \<Rightarrow> byte list option \<Rightarrow> byte list \<Rightarrow> c_fault + bool" where
  "wc_loop2 conv msk str mp cp =
    (if cstr_at str 0 = 0 then Inr (wc_tail msk)
     else if cstr_at msk 0 = wc_star then
       (let msk = drop 1 msk
        in if cstr_at msk 0 = 0 then Inr True
           else wc_loop2 conv msk str (Some msk) (drop 1 str))
     else if conv (cstr_at msk 0) = conv (cstr_at str 0) \<or> cstr_at msk 0 = wc_any then
       wc_loop2 conv (drop 1 msk) (drop 1 str) mp cp
     else (case mp of None \<Rightarrow> Inl Null_deref | Some p \<Rightarrow> wc_loop2 conv p cp mp (drop 1 cp)))"
  by pat_completeness auto
termination
proof (relation "measures [\<lambda>(_, msk, _, mp, _). max (wc_stars msk) (case mp of None \<Rightarrow> 0 | Some p \<Rightarrow> wc_stars p),
      \<lambda>(_, _, _, _, cp). length cp, \<lambda>(_, _, str, _, _). length str]", goal_cases)
  case (2 conv msk str mp cp x)
  then show ?case using wc_stars_drop_star [of msk] by (auto simp: max_def)
next
  case (3 conv msk str mp cp)
  then show ?case using wc_stars_drop [of msk] by (auto simp: max_def cstr_at_def split: if_splits)
next
  case (4 conv msk str mp cp p)
  then show ?case by (cases cp) (auto simp: max_def cstr_at_def split: if_splits)
qed simp

declare wc_loop1.simps [simp del] wc_loop2.simps [simp del]

definition wc_match_tmpl :: "(byte \<Rightarrow> byte) \<Rightarrow> byte list \<Rightarrow> byte list \<Rightarrow> c_fault + bool" where
  "wc_match_tmpl conv msk str =
    (case wc_loop1 conv msk str of
       None \<Rightarrow> Inr False
     | Some (msk, str) \<Rightarrow> wc_loop2 conv msk str None [])"

definition wc_match :: "byte list \<Rightarrow> byte list \<Rightarrow> c_fault + bool" where
  "wc_match msk str = wc_match_tmpl (\<lambda>c. c) msk str"

definition wc_match_nocase :: "byte list \<Rightarrow> byte list \<Rightarrow> c_fault + bool" where
  "wc_match_nocase msk str = wc_match_tmpl c_tolower msk str"

definition wc_match_irccase :: "byte list \<Rightarrow> byte list \<Rightarrow> c_fault + bool" where
  "wc_match_irccase msk str = wc_match_tmpl irc_tolower msk str"

text \<open>The overloads on \<open>std::string\<close>.\<close>

definition wc_match_s :: "byte list \<Rightarrow> byte list \<Rightarrow> c_fault + bool" where
  "wc_match_s msk str = wc_match (until_nul msk) (until_nul str)"

definition wc_match_nocase_s :: "byte list \<Rightarrow> byte list \<Rightarrow> c_fault + bool" where
  "wc_match_nocase_s msk str = wc_match_nocase (until_nul msk) (until_nul str)"

definition wc_match_irccase_s :: "byte list \<Rightarrow> byte list \<Rightarrow> c_fault + bool" where
  "wc_match_irccase_s msk str = wc_match_irccase (until_nul msk) (until_nul str)"

subsection \<open>What a mask means\<close>

fun glob :: "(byte \<Rightarrow> byte) \<Rightarrow> byte list \<Rightarrow> byte list \<Rightarrow> bool" where
  "glob conv [] s \<longleftrightarrow> s = []"
| "glob conv (m # ms) [] \<longleftrightarrow> m = wc_star \<and> glob conv ms []"
| "glob conv (m # ms) (c # s) \<longleftrightarrow>
    (if m = wc_star then glob conv ms (c # s) \<or> glob conv (m # ms) s
     else (m = wc_any \<or> conv m = conv c) \<and> glob conv ms s)"

subsection \<open>The matcher decides the meaning\<close>

lemma glob_stars: "glob conv msk [] \<longleftrightarrow> (\<forall>c\<in>set msk. c = wc_star)"
  by (induction msk) auto

lemma wc_tail_glob: "cstr_ok msk \<Longrightarrow> wc_tail msk \<longleftrightarrow> glob conv msk []"
  by (induction msk) auto

lemma glob_star_suffix: "glob conv (wc_star # ms) t \<Longrightarrow> glob conv (wc_star # ms) (x @ t)"
  by (induction x) auto

lemma glob_star_iff: "glob conv (wc_star # ms) s \<longleftrightarrow> (\<exists>x t. s = x @ t \<and> glob conv ms t)"
proof (induction s)
  case (Cons c s)
  have "(\<exists>x t. c # s = x @ t \<and> glob conv ms t) \<longleftrightarrow> glob conv ms (c # s) \<or> (\<exists>x t. s = x @ t \<and> glob conv ms t)"
    by (metis append_Cons append_Nil list.exhaust list.inject)
  then show ?case using Cons by simp
qed simp

text \<open>A part of a mask without stars matches as many characters as it has.\<close>

definition wc_fits :: "(byte \<Rightarrow> byte) \<Rightarrow> byte list \<Rightarrow> byte list \<Rightarrow> bool" where
  "wc_fits conv y x \<longleftrightarrow> list_all2 (\<lambda>m c. m \<noteq> wc_star \<and> (m = wc_any \<or> conv m = conv c)) y x"

lemma glob_fits_append: "wc_fits conv y x \<Longrightarrow> glob conv (y @ ms) (x @ s) \<longleftrightarrow> glob conv ms s"
  unfolding wc_fits_def by (induction y arbitrary: x) (auto simp: list_all2_Cons1)

lemma glob_plain_length:
  "\<forall>m\<in>set y. m \<noteq> wc_star \<Longrightarrow> glob conv (y @ ms) s \<Longrightarrow> \<exists>x t. s = x @ t \<and> length x = length y \<and> glob conv ms t"
proof (induction y arbitrary: s)
  case Nil
  then show ?case by auto
next
  case (Cons m y)
  then obtain c s' where s: "s = c # s'" by (cases s) auto
  then have "glob conv (y @ ms) s'" using Cons.prems by auto
  then obtain x t where "s' = x @ t" "length x = length y" "glob conv ms t"
    using Cons.IH [of s'] Cons.prems(1) by (auto 4 3)
  then have "s = (c # x) @ t \<and> length (c # x) = length (m # y) \<and> glob conv ms t" using s by simp
  then show ?case by blast
qed

lemma wc_fits_plain: "wc_fits conv y x \<Longrightarrow> (\<forall>m\<in>set y. m \<noteq> wc_star) \<and> length y = length x"
  unfolding wc_fits_def by (induction y arbitrary: x) (auto simp: list_all2_Cons1)

text \<open>A star after a part that fits makes the choices before it irrelevant.\<close>

lemma glob_star_commit:
  assumes "wc_fits conv y x"
  shows "glob conv (wc_star # y @ wc_star # ms) (x @ s) \<longleftrightarrow> glob conv (wc_star # ms) s"
proof
  assume "glob conv (wc_star # ms) s"
  then have "glob conv (y @ wc_star # ms) (x @ s)" using glob_fits_append [OF assms] by blast
  then show "glob conv (wc_star # y @ wc_star # ms) (x @ s)" using glob_star_iff by blast
next
  assume "glob conv (wc_star # y @ wc_star # ms) (x @ s)"
  then obtain a b where ab: "x @ s = a @ b" "glob conv (y @ wc_star # ms) b" using glob_star_iff by blast
  obtain b1 b2 where b: "b = b1 @ b2" "length b1 = length y" "glob conv (wc_star # ms) b2"
    using glob_plain_length [OF _ ab(2)] wc_fits_plain [OF assms] by blast
  have "length x \<le> length (a @ b1)" using b(2) wc_fits_plain [OF assms] by simp
  moreover have "s = drop (length x) ((a @ b1) @ b2)" using ab(1) b(1) by (metis append.assoc append_eq_conv_conj)
  ultimately have "s = drop (length x) (a @ b1) @ b2" by simp
  then have "\<exists>z. s = z @ b2" ..
  then show "glob conv (wc_star # ms) s" using glob_star_suffix b(3) by blast
qed

lemma glob_stars_fits:
  assumes "wc_fits conv y x"
  shows "glob conv (wc_star # y @ ms) x \<longleftrightarrow> glob conv ms []"
proof
  assume "glob conv ms []"
  then have "glob conv (y @ ms) x" using glob_fits_append [OF assms, of ms "[]"] by simp
  then show "glob conv (wc_star # y @ ms) x" using glob_star_iff [of conv "y @ ms" x] by (metis append_Nil)
next
  assume "glob conv (wc_star # y @ ms) x"
  then obtain a b where ab: "x = a @ b" "glob conv (y @ ms) b" using glob_star_iff by blast
  obtain b1 b2 where b: "b = b1 @ b2" "length b1 = length y" "glob conv ms b2"
    using glob_plain_length [OF _ ab(2)] wc_fits_plain [OF assms] by blast
  then have "b2 = []" using ab(1) wc_fits_plain [OF assms] by simp
  then show "glob conv ms []" using b(3) by simp
qed

locale case_converter =
  fixes conv :: "byte \<Rightarrow> byte"
  assumes conv_zero: "conv c = conv 0 \<longleftrightarrow> c = 0"
begin

text \<open>
  The second loop with a restart point: \<open>p\<close> is the mask behind the last star, the current attempt began at
  \<open>x @ str\<close> and has matched \<open>y\<close> with \<open>x\<close>.
\<close>

lemma wc_loop2_glob:
  assumes "p = y @ msk" and "wc_fits conv y x" and "cp = drop 1 (x @ str)" and "cstr_ok p" and "cstr_ok (x @ str)"
  shows "wc_loop2 conv msk str (Some p) cp = Inr (glob conv (wc_star # p) (x @ str))"
proof -
  have "\<forall>c. conv c = conv 0 \<longleftrightarrow> c = 0" using conv_zero by blast
  then show ?thesis using assms
proof (induction conv msk str "Some p" cp arbitrary: p x y rule: wc_loop2.induct)
  case (1 conv msk str cp)
  note IH = "1.hyps" and z = "1.prems"(1) and p = "1.prems"(2) and fits = "1.prems"(3)
    and cp = "1.prems"(4) and okp = "1.prems"(5) and oks = "1.prems"(6)
  show ?case
  proof (cases str)
    case Nil
    then show ?thesis
      using glob_stars_fits [OF fits, of msk] wc_tail_glob [of msk] p okp
      by (simp add: wc_loop2.simps [of _ msk])
  next
    case str: (Cons c s)
    then have c: "c \<noteq> 0" using oks by simp
    show ?thesis
    proof (cases "cstr_at msk 0 = wc_star")
      case True
      then obtain m' where m: "msk = wc_star # m'" by (cases msk) auto
      have okm: "cstr_ok m'" using okp p m by simp
      show ?thesis
      proof (cases m')
        case Nil
        then have "glob conv (wc_star # p) (x @ str)"
          using glob_star_commit [OF fits, of "[]" str] p m glob_star_suffix [of conv "[]" "[]" str] by simp
        then show ?thesis using Nil m str c by (simp add: wc_loop2.simps [of _ "[wc_star]"])
      next
        case (Cons a m2)
        then have "cstr_at m' 0 \<noteq> 0" using okm by simp
        then have "wc_loop2 conv msk str (Some p) cp = wc_loop2 conv m' str (Some m') (drop 1 str)"
          using m str c by (simp add: wc_loop2.simps [of _ "wc_star # m'"] Let_def)
        also have "\<dots> = Inr (glob conv (wc_star # m') ([] @ str))"
          by (rule IH(1) [where y = "[]"]) (use z m str c \<open>cstr_at m' 0 \<noteq> 0\<close> okm oks in \<open>simp_all add: wc_fits_def\<close>)
        finally have "wc_loop2 conv msk str (Some p) cp = Inr (glob conv (wc_star # m') str)" by simp
        also have "glob conv (wc_star # m') str = glob conv (wc_star # p) (x @ str)"
          using glob_star_commit [OF fits, of m' str] p m by simp
        finally show ?thesis .
      qed
    next
      case nostar: False
      show ?thesis
      proof (cases "conv (cstr_at msk 0) = conv c \<or> cstr_at msk 0 = wc_any")
        case True
        have "msk \<noteq> []" using True z c by (cases msk) auto
        then obtain a m' where m: "msk = a # m'" by (cases msk) auto
        have "wc_fits conv (y @ [a]) (x @ [c])" using fits True nostar m by (auto simp: wc_fits_def intro!: list_all2_appendI)
        then have "wc_loop2 conv (drop 1 msk) (drop 1 str) (Some p) cp = Inr (glob conv (wc_star # p) ((x @ [c]) @ drop 1 str))"
          by (intro IH(2) [where y = "y @ [a]"]) (use z m str c nostar True p cp okp oks in simp_all)
        then show ?thesis using m str c nostar True by (simp add: wc_loop2.simps [of _ "a # m'"])
      next
        case False
        have no: "\<not> glob conv p (x @ str)"
          using glob_fits_append [OF fits, of msk str] p False nostar str by (cases msk) auto
        then have step: "glob conv (wc_star # p) (x @ str) = glob conv (wc_star # p) (drop 1 (x @ str))"
          using str by (cases x) auto
        have "wc_loop2 conv msk str (Some p) cp = wc_loop2 conv p cp (Some p) (drop 1 cp)"
          using str c nostar False by (simp add: wc_loop2.simps [of _ msk])
        also have "\<dots> = Inr (glob conv (wc_star # p) ([] @ cp))"
          by (rule IH(3) [where y = "[]"])
            (use z str c nostar False okp cp cstr_ok_drop [OF oks, of 1] in \<open>simp_all add: wc_fits_def\<close>)
        finally show ?thesis using step cp by simp
      qed
    qed
  qed
qed
qed

lemma wc_loop1_glob:
  assumes "cstr_ok msk" and "cstr_ok str"
  shows "case wc_loop1 conv msk str of
      None \<Rightarrow> \<not> glob conv msk str
    | Some (m, s) \<Rightarrow> cstr_ok m \<and> cstr_ok s \<and> (glob conv msk str \<longleftrightarrow> glob conv m s) \<and>
        (s = [] \<or> cstr_at m 0 = wc_star)"
proof -
  have "\<forall>c. conv c = conv 0 \<longleftrightarrow> c = 0" using conv_zero by blast
  then show ?thesis using assms
  proof (induction conv msk str rule: wc_loop1.induct)
    case (1 conv msk str)
    show ?case
    proof (cases "cstr_at str 0 \<noteq> 0 \<and> cstr_at msk 0 \<noteq> wc_star")
      case False
      then have "wc_loop1 conv msk str = Some (msk, str)" by (subst wc_loop1.simps) auto
      moreover have "str = [] \<or> cstr_at msk 0 = wc_star" using False cstr_ok_at [OF "1.prems"(3), of 0] by auto
      ultimately show ?thesis using "1.prems" by simp
    next
      case go: True
      then obtain c s where str: "str = c # s" by (cases str) auto
      show ?thesis
      proof (cases "conv (cstr_at msk 0) \<noteq> conv c \<and> cstr_at msk 0 \<noteq> wc_any")
        case True
        then have "wc_loop1 conv msk str = None" using go str by (simp add: wc_loop1.simps [of _ msk])
        moreover have "\<not> glob conv msk str" using True go str by (cases msk) auto
        ultimately show ?thesis by simp
      next
        case False
        have "msk \<noteq> []" using False "1.prems"(1) go str by (cases msk) auto
        then obtain a m where m: "msk = a # m" by (cases msk) auto
        have "wc_loop1 conv msk str = wc_loop1 conv m s"
          using go False str m by (subst wc_loop1.simps) auto
        moreover have "glob conv msk str = glob conv m s" using go False str m by auto
        moreover have "case wc_loop1 conv m s of None \<Rightarrow> \<not> glob conv m s
            | Some (m', s') \<Rightarrow> cstr_ok m' \<and> cstr_ok s' \<and> glob conv m s = glob conv m' s' \<and>
                (s' = [] \<or> cstr_at m' 0 = wc_star)"
          using "1.IH" [OF go] False "1.prems" str m by (auto split: option.splits)
        ultimately show ?thesis by (simp only:)
      qed
    qed
  qed
qed

lemma wc_match_tmpl_glob:
  assumes "cstr_ok msk" and "cstr_ok str"
  shows "wc_match_tmpl conv msk str = Inr (glob conv msk str)"
proof (cases "wc_loop1 conv msk str")
  case None
  then show ?thesis using wc_loop1_glob [OF assms] by (simp add: wc_match_tmpl_def)
next
  case (Some ms)
  obtain m s where ms: "ms = (m, s)" by (cases ms)
  have l: "cstr_ok m" "cstr_ok s" "glob conv msk str = glob conv m s" "s = [] \<or> cstr_at m 0 = wc_star"
    using wc_loop1_glob [OF assms] Some ms by auto
  have "wc_loop2 conv m s None [] = Inr (glob conv m s)"
  proof (cases s)
    case Nil
    then show ?thesis using wc_tail_glob [OF l(1)] by (simp add: wc_loop2.simps [of _ m])
  next
    case (Cons c t)
    then obtain m' where m': "m = wc_star # m'" using l(4) by (cases m) auto
    have c: "c \<noteq> 0" "cstr_ok m'" using l(1,2) Cons m' by auto
    show ?thesis
    proof (cases m')
      case Nil
      then show ?thesis using m' Cons c glob_star_suffix [of conv "[]" "[]" s]
        by (simp add: wc_loop2.simps [of _ "[wc_star]"])
    next
      case (Cons a m2)
      then have "cstr_at m' 0 \<noteq> 0" using c by simp
      then have "wc_loop2 conv m s None [] = wc_loop2 conv m' s (Some m') (drop 1 s)"
        using m' \<open>s = c # t\<close> c by (simp add: wc_loop2.simps [of _ "wc_star # m'"] Let_def)
      then show ?thesis
        using wc_loop2_glob [of m' "[]" m' "[]" "drop 1 s" s] c l(2) m' by (simp add: wc_fits_def)
    qed
  qed
  then show ?thesis using Some ms l(3) by (simp add: wc_match_tmpl_def)
qed

end

interpretation wc_case: case_converter "\<lambda>c. c"
  by unfold_locales simp

interpretation wc_nocase: case_converter c_tolower
  by unfold_locales (metis c_tolower_zero)

interpretation wc_irccase: case_converter irc_tolower
  by unfold_locales (metis irc_tolower_zero)

text \<open>C26: the three matchers terminate, never follow the null restart pointer, and decide the meaning of the
  mask: \<open>*\<close> is any string, \<open>?\<close> any byte, everything else itself up to the case converter.\<close>

theorem wc_match_glob:
  "wc_match_s msk str = Inr (glob (\<lambda>c. c) (until_nul msk) (until_nul str)) \<and>
   wc_match_nocase_s msk str = Inr (glob c_tolower (until_nul msk) (until_nul str)) \<and>
   wc_match_irccase_s msk str = Inr (glob irc_tolower (until_nul msk) (until_nul str))"
  by (simp add: wc_match_s_def wc_match_nocase_s_def wc_match_irccase_s_def wc_match_def wc_match_nocase_def
      wc_match_irccase_def wc_case.wc_match_tmpl_glob wc_nocase.wc_match_tmpl_glob wc_irccase.wc_match_tmpl_glob)

end
