(* ===== verification/Ircbot.thy ===== *)
theory Ircbot
  imports Ircsession Wildcard
begin

text \<open>
  The bot of \<open>ircbot.h\<close> and \<open>ircbot.cpp\<close>: the tables of event handlers and commands, the event queue and
  the handling of one event, \<open>event_cb_real\<close>. The connections are sessions of theory \<open>Irc\<close>, by their
  pointer. The code behind the registered pointers is a parameter (\<open>bot_code\<close>): a handler gets the
  event, which it may change through the pointer, and the whole state of the bot; \<open>ib_world\<close> is what
  else it acts on. The settings of the configuration are the function \<open>bc_cfg\<close>.
\<close>

record event_handler =
  eh_handler :: "nat option"
  eh_priority :: int
  eh_userdata :: nat

record cmd_handler =
  ch_handler :: "nat option"
  ch_userdata :: nat

record 'w ircbot =
  ib_event_handlers :: "event_handler list"
  ib_cmd_handlers :: "(byte list, cmd_handler) smap"
  ib_re_command :: "byte list"
  ib_max_lines_per_cmd :: int
  ib_events :: "(nat \<times> ircevent) list"
  ib_total_event_cnt :: u64
  ib_evpersec_counter :: u32
  ib_irc_conns :: "nat list"
  ib_next_connid :: int
  ib_irc :: "nat \<Rightarrow> irc"
  ib_name :: "nat \<Rightarrow> byte list"
  ib_deleted :: "ircevent list"
  ib_world :: 'w

definition HANDLER_FINISHED :: int where "HANDLER_FINISHED = 0"
definition HANDLER_GO_ON :: int where "HANDLER_GO_ON = 1"

record 'w bot_code =
  bc_env :: irc_env
  bc_event :: "nat \<Rightarrow> nat \<Rightarrow> ircevent \<Rightarrow> nat \<Rightarrow> 'w ircbot \<Rightarrow> int \<times> ircevent \<times> 'w ircbot"
  bc_cmd :: "nat \<Rightarrow> nat \<Rightarrow> irc_privmsg \<Rightarrow> irc_msginfo \<Rightarrow> byte list \<Rightarrow> byte list \<Rightarrow> nat \<Rightarrow>
    'w ircbot \<Rightarrow> irc_privmsg \<times> 'w ircbot"
  bc_cfg :: "byte list \<Rightarrow> byte list"

subsection \<open>Commands\<close>

definition register_cmd :: "byte list \<Rightarrow> nat option \<Rightarrow> nat \<Rightarrow> 'w ircbot \<Rightarrow> bool \<times> 'w ircbot" where
  "register_cmd name handler userdata b =
    (if smap_find caseless_string_less name (ib_cmd_handlers b) = None then
       (True, b\<lparr>ib_cmd_handlers := smap_set caseless_string_less name
          \<lparr>ch_handler = handler, ch_userdata = userdata\<rparr> (ib_cmd_handlers b)\<rparr>)
     else (False, b))"

definition unregister_cmd :: "byte list \<Rightarrow> 'w ircbot \<Rightarrow> bool \<times> 'w ircbot" where
  "unregister_cmd name b =
    (if smap_find caseless_string_less name (ib_cmd_handlers b) = None then (False, b)
     else (True, b\<lparr>ib_cmd_handlers := smap_erase caseless_string_less name (ib_cmd_handlers b)\<rparr>))"

definition get_cmd_handler :: "byte list \<Rightarrow> 'w ircbot \<Rightarrow> cmd_handler option" where
  "get_cmd_handler name b = smap_find caseless_string_less name (ib_cmd_handlers b)"

subsection \<open>Event handlers\<close>

definition event_handler_priority_compator :: "event_handler \<Rightarrow> event_handler \<Rightarrow> bool" where
  "event_handler_priority_compator eh1 eh2 \<longleftrightarrow> eh_priority eh1 > eh_priority eh2"

text \<open>\<open>srt\<close> is \<open>std::sort\<close> with this comparator.\<close>

type_synonym handler_sort = "event_handler list \<Rightarrow> event_handler list"

definition register_event_handler ::
  "handler_sort \<Rightarrow> nat option \<Rightarrow> int \<Rightarrow> nat \<Rightarrow> 'w ircbot \<Rightarrow> bool \<times> 'w ircbot" where
  "register_event_handler srt handler priority userdata b =
    (if list_ex (\<lambda>h. eh_handler h = handler) (ib_event_handlers b) then (False, b)
     else (True, b\<lparr>ib_event_handlers := srt (ib_event_handlers b @
       [\<lparr>eh_handler = handler, eh_priority = priority, eh_userdata = userdata\<rparr>])\<rparr>))"

fun erase_handler :: "nat option \<Rightarrow> event_handler list \<Rightarrow> event_handler list option" where
  "erase_handler handler [] = None"
| "erase_handler handler (h # hs) =
    (if eh_handler h = handler then Some hs else map_option ((#) h) (erase_handler handler hs))"

definition unregister_event_handler :: "handler_sort \<Rightarrow> nat option \<Rightarrow> 'w ircbot \<Rightarrow> bool \<times> 'w ircbot" where
  "unregister_event_handler srt handler b =
    (case erase_handler handler (ib_event_handlers b) of
       Some hs \<Rightarrow> (True, b\<lparr>ib_event_handlers := srt hs\<rparr>)
     | None \<Rightarrow> (False, b))"

text \<open>The loop of \<open>call_event_handlers\<close>. It holds the lock of the list for reading, so the list is the
  one it started with.\<close>

fun run_event_handlers ::
  "'w bot_code \<Rightarrow> nat \<Rightarrow> event_handler list \<Rightarrow> ircevent \<Rightarrow> 'w ircbot \<Rightarrow> int \<times> ircevent \<times> 'w ircbot" where
  "run_event_handlers C isrv [] ev b = (HANDLER_GO_ON, ev, b)"
| "run_event_handlers C isrv (h # hs) ev b =
    (case eh_handler h of
       None \<Rightarrow> run_event_handlers C isrv hs ev b
     | Some f \<Rightarrow>
         (let (ret, ev, b) = bc_event C f isrv ev (eh_userdata h) b
          in if ret = HANDLER_FINISHED then (HANDLER_FINISHED, ev, b) else run_event_handlers C isrv hs ev b))"

definition call_event_handlers ::
  "'w bot_code \<Rightarrow> nat \<Rightarrow> ircevent \<Rightarrow> 'w ircbot \<Rightarrow> int \<times> ircevent \<times> 'w ircbot" where
  "call_event_handlers C isrv ev b = run_event_handlers C isrv (ib_event_handlers b) ev b"

subsection \<open>The event queue\<close>

definition add_to_event_queue :: "nat \<Rightarrow> ircevent \<Rightarrow> 'w ircbot \<Rightarrow> int \<times> 'w ircbot" where
  "add_to_event_queue src evdata b =
    (0, b\<lparr>ib_events := ib_events b @ [(src, evdata)], ib_total_event_cnt := ib_total_event_cnt b + 1,
          ib_evpersec_counter := ib_evpersec_counter b + 1\<rparr>)"

definition bot_event_cb :: "nat \<Rightarrow> ircevent \<Rightarrow> 'w ircbot \<Rightarrow> int \<times> 'w ircbot" where
  "bot_event_cb irc_client evdata b = (0, snd (add_to_event_queue irc_client evdata b))"

text \<open>\<open>delete_ircevent\<close>; its effect on memory is in theory \<open>Ircevent\<close>.\<close>

definition bot_delete_event :: "ircevent \<Rightarrow> 'w ircbot \<Rightarrow> 'w ircbot" where
  "bot_delete_event ev b = b\<lparr>ib_deleted := ib_deleted b @ [ev]\<rparr>"

definition clear_event_queue :: "'w ircbot \<Rightarrow> int \<times> 'w ircbot" where
  "clear_event_queue b = (0, (fold bot_delete_event (map snd (ib_events b)) b)\<lparr>ib_events := []\<rparr>)"

text \<open>What \<open>main_thread_cleanup\<close> does to the queue: the events of the connection go, but for the last one.
  The loop goes on with the iterator it has just erased, which \<open>std::deque::erase\<close> has made invalid: from
  the first erasure on its behaviour is undefined.\<close>

datatype iterator_fault = Invalid_iterator

fun drop_loop :: "nat \<Rightarrow> (nat \<times> ircevent) list \<Rightarrow> iterator_fault + unit" where
  "drop_loop isrv [] = Inr ()"
| "drop_loop isrv ((src, ev) # es) =
    (if src = isrv \<and> event_id ev \<noteq> IRCEVENT_DISCONNECTED then Inl Invalid_iterator else drop_loop isrv es)"

definition drop_conn_events :: "nat \<Rightarrow> 'w ircbot \<Rightarrow> iterator_fault + 'w ircbot" where
  "drop_conn_events isrv b = map_sum id (\<lambda>_. b) (drop_loop isrv (ib_events b))"

lemma drop_conn_events_defined:
  "drop_conn_events isrv b =
    (if \<exists>e \<in> set (ib_events b). fst e = isrv \<and> event_id (snd e) \<noteq> IRCEVENT_DISCONNECTED
     then Inl Invalid_iterator else Inr b)"
proof -
  have "drop_loop isrv es = (if \<exists>e \<in> set es. fst e = isrv \<and> event_id (snd e) \<noteq> IRCEVENT_DISCONNECTED
    then Inl Invalid_iterator else Inr ())" for es
    by (induction isrv es rule: drop_loop.induct) auto
  then show ?thesis by (simp add: drop_conn_events_def)
qed

subsection \<open>One event\<close>

text \<open>A message that may be a command. The handlers of the command event get references to the parts
  of the command.\<close>

definition privmsg_command :: "'w bot_code \<Rightarrow> nat \<Rightarrow> irc_privmsg \<Rightarrow> 'w ircbot \<Rightarrow> irc_privmsg \<times> 'w ircbot" where
  "privmsg_command C isrv pm b =
    (if mi_msgtype (pm_msginfo pm) = IRC_MSGTYPE_CTCP \<or> mi_msgtype (pm_msginfo pm) = IRC_MSGTYPE_CTCPREPLY
     then (pm, b)
     else (case re_full (en_pcre (bc_env C)) (ib_re_command b) (pm_msg pm) of
         None \<Rightarrow> (pm, b)
       | Some gs \<Rightarrow>
           (let cmd_trigger = gs ! 0; cmd = gs ! 1; carg = gs ! 2
            in case smap_find caseless_string_less cmd (ib_cmd_handlers b) of
                 None \<Rightarrow> (pm, b)
               | Some h \<Rightarrow>
                   (let mdest = (pm_msginfo pm)\<lparr>mi_line_converted := False\<rparr>;
                        (ret, ev, b) = call_event_handlers C isrv (Botevent_command pm mdest cmd_trigger cmd carg) b;
                        (pm, mdest, cmd, carg) = (case ev of
                            Botevent_command pm mdest t cmd carg \<Rightarrow> (pm, mdest, cmd, carg)
                          | _ \<Rightarrow> (pm, mdest, cmd, carg))
                    in if ret = HANDLER_FINISHED then (pm, b)
                    else (case ch_handler h of
                        None \<Rightarrow> (pm, b)
                      | Some f \<Rightarrow> bc_cmd C f isrv pm mdest cmd carg (ch_userdata h) b)))))"

definition bot_join :: "'w bot_code \<Rightarrow> nat \<Rightarrow> byte list \<Rightarrow> 'w ircbot \<Rightarrow> 'w ircbot" where
  "bot_join C isrv chans b =
    (if chans \<noteq> [] then b\<lparr>ib_irc := (ib_irc b)(isrv := snd (join_channel (bc_env C) chans (ib_irc b isrv)))\<rparr> else b)"

definition autojoin :: "'w bot_code \<Rightarrow> nat \<Rightarrow> 'w ircbot \<Rightarrow> 'w ircbot" where
  "autojoin C isrv b =
    (let b = bot_join C isrv (bc_cfg C (c_lit ''autojoin_channels'')) b
     in bot_join C isrv (bc_cfg C (c_lit ''irc_servers['' @ [0x27] @ ib_name b isrv @ [0x27] @
          c_lit ''].autojoin_channels'')) b)"

definition event_cb_real :: "'w bot_code \<Rightarrow> nat \<Rightarrow> ircevent \<Rightarrow> 'w ircbot \<Rightarrow> 'w ircbot" where
  "event_cb_real C isrv evdata b =
    (let etype = event_id evdata;
         (ret, ev, b) = call_event_handlers C isrv evdata b;
         (ev, b) =
           (if ret = HANDLER_FINISHED then (ev, b)
            else if etype = IRCEVENT_PRIVMSG then
              (case ev of
                 Ircevent_privmsg pm \<Rightarrow> (let (pm, b) = privmsg_command C isrv pm b in (Ircevent_privmsg pm, b))
               | _ \<Rightarrow> (ev, b))
            else if etype = IRCEVENT_LOGGEDIN then (ev, autojoin C isrv b)
            else (ev, b));
         (_, ev_done, b) = call_event_handlers C isrv (Botevent_evhandler_done ev) b;
         ev = (case ev_done of Botevent_evhandler_done ev \<Rightarrow> ev | _ \<Rightarrow> ev)
     in bot_delete_event ev b)"

subsection \<open>Connections and settings\<close>

definition find_conn_by_name :: "byte list \<Rightarrow> 'w ircbot \<Rightarrow> nat option" where
  "find_conn_by_name name b = find (\<lambda>p. ib_name b p = name) (ib_irc_conns b)"

definition check_ircconn :: "nat \<Rightarrow> 'w ircbot \<Rightarrow> bool" where
  "check_ircconn isrv b \<longleftrightarrow> isrv \<in> set (ib_irc_conns b)"

text \<open>\<open>privmsg_real\<close> and \<open>privmsg\<close> of a connection: \<open>ENABLE_PRIVMSG_SEND_EVENT\<close> is not defined.\<close>

definition bot_privmsg_real ::
  "'w bot_code \<Rightarrow> nat \<Rightarrow> irc_msginfo \<Rightarrow> byte list \<Rightarrow> 'w ircbot \<Rightarrow> int \<times> 'w ircbot" where
  "bot_privmsg_real C isrv dest msg b =
    (let (ret, st) = privmsg (bc_env C) dest msg (ib_irc b isrv)
     in (ret, b\<lparr>ib_irc := (ib_irc b)(isrv := st)\<rparr>))"

definition bot_privmsg ::
  "'w bot_code \<Rightarrow> nat \<Rightarrow> irc_msginfo \<Rightarrow> byte list \<Rightarrow> 'w ircbot \<Rightarrow> int \<times> 'w ircbot" where
  "bot_privmsg C isrv dest msg b =
    bot_privmsg_real C isrv dest msg (snd (add_to_event_queue isrv (Botevent_privmsg_send dest msg) b))"

fun match_masks :: "byte list list \<Rightarrow> byte list \<Rightarrow> c_fault + bool" where
  "match_masks [] ident = Inr False"
| "match_masks (msk # msks) ident =
    (case wc_match_irccase_s msk ident of
       Inl f \<Rightarrow> Inl f
     | Inr True \<Rightarrow> Inr True
     | Inr False \<Rightarrow> match_masks msks ident)"

text \<open>\<open>admin_masks\<close> is the array \<open>botadmin_masks\<close> of the settings.\<close>

definition is_botadmin :: "byte list list \<Rightarrow> byte list \<Rightarrow> c_fault + bool" where
  "is_botadmin admin_masks ident = match_masks admin_masks ident"

definition is_botcommand :: "'w bot_code \<Rightarrow> byte list \<Rightarrow> 'w ircbot \<Rightarrow> (byte list \<times> byte list \<times> byte list) option" where
  "is_botcommand C msg b =
    map_option (\<lambda>gs. (gs ! 0, gs ! 1, gs ! 2)) (re_full (en_pcre (bc_env C)) (ib_re_command b) msg)"

text \<open>\<open>ret\<close> is the result of opening the file, \<open>ok\<close> whether the pattern compiles, \<open>maxl\<close> the setting
  \<open>max_lines_per_cmd\<close>, \<open>pre\<close> the setting \<open>cmd_prefix\<close>.\<close>

definition re_command_pattern :: "byte list \<Rightarrow> byte list" where
  "re_command_pattern pre =
    c_lit ''^(?:'' @ [0x03] @ c_lit ''[0-9]{0,2}+,?+[0-9]{0,2}+|'' @
    c_lit ''[ '' @ [0x09, 0x02, 0x1F, 0x0F] @ c_lit '']'' @ c_lit '')*?'' @
    c_lit ''('' @ pre @ c_lit '')'' @ c_lit ''([^ ]+) ?(.*)''"

definition load_cfg_file :: "int \<Rightarrow> byte list \<Rightarrow> bool \<Rightarrow> int \<Rightarrow> 'w ircbot \<Rightarrow> int \<times> 'w ircbot" where
  "load_cfg_file ret pre ok maxl b =
    (if ret < 0 then (ret, b)
     else
       (let b = b\<lparr>ib_re_command := re_command_pattern pre\<rparr>
        in if \<not> ok then (- 1, b) else (0, b\<lparr>ib_max_lines_per_cmd := maxl\<rparr>)))"

subsection \<open>Tables\<close>

definition same_cmd :: "byte list \<Rightarrow> byte list \<Rightarrow> bool" where
  "same_cmd a b \<longleftrightarrow> map c_tolower (until_nul a) = map c_tolower (until_nul b)"

lemma caseless_equiv: "\<not> caseless_string_less a b \<and> \<not> caseless_string_less b a \<longleftrightarrow> same_cmd a b"
proof -
  have k: "c_cmp.key s = map uint (map c_tolower (until_nul s)) @ [0]" for s
    by (simp add: c_cmp.key_def)
  have "inj (uint :: byte \<Rightarrow> int)" by (simp add: inj_def word_uint_eq_iff)
  then have "c_strcasecmp s t = 0 \<longleftrightarrow> map c_tolower (until_nul s) = map c_tolower (until_nul t)" for s t
    using c_cmp.cmp_key [of s t] unfolding k by (simp only: append_same_eq inj_map_eq_map)
  then show ?thesis
    using c_cmp.cmp_sym [of "until_nul b" "until_nul a"] c_cmp.cmp_sym [of "until_nul a" "until_nul b"]
    unfolding caseless_string_less_def same_cmd_def by (metis until_nul_idem less_irrefl linorder_neqE_linordered_idom)
qed

text \<open>The table of commands is a map from names without regard to case: registering a new name adds
  it, a name that is taken in any spelling is refused and keeps its handler; unregistering takes the
  name away in every spelling; all other commands stay.\<close>

theorem cmd_table:
  assumes "smap_ok caseless_string_less (ib_cmd_handlers b)"
  shows "fst (register_cmd n f u b) = (get_cmd_handler n b = None) \<and>
    get_cmd_handler m (snd (register_cmd n f u b)) =
      (if same_cmd n m \<and> get_cmd_handler n b = None then Some \<lparr>ch_handler = f, ch_userdata = u\<rparr>
       else get_cmd_handler m b) \<and>
    fst (unregister_cmd n b) = (get_cmd_handler n b \<noteq> None) \<and>
    get_cmd_handler m (snd (unregister_cmd n b)) = (if same_cmd n m then None else get_cmd_handler m b) \<and>
    smap_ok caseless_string_less (ib_cmd_handlers (snd (register_cmd n f u b))) \<and>
    smap_ok caseless_string_less (ib_cmd_handlers (snd (unregister_cmd n b)))"
  using caseless_map.find_set [OF assms, of m n] caseless_map.find_erase [OF assms, of m n]
    caseless_map.set_ok [OF assms] caseless_map.erase_ok [OF assms] caseless_map.find_same [of n m "ib_cmd_handlers b"]
    caseless_equiv [of n m] assms
  by (auto simp: register_cmd_def unregister_cmd_def get_cmd_handler_def)

text \<open>What \<open>std::sort\<close> with the comparator of the handlers promises, and the invariant of the list.\<close>

definition handlers_sorted :: "event_handler list \<Rightarrow> bool" where
  "handlers_sorted hs \<longleftrightarrow> sorted_wrt (\<lambda>g h. eh_priority h \<le> eh_priority g) hs"

definition sorts_handlers :: "handler_sort \<Rightarrow> bool" where
  "sorts_handlers srt \<longleftrightarrow> (\<forall>hs. mset (srt hs) = mset hs \<and> handlers_sorted (srt hs))"

definition handlers_ok :: "'w ircbot \<Rightarrow> bool" where
  "handlers_ok b \<longleftrightarrow> handlers_sorted (ib_event_handlers b) \<and> distinct (map eh_handler (ib_event_handlers b))"

lemma sorts_handlers_sort_key: "sorts_handlers (sort_key (\<lambda>h. - eh_priority h))"
  using sorted_sort_key [of "\<lambda>h. - eh_priority h"]
  by (auto simp: sorts_handlers_def handlers_sorted_def sorted_map)

lemma erase_handler_some:
  "distinct (map eh_handler hs) \<Longrightarrow> erase_handler f hs =
    (if f \<in> eh_handler ` set hs then Some (filter (\<lambda>h. eh_handler h \<noteq> f) hs) else None)"
proof (induction hs)
  case (Cons h hs)
  show ?case
  proof (cases "eh_handler h = f")
    case True
    then have "f \<notin> eh_handler ` set hs" using Cons.prems by auto
    then have "filter (\<lambda>h. eh_handler h \<noteq> f) hs = hs" by (auto intro: filter_True)
    then show ?thesis using True by simp
  qed (use Cons in auto)
qed simp

lemma handlers_resorted:
  assumes "sorts_handlers srt" "distinct (map eh_handler hs)"
  shows "handlers_ok (b\<lparr>ib_event_handlers := srt hs\<rparr>)"
proof -
  have m: "mset (srt hs) = mset hs" "handlers_sorted (srt hs)" using assms(1) by (simp_all add: sorts_handlers_def)
  then have "mset (map eh_handler (srt hs)) = mset (map eh_handler hs)" by simp
  then have "distinct (map eh_handler (srt hs))" using assms(2) mset_eq_imp_distinct_iff by blast
  then show ?thesis using m(2) by (simp add: handlers_ok_def)
qed

text \<open>The list of event handlers has every callback at most once and is ordered by priority, the
  highest first, after every registration and removal, whichever order \<open>std::sort\<close> gives equal
  priorities. A callback that is registered already is refused; removing one keeps the others.\<close>

theorem handler_table:
  assumes "sorts_handlers srt" and "handlers_ok b"
  shows "handlers_ok (snd (register_event_handler srt f pri u b)) \<and>
    handlers_ok (snd (unregister_event_handler srt f b)) \<and>
    fst (register_event_handler srt f pri u b) = (f \<notin> eh_handler ` set (ib_event_handlers b)) \<and>
    mset (ib_event_handlers (snd (register_event_handler srt f pri u b))) = mset (ib_event_handlers b) +
      (if f \<in> eh_handler ` set (ib_event_handlers b) then {#}
       else {#\<lparr>eh_handler = f, eh_priority = pri, eh_userdata = u\<rparr>#}) \<and>
    fst (unregister_event_handler srt f b) = (f \<in> eh_handler ` set (ib_event_handlers b)) \<and>
    mset (ib_event_handlers (snd (unregister_event_handler srt f b))) =
      {#h \<in># mset (ib_event_handlers b). eh_handler h \<noteq> f#}"
proof -
  let ?hs = "ib_event_handlers b"
  have d: "distinct (map eh_handler ?hs)" using assms(2) by (simp add: handlers_ok_def)
  have srt: "mset (srt hs) = mset hs" for hs using assms(1) by (simp add: sorts_handlers_def)
  have f: "filter (\<lambda>h. eh_handler h \<noteq> f) ?hs = ?hs" if "f \<notin> eh_handler ` set ?hs"
    using that by (auto simp: filter_id_conv)
  have "distinct (map eh_handler (?hs @ [\<lparr>eh_handler = f, eh_priority = pri, eh_userdata = u\<rparr>]))"
    if "f \<notin> eh_handler ` set ?hs" using that d by simp
  moreover have "distinct (map eh_handler (filter (\<lambda>h. eh_handler h \<noteq> f) ?hs))"
    using d by (rule distinct_map_filter)
  ultimately show ?thesis
    using handlers_resorted [OF assms(1)] d assms(2) f
    by (auto simp: register_event_handler_def unregister_event_handler_def erase_handler_some list_ex_iff srt
        simp flip: mset_filter)
qed

subsection \<open>Who hears what\<close>

text \<open>A bot whose callbacks only log that they were called; \<open>fin\<close> tells which callback finishes which
  event.\<close>

datatype bot_call =
    is_event: Call_event nat ircevent
  | is_command: Call_command nat irc_privmsg irc_msginfo "byte list" "byte list"

definition trace_code ::
  "irc_env \<Rightarrow> (byte list \<Rightarrow> byte list) \<Rightarrow> (nat \<Rightarrow> ircevent \<Rightarrow> bool) \<Rightarrow> bot_call list bot_code" where
  "trace_code E cfg fin =
    \<lparr>bc_env = E,
     bc_event = (\<lambda>f isrv ev ud b. (if fin f ev then HANDLER_FINISHED else HANDLER_GO_ON, ev,
       b\<lparr>ib_world := ib_world b @ [Call_event f ev]\<rparr>)),
     bc_cmd = (\<lambda>f isrv pm mdest cmd carg ud b. (pm, b\<lparr>ib_world := ib_world b @ [Call_command f pm mdest cmd carg]\<rparr>)),
     bc_cfg = cfg\<rparr>"

lemma trace_code_sel [simp]:
  "bc_event (trace_code E cfg fin) f isrv ev ud b = (if fin f ev then HANDLER_FINISHED else HANDLER_GO_ON, ev,
    b\<lparr>ib_world := ib_world b @ [Call_event f ev]\<rparr>)"
  "bc_cmd (trace_code E cfg fin) f isrv pm mdest cmd carg ud b =
    (pm, b\<lparr>ib_world := ib_world b @ [Call_command f pm mdest cmd carg]\<rparr>)"
  "bc_env (trace_code E cfg fin) = E"
  by (simp_all add: trace_code_def)

fun heard :: "(nat \<Rightarrow> bool) \<Rightarrow> event_handler list \<Rightarrow> nat list" where
  "heard fin [] = []"
| "heard fin (h # hs) =
    (case eh_handler h of None \<Rightarrow> heard fin hs | Some f \<Rightarrow> if fin f then [f] else f # heard fin hs)"

definition finishers :: "(nat \<Rightarrow> ircevent \<Rightarrow> bool) \<Rightarrow> ircevent \<Rightarrow> event_handler list \<Rightarrow> event_handler set" where
  "finishers fin ev hs = {h \<in> set hs. \<exists>f. eh_handler h = Some f \<and> fin f ev}"

lemma run_trace:
  "run_event_handlers (trace_code E cfg fin) isrv hs ev b =
    (if finishers fin ev hs = {} then HANDLER_GO_ON else HANDLER_FINISHED, ev,
     b\<lparr>ib_world := ib_world b @ map (\<lambda>f. Call_event f ev) (heard (\<lambda>f. fin f ev) hs)\<rparr>)"
proof (induction hs arbitrary: b)
  case (Cons h hs)
  have f: "finishers fin ev (h # hs) =
      (if \<exists>f. eh_handler h = Some f \<and> fin f ev then insert h (finishers fin ev hs) else finishers fin ev hs)"
    by (auto simp: finishers_def)
  show ?case
    by (cases "eh_handler h") (auto simp: f Cons.IH HANDLER_FINISHED_def HANDLER_GO_ON_def)
qed (simp add: finishers_def)

lemma heard_handlers: "f \<in> set (heard fin hs) \<Longrightarrow> Some f \<in> eh_handler ` set hs"
  by (induction hs) (auto split: option.splits if_splits)

lemma heard_distinct: "distinct (map eh_handler hs) \<Longrightarrow> distinct (heard fin hs)"
  by (induction hs) (auto split: option.splits dest: heard_handlers)

text \<open>In a list in order a callback hears an event when no handler of its priority or a higher one
  finishes it, and does not when one of a higher priority does.\<close>

lemma heard_priority:
  assumes "handlers_sorted hs" "distinct (map eh_handler hs)" "h \<in> set hs" "eh_handler h = Some f"
  shows "(\<exists>g \<in> finishers fin ev hs. eh_priority h < eh_priority g) \<Longrightarrow> f \<notin> set (heard (\<lambda>f. fin f ev) hs)"
    and "(\<forall>g \<in> finishers fin ev hs. g = h \<or> eh_priority g < eh_priority h) \<Longrightarrow> f \<in> set (heard (\<lambda>f. fin f ev) hs)"
proof -
  show "(\<exists>g \<in> finishers fin ev hs. eh_priority h < eh_priority g) \<Longrightarrow> f \<notin> set (heard (\<lambda>f. fin f ev) hs)"
    using assms
  proof (induction hs)
    case (Cons k hs)
    note prems = Cons.prems
    obtain g where g: "g \<in> finishers fin ev (k # hs)" "eh_priority h < eh_priority g" using prems(1) by blast
    have "h \<noteq> k" using g prems(2) by (force simp: finishers_def handlers_sorted_def)
    then have h: "h \<in> set hs" using prems(4) by simp
    have nk: "eh_handler k \<noteq> Some f" using h prems(3,5) by force
    show ?case
    proof (cases "\<exists>f. eh_handler k = Some f \<and> fin f ev")
      case False
      then have "g \<in> finishers fin ev hs" using g(1) by (auto simp: finishers_def)
      then have "f \<notin> set (heard (\<lambda>f. fin f ev) hs)"
        using Cons.IH prems(2,3,5) g(2) h by (auto simp: handlers_sorted_def)
      then show ?thesis using nk False by (auto split: option.split)
    qed (use nk in auto)
  qed (simp add: finishers_def)
  show "(\<forall>g \<in> finishers fin ev hs. g = h \<or> eh_priority g < eh_priority h) \<Longrightarrow> f \<in> set (heard (\<lambda>f. fin f ev) hs)"
    using assms
  proof (induction hs)
    case (Cons k hs)
    show ?case
    proof (cases "h = k")
      case False
      then have h: "h \<in> set hs" using Cons.prems(4) by simp
      then have "eh_priority h \<le> eh_priority k" using Cons.prems(2) by (simp add: handlers_sorted_def)
      then have "\<not> (\<exists>f. eh_handler k = Some f \<and> fin f ev)"
        using Cons.prems(1) False by (force simp: finishers_def)
      moreover have "f \<in> set (heard (\<lambda>f. fin f ev) hs)"
        using Cons.IH Cons.prems(1-3,5) h by (auto simp: handlers_sorted_def finishers_def)
      ultimately show ?thesis by (auto split: option.split)
    qed (use Cons.prems(5) in auto)
  qed simp
qed

text \<open>The command that a message event runs.\<close>

definition command_of ::
  "irc_env \<Rightarrow> (nat \<Rightarrow> ircevent \<Rightarrow> bool) \<Rightarrow> ircevent \<Rightarrow> 'w ircbot \<Rightarrow> bot_call option" where
  "command_of E fin ev b =
    (case ev of
       Ircevent_privmsg pm \<Rightarrow>
         (case re_full (en_pcre E) (ib_re_command b) (pm_msg pm) of
            Some gs \<Rightarrow>
              (case get_cmd_handler (gs ! 1) b of
                 Some h \<Rightarrow>
                   (let mdest = (pm_msginfo pm)\<lparr>mi_line_converted := False\<rparr>;
                        cev = Botevent_command pm mdest (gs ! 0) (gs ! 1) (gs ! 2)
                    in if mi_msgtype (pm_msginfo pm) \<in> {IRC_MSGTYPE_CTCP, IRC_MSGTYPE_CTCPREPLY} \<or>
                          finishers fin ev (ib_event_handlers b) \<noteq> {} \<or> finishers fin cev (ib_event_handlers b) \<noteq> {}
                       then None
                       else map_option (\<lambda>f. Call_command f pm mdest (gs ! 1) (gs ! 2)) (ch_handler h))
               | None \<Rightarrow> None)
          | None \<Rightarrow> None)
     | _ \<Rightarrow> None)"

lemma call_trace:
  "call_event_handlers (trace_code E cfg fin) isrv ev b =
    (if finishers fin ev (ib_event_handlers b) = {} then HANDLER_GO_ON else HANDLER_FINISHED, ev,
     b\<lparr>ib_world := ib_world b @ map (\<lambda>f. Call_event f ev) (heard (\<lambda>f. fin f ev) (ib_event_handlers b))\<rparr>)"
  by (simp add: call_event_handlers_def run_trace)

text \<open>The calls made for a command: its event, then the command itself.\<close>

definition command_calls ::
  "irc_env \<Rightarrow> (nat \<Rightarrow> ircevent \<Rightarrow> bool) \<Rightarrow> ircevent \<Rightarrow> 'w ircbot \<Rightarrow> bot_call list \<Rightarrow> bool" where
  "command_calls E fin ev b cs \<longleftrightarrow>
    (\<exists>hs. (\<forall>c \<in> set hs. \<exists>f pm m t n a. c = Call_event f (Botevent_command pm m t n a) \<and> ev = Ircevent_privmsg pm) \<and>
      cs = hs @ (case command_of E fin ev b of Some c \<Rightarrow> [c] | None \<Rightarrow> []))"

lemma privmsg_command_trace:
  assumes "finishers fin (Ircevent_privmsg pm) (ib_event_handlers b) = {}"
    and b0: "ib_event_handlers b0 = ib_event_handlers b" "ib_cmd_handlers b0 = ib_cmd_handlers b" "ib_re_command b0 = ib_re_command b"
  shows "\<exists>cs. privmsg_command (trace_code E cfg fin) isrv pm b0 = (pm, b0\<lparr>ib_world := ib_world b0 @ cs\<rparr>) \<and>
    command_calls E fin (Ircevent_privmsg pm) b cs"
proof -
  let ?C = "trace_code E cfg fin" and ?hs = "ib_event_handlers b" and ?cmd = "command_of E fin (Ircevent_privmsg pm) b"
  have none: "\<exists>cs. privmsg_command ?C isrv pm b0 = (pm, b0\<lparr>ib_world := ib_world b0 @ cs\<rparr>) \<and>
      command_calls E fin (Ircevent_privmsg pm) b cs"
    if "privmsg_command ?C isrv pm b0 = (pm, b0)" "?cmd = None"
    using that by (intro exI [of _ "[]"]) (simp add: command_calls_def)
  consider (ctcp) "mi_msgtype (pm_msginfo pm) = IRC_MSGTYPE_CTCP \<or> mi_msgtype (pm_msginfo pm) = IRC_MSGTYPE_CTCPREPLY"
    | (plain) "mi_msgtype (pm_msginfo pm) \<noteq> IRC_MSGTYPE_CTCP" "mi_msgtype (pm_msginfo pm) \<noteq> IRC_MSGTYPE_CTCPREPLY"
      "re_full (en_pcre E) (ib_re_command b) (pm_msg pm) = None"
    | (unknown) gs where "mi_msgtype (pm_msginfo pm) \<noteq> IRC_MSGTYPE_CTCP" "mi_msgtype (pm_msginfo pm) \<noteq> IRC_MSGTYPE_CTCPREPLY"
      "re_full (en_pcre E) (ib_re_command b) (pm_msg pm) = Some gs" "get_cmd_handler (gs ! 1) b = None"
    | (known) gs h where "mi_msgtype (pm_msginfo pm) \<noteq> IRC_MSGTYPE_CTCP" "mi_msgtype (pm_msginfo pm) \<noteq> IRC_MSGTYPE_CTCPREPLY"
      "re_full (en_pcre E) (ib_re_command b) (pm_msg pm) = Some gs" "get_cmd_handler (gs ! 1) b = Some h"
    by (cases "re_full (en_pcre E) (ib_re_command b) (pm_msg pm)"; blast)
  then show ?thesis
  proof cases
    case ctcp
    then show ?thesis by (intro none) (auto simp: privmsg_command_def command_of_def Let_def split: option.split)
  next
    case plain
    then show ?thesis by (intro none) (simp_all add: privmsg_command_def command_of_def b0)
  next
    case unknown
    then show ?thesis by (intro none) (simp_all add: privmsg_command_def command_of_def get_cmd_handler_def b0 Let_def)
  next
    case known
    let ?m = "(pm_msginfo pm)\<lparr>mi_line_converted := False\<rparr>"
    let ?cev = "Botevent_command pm ?m (gs ! 0) (gs ! 1) (gs ! 2)"
    let ?heard = "map (\<lambda>f. Call_event f ?cev) (heard (\<lambda>f. fin f ?cev) ?hs)"
    have h: "smap_find caseless_string_less (gs ! 1) (ib_cmd_handlers b) = Some h" using known(4) by (simp add: get_cmd_handler_def)
    let ?c = "case ?cmd of Some c \<Rightarrow> [c] | None \<Rightarrow> []"
    have "?cmd = (if finishers fin ?cev ?hs \<noteq> {} then None
        else map_option (\<lambda>f. Call_command f pm ?m (gs ! 1) (gs ! 2)) (ch_handler h))"
      using known assms(1) by (simp add: command_of_def Let_def)
    then have "privmsg_command ?C isrv pm b0 = (pm, b0\<lparr>ib_world := ib_world b0 @ ?heard @ ?c\<rparr>)"
      using known(1-3) by (cases "ch_handler h")
        (simp_all add: privmsg_command_def b0 h Let_def call_trace HANDLER_FINISHED_def HANDLER_GO_ON_def del: One_nat_def)
    moreover have "command_calls E fin (Ircevent_privmsg pm) b (?heard @ ?c)"
      unfolding command_calls_def by (intro exI [of _ ?heard]) auto
    ultimately show ?thesis by blast
  qed
qed

lemma autojoin_frame [simp]:
  "ib_event_handlers (autojoin C isrv b) = ib_event_handlers b" "ib_world (autojoin C isrv b) = ib_world b"
  "ib_deleted (autojoin C isrv b) = ib_deleted b"
  by (simp_all add: autojoin_def bot_join_def Let_def)

definition heard_calls :: "(nat \<Rightarrow> ircevent \<Rightarrow> bool) \<Rightarrow> ircevent \<Rightarrow> 'w ircbot \<Rightarrow> bot_call list" where
  "heard_calls fin ev b = map (\<lambda>f. Call_event f ev) (heard (\<lambda>f. fin f ev) (ib_event_handlers b))"

lemma event_log:
  "\<exists>mid. ib_world (event_cb_real (trace_code E cfg fin) isrv ev b) =
      ib_world b @ heard_calls fin ev b @ mid @ heard_calls fin (Botevent_evhandler_done ev) b \<and>
    command_calls E fin ev b mid \<and>
    ib_deleted (event_cb_real (trace_code E cfg fin) isrv ev b) = ib_deleted b @ [ev]"
proof -
  let ?C = "trace_code E cfg fin" and ?hs = "ib_event_handlers b"
  let ?b0 = "b\<lparr>ib_world := ib_world b @ heard_calls fin ev b\<rparr>"
  have call: "call_event_handlers ?C isrv ev b =
      (if finishers fin ev ?hs = {} then HANDLER_GO_ON else HANDLER_FINISHED, ev, ?b0)"
    by (simp add: call_trace heard_calls_def)
  have dn: "call_event_handlers ?C isrv (Botevent_evhandler_done ev) c =
      (if finishers fin (Botevent_evhandler_done ev) ?hs = {} then HANDLER_GO_ON else HANDLER_FINISHED,
       Botevent_evhandler_done ev, c\<lparr>ib_world := ib_world c @ heard_calls fin (Botevent_evhandler_done ev) b\<rparr>)"
    if "ib_event_handlers c = ?hs" for c
    using that by (simp add: call_trace heard_calls_def)
  have nil: "command_of E fin ev b = None \<Longrightarrow> command_calls E fin ev b []"
    by (simp add: command_calls_def)
  consider (cmd) pm where "ev = Ircevent_privmsg pm" "finishers fin ev ?hs = {}"
    | (fin) "finishers fin ev ?hs \<noteq> {}" | (other) "\<forall>pm. ev \<noteq> Ircevent_privmsg pm" "finishers fin ev ?hs = {}"
    by blast
  then show ?thesis
  proof cases
    case cmd
    obtain cs where cs: "privmsg_command ?C isrv pm ?b0 = (pm, ?b0\<lparr>ib_world := ib_world ?b0 @ cs\<rparr>)" "command_calls E fin ev b cs"
      using privmsg_command_trace [of fin pm b ?b0 E cfg isrv] cmd by auto
    have "event_cb_real ?C isrv ev b =
        bot_delete_event ev (?b0\<lparr>ib_world := ib_world ?b0 @ cs @ heard_calls fin (Botevent_evhandler_done ev) b\<rparr>)"
      unfolding event_cb_real_def Let_def call using cmd(2) cs(1) dn [of "?b0\<lparr>ib_world := ib_world ?b0 @ cs\<rparr>"]
      by (simp add: cmd(1) HANDLER_FINISHED_def HANDLER_GO_ON_def)
    then show ?thesis using cs(2) by (intro exI [of _ cs]) (simp add: bot_delete_event_def)
  next
    case fin
    then have "command_of E fin ev b = None"
      by (auto simp: command_of_def Let_def split: ircevent.split option.split)
    moreover have "event_cb_real ?C isrv ev b =
        bot_delete_event ev (?b0\<lparr>ib_world := ib_world ?b0 @ heard_calls fin (Botevent_evhandler_done ev) b\<rparr>)"
      unfolding event_cb_real_def Let_def call using fin dn [of ?b0] by simp
    ultimately show ?thesis using nil by (intro exI [of _ "[]"]) (simp add: bot_delete_event_def)
  next
    case other
    then have "command_of E fin ev b = None" by (cases ev) (simp_all add: command_of_def)
    moreover have "\<exists>c. ib_event_handlers c = ?hs \<and> ib_world c = ib_world ?b0 \<and> ib_deleted c = ib_deleted b \<and>
        event_cb_real ?C isrv ev b =
        bot_delete_event ev (c\<lparr>ib_world := ib_world c @ heard_calls fin (Botevent_evhandler_done ev) b\<rparr>)"
      unfolding event_cb_real_def Let_def call using other dn [of ?b0] dn [of "autojoin ?C isrv ?b0"]
      by (intro exI [of _ "if event_id ev \<noteq> IRCEVENT_PRIVMSG \<and> event_id ev = IRCEVENT_LOGGEDIN then autojoin ?C isrv ?b0 else ?b0"])
        (auto simp: HANDLER_FINISHED_def HANDLER_GO_ON_def split: ircevent.split)
    ultimately show ?thesis using nil by (intro exI [of _ "[]"]) (auto simp: bot_delete_event_def)
  qed
qed

lemma count_distinct: "distinct xs \<Longrightarrow> count_list xs x = (if x \<in> set xs then 1 else 0)"
  by (induction xs) auto

lemma count_heard_calls:
  assumes "distinct (map eh_handler (ib_event_handlers b))"
  shows "count_list (heard_calls fin ev b) (Call_event f ev') =
    (if ev' = ev \<and> f \<in> set (heard (\<lambda>f. fin f ev) (ib_event_handlers b)) then 1 else 0)"
proof -
  have "distinct (heard_calls fin ev b)"
    using heard_distinct [OF assms] by (simp add: heard_calls_def distinct_map inj_on_def)
  then show ?thesis
    by (auto simp: count_distinct heard_calls_def)
qed

lemma filter_heard_calls [simp]: "filter is_command (heard_calls fin ev b) = []"
  by (simp add: heard_calls_def filter_empty_conv)

lemma command_calls_log:
  assumes "command_calls E fin ev b cs"
  shows "filter is_command cs = (case command_of E fin ev b of Some c \<Rightarrow> [c] | None \<Rightarrow> [])"
    "count_list cs (Call_event f ev) = 0"
proof -
  obtain hs where hs: "\<forall>c \<in> set hs. \<exists>f pm m t n a. c = Call_event f (Botevent_command pm m t n a) \<and> ev = Ircevent_privmsg pm"
    "cs = hs @ (case command_of E fin ev b of Some c \<Rightarrow> [c] | None \<Rightarrow> [])"
    using assms by (auto simp: command_calls_def)
  have c: "command_of E fin ev b = Some c \<Longrightarrow> is_command c" for c
    by (auto simp: command_of_def Let_def split: ircevent.splits option.splits if_splits)
  show "filter is_command cs = (case command_of E fin ev b of Some c \<Rightarrow> [c] | None \<Rightarrow> [])"
    using hs c by (auto simp: filter_empty_conv split: option.split)
  show "count_list cs (Call_event f ev) = 0"
    using hs c by (fastforce simp: count_list_0_iff split: option.splits)
qed


text \<open>A user is a bot administrator exactly when one of the configured masks, as a wildcard pattern
  under IRC case folding, fits the identity; the check always returns.\<close>

theorem is_botadmin_masks:
  "is_botadmin masks ident = Inr (\<exists>m \<in> set masks. glob irc_tolower (until_nul m) (until_nul ident))"
proof -
  have "wc_match_irccase_s m ident = Inr (glob irc_tolower (until_nul m) (until_nul ident))" for m
    by (simp add: wc_match_irccase_s_def wc_match_irccase_def wc_irccase.wc_match_tmpl_glob)
  then have "match_masks ms ident = Inr (\<exists>m \<in> set ms. glob irc_tolower (until_nul m) (until_nul ident))" for ms
    by (induction ms) (auto split: bool.split)
  then show ?thesis by (simp add: is_botadmin_def)
qed

subsection \<open>The lists after a QUIT\<close>

text \<open>\<open>irc::ircbot_event_handler\<close> as a registered callback, and callbacks that leave the sessions, the
  event and the list of handlers alone.\<close>

definition runs_irc_handler :: "'w bot_code \<Rightarrow> nat \<Rightarrow> bool" where
  "runs_irc_handler C k \<longleftrightarrow> (\<forall>isrv ev ud b. bc_event C k isrv ev ud b = (HANDLER_GO_ON, ev,
    b\<lparr>ib_irc := (ib_irc b)(isrv := ircbot_event_handler (bc_env C) ev (ib_irc b isrv))\<rparr>))"

definition keeps_sessions :: "'w bot_code \<Rightarrow> ircevent \<Rightarrow> nat \<Rightarrow> bool" where
  "keeps_sessions C ev f \<longleftrightarrow> (\<forall>isrv ud b ret ev' b'. bc_event C f isrv ev ud b = (ret, ev', b') \<longrightarrow>
    ev' = ev \<and> ib_irc b' = ib_irc b \<and> ib_event_handlers b' = ib_event_handlers b)"

definition never_finishes :: "'w bot_code \<Rightarrow> ircevent \<Rightarrow> nat \<Rightarrow> bool" where
  "never_finishes C ev f \<longleftrightarrow> (\<forall>isrv ud b ret ev' b'.
    bc_event C f isrv ev ud b = (ret, ev', b') \<longrightarrow> ret \<noteq> HANDLER_FINISHED)"

lemma run_keeps:
  assumes "\<forall>h \<in> set hs. \<forall>f. eh_handler h = Some f \<longrightarrow> keeps_sessions C ev f"
    and "run_event_handlers C isrv hs ev b = (r, ev', b')"
  shows "ev' = ev \<and> ib_irc b' = ib_irc b \<and> ib_event_handlers b' = ib_event_handlers b"
  using assms
proof (induction hs arbitrary: b)
  case (Cons h hs)
  show ?case
  proof (cases "eh_handler h")
    case (Some f)
    obtain ret e c where c: "bc_event C f isrv ev (eh_userdata h) b = (ret, e, c)" by (metis prod_cases3)
    then have "e = ev \<and> ib_irc c = ib_irc b \<and> ib_event_handlers c = ib_event_handlers b"
      using Cons.prems(1) Some by (auto simp: keeps_sessions_def)
    then show ?thesis using Cons.IH [of c] Cons.prems Some c by (auto split: if_splits)
  qed (use Cons in auto)
qed simp

lemma run_append:
  assumes "\<forall>h \<in> set hs1. \<forall>f. eh_handler h = Some f \<longrightarrow> keeps_sessions C ev f \<and> never_finishes C ev f"
  shows "\<exists>c. ib_irc c = ib_irc b \<and>
    run_event_handlers C isrv (hs1 @ hs2) ev b = run_event_handlers C isrv hs2 ev c"
  using assms
proof (induction hs1 arbitrary: b)
  case (Cons h hs)
  show ?case
  proof (cases "eh_handler h")
    case (Some f)
    obtain ret e c where c: "bc_event C f isrv ev (eh_userdata h) b = (ret, e, c)" by (metis prod_cases3)
    have "keeps_sessions C ev f" "never_finishes C ev f" using Cons.prems Some by auto
    then have "e = ev \<and> ib_irc c = ib_irc b" "ret \<noteq> HANDLER_FINISHED"
      using c unfolding keeps_sessions_def never_finishes_def by blast+
    then show ?thesis using Cons.IH [of c] Cons.prems Some c by auto
  qed (use Cons in auto)
qed auto

lemma irc_handler_keeps:
  "runs_irc_handler C k \<Longrightarrow> (\<forall>e. ev \<noteq> Botevent_evhandler_done e) \<Longrightarrow> keeps_sessions C ev k"
  by (cases ev) (auto simp: runs_irc_handler_def keeps_sessions_def ircbot_event_handler_def)

lemma members_quit:
  assumes "nick_pcre (en_pcre E)" "irc_inv st" "plain_nick (ii_nick who)"
  shows "members (ircbot_event_handler E (Botevent_evhandler_done (Ircevent_quit who msg)) st) =
    member_step (joined_chans st) (Quits (irc_strlower (ii_nick who))) (members st)"
  using members_del_chans [OF assms(1,3,2), of "ir_chans st"] assms(2)
  by (simp add: ircbot_event_handler_def del_from_chanuserlist_all_def joined_chans_def irc_inv_def chans_ok_def
      del: member_step.simps)

text \<open>The bot's part of a QUIT. \<open>irc::main_loop\<close> leaves the user on the lists, so that handlers of the
  event can still see the channels; handling the event takes the user off every channel of that
  connection, once all handlers have seen or finished it, and changes no other connection. No
  handler in front of \<open>irc::ircbot_event_handler\<close> may finish the \<open>evhandler_done\<close> event.\<close>

theorem quit_event_updates_lists:
  assumes "ib_event_handlers b = hs1 @ h # hs2" "eh_handler h = Some k" "runs_irc_handler C k"
    and "\<forall>g \<in> set (hs1 @ hs2). \<forall>f. eh_handler g = Some f \<longrightarrow> (\<forall>ev. keeps_sessions C ev f)"
    and "\<forall>g \<in> set hs1. \<forall>f. eh_handler g = Some f \<longrightarrow> (\<forall>ev. never_finishes C (Botevent_evhandler_done ev) f)"
    and "nick_pcre (en_pcre (bc_env C))" "irc_inv (ib_irc b isrv)" "plain_nick (ii_nick who)"
  shows "members (ib_irc (event_cb_real C isrv (Ircevent_quit who msg) b) isrv) =
      member_step (joined_chans (ib_irc b isrv)) (Quits (irc_strlower (ii_nick who))) (members (ib_irc b isrv)) \<and>
    (\<forall>i. i \<noteq> isrv \<longrightarrow> ib_irc (event_cb_real C isrv (Ircevent_quit who msg) b) i = ib_irc b i)"
proof -
  let ?ev = "Ircevent_quit who msg"
  obtain r ev' c where c: "call_event_handlers C isrv ?ev b = (r, ev', c)" by (metis prod_cases3)
  have keep: "ev' = ?ev \<and> ib_irc c = ib_irc b \<and> ib_event_handlers c = ib_event_handlers b"
    by (rule run_keeps [OF _ c [unfolded call_event_handlers_def]])
      (use assms(1-4) irc_handler_keeps [OF assms(3), of ?ev] in auto)
  obtain r2 ev2 d where d: "call_event_handlers C isrv (Botevent_evhandler_done ?ev) c = (r2, ev2, d)" by (metis prod_cases3)
  obtain e where e: "ib_irc e = ib_irc c"
    "run_event_handlers C isrv (h # hs2) (Botevent_evhandler_done ?ev) e = (r2, ev2, d)"
  proof -
    have "\<forall>g \<in> set hs1. \<forall>f. eh_handler g = Some f \<longrightarrow>
        keeps_sessions C (Botevent_evhandler_done ?ev) f \<and> never_finishes C (Botevent_evhandler_done ?ev) f"
      using assms(4,5) by auto
    from run_append [OF this, of c isrv "h # hs2"] show thesis
      using that d keep assms(1) unfolding call_event_handlers_def by metis
  qed
  let ?e = "e\<lparr>ib_irc := (ib_irc e)(isrv := ircbot_event_handler (bc_env C) (Botevent_evhandler_done ?ev) (ib_irc e isrv))\<rparr>"
  have "run_event_handlers C isrv hs2 (Botevent_evhandler_done ?ev) ?e = (r2, ev2, d)"
    using e(2) assms(2,3) by (simp add: runs_irc_handler_def HANDLER_GO_ON_def HANDLER_FINISHED_def)
  then have "ib_irc d = ib_irc ?e" using run_keeps [of hs2 C "Botevent_evhandler_done ?ev" isrv ?e r2 ev2 d] assms(4) by auto
  then have "ib_irc d = (ib_irc b)(isrv := ircbot_event_handler (bc_env C) (Botevent_evhandler_done ?ev) (ib_irc b isrv))"
    using e(1) keep by simp
  moreover have "ib_irc (event_cb_real C isrv ?ev b) = ib_irc d"
    using keep by (simp add: event_cb_real_def Let_def c d IRCEVENT_QUIT_def IRCEVENT_PRIVMSG_def IRCEVENT_LOGGEDIN_def bot_delete_event_def)
  ultimately show ?thesis using members_quit [OF assms(6-8)] by (simp del: member_step.simps)
qed

subsection \<open>Concrete bots\<close>

definition bot_witness :: "'w \<Rightarrow> 'w ircbot" where
  "bot_witness w =
    \<lparr>ib_event_handlers = [], ib_cmd_handlers = [], ib_re_command = re_command_pattern (c_lit ''!''),
     ib_max_lines_per_cmd = 3, ib_events = [], ib_total_event_cnt = 0, ib_evpersec_counter = 0,
     ib_irc_conns = [1], ib_next_connid = 1, ib_irc = (\<lambda>_. session_witness), ib_name = (\<lambda>_. c_lit ''net''),
     ib_deleted = [], ib_world = w\<rparr>"

lemma cmd_table_witness:
  "get_cmd_handler (c_lit ''LOAD'') (snd (register_cmd (c_lit ''load'') (Some 1) 0 (bot_witness ()))) =
    Some \<lparr>ch_handler = Some 1, ch_userdata = 0\<rparr>"
  using cmd_table [of "bot_witness ()" "c_lit ''load''" "Some 1" 0 "c_lit ''LOAD''"]
  by (simp add: bot_witness_def get_cmd_handler_def same_cmd_def c_lit_def until_nul_def c_tolower_def)

lemma handler_table_witness:
  "handlers_ok (snd (register_event_handler (sort_key (\<lambda>h. - eh_priority h)) (Some 1) 5 0 (bot_witness ())))"
  using handler_table [OF sorts_handlers_sort_key, of "bot_witness ()" "Some 1" 5 0]
  by (simp add: bot_witness_def handlers_ok_def handlers_sorted_def)

text \<open>Two handlers, the first one finishes every event.\<close>

definition bot_witness2 :: "bot_call list ircbot" where
  "bot_witness2 = (bot_witness [])\<lparr>ib_event_handlers :=
    [\<lparr>eh_handler = Some 1, eh_priority = 5, eh_userdata = 0\<rparr>, \<lparr>eh_handler = Some 2, eh_priority = 0, eh_userdata = 0\<rparr>]\<rparr>"


definition quit_code :: "unit bot_code" where
  "quit_code =
    \<lparr>bc_env = env_witness2,
     bc_event = (\<lambda>f isrv ev ud b. (HANDLER_GO_ON, ev,
       b\<lparr>ib_irc := (ib_irc b)(isrv := ircbot_event_handler env_witness2 ev (ib_irc b isrv))\<rparr>)),
     bc_cmd = (\<lambda>f isrv pm mdest cmd carg ud b. (pm, b)), bc_cfg = (\<lambda>_. [])\<rparr>"

lemma quit_event_updates_lists_witness:
  "(irc_strlower (c_lit ''#a''), irc_strlower (c_lit ''bob'')) \<notin> members (ib_irc (event_cb_real quit_code 7
      (Ircevent_quit \<lparr>ii_ident = c_lit ''bob!b@h'', ii_nick = c_lit ''bob'', ii_user = c_lit ''b'', ii_host = c_lit ''h''\<rparr> [])
      ((bot_witness ())\<lparr>ib_event_handlers := [\<lparr>eh_handler = Some 0, eh_priority = 0, eh_userdata = 0\<rparr>],
        ib_irc := (\<lambda>_. session_witness\<lparr>ir_chans := [c_lit ''#a''],
          ir_chan_users := [(c_lit ''#a'', [(c_lit ''bob'', irc_user_default\<lparr>ii_nick := c_lit ''bob''\<rparr>)])]\<rparr>)\<rparr>)) 7)"
proof -
  let ?st = "session_witness\<lparr>ir_chans := [c_lit ''#a''],
      ir_chan_users := [(c_lit ''#a'', [(c_lit ''bob'', irc_user_default\<lparr>ii_nick := c_lit ''bob''\<rparr>)])]\<rparr>"
  let ?h = "\<lparr>eh_handler = Some 0, eh_priority = 0, eh_userdata = 0\<rparr>"
  let ?b = "(bot_witness ())\<lparr>ib_event_handlers := [?h], ib_irc := (\<lambda>_. ?st)\<rparr>"
  let ?who = "\<lparr>ii_ident = c_lit ''bob!b@h'', ii_nick = c_lit ''bob'', ii_user = c_lit ''b'', ii_host = c_lit ''h''\<rparr>"
  have inv: "irc_inv (ib_irc ?b 7)"
    by (simp add: session_witness_def irc_new_def irc_inv_def users_ok_def chans_ok_def sendq_ok_def c_lit_def)
  have "members (ib_irc (event_cb_real quit_code 7 (Ircevent_quit ?who []) ?b) 7) =
      member_step (joined_chans (ib_irc ?b 7)) (Quits (irc_strlower (ii_nick ?who))) (members (ib_irc ?b 7)) \<and>
    (\<forall>i. i \<noteq> 7 \<longrightarrow> ib_irc (event_cb_real quit_code 7 (Ircevent_quit ?who []) ?b) i = ib_irc ?b i)"
    by (rule quit_event_updates_lists [of _ "[]" ?h "[]" 0, OF _ _ _ _ _ _ inv])
      (simp_all add: quit_code_def runs_irc_handler_def env_witness2_def nick_pcre_instance
        plain_nick_def c_lit_def modechar_def)
  then show ?thesis by (simp add: joined_chans_def)
qed

end
