(* ===== verification/Botmod.thy ===== *)
theory Botmod
  imports Printf Ircbot
begin

text \<open>
  What the modules of \<open>modules/\<close> share: the messages a command sends through its connection, and the tables of
  commands that a module registers when it is loaded and takes back when it is unloaded.
\<close>

text \<open>\<open>privmsg\<close>, \<open>privmsg_nh\<close> (which keeps the message from highlighting nicks), \<open>privmsgf\<close> and \<open>privmsgf_nh\<close>.\<close>

datatype 'f reply =
  Privmsg "byte list"
| Privmsg_nh "byte list"
| Privmsgf "byte list" "'f varg list"
| Privmsgf_nh "byte list" "'f varg list"

text \<open>The loops over a module's list of names: \<open>f\<close> is the address of the callback.\<close>

definition register_cmds :: "nat \<Rightarrow> byte list list \<Rightarrow> 'w ircbot \<Rightarrow> 'w ircbot" where
  "register_cmds f names b = foldl (\<lambda>b name. snd (register_cmd name (Some f) 0 b)) b names"

definition unregister_cmds :: "byte list list \<Rightarrow> 'w ircbot \<Rightarrow> 'w ircbot" where
  "unregister_cmds names b = foldl (\<lambda>b name. snd (unregister_cmd name b)) b names"

lemma register_cmd_steps:
  assumes "smap_ok caseless_string_less (ib_cmd_handlers b)"
  shows "get_cmd_handler m (snd (register_cmd n f u b)) =
      (if same_cmd n m \<and> get_cmd_handler m b = None then Some \<lparr>ch_handler = f, ch_userdata = u\<rparr> else get_cmd_handler m b)"
    and "get_cmd_handler m (snd (unregister_cmd n b)) = (if same_cmd n m then None else get_cmd_handler m b)"
    and "smap_ok caseless_string_less (ib_cmd_handlers (snd (register_cmd n f u b)))"
    and "smap_ok caseless_string_less (ib_cmd_handlers (snd (unregister_cmd n b)))"
  using caseless_map.find_set [OF assms, of m n] caseless_map.find_erase [OF assms, of m n]
    caseless_map.set_ok [OF assms] caseless_map.erase_ok [OF assms] caseless_map.find_same [of n m "ib_cmd_handlers b"]
    caseless_equiv [of n m] assms
  by (cases "smap_find caseless_string_less m (ib_cmd_handlers b)";
      auto simp: register_cmd_def unregister_cmd_def get_cmd_handler_def)+

lemma register_cmds_lookup:
  assumes "smap_ok caseless_string_less (ib_cmd_handlers b)"
  shows "get_cmd_handler m (register_cmds f names b) =
      (if list_ex (\<lambda>n. same_cmd n m) names \<and> get_cmd_handler m b = None
       then Some \<lparr>ch_handler = Some f, ch_userdata = 0\<rparr> else get_cmd_handler m b) \<and>
    smap_ok caseless_string_less (ib_cmd_handlers (register_cmds f names b))"
  using assms
proof (induction names arbitrary: b)
  case (Cons n names)
  show ?case
    using Cons.IH [OF register_cmd_steps(3) [OF Cons.prems, of n "Some f" 0]] register_cmd_steps(1) [OF Cons.prems, of m n "Some f" 0]
    by (auto simp: register_cmds_def)
qed (simp add: register_cmds_def)

lemma unregister_cmds_lookup:
  assumes "smap_ok caseless_string_less (ib_cmd_handlers b)"
  shows "get_cmd_handler m (unregister_cmds names b) =
      (if list_ex (\<lambda>n. same_cmd n m) names then None else get_cmd_handler m b) \<and>
    smap_ok caseless_string_less (ib_cmd_handlers (unregister_cmds names b))"
  using assms
proof (induction names arbitrary: b)
  case (Cons n names)
  show ?case
    using Cons.IH [OF register_cmd_steps(4) [OF Cons.prems, of n]] register_cmd_steps(2) [OF Cons.prems, of m n]
    by (auto simp: unregister_cmds_def)
qed (simp add: unregister_cmds_def)

end
