(* ===== verification/Etc.thy ===== *)
theory Etc
  imports Utf8 Pcre Numstr
begin

text \<open>
  Text utilities of \<open>etc.cpp\<close>: coding of URLs, HTML entities, splitting at a regular expression, names
  that do not highlight, and reading a file. A \<open>const char *\<close> is the list of the bytes in front of its
  terminating NUL; a function that writes to a buffer returns what it has stored, a store outside the
  buffer or a read behind the terminator is a fault.
\<close>

subsection \<open>URLs\<close>

definition url_plain :: "byte \<Rightarrow> bool" where
  "url_plain c \<longleftrightarrow> 0x30 \<le> c \<and> c \<le> 0x39 \<or> 0x41 \<le> c \<and> c \<le> 0x5A \<or> 0x61 \<le> c \<and> c \<le> 0x7A \<or>
    c = 0x2D \<or> c = 0x5F \<or> c = 0x2E \<or> c = 0x2A"

definition hex_digit :: "byte \<Rightarrow> byte" where
  "hex_digit n = (if n < 10 then 0x30 + n else 0x61 + (n - 10))"

text \<open>The loop: the value of \<open>dlen\<close> and what has been stored.\<close>

fun urlencode_loop :: "byte list \<Rightarrow> int \<Rightarrow> int \<Rightarrow> byte list \<Rightarrow> int \<times> byte list" where
  "urlencode_loop [] sz dlen dst = (dlen, dst)"
| "urlencode_loop (c # sp) sz dlen dst =
    (if c = 0 then (dlen, dst)
     else if url_plain c then
       (if dlen + 1 \<ge> sz then (- 1, dst) else urlencode_loop sp sz (dlen + 1) (dst @ [c]))
     else
       (if dlen + 3 \<ge> sz then (- 1, dst)
        else urlencode_loop sp sz (dlen + 3) (dst @ [0x25, hex_digit (drop_bit 4 c), hex_digit (c AND 0xF)])))"

text \<open>The result and the string in \<open>dst\<close>, which has \<open>sz\<close> bytes.\<close>

definition urlencode :: "byte list \<Rightarrow> int \<Rightarrow> c_fault + (int \<times> byte list)" where
  "urlencode str sz =
    (let (dlen, dst) = urlencode_loop str sz 0 []
     in if int (length dst) \<ge> sz then Inl Write_past_end else Inr (dlen, dst))"

definition urlencode_s :: "byte list \<Rightarrow> c_fault + byte list" where
  "urlencode_s str =
    (case urlencode str (int (length str) * 4 + 1) of
       Inl f \<Rightarrow> Inl f
     | Inr (dlen, buf) \<Rightarrow> Inr (if dlen > 0 then buf else []))"

text \<open>After a percent sign two bytes are read whatever they are; behind the terminator the loop would go on
  in memory that is not the string's.\<close>

fun urldecode_loop :: "byte list \<Rightarrow> int \<Rightarrow> int \<Rightarrow> byte list \<Rightarrow> c_fault + (int \<times> byte list)" where
  "urldecode_loop [] sz dlen dst = Inr (dlen, dst)"
| "urldecode_loop (c # sp) sz dlen dst =
    (if c = 0 then Inr (dlen, dst)
     else if dlen + 1 \<ge> sz then Inr (- 1, dst)
     else if c = 0x25 then
       (case sp of
          h # l # sp \<Rightarrow> urldecode_loop sp sz (dlen + 1) (dst @ [ucast (my_atoi [0x30, 0x78, h, l])])
        | _ \<Rightarrow> Inl Read_past_end)
     else urldecode_loop sp sz (dlen + 1) (dst @ [c]))"

definition urldecode :: "byte list \<Rightarrow> int \<Rightarrow> c_fault + (int \<times> byte list)" where
  "urldecode str sz =
    (case urldecode_loop str sz 0 [] of
       Inl f \<Rightarrow> Inl f
     | Inr (dlen, dst) \<Rightarrow> if int (length dst) \<ge> sz then Inl Write_past_end else Inr (dlen, dst))"

definition urldecode_s :: "byte list \<Rightarrow> c_fault + byte list" where
  "urldecode_s str =
    (case urldecode str (int (length str) + 1) of
       Inl f \<Rightarrow> Inl f
     | Inr (dlen, buf) \<Rightarrow> Inr (if dlen > 0 then until_nul buf else []))"

subsection \<open>HTML entities\<close>

definition entitylist :: "(byte list \<times> byte list) list" where
  "entitylist =
    [(c_lit ''quot'', [0x22]), (c_lit ''apos'', [0x27]), (c_lit ''amp'', [0x26]),
     (c_lit ''lt'', [0x3C]), (c_lit ''gt'', [0x3E]), (c_lit ''nbsp'', [0x20]),
     (c_lit ''iexcl'', [0xC2, 0xA1]), (c_lit ''cent'', [0xC2, 0xA2]), (c_lit ''pound'', [0xC2, 0xA3]),
     (c_lit ''curren'', [0xC2, 0xA4]), (c_lit ''yen'', [0xC2, 0xA5]), (c_lit ''brvbar'', [0xC2, 0xA6]),
     (c_lit ''sect'', [0xC2, 0xA7]), (c_lit ''uml'', [0xC2, 0xA8]), (c_lit ''copy'', [0xC2, 0xA9]),
     (c_lit ''ordf'', [0xC2, 0xAA]), (c_lit ''laquo'', [0xC2, 0xAB]), (c_lit ''not'', [0xC2, 0xAC]),
     (c_lit ''shy'', [0xC2, 0xAD, 0x20]), (c_lit ''reg'', [0xC2, 0xAE]), (c_lit ''macr'', [0xC2, 0xAF]),
     (c_lit ''deg'', [0xC2, 0xB0]), (c_lit ''plusmn'', [0xC2, 0xB1]), (c_lit ''sup2'', [0xC2, 0xB2]),
     (c_lit ''sup3'', [0xC2, 0xB3]), (c_lit ''acute'', [0xC2, 0xB4]), (c_lit ''micro'', [0xC2, 0xB5]),
     (c_lit ''para'', [0xC2, 0xB6]), (c_lit ''middot'', [0xC2, 0xB7]), (c_lit ''cedil'', [0xC2, 0xB8]),
     (c_lit ''sup1'', [0xC2, 0xB9]), (c_lit ''ordm'', [0xC2, 0xBA]), (c_lit ''raquo'', [0xC2, 0xBB]),
     (c_lit ''frac14'', [0xC2, 0xBC]), (c_lit ''frac12'', [0xC2, 0xBD]),
     (c_lit ''frac34'', [0xC2, 0xBE]), (c_lit ''iquest'', [0xC2, 0xBF]),
     (c_lit ''times'', [0xC3, 0x97]), (c_lit ''divide'', [0xC3, 0xB7])]"

text \<open>What the name between \<open>&\<close> and \<open>;\<close> is replaced by.\<close>

definition html_entity :: "byte list \<Rightarrow> byte list" where
  "html_entity ename =
    (case ename of
       [] \<Rightarrow> [0x26, 0x3B]
     | c # r \<Rightarrow>
         if c = 0x23 then
           (let (cl, buf) = utf8_encode (my_atoi (0x30 # r)) 8
            in if cl \<le> 0 then 0x26 # ename @ [0x3B] else until_nul buf)
         else
           (case map_of entitylist ename of
              Some v \<Rightarrow> v
            | None \<Rightarrow> 0x26 # ename @ [0x3B]))"

text \<open>The loop in mode 0 (None) or mode 1 with the name collected so far.\<close>

fun html_loop :: "byte list \<Rightarrow> byte list option \<Rightarrow> byte list \<Rightarrow> byte list" where
  "html_loop [] None result = result"
| "html_loop [] (Some ename) result = result @ ename"
| "html_loop (c # p) None result =
    (if c = 0 then result else if c = 0x26 then html_loop p (Some []) result else html_loop p None (result @ [c]))"
| "html_loop (c # p) (Some ename) result =
    (if c = 0 then result @ ename
     else if c = 0x3B then html_loop p None (result @ html_entity ename)
     else html_loop p (Some (ename @ [c])) result)"

definition decode_html_entities :: "byte list \<Rightarrow> byte list" where
  "decode_html_entities str = html_loop str None []"

subsection \<open>Names\<close>

definition prevent_irc_highlighting_1 :: "byte list \<Rightarrow> c_fault + byte list" where
  "prevent_irc_highlighting_1 nick =
    (let b1 = utf8_strpos_s nick 0
     in case utf8_substr_s nick 1 (- 1) of
          Inl f \<Rightarrow> Inl f
        | Inr b2 \<Rightarrow> Inr (if b2 = [] then nick else b1 @ [0xC2, 0xB7] @ b2))"

subsection \<open>Splitting\<close>

text \<open>\<open>consume\<close> is \<open>re_delimeter.Consume(&input, &buf)\<close>: the text in front of the delimiter and what is left
  of the input.\<close>

type_synonym consume = "byte list \<Rightarrow> (byte list \<times> byte list) option"

partial_function (option) csplit_loop ::
  "consume \<Rightarrow> byte list \<Rightarrow> byte list list \<Rightarrow> (byte list \<times> byte list list) option" where
  "csplit_loop consume input dest =
    (case consume input of
       Some (buf, input) \<Rightarrow> csplit_loop consume input (dest @ [buf])
     | None \<Rightarrow> Some (input, dest))"

definition pcre_csplit :: "consume \<Rightarrow> byte list \<Rightarrow> byte list list option" where
  "pcre_csplit consume data =
    (case csplit_loop consume data [] of
       None \<Rightarrow> None
     | Some (buf, dest) \<Rightarrow>
         (let dest = (if buf \<noteq> [] then dest @ [buf] else dest) in Some (if dest = [] then [[]] else dest)))"

subsection \<open>Files\<close>

text \<open>\<open>chunks\<close> is what the successive calls of \<open>read\<close> give, \<open>sz\<close> the length of the file when it was opened.\<close>

fun readfile_loop :: "nat \<Rightarrow> byte list list \<Rightarrow> nat \<Rightarrow> byte list \<Rightarrow> nat \<times> byte list" where
  "readfile_loop sz [] pos dest = (pos, dest)"
| "readfile_loop sz (ch # chunks) pos dest =
    (if pos \<ge> sz then (pos, dest @ ch) else readfile_loop sz chunks (pos + length ch) (dest @ ch))"

definition readfile_s :: "nat \<Rightarrow> byte list list \<Rightarrow> nat \<times> byte list" where
  "readfile_s sz chunks = readfile_loop sz chunks 0 []"

text \<open>The version with a buffer of \<open>sz + 1024\<close> bytes; \<open>read\<close> stores at \<open>pos\<close>.\<close>

fun readfile_buf :: "nat \<Rightarrow> byte list list \<Rightarrow> byte list \<Rightarrow> c_fault + byte list" where
  "readfile_buf sz [] buf = Inr buf"
| "readfile_buf sz (ch # chunks) buf =
    (if length buf + length ch > sz + 1024 then Inl Write_past_end
     else if length buf \<ge> sz then Inr buf
     else readfile_buf sz chunks (buf @ ch))"

subsection \<open>Messages and addresses\<close>

definition re_strip_irc_colors :: "byte list" where
  "re_strip_irc_colors = [0x03] @ c_lit ''[0-9]{0,2}+,?+[0-9]{0,2}+|'' @ c_lit ''['' @ [0x02, 0x1F, 0x0F] @ c_lit '']''"

definition strip_irc_colors :: "byte pcre \<Rightarrow> byte list \<Rightarrow> byte list" where
  "strip_irc_colors R msg = re_global_replace R re_strip_irc_colors [] msg"

definition strip_spaces :: "byte list \<Rightarrow> byte list" where
  "strip_spaces str = filter (\<lambda>c. \<not> (c = 0x20 \<or> c = 0x09)) (until_nul str)"

definition re_is_bot_cmd :: "byte list" where
  "re_is_bot_cmd =
    c_lit ''^(?:'' @ [0x03] @ c_lit ''[0-9]{0,2}+,?+[0-9]{0,2}+|'' @
    c_lit ''[ '' @ [0x09, 0x02, 0x1F, 0x0F] @ c_lit '']'' @ c_lit '')*?'' @ c_lit ''[!@][^ ]+''"

definition is_bot_command :: "byte pcre \<Rightarrow> byte list \<Rightarrow> bool" where
  "is_bot_command R str \<longleftrightarrow> re_partial R re_is_bot_cmd str \<noteq> None"

record url_parser =
  up_is_valid_url :: bool
  up_protocol :: "byte list"
  up_host :: "byte list"
  up_location :: "byte list"
  up_port :: int

definition re_url :: "byte list" where
  "re_url = c_lit ''^([^:]+)://([^:/]+):?([0-9]+)?(/.*)''"

text \<open>The members of an invalid URL are left as they are, \<open>o\<close>.\<close>

definition url_parser_new :: "byte pcre \<Rightarrow> url_parser \<Rightarrow> byte list \<Rightarrow> url_parser" where
  "url_parser_new R o' url =
    (case re_full R re_url url of
       None \<Rightarrow> o'\<lparr>up_is_valid_url := False\<rparr>
     | Some gs \<Rightarrow>
         (let protocol = gs ! 0; port = gs ! 2
          in \<lparr>up_is_valid_url = True, up_protocol = protocol, up_host = gs ! 1, up_location = gs ! 3,
              up_port =
               (if port = [] then
                  (if protocol = c_lit ''http'' then 80 else if protocol = c_lit ''https'' then 443
                   else if protocol = c_lit ''ftp'' then 21 else if protocol = c_lit ''telnet'' then 23
                   else if protocol = c_lit ''ssh'' then 22 else if protocol = c_lit ''irc'' then 6667
                   else 0)
                else c_atoi port)\<rparr>))"

subsection \<open>Properties of the URL coding\<close>

lemma urlencode_loop_ok:
  "0 \<le> dlen \<Longrightarrow> dlen = int (length dst) \<Longrightarrow> urlencode_loop sp sz dlen dst = (r, d) \<Longrightarrow>
    dlen < sz \<Longrightarrow> int (length d) < sz \<and> (r = - 1 \<or> r = int (length d))"
  by (induction sp sz dlen dst rule: urlencode_loop.induct) (auto split: if_splits)

definition url_code :: "byte \<Rightarrow> byte list" where
  "url_code c = (if url_plain c then [c] else [0x25, hex_digit (drop_bit 4 c), hex_digit (c AND 0xF)])"

lemma url_code_length: "0 < length (url_code c) \<and> length (url_code c) \<le> 3"
  by (simp add: url_code_def)

lemma urlencode_loop_room:
  "dlen + 3 * int (length sp) < sz \<Longrightarrow> urlencode_loop sp sz dlen dst =
    (let t = concat (map url_code (until_nul sp)) in (dlen + int (length t), dst @ t))"
  by (induction sp sz dlen dst rule: urlencode_loop.induct) (auto simp: until_nul_def Let_def url_code_def)

lemma urlencode_text: "urlencode_s s = Inr (concat (map url_code (until_nul s)))"
proof -
  let ?t = "concat (map url_code (until_nul s))"
  have "length (concat (map url_code t)) \<le> 3 * length t" for t
    by (induction t) (auto simp: url_code_def)
  then have "length ?t \<le> 3 * length (until_nul s)" .
  moreover have "length (until_nul s) \<le> length s" by (simp add: until_nul_def length_takeWhile_le)
  ultimately have "length ?t \<le> 3 * length s" by linarith
  then show ?thesis using urlencode_loop_room [of 0 s "int (length s) * 4 + 1" "[]"]
    by (auto simp: urlencode_s_def urlencode_def Let_def split: prod.splits)
qed

lemma nibble_all: "(\<forall>n::byte. n < 16 \<longrightarrow> P n) \<longleftrightarrow> (\<forall>i<16. P (of_nat i))"
proof
  assume a: "\<forall>i<16. P (of_nat i)"
  show "\<forall>n::byte. n < 16 \<longrightarrow> P n"
  proof (intro allI impI)
    fix n :: byte
    assume "n < 16"
    then have "unat n < 16" by (simp add: word_less_nat_alt)
    then have "P (of_nat (unat n))" using a by blast
    then show "P n" by simp
  qed
qed (auto simp: word_less_nat_alt unat_of_nat)

lemma hex_digit_value: "n < 16 \<Longrightarrow> atoi_digit 16 (hex_digit n) = Some (ucast n) \<and> hex_digit n \<noteq> 0"
proof -
  have "\<forall>n::byte. n < 16 \<longrightarrow> atoi_digit 16 (hex_digit n) = Some (ucast n) \<and> hex_digit n \<noteq> 0"
    by (subst nibble_all) (simp add: all_less_numeral atoi_digit_def hex_digit_def)
  then show "n < 16 \<Longrightarrow> atoi_digit 16 (hex_digit n) = Some (ucast n) \<and> hex_digit n \<noteq> 0" by blast
qed

lemma byte_nibbles:
  "unat (drop_bit 4 c) = unat c div 16" "unat (c AND 0xF) = unat c mod 16" for c :: byte
proof -
  show "unat (drop_bit 4 c) = unat c div 16" by (simp add: drop_bit_eq_div unat_div)
  have "c AND 0xF = take_bit 4 c" by (simp add: take_bit_eq_mask mask_numeral)
  then show "unat (c AND 0xF) = unat c mod 16" by (simp add: take_bit_eq_mod unat_mod)
qed

lemma nibble_less: "drop_bit 4 c < 16" "c AND 0xF < 16" for c :: byte
  using byte_nibbles [of c] byte_unat_less [of c] by (simp_all add: word_less_nat_alt)

lemma hex_pair: "my_atoi [0x30, 0x78, hex_digit (drop_bit 4 c), hex_digit (c AND 0xF)] = ucast (c::byte)"
proof -
  let ?h = "drop_bit 4 c" and ?l = "c AND 0xF"
  have "ucast ?h * 16 + ucast ?l = (of_nat (unat c div 16 * 16 + unat c mod 16) :: u32)"
    unfolding of_nat_add of_nat_mult byte_nibbles [symmetric] by simp
  also have "\<dots> = ucast c" by simp
  finally show ?thesis
    using hex_digit_value nibble_less [of c]
    by (simp add: my_atoi_def atoi_sign_def atoi_base_of_def mult.commute)
qed

lemma urldecode_code:
  assumes "c \<noteq> 0" "dlen + 1 < sz"
  shows "urldecode_loop (url_code c @ s) sz dlen dst = urldecode_loop s sz (dlen + 1) (dst @ [c])"
proof -
  have "ucast (ucast c :: u32) = c" by (simp add: u8_eq_bits bit_simps)
  then show ?thesis using assms hex_pair [of c] by (auto simp: url_code_def url_plain_def)
qed

lemma urldecode_codes:
  "cstr_ok t \<Longrightarrow> dlen + int (length t) < sz \<Longrightarrow>
    urldecode_loop (concat (map url_code t)) sz dlen dst = Inr (dlen + int (length t), dst @ t)"
proof (induction t arbitrary: dlen dst)
  case (Cons c t)
  then show ?case using urldecode_code [of c dlen sz "concat (map url_code t)" dst] by simp
qed simp

text \<open>C30: \<open>urlencode\<close> gives letters, digits and \<open>-_.*%\<close> only, and \<open>urldecode\<close> gives back the text it was
  given up to its first NUL, whatever bytes it has; neither leaves its buffer.\<close>

theorem urlencode_decode:
  "\<exists>t. urlencode_s s = Inr t \<and> (\<forall>c \<in> set t. url_plain c \<or> c = 0x25) \<and> urldecode_s t = Inr (until_nul s)"
proof -
  let ?u = "until_nul s" let ?t = "concat (map url_code ?u)"
  have len: "length t \<le> length (concat (map url_code t))" for t
    by (induction t) (auto simp: url_code_def)
  have "urldecode_loop ?t (int (length ?t) + 1) 0 [] = Inr (int (length ?u), ?u)"
    using urldecode_codes [of ?u 0 "int (length ?t) + 1" "[]"] len [of ?u] by simp
  then have "urldecode_s ?t = Inr ?u"
    using len [of ?u] until_nul_id [of ?u] by (simp add: urldecode_s_def urldecode_def)
  moreover have "url_plain (hex_digit n)" if "n < 16" for n
  proof -
    have "\<forall>n::byte. n < 16 \<longrightarrow> url_plain (hex_digit n)"
      by (subst nibble_all) (simp add: all_less_numeral url_plain_def hex_digit_def)
    then show ?thesis using that by blast
  qed
  then have "d \<in> set (url_code c) \<Longrightarrow> url_plain d \<or> d = 0x25" for c d
    using nibble_less [of c] by (auto simp: url_code_def split: if_splits)
  then have "\<forall>c \<in> set ?t. url_plain c \<or> c = 0x25" by auto
  ultimately show ?thesis using urlencode_text by blast
qed

lemma urlencode_decode_witness:
  "urlencode_s (c_lit ''a b'') = Inr (c_lit ''a%20b'') \<and> urldecode_s (c_lit ''a%20b'') = Inr (c_lit ''a b'')"
proof -
  have t: "urlencode_s (c_lit ''a b'') = Inr (c_lit ''a%20b'')" by code_simp
  have "until_nul (c_lit ''a b'') = c_lit ''a b''" by code_simp
  then show ?thesis using urlencode_decode [of "c_lit ''a b''"] t by auto
qed

text \<open>A percent sign with fewer than two bytes behind it.\<close>

fun cut_escape :: "byte list \<Rightarrow> bool" where
  "cut_escape [] \<longleftrightarrow> False"
| "cut_escape (c # s) \<longleftrightarrow> c \<noteq> 0 \<and>
    (if c = 0x25 then (case s of h # l # s \<Rightarrow> cut_escape s | _ \<Rightarrow> True) else cut_escape s)"

lemma urldecode_loop_cut:
  "dlen + int (length s) < sz \<Longrightarrow> dlen = int (length dst) \<Longrightarrow>
    urldecode_loop s sz dlen dst = Inl Read_past_end \<and> cut_escape s \<or>
    (\<exists>d. urldecode_loop s sz dlen dst = Inr (int (length d), d) \<and> int (length d) < sz) \<and> \<not> cut_escape s"
proof (induction s sz dlen dst rule: urldecode_loop.induct)
  case (2 c sp sz dlen dst)
  show ?case
  proof (cases "c = 0x25 \<and> c \<noteq> 0")
    case True
    then show ?thesis using 2 by (cases sp; cases "tl sp") auto
  next
    case False
    then show ?thesis using 2 by (cases "c = 0") auto
  qed
qed auto

text \<open>\<open>urldecode\<close> reads behind the end of its argument exactly when the text has a percent sign with
  fewer than two bytes behind it; such a string can come from anyone. It does nothing else undefined.\<close>

theorem urldecode_reads_past_end:
  "urldecode_s s = Inl Read_past_end \<longleftrightarrow> cut_escape s" "urldecode_s s = Inl f \<Longrightarrow> f = Read_past_end"
  using urldecode_loop_cut [of 0 s "int (length s) + 1" "[]"]
  by (auto simp: urldecode_s_def urldecode_def split: if_splits)

subsection \<open>Properties of the entities\<close>

definition html_escape :: "byte \<Rightarrow> byte list" where
  "html_escape c =
    (if c = 0x26 then c_lit ''&amp;'' else if c = 0x3C then c_lit ''&lt;'' else if c = 0x3E then c_lit ''&gt;''
     else if c = 0x22 then c_lit ''&quot;'' else [c])"

lemma html_loop_escape:
  "c \<noteq> 0 \<Longrightarrow> html_loop (html_escape c @ p) None r = html_loop p None (r @ [c])"
  by (simp add: html_escape_def c_lit_def html_entity_def entitylist_def)

lemma html_loop_escapes:
  "cstr_ok s \<Longrightarrow> html_loop (concat (map html_escape s) @ p) None r = html_loop p None (r @ s)"
  by (induction s arbitrary: r) (auto simp: html_loop_escape)

lemma html_loop_name:
  "cstr_ok n \<Longrightarrow> 0x3B \<notin> set n \<Longrightarrow> html_loop (n @ 0x3B # p) (Some e) r = html_loop p None (r @ html_entity (e @ n))"
  by (induction n arbitrary: e) auto

text \<open>\<open>decode_html_entities\<close> undoes the escaping of a text and reads numeric references: what it makes of
  an escaped text followed by references to code points is the text followed by their UTF-8 encodings, for
  every text without NUL and every code point that \<open>utf8_encode\<close> codes.\<close>

theorem html_decode_escape:
  assumes "cstr_ok s" "\<forall>n \<in> set ns. n < 0x40000 \<and> utf8_codable (of_nat n)"
  shows "decode_html_entities (concat (map html_escape s) @
      concat (map (\<lambda>n. [0x26, 0x23] @ dec_str n @ [0x3B]) ns)) =
    s @ concat (map (\<lambda>n. utf8_encode_buf (of_nat n)) ns)"
proof -
  have ref: "html_entity (0x23 # dec_str n) = utf8_encode_buf (of_nat n)" if "n < 0x40000" "utf8_codable (of_nat n)" for n
  proof -
    let ?u = "of_nat n :: u32"
    have "my_atoi (0x30 # dec_str n) = ?u"
    proof -
      obtain c r where d: "dec_str n = c # r" "0x30 \<le> c" "c \<le> 0x39" using dec_str_head by blast
      then have c: "c \<noteq> 0x78" "c \<noteq> 0x62" by auto
      have "atoi_loop 10 (dec_str n) 0 = ?u" using atoi_dec [of n "[]" 0] by simp
      then show ?thesis using d(1) c by (simp add: my_atoi_def atoi_sign_def atoi_base_of_def atoi_digit_def)
    qed
    moreover have "utf8_char (utf8_encode_buf ?u)" using utf8_encode_buf_char [OF that(2)] .
    ultimately show ?thesis
      using utf8_char_nz [of "utf8_encode_buf ?u"] until_nul_id [of "utf8_encode_buf ?u"]
      by (simp add: html_entity_def utf8_encode_def Let_def)
  qed
  have digits: "cstr_ok (dec_str n)" "0x3B \<notin> set (dec_str n)" for n
    using dec_str_digits [of 0 n] dec_str_digits [of "0x3B" n] by (auto simp: cstr_ok_def)
  have one: "html_loop ([0x26, 0x23] @ dec_str n @ [0x3B] @ p) None r = html_loop p None (r @ utf8_encode_buf (of_nat n))"
    if "n < 0x40000" "utf8_codable (of_nat n)" for n p r
    using html_loop_name [OF digits, of n p "[0x23]" r] ref [OF that] by simp
  have "html_loop (concat (map (\<lambda>n. [0x26, 0x23] @ dec_str n @ [0x3B]) ns)) None r =
    r @ concat (map (\<lambda>n. utf8_encode_buf (of_nat n)) ns)" for r
    using assms(2)
  proof (induction ns arbitrary: r)
    case (Cons n ns)
    then show ?case using one [of n "concat (map (\<lambda>n. [0x26, 0x23] @ dec_str n @ [0x3B]) ns)" r] by simp
  qed simp
  then show ?thesis using html_loop_escapes [OF assms(1)] by (simp add: decode_html_entities_def)
qed

lemma html_decode_escape_witness:
  "decode_html_entities (concat (map html_escape (c_lit ''a<b&c'')) @ [0x26, 0x23] @ dec_str 44032 @ [0x3B]) =
    c_lit ''a<b&c'' @ utf8_encode_buf 0xAC00"
  using html_decode_escape [of "c_lit ''a<b&c''" "[44032]"] by (simp add: c_lit_def utf8_codable_def utf8_getsize_def)

text \<open>An entity that the end of the text cuts off loses its ampersand.\<close>

lemma html_cut_entity: "decode_html_entities (c_lit ''AT&T'') = c_lit ''ATT''"
  by (simp add: decode_html_entities_def c_lit_def)

subsection \<open>Properties of the other functions\<close>

fun find_delim :: "byte list \<Rightarrow> byte list \<Rightarrow> (byte list \<times> byte list) option" where
  "find_delim d [] = (if d = [] then Some ([], []) else None)"
| "find_delim d (c # s) =
    (if take (length d) (c # s) = d then Some ([], drop (length d) (c # s))
     else map_option (\<lambda>(b, r). (c # b, r)) (find_delim d s))"

fun join_with :: "'a list \<Rightarrow> 'a list list \<Rightarrow> 'a list" where
  "join_with d [] = []"
| "join_with d [p] = p"
| "join_with d (p # q # ps) = p @ d @ join_with d (q # ps)"

lemma find_delim_parts: "find_delim d s = Some (b, r) \<Longrightarrow> s = b @ d @ r"
proof (induction d s arbitrary: b rule: find_delim.induct)
  case (2 d c s)
  show ?case
  proof (cases "take (length d) (c # s) = d")
    case True
    then have "c # s = d @ drop (length d) (c # s)" by (metis append_take_drop_id)
    then show ?thesis using 2(2) True by auto
  qed (use 2 in auto)
qed (auto split: if_splits)

lemma find_delim_first: "d \<noteq> [] \<Longrightarrow> find_delim d s = Some (b, r) \<Longrightarrow> find_delim d b = None"
proof (induction d s arbitrary: b rule: find_delim.induct)
  case (2 d c s)
  show ?case
  proof (cases "take (length d) (c # s) = d")
    case False
    then obtain b' where b: "b = c # b'" "find_delim d s = Some (b', r)" using 2(3) by auto
    then have "s = b' @ d @ r" using find_delim_parts by blast
    have "take (length d) (c # b') \<noteq> d"
    proof
      assume d: "take (length d) (c # b') = d"
      then have "length d \<le> length (c # b')" by (metis length_take min.cobounded1)
      then have "take (length d) ((c # b') @ d @ r) = d" using d by (subst take_append) simp
      then show False using False \<open>s = b' @ d @ r\<close> by simp
    qed
    then show ?thesis using 2(1) [OF False 2(2)] b by simp
  qed (use 2 in auto)
qed simp

lemma csplit_loop_delim:
  assumes "d \<noteq> []" "\<And>s. consume s = find_delim d s"
  shows "\<exists>rest ps. csplit_loop consume s dest = Some (rest, dest @ ps) \<and> find_delim d rest = None \<and>
    s = concat (map (\<lambda>p. p @ d) ps) @ rest \<and> (\<forall>p \<in> set ps. find_delim d p = None)"
proof (induction "length s" arbitrary: s dest rule: less_induct)
  case less
  show ?case
  proof (cases "find_delim d s")
    case None
    then show ?thesis by (subst csplit_loop.simps) (simp add: assms(2))
  next
    case (Some br)
    obtain b r where br: "br = (b, r)" by fastforce
    have s: "s = b @ d @ r" using find_delim_parts Some br by blast
    then have "length r < length s" using assms(1) by simp
    from less [OF this, of "dest @ [b]"] obtain rest ps where ih:
      "csplit_loop consume r (dest @ [b]) = Some (rest, (dest @ [b]) @ ps)" "find_delim d rest = None"
      "r = concat (map (\<lambda>p. p @ d) ps) @ rest" "\<forall>p \<in> set ps. find_delim d p = None" by blast
    have "csplit_loop consume s dest = Some (rest, dest @ b # ps)"
      using ih(1) Some br by (subst csplit_loop.simps) (simp add: assms(2))
    then show ?thesis using ih s find_delim_first [OF assms(1)] Some br
      by (intro exI [of _ rest] exI [of _ "b # ps"]) auto
  qed
qed

lemma join_with_snoc: "ps \<noteq> [] \<Longrightarrow> join_with d (ps @ [q]) = join_with d ps @ d @ q"
  by (induction d ps rule: join_with.induct) auto

lemma join_with_concat: "ps \<noteq> [] \<Longrightarrow> concat (map (\<lambda>p. p @ d) ps) = join_with d ps @ d"
  by (induction d ps rule: join_with.induct) auto

text \<open>The loop does not end when the delimiter matches nothing at some point: \<open>Consume\<close> succeeds without
  advancing and the list of parts grows for ever.\<close>

lemma csplit_diverges:
  assumes "consume s = Some (b, s)"
  shows "csplit_loop consume s dest = None"
proof -
  have "c i \<noteq> Some (b, i)" if "csplit_loop c i ds = Some y" for c i ds y
  proof (rule csplit_loop.raw_induct [OF _ that])
    fix loop c i ds y
    assume ih: "\<And>c i ds y. loop c i ds = Some y \<Longrightarrow> c i \<noteq> Some (b, i)"
      and body: "(case c i of None \<Rightarrow> Some (i, ds) | Some (buf, i) \<Rightarrow> loop c i (ds @ [buf])) = Some y"
    show "c i \<noteq> Some (b, i)"
    proof
      assume c: "c i = Some (b, i)"
      then have "loop c i (ds @ [b]) = Some y" using body by simp
      then show False using ih c by blast
    qed
  qed
  then show ?thesis using assms by (cases "csplit_loop consume s dest") auto
qed

text \<open>Splitting at a delimiter ends and loses nothing. For a regular expression that finds the first
  occurrence of a nonempty delimiter, \<open>pcre_csplit\<close> returns at least one part, the parts contain no
  delimiter, and joined by it they give the text back, up to a delimiter at its very end. For an
  expression that can match without consuming anything the function never returns.\<close>

theorem pcre_csplit_parts:
  assumes "d \<noteq> []" "\<And>s. consume s = find_delim d s"
  shows "(\<exists>ps. pcre_csplit consume data = Some ps \<and> ps \<noteq> [] \<and> (\<forall>p \<in> set ps. find_delim d p = None) \<and>
      data \<in> {join_with d ps, join_with d ps @ d}) \<and>
    (\<forall>c. c data = Some ([], data) \<longrightarrow> pcre_csplit c data = None)"
proof -
  obtain rest ps where l: "csplit_loop consume data [] = Some (rest, ps)" "find_delim d rest = None"
    "data = concat (map (\<lambda>p. p @ d) ps) @ rest" "\<forall>p \<in> set ps. find_delim d p = None"
    using csplit_loop_delim [OF assms, of data "[]"] by auto
  let ?ps = "if rest \<noteq> [] then ps @ [rest] else if ps = [] then [[]] else ps"
  have "pcre_csplit consume data = Some ?ps" by (simp add: pcre_csplit_def l(1))
  moreover have "data \<in> {join_with d ?ps, join_with d ?ps @ d}"
    using l(3) join_with_concat [of ps d] join_with_snoc [of ps d rest] by (cases "ps = []") auto
  moreover have "\<forall>p \<in> set ?ps. find_delim d p = None" using l(2,4) assms(1) by auto
  moreover have "?ps \<noteq> []" by simp
  moreover have "\<forall>c. c data = Some ([], data) \<longrightarrow> pcre_csplit c data = None"
    using csplit_diverges [of _ data "[]" "[]"] by (auto simp: pcre_csplit_def)
  ultimately show ?thesis by blast
qed

lemma pcre_csplit_parts_witness:
  "\<exists>ps. pcre_csplit (find_delim [0x20]) (c_lit ''a b'') = Some ps \<and> join_with [0x20] ps = c_lit ''a b''"
  using pcre_csplit_parts [of "[0x20]" "find_delim [0x20]" "c_lit ''a b''"]
  by (auto simp: c_lit_def)

text \<open>\<open>readfile\<close> never leaves its buffer while the file has the length it was opened with, and returns it; it
  does when the file grows meanwhile.\<close>

lemma readfile_buf_same:
  "\<forall>ch \<in> set chunks. length ch \<le> 1024 \<and> 0 < length ch \<Longrightarrow> length buf + length (concat chunks) \<le> sz \<Longrightarrow>
    readfile_buf sz chunks buf = Inr (buf @ concat chunks)"
  by (induction sz chunks buf rule: readfile_buf.induct) (auto simp del: length_greater_0_conv)

lemma readfile_buf_grown:
  "readfile_buf 2000 [replicate 1024 a, replicate 975 a, replicate 1024 a, replicate 1024 a] [] = Inl Write_past_end"
  by simp

text \<open>A name of at least two characters gets a middle dot behind its first one.\<close>

lemma prevent_irc_highlighting_1_chars:
  assumes "utf8_chars (c # cs)" "cs \<noteq> []"
  shows "prevent_irc_highlighting_1 (concat (c # cs)) = Inr (c @ [0xC2, 0xB7] @ concat cs)"
proof -
  have ok: "until_nul (concat (c # cs)) = concat (c # cs)" using until_nul_chars [OF assms(1), of "[]"] by (simp add: until_nul_def)
  have r: "utf8_getsize_char [] \<le> 0" by (simp add: utf8_getsize_char_zero)
  note pos = utf8_strpos_getpos_append [OF assms(1) r, of 0] utf8_substr_getpos_append [OF assms(1) r, of 1 "- 1"]
  have "\<forall>x \<in> set (c # cs). utf8_char x" using assms(1) by (simp add: list_all_iff)
  then have "length c < 8" "\<exists>x \<in> set cs. x \<noteq> []"
    using utf8_char_nz(3,4) [of c] utf8_char_nz(3) assms(2) by (fastforce, cases cs) auto
  moreover have "until_nul [] = []" by (simp add: until_nul_def)
  ultimately show ?thesis using pos assms(2) ok
    by (simp add: prevent_irc_highlighting_1_def utf8_strpos_s_def utf8_substr_s_def utf8_strpos_def)
qed

end
