(* ===== verification/Extcmd.thy ===== *)
theory Extcmd
  imports Botmod Etc
begin

text \<open>
  Two modules that ask others line by line: commands answered by programs and by web pages (\<open>modules/mod_extcmd.cpp\<close>) and the spelling
  checker (\<open>modules/mod_kor_orthography.cpp\<close>). What successive calls of \<open>readline\<close> give is a list of pairs, the result (the
  length of the line, or negative at a timeout, an error and the end) and the line; a loop that needs more is \<open>None\<close>. What a
  module asks of its socket is a list of actions. \<open>conv\<close> is \<open>encconv::convert\<close>.
\<close>

type_synonym read_results = "(int \<times> byte list) list"

datatype 'f ext_act =
  Ext_encoding "byte list"
| Ext_connect "byte list" int
| Ext_send "byte list"
| Ext_execute "byte list" "byte list list"
| Ext_close
| Ext_reply "'f reply"

section \<open>External commands\<close>

datatype extcmd_type = EXTCMDTYPE_NONE | EXTCMDTYPE_EXEC | EXTCMDTYPE_HTTP | EXTCMDTYPE_END

record extcmd_list =
  ec_type :: extcmd_type
  ec_cmdname :: "byte list"
  ec_uri :: "byte list"
  ec_encoding :: "byte list"

definition extcmds :: "extcmd_list list" where
  "extcmds =
    [\<lparr>ec_type = EXTCMDTYPE_EXEC, ec_cmdname = [0xEB, 0x92, 0xA4, 0xEC, 0xA7, 0x91, 0xEA, 0xB8, 0xB0],
      ec_uri = c_lit ''reverse.php'', ec_encoding = []\<rparr>,
     \<lparr>ec_type = EXTCMDTYPE_EXEC, ec_cmdname = [0xEC, 0xB4, 0x9B, 0xEC, 0x97, 0x89],
       ec_uri = c_lit ''ChoseongTrifler.php'', ec_encoding = []\<rparr>,
     \<lparr>ec_type = EXTCMDTYPE_EXEC, ec_cmdname = [0xEC, 0xA2, 0x85, 0xEC, 0x98, 0xAC],
       ec_uri = c_lit ''JongseongTrifler.php'', ec_encoding = []\<rparr>,
     \<lparr>ec_type = EXTCMDTYPE_HTTP, ec_cmdname = [0xEA, 0xB0, 0x95, 0xED, 0x99, 0x94],
       ec_uri = c_lit ''http://gksrnr.awardspace.com/inklbot/enchant.php?item=%s'', ec_encoding = c_lit ''cp949''\<rparr>,
     \<lparr>ec_type = EXTCMDTYPE_NONE, ec_cmdname = [], ec_uri = [], ec_encoding = []\<rparr>]"

text \<open>The loops over the table end at its last entry, whose pointers are null.\<close>

definition extcmd_rows :: "extcmd_list list" where
  "extcmd_rows = takeWhile (\<lambda>c. ec_type c \<noteq> EXTCMDTYPE_NONE) extcmds"

type_synonym cookies = "(byte list, byte list) smap"

definition re_set_cookie :: "byte list" where
  "re_set_cookie = c_lit ''^Set-Cookie: (.*)$''"

definition re_strip_cookie_meta :: "byte list" where
  "re_strip_cookie_meta = c_lit '' path=[^ ;=]*''"

definition re_blank :: "byte list" where
  "re_blank = c_lit ''^ *$''"

text \<open>The header of a page: its cookies are kept for the command.\<close>

fun header_loop :: "byte pcre \<Rightarrow> byte list \<Rightarrow> read_results \<Rightarrow> cookies \<Rightarrow> (read_results \<times> cookies) option" where
  "header_loop R ecmd [] ck = None"
| "header_loop R ecmd ((ret, buf) # rs) ck =
    (if ret > 0 then
       header_loop R ecmd rs
         (case re_full R re_set_cookie buf of
            Some (cookie # _) \<Rightarrow> smap_set string_less ecmd (re_global_replace R re_strip_cookie_meta [] cookie) ck
          | _ \<Rightarrow> ck)
     else Some (rs, ck))"

text \<open>Up to the line that marks an answer: \<open>ret\<close>, \<open>valid_cmd\<close>, and what follows.\<close>

fun marker_loop :: "read_results \<Rightarrow> (int \<times> bool \<times> read_results) option" where
  "marker_loop [] = None"
| "marker_loop ((ret, buf) # rs) =
    (if ret \<ge> 0 then if buf = c_lit ''inklbot'' \<or> buf = c_lit ''meowbot'' then Some (ret, True, rs) else marker_loop rs
     else Some (ret, False, rs))"

text \<open>The answer: lines that are not blank, until the third one.\<close>

fun answer_loop :: "byte pcre \<Rightarrow> nat \<Rightarrow> read_results \<Rightarrow> 'f ext_act list option" where
  "answer_loop R i [] = None"
| "answer_loop R i ((ret, buf) # rs) =
    (if ret \<ge> 0 then
       if re_full R re_blank buf \<noteq> None then answer_loop R i rs
       else if i \<ge> 2 then Some [Ext_reply (Privmsg_nh (0x20 # take 400 buf))]
       else map_option ((#) (Ext_reply (Privmsg_nh (0x20 # take 400 buf)))) (answer_loop R (i + 1) rs)
     else Some [])"

definition READLINE_RESULT_TIMEOUT :: int where "READLINE_RESULT_TIMEOUT = - 1"

text \<open>What both kinds of commands do once they are connected.\<close>

definition read_answer :: "byte pcre \<Rightarrow> read_results \<Rightarrow> 'f ext_act list option" where
  "read_answer R reads =
    (case marker_loop reads of
       None \<Rightarrow> None
     | Some (ret, valid_cmd, rs) \<Rightarrow>
         if ret = READLINE_RESULT_TIMEOUT then Some [Ext_reply (Privmsg (c_lit ''timed out''))]
         else if \<not> valid_cmd then Some [Ext_reply (Privmsg [0xEB, 0x82, 0xB4, 0xEB, 0xB6, 0x80, 0x20, 0xEC,
           0x98, 0xA4, 0xEB, 0xA5, 0x98, 0x20, 0x28, 0x76, 0x63, 0x3D, 0x30, 0x29])]
         else map_option (\<lambda>acts. acts @ [Ext_close]) (answer_loop R 0 rs))"

definition http_request :: "byte list \<Rightarrow> byte list \<Rightarrow> byte list \<Rightarrow> byte list \<Rightarrow> 'f ext_act list" where
  "http_request location host nick cookie =
    map Ext_send
      [c_lit ''GET '' @ location @ c_lit '' HTTP/1.0'' @ [0x0D, 0x0A],
       c_lit ''Host: '' @ host @ [0x0D, 0x0A],
       c_lit ''Accept-Encoding: *;q=0'' @ [0x0D, 0x0A],
       c_lit ''Cookie: nick='' @ nick @ c_lit ''; '' @ cookie @ [0x0D, 0x0A],
       c_lit ''Connection: close'' @ [0x0D, 0x0A, 0x0D, 0x0A]]"

definition ext_http ::
  "byte pcre \<Rightarrow> (byte list \<Rightarrow> byte list \<Rightarrow> byte list \<Rightarrow> byte list) \<Rightarrow> url_parser \<Rightarrow> int \<Rightarrow> read_results \<Rightarrow> byte list \<Rightarrow>
    extcmd_list \<Rightarrow> byte list \<Rightarrow> byte list \<Rightarrow> cookies \<Rightarrow> (c_fault + ('f ext_act list \<times> cookies)) option" where
  "ext_http R conv u0 connected reads nick c ecmd ecarg ck =
    (let url = url_parser_new R u0 (ec_uri c)
     in if \<not> up_is_valid_url url \<or> up_protocol url \<noteq> c_lit ''http'' then Some (Inr ([], ck))
        else
          (let acts = [Ext_encoding (ec_encoding c), Ext_connect (until_nul (up_host url)) (up_port url)]
           in if connected \<noteq> 0 then Some (Inr (acts @ [Ext_reply (Privmsg [0xEC, 0xA0, 0x91, 0xEC, 0x86,
             0x8D, 0x20, 0xEC, 0x8B, 0xA4, 0xED, 0x8C, 0xA8])], ck))
              else
                (let ecarg = (if ec_encoding c \<noteq> [] then conv (c_lit ''utf-8'') (ec_encoding c) ecarg else ecarg)
                 in case urlencode_s ecarg of
                      Inl e \<Rightarrow> Some (Inl e)
                    | Inr enc \<Rightarrow>
                        (let location = re_global_replace R (c_lit ''%s'') enc (up_location url);
                             cookie = (case smap_find string_less ecmd ck of None \<Rightarrow> [] | Some v \<Rightarrow> v);
                             ck = smap_insert string_less ecmd [] ck
                         in case header_loop R ecmd reads ck of
                              None \<Rightarrow> None
                            | Some (rs, ck) \<Rightarrow>
                                map_option (\<lambda>ans. Inr (acts @ http_request location (up_host url) nick cookie @ ans, ck))
                                  (read_answer R rs)))))"

definition ext_exec ::
  "byte pcre \<Rightarrow> int \<Rightarrow> read_results \<Rightarrow> irc_privmsg \<Rightarrow> extcmd_list \<Rightarrow> byte list \<Rightarrow> byte list \<Rightarrow> 'f ext_act list option" where
  "ext_exec R executed reads pm c ecmd ecarg =
    (let acts = [Ext_encoding (ec_encoding c),
           Ext_execute (c_lit ''./extcmds/'' @ ec_uri c)
             (map until_nul [mi_chan (pm_msginfo pm), ii_ident (pm_ident pm), ecmd, ecarg])]
     in if executed \<noteq> 0 then Some (acts @ [Ext_reply (Privmsg [0xEC, 0x8B, 0xA4, 0xED, 0x96, 0x89, 0x20,
       0xEC, 0x8B, 0xA4, 0xED, 0x8C, 0xA8])])
        else map_option (\<lambda>ans. acts @ ans) (read_answer R reads))"

text \<open>\<open>started\<close> is what \<open>connect\<close> or \<open>execute\<close> returns.\<close>

definition cmd_cb_extcmd ::
  "byte pcre \<Rightarrow> (byte list \<Rightarrow> byte list \<Rightarrow> byte list \<Rightarrow> byte list) \<Rightarrow> url_parser \<Rightarrow> int \<Rightarrow> read_results \<Rightarrow> irc_privmsg \<Rightarrow>
    byte list \<Rightarrow> byte list \<Rightarrow> cookies \<Rightarrow> (c_fault + ('f ext_act list \<times> cookies)) option" where
  "cmd_cb_extcmd R conv u0 started reads pm cmd carg ck =
    (let ecmd = (if cstr_at cmd 0 = 0x21 then drop 1 cmd else cmd)
     in case find (\<lambda>c. ec_cmdname c = ecmd) extcmd_rows of
          None \<Rightarrow> Some (Inr ([], ck))
        | Some c \<Rightarrow>
            if ec_type c = EXTCMDTYPE_HTTP then ext_http R conv u0 started reads (ii_nick (pm_ident pm)) c ecmd carg ck
            else map_option (\<lambda>acts. Inr (acts, ck)) (ext_exec R started reads pm c ecmd carg))"

definition extcmd_names :: "byte list list" where
  "extcmd_names = map (\<lambda>c. if ec_type c = EXTCMDTYPE_EXEC then ec_cmdname c else 0x21 # ec_cmdname c) extcmd_rows"

definition mod_extcmd_init :: "nat \<Rightarrow> 'w ircbot \<Rightarrow> int \<times> 'w ircbot" where
  "mod_extcmd_init cb b = (0, register_cmds cb extcmd_names b)"

definition mod_extcmd_cleanup :: "'w ircbot \<Rightarrow> int \<times> 'w ircbot" where
  "mod_extcmd_cleanup b = (0, unregister_cmds extcmd_names b)"

section \<open>The spelling checker\<close>

definition re_orth_orig :: "byte list" where
  "re_orth_orig = [0x5E, 0x3C, 0x74, 0x72, 0x3E, 0x3C, 0x74, 0x64, 0x20, 0x61, 0x6C, 0x69, 0x67, 0x6E, 0x3D, 0x63,
    0x65, 0x6E, 0x74, 0x65, 0x72, 0x20, 0x73, 0x74, 0x79, 0x6C, 0x65, 0x3D, 0x27, 0x63, 0x6F, 0x6C, 0x6F, 0x72,
    0x3A, 0x23, 0x46, 0x44, 0x37, 0x41, 0x31, 0x41, 0x3B, 0x27, 0x20, 0x77, 0x69, 0x64, 0x74, 0x68, 0x3D, 0x35,
    0x30, 0x3E, 0x28, 0x2E, 0x2B, 0x29, 0x3C, 0x2F, 0x74, 0x64, 0x3E, 0x24]"

definition re_orth_fixed :: "byte list" where
  "re_orth_fixed = [0x5E, 0x3C, 0x74, 0x64, 0x20, 0x61, 0x6C, 0x69, 0x67, 0x6E, 0x3D, 0x63, 0x65, 0x6E, 0x74, 0x65,
    0x72, 0x20, 0x73, 0x74, 0x79, 0x6C, 0x65, 0x3D, 0x27, 0x63, 0x6F, 0x6C, 0x6F, 0x72, 0x3A, 0x23, 0x46, 0x44,
    0x37, 0x41, 0x31, 0x41, 0x3B, 0x27, 0x20, 0x77, 0x69, 0x64, 0x74, 0x68, 0x3D, 0x35, 0x30, 0x3E, 0x28, 0x2E,
    0x2B, 0x29, 0x3C, 0x62, 0x72, 0x3E, 0x3C, 0x2F, 0x74, 0x64, 0x3E, 0x24]"

definition re_orth_desc :: "byte list" where
  "re_orth_desc = [0x5E, 0x3C, 0x74, 0x64, 0x20, 0x77, 0x69, 0x64, 0x74, 0x68, 0x3D, 0x32, 0x32, 0x30, 0x3E, 0x28,
    0x5B, 0x5E, 0x3C, 0x5D, 0x2B, 0x2B, 0x29, 0x3C, 0x62, 0x72, 0x3E, 0x28, 0x2E, 0x2B, 0x2B, 0x29, 0x24]"

definition re_orth_br :: "byte list" where
  "re_orth_br = [0x3C, 0x62, 0x72, 0x3E]"

definition re_orth_tag :: "byte list" where
  "re_orth_tag = [0x3C, 0x5B, 0x5E, 0x3E, 0x5D, 0x2B, 0x3E]"

definition re_orth_brand :: "byte list" where
  "re_orth_brand = [0x5C, 0x5B, 0x4E, 0x41, 0x52, 0x41, 0x49, 0x4E, 0x46, 0x4F, 0x54, 0x45, 0x43, 0x48, 0x20, 0xEB,
    0xA7, 0x9E, 0xEC, 0xB6, 0xA4, 0xEB, 0xB2, 0x95, 0x20, 0xEA, 0xB2, 0x80, 0xEC, 0x82, 0xAC, 0xEA, 0xB8, 0xB0,
    0x20, 0x5B, 0x5E, 0x5D, 0x5D, 0x2B, 0x5C, 0x5D]"

text \<open>The loop over the lines of the page: \<open>mode\<close>, \<open>orig\<close> and \<open>fixed\<close> are its state, the corrections are appended to \<open>dest\<close>.\<close>

fun orth_loop ::
  "byte pcre \<Rightarrow> read_results \<Rightarrow> nat \<Rightarrow> byte list \<Rightarrow> byte list \<Rightarrow> byte list list \<Rightarrow> byte list list option" where
  "orth_loop R [] mode orig fixed dest = None"
| "orth_loop R ((ret, buf) # rs) mode orig fixed dest =
    (if ret < 0 then Some dest
     else if mode = 0 then
       (case re_full R re_orth_orig buf of
          Some (orig # _) \<Rightarrow> orth_loop R rs 1 orig [] dest
        | _ \<Rightarrow> orth_loop R rs 0 [] [] dest)
     else if mode = 1 then
       (case re_full R re_orth_fixed buf of
          Some (fixed # _) \<Rightarrow> orth_loop R rs 2 orig (re_global_replace R re_orth_br (c_lit '', '') fixed) dest
        | _ \<Rightarrow> orth_loop R rs 1 orig fixed dest)
     else
       (case re_full R re_orth_desc buf of
          Some (errtype # desc # _) \<Rightarrow>
            (let errtype = re_global_replace R re_orth_tag [] errtype;
                 desc = re_global_replace R re_orth_brand [] (re_global_replace R re_orth_tag [] desc)
             in orth_loop R rs 0 orig fixed (dest @ [orig @ c_lit '' -> '' @ fixed @ c_lit '' ('' @ errtype @ c_lit ''; '' @ desc @ c_lit '')'']))
        | _ \<Rightarrow> orth_loop R rs 2 orig fixed dest))"

text \<open>The header ends with an empty line, and one more line is skipped.\<close>

fun skip_header :: "read_results \<Rightarrow> read_results option" where
  "skip_header [] = None"
| "skip_header ((ret, buf) # rs) = (if ret > 0 then skip_header rs else case rs of [] \<Rightarrow> None | _ # rs \<Rightarrow> Some rs)"

definition orth_host :: "byte list" where
  "orth_host = c_lit ''speller.cs.pusan.ac.kr''"

definition g_useragent :: "byte list" where
  "g_useragent = c_lit ''Mozilla/5.0 (X11; U; Linux i686; ko-KR; rv:1.9) Gecko/2008061015 Firefox/3.0''"

definition crlf :: "byte list" where
  "crlf = [0x0D, 0x0A]"

text \<open>The result, the corrections, and what is asked of the socket. The request is put together from its parts.\<close>

definition check_kor_orth ::
  "byte pcre \<Rightarrow> (byte list \<Rightarrow> byte list \<Rightarrow> byte list \<Rightarrow> byte list) \<Rightarrow> int \<Rightarrow> read_results \<Rightarrow> byte list \<Rightarrow>
    (c_fault + (int \<times> byte list list \<times> 'f ext_act list)) option" where
  "check_kor_orth R conv connected reads txt_arg =
    (let acts = [Ext_encoding (c_lit ''cp949''), Ext_connect orth_host 80]
     in if connected < 0 then Some (Inr (- 1, [], acts))
        else case urlencode_s (conv (c_lit ''utf-8'') (c_lit ''cp949'') txt_arg) of
          Inl e \<Rightarrow> Some (Inl e)
        | Inr enc \<Rightarrow>
            (let postdata = c_lit ''text1='' @ enc;
                 acts = acts @ [Ext_send (c_lit ''POST /WebSpell_ISAPI.dll?Check HTTP/1.1'' @ crlf @ c_lit ''Host: '' @ orth_host @ crlf @
                     c_lit ''User-Agent: ''), Ext_send g_useragent,
                   Ext_send (crlf @ c_lit ''Content-Type: application/x-www-form-urlencoded'' @ crlf @ c_lit ''Content-Length: '' @
                     int2string (int (length postdata)) @ crlf @ c_lit ''Connection: close'' @ crlf @ crlf), Ext_send postdata]
             in case skip_header reads of
                  None \<Rightarrow> None
                | Some rs \<Rightarrow>
                    map_option (\<lambda>dest. Inr (0, dest, acts @ [Ext_close])) (orth_loop R rs 0 [] [] [])))"

definition cmd_cb_kor_orth ::
  "byte pcre \<Rightarrow> (byte list \<Rightarrow> byte list \<Rightarrow> byte list \<Rightarrow> byte list) \<Rightarrow> int \<Rightarrow> read_results \<Rightarrow> int \<Rightarrow> byte list \<Rightarrow> byte list \<Rightarrow>
    (c_fault + 'f ext_act list) option" where
  "cmd_cb_kor_orth R conv connected reads maxl cmd carg =
    (if carg = [] then Some (Inr [Ext_reply (Privmsg ([0xEC, 0x82, 0xAC, 0xEC, 0x9A, 0xA9, 0xEB, 0xB2, 0x95, 0x3A,
      0x20, 0x21] @ cmd @ [0x20, 0x3C, 0xEA, 0xB8, 0x80, 0x3E]))])
     else case check_kor_orth R conv connected reads carg of
       None \<Rightarrow> None
     | Some (Inl e) \<Rightarrow> Some (Inl e)
     | Some (Inr (ret, srchres, acts)) \<Rightarrow>
         Some (Inr (acts @
           (if ret \<noteq> 0 then [Ext_reply (Privmsg [0xEB, 0x82, 0xB4, 0xEB, 0xB6, 0x80, 0x20, 0xEC, 0x98, 0xA4,
             0xEB, 0xA5, 0x98])]
            else if srchres = [] then [Ext_reply (Privmsg [0xED, 0x8B, 0x80, 0xEB, 0xA6, 0xB0, 0x20, 0xEB, 0xB6,
              0x80, 0xEB, 0xB6, 0x84, 0xEC, 0x9D, 0xB4, 0x20, 0xEB, 0xB0, 0x9C, 0xEA, 0xB2, 0xAC, 0xEB, 0x90, 0x98,
              0xEC, 0xA7, 0x80, 0x20, 0xEC, 0x95, 0x8A, 0xEC, 0x95, 0x98, 0xEC, 0x8A, 0xB5, 0xEB, 0x8B, 0x88, 0xEB,
              0x8B, 0xA4, 0x2E])]
            else map (\<lambda>s. Ext_reply (Privmsg_nh (take 300 s))) (take (nat maxl) srchres)))))"

definition orth_cmd :: "byte list" where
  "orth_cmd = [0xEB, 0xA7, 0x9E, 0xEC, 0xB6, 0xA4, 0xEB, 0xB2, 0x95]"

definition mod_kor_orthography_init :: "nat \<Rightarrow> 'w ircbot \<Rightarrow> int \<times> 'w ircbot" where
  "mod_kor_orthography_init cb b = (0, register_cmds cb [orth_cmd] b)"

definition mod_kor_orthography_cleanup :: "'w ircbot \<Rightarrow> int \<times> 'w ircbot" where
  "mod_kor_orthography_cleanup b = (0, unregister_cmds [orth_cmd] b)"

section \<open>Properties\<close>

text \<open>An answer is at most three lines, none of them blank, in the order in which they were read.\<close>

definition shown :: "byte list \<Rightarrow> 'f ext_act" where
  "shown buf = Ext_reply (Privmsg_nh (0x20 # take 400 buf))"

lemma answer_loop_lines:
  "answer_loop R i rs = Some acts \<Longrightarrow> i \<le> 2 \<Longrightarrow>
    \<exists>k. acts = take (3 - i) (map (\<lambda>(_, buf). shown buf) (filter (\<lambda>(_, buf). re_full R re_blank buf = None) (take k rs))) \<and>
      list_all (\<lambda>(ret, _). ret \<ge> 0) (take k rs)"
proof (induction R i rs arbitrary: acts rule: answer_loop.induct)
  case (2 R i ret buf rs)
  consider (neg) "ret < 0" | (blank) "ret \<ge> 0" "re_full R re_blank buf \<noteq> None" | (last) "ret \<ge> 0" "re_full R re_blank buf = None" "i = 2"
    | (further) "ret \<ge> 0" "re_full R re_blank buf = None" "i < 2" using "2.prems"(2) by fastforce
  then show ?case
  proof cases
    case neg
    then show ?thesis using "2.prems" by (intro exI [of _ 0]) simp
  next
    case blank
    then obtain k where "acts = take (3 - i) (map (\<lambda>(_, buf). shown buf) (filter (\<lambda>(_, buf). re_full R re_blank buf = None) (take k rs)))"
      "list_all (\<lambda>(ret, _). ret \<ge> 0) (take k rs)"
      using "2.IH"(1) "2.prems" by auto
    then show ?thesis using blank by (intro exI [of _ "Suc k"]) auto
  next
    case last
    then show ?thesis using "2.prems" by (intro exI [of _ 1]) (auto simp: shown_def)
  next
    case further
    then obtain acts1 where a: "answer_loop R (i + 1) rs = Some acts1" "acts = shown buf # acts1"
      using "2.prems" by (auto simp: shown_def)
    then obtain k where "acts1 = take (3 - (i + 1)) (map (\<lambda>(_, buf). shown buf) (filter (\<lambda>(_, buf). re_full R re_blank buf = None) (take k rs)))"
      "list_all (\<lambda>(ret, _). ret \<ge> 0) (take k rs)"
      using "2.IH"(2) further by fastforce
    moreover have "3 - i = Suc (3 - (i + 1))" using further by simp
    ultimately show ?thesis using further a by (intro exI [of _ "Suc k"]) simp
  qed
qed simp

text \<open>A correction takes three lines of the page.\<close>

lemma orth_loop_grows:
  "orth_loop R rs mode orig fixed dest = Some dest' \<Longrightarrow> mode \<le> 2 \<Longrightarrow>
    \<exists>found. dest' = dest @ found \<and> 3 * length found \<le> length rs + mode"
proof (induction rs arbitrary: mode orig fixed dest)
  case (Cons r rs)
  obtain ret buf where r: "r = (ret, buf)" by (cases r)
  show ?case
    using Cons.prems r by (auto simp: Let_def split: if_splits option.splits list.splits dest!: Cons.IH)
qed simp

lemma cmd_cb_kor_orth_lines:
  assumes "cmd_cb_kor_orth R conv connected reads maxl cmd carg = Some (Inr acts)" "1 \<le> maxl"
  shows "int (length (filter (\<lambda>a. case a of Ext_reply _ \<Rightarrow> True | _ \<Rightarrow> False) acts)) \<le> maxl"
proof -
  have f: "filter (\<lambda>a. case a of Ext_reply _ \<Rightarrow> True | _ \<Rightarrow> False) acts = []"
    if "check_kor_orth R conv connected reads carg = Some (Inr (ret, srchres, acts))" for ret srchres and acts :: "'a ext_act list"
    using that by (auto simp: check_kor_orth_def Let_def split: if_splits sum.splits option.splits)
  have g: "filter (\<lambda>a. case a of Ext_reply _ \<Rightarrow> True | _ \<Rightarrow> False) (map (\<lambda>s. Ext_reply (h s)) xs) = map (\<lambda>s. Ext_reply (h s)) xs"
    for h :: "byte list \<Rightarrow> 'a reply" and xs by (induction xs) simp_all
  show ?thesis
    using assms by (auto simp: cmd_cb_kor_orth_def f g split: if_splits option.splits sum.splits)
qed

end
