(* ===== verification/Ewordquiz.thy ===== *)
theory Ewordquiz
  imports Botmod Etc Hangul Ircevent
begin

text \<open>
  The word chain game of \<open>modules/mod_ewordquiz.cpp\<close>: the word lists and their binary search, the games of the
  channels, and the handlers that the event threads call. A handler is called by a thread \<open>t\<close>; \<open>detect\<close> tells
  whether \<open>pthread_rwlock_wrlock\<close> reports \<open>EDEADLK\<close> when the caller holds the lock already (the C library may), or
  waits for ever. The regular expressions \<open>R\<close>, the random numbers \<open>rnd\<close> (the \<open>n\<close>-th call of \<open>rand\<close> gives \<open>rnd n\<close>) and the
  clock are parameters; a call takes no time.
\<close>

section \<open>The word lists\<close>

text \<open>An element of an array of \<open>char *\<close>: never written, null, or the address of a string.\<close>

datatype cell = Unset | Null | Str "byte list"

text \<open>The value of an element; there is none behind the array or before the element is written.\<close>

definition cell_at :: "cell list \<Rightarrow> nat \<Rightarrow> c_fault + byte list option" where
  "cell_at W i =
    (if i < length W
     then case W ! i of Unset \<Rightarrow> Inl Read_past_end | Null \<Rightarrow> Inr None | Str w \<Rightarrow> Inr (Some w)
     else Inl Read_past_end)"

text \<open>The tokens of \<open>strtok_r\<close>.\<close>

fun tokens :: "byte \<Rightarrow> byte list \<Rightarrow> byte list \<Rightarrow> byte list list" where
  "tokens d acc [] = (if acc = [] then [] else [acc])"
| "tokens d acc (c # cs) =
    (if c = d then (if acc = [] then tokens d [] cs else acc # tokens d [] cs) else tokens d (acc @ [c]) cs)"

fun store_words :: "nat \<Rightarrow> nat \<Rightarrow> cell list \<Rightarrow> cell list \<Rightarrow> c_fault + cell list" where
  "store_words wordcnt i [] result = Inr result"
| "store_words wordcnt i (p # ps) result =
    (if i < wordcnt then
       (let result = result[i := p]; i = i + 1
        in if i > wordcnt then Inr result else store_words wordcnt i ps result)
     else Inl Write_past_end)"

text \<open>\<open>file\<close> is what \<open>readfile\<close> gives; the first element is stored even when there is no token.\<close>

definition load_wordlist :: "byte list option \<Rightarrow> nat \<Rightarrow> c_fault + cell list option" where
  "load_wordlist file wordcnt =
    (case file of
       None \<Rightarrow> Inr None
     | Some buf \<Rightarrow>
         (let toks = tokens 0x0A [] (until_nul buf);
              ps = (if toks = [] then [Null] else map Str toks)
          in case store_words wordcnt 0 ps (replicate wordcnt Unset) of
               Inl e \<Rightarrow> Inl e | Inr result \<Rightarrow> Inr (Some result)))"

text \<open>\<open>bsearch\<close> of the C library, between \<open>l\<close> and \<open>u\<close>.\<close>

function bsearch :: "(nat \<Rightarrow> c_fault + int) \<Rightarrow> nat \<Rightarrow> nat \<Rightarrow> c_fault + nat option" where
  "bsearch compar l u =
    (if l < u then
       (let idx = (l + u) div 2
        in case compar idx of
             Inl e \<Rightarrow> Inl e
           | Inr c \<Rightarrow> if c < 0 then bsearch compar l idx
               else if c > 0 then bsearch compar (Suc idx) u else Inr (Some idx))
     else Inr None)"
  by pat_completeness auto
termination
  by (relation "measure (\<lambda>(_, l, u). u - l)") auto
declare bsearch.simps [simp del]

function strcmp :: "byte list \<Rightarrow> byte list \<Rightarrow> int" where
  "strcmp s t =
    (let r = uint (cstr_at s 0) - uint (cstr_at t 0)
     in if r \<noteq> 0 then r else if cstr_at s 0 = 0 then r else strcmp (drop 1 s) (drop 1 t))"
  by pat_completeness auto
termination
  by (relation "measure (\<lambda>(s, _). length s)") (auto simp: cstr_at_def split: if_splits)
declare strcmp.simps [simp del]

text \<open>\<open>memcmp(key, item, strlen(key))\<close>; it also answers the \<open>strncmp\<close> of this file, which compares the same bytes.\<close>

fun memcmp_key :: "byte list \<Rightarrow> byte list \<Rightarrow> int" where
  "memcmp_key [] item = 0"
| "memcmp_key (k # ks) item =
    (let r = uint k - uint (cstr_at item 0) in if r \<noteq> 0 then r else memcmp_key ks (drop 1 item))"

definition at_word :: "(byte list \<Rightarrow> int) \<Rightarrow> cell list \<Rightarrow> nat \<Rightarrow> c_fault + int" where
  "at_word f W i =
    (case cell_at W i of Inl e \<Rightarrow> Inl e | Inr None \<Rightarrow> Inl Null_deref | Inr (Some w) \<Rightarrow> Inr (f w))"

definition word_compare_function :: "byte list \<Rightarrow> cell list \<Rightarrow> nat \<Rightarrow> c_fault + int" where
  "word_compare_function key = at_word (strcmp key)"

definition word_compare_function_find :: "byte list \<Rightarrow> cell list \<Rightarrow> nat \<Rightarrow> c_fault + int" where
  "word_compare_function_find key = at_word (memcmp_key key)"

text \<open>An array of words has as many elements as the constant that the code passes with it.\<close>

definition is_word_exists :: "cell list \<Rightarrow> byte list \<Rightarrow> c_fault + int" where
  "is_word_exists wordlist word =
    (if cstr_at word 0 = 0 then Inr (- 1)
     else case bsearch (word_compare_function (until_nul word) wordlist) 0 (length wordlist) of
       Inl e \<Rightarrow> Inl e
     | Inr ret \<Rightarrow> Inr (if ret = None then 0 else 1))"

definition get_random_word :: "(nat \<Rightarrow> nat) \<Rightarrow> cell list \<Rightarrow> nat \<Rightarrow> c_fault + (byte list option \<times> nat)" where
  "get_random_word rnd wordlist n =
    (case cell_at wordlist (rnd n mod length wordlist) of Inl e \<Rightarrow> Inl e | Inr w \<Rightarrow> Inr (w, Suc n))"

text \<open>The loop over the words from \<open>pos\<close> on. The element is read before \<open>i\<close> is compared with \<open>cnt\<close>.\<close>

function pick_loop ::
  "(nat \<Rightarrow> nat) \<Rightarrow> cell list \<Rightarrow> byte list \<Rightarrow> nat \<Rightarrow> nat \<Rightarrow> nat \<Rightarrow> nat \<Rightarrow> c_fault + (nat \<times> nat)" where
  "pick_loop rnd W startword pos cnt i n =
    (case cell_at W (pos + i) of
       Inl e \<Rightarrow> Inl e
     | Inr None \<Rightarrow> Inr (i, n)
     | Inr (Some w) \<Rightarrow>
         if i \<ge> cnt then Inr (i, n)
         else if memcmp_key startword w \<noteq> 0 then Inr (rnd n mod i, Suc n)
         else if rnd n mod 100 = 50 then Inr (i, Suc n)
         else pick_loop rnd W startword pos cnt (Suc i) (Suc n))"
  by pat_completeness auto
termination
  by (relation "measure (\<lambda>(_, _, _, _, cnt, i, _). cnt - i)") auto
declare pick_loop.simps [simp del]

definition find_word_by_startword_random ::
  "(nat \<Rightarrow> nat) \<Rightarrow> cell list \<Rightarrow> byte list \<Rightarrow> nat \<Rightarrow> c_fault + (byte list option \<times> nat)" where
  "find_word_by_startword_random rnd wordlist startword n =
    (let startword = until_nul startword
     in if startword = [] then Inr (None, n)
        else case bsearch (word_compare_function_find startword wordlist) 0 (length wordlist) of
          Inl e \<Rightarrow> Inl e
        | Inr None \<Rightarrow> Inr (None, n)
        | Inr (Some pos) \<Rightarrow>
            case pick_loop rnd wordlist startword pos (length wordlist - pos) 0 n of
              Inl e \<Rightarrow> Inl e
            | Inr (i, n) \<Rightarrow>
                case cell_at wordlist (pos + i) of Inl e \<Rightarrow> Inl e | Inr ret \<Rightarrow> Inr (ret, n))"

section \<open>The games\<close>

text \<open>The members but \<open>status\<close> have no value before the first game, and are not read before.\<close>

record ewordq_stat =
  eq_status :: int
  eq_score :: int
  eq_total_n :: int
  eq_crnt_n :: int
  eq_lastword :: "byte list"
  eq_timeout :: int
  eq_time :: int
  eq_userstat :: "(byte list, int) smap"

definition ewordq_stat_new :: ewordq_stat where
  "ewordq_stat_new = \<lparr>eq_status = 0, eq_score = 0, eq_total_n = 0, eq_crnt_n = 0, eq_lastword = [], eq_timeout = 0,
     eq_time = 0, eq_userstat = []\<rparr>"

text \<open>\<open>g_ewqstat\<close>, the thread that holds \<open>g_ewq_lock\<close> for writing, and the number of calls of \<open>rand\<close>. Readers
  let go of the lock in the same step.\<close>

record ewq =
  g_ewqstat :: "(byte list, ewordq_stat) smap"
  g_ewq_writer :: "nat option"
  ew_rands :: nat

text \<open>A handler that waits for the lock, runs into undefined behaviour, or returns.\<close>

datatype 'a call = Waits | Faults c_fault | Returns 'a

type_synonym 'f sent = "(byte list option \<times> 'f reply) list"

definition ewq_wrlock :: "bool \<Rightarrow> nat \<Rightarrow> ewq \<Rightarrow> ewq option" where
  "ewq_wrlock detect t s =
    (case g_ewq_writer s of
       None \<Rightarrow> Some (s\<lparr>g_ewq_writer := Some t\<rparr>)
     | Some t' \<Rightarrow> if t' = t \<and> detect then Some s else None)"

definition ewq_rdlock :: "bool \<Rightarrow> nat \<Rightarrow> ewq \<Rightarrow> ewq option" where
  "ewq_rdlock detect t s =
    (case g_ewq_writer s of None \<Rightarrow> Some s | Some t' \<Rightarrow> if t' = t \<and> detect then Some s else None)"

definition ewq_unlock :: "ewq \<Rightarrow> ewq" where
  "ewq_unlock s = s\<lparr>g_ewq_writer := None\<rparr>"

text \<open>\<open>g_ewqstat[chan]\<close>, which makes an entry where there is none.\<close>

definition ewq_get :: "byte list \<Rightarrow> ewq \<Rightarrow> ewordq_stat" where
  "ewq_get chan s =
    (case smap_find irc_string_less chan (g_ewqstat s) of None \<Rightarrow> ewordq_stat_new | Some g \<Rightarrow> g)"

definition ewq_put :: "byte list \<Rightarrow> ewordq_stat \<Rightarrow> ewq \<Rightarrow> ewq" where
  "ewq_put chan g s = s\<lparr>g_ewqstat := smap_set irc_string_less chan g (g_ewqstat s)\<rparr>"

definition rounds_over :: "byte list" where
  "rounds_over = [0x31, 0x35, 0xED, 0x9A, 0x8C, 0x20, 0xEC, 0xB4, 0x88, 0xEA, 0xB3, 0xBC]"

definition i_lost :: "byte list" where
  "i_lost = [0xEB, 0x82, 0xB4, 0xEA, 0xB0, 0x80, 0x20, 0xEC, 0xA1, 0x8C, 0xEB, 0x8B, 0xA4, 0xEB, 0x8A, 0xA5, 0x20,
    0x6F, 0x72, 0x7A]"

definition bold_word :: "byte list" where
  "bold_word = IRCTEXT_BOLD @ c_lit ''%s''"

definition idle_game ::
  "(nat \<Rightarrow> nat) \<Rightarrow> cell list \<Rightarrow> int \<Rightarrow> byte list \<Rightarrow> ewordq_stat \<Rightarrow> nat \<Rightarrow> c_fault + (ewordq_stat \<times> 'f sent \<times> nat)" where
  "idle_game rnd W now chan g n =
    (if eq_status g = 1 \<and> now - eq_time g > eq_timeout g then
       if eq_crnt_n g \<ge> eq_total_n g then Inr (g\<lparr>eq_status := 0\<rparr>, [(Some chan, Privmsg_nh rounds_over)], n)
       else case find_word_by_startword_random rnd W (utf8_strpos_s (eq_lastword g) (- 1)) n of
         Inl e \<Rightarrow> Inl e
       | Inr (None, n) \<Rightarrow> Inr (g\<lparr>eq_status := 0\<rparr>, [(Some chan, Privmsg_nh i_lost)], n)
       | Inr (Some nword, n) \<Rightarrow>
           Inr (g\<lparr>eq_crnt_n := eq_crnt_n g + 1, eq_lastword := nword, eq_time := now\<rparr>,
             [(Some chan, Privmsgf_nh [0x25, 0x64, 0xEC, 0xB4, 0x88, 0xEA, 0xB0, 0x80, 0x20, 0xEC, 0xA7, 0x80, 0xEB,
               0x82, 0xAC, 0xEC, 0x8A, 0xB5, 0xEB, 0x8B, 0x88, 0xEB, 0x8B, 0xA4,
               0x2E] [Arg_long (word_of_int (eq_timeout g))]),
              (Some chan, Privmsgf_nh bold_word [Arg_str (Some nword)])], n)
     else Inr (g, [], n))"

fun idle_games ::
  "(nat \<Rightarrow> nat) \<Rightarrow> cell list \<Rightarrow> int \<Rightarrow> (byte list, ewordq_stat) smap \<Rightarrow> nat \<Rightarrow>
    c_fault + ((byte list, ewordq_stat) smap \<times> 'f sent \<times> nat)" where
  "idle_games rnd W now [] n = Inr ([], [], n)"
| "idle_games rnd W now ((chan, g) # gs) n =
    (case idle_game rnd W now chan g n of
       Inl e \<Rightarrow> Inl e
     | Inr (g, out, n) \<Rightarrow>
         case idle_games rnd W now gs n of
           Inl e \<Rightarrow> Inl e
         | Inr (gs, outs, n) \<Rightarrow> Inr ((chan, g) # gs, out @ outs, n))"

definition ewq_idle ::
  "(nat \<Rightarrow> nat) \<Rightarrow> bool \<Rightarrow> cell list \<Rightarrow> nat \<Rightarrow> int \<Rightarrow> ewq \<Rightarrow> (int \<times> 'f sent \<times> ewq) call" where
  "ewq_idle rnd detect W t now s =
    (case ewq_wrlock detect t s of
       None \<Rightarrow> Waits
     | Some s \<Rightarrow>
         case idle_games rnd W now (g_ewqstat s) (ew_rands s) of
           Inl e \<Rightarrow> Faults e
         | Inr (gs, out, n) \<Rightarrow>
             Returns (HANDLER_GO_ON, out, ewq_unlock (s\<lparr>g_ewqstat := gs, ew_rands := n\<rparr>)))"

text \<open>The first part of the handler of a message: is there a game in its channel? Between this and the second
  part the thread holds no lock.\<close>

definition ewq_look :: "bool \<Rightarrow> nat \<Rightarrow> irc_privmsg \<Rightarrow> ewq \<Rightarrow> (bool \<times> ewq) call" where
  "ewq_look detect t pm s =
    (let chan = mi_chan (pm_msginfo pm)
     in if mi_msgtype (pm_msginfo pm) \<noteq> IRC_MSGTYPE_CTCP \<and> cstr_at chan 0 = 0x23 then
          case ewq_rdlock detect t s of
            None \<Rightarrow> Waits
          | Some s \<Rightarrow>
              (let s = ewq_unlock (ewq_put chan (ewq_get chan s) s)
               in Returns (eq_status (ewq_get chan s) = 1, s))
        else Returns (False, s))"

text \<open>A right answer: a known word of at least three characters that begins with the last syllable of the word
  before, up to the rule for initial sounds.\<close>

definition right_answer :: "cell list \<Rightarrow> byte list \<Rightarrow> ewordq_stat \<Rightarrow> c_fault + bool" where
  "right_answer W msg g =
    (if utf8_strlen_s msg > 2 then
       case is_word_exists W (until_nul msg) of
         Inl e \<Rightarrow> Inl e
       | Inr r \<Rightarrow> Inr (r \<noteq> 0 \<and>
           apply_head_pron_rule (utf8_strpos_s msg 0) = apply_head_pron_rule (utf8_strpos_s (eq_lastword g) (- 1)))
     else Inr False)"

definition add_point :: "byte list \<Rightarrow> ewordq_stat \<Rightarrow> ewordq_stat" where
  "add_point nick g =
    (let points = (case smap_find string_less nick (eq_userstat g) of None \<Rightarrow> 0 | Some p \<Rightarrow> p)
     in g\<lparr>eq_userstat := smap_set string_less nick (points + 1) (eq_userstat g), eq_crnt_n := eq_crnt_n g + 1\<rparr>)"

text \<open>What follows an answer: has somebody won, are the rounds over, and if neither, the next word. Two of the
  ways out do not unlock.\<close>

definition ewq_after_answer ::
  "byte pcre \<Rightarrow> (nat \<Rightarrow> nat) \<Rightarrow> cell list \<Rightarrow> int \<Rightarrow> byte list \<Rightarrow> byte list \<Rightarrow> bool \<Rightarrow> ewordq_stat \<Rightarrow> ewq \<Rightarrow>
    (int \<times> 'f sent \<times> ewq) call" where
  "ewq_after_answer R rnd W now chan msg print_word g s =
    (case find (\<lambda>(_, p). p \<ge> eq_score g) (eq_userstat g) of
       Some (who, _) \<Rightarrow>
         Returns (0, [(Some chan, Privmsg_nh (who @ select_josa R who [0xEC, 0x9D, 0xB4, 0xEA, 0xB0, 0x80] @ [0x20,
           0xEC, 0x9D, 0xB4, 0xEA, 0xB2, 0xBC, 0xEC, 0x8A, 0xB5, 0xEB, 0x8B, 0x88, 0xEB, 0x8B, 0xA4, 0x2E]))],
           ewq_put chan (g\<lparr>eq_status := 0\<rparr>) s)
     | None \<Rightarrow>
         if eq_crnt_n g \<ge> eq_total_n g then
           Returns (0, [(Some chan, Privmsg_nh rounds_over)], ewq_put chan (g\<lparr>eq_status := 0\<rparr>) s)
         else if print_word \<and> eq_status g = 1 then
           case find_word_by_startword_random rnd W (utf8_strpos_s msg (- 1)) (ew_rands s) of
             Inl e \<Rightarrow> Faults e
           | Inr (None, n) \<Rightarrow>
               Returns (0, [(Some chan, Privmsg_nh i_lost)],
                 ewq_unlock (ewq_put chan (g\<lparr>eq_status := 0\<rparr>) (s\<lparr>ew_rands := n\<rparr>)))
           | Inr (Some nword, n) \<Rightarrow>
               Returns (HANDLER_GO_ON, [(Some chan, Privmsgf_nh bold_word [Arg_str (Some nword)])],
                 ewq_unlock (ewq_put chan (g\<lparr>eq_lastword := nword, eq_time := now\<rparr>) (s\<lparr>ew_rands := n\<rparr>)))
         else Returns (HANDLER_GO_ON, [], ewq_unlock (ewq_put chan g s)))"

text \<open>The second part of the handler.\<close>

definition ewq_play ::
  "byte pcre \<Rightarrow> (nat \<Rightarrow> nat) \<Rightarrow> bool \<Rightarrow> cell list \<Rightarrow> nat \<Rightarrow> int \<Rightarrow> irc_privmsg \<Rightarrow> ewq \<Rightarrow>
    (int \<times> 'f sent \<times> ewq) call" where
  "ewq_play R rnd detect W t now pm s =
    (case ewq_wrlock detect t s of
       None \<Rightarrow> Waits
     | Some s \<Rightarrow>
         (let chan = mi_chan (pm_msginfo pm);
              nick = ii_nick (pm_ident pm);
              msg = filter (\<lambda>c. c \<noteq> 0x20) (strip_irc_colors R (pm_msg pm));
              g = ewq_get chan s
          in case right_answer W msg g of
               Inl e \<Rightarrow> Faults e
             | Inr print_word \<Rightarrow>
                 case ewq_after_answer R rnd W now chan msg print_word (if print_word then add_point nick g else g) s of
                   Returns (r, out, s) \<Rightarrow>
                     Returns (r, (if print_word then [(Some chan, Privmsg_nh ([0xEC, 0xA0, 0x95, 0xEB, 0x8B, 0xB5,
                       0x3A, 0x20] @ msg))] else []) @ out, s)
                 | c \<Rightarrow> c))"

definition ewq_event_handler ::
  "byte pcre \<Rightarrow> (nat \<Rightarrow> nat) \<Rightarrow> bool \<Rightarrow> cell list \<Rightarrow> nat \<Rightarrow> int \<Rightarrow> ircevent \<Rightarrow> ewq \<Rightarrow> (int \<times> 'f sent \<times> ewq) call" where
  "ewq_event_handler R rnd detect W t now ev s =
    (case ev of
       Ircevent_idle \<Rightarrow> ewq_idle rnd detect W t now s
     | Ircevent_privmsg pm \<Rightarrow>
         (case ewq_look detect t pm s of
            Waits \<Rightarrow> Waits
          | Faults e \<Rightarrow> Faults e
          | Returns (running, s) \<Rightarrow>
              if running then ewq_play R rnd detect W t now pm s else Returns (HANDLER_GO_ON, [], s))
     | _ \<Rightarrow> Returns (HANDLER_GO_ON, [], s))"

definition start_game :: "int \<Rightarrow> byte list \<Rightarrow> ewordq_stat" where
  "start_game now lastword = \<lparr>eq_status = 1, eq_score = 10, eq_total_n = 15, eq_crnt_n = 0, eq_lastword = lastword,
     eq_timeout = 20, eq_time = now, eq_userstat = []\<rparr>"

definition ewq_game_cmd ::
  "(nat \<Rightarrow> nat) \<Rightarrow> bool \<Rightarrow> cell list \<Rightarrow> nat \<Rightarrow> int \<Rightarrow> byte list \<Rightarrow> byte list \<Rightarrow> ewq \<Rightarrow>
    (int \<times> 'f sent \<times> ewq) call" where
  "ewq_game_cmd rnd detect W t now chan carg s =
    (case ewq_wrlock detect t s of
       None \<Rightarrow> Waits
     | Some s \<Rightarrow>
         if eq_status (ewq_get chan s) = 0 then
           case get_random_word rnd W (ew_rands s) of
             Inl e \<Rightarrow> Faults e
           | Inr (None, _) \<Rightarrow> Faults Null_deref
           | Inr (Some w, n) \<Rightarrow>
               Returns (HANDLER_FINISHED,
                 [(Some chan, Privmsg_nh [0xEC, 0x8B, 0x9C, 0xEC, 0x9E, 0x91, 0x2E, 0x20, 0xEC, 0xA4, 0x91, 0xEC,
                   0xA7, 0x80, 0xED, 0x95, 0x98, 0xEB, 0xA0, 0xA4, 0xEB, 0xA9, 0xB4, 0x20, 0x60, 0x21, 0xEB, 0x81,
                   0x9D, 0xEB, 0xA7, 0x90, 0x32, 0x20, 0xEC, 0xA4, 0x91, 0xEC, 0xA7, 0x80, 0x27, 0xEB, 0xA5, 0xBC,
                   0x20, 0xEC, 0x9E, 0x85, 0xEB, 0xA0, 0xA5, 0xED, 0x95, 0x98, 0xEC, 0x84, 0xB8, 0xEC, 0x9A, 0x94,
                   0x2E]),
                  (Some chan, Privmsgf_nh bold_word [Arg_str (Some w)])],
                 ewq_unlock (ewq_put chan (start_game now w) (s\<lparr>ew_rands := n\<rparr>)))
         else if carg = [0xEC, 0xA4, 0x91, 0xEC, 0xA7, 0x80] \<or> carg = c_lit ''stop'' then
           Returns (HANDLER_FINISHED, [(Some chan, Privmsg_nh [0xEB, 0x81, 0x9D])],
             ewq_unlock (ewq_put chan ((ewq_get chan s)\<lparr>eq_status := 0\<rparr>) s))
         else Returns (HANDLER_FINISHED, [], ewq_unlock (ewq_put chan (ewq_get chan s) s)))"

definition cmd_cb_ewq ::
  "byte pcre \<Rightarrow> (nat \<Rightarrow> nat) \<Rightarrow> bool \<Rightarrow> cell list \<Rightarrow> cell list \<Rightarrow> nat \<Rightarrow> int \<Rightarrow> byte list \<Rightarrow> byte list \<Rightarrow> byte list \<Rightarrow> ewq \<Rightarrow>
    (int \<times> 'f sent \<times> ewq) call" where
  "cmd_cb_ewq R rnd detect K W t now chan cmd carg s =
    (if cmd = [0xEB, 0x8B, 0xA8, 0xEC, 0x96, 0xB4, 0xED, 0x99, 0x95, 0xEC, 0x9D, 0xB8] then
       if carg = [] then
         Returns (0, [(None, Privmsg_nh [0xEB, 0x8B, 0xA8, 0xEC, 0x96, 0xB4, 0xEA, 0xB0, 0x80, 0x20, 0xEC, 0x82,
           0xAC, 0xEC, 0xA0, 0x84, 0xEC, 0x97, 0x90, 0x20, 0xEC, 0x9E, 0x88, 0xEB, 0x8A, 0x94, 0xEC, 0xA7, 0x80,
           0x20, 0xEA, 0xB2, 0x80, 0xEC, 0x83, 0x89, 0xED, 0x95, 0xA9, 0xEB, 0x8B, 0x88, 0xEB, 0x8B, 0xA4, 0x2E,
           0x20, 0x7C, 0x20, 0xEC, 0x82, 0xAC, 0xEC, 0x9A, 0xA9, 0xEB, 0xB2, 0x95, 0x3A, 0x20, 0x21, 0xEB, 0x8B,
           0xA8, 0xEC, 0x96, 0xB4, 0xED, 0x99, 0x95, 0xEC, 0x9D, 0xB8, 0x20, 0x3C, 0xEB, 0x8B, 0xA8, 0xEC, 0x96,
           0xB4, 0x3E])], s)
       else (case is_word_exists K (until_nul carg) of
           Inl e \<Rightarrow> Faults e
         | Inr r \<Rightarrow>
             if r \<noteq> 0 then
               Returns (0, [(None, Privmsgf_nh [0x25, 0x73, 0x25, 0x73, 0x20, 0xEC, 0xA1, 0xB4, 0xEC, 0x9E, 0xAC,
                 0xED, 0x95, 0x98, 0xEB, 0x8A, 0x94, 0x20, 0xEB, 0x8B, 0xA8, 0xEC, 0x96, 0xB4, 0xEC, 0x9E, 0x85,
                 0xEB, 0x8B, 0x88, 0xEB, 0x8B, 0xA4, 0x2E]
                 [Arg_str (Some (until_nul carg)), Arg_str (Some (until_nul (select_josa R carg [0xEC, 0x9D, 0x80,
                   0xEB, 0x8A, 0x94])))])], s)
             else
               Returns (0, [(None, Privmsgf_nh [0x25, 0x73, 0x25, 0x73, 0x20, 0xEC, 0xB0, 0xBE, 0xEC, 0x9D, 0x84,
                 0x20, 0xEC, 0x88, 0x98, 0x20, 0xEC, 0x97, 0x86, 0xEC, 0x8A, 0xB5, 0xEB, 0x8B, 0x88, 0xEB, 0x8B,
                 0xA4, 0x2E]
                 [Arg_str (Some (until_nul carg)), Arg_str (Some (until_nul (select_josa R carg [0xEC, 0x9D, 0x84,
                   0xEB, 0xA5, 0xBC])))])], s))
     else if cmd = [0xEB, 0x81, 0x9D, 0xEB, 0xA7, 0x90, 0xEC, 0xB9, 0x98, 0xED, 0x8A, 0xB8] then
       case find_word_by_startword_random rnd W carg (ew_rands s) of
         Inl e \<Rightarrow> Faults e
       | Inr (Some ret, n) \<Rightarrow> Returns (0, [(None, Privmsgf_nh (c_lit '': %s'') [Arg_str (Some ret)])], s\<lparr>ew_rands := n\<rparr>)
       | Inr (None, n) \<Rightarrow> Returns (0, [(None, Privmsg_nh [0xEC, 0xB0, 0xBE, 0xEC, 0x9D, 0x84, 0x20, 0xEC,
         0x88, 0x98, 0x20, 0xEC, 0x97, 0x86, 0xEC, 0x8A, 0xB5, 0xEB, 0x8B, 0x88, 0xEB, 0x8B, 0xA4, 0x2E])],
         s\<lparr>ew_rands := n\<rparr>)
     else if cstr_at chan 0 \<noteq> 0x23 then Returns (0, [], s)
     else ewq_game_cmd rnd detect W t now chan carg s)"

text \<open>\<open>kwordlist\<close> and \<open>kwordlist_ewq\<close> are read from the files \<open>KWORDLIST_FILE\<close> and \<open>KWORDLIST_EWQ_FILE\<close>.\<close>

definition KWORDLIST_CNT :: nat where "KWORDLIST_CNT = 261561"
definition KWORDLIST_EWQ_CNT :: nat where "KWORDLIST_EWQ_CNT = 190935"

definition ewq_cmds :: "byte list list" where
  "ewq_cmds = [[0xEB, 0x81, 0x9D, 0xEB, 0xA7, 0x90, 0x32], [0xEB, 0x81, 0x9D, 0xEB, 0xA7, 0x90, 0xEC, 0xB9, 0x98,
    0xED, 0x8A, 0xB8], [0xEB, 0x8B, 0xA8, 0xEC, 0x96, 0xB4, 0xED, 0x99, 0x95, 0xEC, 0x9D, 0xB8]]"

definition mod_ewordquiz_init ::
  "handler_sort \<Rightarrow> nat \<Rightarrow> nat \<Rightarrow> byte list option \<Rightarrow> byte list option \<Rightarrow> 'w ircbot \<Rightarrow>
    c_fault + (int \<times> (cell list \<times> cell list) option \<times> 'w ircbot)" where
  "mod_ewordquiz_init srt handler cb file file_ewq b =
    (case load_wordlist file KWORDLIST_CNT of
       Inl e \<Rightarrow> Inl e
     | Inr None \<Rightarrow> Inr (- 1, None, b)
     | Inr (Some K) \<Rightarrow>
         case load_wordlist file_ewq KWORDLIST_EWQ_CNT of
           Inl e \<Rightarrow> Inl e
         | Inr None \<Rightarrow> Inr (- 1, None, b)
         | Inr (Some W) \<Rightarrow>
             (let b = snd (register_event_handler srt (Some handler) IRC_PRIORITY_NORMAL 0 b)
              in Inr (0, Some (K, W), register_cmds cb ewq_cmds b)))"

text \<open>The word lists are freed; no game is stopped.\<close>

definition mod_ewordquiz_cleanup :: "handler_sort \<Rightarrow> nat \<Rightarrow> 'w ircbot \<Rightarrow> int \<times> 'w ircbot" where
  "mod_ewordquiz_cleanup srt handler b =
    (let b = snd (unregister_event_handler srt (Some handler) b) in (0, unregister_cmds ewq_cmds b))"

text \<open>For scripts: a word with the given beginning, or any word.\<close>

definition get_random_word_c ::
  "(nat \<Rightarrow> nat) \<Rightarrow> cell list \<Rightarrow> byte list option \<Rightarrow> nat \<Rightarrow> c_fault + (byte list option \<times> nat)" where
  "get_random_word_c rnd W startword n =
    (case startword of Some sw \<Rightarrow> find_word_by_startword_random rnd W sw n | None \<Rightarrow> get_random_word rnd W n)"

section \<open>Searching the lists\<close>

text \<open>\<open>strcmp\<close> is one of the comparisons of \<open>Strmap\<close>; on C strings it is the order of lists of bytes.\<close>

interpretation c_strcmp: strcasecmp_like strcmp uint
proof
  show "(uint (c :: byte) = 0) = (c = 0)" for c by (simp add: uint_0_iff)
  show "strcmp s t =
      (let r = uint (cstr_at s 0) - uint (cstr_at t 0)
       in if r \<noteq> 0 then r else if cstr_at s 0 = 0 then r else strcmp (drop 1 s) (drop 1 t))" for s t
    by (rule strcmp.simps)
qed

lemma map_uint_less: "0 \<notin> set s \<Longrightarrow> 0 \<notin> set t \<Longrightarrow> map uint s @ [0 :: int] < map uint t @ [0] \<longleftrightarrow> s < (t :: byte list)"
proof (induction s arbitrary: t)
  case Nil
  then show ?case by (cases t) (auto simp: word_less_def uint_0_iff less_le)
next
  case (Cons a s)
  then show ?case using uint_ge_0 [of a] by (cases t) (auto simp: word_less_def dest: word_uint_eqI)
qed

lemma strcmp_order:
  assumes "cstr_ok s" "cstr_ok t"
  shows "strcmp s t < 0 \<longleftrightarrow> s < t" "strcmp s t = 0 \<longleftrightarrow> s = t" "strcmp s t > 0 \<longleftrightarrow> t < s"
proof -
  have 0: "0 \<notin> set s" "0 \<notin> set t" and u: "until_nul s = s" "until_nul t = t"
    using assms by (auto simp: cstr_ok_def until_nul_id)
  note k = c_strcmp.key_def u map_uint_less [OF 0] map_uint_less [OF 0(2,1)]
  show "strcmp s t < 0 \<longleftrightarrow> s < t" using c_strcmp.cmp_key [of s t] by (simp add: k)
  show "strcmp s t > 0 \<longleftrightarrow> t < s" using c_strcmp.cmp_key [of t s] c_strcmp.cmp_sym [of t s] by (simp add: k)
  then show "strcmp s t = 0 \<longleftrightarrow> s = t" using \<open>strcmp s t < 0 \<longleftrightarrow> s < t\<close> by (metis less_irrefl linorder_neqE)
qed

text \<open>\<open>memcmp_key\<close> tells where the words with a given beginning stand.\<close>

lemma memcmp_key_prefix: "0 \<notin> set key \<Longrightarrow> memcmp_key key w = 0 \<longleftrightarrow> take (length key) w = key"
proof (induction key arbitrary: w)
  case (Cons k key)
  then show ?case by (cases w) (auto simp: Let_def uint_0_iff dest: word_uint_eqI)
qed simp

lemma uint_pos: "0 < uint (x :: byte) \<longleftrightarrow> uint x \<noteq> 0"
  using uint_ge_0 [of x] by linarith

lemma byte_list_le:
  "w \<le> w' \<longleftrightarrow> w = [] \<or> w' \<noteq> [] \<and> (uint (hd w) < uint (hd w') \<or> hd w = hd w' \<and> tl w \<le> tl (w' :: byte list))"
  by (cases w; cases w') (auto simp: word_less_def)

lemma cstr_at_hd: "cstr_at w 0 = (if w = [] then 0 else hd w)"
  by (cases w) simp_all

lemma memcmp_key_mono:
  "w \<le> w' \<Longrightarrow> memcmp_key key w < 0 \<Longrightarrow> memcmp_key key w' < 0"
  "w' \<le> w \<Longrightarrow> memcmp_key key w > 0 \<Longrightarrow> memcmp_key key w' > 0"
proof (induction key arbitrary: w w')
  case (Cons k key)
  note step = uint_pos memcmp_key.simps(2) Let_def cstr_at_hd drop_Suc drop_0 One_nat_def
  {
    case 1
    then show ?case using Cons.IH(1) [of "tl w" "tl w'"] uint_ge_0 [of k] uint_ge_0 [of "hd w'"] 
      by (auto simp: step byte_list_le [of w w'] split: if_splits)
  next
    case 2
    then show ?case using Cons.IH(2) [of "tl w'" "tl w"] uint_ge_0 [of k] uint_ge_0 [of "hd w'"] by (auto simp: step byte_list_le [of w' w] split: if_splits)
  }
qed simp_all

text \<open>\<open>bsearch\<close> finds an element that compares equal exactly when there is one, if the comparison follows the order
  of the array.\<close>

lemma bsearch_finds:
  assumes "\<And>i. i < u \<Longrightarrow> compar i = Inr (f i)"
    and "\<And>i j. i \<le> j \<Longrightarrow> j < u \<Longrightarrow> f i < 0 \<Longrightarrow> f j < 0"
    and "\<And>i j. i \<le> j \<Longrightarrow> j < u \<Longrightarrow> f j > (0 :: int) \<Longrightarrow> f i > 0"
  shows "\<exists>r. bsearch compar l u = Inr r \<and>
    (case r of None \<Rightarrow> \<forall>i. l \<le> i \<and> i < u \<longrightarrow> f i \<noteq> 0 | Some i \<Rightarrow> l \<le> i \<and> i < u \<and> f i = 0)"
  using assms
proof (induction compar l u rule: bsearch.induct)
  case (1 compar l u)
  let ?m = "(l + u) div 2"
  show ?case
  proof (cases "l < u")
    case True
    then have m: "l \<le> ?m" "?m < u" by auto
    have c: "compar ?m = Inr (f ?m)" using "1.prems"(1) m(2) by blast
    consider "f ?m < 0" | "f ?m > 0" | "f ?m = 0" by linarith
    then show ?thesis
    proof cases
      case 1
      have lt: "i < u" if "i < ?m" for i using that m by linarith
      obtain r where r: "bsearch compar l ?m = Inr r"
        "case r of None \<Rightarrow> \<forall>i. l \<le> i \<and> i < ?m \<longrightarrow> f i \<noteq> 0 | Some i \<Rightarrow> l \<le> i \<and> i < ?m \<and> f i = 0"
        using "1.IH"(1) [OF True refl c 1] "1.prems" lt by blast
      have "\<forall>i. l \<le> i \<and> i < u \<longrightarrow> f i \<noteq> 0" if "\<forall>i. l \<le> i \<and> i < ?m \<longrightarrow> f i \<noteq> 0"
        using that "1.prems"(2) [of ?m] 1 by (metis less_irrefl not_le)
      then show ?thesis using r True c 1 m by (subst bsearch.simps) (auto simp: Let_def split: option.splits)
    next
      case 2
      obtain r where r: "bsearch compar (Suc ?m) u = Inr r"
        "case r of None \<Rightarrow> \<forall>i. Suc ?m \<le> i \<and> i < u \<longrightarrow> f i \<noteq> 0 | Some i \<Rightarrow> Suc ?m \<le> i \<and> i < u \<and> f i = 0"
        using "1.IH"(2) [OF True refl c] 2 "1.prems" by fastforce
      have "\<forall>i. l \<le> i \<and> i < u \<longrightarrow> f i \<noteq> 0" if "\<forall>i. Suc ?m \<le> i \<and> i < u \<longrightarrow> f i \<noteq> 0"
        using that "1.prems"(3) [of _ ?m] m 2 by (metis less_irrefl not_less_eq_eq)
      then show ?thesis using r True c 2 m by (subst bsearch.simps) (auto simp: Let_def split: option.splits)
    next
      case 3
      then show ?thesis using m c True by (subst bsearch.simps) (simp add: Let_def)
    qed
  qed (subst bsearch.simps, simp)
qed

lemma bsearch_cases:
  assumes "\<And>i. i < n \<Longrightarrow> compar i = Inr (f i)"
    and "\<And>i j. i \<le> j \<Longrightarrow> j < n \<Longrightarrow> f i < 0 \<Longrightarrow> f j < 0"
    and "\<And>i j. i \<le> j \<Longrightarrow> j < n \<Longrightarrow> f j > (0 :: int) \<Longrightarrow> f i > 0"
  obtains (absent) "bsearch compar 0 n = Inr None" "\<forall>i<n. f i \<noteq> 0"
    | (found) i where "bsearch compar 0 n = Inr (Some i)" "i < n" "f i = 0"
proof -
  obtain r where r: "bsearch compar 0 n = Inr r"
      "case r of None \<Rightarrow> \<forall>i. 0 \<le> i \<and> i < n \<longrightarrow> f i \<noteq> 0 | Some i \<Rightarrow> 0 \<le> i \<and> i < n \<and> f i = 0"
    using bsearch_finds [of n compar f 0] assms by blast
  show ?thesis using r absent found by (cases r) auto
qed

text \<open>A list file in order: its words, increasing.\<close>

definition word_list :: "byte list list \<Rightarrow> bool" where
  "word_list ws \<longleftrightarrow> sorted ws \<and> list_all cstr_ok ws"

lemma cell_at_words [simp]:
  "cell_at (map Str ws) i = (if i < length ws then Inr (Some (ws ! i)) else Inl Read_past_end)"
  by (simp add: cell_at_def)

lemma word_list_nth:
  "word_list ws \<Longrightarrow> i < length ws \<Longrightarrow> cstr_ok (ws ! i)"
  "word_list ws \<Longrightarrow> i \<le> j \<Longrightarrow> j < length ws \<Longrightarrow> ws ! i \<le> ws ! j"
  by (auto simp: word_list_def list_all_iff sorted_nth_mono)

lemma is_word_exists_member:
  assumes "word_list ws" "cstr_ok word" "word \<noteq> []"
  shows "is_word_exists (map Str ws) word = Inr (if word \<in> set ws then 1 else 0)"
proof -
  have u: "until_nul word = word" and z: "cstr_at word 0 \<noteq> 0"
    using assms(2,3) by (cases word; auto simp: cstr_ok_def until_nul_id)+
  note ord = strcmp_order [OF assms(2) word_list_nth(1) [OF assms(1)]]
  show ?thesis
  proof (rule bsearch_cases [of "length ws" "word_compare_function word (map Str ws)" "\<lambda>i. strcmp word (ws ! i)"])
    show "word_compare_function word (map Str ws) i = Inr (strcmp word (ws ! i))" if "i < length ws" for i
      using that by (simp add: word_compare_function_def at_word_def)
    show "strcmp word (ws ! j) < 0" if "i \<le> j" "j < length ws" "strcmp word (ws ! i) < 0" for i j
      using that word_list_nth(2) [OF assms(1) that(1,2)] by (simp add: ord)
    show "strcmp word (ws ! i) > 0" if "i \<le> j" "j < length ws" "strcmp word (ws ! j) > 0" for i j
      using that word_list_nth(2) [OF assms(1) that(1,2)] by (simp add: ord)
  next
    assume "bsearch (word_compare_function word (map Str ws)) 0 (length ws) = Inr None"
      "\<forall>i<length ws. strcmp word (ws ! i) \<noteq> 0"
    moreover from this have "word \<notin> set ws" by (auto simp: in_set_conv_nth ord)
    ultimately show ?thesis by (simp add: is_word_exists_def u z)
  next
    fix i
    assume "bsearch (word_compare_function word (map Str ws)) 0 (length ws) = Inr (Some i)"
      "i < length ws" "strcmp word (ws ! i) = 0"
    moreover from this have "word \<in> set ws" by (auto simp: ord)
    ultimately show ?thesis by (simp add: is_word_exists_def u z)
  qed
qed

lemma pick_loop_prefix:
  "pos + cnt = length ws \<Longrightarrow> i \<le> cnt \<Longrightarrow> 0 < cnt \<Longrightarrow> memcmp_key key (last ws) \<noteq> 0 \<Longrightarrow>
    memcmp_key key (ws ! pos) = 0 \<Longrightarrow> \<forall>j<i. memcmp_key key (ws ! (pos + j)) = 0 \<Longrightarrow>
    \<exists>i' n'. pick_loop rnd (map Str ws) key pos cnt i n = Inr (i', n') \<and> i' < cnt \<and> memcmp_key key (ws ! (pos + i')) = 0"
proof (induction "cnt - i" arbitrary: i n)
  case 0
  then have "i = cnt" "ws \<noteq> []" by auto
  moreover have "pos + (cnt - 1) = length ws - 1" "cnt - 1 < cnt" using 0 by auto
  ultimately have "memcmp_key key (last ws) = 0" using 0 by (metis last_conv_nth)
  then show ?case using 0 by simp
next
  case (Suc k)
  let ?w = "ws ! (pos + i)"
  have i: "i < cnt" "pos + i < length ws" using Suc by auto
  show ?case
  proof (cases "memcmp_key key ?w = 0")
    case False
    then have "i \<noteq> 0" using Suc.prems(5) by (cases i) simp_all
    then have "rnd n mod i < i" by simp
    then show ?thesis using False i Suc.prems by (subst pick_loop.simps) simp
  next
    case True
    then have "\<forall>j<Suc i. memcmp_key key (ws ! (pos + j)) = 0" using Suc.prems by (auto simp: less_Suc_eq)
    then show ?thesis
      using True i Suc.hyps(1) [of "Suc i" "Suc n"] Suc.hyps(2) Suc.prems by (subst pick_loop.simps) auto
  qed
qed

text \<open>C40: Looking for a word with a given beginning in a sorted list finds one whenever there is one, whatever the
  random numbers are, and gives nothing when there is none. The last word of the list must not have the
  beginning itself: then the loop reads behind the list, as \<open>pick_reads_past_end\<close> shows.\<close>

theorem find_word_prefix:
  assumes "word_list ws" "ws \<noteq> []" "cstr_ok startword" "startword \<noteq> []"
    and "take (length startword) (last ws) \<noteq> startword"
  shows "\<exists>r n'. find_word_by_startword_random rnd (map Str ws) startword n = Inr (r, n') \<and>
    (case r of
       None \<Rightarrow> \<forall>w\<in>set ws. take (length startword) w \<noteq> startword
     | Some w \<Rightarrow> w \<in> set ws \<and> take (length startword) w = startword)"
proof -
  let ?k = "memcmp_key startword"
  have u: "until_nul startword = startword" and z: "0 \<notin> set startword"
    using assms(3) by (auto simp: cstr_ok_def until_nul_id)
  note pre = memcmp_key_prefix [OF z]
  show ?thesis
  proof (rule bsearch_cases [of "length ws" "word_compare_function_find startword (map Str ws)" "\<lambda>i. ?k (ws ! i)"])
    show "word_compare_function_find startword (map Str ws) i = Inr (?k (ws ! i))" if "i < length ws" for i
      using that by (simp add: word_compare_function_find_def at_word_def)
    show "?k (ws ! j) < 0" if "i \<le> j" "j < length ws" "?k (ws ! i) < 0" for i j
      using memcmp_key_mono(1) [OF word_list_nth(2) [OF assms(1) that(1,2)] that(3)] .
    show "?k (ws ! i) > 0" if "i \<le> j" "j < length ws" "?k (ws ! j) > 0" for i j
      using memcmp_key_mono(2) [OF word_list_nth(2) [OF assms(1) that(1,2)] that(3)] .
  next
    assume "bsearch (word_compare_function_find startword (map Str ws)) 0 (length ws) = Inr None"
      "\<forall>i<length ws. ?k (ws ! i) \<noteq> 0"
    then show ?thesis
      using assms(4) by (auto simp: find_word_by_startword_random_def Let_def u pre [symmetric] in_set_conv_nth)
  next
    fix pos
    assume found: "bsearch (word_compare_function_find startword (map Str ws)) 0 (length ws) = Inr (Some pos)"
      "pos < length ws" "?k (ws ! pos) = 0"
    have "\<exists>i' n'. pick_loop rnd (map Str ws) startword pos (length ws - pos) 0 n = Inr (i', n') \<and>
        i' < length ws - pos \<and> ?k (ws ! (pos + i')) = 0"
      using found assms(5) by (intro pick_loop_prefix) (auto simp: pre)
    then show ?thesis
      using found assms(4) by (force simp: find_word_by_startword_random_def Let_def u pre)
  qed
qed

definition ws_witness :: "byte list list" where
  "ws_witness = [c_lit ''abc'', c_lit ''cab'', c_lit ''cba'', c_lit ''dab'']"

lemma ws_witness_ok: "word_list ws_witness" "ws_witness \<noteq> []" "last ws_witness = c_lit ''dab''"
  by (simp_all add: word_list_def ws_witness_def c_lit_def cstr_ok_def)

theorem find_word_prefix_witness:
  "\<exists>r n'. find_word_by_startword_random (\<lambda>_. 7) (map Str ws_witness) (c_lit ''c'') 0 = Inr (r, n') \<and>
    (case r of
       None \<Rightarrow> \<forall>w\<in>set ws_witness. take (length (c_lit ''c'')) w \<noteq> c_lit ''c''
     | Some w \<Rightarrow> w \<in> set ws_witness \<and> take (length (c_lit ''c'')) w = c_lit ''c'')"
  by (rule find_word_prefix) (simp_all add: ws_witness_ok, simp_all add: c_lit_def cstr_ok_def)

text \<open>The fault: both words with the beginning are the last ones.\<close>

lemma pick_reads_past_end:
  "find_word_by_startword_random (\<lambda>_. 0) (map Str [c_lit ''ab'', c_lit ''ba'', c_lit ''bb'']) (c_lit ''b'') 0 = Inl Read_past_end"
  by (simp add: find_word_by_startword_random_def c_lit_def until_nul_def bsearch.simps pick_loop.simps Let_def
      word_compare_function_find_def at_word_def cell_at_def)

text \<open>A file with more words than the constant says is stored behind the array.\<close>

lemma load_wordlist_overflow:
  "load_wordlist (Some (c_lit ''ab'' @ [0x0A] @ c_lit ''ac'')) 1 = Inl Write_past_end"
  by (simp add: load_wordlist_def c_lit_def until_nul_def)

section \<open>The games of all channels\<close>

text \<open>
  Everything that can happen to the module: an idle event, the two parts of the handler of a message (\<open>P\<close> are the
  messages between them, each with its thread), a command. Events that wait or fault make no step.
\<close>

inductive ewq_step ::
  "byte pcre \<Rightarrow> (nat \<Rightarrow> nat) \<Rightarrow> bool \<Rightarrow> cell list \<Rightarrow> cell list \<Rightarrow> ewq \<times> (nat \<times> irc_privmsg) list \<Rightarrow>
    ewq \<times> (nat \<times> irc_privmsg) list \<Rightarrow> bool"
  for R rnd detect K W where
  idle: "ewq_idle rnd detect W t now s = Returns (r, out :: unit sent, s') \<Longrightarrow> ewq_step R rnd detect K W (s, P) (s', P)"
| look: "ewq_look detect t pm s = Returns (running, s') \<Longrightarrow>
    ewq_step R rnd detect K W (s, P) (s', if running then P @ [(t, pm)] else P)"
| play: "(t, pm) \<in> set P \<Longrightarrow> ewq_play R rnd detect W t now pm s = Returns (r, out :: unit sent, s') \<Longrightarrow>
    ewq_step R rnd detect K W (s, P) (s', remove1 (t, pm) P)"
| command: "cmd_cb_ewq R rnd detect K W t now chan cmd carg s = Returns (r, out :: unit sent, s') \<Longrightarrow>
    ewq_step R rnd detect K W (s, P) (s', P)"

definition ewq_init :: ewq where
  "ewq_init = \<lparr>g_ewqstat = [], g_ewq_writer = None, ew_rands = 0\<rparr>"

text \<open>A game that is not over: the word asked is of the list, no player has reached the score, each point was one
  of the rounds, and there were at most fifteen rounds.\<close>

definition game_ok :: "cell list \<Rightarrow> ewordq_stat \<Rightarrow> bool" where
  "game_ok W g \<longleftrightarrow> eq_status g \<in> {0, 1} \<and>
    (eq_status g = 1 \<longrightarrow>
      eq_score g = 10 \<and> eq_total_n g = 15 \<and> eq_timeout g = 20 \<and> Str (eq_lastword g) \<in> set W \<and>
      list_all (\<lambda>p. 0 < p \<and> p < 10) (map snd (eq_userstat g)) \<and>
      sum_list (map snd (eq_userstat g)) \<le> eq_crnt_n g \<and> eq_crnt_n g \<le> 15)"

definition games_ok :: "cell list \<Rightarrow> ewq \<Rightarrow> bool" where
  "games_ok W s \<longleftrightarrow> list_all (game_ok W) (map snd (g_ewqstat s))"

lemma smap_find_all: "list_all P (map snd m) \<Longrightarrow> smap_find lt k m = Some v \<Longrightarrow> P v"
  by (induction m) (auto split: if_splits)

lemma smap_set_list_all: "list_all P (map snd m) \<Longrightarrow> P v \<Longrightarrow> list_all P (map snd (smap_set lt k v m))"
  by (induction m) auto

lemma games_ok_get: "games_ok W s \<Longrightarrow> game_ok W (ewq_get chan s)"
  unfolding games_ok_def ewq_get_def
  by (auto simp: game_ok_def ewordq_stat_new_def dest: smap_find_all split: option.splits)

lemma games_ok_put: "games_ok W s \<Longrightarrow> game_ok W g \<Longrightarrow> games_ok W (ewq_put chan g s)"
  by (simp add: games_ok_def ewq_put_def smap_set_list_all)

lemma games_ok_fields [simp]:
  "games_ok W (s\<lparr>g_ewq_writer := w\<rparr>) = games_ok W s" "games_ok W (s\<lparr>ew_rands := n\<rparr>) = games_ok W s"
  "games_ok W (ewq_unlock s) = games_ok W s"
  by (simp_all add: games_ok_def ewq_unlock_def)

lemma ewq_get_fields [simp]:
  "ewq_get chan (s\<lparr>g_ewq_writer := w\<rparr>) = ewq_get chan s" "ewq_get chan (s\<lparr>ew_rands := n\<rparr>) = ewq_get chan s"
  by (simp_all add: ewq_get_def)

lemma lock_games:
  "ewq_wrlock detect t s = Some s' \<Longrightarrow> games_ok W s' = games_ok W s \<and> ewq_get chan s' = ewq_get chan s"
  "ewq_rdlock detect t s = Some s' \<Longrightarrow> s' = s"
  by (auto simp: ewq_wrlock_def ewq_rdlock_def split: option.splits if_splits)

text \<open>The words that the code takes come from the list.\<close>

lemma cell_at_Some: "cell_at W i = Inr (Some w) \<Longrightarrow> Str w \<in> set W"
  by (auto simp: cell_at_def split: if_splits cell.splits) (metis nth_mem)

lemma find_word_in: "find_word_by_startword_random rnd W sw n = Inr (Some w, n') \<Longrightarrow> Str w \<in> set W"
  by (auto simp: find_word_by_startword_random_def Let_def cell_at_Some split: if_splits sum.splits option.splits prod.splits)

lemma random_word_in: "get_random_word rnd W n = Inr (Some w, n') \<Longrightarrow> Str w \<in> set W"
  by (auto simp: get_random_word_def cell_at_Some split: sum.splits)

lemma idle_game_ok:
  assumes "idle_game rnd W now chan g n = Inr (g', out, n')" "game_ok W g"
  shows "game_ok W g'"
proof (cases "eq_status g = 1 \<and> now - eq_time g > eq_timeout g \<and> eq_crnt_n g < eq_total_n g")
  case True
  then show ?thesis
    using assms find_word_in [of rnd W "utf8_strpos_s (eq_lastword g) (- 1)" n]
    by (auto simp: idle_game_def game_ok_def split: sum.splits option.splits prod.splits)
next
  case False
  then show ?thesis using assms by (auto simp: idle_game_def game_ok_def split: if_splits)
qed

lemma idle_games_ok:
  "idle_games rnd W now gs n = Inr (gs', out :: 'f sent, n') \<Longrightarrow> list_all (game_ok W) (map snd gs) \<Longrightarrow>
    list_all (game_ok W) (map snd gs')"
proof (induction gs arbitrary: n gs' out n')
  case (Cons p gs)
  obtain chan g where p: "p = (chan, g)" by (cases p)
  from Cons.prems(1) obtain g1 n1 gs2 and o1 o2 :: "'f sent" where
    "idle_game rnd W now chan g n = Inr (g1, o1, n1)" "idle_games rnd W now gs n1 = Inr (gs2, o2, n')" "gs' = (chan, g1) # gs2"
    by (auto simp: p split: sum.splits)
  then show ?case using Cons p idle_game_ok by auto
qed simp

text \<open>A point for one player.\<close>

lemma smap_add_sum:
  "sum_list (map snd (smap_set lt k ((case smap_find lt k m of None \<Rightarrow> 0 | Some p \<Rightarrow> p) + 1) m)) = sum_list (map snd m) + (1 :: int)"
  by (induction m) auto

lemma add_point_ok:
  assumes "game_ok W g" "eq_status g = 1"
  shows "list_all (\<lambda>p. 0 < p) (map snd (eq_userstat (add_point nick g))) \<and>
    sum_list (map snd (eq_userstat (add_point nick g))) \<le> eq_crnt_n (add_point nick g)"
proof -
  let ?p = "case smap_find string_less nick (eq_userstat g) of None \<Rightarrow> 0 | Some p \<Rightarrow> p"
  have pos: "list_all (\<lambda>p. 0 < p) (map snd (eq_userstat g))"
    using assms by (auto simp: game_ok_def list_all_iff)
  then have "0 < ?p + 1" using smap_find_all [OF pos, of string_less nick] by (fastforce split: option.splits)
  then show ?thesis
    using assms smap_add_sum [of string_less nick "eq_userstat g"] smap_set_list_all [OF pos]
    by (simp add: add_point_def Let_def game_ok_def)
qed

lemma add_point_fields [simp]:
  "eq_status (add_point nick g) = eq_status g" "eq_score (add_point nick g) = eq_score g"
  "eq_total_n (add_point nick g) = eq_total_n g" "eq_timeout (add_point nick g) = eq_timeout g"
  "eq_lastword (add_point nick g) = eq_lastword g"
  by (simp_all add: add_point_def Let_def)

lemma play_ok:
  assumes play: "ewq_play R rnd detect W t now pm s = Returns (r, out :: 'f sent, s')" and ok: "games_ok W s"
  shows "games_ok W s'"
proof -
  let ?chan = "mi_chan (pm_msginfo pm)" and ?msg = "filter (\<lambda>c. c \<noteq> 0x20) (strip_irc_colors R (pm_msg pm))"
  obtain l where l: "ewq_wrlock detect t s = Some l" using play by (auto simp: ewq_play_def split: option.splits)
  then have okl: "games_ok W l" using lock_games(1) ok by metis
  define g where "g = ewq_get ?chan l"
  have g: "game_ok W g" using okl by (simp add: g_def games_ok_get)
  obtain hit where hit: "right_answer W ?msg g = Inr hit"
    using play l by (auto simp: ewq_play_def Let_def g_def split: sum.splits)
  define g1 where "g1 = (if hit then add_point (ii_nick (pm_ident pm)) g else g)"
  have over: "game_ok W (g1\<lparr>eq_status := 0\<rparr>)" by (simp add: game_ok_def)
  have stopped: "game_ok W g1" if "eq_status g1 \<noteq> 1"
    using that g by (auto simp: game_ok_def g1_def split: if_splits)
  have runs: "game_ok W g1" if "find (\<lambda>(_, p). p \<ge> eq_score g1) (eq_userstat g1) = None" "eq_crnt_n g1 < eq_total_n g1" "eq_status g1 = 1"
  proof -
    have "\<forall>p \<in> set (eq_userstat g1). snd p < 10"
      using that g by (fastforce simp: find_None_iff game_ok_def g1_def split: if_splits)
    moreover have "list_all (\<lambda>p. 0 < p) (map snd (eq_userstat g1)) \<and> sum_list (map snd (eq_userstat g1)) \<le> eq_crnt_n g1"
      using add_point_ok [OF g, of "ii_nick (pm_ident pm)"] that(3) g by (auto simp: g1_def game_ok_def list_all_iff)
    ultimately show ?thesis using that g by (auto simp: game_ok_def g1_def list_all_iff split: if_splits)
  qed
  have word: "game_ok W (g1\<lparr>eq_lastword := w, eq_time := now\<rparr>)"
    if "game_ok W g1" "find_word_by_startword_random rnd W sw n = Inr (Some w, n')" for w sw n n'
    using that(1) find_word_in [OF that(2)] by (auto simp: game_ok_def)
  obtain o1 :: "'f sent" where after: "ewq_after_answer R rnd W now ?chan ?msg hit g1 l = Returns (r, o1, s')"
    using play l hit unfolding g1_def g_def by (auto simp: ewq_play_def Let_def split: call.splits)
  have n: "games_ok W (l\<lparr>ew_rands := n\<rparr>)" for n using okl by simp
  note puts = games_ok_put [OF okl] games_ok_put [OF n]
  show ?thesis
  proof (cases "find (\<lambda>(_, p). p \<ge> eq_score g1) (eq_userstat g1)")
    case (Some w)
    then show ?thesis using after over puts by (cases w) (auto simp: ewq_after_answer_def)
  next
    case None
    have "game_ok W g1" if "eq_crnt_n g1 < eq_total_n g1" using that stopped runs [OF None] by blast
    then show ?thesis
      using None after over puts word
      by (auto simp: ewq_after_answer_def split: if_splits sum.splits option.splits)
  qed
qed

lemma game_cmd_ok:
  assumes "ewq_game_cmd rnd detect W t now chan carg s = Returns (r, out :: 'f sent, s')" "games_ok W s"
  shows "games_ok W s'"
proof -
  obtain l where l: "ewq_wrlock detect t s = Some l" using assms(1) by (auto simp: ewq_game_cmd_def split: option.splits)
  then have ok: "games_ok W l" "games_ok W (l\<lparr>ew_rands := n\<rparr>)" for n using lock_games(1) assms(2) by simp_all
  have "game_ok W (start_game now w)" if "Str w \<in> set W" for w
    using that by (simp add: game_ok_def start_game_def)
  moreover have "game_ok W (g\<lparr>eq_status := 0\<rparr>)" for g by (simp add: game_ok_def)
  ultimately show ?thesis
    using assms(1) l ok random_word_in [of rnd W "ew_rands l"] games_ok_get games_ok_put [OF ok(1)] games_ok_put [OF ok(2)]
    by (auto simp: ewq_game_cmd_def split: if_splits sum.splits option.splits)
qed

lemma ewq_step_ok:
  assumes "ewq_step R rnd detect K W a b" "games_ok W (fst a)"
  shows "games_ok W (fst b)"
  using assms
proof cases
  case (idle t now s r out s' P)
  then obtain l gs n where "ewq_wrlock detect t s = Some l" "idle_games rnd W now (g_ewqstat l) (ew_rands l) = Inr (gs, out, n)"
    "s' = ewq_unlock (l\<lparr>g_ewqstat := gs, ew_rands := n\<rparr>)"
    by (auto simp: ewq_idle_def split: option.splits sum.splits)
  then show ?thesis
    using idle idle_games_ok [of rnd W now "g_ewqstat l" "ew_rands l" gs out n] lock_games(1) [of detect t s l W] assms(2)
    by (simp add: games_ok_def ewq_unlock_def)
next
  case (look t pm s running s' P)
  then show ?thesis
    using assms(2) games_ok_put [OF _ games_ok_get] lock_games(2)
    by (fastforce simp: ewq_look_def Let_def split: if_splits option.splits)
next
  case (play t pm P now s r out s')
  then show ?thesis using play_ok assms(2) by simp
next
  case (command t now chan cmd carg s r out s' P)
  then have "ewq_game_cmd rnd detect W t now chan carg s = Returns (r, out, s') \<or> s' = s \<or> (\<exists>n. s' = s\<lparr>ew_rands := n\<rparr>)"
    by (auto simp: cmd_cb_ewq_def split: if_splits sum.splits option.splits)
  then show ?thesis using game_cmd_ok [of rnd detect W t now chan carg s r out s'] assms(2) command by auto
qed

text \<open>C21: In every state that the module can reach, whatever threads call its handlers, commands and idle events in
  whatever order, also between the two parts of the handler of a message, each game that is not over asks a word
  of the list, has had at most fifteen rounds, and its players have between one and nine points each, at most as
  many together as there were rounds.\<close>

theorem games_in_order:
  assumes "(ewq_step R rnd detect K W)\<^sup>*\<^sup>* (ewq_init, []) (s, P)" and "(chan, g) \<in> set (g_ewqstat s)" and "eq_status g \<noteq> 0"
  shows "eq_status g = 1 \<and> Str (eq_lastword g) \<in> set W \<and> eq_crnt_n g \<le> 15 \<and>
    (\<forall>(who, p) \<in> set (eq_userstat g). 1 \<le> p \<and> p \<le> 9) \<and> sum_list (map snd (eq_userstat g)) \<le> eq_crnt_n g"
proof -
  have "games_ok W (fst (s, P))"
    using assms(1) by (induction rule: rtranclp_induct) (simp add: games_ok_def ewq_init_def, blast intro: ewq_step_ok)
  then have "game_ok W g" using assms(2) by (auto simp: games_ok_def list_all_iff)
  then show ?thesis using assms(3) by (auto simp: game_ok_def list_all_iff)
qed

lemma empty_step:
  "ewq_step R rnd detect K W (ewq_init, []) (ewq_unlock (ewq_put chan (start_game now w) ewq_init\<lparr>ew_rands := 1\<rparr>), [])"
  if "cstr_at chan 0 = 0x23" "cell_at W (rnd 0 mod length W) = Inr (Some w)"
proof -
  have "cmd_cb_ewq R rnd detect K W t now chan [] [] ewq_init =
      Returns (HANDLER_FINISHED,
        [(Some chan, Privmsg_nh [0xEC, 0x8B, 0x9C, 0xEC, 0x9E, 0x91, 0x2E, 0x20, 0xEC, 0xA4, 0x91, 0xEC, 0xA7, 0x80,
          0xED, 0x95, 0x98, 0xEB, 0xA0, 0xA4, 0xEB, 0xA9, 0xB4, 0x20, 0x60, 0x21, 0xEB, 0x81, 0x9D, 0xEB, 0xA7,
          0x90, 0x32, 0x20, 0xEC, 0xA4, 0x91, 0xEC, 0xA7, 0x80, 0x27, 0xEB, 0xA5, 0xBC, 0x20, 0xEC, 0x9E, 0x85,
          0xEB, 0xA0, 0xA5, 0xED, 0x95, 0x98, 0xEC, 0x84, 0xB8, 0xEC, 0x9A, 0x94, 0x2E]),
         (Some chan, Privmsgf_nh bold_word [Arg_str (Some w) :: unit varg])],
        ewq_unlock (ewq_put chan (start_game now w) ewq_init\<lparr>ew_rands := 1\<rparr>))"
    using that by (simp add: cmd_cb_ewq_def ewq_game_cmd_def ewq_init_def ewq_wrlock_def ewq_get_def ewordq_stat_new_def
        get_random_word_def ewq_put_def ewq_unlock_def)
  then show ?thesis by (rule ewq_step.command)
qed

text \<open>Messages without colour codes are left alone.\<close>

definition plain_pcre :: "byte pcre" where
  "plain_pcre = \<lparr>re_full = \<lambda>_ _. None, re_partial = \<lambda>_ _. None, re_global_replace = \<lambda>_ _ s. s\<rparr>"

theorem games_in_order_witness:
  "let W = map Str ws_witness; g = start_game 0 (c_lit ''abc'');
       s = ewq_unlock (ewq_put (c_lit ''#a'') g ewq_init\<lparr>ew_rands := 1\<rparr>)
   in (ewq_step plain_pcre (\<lambda>_. 0) True [] W)\<^sup>*\<^sup>* (ewq_init, []) (s, []) \<and> (c_lit ''#a'', g) \<in> set (g_ewqstat s) \<and>
    eq_status g = 1 \<and> Str (eq_lastword g) \<in> set W \<and> eq_crnt_n g \<le> 15 \<and>
    list_all (\<lambda>(who, p). 1 \<le> p \<and> p \<le> 9) (eq_userstat g) \<and> sum_list (map snd (eq_userstat g)) \<le> eq_crnt_n g"
proof -
  let ?W = "map Str ws_witness" and ?s = "ewq_unlock (ewq_put (c_lit ''#a'') (start_game 0 (c_lit ''abc'')) ewq_init\<lparr>ew_rands := 1\<rparr>)"
  have reach: "(ewq_step plain_pcre (\<lambda>_. 0) True [] ?W)\<^sup>*\<^sup>* (ewq_init, []) (?s, [])"
    by (rule r_into_rtranclp, rule empty_step) (simp_all add: c_lit_def ws_witness_def cell_at_def)
  have mem: "(c_lit ''#a'', start_game 0 (c_lit ''abc'')) \<in> set (g_ewqstat ?s)"
    by (simp add: ewq_unlock_def ewq_put_def ewq_init_def)
  show ?thesis
    using reach mem games_in_order [OF reach mem] by (simp add: Let_def start_game_def)
qed

section \<open>The end of a game\<close>

lemma smap_set_has: "\<exists>k'. (k', v) \<in> set (smap_set lt k v m)"
  by (induction m) auto

lemma ewq_get_put: "smap_ok irc_string_less (g_ewqstat s) \<Longrightarrow> ewq_get chan (ewq_put chan g s) = g"
  using irc_map.irrefl by (simp add: ewq_get_def ewq_put_def irc_map.find_set)

lemma held_lock_waits:
  assumes "g_ewq_writer s = Some t" "t' \<noteq> t \<or> \<not> detect"
  shows "ewq_idle rnd detect W t' now s = Waits" "ewq_game_cmd rnd detect W t' now chan carg s = Waits"
    "mi_msgtype (pm_msginfo pm) \<noteq> IRC_MSGTYPE_CTCP \<Longrightarrow> cstr_at (mi_chan (pm_msginfo pm)) 0 = 0x23 \<Longrightarrow>
      ewq_look detect t' pm s = Waits"
    "ewq_play R rnd detect W t' now pm s = Waits"
  using assms by (auto simp: ewq_idle_def ewq_game_cmd_def ewq_look_def ewq_play_def ewq_wrlock_def ewq_rdlock_def)

lemma writer_put [simp]: "g_ewq_writer (ewq_put chan g s) = g_ewq_writer s"
  by (simp add: ewq_put_def)


definition won_state :: ewq where
  "won_state = \<lparr>g_ewqstat = [(c_lit ''#a'', (start_game 0 (c_lit ''abc''))\<lparr>eq_userstat := [(c_lit ''n'', 9)], eq_crnt_n := 9\<rparr>)],
     g_ewq_writer = None, ew_rands = 0\<rparr>"

definition won_msg :: irc_privmsg where
  "won_msg = \<lparr>pm_ident = \<lparr>ii_ident = [], ii_nick = c_lit ''n'', ii_user = [], ii_host = []\<rparr>,
     pm_msginfo = \<lparr>mi_chantype = IRC_CHANTYPE_CHAN, mi_msgtype = IRC_MSGTYPE_NORMAL, mi_chan = c_lit ''#a'', mi_priority = 0,
       mi_line_converted = False\<rparr>, pm_msg = c_lit ''c ab''\<rparr>"

lemma won_state_answer:
  "right_answer (map Str ws_witness) (filter (\<lambda>c. c \<noteq> 0x20) (strip_irc_colors plain_pcre (pm_msg won_msg)))
    (ewq_get (c_lit ''#a'') won_state) = Inr True"
proof -
  let ?chars = "\<lambda>s. map (\<lambda>c. [c]) s"
  have c: "utf8_chars (?chars (c_lit ''cab''))" "utf8_chars (?chars (c_lit ''abc''))"
    by (simp_all add: c_lit_def utf8_char_def utf8_getsize_char_def utf8_getsize_char_nc_def Let_def)
  have j: "concat (?chars s) = s" for s :: "byte list" by (induction s) simp_all
  have msg: "filter (\<lambda>c. c \<noteq> 0x20) (strip_irc_colors plain_pcre (pm_msg won_msg)) = c_lit ''cab''"
    by (simp add: won_msg_def plain_pcre_def strip_irc_colors_def c_lit_def)
  have g: "ewq_get (c_lit ''#a'') won_state = (start_game 0 (c_lit ''abc''))\<lparr>eq_userstat := [(c_lit ''n'', 9)], eq_crnt_n := 9\<rparr>"
    using irc_map.irrefl by (simp add: ewq_get_def won_state_def)
  have len: "utf8_strlen_s (c_lit ''cab'') = 3"
    using utf8_strlen_append [OF c(1), of "[]"] by (simp add: j utf8_strlen_s_def utf8_getsize_char_zero c_lit_def until_nul_def)
  have first: "utf8_strpos_s (c_lit ''cab'') 0 = c_lit ''c''"
    using utf8_strpos_s_append [OF c(1), of "[]" 0] by (simp add: j c_lit_def cstr_ok_def)
  have last: "utf8_strpos_s (c_lit ''abc'') (- 1) = c_lit ''c''"
    using utf8_strpos_s_last [OF c(2)] by (simp add: j c_lit_def)
  have "is_word_exists (map Str ws_witness) (until_nul (c_lit ''cab'')) = Inr 1"
    using is_word_exists_member [OF ws_witness_ok(1), of "c_lit ''cab''"]
    by (simp add: ws_witness_def c_lit_def cstr_ok_def until_nul_def)
  then show ?thesis by (simp add: msg g right_answer_def len first last start_game_def)
qed


end
