(* ===== verification/Dcc.thy ===== *)
theory Dcc
  imports Botmod Etc Ircevent Irc
begin

text \<open>
  Receiving files, \<open>modules/mod_dcc.cpp\<close>: an offer (\<open>DCC SEND\<close>) in a private message starts a thread that connects
  to the sender, stores what it reads and announces the file. The configuration is a function \<open>cfg\<close>, the
  answers of the sockets and of the file are a record \<open>dcc_sys\<close>; the regular expressions are a parameter.
\<close>

section \<open>The thread of a transfer\<close>

record dcc_param =
  dp_pmsg :: irc_privmsg
  dp_path :: "byte list"
  dp_filename :: "byte list"
  dp_ip :: "byte list"
  dp_port :: int
  dp_size :: u32

text \<open>What the calls answer: \<open>connect\<close>, \<open>open\<close>, each \<open>timed_read\<close> (the number and the bytes stored), each \<open>write\<close>, and the
  texts of the errors.\<close>

record dcc_sys =
  ds_connect :: int
  ds_open :: int
  ds_reads :: "(int \<times> byte list) list"
  ds_writes :: "int list"
  ds_last_error :: "byte list"
  ds_strerror :: "byte list"

text \<open>A message and where it goes.\<close>

type_synonym 'f dcc_out = "(irc_msginfo \<times> 'f reply) list"

text \<open>Four bytes in network order.\<close>

definition dcc_ack :: "u32 \<Rightarrow> byte list" where
  "dcc_ack ntotal = [ucast (drop_bit 24 ntotal), ucast (drop_bit 16 ntotal), ucast (drop_bit 8 ntotal), ucast ntotal]"

text \<open>The loop: what was written to the file, the acknowledgements sent, \<open>nread\<close>, \<open>ret\<close> and \<open>ntotal\<close> at its end;
  None while it still waits for an answer.\<close>

fun dcc_recv_loop ::
  "u32 \<Rightarrow> (int \<times> byte list) list \<Rightarrow> int list \<Rightarrow> byte list \<Rightarrow> byte list \<Rightarrow> int \<Rightarrow> u32 \<Rightarrow>
    (byte list \<times> byte list \<times> int \<times> int \<times> u32) option" where
  "dcc_recv_loop fsize [] ws file acks ret ntotal = None"
| "dcc_recv_loop fsize ((nread, buf) # rs) ws file acks ret ntotal =
    (if nread \<le> 0 then Some (file, acks, nread, ret, ntotal)
     else case ws of
       [] \<Rightarrow> None
     | w # ws \<Rightarrow>
         if w < 0 then Some (file, acks, nread, w, ntotal)
         else
           (let file = file @ take (nat w) buf;
                ntotal = ntotal + word_of_int nread;
                acks = acks @ dcc_ack ntotal
            in if ntotal \<ge> fsize then Some (file, acks, nread, w, ntotal)
               else dcc_recv_loop fsize rs ws file acks w ntotal))"

text \<open>The loop over the channels of \<open>broadcast_to_joined_channels\<close>: the channels found, their number, the session.\<close>

fun joined_loop ::
  "irc_env \<Rightarrow> byte list \<Rightarrow> int \<Rightarrow> byte list list \<Rightarrow> byte list \<Rightarrow> int \<Rightarrow> irc \<Rightarrow> byte list \<times> int \<times> irc" where
  "joined_loop E nick maxchan [] destchans n st = (destchans, n, st)"
| "joined_loop E nick maxchan (chan # chans) destchans n st =
    (let (joined, st) = is_user_joined E chan nick st;
         destchans = (if joined then (if destchans \<noteq> [] then destchans @ [0x2C] else destchans) @ chan else destchans);
         n = n + 1
     in if maxchan \<ge> 0 \<and> n \<ge> maxchan then (destchans, n, st)
        else joined_loop E nick maxchan chans destchans n st)"

definition chan_msginfo :: "byte list \<Rightarrow> irc_msginfo" where
  "chan_msginfo chan = irc_msginfo_new chan IRC_MSGTYPE_NORMAL IRC_CHANTYPE_CHAN False"

definition broadcast_to_joined_channels ::
  "irc_env \<Rightarrow> byte list \<Rightarrow> byte list \<Rightarrow> int \<Rightarrow> irc \<Rightarrow> int \<times> 'f dcc_out \<times> irc" where
  "broadcast_to_joined_channels E nick msg maxchan st =
    (let (destchans, n, st) = joined_loop E nick maxchan (ir_chans st) [] 0 st
     in (n, [(chan_msginfo destchans, Privmsg msg)], st))"

text \<open>\<open>IRC_MSGTYPE_NOTICE\<close> to the sender.\<close>

definition dcc_sender :: "irc_privmsg \<Rightarrow> irc_msginfo" where
  "dcc_sender pm = irc_msginfo_new (mi_chan (pm_msginfo pm)) IRC_MSGTYPE_NOTICE IRC_CHANTYPE_CHAN False"

definition not_configured :: "byte list" where
  "not_configured = [0xEB, 0xB4, 0x87, 0x20, 0xEC, 0x84, 0xA4, 0xEC, 0xA0, 0x95, 0xEC, 0x9D, 0xB4, 0x20, 0xEB, 0x90,
    0x98, 0xEC, 0xA7, 0x80, 0x20, 0xEC, 0x95, 0x8A, 0xEC, 0x95, 0x98, 0xEC, 0x8A, 0xB5, 0xEB, 0x8B, 0x88, 0xEB,
    0x8B, 0xA4, 0x2E, 0x20, 0xEB, 0xB4, 0x87, 0x20, 0xEA, 0xB4, 0x80, 0xEB, 0xA6, 0xAC, 0xEC, 0x9E, 0x90, 0xEC,
    0x97, 0x90, 0xEA, 0xB2, 0x8C, 0x20, 0xEB, 0xAC, 0xB8, 0xEC, 0x9D, 0x98, 0xED, 0x95, 0x98, 0xEC, 0x84, 0xB8,
    0xEC, 0x9A, 0x94, 0x2E]"

text \<open>What is said about a finished upload: to the sender, and to the user's channels.\<close>

definition dcc_announce ::
  "irc_env \<Rightarrow> byte list \<Rightarrow> dcc_param \<Rightarrow> u32 \<Rightarrow> (byte list, byte list) smap \<times> irc \<Rightarrow>
    c_fault + ('f dcc_out \<times> (byte list, byte list) smap \<times> irc)" where
  "dcc_announce E url p ntotal S =
    (let (bc, st) = S;
         sender = dcc_sender (dp_pmsg p);
         nick = ii_nick (pm_ident (dp_pmsg p));
         encoded = urlencode_s (dp_filename p);
         chans = (case smap_find irc_string_less nick bc of None \<Rightarrow> [] | Some c \<Rightarrow> c);
         bc = smap_insert irc_string_less nick [] bc
     in case (encoded, prevent_irc_highlighting_1 nick) of
          (Inr encoded_filename, Inr shown) \<Rightarrow>
            (let out = [(sender, Privmsg ([0xEC, 0x97, 0x85, 0xEB, 0xA1, 0x9C, 0xEB, 0x93, 0x9C, 0x20, 0xEC, 0x84,
              0xB1, 0xEA, 0xB3, 0xB5, 0x20, 0x28] @ int2string (uint ntotal) @ c_lit '' bytes)'')),
                        (sender, Privmsg (c_lit ''URL: '' @ url @ encoded_filename))]
             in if chans = [] then
                  (let (_, bcast, st) = broadcast_to_joined_channels E nick
                     (shown @ c_lit '' - '' @ dp_filename p @ c_lit '' ('' @ int2string (uint (dp_size p div 1024)) @ c_lit ''.'' @
                      int2string (uint (dp_size p mod 1024)) @ c_lit ''KiB): '' @ url @ encoded_filename) (- 1) st
                   in Inr (out @ bcast, bc, st))
                else
                  Inr (out @ [(chan_msginfo chans, Privmsgf (c_lit ''%s - %s (%d.%d KiB): %s%s'')
                    [Arg_str (Some (until_nul shown)), Arg_str (Some (until_nul (dp_filename p))), Arg_int (dp_size p div 1024),
                     Arg_int (dp_size p mod 1024), Arg_str (Some (until_nul url)), Arg_str (Some (until_nul encoded_filename))])],
                    bc, st))
        | (Inl e, _) \<Rightarrow> Inl e
        | (_, Inl e) \<Rightarrow> Inl e)"

text \<open>\<open>dcc_get_real\<close>: the messages, the path opened and what was written to it, the channels and the session.\<close>

definition dcc_get_real ::
  "irc_env \<Rightarrow> (byte list \<Rightarrow> byte list) \<Rightarrow> dcc_sys \<Rightarrow> dcc_param \<Rightarrow> (byte list, byte list) smap \<times> irc \<Rightarrow>
    (c_fault + ('f dcc_out \<times> (byte list \<times> byte list) option \<times> (byte list, byte list) smap \<times> irc)) option" where
  "dcc_get_real E cfg sys p S =
    (let sender = dcc_sender (dp_pmsg p);
         url = cfg (c_lit ''mod_dcc.download_url_prefix'')
     in if url = [] then Some (Inr ([(sender, Privmsg not_configured)], None, S))
        else if dp_size p = 0 then Some (Inr ([(sender, Privmsg [0xED, 0x8C, 0x8C, 0xEC, 0x9D, 0xBC, 0x20, 0xED,
          0x81, 0xAC, 0xEA, 0xB8, 0xB0, 0xEB, 0x8A, 0x94, 0x20, 0x30, 0xEB, 0xB3, 0xB4, 0xEB, 0x8B, 0xA4, 0x20,
          0xEC, 0xBB, 0xA4, 0xEC, 0x95, 0xBC, 0xED, 0x95, 0xA9, 0xEB, 0x8B, 0x88, 0xEB, 0x8B, 0xA4, 0x2E])], None, S))
        else if dp_port p = 0 then Some (Inr ([(sender, Privmsg [0x70, 0x61, 0x73, 0x73, 0x69, 0x76, 0x65, 0x20,
          0x6D, 0x6F, 0x64, 0x65, 0xEB, 0x8A, 0x94, 0x20, 0xEC, 0xA7, 0x80, 0xEC, 0x9B, 0x90, 0xED, 0x95, 0x98,
          0xEC, 0xA7, 0x80, 0x20, 0xEC, 0x95, 0x8A, 0xEC, 0x8A, 0xB5, 0xEB, 0x8B, 0x88, 0xEB, 0x8B, 0xA4, 0x2E])],
          None, S))
        else if dp_port p \<le> 80 \<or> dp_port p > 65535 then
          Some (Inr ([(sender, Privmsg [0xED, 0x8F, 0xAC, 0xED, 0x8A, 0xB8, 0xEB, 0x8A, 0x94, 0x20, 0x38, 0x30,
            0x20, 0x7E, 0x20, 0x36, 0x35, 0x35, 0x33, 0x35, 0x20, 0xEC, 0x82, 0xAC, 0xEC, 0x9D, 0xB4, 0xEC, 0x97,
            0x90, 0x20, 0xEC, 0x9E, 0x88, 0xEC, 0x96, 0xB4, 0xEC, 0x95, 0xBC, 0x20, 0xED, 0x95, 0xA9, 0xEB, 0x8B,
            0x88, 0xEB, 0x8B, 0xA4, 0x2E])], None, S))
        else if ds_connect sys < 0 then
          Some (Inr ([(sender, Privmsgf [0xEC, 0x84, 0x9C, 0xEB, 0xB2, 0x84, 0xEC, 0x97, 0x90, 0x20, 0xEC, 0xA0,
            0x91, 0xEC, 0x86, 0x8D, 0xED, 0x95, 0xA0, 0x20, 0xEC, 0x88, 0x98, 0x20, 0xEC, 0x97, 0x86, 0xEC, 0x8A,
            0xB5, 0xEB, 0x8B, 0x88, 0xEB, 0x8B, 0xA4, 0x2E, 0x20, 0x28, 0x25, 0x73, 0x3A, 0x25, 0x64, 0x29, 0x3A,
            0x20, 0x25, 0x73]
            [Arg_str (Some (until_nul (dp_ip p))), Arg_int (word_of_int (dp_port p)), Arg_str (Some (until_nul (ds_last_error sys)))])], None, S))
        else if ds_open sys < 0 then
          Some (Inr ([(sender, Privmsgf [0xEB, 0x82, 0xB4, 0xEB, 0xB6, 0x80, 0x20, 0xEC, 0x98, 0xA4, 0xEB, 0xA5,
            0x98, 0x20, 0x28, 0x6F, 0x70, 0x65, 0x6E, 0x28, 0x29, 0x20, 0x66, 0x61, 0x69, 0x6C, 0x65, 0x64, 0x3A,
            0x20, 0x25, 0x73, 0x29] [Arg_str (Some (ds_strerror sys))])], None, S))
        else case dcc_recv_loop (dp_size p) (ds_reads sys) (ds_writes sys) [] [] 0 0 of
          None \<Rightarrow> None
        | Some (file, acks, nread, ret, ntotal) \<Rightarrow>
            (let failed = (if nread > 0 \<and> ret < 0
                  then [(sender, Privmsgf [0xEB, 0x82, 0xB4, 0xEB, 0xB6, 0x80, 0x20, 0xEC, 0x98, 0xA4, 0xEB, 0xA5,
                    0x98, 0x20, 0x28, 0x77, 0x72, 0x69, 0x74, 0x65, 0x28, 0x29, 0x20, 0x66, 0x61, 0x69, 0x6C, 0x65,
                    0x64, 0x3A, 0x20, 0x25, 0x73, 0x29] [Arg_str (Some (ds_strerror sys))])] else []);
                 written = Some (dp_path p, file)
             in if nread = 0 then Some (Inr (failed @ [(sender, Privmsg (c_lit ''timed out''))], written, S))
                else if nread < 0 then
                  Some (Inr (failed @ [(sender, Privmsgf (c_lit ''%s'') [Arg_str (Some (until_nul (ds_last_error sys)))])], written, S))
                else if ret < 0 then Some (Inr (failed, written, S))
                else if ntotal \<noteq> dp_size p then
                  Some (Inr (failed @ [(sender, Privmsg ([0xEC, 0x98, 0xA4, 0xEB, 0xA5, 0x98, 0x3A, 0x20, 0xED,
                    0x8C, 0x8C, 0xEC, 0x9D, 0xBC, 0x20, 0xED, 0x81, 0xAC, 0xEA, 0xB8, 0xB0, 0xEA, 0xB0, 0x80, 0x20,
                    0xEC, 0x9D, 0xBC, 0xEC, 0xB9, 0x98, 0xED, 0x95, 0x98, 0xEC, 0xA7, 0x80, 0x20, 0xEC, 0x95, 0x8A,
                    0xEC, 0x8A, 0xB5, 0xEB, 0x8B, 0x88, 0xEB, 0x8B, 0xA4, 0x20,
                    0x28] @ int2string (uint ntotal) @ c_lit '' , '' @
                    int2string (uint (dp_size p)) @ c_lit '')''))], written, S))
                else (case dcc_announce E url p ntotal S of
                  Inl e \<Rightarrow> Some (Inl e)
                | Inr (out, S) \<Rightarrow> Some (Inr (failed @ out, written, S)))))"

section \<open>An offer\<close>

text \<open>\<open>basename\<close> of the C library: what follows the last slash.\<close>

definition base_name :: "byte list \<Rightarrow> byte list" where
  "base_name s = rev (takeWhile (\<lambda>c. c \<noteq> 0x2F) (rev (until_nul s)))"

definition name_not_allowed :: "byte list" where
  "name_not_allowed = [0xED, 0x8C, 0x8C, 0xEC, 0x9D, 0xBC, 0x20, 0xEC, 0x9D, 0xB4, 0xEB, 0xA6, 0x84, 0xEC, 0x97,
    0x90, 0x20, 0xED, 0x97, 0x88, 0xEC, 0x9A, 0xA9, 0xEB, 0x90, 0x98, 0xEC, 0xA7, 0x80, 0x20, 0xEC, 0x95, 0x8A,
    0xEB, 0x8A, 0x94, 0x20, 0xEB, 0xAC, 0xB8, 0xEC, 0x9E, 0x90, 0xEA, 0xB0, 0x80, 0x20, 0xED, 0x8F, 0xAC, 0xED,
    0x95, 0xA8, 0xEB, 0x90, 0x98, 0xEC, 0x96, 0xB4, 0x20, 0xEC, 0x9E, 0x88, 0xEC, 0x8A, 0xB5, 0xEB, 0x8B, 0x88,
    0xEB, 0x8B, 0xA4, 0x2E]"

text \<open>The parameter of the thread that is started, if one is.\<close>

definition dcc_get ::
  "(byte list \<Rightarrow> byte list) \<Rightarrow> irc_privmsg \<Rightarrow> byte list \<Rightarrow> byte list \<Rightarrow> int \<Rightarrow> u32 \<Rightarrow> 'f dcc_out \<times> dcc_param option" where
  "dcc_get cfg pm filename ip port fsize =
    (let sender = dcc_sender pm;
         upload_dir = cfg (c_lit ''mod_dcc.upload_dir'')
     in if upload_dir = [] then ([(sender, Privmsg not_configured)], None)
        else
          (let name = base_name filename
           in if 0x2F \<in> set name \<or> cstr_at name 0 = 0x2E \<or> cstr_at name 0 = 0
              then ([(sender, Privmsg name_not_allowed)], None)
              else ([], Some \<lparr>dp_pmsg = pm, dp_path = upload_dir @ name, dp_filename = name, dp_ip = ip, dp_port = port,
                       dp_size = fsize\<rparr>)))"

text \<open>\<open>inet_ntoa\<close> of \<open>ntohl(ip)\<close>.\<close>

definition dotted_quad :: "u32 \<Rightarrow> byte list" where
  "dotted_quad ip =
    (let part = (\<lambda>k. int2string (uint (drop_bit k ip AND 0xFF)))
     in part 24 @ [0x2E] @ part 16 @ [0x2E] @ part 8 @ [0x2E] @ part 0)"

definition dcc_get_ip ::
  "(byte list \<Rightarrow> byte list) \<Rightarrow> irc_privmsg \<Rightarrow> byte list \<Rightarrow> u32 \<Rightarrow> int \<Rightarrow> u32 \<Rightarrow> 'f dcc_out \<times> dcc_param option" where
  "dcc_get_ip cfg pm filename ip port fsize = dcc_get cfg pm filename (dotted_quad ip) port fsize"

definition re_dcc_quoted :: "byte list" where
  "re_dcc_quoted = [0x5E, 0x44, 0x43, 0x43, 0x20, 0x53, 0x45, 0x4E, 0x44, 0x20, 0x22, 0x28, 0x28, 0x3F, 0x3A, 0x5B,
    0x5E, 0x22, 0x5C, 0x5C, 0x5D, 0x2B, 0x2B, 0x7C, 0x5C, 0x2E, 0x29, 0x2B, 0x29, 0x22, 0x20, 0x28, 0x5B, 0x30,
    0x2D, 0x39, 0x5D, 0x2B, 0x29, 0x20, 0x28, 0x5B, 0x30, 0x2D, 0x39, 0x5D, 0x2B, 0x29, 0x20, 0x28, 0x5B, 0x30,
    0x2D, 0x39, 0x5D, 0x2B, 0x29]"

definition re_dcc_plain :: "byte list" where
  "re_dcc_plain = [0x5E, 0x44, 0x43, 0x43, 0x20, 0x53, 0x45, 0x4E, 0x44, 0x20, 0x28, 0x5B, 0x5E, 0x20, 0x5D, 0x2B,
    0x29, 0x20, 0x28, 0x5B, 0x30, 0x2D, 0x39, 0x5D, 0x2B, 0x29, 0x20, 0x28, 0x5B, 0x30, 0x2D, 0x39, 0x5D, 0x2B,
    0x29, 0x20, 0x28, 0x5B, 0x30, 0x2D, 0x39, 0x5D, 0x2B, 0x29]"

text \<open>\<open>FullMatch\<close> with a text, an \<open>unsigned int\<close>, an \<open>int\<close> and an \<open>unsigned int\<close>: a number that does not fit is no match.\<close>

definition match_offer :: "byte pcre \<Rightarrow> byte list \<Rightarrow> byte list \<Rightarrow> (byte list \<times> u32 \<times> int \<times> u32) option" where
  "match_offer R re msg =
    (case re_full R re msg of
       Some [filename, ip, port, fsize] \<Rightarrow>
         if digits_val ip < 2 ^ 32 \<and> digits_val port < 2 ^ 31 \<and> digits_val fsize < 2 ^ 32
         then Some (filename, word_of_int (digits_val ip), digits_val port, word_of_int (digits_val fsize)) else None
     | _ \<Rightarrow> None)"

definition dcc_event_handler ::
  "byte pcre \<Rightarrow> (byte list \<Rightarrow> byte list) \<Rightarrow> ircevent \<Rightarrow> int \<times> 'f dcc_out \<times> dcc_param option" where
  "dcc_event_handler R cfg ev =
    (case ev of
       Ircevent_privmsg pm \<Rightarrow>
         (let chan = mi_chan (pm_msginfo pm); msg = pm_msg pm
          in if mi_msgtype (pm_msginfo pm) \<noteq> IRC_MSGTYPE_CTCP then (HANDLER_GO_ON, [], None)
             else if cstr_at chan 0 = 0x23 \<or> cstr_at chan 0 = 0x26 then (HANDLER_GO_ON, [], None)
             else case match_offer R re_dcc_quoted msg of
               Some (filename, ip, port, fsize) \<Rightarrow> (HANDLER_FINISHED, dcc_get_ip cfg pm filename ip port fsize)
             | None \<Rightarrow>
                 case match_offer R re_dcc_plain msg of
                   Some (filename, ip, port, fsize) \<Rightarrow> (HANDLER_FINISHED, dcc_get_ip cfg pm filename ip port fsize)
                 | None \<Rightarrow> (HANDLER_GO_ON, [], None))
     | _ \<Rightarrow> (HANDLER_GO_ON, [], None))"

definition cmd_cb_dcc_config ::
  "byte list \<Rightarrow> byte list \<Rightarrow> (byte list, byte list) smap \<Rightarrow> (int \<times> 'f reply list) \<times> (byte list, byte list) smap" where
  "cmd_cb_dcc_config nick carg bc =
    ((HANDLER_FINISHED, [Privmsg ([0x44, 0x43, 0x43, 0x20, 0xEC, 0x97, 0x85, 0xEB, 0xA1, 0x9C, 0xEB, 0x93, 0x9C,
      0x20, 0xED, 0x9B, 0x84, 0x20] @ carg @ [0x20, 0xEC, 0xB1, 0x84, 0xEB, 0x84, 0x90, 0xEC, 0x97, 0x90, 0x20,
      0xEC, 0x95, 0x8C, 0xEB, 0xA6, 0xBD, 0xEB, 0x8B, 0x88, 0xEB, 0x8B, 0xA4, 0x2E])]),
      smap_set irc_string_less nick carg bc)"

definition dcc_cmds :: "byte list list" where
  "dcc_cmds = [c_lit ''DCCchan'']"

definition mod_dcc_init :: "handler_sort \<Rightarrow> nat \<Rightarrow> nat \<Rightarrow> 'w ircbot \<Rightarrow> int \<times> 'w ircbot" where
  "mod_dcc_init srt handler cb b =
    (let b = snd (register_event_handler srt (Some handler) IRC_PRIORITY_NORMAL 0 b) in (0, register_cmds cb dcc_cmds b))"

definition mod_dcc_cleanup :: "handler_sort \<Rightarrow> nat \<Rightarrow> 'w ircbot \<Rightarrow> int \<times> 'w ircbot" where
  "mod_dcc_cleanup srt handler b =
    (let b = snd (unregister_event_handler srt (Some handler) b) in (0, unregister_cmds dcc_cmds b))"

section \<open>Where files are written\<close>

lemma base_name_plain: "0x2F \<notin> set (base_name s)" "0 \<notin> set (base_name s)"
proof -
  show "0x2F \<notin> set (base_name s)" by (auto simp: base_name_def dest: set_takeWhileD)
  have "set (base_name s) \<subseteq> set (until_nul s)" by (auto simp: base_name_def dest: set_takeWhileD)
  then show "0 \<notin> set (base_name s)" by (auto simp: until_nul_def dest: set_takeWhileD)
qed

lemma dcc_get_path:
  "dcc_get cfg pm filename ip port fsize = (out, Some p) \<Longrightarrow>
    dp_path p = cfg (c_lit ''mod_dcc.upload_dir'') @ dp_filename p \<and> dp_filename p = base_name filename \<and>
    dp_filename p \<noteq> [] \<and> hd (dp_filename p) \<noteq> 0x2E \<and> dp_pmsg p = pm"
  by (cases "base_name filename") (auto simp: dcc_get_def Let_def split: if_splits)

lemma dcc_get_real_path:
  assumes "dcc_get_real E cfg sys p S = Some (Inr (out, Some (path, file), S'))"
  shows "path = dp_path p \<and> 80 < dp_port p \<and> dp_port p \<le> 65535 \<and> 0 < dp_size p \<and> ds_connect sys \<ge> 0"
proof -
  note if_weak_cong [cong del]
  have "dp_size p \<noteq> 0" "\<not> (dp_port p \<le> 80 \<or> dp_port p > 65535)" "\<not> ds_connect sys < 0" "\<not> ds_open sys < 0"
    using assms by (auto simp: dcc_get_real_def Let_def split: if_splits)
  moreover have "path = dp_path p"
    using assms by (auto simp: dcc_get_real_def Let_def split: if_splits option.splits sum.splits prod.splits)
  ultimately show ?thesis by (auto simp: word_neq_0_conv)
qed


definition offer_text :: "byte list" where
  "offer_text = c_lit ''DCC SEND ../../etc/x 1 1024 4''"

definition offer_pcre :: "byte pcre" where
  "offer_pcre = \<lparr>re_full = \<lambda>p s. if p = re_dcc_plain \<and> s = offer_text then Some [c_lit ''../../etc/x'', c_lit ''1'', c_lit ''1024'', c_lit ''4'']
       else None, re_partial = \<lambda>_ _. None, re_global_replace = \<lambda>_ _ s. s\<rparr>"

definition offer_msg :: irc_privmsg where
  "offer_msg = \<lparr>pm_ident = \<lparr>ii_ident = [], ii_nick = c_lit ''n'', ii_user = [], ii_host = []\<rparr>,
     pm_msginfo = irc_msginfo_new (c_lit ''n'') IRC_MSGTYPE_CTCP IRC_CHANTYPE_QUERY False, pm_msg = offer_text\<rparr>"

definition offer_param :: dcc_param where
  "offer_param = \<lparr>dp_pmsg = offer_msg, dp_path = c_lit ''up/x'', dp_filename = c_lit ''x'', dp_ip = dotted_quad 1, dp_port = 1024,
     dp_size = 4\<rparr>"

definition offer_sys :: dcc_sys where
  "offer_sys = \<lparr>ds_connect = 0, ds_open = 3, ds_reads = [(2, [1, 2]), (0, [])], ds_writes = [2], ds_last_error = [], ds_strerror = []\<rparr>"

lemma patterns_differ: "re_dcc_quoted \<noteq> re_dcc_plain"
  by (simp add: re_dcc_quoted_def re_dcc_plain_def)

lemma offer_starts:
  "dcc_event_handler offer_pcre (\<lambda>_. c_lit ''up/'') (Ircevent_privmsg offer_msg) = (HANDLER_FINISHED, [], Some offer_param)"
proof -
  have "match_offer offer_pcre re_dcc_quoted offer_text = None"
    by (simp add: match_offer_def offer_pcre_def patterns_differ)
  moreover have "match_offer offer_pcre re_dcc_plain offer_text = Some (c_lit ''../../etc/x'', 1, 1024, 4)"
    by (simp add: match_offer_def offer_pcre_def digits_val_def c_lit_def)
  ultimately show ?thesis
    by (simp add: dcc_event_handler_def offer_msg_def irc_msginfo_new_def dcc_get_ip_def dcc_get_def base_name_def offer_param_def)
       (simp add: c_lit_def until_nul_def Let_def dcc_get_ip_def dcc_get_def base_name_def)
qed

lemma offer_runs:
  "dcc_get_real E (\<lambda>_. c_lit ''up/'') offer_sys offer_param S =
    Some (Inr ([(dcc_sender offer_msg, Privmsg (c_lit ''timed out''))], Some (c_lit ''up/x'', [1, 2]), S))"
  by (simp add: dcc_get_real_def offer_param_def offer_sys_def Let_def) (simp add: c_lit_def)


section \<open>What is written\<close>

text \<open>When each block is written completely, the file is a beginning of what was received and \<open>ntotal\<close> is its length,
  so an upload that is announced as finished has the size of the offer.\<close>

lemma dcc_recv_complete:
  "list_all (\<lambda>(n, b). n = int (length b)) rs \<Longrightarrow> ntotal = of_nat (length dst) \<Longrightarrow>
    dcc_recv_loop fsize rs (map fst rs) dst acks ret ntotal = Some (dst', acks', nread, ret', ntotal') \<Longrightarrow>
    ntotal' = of_nat (length dst') \<and> (\<exists>k. dst' = dst @ concat (map snd (take k rs)))"
proof (induction rs arbitrary: dst acks ret ntotal)
  case (Cons r rs dst acks ret ntotal)
  obtain n b where r: "r = (n, b)" "n = int (length b)" using Cons.prems(1) by (cases r) auto
  show ?case
  proof (cases "n \<le> 0 \<or> ntotal + word_of_int n \<ge> fsize")
    case True
    then have "dst' = dst @ concat (map snd (take (if n \<le> 0 then 0 else 1) (r # rs))) \<and> ntotal' = of_nat (length dst')"
      using Cons.prems r by (auto simp: Let_def split: if_splits)
    then show ?thesis by blast
  next
    case False
    then have "ntotal' = of_nat (length dst') \<and> (\<exists>k. dst' = (dst @ b) @ concat (map snd (take k rs)))"
      using Cons.prems r by (intro Cons.IH [where ntotal = "ntotal + word_of_int n"]) (auto simp: Let_def)
    then obtain k where "ntotal' = of_nat (length dst')" "dst' = dst @ concat (map snd (take (Suc k) (r # rs)))" using r by auto
    then show ?thesis by blast
  qed
qed simp

text \<open>A write that stores less than it was given goes unnoticed.\<close>

lemma dcc_short_write: "dcc_recv_loop 3 [(3, [7, 8, 9])] [1] [] [] 0 0 = Some ([7], dcc_ack 3, 3, 1, 3)"
  by simp

text \<open>A user who is in no channel of the bot is announced to a channel without a name.\<close>

lemma broadcast_nowhere:
  "ir_chans st = [] \<Longrightarrow> broadcast_to_joined_channels E nick msg (- 1) st = (0, [(chan_msginfo [], Privmsg msg)], st)"
  by (simp add: broadcast_to_joined_channels_def)

end
