(* ===== verification/Chanmods.thy ===== *)
theory Chanmods
  imports Botmod Ircevent Irc
begin

text \<open>
  Two small modules that look at the lists of users of a channel: \<open>modules/mod_basic.cpp\<close> (the bot leaves a channel, lists
  its users) and \<open>modules/mod_query_redir.cpp\<close> (answers to commands go to the user instead of the channel). The session
  is the record \<open>irc\<close>; a list is looked up with \<open>chan_users[chan]\<close>, which makes an entry.
\<close>

section \<open>The users of a channel\<close>

definition get_chanuserlist :: "byte list \<Rightarrow> irc \<Rightarrow> chanusers \<times> irc" where
  "get_chanuserlist chan st = (let st = touch_chan chan st in (users_of chan st, st))"

text \<open>What a command of \<open>mod_basic\<close> asks of the connection.\<close>

datatype 'f basic_out = Reply "'f reply" | Leave_channel "byte list" "byte list"

definition has_op :: "irc_user \<Rightarrow> bool" where
  "has_op u \<longleftrightarrow> 0x40 \<in> set (until_nul (iu_chanmode u))"

text \<open>The loop that decides who may send the bot away; the arguments are \<open>oper_exists\<close> and \<open>allowed\<close>.\<close>

fun leave_loop :: "byte list \<Rightarrow> chanusers \<Rightarrow> bool \<Rightarrow> bool \<Rightarrow> bool" where
  "leave_loop nick [] oper_exists allowed = allowed"
| "leave_loop nick ((_, u) # us) oper_exists allowed =
    (let (oper_exists, allowed) = (if \<not> oper_exists \<and> has_op u then (True, False) else (oper_exists, allowed))
     in if oper_exists \<and> has_op u \<and> ii_nick u = nick then True
        else leave_loop nick us oper_exists allowed)"

definition stays_in :: "byte list list" where
  "stays_in = [c_lit ''#.'', c_lit ''#/'', [0x23, 0x5C], c_lit ''#SIGSEGV'', c_lit ''#Only'']"

definition basic_leave ::
  "byte list \<Rightarrow> byte list \<Rightarrow> byte list \<Rightarrow> byte list \<Rightarrow> irc \<Rightarrow> 'f basic_out list \<times> irc" where
  "basic_leave chan nick cmd carg st =
    (if chan \<in> set stays_in then ([Reply (Privmsg [0xEC, 0x8B, 0x9C, 0xEC, 0xA0, 0xB8, 0xEC, 0x8B, 0x9C, 0xEC,
      0xA0, 0xB8, 0x20, 0x27, 0xE3, 0x85, 0x85, 0x27])], st)
     else
       (let (names, st) = get_chanuserlist chan st
        in if \<not> leave_loop nick names False True then
             ([Reply (Privmsg [0xEC, 0x98, 0xB5, 0xEC, 0x9D, 0xB4, 0x20, 0xEC, 0x9E, 0x88, 0xEB, 0x8A, 0x94, 0x20,
               0xEC, 0xB1, 0x84, 0xEB, 0x84, 0x90, 0xEC, 0x97, 0x90, 0xEC, 0x84, 0x9C, 0xEB, 0x8A, 0x94, 0x20, 0xEC,
               0x98, 0xB5, 0xEC, 0x9D, 0x84, 0x20, 0xEA, 0xB0, 0x80, 0xEC, 0xA7, 0x84, 0x20, 0xEC, 0x82, 0xAC, 0xEB,
               0x9E, 0x8C, 0xEB, 0xA7, 0x8C, 0x20, 0xEB, 0xB4, 0x87, 0xEC, 0x9D, 0x84, 0x20, 0xED, 0x87, 0xB4, 0xEC,
               0x9E, 0xA5, 0xEC, 0x8B, 0x9C, 0xED, 0x82, 0xAC, 0x20, 0xEC, 0x88, 0x98, 0x20, 0xEC, 0x9E, 0x88, 0xEC,
               0x8A, 0xB5, 0xEB, 0x8B, 0x88, 0xEB, 0x8B, 0xA4, 0x2E])], st)
           else if carg = [] then ([Reply (Privmsg (c_lit '' !'' @ cmd @ [0x20, 0xE3, 0x85, 0x87, 0x20, 0x20, 0x3C,
             0x2D, 0x20, 0xEC, 0x9D, 0x84, 0x28, 0xEB, 0xA5, 0xBC, 0x29, 0x20, 0xEC, 0x9E, 0x85, 0xEB, 0xA0, 0xA5,
             0xED, 0x95, 0x98, 0xEB, 0xA9, 0xB4, 0x20, 0xEB, 0x82, 0x98, 0xEA, 0xB0, 0x91, 0xEB, 0x8B, 0x88, 0xEB,
             0x8B, 0xA4, 0x2E]))], st)
           else ([Leave_channel chan (c_lit ''Leaving [by '' @ nick @ c_lit '']'')], st)))"

text \<open>Ten names to a message: the messages sent in the loop, and what is left over.\<close>

fun list_loop :: "nat \<Rightarrow> chanusers \<Rightarrow> byte list \<Rightarrow> 'f basic_out list \<times> byte list \<times> nat" where
  "list_loop i [] tmp = ([], tmp, i)"
| "list_loop i ((_, u) # us) tmp =
    (let tmp = tmp @ ii_nick u @ c_lit '', ''
     in if i mod 10 = 0 then (let (out, rest) = list_loop (i + 1) us [] in (Reply (Privmsg tmp) # out, rest))
        else list_loop (i + 1) us tmp)"

definition basic_users :: "byte list \<Rightarrow> irc \<Rightarrow> 'f basic_out list \<times> irc" where
  "basic_users chan st =
    (let (names, st) = get_chanuserlist chan st;
         (out, tmp, i) = list_loop 1 names []
     in (out @ [Reply (Privmsg_nh tmp), Reply (Privmsgf [0xEC, 0xB4, 0x9D, 0x20, 0x25, 0x64, 0xEB, 0xAA,
       0x85] [Arg_int (word_of_int (int i - 1))])], st))"

text \<open>\<open>std::string::size\<close> is passed to a conversion for \<open>int\<close>.\<close>

definition basic_count :: "byte list \<Rightarrow> irc \<Rightarrow> 'f basic_out list \<times> irc" where
  "basic_count chan st =
    (let (names, st) = get_chanuserlist chan st
     in ([Reply (Privmsgf [0x25, 0x64, 0xEB, 0xAA, 0x85] [Arg_long (of_nat (length names))])], st))"

text \<open>\<open>si\<close> is the uptime of \<open>sysinfo\<close> in seconds.\<close>

definition basic_uptime :: "int \<Rightarrow> 'f basic_out list" where
  "basic_uptime si =
    [Reply (Privmsgf [0xEC, 0x97, 0x85, 0xED, 0x83, 0x80, 0xEC, 0x9E, 0x84, 0x3A, 0x20, 0x25, 0x64, 0xEC, 0x9D,
      0xBC, 0x20, 0x25, 0x64, 0xEC, 0x8B, 0x9C, 0xEA, 0xB0, 0x84, 0x20, 0x25, 0x64, 0xEB, 0xB6, 0x84, 0x20, 0x25,
      0x64, 0xEC, 0xB4, 0x88]
      (map (\<lambda>n. Arg_int (word_of_int n)) [si div (60 * 60 * 24), si div (60 * 60) mod 24, si div 60 mod 60, si mod 60]))]"

definition basic_ipsn :: "byte list \<Rightarrow> byte list \<Rightarrow> irc \<Rightarrow> 'f basic_out list \<times> irc" where
  "basic_ipsn chan carg st =
    (if carg = [] then
       ([Reply (Privmsg [0xED, 0x98, 0x84, 0xEC, 0x9E, 0xAC, 0x20, 0xEC, 0xB1, 0x84, 0xEB, 0x84, 0x90, 0xEC, 0x97,
         0x90, 0xEC, 0x84, 0x9C, 0x20, 0xEC, 0xA7, 0x80, 0xEC, 0xA0, 0x95, 0xED, 0x95, 0x9C, 0x20, 0x49, 0x50, 0xEB,
         0xA5, 0xBC, 0x20, 0xEC, 0x82, 0xAC, 0xEC, 0x9A, 0xA9, 0xED, 0x95, 0x98, 0xEA, 0xB3, 0xA0, 0x20, 0xEC, 0x9E,
         0x88, 0xEB, 0x8A, 0x94, 0x20, 0xEC, 0x82, 0xAC, 0xEB, 0x9E, 0x8C, 0xEC, 0x9D, 0x84, 0x20, 0xEA, 0xB2, 0x80,
         0xEC, 0x83, 0x89, 0xED, 0x95, 0xA9, 0xEB, 0x8B, 0x88, 0xEB, 0x8B, 0xA4, 0x2E, 0x20, 0xEC, 0x82, 0xAC, 0xEC,
         0x9A, 0xA9, 0xEB, 0xB2, 0x95, 0x3A, 0x20, 0x21, 0x69, 0x70, 0x73, 0x6E, 0x20, 0x3C, 0x49, 0x50, 0x3E])], st)
     else
       (let (names, st) = get_chanuserlist chan st;
            tmp = concat (map (\<lambda>(_, u). if ii_host u = carg then ii_nick u @ [0x20] else []) names)
        in ([Reply (Privmsg_nh (if tmp = [] then [0xEC, 0xB0, 0xBE, 0xEC, 0xA7, 0x80, 0x20, 0xEB, 0xAA, 0xBB, 0xED,
          0x96, 0x88, 0xEC, 0x8A, 0xB5, 0xEB, 0x8B, 0x88, 0xEB, 0x8B, 0xA4, 0x2E] else tmp))], st)))"

text \<open>\<open>cmd_nc\<close> compares without case.\<close>

definition cmd_cb_basic ::
  "int \<Rightarrow> irc_privmsg \<Rightarrow> byte list \<Rightarrow> byte list \<Rightarrow> irc \<Rightarrow> (int \<times> 'f basic_out list) \<times> irc" where
  "cmd_cb_basic si pm cmd carg st =
    (let chan = mi_chan (pm_msginfo pm); nick = ii_nick (pm_ident pm); is = same_cmd cmd;
         (out, st) =
           (if is [0xEB, 0xB4, 0x87, 0xEB, 0x82, 0x98, 0xEA, 0xB0, 0x80] \<or> is [0xEB, 0x83, 0x90, 0xEC, 0x98,
             0xB9, 0xEC, 0x9D, 0xB4, 0xEB, 0x82, 0x98, 0xEA, 0xB0, 0x80] then basic_leave chan nick cmd carg st
            else if is [0xEC, 0x82, 0xAC, 0xEC, 0x9A, 0xA9, 0xEC, 0x9E, 0x90, 0xEB, 0xAA, 0xA9, 0xEB, 0xA1,
              0x9D] then basic_users chan st
            else if is [0xEC, 0x9D, 0xB8, 0xEC, 0x9B, 0x90, 0xEC, 0x88, 0x98] then basic_count chan st
            else if is [0xEC, 0xBB, 0xB4, 0xEC, 0x97, 0x85, 0xED, 0x83, 0x80, 0xEC, 0x9E,
              0x84] then (basic_uptime si, st)
            else if is (c_lit ''ipsn'') then basic_ipsn chan carg st
            else ([], st))
     in ((HANDLER_FINISHED, out), st))"

definition cmdlist_basic :: "byte list list" where
  "cmdlist_basic = [[0xEB, 0xB4, 0x87, 0xEB, 0x82, 0x98, 0xEA, 0xB0, 0x80], [0xEB, 0x83, 0x90, 0xEC, 0x98, 0xB9,
    0xEC, 0x9D, 0xB4, 0xEB, 0x82, 0x98, 0xEA, 0xB0, 0x80], [0xEC, 0x82, 0xAC, 0xEC, 0x9A, 0xA9, 0xEC, 0x9E, 0x90,
    0xEB, 0xAA, 0xA9, 0xEB, 0xA1, 0x9D], [0xEC, 0x9D, 0xB8, 0xEC, 0x9B, 0x90, 0xEC, 0x88, 0x98], [0xEC, 0xBB, 0xB4,
    0xEC, 0x97, 0x85, 0xED, 0x83, 0x80, 0xEC, 0x9E, 0x84], [0x69, 0x70, 0x73, 0x6E]]"

definition mod_basic_init :: "nat \<Rightarrow> 'w ircbot \<Rightarrow> int \<times> 'w ircbot" where
  "mod_basic_init cb b = (0, register_cmds cb cmdlist_basic b)"

definition mod_basic_cleanup :: "'w ircbot \<Rightarrow> int \<times> 'w ircbot" where
  "mod_basic_cleanup b = (0, unregister_cmds cmdlist_basic b)"

section \<open>Answers to the user\<close>

text \<open>\<open>g_query_redir_chans\<close> is an ordinary \<open>std::map\<close> of strings.\<close>

type_synonym redir_chans = "(byte list, bool) smap"

definition to_user :: "irc_privmsg \<Rightarrow> irc_msginfo \<Rightarrow> irc_msginfo" where
  "to_user pm mdest = mdest\<lparr>mi_chan := ii_nick (pm_ident pm), mi_msgtype := IRC_MSGTYPE_NOTICE\<rparr>"

definition toggle_cmd :: "byte list" where
  "toggle_cmd = [0xEC, 0xBF, 0xBC, 0xEB, 0xA6, 0xAC, 0xEC, 0xB6, 0x9C, 0xEB, 0xA0, 0xA5]"

definition irc_event_handler_qry_redir :: "redir_chans \<Rightarrow> ircevent \<Rightarrow> int \<times> ircevent" where
  "irc_event_handler_qry_redir qr ev =
    (case ev of
       Botevent_command pm mdest trigger cmd carg \<Rightarrow>
         if trigger = [0x60] \<or> trigger = [0x27] then (HANDLER_GO_ON,
           Botevent_command pm (to_user pm mdest) trigger cmd carg)
         else if smap_find string_less (mi_chan (pm_msginfo pm)) qr = Some True \<and>
             mi_chantype (pm_msginfo pm) = IRC_CHANTYPE_CHAN \<and> cmd \<noteq> toggle_cmd
         then (HANDLER_GO_ON, Botevent_command pm (to_user pm mdest) trigger cmd carg)
         else (HANDLER_GO_ON, ev)
     | _ \<Rightarrow> (HANDLER_GO_ON, ev))"

definition cmd_query_redir_chan ::
  "irc_privmsg \<Rightarrow> redir_chans \<times> irc \<Rightarrow> (int \<times> 'f reply list) \<times> redir_chans \<times> irc" where
  "cmd_query_redir_chan pm S =
    (let (qr, st) = S; chan = mi_chan (pm_msginfo pm); nick = ii_nick (pm_ident pm)
     in if mi_chantype (pm_msginfo pm) \<noteq> IRC_CHANTYPE_CHAN then ((0, [Privmsg_nh [0xEC, 0xB1, 0x84, 0xEB,
       0x84, 0x90, 0xEC, 0x9D, 0xB4, 0x20, 0xEC, 0x95, 0x84, 0xEB, 0x8B, 0x99, 0xEB, 0x8B, 0x88, 0xEB, 0x8B, 0xA4,
       0x2E]]), qr, st)
        else
          (let (names, st) = get_chanuserlist chan st
           in case smap_find irc_string_less nick names of
                None \<Rightarrow> ((0, [Privmsg_nh [0xED, 0x95, 0xB4, 0xEB, 0x8B, 0xB9, 0x20, 0xEC, 0xB1, 0x84,
                  0xEB, 0x84, 0x90, 0xEC, 0x97, 0x90, 0x20, 0xEC, 0xA1, 0xB4, 0xEC, 0x9E, 0xAC, 0xED, 0x95, 0x98,
                  0xEC, 0xA7, 0x80, 0x20, 0xEC, 0x95, 0x8A, 0xEB, 0x8A, 0x94, 0x20, 0xEC, 0x82, 0xAC, 0xEC, 0x9A,
                  0xA9, 0xEC, 0x9E, 0x90, 0xEC, 0x9E, 0x85, 0xEB, 0x8B, 0x88, 0xEB, 0x8B, 0xA4, 0x2E]]), qr, st)
              | Some u \<Rightarrow>
                  if iu_chanmode u = [] \<or> iu_chanmode u = [0x2B] then ((0, [Privmsg_nh [0xEA, 0xB6, 0x8C, 0xED,
                    0x95, 0x9C, 0xEC, 0x9D, 0xB4, 0x20, 0xEC, 0x97, 0x86, 0xEC, 0x8A, 0xB5, 0xEB, 0x8B, 0x88, 0xEB,
                    0x8B, 0xA4, 0x2E]]), qr, st)
                  else if smap_find string_less chan qr = Some True then
                    ((0, [Privmsg_nh [0xEB, 0xAA, 0x85, 0xEB, 0xA0, 0xB9, 0xEC, 0x96, 0xB4, 0xEB, 0xA5, 0xBC, 0x20,
                      0xEC, 0xB1, 0x84, 0xEB, 0x84, 0x90, 0xEB, 0xA1, 0x9C, 0x20, 0xEC, 0xB6, 0x9C, 0xEB, 0xA0,
                      0xA5, 0xED, 0x95, 0xA9, 0xEB, 0x8B, 0x88, 0xEB, 0x8B, 0xA4, 0x2E]]),
                      smap_set string_less chan False qr, st)
                  else ((0, [Privmsg_nh [0xEB, 0xAA, 0x85, 0xEB, 0xA0, 0xB9, 0xEC, 0x96, 0xB4, 0xEB, 0xA5, 0xBC,
                    0x20, 0xEC, 0xBF, 0xBC, 0xEB, 0xA6, 0xAC, 0xEB, 0xA1, 0x9C, 0x20, 0xEC, 0xB6, 0x9C, 0xEB, 0xA0,
                    0xA5, 0xED, 0x95, 0xA9, 0xEB, 0x8B, 0x88, 0xEB, 0x8B, 0xA4, 0x2E]]),
                    smap_set string_less chan True qr, st)))"

definition mod_query_redir_init :: "handler_sort \<Rightarrow> nat \<Rightarrow> nat \<Rightarrow> 'w ircbot \<Rightarrow> int \<times> 'w ircbot" where
  "mod_query_redir_init srt handler cb b =
    (let b = snd (register_event_handler srt (Some handler) IRC_PRIORITY_MIN 0 b) in (0, register_cmds cb [toggle_cmd] b))"

definition mod_query_redir_cleanup :: "handler_sort \<Rightarrow> nat \<Rightarrow> 'w ircbot \<Rightarrow> int \<times> 'w ircbot" where
  "mod_query_redir_cleanup srt handler b =
    (let b = snd (unregister_event_handler srt (Some handler) b) in (0, unregister_cmds [toggle_cmd] b))"

section \<open>Who may send the bot away\<close>

lemma leave_loop_ops:
  "leave_loop nick us oper allowed \<longleftrightarrow>
    (\<exists>(_, u) \<in> set us. has_op u \<and> ii_nick u = nick) \<or>
    allowed \<and> (oper \<or> (\<forall>(_, u) \<in> set us. \<not> has_op u))"
  by (induction nick us oper allowed rule: leave_loop.induct) (auto simp: Let_def)

text \<open>The bot leaves a channel on request exactly when the request has a reason, the channel is none of those it stays
  in, and the user is an operator of the channel or the channel has none.\<close>

lemma basic_leave_permission:
  "Leave_channel chan msg \<in> set (fst (basic_leave chan nick cmd carg st)) \<longleftrightarrow>
    chan \<notin> set stays_in \<and> carg \<noteq> [] \<and> msg = c_lit ''Leaving [by '' @ nick @ c_lit '']'' \<and>
    ((\<forall>(_, u) \<in> set (users_of chan (touch_chan chan st)). \<not> has_op u) \<or>
     (\<exists>(_, u) \<in> set (users_of chan (touch_chan chan st)). has_op u \<and> ii_nick u = nick))"
  by (auto simp: basic_leave_def get_chanuserlist_def Let_def leave_loop_ops)

text \<open>The names of a channel are all listed, in order.\<close>

lemma list_loop_names:
  "list_loop i us tmp = (out, rest, n) \<Longrightarrow>
    n = i + length us \<and>
    concat (map (\<lambda>x. case x of Reply (Privmsg m) \<Rightarrow> m | _ \<Rightarrow> []) out) @ rest =
      tmp @ concat (map (\<lambda>(_, u). ii_nick u @ c_lit '', '') us)"
proof (induction us arbitrary: i tmp out rest n)
  case (Cons p us)
  obtain k u where p: "p = (k, u)" by (cases p)
  show ?case
  proof (cases "i mod 10 = 0")
    case True
    then obtain out1 where "list_loop (i + 1) us [] = (out1, rest, n)" "out = Reply (Privmsg (tmp @ ii_nick u @ c_lit '', '')) # out1"
      using Cons.prems p by (auto simp: Let_def split: prod.splits)
    then show ?thesis using Cons.IH [of "i + 1" "[]" out1 rest n] p by simp
  next
    case False
    then show ?thesis using Cons.IH [of "i + 1" "tmp @ ii_nick u @ c_lit '', ''" out rest n] Cons.prems p by (simp add: Let_def)
  qed
qed simp

text \<open>With the redirection on, the answer to any command but the toggle itself goes to the user as a notice.\<close>

lemma redirected:
  "smap_ok string_less qr \<Longrightarrow> mi_chantype (pm_msginfo pm) = IRC_CHANTYPE_CHAN \<Longrightarrow> trigger \<notin> {[0x60], [0x27]} \<Longrightarrow>
    irc_event_handler_qry_redir (smap_set string_less (mi_chan (pm_msginfo pm)) on qr) (Botevent_command pm mdest trigger cmd carg) =
      (HANDLER_GO_ON, Botevent_command pm (if on \<and> cmd \<noteq> toggle_cmd then to_user pm mdest else mdest) trigger cmd carg)"
  by (simp add: irc_event_handler_qry_redir_def std_find_set)

text \<open>The map of channels tells upper from lower case apart, which IRC does not: the redirection of \<open>#A\<close> is off when a
  message names the channel \<open>#a\<close>.\<close>

lemma redirection_by_spelling:
  "smap_find string_less (c_lit ''#a'') (smap_set string_less (c_lit ''#A'') True []) = None"
  "irc_strcasecmp (c_lit ''#a'') (c_lit ''#A'') = 0"
  by (simp_all add: irc_cmp_zero) (simp_all add: c_lit_def irc_strlower_eq until_nul_def irc_tolower_fold irc_fold_def)

end
