(* ===== verification/Module.thy ===== *)
theory Module
  imports Strmap
begin

text \<open>
  The module loader of \<open>module.cpp\<close> and \<open>module.h\<close>. The dynamic linker and the code of the modules are a parameter;
  what the loader has asked of them is a log. A library handle and the address of a symbol are numbers, the
  handle 0 is the null pointer and \<open>RTLD_DEFAULT\<close>, the program itself.
\<close>

subsection \<open>The dynamic linker\<close>

datatype dl_event = Dl_open nat | Dl_close nat | Dl_call nat nat

type_synonym dl_log = "dl_event list"

text \<open>\<open>dl_ret f arg log\<close> is what the function at \<open>f\<close> returns when it is called after \<open>log\<close>; \<open>dl_str\<close> is the string at
  an address.\<close>

record dl_sys =
  dl_open :: "dl_log \<Rightarrow> byte list \<Rightarrow> nat option"
  dl_sym :: "nat \<Rightarrow> byte list \<Rightarrow> nat option"
  dl_str :: "nat \<Rightarrow> byte list"
  dl_ret :: "nat \<Rightarrow> nat \<Rightarrow> dl_log \<Rightarrow> int"

definition RTLD_DEFAULT :: nat where "RTLD_DEFAULT = 0"

definition MODULE_NAME_SYM :: "byte list" where "MODULE_NAME_SYM = c_lit ''_module_name''"
definition MODULE_INIT_FXN :: "byte list" where "MODULE_INIT_FXN = c_lit ''_module_init''"
definition MODULE_CLEANUP_FXN :: "byte list" where "MODULE_CLEANUP_FXN = c_lit ''_module_cleanup''"

text \<open>The symbols that \<open>MODULE_INFO\<close> defines for a module that is linked into the program.\<close>

definition static_sym :: "byte list \<Rightarrow> byte list \<Rightarrow> byte list" where
  "static_sym name what = until_nul (c_lit ''_module_'' @ name @ what)"

subsection \<open>Class \<open>module\<close>\<close>

datatype mod_type = MODTYPE_SHARED | MODTYPE_STATIC
datatype mod_status = MODSTATUS_UNLOADED | MODSTATUS_LOADED

record module =
  mo_handle :: nat
  mo_type :: mod_type
  mo_status :: mod_status
  mo_name :: "byte list"
  mo_module_arg :: nat

text \<open>The constructor leaves \<open>module_arg\<close> as the memory was.\<close>

definition module_new :: "nat \<Rightarrow> module" where
  "module_new junk =
    \<lparr>mo_handle = 0, mo_type = MODTYPE_SHARED, mo_status = MODSTATUS_UNLOADED, mo_name = [], mo_module_arg = junk\<rparr>"

definition module_isloaded :: "module \<Rightarrow> bool" where
  "module_isloaded m \<longleftrightarrow> mo_status m = MODSTATUS_LOADED"

text \<open>The call of the initialisation function, if there is one: false when it fails.\<close>

definition call_init :: "dl_sys \<Rightarrow> nat option \<Rightarrow> nat \<Rightarrow> dl_log \<Rightarrow> bool \<times> dl_log" where
  "call_init D init_fxn arg log =
    (case init_fxn of
       None \<Rightarrow> (True, log)
     | Some f \<Rightarrow> (\<not> dl_ret D f arg log < 0, log @ [Dl_call f arg]))"

definition module_load_module :: "dl_sys \<Rightarrow> byte list \<Rightarrow> nat \<Rightarrow> module \<times> dl_log \<Rightarrow> int \<times> module \<times> dl_log" where
  "module_load_module D path arg = (\<lambda>(m, log).
    if mo_status m = MODSTATUS_LOADED then (- 1, m, log)
    else
      (case dl_open D log (until_nul path) of
         None \<Rightarrow> (- 1, m, log)
       | Some handle \<Rightarrow>
           (let log = log @ [Dl_open handle]
            in case dl_sym D handle MODULE_NAME_SYM of
                 None \<Rightarrow> (- 1, m, log @ [Dl_close handle])
               | Some name \<Rightarrow>
                   (let m = m\<lparr>mo_module_arg := arg\<rparr>;
                        (ok, log) = call_init D (dl_sym D handle MODULE_INIT_FXN) arg log
                    in if \<not> ok then (- 1, m, log @ [Dl_close handle])
                       else
                         (0, m\<lparr>mo_name := until_nul (dl_str D name), mo_handle := handle, mo_type := MODTYPE_SHARED,
                            mo_status := MODSTATUS_LOADED\<rparr>, log)))))"

definition module_load_static_module :: "dl_sys \<Rightarrow> byte list \<Rightarrow> nat \<Rightarrow> module \<times> dl_log \<Rightarrow> int \<times> module \<times> dl_log" where
  "module_load_static_module D name arg = (\<lambda>(m, log).
    if mo_status m = MODSTATUS_LOADED then (- 1, m, log)
    else
      (case dl_sym D RTLD_DEFAULT (static_sym name (c_lit ''_name'')) of
         None \<Rightarrow> (- 1, m, log)
       | Some modname \<Rightarrow>
           (let m = m\<lparr>mo_module_arg := arg\<rparr>;
                (ok, log) = call_init D (dl_sym D RTLD_DEFAULT (static_sym name (c_lit ''_init''))) arg log
            in if \<not> ok then (- 1, m, log)
               else
                 (0, m\<lparr>mo_name := until_nul (dl_str D modname), mo_handle := RTLD_DEFAULT, mo_type := MODTYPE_STATIC,
                    mo_status := MODSTATUS_LOADED\<rparr>, log))))"

definition module_unload_module :: "dl_sys \<Rightarrow> module \<times> dl_log \<Rightarrow> int \<times> module \<times> dl_log" where
  "module_unload_module D = (\<lambda>(m, log).
    (let cleanup_fxn =
           (if mo_type m = MODTYPE_SHARED then dl_sym D (mo_handle m) MODULE_CLEANUP_FXN
            else dl_sym D RTLD_DEFAULT (static_sym (mo_name m) (c_lit ''_init'')));
         log = (case cleanup_fxn of None \<Rightarrow> log | Some f \<Rightarrow> log @ [Dl_call f (mo_module_arg m)]);
         log = (if mo_type m = MODTYPE_SHARED then log @ [Dl_close (mo_handle m)] else log)
     in (0, m\<lparr>mo_handle := 0, mo_status := MODSTATUS_UNLOADED\<rparr>, log)))"

definition module_dlsym :: "dl_sys \<Rightarrow> byte list \<Rightarrow> module \<Rightarrow> nat option" where
  "module_dlsym D symbol m = dl_sym D (mo_handle m) symbol"

subsection \<open>Class \<open>module_list\<close>\<close>

type_synonym module_list = "module std_strmap"

definition ml_find_by_name :: "byte list \<Rightarrow> module_list \<Rightarrow> module option" where
  "ml_find_by_name name ml = smap_find string_less name ml"

text \<open>What the two ways to load share: the module just loaded goes onto the list, or out again when its name is
  taken.\<close>

definition ml_add :: "dl_sys \<Rightarrow> int \<times> module \<times> dl_log \<Rightarrow> module_list \<Rightarrow> int \<times> module_list \<times> dl_log" where
  "ml_add D = (\<lambda>(ret, m, log) ml.
    if ret < 0 then (ret, ml, log)
    else if ml_find_by_name (mo_name m) ml \<noteq> None then (- 1, ml, snd (snd (module_unload_module D (m, log))))
    else (0, smap_set string_less (mo_name m) m ml, log))"

definition ml_load_module ::
  "dl_sys \<Rightarrow> nat \<Rightarrow> byte list \<Rightarrow> nat \<Rightarrow> module_list \<times> dl_log \<Rightarrow> int \<times> module_list \<times> dl_log" where
  "ml_load_module D junk path arg = (\<lambda>(ml, log). ml_add D (module_load_module D path arg (module_new junk, log)) ml)"

definition ml_load_static_module ::
  "dl_sys \<Rightarrow> nat \<Rightarrow> byte list \<Rightarrow> nat \<Rightarrow> module_list \<times> dl_log \<Rightarrow> int \<times> module_list \<times> dl_log" where
  "ml_load_static_module D junk name arg =
    (\<lambda>(ml, log). ml_add D (module_load_static_module D name arg (module_new junk, log)) ml)"

definition ml_unload_module :: "dl_sys \<Rightarrow> byte list \<Rightarrow> module_list \<times> dl_log \<Rightarrow> int \<times> module_list \<times> dl_log" where
  "ml_unload_module D name = (\<lambda>(ml, log).
    (case smap_find string_less name ml of
       None \<Rightarrow> (- 1, ml, log)
     | Some m \<Rightarrow> (0, smap_erase string_less name ml, snd (snd (module_unload_module D (m, log))))))"

fun unload_loop :: "dl_sys \<Rightarrow> module_list \<Rightarrow> int \<Rightarrow> dl_log \<Rightarrow> int \<times> dl_log" where
  "unload_loop D [] cnt log = (cnt, log)"
| "unload_loop D ((k, m) # ms) cnt log =
    (if module_isloaded m then unload_loop D ms (cnt + 1) (snd (snd (module_unload_module D (m, log))))
     else unload_loop D ms cnt log)"

definition ml_unload_all :: "dl_sys \<Rightarrow> module_list \<times> dl_log \<Rightarrow> int \<times> module_list \<times> dl_log" where
  "ml_unload_all D = (\<lambda>(ml, log). (let (cnt, log) = unload_loop D ml 0 log in (cnt, [], log)))"

definition ml_is_loaded :: "byte list \<Rightarrow> module_list \<Rightarrow> bool" where
  "ml_is_loaded name ml =
    (case ml_find_by_name name ml of None \<Rightarrow> False | Some m \<Rightarrow> if module_isloaded m then True else False)"

definition ml_dlsym :: "dl_sys \<Rightarrow> byte list \<Rightarrow> byte list \<Rightarrow> module_list \<Rightarrow> nat option" where
  "ml_dlsym D modname symbol ml =
    (case ml_find_by_name modname ml of None \<Rightarrow> None | Some m \<Rightarrow> module_dlsym D symbol m)"

subsection \<open>Open libraries and listed modules\<close>

datatype mod_op = Load_module nat "byte list" nat | Load_static nat "byte list" nat | Unload "byte list" | Unload_all

definition mod_exec :: "dl_sys \<Rightarrow> mod_op \<Rightarrow> module_list \<times> dl_log \<Rightarrow> int \<times> module_list \<times> dl_log" where
  "mod_exec D x st =
    (case x of
       Load_module junk path arg \<Rightarrow> ml_load_module D junk path arg st
     | Load_static junk name arg \<Rightarrow> ml_load_static_module D junk name arg st
     | Unload name \<Rightarrow> ml_unload_module D name st
     | Unload_all \<Rightarrow> ml_unload_all D st)"

text \<open>How often a library is open, and how many modules of the list are from it.\<close>

definition dl_refs :: "nat \<Rightarrow> dl_log \<Rightarrow> int" where
  "dl_refs h log = int (count_list log (Dl_open h)) - int (count_list log (Dl_close h))"

definition shared_from :: "nat \<Rightarrow> module \<Rightarrow> bool" where
  "shared_from h m \<longleftrightarrow> mo_type m = MODTYPE_SHARED \<and> mo_handle m = h"

definition listed :: "nat \<Rightarrow> module_list \<Rightarrow> int" where
  "listed h ml = int (length (filter (\<lambda>(k, m). shared_from h m) ml))"

definition ml_inv :: "module_list \<times> dl_log \<Rightarrow> bool" where
  "ml_inv = (\<lambda>(ml, log). smap_ok string_less ml \<and> (\<forall>(k, m) \<in> set ml. module_isloaded m \<and> mo_name m = k) \<and>
    (\<forall>h. dl_refs h log = listed h ml))"

lemma dl_refs_simps [simp]:
  "dl_refs h [] = 0" "dl_refs h (xs @ ys) = dl_refs h xs + dl_refs h ys"
  "dl_refs h (Dl_open k # xs) = dl_refs h xs + (if h = k then 1 else 0)"
  "dl_refs h (Dl_close k # xs) = dl_refs h xs - (if h = k then 1 else 0)"
  "dl_refs h (Dl_call f a # xs) = dl_refs h xs"
  by (auto simp: dl_refs_def)

lemma call_init_refs: "call_init D f arg log = (ok, log') \<Longrightarrow> \<forall>h. dl_refs h log' = dl_refs h log"
  by (auto simp: call_init_def split: option.splits)

text \<open>A module that was loaded keeps its library open once; one that was not leaves everything as it was.\<close>

lemma module_load_refs:
  assumes "module_load_module D path arg (module_new junk, log) = (ret, m, log')"
  shows "ret < 0 \<and> (\<forall>h. dl_refs h log' = dl_refs h log) \<or>
    ret = 0 \<and> module_isloaded m \<and> (\<forall>h. dl_refs h log' = dl_refs h log + (if shared_from h m then 1 else 0))"
  using assms
  by (auto simp: module_load_module_def module_new_def Let_def module_isloaded_def shared_from_def
      split: option.splits prod.splits if_splits dest: call_init_refs)

lemma module_load_static_refs:
  assumes "module_load_static_module D name arg (module_new junk, log) = (ret, m, log')"
  shows "ret < 0 \<and> (\<forall>h. dl_refs h log' = dl_refs h log) \<or>
    ret = 0 \<and> module_isloaded m \<and> (\<forall>h. dl_refs h log' = dl_refs h log + (if shared_from h m then 1 else 0))"
  using assms
  by (auto simp: module_load_static_module_def module_new_def Let_def module_isloaded_def shared_from_def
      split: option.splits prod.splits if_splits dest: call_init_refs)

lemma module_unload_refs:
  "dl_refs h (snd (snd (module_unload_module D (m, log)))) = dl_refs h log - (if shared_from h m then 1 else 0)"
  by (auto simp: module_unload_module_def Let_def shared_from_def split: option.split)

lemma listed_set: "smap_find string_less k ml = None \<Longrightarrow> smap_ok string_less ml \<Longrightarrow>
    listed h (smap_set string_less k m ml) = listed h ml + (if shared_from h m then 1 else 0)"
  by (induction ml) (auto simp: listed_def split: if_splits)

lemma listed_erase: "smap_find string_less k ml = Some m \<Longrightarrow>
    listed h (smap_erase string_less k ml) = listed h ml - (if shared_from h m then 1 else 0)"
  by (induction ml) (auto simp: listed_def split: if_splits)

lemma smap_set_in: "(k', m') \<in> set (smap_set string_less k m ml) \<Longrightarrow> (k', m') \<in> set ml \<or> m' = m \<and> (k' = k)"
  by (induction ml) (auto split: if_splits)

lemma ml_add_inv:
  assumes "ml_inv (ml, log)" "ret < 0 \<and> (\<forall>h. dl_refs h log' = dl_refs h log) \<or>
    ret = 0 \<and> module_isloaded m \<and> (\<forall>h. dl_refs h log' = dl_refs h log + (if shared_from h m then 1 else 0))"
  shows "ml_inv (snd (ml_add D (ret, m, log') ml))"
proof -
  have i: "smap_ok string_less ml" "\<forall>(k, m) \<in> set ml. module_isloaded m \<and> mo_name m = k" "\<And>h. dl_refs h log = listed h ml"
    using assms(1) by (auto simp: ml_inv_def)
  show ?thesis
  proof (cases "ret < 0 \<or> ml_find_by_name (mo_name m) ml \<noteq> None")
    case True
    then show ?thesis using i assms(2) by (auto simp: ml_add_def ml_inv_def module_unload_refs)
  next
    case False
    then have f: "ret = 0" "module_isloaded m" "smap_find string_less (mo_name m) ml = None"
      "\<And>h. dl_refs h log' = dl_refs h log + (if shared_from h m then 1 else 0)"
      using assms(2) by (auto simp: ml_find_by_name_def)
    have "ml_inv (smap_set string_less (mo_name m) m ml, log')"
      using i f listed_set [OF f(3) i(1)] smap_set_in [of _ _ "mo_name m" m ml]
      by (fastforce simp: ml_inv_def std_string.set_ok)
    then show ?thesis using False by (simp add: ml_add_def)
  qed
qed

lemma unload_loop_refs:
  "\<forall>(k, m) \<in> set ml. module_isloaded m \<Longrightarrow>
    fst (unload_loop D ml cnt log) = cnt + int (length ml) \<and>
    dl_refs h (snd (unload_loop D ml cnt log)) = dl_refs h log - listed h ml"
  by (induction D ml cnt log rule: unload_loop.induct) (auto simp: module_unload_refs listed_def)

lemma mod_exec_inv:
  assumes "ml_inv st"
  shows "ml_inv (snd (mod_exec D x st))"
proof -
  obtain ml log where st: "st = (ml, log)" by (cases st)
  have i: "smap_ok string_less ml" "\<forall>(k, m) \<in> set ml. module_isloaded m \<and> mo_name m = k" "\<And>h. dl_refs h log = listed h ml"
    using assms by (auto simp: ml_inv_def st)
  show ?thesis
  proof (cases x)
    case (Load_module junk path arg)
    obtain ret m log' where l: "module_load_module D path arg (module_new junk, log) = (ret, m, log')" by (metis prod_cases3)
    show ?thesis using ml_add_inv [OF assms [unfolded st] module_load_refs [OF l]]
      by (simp add: mod_exec_def Load_module st ml_load_module_def l)
  next
    case (Load_static junk name arg)
    obtain ret m log' where l: "module_load_static_module D name arg (module_new junk, log) = (ret, m, log')" by (metis prod_cases3)
    show ?thesis using ml_add_inv [OF assms [unfolded st] module_load_static_refs [OF l]]
      by (simp add: mod_exec_def Load_static st ml_load_static_module_def l)
  next
    case (Unload name)
    show ?thesis
    proof (cases "smap_find string_less name ml")
      case None
      then show ?thesis using assms by (simp add: mod_exec_def Unload st ml_unload_module_def)
    next
      case (Some m)
      then have "ml_inv (smap_erase string_less name ml, snd (snd (module_unload_module D (m, log))))"
        using i listed_erase [OF Some] std_string.erase_subset [of name ml]
        by (auto simp: ml_inv_def module_unload_refs std_string.erase_ok)
      then show ?thesis using Some by (simp add: mod_exec_def Unload st ml_unload_module_def)
    qed
  next
    case Unload_all
    have "\<forall>(k, m) \<in> set ml. module_isloaded m" using i(2) by auto
    then have "dl_refs h (snd (unload_loop D ml 0 log)) = 0" for h using unload_loop_refs [of ml D 0 log h] i(3) [of h] by simp
    then show ?thesis using Unload_all by (auto simp: mod_exec_def st ml_unload_all_def ml_inv_def listed_def split: prod.split)
  qed
qed

text \<open>C35: Libraries are neither lost nor closed too early: after any sequence of loading and unloading, each library has
  been opened as many times more than closed as modules of the list come from it, every module of the list is
  loaded and has the name it is listed under. After \<open>unload_all\<close> the list is empty and nothing is left open.\<close>

theorem libraries_balanced:
  "ml_inv (fold (\<lambda>x st. snd (mod_exec D x st)) xs ([], [])) \<and>
    (\<exists>log. snd (mod_exec D Unload_all (fold (\<lambda>x st. snd (mod_exec D x st)) xs ([], []))) = ([], log) \<and>
      (\<forall>h. dl_refs h log = 0))"
proof -
  let ?st = "fold (\<lambda>x st. snd (mod_exec D x st)) xs ([], [])"
  have "ml_inv st \<Longrightarrow> ml_inv (fold (\<lambda>x st. snd (mod_exec D x st)) xs st)" for st
    by (induction xs arbitrary: st) (simp_all add: mod_exec_inv)
  moreover have "ml_inv ([], [])" by (simp add: ml_inv_def listed_def)
  ultimately have inv: "ml_inv ?st" by blast
  have "\<exists>log. snd (mod_exec D Unload_all st) = ([], log)" for st
    by (cases st) (simp add: mod_exec_def ml_unload_all_def split: prod.split)
  then obtain log where log: "snd (mod_exec D Unload_all ?st) = ([], log)" by blast
  then have "ml_inv ([], log)" using mod_exec_inv [OF inv, of D Unload_all] by simp
  then show ?thesis using inv log by (auto simp: ml_inv_def listed_def)
qed

text \<open>A module linked into the program is initialised a second time where it should be cleaned up, and its cleanup
  function is never called.\<close>

lemma static_unload_runs_init:
  assumes "mo_type m = MODTYPE_STATIC" "dl_sym D RTLD_DEFAULT (static_sym (mo_name m) (c_lit ''_init'')) = Some f"
  shows "snd (snd (module_unload_module D (m, log))) = log @ [Dl_call f (mo_module_arg m)]"
  using assms by (simp add: module_unload_module_def)

text \<open>Loading a module that is on the list already initialises it again and then cleans it up, and it stays on the
  list: the linker gives the same library, so this is the module that is running.\<close>

lemma load_twice_cleans_up:
  assumes "smap_find string_less name ml = Some m" "dl_open D log (until_nul path) = Some h"
    and "dl_sym D h MODULE_NAME_SYM = Some a" "until_nul (dl_str D a) = name"
    and "dl_sym D h MODULE_INIT_FXN = Some f" "dl_ret D f arg (log @ [Dl_open h]) = 0"
    and "dl_sym D h MODULE_CLEANUP_FXN = Some g"
  shows "ml_load_module D junk path arg (ml, log) =
    (- 1, ml, log @ [Dl_open h, Dl_call f arg, Dl_call g arg, Dl_close h])"
  using assms
  by (simp add: ml_load_module_def module_load_module_def module_new_def call_init_def ml_add_def ml_find_by_name_def
      module_unload_module_def)

end
