(* ===== verification/Admin.thy ===== *)
theory Admin
  imports Chanmods Module
begin

text \<open>
  The administration commands, \<open>modules/mod_admin.cpp\<close>. A command reads and sets the settings of the connection \<open>isrv\<close> (its
  record \<open>irc\<close>) and of the bot, and asks other parts for actions; the actions are a list, in order, and what
  their calls answer is the record \<open>admin_ans\<close>.
\<close>

text \<open>What the calls answer. The memory statistics are the numbers of \<open>mallinfo\<close> that are printed, and \<open>an_kib\<close> is the division
  by 1024 in \<open>float\<close>.\<close>

record 'f admin_ans =
  an_arena :: int
  an_uordblks :: int
  an_fordblks :: int
  an_hblks :: int
  an_hblkhd :: int
  an_ordblks :: int
  an_keepcost :: int
  an_kib :: "int \<Rightarrow> 'f"
  an_connect :: int
  an_event_threads :: int
  an_set_event_threads :: int
  an_timers :: nat

datatype 'f admin_act =
  Act_reply "'f reply"
| Act_join "byte list"
| Act_leave "byte list"
| Act_rehash
| Act_quit "byte list"
| Act_disconnect
| Act_quit_all "byte list"
| Act_disconnect_all
| Act_connect "byte list"
| Act_force_kill nat
| Act_set_event_threads int

definition mallinfo_reply :: "'f admin_ans \<Rightarrow> 'f reply" where
  "mallinfo_reply a =
    Privmsgf (c_lit ''malloc: %fKiB(used: %fKiB + unused: %fKiB), mmapcnt: %d, mmap: %fKiB, unusedcnt: %d, releaseable: %fKiB'')
      [Arg_double (an_kib a (an_arena a)), Arg_double (an_kib a (an_uordblks a)), Arg_double (an_kib a (an_fordblks a)),
       Arg_int (word_of_int (an_hblks a)), Arg_double (an_kib a (an_hblkhd a)), Arg_int (word_of_int (an_ordblks a)),
       Arg_double (an_kib a (an_keepcost a))]"

text \<open>The loops of \<open>names\<close> and \<open>modlist\<close>: twenty to a message.\<close>

fun names_loop :: "nat \<Rightarrow> nat \<Rightarrow> chanusers \<Rightarrow> byte list \<Rightarrow> 'f admin_act list" where
  "names_loop n i [] tmp = [Act_reply (Privmsgf_nh (c_lit ''%d: %s'') [Arg_long (of_nat n), Arg_str (Some (until_nul tmp))])]"
| "names_loop n i ((_, u) # us) tmp =
    (let tmp = tmp @ iu_chanmode u @ ii_nick u @ c_lit '', ''
     in if i mod 20 = 0
        then Act_reply (Privmsgf_nh (c_lit ''%d: %s'') [Arg_long (of_nat n), Arg_str (Some (until_nul tmp))]) # names_loop n (i + 1) us []
        else names_loop n (i + 1) us tmp)"

fun modlist_loop :: "nat \<Rightarrow> byte list list \<Rightarrow> byte list \<Rightarrow> 'f admin_act list" where
  "modlist_loop i [] buf = (if buf \<noteq> [] then [Act_reply (Privmsg_nh buf)] else [])"
| "modlist_loop i (name # names) buf =
    (let buf = buf @ name @ c_lit '', ''
     in if (i + 1) mod 20 = 0 then Act_reply (Privmsg_nh buf) # modlist_loop (i + 1) names []
        else modlist_loop (i + 1) names buf)"

fun join_names :: "byte list list \<Rightarrow> byte list" where
  "join_names [] = []"
| "join_names (x # xs) = x @ (if xs \<noteq> [] then c_lit '', '' else []) @ join_names xs"

definition set_irc :: "nat \<Rightarrow> irc \<Rightarrow> 'w ircbot \<Rightarrow> 'w ircbot" where
  "set_irc isrv st b = b\<lparr>ib_irc := (ib_irc b)(isrv := st)\<rparr>"

definition flag_reply :: "string \<Rightarrow> bool \<Rightarrow> 'f admin_act" where
  "flag_reply fmt on = Act_reply (Privmsgf (c_lit fmt) [Arg_int (if on then 1 else 0)])"

text \<open>The first group of commands: channels, and the settings of the bot.\<close>

definition admin_channels ::
  "irc_env \<Rightarrow> nat \<Rightarrow> byte list \<Rightarrow> byte list \<Rightarrow> 'w ircbot \<Rightarrow> 'f admin_act list \<times> 'w ircbot" where
  "admin_channels E isrv cmd carg b =
    (let st = ib_irc b isrv
     in if cmd = c_lit ''join'' then
          ([Act_join (re_global_replace (en_pcre E) [0x20] [] carg),
            Act_reply (Privmsg (c_lit ''joined '' @ carg))], b)
        else if cmd = c_lit ''part'' then ([Act_reply (Privmsg (c_lit ''left '' @ carg)), Act_leave carg], b)
        else if cmd = c_lit ''chans'' then
          ([Act_reply (Privmsgf (c_lit ''%d: %s'') [Arg_long (of_nat (length (ir_chans st))), Arg_str (Some (until_nul (join_names (ir_chans st))))])], b)
        else if cmd = c_lit ''names'' then
          (let (names, st) = get_chanuserlist carg st in (names_loop (length names) 1 names [], set_irc isrv st b))
        else if cmd = c_lit ''maxlinespercmd'' then
          (let mpc = c_atoi (until_nul carg);
               mpc = (if mpc < 2 then 2 else mpc);
               mpc = (if mpc > 5 then 5 else mpc)
           in ([], b\<lparr>ib_max_lines_per_cmd := mpc\<rparr>))
        else if cmd = c_lit ''rehash'' then ([Act_rehash, Act_reply (Privmsg (c_lit ''rehashed''))], b)
        else ([], b))"

text \<open>The second group: connections.\<close>

definition admin_conn ::
  "'f admin_ans \<Rightarrow> byte list \<Rightarrow> byte list \<Rightarrow> 'w ircbot \<Rightarrow> 'f admin_act list" where
  "admin_conn a cmd carg b =
    (if cmd = c_lit ''quit'' then [Act_quit carg]
     else if cmd = c_lit ''disconnect'' then [Act_disconnect]
     else if cmd = c_lit ''quitall'' then [Act_quit_all carg]
     else if cmd = c_lit ''disconnectall'' then [Act_disconnect_all]
     else if cmd = c_lit ''connect'' then
       (if carg = [] then [Act_reply (Privmsg (c_lit ''!connect <name>''))]
        else [Act_connect carg, Act_reply (Privmsgf (c_lit ''connect result: %d'') [Arg_int (word_of_int (an_connect a))])])
     else if cmd = c_lit ''force_kill'' then
       (if carg = [] then [Act_reply (Privmsg (c_lit ''!force_kill <name>''))]
        else case find_conn_by_name carg b of
          None \<Rightarrow> [Act_reply (Privmsg (c_lit ''not found''))]
        | Some c \<Rightarrow> [Act_force_kill c, Act_reply (Privmsg (c_lit ''killed '' @ carg))])
     else [])"

text \<open>The third group: threads, modules, and the settings of the connection.\<close>

definition admin_set ::
  "irc_env \<Rightarrow> 'f admin_ans \<Rightarrow> module_list \<Rightarrow> nat \<Rightarrow> byte list \<Rightarrow> byte list \<Rightarrow> 'w ircbot \<Rightarrow> 'f admin_act list \<times> 'w ircbot" where
  "admin_set E a mods isrv cmd carg b =
    (let st = ib_irc b isrv
     in if cmd = c_lit ''evthrdcnt'' then
          ([Act_reply (Privmsgf [0xED, 0x98, 0x84, 0xEC, 0x9E, 0xAC, 0x20, 0xEC, 0x9D, 0xB4, 0xEB, 0xB2, 0xA4, 0xED,
            0x8A, 0xB8, 0x20, 0xEC, 0x8A, 0xA4, 0xEB, 0xA0, 0x88, 0xEB, 0x93, 0x9C, 0x20, 0xEA, 0xB0, 0x9C, 0xEC,
            0x88, 0x98, 0x3A, 0x20, 0x25, 0x64] [Arg_int (word_of_int (an_event_threads a))])], b)
        else if cmd = c_lit ''setevthrdcnt'' then
          (let cnt = c_atoi (until_nul carg)
           in if cnt \<le> 0 \<or> cnt > 50 then ([Act_reply (Privmsg [0xEC, 0x8A, 0xA4, 0xEB, 0xA0, 0x88, 0xEB,
             0x93, 0x9C, 0x20, 0xEA, 0xB0, 0x9C, 0xEC, 0x88, 0x98, 0xEB, 0x8A, 0x94, 0x20, 0x31, 0x7E, 0x35, 0x30,
             0xEA, 0xB0, 0x9C, 0x20, 0xEC, 0x82, 0xAC, 0xEC, 0x9D, 0xB4, 0xEC, 0x97, 0x90, 0xEC, 0x84, 0x9C, 0xEB,
             0xA7, 0x8C, 0x20, 0xEC, 0x84, 0xA4, 0xEC, 0xA0, 0x95, 0x20, 0xEA, 0xB0, 0x80, 0xEB, 0x8A, 0xA5, 0xED,
             0x95, 0xA9, 0xEB, 0x8B, 0x88, 0xEB, 0x8B, 0xA4, 0x2E])], b)
              else if an_set_event_threads a < 0 then
                ([Act_set_event_threads cnt, Act_reply (Privmsg [0xEC, 0x9D, 0xB4, 0xEB, 0xAF, 0xB8, 0x20, 0xEC,
                  0x8A, 0xA4, 0xEB, 0xA0, 0x88, 0xEB, 0x93, 0x9C, 0x20, 0xEC, 0x88, 0x98, 0xEB, 0xA5, 0xBC, 0x20,
                  0xEC, 0xA1, 0xB0, 0xEC, 0xA0, 0x95, 0xEC, 0xA4, 0x91, 0xEC, 0x9E, 0x85, 0xEB, 0x8B, 0x88, 0xEB,
                  0x8B, 0xA4, 0x2E])], b)
              else ([Act_set_event_threads cnt, Act_reply (Privmsgf [0xEC, 0x9D, 0xB4, 0xEB, 0xB2, 0xA4, 0xED, 0x8A,
                0xB8, 0x20, 0xEC, 0x8A, 0xA4, 0xEB, 0xA0, 0x88, 0xEB, 0x93, 0x9C, 0x20, 0xEA, 0xB0, 0x9C, 0xEC,
                0x88, 0x98, 0x3A, 0x20, 0x25, 0x64, 0x20, 0x2D, 0x3E, 0x20, 0x25, 0x64]
                [Arg_int (word_of_int (an_event_threads a)), Arg_int (word_of_int (an_set_event_threads a))])], b))
        else if cmd = c_lit ''modlist'' then (modlist_loop 0 (map fst mods) [], b)
        else if cmd = c_lit ''charset'' then
          (if carg = [] then ([Act_reply (Privmsgf (c_lit ''current charset: %s'') [Arg_str (Some (until_nul (ir_srv_encoding st)))])], b)
           else (let (ret, st) = set_encoding E carg st
             in ([Act_reply (Privmsgf (c_lit ''set_encoding() result: %d'') [Arg_int (word_of_int ret)])], set_irc isrv st b)))
        else if cmd = c_lit ''preserve_eilseq_line'' then
          ([flag_reply ''preserve_eilseq_line = %d'' (carg = c_lit ''1'')], set_irc isrv (st\<lparr>ir_preserve_eilseq_line := carg = c_lit ''1''\<rparr>) b)
        else if cmd = c_lit ''flood_protection'' then
          (if carg = [] then ([flag_reply ''enable_flood_protection == %d'' (ir_enable_flood_protection st)], b)
           else ([flag_reply ''enable_flood_protection = %d'' (carg \<noteq> c_lit ''0'')],
             set_irc isrv (st\<lparr>ir_enable_flood_protection := carg \<noteq> c_lit ''0''\<rparr>) b))
        else if cmd = c_lit ''timercnt'' then
          ([Act_reply (Privmsgf [0xED, 0x98, 0x84, 0xEC, 0x9E, 0xAC, 0x20, 0xED, 0x83, 0x80, 0xEC, 0x9D, 0xB4, 0xEB,
            0xA8, 0xB8, 0x20, 0xEA, 0xB0, 0x9C, 0xEC, 0x88, 0x98, 0x3A, 0x20, 0x25,
            0x64] [Arg_long (of_nat (an_timers a))])], b)
        else ([], b))"

text \<open>The names of the groups are different, so at most one of them answers.\<close>

definition cmd_cb_admin ::
  "irc_env \<Rightarrow> 'f admin_ans \<Rightarrow> byte list list \<Rightarrow> module_list \<Rightarrow> nat \<Rightarrow> irc_privmsg \<Rightarrow> byte list \<Rightarrow> byte list \<Rightarrow> 'w ircbot \<Rightarrow>
    c_fault + (int \<times> 'f admin_act list \<times> 'w ircbot)" where
  "cmd_cb_admin E a admin_masks mods isrv pm cmd carg b =
    (if cmd = c_lit ''mallinfo'' then Inr (0, [Act_reply (mallinfo_reply a)], b)
     else case is_botadmin admin_masks (ii_ident (pm_ident pm)) of
       Inl e \<Rightarrow> Inl e
     | Inr False \<Rightarrow> Inr (HANDLER_FINISHED, [], b)
     | Inr True \<Rightarrow>
         (let (acts1, b) = admin_channels E isrv cmd carg b;
              acts2 = admin_conn a cmd carg b;
              (acts3, b) = admin_set E a mods isrv cmd carg b
          in Inr (HANDLER_FINISHED, acts1 @ acts2 @ acts3, b)))"

definition cmdlist_admin :: "byte list list" where
  "cmdlist_admin = map c_lit [''join'', ''part'', ''names'', ''maxlinespercmd'', ''rehash'', ''quit'', ''disconnect'', ''quitall'',
     ''disconnectall'', ''connect'', ''force_kill'', ''evthrdcnt'', ''setevthrdcnt'', ''modlist'', ''charset'',
     ''preserve_eilseq_line'', ''flood_protection'', ''timercnt'', ''mallinfo'']"

definition mod_admin_init :: "nat \<Rightarrow> 'w ircbot \<Rightarrow> int \<times> 'w ircbot" where
  "mod_admin_init cb b = (0, register_cmds cb cmdlist_admin b)"

definition mod_admin_cleanup :: "'w ircbot \<Rightarrow> int \<times> 'w ircbot" where
  "mod_admin_cleanup b = (0, unregister_cmds cmdlist_admin b)"

section \<open>Properties\<close>

text \<open>Who is no administrator gets the memory statistics at most: nothing changes and nothing is done.\<close>

lemma not_admin:
  "is_botadmin masks (ii_ident (pm_ident pm)) = Inr False \<Longrightarrow>
    \<exists>r acts. cmd_cb_admin E a masks mods isrv pm cmd carg b = Inr (r, acts, b) \<and> set acts \<subseteq> {Act_reply (mallinfo_reply a)}"
  by (simp add: cmd_cb_admin_def)

text \<open>The number of lines for a command stays between two and five whatever an administrator enters, and a command
  changes the settings of one connection only.\<close>

definition kept :: "nat \<Rightarrow> 'w ircbot \<Rightarrow> 'w ircbot \<Rightarrow> bool" where
  "kept isrv b b' \<longleftrightarrow>
    (2 \<le> ib_max_lines_per_cmd b \<and> ib_max_lines_per_cmd b \<le> 5 \<longrightarrow> 2 \<le> ib_max_lines_per_cmd b' \<and> ib_max_lines_per_cmd b' \<le> 5) \<and>
    (\<forall>c. c \<noteq> isrv \<longrightarrow> ib_irc b' c = ib_irc b c)"

lemma kept_steps [simp]: "kept isrv b b" "kept isrv b (set_irc isrv st b)"
  "2 \<le> n \<Longrightarrow> n \<le> 5 \<Longrightarrow> kept isrv b (b\<lparr>ib_max_lines_per_cmd := n\<rparr>)"
  by (auto simp: kept_def set_irc_def)

lemma kept_groups:
  "kept isrv b (snd (admin_channels E isrv cmd carg b))" "kept isrv b (snd (admin_set E a mods isrv cmd carg b))"
  unfolding admin_channels_def admin_set_def Let_def case_prod_beta if_distrib [of snd] snd_conv by (simp_all split: if_split)

lemma admin_settings:
  assumes "cmd_cb_admin E a masks mods isrv pm cmd carg b = Inr (r, acts, b')" "2 \<le> ib_max_lines_per_cmd b" "ib_max_lines_per_cmd b \<le> 5"
  shows "2 \<le> ib_max_lines_per_cmd b' \<and> ib_max_lines_per_cmd b' \<le> 5"
    and "c \<noteq> isrv \<Longrightarrow> ib_irc b' c = ib_irc b c"
proof -
  have "b' = b \<or> (\<exists>b1. kept isrv b b1 \<and> kept isrv b1 b')"
    using assms(1) kept_groups by (auto simp: cmd_cb_admin_def Let_def case_prod_beta split: if_splits sum.splits bool.splits) blast
  then have "kept isrv b b'" unfolding kept_def by auto
  then show "2 \<le> ib_max_lines_per_cmd b' \<and> ib_max_lines_per_cmd b' \<le> 5" "c \<noteq> isrv \<Longrightarrow> ib_irc b' c = ib_irc b c"
    using assms(2,3) by (auto simp: kept_def)
qed

text \<open>The handler knows a command \<open>chans\<close> that is never registered for it.\<close>

lemma chans_not_registered: "\<not> list_ex (\<lambda>n. same_cmd n (c_lit ''chans'')) cmdlist_admin"
  by (simp add: cmdlist_admin_def same_cmd_def c_lit_def until_nul_def c_tolower_def)

end
