(* ===== verification/Hanja.thy ===== *)
theory Hanja
  imports Botmod Numstr Utf8
begin

text \<open>
  The dictionary of Chinese characters, \<open>modules/mod_hanja.cpp\<close>: searching its table and rendering what is
  found. The table \<open>hanja_data\<close> of \<open>mod_hanja_data.h\<close> is the argument \<open>T\<close>, the regular expressions in UTF-8 mode are a parameter.
\<close>

text \<open>The arrays inside an entry end at their first null pointer, as in the code: a list holds what comes before it.\<close>

record hanja_data_s =
  hj_hanja :: "byte list"
  hj_meanings :: "(byte list list \<times> byte list) list"
  hj_busu :: "byte list"
  hj_stroke :: int

definition find_by_hanja :: "hanja_data_s list \<Rightarrow> byte list \<Rightarrow> hanja_data_s option" where
  "find_by_hanja T hanja = find (\<lambda>d. hj_hanja d = hanja) T"

text \<open>The vectors of the two other searches end with a null pointer, \<open>None\<close>; the result is their first element.\<close>

definition find_by_sound :: "hanja_data_s list \<Rightarrow> byte list \<Rightarrow> hanja_data_s option list" where
  "find_by_sound T sound =
    concat (map (\<lambda>d. concat (map (\<lambda>(_, s). if s = sound then [Some d] else []) (hj_meanings d))) T) @ [None]"

definition find_by_meaning :: "hanja_data_s list \<Rightarrow> byte list \<Rightarrow> hanja_data_s option list" where
  "find_by_meaning T meaning =
    concat (map (\<lambda>d. concat (map (\<lambda>(subs, _).
      concat (map (\<lambda>m. if m = meaning then [Some d] else []) subs)) (hj_meanings d))) T) @ [None]"

fun render_subs :: "byte list list \<Rightarrow> byte list" where
  "render_subs [] = []"
| "render_subs (m # ms) = m @ (if ms \<noteq> [] then c_lit '', '' else []) @ render_subs ms"

fun render_meanings :: "(byte list list \<times> byte list) list \<Rightarrow> byte list" where
  "render_meanings [] = []"
| "render_meanings ((subs, sound) # ms) =
    render_subs subs @ [0x20] @ sound @ (if ms \<noteq> [] then c_lit '' / '' else []) @ render_meanings ms"

definition render_hanja_data :: "hanja_data_s option \<Rightarrow> byte list" where
  "render_hanja_data p =
    (case p of
       None \<Rightarrow> []
     | Some d \<Rightarrow> hj_hanja d @ c_lit '' ['' @ render_meanings (hj_meanings d) @ c_lit ''] '' @ int2string (hj_stroke d) @ [0xED, 0x9A, 0x8D])"

definition separator :: "byte list" where
  "separator = IRCTEXT_BOLD @ c_lit '' | '' @ IRCTEXT_NORMAL"

definition is_hanja :: "byte list \<Rightarrow> bool" where
  "is_hanja c \<longleftrightarrow> 0x4E00 \<le> utf8_decode_s c \<and> utf8_decode_s c \<le> 0x9FFF"

text \<open>What is written for a character; \<open>follows\<close> tells whether another one follows.\<close>

definition char_text :: "hanja_data_s list \<Rightarrow> bool \<Rightarrow> byte list \<Rightarrow> byte list" where
  "char_text T follows c =
    (if is_hanja c then
       (case find_by_hanja T c of
          Some d \<Rightarrow> render_hanja_data (Some d) @ (if follows then separator else [])
        | None \<Rightarrow> c)
     else c)"

text \<open>The loop over the characters of the argument, with \<open>buf\<close> and \<open>lines\<close>.\<close>

fun chars_loop :: "hanja_data_s list \<Rightarrow> int \<Rightarrow> byte list list \<Rightarrow> byte list \<Rightarrow> int \<Rightarrow> 'f reply list" where
  "chars_loop T maxl [] buf lines = (if buf \<noteq> [] then [Privmsg buf] else [])"
| "chars_loop T maxl (c # cs) buf lines =
    (let buf = buf @ char_text T (cs \<noteq> []) c;
         (out, buf, lines) = (if length buf > 350 then ([Privmsg buf], [], lines + 1) else ([], buf, lines))
     in if lines \<ge> maxl then out else out @ chars_loop T maxl cs buf lines)"

text \<open>The loop over what was found: five entries to a message; \<open>hlist[i + 1]\<close> is read after each other entry.\<close>

fun found_loop :: "int \<Rightarrow> hanja_data_s option list \<Rightarrow> nat \<Rightarrow> int \<Rightarrow> byte list \<Rightarrow> c_fault + 'f reply list" where
  "found_loop maxl [] i ln buf = Inl Read_past_end"
| "found_loop maxl (h # hs) i ln buf =
    (if h = None \<or> ln \<ge> maxl then Inr (if buf \<noteq> [] then [Privmsg buf] else [])
     else
       (let buf = buf @ render_hanja_data h
        in if (i + 1) mod 5 = 0 then map_sum id ((#) (Privmsg buf)) (found_loop maxl hs (i + 1) (ln + 1) [])
           else case hs of
             [] \<Rightarrow> Inl Read_past_end
           | nxt # _ \<Rightarrow> found_loop maxl hs (i + 1) ln (if nxt \<noteq> None \<and> ln < maxl then buf @ separator else buf)))"

definition re_any_hanja :: "byte list" where
  "re_any_hanja = [0x5B, 0xE4, 0xB8, 0x80, 0x2D, 0xE9, 0xBF, 0xBF, 0x5D]"

definition re_one_syllable :: "byte list" where
  "re_one_syllable = [0x5E, 0x5B, 0xEA, 0xB0, 0x80, 0x2D, 0xED, 0x9E, 0xA3, 0x5D, 0x24]"

definition re_syllables :: "byte list" where
  "re_syllables = [0x5E, 0x5B, 0xEA, 0xB0, 0x80, 0x2D, 0xED, 0x9E, 0xA3, 0x5D, 0x2B, 0x24]"

definition cmd_cb_hanja :: "byte pcre \<Rightarrow> hanja_data_s list \<Rightarrow> int \<Rightarrow> byte list \<Rightarrow> c_fault + 'f reply list" where
  "cmd_cb_hanja R8 T maxl carg =
    (if carg = [] then Inr [Privmsg [0xEC, 0x82, 0xAC, 0xEC, 0x9A, 0xA9, 0xEB, 0xB2, 0x95, 0x3A, 0x20, 0x21, 0xED,
      0x95, 0x9C, 0xEC, 0x9E, 0x90, 0x20, 0x5B, 0xED, 0x95, 0x9C, 0xEC, 0x9E, 0x90, 0x7C, 0xEC, 0x9D, 0x8C, 0x7C,
      0xEB, 0x9C, 0xBB, 0x5D]]
     else if re_partial R8 re_any_hanja carg \<noteq> None then Inr (chars_loop T maxl (utf8_split_chars carg) [] 0)
     else
       (let hlist = (if re_full R8 re_one_syllable carg \<noteq> None then find_by_sound T carg else []);
            hd1 = (case hlist of [] \<Rightarrow> None | h # _ \<Rightarrow> h)
        in if hd1 \<noteq> None then found_loop maxl hlist 0 0 []
           else if re_full R8 re_syllables carg \<noteq> None then
             (let hlist = find_by_meaning T carg
              in if hd hlist = None then Inr [Privmsg [0xEA, 0xB2, 0x80, 0xEC, 0x83, 0x89, 0x20, 0xEA, 0xB2, 0xB0,
                0xEA, 0xB3, 0xBC, 0xEA, 0xB0, 0x80, 0x20, 0xEC, 0x97, 0x86, 0xEC, 0x8A, 0xB5, 0xEB, 0x8B, 0x88,
                0xEB, 0x8B, 0xA4, 0x2E]] else found_loop maxl hlist 0 0 [])
           else Inr [Privmsg [0xED, 0x98, 0x95, 0xEC, 0x8B, 0x9D, 0xEC, 0x9D, 0xB4, 0x20, 0xEC, 0x9E, 0x98, 0xEB,
             0xAA, 0xBB, 0xEB, 0x90, 0x98, 0xEC, 0x97, 0x88, 0xEC, 0x8A, 0xB5, 0xEB, 0x8B, 0x88, 0xEB, 0x8B, 0xA4,
             0x2E, 0x20, 0xED, 0x95, 0x9C, 0xEC, 0x9E, 0x90, 0x20, 0xED, 0x95, 0x9C, 0x20, 0xEA, 0xB8, 0x80, 0xEC,
             0x9E, 0x90, 0x20, 0xEB, 0x98, 0x90, 0xEB, 0x8A, 0x94, 0x20, 0xEC, 0x9D, 0x8C, 0x2F, 0xEB, 0x9C, 0xBB,
             0xEC, 0x9D, 0x84, 0x20, 0xED, 0x95, 0x9C, 0xEA, 0xB8, 0x80, 0xEB, 0xA1, 0x9C, 0x20, 0xEC, 0x9E, 0x85,
             0xEB, 0xA0, 0xA5, 0xED, 0x95, 0x98, 0xEC, 0x84, 0xB8, 0xEC, 0x9A, 0x94]]))"

definition hanja_cmd :: "byte list" where
  "hanja_cmd = [0xED, 0x95, 0x9C, 0xEC, 0x9E, 0x90]"

definition mod_hanja_init :: "nat \<Rightarrow> 'w ircbot \<Rightarrow> int \<times> 'w ircbot" where
  "mod_hanja_init cb b = (0, register_cmds cb [hanja_cmd] b)"

definition mod_hanja_cleanup :: "'w ircbot \<Rightarrow> int \<times> 'w ircbot" where
  "mod_hanja_cleanup b = (0, unregister_cmds [hanja_cmd] b)"

section \<open>What is found\<close>

lemma find_by_sound_iff:
  "Some d \<in> set (find_by_sound T sound) \<longleftrightarrow> d \<in> set T \<and> sound \<in> snd ` set (hj_meanings d)"
  by (force simp: find_by_sound_def split: if_splits)

lemma find_by_meaning_iff:
  "Some d \<in> set (find_by_meaning T meaning) \<longleftrightarrow> d \<in> set T \<and> (\<exists>(subs, s) \<in> set (hj_meanings d). meaning \<in> set subs)"
  by (force simp: find_by_meaning_def split: if_splits)

text \<open>The vectors of the searches are read up to their null pointer only, and no more messages are sent than allowed.\<close>

lemma found_loop_lines:
  "None \<in> set hs \<Longrightarrow> 0 \<le> maxl - ln \<Longrightarrow> (buf \<noteq> [] \<Longrightarrow> ln < maxl) \<Longrightarrow>
    \<exists>out :: 'f reply list. found_loop maxl hs i ln buf = Inr out \<and> int (length out) \<le> maxl - ln"
proof (induction hs arbitrary: i ln buf)
  case (Cons h hs)
  show ?case
  proof (cases "h = None \<or> ln \<ge> maxl")
    case False
    then have n: "None \<in> set hs" using Cons.prems(1) by auto
    then obtain nxt r where hs: "hs = nxt # r" by (cases hs) auto
    show ?thesis
    proof (cases "(i + 1) mod 5 = 0")
      case True
      obtain out :: "'f reply list" where "found_loop maxl hs (i + 1) (ln + 1) [] = Inr out" "int (length out) \<le> maxl - (ln + 1)"
        using Cons.IH [OF n, of "ln + 1" "[]" "i + 1"] False by auto
      then show ?thesis using False True by (auto simp: Let_def)
    next
      case (False)
      let ?b = "if nxt \<noteq> None \<and> ln < maxl then buf @ render_hanja_data h @ separator else buf @ render_hanja_data h"
      have "\<exists>out :: 'f reply list. found_loop maxl hs (i + 1) ln ?b = Inr out \<and> int (length out) \<le> maxl - ln"
        using Cons.IH [OF n, of ln ?b "i + 1"] \<open>\<not> (h = None \<or> ln \<ge> maxl)\<close> by auto
      moreover have "(found_loop maxl (h # hs) i ln buf :: c_fault + 'f reply list) = found_loop maxl hs (i + 1) ln ?b"
        using False \<open>\<not> (h = None \<or> ln \<ge> maxl)\<close> unfolding found_loop.simps(2) [of maxl h hs]
        by (auto simp: Let_def hs simp del: found_loop.simps)
      ultimately show ?thesis by (simp only:)
    qed
  qed (use Cons.prems in auto)
qed simp

lemma chars_loop_lines:
  "lines < maxl \<Longrightarrow> int (length (chars_loop T maxl cs buf lines :: 'f reply list)) \<le> maxl - lines"
proof (induction cs arbitrary: buf lines)
  case (Cons c cs)
  let ?b = "buf @ char_text T (cs \<noteq> []) c" and ?loop = "chars_loop T maxl cs :: byte list \<Rightarrow> int \<Rightarrow> 'f reply list"
  show ?case
  proof (cases "length ?b > 350")
    case True
    have "int (length (?loop [] (lines + 1))) \<le> maxl - (lines + 1)" if "lines + 1 < maxl" using Cons.IH that by blast
    then show ?thesis using True Cons.prems by (cases "maxl \<le> lines + 1") (simp_all add: Let_def)
  next
    case False
    then show ?thesis using Cons.IH [OF Cons.prems, of ?b] Cons.prems by (simp add: Let_def)
  qed
qed simp

lemma cmd_cb_hanja_lines:
  assumes "0 < maxl"
  shows "\<exists>out :: 'f reply list. cmd_cb_hanja R8 T maxl carg = Inr out \<and> int (length out) \<le> maxl"
proof -
  have "None \<in> set (find_by_sound T carg)" "None \<in> set (find_by_meaning T carg)"
    by (simp_all add: find_by_sound_def find_by_meaning_def)
  then show ?thesis
    using assms found_loop_lines [of "find_by_sound T carg" maxl 0 "[]" 0] found_loop_lines [of "find_by_meaning T carg" maxl 0 "[]" 0]
      chars_loop_lines [of 0 maxl T "utf8_split_chars carg" "[]"]
    by (auto simp: cmd_cb_hanja_def Let_def)
qed

end
