(* ===== verification/Dubeol.thy ===== *)
theory Dubeol
  imports Hangul
begin

text \<open>
  \<open>qwerty_to_2bul\<close> of \<open>modules/mod_strutils.cpp\<close>: text typed on the keys of a QWERTY keyboard read as
  Hangul of the two-set layout. The automaton's local variables are a record, one key is one step, and
  the memory behind the key table is not read: the search that runs past its end mark is a fault.
\<close>

subsection \<open>The key table\<close>

definition qwerty_to_2bul_table :: "(u32 \<times> byte) list" where
  "qwerty_to_2bul_table =
   [(HANGUL_CONSONANT_G, 0x72), (HANGUL_CONSONANT_GG, 0x52), (HANGUL_CONSONANT_N, 0x73),
    (HANGUL_CONSONANT_D, 0x65), (HANGUL_CONSONANT_DD, 0x45), (HANGUL_CONSONANT_L, 0x66),
    (HANGUL_CONSONANT_M, 0x61), (HANGUL_CONSONANT_B, 0x71), (HANGUL_CONSONANT_BB, 0x51),
    (HANGUL_CONSONANT_S, 0x74), (HANGUL_CONSONANT_SS, 0x54), (HANGUL_CONSONANT_NG, 0x64),
    (HANGUL_CONSONANT_J, 0x77), (HANGUL_CONSONANT_JJ, 0x57), (HANGUL_CONSONANT_CH, 0x63),
    (HANGUL_CONSONANT_K, 0x7a), (HANGUL_CONSONANT_T, 0x78), (HANGUL_CONSONANT_P, 0x76),
    (HANGUL_CONSONANT_H, 0x67), (HANGUL_VOWEL_A, 0x6b), (HANGUL_VOWEL_AE, 0x6f),
    (HANGUL_VOWEL_YA, 0x69), (HANGUL_VOWEL_YAE, 0x4f), (HANGUL_VOWEL_EO, 0x6a),
    (HANGUL_VOWEL_E, 0x70), (HANGUL_VOWEL_YEO, 0x75), (HANGUL_VOWEL_YE, 0x50),
    (HANGUL_VOWEL_O, 0x68), (HANGUL_VOWEL_YO, 0x79), (HANGUL_VOWEL_U, 0x6e),
    (HANGUL_VOWEL_YU, 0x62), (HANGUL_VOWEL_EU, 0x6d), (HANGUL_VOWEL_I, 0x6c),
    (HANGUL_CONSONANT_N, 0x53), (HANGUL_CONSONANT_L, 0x46), (HANGUL_CONSONANT_M, 0x41),
    (HANGUL_CONSONANT_NG, 0x44), (HANGUL_CONSONANT_CH, 0x43), (HANGUL_CONSONANT_K, 0x5a),
    (HANGUL_CONSONANT_T, 0x58), (HANGUL_CONSONANT_P, 0x56), (HANGUL_CONSONANT_H, 0x47),
    (HANGUL_VOWEL_A, 0x4b), (HANGUL_VOWEL_YA, 0x49), (HANGUL_VOWEL_EO, 0x4a),
    (HANGUL_VOWEL_YEO, 0x55), (HANGUL_VOWEL_O, 0x48), (HANGUL_VOWEL_YO, 0x59),
    (HANGUL_VOWEL_U, 0x4e), (HANGUL_VOWEL_YU, 0x42), (HANGUL_VOWEL_EU, 0x4d),
    (HANGUL_VOWEL_I, 0x4c), (HANGUL_CODE_END, 0)]"

text \<open>
  The loop of \<open>qwerty_to_2bul_onechar\<close> ends at an entry whose \<open>ch\<close> is zero. The end mark's is
  \<open>HANGUL_CODE_END\<close>, 0xffff, so for a byte that is no key the loop goes on behind the table.
\<close>

fun onechar_scan :: "(u32 \<times> byte) list \<Rightarrow> byte \<Rightarrow> c_fault + u32" where
  "onechar_scan [] p = Inl Read_past_end"
| "onechar_scan ((ch, kbdch) # t) p =
    (if ch = 0 then Inr 0 else if kbdch = p then Inr ch else onechar_scan t p)"

definition qwerty_to_2bul_onechar :: "byte \<Rightarrow> c_fault + u32" where
  "qwerty_to_2bul_onechar p = onechar_scan qwerty_to_2bul_table p"

subsection \<open>The automaton\<close>

text \<open>\<open>q_debug\<close> records the three \<open>puts("DEBUG ...")\<close> of the source by their numbers.\<close>

record qwerty_state =
  q_result :: "byte list"
  q_cho :: u32
  q_jung :: u32
  q_jong :: u32
  q_cho_splitted :: "u32 \<times> u32"
  q_jong_splitted :: "u32 \<times> u32"
  q_debug :: "nat list"

definition qwerty_init :: qwerty_state where
  "qwerty_init = \<lparr>q_result = [], q_cho = 0, q_jung = 0, q_jong = 0, q_cho_splitted = (0, 0),
     q_jong_splitted = (0, 0), q_debug = []\<rparr>"

text \<open>A finished letter: a final that no syllable can have is written behind it.\<close>

definition syllable_out :: "u32 \<Rightarrow> u32 \<Rightarrow> u32 \<Rightarrow> byte list" where
  "syllable_out cho jung jong =
    (if jong \<noteq> 0 \<and> \<not> hangul_is_jongseong_jamo jong
     then utf8_encode_s (hangul_join cho jung 0) @ utf8_encode_s jong
     else utf8_encode_s (hangul_join cho jung jong))"

definition COMMIT_HANGUL_BUFFER :: "qwerty_state \<Rightarrow> qwerty_state" where
  "COMMIT_HANGUL_BUFFER s =
    (let cho = q_cho s; jung = q_jung s; jong = q_jong s;
         (out, jong) =
           (if cho \<noteq> 0 \<and> jung \<noteq> 0 then (syllable_out cho jung jong, 0)
            else if cho \<noteq> 0 then (utf8_encode_s cho, jong)
            else if jung \<noteq> 0 then (utf8_encode_s jung, jong)
            else ([], jong))
     in s\<lparr>q_result := q_result s @ out, q_cho := 0, q_jung := 0, q_jong := 0,
          q_debug := q_debug s @ (if jong \<noteq> 0 then [1] else [])\<rparr>)"

text \<open>A consonant key. The branch with \<open>jung != 0\<close> inside the test for \<open>jung == 0\<close> is kept.\<close>

definition qwerty_consonant :: "u32 \<Rightarrow> qwerty_state \<Rightarrow> qwerty_state" where
  "qwerty_consonant ch s =
    (let cho = q_cho s; jung = q_jung s; jong = q_jong s
     in if cho = 0 then s\<lparr>q_cho := ch\<rparr>
        else if jung = 0 then
          (let ch2 = hangul_merge_allconsonant cho ch 0
           in if ch2 \<noteq> 0 then
                if jung = 0 then s\<lparr>q_cho_splitted := (cho, ch), q_cho := ch2\<rparr>
                else if hangul_is_choseong_jamo ch2 then s\<lparr>q_cho := ch2\<rparr>
                else s\<lparr>q_result := q_result s @ utf8_encode_s cho, q_cho := ch\<rparr>
              else s\<lparr>q_result := q_result s @ utf8_encode_s cho, q_cho := ch\<rparr>)
        else if jong = 0 then s\<lparr>q_jong := ch\<rparr>
        else
          (let ch2 = hangul_merge_consonant jong ch
           in if ch2 \<noteq> 0 \<and> hangul_is_jongseong_jamo ch2
              then s\<lparr>q_jong_splitted := (jong, ch), q_jong := ch2\<rparr>
              else s\<lparr>q_result := q_result s @ syllable_out cho jung jong, q_cho := ch, q_jung := 0,
                     q_jong := 0\<rparr>))"

text \<open>
  A vowel key. The text of a letter whose final moves on is made after \<open>jong = 0\<close>, so its test for a
  final that cannot stand never fires.
\<close>

definition vowel_cho :: "qwerty_state \<Rightarrow> qwerty_state" where
  "vowel_cho s =
    (if q_cho s \<noteq> 0 \<and> \<not> hangul_is_choseong_jamo (q_cho s)
     then s\<lparr>q_result := q_result s @ utf8_encode_s (fst (q_cho_splitted s)), q_cho := snd (q_cho_splitted s)\<rparr>
     else s)"

definition qwerty_vowel :: "u32 \<Rightarrow> qwerty_state \<Rightarrow> qwerty_state" where
  "qwerty_vowel ch s =
    (let s = vowel_cho s; cho = q_cho s; jung = q_jung s; jong = q_jong s
     in if jung = 0 then s\<lparr>q_jung := ch\<rparr>
        else if jong = 0 then
          (let ch2 = (if cho \<noteq> 0 then hangul_merge_vowel jung ch else hangul_merge_allvowel jung ch)
           in if ch2 \<noteq> 0 then s\<lparr>q_jung := ch2\<rparr>
              else if cho \<noteq> 0
                then s\<lparr>q_result := q_result s @ utf8_encode_s (hangul_join cho jung 0), q_cho := 0, q_jung := ch\<rparr>
                else s\<lparr>q_result := q_result s @ utf8_encode_s jung, q_jung := ch\<rparr>)
        else
          (let (jong_b, cho') = (if hangul_is_choseong_jamo jong then (0, jong) else q_jong_splitted s);
               out = (if (0 :: u32) \<noteq> 0 \<and> \<not> hangul_is_jongseong_jamo jong_b
                      then utf8_encode_s (hangul_join cho jung 0) @ utf8_encode_s jong_b
                      else utf8_encode_s (hangul_join cho jung jong_b))
           in s\<lparr>q_result := q_result s @ out, q_cho := cho', q_jung := ch, q_jong := 0,
                q_debug := q_debug s @ (if cho = 0 then [2] else [])\<rparr>))"

text \<open>One turn of the loop; \<open>assert(!"cannot happen")\<close> is a fault.\<close>

definition qwerty_step :: "byte \<Rightarrow> qwerty_state \<Rightarrow> c_fault + qwerty_state" where
  "qwerty_step p s =
    (case qwerty_to_2bul_onechar p of
       Inl e \<Rightarrow> Inl e
     | Inr ch \<Rightarrow>
         if ch = 0 then Inr ((COMMIT_HANGUL_BUFFER s)\<lparr>q_result := q_result (COMMIT_HANGUL_BUFFER s) @ [p]\<rparr>)
         else if hangul_is_consonant ch then Inr (qwerty_consonant ch s)
         else if hangul_is_vowel ch then Inr (qwerty_vowel ch s)
         else Inl Assert_failed)"

fun qwerty_loop :: "byte list \<Rightarrow> qwerty_state \<Rightarrow> c_fault + qwerty_state" where
  "qwerty_loop [] s = Inr s"
| "qwerty_loop (p # ps) s = (case qwerty_step p s of Inl e \<Rightarrow> Inl e | Inr s \<Rightarrow> qwerty_loop ps s)"

definition qwerty_to_2bul :: "byte list \<Rightarrow> c_fault + byte list" where
  "qwerty_to_2bul str =
    (case qwerty_loop (until_nul str) qwerty_init of
       Inl e \<Rightarrow> Inl e
     | Inr s \<Rightarrow> Inr (q_result (COMMIT_HANGUL_BUFFER s)))"


subsection \<open>Typing a text\<close>

text \<open>
  The keys of a letter: one key where the table has one, otherwise the two keys of the letters it is
  merged from. A syllable is typed letter by letter.
\<close>

definition letter_key :: "u32 \<Rightarrow> byte list" where
  "letter_key u = (case find (\<lambda>(ch, kbdch). ch = u) qwerty_to_2bul_table of None \<Rightarrow> [] | Some (ch, k) \<Rightarrow> [k])"

definition letter_keys :: "u32 \<Rightarrow> byte list" where
  "letter_keys u =
    (if letter_key u \<noteq> [] then letter_key u
     else case find (\<lambda>(c1, c2, c). c = u) (hangul_consonant_merge_table @ hangul_vowel_merge_table) of
       None \<Rightarrow> []
     | Some (c1, c2, c) \<Rightarrow> letter_key c1 @ letter_key c2)"

definition syllable_keys :: "u32 \<Rightarrow> byte list" where
  "syllable_keys u =
    (case hangul_split u of
       None \<Rightarrow> []
     | Some (c, v, j) \<Rightarrow> letter_keys c @ letter_keys v @ letter_keys j)"

text \<open>
  Two syllables stick when the first ends in the letter the second begins with and that letter doubles:
  the keys of the final and of the initial are then read as the double letter. \<open>as_read\<close> is the text the
  keys stand for with this reading.
\<close>

definition sticks :: "u32 \<Rightarrow> u32 \<Rightarrow> bool" where
  "sticks j c \<longleftrightarrow> j = c \<and> (c = HANGUL_CONSONANT_G \<or> c = HANGUL_CONSONANT_S)"

fun sticky :: "u32 \<times> u32 \<times> u32 \<Rightarrow> u32 \<times> u32 \<times> u32 \<Rightarrow> bool" where
  "sticky (c, v, j) (c', v', j') \<longleftrightarrow> sticks j c'"

definition double_letter :: "u32 \<Rightarrow> u32" where
  "double_letter c = (if c = HANGUL_CONSONANT_G then HANGUL_CONSONANT_GG else HANGUL_CONSONANT_SS)"

fun as_read :: "(u32 \<times> u32 \<times> u32) list \<Rightarrow> (u32 \<times> u32 \<times> u32) list" where
  "as_read ((c, v, j) # (c', v', j') # r) =
    (if sticks j c' then (c, v, 0) # as_read ((double_letter c', v', j') # r)
     else (c, v, j) # as_read ((c', v', j') # r))"
| "as_read r = r"

definition letters :: "(u32 \<times> u32 \<times> u32) \<Rightarrow> bool" where
  "letters = (\<lambda>(c, v, j). c \<in> set initials \<and> v \<in> set medials \<and> j \<in> set finals)"

definition join3 :: "u32 \<times> u32 \<times> u32 \<Rightarrow> u32" where
  "join3 = (\<lambda>(c, v, j). hangul_join c v j)"

definition keys3 :: "u32 \<times> u32 \<times> u32 \<Rightarrow> byte list" where
  "keys3 = (\<lambda>(c, v, j). letter_keys c @ letter_keys v @ letter_keys j)"

definition key_of :: "u32 \<Rightarrow> byte \<Rightarrow> bool" where
  "key_of u k \<longleftrightarrow> qwerty_to_2bul_onechar k = Inr u \<and> k \<noteq> 0 \<and> u \<noteq> 0"

definition vowel_keys_ok :: "u32 \<Rightarrow> bool" where
  "vowel_keys_ok v \<longleftrightarrow> hangul_is_vowel v \<and> v \<noteq> 0 \<and> \<not> hangul_is_consonant v \<and>
    (case letter_keys v of
       [k] \<Rightarrow> key_of v k
     | [k1, k2] \<Rightarrow> (case (qwerty_to_2bul_onechar k1, qwerty_to_2bul_onechar k2) of
         (Inr v1, Inr v2) \<Rightarrow> key_of v1 k1 \<and> key_of v2 k2 \<and> hangul_is_vowel v1 \<and> hangul_is_vowel v2 \<and>
           \<not> hangul_is_consonant v1 \<and> \<not> hangul_is_consonant v2 \<and> hangul_merge_vowel v1 v2 = v
       | _ \<Rightarrow> False)
     | _ \<Rightarrow> False)"

definition initial_keys_ok :: "u32 \<Rightarrow> bool" where
  "initial_keys_ok c \<longleftrightarrow> hangul_is_consonant c \<and> hangul_is_choseong_jamo c \<and>
    (case letter_keys c of [k] \<Rightarrow> key_of c k | _ \<Rightarrow> False)"

definition final_keys_ok :: "u32 \<Rightarrow> bool" where
  "final_keys_ok j \<longleftrightarrow>
    (case letter_keys j of
       [] \<Rightarrow> j = 0
     | [k] \<Rightarrow> key_of j k \<and> hangul_is_consonant j \<and> hangul_is_jongseong_jamo j
     | [k1, k2] \<Rightarrow> (case (qwerty_to_2bul_onechar k1, qwerty_to_2bul_onechar k2) of
         (Inr c1, Inr c2) \<Rightarrow> key_of c1 k1 \<and> key_of c2 k2 \<and> hangul_is_consonant c1 \<and> hangul_is_consonant c2 \<and>
           hangul_merge_consonant c1 c2 = j \<and> j \<noteq> 0 \<and> hangul_is_jongseong_jamo j
       | _ \<Rightarrow> False)
     | _ \<Rightarrow> False)"

definition merge_ok :: "u32 \<Rightarrow> u32 \<Rightarrow> bool" where
  "merge_ok j c \<longleftrightarrow> j = 0 \<and> \<not> sticks j c \<or> 
     (let m = hangul_merge_consonant j c
      in if m = 0 \<or> \<not> hangul_is_jongseong_jamo m then \<not> sticks j c
         else if hangul_is_choseong_jamo m then sticks j c \<and> m = double_letter c \<and> m \<in> set initials
         else \<not> sticks j c)"



lemma onechar_scan_in:
  "(u, k) \<in> set t \<Longrightarrow> distinct (map snd t) \<Longrightarrow> \<forall>x \<in> set t. fst x \<noteq> 0 \<Longrightarrow> onechar_scan t k = Inr u"
  by (induction t k rule: onechar_scan.induct) (auto simp: image_iff)

lemma qwerty_keys_distinct: "distinct (map snd qwerty_to_2bul_table)"
proof -
  have "distinct (map (unat \<circ> snd) qwerty_to_2bul_table)"
    by (simp add: qwerty_to_2bul_table_def)
  then show ?thesis by (simp add: distinct_map comp_inj_on_iff inj_on_def)
qed

lemma onechar_keys: "list_all (\<lambda>(u, k). qwerty_to_2bul_onechar k = Inr u) qwerty_to_2bul_table"
proof -
  have "\<forall>x \<in> set qwerty_to_2bul_table. fst x \<noteq> 0" by (simp add: qwerty_to_2bul_table_def)
  then show ?thesis
    by (auto simp: list_all_iff qwerty_to_2bul_onechar_def intro: onechar_scan_in [OF _ qwerty_keys_distinct])
qed

lemmas onechar_simps = onechar_keys [unfolded qwerty_to_2bul_table_def, simplified]

lemma letter_key_first:
  "list_all (\<lambda>(u, k). letter_key u = [k]) (take 33 qwerty_to_2bul_table)"
  by (simp add: letter_key_def qwerty_to_2bul_table_def)

lemmas letter_key_simps = letter_key_first [unfolded qwerty_to_2bul_table_def, simplified]

lemma letter_key_none:
  "list_all (\<lambda>u. letter_key u = []) [0, 0x3133, 0x3135, 0x3136, 0x313a, 0x313b, 0x313c,
   0x313d, 0x313e, 0x313f, 0x3140, 0x3144, 0x3158, 0x3159, 0x315a, 0x315d, 0x315e, 0x315f, 0x3162]"
  by (simp add: letter_key_def qwerty_to_2bul_table_def)

lemmas key_simps = onechar_simps letter_key_simps letter_key_none [simplified] letter_keys_def
  hangul_consonant_merge_table_def hangul_vowel_merge_table_def key_of_def hangul_is_consonant_def hangul_is_vowel_def

lemma t1: "list_all initial_keys_ok initials"
  by (simp add: initial_keys_ok_def initials_def key_simps hangul_is_choseong_jamo_def)
lemma t2: "list_all vowel_keys_ok medials"
  by (simp add: vowel_keys_ok_def medials_def key_simps hangul_merge_vowel_def)
lemma t3: "list_all final_keys_ok finals"
  by (simp add: final_keys_ok_def finals_def key_simps hangul_is_jongseong_jamo_def hangul_merge_consonant_def)
lemma initial_keys: "c \<in> set initials \<Longrightarrow> initial_keys_ok c"
  using t1 by (simp add: list_all_iff)

lemma vowel_keys: "v \<in> set medials \<Longrightarrow> vowel_keys_ok v"
  using t2 by (simp add: list_all_iff)

lemma final_keys: "j \<in> set finals \<Longrightarrow> final_keys_ok j"
  using t3 by (simp add: list_all_iff)

lemma merge_sticks: "sticks j c \<Longrightarrow> hangul_merge_consonant j c = double_letter c"
  by (auto simp: sticks_def double_letter_def hangul_merge_consonant_def hangul_consonant_merge_table_def)

lemma merge_table_ok:
  "list_all (\<lambda>(j, c, m). m \<noteq> 0 \<and>
     (if hangul_is_jongseong_jamo m then
        if hangul_is_choseong_jamo m then sticks j c \<and> m = double_letter c \<and> m \<in> set initials
        else \<not> sticks j c
      else \<not> sticks j c)) hangul_consonant_merge_table"
  by (simp add: hangul_consonant_merge_table_def hangul_is_jongseong_jamo_def hangul_is_choseong_jamo_def
      sticks_def double_letter_def initials_def)

lemma merge_final_initial: "merge_ok j c"
proof (cases "hangul_merge_consonant j c = 0")
  case True
  then have "\<not> sticks j c" using merge_sticks [of j c] by (auto simp: double_letter_def split: if_splits)
  then show ?thesis using True by (simp add: merge_ok_def)
next
  case False
  then have "(j, c, hangul_merge_consonant j c) \<in> set hangul_consonant_merge_table"
    unfolding hangul_merge_consonant_def by (rule merge_scan_in)
  then show ?thesis
    using merge_table_ok by (auto simp: list_all_iff merge_ok_def Let_def split: if_splits)
qed

subsection \<open>Runs of the automaton\<close>

lemma qwerty_loop_append:
  "qwerty_loop (a @ b) s = (case qwerty_loop a s of Inl e \<Rightarrow> Inl e | Inr s \<Rightarrow> qwerty_loop b s)"
  by (induction a arbitrary: s) (auto split: sum.split)

lemma qwerty_loop_then: "qwerty_loop a s = Inr s' \<Longrightarrow> qwerty_loop (a @ b) s = qwerty_loop b s'"
  by (simp add: qwerty_loop_append)

lemma qwerty_step_consonant [simp]:
  "key_of c k \<Longrightarrow> hangul_is_consonant c \<Longrightarrow> qwerty_step k s = Inr (qwerty_consonant c s)"
  by (simp add: qwerty_step_def key_of_def)

lemma qwerty_step_vowel [simp]:
  "key_of v k \<Longrightarrow> hangul_is_vowel v \<Longrightarrow> \<not> hangul_is_consonant v \<Longrightarrow> qwerty_step k s = Inr (qwerty_vowel v s)"
  by (simp add: qwerty_step_def key_of_def)

text \<open>The automaton holds the letter \<open>(c, v, j)\<close>, all text before it being written; it is ready for the
  first vowel of a letter with the initial \<open>c\<close>.\<close>

definition holds :: "qwerty_state \<Rightarrow> byte list \<Rightarrow> u32 \<Rightarrow> u32 \<Rightarrow> u32 \<Rightarrow> bool" where
  "holds s r c v j \<longleftrightarrow> q_result s = r \<and> q_cho s = c \<and> q_jung s = v \<and> q_jong s = j"

definition ready :: "qwerty_state \<Rightarrow> byte list \<Rightarrow> u32 \<Rightarrow> bool" where
  "ready s r c \<longleftrightarrow> (\<forall>v. holds (qwerty_vowel v s) r c v 0)"

lemma initial_nonzero: "c \<in> set initials \<Longrightarrow> c \<noteq> 0"
  by (auto simp: initials_def)

lemma ready_blank:
  assumes "c \<in> set initials" "holds s r 0 0 0"
  shows "ready (qwerty_consonant c s) r c"
  using initial_keys [OF assms(1)] assms(2)
  by (auto simp: ready_def holds_def qwerty_consonant_def qwerty_vowel_def vowel_cho_def initial_keys_ok_def Let_def)

lemma final_out: "j \<in> set finals \<Longrightarrow> syllable_out c v j = utf8_encode_s (hangul_join c v j)"
  using final_keys [of j]
  by (auto simp: syllable_out_def final_keys_ok_def split: list.splits sum.splits)

lemma sticks_0 [simp]: "\<not> sticks 0 c"
  by (auto simp: sticks_def)

lemma ready_next:
  assumes "c \<in> set initials" "v \<in> set medials" "j \<in> set finals" "c' \<in> set initials" "holds s r c v j"
  shows "ready (qwerty_consonant c' s)
      (r @ utf8_encode_s (hangul_join c v (if sticks j c' then 0 else j))) (if sticks j c' then double_letter c' else c')"
proof -
  have c: "hangul_is_choseong_jamo c" "hangul_is_choseong_jamo c'" "c \<noteq> 0" "c' \<noteq> 0" "v \<noteq> 0"
    using initial_keys vowel_keys [OF assms(2)] initial_nonzero assms(1,4)
    by (auto simp: initial_keys_ok_def vowel_keys_ok_def)
  have h: "q_result s = r" "q_cho s = c" "q_jung s = v" "q_jong s = j" using assms(5) by (auto simp: holds_def)
  show ?thesis
    using merge_final_initial [of j c'] c h final_out [OF assms(3)]
    by (auto simp: ready_def holds_def qwerty_consonant_def qwerty_vowel_def vowel_cho_def merge_ok_def Let_def
        split: if_splits)
qed

lemma read_final:
  assumes "c \<noteq> 0" "v \<noteq> 0" "j \<in> set finals" "holds s r c v 0"
  obtains s' where "qwerty_loop (letter_keys j) s = Inr s'" "holds s' r c v j"
  using final_keys [OF assms(3)] assms
  by (auto simp: holds_def final_keys_ok_def qwerty_consonant_def Let_def key_of_def split: list.splits sum.splits)

lemma read_rest:
  assumes "c \<in> set initials" "v \<in> set medials" "j \<in> set finals" "ready s r c"
  obtains s' where "qwerty_loop (letter_keys v @ letter_keys j) s = Inr s'" "holds s' r c v j"
proof -
  have c: "hangul_is_choseong_jamo c" "c \<noteq> 0" "v \<noteq> 0"
    using initial_keys [OF assms(1)] vowel_keys [OF assms(2)] initial_nonzero assms(1)
    by (auto simp: initial_keys_ok_def vowel_keys_ok_def)
  have two: "holds (qwerty_vowel v2 (qwerty_vowel v1 s)) r c (hangul_merge_vowel v1 v2) 0"
    if "v1 \<noteq> 0" "hangul_merge_vowel v1 v2 \<noteq> 0" for v1 v2
  proof -
    have "holds (qwerty_vowel v1 s) r c v1 0" using assms(4) by (simp add: ready_def)
    then show ?thesis
      using c that by (simp add: holds_def qwerty_vowel_def [of v2] vowel_cho_def [of "qwerty_vowel v1 s"] Let_def)
  qed
  have "\<exists>s'. qwerty_loop (letter_keys v) s = Inr s' \<and> holds s' r c v 0"
    using vowel_keys [OF assms(2)] assms(4) two
    by (auto simp: vowel_keys_ok_def ready_def key_of_def split: list.splits sum.splits)
  then obtain s1 where s1: "qwerty_loop (letter_keys v) s = Inr s1" "holds s1 r c v 0" by blast
  obtain s' where "qwerty_loop (letter_keys j) s1 = Inr s'" "holds s' r c v j"
    by (rule read_final [OF c(2,3) assms(3) s1(2)])
  then show ?thesis using that s1(1) by (simp add: qwerty_loop_append)
qed

lemma read_held:
  assumes "letters (c, v, j)" "list_all letters ls" "holds s r c v j"
  shows "\<exists>s'. qwerty_loop (concat (map keys3 ls)) s = Inr s' \<and>
    q_result (COMMIT_HANGUL_BUFFER s') = r @ concat (map (\<lambda>l. utf8_encode_s (join3 l)) (as_read ((c, v, j) # ls)))"
  using assms
proof (induction ls arbitrary: c v j s r)
  case Nil
  have "c \<noteq> 0" "v \<noteq> 0" using Nil.prems(1) initial_nonzero vowel_keys by (auto simp: letters_def vowel_keys_ok_def)
  then show ?case
    using Nil.prems by (auto simp: holds_def COMMIT_HANGUL_BUFFER_def join3_def letters_def final_out Let_def)
next
  case (Cons l ls)
  obtain c' v' j' where l: "l = (c', v', j')" by (cases l)
  have m: "c \<in> set initials" "v \<in> set medials" "j \<in> set finals" "c' \<in> set initials" "v' \<in> set medials" "j' \<in> set finals"
    using Cons.prems(1,2) by (auto simp: letters_def l)
  define r' where "r' = r @ utf8_encode_s (hangul_join c v (if sticks j c' then 0 else j))"
  define d where "d = (if sticks j c' then double_letter c' else c')"
  have d: "d \<in> set initials"
    using m(4) by (auto simp: d_def sticks_def double_letter_def initials_def)
  obtain k where k: "letter_keys c' = [k]" "key_of c' k" "hangul_is_consonant c'"
    using initial_keys [OF m(4)] by (auto simp: initial_keys_ok_def split: list.splits)
  obtain s1 where s1: "qwerty_loop (letter_keys v' @ letter_keys j') (qwerty_consonant c' s) = Inr s1" "holds s1 r' d v' j'"
    by (rule read_rest [OF d m(5,6)]) (use ready_next [OF m(1-4) Cons.prems(3)] in \<open>simp_all add: r'_def d_def\<close>)
  obtain s' where s': "qwerty_loop (concat (map keys3 ls)) s1 = Inr s'"
    "q_result (COMMIT_HANGUL_BUFFER s') = r' @ concat (map (\<lambda>l. utf8_encode_s (join3 l)) (as_read ((d, v', j') # ls)))"
    using Cons.IH [of d v' j' s1 r'] Cons.prems(2) d m s1(2) by (auto simp: letters_def)
  have "qwerty_loop (concat (map keys3 (l # ls))) s = qwerty_loop (concat (map keys3 ls)) s1"
    using qwerty_loop_then [OF s1(1)] k by (simp add: keys3_def l)
  moreover have "as_read ((c, v, j) # l # ls) = (c, v, if sticks j c' then 0 else j) # as_read ((d, v', j') # ls)"
    by (simp add: l d_def)
  ultimately show ?case using s' by (simp add: r'_def join3_def)
qed

lemma read_letters:
  assumes "list_all letters ls"
  shows "\<exists>s'. qwerty_loop (concat (map keys3 ls)) qwerty_init = Inr s' \<and>
    q_result (COMMIT_HANGUL_BUFFER s') = concat (map (\<lambda>l. utf8_encode_s (join3 l)) (as_read ls))"
proof (cases ls)
  case Nil
  then show ?thesis by (simp add: qwerty_init_def COMMIT_HANGUL_BUFFER_def)
next
  case (Cons l ls')
  obtain c v j where l: "l = (c, v, j)" by (cases l)
  have m: "c \<in> set initials" "v \<in> set medials" "j \<in> set finals" using assms by (auto simp: letters_def l Cons)
  obtain k where k: "letter_keys c = [k]" "key_of c k" "hangul_is_consonant c"
    using initial_keys [OF m(1)] by (auto simp: initial_keys_ok_def split: list.splits)
  have "ready (qwerty_consonant c qwerty_init) [] c"
    by (rule ready_blank [OF m(1)]) (simp add: holds_def qwerty_init_def)
  from read_rest [OF m this] obtain s1 where
    s1: "qwerty_loop (letter_keys v @ letter_keys j) (qwerty_consonant c qwerty_init) = Inr s1" "holds s1 [] c v j" .
  have "qwerty_loop (concat (map keys3 ls)) qwerty_init = qwerty_loop (concat (map keys3 ls')) s1"
    using qwerty_loop_then [OF s1(1)] k by (simp add: keys3_def l Cons)
  then show ?thesis using read_held [of c v j ls' s1 "[]"] assms s1(2) by (auto simp: Cons l)
qed

lemma letter_key_nonzero: "cstr_ok (letter_keys c)"
  if "c \<in> set initials \<or> c \<in> set medials \<or> c \<in> set finals"
  using that initial_keys [of c] vowel_keys [of c] final_keys [of c]
  by (auto simp: initial_keys_ok_def vowel_keys_ok_def final_keys_ok_def key_of_def split: list.splits sum.splits)

lemma syllable_letters:
  assumes "hangul_is_syllable u"
  shows "letters (the (hangul_split u))" "join3 (the (hangul_split u)) = u" "syllable_keys u = keys3 (the (hangul_split u))"
proof -
  obtain a b c where abc: "a < 19" "b < 21" "c < 28" "u = syllable_of a b c"
    using syllable_of_cases [of u] assms by (auto simp: hangul_is_syllable_def)
  have len: "length initials = 19" "length medials = 21" "length finals = 28"
    by (simp_all add: initials_def medials_def finals_def)
  show "letters (the (hangul_split u))" "join3 (the (hangul_split u)) = u" "syllable_keys u = keys3 (the (hangul_split u))"
    using abc hangul_split_syllable [OF abc(1-3)] hangul_join_indices [OF abc(1-3)] len
    by (simp_all add: letters_def join3_def syllable_keys_def keys3_def)
qed

lemma as_read_id: "successively (\<lambda>l l'. \<not> sticky l l') ls \<Longrightarrow> as_read ls = ls"
  by (induction ls rule: as_read.induct) auto

text \<open>C37: Every Korean text comes back from its keys: typing the letters of syllables one after the other, double
  vowels and double finals as two keys, gives these syllables, whatever final moves on to the next one on the
  way. The one exception is a final and an initial that are the same \<open>HANGUL_CONSONANT_G\<close> or
  \<open>HANGUL_CONSONANT_S\<close>: their keys are read as the double initial.\<close>

theorem qwerty_to_2bul_types:
  assumes "\<forall>u \<in> set us. hangul_is_syllable u"
  shows "qwerty_to_2bul (concat (map syllable_keys us)) =
      Inr (concat (map (\<lambda>l. utf8_encode_s (join3 l)) (as_read (map (the \<circ> hangul_split) us)))) \<and>
    (successively (\<lambda>l l'. \<not> sticky l l') (map (the \<circ> hangul_split) us) \<longrightarrow>
      qwerty_to_2bul (concat (map syllable_keys us)) = Inr (concat (map utf8_encode_s us)))"
proof -
  let ?ls = "map (the \<circ> hangul_split) us"
  have k: "map syllable_keys us = map keys3 ?ls" using assms by (simp add: syllable_letters)
  have l: "list_all letters ?ls" using assms by (simp add: list_all_iff syllable_letters)
  have "cstr_ok (concat (map keys3 ?ls))"
    using l letter_key_nonzero by (induction us) (auto simp: keys3_def letters_def split: prod.splits)
  then have u: "until_nul (concat (map syllable_keys us)) = concat (map keys3 ?ls)" by (simp add: k until_nul_id)
  have r: "qwerty_to_2bul (concat (map syllable_keys us)) = Inr (concat (map (\<lambda>l. utf8_encode_s (join3 l)) (as_read ?ls)))"
    using read_letters [OF l] u by (auto simp: qwerty_to_2bul_def)
  have j: "map (\<lambda>l. utf8_encode_s (join3 l)) ?ls = map utf8_encode_s us" using assms by (simp add: syllable_letters)
  have "qwerty_to_2bul (concat (map syllable_keys us)) = Inr (concat (map utf8_encode_s us))"
    if "successively (\<lambda>l l'. \<not> sticky l l') ?ls"
    using r as_read_id [OF that] j by metis
  then show ?thesis using r by blast
qed

lemma qwerty_to_2bul_types_witness:
  "qwerty_to_2bul (syllable_keys 0xAC12 @ syllable_keys 0xAC00) = Inr (utf8_encode_s 0xAC12 @ utf8_encode_s 0xAC00)"
proof -
  have s: "hangul_split 0xAC12 = Some (0x3131, 0x314f, 0x3144)" "hangul_split 0xAC00 = Some (0x3131, 0x314f, 0)"
    by (simp_all add: hangul_split_def initials_def medials_def finals_def)
  have "\<forall>u \<in> set [0xAC12, 0xAC00]. hangul_is_syllable u" by (simp add: hangul_is_syllable_def)
  from conjunct2 [OF qwerty_to_2bul_types [OF this]] show ?thesis by (simp add: s sticks_def)
qed

subsection \<open>The automaton's invariant\<close>

definition is_key :: "byte \<Rightarrow> bool" where
  "is_key p \<longleftrightarrow> p \<in> set (map snd (butlast qwerty_to_2bul_table))"

text \<open>
  The buffer holds letters of the right kind: a first consonant that can begin a syllable unless no
  vowel follows it yet, and then its second part can; a vowel; a final only behind both, which can begin the
  next syllable or is made of two that end this one and begin the next.
\<close>

definition qwerty_wf :: "qwerty_state \<Rightarrow> bool" where
  "qwerty_wf s \<longleftrightarrow>
    (q_cho s = 0 \<or> hangul_is_choseong_jamo (q_cho s) \<or>
      (hangul_is_consonant (q_cho s) \<or> hangul_is_oldconsonant (q_cho s)) \<and> q_jung s = 0 \<and>
      hangul_is_choseong_jamo (snd (q_cho_splitted s))) \<and>
    (q_jung s = 0 \<or> hangul_is_vowel (q_jung s) \<or> hangul_is_oldvowel (q_jung s)) \<and>
    (q_jong s = 0 \<or> q_cho s \<noteq> 0 \<and> q_jung s \<noteq> 0 \<and>
      (hangul_is_choseong_jamo (q_jong s) \<or>
       hangul_is_jongseong_jamo (q_jong s) \<and> hangul_is_jongseong_jamo (fst (q_jong_splitted s)) \<and>
       hangul_is_choseong_jamo (snd (q_jong_splitted s)))) \<and>
    q_debug s = []"

lemma letter_nonzero:
  "hangul_is_choseong_jamo c \<Longrightarrow> c \<noteq> 0" "hangul_is_vowel c \<Longrightarrow> c \<noteq> 0" "hangul_is_vowel c \<Longrightarrow> \<not> hangul_is_consonant c"
  by (auto simp: hangul_is_choseong_jamo_def hangul_is_vowel_def hangul_is_consonant_def word_le_nat_alt)

lemma is_key_cases:
  assumes "is_key p"
  obtains ch where "qwerty_to_2bul_onechar p = Inr ch" "ch \<noteq> 0" "hangul_is_consonant ch" "hangul_is_choseong_jamo ch"
    | ch where "qwerty_to_2bul_onechar p = Inr ch" "ch \<noteq> 0" "\<not> hangul_is_consonant ch" "hangul_is_vowel ch"
proof -
  have t: "list_all (\<lambda>(u, k). if hangul_is_consonant u then hangul_is_choseong_jamo u else hangul_is_vowel u)
      (butlast qwerty_to_2bul_table)"
    by (simp add: qwerty_to_2bul_table_def hangul_is_consonant_def hangul_is_vowel_def hangul_is_choseong_jamo_def)
  obtain u where u: "(u, p) \<in> set (butlast qwerty_to_2bul_table)" using assms by (auto simp: is_key_def)
  then have "qwerty_to_2bul_onechar p = Inr u" using onechar_keys by (auto simp: list_all_iff dest: in_set_butlastD)
  moreover have "hangul_is_consonant u \<and> hangul_is_choseong_jamo u \<or> \<not> hangul_is_consonant u \<and> hangul_is_vowel u"
    using t u by (auto simp: list_all_iff split: if_splits)
  ultimately show ?thesis using that letter_nonzero by blast
qed

lemma onechar_scan_miss:
  "p \<notin> set (map snd t) \<Longrightarrow> \<forall>x \<in> set t. fst x \<noteq> 0 \<Longrightarrow> onechar_scan t p = Inl Read_past_end"
  by (induction t p rule: onechar_scan.induct) auto

lemma not_key: "\<not> is_key p \<Longrightarrow> p \<noteq> 0 \<Longrightarrow> qwerty_to_2bul_onechar p = Inl Read_past_end"
  unfolding qwerty_to_2bul_onechar_def
  by (rule onechar_scan_miss) (simp_all add: is_key_def qwerty_to_2bul_table_def)

lemma merge_tables_ok:
  "list_all (\<lambda>(a, b, c). hangul_is_consonant c \<and> hangul_is_jongseong_jamo a) hangul_consonant_merge_table"
  "list_all (\<lambda>(a, b, b', c). hangul_is_oldconsonant c) hangul_oldconsonant_merge_table"
  "list_all (\<lambda>(a, b, c). hangul_is_vowel c) hangul_vowel_merge_table"
  "list_all (\<lambda>(a, b, c). hangul_is_oldvowel c) hangul_oldvowel_merge_table"
  by (simp_all add: hangul_consonant_merge_table_def hangul_oldconsonant_merge_table_def hangul_vowel_merge_table_def
      hangul_oldvowel_merge_table_def hangul_is_consonant_def hangul_is_oldconsonant_def hangul_is_vowel_def
      hangul_is_oldvowel_def hangul_is_jongseong_jamo_def)

lemma merge_scan3_in:
  "merge_scan3 ps a b c \<noteq> 0 \<Longrightarrow> (a, b, c, merge_scan3 ps a b c) \<in> set ps"
  by (induction ps) (auto split: if_splits)

lemma merge_consonant_kind:
  "hangul_merge_consonant a b \<noteq> 0 \<Longrightarrow> hangul_is_consonant (hangul_merge_consonant a b) \<and> hangul_is_jongseong_jamo a"
  using merge_scan_in [of hangul_consonant_merge_table a b] merge_tables_ok(1)
  by (auto simp: hangul_merge_consonant_def list_all_iff)

lemma merge_allconsonant_kind:
  "hangul_merge_allconsonant a b c \<noteq> 0 \<Longrightarrow>
    hangul_is_consonant (hangul_merge_allconsonant a b c) \<or> hangul_is_oldconsonant (hangul_merge_allconsonant a b c)"
  using merge_scan3_in [of hangul_oldconsonant_merge_table a b c] merge_consonant_kind [of a b] merge_tables_ok(2)
  by (auto simp: hangul_merge_allconsonant_def Let_def list_all_iff)

lemma merge_vowel_kind: "hangul_merge_vowel a b \<noteq> 0 \<Longrightarrow> hangul_is_vowel (hangul_merge_vowel a b)"
  using merge_scan_in [of hangul_vowel_merge_table a b] merge_tables_ok(3)
  by (auto simp: hangul_merge_vowel_def list_all_iff)

lemma merge_allvowel_kind:
  "hangul_merge_allvowel a b \<noteq> 0 \<Longrightarrow>
    hangul_is_vowel (hangul_merge_allvowel a b) \<or> hangul_is_oldvowel (hangul_merge_allvowel a b)"
  using merge_scan_in [of hangul_oldvowel_merge_table a b] merge_vowel_kind [of a b] merge_tables_ok(4)
  by (auto simp: hangul_merge_allvowel_def Let_def list_all_iff)

lemma qwerty_consonant_wf:
  assumes "qwerty_wf s" "hangul_is_choseong_jamo ch"
  shows "qwerty_wf (qwerty_consonant ch s)"
  using assms letter_nonzero(1) [OF assms(2)] merge_allconsonant_kind [of "q_cho s" ch 0] merge_consonant_kind [of "q_jong s" ch]
  by (auto simp: qwerty_consonant_def Let_def qwerty_wf_def)

lemma vowel_cho_wf:
  assumes "qwerty_wf s"
  shows "qwerty_wf (vowel_cho s)" "q_cho (vowel_cho s) = 0 \<or> hangul_is_choseong_jamo (q_cho (vowel_cho s))"
  using assms by (auto simp: vowel_cho_def qwerty_wf_def dest: letter_nonzero(1))

lemma qwerty_vowel_wf:
  assumes "qwerty_wf s" "hangul_is_vowel ch"
  shows "qwerty_wf (qwerty_vowel ch s)"
  using vowel_cho_wf [OF assms(1)] assms(2) letter_nonzero(2) [OF assms(2)]
    merge_vowel_kind [of "q_jung (vowel_cho s)" ch] merge_allvowel_kind [of "q_jung (vowel_cho s)" ch]
  by (auto simp: qwerty_vowel_def Let_def qwerty_wf_def split: prod.splits if_splits dest: letter_nonzero(1))

lemma qwerty_step_wf:
  assumes "qwerty_wf s" "p \<noteq> 0"
  shows "case qwerty_step p s of
      Inl e \<Rightarrow> e = Read_past_end \<and> \<not> is_key p
    | Inr s' \<Rightarrow> is_key p \<and> qwerty_wf s'"
proof (cases "is_key p")
  case True
  from True show ?thesis
    by (cases rule: is_key_cases) (simp_all add: qwerty_step_def qwerty_consonant_wf qwerty_vowel_wf assms True)
next
  case False
  then show ?thesis using assms(2) by (simp add: qwerty_step_def not_key)
qed

lemma qwerty_loop_wf:
  assumes "qwerty_wf s" "cstr_ok str"
  shows "case qwerty_loop str s of
      Inl e \<Rightarrow> e = Read_past_end \<and> \<not> list_all is_key str
    | Inr s' \<Rightarrow> list_all is_key str \<and> qwerty_wf s'"
  using assms
proof (induction str arbitrary: s)
  case (Cons p str)
  show ?case
  proof (cases "qwerty_step p s")
    case (Inr s')
    then have "is_key p" "qwerty_wf s'" using qwerty_step_wf [of s p] Cons.prems by auto
    then show ?thesis using Cons.IH [of s'] Cons.prems Inr by (simp split: sum.splits)
  qed (use qwerty_step_wf [of s p] Cons.prems in auto)
qed simp

lemma COMMIT_wf: "qwerty_wf s \<Longrightarrow> q_debug (COMMIT_HANGUL_BUFFER s) = []"
  by (auto simp: qwerty_wf_def COMMIT_HANGUL_BUFFER_def Let_def)

text \<open>C38: Whatever text is typed, the letters in the automaton's buffer stay of the kind their place asks for
  (a first consonant, a vowel, a final behind both, and the two parts of a final or of a first consonant that
  may have to be taken apart), none of the three debugging messages and not the assertion is ever reached; the
  only fault is the search behind the key table, and it happens exactly when some byte is no key.\<close>

theorem qwerty_to_2bul_letters:
  "case qwerty_loop (until_nul str) qwerty_init of
     Inl e \<Rightarrow> e = Read_past_end \<and> \<not> list_all is_key (until_nul str)
   | Inr s \<Rightarrow> list_all is_key (until_nul str) \<and> qwerty_wf s \<and> q_debug (COMMIT_HANGUL_BUFFER s) = []"
proof -
  have "qwerty_wf qwerty_init" by (simp add: qwerty_wf_def qwerty_init_def)
  from qwerty_loop_wf [OF this until_nul_cstr_ok [of str]] show ?thesis
    by (auto split: sum.splits dest: COMMIT_wf)
qed

subsection \<open>Keys that are read as something else\<close>

lemmas qwerty_run = qwerty_to_2bul_def qwerty_init_def qwerty_step_def onechar_simps qwerty_consonant_def qwerty_vowel_def
  vowel_cho_def COMMIT_HANGUL_BUFFER_def syllable_out_def Let_def hangul_is_consonant_def hangul_is_vowel_def
  hangul_is_choseong_jamo_def hangul_is_jongseong_jamo_def until_nul_def
  hangul_merge_consonant_def hangul_consonant_merge_table_def hangul_merge_vowel_def hangul_vowel_merge_table_def
  hangul_merge_allvowel_def hangul_oldvowel_merge_table_def

text \<open>A vowel before a consonant is joined with it: \<open>kr\<close> and \<open>rk\<close> both give one syllable.\<close>

lemma vowel_before_consonant: "qwerty_to_2bul [0x6b, 0x72] = qwerty_to_2bul [0x72, 0x6b]"
  by (simp add: qwerty_run)

text \<open>A merged old vowel before a consonant (\<open>yir\<close>) has no syllable; what is written is a NUL byte.\<close>

lemma old_vowel_nul: "qwerty_to_2bul [0x79, 0x69, 0x72] = Inr [0]"
  by (simp add: qwerty_run hangul_join_def utf8_encode_s_def utf8_encode_def utf8_encode_buf_def)

text \<open>The keys of two different texts (\<open>rkrrk\<close>, \<open>rkRk\<close>) are read alike.\<close>

lemma sticky_keys: "qwerty_to_2bul [0x72, 0x6b, 0x72, 0x72, 0x6b] = qwerty_to_2bul [0x72, 0x6b, 0x52, 0x6b]"
  by (simp add: qwerty_run)

text \<open>A space (\<open>rk rk\<close>) sends the search behind the key table.\<close>

lemma space_no_key: "qwerty_to_2bul [0x72, 0x6b, 0x20] = Inl Read_past_end"
proof -
  have "\<not> is_key 0x20" by (simp add: is_key_def qwerty_to_2bul_table_def)
  then have "qwerty_to_2bul_onechar 0x20 = Inl Read_past_end" by (rule not_key) simp
  then show ?thesis by (simp add: qwerty_run)
qed
end
