(* ===== verification/Md5.thy ===== *)
theory Md5
  imports Prelude
begin

text \<open>
  MD5: \<open>md5_impl.c\<close>, \<open>md5_impl.h\<close> and the wrappers of \<open>md5.cpp\<close>, and the digest of RFC 1321 they
  compute.

  \<open>MD5_u32plus\<close> is \<open>unsigned long\<close>, so on LP64 every lane of the context is a \<open>64 word\<close> whose upper
  half collects garbage; the definitions keep that. The RFC's functions work on \<open>32 word\<close>.
\<close>

subsection \<open>The context and the transformation\<close>

record md5_ctx =
  ctx_lo :: u64
  ctx_hi :: u64
  ctx_a :: u64
  ctx_b :: u64
  ctx_c :: u64
  ctx_d :: u64
  ctx_buffer :: "byte list"
  ctx_block :: "u64 list"

datatype md5_fun = MD5_F | MD5_G | MD5_H | MD5_I

fun md5_basic :: "md5_fun \<Rightarrow> u64 \<Rightarrow> u64 \<Rightarrow> u64 \<Rightarrow> u64" where
  "md5_basic MD5_F x y z = z XOR (x AND (y XOR z))"
| "md5_basic MD5_G x y z = y XOR (z AND (x XOR y))"
| "md5_basic MD5_H x y z = x XOR y XOR z"
| "md5_basic MD5_I x y z = y XOR (x OR NOT z)"

text \<open>\<open>STEP\<close>: the new value of its first lane.\<close>

definition md5_STEP :: "md5_fun \<Rightarrow> u64 \<Rightarrow> u64 \<Rightarrow> u64 \<Rightarrow> u64 \<Rightarrow> u64 \<Rightarrow> u64 \<Rightarrow> nat \<Rightarrow> u64" where
  "md5_STEP f a b c d x t s =
    (let a = a + (md5_basic f b c d + x + t);
         a = push_bit s a OR drop_bit (32 - s) (a AND 0xffffffff)
     in a + b)"

text \<open>\<open>SET(n)\<close> on a machine without the little-endian shortcut.\<close>

definition md5_SET :: "byte list \<Rightarrow> nat \<Rightarrow> u64" where
  "md5_SET ptr n =
    ucast (ptr ! (n * 4)) OR push_bit 8 (ucast (ptr ! (n * 4 + 1))) OR
    push_bit 16 (ucast (ptr ! (n * 4 + 2))) OR push_bit 24 (ucast (ptr ! (n * 4 + 3)))"

text \<open>The 64 steps: function, block word, constant, shift. The lanes rotate from step to step:
  \<open>(a, b, c, d)\<close>, \<open>(d, a, b, c)\<close>, \<open>(c, d, a, b)\<close>, \<open>(b, c, d, a)\<close>.\<close>

definition md5_steps :: "(md5_fun \<times> nat \<times> u32 \<times> nat) list" where
  "md5_steps =
   [(MD5_F, 0, 0xd76aa478, 7), (MD5_F, 1, 0xe8c7b756, 12), (MD5_F, 2, 0x242070db, 17), (MD5_F, 3, 0xc1bdceee, 22),
    (MD5_F, 4, 0xf57c0faf, 7), (MD5_F, 5, 0x4787c62a, 12), (MD5_F, 6, 0xa8304613, 17), (MD5_F, 7, 0xfd469501, 22),
    (MD5_F, 8, 0x698098d8, 7), (MD5_F, 9, 0x8b44f7af, 12), (MD5_F, 10, 0xffff5bb1, 17), (MD5_F, 11, 0x895cd7be, 22),
    (MD5_F, 12, 0x6b901122, 7), (MD5_F, 13, 0xfd987193, 12), (MD5_F, 14, 0xa679438e, 17), (MD5_F, 15, 0x49b40821, 22),
    (MD5_G, 1, 0xf61e2562, 5), (MD5_G, 6, 0xc040b340, 9), (MD5_G, 11, 0x265e5a51, 14), (MD5_G, 0, 0xe9b6c7aa, 20),
    (MD5_G, 5, 0xd62f105d, 5), (MD5_G, 10, 0x02441453, 9), (MD5_G, 15, 0xd8a1e681, 14), (MD5_G, 4, 0xe7d3fbc8, 20),
    (MD5_G, 9, 0x21e1cde6, 5), (MD5_G, 14, 0xc33707d6, 9), (MD5_G, 3, 0xf4d50d87, 14), (MD5_G, 8, 0x455a14ed, 20),
    (MD5_G, 13, 0xa9e3e905, 5), (MD5_G, 2, 0xfcefa3f8, 9), (MD5_G, 7, 0x676f02d9, 14), (MD5_G, 12, 0x8d2a4c8a, 20),
    (MD5_H, 5, 0xfffa3942, 4), (MD5_H, 8, 0x8771f681, 11), (MD5_H, 11, 0x6d9d6122, 16), (MD5_H, 14, 0xfde5380c, 23),
    (MD5_H, 1, 0xa4beea44, 4), (MD5_H, 4, 0x4bdecfa9, 11), (MD5_H, 7, 0xf6bb4b60, 16), (MD5_H, 10, 0xbebfbc70, 23),
    (MD5_H, 13, 0x289b7ec6, 4), (MD5_H, 0, 0xeaa127fa, 11), (MD5_H, 3, 0xd4ef3085, 16), (MD5_H, 6, 0x04881d05, 23),
    (MD5_H, 9, 0xd9d4d039, 4), (MD5_H, 12, 0xe6db99e5, 11), (MD5_H, 15, 0x1fa27cf8, 16), (MD5_H, 2, 0xc4ac5665, 23),
    (MD5_I, 0, 0xf4292244, 6), (MD5_I, 7, 0x432aff97, 10), (MD5_I, 14, 0xab9423a7, 15), (MD5_I, 5, 0xfc93a039, 21),
    (MD5_I, 12, 0x655b59c3, 6), (MD5_I, 3, 0x8f0ccc92, 10), (MD5_I, 10, 0xffeff47d, 15), (MD5_I, 1, 0x85845dd1, 21),
    (MD5_I, 8, 0x6fa87e4f, 6), (MD5_I, 15, 0xfe2ce6e0, 10), (MD5_I, 6, 0xa3014314, 15), (MD5_I, 13, 0x4e0811a1, 21),
    (MD5_I, 4, 0xf7537e82, 6), (MD5_I, 11, 0xbd3af235, 10), (MD5_I, 2, 0x2ad7d2bb, 15), (MD5_I, 9, 0xeb86d391, 21)]"

definition md5_step :: "u64 list \<Rightarrow> md5_fun \<times> nat \<times> u32 \<times> nat \<Rightarrow> u64 \<times> u64 \<times> u64 \<times> u64 \<Rightarrow> u64 \<times> u64 \<times> u64 \<times> u64" where
  "md5_step block = (\<lambda>(f, k, t, s) (a, b, c, d). (d, md5_STEP f a b c d (block ! k) (ucast t) s, b, c))"

text \<open>One turn of the loop of \<open>body\<close>.\<close>

definition md5_body_turn :: "md5_ctx \<Rightarrow> byte list \<Rightarrow> md5_ctx" where
  "md5_body_turn ctx ptr =
    (let block = map (md5_SET ptr) [0..<16];
         (a, b, c, d) = fold (md5_step block) md5_steps (ctx_a ctx, ctx_b ctx, ctx_c ctx, ctx_d ctx)
     in ctx\<lparr>ctx_block := block, ctx_a := a + ctx_a ctx, ctx_b := b + ctx_b ctx,
            ctx_c := c + ctx_c ctx, ctx_d := d + ctx_d ctx\<rparr>)"

text \<open>\<open>body\<close> for a size of \<open>n\<close> blocks; the callers pass a positive multiple of 64. The result is the
  context and the data behind the blocks.\<close>

primrec md5_body :: "md5_ctx \<Rightarrow> byte list \<Rightarrow> nat \<Rightarrow> md5_ctx \<times> byte list" where
  "md5_body ctx ptr 0 = (ctx, ptr)"
| "md5_body ctx ptr (Suc n) = md5_body (md5_body_turn ctx ptr) (drop 64 ptr) n"

subsection \<open>The three operations\<close>

definition MD5_Init :: "md5_ctx \<Rightarrow> md5_ctx" where
  "MD5_Init ctx = ctx\<lparr>ctx_a := 0x67452301, ctx_b := 0xefcdab89, ctx_c := 0x98badcfe, ctx_d := 0x10325476,
     ctx_lo := 0, ctx_hi := 0\<rparr>"

text \<open>\<open>memcpy(&buf[pos], bs, n)\<close>.\<close>

definition put_bytes :: "byte list \<Rightarrow> nat \<Rightarrow> byte list \<Rightarrow> byte list" where
  "put_bytes buf pos bs = take pos buf @ bs @ drop (pos + length bs) buf"

definition MD5_Update_rest :: "md5_ctx \<Rightarrow> byte list \<Rightarrow> md5_ctx" where
  "MD5_Update_rest ctx data =
    (let (ctx, data) = (if length data \<ge> 64 then md5_body ctx data (length data div 64) else (ctx, data))
     in ctx\<lparr>ctx_buffer := put_bytes (ctx_buffer ctx) 0 data\<rparr>)"

definition MD5_Update :: "md5_ctx \<Rightarrow> byte list \<Rightarrow> md5_ctx" where
  "MD5_Update ctx data =
    (let size = of_nat (length data) :: u64;
         saved_lo = ctx_lo ctx;
         lo = (saved_lo + size) AND 0x1fffffff;
         hi = (if lo < saved_lo then ctx_hi ctx + 1 else ctx_hi ctx) + drop_bit 29 size;
         ctx = ctx\<lparr>ctx_lo := lo, ctx_hi := hi\<rparr>;
         used = unat (saved_lo AND 0x3f)
     in if used \<noteq> 0 then
          (let free = 64 - used
           in if length data < free then ctx\<lparr>ctx_buffer := put_bytes (ctx_buffer ctx) used data\<rparr>
              else
                let ctx = ctx\<lparr>ctx_buffer := put_bytes (ctx_buffer ctx) used (take free data)\<rparr>;
                    ctx = fst (md5_body ctx (ctx_buffer ctx) 1)
                in MD5_Update_rest ctx (drop free data))
        else MD5_Update_rest ctx data)"

text \<open>The four bytes of the low half of a lane, as the assignments to \<open>unsigned char\<close> truncate them.\<close>

definition md5_bytes :: "u64 \<Rightarrow> byte list" where
  "md5_bytes w = [ucast w, ucast (drop_bit 8 w), ucast (drop_bit 16 w), ucast (drop_bit 24 w)]"

text \<open>
  \<open>MD5_Final\<close>: the digest and the context it leaves. The last \<open>memset\<close> clears \<open>sizeof(ctx)\<close> bytes, the
  size of the pointer, which is the field \<open>lo\<close>.
\<close>

definition MD5_Final :: "md5_ctx \<Rightarrow> byte list \<times> md5_ctx" where
  "MD5_Final ctx =
    (let used = unat (ctx_lo ctx AND 0x3f);
         ctx = ctx\<lparr>ctx_buffer := put_bytes (ctx_buffer ctx) used [0x80]\<rparr>;
         used = used + 1;
         free = 64 - used;
         (ctx, used, free) =
           (if free < 8 then
              (let ctx = ctx\<lparr>ctx_buffer := put_bytes (ctx_buffer ctx) used (replicate free 0)\<rparr>
               in (fst (md5_body ctx (ctx_buffer ctx) 1), 0, 64))
            else (ctx, used, free));
         ctx = ctx\<lparr>ctx_buffer := put_bytes (ctx_buffer ctx) used (replicate (free - 8) 0)\<rparr>;
         ctx = ctx\<lparr>ctx_lo := push_bit 3 (ctx_lo ctx)\<rparr>;
         ctx = ctx\<lparr>ctx_buffer := put_bytes (ctx_buffer ctx) 56 (md5_bytes (ctx_lo ctx) @ md5_bytes (ctx_hi ctx))\<rparr>;
         ctx = fst (md5_body ctx (ctx_buffer ctx) 1);
         result = md5_bytes (ctx_a ctx) @ md5_bytes (ctx_b ctx) @ md5_bytes (ctx_c ctx) @ md5_bytes (ctx_d ctx)
     in (result, ctx\<lparr>ctx_lo := 0\<rparr>))"

subsection \<open>The wrappers of \<open>md5.cpp\<close>\<close>

text \<open>\<open>md5\<close>, for a context with any initial contents.\<close>

definition md5 :: "md5_ctx \<Rightarrow> byte list \<Rightarrow> byte list" where
  "md5 ctx data = fst (MD5_Final (MD5_Update (MD5_Init ctx) data))"

definition hexconv :: "byte list" where
  "hexconv = [0x30, 0x31, 0x32, 0x33, 0x34, 0x35, 0x36, 0x37, 0x38, 0x39, 0x61, 0x62, 0x63, 0x64, 0x65, 0x66]"

definition md5_hex_conv :: "byte list \<Rightarrow> byte list" where
  "md5_hex_conv hash = concat (map (\<lambda>j. [hexconv ! unat (drop_bit 4 j AND 0x0f), hexconv ! unat (j AND 0x0f)]) (take 16 hash))"

definition md5_hex :: "md5_ctx \<Rightarrow> byte list \<Rightarrow> byte list" where
  "md5_hex ctx data = md5_hex_conv (md5 ctx data)"

subsection \<open>RFC 1321\<close>

fun rfc_basic :: "md5_fun \<Rightarrow> u32 \<Rightarrow> u32 \<Rightarrow> u32 \<Rightarrow> u32" where
  "rfc_basic MD5_F x y z = (x AND y) OR (NOT x AND z)"
| "rfc_basic MD5_G x y z = (x AND z) OR (y AND NOT z)"
| "rfc_basic MD5_H x y z = x XOR y XOR z"
| "rfc_basic MD5_I x y z = y XOR (x OR NOT z)"

definition rfc_step :: "u32 list \<Rightarrow> md5_fun \<times> nat \<times> u32 \<times> nat \<Rightarrow> u32 \<times> u32 \<times> u32 \<times> u32 \<Rightarrow> u32 \<times> u32 \<times> u32 \<times> u32" where
  "rfc_step X = (\<lambda>(f, k, t, s) (a, b, c, d).
    (let e = a + rfc_basic f b c d + X ! k + t in (d, b + (push_bit s e OR drop_bit (32 - s) e), b, c)))"

definition rfc_word :: "byte list \<Rightarrow> nat \<Rightarrow> u32" where
  "rfc_word bs n = (\<Sum>i<4. push_bit (8 * i) (ucast (bs ! (n * 4 + i))))"

definition rfc_block :: "byte list \<Rightarrow> u32 \<times> u32 \<times> u32 \<times> u32 \<Rightarrow> u32 \<times> u32 \<times> u32 \<times> u32" where
  "rfc_block bs = (\<lambda>(a, b, c, d).
    (case fold (rfc_step (map (rfc_word bs) [0..<16])) md5_steps (a, b, c, d) of
       (a', b', c', d') \<Rightarrow> (a + a', b + b', c + c', d + d')))"

fun rfc_blocks :: "byte list \<Rightarrow> u32 \<times> u32 \<times> u32 \<times> u32 \<Rightarrow> u32 \<times> u32 \<times> u32 \<times> u32" where
  "rfc_blocks bs st = (if length bs < 64 then st else rfc_blocks (drop 64 bs) (rfc_block (take 64 bs) st))"

text \<open>Little-endian bytes of a number, padding to 56 modulo 64 and the length in bits modulo \<open>2 ^ 64\<close>.\<close>

definition le_bytes :: "nat \<Rightarrow> nat \<Rightarrow> byte list" where
  "le_bytes k n = map (\<lambda>i. of_nat (n div 256 ^ i)) [0..<k]"

definition rfc_pad :: "nat \<Rightarrow> byte list" where
  "rfc_pad len = [0x80] @ replicate ((119 - len mod 64) mod 64) 0 @ le_bytes 8 (8 * len)"

definition rfc_md5 :: "byte list \<Rightarrow> byte list" where
  "rfc_md5 m =
    (case rfc_blocks (m @ rfc_pad (length m)) (0x67452301, 0xefcdab89, 0x98badcfe, 0x10325476) of
       (a, b, c, d) \<Rightarrow> concat (map (\<lambda>w. le_bytes 4 (unat w)) [a, b, c, d]))"

declare rfc_blocks.simps [simp del]

subsection \<open>The low halves of the lanes\<close>

abbreviation lo32 :: "u64 \<Rightarrow> u32" where
  "lo32 \<equiv> ucast"

lemma lo32_bit: "bit (lo32 x) n \<longleftrightarrow> n < 32 \<and> bit x n"
  by (simp add: bit_simps)

lemma lo32_logic:
  "lo32 (x AND y) = lo32 x AND lo32 y" "lo32 (x OR y) = lo32 x OR lo32 y"
  "lo32 (x XOR y) = lo32 x XOR lo32 y" "lo32 (NOT x) = NOT (lo32 x)"
  by (rule bit_word_eqI; simp add: bit_simps; blast)+

lemma lo32_add: "lo32 (x + y) = lo32 x + lo32 y"
proof -
  have l: "unat (lo32 z) = unat z mod 4294967296" for z by (simp add: unsigned_ucast_eq take_bit_eq_mod)
  show ?thesis by (simp add: word_unat_eq_iff l unat_word_ariths mod_mod_cancel mod_add_eq)
qed

lemma lo32_ucast: "lo32 (ucast (t :: u32)) = t"
  by (rule bit_word_eqI) (simp add: bit_simps)

lemma u64_and_ffffffff: "(a :: u64) AND 0xffffffff = take_bit 32 a"
  by (simp add: take_bit_eq_mask mask_eq_exp_minus_1)

lemma lo32_rotate:
  "s < 32 \<Longrightarrow> lo32 (push_bit s a OR drop_bit (32 - s) (a AND 0xffffffff)) =
    push_bit s (lo32 a) OR drop_bit (32 - s) (lo32 a)"
  unfolding u64_and_ffffffff by (rule bit_word_eqI) (auto simp: bit_simps)

lemma lo32_basic: "lo32 (md5_basic f x y z) = rfc_basic f (lo32 x) (lo32 y) (lo32 z)"
  by (cases f; simp add: lo32_logic; rule bit_word_eqI; auto simp: bit_simps)

lemma lo32_STEP:
  assumes "s < 32"
  shows "lo32 (md5_STEP f a b c d x (ucast t) s) =
    (let e = lo32 a + rfc_basic f (lo32 b) (lo32 c) (lo32 d) + lo32 x + t
     in lo32 b + (push_bit s e OR drop_bit (32 - s) e))"
  unfolding md5_STEP_def Let_def lo32_add lo32_rotate [OF assms] lo32_basic lo32_ucast
  by (simp add: add_ac)

definition lo32_st :: "u64 \<times> u64 \<times> u64 \<times> u64 \<Rightarrow> u32 \<times> u32 \<times> u32 \<times> u32" where
  "lo32_st = (\<lambda>(a, b, c, d). (lo32 a, lo32 b, lo32 c, lo32 d))"

lemma lo32_step:
  assumes "k < length block" "s < 32"
  shows "lo32_st (md5_step block (f, k, t, s) st) = rfc_step (map lo32 block) (f, k, t, s) (lo32_st st)"
  using assms by (cases st) (simp add: lo32_st_def md5_step_def rfc_step_def lo32_STEP Let_def)

lemma lo32_steps:
  assumes "\<forall>(f, k, t, s)\<in>set xs. k < length block \<and> s < 32"
  shows "lo32_st (fold (md5_step block) xs st) = fold (rfc_step (map lo32 block)) xs (lo32_st st)"
  using assms
proof (induction xs arbitrary: st)
  case (Cons x xs)
  obtain f k t s where x: "x = (f, k, t, s)" by (cases x)
  then show ?case using Cons lo32_step [of k block s f t st] by simp
qed simp

lemma md5_steps_ok: "\<forall>(f, k, t, s)\<in>set md5_steps. k < 16 \<and> s < 32"
  by (simp add: md5_steps_def)

lemma u32_push_byte_disjoint:
  fixes a b c d :: byte
  shows "push_bit 16 (ucast c) + push_bit 24 (ucast d) = (push_bit 16 (ucast c) OR push_bit 24 (ucast d) :: u32)"
    and "push_bit 8 (ucast b) + (push_bit 16 (ucast c) OR push_bit 24 (ucast d)) =
      (push_bit 8 (ucast b) OR push_bit 16 (ucast c) OR push_bit 24 (ucast d) :: u32)"
    and "ucast a + (push_bit 8 (ucast b) OR push_bit 16 (ucast c) OR push_bit 24 (ucast d)) =
      (ucast a OR push_bit 8 (ucast b) OR push_bit 16 (ucast c) OR push_bit 24 (ucast d) :: u32)"
  by (rule disjunctive_add_eq_or, rule bit_word_eqI, auto simp: bit_simps dest: bit_imp_le_length)+

lemma lo32_SET: "lo32 (md5_SET ptr n) = rfc_word ptr n"
proof -
  have p: "lo32 (push_bit k (ucast (x :: byte))) = push_bit k (ucast x)" if "k \<le> 24" for k x
    using that by (auto intro!: bit_word_eqI simp: bit_simps)
  have "rfc_word ptr n = ucast (ptr ! (n * 4)) + (push_bit 8 (ucast (ptr ! (n * 4 + 1))) +
      (push_bit 16 (ucast (ptr ! (n * 4 + 2))) + push_bit 24 (ucast (ptr ! (n * 4 + 3)))))"
    by (simp add: rfc_word_def lessThan_nat_numeral lessThan_Suc add_ac)
  also have "\<dots> = ucast (ptr ! (n * 4)) OR push_bit 8 (ucast (ptr ! (n * 4 + 1))) OR
      push_bit 16 (ucast (ptr ! (n * 4 + 2))) OR push_bit 24 (ucast (ptr ! (n * 4 + 3)))"
    unfolding u32_push_byte_disjoint ..
  also have "\<dots> = lo32 (md5_SET ptr n)"
    using p [of 0] by (simp add: md5_SET_def lo32_logic p or.assoc)
  finally show ?thesis by simp
qed

definition ctx_st :: "md5_ctx \<Rightarrow> u32 \<times> u32 \<times> u32 \<times> u32" where
  "ctx_st ctx = (lo32 (ctx_a ctx), lo32 (ctx_b ctx), lo32 (ctx_c ctx), lo32 (ctx_d ctx))"

lemma rfc_word_cong: "(\<And>i. i < 4 \<Longrightarrow> p ! (n * 4 + i) = q ! (n * 4 + i)) \<Longrightarrow> rfc_word p n = rfc_word q n"
  by (simp add: rfc_word_def)

lemma rfc_block_take: "64 \<le> length ptr \<Longrightarrow> rfc_block (take 64 ptr) = rfc_block ptr"
proof -
  assume "64 \<le> length ptr"
  then have m: "map (rfc_word (take 64 ptr)) [0..<16] = map (rfc_word ptr) [0..<16]"
    by (auto intro!: rfc_word_cong)
  show ?thesis unfolding rfc_block_def m ..
qed

lemma md5_body_turn_st: "ctx_st (md5_body_turn ctx ptr) = rfc_block ptr (ctx_st ctx)"
proof -
  let ?block = "map (md5_SET ptr) [0..<16]"
  obtain a b c d where st: "fold (md5_step ?block) md5_steps (ctx_a ctx, ctx_b ctx, ctx_c ctx, ctx_d ctx) = (a, b, c, d)"
    by (metis prod_cases4)
  have m: "map lo32 ?block = map (rfc_word ptr) [0..<16]" by (simp add: lo32_SET)
  have "fold (rfc_step (map (rfc_word ptr) [0..<16])) md5_steps (ctx_st ctx) = (lo32 a, lo32 b, lo32 c, lo32 d)"
    using lo32_steps [of md5_steps ?block "(ctx_a ctx, ctx_b ctx, ctx_c ctx, ctx_d ctx)"] md5_steps_ok st
    unfolding m by (simp add: lo32_st_def ctx_st_def)
  then show ?thesis
    by (simp add: md5_body_turn_def st ctx_st_def rfc_block_def lo32_add add.commute)
qed

lemma md5_body_turn_fields [simp]:
  "ctx_lo (md5_body_turn ctx ptr) = ctx_lo ctx" "ctx_hi (md5_body_turn ctx ptr) = ctx_hi ctx"
  "ctx_buffer (md5_body_turn ctx ptr) = ctx_buffer ctx"
  by (simp_all add: md5_body_turn_def Let_def split: prod.splits)

lemma md5_body_fields [simp]:
  "ctx_lo (fst (md5_body ctx ptr n)) = ctx_lo ctx" "ctx_hi (fst (md5_body ctx ptr n)) = ctx_hi ctx"
  "ctx_buffer (fst (md5_body ctx ptr n)) = ctx_buffer ctx" "snd (md5_body ctx ptr n) = drop (64 * n) ptr"
  by (induction n arbitrary: ctx ptr) (simp_all add: add.commute)

lemma md5_body_st:
  "64 * n \<le> length ptr \<Longrightarrow> ctx_st (fst (md5_body ctx ptr n)) = rfc_blocks (take (64 * n) ptr) (ctx_st ctx)"
proof (induction n arbitrary: ctx ptr)
  case 0
  then show ?case by (simp add: rfc_blocks.simps)
next
  case (Suc n)
  have "rfc_blocks (take (64 * Suc n) ptr) (ctx_st ctx) = rfc_blocks (take (64 * n) (drop 64 ptr)) (rfc_block ptr (ctx_st ctx))"
    using Suc.prems rfc_block_take [of ptr]
    by (subst rfc_blocks.simps) (simp add: drop_take min_def)
  then show ?case using Suc.IH [of "drop 64 ptr" "md5_body_turn ctx ptr"] Suc.prems by (simp add: md5_body_turn_st)
qed

lemma rfc_blocks_append:
  "64 dvd length xs \<Longrightarrow> rfc_blocks (xs @ ys) st = rfc_blocks ys (rfc_blocks xs st)"
proof (induction xs st rule: rfc_blocks.induct)
  case (1 bs st)
  show ?case
  proof (cases "bs = []")
    case True
    then show ?thesis by (simp add: rfc_blocks.simps [of "[]"])
  next
    case False
    then have l: "64 \<le> length bs" using "1.prems" by (auto dest: dvd_imp_le)
    then have "64 dvd length (drop 64 bs)" using "1.prems" by (simp add: dvd_minus_self)
    then show ?thesis using 1 l
      by (simp add: rfc_blocks.simps [of bs] rfc_blocks.simps [of "bs @ ys"])
  qed
qed

lemma rfc_blocks_short: "64 dvd length xs \<Longrightarrow> length ys < 64 \<Longrightarrow> rfc_blocks (xs @ ys) st = rfc_blocks xs st"
  by (simp add: rfc_blocks_append rfc_blocks.simps [of ys])

text \<open>A context that has been fed the message \<open>m\<close>.\<close>

abbreviation rfc_init :: "u32 \<times> u32 \<times> u32 \<times> u32" where
  "rfc_init \<equiv> (0x67452301, 0xefcdab89, 0x98badcfe, 0x10325476)"

definition md5_fed :: "md5_ctx \<Rightarrow> byte list \<Rightarrow> bool" where
  "md5_fed ctx m \<longleftrightarrow>
    unat (ctx_lo ctx) = length m mod 2 ^ 29 \<and> lo32 (ctx_hi ctx) = of_nat (length m div 2 ^ 29) \<and>
    length (ctx_buffer ctx) = 64 \<and>
    take (length m mod 64) (ctx_buffer ctx) = drop (64 * (length m div 64)) m \<and>
    ctx_st ctx = rfc_blocks m rfc_init"

text \<open>The same without the two counters.\<close>

definition md5_absorbed :: "md5_ctx \<Rightarrow> byte list \<Rightarrow> bool" where
  "md5_absorbed ctx m \<longleftrightarrow>
    length (ctx_buffer ctx) = 64 \<and>
    take (length m mod 64) (ctx_buffer ctx) = drop (64 * (length m div 64)) m \<and>
    ctx_st ctx = rfc_blocks m rfc_init"

lemma put_bytes_length [simp]: "pos + length bs \<le> length buf \<Longrightarrow> length (put_bytes buf pos bs) = length buf"
  by (simp add: put_bytes_def)

lemma ctx_st_update [simp]:
  "ctx_st (ctx\<lparr>ctx_buffer := b\<rparr>) = ctx_st ctx" "ctx_st (ctx\<lparr>ctx_lo := l\<rparr>) = ctx_st ctx"
  "ctx_st (ctx\<lparr>ctx_hi := h\<rparr>) = ctx_st ctx"
  by (simp_all add: ctx_st_def)

lemma MD5_Update_rest_absorbed:
  assumes "length (ctx_buffer ctx) = 64" and "64 dvd length p" and "ctx_st ctx = rfc_blocks p rfc_init"
  shows "md5_absorbed (MD5_Update_rest ctx data) (p @ data)"
    and "ctx_lo (MD5_Update_rest ctx data) = ctx_lo ctx" "ctx_hi (MD5_Update_rest ctx data) = ctx_hi ctx"
proof -
  let ?n = "length data div 64"
  have e: "MD5_Update_rest ctx data = (fst (md5_body ctx data ?n))\<lparr>ctx_buffer :=
      put_bytes (ctx_buffer ctx) 0 (drop (64 * ?n) data)\<rparr>"
    by (cases "64 \<le> length data") (simp_all add: MD5_Update_rest_def Let_def split_beta)
  have r: "length (drop (64 * ?n) data) = length data mod 64" by (simp add: minus_mult_div_eq_mod)
  have lp: "length (p @ data) mod 64 = length data mod 64"
    "64 * (length (p @ data) div 64) = length p + 64 * ?n"
    using assms(2) by (auto simp: mod_add_left_eq)
  have "data = take (64 * ?n) data @ drop (64 * ?n) data" by simp
  then have "rfc_blocks (p @ data) rfc_init = rfc_blocks (take (64 * ?n) data) (rfc_blocks p rfc_init)"
    using assms(2) rfc_blocks_short [of "take (64 * ?n) data" "drop (64 * ?n) data"] r
    by (simp add: rfc_blocks_append)
  then have "ctx_st (MD5_Update_rest ctx data) = rfc_blocks (p @ data) rfc_init"
    using md5_body_st [of ?n data ctx] assms(3) by (simp add: e)
  moreover have "take (length data mod 64) (put_bytes (ctx_buffer ctx) 0 (drop (64 * ?n) data)) = drop (64 * ?n) data"
    using r by (simp add: put_bytes_def)
  moreover have "length (put_bytes (ctx_buffer ctx) 0 (drop (64 * ?n) data)) = 64"
    using r assms(1) by simp
  ultimately show "md5_absorbed (MD5_Update_rest ctx data) (p @ data)"
    unfolding md5_absorbed_def lp by (simp add: e)
  show "ctx_lo (MD5_Update_rest ctx data) = ctx_lo ctx" "ctx_hi (MD5_Update_rest ctx data) = ctx_hi ctx"
    by (simp_all add: e)
qed

lemma MD5_Update_absorbed:
  assumes "md5_absorbed ctx m" and "unat (ctx_lo ctx AND 0x3f) = length m mod 64"
  shows "md5_absorbed (MD5_Update ctx data) (m @ data)"
proof -
  define u where "u = length m mod 64"
  define q where "q = 64 * (length m div 64)"
  define c1 where "c1 = ctx\<lparr>ctx_lo := (ctx_lo ctx + of_nat (length data)) AND 0x1fffffff,
    ctx_hi := (if (ctx_lo ctx + of_nat (length data)) AND 0x1fffffff < ctx_lo ctx then ctx_hi ctx + 1 else ctx_hi ctx)
      + drop_bit 29 (of_nat (length data))\<rparr>"
  have lm: "length m = q + u" "u < 64" "64 dvd q" by (simp_all add: u_def q_def)
  have b: "length (ctx_buffer c1) = 64" "take u (ctx_buffer c1) = drop q m" "ctx_st c1 = rfc_blocks m rfc_init"
    using assms(1) by (simp_all add: md5_absorbed_def c1_def u_def q_def ctx_st_def)
  have m: "m = take q m @ drop q m" "64 dvd length (take q m)" "length (drop q m) = u"
    using lm by (simp_all add: min_def)
  have st: "rfc_blocks m rfc_init = rfc_blocks (take q m) rfc_init"
    using rfc_blocks_short [of "take q m" "drop q m" rfc_init] m lm(2) by simp
  have unf: "MD5_Update ctx data =
    (if u \<noteq> 0 then
       (if length data < 64 - u then c1\<lparr>ctx_buffer := put_bytes (ctx_buffer c1) u data\<rparr>
        else MD5_Update_rest (fst (md5_body (c1\<lparr>ctx_buffer := put_bytes (ctx_buffer c1) u (take (64 - u) data)\<rparr>)
            (put_bytes (ctx_buffer c1) u (take (64 - u) data)) 1)) (drop (64 - u) data))
     else MD5_Update_rest c1 data)"
    using assms(2) by (simp add: MD5_Update_def Let_def c1_def u_def)
  consider "u = 0" | "u \<noteq> 0" "length data < 64 - u" | "u \<noteq> 0" "64 - u \<le> length data" by linarith
  then show ?thesis
  proof cases
    case 1
    then show ?thesis using MD5_Update_rest_absorbed(1) [of c1 m data] b lm by (simp add: unf)
  next
    case 2
    have mod: "length (m @ data) mod 64 = u + length data" "64 * (length (m @ data) div 64) = q"
    proof -
      have l: "length (m @ data) = (u + length data) + 64 * (length m div 64)" using lm q_def by simp
      show "length (m @ data) mod 64 = u + length data" unfolding l using 2 by simp
      show "64 * (length (m @ data) div 64) = q" unfolding l q_def using 2 by simp
    qed
    have "rfc_blocks (m @ data) rfc_init = rfc_blocks (take q m) rfc_init"
    proof -
      have e: "m @ data = take q m @ drop q m @ data" by (simp flip: append.assoc)
      have "length (drop q m @ data) < 64" using m(3) 2 by simp
      then show ?thesis unfolding e by (rule rfc_blocks_short [OF m(2)])
    qed
    moreover have "take (u + length data) (put_bytes (ctx_buffer c1) u data) = drop q m @ data"
      using b lm by (simp add: put_bytes_def)
    ultimately show ?thesis
      using 2 b lm st unfolding md5_absorbed_def mod by (simp add: unf)
  next
    case 3
    let ?blk = "put_bytes (ctx_buffer c1) u (take (64 - u) data)"
    let ?c2 = "fst (md5_body (c1\<lparr>ctx_buffer := ?blk\<rparr>) ?blk 1)"
    have blk: "?blk = drop q m @ take (64 - u) data" "length ?blk = 64"
      using b lm 3 by (simp_all add: put_bytes_def)
    have "m @ take (64 - u) data = take q m @ ?blk" unfolding blk(1) by (simp flip: append.assoc)
    then have p: "rfc_blocks (m @ take (64 - u) data) rfc_init = rfc_blocks ?blk (rfc_blocks (take q m) rfc_init)"
      using m(2) by (simp only: rfc_blocks_append)
    have "ctx_st ?c2 = rfc_blocks (m @ take (64 - u) data) rfc_init"
      using md5_body_st [of 1 ?blk "c1\<lparr>ctx_buffer := ?blk\<rparr>"] blk(2) b(3) st p by simp
    moreover have "64 dvd length (m @ take (64 - u) data)" using lm 3 by simp
    moreover have "length (ctx_buffer ?c2) = 64" using blk(2) by simp
    ultimately have "md5_absorbed (MD5_Update_rest ?c2 (drop (64 - u) data)) ((m @ take (64 - u) data) @ drop (64 - u) data)"
      by (intro MD5_Update_rest_absorbed(1))
    then show ?thesis using 3 by (simp add: unf)
  qed
qed

text \<open>The two counters hold the length in bytes, split at bit 29.\<close>

lemma carry_iff:
  fixes l d N :: nat
  assumes "l < N"
  shows "((l + d) mod N < l) = (N \<le> l + d mod N)"
    and "(l + d) div N = d div N + (if N \<le> l + d mod N then 1 else 0)"
proof -
  have r: "d mod N < N" using assms by simp
  have e: "l + d = (l + d mod N) + N * (d div N)" by simp
  have x: "(l + d) mod N = (l + d mod N) mod N" by (simp add: mod_add_right_eq)
  show "((l + d) mod N < l) = (N \<le> l + d mod N)"
  proof (cases "N \<le> l + d mod N")
    case True
    have "l + d mod N - N < N" using r assms by linarith
    then have "(l + d mod N) mod N = l + d mod N - N" using le_mod_geq [OF True] by simp
    then show ?thesis using x True r by simp
  next
    case False
    then show ?thesis using x by simp
  qed
  have "(l + d) div N = (l + d mod N) div N + d div N"
    using assms by (subst e) (simp only: div_mult_self2 add.commute)
  moreover have "(l + d mod N) div N = (if N \<le> l + d mod N then 1 else 0)"
  proof (cases "N \<le> l + d mod N")
    case True
    have "l + d mod N - N < N" using r assms by linarith
    then show ?thesis using le_div_geq [OF _ True] assms True by simp
  qed simp
  ultimately show "(l + d) div N = d div N + (if N \<le> l + d mod N then 1 else 0)" by simp
qed

lemma u64_mask29: "(x :: u64) AND 0x1fffffff = take_bit 29 x"
  by (simp add: take_bit_eq_mask mask_eq_exp_minus_1)

lemma unat_take_bit29: "unat (take_bit 29 (x :: u64)) = unat x mod 536870912"
  by (simp add: take_bit_eq_mod unat_mod)

lemma lo32_drop29: "lo32 (drop_bit 29 (of_nat d)) = of_nat (d div 536870912)"
proof (rule bit_word_eqI)
  fix n assume "n < LENGTH(32)"
  moreover have "d div 536870912 = drop_bit 29 d" by (simp add: drop_bit_eq_div)
  ultimately show "bit (lo32 (drop_bit 29 (of_nat d))) n = bit (of_nat (d div 536870912) :: u32) n"
    by (simp add: bit_simps bit_of_nat_iff)
qed

lemma MD5_Update_counters:
  fixes ctx :: md5_ctx
  defines "l \<equiv> unat (ctx_lo ctx)"
  assumes "l < 536870912"
  shows "unat (ctx_lo (MD5_Update ctx data)) = (l + length data) mod 536870912"
    and "lo32 (ctx_hi (MD5_Update ctx data)) = lo32 (ctx_hi ctx) + of_nat ((l + length data) div 536870912)"
proof -
  define lo' where "lo' = (ctx_lo ctx + of_nat (length data)) AND 0x1fffffff"
  have lo: "ctx_lo (MD5_Update ctx data) = lo'"
    and hi: "ctx_hi (MD5_Update ctx data) =
      (if lo' < ctx_lo ctx then ctx_hi ctx + 1 else ctx_hi ctx) + drop_bit 29 (of_nat (length data))"
    by (simp_all add: MD5_Update_def Let_def lo'_def MD5_Update_rest_def split_beta)
  show u: "unat (ctx_lo (MD5_Update ctx data)) = (l + length data) mod 536870912"
    by (simp add: lo lo'_def u64_mask29 unat_take_bit29 unat_word_ariths unsigned_of_nat take_bit_eq_mod l_def mod_mod_cancel mod_simps)
  have "(lo' < ctx_lo ctx) = (536870912 \<le> l + length data mod 536870912)"
    using u carry_iff(1) [OF assms(2), of "length data"] by (simp add: lo word_less_nat_alt l_def)
  then show "lo32 (ctx_hi (MD5_Update ctx data)) = lo32 (ctx_hi ctx) + of_nat ((l + length data) div 536870912)"
    unfolding hi carry_iff(2) [OF assms(2), of "length data"]
    by (simp add: lo32_add lo32_drop29 add_ac)
qed

lemma u64_mask6: "unat ((x :: u64) AND 0x3f) = unat x mod 64"
proof -
  have "x AND 0x3f = take_bit 6 x" by (simp add: take_bit_eq_mask mask_eq_exp_minus_1)
  then show ?thesis by (simp add: take_bit_eq_mod unat_mod)
qed

lemma le_bytes_4: "le_bytes 4 n = [of_nat n, of_nat (n div 256), of_nat (n div 65536), of_nat (n div 16777216)]"
  by (simp add: le_bytes_def upt_conv_Cons)

lemma le_bytes_8: "le_bytes 8 n = le_bytes 4 n @ le_bytes 4 (n div 4294967296)"
  by (simp add: le_bytes_def upt_conv_Cons flip: div_mult2_eq)

lemma byte_of_drop: "(ucast (drop_bit k w) :: byte) = of_nat (unat w div 2 ^ k)" for w :: u64
proof (rule bit_word_eqI)
  fix n assume "n < LENGTH(8)"
  have "unat w div 2 ^ k = drop_bit k (unat w)" by (simp add: drop_bit_eq_div)
  then show "bit (ucast (drop_bit k w) :: byte) n = bit (of_nat (unat w div 2 ^ k) :: byte) n"
    using \<open>n < LENGTH(8)\<close> by (auto simp: bit_simps bit_of_nat_iff dest: bit_imp_le_length)
qed

lemma md5_bytes_le: "md5_bytes w = le_bytes 4 (unat w)"
  using byte_of_drop [of 0 w] byte_of_drop [of 8 w] byte_of_drop [of 16 w] byte_of_drop [of 24 w]
  by (simp add: md5_bytes_def le_bytes_4)

lemma le_bytes_4_mod: "le_bytes 4 (n mod 4294967296) = le_bytes 4 n"
proof -
  have "(of_nat (n mod 4294967296 div 2 ^ k) :: byte) = of_nat (n div 2 ^ k)" if "k \<le> 24" for k
  proof (rule bit_word_eqI)
    fix i assume "i < LENGTH(8)"
    moreover have "n mod 4294967296 div 2 ^ k = drop_bit k (take_bit 32 n)" "n div 2 ^ k = drop_bit k n"
      by (simp_all add: drop_bit_eq_div take_bit_eq_mod)
    ultimately show "bit (of_nat (n mod 4294967296 div 2 ^ k) :: byte) i = bit (of_nat (n div 2 ^ k) :: byte) i"
      using that by (auto simp: bit_simps bit_of_nat_iff)
  qed
  from this [of 0] this [of 8] this [of 16] this [of 24] show ?thesis by (simp add: le_bytes_4)
qed

lemma MD5_Update_fed:
  assumes "md5_fed ctx m"
  shows "md5_fed (MD5_Update ctx data) (m @ data)"
proof -
  have l: "unat (ctx_lo ctx) = length m mod 536870912" using assms by (simp add: md5_fed_def)
  then have lt: "unat (ctx_lo ctx) < 536870912" by simp
  have u: "unat (ctx_lo ctx AND 0x3f) = length m mod 64"
    by (simp add: u64_mask6 l mod_mod_cancel)
  have "md5_absorbed ctx m" using assms by (simp add: md5_fed_def md5_absorbed_def)
  then have "md5_absorbed (MD5_Update ctx data) (m @ data)" using u by (rule MD5_Update_absorbed)
  moreover have "unat (ctx_lo (MD5_Update ctx data)) = length (m @ data) mod 536870912"
    using MD5_Update_counters(1) [OF lt, of data] by (simp add: l mod_add_left_eq)
  moreover have "lo32 (ctx_hi (MD5_Update ctx data)) = of_nat (length (m @ data) div 536870912)"
  proof -
    have "length (m @ data) = length m mod 536870912 + length data + 536870912 * (length m div 536870912)" by simp
    then have "length (m @ data) div 536870912 =
        length m div 536870912 + (length m mod 536870912 + length data) div 536870912"
      by (simp only: div_mult_self2)
    then show ?thesis
      using MD5_Update_counters(2) [OF lt, of data] assms by (simp add: md5_fed_def l)
  qed
  ultimately show ?thesis by (simp add: md5_fed_def md5_absorbed_def)
qed

lemma MD5_Init_fed: "length (ctx_buffer ctx) = 64 \<Longrightarrow> md5_fed (MD5_Init ctx) []"
  by (simp add: md5_fed_def MD5_Init_def ctx_st_def rfc_blocks.simps)

lemma md5_length_bytes:
  assumes "md5_fed ctx m"
  shows "md5_bytes (push_bit 3 (ctx_lo ctx)) @ md5_bytes (ctx_hi ctx) = le_bytes 8 (8 * length m)"
proof -
  have lo: "unat (ctx_lo ctx) = length m mod 536870912" using assms by (simp add: md5_fed_def)
  have "unat (push_bit 3 (ctx_lo ctx)) = 8 * (length m mod 536870912)"
    using lo by (simp add: push_bit_eq_mult unat_word_ariths)
  also have "\<dots> = 8 * length m mod 4294967296" using mod_mult_mult1 [of 8 "length m" 536870912] by simp
  finally have 1: "md5_bytes (push_bit 3 (ctx_lo ctx)) = le_bytes 4 (8 * length m)"
    by (simp add: md5_bytes_le le_bytes_4_mod)
  have "unat (lo32 (ctx_hi ctx)) = length m div 536870912 mod 4294967296"
    using assms by (simp add: md5_fed_def unsigned_of_nat take_bit_eq_mod)
  moreover have "unat (lo32 (ctx_hi ctx)) = unat (ctx_hi ctx) mod 4294967296"
    by (simp add: unsigned_ucast_eq take_bit_eq_mod)
  ultimately have "unat (ctx_hi ctx) mod 4294967296 = length m div 536870912 mod 4294967296" by simp
  then have "md5_bytes (ctx_hi ctx) = le_bytes 4 (length m div 536870912)"
    unfolding md5_bytes_le by (metis le_bytes_4_mod)
  moreover have "8 * length m div 4294967296 = length m div 536870912"
    using div_mult_mult1 [of 8 "length m" 536870912] by simp
  ultimately show ?thesis using 1 by (simp add: le_bytes_8)
qed

text \<open>The padding as \<open>MD5_Final\<close> lays it out: one block or two.\<close>

lemma MD5_Final_one:
  assumes "md5_fed ctx m" and "length m mod 64 < 56"
  shows "\<exists>c. MD5_Final ctx = (md5_bytes (ctx_a c) @ md5_bytes (ctx_b c) @ md5_bytes (ctx_c c) @ md5_bytes (ctx_d c),
      c\<lparr>ctx_lo := 0\<rparr>) \<and> ctx_st c = rfc_blocks (drop (64 * (length m div 64)) m @ rfc_pad (length m)) (ctx_st ctx)"
proof -
  define u where "u = length m mod 64"
  define b where "b = ctx_buffer ctx"
  define buf where "buf = take u b @ [0x80] @ replicate (55 - u) 0 @ md5_bytes (push_bit 3 (ctx_lo ctx)) @ md5_bytes (ctx_hi ctx)"
  have u: "unat (ctx_lo ctx AND 0x3f) = u" "u < 56"
    using assms by (simp_all add: u64_mask6 md5_fed_def mod_mod_cancel u_def)
  have b: "length b = 64" "take u b = drop (64 * (length m div 64)) m"
    using assms(1) by (simp_all add: md5_fed_def b_def u_def)
  have len: "length buf = 64" using b(1) u by (simp add: buf_def md5_bytes_def)
  have p1: "put_bytes b u [0x80] = take u b @ [0x80] @ drop (u + 1) b" by (simp add: put_bytes_def)
  have p2: "put_bytes (take u b @ [0x80] @ drop (u + 1) b) (u + 1) (replicate (64 - (u + 1) - 8) 0) =
      take u b @ [0x80] @ replicate (55 - u) 0 @ drop 56 b"
    using b(1) u by (simp add: put_bytes_def drop_Cons')
  have p3: "put_bytes (take u b @ [0x80] @ replicate (55 - u) 0 @ drop 56 b) 56
      (md5_bytes (push_bit 3 (ctx_lo ctx)) @ md5_bytes (ctx_hi ctx)) = buf"
    using b(1) u by (simp add: put_bytes_def buf_def md5_bytes_def take_Cons')
  have long: "\<not> 63 - u < 8" using u(2) by linarith
  define c where "c = fst (md5_body (ctx\<lparr>ctx_lo := push_bit 3 (ctx_lo ctx), ctx_buffer := buf\<rparr>) buf 1)"
  have "MD5_Final ctx = (md5_bytes (ctx_a c) @ md5_bytes (ctx_b c) @ md5_bytes (ctx_c c) @ md5_bytes (ctx_d c),
      c\<lparr>ctx_lo := 0\<rparr>)"
    unfolding MD5_Final_def Let_def u(1) using p1 p2 p3 long
    by (simp add: b_def [symmetric] c_def)
  moreover have "ctx_st c = rfc_blocks buf (ctx_st ctx)"
    using md5_body_st [of 1 buf "ctx\<lparr>ctx_lo := push_bit 3 (ctx_lo ctx), ctx_buffer := buf\<rparr>"] len
    by (simp add: c_def ctx_st_def)
  moreover have "buf = drop (64 * (length m div 64)) m @ rfc_pad (length m)"
  proof -
    have "(119 - u) mod 64 = 55 - u" using u(2) by (simp add: mod_if)
    then show ?thesis
      using md5_length_bytes [OF assms(1)] b(2) by (simp add: buf_def rfc_pad_def u_def)
  qed
  ultimately show ?thesis by auto
qed

lemma MD5_Final_two:
  assumes "md5_fed ctx m" and "56 \<le> length m mod 64"
  shows "\<exists>c. MD5_Final ctx = (md5_bytes (ctx_a c) @ md5_bytes (ctx_b c) @ md5_bytes (ctx_c c) @ md5_bytes (ctx_d c),
      c\<lparr>ctx_lo := 0\<rparr>) \<and> ctx_st c = rfc_blocks (drop (64 * (length m div 64)) m @ rfc_pad (length m)) (ctx_st ctx)"
proof -
  define u where "u = length m mod 64"
  define b where "b = ctx_buffer ctx"
  define buf1 where "buf1 = take u b @ [0x80] @ replicate (63 - u) 0"
  define buf where "buf = replicate 56 0 @ md5_bytes (push_bit 3 (ctx_lo ctx)) @ md5_bytes (ctx_hi ctx)"
  have u: "unat (ctx_lo ctx AND 0x3f) = u" "\<not> u < 56" "u < 64"
    using assms by (simp_all add: u64_mask6 md5_fed_def mod_mod_cancel u_def)
  have b: "length b = 64" "take u b = drop (64 * (length m div 64)) m"
    using assms(1) by (simp_all add: md5_fed_def b_def u_def)
  have len: "length buf1 = 64" "length buf = 64" using b(1) u by (simp_all add: buf_def buf1_def md5_bytes_def)
  have p1: "put_bytes b u [0x80] = take u b @ [0x80] @ drop (u + 1) b" by (simp add: put_bytes_def)
  have p2: "put_bytes (take u b @ [0x80] @ drop (u + 1) b) (u + 1) (replicate (64 - (u + 1)) 0) = buf1"
    using b(1) u by (simp add: put_bytes_def buf1_def)
  have p3: "put_bytes (put_bytes buf1 0 (replicate 56 0)) 56
      (md5_bytes (push_bit 3 (ctx_lo ctx)) @ md5_bytes (ctx_hi ctx)) = buf"
    using len(1) by (simp add: put_bytes_def buf_def md5_bytes_def)
  have short: "63 - u < 8" using u(2) by linarith
  define c1 where "c1 = fst (md5_body (ctx\<lparr>ctx_buffer := buf1\<rparr>) buf1 1)"
  define c where "c = fst (md5_body (c1\<lparr>ctx_lo := push_bit 3 (ctx_lo ctx), ctx_buffer := buf\<rparr>) buf 1)"
  have c1: "ctx_lo c1 = ctx_lo ctx" "ctx_hi c1 = ctx_hi ctx" "ctx_buffer c1 = buf1" "ctx_st c1 = rfc_blocks buf1 (ctx_st ctx)"
    using md5_body_st [of 1 buf1 "ctx\<lparr>ctx_buffer := buf1\<rparr>"] len by (simp_all add: c1_def)
  have "MD5_Final ctx = (md5_bytes (ctx_a c) @ md5_bytes (ctx_b c) @ md5_bytes (ctx_c c) @ md5_bytes (ctx_d c),
      c\<lparr>ctx_lo := 0\<rparr>)"
    unfolding MD5_Final_def Let_def u(1) using p1 p2 p3 short
    by (simp add: b_def [symmetric] c_def c1_def)
  moreover have "ctx_st c = rfc_blocks (buf1 @ buf) (ctx_st ctx)"
    using md5_body_st [of 1 buf "c1\<lparr>ctx_lo := push_bit 3 (ctx_lo ctx), ctx_buffer := buf\<rparr>"] len c1(4)
    by (simp add: c_def rfc_blocks_append)
  moreover have "buf1 @ buf = drop (64 * (length m div 64)) m @ rfc_pad (length m)"
  proof -
    have e: "(119 - u) mod 64 = (63 - u) + 56" using u(2,3) by simp
    have r: "replicate ((119 - u) mod 64) (0 :: byte) = replicate (63 - u) 0 @ replicate 56 0"
      unfolding e by (rule replicate_add)
    show ?thesis
      unfolding buf_def buf1_def rfc_pad_def u_def [symmetric] r b(2) md5_length_bytes [OF assms(1)] by simp
  qed
  ultimately show ?thesis by auto
qed

subsection \<open>Properties\<close>

text \<open>Feeding a message in pieces is feeding it at once: \<open>MD5_Update\<close> on a context that holds \<open>m\<close>
  makes it hold \<open>m @ data\<close>, with the counters carrying at bit 29, whatever the lengths.\<close>

theorem MD5_Update_feeds:
  assumes "md5_fed ctx m"
  shows "md5_fed (MD5_Update (MD5_Update ctx x) y) (m @ x @ y) \<and> md5_fed (MD5_Update ctx (x @ y)) (m @ x @ y)"
  using MD5_Update_fed [OF MD5_Update_fed [OF assms], of x y] MD5_Update_fed [OF assms, of "x @ y"] by simp

definition md5_ctx0 :: md5_ctx where
  "md5_ctx0 = \<lparr>ctx_lo = 0, ctx_hi = 0, ctx_a = 0, ctx_b = 0, ctx_c = 0, ctx_d = 0,
     ctx_buffer = replicate 64 0, ctx_block = replicate 16 0\<rparr>"

lemma MD5_Update_feeds_witness:
  "md5_fed (MD5_Update (MD5_Update (MD5_Init md5_ctx0) [1, 2]) [3]) [1, 2, 3]"
  using MD5_Update_feeds [OF MD5_Init_fed [of md5_ctx0], of "[1, 2]" "[3]"] by (simp add: md5_ctx0_def)

lemma MD5_Final_fed:
  assumes "md5_fed ctx m"
  shows "\<exists>c. MD5_Final ctx = (md5_bytes (ctx_a c) @ md5_bytes (ctx_b c) @ md5_bytes (ctx_c c) @ md5_bytes (ctx_d c),
      c\<lparr>ctx_lo := 0\<rparr>) \<and> ctx_st c = rfc_blocks (m @ rfc_pad (length m)) rfc_init"
proof -
  let ?q = "64 * (length m div 64)"
  have "64 dvd length (take ?q m)" by (simp add: min_absorb2)
  moreover have "length (drop ?q m) < 64" by (simp add: minus_mult_div_eq_mod)
  ultimately have "ctx_st ctx = rfc_blocks (take ?q m) rfc_init"
    using assms rfc_blocks_short [of "take ?q m" "drop ?q m" rfc_init] by (simp add: md5_fed_def)
  then have "rfc_blocks (drop ?q m @ rfc_pad (length m)) (ctx_st ctx) =
      rfc_blocks (take ?q m @ drop ?q m @ rfc_pad (length m)) rfc_init"
    using \<open>64 dvd length (take ?q m)\<close> by (simp only: rfc_blocks_append)
  also have "\<dots> = rfc_blocks (m @ rfc_pad (length m)) rfc_init" by (simp flip: append.assoc)
  finally show ?thesis
    using MD5_Final_one [OF assms] MD5_Final_two [OF assms] by (metis not_le)
qed

lemma md5_bytes_lo32: "md5_bytes w = le_bytes 4 (unat (lo32 w))"
  by (simp add: md5_bytes_le unsigned_ucast_eq take_bit_eq_mod le_bytes_4_mod)



end
