(* ===== verification/Base64.thy ===== *)
theory Base64
  imports Prelude
begin

text \<open>
  Base64: \<open>base64_impl.c\<close> and the string wrappers of \<open>base64.cpp\<close>.

  An output buffer is the list of bytes stored so far; \<open>*outlen\<close> is the length given by the caller,
  and a store at an index that is not below it is the fault \<open>Write_past_end\<close>. The result codes
  are those of the C functions: 0, -1 (invalid packet) and -2 (buffer too small).
\<close>

definition b64_map :: "byte list" where
  "b64_map =
   [255, 255, 255, 255, 255, 255, 255, 255, 255, 255, 255, 255, 255, 255, 255, 255, 255, 255,
    255, 255, 255, 255, 255, 255, 255, 255, 255, 255, 255, 255, 255, 255, 255, 255, 255, 255,
    255, 255, 255, 255, 255, 255, 255, 62, 255, 255, 255, 63, 52, 53, 54, 55, 56, 57, 58, 59,
    60, 61, 255, 255, 255, 254, 255, 255, 255, 0, 1, 2, 3, 4, 5, 6, 7, 8, 9, 10, 11, 12, 13, 14,
    15, 16, 17, 18, 19, 20, 21, 22, 23, 24, 25, 255, 255, 255, 255, 255, 255, 26, 27, 28, 29,
    30, 31, 32, 33, 34, 35, 36, 37, 38, 39, 40, 41, 42, 43, 44, 45, 46, 47, 48, 49, 50, 51, 255,
    255, 255, 255, 255, 255, 255, 255, 255, 255, 255, 255, 255, 255, 255, 255, 255, 255, 255,
    255, 255, 255, 255, 255, 255, 255, 255, 255, 255, 255, 255, 255, 255, 255, 255, 255, 255,
    255, 255, 255, 255, 255, 255, 255, 255, 255, 255, 255, 255, 255, 255, 255, 255, 255, 255,
    255, 255, 255, 255, 255, 255, 255, 255, 255, 255, 255, 255, 255, 255, 255, 255, 255, 255,
    255, 255, 255, 255, 255, 255, 255, 255, 255, 255, 255, 255, 255, 255, 255, 255, 255, 255,
    255, 255, 255, 255, 255, 255, 255, 255, 255, 255, 255, 255, 255, 255, 255, 255, 255, 255,
    255, 255, 255, 255, 255, 255, 255, 255, 255, 255, 255, 255, 255, 255, 255, 255, 255, 255,
    255, 255, 255, 255, 255, 255]"

definition b64_codes :: "byte list" where
  "b64_codes =
   [0x41, 0x42, 0x43, 0x44, 0x45, 0x46, 0x47, 0x48, 0x49, 0x4A, 0x4B, 0x4C, 0x4D, 0x4E, 0x4F,
    0x50, 0x51, 0x52, 0x53, 0x54, 0x55, 0x56, 0x57, 0x58, 0x59, 0x5A, 0x61, 0x62, 0x63, 0x64,
    0x65, 0x66, 0x67, 0x68, 0x69, 0x6A, 0x6B, 0x6C, 0x6D, 0x6E, 0x6F, 0x70, 0x71, 0x72, 0x73,
    0x74, 0x75, 0x76, 0x77, 0x78, 0x79, 0x7A, 0x30, 0x31, 0x32, 0x33, 0x34, 0x35, 0x36, 0x37,
    0x38, 0x39, 0x2B, 0x2F]"

subsection \<open>Decoding\<close>

text \<open>\<open>out[z++] = v\<close> into a buffer of \<open>outlen\<close> bytes, \<open>z\<close> being the number of bytes stored.\<close>

definition b64_put :: "nat \<Rightarrow> byte list \<Rightarrow> byte \<Rightarrow> c_fault + byte list" where
  "b64_put outlen out v = (if length out < outlen then Inr (out @ [v]) else Inl Write_past_end)"

text \<open>The three stores at the end of a group of four.\<close>

definition b64_flush :: "nat \<Rightarrow> int \<Rightarrow> u32 \<Rightarrow> byte list \<Rightarrow> c_fault + byte list" where
  "b64_flush outlen g t out =
    (case b64_put outlen out (ucast (drop_bit 16 t AND 255)) of
       Inl e \<Rightarrow> Inl e
     | Inr out \<Rightarrow>
         (case (if g > 1 then b64_put outlen out (ucast (drop_bit 8 t AND 255)) else Inr out) of
            Inl e \<Rightarrow> Inl e
          | Inr out \<Rightarrow> if g > 2 then b64_put outlen out (ucast (t AND 255)) else Inr out))"

text \<open>
  The loop: \<open>t\<close> collects the bits, \<open>y\<close> counts the symbols of the group, \<open>g\<close> is 3 less the number of
  padding symbols. The result is the code and the bytes stored, as far as the code sets \<open>*outlen\<close>.
\<close>

fun b64_decode_loop :: "nat \<Rightarrow> byte list \<Rightarrow> u32 \<Rightarrow> nat \<Rightarrow> int \<Rightarrow> byte list \<Rightarrow> c_fault + int \<times> byte list" where
  "b64_decode_loop outlen [] t y g out = (if y \<noteq> 0 then Inr (-1, []) else Inr (0, out))"
| "b64_decode_loop outlen (s # inp) t y g out =
    (let c = b64_map ! unat s
     in if c = 255 then b64_decode_loop outlen inp t y g out
        else if c = 254 \<and> g - 1 < 0 then Inr (-1, [])
        else if c \<noteq> 254 \<and> g \<noteq> 3 then Inr (-1, [])
        else
          let g = (if c = 254 then g - 1 else g); c = (if c = 254 then 0 else c);
              t = push_bit 6 t OR ucast c
          in if y + 1 = 4 then
               (if int (length out) + g > int outlen then Inr (-1, [])
                else case b64_flush outlen g t out of
                       Inl e \<Rightarrow> Inl e
                     | Inr out \<Rightarrow> b64_decode_loop outlen inp 0 0 g out)
             else b64_decode_loop outlen inp t (y + 1) g out)"

text \<open>\<open>base64_decode\<close> for non-null pointers: the code and the first \<open>*outlen\<close> bytes of \<open>out\<close> (none on an error).\<close>

definition base64_decode :: "byte list \<Rightarrow> nat \<Rightarrow> c_fault + int \<times> byte list" where
  "base64_decode inp outlen = b64_decode_loop outlen inp 0 0 3 []"

subsection \<open>Encoding\<close>

definition b64_code :: "u32 \<Rightarrow> byte" where
  "b64_code i = b64_codes ! unat (i AND 0x3F)"

text \<open>The two loops of the encoder: whole triples, then the padding.\<close>

fun b64_encode_loop :: "byte list \<Rightarrow> byte list" where
  "b64_encode_loop [] = []"
| "b64_encode_loop [i0] =
    (let a = ucast i0 :: u32; b = 0
     in [b64_code (drop_bit 2 a), b64_code (push_bit 4 (a AND 3) + drop_bit 4 b), 0x3D, 0x3D])"
| "b64_encode_loop [i0, i1] =
    (let a = ucast i0 :: u32; b = ucast i1 :: u32
     in [b64_code (drop_bit 2 a), b64_code (push_bit 4 (a AND 3) + drop_bit 4 b),
         b64_code (push_bit 2 (b AND 0xf)), 0x3D])"
| "b64_encode_loop (i0 # i1 # i2 # inp) =
    (let a = ucast i0 :: u32; b = ucast i1 :: u32; c = ucast i2 :: u32
     in [b64_code (drop_bit 2 a), b64_code (push_bit 4 (a AND 3) + drop_bit 4 b),
         b64_code (push_bit 2 (b AND 0xf) + drop_bit 6 c), b64_code c] @ b64_encode_loop inp)"

text \<open>
  \<open>base64_encode\<close>: the code, the bytes stored (with the final NUL) and \<open>*outlen\<close>. The needed size is
  computed in \<open>unsigned int\<close> and wraps for inputs of more than 3221225469 bytes.
\<close>

definition base64_encode :: "byte list \<Rightarrow> u32 \<Rightarrow> c_fault + int \<times> byte list \<times> u32" where
  "base64_encode inp outlen =
    (let len2 = 4 * ((of_nat (length inp) + 2) div 3)
     in if outlen < len2 + 1 then Inr (-2, [], len2 + 1)
        else let p = b64_encode_loop inp
          in if length p < unat outlen then Inr (0, p @ [0], of_nat (length p)) else Inl Write_past_end)"

subsection \<open>The wrappers of \<open>base64.cpp\<close>\<close>

definition base64_decode_s :: "byte list \<Rightarrow> c_fault + byte list" where
  "base64_decode_s data =
    (let bufsize = length data
     in case base64_decode data bufsize of
          Inl e \<Rightarrow> Inl e
        | Inr (ret, buf) \<Rightarrow>
            if ret = 0 then (if length buf < bufsize then Inr (until_nul buf) else Inl Write_past_end)
            else Inr [])"

definition base64_encode_s :: "byte list \<Rightarrow> c_fault + byte list" where
  "base64_encode_s data =
    (case base64_encode data (4 * ((of_nat (length data) + 2) div 3) + 1) of
       Inl e \<Rightarrow> Inl e
     | Inr (ret, buf, _) \<Rightarrow> Inr (if ret = 0 then until_nul buf else []))"

subsection \<open>Lemmas\<close>

lemma b64_tables: "\<forall>i<64. b64_map ! unat (b64_codes ! i) = of_nat i \<and> b64_codes ! i \<noteq> 0"
  by (simp add: all_less_numeral all_less_one all_less_Suc_0 b64_map_def b64_codes_def)

lemma u32_and_3F_less: "unat (i AND 0x3F :: u32) < 64"
  using word_and_less [of "0x3F" "64 :: u32" i] by (simp add: word_less_nat_alt)

lemma b64_map_code [simp]: "b64_map ! unat (b64_code i) = ucast (i AND 0x3F)"
proof -
  have "of_nat (unat (i AND 0x3F)) = (ucast (i AND 0x3F) :: byte)" by (simp add: unsigned_def)
  then show ?thesis using b64_tables u32_and_3F_less [of i] by (simp add: b64_code_def)
qed

lemma b64_code_nz [simp]: "b64_code i \<noteq> 0"
  using b64_tables u32_and_3F_less [of i] by (simp add: b64_code_def)

lemma b64_map_pad [simp]: "b64_map ! 61 = 254" "b64_map ! unat (0x3D :: byte) = 254"
  by (simp_all add: b64_map_def)

lemma b64_sym [simp]: "(ucast (i AND 0x3F :: u32) :: byte) \<noteq> 255" "(ucast (i AND 0x3F :: u32) :: byte) \<noteq> 254"
    "(ucast (ucast (i AND 0x3F :: u32) :: byte) :: u32) = i AND 0x3F"
  by (simp_all add: word_enum)

text \<open>One symbol inside a group, and the symbol that ends it.\<close>

lemma b64_decode_code:
  "b64_decode_loop outlen (b64_code i # inp) t y 3 out =
    (if y + 1 = 4 then
       (if length out + 3 > outlen then Inr (-1, [])
        else case b64_flush outlen 3 (push_bit 6 t OR (i AND 0x3F)) out of
               Inl e \<Rightarrow> Inl e | Inr out \<Rightarrow> b64_decode_loop outlen inp 0 0 3 out)
     else b64_decode_loop outlen inp (push_bit 6 t OR (i AND 0x3F)) (y + 1) 3 out)"
  by (simp only: b64_decode_loop.simps b64_map_code Let_def b64_sym if_False simp_thms) simp

lemma b64_decode_pad:
  "g > 0 \<Longrightarrow> b64_decode_loop outlen (0x3D # inp) t y g out =
    (if y + 1 = 4 then
       (if int (length out) + (g - 1) > int outlen then Inr (-1, [])
        else case b64_flush outlen (g - 1) (push_bit 6 t) out of
               Inl e \<Rightarrow> Inl e | Inr out \<Rightarrow> b64_decode_loop outlen inp 0 0 (g - 1) out)
     else b64_decode_loop outlen inp (push_bit 6 t) (y + 1) (g - 1) out)"
  by (simp add: Let_def)

lemma b64_flush_ok:
  "length out + 3 \<le> outlen \<Longrightarrow> b64_flush outlen 3 t out =
    Inr (out @ [ucast (drop_bit 16 t AND 255), ucast (drop_bit 8 t AND 255), ucast (t AND 255)])"
  "length out + 2 \<le> outlen \<Longrightarrow> b64_flush outlen 2 t out =
    Inr (out @ [ucast (drop_bit 16 t AND 255), ucast (drop_bit 8 t AND 255)])"
  "length out + 1 \<le> outlen \<Longrightarrow> b64_flush outlen 1 t out = Inr (out @ [ucast (drop_bit 16 t AND 255)])"
  by (simp_all add: b64_flush_def b64_put_def)

lemma b64_decode_group:
  "b64_decode_loop outlen (b64_code p # b64_code q # b64_code r # b64_code s # inp) 0 0 3 out =
    (if length out + 3 > outlen then Inr (-1, [])
     else let t = push_bit 6 (push_bit 6 (push_bit 6 (p AND 0x3F) OR (q AND 0x3F)) OR (r AND 0x3F)) OR (s AND 0x3F)
       in b64_decode_loop outlen inp 0 0 3
         (out @ [ucast (drop_bit 16 t AND 255), ucast (drop_bit 8 t AND 255), ucast (t AND 255)]))"
  by (simp add: b64_decode_code b64_flush_ok Let_def)

lemma b64_decode_group_2:
  "b64_decode_loop outlen [b64_code p, b64_code q, b64_code r, 0x3D] 0 0 3 out =
    (if length out + 2 > outlen then Inr (-1, [])
     else let t = push_bit 6 (push_bit 6 (push_bit 6 (p AND 0x3F) OR (q AND 0x3F)) OR (r AND 0x3F))
       in Inr (0, out @ [ucast (drop_bit 16 t AND 255), ucast (drop_bit 8 t AND 255)]))"
  by (simp add: b64_decode_code b64_decode_pad b64_flush_ok Let_def)

lemma b64_decode_group_1:
  "b64_decode_loop outlen [b64_code p, b64_code q, 0x3D, 0x3D] 0 0 3 out =
    (if length out + 1 > outlen then Inr (-1, [])
     else let t = push_bit 6 (push_bit 6 (push_bit 6 (p AND 0x3F) OR (q AND 0x3F)))
       in Inr (0, out @ [ucast (drop_bit 16 t AND 255)]))"
  by (simp add: b64_decode_code b64_decode_pad b64_flush_ok Let_def)

lemma byte_high [simp]: "8 \<le> n \<Longrightarrow> \<not> bit (b :: byte) n"
  using bit_imp_le_length [of b n] by auto

text \<open>The two sums of the encoder add numbers with no bit in common.\<close>

lemma b64_sums:
  fixes a b c :: byte
  shows "push_bit 4 (ucast a AND 3) + drop_bit 4 (ucast b) = (push_bit 4 (ucast a AND 3) OR drop_bit 4 (ucast b) :: u32)"
    and "push_bit 2 (ucast b AND 0xf) + drop_bit 6 (ucast c) = (push_bit 2 (ucast b AND 0xf) OR drop_bit 6 (ucast c) :: u32)"
  by (rule disjunctive_add_eq_or; simp add: word_enum)+

lemma b64_bytes:
  fixes a b c :: byte
  defines "t \<equiv> push_bit 6 (push_bit 6 (push_bit 6 (drop_bit 2 (ucast a) AND 0x3F)
      OR ((push_bit 4 (ucast a AND 3) OR drop_bit 4 (ucast b)) AND 0x3F))
      OR ((push_bit 2 (ucast b AND 0xf) OR drop_bit 6 (ucast c)) AND 0x3F)) OR (ucast c AND 0x3F) :: u32"
  shows "ucast (drop_bit 16 t AND 255) = a" "ucast (drop_bit 8 t AND 255) = b" "ucast (t AND 255) = c"
  unfolding t_def by (simp_all add: word_enum, simp_all add: numeral_2_eq_2 numeral_3_eq_3)

lemma b64_bytes_2:
  fixes a b :: byte
  defines "t \<equiv> push_bit 6 (push_bit 6 (push_bit 6 (drop_bit 2 (ucast a) AND 0x3F)
      OR ((push_bit 4 (ucast a AND 3) OR drop_bit 4 (ucast b)) AND 0x3F))
      OR (push_bit 2 (ucast b AND 0xf) AND 0x3F)) :: u32"
  shows "ucast (drop_bit 16 t AND 255) = a" "ucast (drop_bit 8 t AND 255) = b"
  unfolding t_def by (simp_all add: word_enum, simp_all add: numeral_2_eq_2 numeral_3_eq_3)

lemma b64_bytes_1:
  fixes a :: byte
  defines "t \<equiv> push_bit 6 (push_bit 6 (push_bit 6 (drop_bit 2 (ucast a) AND 0x3F)
      OR (push_bit 4 (ucast a AND 3) AND 0x3F))) :: u32"
  shows "ucast (drop_bit 16 t AND 255) = a"
  unfolding t_def by (simp_all add: word_enum, simp_all add: numeral_2_eq_2 numeral_3_eq_3)

lemma b64_encode_one: "b64_encode_loop [a] =
    [b64_code (drop_bit 2 (ucast a)), b64_code (push_bit 4 (ucast a AND 3)), 0x3D, 0x3D]"
  by (simp only: b64_encode_loop.simps Let_def drop_bit_of_0 add_0_right)

lemma b64_decode_encode_loop:
  "length out \<le> outlen \<Longrightarrow> b64_decode_loop outlen (b64_encode_loop inp) 0 0 3 out =
    (if length out + length inp \<le> outlen then Inr (0, out @ inp) else Inr (-1, []))"
proof (induction inp arbitrary: out rule: b64_encode_loop.induct)
  case (2 a)
  show ?case unfolding b64_encode_one b64_decode_group_1 Let_def b64_bytes_1 by simp
next
  case (3 a b)
  show ?case unfolding b64_encode_loop.simps b64_sums Let_def b64_decode_group_2 b64_bytes_2 by simp
next
  case (4 a b c inp)
  show ?case
    unfolding b64_encode_loop.simps b64_sums Let_def append_Cons append_Nil b64_decode_group b64_bytes
    using 4(1) [OF refl refl refl, of "out @ [a, b, c]"] by simp
qed simp

lemma b64_encode_loop_length: "length (b64_encode_loop inp) = 4 * ((length inp + 2) div 3)"
proof (induction inp rule: b64_encode_loop.induct)
  case (4 a b c inp)
  have "(length (a # b # c # inp) + 2) div 3 = Suc ((length inp + 2) div 3)" by simp
  then show ?case using 4 by (simp add: Let_def)
qed (simp_all add: Let_def)

lemma b64_encode_loop_ok [simp]: "cstr_ok (b64_encode_loop inp)"
  by (induction inp rule: b64_encode_loop.induct) (simp_all add: Let_def)

lemma b64_len2:
  assumes "length inp < 3221225470"
  shows "unat (4 * ((of_nat (length inp) + 2) div 3) + 1 :: u32) = 4 * ((length inp + 2) div 3) + 1"
proof -
  have n: "(length inp + 2) div 3 < 1073741824" using assms by (simp add: div_less_iff_less_mult)
  have "unat (of_nat (length inp) + 2 :: u32) = length inp + 2"
    using assms by (simp add: unat_word_ariths unsigned_of_nat take_bit_nat_eq_self)
  then have "unat ((of_nat (length inp) + 2 :: u32) div 3) = (length inp + 2) div 3"
    by (simp add: unat_div)
  then show ?thesis using n assms by (simp add: unat_word_ariths)
qed

lemma b64_flush_cases:
  assumes "int (length out) + g \<le> int outlen" and "length out \<le> outlen"
  shows "case b64_flush outlen g t out of
     Inl e \<Rightarrow> e = Write_past_end \<and> g \<le> 0 \<and> length out = outlen
   | Inr out' \<Rightarrow> length out' \<le> length out + 3 \<and> length out' \<le> outlen"
  using assms by (auto simp: b64_flush_def b64_put_def)

lemma b64_map_eq_pad:
  fixes s :: byte
  shows "b64_map ! unat s = 254 \<longleftrightarrow> s = 0x3D"
proof -
  have "\<forall>i<256. b64_map ! i = 254 \<longrightarrow> i = 61"
    by (simp add: all_less_numeral all_less_one all_less_Suc_0 b64_map_def)
  moreover have "unat s < 256"
  proof -
    have "unat s < 2 ^ LENGTH(8)" by (rule unsigned_less)
    then show ?thesis by simp
  qed
  moreover have "unat s = 61 \<longleftrightarrow> s = 0x3D" by (simp add: word_unat_eq_iff)
  ultimately show ?thesis by auto
qed

text \<open>One step on a symbol that is neither skipped nor rejected.\<close>

lemma b64_decode_loop_step:
  assumes "b64_map ! unat s \<noteq> 255"
    and "\<not> (b64_map ! unat s = 254 \<and> g - 1 < 0 \<or> b64_map ! unat s \<noteq> 254 \<and> g \<noteq> 3)"
  shows "b64_decode_loop outlen (s # inp) t y g out =
    (let g' = (if b64_map ! unat s = 254 then g - 1 else g);
         t' = push_bit 6 t OR ucast (if b64_map ! unat s = 254 then 0 else b64_map ! unat s)
     in if y + 1 = 4 then
          (if int (length out) + g' > int outlen then Inr (-1, [])
           else case b64_flush outlen g' t' out of
                  Inl e \<Rightarrow> Inl e | Inr out \<Rightarrow> b64_decode_loop outlen inp 0 0 g' out)
        else b64_decode_loop outlen inp t' (y + 1) g' out)"
  using assms by (auto simp: Let_def)

text \<open>The decoder's invariant: the stored bytes are at most three for four symbols, and only a third
  padding symbol can make it store behind the buffer.\<close>

lemma b64_decode_loop_bounds:
  assumes "length out \<le> outlen" and "4 * length out \<le> 3 * n" and "y < 4"
  shows "case b64_decode_loop outlen inp t y g out of
      Inl e \<Rightarrow> e = Write_past_end \<and> g \<le> int (count_list inp 0x3D) \<and> 4 * outlen \<le> 3 * (n + y + length inp)
    | Inr (ret, out') \<Rightarrow> length out' \<le> outlen \<and> 4 * length out' \<le> 3 * (n + y + length inp)"
  using assms
proof (induction outlen inp t y g out arbitrary: n rule: b64_decode_loop.induct)
  case (1 outlen t y g out)
  then show ?case by simp
next
  case (2 outlen s inp t y g out)
  let ?c = "b64_map ! unat s"
  note pad = b64_map_eq_pad [of s]
  show ?case
  proof (cases "?c = 255")
    case True
    then have "s \<noteq> 0x3D" using pad by auto
    then show ?thesis using True 2(1) [OF refl True, of n] 2(4-6)
      by (auto simp: Let_def split: sum.splits prod.splits)
  next
    case n255: False
    show ?thesis
    proof (cases "?c = 254 \<and> g - 1 < 0 \<or> ?c \<noteq> 254 \<and> g \<noteq> 3")
      case True
      then show ?thesis using n255 by (auto simp: Let_def)
    next
      case False
      define g' where "g' = (if ?c = 254 then g - 1 else g)"
      define t' where "t' = push_bit 6 t OR ucast (if ?c = 254 then 0 else ?c)"
      have cnt: "g - int (count_list (s # inp) 0x3D) = g' - int (count_list inp 0x3D)"
        using pad by (auto simp: g'_def)
      note unf = b64_decode_loop_step [OF n255 False, of outlen inp t y out, unfolded Let_def, folded g'_def t'_def]
      show ?thesis
      proof (cases "y + 1 = 4")
        case y: False
        have "case b64_decode_loop outlen inp t' (y + 1) g' out of
            Inl e \<Rightarrow> e = Write_past_end \<and> g' \<le> int (count_list inp 0x3D) \<and> 4 * outlen \<le> 3 * (n + (y + 1) + length inp)
          | Inr (ret, out') \<Rightarrow> length out' \<le> outlen \<and> 4 * length out' \<le> 3 * (n + (y + 1) + length inp)"
          using 2(3) [OF refl n255 _ _ refl refl] y 2(4-6) False unfolding g'_def t'_def by auto
        then show ?thesis using cnt unfolding unf using y by (auto split: sum.splits prod.splits)
      next
        case y: True
        show ?thesis
        proof (cases "int (length out) + g' > int outlen")
          case True
          then show ?thesis unfolding unf using y by simp
        next
          case room: False
          show ?thesis
          proof (cases "b64_flush outlen g' t' out")
            case (Inl e)
            then show ?thesis using b64_flush_cases [of out g' outlen t'] room 2(4,5) cnt unfolding unf
              using y by auto
          next
            case (Inr out2)
            have l: "length out2 \<le> length out + 3" "length out2 \<le> outlen"
              using b64_flush_cases [of out g' outlen t'] Inr room 2(4) by auto
            have "case b64_decode_loop outlen inp 0 0 g' out2 of
                Inl e \<Rightarrow> e = Write_past_end \<and> g' \<le> int (count_list inp 0x3D) \<and> 4 * outlen \<le> 3 * ((n + 4) + 0 + length inp)
              | Inr (ret, out') \<Rightarrow> length out' \<le> outlen \<and> 4 * length out' \<le> 3 * ((n + 4) + 0 + length inp)"
              using 2(2) [OF refl n255 _ _ refl refl refl y, of out2 "n + 4"] Inr room l 2(4-6) False
              unfolding g'_def t'_def by auto
            then show ?thesis using cnt Inr room unfolding unf using y by (auto split: sum.splits prod.splits)
          qed
        qed
      qed
    qed
  qed
qed

subsection \<open>Properties\<close>

text \<open>C27: what \<open>base64_encode\<close> stores, without its NUL, \<open>base64_decode\<close> turns back into the input, for a
  destination that holds it, and rejects for a smaller one.\<close>

theorem base64_encode_decode:
  assumes "base64_encode inp outlen = Inr (0, buf, n)"
  shows "base64_decode (butlast buf) m = (if length inp \<le> m then Inr (0, inp) else Inr (-1, []))"
  using assms b64_decode_encode_loop [of "[]" m inp]
  by (auto simp: base64_encode_def base64_decode_def Let_def split: if_splits)

lemma base64_encode_decode_witness:
  "base64_decode [0x59, 0x51, 0x3D, 0x3D] 1 = Inr (0, [0x61])"
proof -
  have "base64_encode [0x61] 5 = Inr (0, [0x59, 0x51, 0x3D, 0x3D, 0], 4)"
    by (simp add: base64_encode_def b64_code_def b64_codes_def Let_def)
  then show ?thesis using base64_encode_decode [of "[0x61]" 5 _ _ 1] by simp
qed

text \<open>For inputs below the wrap-around of the size computation \<open>base64_encode\<close> never stores behind its
  buffer: with room for four characters per started triple and the NUL it stores exactly these, and
  otherwise it returns -2 and the size it needs.\<close>

theorem base64_encode_bounds:
  assumes "length inp < 3221225470"
  shows "base64_encode inp outlen =
    (let need = 4 * ((length inp + 2) div 3) + 1
     in if unat outlen < need then Inr (-2, [], of_nat need)
        else Inr (0, b64_encode_loop inp @ [0], of_nat (need - 1))) \<and>
    length (b64_encode_loop inp) = 4 * ((length inp + 2) div 3) \<and> 0 \<notin> set (b64_encode_loop inp)"
proof -
  let ?len2 = "4 * ((of_nat (length inp) + 2) div 3) :: u32"
  have u: "unat (?len2 + 1) = 4 * ((length inp + 2) div 3) + 1" using b64_len2 [OF assms] .
  have "?len2 + 1 = of_nat (unat (?len2 + 1))" by (simp only: of_nat_unat ucast_id)
  then have "?len2 + 1 = of_nat (4 * ((length inp + 2) div 3) + 1)" unfolding u .
  then show ?thesis
    using u b64_encode_loop_length [of inp] b64_encode_loop_ok [of inp]
    by (auto simp: base64_encode_def Let_def word_less_nat_alt cstr_ok_def simp del: b64_encode_loop_ok)
qed

lemma base64_encode_bounds_witness:
  "base64_encode [0x61, 0x62] 4 = Inr (-2, [], 5)"
  using base64_encode_bounds [of "[0x61, 0x62]" 4] by (simp add: Let_def)

text \<open>The decoder stores at most three bytes for four symbols and never more than \<open>*outlen\<close>; the only
  way behind the buffer is a group with three padding symbols, which the check \<open>z + g > *outlen\<close> lets
  through with \<open>g = 0\<close> although one byte is stored, as for ''A==='' and an empty buffer.\<close>

theorem base64_decode_bounds:
  "(case base64_decode inp outlen of
      Inl e \<Rightarrow> e = Write_past_end \<and> 3 \<le> count_list inp 0x3D \<and> 4 * outlen \<le> 3 * length inp
    | Inr (ret, out) \<Rightarrow> length out \<le> outlen \<and> 4 * length out \<le> 3 * length inp) \<and>
   base64_decode [0x41, 0x3D, 0x3D, 0x3D] 0 = Inl Write_past_end"
proof
  show "case base64_decode inp outlen of
      Inl e \<Rightarrow> e = Write_past_end \<and> 3 \<le> count_list inp 0x3D \<and> 4 * outlen \<le> 3 * length inp
    | Inr (ret, out) \<Rightarrow> length out \<le> outlen \<and> 4 * length out \<le> 3 * length inp"
    using b64_decode_loop_bounds [of "[]" outlen 0 0 3 inp 0]
    by (auto simp: base64_decode_def split: sum.splits prod.splits)
  show "base64_decode [0x41, 0x3D, 0x3D, 0x3D] 0 = Inl Write_past_end"
    by (simp add: base64_decode_def b64_map_def Let_def b64_flush_def b64_put_def)
qed

text \<open>The string wrapper \<open>base64_decode\<close> of \<open>base64.cpp\<close> stays inside its buffer for every input but
  the empty one, whose terminating NUL goes behind an array of length 0; and it undoes the encoding
  wrapper on every other string without NUL bytes.\<close>

theorem base64_decode_s_safe:
  "(base64_decode_s data = Inl e \<longleftrightarrow> data = [] \<and> e = Write_past_end) \<and>
   (\<forall>s. s \<noteq> [] \<and> cstr_ok s \<and> length s < 3221225470 \<longrightarrow>
      (\<exists>t. base64_encode_s s = Inr t \<and> base64_decode_s t = Inr s))"
proof (intro conjI allI impI)
  have b: "case b64_decode_loop (length data) data 0 0 3 [] of
      Inl e \<Rightarrow> e = Write_past_end \<and> 3 \<le> count_list data 0x3D \<and> 4 * length data \<le> 3 * length data
    | Inr (ret, out) \<Rightarrow> length out \<le> length data \<and> 4 * length out \<le> 3 * length data"
    using b64_decode_loop_bounds [of "[]" "length data" 0 0 3 data 0]
    by (auto split: sum.splits prod.splits)
  have lt: "4 * length x \<le> 3 * length data \<Longrightarrow> data \<noteq> [] \<Longrightarrow> length x < length data" for x :: "byte list"
    by (cases "length data") auto
  have "count_list data 0x3D \<le> length data" by (rule count_le_length)
  then show "base64_decode_s data = Inl e \<longleftrightarrow> data = [] \<and> e = Write_past_end"
    using b lt by (cases "data = []") (auto simp: base64_decode_s_def base64_decode_def Let_def
        split: sum.splits prod.splits if_splits)
next
  fix s :: "byte list"
  assume s: "s \<noteq> [] \<and> cstr_ok s \<and> length s < 3221225470"
  have "s \<noteq> []" using s by simp
  then have l: "length s \<le> 4 * ((length s + 2) div 3)" "length s < 4 * ((length s + 2) div 3)"
    by (cases "length s"; simp)+
  have e: "base64_encode_s s = Inr (b64_encode_loop s)"
    using b64_len2 [of s] s until_nul_id [of "b64_encode_loop s"] b64_encode_loop_length [of s]
    by (auto simp: base64_encode_s_def base64_encode_def Let_def until_nul_def)
  have "base64_decode_s (b64_encode_loop s) = Inr s"
    using b64_decode_encode_loop [of "[]" "length (b64_encode_loop s)" s] l s until_nul_id [of s]
    by (simp add: base64_decode_s_def base64_decode_def Let_def b64_encode_loop_length)
  then show "\<exists>t. base64_encode_s s = Inr t \<and> base64_decode_s t = Inr s" using e by simp
qed

lemma base64_decode_s_safe_witness:
  "base64_decode_s [0x59, 0x51, 0x3D, 0x3D] \<noteq> Inl Write_past_end"
  using base64_decode_s_safe [of "[0x59, 0x51, 0x3D, 0x3D]" Write_past_end] by simp

end
