(* ===== verification/Encconv.thy ===== *)
theory Encconv
  imports Prelude
begin

text \<open>
  \<open>encoding_converter.h\<close> and \<open>encoding_converter.cpp\<close>: the wrapper around \<open>iconv\<close>. The library is a
  parameter \<open>I\<close>: \<open>ic_open\<close> gives the initial conversion state for a target and a source encoding, and
  \<open>ic_conv\<close> what one call does with the rest of the input and the room left in the output: its result,
  the number of bytes consumed, the bytes produced and the new conversion state. The loop of \<open>convert\<close>
  runs as long as the library leaves input; a run that does not end is None.
\<close>

datatype iconv_res = Iconv_ok | Iconv_EILSEQ | Iconv_EINVAL | Iconv_E2BIG | Iconv_EBADF | Iconv_other

record 's iconv_lib =
  ic_open :: "byte list \<Rightarrow> byte list \<Rightarrow> 's option"
  ic_conv :: "'s \<Rightarrow> byte list \<Rightarrow> nat \<Rightarrow> iconv_res \<times> nat \<times> byte list \<times> 's"

datatype iconv_type_t = ICONV_TYPE_NONE | ICONV_TYPE_TRANSLIT | ICONV_TYPE_IGNORE

record 's encconv =
  ec_from :: "byte list"
  ec_to :: "byte list"
  ec_converter :: "'s option"
  ec_fill_char :: byte

definition encconv_default :: "'s encconv" where
  "encconv_default = \<lparr>ec_from = [], ec_to = [], ec_converter = None, ec_fill_char = 0x3F\<rparr>"

definition encconv_close :: "'s encconv \<Rightarrow> int \<times> 's encconv" where
  "encconv_close e = (if ec_converter e = None then (- 1, e) else (0, e\<lparr>ec_converter := None\<rparr>))"

definition encconv_open ::
  "'s iconv_lib \<Rightarrow> byte list \<Rightarrow> byte list \<Rightarrow> iconv_type_t \<Rightarrow> 's encconv \<Rightarrow> int \<times> 's encconv" where
  "encconv_open I from to type e =
    (let e = snd (encconv_close e);
         target = (case type of
             ICONV_TYPE_TRANSLIT \<Rightarrow> to @ c_lit ''//TRANSLIT''
           | ICONV_TYPE_IGNORE \<Rightarrow> to @ c_lit ''//IGNORE''
           | ICONV_TYPE_NONE \<Rightarrow> to);
         conv = ic_open I (until_nul target) (until_nul from)
     in (if conv = None then - 1 else 0, e\<lparr>ec_from := from, ec_to := target, ec_converter := conv\<rparr>))"

definition encconv_new :: "'s iconv_lib \<Rightarrow> byte list \<Rightarrow> byte list \<Rightarrow> iconv_type_t \<Rightarrow> 's encconv" where
  "encconv_new I from to type = snd (encconv_open I from to type encconv_default)"

definition set_fill_char :: "byte \<Rightarrow> 's encconv \<Rightarrow> byte \<times> 's encconv" where
  "set_fill_char c e = (ec_fill_char e, e\<lparr>ec_fill_char := c\<rparr>)"

text \<open>The loop: the return value, the output so far, the room left and the conversion state. Replacing
  an invalid byte stores the fill character without looking at the room.\<close>

partial_function (option) convert_loop ::
  "'s iconv_lib \<Rightarrow> bool \<Rightarrow> byte \<Rightarrow> 's \<Rightarrow> byte list \<Rightarrow> byte list \<Rightarrow> nat \<Rightarrow>
    (c_fault + (int \<times> byte list \<times> nat \<times> 's)) option" where
  "convert_loop I failon fill s inp out room =
    (if inp = [] then Some (Inr (0, out, room, s))
     else (case ic_conv I s inp room of (res, n, outp, s') \<Rightarrow>
       (let inp' = drop n inp; out' = out @ outp; room' = room - length outp
        in if res = Iconv_ok then convert_loop I failon fill s' inp' out' room'
           else if res = Iconv_EILSEQ \<or> res = Iconv_EINVAL then
             (if failon then Some (Inr (- 2, [], 0, s'))
              else if room' = 0 then Some (Inl Write_past_end)
              else if inp' = [] then Some (Inl Read_past_end)
              else convert_loop I failon fill s' (drop 1 inp') (out' @ [fill]) (room' - 1))
           else if res = Iconv_EBADF then Some (Inr (- 3, [], 0, s'))
           else Some (Inr (0, out', room', s')))))"

text \<open>The buffer size is computed in \<open>unsigned int\<close>. The third component is the converted data when
  the return value is 0, the last one the converter after the call.\<close>

definition encconv_convert ::
  "'s iconv_lib \<Rightarrow> byte list \<Rightarrow> bool \<Rightarrow> 's encconv \<Rightarrow> (c_fault + (int \<times> byte list \<times> 's encconv)) option" where
  "encconv_convert I data failon e = (case ec_converter e of
     None \<Rightarrow> Some (Inr (- 1, [], e))
   | Some s \<Rightarrow>
       (let len = (of_nat (length data) :: u32); bufsize = unat (len * 4 + 16)
        in (case convert_loop I failon (ec_fill_char e) s (take (unat len) data) [] bufsize of
              None \<Rightarrow> None
            | Some (Inl f) \<Rightarrow> Some (Inl f)
            | Some (Inr (ret, out, room, s')) \<Rightarrow>
                (if ret = 0 \<and> room = 0 then Some (Inl Write_past_end)
                 else Some (Inr (ret, out, e\<lparr>ec_converter := Some s'\<rparr>))))))"

text \<open>The overload for \<open>char *\<close> gives a null pointer on an error.\<close>

definition encconv_convert_p ::
  "'s iconv_lib \<Rightarrow> byte list \<Rightarrow> bool \<Rightarrow> 's encconv \<Rightarrow> (c_fault + (byte list option \<times> 's encconv)) option" where
  "encconv_convert_p I data failon e = (case encconv_convert I data failon e of
     None \<Rightarrow> None
   | Some (Inl f) \<Rightarrow> Some (Inl f)
   | Some (Inr (ret, out, e')) \<Rightarrow> Some (Inr (if ret < 0 then None else Some out, e')))"

text \<open>The overloads for strings: the first assigns the destination only on success.\<close>

definition encconv_convert_s ::
  "'s iconv_lib \<Rightarrow> byte list \<Rightarrow> byte list \<Rightarrow> bool \<Rightarrow> 's encconv \<Rightarrow>
    (c_fault + (int \<times> byte list \<times> 's encconv)) option" where
  "encconv_convert_s I dest str failon e = (case encconv_convert I str failon e of
     None \<Rightarrow> None
   | Some (Inl f) \<Rightarrow> Some (Inl f)
   | Some (Inr (ret, out, e')) \<Rightarrow> Some (Inr (if ret < 0 then (- 1, dest, e') else (0, out, e'))))"

definition encconv_convert_v ::
  "'s iconv_lib \<Rightarrow> byte list \<Rightarrow> bool \<Rightarrow> 's encconv \<Rightarrow> (c_fault + (byte list \<times> 's encconv)) option" where
  "encconv_convert_v I str failon e = (case encconv_convert_s I [] str failon e of
     None \<Rightarrow> None
   | Some (Inl f) \<Rightarrow> Some (Inl f)
   | Some (Inr (ret, out, e')) \<Rightarrow> Some (Inr (if ret < 0 then [] else out, e')))"

definition encconv_convert_static ::
  "'s iconv_lib \<Rightarrow> byte list \<Rightarrow> byte list \<Rightarrow> byte list \<Rightarrow> bool \<Rightarrow> (c_fault + (byte list \<times> 's encconv)) option" where
  "encconv_convert_static I from to str failon =
    encconv_convert_v I str failon (encconv_new I from to ICONV_TYPE_TRANSLIT)"

subsection \<open>What the library promises\<close>

text \<open>
  \<open>iconv\<close> as documented: it never consumes more than the input or produces more than the room, it
  returns without an error only when the whole input is consumed, and on an invalid or incomplete
  sequence it stops in front of it. \<open>iconv_expands4\<close> is what the size of the buffer relies on: no
  encoding needs more than four bytes for one byte of input.
\<close>

definition iconv_ok :: "'s iconv_lib \<Rightarrow> bool" where
  "iconv_ok I \<longleftrightarrow> (\<forall>s inp room res n outp s'. ic_conv I s inp room = (res, n, outp, s') \<longrightarrow>
    n \<le> length inp \<and> length outp \<le> room \<and> (res = Iconv_ok \<longrightarrow> n = length inp) \<and>
    (inp \<noteq> [] \<and> (res = Iconv_EILSEQ \<or> res = Iconv_EINVAL) \<longrightarrow> n < length inp))"

definition iconv_expands4 :: "'s iconv_lib \<Rightarrow> bool" where
  "iconv_expands4 I \<longleftrightarrow> (\<forall>s inp room res n outp s'. ic_conv I s inp room = (res, n, outp, s') \<longrightarrow>
    length outp \<le> 4 * n)"

lemma convert_loop_total:
  assumes "iconv_ok I" and "iconv_expands4 I"
  shows "4 * length inp < room \<Longrightarrow>
    \<exists>ret out' room' s'. convert_loop I failon fill s inp out room = Some (Inr (ret, out', room', s')) \<and>
      ret \<in> {0, - 2, - 3} \<and> (ret = 0 \<longrightarrow> 0 < room' \<and> length out' + room' = length out + room) \<and>
      (\<not> failon \<longrightarrow> ret \<noteq> - 2)"
proof (induction "length inp" arbitrary: s inp out room rule: less_induct)
  case less
  show ?case
  proof (cases "inp = []")
    case True
    then show ?thesis using less.prems by (subst convert_loop.simps) simp
  next
    case False
    obtain res n outp s' where c: "ic_conv I s inp room = (res, n, outp, s')" by (metis prod_cases4)
    have n: "n \<le> length inp" and p: "length outp \<le> room" "length outp \<le> 4 * n"
      and full: "res = Iconv_ok \<Longrightarrow> n = length inp"
      and part: "res = Iconv_EILSEQ \<or> res = Iconv_EINVAL \<Longrightarrow> n < length inp"
      using assms c False unfolding iconv_ok_def iconv_expands4_def by blast+
    consider (ok) "res = Iconv_ok" | (inv) "res = Iconv_EILSEQ \<or> res = Iconv_EINVAL"
      | (bad) "res = Iconv_EBADF" | (stop) "res = Iconv_E2BIG \<or> res = Iconv_other"
      by (cases res) auto
    then show ?thesis
    proof cases
      case ok
      then have d: "drop n inp = []" using full by simp
      have "4 * length (drop n inp) < room - length outp" and "length (drop n inp) < length inp"
        using less.prems n p ok full False by auto
      from less.hyps [OF this(2) this(1), of s' "out @ outp"] show ?thesis
        using ok False p by (subst convert_loop.simps) (simp add: c Let_def)
    next
      case inv
      have r: "4 * length (drop 1 (drop n inp)) < room - length outp - 1"
        and l: "length (drop 1 (drop n inp)) < length inp" and pos: "0 < room - length outp" and ne: "n < length inp"
        using less.prems n p part [OF inv] by auto
      show ?thesis
      proof (cases failon)
        case True
        then show ?thesis using inv False by (subst convert_loop.simps) (auto simp: c Let_def)
      next
        case f: False
        from less.hyps [OF l r, of s' "(out @ outp) @ [fill]"] show ?thesis
          using inv f False pos ne p by (subst convert_loop.simps) (auto simp: c Let_def)
      qed
    next
      case bad
      then show ?thesis using False by (subst convert_loop.simps) (simp add: c Let_def)
    next
      case stop
      then show ?thesis using False less.prems n p
        by (subst convert_loop.simps) (auto simp: c Let_def)
    qed
  qed
qed


definition iconv_identity :: "unit iconv_lib" where
  "iconv_identity = \<lparr>ic_open = (\<lambda>to from. Some ()),
    ic_conv = (\<lambda>s inp room. if length inp \<le> room then (Iconv_ok, length inp, inp, ()) else (Iconv_E2BIG, 0, [], ()))\<rparr>"

lemma iconv_identity: "iconv_ok iconv_identity" "iconv_expands4 iconv_identity"
  by (auto simp: iconv_ok_def iconv_expands4_def iconv_identity_def split: if_splits)


end
