(* ===== verification/Strutils.thy ===== *)
theory Strutils
  imports Dubeol Etc Md5 Base64 Encconv Botmod "HOL-Library.Signed_Division"
begin

text \<open>
  The commands of \<open>modules/mod_strutils.cpp\<close>: numbers made of a question (\<open>md5rand\<close>), counting strokes
  and mixing two names (\<open>get_gp\<close>), encodings, regular expressions, the keyboard of \<open>Dubeol\<close>. The clock, the
  random numbers, the two modes of the regular expressions (\<open>R\<close> for bytes, \<open>R8\<close> for UTF-8), \<open>iconv\<close> and the
  arithmetic on \<open>double\<close> are parameters. A command returns what it sends, in its order.
\<close>

subsection \<open>Numbers from a question\<close>

definition re_me :: "byte list" where
  "re_me = [0x5B, 0x5E, 0xEA, 0xB0, 0x80, 0x2D, 0xED, 0x9E, 0xA3, 0x5D, 0x3F, 0x28, 0xEB, 0x82, 0x98, 0x7C, 0xEB,
    0x82, 0xB4, 0x29, 0x5B, 0xEC, 0x9D, 0x80, 0xEB, 0x8A, 0x94, 0xEC, 0x9D, 0xB4, 0xEA, 0xB0, 0x80, 0xEC, 0x9D,
    0x84, 0xEB, 0xA5, 0xBC, 0xEA, 0xB3, 0xBC, 0xEC, 0x99, 0x80, 0x20, 0x5D]"

definition re_keep :: "byte list" where
  "re_keep = [0x5B, 0x5E, 0x2D, 0x5F, 0x2B, 0x3D, 0x28, 0x29, 0x5B, 0x5C, 0x5D, 0x2A, 0x26, 0x7C, 0x5E, 0x24, 0x23,
    0x40, 0x3C, 0x3E, 0x7B, 0x7D, 0xEA, 0xB0, 0x80, 0x2D, 0xED, 0x9E, 0xA3, 0xE4, 0xB8, 0x80, 0x2D, 0xE9, 0xBE,
    0xA5, 0x30, 0x2D, 0x39, 0x61, 0x2D, 0x7A, 0x41, 0x2D, 0x5A, 0xE3, 0x81, 0x81, 0x2D, 0xE3, 0x82, 0x93, 0xE3,
    0x82, 0xA1, 0x2D, 0xE3, 0x83, 0xB6, 0x5D]"

definition re_keep_jamo :: "byte list" where
  "re_keep_jamo = [0x5B, 0x5E, 0x2D, 0x5F, 0x2B, 0x3D, 0x28, 0x29, 0x5B, 0x5C, 0x5D, 0x2A, 0x26, 0x7C, 0x5E, 0x24,
    0x23, 0x40, 0x3C, 0x3E, 0x7B, 0x7D, 0xEA, 0xB0, 0x80, 0x2D, 0xED, 0x9E, 0xA3, 0xE4, 0xB8, 0x80, 0x2D, 0xE9,
    0xBE, 0xA5, 0x30, 0x2D, 0x39, 0x61, 0x2D, 0x7A, 0x41, 0x2D, 0x5A, 0xE3, 0x81, 0x81, 0x2D, 0xE3, 0x82, 0x93,
    0xE3, 0x82, 0xA1, 0x2D, 0xE3, 0x83, 0xB6, 0xE3, 0x84, 0xB1, 0x2D, 0xE3, 0x85, 0xA3, 0xE3, 0x85, 0xA5, 0x2D,
    0xE3, 0x86, 0x8E, 0x5D]"

text \<open>The words of an MD5 hash as a little-endian \<open>unsigned int\<close> array.\<close>

definition hash_word :: "byte list \<Rightarrow> nat \<Rightarrow> u32" where
  "hash_word h i =
    ucast (h ! (4 * i)) OR push_bit 8 (ucast (h ! (4 * i + 1))) OR push_bit 16 (ucast (h ! (4 * i + 2))) OR
      push_bit 24 (ucast (h ! (4 * i + 3)))"

definition md5rand :: "byte pcre \<Rightarrow> byte pcre \<Rightarrow> md5_ctx \<Rightarrow> int \<Rightarrow> u32 \<Rightarrow> byte list \<Rightarrow> byte list \<Rightarrow> u32" where
  "md5rand R R8 ctx now rnd nick msg =
    (if msg = [] then rnd
     else
       (let msg = re_global_replace R re_me nick msg;
            buf = re_global_replace R8 re_keep [] msg;
            buf = (if buf = [] then
                (let buf = re_global_replace R8 re_keep_jamo [] msg in if buf = [] then msg else buf)
              else buf);
            h = md5 ctx (int2string (now div 3600) @ buf)
        in hash_word h 0 XOR hash_word h 1 XOR hash_word h 2 XOR hash_word h 3))"

definition re_words :: "byte list" where
  "re_words = [0x5B, 0x5E, 0xEA, 0xB0, 0x80, 0x2D, 0xED, 0x9E, 0xA3, 0x61, 0x2D, 0x7A, 0x41, 0x2D, 0x5A, 0x5D]"

definition nw_list :: "byte list list" where
  "nw_list = [[0xEC, 0x95, 0x84], [0xEC, 0x95, 0x88], [0xEC, 0x95, 0x8A], [0xEC, 0x99, 0xB8], [0xEB, 0xB9, 0xBC],
    [0xEB, 0xBA, 0x80], [0xEC, 0xA0, 0x9C, 0xED, 0x95, 0x9C], [0xEB, 0xA7, 0x90, 0xEA, 0xB3, 0xA0], [0xEC, 0x97,
    0x86], [0xEC, 0x97, 0x85], [0xEB, 0xB6, 0x80], [0xEB, 0xB6, 0x88], [0xEB, 0xB9, 0x84], [0xEB, 0xB0, 0x98, 0xEB,
    0x8C, 0x80], [0xEA, 0xB1, 0xB0, 0xEC, 0xA7, 0x93], [0x6E, 0x6F, 0x74], [0x66, 0x61, 0x6C, 0x73, 0x65], [0xED,
    0x8B, 0x80], [0xEB, 0xAA, 0xBB]]"

text \<open>\<open>strstr\<close>: does the text hold the word?\<close>

definition has_word :: "byte list \<Rightarrow> byte list \<Rightarrow> bool" where
  "has_word s w \<longleftrightarrow> (\<exists>i \<in> set [0..<length s + 1]. take (length w) (drop i s) = w)"

definition is_negative_msg :: "byte pcre \<Rightarrow> byte list \<Rightarrow> bool" where
  "is_negative_msg R8 msg =
    (let msg = until_nul (re_global_replace R8 re_words [] msg)
     in length (filter (has_word msg) nw_list) mod 2 = 1)"

subsection \<open>Strokes\<close>

definition stroke_list :: "(byte list \<times> int) list" where
  "stroke_list =
   [([0xE3, 0x84, 0xB1], 1),
    ([0xE3, 0x84, 0xB4], 1),
    ([0xE3, 0x84, 0xB7], 2),
    ([0xE3, 0x84, 0xB9], 3),
    ([0xE3, 0x85, 0x81], 3),
    ([0xE3, 0x85, 0x82], 4),
    ([0xE3, 0x85, 0x85], 2),
    ([0xE3, 0x85, 0x87], 1),
    ([0xE3, 0x85, 0x88], 2),
    ([0xE3, 0x85, 0x8A], 3),
    ([0xE3, 0x85, 0x8B], 2),
    ([0xE3, 0x85, 0x8C], 3),
    ([0xE3, 0x85, 0x8D], 4),
    ([0xE3, 0x85, 0x8E], 3),
    ([0xE3, 0x84, 0xB2], 4),
    ([0xE3, 0x84, 0xB8], 4),
    ([0xE3, 0x85, 0x83], 8),
    ([0xE3, 0x85, 0x86], 4),
    ([0xE3, 0x85, 0x89], 6),
    ([0xE3, 0x84, 0xB3], 3),
    ([0xE3, 0x84, 0xB5], 3),
    ([0xE3, 0x84, 0xB6], 4),
    ([0xE3, 0x84, 0xBA], 4),
    ([0xE3, 0x84, 0xBB], 6),
    ([0xE3, 0x84, 0xBC], 7),
    ([0xE3, 0x84, 0xBD], 5),
    ([0xE3, 0x84, 0xBE], 6),
    ([0xE3, 0x84, 0xBF], 7),
    ([0xE3, 0x85, 0x80], 6),
    ([0xE3, 0x85, 0x84], 6),
    ([0xE3, 0x85, 0xBD], 6),
    ([0xE3, 0x85, 0x8F], 2),
    ([0xE3, 0x85, 0x93], 2),
    ([0xE3, 0x85, 0x97], 2),
    ([0xE3, 0x85, 0x9C], 2),
    ([0xE3, 0x85, 0xA1], 1),
    ([0xE3, 0x85, 0xA3], 1),
    ([0xE3, 0x85, 0x91], 3),
    ([0xE3, 0x85, 0x95], 3),
    ([0xE3, 0x85, 0x9B], 3),
    ([0xE3, 0x85, 0xA0], 3),
    ([0xE3, 0x85, 0x90], 3),
    ([0xE3, 0x85, 0x92], 4),
    ([0xE3, 0x85, 0x94], 3),
    ([0xE3, 0x85, 0x96], 4),
    ([0xE3, 0x85, 0x98], 4),
    ([0xE3, 0x85, 0x99], 5),
    ([0xE3, 0x85, 0x9A], 3),
    ([0xE3, 0x85, 0x9D], 4),
    ([0xE3, 0x85, 0x9E], 5),
    ([0xE3, 0x85, 0x9F], 3),
    ([0xE3, 0x85, 0xA2], 2)]"

definition letter_stroke :: "byte \<Rightarrow> int" where
  "letter_stroke ch =
    (if 0x61 \<le> ch \<and> ch \<le> 0x65 then 1
     else if ch = 0x66 then 2
     else if ch = 0x67 \<or> ch = 0x68 then 1
     else if 0x69 \<le> ch \<and> ch \<le> 0x6B then 2
     else if 0x6C \<le> ch \<and> ch \<le> 0x73 then 1
     else if ch = 0x74 then 2
     else if ch = 0x75 \<or> ch = 0x76 then 1
     else if ch = 0x78 \<or> ch = 0x79 then 2
     else if ch = 0x7A then 1
     else 0)"

definition stroke_of :: "byte list \<Rightarrow> int" where
  "stroke_of str = (case find (\<lambda>(s, n). s = str) stroke_list of None \<Rightarrow> 0 | Some (s, n) \<Rightarrow> n)"

lemma letters_small: "list_all (\<lambda>u. u \<le> 0x3163) (initials @ medials @ finals)"
  by (simp add: initials_def medials_def finals_def)

lemma hangul_split_utf8str_parts:
  assumes "hangul_split_utf8str s = Some (i, m, f)" "x = i \<or> x = m \<or> x = f"
  shows "hangul_split_utf8str x = None"
proof -
  have letter: "hangul_split_utf8str (until_nul (take 3 (snd (utf8_encode_nt u 4)))) = None"
    if "kor u" "u \<le> 0x3163" for u
  proof -
    have "\<not> 0xAC00 \<le> u" using that(2) by (simp add: word_le_nat_alt)
    then show ?thesis using that(1)
      by (simp add: hangul_split_utf8str_def hangul_split_utf8char_def kor_encode kor_length until_nul_rest hangul_split_def)
  qed
  have empty: "hangul_split_utf8str [] = None"
    by (simp add: hangul_split_utf8str_def hangul_split_utf8char_def utf8_decode_def utf8_decode_v2_def hangul_split_def
        until_nul_def)
  obtain l v t where sp: "hangul_split (fst (utf8_decode (until_nul s))) = Some (l, v, t)"
    and parts: "i = until_nul (take 3 (snd (utf8_encode_nt l 4)))" "m = until_nul (take 3 (snd (utf8_encode_nt v 4)))"
      "f = until_nul (take 3 (if t \<noteq> 0 then snd (utf8_encode_nt t 4) else []))"
    using assms(1) by (auto simp: hangul_split_utf8str_def hangul_split_utf8char_def split: option.splits prod.splits)
  have "hangul_is_syllable (fst (utf8_decode (until_nul s)))"
    using sp by (auto simp: hangul_split_def hangul_is_syllable_def split: if_splits)
  then have "letters (l, v, t)" using syllable_letters(1) sp by force
  then have "l \<le> 0x3163" "v \<le> 0x3163" "t \<le> 0x3163"
    using letters_small by (auto simp: letters_def list_all_iff)
  moreover have "kor l" "kor v" "t \<noteq> 0 \<Longrightarrow> kor t" using hangul_split_kor [OF sp] by auto
  ultimately show ?thesis
    using assms(2) letter empty unfolding parts by (cases "t = 0") (auto simp: until_nul_def)
qed

function get_char_stroke :: "byte list \<Rightarrow> int" where
  "get_char_stroke str =
    (let ch = cstr_at str 0; ch = (if 0x41 \<le> ch \<and> ch \<le> 0x5A then ch + 0x20 else ch)
     in if 0x61 \<le> ch \<and> ch \<le> 0x7A then letter_stroke ch
        else case hangul_split_utf8str str of
          Some (i, m, f) \<Rightarrow> get_char_stroke i + get_char_stroke m + get_char_stroke f
        | None \<Rightarrow> stroke_of str)"
  by pat_completeness auto
termination
proof (relation "measure (\<lambda>s. if hangul_split_utf8str s = None then 0 else 1)", goal_cases)
  case 2
  then show ?case using hangul_split_utf8str_parts [OF _ disjI1 [OF refl]] by fastforce
next
  case 3
  then show ?case using hangul_split_utf8str_parts [OF _ disjI2 [OF disjI1 [OF refl]]] by fastforce
next
  case 4
  then show ?case using hangul_split_utf8str_parts [OF _ disjI2 [OF disjI2 [OF refl]]] by fastforce
qed simp

declare get_char_stroke.simps [simp del]

function str_stroke_loop :: "byte list \<Rightarrow> nat \<Rightarrow> int \<Rightarrow> int" where
  "str_stroke_loop str i stroke =
    (let ch = utf8_strpos_s str (int i)
     in if ch = [] then stroke else str_stroke_loop str (Suc i) (stroke + get_char_stroke ch))"
  by pat_completeness auto

lemma utf8_strpos_s_chars:
  "utf8_strpos_s s (int k) = (if k < length (utf8_split_chars s) then utf8_split_chars s ! k else [])"
proof -
  obtain cs r where d: "until_nul s = concat cs @ r" "utf8_chars cs" "utf8_getsize_char r \<le> 0"
    "utf8_split_loop (until_nul s) = cs"
    by (rule utf8_decompose [of "until_nul s"])
  show ?thesis
  proof (cases "k < length cs")
    case True
    have "cstr_ok r" using d(1) until_nul_cstr_ok [of s] by (metis cstr_ok_simps(3))
    then have "utf8_strpos_s (until_nul s) (int k) = cs ! k" using utf8_strpos_s_append [OF d(2) _ True] d(1) by simp
    then show ?thesis using True d(4) by (simp add: utf8_strpos_s_def utf8_split_chars_def until_nul_id)
  next
    case False
    then show ?thesis using utf8_strpos_getpos_append [OF d(2,3), of "int k"] d(1,4)
      by (simp add: utf8_strpos_s_def utf8_strpos_def utf8_split_chars_def)
  qed
qed

lemma split_chars_nonempty: "c \<in> set (utf8_split_chars s) \<Longrightarrow> c \<noteq> []"
  using utf8_split_loop_chars [of "until_nul s"] utf8_char_nz
  by (auto simp: utf8_split_chars_def list_all_iff)

lemma utf8_strpos_s_empty: "utf8_strpos_s s (int k) = [] \<longleftrightarrow> length (utf8_split_chars s) \<le> k"
  using split_chars_nonempty [of "utf8_split_chars s ! k" s] by (auto simp: utf8_strpos_s_chars)

termination str_stroke_loop
  by (relation "measure (\<lambda>(str, i, _). length (utf8_split_chars str) - i)") (auto simp: utf8_strpos_s_empty)
declare str_stroke_loop.simps [simp del]

definition get_str_stroke :: "byte list \<Rightarrow> int" where
  "get_str_stroke str = str_stroke_loop str 0 0"

subsection \<open>Mixing two names\<close>

text \<open>\<open>merge_name\<close>: \<open>i1\<close> and \<open>i2\<close> are -1 once their name is used up; \<open>side\<close> tells whose turn it is.\<close>

definition name_left :: "byte list \<Rightarrow> int \<Rightarrow> bool \<Rightarrow> nat" where
  "name_left s i turn =
    (let n = length (utf8_split_chars s)
     in if i < 0 then (if turn then n + 2 else 0) else if nat i \<le> n then n + 1 - nat i else 1)"

function merge_name_loop :: "byte list \<Rightarrow> byte list \<Rightarrow> bool \<Rightarrow> int \<Rightarrow> int \<Rightarrow> byte list \<Rightarrow> byte list" where
  "merge_name_loop s1 s2 side i1 i2 result =
    (if \<not> side then
       (let s = utf8_strpos_s s1 i1; i1 = (if s = [] then - 1 else i1 + 1); result = result @ s
        in if i1 < 0 \<and> i2 < 0 then result
           else merge_name_loop s1 s2 (if i2 \<ge> 0 then True else side) i1 i2 result)
     else
       (let s = utf8_strpos_s s2 i2; i2 = (if s = [] then - 1 else i2 + 1); result = result @ s
        in if i1 < 0 \<and> i2 < 0 then result
           else merge_name_loop s1 s2 (if i1 \<ge> 0 then False else side) i1 i2 result))"
  by pat_completeness auto

lemma name_left_step:
  assumes "i' = (if utf8_strpos_s s i = [] then - 1 else i + 1)" "i' < 0 \<longrightarrow> \<not> turn"
  shows "name_left s i' turn < name_left s i True"
proof (cases "i < 0")
  case True
  then show ?thesis using assms by (auto simp: name_left_def Let_def split: if_splits)
next
  case False
  then obtain k where k: "i = int k" by (metis nonneg_int_cases not_less)
  then show ?thesis using assms utf8_strpos_s_empty [of s k]
    by (auto simp: name_left_def Let_def nat_add_distrib split: if_splits)
qed

lemma name_left_turn: "0 \<le> i \<Longrightarrow> name_left s i t = name_left s i t'"
  by (simp add: name_left_def)

termination merge_name_loop
proof (relation "measure (\<lambda>(s1, s2, side, i1, i2, _). name_left s1 i1 (\<not> side) + name_left s2 i2 side)", goal_cases)
  case (2 s1 s2 side i1 i2 result x i1' r)
  then show ?case
    using name_left_step [of i1' s1 i1 "i2 < 0"] name_left_turn [of i2 s2 True False] by (cases "i2 \<ge> 0") auto
next
  case (3 s1 s2 side i1 i2 result x i2' r)
  then show ?case
    using name_left_step [of i2' s2 i2 "i1 < 0"] name_left_turn [of i1 s1 True False] by (cases "i1 \<ge> 0") auto
qed simp

declare merge_name_loop.simps [simp del]

definition merge_name :: "byte list \<Rightarrow> byte list \<Rightarrow> byte list" where
  "merge_name s1 s2 = merge_name_loop s1 s2 False 0 0 []"

text \<open>One array of numbers: what the loop sums up for up to three numbers, and the sums of neighbours.\<close>

fun num_array_loop :: "bool \<Rightarrow> int list \<Rightarrow> int \<Rightarrow> int \<Rightarrow> int list \<Rightarrow> int \<times> int list" where
  "num_array_loop small [] n multiplier na2 = (n, na2)"
| "num_array_loop small (x # xs) n multiplier na2 =
    num_array_loop small xs (if small then n + x * multiplier else n)
      (if small then multiplier sdiv 10 else multiplier)
      (case xs of [] \<Rightarrow> na2 | y # ys \<Rightarrow> na2 @ [(x + y) smod 10])"

lemma num_array_loop_length:
  "length (snd (num_array_loop small xs n m na2)) = length na2 + (length xs - 1)"
  by (induction small xs n m na2 rule: num_array_loop.induct) (auto split: list.split)

function merge_num_array :: "int list \<Rightarrow> int" where
  "merge_num_array na =
    (if length na < 1 \<or> length na > 30 then - 1
     else
       (let small = (length na \<le> 3);
            (n, na2) = num_array_loop small na (if small then 0 else 101) (if small then 10 ^ (length na - 1) else 0) []
        in if n \<le> 100 then n else merge_num_array na2))"
  by pat_completeness auto

termination
proof (relation "measure length", goal_cases)
  case (2 na small x n na2)
  then have "na2 = snd (num_array_loop small na (if small then 0 else 101) (if small then 10 ^ (length na - 1) else 0) [])"
    by (metis snd_conv)
  then have "length na2 = length na - 1" by (simp add: num_array_loop_length)
  then show ?case using 2(1) by (simp add: not_less)
qed simp
declare merge_num_array.simps [simp del]

text \<open>The strokes of each character of the mixed name.\<close>

function gp_loop :: "byte list \<Rightarrow> nat \<Rightarrow> int list \<Rightarrow> int list" where
  "gp_loop mname i na =
    (let ch = utf8_strpos_s mname (int i)
     in if ch = [] then na else gp_loop mname (Suc i) (na @ [get_char_stroke ch]))"
  by pat_completeness auto
termination
  by (relation "measure (\<lambda>(s, i, _). length (utf8_split_chars s) - i)") (auto simp: utf8_strpos_s_empty)
declare gp_loop.simps [simp del]

definition get_gp :: "byte list \<Rightarrow> byte list \<Rightarrow> int" where
  "get_gp s1 s2 =
    (let (s1, s2) = (if get_str_stroke s1 < get_str_stroke s2 then (s2, s1) else (s1, s2))
     in merge_num_array (gp_loop (merge_name s1 s2) 0 []))"

subsection \<open>The percentage bar\<close>

text \<open>One of the two loops that write the bar: \<open>n\<close> cells from \<open>i\<close> on; \<open>pi\<close> counts the characters of the number
  already written.\<close>

fun bar_loop :: "byte list \<Rightarrow> nat \<Rightarrow> int \<Rightarrow> nat \<Rightarrow> byte list \<times> nat" where
  "bar_loop pcstr 0 i pi = ([], pi)"
| "bar_loop pcstr (Suc n) i pi =
    (let pcslen = int (length pcstr);
         (c, pi) = (if i \<ge> 25 - pcslen div 2 \<and> i \<le> 25 + pcslen div 2 \<and> int pi < pcslen
            then (pcstr ! pi, Suc pi) else (0x20, pi));
         (cs, pi) = bar_loop pcstr n (i + 1) pi
     in (c # cs, pi))"

definition percent_bar :: "nat \<Rightarrow> byte list" where
  "percent_bar percent =
    (let pc = percent div 2; pcstr = int2string (int percent) @ [0x25];
         (left, pi) = bar_loop pcstr pc 0 0;
         (right, pi) = bar_loop pcstr (50 - pc) (int pc) pi
     in IRCTEXT_COLOR_FGBG (c_lit ''15'') (c_lit ''02'') @ left @
        IRCTEXT_COLOR_FGBG (c_lit ''02'') (c_lit ''15'') @ right @ IRCTEXT_NORMAL)"

subsection \<open>Commands\<close>

function replace_all :: "byte list \<Rightarrow> byte list \<Rightarrow> byte list \<Rightarrow> byte list" where
  "replace_all p r s =
    (if p = [] \<or> s = [] then s
     else if take (length p) s = p then r @ replace_all p r (drop (length p) s)
     else hd s # replace_all p r (tl s))"
  by pat_completeness auto
termination
  by (relation "measure (\<lambda>(p, r, s). length s)") auto
declare replace_all.simps [simp del]

definition re_split_encoding :: "byte list" where
  "re_split_encoding = [0x5E, 0x2D, 0x65, 0x20, 0x28, 0x5B, 0x5E, 0x20, 0x5D, 0x2B, 0x29, 0x20, 0x28, 0x2E, 0x2A,
    0x29]"

definition usage_text :: "byte list \<Rightarrow> byte list" where
  "usage_text cmd = [0xEC, 0x82, 0xAC, 0xEC, 0x9A, 0xA9, 0xEB, 0xB2, 0x95, 0x3A, 0x20, 0x21] @ cmd @ [0x20, 0x3C,
    0xEB, 0x82, 0xB4, 0xEC, 0x9A, 0xA9, 0x3E, 0x20, 0x7C, 0x20, 0x21] @ cmd @ [0x20, 0x2D, 0x65, 0x20, 0x3C, 0xEC,
    0x9D, 0xB8, 0xEC, 0xBD, 0x94, 0xEB, 0x94, 0xA9, 0x3E, 0x20, 0x3C, 0xEB, 0x82, 0xB4, 0xEC, 0x9A, 0xA9, 0x3E]"

definition unsupported_encoding :: "byte list" where
  "unsupported_encoding = [0xEC, 0xA7, 0x80, 0xEC, 0x9B, 0x90, 0xED, 0x95, 0x98, 0xEC, 0xA7, 0x80, 0x20, 0xEC, 0x95,
    0x8A, 0xEB, 0x8A, 0x94, 0x20, 0xEC, 0x9D, 0xB8, 0xEC, 0xBD, 0x94, 0xEB, 0x94, 0xA9, 0xEC, 0x9E, 0x85, 0xEB,
    0x8B, 0x88, 0xEB, 0x8B, 0xA4, 0x2E]"

definition failed :: "byte list" where
  "failed = [0xEC, 0x8B, 0xA4, 0xED, 0x8C, 0xA8]"

text \<open>The commands on a text: \<open>None\<close> is a conversion that does not end.\<close>

definition singlearg_src :: "md5_ctx \<Rightarrow> byte list \<Rightarrow> byte list \<Rightarrow> c_fault + int \<times> 'f reply list" where
  "singlearg_src ctx cmd carg2 =
    (if carg2 = [] then Inr (0, [Privmsg_nh (usage_text cmd)])
     else if cmd = [0x62, 0x36, 0x34, 0x65] \<or> cmd = [0x62, 0x61, 0x73, 0x65, 0x36, 0x34] then
       map_sum id (\<lambda>buf. (0, [Privmsg_nh (if buf = [] then failed else buf)])) (base64_encode_s carg2)
     else if cmd = [0x6D, 0x64, 0x35] then Inr (0, [Privmsg (md5_hex ctx carg2)])
     else if cmd = [0x75, 0x72, 0x6C, 0x65, 0x6E, 0x63] \<or> cmd = [0x75, 0x72, 0x6C, 0x65, 0x6E, 0x63, 0x6F, 0x64,
       0x65] then
       map_sum id (\<lambda>buf. (0, [Privmsg buf])) (urlencode_s carg2)
     else if cmd = [0x75, 0x72, 0x6C, 0x65, 0x6E, 0x63, 0x70] then
       map_sum id (\<lambda>buf. (0, [Privmsg
           (replace_all [0x25, 0x32, 0x36] [0x26] (replace_all [0x25, 0x33, 0x64] [0x3D] (replace_all [0x25, 0x33,
             0x66] [0x3F]
             (replace_all [0x25, 0x32, 0x66] [0x2F] (replace_all [0x25, 0x33, 0x61] [0x3A] buf)))))]))
         (urlencode_s carg2)
     else Inr (0, []))"

definition cmd_cb_singlearg_src ::
  "byte pcre \<Rightarrow> 's iconv_lib \<Rightarrow> md5_ctx \<Rightarrow> byte list \<Rightarrow> byte list \<Rightarrow> (c_fault + int \<times> 'f reply list) option" where
  "cmd_cb_singlearg_src R I ctx cmd carg =
    (case re_full R re_split_encoding carg of
       Some (enc # carg2 # _) \<Rightarrow>
         (let (ret, cv) = encconv_open I [0x75, 0x74, 0x66, 0x2D, 0x38] enc ICONV_TYPE_TRANSLIT encconv_default
          in if ret < 0 then Some (Inr (0, [Privmsg_nh unsupported_encoding]))
             else (case encconv_convert_v I carg2 False cv of
                 None \<Rightarrow> None
               | Some (Inl e) \<Rightarrow> Some (Inl e)
               | Some (Inr (carg2, cv)) \<Rightarrow> Some (singlearg_src ctx cmd carg2)))
     | _ \<Rightarrow> Some (singlearg_src ctx cmd carg))"

text \<open>\<open>cmd_cb_singlearg_dest\<close>: the decoded text is converted from the given encoding.\<close>

definition send_converted ::
  "'s iconv_lib \<Rightarrow> 's encconv \<Rightarrow> c_fault + byte list \<Rightarrow> (c_fault + int \<times> 'f reply list) option" where
  "send_converted I cv buf =
    (case buf of
       Inl e \<Rightarrow> Some (Inl e)
     | Inr buf \<Rightarrow> (case encconv_convert_v I buf False cv of
           None \<Rightarrow> None
         | Some (Inl e) \<Rightarrow> Some (Inl e)
         | Some (Inr (out, cv)) \<Rightarrow> Some (Inr (0, [Privmsg_nh out]))))"

definition cmd_cb_singlearg_dest ::
  "byte pcre \<Rightarrow> 's iconv_lib \<Rightarrow> byte list \<Rightarrow> byte list \<Rightarrow> (c_fault + int \<times> 'f reply list) option" where
  "cmd_cb_singlearg_dest R I cmd carg =
    (let (enc, carg2) = (case re_full R re_split_encoding carg of
           Some (enc # carg2 # _) \<Rightarrow> (enc, carg2) | _ \<Rightarrow> ([0x75, 0x74, 0x66, 0x2D, 0x38],
             carg));
         (ret, cv) = encconv_open I enc [0x75, 0x74, 0x66, 0x2D, 0x38] ICONV_TYPE_TRANSLIT encconv_default
     in if ret < 0 then Some (Inr (0, [Privmsg_nh unsupported_encoding]))
        else if carg2 = [] then Some (Inr (0, [Privmsg_nh (usage_text cmd)]))
        else if cmd = [0x62, 0x36, 0x34, 0x64] then
          send_converted I cv (map_sum id (\<lambda>buf. if buf = [] then failed else buf) (base64_decode_s carg2))
        else if cmd = [0x75, 0x72, 0x6C, 0x64, 0x65, 0x63] \<or> cmd = [0x75, 0x72, 0x6C, 0x64, 0x65, 0x63, 0x6F,
          0x64, 0x65] then send_converted I cv (urldecode_s carg2)
        else if cmd = [0x68, 0x74, 0x6D, 0x6C, 0x65, 0x6E, 0x74, 0x64, 0x65,
          0x63] then send_converted I cv (Inr (decode_html_entities carg2))
        else Some (Inr (0, [])))"

definition re_regexp_cmd :: "byte list" where
  "re_regexp_cmd = [0x2F, 0x28, 0x28, 0x3F, 0x3A, 0x5B, 0x5E, 0x5C, 0x5C, 0x2F, 0x5D, 0x2B, 0x2B, 0x7C, 0x5C, 0x5C,
    0x2E, 0x29, 0x2A, 0x2B, 0x29, 0x2F, 0x20, 0x28, 0x2E, 0x2A, 0x29]"

fun groups_text :: "byte list list \<Rightarrow> byte list" where
  "groups_text [] = []"
| "groups_text [g] = g"
| "groups_text (g # gs) = g @ [0x2C, 0x20] @ groups_text gs"

definition cmd_cb_regexp :: "byte pcre \<Rightarrow> byte pcre \<Rightarrow> byte list \<Rightarrow> byte list \<Rightarrow> int \<times> 'f reply list" where
  "cmd_cb_regexp R R8 cmd carg =
    (case re_full R re_regexp_cmd carg of
       Some (pattern # txt # _) \<Rightarrow>
         (HANDLER_FINISHED, [Privmsg_nh (case re_partial R8 pattern txt of
             Some groups \<Rightarrow> [0xEC, 0x84, 0xB1, 0xEA, 0xB3, 0xB5] @ (if groups \<noteq> [] then [0x3A,
               0x20] else []) @ groups_text groups
           | None \<Rightarrow> failed)])
     | _ \<Rightarrow> (HANDLER_FINISHED, [Privmsg_nh ([0xEC, 0x82, 0xAC, 0xEC, 0x9A, 0xA9, 0xEB, 0xB2, 0x95, 0x3A,
       0x20, 0x21] @ cmd @ [0x20, 0x2F, 0xEC, 0xA0, 0x95, 0xEA, 0xB7, 0x9C, 0xED, 0x91, 0x9C, 0xED, 0x98, 0x84,
       0xEC, 0x8B, 0x9D, 0x20, 0xED, 0x8C, 0xA8, 0xED, 0x84, 0xB4, 0x2F, 0x20, 0xEB, 0x82, 0xB4, 0xEC, 0x9A,
       0xA9])]))"

definition tarot_data :: "(byte list \<times> byte list \<times> byte list \<times> byte list) list" where
  "tarot_data =
   [([0xEA, 0xB4, 0x91, 0xEB, 0x8C, 0x80], [0x54, 0x68, 0x65, 0x20, 0x46, 0x6F, 0x6F, 0x6C], [0xEC, 0xA0, 0x95,
     0xEB, 0xB0, 0xA9, 0xED, 0x96, 0xA5], [0xEC, 0x95, 0x88, 0xEC, 0xA0, 0x95, 0xEC, 0xA0, 0x81, 0x2C, 0x20, 0xEC,
     0xB0, 0xA8, 0xEB, 0xB6, 0x84, 0x2C, 0x20, 0xEC, 0xB9, 0xA8, 0xEC, 0xB0, 0xA9, 0x2C, 0x20, 0xEC, 0x99, 0x84,
     0xEB, 0xA7, 0x8C, 0x2C, 0x20, 0xEB, 0x82, 0x99, 0xEC, 0xB2, 0x9C, 0xEC, 0xA0, 0x81, 0x2C, 0x20, 0xEC, 0x88,
     0x9C, 0xEC, 0x88, 0x98]),
    ([0xEB, 0xA7, 0x88, 0xEB, 0xB2, 0x95, 0xEC, 0x82, 0xAC], [0x54, 0x68, 0x65, 0x20, 0x4D, 0x61, 0x67, 0x69, 0x63,
      0x69, 0x61, 0x6E], [0xEC, 0xA0, 0x95, 0xEB, 0xB0, 0xA9, 0xED, 0x96, 0xA5], [0xEC, 0xA0, 0x81, 0xEA, 0xB7,
      0xB9, 0xEC, 0xA0, 0x81, 0x2C, 0x20, 0xEC, 0xA7, 0x84, 0xEC, 0xA0, 0x84, 0x2C, 0x20, 0xEA, 0xB3, 0x84, 0xED,
      0x9A, 0x8D, 0x2C, 0x20, 0xEC, 0x98, 0x88, 0xEC, 0x83, 0x81, 0x20, 0xEC, 0xA0, 0x81, 0xEC, 0xA4, 0x91, 0x2C,
      0x20, 0xEC, 0xA7, 0x84, 0xEC, 0x8B, 0xA4, 0x2C, 0x20, 0xEC, 0x82, 0xAC, 0xEC, 0x8B, 0xA4]),
    ([0xEC, 0x97, 0xAC, 0xEC, 0x82, 0xAC, 0xEC, 0xA0, 0x9C], [0x54, 0x68, 0x65, 0x20, 0x48, 0x69, 0x67, 0x68, 0x20,
      0x50, 0x72, 0x69, 0x65, 0x73, 0x74, 0x65, 0x73, 0x73], [0xEC, 0xA0, 0x95, 0xEB, 0xB0, 0xA9, 0xED, 0x96, 0xA5],
      [0xEB, 0xB6, 0x88, 0xEB, 0xB3, 0x80, 0x2C, 0x20, 0xED, 0x98, 0xB8, 0xEC, 0x9D, 0x98, 0xEC, 0xA0, 0x81, 0x2C,
      0x20, 0xEC, 0x9D, 0xB4, 0xED, 0x95, 0xB4, 0xED, 0x95, 0xA8, 0x2C, 0x20, 0xED, 0x96, 0xA5, 0xED, 0x95, 0x99,
      0xEC, 0x8B, 0xAC, 0x2C, 0x20, 0xEA, 0xB3, 0xBC, 0xED, 0x95, 0x98, 0xEC, 0xA7, 0x80, 0x20, 0xEC, 0x95, 0x8A,
      0xEC, 0x9D, 0x8C]),
    ([0xEC, 0x97, 0xAC, 0xEC, 0xA0, 0x9C], [0x54, 0x68, 0x65, 0x20, 0x45, 0x6D, 0x70, 0x72, 0x65, 0x73, 0x73],
      [0xEC, 0xA0, 0x95, 0xEB, 0xB0, 0xA9, 0xED, 0x96, 0xA5], [0xED, 0x98, 0xB8, 0xEC, 0x9D, 0x98, 0xEC, 0xA0, 0x81,
      0x2C, 0x20, 0xEA, 0xB2, 0xB0, 0xEB, 0xB0, 0xB1, 0x2C, 0x20, 0xEA, 0xB3, 0xBC, 0xED, 0x95, 0x98, 0xEC, 0xA7,
      0x80, 0x20, 0xEC, 0x95, 0x8A, 0xEC, 0x9D, 0x8C, 0x2C, 0x20, 0xEC, 0x88, 0x9C, 0xEC, 0x88, 0x98, 0x2C, 0x20,
      0xEC, 0xB0, 0xA9, 0xED, 0x95, 0xA8]),
    ([0xED, 0x99, 0xA9, 0xEC, 0xA0, 0x9C], [0x54, 0x68, 0x65, 0x20, 0x45, 0x6D, 0x70, 0x65, 0x72, 0x6F, 0x72],
      [0xEC, 0xA0, 0x95, 0xEB, 0xB0, 0xA9, 0xED, 0x96, 0xA5], [0xEB, 0x8F, 0x85, 0xEC, 0x9E, 0x90, 0xEC, 0xA0, 0x81,
      0x20, 0xEC, 0xA7, 0x80, 0xEC, 0x9C, 0x84, 0x2C, 0x20, 0xEC, 0x99, 0x84, 0xEB, 0xA7, 0x8C, 0x2C, 0x20, 0xEA,
      0xB3, 0x84, 0xED, 0x9A, 0x8D, 0xEC, 0x84, 0xB1, 0x2C, 0x20, 0xED, 0x8F, 0xAC, 0xEC, 0x9A, 0xA9, 0x2C, 0x20,
      0xEA, 0xB4, 0x80, 0xEB, 0x8C, 0x80]),
    ([0xEA, 0xB5, 0x90, 0xED, 0x99, 0xA9], [0x54, 0x68, 0x65, 0x20, 0x48, 0x69, 0x65, 0x72, 0x6F, 0x70, 0x68, 0x61,
      0x6E, 0x74], [0xEC, 0xA0, 0x95, 0xEB, 0xB0, 0xA9, 0xED, 0x96, 0xA5], [0xEC, 0x8B, 0xA0, 0xEC, 0x9A, 0xA9,
      0x2C, 0x20, 0xEA, 0xB5, 0x90, 0xEC, 0xA0, 0x9C, 0x20, 0xED, 0x97, 0x88, 0xEB, 0x9D, 0xBD, 0x2C, 0x20, 0xEC,
      0x95, 0x88, 0xEC, 0xA0, 0x95, 0xEC, 0xA0, 0x81, 0x20, 0xEC, 0xA7, 0x80, 0xEC, 0x9C, 0x84, 0x2C, 0x20, 0xEC,
      0xA7, 0x84, 0xEC, 0xA0, 0x84, 0x2C, 0x20, 0xEC, 0x84, 0xB1, 0xEC, 0x8A, 0xA4, 0xEB, 0x9F, 0xAC, 0xEC, 0x9B,
      0x80]),
    ([0xEC, 0x97, 0xB0, 0xEC, 0x9D, 0xB8], [0x54, 0x68, 0x65, 0x20, 0x4C, 0x6F, 0x76, 0x65, 0x72, 0x73], [0xEC,
      0xA0, 0x95, 0xEB, 0xB0, 0xA9, 0xED, 0x96, 0xA5], [0xEC, 0x84, 0xB1, 0xEA, 0xB2, 0xA9, 0x20, 0xEC, 0x9D, 0xBC,
      0xEC, 0xB9, 0x98, 0x2C, 0x20, 0xEC, 0x98, 0xB3, 0xEC, 0x9D, 0x80, 0x20, 0xED, 0x8C, 0x90, 0xEB, 0x8B, 0xA8,
      0x2C, 0x20, 0xEC, 0x98, 0x81, 0xEC, 0x9B, 0x90, 0xED, 0x95, 0xA8, 0x2C, 0x20, 0xEA, 0xB2, 0xB0, 0xED, 0x95,
      0xA9, 0x2C, 0x20, 0xEC, 0x9D, 0xB8, 0xEC, 0x97, 0xB0]),
    ([0xEC, 0xA0, 0x84, 0xEC, 0xB0, 0xA8], [0x54, 0x68, 0x65, 0x20, 0x43, 0x68, 0x61, 0x72, 0x69, 0x6F, 0x74],
      [0xEC, 0xA0, 0x95, 0xEB, 0xB0, 0xA9, 0xED, 0x96, 0xA5], [0xEC, 0x8A, 0xB9, 0xEB, 0xA6, 0xAC, 0x2C, 0x20, 0xEC,
      0x9E, 0x90, 0xEA, 0xB8, 0xB0, 0xED, 0x99, 0x95, 0xEC, 0x8B, 0xA0, 0x2C, 0x20, 0xEA, 0xB5, 0x90, 0xEB, 0xA7,
      0x8C, 0x2C, 0x20, 0xEC, 0xA7, 0x84, 0xEC, 0xA0, 0x84, 0x2C, 0x20, 0xEC, 0xA0, 0x84, 0xEC, 0x9D, 0x98]),
    ([0xED, 0x9E, 0x98], [0x53, 0x74, 0x72, 0x65, 0x6E, 0x67, 0x74, 0x68], [0xEC, 0xA0, 0x95, 0xEB, 0xB0, 0xA9,
      0xED, 0x96, 0xA5], [0xEB, 0x85, 0xB8, 0xEB, 0xA0, 0xA5, 0x2C, 0x20, 0xEA, 0xB7, 0x9C, 0xEC, 0xB9, 0x99, 0x20,
      0xEC, 0xA4, 0x80, 0xEC, 0x88, 0x98, 0x2C, 0x20, 0xEC, 0x9D, 0xB8, 0xEC, 0x8B, 0x9D, 0x2C, 0x20, 0xEC, 0x9E,
      0x90, 0xEC, 0x8B, 0xA0, 0xEA, 0xB0, 0x90, 0x2C, 0x20, 0xEC, 0x8B, 0xA4, 0xED, 0x98, 0x84, 0x2C, 0x20, 0xEA,
      0xB4, 0x80, 0xEB, 0x8C, 0x80]),
    ([0xEC, 0x9D, 0x80, 0xEC, 0x9E, 0x90], [0x54, 0x68, 0x65, 0x20, 0x48, 0x65, 0x72, 0x6D, 0x69, 0x74], [0xEC,
      0xA0, 0x95, 0xEB, 0xB0, 0xA9, 0xED, 0x96, 0xA5], [0xEC, 0x9D, 0xB4, 0xED, 0x95, 0xB4, 0x2C, 0x20, 0xEC, 0x9E,
      0x90, 0xEC, 0x95, 0x84, 0xEC, 0x84, 0xB1, 0xEC, 0xB0, 0xB0, 0x2C, 0x20, 0xEC, 0xB0, 0xA8, 0xEB, 0xB6, 0x84,
      0x2C, 0x20, 0xEC, 0x95, 0x88, 0xEC, 0xA0, 0x95, 0xEC, 0xA0, 0x81, 0x2C, 0x20, 0xEC, 0xA7, 0x91, 0xEC, 0xA4,
      0x91, 0xEB, 0xA0, 0xA5, 0x20, 0xEC, 0x9E, 0x88, 0xEC, 0x9D, 0x8C, 0x2C, 0x20, 0xEC, 0x99, 0x84, 0xEB, 0xA7,
      0x8C]),
    ([0xEC, 0x9A, 0xB4, 0xEB, 0xAA, 0x85, 0xEC, 0x9D, 0x98, 0x20, 0xEC, 0x88, 0x98, 0xEB, 0xA0, 0x88, 0xEB, 0xB0,
      0x94, 0xED, 0x80, 0xB4], [0x57, 0x68, 0x65, 0x65, 0x6C, 0x20, 0x6F, 0x66, 0x20, 0x46, 0x6F, 0x72, 0x74, 0x75,
      0x6E, 0x65], [0xEC, 0xA0, 0x95, 0xEB, 0xB0, 0xA9, 0xED, 0x96, 0xA5], [0xED, 0x9D, 0xAC, 0xEB, 0xA7, 0x9D,
      0xEC, 0xA0, 0x81, 0xEC, 0x9D, 0xB8, 0x20, 0xEC, 0x82, 0xAC, 0xEB, 0x9E, 0x91, 0x2C, 0x20, 0xEC, 0x9A, 0xB4,
      0xEC, 0x9D, 0x98, 0x20, 0xEC, 0x83, 0x81, 0xEC, 0x8A, 0xB9, 0x2C, 0x20, 0xED, 0x95, 0xA0, 0x20, 0xEC, 0x9D,
      0xBC, 0xEC, 0x9D, 0xB4, 0x20, 0xEC, 0x83, 0x9D, 0xEA, 0xB2, 0xA8, 0xEB, 0x82, 0xA8, 0x2C, 0x20, 0xEA, 0xB8,
      0xB0, 0xED, 0x9A, 0x8C, 0x2C, 0x20, 0xEC, 0x9D, 0xB8, 0xEA, 0xB3, 0xBC, 0xEC, 0x9D, 0x91, 0xEB, 0xB3, 0xB4]),
    ([0xEC, 0xA0, 0x95, 0xEC, 0x9D, 0x98], [0x4A, 0x75, 0x73, 0x74, 0x69, 0x63, 0x65], [0xEC, 0xA0, 0x95, 0xEB,
      0xB0, 0xA9, 0xED, 0x96, 0xA5], [0xED, 0x8F, 0x89, 0xEB, 0x93, 0xB1, 0x2C, 0x20, 0xEA, 0xB7, 0xA0, 0xED, 0x98,
      0x95, 0x2C, 0x20, 0xEB, 0x8F, 0x84, 0xEB, 0x8D, 0x95, 0xEC, 0x84, 0xB1, 0x2C, 0x20, 0xEC, 0x96, 0x91, 0xEB,
      0xA6, 0xBD, 0x2C, 0x20, 0xED, 0x98, 0x91, 0xEB, 0x8F, 0x99, 0xEC, 0x8B, 0xAC, 0x2C, 0x20, 0xEC, 0xA4, 0x91,
      0xEC, 0x9A, 0xA9]),
    ([0xEB, 0xA7, 0xA4, 0xEB, 0x8B, 0xAC, 0xEB, 0xA6, 0xB0, 0x20, 0xEB, 0x82, 0xA8, 0xEC, 0x9E, 0x90], [0x54, 0x68,
      0x65, 0x20, 0x48, 0x61, 0x6E, 0x67, 0x65, 0x64, 0x20, 0x4D, 0x61, 0x6E], [0xEC, 0xA0, 0x95, 0xEB, 0xB0, 0xA9,
      0xED, 0x96, 0xA5], [0xEB, 0xB3, 0xB4, 0xEC, 0x83, 0x81, 0xEB, 0xB0, 0x9B, 0xEC, 0x9D, 0x8C, 0x2C, 0x20, 0xEC,
      0xA7, 0x84, 0xEB, 0xA1, 0x9C, 0x20, 0xED, 0x99, 0x95, 0xEC, 0xA0, 0x95, 0x2C, 0x20, 0xEC, 0x9D, 0x98, 0xEC,
      0xA7, 0x80, 0x2C, 0x20, 0xEC, 0xA2, 0x8B, 0xEC, 0x9D, 0x80, 0x20, 0xEB, 0xB0, 0x98, 0xEC, 0x9D, 0x91, 0x2C,
      0x20, 0xED, 0x8F, 0x89, 0xED, 0x99, 0x94, 0xEC, 0xA0, 0x81]),
    ([0xEC, 0x82, 0xAC, 0xEC, 0x8B, 0xA0], [0x44, 0x65, 0x61, 0x74, 0x68], [0xEC, 0xA0, 0x95, 0xEB, 0xB0, 0xA9,
      0xED, 0x96, 0xA5], [0xEB, 0xB6, 0x88, 0xED, 0x99, 0x94, 0x2C, 0x20, 0xEA, 0xB1, 0xB0, 0xEC, 0xA7, 0x93, 0x20,
      0xEC, 0x82, 0xAC, 0xEB, 0x9E, 0x91, 0x2C, 0x20, 0xED, 0x99, 0x95, 0xEC, 0xA0, 0x95, 0xED, 0x95, 0x98, 0xEC,
      0xA7, 0x80, 0x20, 0xEB, 0xA7, 0x90, 0x20, 0xEA, 0xB2, 0x83, 0x2C, 0x20, 0xED, 0x9D, 0xAC, 0xEB, 0xA7, 0x9D,
      0x20, 0xEC, 0x97, 0x86, 0xEC, 0x9D, 0x8C, 0x2C, 0x20, 0xEA, 0xB0, 0x80, 0xEC, 0xB9, 0x98, 0xEB, 0xA5, 0xBC,
      0x20, 0xEC, 0x9C, 0x84, 0xED, 0x95, 0x9C, 0x20, 0xED, 0x9D, 0xAC, 0xEC, 0x83, 0x9D]),
    ([0xEC, 0xA0, 0x88, 0xEC, 0xA0, 0x9C], [0x54, 0x65, 0x6D, 0x70, 0x65, 0x72, 0x61, 0x6E, 0x63, 0x65], [0xEC,
      0xA0, 0x95, 0xEB, 0xB0, 0xA9, 0xED, 0x96, 0xA5], [0xEC, 0x88, 0x9C, 0xEC, 0xA1, 0xB0, 0xEB, 0xA1, 0x9C, 0xEC,
      0x9B, 0x80, 0x2C, 0x20, 0xEC, 0x84, 0xB1, 0xEC, 0xA0, 0x81, 0x20, 0xEC, 0x83, 0x81, 0xEC, 0x8A, 0xB9, 0x2C,
      0x20, 0xEC, 0xA2, 0x8B, 0xEC, 0x9D, 0x80, 0x20, 0xEC, 0x82, 0xAC, 0xEB, 0x9E, 0x8C, 0x2C, 0x20, 0xEC, 0x88,
      0x9C, 0xED, 0x83, 0x84, 0x2C, 0x20, 0xEC, 0x98, 0x88, 0xEC, 0xA0, 0x95, 0xEC, 0x99, 0xB8, 0xEC, 0x9D, 0x98,
      0x20, 0xEC, 0x9D, 0xB4, 0xEB, 0x93, 0x9D]),
    ([0xEC, 0x95, 0x85, 0xEB, 0xA7, 0x88], [0x54, 0x68, 0x65, 0x20, 0x44, 0x65, 0x76, 0x69, 0x6C], [0xEC, 0xA0,
      0x95, 0xEB, 0xB0, 0xA9, 0xED, 0x96, 0xA5], [0xEB, 0xB6, 0x88, 0xEC, 0x95, 0x88, 0xED, 0x95, 0x9C, 0x20, 0xEB,
      0xA7, 0x8C, 0xEB, 0x82, 0xA8, 0x2C, 0x20, 0xEC, 0x99, 0xB8, 0xEB, 0x8F, 0x84, 0x2C, 0x20, 0xEC, 0x9E, 0xAC,
      0xEA, 0xB8, 0xB0, 0xEC, 0x9D, 0x98, 0x20, 0xEC, 0x97, 0xAC, 0xEC, 0xA7, 0x80, 0xEA, 0xB0, 0x80, 0x20, 0xEC,
      0x97, 0x86, 0xEC, 0x9D, 0x8C, 0x2C, 0x20, 0xEC, 0x9E, 0x98, 0xEB, 0xAA, 0xBB, 0xEC, 0x9D, 0x84, 0x20, 0xEB,
      0xAA, 0xA8, 0xEB, 0xA6, 0x84, 0x2C, 0x20, 0xEC, 0x9C, 0x84, 0xED, 0x97, 0x98]),
    ([0xED, 0x83, 0x91], [0x54, 0x68, 0x65, 0x20, 0x54, 0x6F, 0x77, 0x65, 0x72], [0xEC, 0xA0, 0x95, 0xEB, 0xB0,
      0xA9, 0xED, 0x96, 0xA5], [0xEC, 0xA0, 0x95, 0xEC, 0x97, 0xB4, 0xEC, 0x9D, 0x98, 0x20, 0xEC, 0x8B, 0x9C, 0xEC,
      0x9E, 0x91, 0x2C, 0x20, 0xED, 0x8C, 0x8C, 0xEA, 0xB4, 0xB4, 0x2C, 0x20, 0xEA, 0xB2, 0xBD, 0xEA, 0xB3, 0xA0,
      0x2C, 0x20, 0xEC, 0xBB, 0xA4, 0xED, 0x8A, 0xB8, 0xEB, 0x9D, 0xBC, 0xEC, 0x9D, 0xB8, 0x20, 0xED, 0x8C, 0x8C,
      0xEA, 0xB4, 0xB4, 0x2C, 0x20, 0xEB, 0xB0, 0x80, 0xEA, 0xB3, 0xA0, 0x20, 0xEB, 0x82, 0x98, 0xEA, 0xB0, 0x80,
      0xEB, 0x9D, 0xBC, 0x2C, 0x20, 0xEB, 0xB6, 0x84, 0xEC, 0x9F, 0x81, 0x20, 0xEC, 0xA2, 0x85, 0xEA, 0xB2, 0xB0]),
    ([0xEB, 0xB3, 0x84], [0x54, 0x68, 0x65, 0x20, 0x53, 0x74, 0x61, 0x72], [0xEC, 0xA0, 0x95, 0xEB, 0xB0, 0xA9,
      0xED, 0x96, 0xA5], [0xEC, 0x95, 0x8C, 0xEC, 0x88, 0x98, 0xEC, 0x97, 0x86, 0xEC, 0x9D, 0x8C, 0x2C, 0x20, 0xEC,
      0xA7, 0x84, 0xEC, 0xA0, 0x84, 0x2C, 0x20, 0xED, 0x9D, 0xAC, 0xEB, 0xA7, 0x9D, 0xEC, 0xA0, 0x81, 0x2C, 0x20,
      0xEC, 0xA2, 0x8B, 0xEC, 0x9D, 0x80, 0x20, 0xEC, 0x8B, 0x9C, 0xEC, 0x9E, 0x91, 0x2C, 0x20, 0xED, 0x98, 0x84,
      0xEC, 0x8B, 0xA4, 0xEC, 0xA0, 0x81, 0xEC, 0x9E, 0x84, 0x2C, 0x20, 0xEC, 0xB0, 0xBD, 0xEC, 0xA1, 0xB0, 0x2C,
      0x20, 0xEC, 0x8B, 0x9C, 0xEC, 0xB4, 0x88]),
    ([0xEB, 0x8B, 0xAC], [0x54, 0x68, 0x65, 0x20, 0x4D, 0x6F, 0x6F, 0x6E], [0xEC, 0xA0, 0x95, 0xEB, 0xB0, 0xA9,
      0xED, 0x96, 0xA5], [0xEB, 0xB0, 0xA9, 0xED, 0x99, 0xA9, 0x2C, 0x20, 0xEB, 0xB6, 0x88, 0xEC, 0x95, 0x88, 0x2C,
      0x20, 0xEC, 0x84, 0xB1, 0xEC, 0xA0, 0x81, 0x20, 0xED, 0x95, 0x98, 0xED, 0x96, 0xA5, 0x2C, 0x20, 0xEB, 0x82,
      0x98, 0xEC, 0x81, 0x98, 0xEA, 0xB2, 0x8C, 0x20, 0xEC, 0xA7, 0x84, 0xED, 0x96, 0x89, 0x2C, 0x20, 0xEC, 0x98,
      0xA4, 0xED, 0x95, 0xB4, 0x2C, 0x20, 0xEC, 0x83, 0x81, 0xEC, 0x8B, 0xAC]),
    ([0xED, 0x83, 0x9C, 0xEC, 0x96, 0x91], [0x54, 0x68, 0x65, 0x20, 0x53, 0x75, 0x6E], [0xEC, 0xA0, 0x95, 0xEB,
      0xB0, 0xA9, 0xED, 0x96, 0xA5], [0xEB, 0x82, 0x99, 0xEC, 0xB2, 0x9C, 0xEC, 0xA0, 0x81, 0x2C, 0x20, 0xED, 0x96,
      0x89, 0xEB, 0xB3, 0xB5, 0x2C, 0x20, 0xEC, 0x9E, 0x90, 0xEA, 0xB8, 0xB0, 0xED, 0x99, 0x95, 0xEC, 0x8B, 0xA0,
      0x2C, 0x20, 0xEC, 0x9A, 0xA9, 0xEA, 0xB8, 0xB0, 0x2C, 0x20, 0xEC, 0xA0, 0x81, 0xEA, 0xB7, 0xB9, 0xEC, 0xA0,
      0x81, 0x2C, 0x20, 0xEC, 0xA7, 0x84, 0xEC, 0x8B, 0xA4, 0xEB, 0x90, 0x9C, 0x20, 0xEC, 0xB9, 0x9C, 0xEA, 0xB5,
      0xAC]),
    ([0xEC, 0x8B, 0xAC, 0xED, 0x8C, 0x90], [0x4A, 0x75, 0x64, 0x67, 0x65, 0x6D, 0x65, 0x6E, 0x74], [0xEC, 0xA0,
      0x95, 0xEB, 0xB0, 0xA9, 0xED, 0x96, 0xA5], [0xEC, 0x9D, 0xB8, 0xEA, 0xB3, 0xBC, 0xEC, 0x9D, 0x91, 0xEB, 0xB3,
      0xB4, 0x2C, 0x20, 0xEC, 0x9D, 0x98, 0xEB, 0xAC, 0xB4, 0xEB, 0x82, 0x98, 0x20, 0xEB, 0xB9, 0x9A, 0x20, 0xEC,
      0xB2, 0xAD, 0xEC, 0x82, 0xB0, 0x2C, 0x20, 0xEC, 0x84, 0xB1, 0xEC, 0xA0, 0x81, 0x20, 0xEC, 0x83, 0x81, 0xEC,
      0x8A, 0xB9, 0x2C, 0x20, 0xEC, 0x9A, 0xB4, 0xEC, 0x9D, 0xB4, 0x20, 0xEC, 0x9E, 0x88, 0xEC, 0x9D, 0x8C, 0x2C,
      0x20, 0xEB, 0xB6, 0x80, 0xED, 0x99, 0x9C]),
    ([0xEC, 0x84, 0xB8, 0xEA, 0xB3, 0x84], [0x54, 0x68, 0x65, 0x20, 0x57, 0x6F, 0x72, 0x6C, 0x64], [0xEC, 0xA0,
      0x95, 0xEB, 0xB0, 0xA9, 0xED, 0x96, 0xA5], [0xEB, 0xA7, 0x8C, 0xEC, 0xA1, 0xB1, 0x2C, 0x20, 0xEC, 0x84, 0xB1,
      0xEC, 0x88, 0x99, 0x2C, 0x20, 0xEC, 0x84, 0xB1, 0xEA, 0xB3, 0xB5, 0x2C, 0x20, 0xEC, 0xA1, 0xB0, 0xED, 0x99,
      0x94, 0x2C, 0x20, 0xEC, 0xA7, 0x88, 0xEC, 0x84, 0x9C, 0x2C, 0x20, 0xEB, 0xB3, 0xB4, 0xEC, 0x83, 0x81, 0x20,
      0xEB, 0xB0, 0x9B, 0xEC, 0x9D, 0x8C, 0x2C, 0x20, 0xED, 0x99, 0x95, 0xEC, 0x8B, 0xA4, 0xED, 0x95, 0x9C, 0x20,
      0xED, 0x83, 0x9C, 0xEB, 0x8F, 0x84]),
    ([0xEA, 0xB4, 0x91, 0xEB, 0x8C, 0x80], [0x54, 0x68, 0x65, 0x20, 0x46, 0x6F, 0x6F, 0x6C], [0xEC, 0x97, 0xAD,
      0xEB, 0xB0, 0xA9, 0xED, 0x96, 0xA5], [0xEC, 0xA3, 0xBC, 0xEC, 0x9D, 0x98, 0xEB, 0xA0, 0xA5, 0xEC, 0x82, 0xB0,
      0xEB, 0xA7, 0x8C, 0x2C, 0x20, 0xEB, 0xB6, 0x88, 0xEA, 0xB7, 0x9C, 0xEC, 0xB9, 0x99, 0x2C, 0x20, 0xEC, 0xB9,
      0xA8, 0xEC, 0xB0, 0xA9, 0xED, 0x95, 0x98, 0xEC, 0xA7, 0x80, 0x20, 0xEC, 0x95, 0x8A, 0xEC, 0x9D, 0x8C, 0x2C,
      0x20, 0xEC, 0x8B, 0xAB, 0xEC, 0xA6, 0x9D, 0xEB, 0x82, 0xA8, 0x2C, 0x20, 0xEC, 0x82, 0xB0, 0xEC, 0x82, 0xB0,
      0xED, 0x9E, 0x88, 0x20, 0xEB, 0xB6, 0x80, 0xEC, 0x84, 0x9C, 0xEC, 0xA7, 0x90]),
    ([0xEB, 0xA7, 0x88, 0xEB, 0xB2, 0x95, 0xEC, 0x82, 0xAC], [0x54, 0x68, 0x65, 0x20, 0x4D, 0x61, 0x67, 0x69, 0x63,
      0x69, 0x61, 0x6E], [0xEC, 0x97, 0xAD, 0xEB, 0xB0, 0xA9, 0xED, 0x96, 0xA5], [0xEC, 0xA7, 0x84, 0xEC, 0xA0,
      0x84, 0x20, 0xEC, 0x97, 0x86, 0xEC, 0x9D, 0x8C, 0x2C, 0x20, 0xEC, 0x86, 0x8C, 0xEA, 0xB7, 0xB9, 0xEC, 0xA0,
      0x81, 0x2C, 0x20, 0xEA, 0xB1, 0xB0, 0xEC, 0xA7, 0x93, 0x2C, 0x20, 0xEC, 0x98, 0x88, 0xEC, 0x83, 0x81, 0x20,
      0xEB, 0xB9, 0x97, 0xEB, 0x82, 0x98, 0xEA, 0xB0, 0x90, 0x2C, 0x20, 0xEC, 0x83, 0x88, 0xEB, 0xA1, 0x9C, 0xEC,
      0x9B, 0x80, 0xEC, 0x97, 0x90, 0x20, 0xEC, 0xA3, 0xBC, 0xEC, 0x9D, 0x98, 0x2C, 0x20, 0xEC, 0x98, 0xA4, 0xED,
      0x95, 0xB4]),
    ([0xEC, 0x97, 0xAC, 0xEC, 0x82, 0xAC, 0xEC, 0xA0, 0x9C], [0x54, 0x68, 0x65, 0x20, 0x48, 0x69, 0x67, 0x68, 0x20,
      0x50, 0x72, 0x69, 0x65, 0x73, 0x74, 0x65, 0x73, 0x73], [0xEC, 0x97, 0xAD, 0xEB, 0xB0, 0xA9, 0xED, 0x96, 0xA5],
      [0xEB, 0xB3, 0xB5, 0xEC, 0x9E, 0xA1, 0xED, 0x95, 0x9C, 0x20, 0xEA, 0xB0, 0x90, 0xEC, 0xA0, 0x95, 0x2C, 0x20,
      0xEB, 0x83, 0x89, 0xEB, 0x8B, 0xB4, 0x2C, 0x20, 0xED, 0x96, 0xA5, 0xED, 0x95, 0x99, 0xEC, 0x8B, 0xAC, 0x20,
      0xEB, 0xB6, 0x80, 0xEC, 0xA1, 0xB1, 0x2C, 0x20, 0xEA, 0xB0, 0x90, 0xEC, 0xA0, 0x95, 0x20, 0xEB, 0x8C, 0x80,
      0xEB, 0xA6, 0xBD, 0x2C, 0x20, 0xEC, 0x9E, 0x90, 0xEC, 0xA1, 0xB4, 0xEC, 0x8B, 0xAC, 0x20, 0xEA, 0xB0, 0x95,
      0xED, 0x95, 0xA8, 0x2C, 0x20, 0xEC, 0x9D, 0xB4, 0xED, 0x95, 0xB4, 0xEB, 0xB6, 0x80, 0xEC, 0xA1, 0xB1]),
    ([0xEC, 0x97, 0xAC, 0xEC, 0xA0, 0x9C], [0x54, 0x68, 0x65, 0x20, 0x45, 0x6D, 0x70, 0x72, 0x65, 0x73, 0x73],
      [0xEC, 0x97, 0xAD, 0xEB, 0xB0, 0xA9, 0xED, 0x96, 0xA5], [0xEC, 0xA7, 0x88, 0xED, 0x88, 0xAC, 0x2C, 0x20, 0xEC,
      0x95, 0xA0, 0xEC, 0x9D, 0xB8, 0xEA, 0xB4, 0x80, 0xEA, 0xB3, 0x84, 0x2C, 0x20, 0xEC, 0x84, 0xB1, 0xEC, 0xA0,
      0x81, 0x20, 0xEC, 0xA0, 0x80, 0xED, 0x95, 0x98, 0x2C, 0x20, 0xEB, 0xB0, 0xA9, 0xEC, 0x8B, 0xAC, 0xEC, 0x9C,
      0xBC, 0xEB, 0xA1, 0x9C, 0x20, 0xEC, 0x8B, 0xA4, 0xED, 0x8C, 0xA8, 0x2C, 0x20, 0xEB, 0xB6, 0x88, 0xEA, 0xB2,
      0xB0, 0x2C, 0x20, 0xED, 0x97, 0x88, 0xEC, 0x84, 0xB8, 0x2C, 0x20, 0xEA, 0xB3, 0xBC, 0xED, 0x95, 0x98, 0xEC,
      0x97, 0xAC, 0x20, 0xEC, 0x86, 0x90, 0xED, 0x95, 0xB4]),
    ([0xED, 0x99, 0xA9, 0xEC, 0xA0, 0x9C], [0x54, 0x68, 0x65, 0x20, 0x45, 0x6D, 0x70, 0x65, 0x72, 0x6F, 0x72],
      [0xEC, 0x97, 0xAD, 0xEB, 0xB0, 0xA9, 0xED, 0x96, 0xA5], [0xEC, 0xA7, 0x80, 0xEB, 0x82, 0x98, 0xEC, 0xB9, 0x9C,
      0x20, 0xEA, 0xB8, 0xB0, 0xEB, 0x8C, 0x80, 0x2C, 0x20, 0xEB, 0x8B, 0xA4, 0xED, 0x88, 0xBC, 0x2C, 0x20, 0xEA,
      0xB8, 0xB0, 0xEB, 0x8C, 0x80, 0x20, 0xEC, 0x96, 0xB4, 0xEA, 0xB8, 0x8B, 0xEB, 0x82, 0xA8, 0x2C, 0x20, 0xEA,
      0xB2, 0xBD, 0xEC, 0x9F, 0x81, 0xEC, 0x9E, 0x90, 0x20, 0xEC, 0xB6, 0x9C, 0xED, 0x98, 0x84, 0x2C, 0x20, 0xEC,
      0x9C, 0xA0, 0xED, 0x98, 0xB9, 0xEC, 0x97, 0x90, 0x20, 0xEB, 0xB9, 0xA0, 0xEC, 0xA7, 0x90, 0x2C, 0x20, 0xEA,
      0xB6, 0x8C, 0xEC, 0x9C, 0x84, 0x20, 0xEC, 0xA0, 0x80, 0xED, 0x95, 0x98]),
    ([0xEA, 0xB5, 0x90, 0xED, 0x99, 0xA9], [0x54, 0x68, 0x65, 0x20, 0x48, 0x69, 0x65, 0x72, 0x6F, 0x70, 0x68, 0x61,
      0x6E, 0x74], [0xEC, 0x97, 0xAD, 0xEB, 0xB0, 0xA9, 0xED, 0x96, 0xA5], [0xEC, 0x9D, 0xB8, 0xEC, 0x97, 0xB0,
      0xEC, 0x9D, 0xB4, 0x20, 0xEC, 0x97, 0x86, 0xEC, 0x9D, 0x8C, 0x2C, 0x20, 0xEB, 0xA7, 0x90, 0xEC, 0x9D, 0xB4,
      0x20, 0xEB, 0xA7, 0x8E, 0xEC, 0x9D, 0x8C, 0x2C, 0x20, 0xEC, 0xA3, 0xBC, 0xEC, 0x9C, 0x84, 0xEC, 0x9D, 0x98,
      0x20, 0xEC, 0xA7, 0x88, 0xED, 0x88, 0xAC, 0x2C, 0x20, 0xEA, 0xB3, 0xA0, 0xEB, 0xA6, 0xBD, 0x2C, 0x20, 0xEA,
      0xB5, 0x90, 0xEC, 0xA0, 0x9C, 0xEB, 0x8A, 0x94, 0x20, 0xEC, 0xA0, 0x81, 0xEB, 0x8B, 0xB9, 0xED, 0x9E, 0x88,
      0x2C, 0x20, 0xEC, 0xB4, 0x88, 0xEB, 0xB3, 0xB4, 0xEC, 0xA0, 0x81, 0x20, 0xED, 0x8C, 0x90, 0xEB, 0x8B, 0xA8,
      0x20, 0xEA, 0xB8, 0x88, 0xEB, 0xAC, 0xBC]),
    ([0xEC, 0x97, 0xB0, 0xEC, 0x9D, 0xB8], [0x54, 0x68, 0x65, 0x20, 0x4C, 0x6F, 0x76, 0x65, 0x72, 0x73], [0xEC,
      0x97, 0xAD, 0xEB, 0xB0, 0xA9, 0xED, 0x96, 0xA5], [0xEB, 0xB3, 0x80, 0xEC, 0x8B, 0xAC, 0x2C, 0x20, 0xEC, 0x88,
      0x9C, 0xEA, 0xB0, 0x84, 0xEC, 0xA0, 0x81, 0x20, 0xEC, 0x82, 0xAC, 0xEB, 0x9E, 0x91, 0x2C, 0x20, 0xEB, 0xB9,
      0x84, 0xED, 0x98, 0x84, 0xEC, 0x8B, 0xA4, 0xEC, 0xA0, 0x81, 0x20, 0xEA, 0xB3, 0x84, 0xED, 0x9A, 0x8D, 0xEC,
      0x9D, 0xB4, 0xEB, 0x82, 0x98, 0x20, 0xEC, 0x84, 0xA0, 0xED, 0x83, 0x9D, 0x2C, 0x20, 0xEC, 0xA7, 0xA7, 0xEC,
      0x9D, 0x8C]),
    ([0xEC, 0xA0, 0x84, 0xEC, 0xB0, 0xA8], [0x54, 0x68, 0x65, 0x20, 0x43, 0x68, 0x61, 0x72, 0x69, 0x6F, 0x74],
      [0xEC, 0x97, 0xAD, 0xEB, 0xB0, 0xA9, 0xED, 0x96, 0xA5], [0xEC, 0x8A, 0xAC, 0xED, 0x94, 0x88, 0x20, 0xEA, 0xB2,
      0xB0, 0xEA, 0xB3, 0xBC, 0x2C, 0x20, 0xEB, 0xAC, 0xB4, 0xEB, 0xAA, 0xA8, 0xED, 0x95, 0x9C, 0x20, 0xEC, 0x82,
      0xAC, 0xEB, 0x9E, 0x91, 0xEC, 0x9D, 0x98, 0x20, 0xEC, 0x8B, 0xA4, 0xED, 0x8C, 0xA8, 0x2C, 0x20, 0xEC, 0x82,
      0xBC, 0xEA, 0xB0, 0x81, 0xEA, 0xB4, 0x80, 0xEA, 0xB3, 0x84, 0x2C, 0x20, 0xEA, 0xB5, 0x90, 0xEB, 0xA7, 0x8C,
      0xEC, 0x9D, 0x80, 0x20, 0xEA, 0xB8, 0x88, 0xEB, 0xAC, 0xBC, 0x2C, 0x20, 0xEC, 0xA0, 0x84, 0xEC, 0x9D, 0x98,
      0xEC, 0x83, 0x81, 0xEC, 0x8B, 0xA4]),
    ([0xED, 0x9E, 0x98], [0x53, 0x74, 0x72, 0x65, 0x6E, 0x67, 0x74, 0x68], [0xEC, 0x97, 0xAD, 0xEB, 0xB0, 0xA9,
      0xED, 0x96, 0xA5], [0xEC, 0x9E, 0x90, 0xEC, 0xA1, 0xB4, 0xEC, 0x8B, 0xAC, 0xEC, 0x9C, 0xBC, 0xEB, 0xA1, 0x9C,
      0x20, 0xEB, 0xB9, 0x84, 0xEC, 0xB0, 0xB8, 0xED, 0x95, 0xB4, 0xEC, 0xA7, 0x90, 0x2C, 0x20, 0xEC, 0x9E, 0x90,
      0xEC, 0x8B, 0xA0, 0x20, 0xEC, 0x83, 0x81, 0xEC, 0x8B, 0xA4, 0x2C, 0x20, 0xEC, 0x8B, 0xA4, 0xED, 0x98, 0x84,
      0x20, 0xEB, 0xB6, 0x88, 0xEA, 0xB0, 0x80, 0xEB, 0x8A, 0xA5, 0x2C, 0x20, 0xEC, 0x9E, 0x90, 0xEA, 0xB8, 0xB0,
      0xEC, 0xA4, 0x91, 0xEC, 0x8B, 0xAC, 0xEC, 0xA0, 0x81, 0x2C, 0x20, 0xEC, 0x82, 0xAC, 0xEC, 0xB9, 0x98, 0x2C,
      0x20, 0xEC, 0x9A, 0x95, 0xEB, 0xA7, 0x9D]),
    ([0xEC, 0x9D, 0x80, 0xEC, 0x9E, 0x90], [0x54, 0x68, 0x65, 0x20, 0x48, 0x65, 0x72, 0x6D, 0x69, 0x74], [0xEC,
      0x97, 0xAD, 0xEB, 0xB0, 0xA9, 0xED, 0x96, 0xA5], [0xEC, 0x9D, 0x98, 0xED, 0x98, 0xB9, 0x2C, 0x20, 0xEC, 0x83,
      0x81, 0xEC, 0x82, 0xAC, 0xEB, 0xB3, 0x91, 0x2C, 0x20, 0xEC, 0x8B, 0xA4, 0xEC, 0x88, 0x98, 0x20, 0xEC, 0x97,
      0xB0, 0xEB, 0xB0, 0x9C, 0x2C, 0x20, 0xEC, 0x84, 0xB1, 0xEC, 0xA0, 0x81, 0x20, 0xEC, 0xA0, 0x80, 0xED, 0x95,
      0x98, 0x2C, 0x20, 0xEC, 0x9E, 0x91, 0xEC, 0x9D, 0x80, 0xEA, 0xB2, 0x83, 0xEC, 0x97, 0x90, 0x20, 0xED, 0x81,
      0xB0, 0xEA, 0xB2, 0x83, 0xEC, 0x9D, 0x84, 0x20, 0xEB, 0x86, 0x93, 0xEC, 0xB9, 0xA8]),
    ([0xEC, 0x9A, 0xB4, 0xEB, 0xAA, 0x85, 0xEC, 0x9D, 0x98, 0x20, 0xEC, 0x88, 0x98, 0xEB, 0xA0, 0x88, 0xEB, 0xB0,
      0x94, 0xED, 0x80, 0xB4], [0x57, 0x68, 0x65, 0x65, 0x6C, 0x20, 0x6F, 0x66, 0x20, 0x46, 0x6F, 0x72, 0x74, 0x75,
      0x6E, 0x65], [0xEC, 0x97, 0xAD, 0xEB, 0xB0, 0xA9, 0xED, 0x96, 0xA5], [0xEC, 0xA7, 0x80, 0xEB, 0x82, 0x98,
      0xEC, 0xB3, 0x90, 0xEB, 0xB2, 0x84, 0xEB, 0xA6, 0xB0, 0x20, 0xEC, 0x82, 0xAC, 0xEB, 0x9E, 0x91, 0x2C, 0x20,
      0xEC, 0x8B, 0xA4, 0xEC, 0x97, 0xB0, 0x2C, 0x20, 0xEB, 0xB3, 0x80, 0xEC, 0x8B, 0xAC, 0x2C, 0x20, 0xEC, 0x88,
      0x9C, 0xEA, 0xB0, 0x84, 0xEC, 0xA0, 0x81, 0xEC, 0x9D, 0xB8, 0x20, 0xEC, 0x82, 0xAC, 0xEB, 0x9E, 0x91, 0x2C,
      0x20, 0xEC, 0x84, 0xB1, 0xEC, 0xA0, 0x81, 0xEC, 0x9D, 0x98, 0x20, 0xED, 0x95, 0x98, 0xEB, 0x9D, 0xBD, 0x2C,
      0x20, 0xEC, 0x9A, 0xB4, 0xEC, 0x9D, 0x98, 0x20, 0xED, 0x95, 0x98, 0xEB, 0x9D, 0xBD]),
    ([0xEC, 0xA0, 0x95, 0xEC, 0x9D, 0x98], [0x4A, 0x75, 0x73, 0x74, 0x69, 0x63, 0x65], [0xEC, 0x97, 0xAD, 0xEB,
      0xB0, 0xA9, 0xED, 0x96, 0xA5], [0xEB, 0xB6, 0x88, 0xEB, 0xA5, 0x9C, 0x20, 0xEB, 0xB0, 0x9C, 0xEA, 0xB0, 0x81,
      0x2C, 0x20, 0xEB, 0x8F, 0x84, 0xEB, 0x8D, 0x95, 0xEC, 0x9D, 0x84, 0x20, 0xEB, 0xAC, 0xB4, 0xEC, 0x8B, 0x9C,
      0xED, 0x95, 0x9C, 0x20, 0xEA, 0xB4, 0x80, 0xEA, 0xB3, 0x84, 0x2C, 0x20, 0xEC, 0x96, 0x91, 0xEB, 0x8B, 0xA4,
      0xEB, 0xA6, 0xAC, 0xEB, 0x8A, 0x94, 0x20, 0xEB, 0xAC, 0xB4, 0xEB, 0xA6, 0xAC, 0x2C, 0x20, 0xEB, 0xB6, 0x80,
      0xEC, 0xA0, 0x95, 0xED, 0x96, 0x89, 0xEC, 0x9C, 0x84, 0x2C, 0x20, 0xEB, 0xB6, 0x88, 0xEA, 0xB3, 0xB5, 0xEC,
      0xA0, 0x95, 0x2C, 0x20, 0xED, 0x8E, 0xB8, 0xEC, 0x8B, 0x9D]),
    ([0xEB, 0xA7, 0xA4, 0xEB, 0x8B, 0xAC, 0xEB, 0xA6, 0xB0, 0x20, 0xEB, 0x82, 0xA8, 0xEC, 0x9E, 0x90], [0x54, 0x68,
      0x65, 0x20, 0x48, 0x61, 0x6E, 0x67, 0x65, 0x64, 0x20, 0x4D, 0x61, 0x6E], [0xEC, 0x97, 0xAD, 0xEB, 0xB0, 0xA9,
      0xED, 0x96, 0xA5], [0xED, 0x9B, 0x84, 0xED, 0x9A, 0x8C, 0x2C, 0x20, 0xEB, 0xB3, 0xB4, 0xEC, 0x83, 0x81, 0xEB,
      0xB0, 0x9B, 0xEC, 0xA7, 0x80, 0x20, 0xEB, 0xAA, 0xBB, 0xED, 0x95, 0xA0, 0x20, 0xEC, 0x82, 0xAC, 0xEB, 0x9E,
      0x91, 0x2C, 0x20, 0xEC, 0x83, 0x88, 0x20, 0xEC, 0x82, 0xAC, 0xEB, 0x9E, 0x91, 0xEC, 0x9D, 0x98, 0x20, 0xEC,
      0x8B, 0x9C, 0xEC, 0x9E, 0x91, 0x2C, 0x20, 0xEC, 0xA7, 0x84, 0xEB, 0xA1, 0x9C, 0x20, 0xEB, 0xB3, 0x80, 0xEA,
      0xB2, 0xBD, 0x2C, 0x20, 0xEC, 0x9D, 0x98, 0xEC, 0xA7, 0x80, 0xEB, 0xB0, 0x95, 0xEC, 0x95, 0xBD]),
    ([0xEC, 0x82, 0xAC, 0xEC, 0x8B, 0xA0], [0x44, 0x65, 0x61, 0x74, 0x68], [0xEC, 0x97, 0xAD, 0xEB, 0xB0, 0xA9,
      0xED, 0x96, 0xA5], [0xED, 0x99, 0x94, 0xED, 0x95, 0xB4, 0x2C, 0x20, 0xEC, 0xA7, 0x84, 0xEC, 0x8B, 0xA4, 0xEB,
      0x90, 0x9C, 0x20, 0xEC, 0x82, 0xAC, 0xEB, 0x9E, 0x91, 0x2C, 0x20, 0xED, 0x9D, 0xAC, 0xEB, 0xA7, 0x9D, 0xEC,
      0x9D, 0xB4, 0x20, 0xEB, 0xB3, 0xB4, 0xEC, 0x9E, 0x84, 0x2C, 0x20, 0xEB, 0xAA, 0xA8, 0xEB, 0xA0, 0xA5, 0xEC,
      0x9D, 0xB8, 0xEC, 0xA0, 0x95, 0x2C, 0x20, 0xEC, 0xA0, 0x80, 0xEC, 0xB6, 0x95, 0xEC, 0x9D, 0xB4, 0x20, 0xEC,
      0xA6, 0x9D, 0xEA, 0xB0, 0x80, 0x2C, 0x20, 0xEC, 0x83, 0x88, 0x20, 0xEC, 0xB9, 0x9C, 0xEA, 0xB5, 0xAC, 0xEC,
      0x9D, 0x98, 0x20, 0xEC, 0xB6, 0x9C, 0xEC, 0x97, 0xB0]),
    ([0xEC, 0xA0, 0x88, 0xEC, 0xA0, 0x9C], [0x54, 0x65, 0x6D, 0x70, 0x65, 0x72, 0x61, 0x6E, 0x63, 0x65], [0xEC,
      0x97, 0xAD, 0xEB, 0xB0, 0xA9, 0xED, 0x96, 0xA5], [0xED, 0x8A, 0xB8, 0xEB, 0x9F, 0xAC, 0xEB, 0xB8, 0x94, 0xEC,
      0x9D, 0x98, 0x20, 0xEC, 0x97, 0xB0, 0xEC, 0x86, 0x8D, 0x2C, 0x20, 0xEC, 0x97, 0x87, 0xEA, 0xB0, 0x88, 0xEB,
      0xA6, 0xBC, 0x2C, 0x20, 0xEC, 0x84, 0xB1, 0xEC, 0xA0, 0x81, 0x20, 0xEC, 0xA0, 0x80, 0xED, 0x95, 0x98, 0x2C,
      0x20, 0xEC, 0x98, 0x88, 0xEC, 0xA0, 0x95, 0xEB, 0x90, 0x9C, 0x20, 0xEC, 0x88, 0x98, 0xEC, 0x9E, 0x85, 0xEC,
      0x9D, 0x98, 0x20, 0xEC, 0xA0, 0x80, 0xED, 0x95, 0x98, 0x2C, 0x20, 0xEA, 0xB9, 0x9C, 0xEB, 0xB9, 0xA1, 0xED,
      0x95, 0x98, 0xEA, 0xB3, 0xA0, 0x20, 0xEC, 0x8B, 0xA4, 0xEC, 0x88, 0x98]),
    ([0xEC, 0x95, 0x85, 0xEB, 0xA7, 0x88], [0x54, 0x68, 0x65, 0x20, 0x44, 0x65, 0x76, 0x69, 0x6C], [0xEC, 0x97,
      0xAD, 0xEB, 0xB0, 0xA9, 0xED, 0x96, 0xA5], [0xEC, 0x99, 0xB8, 0xEB, 0x8F, 0x84, 0x20, 0xED, 0x95, 0xB4, 0xEC,
      0x86, 0x8C, 0x2C, 0x20, 0xEC, 0x82, 0xAC, 0xEB, 0x9E, 0x91, 0xEC, 0x9D, 0x98, 0x20, 0xEC, 0xA2, 0x85, 0xEC,
      0xA7, 0x80, 0xEB, 0xB6, 0x80, 0x2C, 0x20, 0xED, 0x96, 0xA5, 0xED, 0x95, 0x99, 0xEC, 0x8B, 0xAC, 0xEC, 0x9D,
      0xB4, 0x20, 0xEC, 0x83, 0x9D, 0xEA, 0xB9, 0x80, 0x2C, 0x20, 0xEC, 0x9C, 0xA0, 0xED, 0x98, 0xB9, 0xEC, 0x97,
      0x90, 0xEC, 0x84, 0x9C, 0x20, 0xED, 0x95, 0xB4, 0xEB, 0xB0, 0xA9, 0x2C, 0x20, 0xEB, 0xB0, 0x98, 0xEC, 0x84,
      0xB1, 0xEC, 0x9D, 0x98, 0x20, 0xEA, 0xB3, 0x84, 0xEA, 0xB8, 0xB0]),
    ([0xED, 0x83, 0x91], [0x54, 0x68, 0x65, 0x20, 0x54, 0x6F, 0x77, 0x65, 0x72], [0xEC, 0x97, 0xAD, 0xEB, 0xB0,
      0xA9, 0xED, 0x96, 0xA5], [0xEC, 0xA0, 0x95, 0xEC, 0x97, 0xB4, 0xEC, 0x9D, 0x98, 0x20, 0xEC, 0x8B, 0x9D, 0xEC,
      0x9D, 0x8C, 0x2C, 0x20, 0xEC, 0x9E, 0xAC, 0xEC, 0x88, 0x98, 0xEB, 0xA6, 0xAC, 0x2C, 0x20, 0xEC, 0xBB, 0xA4,
      0xED, 0x8A, 0xB8, 0xEB, 0x9D, 0xBC, 0xEC, 0x9D, 0xB8, 0x20, 0xEC, 0x9C, 0xA0, 0xEC, 0xA7, 0x80, 0x2C, 0x20,
      0xEB, 0xB6, 0x80, 0xEC, 0xA3, 0xBC, 0xEC, 0x9D, 0x98, 0xEB, 0xA1, 0x9C, 0x20, 0xEC, 0x9D, 0xB8, 0xED, 0x95,
      0x9C, 0x20, 0xEC, 0x8B, 0xA4, 0xED, 0x8C, 0xA8, 0x2C, 0x20, 0xED, 0x9C, 0xB4, 0xEC, 0x8B, 0x9D, 0x2C, 0x20,
      0xEC, 0x8B, 0xA4, 0xEC, 0x96, 0xB8, 0x20, 0xEC, 0xA3, 0xBC, 0xEC, 0x9D, 0x98]),
    ([0xEB, 0xB3, 0x84], [0x54, 0x68, 0x65, 0x20, 0x53, 0x74, 0x61, 0x72], [0xEC, 0x97, 0xAD, 0xEB, 0xB0, 0xA9,
      0xED, 0x96, 0xA5], [0xEC, 0xA7, 0x84, 0xEC, 0xA0, 0x84, 0x20, 0xEC, 0x97, 0x86, 0xEC, 0x9D, 0x8C, 0x2C, 0x20,
      0xEC, 0x9D, 0xB4, 0xEC, 0x83, 0x81, 0xEC, 0x9D, 0xB4, 0x20, 0xEB, 0x86, 0x92, 0xEC, 0x9D, 0x8C, 0x2C, 0x20,
      0xEB, 0xB6, 0x88, 0xEC, 0x95, 0x88, 0xEC, 0xA0, 0x95, 0xED, 0x95, 0x9C, 0x20, 0xEC, 0xB6, 0x9C, 0xEB, 0xB0,
      0x9C, 0x2C, 0x20, 0xED, 0x94, 0xBC, 0xEB, 0xA1, 0x9C, 0x2C, 0x20, 0xEC, 0x83, 0x81, 0xEB, 0x8C, 0x80, 0xEA,
      0xB0, 0x80, 0x20, 0xEB, 0xB3, 0xB8, 0xEC, 0x84, 0xB1, 0xEC, 0x9D, 0x84, 0x20, 0xEB, 0x93, 0x9C, 0xEB, 0x9F,
      0xAC, 0xEB, 0x83, 0x84]),
    ([0xEB, 0x8B, 0xAC], [0x54, 0x68, 0x65, 0x20, 0x4D, 0x6F, 0x6F, 0x6E], [0xEC, 0x97, 0xAD, 0xEB, 0xB0, 0xA9,
      0xED, 0x96, 0xA5], [0xEB, 0xB0, 0xA9, 0xED, 0x99, 0xA9, 0x20, 0xED, 0x95, 0xB4, 0xEC, 0x86, 0x8C, 0x2C, 0x20,
      0xEC, 0x9C, 0x84, 0xEC, 0x9E, 0xA5, 0xEB, 0x90, 0x9C, 0x20, 0xEC, 0x82, 0xAC, 0xEB, 0x9E, 0x91, 0xEC, 0x9D,
      0x84, 0x20, 0xEB, 0x8A, 0x90, 0xEB, 0x82, 0x8C, 0x2C, 0x20, 0xEC, 0x84, 0xB1, 0xEC, 0xA0, 0x81, 0x20, 0xED,
      0x96, 0xA5, 0xEC, 0x83, 0x81, 0x2C, 0x20, 0xEC, 0x98, 0xA4, 0xED, 0x95, 0xB4, 0x20, 0xED, 0x95, 0xB4, 0xEC,
      0x86, 0x8C, 0x2C, 0x20, 0xEC, 0xA2, 0x8B, 0xEA, 0xB2, 0x8C, 0x20, 0xEC, 0xA7, 0x84, 0xED, 0x96, 0x89]),
    ([0xED, 0x83, 0x9C, 0xEC, 0x96, 0x91], [0x54, 0x68, 0x65, 0x20, 0x53, 0x75, 0x6E], [0xEC, 0x97, 0xAD, 0xEB,
      0xB0, 0xA9, 0xED, 0x96, 0xA5], [0xEA, 0xB9, 0xA8, 0xEC, 0xA7, 0x84, 0x20, 0xEC, 0x9A, 0xB0, 0xEC, 0xA0, 0x95,
      0x2C, 0x20, 0xED, 0x8C, 0x8C, 0xEA, 0xB5, 0xAD, 0x2C, 0x20, 0xEA, 0xB5, 0x90, 0xEC, 0xA0, 0x9C, 0x20, 0xEB,
      0xB0, 0x98, 0xEB, 0x8C, 0x80, 0x2C, 0x20, 0xEC, 0x84, 0xB1, 0xEC, 0xA0, 0x81, 0x20, 0xED, 0x95, 0x98, 0xEB,
      0x9D, 0xBD, 0x2C, 0x20, 0xEB, 0xAA, 0xA9, 0xED, 0x91, 0x9C, 0xEC, 0x83, 0x81, 0xEC, 0x8B, 0xA4, 0x2C, 0x20,
      0xEC, 0x9E, 0x90, 0xEC, 0x8B, 0xA0, 0xEC, 0x83, 0x81, 0xEC, 0x8B, 0xA4, 0x2C, 0x20, 0xEA, 0xB1, 0xB4, 0xEA,
      0xB0, 0x95, 0xEC, 0x97, 0x90, 0x20, 0xEC, 0x9D, 0xB4, 0xEC, 0x83, 0x81]),
    ([0xEC, 0x8B, 0xAC, 0xED, 0x8C, 0x90], [0x4A, 0x75, 0x64, 0x67, 0x65, 0x6D, 0x65, 0x6E, 0x74], [0xEC, 0x97,
      0xAD, 0xEB, 0xB0, 0xA9, 0xED, 0x96, 0xA5], [0xEC, 0xA0, 0x88, 0xEB, 0xA7, 0x9D, 0xEC, 0xA0, 0x81, 0x2C, 0x20,
      0xEA, 0xB3, 0xBC, 0xEA, 0xB1, 0xB0, 0x20, 0xEC, 0x83, 0x81, 0xEC, 0xB2, 0x98, 0xEB, 0xA5, 0xBC, 0x20, 0xEC,
      0x83, 0x81, 0xEA, 0xB8, 0xB0, 0x2C, 0x20, 0xEC, 0x84, 0xA0, 0xED, 0x83, 0x9D, 0xEC, 0x9D, 0x84, 0x20, 0xEB,
      0xA7, 0x9D, 0xEC, 0x84, 0xA4, 0xEC, 0x9E, 0x84, 0x2C, 0x20, 0xEC, 0x84, 0xB1, 0xEC, 0xA0, 0x81, 0x20, 0xEC,
      0xA0, 0x80, 0xED, 0x95, 0x98, 0x2C, 0x20, 0xEC, 0x9A, 0xB4, 0xEC, 0x9D, 0x98, 0x20, 0xEC, 0xA0, 0x80, 0xED,
      0x95, 0x98]),
    ([0xEC, 0x84, 0xB8, 0xEA, 0xB3, 0x84], [0x54, 0x68, 0x65, 0x20, 0x57, 0x6F, 0x72, 0x6C, 0x64], [0xEC, 0x97,
      0xAD, 0xEB, 0xB0, 0xA9, 0xED, 0x96, 0xA5], [0xEC, 0x8B, 0xA4, 0xEB, 0xA7, 0x9D, 0x2C, 0x20, 0xEC, 0xA2, 0x8C,
      0xEC, 0xA0, 0x88, 0x2C, 0x20, 0xEB, 0xB6, 0x88, 0xED, 0x99, 0x95, 0xEC, 0x8B, 0xA4, 0xED, 0x95, 0x9C, 0x20,
      0xED, 0x83, 0x9C, 0xEB, 0x8F, 0x84, 0x2C, 0x20, 0xEC, 0x8B, 0xA4, 0xED, 0x8C, 0xA8])]"

text \<open>\<open>int idx\<close> is sign-extended to \<open>size_t\<close> before the remainder.\<close>

definition tarot_index :: "u32 \<Rightarrow> nat" where
  "tarot_index n = unat (scast n :: u64) mod length tarot_data"

text \<open>The arithmetic on \<open>double\<close>: reading a number, a constant given in tenths, comparing, multiplying, dividing.\<close>

record 'd double_ops =
  d_read :: "byte list \<Rightarrow> 'd option"
  d_tenths :: "nat \<Rightarrow> 'd"
  d_less :: "'d \<Rightarrow> 'd \<Rightarrow> bool"
  d_le :: "'d \<Rightarrow> 'd \<Rightarrow> bool"
  d_mult :: "'d \<Rightarrow> 'd \<Rightarrow> 'd"
  d_divide :: "'d \<Rightarrow> 'd \<Rightarrow> 'd"

definition bmi_desc :: "'d double_ops \<Rightarrow> 'd \<Rightarrow> byte list" where
  "bmi_desc D bmi =
    (let below = (\<lambda>k. d_less D bmi (d_tenths D k)); from = (\<lambda>k. d_le D (d_tenths D k) bmi)
     in if below 165 then [0xEC, 0x8B, 0xAC, 0xEA, 0xB0, 0x81, 0xED, 0x95, 0x9C, 0x20, 0xEC, 0xA0, 0x80, 0xEC, 0xB2,
       0xB4, 0xEC, 0xA4, 0x91]
        else if from 165 \<and> below 185 then [0xEC, 0xA0, 0x80, 0xEC, 0xB2, 0xB4, 0xEC, 0xA4, 0x91]
        else if from 185 \<and> below 250 then [0xEC, 0xA0, 0x95, 0xEC, 0x83, 0x81]
        else if from 250 \<and> below 300 then [0xEA, 0xB3, 0xBC, 0xEC, 0xB2, 0xB4, 0xEC, 0xA4, 0x91]
        else if from 300 \<and> below 350 then [0xEB, 0xB9, 0x84, 0xEB, 0xA7, 0x8C, 0x20, 0xED, 0x81, 0xB4, 0xEB,
          0x9E, 0x98, 0xEC, 0x8A, 0xA4, 0x20, 0x49]
        else if from 350 \<and> below 400 then [0xEA, 0xB3, 0xA0, 0xEB, 0x8F, 0x84, 0xEB, 0xB9, 0x84, 0xEB, 0xA7,
          0x8C, 0x20, 0xED, 0x81, 0xB4, 0xEB, 0x9E, 0x98, 0xEC, 0x8A, 0xA4, 0x20, 0x49, 0x49]
        else if from 400 \<and> below 450 then [0xEC, 0xB4, 0x88, 0xEA, 0xB3, 0xA0, 0xEB, 0x8F, 0x84, 0xEB, 0xB9,
          0x84, 0xEB, 0xA7, 0x8C]
        else if from 450 \<and> below 500 then [0xEB, 0xB3, 0x91, 0xEC, 0xA0, 0x81, 0xEC, 0x9C, 0xBC, 0xEB, 0xA1,
          0x9C, 0x20, 0xEB, 0xB9, 0x84, 0xEB, 0xA7, 0x8C]
        else if from 500 \<and> below 600 then [0xE8, 0xB6, 0x85, 0xE8, 0xB6, 0x85, 0xEA, 0xB3, 0xA0, 0xEB, 0x8F,
          0x84, 0xEB, 0xB9, 0x84, 0xEB, 0xA7, 0x8C, 0x20, 0x2D, 0x20, 0xEB, 0x8B, 0xB5, 0xEC, 0x9D, 0xB4, 0x20,
          0xE3, 0x85, 0x87, 0xEB, 0xB2, 0x97, 0xEB, 0x8B, 0xA4]
        else if from 600 then [0xE8, 0xB6, 0x85, 0xE8, 0xB6, 0x85, 0xE8, 0xB6, 0x85, 0xE8, 0xB6, 0x85, 0xE8, 0xB6,
          0x85, 0xE9, 0xAB, 0x98, 0xE5, 0xBA, 0xA6, 0xEB, 0xB9, 0x84, 0xEB, 0xA7, 0x8C, 0x20, 0x2D, 0x20, 0xEC,
          0x9E, 0x90, 0xEC, 0x82, 0xB4, 0xEC, 0xB6, 0xAA, 0xED, 0x98, 0x84]
        else [0xEB, 0x82, 0xB4, 0xEB, 0xB6, 0x80, 0x20, 0xEC, 0x98, 0xA4, 0xEB, 0xA5, 0x98])"

definition bmi_reply :: "byte pcre \<Rightarrow> 'd double_ops \<Rightarrow> byte list \<Rightarrow> 'd reply" where
  "bmi_reply R D carg =
    (let usage = Privmsg [0xEC, 0x82, 0xAC, 0xEC, 0x9A, 0xA9, 0xEB, 0xB2, 0x95, 0x3A, 0x20, 0x21, 0x42, 0x4D, 0x49,
      0x20, 0xED, 0x82, 0xA4, 0x20, 0xEB, 0xAA, 0xB8, 0xEB, 0xAC, 0xB4, 0xEA, 0xB2, 0x8C, 0x20, 0x28, 0xEB, 0x8B,
      0xA8, 0xEC, 0x9C, 0x84, 0x3A, 0x20, 0x63, 0x6D, 0x2C, 0x20, 0x6B, 0x67, 0x29, 0x20, 0xEC, 0x98, 0x88, 0x29,
      0x20, 0x21, 0x42, 0x4D, 0x49, 0x20, 0x32, 0x30, 0x30, 0x20, 0x31, 0x30, 0x30]
     in case re_full R [0x28, 0x5B, 0x30, 0x2D, 0x39, 0x2E, 0x5D, 0x2B, 0x29, 0x20, 0x2B, 0x28, 0x5B, 0x30, 0x2D,
       0x39, 0x2E, 0x5D, 0x2B, 0x29] carg of
       Some (h # w # _) \<Rightarrow>
         (case (d_read D h, d_read D w) of
            (Some height, Some weight) \<Rightarrow>
              if d_less D (d_tenths D 5000) height \<or> d_less D height (d_tenths D 10) \<or>
                 d_less D (d_tenths D 10000) weight \<or> d_less D weight (d_tenths D 10)
              then Privmsg [0xEC, 0x9E, 0xA5, 0xEB, 0x82, 0x9C, 0xED, 0x95, 0x98, 0xEB, 0x83, 0x90, 0xEB, 0x8A,
                0xA5, 0x20, 0x3E, 0x5F, 0x3C]
              else
                (let height = d_divide D height (d_tenths D 1000);
                     bmi = d_divide D weight (d_mult D height height)
                 in Privmsgf_nh [0x42, 0x4D, 0x49, 0x3A, 0x20, 0x25, 0x2E, 0x30, 0x32, 0x66, 0x20, 0x28, 0x25, 0x73,
                   0x29] [Arg_double bmi, Arg_str (Some (bmi_desc D bmi))])
          | _ \<Rightarrow> usage)
     | _ \<Rightarrow> usage)"

text \<open>\<open>boost::algorithm::split\<close> at every space.\<close>

fun split_spaces :: "byte list \<Rightarrow> byte list list" where
  "split_spaces [] = [[]]"
| "split_spaces (c # s) =
    (if c = 0x20 then [] # split_spaces s
     else case split_spaces s of w # ws \<Rightarrow> (c # w) # ws | [] \<Rightarrow> [[c]])"

text \<open>\<open>cmd_cb_singlearg2\<close>. \<open>now_text\<close> is \<open>gettimestr()\<close>, \<open>now\<close> is \<open>time(NULL)\<close>, \<open>rnd\<close> is \<open>rand()\<close>.\<close>

definition cmd_cb_singlearg2 ::
  "byte pcre \<Rightarrow> byte pcre \<Rightarrow> 'd double_ops \<Rightarrow> md5_ctx \<Rightarrow> byte list \<Rightarrow> int \<Rightarrow> nat \<Rightarrow> byte list \<Rightarrow> byte list \<Rightarrow> byte list \<Rightarrow>
    c_fault + int \<times> 'd reply list" where
  "cmd_cb_singlearg2 R R8 D ctx now_text now rnd nick cmd carg =
    (let ask = Inr (0, [Privmsg_nh [0xEC, 0xA7, 0x88, 0xEB, 0xAC, 0xB8, 0xEC, 0x9D, 0x84, 0x20, 0xEC, 0x9E, 0x85,
      0xEB, 0xA0, 0xA5, 0xED, 0x95, 0x98, 0xEC, 0x84, 0xB8, 0xEC, 0x9A, 0x94, 0x2E]])
     in if cmd = [0xEC, 0x8B, 0x9C, 0xEA, 0xB0, 0x84] then Inr (0, [Privmsg now_text])
        else if cmd = [0xED, 0x83, 0x80, 0xEB, 0xA1, 0x9C] \<or> cmd = [0xED, 0x83, 0x80, 0xEB, 0xA1,
          0xAF] \<or> cmd = [0x74, 0x61, 0x72, 0x6F, 0x74] then
          (if carg = [] then ask
           else
             (let (name, name_eng, direction, description) =
                tarot_data ! tarot_index (md5rand R R8 ctx now (of_nat rnd) nick (nick @ carg))
              in Inr (0, [Privmsgf_nh [0x20, 0x25, 0x73, 0x25, 0x4A, 0x7B, 0xEC, 0x9D, 0xB4, 0x7D, 0xEB, 0x9D, 0xBC,
                0xEB, 0x8A, 0x94, 0x20, 0xEC, 0xA7, 0x88, 0xEB, 0xAC, 0xB8, 0xEC, 0x97, 0x90, 0x20, 0xEB, 0x8C,
                0x80, 0xED, 0x95, 0xB4, 0xEC, 0x84, 0x9C, 0x2C, 0x20, 0x25, 0x73, 0x28, 0x25, 0x73, 0x29, 0x20,
                0xEC, 0xB9, 0xB4, 0xEB, 0x93, 0x9C, 0xEC, 0x9D, 0x98, 0x20, 0x25, 0x73, 0xEC, 0x9D, 0xB4, 0x20,
                0xEB, 0x82, 0x98, 0xEC, 0x99, 0x94, 0xEC, 0x8A, 0xB5, 0xEB, 0x8B, 0x88, 0xEB, 0x8B, 0xA4, 0x2E,
                0x20, 0x28, 0x25, 0x73, 0x29]
                   [Arg_str (Some carg), Arg_str (Some name), Arg_str (Some name_eng), Arg_str (Some direction),
                    Arg_str (Some description)]])))
        else if cmd = [0xED, 0x8D, 0xBC, 0xEC, 0x84, 0xBC, 0xED, 0x8A, 0xB8] \<or> cmd = [0x70, 0x65, 0x72, 0x63,
          0x65, 0x6E, 0x74] \<or> cmd = [0xED, 0x8D, 0xBC, 0xEC, 0x84, 0xBC, 0xED, 0x8A, 0xB8, 0x32] then
          (if carg = [] then ask
           else
             (let percent = unat (md5rand R R8 ctx now (of_nat rnd) nick carg) mod 101
              in Inr (0, [if cmd = [0xED, 0x8D, 0xBC, 0xEC, 0x84, 0xBC, 0xED, 0x8A, 0xB8, 0x32]
                   then Privmsgf_nh [0x20, 0x25, 0x73, 0x25, 0x4A, 0x7B, 0xEC, 0x9D, 0x80, 0xEB, 0x8A, 0x94, 0x7D,
                     0x20, 0x25, 0x64, 0x25, 0x25, 0xEC, 0x9E, 0x85, 0xEB, 0x8B, 0x88, 0xEB, 0x8B, 0xA4,
                     0x2E] [Arg_str (Some carg), Arg_int (of_nat percent)]
                   else Privmsgf_nh [0x20, 0x25, 0x73, 0x25, 0x4A, 0x7B, 0xEC, 0x9D, 0x80, 0xEB, 0x8A, 0x94, 0x7D,
                     0x20, 0x25, 0x73, 0x20, 0xEC, 0x9E, 0x85, 0xEB, 0x8B, 0x88, 0xEB, 0x8B, 0xA4, 0x2E]
                     [Arg_str (Some carg), Arg_str (Some (percent_bar percent))]])))
        else if cmd = [0xEA, 0xB3, 0xA8, 0xEB, 0x9D, 0xBC] \<or> cmd = [0xEC, 0x84, 0xA0, 0xED, 0x83, 0x9D] then
          (let choices = split_spaces carg
           in if length choices \<le> 0 then Inr (0, [Privmsg ([0xEC, 0x82, 0xAC, 0xEC, 0x9A, 0xA9, 0xEB, 0xB2,
             0x95, 0x3A, 0x20, 0x21] @ cmd @ [0x20, 0x31, 0x20, 0x32, 0x20, 0x33, 0x20, 0x34, 0x20, 0x2E, 0x2E,
             0x2E])])
              else Inr (0, [Privmsg_nh (0x20 # choices ! (rnd mod length choices))]))
        else if cmd = [0xED, 0x94, 0x84, 0xEA, 0xB0, 0xA4, 0xED, 0x8F, 0xAC, 0xED, 0x83, 0x88] \<or> cmd = [0xED,
          0x94, 0x84, 0xEA, 0xB2, 0x94, 0xED, 0x8F, 0xAC, 0xED, 0x83, 0x88] then
          Inr (0, [Privmsg [0x68, 0x74, 0x74, 0x70, 0x3A, 0x2F, 0x2F, 0x67, 0x61, 0x6C, 0x6C, 0x2E, 0x64, 0x63,
            0x69, 0x6E, 0x73, 0x69, 0x64, 0x65, 0x2E, 0x63, 0x6F, 0x6D, 0x2F, 0x6C, 0x69, 0x73, 0x74, 0x2E, 0x70,
            0x68, 0x70, 0x3F, 0x69, 0x64, 0x3D, 0x70, 0x72, 0x6F, 0x67, 0x72, 0x61, 0x6D, 0x6D, 0x69, 0x6E, 0x67]])
        else if cmd = [0x42, 0x4D, 0x49] \<or> cmd = [0x62, 0x6D, 0x69] \<or> cmd = [0xEB, 0xB9, 0x84, 0xEB, 0xA7,
          0x8C, 0xEA, 0xB3, 0x84, 0xEC, 0x82, 0xB0] then Inr (0, [bmi_reply R D carg])
        else if cmd = [0xEB, 0x91, 0x90, 0xEC, 0x9D, 0x8C, 0xEB, 0xB2, 0x95, 0xEC, 0xB9, 0x99] then
          Inr (0, [Privmsg (if carg = [] then [0x21, 0xEB, 0x91, 0x90, 0xEC, 0x9D, 0x8C, 0xEB, 0xB2, 0x95, 0xEC,
            0xB9, 0x99, 0x20, 0x3C, 0xEB, 0x8B, 0xA8, 0xEC, 0x96, 0xB4, 0x3E] else 0x20 # apply_head_pron_rule carg)])
        else if cmd = [0xEA, 0xB6, 0x81, 0xED, 0x95, 0xA9] then
          (case re_full R [0x20, 0x2A, 0x28, 0x5B, 0x5E, 0x20, 0x5D, 0x2B, 0x29, 0x20, 0x2B, 0x28, 0x5B, 0x5E, 0x20,
            0x5D, 0x2B, 0x29, 0x20, 0x2A] carg of
             Some (s1 # s2 # _) \<Rightarrow>
               (let p = get_gp s1 s2
                in Inr (0, [if p < 0 then Privmsg [0xEC, 0x9D, 0xB4, 0xEB, 0xA6, 0x84, 0xEC, 0x9D, 0xB4, 0x20, 0xEB,
                  0x84, 0x88, 0xEB, 0xAC, 0xB4, 0x20, 0xEA, 0xB9, 0x81, 0xEB, 0x8B, 0x88, 0xEB, 0x8B, 0xA4, 0x2E]
                            else Privmsgf [0x25, 0x64, 0x25, 0x25, 0x0A] [Arg_int (of_int p)]]))
           | _ \<Rightarrow> Inr (0, [Privmsg [0xEC, 0x82, 0xAC, 0xEC, 0x9A, 0xA9, 0xEB, 0xB2, 0x95, 0x3A, 0x20,
             0x21, 0xEA, 0xB6, 0x81, 0xED, 0x95, 0xA9, 0x20, 0xEC, 0x9D, 0xB4, 0xEB, 0xA6, 0x84, 0x31, 0x20, 0xEC,
             0x9D, 0xB4, 0xEB, 0xA6, 0x84, 0x32]]))
        else if cmd = [0x63, 0x32] then
          (if carg = [] then Inr (0, [Privmsg [0x21, 0x63, 0x32, 0x20, 0x3C, 0x61, 0x6E, 0x73, 0x77, 0x6B, 0x64,
            0x3E]])
           else map_sum id (\<lambda>s. (0, [Privmsg s])) (qwerty_to_2bul carg))
        else if cmd = [0xEB, 0xA7, 0x90, 0xED, 0x95, 0xB4] then Inr (0, [Privmsg_nh carg])
        else Inr (0, []))"

definition cmdlist_singlearg_src :: "byte list list" where
  "cmdlist_singlearg_src = [[0x62, 0x36, 0x34, 0x65], [0x62, 0x61, 0x73, 0x65, 0x36, 0x34], [0x6D, 0x64, 0x35],
    [0x75, 0x72, 0x6C, 0x65, 0x6E, 0x63], [0x75, 0x72, 0x6C, 0x65, 0x6E, 0x63, 0x6F, 0x64, 0x65], [0x75, 0x72, 0x6C,
    0x65, 0x6E, 0x63, 0x70]]"

definition cmdlist_singlearg_dest :: "byte list list" where
  "cmdlist_singlearg_dest = [[0x62, 0x36, 0x34, 0x64], [0x75, 0x72, 0x6C, 0x64, 0x65, 0x63], [0x75, 0x72, 0x6C,
    0x64, 0x65, 0x63, 0x6F, 0x64, 0x65], [0x68, 0x74, 0x6D, 0x6C, 0x65, 0x6E, 0x74, 0x64, 0x65, 0x63]]"

definition cmdlist_singlearg2 :: "byte list list" where
  "cmdlist_singlearg2 = [[0xEC, 0x8B, 0x9C, 0xEA, 0xB0, 0x84], [0xED, 0x83, 0x80, 0xEB, 0xA1, 0x9C], [0xED, 0x83,
    0x80, 0xEB, 0xA1, 0xAF], [0x74, 0x61, 0x72, 0x6F, 0x74], [0xED, 0x8D, 0xBC, 0xEC, 0x84, 0xBC, 0xED, 0x8A, 0xB8],
    [0xED, 0x8D, 0xBC, 0xEC, 0x84, 0xBC, 0xED, 0x8A, 0xB8, 0x32], [0x70, 0x65, 0x72, 0x63, 0x65, 0x6E, 0x74], [0xEA,
    0xB3, 0xA8, 0xEB, 0x9D, 0xBC], [0xEC, 0x84, 0xA0, 0xED, 0x83, 0x9D], [0xED, 0x94, 0x84, 0xEA, 0xB0, 0xA4, 0xED,
    0x8F, 0xAC, 0xED, 0x83, 0x88], [0xED, 0x94, 0x84, 0xEA, 0xB2, 0x94, 0xED, 0x8F, 0xAC, 0xED, 0x83, 0x88], [0x62,
    0x6D, 0x69], [0xEB, 0xB9, 0x84, 0xEB, 0xA7, 0x8C, 0xEA, 0xB3, 0x84, 0xEC, 0x82, 0xB0], [0xEB, 0x91, 0x90, 0xEC,
    0x9D, 0x8C, 0xEB, 0xB2, 0x95, 0xEC, 0xB9, 0x99], [0xEA, 0xB6, 0x81, 0xED, 0x95, 0xA9], [0xEB, 0xA7, 0x90, 0xED,
    0x95, 0xB4], [0x63, 0x32]]"

definition cmdlist_regexp :: "byte list list" where
  "cmdlist_regexp = [[0xEC, 0xA0, 0x95, 0xEA, 0xB7, 0x9C, 0xEC, 0x8B, 0x9D], [0xEC, 0xA0, 0x95, 0xEA, 0xB7, 0x9C,
    0xED, 0x91, 0x9C, 0xED, 0x98, 0x84, 0xEC, 0x8B, 0x9D], [0x72, 0x65, 0x67, 0x65, 0x78], [0x72, 0x65, 0x67, 0x65,
    0x78, 0x70]]"

text \<open>The module's entry points: \<open>f1\<close>, \<open>f2\<close>, \<open>f3\<close>, \<open>f4\<close> are the addresses of its four callbacks.\<close>

definition mod_strutils_init :: "nat \<Rightarrow> nat \<Rightarrow> nat \<Rightarrow> nat \<Rightarrow> 'w ircbot \<Rightarrow> int \<times> 'w ircbot" where
  "mod_strutils_init f1 f2 f3 f4 b =
    (0, register_cmds f4 cmdlist_regexp (register_cmds f3 cmdlist_singlearg2
          (register_cmds f2 cmdlist_singlearg_dest (register_cmds f1 cmdlist_singlearg_src b))))"

definition mod_strutils_cleanup :: "'w ircbot \<Rightarrow> int \<times> 'w ircbot" where
  "mod_strutils_cleanup b =
    (0, unregister_cmds cmdlist_regexp (unregister_cmds cmdlist_singlearg2
          (unregister_cmds cmdlist_singlearg_dest (unregister_cmds cmdlist_singlearg_src b))))"

subsection \<open>Mixing names\<close>

function interleave :: "'a list \<Rightarrow> 'a list \<Rightarrow> 'a list" where
  "interleave [] ys = ys"
| "interleave (x # xs) ys = x # interleave ys xs"
  by pat_completeness auto
termination
  by (relation "measure (\<lambda>(xs, ys). length xs + length ys)") auto

lemma length_interleave [simp]: "length (interleave xs ys) = length xs + length ys"
  by (induction xs ys rule: interleave.induct) auto

lemma set_interleave [simp]: "set (interleave xs ys) = set xs \<union> set ys"
  by (induction xs ys rule: interleave.induct) auto

lemma interleave_Nil [simp]: "interleave xs [] = xs"
  by (cases xs) auto

lemma split_chars_nth: "i < length (utf8_split_chars s) \<Longrightarrow> utf8_split_chars s ! i \<noteq> []"
  using split_chars_nonempty nth_mem by blast

lemma str_stroke_loop_eq:
  "str_stroke_loop s i n = n + sum_list (map get_char_stroke (drop i (utf8_split_chars s)))"
proof (induction s i n rule: str_stroke_loop.induct)
  case (1 s i n)
  then show ?case
    by (subst str_stroke_loop.simps)
      (auto simp: Let_def utf8_strpos_s_chars Cons_nth_drop_Suc [symmetric] dest: split_chars_nth)
qed

lemma gp_loop_eq: "gp_loop s i na = na @ map get_char_stroke (drop i (utf8_split_chars s))"
proof (induction s i na rule: gp_loop.induct)
  case (1 s i na)
  then show ?case
    by (subst gp_loop.simps)
      (auto simp: Let_def utf8_strpos_s_chars Cons_nth_drop_Suc [symmetric] dest: split_chars_nth)
qed

text \<open>One name alone, then both: the loop appends the characters left in turn.\<close>

lemma merge_name_first:
  "merge_name_loop s1 s2 False (int k) (- 1) r = r @ concat (drop k (utf8_split_chars s1))"
proof (induction "length (utf8_split_chars s1) - k" arbitrary: k r)
  case 0
  then show ?case by (subst merge_name_loop.simps) (simp add: Let_def utf8_strpos_s_chars)
next
  case (Suc n)
  then have k: "k < length (utf8_split_chars s1)" by simp
  then have ne: "utf8_split_chars s1 ! k \<noteq> []" using split_chars_nonempty [OF nth_mem [OF k]] by blast
  have "merge_name_loop s1 s2 False (int (Suc k)) (- 1) (r @ utf8_split_chars s1 ! k) =
      (r @ utf8_split_chars s1 ! k) @ concat (drop (Suc k) (utf8_split_chars s1))"
    by (rule Suc.hyps(1)) (use Suc.hyps(2) in simp)
  then show ?case using k ne
    by (subst merge_name_loop.simps)
      (simp add: Let_def utf8_strpos_s_chars Cons_nth_drop_Suc [OF k, symmetric] add.commute)
qed

lemma merge_name_second:
  "merge_name_loop s1 s2 True (- 1) (int k) r = r @ concat (drop k (utf8_split_chars s2))"
proof (induction "length (utf8_split_chars s2) - k" arbitrary: k r)
  case 0
  then show ?case by (subst merge_name_loop.simps) (simp add: Let_def utf8_strpos_s_chars)
next
  case (Suc n)
  then have k: "k < length (utf8_split_chars s2)" by simp
  then have ne: "utf8_split_chars s2 ! k \<noteq> []" using split_chars_nonempty [OF nth_mem [OF k]] by blast
  have "merge_name_loop s1 s2 True (- 1) (int (Suc k)) (r @ utf8_split_chars s2 ! k) =
      (r @ utf8_split_chars s2 ! k) @ concat (drop (Suc k) (utf8_split_chars s2))"
    by (rule Suc.hyps(1)) (use Suc.hyps(2) in simp)
  then show ?case using k ne
    by (subst merge_name_loop.simps)
      (simp add: Let_def utf8_strpos_s_chars Cons_nth_drop_Suc [OF k, symmetric] add.commute)
qed

lemma merge_name_both:
  "merge_name_loop s1 s2 side (int k1) (int k2) r =
    r @ concat (if side then interleave (drop k2 (utf8_split_chars s2)) (drop k1 (utf8_split_chars s1))
                else interleave (drop k1 (utf8_split_chars s1)) (drop k2 (utf8_split_chars s2)))"
proof (induction "length (utf8_split_chars s1) - k1 + (length (utf8_split_chars s2) - k2)" arbitrary: side k1 k2 r
    rule: less_induct)
  case less
  let ?c1 = "utf8_split_chars s1" and ?c2 = "utf8_split_chars s2"
  show ?case
  proof (cases side)
    case False
    show ?thesis
    proof (cases "k1 < length ?c1")
      case True
      then have ne: "?c1 ! k1 \<noteq> []" using split_chars_nonempty [OF nth_mem [OF True]] by blast
      have "merge_name_loop s1 s2 True (int (Suc k1)) (int k2) (r @ ?c1 ! k1) =
          (r @ ?c1 ! k1) @ concat (interleave (drop k2 ?c2) (drop (Suc k1) ?c1))"
        by (subst less.hyps) (use True in simp_all)
      then show ?thesis using True ne False
        by (subst merge_name_loop.simps)
          (simp add: Let_def utf8_strpos_s_chars Cons_nth_drop_Suc [OF True, symmetric] add.commute)
    next
      case False
      then show ?thesis using \<open>\<not> side\<close> merge_name_second [of s1 s2 k2 r]
        by (subst merge_name_loop.simps) (simp add: Let_def utf8_strpos_s_chars)
    qed
  next
    case True
    show ?thesis
    proof (cases "k2 < length ?c2")
      case k: True
      then have ne: "?c2 ! k2 \<noteq> []" using split_chars_nonempty [OF nth_mem [OF k]] by blast
      have "merge_name_loop s1 s2 False (int k1) (int (Suc k2)) (r @ ?c2 ! k2) =
          (r @ ?c2 ! k2) @ concat (interleave (drop k1 ?c1) (drop (Suc k2) ?c2))"
        by (subst less.hyps) (use k in simp_all)
      then show ?thesis using True ne k
        by (subst merge_name_loop.simps)
          (simp add: Let_def utf8_strpos_s_chars Cons_nth_drop_Suc [OF k, symmetric] add.commute)
    next
      case False
      then show ?thesis using True merge_name_first [of s1 s2 k1 r]
        by (subst merge_name_loop.simps) (simp add: Let_def utf8_strpos_s_chars)
    qed
  qed
qed

lemma merge_name_interleave:
  "merge_name s1 s2 = concat (interleave (utf8_split_chars s1) (utf8_split_chars s2))"
  using merge_name_both [of s1 s2 False 0 0 "[]"] by (simp add: merge_name_def)

lemma split_chars_concat: "utf8_chars cs \<Longrightarrow> utf8_split_chars (concat cs) = cs"
  using utf8_split_loop_append [of cs "[]"] until_nul_chars [of cs "[]"]
  by (simp add: utf8_split_chars_def until_nul_rest)

lemma merge_name_chars:
  "utf8_split_chars (merge_name s1 s2) = interleave (utf8_split_chars s1) (utf8_split_chars s2)"
proof -
  have "utf8_chars (interleave (utf8_split_chars s1) (utf8_split_chars s2))"
    using utf8_split_loop_chars [of "until_nul s1"] utf8_split_loop_chars [of "until_nul s2"]
    by (auto simp: list_all_iff utf8_split_chars_def)
  then show ?thesis by (simp add: merge_name_interleave split_chars_concat)
qed

subsection \<open>The range of the result\<close>

lemma letter_stroke_range: "0 \<le> letter_stroke c" "letter_stroke c \<le> 2"
  by (simp_all add: letter_stroke_def)

lemma stroke_list_range: "list_all (\<lambda>(s, n). 0 \<le> n \<and> n \<le> 8) stroke_list"
  by (simp add: stroke_list_def)

lemma stroke_of_range: "0 \<le> stroke_of s \<and> stroke_of s \<le> 8"
proof (cases "find (\<lambda>(s', n). s' = s) stroke_list")
  case (Some p)
  then have "p \<in> set stroke_list" using find_Some_iff nth_mem by (metis (no_types, lifting))
  then show ?thesis using Some stroke_list_range by (auto simp: stroke_of_def list_all_iff)
qed (simp add: stroke_of_def)

lemma get_char_stroke_part: "hangul_split_utf8str s = None \<Longrightarrow> 0 \<le> get_char_stroke s \<and> get_char_stroke s \<le> 8"
  using letter_stroke_range stroke_of_range [of s]
  by (subst (1 2) get_char_stroke.simps) (auto simp: Let_def intro: order_trans [OF letter_stroke_range(2)])

lemma get_char_stroke_range: "0 \<le> get_char_stroke s \<and> get_char_stroke s \<le> 24"
proof (cases "hangul_split_utf8str s")
  case None
  then show ?thesis using get_char_stroke_part [of s] by simp
next
  case (Some p)
  obtain i m f where p: "p = (i, m, f)" by (cases p)
  have "hangul_split_utf8str i = None" "hangul_split_utf8str m = None" "hangul_split_utf8str f = None"
    using hangul_split_utf8str_parts [of s i m f] Some p by auto
  then have "0 \<le> get_char_stroke i + get_char_stroke m + get_char_stroke f \<and>
      get_char_stroke i + get_char_stroke m + get_char_stroke f \<le> 24"
    using get_char_stroke_part [of i] get_char_stroke_part [of m] get_char_stroke_part [of f] by linarith
  then show ?thesis using Some p letter_stroke_range
    by (subst (1 2) get_char_stroke.simps) (auto simp: Let_def intro: order_trans [OF letter_stroke_range(2)])
qed


lemma smod_nonneg: "0 \<le> a \<Longrightarrow> 0 < b \<Longrightarrow> (a::int) smod b = a mod b"
  by (simp add: signed_modulo_int_def signed_divide_int_def minus_div_mult_eq_mod sgn_if)

lemma sdiv_nonneg: "0 \<le> a \<Longrightarrow> 0 < b \<Longrightarrow> (a::int) sdiv b = a div b"
  by (simp add: signed_divide_int_def sgn_if)

lemma num_array_loop_pairs:
  assumes "list_all (\<lambda>x. 0 \<le> x) xs" "list_all (\<lambda>x. 0 \<le> x \<and> x \<le> 9) na2"
  shows "list_all (\<lambda>x. 0 \<le> x \<and> x \<le> 9) (snd (num_array_loop small xs n m na2))"
  using assms
proof (induction small xs n m na2 rule: num_array_loop.induct)
  case (2 small x xs n m na2)
  have "0 \<le> (x + y) smod 10 \<and> (x + y) smod 10 \<le> 9" if "0 \<le> y" for y
    using that 2(2) pos_mod_bound [of 10 "x + y"] by (simp add: smod_nonneg)
  then have "list_all (\<lambda>x. 0 \<le> x \<and> x \<le> 9) (case xs of [] \<Rightarrow> na2 | y # ys \<Rightarrow> na2 @ [(x + y) smod 10])"
    using 2(2,3) by (cases xs) auto
  then show ?case using 2(1,2) by simp
qed simp

lemma num_array_loop_sum:
  "list_all (\<lambda>x. 0 \<le> x) xs \<Longrightarrow> 0 \<le> n \<Longrightarrow> 0 \<le> m \<Longrightarrow> 0 \<le> fst (num_array_loop small xs n m na2)"
  by (induction small xs n m na2 rule: num_array_loop.induct) (auto simp: sdiv_nonneg)

lemma num_array_loop_large: "fst (num_array_loop False xs n m na2) = n"
  by (induction "False" xs n m na2 rule: num_array_loop.induct) auto

lemma merge_num_array_range:
  assumes "list_all (\<lambda>x. 0 \<le> x \<and> x \<le> 100) na" "1 \<le> length na" "length na \<le> 30"
  shows "0 \<le> merge_num_array na \<and> merge_num_array na \<le> 100"
  using assms
proof (induction na rule: merge_num_array.induct)
  case (1 na)
  define r where "r = num_array_loop (length na \<le> 3) na (if length na \<le> 3 then 0 else 101)
      (if length na \<le> 3 then 10 ^ (length na - 1) else 0) []"
  have pos: "list_all (\<lambda>x. 0 \<le> x) na" using "1.prems"(1) by (auto simp: list_all_iff)
  have eq: "merge_num_array na = (if fst r \<le> 100 then fst r else merge_num_array (snd r))"
    using "1.prems"(2,3) by (subst merge_num_array.simps) (auto simp: Let_def r_def case_prod_beta)
  have sum: "0 \<le> fst r"
    unfolding r_def by (rule num_array_loop_sum [OF pos]) simp_all
  show ?case
  proof (cases "fst r \<le> 100")
    case False
    have "length na \<noteq> 1"
    proof
      assume "length na = 1"
      then obtain x where "na = [x]" by (metis One_nat_def length_0_conv length_Suc_conv)
      then show False using False "1.prems"(1) by (simp add: r_def)
    qed
    moreover have "length (snd r) = length na - 1" unfolding r_def by (simp add: num_array_loop_length)
    moreover have "list_all (\<lambda>x. 0 \<le> x \<and> x \<le> 100) (snd r)"
    proof -
      have "list_all (\<lambda>x. 0 \<le> x \<and> x \<le> 9) (snd r)"
        unfolding r_def by (rule num_array_loop_pairs [OF pos]) simp
      then show ?thesis by (auto simp: list_all_iff)
    qed
    ultimately have "0 \<le> merge_num_array (snd r) \<and> merge_num_array (snd r) \<le> 100"
      by (intro "1.IH" [of "length na \<le> 3" r "fst r" "snd r"]) (use "1.prems" False in \<open>auto simp: r_def\<close>)
    then show ?thesis using eq False by simp
  qed (use eq sum in simp)
qed

lemma merge_num_array_none: "length na < 1 \<or> length na > 30 \<Longrightarrow> merge_num_array na = - 1"
  by (subst merge_num_array.simps) simp

text \<open>The score of two names is a percentage whenever they have between one and thirty characters together, and -1,
  for which the command says that the names are too long, otherwise; the recursion over the arrays always ends.
  The numbers it starts from are the strokes of the characters of the two names in turn, the name with more
  strokes first.\<close>

theorem get_gp_percent:
  "get_gp s1 s2 =
     merge_num_array (map get_char_stroke
       (if get_str_stroke s1 < get_str_stroke s2 then interleave (utf8_split_chars s2) (utf8_split_chars s1)
        else interleave (utf8_split_chars s1) (utf8_split_chars s2))) \<and>
   (if length (utf8_split_chars s1) + length (utf8_split_chars s2) \<in> {1..30}
    then get_gp s1 s2 \<in> {0..100} else get_gp s1 s2 = - 1)"
proof -
  let ?cs = "if get_str_stroke s1 < get_str_stroke s2 then interleave (utf8_split_chars s2) (utf8_split_chars s1)
        else interleave (utf8_split_chars s1) (utf8_split_chars s2)"
  have gp: "get_gp s1 s2 = merge_num_array (map get_char_stroke ?cs)"
    by (simp add: get_gp_def gp_loop_eq merge_name_chars)
  have len: "length (map get_char_stroke ?cs) = length (utf8_split_chars s1) + length (utf8_split_chars s2)" by simp
  have "list_all (\<lambda>x. 0 \<le> x \<and> x \<le> 100) (map get_char_stroke ?cs)"
  proof -
    have "0 \<le> get_char_stroke c \<and> get_char_stroke c \<le> 100" for c using get_char_stroke_range [of c] by linarith
    then show ?thesis by (simp add: list_all_iff)
  qed
  then show ?thesis
    using gp len merge_num_array_range [of "map get_char_stroke ?cs"] merge_num_array_none [of "map get_char_stroke ?cs"]
    by (auto simp: not_le)
qed

subsection \<open>The cells of the bar\<close>

text \<open>The cell at position \<open>i\<close>: the number stands in the middle, everything else is blank.\<close>

definition bar_cell :: "byte list \<Rightarrow> nat \<Rightarrow> byte" where
  "bar_cell pcstr i =
    (let lo = 25 - length pcstr div 2 in if lo \<le> i \<and> i < lo + length pcstr then pcstr ! (i - lo) else 0x20)"

lemma min_step:
  "(if lo \<le> i \<and> i < lo + l then Suc (min l (i - lo)) else min l (i - lo)) = min l (Suc i - (lo::nat))"
  by auto

lemma bar_loop_Suc:
  "bar_loop s (Suc n) i pi =
    (let (cs, pi') = bar_loop s n (i + 1)
           (if i \<ge> 25 - int (length s) div 2 \<and> i \<le> 25 + int (length s) div 2 \<and> int pi < int (length s) then Suc pi else pi)
     in ((if i \<ge> 25 - int (length s) div 2 \<and> i \<le> 25 + int (length s) div 2 \<and> int pi < int (length s)
          then s ! pi else 0x20) # cs, pi'))"
  by (simp only: bar_loop.simps Let_def) (simp split: prod.split)

lemma bar_loop_cells:
  assumes "length pcstr \<le> 50"
  shows "bar_loop pcstr n (int i) (min (length pcstr) (i - (25 - length pcstr div 2))) =
    (map (bar_cell pcstr) [i..<i + n], min (length pcstr) (i + n - (25 - length pcstr div 2)))"
proof (induction n arbitrary: i)
  case (Suc n)
  let ?l = "length pcstr" and ?lo = "25 - length pcstr div 2"
  have half: "?l div 2 \<le> 25" "?l \<le> 2 * (?l div 2) + 1" using assms by linarith+
  have cond: "(int i \<ge> 25 - int ?l div 2 \<and> int i \<le> 25 + int ?l div 2 \<and> int (min ?l (i - ?lo)) < int ?l) \<longleftrightarrow>
      (?lo \<le> i \<and> i < ?lo + ?l)"
    using half by (auto simp: min_def)
  have next_pi: "(if ?lo \<le> i \<and> i < ?lo + ?l then Suc (min ?l (i - ?lo)) else min ?l (i - ?lo)) = min ?l (Suc i - ?lo)"
    by (rule min_step)
  have cell: "(if ?lo \<le> i \<and> i < ?lo + ?l then pcstr ! min ?l (i - ?lo) else 0x20) = bar_cell pcstr i"
    by (auto simp: bar_cell_def Let_def min_def)
  have "bar_loop pcstr (Suc n) (int i) (min ?l (i - ?lo)) =
      (let (cs, pi) = bar_loop pcstr n (int (Suc i)) (min ?l (Suc i - ?lo)) in (bar_cell pcstr i # cs, pi))"
    unfolding bar_loop_Suc cond next_pi cell by (simp add: add.commute)
  also have "\<dots> = (map (bar_cell pcstr) [i..<i + Suc n], min ?l (i + Suc n - ?lo))"
    by (simp only: Suc.IH Let_def prod.case) (simp add: upt_conv_Cons del: upt_Suc)
  finally show ?case .
qed simp

lemma percent_bar_cells:
  assumes "p \<le> 100"
  shows "percent_bar p =
    (let cells = map (bar_cell (int2string (int p) @ [0x25])) [0..<50]
     in IRCTEXT_COLOR_FGBG (c_lit ''15'') (c_lit ''02'') @ take (p div 2) cells @
        IRCTEXT_COLOR_FGBG (c_lit ''02'') (c_lit ''15'') @ drop (p div 2) cells @ IRCTEXT_NORMAL)"
proof -
  let ?s = "int2string (int p) @ [0x25]" and ?f = "bar_cell (int2string (int p) @ [0x25])"
  have "length (dec_str p) \<le> 3" by (rule dec_str_length(2)) (use assms in simp_all)
  then have len: "length ?s \<le> 50" by (simp add: int2string_def)
  have pd: "p div 2 \<le> 50" using assms by simp
  have left: "bar_loop ?s (p div 2) 0 0 = (map ?f [0..<p div 2], min (length ?s) (p div 2 - (25 - length ?s div 2)))"
    using bar_loop_cells [OF len, of "p div 2" 0] by simp
  have right: "fst (bar_loop ?s (50 - p div 2) (int (p div 2)) (min (length ?s) (p div 2 - (25 - length ?s div 2)))) =
      map ?f [p div 2..<50]"
    using bar_loop_cells [OF len, of "50 - p div 2" "p div 2"] pd by simp
  have "take (p div 2) (map ?f [0..<50]) = map ?f [0..<p div 2]" "drop (p div 2) (map ?f [0..<50]) = map ?f [p div 2..<50]"
    using pd by (simp_all add: take_map drop_map take_upt)
  then show ?thesis using left right by (simp add: percent_bar_def Let_def case_prod_beta)
qed


lemma split_spaces_pos: "0 < length (split_spaces s)"
  by (induction s) (auto split: list.split)

subsection \<open>Registering the commands\<close>

text \<open>Unloading takes every spelling of the module's names away, also a command that another module had registered
  under one of them before.\<close>

definition strutils_names :: "byte list list" where
  "strutils_names = cmdlist_singlearg_src @ cmdlist_singlearg_dest @ cmdlist_singlearg2 @ cmdlist_regexp"

lemma strutils_commands:
  assumes "smap_ok caseless_string_less (ib_cmd_handlers b)"
  shows "get_cmd_handler m (snd (mod_strutils_cleanup (snd (mod_strutils_init f1 f2 f3 f4 b)))) =
    (if list_ex (\<lambda>n. same_cmd n m) strutils_names then None else get_cmd_handler m b)"
proof -
  note r = register_cmds_lookup unregister_cmds_lookup
  define b1 where "b1 = register_cmds f1 cmdlist_singlearg_src b"
  define b2 where "b2 = register_cmds f2 cmdlist_singlearg_dest b1"
  define b3 where "b3 = register_cmds f3 cmdlist_singlearg2 b2"
  define b4 where "b4 = register_cmds f4 cmdlist_regexp b3"
  define c1 where "c1 = unregister_cmds cmdlist_singlearg_src b4"
  define c2 where "c2 = unregister_cmds cmdlist_singlearg_dest c1"
  define c3 where "c3 = unregister_cmds cmdlist_singlearg2 c2"
  have 1: "smap_ok caseless_string_less (ib_cmd_handlers b1)" using r(1) [OF assms] by (simp add: b1_def)
  have 2: "smap_ok caseless_string_less (ib_cmd_handlers b2)" using r(1) [OF 1] by (simp add: b2_def)
  have 3: "smap_ok caseless_string_less (ib_cmd_handlers b3)" using r(1) [OF 2] by (simp add: b3_def)
  have 4: "smap_ok caseless_string_less (ib_cmd_handlers b4)" using r(1) [OF 3] by (simp add: b4_def)
  have 5: "smap_ok caseless_string_less (ib_cmd_handlers c1)" using r(2) [OF 4] by (simp add: c1_def)
  have 6: "smap_ok caseless_string_less (ib_cmd_handlers c2)" using r(2) [OF 5] by (simp add: c2_def)
  have 7: "smap_ok caseless_string_less (ib_cmd_handlers c3)" using r(2) [OF 6] by (simp add: c3_def)
  have "get_cmd_handler m b4 = get_cmd_handler m b \<or> list_ex (\<lambda>n. same_cmd n m) strutils_names"
    using r(1) [OF assms, of m f1 cmdlist_singlearg_src] r(1) [OF 1, of m f2 cmdlist_singlearg_dest]
      r(1) [OF 2, of m f3 cmdlist_singlearg2] r(1) [OF 3, of m f4 cmdlist_regexp]
    by (auto simp: b1_def b2_def b3_def b4_def strutils_names_def)
  moreover have "get_cmd_handler m (unregister_cmds cmdlist_regexp c3) =
      (if list_ex (\<lambda>n. same_cmd n m) strutils_names then None else get_cmd_handler m b4)"
    using r(2) [OF 4, of m cmdlist_singlearg_src] r(2) [OF 5, of m cmdlist_singlearg_dest]
      r(2) [OF 6, of m cmdlist_singlearg2] r(2) [OF 7, of m cmdlist_regexp]
    by (auto simp: c1_def c2_def c3_def strutils_names_def)
  ultimately show ?thesis
    by (auto simp: mod_strutils_cleanup_def mod_strutils_init_def b1_def b2_def b3_def b4_def c1_def c2_def c3_def)
qed

end
