(* ===== verification/Sqlitedb.thy ===== *)
theory Sqlitedb
  imports Numstr
begin

text \<open>
  The database class \<open>sqlite3_db\<close> (\<open>sqlite3_db.cpp\<close>, \<open>sqlite3_db.h\<close>) around SQLite, which is a parameter: opening a
  file, preparing a statement, running it to its last row. The mutex is held over each operation, so an
  operation is one step.
\<close>

subsection \<open>The library\<close>

text \<open>
  \<open>sq_open\<close>: whether \<open>sqlite3_open\<close> gives \<open>SQLITE_OK\<close>, and the handle it stores (None for a null pointer).
  \<open>sq_prepare\<close>: the number of the statement's parameters, None for an error. \<open>sq_run\<close>: the rows that
  \<open>sqlite3_step\<close> returns for the bound texts until it returns something else than a row (None for a
  column whose text is a null pointer), and the database afterwards.
\<close>

record 'd sqlite_lib =
  sq_open :: "byte list \<Rightarrow> bool \<times> 'd option"
  sq_errmsg :: "'d \<Rightarrow> byte list"
  sq_prepare :: "'d \<Rightarrow> byte list \<Rightarrow> nat option"
  sq_run :: "'d \<Rightarrow> byte list \<Rightarrow> byte list list \<Rightarrow> byte list option list list \<times> 'd"

subsection \<open>The class\<close>

record 'd sqlite3_db =
  sd_db :: "'d option"
  sd_lasterr_str :: "byte list"

definition SQLITE3_DB_NO_ARG_STR :: "byte list" where
  "SQLITE3_DB_NO_ARG_STR = 0x01 # c_lit ''NO_ARG'' @ [0x01]"

definition sqlite3_db_new :: "'d sqlite3_db" where
  "sqlite3_db_new = \<lparr>sd_db = None, sd_lasterr_str = []\<rparr>"

definition sqlite3_db_open :: "'d sqlite_lib \<Rightarrow> byte list \<Rightarrow> 'd sqlite3_db \<Rightarrow> int \<times> 'd sqlite3_db" where
  "sqlite3_db_open S filename D =
    (if sd_db D \<noteq> None then (- 1, D)
     else
       (let (ok, h) = sq_open S (until_nul filename)
        in if \<not> ok then
             (- 1, case h of
                Some d \<Rightarrow> D\<lparr>sd_lasterr_str := sq_errmsg S d, sd_db := None\<rparr>
              | None \<Rightarrow> D\<lparr>sd_lasterr_str := c_lit ''Cannot allocate memory'', sd_db := None\<rparr>)
           else (0, D\<lparr>sd_db := h\<rparr>)))"

definition sqlite3_db_close :: "'d sqlite3_db \<Rightarrow> int \<times> 'd sqlite3_db" where
  "sqlite3_db_close D = (if sd_db D = None then (- 1, D) else (0, D\<lparr>sd_db := None\<rparr>))"

text \<open>
  \<open>query\<close> with the arguments given by the caller (eight at most, the others have the default
  \<open>SQLITE3_DB_NO_ARG_STR\<close>): the return value, what the vector \<open>result\<close> holds afterwards when it held
  \<open>ret\<close> before, and the object. How the last step ended is not looked at.
\<close>

definition query ::
  "'d sqlite_lib \<Rightarrow> byte list list list \<Rightarrow> byte list \<Rightarrow> byte list list \<Rightarrow> 'd sqlite3_db \<Rightarrow>
    int \<times> byte list list list \<times> 'd sqlite3_db" where
  "query S ret q args D =
    (case sd_db D of
       None \<Rightarrow> (- 1, ret, D)
     | Some d \<Rightarrow>
         (case sq_prepare S d q of
            None \<Rightarrow> (- 1, [], D\<lparr>sd_lasterr_str := sq_errmsg S d\<rparr>)
          | Some param_count \<Rightarrow>
              (let bound = filter (\<lambda>a. a \<noteq> SQLITE3_DB_NO_ARG_STR) args
               in if param_count \<noteq> length bound then (- 1, [], D)
                  else
                    (let (rows, d) = sq_run S d q bound
                     in (0, map (map (\<lambda>col. case col of None \<Rightarrow> [] | Some coldata \<Rightarrow> until_nul coldata)) rows,
                         D\<lparr>sd_db := Some d\<rparr>)))))"

subsection \<open>Numbers in texts\<close>

lemma digits_val_dec: "digits_val (dec_str n) = int n"
proof -
  have d: "takeWhile (\<lambda>c. 0x30 \<le> c \<and> c \<le> 0x39) (dec_str n) = dec_str n"
    using dec_str_digits by (auto simp: takeWhile_eq_all_conv)
  have digit: "uint (of_nat (48 + k) :: byte) = 48 + int k" if "k < 10" for k
    using that by (simp add: uint_nat unsigned_of_nat take_bit_nat_eq_self del: of_nat_add)
  have "foldl (\<lambda>n c. n * 10 + (uint c - 48)) 0 (dec_str n) = int n"
  proof (induction n rule: less_induct)
    case (less n)
    show ?case
    proof (cases "n < 10")
      case True
      then show ?thesis using digit [of n] by (simp add: dec_str_small del: of_nat_add)
    next
      case False
      then have "foldl (\<lambda>n c. n * 10 + (uint c - 48)) 0 (dec_str n) = int (n div 10) * 10 + int (n mod 10)"
        using less [of "n div 10"] digit [of "n mod 10"] by (simp add: dec_str_big del: of_nat_add)
      also have "\<dots> = int n" by presburger
      finally show ?thesis .
    qed
  qed
  then show ?thesis unfolding digits_val_def d .
qed

lemma c_atoi_int2string:
  assumes "0 \<le> n" "n < 2 ^ 31"
  shows "c_atoi (int2string n) = n"
proof -
  obtain c r where d: "dec_str (nat n) = c # r" "0x30 \<le> c" "c \<le> 0x39" using dec_str_head by blast
  have nul: "until_nul (dec_str (nat n)) = dec_str (nat n)"
    using dec_str_digits [of _ "nat n"] by (intro until_nul_id) (force simp: cstr_ok_def)
  have "\<not> c_isspace c" "c \<noteq> 0x2D" "c \<noteq> 0x2B" using d(2,3) by (auto simp: c_isspace_def word_le_nat_alt)
  then show ?thesis
    using assms nul d(1) digits_val_dec [of "nat n"] by (simp add: c_atoi_def int2string_full)
qed

lemma until_nul_int2string: "0 \<le> n \<Longrightarrow> n < 2 ^ 31 \<Longrightarrow> until_nul (int2string n) = int2string n"
  using dec_str_digits [of _ "nat n"] by (intro until_nul_id) (force simp: cstr_ok_def int2string_full)

text \<open>The database is open or closed: opening an open one and closing or asking a closed one are refused, and a
  query leaves it open.\<close>

lemma sqlite3_db_state:
  "sd_db D \<noteq> None \<Longrightarrow> sqlite3_db_open S f D = (- 1, D)"
  "sd_db D = None \<Longrightarrow> sqlite3_db_close D = (- 1, D)"
  "sd_db D = None \<Longrightarrow> query S ret q args D = (- 1, ret, D)"
  "sd_db (snd (snd (query S ret q args D))) = None \<longleftrightarrow> sd_db D = None"
  by (auto simp: sqlite3_db_open_def sqlite3_db_close_def query_def Let_def split: option.split prod.split)

text \<open>A text equal to the mark for a missing argument is not bound: a statement with a parameter for it fails.\<close>

lemma query_no_arg:
  assumes "sd_db D = Some d" "sq_prepare S d q = Some 1"
  shows "query S ret q [SQLITE3_DB_NO_ARG_STR] D = (- 1, [], D)"
  using assms by (simp add: query_def)

end
