(* ===== verification/Remember.thy ===== *)
theory Remember
  imports Botmod Sqlitedb
begin

text \<open>
  The memory of the bot, \<open>modules/mod_remember.cpp\<close>: words with a text each, kept in a database, and words that are
  links to other words. The database is the parameter of \<open>Sqlitedb\<close>; what its statements do to the table is
  the hypothesis \<open>remember_db\<close> of the properties. \<open>R\<close> and \<open>R8\<close> are the regular expressions on bytes and on
  UTF-8. Time and the settings are arguments.
\<close>

subsection \<open>The statements\<close>

definition q_create_data :: "byte list" where
  "q_create_data = c_lit ''CREATE TABLE IF NOT EXISTS remember_data (id int not null primary key, nick text, word text, data text, time integer default 0);''"

definition q_create_history :: "byte list" where
  "q_create_history = c_lit ''CREATE TABLE IF NOT EXISTS remember_history (id int not null primary key, pid int not null, seq int not null, nick text, word text, data text, time integer default 0);''"

definition q_find_id :: "byte list" where
  "q_find_id = c_lit ''SELECT id FROM remember_data WHERE word = ?''"

definition q_max_id :: "byte list" where
  "q_max_id = c_lit ''SELECT max(id) FROM remember_data;''"

definition q_insert :: "byte list" where
  "q_insert = c_lit ''INSERT INTO remember_data(id, nick, word, data, time) VALUES(?, ?, ?, ?, ?)''"

definition q_update :: "byte list" where
  "q_update = c_lit ''UPDATE remember_data SET nick = ?, data = ?, time = ? WHERE id = ?''"

definition q_get :: "byte list" where
  "q_get = c_lit ''SELECT nick, data FROM remember_data WHERE word = ? LIMIT 1''"

definition q_like :: "byte list" where
  "q_like = c_lit ''SELECT word FROM remember_data WHERE word LIKE ? LIMIT ?, ?''"

definition q_count :: "byte list" where
  "q_count = c_lit ''SELECT count(*) FROM remember_data''"

definition REMEMBER_DB_FILE :: "byte list" where
  "REMEMBER_DB_FILE = c_lit ''./data/remember_db.sdb''"

definition create_remember_db :: "'d sqlite_lib \<Rightarrow> 'd sqlite3_db \<Rightarrow> int \<times> 'd sqlite3_db" where
  "create_remember_db S D =
    (let (_, _, D) = query S [] q_create_data [] D;
         (_, _, D) = query S [] q_create_history [] D
     in (0, D))"

subsection \<open>Storing and looking up\<close>

definition remember ::
  "'d sqlite_lib \<Rightarrow> int \<Rightarrow> byte list \<Rightarrow> byte list \<Rightarrow> byte list \<Rightarrow> 'd sqlite3_db \<Rightarrow> int \<times> 'd sqlite3_db" where
  "remember S now nick word data D =
    (let (_, ret, D) = query S [] q_find_id [word] D
     in if ret = [] then
          (let (_, ret, D) = query S ret q_max_id [] D;
               maxid = (if ret = [] then 1 else c_atoi (ret ! 0 ! 0) + 1);
               (_, _, D) = query S [] q_insert [int2string maxid, nick, word, data, int2string now] D
           in (0, D))
        else
          (let id_str = ret ! 0 ! 0;
               (_, _, D) = query S [] q_update [nick, data, int2string now, id_str] D
           in (0, D)))"

definition re_strip_host :: "byte list" where
  "re_strip_host = c_lit ''([^!@]+).*''"

definition strip_host :: "byte pcre \<Rightarrow> byte list \<Rightarrow> byte list" where
  "strip_host R s = (case re_full R re_strip_host s of Some (nick # _) \<Rightarrow> nick | _ \<Rightarrow> s)"

text \<open>The return value, \<open>nick\<close> and \<open>desc\<close>.\<close>

definition getremdb_primitive ::
  "byte pcre \<Rightarrow> 'd sqlite_lib \<Rightarrow> byte list \<Rightarrow> 'd sqlite3_db \<Rightarrow> (int \<times> byte list \<times> byte list) \<times> 'd sqlite3_db" where
  "getremdb_primitive R S word D =
    (let (_, ret, D) = query S [] q_get [word] D
     in if ret = [] then ((- 1, [], []), D)
        else ((0, strip_host R (ret ! 0 ! 0), ret ! 0 ! 1), D))"

definition re_redir :: "byte list" where
  "re_redir = c_lit ''^link:([^ ]+)$''"

definition max_redirects :: nat where "max_redirects = 10"

definition not_found_text :: "byte list" where
  "not_found_text = [0xEC, 0xA1, 0xB4, 0xEC, 0x9E, 0xAC, 0xED, 0x95, 0x98, 0xEC, 0xA7, 0x80, 0x20, 0xEC, 0x95, 0x8A,
    0xEB, 0x8A, 0x94, 0x20, 0xEA, 0xB8, 0xB0, 0xEC, 0x96, 0xB5, 0xEC, 0x9E, 0x85, 0xEB, 0x8B, 0x88, 0xEB, 0x8B, 0xA4]"

definition error_nick :: "byte list" where
  "error_nick = [0xEC, 0x98, 0xA4, 0xEB, 0xA5, 0x98]"

text \<open>
  The loop of \<open>getremdb_v2\<close>, \<open>n\<close> turns before its end: the result, \<open>desc\<close>, \<open>nick\<close> and \<open>rword\<close> behind
  \<open>end_of_loop\<close>. The vector \<open>redir_history\<close> is not empty after the first turn.
\<close>

primrec redir_loop ::
  "byte pcre \<Rightarrow> 'd sqlite_lib \<Rightarrow> nat \<Rightarrow> byte list list \<Rightarrow> byte list \<Rightarrow> byte list \<Rightarrow> byte list \<Rightarrow> 'd sqlite3_db \<Rightarrow>
    (int \<times> byte list \<times> byte list \<times> byte list) \<times> 'd sqlite3_db" where
  "redir_loop R S 0 redir_history rword nick desc D =
    ((- 1, nick, [0xEC, 0x97, 0xB0, 0xEA, 0xB2, 0xB0, 0x20, 0xED, 0x9A, 0x9F, 0xEC, 0x88, 0x98, 0x20, 0xEC, 0xA0,
      0x9C, 0xED, 0x95, 0x9C, 0xEC, 0x9D, 0x84, 0x20, 0xEC, 0xB4, 0x88, 0xEA, 0xB3, 0xBC, 0xED, 0x96, 0x88, 0xEC,
      0x8A, 0xB5, 0xEB, 0x8B, 0x88, 0xEB, 0x8B, 0xA4], rword), D)"
| "redir_loop R S (Suc n) redir_history rword nick desc D =
    (let ((ret, nick, desc), D) = getremdb_primitive R S rword D
     in if ret < 0 then
          ((- 1, nick,
            if redir_history \<noteq> [] then
              [0xEC, 0xA1, 0xB4, 0xEC, 0x9E, 0xAC, 0xED, 0x95, 0x98, 0xEC, 0xA7, 0x80, 0x20, 0xEC, 0x95, 0x8A, 0xEB,
                0x8A, 0x94, 0x20, 0xEA, 0xB0, 0x92, 0xEC, 0x9C, 0xBC, 0xEB, 0xA1, 0x9C, 0x20, 0x72, 0x65, 0x64,
                0x69, 0x72, 0x65, 0x63, 0x74, 0xED, 0x95, 0xA0, 0x20, 0xEC, 0x88, 0x98, 0x20, 0xEC, 0x97, 0x86,
                0xEC, 0x8A, 0xB5, 0xEB, 0x8B, 0x88, 0xEB, 0x8B, 0xA4, 0x3A,
                0x20] @ last redir_history @ c_lit '' -> '' @ rword
            else not_found_text, rword), D)
        else case re_full R re_redir desc of
          Some (tmp # _) \<Rightarrow>
            if tmp \<in> set redir_history then ((- 1, nick, [0xEC, 0x9E, 0xAC, 0xEA, 0xB7, 0x80, 0xEC, 0xA0, 0x81,
              0x20, 0xEC, 0x97, 0xB0, 0xEA, 0xB2, 0xB0, 0xEC, 0x9D, 0x80, 0x20, 0xEA, 0xB8, 0x88, 0xEC, 0xA7, 0x80,
              0xEB, 0x90, 0x98, 0xEC, 0x96, 0xB4, 0xEC, 0x9E, 0x88, 0xEC, 0x8A, 0xB5, 0xEB, 0x8B, 0x88, 0xEB, 0x8B,
              0xA4], rword), D)
            else redir_loop R S n (redir_history @ [rword]) tmp nick desc D
        | _ \<Rightarrow> ((0, nick, desc, rword), D))"

text \<open>The return value, \<open>nick\<close>, \<open>desc\<close> and \<open>realword\<close>.\<close>

definition getremdb_v2 ::
  "byte pcre \<Rightarrow> 'd sqlite_lib \<Rightarrow> byte list \<Rightarrow> 'd sqlite3_db \<Rightarrow>
    (int \<times> byte list \<times> byte list \<times> byte list) \<times> 'd sqlite3_db" where
  "getremdb_v2 R S word D =
    (let ((result, nick, desc, rword), D) = redir_loop R S max_redirects [] word [] [] D
     in ((result, if result < 0 then error_nick else nick, desc, rword), D))"

definition getremdb ::
  "byte pcre \<Rightarrow> 'd sqlite_lib \<Rightarrow> byte list \<Rightarrow> 'd sqlite3_db \<Rightarrow> (byte list \<times> byte list) \<times> 'd sqlite3_db" where
  "getremdb R S word D =
    (let ((ret, nick, desc, _), D) = getremdb_v2 R S word D in ((if ret < 0 then [] else nick, desc), D))"

definition srchremdb ::
  "'d sqlite_lib \<Rightarrow> byte list \<Rightarrow> int \<Rightarrow> int \<Rightarrow> byte list list \<Rightarrow> 'd sqlite3_db \<Rightarrow> byte list list \<times> 'd sqlite3_db" where
  "srchremdb S word start cnt dest D =
    (let (_, ret, D) = query S [] q_like [0x25 # word @ [0x25], int2string start, int2string cnt] D
     in (dest @ map (\<lambda>row. row ! 0) ret, D))"

subsection \<open>Commands\<close>

definition re_word_data :: "byte list" where
  "re_word_data = c_lit ''([^ ]+) (.*)''"

definition josa_object :: "byte list" where
  "josa_object = [0xEC, 0x9D, 0x84, 0xEB, 0xA5, 0xBC]"

definition cmd_remember ::
  "byte pcre \<Rightarrow> byte pcre \<Rightarrow> 'd sqlite_lib \<Rightarrow> int \<Rightarrow> byte list \<Rightarrow> byte list \<Rightarrow> byte list \<Rightarrow> 'd sqlite3_db \<Rightarrow>
    (int \<times> 'f reply list) \<times> 'd sqlite3_db" where
  "cmd_remember R R8 S now ident cmd carg D =
    (case re_full R8 re_word_data carg of
       Some (word # data # _) \<Rightarrow>
         (let ((prevdata_ret, nick, desc, realword), D) = getremdb_v2 R S word D;
              (_, D) = remember S now ident word data D;
              josa = select_josa R word josa_object
          in ((0, [if prevdata_ret < 0 then Privmsg_nh (word @ josa @ [0x20, 0xEA, 0xB8, 0xB0, 0xEC, 0x96, 0xB5,
            0xED, 0x96, 0x88, 0xEC, 0x8A, 0xB5, 0xEB, 0x8B, 0x88, 0xEB, 0x8B, 0xA4, 0x2E])
                   else if word = realword then
                     Privmsgf_nh [0x25, 0x73, 0x25, 0x73, 0x20, 0xEA, 0xB8, 0xB0, 0xEC, 0x96, 0xB5, 0xED, 0x96,
                       0x88, 0xEC, 0x8A, 0xB5, 0xEB, 0x8B, 0x88, 0xEB, 0x8B, 0xA4, 0x2E, 0x20, 0x28, 0xEA, 0xB8,
                       0xB0, 0xEC, 0xA1, 0xB4, 0x20, 0xEB, 0x8D, 0xB0, 0xEC, 0x9D, 0xB4, 0xED, 0x84, 0xB0, 0x20,
                       0xEB, 0x8D, 0xAE, 0xEC, 0x96, 0xB4, 0xEC, 0x94, 0x80, 0x29] [Arg_str (Some word),
                       Arg_str (Some josa)]
                   else
                     Privmsgf_nh
                       [0x25, 0x73, 0x25, 0x73, 0x20, 0xEA, 0xB8, 0xB0, 0xEC, 0x96, 0xB5, 0xED, 0x96, 0x88, 0xEC,
                         0x8A, 0xB5, 0xEB, 0x8B, 0x88, 0xEB, 0x8B, 0xA4, 0x2E, 0x20, 0x28, 0xEC, 0xA3, 0xBC, 0xEC,
                         0x9D, 0x98, 0x3A, 0x20, 0x25, 0x73, 0xEB, 0xA1, 0x9C, 0xEC, 0x9D, 0x98, 0x20, 0xEC, 0x97,
                         0xB0, 0xEA, 0xB2, 0xB0, 0xEC, 0x9D, 0x84, 0x20, 0xEB, 0x8D, 0xAE, 0xEC, 0x96, 0xB4, 0xEC,
                         0x8D, 0xBC, 0xEC, 0x8A, 0xB5, 0xEB, 0x8B, 0x88, 0xEB, 0x8B, 0xA4, 0x2E, 0x20, 0xEB, 0xB3,
                         0xB5, 0xEA, 0xB5, 0xAC, 0xED, 0x95, 0x98, 0xEB, 0xA0, 0xA4, 0xEB, 0xA9, 0xB4, 0x20, 0x02,
                         0x21, 0xEC, 0x97, 0xB0, 0xEA, 0xB2, 0xB0, 0x20, 0x25, 0x73, 0x20, 0x25, 0x73, 0x0F, 0xEB,
                         0xA5, 0xBC, 0x20, 0xEC, 0x9E, 0x85, 0xEB, 0xA0, 0xA5, 0xED, 0x95, 0x9C, 0x20, 0xED, 0x9B,
                         0x84, 0x20, 0x02, 0x21, 0xEA, 0xB8, 0xB0, 0xEC, 0x96, 0xB5, 0x20, 0x25, 0x73, 0x20, 0x3C,
                         0xEB, 0x82, 0xB4, 0xEC, 0x9A, 0xA9, 0x3E, 0x0F, 0xEC, 0x9D, 0x84, 0x20, 0xED, 0x95, 0xB4,
                         0xEC, 0xA3, 0xBC, 0xEC, 0x84, 0xB8, 0xEC, 0x9A, 0x94, 0x29]
                       [Arg_str (Some word), Arg_str (Some josa), Arg_str (Some realword), Arg_str (Some word),
                        Arg_str (Some realword), Arg_str (Some realword)]]), D))
     | _ \<Rightarrow> ((0, [Privmsg ([0xEC, 0x82, 0xAC, 0xEC, 0x9A, 0xA9, 0xEB, 0xB2, 0x95, 0x3A, 0x20,
       0x21] @ cmd @ [0x20, 0x3C, 0xEB, 0x8B, 0xA8, 0xEC, 0x96, 0xB4, 0x3E, 0x20, 0x3C, 0xEB, 0x82, 0xB4, 0xEC,
       0x9A, 0xA9, 0x3E])]), D))"

definition re_strip_space :: "byte list" where
  "re_strip_space = c_lit ''[ ]''"

definition cmd_whatis ::
  "byte pcre \<Rightarrow> byte pcre \<Rightarrow> 'd sqlite_lib \<Rightarrow> byte list \<Rightarrow> byte list \<Rightarrow> 'd sqlite3_db \<Rightarrow>
    (int \<times> 'f reply list) \<times> 'd sqlite3_db" where
  "cmd_whatis R R8 S cmd carg D =
    (if carg = [] then ((0, [Privmsg ([0xEC, 0x82, 0xAC, 0xEC, 0x9A, 0xA9, 0xEB, 0xB2, 0x95, 0x3A, 0x20,
      0x21] @ cmd @ [0x20, 0x3C, 0xEB, 0x8B, 0xA8, 0xEC, 0x96, 0xB4, 0x3E])]), D)
     else
       (let word = re_global_replace R8 re_strip_space [] carg;
            ((ret, nick, desc, realword), D) = getremdb_v2 R S word D
        in if ret < 0 then
             (let desc = (if desc = not_found_text then
                  desc @ [0x2E, 0x20, 0x02, 0x21, 0x69, 0xEC, 0x95, 0x8C, 0xEB, 0xA0, 0xA4, 0x20] @ word @ [0x0F,
                    0x20] @ select_josa R word josa_object @
                    [0x20, 0xEC, 0x93, 0xB0, 0xEB, 0xA9, 0xB4, 0x20, 0xEC, 0x9D, 0xB8, 0xED, 0x81, 0xB4, 0xEB, 0xB4,
                      0x87, 0xEC, 0x9D, 0x98, 0x20, 0xEA, 0xB8, 0xB0, 0xEC, 0x96, 0xB5, 0x20, 0xEB, 0x8D, 0xB0,
                      0xEC, 0x9D, 0xB4, 0xED, 0x84, 0xB0, 0xEB, 0xA5, 0xBC, 0x20, 0xEB, 0xB3, 0xBC, 0x20, 0xEC,
                      0x88, 0x98, 0x20, 0xEC, 0x9E, 0x88, 0xEC, 0x8A, 0xB5, 0xEB, 0x8B, 0x88, 0xEB, 0x8B, 0xA4, 0x2E]
                else desc)
              in ((0, [Privmsg_nh ([0xEC, 0x98, 0xA4, 0xEB, 0xA5, 0x98, 0x3A, 0x20] @ desc)]), D))
           else
             (let realword = (if word \<noteq> realword then word @ [0x28] @ realword @ [0x29] else realword)
              in ((0, [Privmsgf_nh [0x25, 0x2E, 0x35, 0x30, 0x73, 0x3A, 0x20, 0x25, 0x2E, 0x35, 0x30, 0x30, 0x73,
                0x20, 0x25, 0x73, 0xEB, 0x9D, 0xBC, 0xEA, 0xB3, 0xA0, 0x20, 0x25, 0x73, 0x25, 0x73, 0x20, 0xEC,
                0x95, 0x8C, 0xEB, 0xA0, 0xA4, 0xEC, 0xA3, 0xBC, 0xEC, 0x97, 0x88, 0xEC, 0x96, 0xB4, 0xEC, 0x9A,
                0x94, 0x2E]
                    [Arg_str (Some realword), Arg_str (Some desc), Arg_str (Some (select_josa R desc [0xEC, 0x9D,
                      0xB4])),
                     Arg_str (Some nick), Arg_str (Some (select_josa R nick [0xEC, 0x9D, 0xB4, 0xEA, 0xB0,
                       0x80]))]]), D))))"

definition cmd_append ::
  "byte pcre \<Rightarrow> byte pcre \<Rightarrow> 'd sqlite_lib \<Rightarrow> int \<Rightarrow> byte list \<Rightarrow> byte list \<Rightarrow> byte list \<Rightarrow> 'd sqlite3_db \<Rightarrow>
    (int \<times> 'f reply list) \<times> 'd sqlite3_db" where
  "cmd_append R R8 S now ident cmd carg D =
    (case re_full R8 re_word_data carg of
       Some (word # data # _) \<Rightarrow>
         (let word = re_global_replace R8 re_strip_space [] word;
              ((ret, nick, desc, realword), D) = getremdb_v2 R S word D
          in if ret < 0 then ((0, [Privmsg_nh ([0xEC, 0x98, 0xA4, 0xEB, 0xA5, 0x98, 0x3A, 0x20] @ desc)]), D)
             else
               (let (_, D) = remember S now ident realword (desc @ c_lit '' | '' @ data) D;
                    done_text = realword @ select_josa R realword josa_object @ [0x20, 0xEA, 0xB8, 0xB0, 0xEC, 0x96,
                      0xB5, 0xED, 0x96, 0x88, 0xEC, 0x8A, 0xB5, 0xEB, 0x8B, 0x88, 0xEB, 0x8B, 0xA4, 0x2E]
                in ((0, [Privmsg_nh (if word = realword then done_text
                       else done_text @ c_lit '' ('' @ word @ c_lit '' -> '' @ realword @ c_lit '')'')]), D)))
     | _ \<Rightarrow> ((0, [Privmsg ([0xEC, 0x82, 0xAC, 0xEC, 0x9A, 0xA9, 0xEB, 0xB2, 0x95, 0x3A, 0x20,
       0x21] @ cmd @ [0x20, 0x3C, 0xEB, 0x8B, 0xA8, 0xEC, 0x96, 0xB4, 0x3E, 0x20, 0x3C, 0xEB, 0x8D, 0xA7, 0xEB,
       0xB6, 0x99, 0xEC, 0x9D, 0xBC, 0x20, 0xEB, 0x82, 0xB4, 0xEC, 0x9A, 0xA9, 0x3E])]), D))"

text \<open>
  The loop of \<open>cmd_find\<close> over the words found, from the \<open>i\<close>-th on, while \<open>i\<close> is below \<open>stop\<close>; \<open>line\<close> is
  \<open>remdbsrchret\<close>. The results are the lines sent, the rest of the line and the words left.
\<close>

definition maxitemsperline :: int where "maxitemsperline = 20"

fun find_lines :: "byte list list \<Rightarrow> int \<Rightarrow> int \<Rightarrow> byte list \<Rightarrow> byte list list \<times> byte list \<times> byte list list" where
  "find_lines [] i stop line = ([], line, [])"
| "find_lines (w # ws) i stop line =
    (if i < stop then
       (let line = line @ w @ c_lit '', ''
        in if (i + 1) mod maxitemsperline = 0 then
             (let (out, line', rest) = find_lines ws (i + 1) stop [] in (line # out, line', rest))
           else find_lines ws (i + 1) stop line)
     else ([], line, w # ws))"

definition re_find :: "byte list" where
  "re_find = c_lit ''([^ ]+)(?: ([0-9]+))?''"

text \<open>\<open>Match\<close> fills both strings, the second with the empty string when its group has not taken part.\<close>

definition cmd_find ::
  "byte pcre \<Rightarrow> byte pcre \<Rightarrow> 'd sqlite_lib \<Rightarrow> int \<Rightarrow> byte list \<Rightarrow> byte list \<Rightarrow> 'd sqlite3_db \<Rightarrow>
    (int \<times> 'f reply list) \<times> 'd sqlite3_db" where
  "cmd_find R R8 S max_lines_per_cmd cmd carg D =
    (case re_partial R8 re_find carg of
       Some (tmp # tmp2 # _) \<Rightarrow>
         (let tmp = re_global_replace R (c_lit ''%'') [] tmp
          in if tmp = [] then ((0, [Privmsg [0xEA, 0xB2, 0x80, 0xEC, 0x83, 0x89, 0xEC, 0x96, 0xB4, 0xEB, 0xA5, 0xBC,
            0x20, 0xEC, 0x9E, 0x85, 0xEB, 0xA0, 0xA5, 0xED, 0x95, 0x98, 0xEC, 0x84, 0xB8, 0xEC, 0x9A, 0x94]]), D)
             else
               (let tmp2 = (if tmp2 = [] then c_lit ''1'' else tmp2); srchstart = c_atoi tmp2 - 1
                in if srchstart < 0 \<or> srchstart > 9
                   then ((0, [Privmsg [0xED, 0x8E, 0x98, 0xEC, 0x9D, 0xB4, 0xEC, 0xA7, 0x80, 0xEA, 0xB0, 0x80, 0x20,
                     0xEB, 0x84, 0x88, 0xEB, 0xAC, 0xB4, 0x20, 0xEC, 0x9E, 0x91, 0xEA, 0xB1, 0xB0, 0xEB, 0x82, 0x98,
                     0x20, 0xED, 0x81, 0xBD, 0xEB, 0x8B, 0x88, 0xEB, 0x8B, 0xA4, 0x2E, 0x20, 0x28, 0x31, 0x20, 0x7E,
                     0x20, 0x31, 0x30, 0x29]]), D)
                   else
                     (let (remdbsrch, D) = srchremdb S tmp (srchstart * max_lines_per_cmd * maxitemsperline)
                            (max_lines_per_cmd * maxitemsperline + 1) [] D;
                          (out, line, rest) = find_lines remdbsrch 0 ((max_lines_per_cmd - 1) * maxitemsperline) []
                      in ((0, (if remdbsrch = [] then [Privmsg_nh (0x20 # tmp @ [0xEC, 0x97, 0x90, 0x20, 0xEB, 0x8C,
                        0x80, 0xED, 0x95, 0x9C, 0x20, 0xEA, 0xB2, 0x80, 0xEC, 0x83, 0x89, 0xEA, 0xB2, 0xB0, 0xEA,
                        0xB3, 0xBC, 0xEA, 0xB0, 0x80, 0x20, 0xEC, 0x97, 0x86, 0xEC, 0x8A, 0xB5, 0xEB, 0x8B, 0x88,
                        0xEB, 0x8B, 0xA4, 0x2E])] else []) @
                             map (\<lambda>l. Privmsg_nh (0x20 # l)) out @
                             (if line \<noteq> [] then [Privmsg_nh (0x20 # line)] else []) @
                             (if rest \<noteq> [] then
                                [Privmsg_nh ([0xEB, 0x8B, 0xA4, 0xEC, 0x9D, 0x8C, 0x20, 0xED, 0x8E, 0x98, 0xEC,
                                  0x9D, 0xB4, 0xEC, 0xA7, 0x80, 0x3A, 0x20,
                                  0x21] @ cmd @ c_lit '' '' @ tmp @ c_lit '' '' @
                                   int2string (srchstart + 2))] else [])), D))))
     | _ \<Rightarrow> ((0, [Privmsg ([0xEC, 0x82, 0xAC, 0xEC, 0x9A, 0xA9, 0xEB, 0xB2, 0x95, 0x3A, 0x20,
       0x21] @ cmd @ [0x20, 0x3C, 0xEB, 0x8B, 0xA8, 0xEC, 0x96, 0xB4, 0x3E]), Privmsg ([0xEC, 0x82, 0xAC, 0xEC,
       0x9A, 0xA9, 0xEB, 0xB2, 0x95, 0x3A, 0x20, 0x21] @ cmd @ [0x20, 0x3C, 0xEB, 0x8B, 0xA8, 0xEC, 0x96, 0xB4,
       0x3E, 0x20, 0x5B, 0xED, 0x8E, 0x98, 0xEC, 0x9D, 0xB4, 0xEC, 0xA7, 0x80, 0x5D])]), D))"

definition re_validate_link :: "byte list" where
  "re_validate_link = c_lit ''^[^ ]+$''"

definition cmd_link ::
  "byte pcre \<Rightarrow> byte pcre \<Rightarrow> 'd sqlite_lib \<Rightarrow> int \<Rightarrow> byte list \<Rightarrow> byte list \<Rightarrow> byte list \<Rightarrow> 'd sqlite3_db \<Rightarrow>
    (int \<times> 'f reply list) \<times> 'd sqlite3_db" where
  "cmd_link R R8 S now ident cmd carg D =
    (case re_full R8 re_word_data carg of
       Some (word # data # _) \<Rightarrow>
         (if re_full R8 re_validate_link data = None
          then ((0, [Privmsg_nh [0xED, 0x98, 0x95, 0xEC, 0x8B, 0x9D, 0xEC, 0x9D, 0xB4, 0x20, 0xEC, 0x9E, 0x98, 0xEB,
            0xAA, 0xBB, 0xEB, 0x90, 0x98, 0xEC, 0x97, 0x88, 0xEC, 0x8A, 0xB5, 0xEB, 0x8B, 0x88, 0xEB, 0x8B, 0xA4,
            0x2E, 0x20, 0xEA, 0xB8, 0xB0, 0xEC, 0x96, 0xB5, 0x20, 0xEC, 0x9D, 0xB4, 0xEB, 0xA6, 0x84, 0xEC, 0x97,
            0x90, 0x20, 0x27, 0x20, 0x27, 0xEA, 0xB0, 0x80, 0x20, 0xEC, 0x98, 0xAC, 0x20, 0xEC, 0x88, 0x98, 0x20,
            0xEC, 0x97, 0x86, 0xEC, 0x8A, 0xB5, 0xEB, 0x8B, 0x88, 0xEB, 0x8B, 0xA4, 0x2E]]), D)
          else
            (let (_, D) = remember S now ident word (c_lit ''link:'' @ data) D
             in ((0, [Privmsg_nh (word @ select_josa R word josa_object @ c_lit '' '' @ data @ select_josa R data [0xEC, 0x9C, 0xBC] @
                        [0xEB, 0xA1, 0x9C, 0x20, 0xEC, 0x97, 0xB0, 0xEA, 0xB2, 0xB0, 0xED, 0x96, 0x88, 0xEC, 0x8A,
                          0xB5, 0xEB, 0x8B, 0x88, 0xEB, 0x8B, 0xA4, 0x2E])]), D)))
     | _ \<Rightarrow> ((0, [Privmsg ([0xEC, 0x82, 0xAC, 0xEC, 0x9A, 0xA9, 0xEB, 0xB2, 0x95, 0x3A, 0x20,
       0x21] @ cmd @ [0x20, 0x3C, 0xEB, 0x8B, 0xA8, 0xEC, 0x96, 0xB4, 0x3E, 0x20, 0x3C, 0xEC, 0x97, 0xB0, 0xEA,
       0xB2, 0xB0, 0xED, 0x95, 0xA0, 0x20, 0xEA, 0xB8, 0xB0, 0xEC, 0x96, 0xB5, 0x20, 0xEC, 0x9D, 0xB4, 0xEB, 0xA6,
       0x84, 0x3E])]), D))"

definition cmd_delete :: "byte list \<Rightarrow> byte list \<Rightarrow> int \<times> 'f reply list" where
  "cmd_delete cmd carg = (0, [Privmsg [0x60, 0x21, 0xEA, 0xB8, 0xB0, 0xEC, 0x96, 0xB5, 0xED, 0x95, 0xB4, 0x27, 0x20,
    0xEB, 0xA1, 0x9C, 0x20, 0xEB, 0x8D, 0xAE, 0xEC, 0x96, 0xB4, 0xEC, 0x93, 0xB0, 0xEB, 0xA9, 0xB4, 0x20, 0xEC,
    0xA7, 0x80, 0xEC, 0x9B, 0x8C, 0xEC, 0xA7, 0x91, 0xEB, 0x8B, 0x88, 0xEB, 0x8B, 0xA4, 0x2E]])"

definition cmd_nofdata :: "'d sqlite_lib \<Rightarrow> 'd sqlite3_db \<Rightarrow> (int \<times> 'f reply list) \<times> 'd sqlite3_db" where
  "cmd_nofdata S D =
    (let (_, ret, D) = query S [] q_count [] D; n = (if ret \<noteq> [] then c_atoi (ret ! 0 ! 0) else 0)
     in ((0, [Privmsgf [0x25, 0x64, 0x20, 0xEA, 0xB0, 0x9C, 0xEC, 0x9D, 0x98, 0x20, 0xEA, 0xB8, 0xB0, 0xEC, 0x96,
       0xB5, 0x20, 0xEB, 0x8D, 0xB0, 0xEC, 0x9D, 0xB4, 0xED, 0x84, 0xB0, 0xEA, 0xB0, 0x80, 0x20, 0xEC, 0x9E, 0x88,
       0xEC, 0x8A, 0xB5, 0xEB, 0x8B, 0x88, 0xEB, 0x8B, 0xA4, 0x2E] [Arg_int (of_int n)]]), D))"

text \<open>The commands by the address of their callbacks.\<close>

definition remember_cmds :: "(nat \<times> byte list) list" where
  "remember_cmds =
   [(0, [0xEA, 0xB8, 0xB0, 0xEC, 0x96, 0xB5, 0xED, 0x95, 0xB4]), (0, [0xEA, 0xB8, 0xB0, 0xEC, 0x96, 0xB5]), (0,
     [0x6C, 0x65, 0x61, 0x72, 0x6E]), (0, [0x72, 0x65, 0x6D, 0x65, 0x6D, 0x62, 0x65, 0x72]), (1, [0xEC, 0x95, 0x8C,
     0xEB, 0xA0, 0xA4, 0xEC, 0xA4, 0x98]), (1, [0xEC, 0x95, 0x8C, 0xEB, 0xA0, 0xA4]), (1, [0x77, 0x68, 0x61, 0x74,
     0x69, 0x73]),
    (2, [0xEC, 0xB0, 0xBE, 0xEC, 0x95, 0x84, 0xEC, 0xA4, 0x98]), (2, [0xEC, 0xB0, 0xBE, 0xEC, 0x95, 0x84]), (2,
      [0x66, 0x69, 0x6E, 0x64]), (3, [0xEB, 0x8D, 0xA7, 0xEB, 0xB6, 0x99, 0xEC, 0x97, 0xAC]), (3, [0xEB, 0x8D, 0xA7,
      0xEB, 0xB6, 0x99]), (3, [0x61, 0x70, 0x70, 0x65, 0x6E, 0x64]), (4, [0xEC, 0x97, 0xB0, 0xEA, 0xB2, 0xB0]),
    (5, [0xEC, 0x9E, 0x8A, 0xEC, 0x96, 0xB4, 0xEC, 0xA4, 0x98]), (5, [0xEC, 0x9E, 0x8A, 0xEC, 0x96, 0xB4]), (5,
      [0xEC, 0xA7, 0x80, 0xEC, 0x9B, 0x8C, 0xEC, 0xA4, 0x98]), (5, [0xEC, 0xA7, 0x80, 0xEC, 0x9B, 0x8C]), (6, [0xEA,
      0xB8, 0xB0, 0xEC, 0x96, 0xB5, 0xEA, 0xB0, 0x9C, 0xEC, 0x88, 0x98])]"

definition mod_remember_init ::
  "'d sqlite_lib \<Rightarrow> (nat \<Rightarrow> nat) \<Rightarrow> 'd sqlite3_db \<times> 'w ircbot \<Rightarrow> int \<times> 'd sqlite3_db \<times> 'w ircbot" where
  "mod_remember_init S addr = (\<lambda>(D, b).
    (let (_, D) = sqlite3_db_open S REMEMBER_DB_FILE D; (_, D) = create_remember_db S D
     in (0, D, foldl (\<lambda>b (k, name). snd (register_cmd name (Some (addr k)) 0 b)) b remember_cmds)))"

definition mod_remember_cleanup :: "'d sqlite3_db \<times> 'w ircbot \<Rightarrow> int \<times> 'd sqlite3_db \<times> 'w ircbot" where
  "mod_remember_cleanup = (\<lambda>(D, b).
    (let (_, D) = sqlite3_db_close D in (0, D, unregister_cmds (map snd remember_cmds) b)))"


subsection \<open>What the database promises\<close>

text \<open>
  The table \<open>remember_data\<close> as a list of rows. \<open>remember_db S tbl\<close> is what SQLite documents for the statements above on
  a table \<open>tbl d\<close> that satisfies \<open>rem_ok\<close>; in such a table no word occurs twice, so that the order of the rows
  does not matter where one is looked up.
\<close>

record rem_row =
  rr_id :: int
  rr_nick :: "byte list"
  rr_word :: "byte list"
  rr_data :: "byte list"
  rr_time :: "byte list"

definition rem_row_ok :: "rem_row \<Rightarrow> bool" where
  "rem_row_ok r \<longleftrightarrow> 1 \<le> rr_id r \<and> rr_id r < 2 ^ 31 \<and> cstr_ok (rr_nick r) \<and> cstr_ok (rr_data r) \<and> cstr_ok (rr_word r) \<and>
    rr_word r \<noteq> SQLITE3_DB_NO_ARG_STR"

definition rem_ok :: "rem_row list \<Rightarrow> bool" where
  "rem_ok rows \<longleftrightarrow> distinct (map rr_id rows) \<and> distinct (map rr_word rows) \<and> list_all rem_row_ok rows"

definition rem_params :: "'d sqlite_lib \<Rightarrow> 'd \<Rightarrow> bool" where
  "rem_params S d \<longleftrightarrow> sq_prepare S d q_find_id = Some 1 \<and> sq_prepare S d q_max_id = Some 0 \<and>
    sq_prepare S d q_insert = Some 5 \<and> sq_prepare S d q_update = Some 4 \<and> sq_prepare S d q_get = Some 1"

definition rem_selects :: "'d sqlite_lib \<Rightarrow> ('d \<Rightarrow> rem_row list) \<Rightarrow> 'd \<Rightarrow> bool" where
  "rem_selects S tbl d \<longleftrightarrow>
    (\<forall>w. fst (sq_run S d q_find_id [w]) = map (\<lambda>r. [Some (int2string (rr_id r))]) (filter (\<lambda>r. rr_word r = w) (tbl d)) \<and>
      tbl (snd (sq_run S d q_find_id [w])) = tbl d) \<and>
    (\<forall>w. fst (sq_run S d q_get [w]) =
        map (\<lambda>r. [Some (rr_nick r), Some (rr_data r)]) (take 1 (filter (\<lambda>r. rr_word r = w) (tbl d))) \<and>
      tbl (snd (sq_run S d q_get [w])) = tbl d) \<and>
    fst (sq_run S d q_max_id []) =
      [[if tbl d = [] then None else Some (int2string (Max (set (map rr_id (tbl d)))))]] \<and>
    tbl (snd (sq_run S d q_max_id [])) = tbl d"

definition rem_changes :: "'d sqlite_lib \<Rightarrow> ('d \<Rightarrow> rem_row list) \<Rightarrow> 'd \<Rightarrow> bool" where
  "rem_changes S tbl d \<longleftrightarrow>
    (\<forall>i n w x t. tbl (snd (sq_run S d q_insert [i, n, w, x, t])) =
      (if c_atoi i \<in> set (map rr_id (tbl d)) then tbl d
       else tbl d @ [\<lparr>rr_id = c_atoi i, rr_nick = n, rr_word = w, rr_data = x, rr_time = t\<rparr>])) \<and>
    (\<forall>n x t i. tbl (snd (sq_run S d q_update [n, x, t, i])) =
      map (\<lambda>r. if rr_id r = c_atoi i then r\<lparr>rr_nick := n, rr_data := x, rr_time := t\<rparr> else r) (tbl d))"

definition remember_db :: "'d sqlite_lib \<Rightarrow> ('d \<Rightarrow> rem_row list) \<Rightarrow> bool" where
  "remember_db S tbl \<longleftrightarrow> (\<forall>d. rem_ok (tbl d) \<longrightarrow> rem_params S d \<and> rem_selects S tbl d \<and> rem_changes S tbl d)"

text \<open>The memory as a map from words to the nick that has taught them and their text.\<close>

definition lookup :: "rem_row list \<Rightarrow> byte list \<Rightarrow> (byte list \<times> byte list) option" where
  "lookup rows w = map_option (\<lambda>r. (rr_nick r, rr_data r)) (find (\<lambda>r. rr_word r = w) rows)"

lemma find_filter: "find P xs = (case filter P xs of [] \<Rightarrow> None | x # _ \<Rightarrow> Some x)"
  by (induction xs) auto

lemma lookup_row: "r \<in> set rows \<Longrightarrow> rem_ok rows \<Longrightarrow> lookup rows (rr_word r) = Some (rr_nick r, rr_data r)"
proof (induction rows)
  case (Cons x rows)
  then show ?case by (cases "r = x") (auto simp: lookup_def rem_ok_def image_iff)
qed simp

lemma lookup_None: "lookup rows w = None \<longleftrightarrow> w \<notin> set (map rr_word rows)"
  by (auto simp: lookup_def find_None_iff)

lemma int2string_arg: "int2string n \<noteq> SQLITE3_DB_NO_ARG_STR"
proof -
  obtain c r where d: "dec_str (nat \<bar>n\<bar>) = c # r" "0x30 \<le> c" using dec_str_head by blast
  then have "hd (int2string n) \<noteq> 1" by (auto simp: int2string_def word_le_nat_alt)
  then show ?thesis by (auto simp: SQLITE3_DB_NO_ARG_STR_def)
qed

lemma query_run:
  assumes "sd_db D = Some d" "sq_prepare S d q = Some (length args)" "list_all (\<lambda>a. a \<noteq> SQLITE3_DB_NO_ARG_STR) args"
  shows "query S ret q args D =
    (0, map (map (\<lambda>col. case col of None \<Rightarrow> [] | Some coldata \<Rightarrow> until_nul coldata)) (fst (sq_run S d q args)),
     D\<lparr>sd_db := Some (snd (sq_run S d q args))\<rparr>)"
proof -
  have "filter (\<lambda>a. a \<noteq> SQLITE3_DB_NO_ARG_STR) args = args"
    using assms(3) by (simp add: filter_id_conv list_all_iff)
  then show ?thesis using assms(1,2) by (simp add: query_def Let_def case_prod_beta)
qed

lemma getremdb_primitive_lookup:
  assumes "remember_db S tbl" "sd_db D = Some d" "rem_ok (tbl d)"
  shows "\<exists>d'. tbl d' = tbl d \<and> getremdb_primitive R S word D =
    ((case lookup (tbl d) word of None \<Rightarrow> (- 1, [], []) | Some (nick, data) \<Rightarrow> (0, strip_host R nick, data)),
     D\<lparr>sd_db := Some d'\<rparr>)"
proof -
  have law: "rem_params S d" "rem_selects S tbl d" using assms by (auto simp: remember_db_def)
  show ?thesis
  proof (cases "word = SQLITE3_DB_NO_ARG_STR")
    case True
    then have "query S [] q_get [word] D = (- 1, [], D)"
      using law(1) assms(2) by (simp add: rem_params_def query_no_arg del: One_nat_def)
    moreover have "lookup (tbl d) word = None"
      using assms(3) True by (auto simp: lookup_None rem_ok_def rem_row_ok_def list_all_iff)
    ultimately show ?thesis using assms(2) by (intro exI [of _ d]) (simp add: getremdb_primitive_def)
  next
    case False
    define d' where "d' = snd (sq_run S d q_get [word])"
    let ?rows = "filter (\<lambda>r. rr_word r = word) (tbl d)"
    have rows: "fst (sq_run S d q_get [word]) = map (\<lambda>r. [Some (rr_nick r), Some (rr_data r)]) (take 1 ?rows)"
      and tbl: "tbl d' = tbl d"
      using law(2) by (auto simp: rem_selects_def d'_def)
    have q: "query S [] q_get [word] D =
        (0, map (\<lambda>r. [until_nul (rr_nick r), until_nul (rr_data r)]) (take 1 ?rows), D\<lparr>sd_db := Some d'\<rparr>)"
      using query_run [OF assms(2), of S q_get "[word]" "[]"] law(1) False
      by (simp add: rem_params_def rows d'_def del: take_Suc)
    have "until_nul (rr_nick r) = rr_nick r \<and> until_nul (rr_data r) = rr_data r" if "r \<in> set (tbl d)" for r
      using that assms(3) by (auto simp: rem_ok_def rem_row_ok_def list_all_iff until_nul_id)
    then show ?thesis
      using q tbl by (intro exI [of _ d'])
        (cases ?rows; force simp: getremdb_primitive_def lookup_def find_filter filter_eq_Cons_iff)
  qed
qed


subsection \<open>Following links\<close>

definition link_target :: "byte list \<Rightarrow> byte list option" where
  "link_target s =
    (if take 5 s = c_lit ''link:'' \<and> drop 5 s \<noteq> [] \<and> 0x20 \<notin> set (drop 5 s) then Some (drop 5 s) else None)"

text \<open>What \<open>re_redir\<close> matches.\<close>

definition rem_pcre :: "byte pcre \<Rightarrow> bool" where
  "rem_pcre R \<longleftrightarrow> (\<forall>s. re_full R re_redir s = map_option (\<lambda>t. [t]) (link_target s))"

text \<open>The word at the end of a chain of links with at most \<open>n\<close> words, with its nick and text.\<close>

primrec follow ::
  "nat \<Rightarrow> (byte list \<Rightarrow> (byte list \<times> byte list) option) \<Rightarrow> byte list \<Rightarrow> (byte list \<times> byte list \<times> byte list) option" where
  "follow 0 m w = None"
| "follow (Suc n) m w =
    (case m w of
       None \<Rightarrow> None
     | Some (nick, data) \<Rightarrow> (case link_target data of None \<Rightarrow> Some (w, nick, data) | Some w' \<Rightarrow> follow n m w'))"

definition links :: "(byte list \<Rightarrow> (byte list \<times> byte list) option) \<Rightarrow> (byte list \<times> byte list) set" where
  "links m = {(w, w'). \<exists>nick data. m w = Some (nick, data) \<and> link_target data = Some w'}"

lemma links_deterministic: "(w, a) \<in> links m \<Longrightarrow> (w, b) \<in> links m \<Longrightarrow> a = b"
  by (auto simp: links_def)

lemma follow_cycle: "(w, w) \<in> (links m)\<^sup>+ \<Longrightarrow> follow n m w = None"
proof (induction n arbitrary: w)
  case (Suc n)
  obtain w' where w': "(w, w') \<in> links m" "(w', w) \<in> (links m)\<^sup>*"
    using tranclD [OF Suc.prems] by blast
  then have "(w', w') \<in> (links m)\<^sup>+" by (meson rtrancl_into_trancl1)
  then have "follow n m w' = None" by (rule Suc.IH)
  then show ?case using w'(1) by (auto simp: links_def)
qed simp

lemma redir_loop_follow:
  assumes "rem_pcre R" "remember_db S tbl" "sd_db D = Some d" "rem_ok (tbl d)"
    and "\<forall>h \<in> set hist. (h, w) \<in> (links (lookup (tbl d)))\<^sup>+"
  shows "\<exists>d' x. tbl d' = tbl d \<and> snd (redir_loop R S n hist w nick desc D) = D\<lparr>sd_db := Some d'\<rparr> \<and>
    fst (redir_loop R S n hist w nick desc D) =
      (case follow n (lookup (tbl d)) w of
         Some (rw, nk, dt) \<Rightarrow> (0, strip_host R nk, dt, rw)
       | None \<Rightarrow> (- 1, x))"
  using assms(3-5)
proof (induction n arbitrary: hist w nick desc D d)
  case 0
  then show ?case by (intro exI [of _ d]) simp
next
  case (Suc n)
  let ?m = "lookup (tbl d)"
  obtain d1 where d1: "tbl d1 = tbl d" "getremdb_primitive R S w D =
      ((case ?m w of None \<Rightarrow> (- 1, [], []) | Some (nick, data) \<Rightarrow> (0, strip_host R nick, data)), D\<lparr>sd_db := Some d1\<rparr>)"
    using getremdb_primitive_lookup [OF assms(2) Suc.prems(1,2)] by blast
  show ?case
  proof (cases "?m w")
    case None
    then show ?thesis using d1 by (intro exI [of _ d1]) (auto simp: Let_def)
  next
    case (Some p)
    obtain nk dt where p: "p = (nk, dt)" by (cases p)
    show ?thesis
    proof (cases "link_target dt")
      case None
      then show ?thesis using Some p d1 assms(1) by (intro exI [of _ d1]) (simp add: rem_pcre_def Let_def)
    next
      case t: (Some t)
      have step: "(w, t) \<in> links ?m" using Some p t by (auto simp: links_def)
      show ?thesis
      proof (cases "t \<in> set hist")
        case True
        then have "(t, t) \<in> (links ?m)\<^sup>+" using Suc.prems(3) step by (meson trancl.trancl_into_trancl)
        then have "follow n ?m t = None" by (rule follow_cycle)
        then show ?thesis using Some p t True d1 assms(1)
          by (intro exI [of _ d1]) (auto simp: rem_pcre_def Let_def)
      next
        case False
        have "\<forall>h \<in> set (hist @ [w]). (h, t) \<in> (links (lookup (tbl d1)))\<^sup>+"
          using Suc.prems(3) step d1(1) by (auto intro: trancl.trancl_into_trancl)
        from Suc.IH [of "D\<lparr>sd_db := Some d1\<rparr>" d1 "hist @ [w]" t "strip_host R nk" dt, OF _ _ this]
        obtain d' x where "tbl d' = tbl d1"
          "snd (redir_loop R S n (hist @ [w]) t (strip_host R nk) dt (D\<lparr>sd_db := Some d1\<rparr>)) = D\<lparr>sd_db := Some d'\<rparr>"
          "fst (redir_loop R S n (hist @ [w]) t (strip_host R nk) dt (D\<lparr>sd_db := Some d1\<rparr>)) =
            (case follow n (lookup (tbl d1)) t of
               Some (rw, nk, dt) \<Rightarrow> (0, strip_host R nk, dt, rw) | None \<Rightarrow> (- 1, x))"
          using Suc.prems(2) d1(1) by auto
        then show ?thesis using Some p t False d1 assms(1)
          by (intro exI [of _ d'] exI [of _ x]) (simp add: rem_pcre_def Let_def)
      qed
    qed
  qed
qed



subsection \<open>Storing\<close>

lemma filter_unique: "distinct (map f xs) \<Longrightarrow> x \<in> set xs \<Longrightarrow> filter (\<lambda>s. f s = f x) xs = [x]"
  by (induction xs) (force simp: filter_empty_conv image_iff)+

lemma lookup_add:
  assumes "rr_word r \<notin> set (map rr_word rows)"
  shows "lookup (rows @ [r]) = (lookup rows)(rr_word r \<mapsto> (rr_nick r, rr_data r))"
proof
  fix v
  show "lookup (rows @ [r]) v = ((lookup rows)(rr_word r \<mapsto> (rr_nick r, rr_data r))) v"
    using assms by (induction rows) (auto simp: lookup_def)
qed

definition set_row :: "int \<Rightarrow> byte list \<Rightarrow> byte list \<Rightarrow> byte list \<Rightarrow> rem_row \<Rightarrow> rem_row" where
  "set_row i n x t r = (if rr_id r = i then r\<lparr>rr_nick := n, rr_data := x, rr_time := t\<rparr> else r)"

lemma set_row_keys [simp]: "rr_id (set_row i n x t r) = rr_id r" "rr_word (set_row i n x t r) = rr_word r"
  by (simp_all add: set_row_def)

lemma map_set_row [simp]:
  "map rr_id (map (set_row i n x t) rows) = map rr_id rows" "map rr_word (map (set_row i n x t) rows) = map rr_word rows"
  by simp_all

lemma set_row_ok: "rem_row_ok r \<Longrightarrow> cstr_ok n \<Longrightarrow> cstr_ok x \<Longrightarrow> rem_row_ok (set_row i n x t r)"
  by (simp add: rem_row_ok_def set_row_def)

lemma set_rows_ok:
  assumes "rem_ok rows" "cstr_ok n" "cstr_ok x"
  shows "rem_ok (map (set_row i n x t) rows)"
  using assms set_row_ok unfolding rem_ok_def map_set_row by (auto simp: list_all_iff)

lemma lookup_set_row:
  assumes "r \<in> set rows" "distinct (map rr_id rows)" "distinct (map rr_word rows)"
  shows "lookup (map (set_row (rr_id r) n x t) rows) = (lookup rows)(rr_word r \<mapsto> (n, x))"
  using assms
proof (induction rows)
  case (Cons s rows)
  have step: "lookup (a # as) = (lookup as)(rr_word a \<mapsto> (rr_nick a, rr_data a))" for a as
    by (auto simp: lookup_def fun_eq_iff)
  show ?case
  proof (cases "r = s")
    case True
    then have "map (set_row (rr_id r) n x t) rows = rows"
      using Cons.prems(2) by (auto simp: set_row_def image_iff intro!: map_idI)
    moreover have "set_row (rr_id r) n x t s = s\<lparr>rr_nick := n, rr_data := x, rr_time := t\<rparr>"
      using True by (simp add: set_row_def)
    ultimately show ?thesis using True by (auto simp: step fun_eq_iff)
  next
    case False
    then have r: "r \<in> set rows" using Cons.prems(1) by simp
    then have "rr_id s \<noteq> rr_id r" "rr_word s \<noteq> rr_word r" using Cons.prems(2,3) by (auto simp: image_iff)
    then show ?thesis using Cons.IH [OF r] Cons.prems(2,3) by (auto simp: step set_row_def [of _ _ _ _ s] fun_eq_iff)
  qed
qed simp

text \<open>A row that can be stored: its texts hold no NUL and are not the mark for a missing argument, and there is an
  identifier left.\<close>

definition storable :: "rem_row list \<Rightarrow> byte list \<Rightarrow> byte list \<Rightarrow> byte list \<Rightarrow> bool" where
  "storable rows nick word data \<longleftrightarrow>
    list_all (\<lambda>r. rr_id r < 2 ^ 31 - 1) rows \<and>
    list_all (\<lambda>s. cstr_ok s \<and> s \<noteq> SQLITE3_DB_NO_ARG_STR) [nick, word, data]"

lemma remember_update:
  assumes "remember_db S tbl" "sd_db D = Some d" "rem_ok (tbl d)" "storable (tbl d) nick word data"
    and "r \<in> set (tbl d)" "rr_word r = word"
  shows "\<exists>d'. snd (remember S now nick word data D) = D\<lparr>sd_db := Some d'\<rparr> \<and> rem_ok (tbl d') \<and>
    lookup (tbl d') = (lookup (tbl d))(word \<mapsto> (nick, data))"
proof -
  have law: "rem_params S d" "rem_selects S tbl d" using assms(1,3) by (auto simp: remember_db_def)
  have ok: "nick \<noteq> SQLITE3_DB_NO_ARG_STR" "word \<noteq> SQLITE3_DB_NO_ARG_STR" "data \<noteq> SQLITE3_DB_NO_ARG_STR"
      "cstr_ok nick" "cstr_ok data"
    using assms(4) by (auto simp: storable_def)
  have dist: "distinct (map rr_id (tbl d))" "distinct (map rr_word (tbl d))" using assms(3) by (auto simp: rem_ok_def)
  have id: "1 \<le> rr_id r" "rr_id r < 2 ^ 31" using assms(3,5) by (auto simp: rem_ok_def rem_row_ok_def list_all_iff)
  define d1 where "d1 = snd (sq_run S d q_find_id [word])"
  have "filter (\<lambda>s. rr_word s = word) (tbl d) = [r]"
    using filter_unique [OF dist(2) assms(5)] assms(6) by simp
  then have rows: "fst (sq_run S d q_find_id [word]) = [[Some (int2string (rr_id r))]]" and tbl: "tbl d1 = tbl d"
    using law(2) by (auto simp: rem_selects_def d1_def)
  have q1: "query S [] q_find_id [word] D = (0, [[int2string (rr_id r)]], D\<lparr>sd_db := Some d1\<rparr>)"
    using query_run [OF assms(2), of S q_find_id "[word]" "[]"] law(1) ok id until_nul_int2string [of "rr_id r"]
    by (simp add: rem_params_def rows d1_def)
  have law1: "rem_params S d1" "rem_changes S tbl d1" using assms(1,3) tbl by (auto simp: remember_db_def)
  let ?as = "[nick, data, int2string now, int2string (rr_id r)]"
  define d2 where "d2 = snd (sq_run S d1 q_update ?as)"
  have tbl2: "tbl d2 = map (set_row (rr_id r) nick data (int2string now)) (tbl d)"
    using law1(2) id c_atoi_int2string [of "rr_id r"] tbl by (simp add: rem_changes_def d2_def set_row_def [abs_def])
  have "snd (snd (query S [] q_update ?as (D\<lparr>sd_db := Some d1\<rparr>))) = D\<lparr>sd_db := Some d2\<rparr>"
    using query_run [of "D\<lparr>sd_db := Some d1\<rparr>" d1 S q_update ?as "[]"] law1(1) ok int2string_arg
    by (simp add: rem_params_def d2_def)
  then have "snd (remember S now nick word data D) = D\<lparr>sd_db := Some d2\<rparr>"
    using q1 by (simp add: remember_def Let_def case_prod_beta)
  moreover have "rem_ok (tbl d2)"
    using set_rows_ok [OF assms(3)] ok by (simp add: tbl2)
  moreover have "lookup (tbl d2) = (lookup (tbl d))(word \<mapsto> (nick, data))"
    using lookup_set_row [OF assms(5) dist] assms(6) by (simp add: tbl2)
  ultimately show ?thesis by blast
qed


lemma remember_insert:
  assumes "remember_db S tbl" "sd_db D = Some d" "rem_ok (tbl d)" "storable (tbl d) nick word data"
    and "word \<notin> set (map rr_word (tbl d))"
  shows "\<exists>d'. snd (remember S now nick word data D) = D\<lparr>sd_db := Some d'\<rparr> \<and> rem_ok (tbl d') \<and>
    lookup (tbl d') = (lookup (tbl d))(word \<mapsto> (nick, data))"
proof -
  have law: "rem_params S d" "rem_selects S tbl d" using assms(1,3) by (auto simp: remember_db_def)
  have ok: "nick \<noteq> SQLITE3_DB_NO_ARG_STR" "word \<noteq> SQLITE3_DB_NO_ARG_STR" "data \<noteq> SQLITE3_DB_NO_ARG_STR"
      "cstr_ok nick" "cstr_ok data" "cstr_ok word"
    using assms(4) by (auto simp: storable_def)
  have ids: "1 \<le> i \<and> i < 2 ^ 31 - 1" if "i \<in> set (map rr_id (tbl d))" for i
    using that assms(3,4) by (auto simp: storable_def rem_ok_def rem_row_ok_def list_all_iff)
  define top where "top = (if tbl d = [] then 0 else Max (set (map rr_id (tbl d))))"
  have top: "0 \<le> top" "top + 1 < 2 ^ 31" "\<forall>i \<in> set (map rr_id (tbl d)). i < top + 1"
  proof -
    have "top = 0 \<or> top \<in> set (map rr_id (tbl d))"
      unfolding top_def by (cases "tbl d = []") (auto simp del: set_map simp: Max_in)
    then show "0 \<le> top" "top + 1 < 2 ^ 31" using ids [of top] by auto
    show "\<forall>i \<in> set (map rr_id (tbl d)). i < top + 1"
      unfolding top_def by (auto simp del: set_map simp: Max_ge le_imp_less_Suc zle_add1_eq_le)
  qed
  define d1 where "d1 = snd (sq_run S d q_find_id [word])"
  have "filter (\<lambda>s. rr_word s = word) (tbl d) = []" using assms(5) by (auto simp: filter_empty_conv)
  then have rows: "fst (sq_run S d q_find_id [word]) = []" and tbl1: "tbl d1 = tbl d"
    using law(2) by (auto simp: rem_selects_def d1_def)
  have q1: "query S [] q_find_id [word] D = (0, [], D\<lparr>sd_db := Some d1\<rparr>)"
    using query_run [OF assms(2), of S q_find_id "[word]" "[]"] law(1) ok by (simp add: rem_params_def rows d1_def)
  have law1: "rem_params S d1" "rem_selects S tbl d1" using assms(1,3) tbl1 by (auto simp: remember_db_def)
  define d2 where "d2 = snd (sq_run S d1 q_max_id [])"
  define cell where "cell = (if tbl d = [] then [] else int2string top)"
  have tbl2: "tbl d2 = tbl d" using law1(2) tbl1 by (simp add: rem_selects_def d2_def)
  have nul: "until_nul (int2string top) = int2string top" using until_nul_int2string [of top] top by simp
  have q2: "query S [] q_max_id [] (D\<lparr>sd_db := Some d1\<rparr>) = (0, [[cell]], D\<lparr>sd_db := Some d2\<rparr>)"
    using query_run [of "D\<lparr>sd_db := Some d1\<rparr>" d1 S q_max_id "[]" "[]"] law1 tbl1 nul
    by (cases "tbl d = []") (simp_all add: rem_params_def rem_selects_def d2_def cell_def top_def)
  have maxid: "c_atoi cell + 1 = top + 1"
  proof (cases "tbl d = []")
    case True
    then show ?thesis by (simp add: cell_def top_def c_atoi_def until_nul_def)
  next
    case False
    then show ?thesis using top c_atoi_int2string [of top] by (simp add: cell_def)
  qed
  have law2: "rem_params S d2" "rem_changes S tbl d2" using assms(1,3) tbl2 by (auto simp: remember_db_def)
  let ?as = "[int2string (top + 1), nick, word, data, int2string now]"
  define d3 where "d3 = snd (sq_run S d2 q_insert ?as)"
  let ?row = "\<lparr>rr_id = top + 1, rr_nick = nick, rr_word = word, rr_data = data, rr_time = int2string now\<rparr>"
  have fresh: "top + 1 \<notin> set (map rr_id (tbl d))" using top(3) by force
  have tbl3: "tbl d3 = tbl d @ [?row]"
    using law2(2) tbl2 fresh c_atoi_int2string [of "top + 1"] top by (simp add: rem_changes_def d3_def)
  have "snd (snd (query S [] q_insert ?as (D\<lparr>sd_db := Some d2\<rparr>))) = D\<lparr>sd_db := Some d3\<rparr>"
    using query_run [of "D\<lparr>sd_db := Some d2\<rparr>" d2 S q_insert ?as "[]"] law2(1) ok int2string_arg
    by (simp add: rem_params_def d3_def)
  then have "snd (remember S now nick word data D) = D\<lparr>sd_db := Some d3\<rparr>"
    using q1 q2 maxid by (simp add: remember_def Let_def case_prod_beta)
  moreover have "rem_ok (tbl d3)"
    using assms(3,5) ok top fresh by (auto simp: tbl3 rem_ok_def rem_row_ok_def)
  moreover have "lookup (tbl d3) = (lookup (tbl d))(word \<mapsto> (nick, data))"
    using lookup_add [of ?row "tbl d"] assms(5) by (simp add: tbl3)
  ultimately show ?thesis by blast
qed

lemma remember_lookup:
  assumes "remember_db S tbl" "sd_db D = Some d" "rem_ok (tbl d)" "storable (tbl d) nick word data"
  obtains d' where "snd (remember S now nick word data D) = D\<lparr>sd_db := Some d'\<rparr>" "rem_ok (tbl d')"
    "lookup (tbl d') = (lookup (tbl d))(word \<mapsto> (nick, data))"
proof (cases "word \<in> set (map rr_word (tbl d))")
  case True
  then obtain r where "r \<in> set (tbl d)" "rr_word r = word" by auto
  then show ?thesis using remember_update [OF assms, of r now] that by blast
next
  case False
  then show ?thesis using remember_insert [OF assms, of now] that by blast
qed



subsection \<open>A database\<close>

text \<open>A table in memory that keeps the promises.\<close>

definition table_run :: "rem_row list \<Rightarrow> byte list \<Rightarrow> byte list list \<Rightarrow> byte list option list list \<times> rem_row list" where
  "table_run d q as =
    (if q = q_find_id then (map (\<lambda>r. [Some (int2string (rr_id r))]) (filter (\<lambda>r. rr_word r = as ! 0) d), d)
     else if q = q_get then (map (\<lambda>r. [Some (rr_nick r), Some (rr_data r)]) (take 1 (filter (\<lambda>r. rr_word r = as ! 0) d)), d)
     else if q = q_max_id then ([[if d = [] then None else Some (int2string (Max (set (map rr_id d))))]], d)
     else if q = q_insert then
       ([], if c_atoi (as ! 0) \<in> set (map rr_id d) then d
            else d @ [\<lparr>rr_id = c_atoi (as ! 0), rr_nick = as ! 1, rr_word = as ! 2, rr_data = as ! 3, rr_time = as ! 4\<rparr>])
     else if q = q_update then
       ([], map (\<lambda>r. if rr_id r = c_atoi (as ! 3) then r\<lparr>rr_nick := as ! 0, rr_data := as ! 1, rr_time := as ! 2\<rparr> else r) d)
     else ([], d))"

definition table_db :: "rem_row list sqlite_lib" where
  "table_db = \<lparr>sq_open = (\<lambda>_. (True, Some [])), sq_errmsg = (\<lambda>_. []),
     sq_prepare = (\<lambda>d q. map_of [(q_find_id, 1), (q_get, 1), (q_max_id, 0), (q_insert, 5), (q_update, 4)] q),
     sq_run = table_run\<rparr>"

lemma statements_distinct: "distinct [q_find_id, q_get, q_max_id, q_insert, q_update]"
proof -
  have "distinct (map length [q_find_id, q_get, q_max_id, q_insert, q_update])"
    by (simp add: q_find_id_def q_get_def q_max_id_def q_insert_def q_update_def c_lit_def)
  then show ?thesis unfolding distinct_map by blast
qed

lemma table_db_remember: "remember_db table_db (\<lambda>d. d)"
proof -
  have ne: "q_find_id \<noteq> q_get" "q_find_id \<noteq> q_max_id" "q_find_id \<noteq> q_insert" "q_find_id \<noteq> q_update"
    "q_get \<noteq> q_max_id" "q_get \<noteq> q_insert" "q_get \<noteq> q_update" "q_max_id \<noteq> q_insert" "q_max_id \<noteq> q_update"
    "q_insert \<noteq> q_update"
    using statements_distinct by auto
  show ?thesis
    by (simp add: remember_db_def rem_params_def rem_selects_def rem_changes_def table_db_def table_run_def
        ne ne [symmetric])
qed

definition rem_pcre_instance :: "byte pcre" where
  "rem_pcre_instance = \<lparr>re_full = (\<lambda>p s. if p = re_redir then map_option (\<lambda>t. [t]) (link_target s) else None),
     re_partial = (\<lambda>p s. None), re_global_replace = (\<lambda>p r s. s)\<rparr>"

lemma rem_pcre_instance: "rem_pcre rem_pcre_instance"
  by (simp add: rem_pcre_def rem_pcre_instance_def)

definition two_words :: "rem_row list" where
  "two_words =
   [\<lparr>rr_id = 1, rr_nick = [0x78], rr_word = [0x61], rr_data = c_lit ''link:b'', rr_time = []\<rparr>,
    \<lparr>rr_id = 2, rr_nick = [0x79], rr_word = [0x62], rr_data = [0x68, 0x69], rr_time = []\<rparr>]"

lemma two_words_ok: "rem_ok two_words"
  by (simp add: two_words_def rem_ok_def rem_row_ok_def SQLITE3_DB_NO_ARG_STR_def c_lit_def)



subsection \<open>Pages of search results\<close>

lemma find_lines_words:
  "find_lines ws i stop line = (out, line', rest) \<Longrightarrow>
    rest = drop (nat (stop - i)) ws \<and>
    concat out @ line' = line @ concat (map (\<lambda>w. w @ c_lit '', '') (take (nat (stop - i)) ws))"
proof (induction ws i stop line arbitrary: out line' rest rule: find_lines.induct)
  case (2 w ws i stop line)
  show ?case
  proof (cases "i < stop")
    case True
    then have n: "nat (stop - i) = Suc (nat (stop - (i + 1)))" by linarith
    show ?thesis
    proof (cases "(i + 1) mod maxitemsperline = 0")
      case m: True
      obtain o2 l2 r2 where r: "find_lines ws (i + 1) stop [] = (o2, l2, r2)" by (metis prod_cases3)
      then have "out = (line @ w @ c_lit '', '') # o2" "line' = l2" "rest = r2" using "2.prems" True m by auto
      then show ?thesis using "2.IH"(1) [OF True refl m r] n by simp
    next
      case m: False
      then have "find_lines ws (i + 1) stop (line @ w @ c_lit '', '') = (out, line', rest)" using "2.prems" True by simp
      then show ?thesis using "2.IH"(2) [OF True refl m] n by simp
    qed
  qed (use "2.prems" in auto)
qed simp

text \<open>
  Page \<open>p\<close> (from 0) with \<open>L\<close> lines for a command asks for \<open>20 * L + 1\<close> of all the matches from number \<open>20 * L * p\<close> on
  but shows \<open>20 * (L - 1)\<close>, and the next page begins at \<open>20 * L * (p + 1)\<close>: the last twenty matches of each
  page are on no page.
\<close>

lemma find_page_words:
  assumes "find_lines (take (L * 20 + 1) (drop (p * L * 20) found)) 0 ((int L - 1) * maxitemsperline) [] = (out, line, rest)"
  shows "concat out @ line = concat (map (\<lambda>w. w @ c_lit '', '') (take ((L - 1) * 20) (drop (p * L * 20) found)))"
proof -
  have "nat ((int L - 1) * maxitemsperline) = (L - 1) * 20"
    by (cases L) (simp_all add: maxitemsperline_def nat_mult_distrib)
  moreover have "min ((L - 1) * 20) (L * 20 + 1) = (L - 1) * 20" by (simp add: min_def)
  ultimately show ?thesis
    using find_lines_words [OF assms] by (simp add: take_take)
qed

text \<open>A word that is the mark for a missing argument is never stored, but the command says that it has been.\<close>

lemma remember_no_arg:
  assumes "remember_db S tbl" "sd_db D = Some d" "rem_ok (tbl d)"
  shows "\<exists>d'. snd (remember S now nick SQLITE3_DB_NO_ARG_STR data D) = D\<lparr>sd_db := Some d'\<rparr> \<and> tbl d' = tbl d"
proof -
  have law: "rem_params S d" "rem_selects S tbl d" using assms by (auto simp: remember_db_def)
  have q1: "query S [] q_find_id [SQLITE3_DB_NO_ARG_STR] D = (- 1, [], D)"
    using law(1) assms(2) by (simp add: rem_params_def query_no_arg del: One_nat_def)
  define d2 where "d2 = snd (sq_run S d q_max_id [])"
  have tbl2: "tbl d2 = tbl d" using law(2) by (simp add: rem_selects_def d2_def)
  obtain rows where q2: "query S [] q_max_id [] D = (0, rows, D\<lparr>sd_db := Some d2\<rparr>)"
    using query_run [OF assms(2), of S q_max_id "[]" "[]"] law(1) by (simp add: rem_params_def d2_def)
  have "snd (snd (query S [] q_insert [i, nick, SQLITE3_DB_NO_ARG_STR, data, t] (D\<lparr>sd_db := Some d2\<rparr>))) = D\<lparr>sd_db := Some d2\<rparr>"
    for i t
  proof -
    have "rem_params S d2" using assms(1,3) tbl2 by (simp add: remember_db_def)
    moreover have "filter (\<lambda>a. a \<noteq> SQLITE3_DB_NO_ARG_STR) [i, nick, SQLITE3_DB_NO_ARG_STR, data, t] =
        filter (\<lambda>a. a \<noteq> SQLITE3_DB_NO_ARG_STR) [i, nick, data, t]" by simp
    moreover have "length (filter P xs) \<noteq> 5" if "length xs = 4" for P and xs :: "byte list list"
      using length_filter_le [of P xs] that by simp
    ultimately show ?thesis by (simp only: query_def rem_params_def Let_def) simp
  qed
  then show ?thesis
    using q1 q2 tbl2 by (intro exI [of _ d2]) (simp add: remember_def Let_def case_prod_beta)
qed

end
