(* ===== verification/Pobj.thy ===== *)
theory Pobj
  imports Prelude
begin

text \<open>
  \<open>pobj_vector<T>\<close> of \<open>etc.h\<close>, the vector of pointers that holds the bot's connections and event threads.
  A pointer is a number, 0 is \<open>NULL\<close>. The memory behind \<open>plist\<close> is a list of cells of the size of a
  pointer, None while uninitialised. The code computes sizes from \<open>sizeof(T)\<close> where it means
  \<open>sizeof(T *)\<close>; \<open>k\<close> is \<open>sizeof(T) / sizeof(T *)\<close>, so an array for \<open>n\<close> objects has \<open>k * n\<close> cells and
  \<open>memmove\<close> moves \<open>k\<close> cells for each object. \<open>pv_deleted\<close> collects the objects deleted. The locks are left
  out: every operation holds the lock throughout or is called by one that does.
\<close>

record pobj_vector =
  pv_size :: nat
  pv_plist :: "nat option list"
  pv_deleted :: "nat list"

definition pv_new :: pobj_vector where
  "pv_new = \<lparr>pv_size = 0, pv_plist = [], pv_deleted = []\<rparr>"

definition pv_at :: "int \<Rightarrow> pobj_vector \<Rightarrow> nat option" where
  "pv_at n v = (if n < 0 \<or> n \<ge> int (pv_size v) then Some 0 else pv_plist v ! nat n)"

definition pv_clear :: "pobj_vector \<Rightarrow> bool \<times> pobj_vector" where
  "pv_clear v =
    (True, \<lparr>pv_size = 0, pv_plist = [],
       pv_deleted = pv_deleted v @ filter (\<lambda>p. p \<noteq> 0) (map the (take (pv_size v) (pv_plist v)))\<rparr>)"

text \<open>\<open>ok\<close>: whether \<open>realloc\<close> finds memory.\<close>

definition pv_resize :: "nat \<Rightarrow> bool \<Rightarrow> nat \<Rightarrow> pobj_vector \<Rightarrow> bool \<times> pobj_vector" where
  "pv_resize k ok newsize v =
    (if newsize = pv_size v then (True, v)
     else if newsize = 0 then (True, snd (pv_clear v))
     else if \<not> ok then (False, v\<lparr>pv_plist := [], pv_size := 0\<rparr>)
     else
       (let mem = take (k * newsize) (pv_plist v @ replicate (k * newsize) None);
            mem = fold (\<lambda>i m. m[i := Some 0]) [pv_size v ..< newsize] mem
        in (True, v\<lparr>pv_plist := mem, pv_size := newsize\<rparr>)))"

definition pv_check_size :: "nat \<Rightarrow> bool \<Rightarrow> nat \<Rightarrow> pobj_vector \<Rightarrow> bool \<times> pobj_vector" where
  "pv_check_size k ok n v = (if pv_size v < n then (False, snd (pv_resize k ok n v)) else (True, v))"

fun pv_find_from :: "nat \<Rightarrow> nat option list \<Rightarrow> nat \<Rightarrow> int" where
  "pv_find_from ptr [] i = - 1"
| "pv_find_from ptr (c # cs) i = (if c = Some ptr then int i else pv_find_from ptr cs (Suc i))"

definition pv_find_by_ptr :: "nat \<Rightarrow> pobj_vector \<Rightarrow> int" where
  "pv_find_by_ptr ptr v = pv_find_from ptr (take (pv_size v) (pv_plist v)) 0"

definition pv_addobj :: "nat \<Rightarrow> bool \<Rightarrow> nat \<Rightarrow> pobj_vector \<Rightarrow> int \<times> pobj_vector" where
  "pv_addobj k ok ptr v =
    (if pv_find_by_ptr ptr v \<ge> 0 then (- 1, v)
     else
       (let n = pv_find_by_ptr 0 v
        in if n < 0 then
          (case pv_resize k ok (pv_size v + 1) v of
             (False, v) \<Rightarrow> (- 1, v)
           | (True, v) \<Rightarrow> (let n = pv_size v - 1 in (int n, v\<lparr>pv_plist := (pv_plist v)[n := Some ptr]\<rparr>)))
        else (n, v\<lparr>pv_plist := (pv_plist v)[nat n := Some ptr]\<rparr>)))"

text \<open>\<open>ptr\<close> is what \<open>new T\<close> gives.\<close>

definition pv_newobj :: "nat \<Rightarrow> bool \<Rightarrow> nat \<Rightarrow> pobj_vector \<Rightarrow> nat \<times> pobj_vector" where
  "pv_newobj k ok ptr v =
    (case pv_addobj k ok ptr v of
       (ret, v) \<Rightarrow> if ret < 0 then (0, v\<lparr>pv_deleted := pv_deleted v @ [ptr]\<rparr>) else (ptr, v))"

text \<open>\<open>memmove\<close> of \<open>n\<close> cells from position \<open>s\<close> to position \<open>d\<close>.\<close>

definition cells_move :: "nat \<Rightarrow> nat \<Rightarrow> nat \<Rightarrow> 'a list \<Rightarrow> c_fault + 'a list" where
  "cells_move d s n m =
    (if s + n > length m then Inl Read_past_end
     else if d + n > length m then Inl Write_past_end
     else Inr (take d m @ take n (drop s m) @ drop (d + n) m))"

definition pv_remove_by_id :: "nat \<Rightarrow> bool \<Rightarrow> int \<Rightarrow> pobj_vector \<Rightarrow> c_fault + (bool \<times> pobj_vector)" where
  "pv_remove_by_id k ok n v =
    (if n < 0 \<or> n \<ge> int (pv_size v) then Inr (False, v)
     else
       (case cells_move (nat n) (nat n + 1) (k * (pv_size v - 1 - nat n)) (pv_plist v) of
          Inl f \<Rightarrow> Inl f
        | Inr mem \<Rightarrow>
            Inr (True, snd (pv_resize k ok (pv_size v - 1) (v\<lparr>pv_plist := mem[pv_size v - 1 := Some 0]\<rparr>)))))"

definition pv_del_by_id :: "nat \<Rightarrow> bool \<Rightarrow> int \<Rightarrow> pobj_vector \<Rightarrow> c_fault + (bool \<times> pobj_vector)" where
  "pv_del_by_id k ok n v =
    (if n < 0 \<or> n \<ge> int (pv_size v) then Inr (False, v)
     else
       (let p = the (pv_plist v ! nat n);
            v = (if p \<noteq> 0 then v\<lparr>pv_deleted := pv_deleted v @ [p]\<rparr> else v)
        in map_sum id (\<lambda>(_, v). (True, v)) (pv_remove_by_id k ok n v)))"

definition pv_delobj :: "nat \<Rightarrow> bool \<Rightarrow> nat \<Rightarrow> pobj_vector \<Rightarrow> c_fault + (bool \<times> pobj_vector)" where
  "pv_delobj k ok ptr v =
    (if ptr = 0 then Inl Assert_failed
     else let pos = pv_find_by_ptr ptr v in if pos < 0 then Inr (False, v) else pv_del_by_id k ok pos v)"

definition pv_removeobj :: "nat \<Rightarrow> bool \<Rightarrow> nat \<Rightarrow> pobj_vector \<Rightarrow> c_fault + (bool \<times> pobj_vector)" where
  "pv_removeobj k ok ptr v =
    (if ptr = 0 then Inl Assert_failed
     else let pos = pv_find_by_ptr ptr v in if pos < 0 then Inr (False, v) else pv_remove_by_id k ok pos v)"

subsection \<open>The vector as a list\<close>

definition pv_ok :: "nat \<Rightarrow> pobj_vector \<Rightarrow> bool" where
  "pv_ok k v \<longleftrightarrow> length (pv_plist v) = k * pv_size v \<and>
    (\<exists>ps. take (pv_size v) (pv_plist v) = map Some ps \<and> distinct ps \<and> 0 \<notin> set ps)"

definition pv_list :: "pobj_vector \<Rightarrow> nat list" where
  "pv_list v = map the (take (pv_size v) (pv_plist v))"

lemma pv_okD:
  assumes "pv_ok k v" "1 \<le> k"
  shows "take (pv_size v) (pv_plist v) = map Some (pv_list v)" "distinct (pv_list v)" "0 \<notin> set (pv_list v)"
    "length (pv_list v) = pv_size v" "length (pv_plist v) = k * pv_size v"
proof -
  obtain ps where ps: "take (pv_size v) (pv_plist v) = map Some ps" "distinct ps" "0 \<notin> set ps"
    and len: "length (pv_plist v) = k * pv_size v" using assms(1) by (auto simp: pv_ok_def)
  have "pv_list v = ps" using ps(1) by (simp add: pv_list_def comp_def)
  moreover have "pv_size v \<le> k * pv_size v" using assms(2) by (cases k) auto
  then have "length ps = pv_size v" using ps(1) len by (metis length_map length_take min.absorb2)
  ultimately show "take (pv_size v) (pv_plist v) = map Some (pv_list v)" "distinct (pv_list v)" "0 \<notin> set (pv_list v)"
    "length (pv_list v) = pv_size v" "length (pv_plist v) = k * pv_size v" using ps len by simp_all
qed

lemma pv_find_from_map:
  "pv_find_from p (map Some ps) i = (if p \<in> set ps then int (i + length (takeWhile (\<lambda>q. q \<noteq> p) ps)) else - 1)"
  by (induction ps arbitrary: i) auto

lemma pv_find:
  assumes "pv_ok k v" "1 \<le> k"
  shows "pv_find_by_ptr p v = (if p \<in> set (pv_list v) then int (length (takeWhile (\<lambda>q. q \<noteq> p) (pv_list v))) else - 1)"
  using pv_okD(1) [OF assms] by (simp add: pv_find_by_ptr_def pv_find_from_map)

lemma pv_append:
  assumes "pv_ok k v" "1 \<le> k" "p \<noteq> 0" "p \<notin> set (pv_list v)"
  shows "\<exists>v'. pv_addobj k True p v = (int (pv_size v), v') \<and> pv_ok k v' \<and> pv_list v' = pv_list v @ [p] \<and>
    pv_deleted v' = pv_deleted v"
proof -
  note ok = pv_okD [OF assms(1,2)]
  let ?n = "pv_size v"
  let ?mem = "take (k * Suc ?n) (pv_plist v @ replicate (k * Suc ?n) None)"
  have len: "length ?mem = k * Suc ?n" by simp
  have nl: "?n < k * Suc ?n" using assms(2) by (cases k) auto
  have n: "?n \<le> length (pv_plist v)" using ok(5) assms(2) by (cases k) auto
  have "take ?n ?mem = map Some (pv_list v)" using ok(1) n nl by (simp add: min_def)
  then have t: "take (Suc ?n) (?mem[?n := Some p]) = map Some (pv_list v @ [p])"
    using nl len by (simp add: take_Suc_conv_app_nth)
  let ?v = "v\<lparr>pv_plist := ?mem[?n := Some p], pv_size := Suc ?n\<rparr>"
  have "pv_addobj k True p v = (int ?n, ?v)"
    using pv_find [OF assms(1,2)] assms(4) ok(3) by (simp add: pv_addobj_def pv_resize_def Let_def)
  moreover have "pv_ok k ?v"
    using t ok(2,3) assms(3,4) len by (auto simp: pv_ok_def intro!: exI [of _ "pv_list v @ [p]"])
  moreover have "pv_list ?v = pv_list v @ [p]" using t by (simp add: pv_list_def comp_def)
  ultimately show ?thesis by auto
qed

lemma cells_move_take:
  assumes "i < n" "n \<le> length m" "n - Suc i \<le> c" "Suc i + c \<le> length m"
  shows "\<exists>m'. cells_move i (Suc i) c m = Inr m' \<and> length m' = length m \<and>
    take (n - 1) m' = take i m @ drop (Suc i) (take n m)"
proof -
  have "take (n - Suc i) (take c (drop (Suc i) m)) = drop (Suc i) (take n m)"
    using assms(3) by (simp add: drop_take min_def)
  then show ?thesis using assms
    by (cases "n = Suc i") (auto simp: cells_move_def min_def Suc_le_eq take_append diff_diff_left)
qed

text \<open>Shrinking by one, after the last cell was set to \<open>NULL\<close>, deletes nothing and keeps the cells before it.\<close>

lemma pv_shrink:
  assumes "length (pv_plist v) = k * pv_size v" "pv_size v = Suc n" "1 \<le> k" "pv_plist v ! n = Some 0"
    "take n (pv_plist v) = map Some ps" "0 \<notin> set ps" "distinct ps"
  shows "\<exists>v'. pv_resize k True n v = (True, v') \<and> pv_ok k v' \<and> pv_list v' = ps \<and> pv_deleted v' = pv_deleted v"
proof (cases n)
  case 0
  then have "take (Suc 0) (pv_plist v) = [Some 0]"
    using assms(1-4) by (cases "pv_plist v") auto
  then show ?thesis using 0 assms by (simp add: pv_resize_def pv_clear_def pv_ok_def pv_list_def)
next
  case (Suc m)
  let ?v = "v\<lparr>pv_plist := take (k * n) (pv_plist v), pv_size := n\<rparr>"
  have n: "n \<le> k * n" "k * n \<le> length (pv_plist v)" using assms(1-3) by auto
  then have r: "pv_resize k True n v = (True, ?v)" using Suc assms(2) by (simp add: pv_resize_def)
  have t: "take n (pv_plist ?v) = map Some ps" using n(1) assms(5) by (simp add: min_def)
  then have "pv_ok k ?v" using assms(6,7) n(2) by (auto simp: pv_ok_def)
  moreover have "pv_list ?v = ps" using t by (simp add: pv_list_def comp_def)
  ultimately show ?thesis using r by auto
qed

lemma pv_remove:
  assumes "pv_ok k v" "1 \<le> k" "i < pv_size v"
  shows "\<exists>v'. pv_remove_by_id k True (int i) v = Inr (True, v') \<and> pv_ok k v' \<and>
    pv_list v' = take i (pv_list v) @ drop (Suc i) (pv_list v) \<and> pv_deleted v' = pv_deleted v"
proof -
  note ok = pv_okD [OF assms(1,2)]
  let ?n = "pv_size v" and ?c = "k * (pv_size v - 1 - i)"
  let ?ps = "take i (pv_list v) @ drop (Suc i) (pv_list v)"
  obtain d where n: "?n = Suc (i + d)" using assms(3) by (metis add_Suc less_iff_Suc_add)
  have bounds: "?n \<le> length (pv_plist v)" "?n - Suc i \<le> ?c" "Suc i + ?c \<le> length (pv_plist v)"
    using ok(5) n assms(2) by (cases k; simp add: algebra_simps)+
  obtain m where m: "cells_move i (Suc i) ?c (pv_plist v) = Inr m" "length m = length (pv_plist v)"
    "take (?n - 1) m = take i (pv_plist v) @ drop (Suc i) (take ?n (pv_plist v))"
    using cells_move_take [OF assms(3) bounds] by auto
  have "take i (pv_plist v) = map Some (take i (pv_list v))"
    using arg_cong [OF ok(1), of "take i"] assms(3) by (simp add: take_map min_def)
  then have t: "take (?n - 1) m = map Some ?ps" using m(3) ok(1) by (simp add: drop_map)
  let ?v = "v\<lparr>pv_plist := m[?n - 1 := Some 0]\<rparr>"
  have dist: "distinct ?ps" "0 \<notin> set ?ps"
    using ok(2,3) distinct_append [of "take (Suc i) (pv_list v)" "drop (Suc i) (pv_list v)"]
    by (auto dest: in_set_takeD in_set_dropD)
       (metis append_take_drop_id disjoint_iff_not_equal distinct_append le_SucI nat_le_linear set_take_subset_set_take subsetD)
  have "\<exists>v'. pv_resize k True (?n - 1) ?v = (True, v') \<and> pv_ok k v' \<and> pv_list v' = ?ps \<and> pv_deleted v' = pv_deleted ?v"
    by (rule pv_shrink) (use m(2) ok(5) assms(2) n bounds(1) t dist in auto)
  then obtain v' where "pv_resize k True (?n - 1) ?v = (True, v')" "pv_ok k v'" "pv_list v' = ?ps"
    "pv_deleted v' = pv_deleted v" by auto
  then show ?thesis using m(1) assms(3) by (auto simp: pv_remove_by_id_def)
qed

lemma remove1_takeWhile:
  "p \<in> set xs \<Longrightarrow> (let i = length (takeWhile (\<lambda>q. q \<noteq> p) xs) in
    i < length xs \<and> xs ! i = p \<and> take i xs @ drop (Suc i) xs = remove1 p xs)"
  by (induction xs) (auto simp: Let_def)

text \<open>A vector holding the pointers \<open>ps\<close> before and \<open>qs\<close> after an operation that deletes \<open>ds\<close>.\<close>

definition pv_step :: "nat \<Rightarrow> pobj_vector \<Rightarrow> nat list \<Rightarrow> nat list \<Rightarrow> pobj_vector \<Rightarrow> bool" where
  "pv_step k v qs ds v' \<longleftrightarrow> pv_ok k v' \<and> pv_list v' = qs \<and> pv_deleted v' = pv_deleted v @ ds"

lemma pv_removeobj_list:
  assumes "pv_ok k v" "1 \<le> k" "p \<noteq> 0"
  shows "\<exists>v'. pv_removeobj k True p v = Inr (p \<in> set (pv_list v), v') \<and> pv_step k v (remove1 p (pv_list v)) [] v'"
proof (cases "p \<in> set (pv_list v)")
  case True
  let ?i = "length (takeWhile (\<lambda>q. q \<noteq> p) (pv_list v))"
  have i: "?i < pv_size v" "take ?i (pv_list v) @ drop (Suc ?i) (pv_list v) = remove1 p (pv_list v)"
    using remove1_takeWhile [OF True] pv_okD(4) [OF assms(1,2)] by (simp_all add: Let_def)
  then show ?thesis using pv_remove [OF assms(1,2) i(1)] pv_find [OF assms(1,2), of p] True assms(3)
    by (auto simp: pv_removeobj_def pv_step_def)
next
  case False
  then show ?thesis using pv_find [OF assms(1,2), of p] assms(1,3)
    by (simp add: pv_removeobj_def pv_step_def remove1_idem)
qed

lemma pv_delobj_list:
  assumes "pv_ok k v" "1 \<le> k" "p \<noteq> 0"
  shows "\<exists>v'. pv_delobj k True p v = Inr (p \<in> set (pv_list v), v') \<and>
    pv_step k v (remove1 p (pv_list v)) (if p \<in> set (pv_list v) then [p] else []) v'"
proof (cases "p \<in> set (pv_list v)")
  case True
  let ?i = "length (takeWhile (\<lambda>q. q \<noteq> p) (pv_list v))"
  let ?v = "v\<lparr>pv_deleted := pv_deleted v @ [p]\<rparr>"
  note ok = pv_okD [OF assms(1,2)]
  have i: "?i < pv_size v" "pv_list v ! ?i = p" "take ?i (pv_list v) @ drop (Suc ?i) (pv_list v) = remove1 p (pv_list v)"
    using remove1_takeWhile [OF True] ok(4) by (simp_all add: Let_def)
  then have at: "pv_plist v ! ?i = Some p"
    using arg_cong [OF ok(1), of "\<lambda>xs. xs ! ?i"] ok(4) by simp
  have "pv_ok k ?v" "pv_list ?v = pv_list v" "?i < pv_size ?v"
    using assms(1) i(1) by (simp_all add: pv_ok_def pv_list_def)
  then have "\<exists>v'. pv_remove_by_id k True (int ?i) ?v = Inr (True, v') \<and> pv_step k v (remove1 p (pv_list v)) [p] v'"
    using pv_remove [OF _ assms(2), of ?v ?i] i(3) by (auto simp: pv_step_def)
  then show ?thesis using pv_find [OF assms(1,2), of p] True assms(3) at i(1)
    by (auto simp: pv_delobj_def pv_del_by_id_def Let_def)
next
  case False
  then show ?thesis using pv_find [OF assms(1,2), of p] assms(1,3)
    by (simp add: pv_delobj_def pv_step_def remove1_idem)
qed

lemma pv_addobj_list:
  assumes "pv_ok k v" "1 \<le> k" "p \<noteq> 0"
  shows "\<exists>n v'. pv_addobj k True p v = (n, v') \<and>
      (if p \<in> set (pv_list v) then n = - 1 \<and> v' = v
       else n = int (length (pv_list v)) \<and> pv_step k v (pv_list v @ [p]) [] v')"
proof -
  have "p \<in> set (pv_list v) \<Longrightarrow> pv_addobj k True p v = (- 1, v)"
    using pv_find [OF assms(1,2), of p] by (simp add: pv_addobj_def)
  then show ?thesis using pv_append [OF assms] pv_okD(4) [OF assms(1,2)] by (auto simp: pv_step_def)
qed

text \<open>C31: \<open>pobj_vector\<close> implements a list of distinct non-null pointers, although its sizes are computed
  from \<open>sizeof(T)\<close>: on a well-formed vector \<open>addobj\<close> appends a pointer that is not there, returning its position,
  and refuses one that is; \<open>removeobj\<close> and \<open>delobj\<close> take it out, keeping the order of the others, delete exactly
  that object (\<open>delobj\<close>) or none, and return whether it was there, and none of the moves leaves the array.\<close>

theorem pobj_vector_list:
  assumes "pv_ok k v" "1 \<le> k" "p \<noteq> 0"
  shows "(\<exists>n v'. pv_addobj k True p v = (n, v') \<and>
      (if p \<in> set (pv_list v) then n = - 1 \<and> v' = v
       else n = int (length (pv_list v)) \<and> pv_step k v (pv_list v @ [p]) [] v')) \<and>
    (\<exists>v'. pv_removeobj k True p v = Inr (p \<in> set (pv_list v), v') \<and> pv_step k v (remove1 p (pv_list v)) [] v') \<and>
    (\<exists>v'. pv_delobj k True p v = Inr (p \<in> set (pv_list v), v') \<and>
      pv_step k v (remove1 p (pv_list v)) (if p \<in> set (pv_list v) then [p] else []) v')"
  using pv_addobj_list [OF assms] pv_removeobj_list [OF assms] pv_delobj_list [OF assms] by blast

lemma pobj_vector_list_witness:
  "\<exists>v. pv_ok 3 v \<and> pv_list v = [5] \<and>
    (\<exists>v'. pv_delobj 3 True 5 v = Inr (True, v') \<and> pv_list v' = [] \<and> pv_deleted v' = [5])"
proof -
  have new: "pv_ok 3 pv_new" "pv_list pv_new = []" by (simp_all add: pv_ok_def pv_new_def pv_list_def)
  obtain v where v: "pv_ok 3 v" "pv_list v = [5]" "pv_deleted v = []"
    using pobj_vector_list [OF new(1), of 5] new(2) by (auto simp: pv_step_def pv_new_def)
  then show ?thesis using pobj_vector_list [OF v(1), of 5] by (intro exI [of _ v]) (auto simp: pv_step_def)
qed

end
