(* ===== verification/Tcpsock.thy ===== *)
theory Tcpsock
  imports Encconv Pcre Numstr "HOL-Library.Multiset"
begin

text \<open>
  \<open>tcpsock\<close> of \<open>tcpsock.cpp\<close> and \<open>tcpsock.h\<close>: descriptors of sockets, files and child processes with
  buffered and timed input and output. What a system call answers is a parameter: its value on success
  or the \<open>errno\<close> of its failure. The operations that close, signal or set up descriptors write what
  they do to the log \<open>ts_sys\<close>, in the order of the code. Locks of the read and write paths are flags; the
  result of a \<open>pthread\<close> lock function is a parameter. Error numbers and flags are those of Linux.
\<close>

subsection \<open>Constants\<close>

type_synonym errno = int

abbreviation (input) EINTR :: errno where "EINTR \<equiv> 4"
abbreviation (input) EAGAIN :: errno where "EAGAIN \<equiv> 11"
abbreviation (input) EBUSY :: errno where "EBUSY \<equiv> 16"
abbreviation (input) EINVAL :: errno where "EINVAL \<equiv> 22"
abbreviation (input) ENOTCONN :: errno where "ENOTCONN \<equiv> 107"
abbreviation (input) ETIMEDOUT :: errno where "ETIMEDOUT \<equiv> 110"
abbreviation (input) EINPROGRESS :: errno where "EINPROGRESS \<equiv> 115"

abbreviation (input) POLLIN :: "16 word" where "POLLIN \<equiv> 0x001"
abbreviation (input) POLLOUT :: "16 word" where "POLLOUT \<equiv> 0x004"
abbreviation (input) POLLERR :: "16 word" where "POLLERR \<equiv> 0x008"
abbreviation (input) POLLHUP :: "16 word" where "POLLHUP \<equiv> 0x010"
abbreviation (input) POLLNVAL :: "16 word" where "POLLNVAL \<equiv> 0x020"
abbreviation (input) POLLRDHUP :: "16 word" where "POLLRDHUP \<equiv> 0x2000"

abbreviation (input) O_RDONLY :: u32 where "O_RDONLY \<equiv> 0"
abbreviation (input) O_WRONLY :: u32 where "O_WRONLY \<equiv> 1"
abbreviation (input) O_RDWR :: u32 where "O_RDWR \<equiv> 2"
abbreviation (input) O_CREAT :: u32 where "O_CREAT \<equiv> 0x40"
abbreviation (input) O_NDELAY :: u32 where "O_NDELAY \<equiv> 0x800"

datatype sock_status = SOCKSTATUS_DISCONNECTED | SOCKSTATUS_CONNECTED

datatype sock_mode = MODE_SOCK | MODE_FD | MODE_EXEC | MODE_FILE | MODE_SERVER

definition RDONLY :: u32 where "RDONLY = 1"
definition WRONLY :: u32 where "WRONLY = 2"
definition RDWR :: u32 where "RDWR = 3"
definition CREATE :: u32 where "CREATE = 4"

definition DEFAULT_TIMEOUT :: int where "DEFAULT_TIMEOUT = - 2"

subsection \<open>The state\<close>

text \<open>Effects on the system.\<close>

datatype sys_effect =
  Sys_close int
| Sys_kill int
| Sys_ndelay int bool
| Sys_write int "byte list"

text \<open>The answers of \<open>poll\<close> (with \<open>revents\<close>), \<open>read\<close> and the calls that return a descriptor.\<close>

datatype poll_ans = Poll_timeout | Poll_error errno | Poll_ready "16 word"

datatype read_ans = Read_error errno | Read_data "byte list"

record 's tcpsock =
  ts_fd :: int
  ts_linebuf :: "byte list"
  ts_enc_me :: "byte list"
  ts_enc_srv :: "byte list"
  ts_conv_m2s :: "'s encconv option"
  ts_conv_s2m :: "'s encconv option"
  ts_bind_address :: "byte list"
  ts_mode :: sock_mode
  ts_status :: sock_status
  ts_e_pid :: int
  ts_e_sendp :: int
  ts_e_recvp :: int
  ts_remote_addr :: "byte list"
  ts_fdattr :: u32
  ts_read_mutex :: bool
  ts_write_mutex :: bool
  ts_last_errno :: errno
  ts_lasterr_str :: "byte list"
  ts_default_timeout :: int
  ts_read_buffer :: "byte list"
  ts_sys :: "sys_effect list"

definition tcpsock_new :: "byte list \<Rightarrow> 's tcpsock" where
  "tcpsock_new default_bind_address =
    \<lparr>ts_fd = - 1, ts_linebuf = [], ts_enc_me = [], ts_enc_srv = [], ts_conv_m2s = None, ts_conv_s2m = None,
     ts_bind_address = default_bind_address, ts_mode = MODE_SOCK, ts_status = SOCKSTATUS_DISCONNECTED,
     ts_e_pid = 0, ts_e_sendp = 0, ts_e_recvp = 0, ts_remote_addr = [], ts_fdattr = 0,
     ts_read_mutex = False, ts_write_mutex = False, ts_last_errno = 0, ts_lasterr_str = [],
     ts_default_timeout = - 1, ts_read_buffer = [], ts_sys = []\<rparr>"

definition sys :: "sys_effect list \<Rightarrow> 's tcpsock \<Rightarrow> 's tcpsock" where
  "sys es s = s\<lparr>ts_sys := ts_sys s @ es\<rparr>"

subsection \<open>Settings and errors\<close>

definition sock_set_encoding :: "'s iconv_lib \<Rightarrow> byte list \<Rightarrow> byte list \<Rightarrow> 's tcpsock \<Rightarrow> int \<times> 's tcpsock" where
  "sock_set_encoding I srv me s =
    (let s = s\<lparr>ts_enc_me := me, ts_enc_srv := srv, ts_conv_m2s := None, ts_conv_s2m := None\<rparr>
     in (0, if me \<noteq> [] \<and> srv \<noteq> [] then
              s\<lparr>ts_conv_m2s := Some (encconv_new I me srv ICONV_TYPE_TRANSLIT),
                ts_conv_s2m := Some (encconv_new I srv me ICONV_TYPE_TRANSLIT)\<rparr>
            else s))"

definition set_bind_address :: "byte list \<Rightarrow> 's tcpsock \<Rightarrow> 's tcpsock" where
  "set_bind_address a s = s\<lparr>ts_bind_address := a\<rparr>"

definition set_default_timeout :: "int \<Rightarrow> 's tcpsock \<Rightarrow> int \<times> 's tcpsock" where
  "set_default_timeout t s = (t, s\<lparr>ts_default_timeout := t\<rparr>)"

definition set_last_error :: "byte list \<Rightarrow> 's tcpsock \<Rightarrow> 's tcpsock" where
  "set_last_error errmsg s = s\<lparr>ts_lasterr_str := errmsg\<rparr>"

text \<open>\<open>strerr\<close> is \<open>strerror\<close>.\<close>

definition set_last_error_with_errno :: "(errno \<Rightarrow> byte list) \<Rightarrow> errno \<Rightarrow> byte list \<Rightarrow> 's tcpsock \<Rightarrow> 's tcpsock" where
  "set_last_error_with_errno strerr e errmsg s =
    s\<lparr>ts_last_errno := e,
      ts_lasterr_str := errmsg @ c_lit '': '' @ int2string e @ c_lit ''('' @ strerr e @ c_lit '')''\<rparr>"

definition timeout_of :: "int \<Rightarrow> 's tcpsock \<Rightarrow> int" where
  "timeout_of timeout s = (if timeout = DEFAULT_TIMEOUT then ts_default_timeout s else timeout)"

definition get_status :: "'s tcpsock \<Rightarrow> sock_status" where
  "get_status s = ts_status s"

text \<open>The host and the port of \<open>host:port\<close>; \<open>pcrecpp\<close> refuses a number that is no \<open>int\<close>.\<close>

definition re_split_addr_port :: "byte list" where
  "re_split_addr_port = c_lit ''^([^:]*+):([0-9]++)$''"

definition split_host_port :: "byte pcre \<Rightarrow> byte list \<Rightarrow> (byte list \<times> int) option" where
  "split_host_port R hostport =
    (case re_full R re_split_addr_port hostport of
       None \<Rightarrow> None
     | Some gs \<Rightarrow> (let port = digits_val (gs ! 1) in if port < 2 ^ 31 then Some (gs ! 0, port) else None))"

subsection \<open>Locks\<close>

text \<open>\<open>ret\<close> is what the \<open>pthread\<close> function returns and \<open>e\<close> the value of \<open>errno\<close> then.\<close>

definition lock_read :: "(errno \<Rightarrow> byte list) \<Rightarrow> int \<Rightarrow> errno \<Rightarrow> 's tcpsock \<Rightarrow> int \<times> 's tcpsock" where
  "lock_read strerr ret e s =
    (let s = (if ret = 0 then s\<lparr>ts_read_mutex := True\<rparr> else s)
     in if ret < 0 \<and> (e = EAGAIN \<or> e = EBUSY \<or> e = ETIMEDOUT)
        then (- 1, set_last_error_with_errno strerr EAGAIN (c_lit ''lock_read - pthread_mutex_lock'') s)
        else (0, s))"

definition unlock_read :: "'s tcpsock \<Rightarrow> 's tcpsock" where
  "unlock_read s = s\<lparr>ts_read_mutex := False\<rparr>"

definition lock_write :: "(errno \<Rightarrow> byte list) \<Rightarrow> int \<Rightarrow> errno \<Rightarrow> 's tcpsock \<Rightarrow> int \<times> 's tcpsock" where
  "lock_write strerr ret e s =
    (let s = (if ret = 0 then s\<lparr>ts_write_mutex := True\<rparr> else s)
     in if ret < 0 \<and> (e = EAGAIN \<or> e = EBUSY \<or> e = ETIMEDOUT)
        then (- 1, set_last_error_with_errno strerr EAGAIN (c_lit ''lock_write - pthread_mutex_lock'') s)
        else (0, s))"

definition unlock_write :: "'s tcpsock \<Rightarrow> 's tcpsock" where
  "unlock_write s = s\<lparr>ts_write_mutex := False\<rparr>"

text \<open>The point in time up to which \<open>pthread_mutex_timedlock2\<close> waits, seconds and nanoseconds, when the
  clock shows \<open>tv_sec\<close> and \<open>tv_usec\<close>.\<close>

definition timedlock2_until :: "int \<Rightarrow> int \<Rightarrow> int \<Rightarrow> int \<times> int" where
  "timedlock2_until tv_sec tv_usec timeout = (0, tv_usec * 1000 + timeout * 1000000)"

subsection \<open>Opening and closing\<close>

definition set_ndelay :: "bool \<Rightarrow> 's tcpsock \<Rightarrow> int \<times> 's tcpsock" where
  "set_ndelay onoff s =
    (if ts_status s \<noteq> SOCKSTATUS_CONNECTED then (- 1, s)
     else if onoff then
       (0, sys [Sys_ndelay (if ts_mode s = MODE_EXEC then ts_e_recvp s else ts_fd s) True]
             (s\<lparr>ts_fdattr := ts_fdattr s OR O_NDELAY\<rparr>))
     else
       (0, sys (if ts_mode s = MODE_EXEC then [Sys_ndelay (ts_e_recvp s) False, Sys_ndelay (ts_e_sendp s) False]
                else [Sys_ndelay (ts_fd s) False])
             (s\<lparr>ts_fdattr := ts_fdattr s AND NOT O_NDELAY\<rparr>)))"

definition setfd :: "int \<Rightarrow> 's tcpsock \<Rightarrow> int \<times> 's tcpsock" where
  "setfd fd s =
    (if ts_status s = SOCKSTATUS_CONNECTED then (- 1, s)
     else (0, snd (set_ndelay True (s\<lparr>ts_fd := fd, ts_mode := MODE_FD, ts_status := SOCKSTATUS_CONNECTED\<rparr>))))"

text \<open>The flags given to \<open>::open\<close>.\<close>

definition open_flags :: "u32 \<Rightarrow> u32" where
  "open_flags openmode =
    (let mode = (if openmode AND RDWR = O_RDWR then O_RDWR
                 else (if openmode AND RDONLY \<noteq> 0 then O_RDONLY else 0) OR
                   (if openmode AND WRONLY \<noteq> 0 then O_WRONLY else 0))
     in if openmode AND CREATE \<noteq> 0 then mode OR O_CREAT else mode)"

text \<open>\<open>opens\<close> is what \<open>::open\<close> does with a name and flags.\<close>

definition sock_open ::
  "(errno \<Rightarrow> byte list) \<Rightarrow> (byte list \<Rightarrow> u32 \<Rightarrow> errno + int) \<Rightarrow> byte list \<Rightarrow> u32 \<Rightarrow> 's tcpsock \<Rightarrow> int \<times> 's tcpsock" where
  "sock_open strerr opens filename openmode s =
    (if ts_status s = SOCKSTATUS_CONNECTED then (- 1, s)
     else (case opens (until_nul filename) (open_flags openmode) of
         Inl e \<Rightarrow> (- 1, set_last_error_with_errno strerr e (c_lit ''open() failed: '') s)
       | Inr fd \<Rightarrow>
           (0, snd (set_ndelay True (s\<lparr>ts_fd := fd, ts_mode := MODE_FILE, ts_status := SOCKSTATUS_CONNECTED\<rparr>)))))"

text \<open>The parent's side of \<open>execute\<close>: \<open>send\<close> and \<open>recv\<close> are the two pipes, reading end first, \<open>pid\<close> what
  \<open>fork\<close> returns.\<close>

definition sock_execute ::
  "(errno \<Rightarrow> byte list) \<Rightarrow> int \<times> int \<Rightarrow> int \<times> int \<Rightarrow> errno + int \<Rightarrow> 's tcpsock \<Rightarrow> int \<times> 's tcpsock" where
  "sock_execute strerr sendp recvp pid s =
    (if ts_status s = SOCKSTATUS_CONNECTED then (- 1, s)
     else (case pid of
         Inl e \<Rightarrow>
           (- 1, sys [Sys_close (fst sendp), Sys_close (snd sendp), Sys_close (fst recvp), Sys_close (snd recvp)]
              (set_last_error_with_errno strerr e (c_lit ''fork() failed: '') s))
       | Inr pid \<Rightarrow>
           (0, snd (set_ndelay True
             ((sys [Sys_close (fst sendp), Sys_close (snd recvp)] s)
               \<lparr>ts_e_sendp := snd sendp, ts_e_recvp := fst recvp, ts_fd := fst recvp, ts_e_pid := pid,
                ts_mode := MODE_EXEC, ts_status := SOCKSTATUS_CONNECTED\<rparr>)))))"

text \<open>What the system does while a connection is made: the error of \<open>gethostbyname\<close> if the name is unknown,
  the socket, the error of \<open>bind\<close>, \<open>connect\<close> and \<open>listen\<close> if there is one, \<open>poll\<close>, and the pending error that
  \<open>getsockopt\<close> finds, 0 if none.\<close>

record conn_sys =
  cs_host :: "errno option"
  cs_socket :: "errno + int"
  cs_bind :: "errno option"
  cs_connect :: "errno option"
  cs_poll :: poll_ans
  cs_so_error :: "errno + int"
  cs_listen :: "errno option"

definition conn_fail ::
  "(errno \<Rightarrow> byte list) \<Rightarrow> errno \<Rightarrow> byte list \<Rightarrow> int \<Rightarrow> 's tcpsock \<Rightarrow> int \<times> 's tcpsock" where
  "conn_fail strerr e msg sock s = (- 1, sys [Sys_close sock] (set_last_error_with_errno strerr e msg s))"

definition conn_established :: "int \<Rightarrow> int \<Rightarrow> 's tcpsock \<Rightarrow> int \<times> 's tcpsock" where
  "conn_established timeout sock s =
    (let s = s\<lparr>ts_fd := sock, ts_mode := MODE_SOCK, ts_status := SOCKSTATUS_CONNECTED\<rparr>
     in (0, if timeout < 0 then snd (set_ndelay True s) else s))"

text \<open>From the call of \<open>::connect\<close> on.\<close>

definition connect_finish ::
  "(errno \<Rightarrow> byte list) \<Rightarrow> conn_sys \<Rightarrow> int \<Rightarrow> int \<Rightarrow> 's tcpsock \<Rightarrow> int \<times> 's tcpsock" where
  "connect_finish strerr C timeout sock s =
    (case cs_connect C of
       None \<Rightarrow> conn_established timeout sock s
     | Some e \<Rightarrow>
         if e = EINPROGRESS then
           (case cs_poll C of
              Poll_error e \<Rightarrow> conn_fail strerr e (c_lit ''poll() failed: '') sock s
            | Poll_timeout \<Rightarrow> conn_fail strerr ETIMEDOUT (c_lit ''delayed connect() failed: '') sock s
            | Poll_ready _ \<Rightarrow>
                (case cs_so_error C of
                   Inl e \<Rightarrow> conn_fail strerr e (c_lit ''getsockopt() failed: '') sock s
                 | Inr ret \<Rightarrow>
                     if ret \<noteq> 0 then conn_fail strerr EINPROGRESS (c_lit ''delayed connect() failed: '') sock s
                     else conn_established timeout sock s))
         else conn_fail strerr e (c_lit ''connect() failed: '') sock s)"

definition connect_sock ::
  "(errno \<Rightarrow> byte list) \<Rightarrow> conn_sys \<Rightarrow> int \<Rightarrow> 's tcpsock \<Rightarrow> int \<times> 's tcpsock" where
  "connect_sock strerr C timeout s =
    (if ts_status s = SOCKSTATUS_CONNECTED then (- 1, s)
     else
       (let timeout = timeout_of timeout s
        in case cs_host C of
             Some e \<Rightarrow> (- 1, set_last_error_with_errno strerr e (c_lit ''gethostbyname() failed: '') s)
           | None \<Rightarrow>
         (case cs_socket C of
            Inl e \<Rightarrow> (- 1, set_last_error_with_errno strerr e (c_lit ''socket() failed: '') s)
          | Inr sock \<Rightarrow>
         (case (if ts_bind_address s \<noteq> [] then cs_bind C else None) of
            Some e \<Rightarrow> conn_fail strerr e (c_lit ''bind() failed: '') sock s
          | None \<Rightarrow>
         (let s = s\<lparr>ts_fd := sock, ts_mode := MODE_SOCK, ts_status := SOCKSTATUS_CONNECTED\<rparr>;
              s = (if timeout \<ge> 0 then snd (set_ndelay True s) else s);
              s = s\<lparr>ts_status := SOCKSTATUS_DISCONNECTED, ts_fd := - 1\<rparr>
          in connect_finish strerr C timeout sock s)))))"

definition sock_connect ::
  "(errno \<Rightarrow> byte list) \<Rightarrow> conn_sys \<Rightarrow> int \<Rightarrow> 's tcpsock \<Rightarrow> int \<times> 's tcpsock" where
  "sock_connect strerr C timeout s = connect_sock strerr C timeout s"

definition sock_listen :: "(errno \<Rightarrow> byte list) \<Rightarrow> conn_sys \<Rightarrow> 's tcpsock \<Rightarrow> int \<times> 's tcpsock" where
  "sock_listen strerr C s =
    (if ts_status s = SOCKSTATUS_CONNECTED then (- 1, s)
     else (case cs_socket C of
         Inl e \<Rightarrow> (- 1, set_last_error_with_errno strerr e (c_lit ''socket() failed: '') s)
       | Inr sock \<Rightarrow>
      (case cs_bind C of
         Some e \<Rightarrow> conn_fail strerr e (c_lit ''bind() failed: '') sock s
       | None \<Rightarrow>
      (case cs_listen C of
         Some e \<Rightarrow> (- 1, set_last_error_with_errno strerr e (c_lit ''listen() failed: '') s)
       | None \<Rightarrow>
           (0, snd (set_ndelay True
             (s\<lparr>ts_fd := sock, ts_mode := MODE_SERVER, ts_status := SOCKSTATUS_CONNECTED\<rparr>)))))))"

definition sock_close :: "'s tcpsock \<Rightarrow> int \<times> 's tcpsock" where
  "sock_close s =
    (if ts_status s \<noteq> SOCKSTATUS_CONNECTED then (- 1, s)
     else
       (let s = (if ts_mode s = MODE_EXEC then
                   (sys [Sys_kill (ts_e_pid s), Sys_close (ts_e_recvp s), Sys_close (ts_e_sendp s)] s)
                     \<lparr>ts_e_recvp := - 1, ts_e_sendp := - 1\<rparr>
                 else (sys [Sys_close (ts_fd s)] s)\<lparr>ts_fd := - 1\<rparr>)
        in (0, s\<lparr>ts_remote_addr := [], ts_read_buffer := [], ts_mode := MODE_SOCK,
                 ts_status := SOCKSTATUS_DISCONNECTED\<rparr>)))"

definition sock_delete :: "'s tcpsock \<Rightarrow> 's tcpsock" where
  "sock_delete s = (snd (sock_close s))\<lparr>ts_conv_m2s := None, ts_conv_s2m := None\<rparr>"

subsection \<open>Reading and writing\<close>

text \<open>\<open>ans\<close> is the answer of \<open>::read\<close>; the results are the return value and the bytes stored.\<close>

definition read_nolock ::
  "(errno \<Rightarrow> byte list) \<Rightarrow> read_ans \<Rightarrow> 's tcpsock \<Rightarrow> (int \<times> byte list) \<times> 's tcpsock" where
  "read_nolock strerr ans s =
    (if ts_status s \<noteq> SOCKSTATUS_CONNECTED then ((- 1, []), s)
     else (case (if ts_mode s = MODE_SERVER then Read_error EINVAL else ans) of
         Read_error e \<Rightarrow> ((- 1, []), set_last_error_with_errno strerr e (c_lit ''read() failed: '') s)
       | Read_data bs \<Rightarrow> ((int (length bs), bs), s)))"

definition sock_read ::
  "(errno \<Rightarrow> byte list) \<Rightarrow> int \<Rightarrow> errno \<Rightarrow> read_ans \<Rightarrow> 's tcpsock \<Rightarrow> (int \<times> byte list) \<times> 's tcpsock" where
  "sock_read strerr lk e ans s =
    (if ts_status s \<noteq> SOCKSTATUS_CONNECTED then ((- 1, []), s)
     else (case lock_read strerr lk e s of
       (ret, s) \<Rightarrow>
         if ret < 0 then ((- 1, []), s)
         else (case read_nolock strerr ans s of (r, s) \<Rightarrow> (r, unlock_read s))))"

text \<open>\<open>ans\<close> is the answer of \<open>::write\<close>, the number of bytes written.\<close>

definition write_nolock ::
  "(errno \<Rightarrow> byte list) \<Rightarrow> errno + nat \<Rightarrow> byte list \<Rightarrow> 's tcpsock \<Rightarrow> int \<times> 's tcpsock" where
  "write_nolock strerr ans data s =
    (if ts_status s \<noteq> SOCKSTATUS_CONNECTED then (- 1, s)
     else (case (if ts_mode s = MODE_SERVER then Inl EINVAL else ans) of
         Inl e \<Rightarrow> (- 1, set_last_error_with_errno strerr e (c_lit ''write() failed: '') s)
       | Inr n \<Rightarrow>
           (int n, sys [Sys_write (if ts_mode s = MODE_EXEC then ts_e_sendp s else ts_fd s) (take n data)] s)))"

definition sock_write ::
  "(errno \<Rightarrow> byte list) \<Rightarrow> int \<Rightarrow> errno \<Rightarrow> errno + nat \<Rightarrow> byte list \<Rightarrow> 's tcpsock \<Rightarrow> int \<times> 's tcpsock" where
  "sock_write strerr lk e ans data s =
    (if ts_status s \<noteq> SOCKSTATUS_CONNECTED then (- 1, s)
     else (case lock_write strerr lk e s of
       (ret, s) \<Rightarrow>
         if ret < 0 then (- 1, s)
         else (case write_nolock strerr ans data s of (r, s) \<Rightarrow> (r, unlock_write s))))"

text \<open>\<open>client\<close> is the descriptor \<open>::accept\<close> gives and the text of its address. The second result is the new
  socket.\<close>

definition sock_accept ::
  "(errno \<Rightarrow> byte list) \<Rightarrow> byte list \<Rightarrow> poll_ans \<Rightarrow> errno + int \<times> byte list \<Rightarrow> 's tcpsock \<Rightarrow>
    (int \<times> 's tcpsock option) \<times> 's tcpsock" where
  "sock_accept strerr default_bind_address poll client s =
    (if ts_status s \<noteq> SOCKSTATUS_CONNECTED \<or> ts_mode s \<noteq> MODE_SERVER then ((- 1, None), s)
     else (case poll of
         Poll_error e \<Rightarrow> ((- 1, None), snd (sock_close (set_last_error_with_errno strerr e (c_lit ''poll() failed: '') s)))
       | Poll_timeout \<Rightarrow> ((0, None), s\<lparr>ts_last_errno := ETIMEDOUT\<rparr>)
       | Poll_ready _ \<Rightarrow>
           (case client of
              Inl e \<Rightarrow>
                if e = EAGAIN then ((0, None), s)
                else ((- 1, None), snd (sock_close (set_last_error_with_errno strerr e (c_lit ''accept() failed: '') s)))
            | Inr (fd, addr) \<Rightarrow>
                ((1, Some (snd (set_ndelay True ((tcpsock_new default_bind_address)
                   \<lparr>ts_mode := MODE_SOCK, ts_status := SOCKSTATUS_CONNECTED, ts_fd := fd,
                    ts_remote_addr := take 15 (until_nul addr)\<rparr>)))), s))))"

text \<open>The answers of the system that a reader consumes, one for each time it waits; a reader that needs more
  is still waiting, None.\<close>

type_synonym script = "(poll_ans \<times> read_ans) list"

text \<open>The error numbers after which a read or a write is tried again.\<close>

definition read_again :: "errno \<Rightarrow> bool" where
  "read_again e \<longleftrightarrow> e = EAGAIN \<or> e = EINTR \<or> e = ETIMEDOUT"

definition write_again :: "errno \<Rightarrow> bool" where
  "write_again e \<longleftrightarrow> e = EAGAIN \<or> e = EINTR \<or> e = EBUSY"

text \<open>What \<open>timed_read_nolock\<close> makes of the answers of \<open>poll\<close> and \<open>read\<close>: the return value, positive for data,
  0 to try again, negative for an error, and what is stored. \<open>errno\<close> at the end of the input is 0.\<close>

definition poll_read ::
  "(errno \<Rightarrow> byte list) \<Rightarrow> poll_ans \<Rightarrow> read_ans \<Rightarrow> 's tcpsock \<Rightarrow> (int \<times> byte list) \<times> 's tcpsock" where
  "poll_read strerr poll ans s =
    (case poll of
       Poll_timeout \<Rightarrow> ((0, []), s)
     | Poll_error e \<Rightarrow>
         if e = EINTR then ((0, []), s)
         else ((- 1, []), snd (sock_close (set_last_error_with_errno strerr e (c_lit ''poll()'') s)))
     | Poll_ready revents \<Rightarrow>
         if revents AND (POLLERR OR POLLHUP OR POLLNVAL) \<noteq> 0 \<and> revents AND POLLIN = 0
         then ((- 1, []), snd (sock_close s))
         else if revents AND POLLRDHUP \<noteq> 0
         then ((- 1, []),
               snd (sock_close (set_last_error (c_lit ''Connection reset by peer (POLLRDHUP received)'') s)))
         else if revents AND POLLIN \<noteq> 0 then
           (case read_nolock strerr ans s of
              ((nread, bs), s) \<Rightarrow>
                if nread < 0 then
                  (if read_again (ts_last_errno s) then ((0, []), s)
                   else if ts_last_errno s = ENOTCONN then ((nread, []), s)
                   else ((- 1, []), snd (sock_close s)))
                else if nread = 0 then
                  ((- 1, []),
                   snd (sock_close (set_last_error_with_errno strerr 0 (c_lit ''EOF (nread == 0)'') s)))
                else ((nread, bs), s))
         else ((1, []), s))"

definition timed_read_nolock ::
  "(errno \<Rightarrow> byte list) \<Rightarrow> nat \<Rightarrow> script \<Rightarrow> 's tcpsock \<Rightarrow> ((int \<times> byte list) \<times> script \<times> 's tcpsock) option" where
  "timed_read_nolock strerr sz script s =
    (if ts_status s \<noteq> SOCKSTATUS_CONNECTED then Some ((- 1, []), script, s)
     else if sz = 0 then Some ((0, []), script, s)
     else if ts_read_buffer s \<noteq> [] then
       (let nread = min sz (length (ts_read_buffer s))
        in Some ((int nread, take nread (ts_read_buffer s)), script,
                 s\<lparr>ts_read_buffer := drop nread (ts_read_buffer s)\<rparr>))
     else if (if ts_mode s = MODE_EXEC then ts_e_recvp s else ts_fd s) < 0 then
       Some ((- 1, []), script, set_last_error_with_errno strerr EINVAL (c_lit ''sock < 0: not connected'') s)
     else (case script of
         [] \<Rightarrow> None
       | (poll, ans) # script \<Rightarrow> (case poll_read strerr poll ans s of (r, s) \<Rightarrow> Some (r, script, s))))"

definition timed_read ::
  "(errno \<Rightarrow> byte list) \<Rightarrow> int \<Rightarrow> errno \<Rightarrow> nat \<Rightarrow> script \<Rightarrow> 's tcpsock \<Rightarrow>
    ((int \<times> byte list) \<times> script \<times> 's tcpsock) option" where
  "timed_read strerr lk e sz script s =
    (if ts_status s \<noteq> SOCKSTATUS_CONNECTED then Some ((- 1, []), script, s)
     else (case lock_read strerr lk e s of
       (ret, s) \<Rightarrow>
         if ret < 0 then Some ((0, []), script, s)
         else map_option (\<lambda>(r, script, s). (r, script, unlock_read s)) (timed_read_nolock strerr sz script s)))"

definition timed_write_nolock ::
  "(errno \<Rightarrow> byte list) \<Rightarrow> poll_ans \<Rightarrow> errno + nat \<Rightarrow> byte list \<Rightarrow> 's tcpsock \<Rightarrow> int \<times> 's tcpsock" where
  "timed_write_nolock strerr poll ans data s =
    (if ts_status s \<noteq> SOCKSTATUS_CONNECTED then (- 1, s)
     else if data = [] then (0, s)
     else if ts_mode s = MODE_EXEC then
       (case write_nolock strerr ans data s of
          (ret, s) \<Rightarrow>
            if ret < 0 then (if read_again (ts_last_errno s) then (0, s) else (- 1, snd (sock_close s)))
            else (ret, s))
     else if ts_fd s < 0 then
       (- 1, set_last_error_with_errno strerr EINVAL (c_lit ''sock < 0: not connected'') s)
     else (case poll of
         Poll_timeout \<Rightarrow> (0, s)
       | Poll_error e \<Rightarrow>
           if e = EINTR then (0, s)
           else (- 1, snd (sock_close (set_last_error_with_errno strerr e (c_lit ''poll()'') s)))
       | Poll_ready revents \<Rightarrow>
           if revents AND (POLLERR OR POLLHUP OR POLLNVAL) \<noteq> 0 \<and> revents AND POLLOUT = 0
           then (- 1, snd (sock_close s))
           else if revents AND POLLOUT \<noteq> 0 then
             (case write_nolock strerr ans data s of
                (ret, s) \<Rightarrow>
                  if ret < 0 then (if write_again (ts_last_errno s) then (0, s) else (- 1, snd (sock_close s)))
                  else if ret = 0 then (- 1, snd (sock_close s))
                  else (ret, s))
           else (1, s)))"

definition timed_write ::
  "(errno \<Rightarrow> byte list) \<Rightarrow> int \<Rightarrow> errno \<Rightarrow> poll_ans \<Rightarrow> errno + nat \<Rightarrow> byte list \<Rightarrow> 's tcpsock \<Rightarrow> int \<times> 's tcpsock" where
  "timed_write strerr lk e poll ans data s =
    (if ts_status s \<noteq> SOCKSTATUS_CONNECTED then (- 1, s)
     else (case lock_write strerr lk e s of
       (ret, s) \<Rightarrow>
         if ret < 0 then (0, s)
         else (case timed_write_nolock strerr poll ans data s of (r, s) \<Rightarrow> (r, unlock_write s))))"

definition append_to_read_buffer :: "byte list \<Rightarrow> 's tcpsock \<Rightarrow> nat \<times> 's tcpsock" where
  "append_to_read_buffer data s = (length data, s\<lparr>ts_read_buffer := ts_read_buffer s @ data\<rparr>)"

definition clear_read_buffer :: "'s tcpsock \<Rightarrow> int \<times> 's tcpsock" where
  "clear_read_buffer s = (0, s\<lparr>ts_read_buffer := []\<rparr>)"

subsection \<open>Sending\<close>

text \<open>The end of \<open>send\<close>, after \<open>timed_write\<close>.\<close>

definition send_result :: "int \<times> 's tcpsock \<Rightarrow> int \<times> 's tcpsock" where
  "send_result r =
    (case r of (ret, s) \<Rightarrow>
       if ret < 0 then
         (if ts_last_errno s = EAGAIN \<or> ts_last_errno s = EINTR then (0, s) else (- 1, snd (sock_close s)))
       else (ret, s))"

text \<open>\<open>strlen\<close> of the null pointer that a failed conversion gives is a fault.\<close>

definition sock_send ::
  "(errno \<Rightarrow> byte list) \<Rightarrow> 's iconv_lib \<Rightarrow> int \<Rightarrow> errno \<Rightarrow> poll_ans \<Rightarrow> errno + nat \<Rightarrow> byte list \<Rightarrow> 's tcpsock \<Rightarrow>
    (c_fault + (int \<times> 's tcpsock)) option" where
  "sock_send strerr I lk e poll ans data s =
    (if ts_status s \<noteq> SOCKSTATUS_CONNECTED then Some (Inr (- 1, s))
     else (case ts_conv_m2s s of
         None \<Rightarrow> Some (Inr (send_result (timed_write strerr lk e poll ans data s)))
       | Some conv \<Rightarrow>
           (case encconv_convert_p I data False conv of
              None \<Rightarrow> None
            | Some (Inl f) \<Rightarrow> Some (Inl f)
            | Some (Inr (None, conv)) \<Rightarrow> Some (Inl Null_deref)
            | Some (Inr (Some newdata, conv)) \<Rightarrow>
                Some (Inr (send_result
                  (timed_write strerr lk e poll ans (until_nul newdata) (s\<lparr>ts_conv_m2s := Some conv\<rparr>)))))))"

subsection \<open>Locks that fail\<close>

text \<open>The \<open>pthread\<close> functions return a positive error number. \<open>lock_read\<close> and \<open>lock_write\<close> test for a negative
  one, so they never fail, and a busy lock is entered and then released for the thread that holds it.\<close>

lemma lock_never_fails:
  "0 \<le> ret \<Longrightarrow> fst (lock_read strerr ret e s) = 0 \<and> fst (lock_write strerr ret e s) = 0"
  by (simp add: lock_read_def lock_write_def)

lemma busy_lock_is_released:
  assumes "ts_status s = SOCKSTATUS_CONNECTED" "ts_mode s \<noteq> MODE_SERVER" "ts_read_mutex s"
  shows "sock_read strerr EBUSY EBUSY (Read_data bs) s = ((int (length bs), bs), s\<lparr>ts_read_mutex := False\<rparr>)"
  using assms by (simp add: sock_read_def lock_read_def read_nolock_def unlock_read_def)

text \<open>A timed lock never waits: it ends in the first seconds of 1970.\<close>

lemma timedlock2_past:
  assumes "4 \<le> tv_sec" "0 \<le> tv_usec" "tv_usec < 1000000" "timeout \<le> 2147"
  shows "(case timedlock2_until tv_sec tv_usec timeout of (sec, nsec) \<Rightarrow> sec * 1000000000 + nsec) <
    tv_sec * 1000000000 + tv_usec * 1000"
  using assms by (simp add: timedlock2_until_def)

text \<open>The modes that \<open>open\<close> passes on: the default, \<open>RDWR\<close>, opens a file for writing only, \<open>WRONLY\<close> for both.\<close>

lemma open_modes:
  "open_flags RDWR = O_WRONLY" "open_flags WRONLY = O_RDWR" "open_flags RDONLY = O_RDONLY"
  by (simp_all add: open_flags_def RDWR_def WRONLY_def RDONLY_def CREATE_def)

text \<open>A socket whose character set the library does not know crashes when something is sent.\<close>

lemma send_unknown_charset:
  assumes "ts_status s = SOCKSTATUS_CONNECTED" "ic_open I (until_nul (srv @ c_lit ''//TRANSLIT'')) (until_nul me) = None"
    and "me \<noteq> []" "srv \<noteq> []"
  shows "sock_send strerr I lk e poll ans data (snd (sock_set_encoding I srv me s)) = Some (Inl Null_deref)"
  using assms by (simp add: sock_send_def sock_set_encoding_def encconv_new_def encconv_open_def encconv_close_def
      encconv_default_def encconv_convert_p_def encconv_convert_def Let_def)

subsection \<open>Descriptors\<close>

text \<open>The descriptors closed so far, in order, and those the socket holds.\<close>

fun closed_fd :: "sys_effect \<Rightarrow> int list" where
  "closed_fd (Sys_close fd) = [fd]"
| "closed_fd _ = []"

definition closed :: "'s tcpsock \<Rightarrow> int list" where
  "closed s = concat (map closed_fd (ts_sys s))"

definition owned :: "'s tcpsock \<Rightarrow> int list" where
  "owned s =
    (if ts_status s \<noteq> SOCKSTATUS_CONNECTED then []
     else if ts_mode s = MODE_EXEC then [ts_e_recvp s, ts_e_sendp s] else [ts_fd s])"

text \<open>Any life of a socket: the descriptors the system has given to it and the state. \<open>listen\<close> on a descriptor
  that is bound has to succeed; reading and writing only ever close.\<close>

inductive sock_life :: "int list \<Rightarrow> 's tcpsock \<Rightarrow> bool" where
  life_new: "sock_life [] (tcpsock_new a)"
| life_setfd: "sock_life os s \<Longrightarrow> setfd fd s = (ret, s') \<Longrightarrow> sock_life (if ret = 0 then os @ [fd] else os) s'"
| life_open: "sock_life os s \<Longrightarrow> sock_open strerr opens name mode s = (ret, s') \<Longrightarrow>
    sock_life (if ret = 0 then os @ [projr (opens (until_nul name) (open_flags mode))] else os) s'"
| life_execute: "sock_life os s \<Longrightarrow> sock_execute strerr sendp recvp pid s = (ret, s') \<Longrightarrow>
    sock_life (if ts_status s = SOCKSTATUS_CONNECTED then os
               else os @ [fst sendp, snd sendp, fst recvp, snd recvp]) s'"
| life_connect: "sock_life os s \<Longrightarrow> sock_connect strerr C timeout s = (ret, s') \<Longrightarrow>
    sock_life (if ts_status s = SOCKSTATUS_CONNECTED \<or> cs_host C \<noteq> None \<or> isl (cs_socket C) then os
               else os @ [projr (cs_socket C)]) s'"
| life_listen: "sock_life os s \<Longrightarrow> sock_listen strerr C s = (ret, s') \<Longrightarrow> cs_listen C = None \<Longrightarrow>
    sock_life (if ts_status s = SOCKSTATUS_CONNECTED \<or> isl (cs_socket C) then os
               else os @ [projr (cs_socket C)]) s'"
| life_accept: "sock_life os s \<Longrightarrow> sock_accept strerr a poll client s = (r, s') \<Longrightarrow> sock_life os s'"
| life_close: "sock_life os s \<Longrightarrow> sock_close s = (ret, s') \<Longrightarrow> sock_life os s'"
| life_ndelay: "sock_life os s \<Longrightarrow> set_ndelay onoff s = (ret, s') \<Longrightarrow> sock_life os s'"
| life_read: "sock_life os s \<Longrightarrow> timed_read strerr lk e sz script s = Some (r, script', s') \<Longrightarrow> sock_life os s'"
| life_write: "sock_life os s \<Longrightarrow> timed_write strerr lk e poll ans data s = (r, s') \<Longrightarrow> sock_life os s'"
| life_buffer: "sock_life os s \<Longrightarrow> sock_life os (snd (append_to_read_buffer data s))"
| life_send: "sock_life os s \<Longrightarrow> sock_send strerr I lk e poll ans data s = Some (Inr (r, s')) \<Longrightarrow> sock_life os s'"
| life_encoding: "sock_life os s \<Longrightarrow> sock_life os (snd (sock_set_encoding I srv me s))"
| life_delete: "sock_life os s \<Longrightarrow> sock_life os (sock_delete s)"

definition balance :: "'s tcpsock \<Rightarrow> int multiset" where
  "balance s = mset (closed s) + mset (owned s)"

named_theorems sock_balance \<open>the descriptors that an operation leaves closed or owned\<close>

lemmas sock_fields = closed_def owned_def balance_def sys_def

lemma balance_error [sock_balance]:
  "balance (set_last_error_with_errno strerr e m s) = balance s"
  "ts_status (set_last_error_with_errno strerr e m s) = ts_status s"
  "balance (set_last_error m s) = balance s"
  by (simp_all add: sock_fields set_last_error_with_errno_def set_last_error_def)

lemma balance_lock [sock_balance]:
  "lock_read strerr ret e s = (r, s') \<Longrightarrow> balance s' = balance s"
  "balance (unlock_read s) = balance s"
  "lock_write strerr ret e s = (r, s') \<Longrightarrow> balance s' = balance s"
  "balance (unlock_write s) = balance s"
  by (auto simp: lock_read_def lock_write_def unlock_read_def unlock_write_def sock_fields
      set_last_error_with_errno_def Let_def split: if_splits)

lemma balance_close [sock_balance]: "balance (snd (sock_close s)) = balance s"
  by (cases "ts_mode s") (simp_all add: sock_close_def sock_fields Let_def)

lemma close_status [simp]: "ts_status (snd (sock_close s)) = SOCKSTATUS_DISCONNECTED"
  by (cases "ts_status s") (simp_all add: sock_close_def Let_def)

lemma balance_ndelay [sock_balance]: "balance (snd (set_ndelay onoff s)) = balance s"
  by (simp add: set_ndelay_def sock_fields)

lemma ndelay_fields [simp]:
  "ts_status (snd (set_ndelay onoff s)) = ts_status s" "owned (snd (set_ndelay onoff s)) = owned s"
  "closed (snd (set_ndelay onoff s)) = closed s" "ts_mode (snd (set_ndelay onoff s)) = ts_mode s"
  by (simp_all add: set_ndelay_def sock_fields)

lemma balance_read_nolock [sock_balance]: "read_nolock strerr ans s = (r, s') \<Longrightarrow> balance s' = balance s"
  by (auto simp: read_nolock_def sock_balance split: if_splits read_ans.splits)

lemma balance_write_nolock [sock_balance]: "write_nolock strerr ans data s = (r, s') \<Longrightarrow> balance s' = balance s"
  by (auto simp: write_nolock_def sock_balance split: if_splits sum.splits) (auto simp: sock_fields)

lemma balance_poll_read [sock_balance]: "poll_read strerr poll ans s = (r, s') \<Longrightarrow> balance s' = balance s"
  by (auto simp: poll_read_def sock_balance dest!: balance_read_nolock
      split: if_splits poll_ans.splits prod.splits)

lemma balance_timed_read_nolock [sock_balance]:
  "timed_read_nolock strerr sz script s = Some (r, script', s') \<Longrightarrow> balance s' = balance s"
  by (auto simp: timed_read_nolock_def Let_def sock_balance dest!: balance_poll_read
      split: if_splits list.splits prod.splits) (auto simp: sock_fields)

lemma balance_timed_read [sock_balance]:
  "timed_read strerr lk e sz script s = Some (r, script', s') \<Longrightarrow> balance s' = balance s"
  by (auto simp: timed_read_def sock_balance dest!: balance_timed_read_nolock balance_lock(1)
      split: if_splits prod.splits)

lemma balance_timed_write_nolock [sock_balance]:
  "timed_write_nolock strerr poll ans data s = (r, s') \<Longrightarrow> balance s' = balance s"
  by (auto simp: timed_write_nolock_def sock_balance dest!: balance_write_nolock
      split: if_splits poll_ans.splits prod.splits)

lemma balance_timed_write [sock_balance]:
  "timed_write strerr lk e poll ans data s = (r, s') \<Longrightarrow> balance s' = balance s"
  by (auto simp: timed_write_def sock_balance dest!: balance_timed_write_nolock balance_lock(3)
      split: if_splits prod.splits)

lemma balance_send [sock_balance]:
  "sock_send strerr I lk e poll ans data s = Some (Inr (r, s')) \<Longrightarrow> balance s' = balance s"
  by (auto simp: sock_send_def send_result_def sock_balance dest!: balance_timed_write
      split: if_splits option.splits sum.splits prod.splits) (auto simp: sock_fields)

lemma balance_accept [sock_balance]:
  "sock_accept strerr a poll client s = (r, s') \<Longrightarrow> balance s' = balance s"
  by (auto simp: sock_accept_def sock_balance split: if_splits poll_ans.splits sum.splits prod.splits)
     (auto simp: sock_fields)

lemma balance_other [sock_balance]:
  "balance (snd (append_to_read_buffer data s)) = balance s"
  "balance (snd (sock_set_encoding I srv me s)) = balance s"
  "balance (sock_delete s) = balance s"
proof -
  show "balance (sock_delete s) = balance s"
    using balance_close [of s] by (simp add: sock_delete_def sock_fields)
qed (simp_all add: append_to_read_buffer_def sock_set_encoding_def sock_fields Let_def)

text \<open>A socket that takes over a descriptor.\<close>

lemma balance_take:
  assumes "ts_status s \<noteq> SOCKSTATUS_CONNECTED" "m \<noteq> MODE_EXEC"
  shows "balance (s\<lparr>ts_fd := fd, ts_mode := m, ts_status := SOCKSTATUS_CONNECTED\<rparr>) = add_mset fd (balance s)"
  using assms by (simp add: sock_fields)

lemma balance_conn_fail:
  "ts_status s \<noteq> SOCKSTATUS_CONNECTED \<Longrightarrow> conn_fail strerr e m sock s = (ret, s') \<Longrightarrow>
    balance s' = add_mset sock (balance s)"
  by (auto simp: conn_fail_def sock_fields set_last_error_with_errno_def)

lemma balance_established:
  "ts_status s \<noteq> SOCKSTATUS_CONNECTED \<Longrightarrow> conn_established timeout sock s = (ret, s') \<Longrightarrow>
    balance s' = add_mset sock (balance s)"
  by (auto simp: conn_established_def Let_def balance_take sock_balance split: if_splits)

lemma balance_connect_finish:
  "ts_status s \<noteq> SOCKSTATUS_CONNECTED \<Longrightarrow> connect_finish strerr C timeout sock s = (ret, s') \<Longrightarrow>
    balance s' = add_mset sock (balance s)"
  by (auto simp: connect_finish_def dest: balance_conn_fail balance_established
      split: option.splits if_splits poll_ans.splits sum.splits)

lemma balance_setfd:
  assumes "setfd fd s = (ret, s')"
  shows "balance s' = (if ret = 0 then {#fd#} else {#}) + balance s"
  using assms by (auto simp: setfd_def sock_balance balance_take split: if_splits)

lemma balance_open:
  assumes "sock_open strerr opens name mode s = (ret, s')"
  shows "balance s' = (if ret = 0 then {#projr (opens (until_nul name) (open_flags mode))#} else {#}) + balance s"
  using assms by (auto simp: sock_open_def sock_balance balance_take split: if_splits sum.splits)

lemma balance_execute:
  assumes "sock_execute strerr sendp recvp pid s = (ret, s')"
  shows "balance s' = (if ts_status s = SOCKSTATUS_CONNECTED then {#}
    else {#fst sendp, snd sendp, fst recvp, snd recvp#}) + balance s"
  using assms
  by (cases "ts_status s") (auto simp: sock_execute_def sock_balance split: if_splits sum.splits,
      auto simp: sock_fields set_last_error_with_errno_def)

lemma connect_tmp_state:
  assumes "ts_status s \<noteq> SOCKSTATUS_CONNECTED"
  shows "balance ((if P then snd (set_ndelay True (s\<lparr>ts_fd := sock, ts_mode := MODE_SOCK, ts_status := SOCKSTATUS_CONNECTED\<rparr>))
      else s\<lparr>ts_fd := sock, ts_mode := MODE_SOCK, ts_status := SOCKSTATUS_CONNECTED\<rparr>)
        \<lparr>ts_status := SOCKSTATUS_DISCONNECTED, ts_fd := - 1\<rparr>) = balance s"
  using assms by (simp add: set_ndelay_def sock_fields)

lemma balance_connect:
  assumes "sock_connect strerr C timeout s = (ret, s')"
  shows "balance s' = (if ts_status s = SOCKSTATUS_CONNECTED \<or> cs_host C \<noteq> None \<or> isl (cs_socket C) then {#}
    else {#projr (cs_socket C)#}) + balance s"
proof (cases "ts_status s = SOCKSTATUS_CONNECTED \<or> cs_host C \<noteq> None \<or> isl (cs_socket C)")
  case True
  then show ?thesis using assms
    by (auto simp: sock_connect_def connect_sock_def Let_def sock_balance split: if_splits option.splits sum.splits)
next
  case False
  then obtain sock where sock: "cs_socket C = Inr sock" and st: "ts_status s \<noteq> SOCKSTATUS_CONNECTED"
    and host: "cs_host C = None" by (cases "cs_socket C") auto
  show ?thesis
  proof (cases "if ts_bind_address s \<noteq> [] then cs_bind C else None")
    case (Some e)
    then show ?thesis using assms sock st host
      by (auto simp: sock_connect_def connect_sock_def Let_def dest!: balance_conn_fail [OF st] split: if_splits)
  next
    case None
    then show ?thesis using assms sock st host unfolding sock_connect_def connect_sock_def Let_def
      by (auto simp del: ndelay_fields split: option.splits dest!: balance_connect_finish [rotated]
          simp: connect_tmp_state [OF st])
  qed
qed

lemma balance_listen:
  assumes "sock_listen strerr C s = (ret, s')" "cs_listen C = None"
  shows "balance s' = (if ts_status s = SOCKSTATUS_CONNECTED \<or> isl (cs_socket C) then {#}
    else {#projr (cs_socket C)#}) + balance s"
  using assms
  by (auto simp: sock_listen_def sock_balance balance_take dest!: balance_conn_fail [rotated]
      split: if_splits option.splits sum.splits)

text \<open>C8: No socket leaks a descriptor or closes one twice: in every state of its life the descriptors it has
  been given are those it has closed and those it holds, each as often as it was given. After \<open>close\<close> or the
  destructor all of them have been closed. The failure of \<open>listen\<close> after a successful \<open>bind\<close> is left out of
  the lives: it forgets its descriptor without closing it.\<close>

theorem descriptors_balanced:
  assumes "sock_life os s"
  shows "mset os = mset (closed s) + mset (owned s) \<and> mset os = mset (closed (snd (sock_close s)))"
proof -
  have "mset os = balance s" using assms
  proof induction
    case (life_new a)
    then show ?case by (simp add: tcpsock_new_def sock_fields)
  next
    case (life_setfd os s fd ret s')
    then show ?case by (simp add: balance_setfd)
  next
    case (life_open os s strerr opens name mode ret s')
    then show ?case by (simp add: balance_open)
  next
    case (life_execute os s strerr sendp recvp pid ret s')
    then show ?case by (simp add: balance_execute)
  next
    case (life_connect os s strerr C timeout ret s')
    then show ?case by (simp add: balance_connect)
  next
    case (life_listen os s strerr C ret s')
    then show ?case by (simp add: balance_listen)
  next
    case (life_close os s ret s')
    then show ?case using balance_close [of s] by simp
  next
    case (life_ndelay os s onoff ret s')
    then show ?case using balance_ndelay [of onoff s] by simp
  qed (simp_all add: balance_accept balance_timed_read balance_timed_write balance_send balance_other)
  moreover have "balance (snd (sock_close s)) = mset (closed (snd (sock_close s)))"
    by (simp add: balance_def owned_def)
  ultimately show ?thesis using balance_close [of s] by (simp add: balance_def)
qed

definition conn_sys_witness :: conn_sys where
  "conn_sys_witness = \<lparr>cs_host = None, cs_socket = Inr 7, cs_bind = None, cs_connect = Some EINPROGRESS,
     cs_poll = Poll_timeout, cs_so_error = Inr 0, cs_listen = Some 98\<rparr>"

lemma descriptors_balanced_witness:
  "\<exists>s :: unit tcpsock. sock_life [7, 8] s \<and> closed s = [7] \<and> owned s = [8] \<and> mset [7, 8] = mset (closed s) + mset (owned s)"
proof -
  let ?c = "sock_connect (\<lambda>_. []) conn_sys_witness 100 (tcpsock_new [] :: unit tcpsock)"
  have life: "sock_life [7, 8] (snd (setfd 8 (snd ?c)))"
    using life_setfd [OF life_connect [OF life_new, of "\<lambda>_. []" conn_sys_witness 100 "[]" "fst ?c" "snd ?c"],
        of 8 0 "snd (setfd 8 (snd ?c))"]
    by (simp add: conn_sys_witness_def setfd_def sock_connect_def connect_sock_def connect_finish_def conn_fail_def
        tcpsock_new_def timeout_of_def DEFAULT_TIMEOUT_def set_ndelay_def sys_def set_last_error_with_errno_def Let_def)
  have "closed (snd (setfd 8 (snd ?c))) = [7]" "owned (snd (setfd 8 (snd ?c))) = [8]"
    by (simp_all add: conn_sys_witness_def setfd_def sock_connect_def connect_sock_def connect_finish_def conn_fail_def
        tcpsock_new_def timeout_of_def DEFAULT_TIMEOUT_def set_ndelay_def sock_fields set_last_error_with_errno_def Let_def)
  then show ?thesis using descriptors_balanced [OF life] life by (intro exI [of _ "snd (setfd 8 (snd ?c))"]) (simp add: add_mset_commute)
qed

text \<open>A failing \<open>listen\<close> leaves the descriptor open and unowned.\<close>

lemma listen_leaks:
  "ts_status s = SOCKSTATUS_DISCONNECTED \<Longrightarrow> cs_socket C = Inr sock \<Longrightarrow> cs_bind C = None \<Longrightarrow> cs_listen C = Some e \<Longrightarrow>
    fst (sock_listen strerr C s) = - 1 \<and> closed (snd (sock_listen strerr C s)) = closed s \<and>
    owned (snd (sock_listen strerr C s)) = []"
  by (simp add: sock_listen_def sock_fields set_last_error_with_errno_def)

end
