(* ===== verification/Tcpline.thy ===== *)
theory Tcpline
  imports Tcpsock
begin

text \<open>
  Reading lines and blocks of exact size from a socket (\<open>tcpsock::readline\<close>, \<open>readline_delim\<close>,
  \<open>operator>>\<close> and \<open>timed_read_acc\<close> of \<open>tcpsock.cpp\<close>). The loops run over the answers of the system, the
  script: a run that needs more answers than the script has is still waiting, None. The theorems relate
  the lines a caller gets to the bytes on the wire, however these are cut into pieces.
\<close>

subsection \<open>Lines\<close>

text \<open>One block of bytes: \<open>linebuf\<close>, and what follows the character that ends the line, if one does.\<close>

fun readline_scan :: "int \<Rightarrow> byte list \<Rightarrow> byte list \<Rightarrow> byte list \<times> byte list option" where
  "readline_scan maxsize [] linebuf = (linebuf, None)"
| "readline_scan maxsize (c # buf) linebuf =
    (if c = 0x0D \<or> c = 0 then readline_scan maxsize buf linebuf
     else if c = 0x0A \<or> int (length linebuf) > maxsize then (linebuf, Some buf)
     else readline_scan maxsize buf (linebuf @ [c]))"

fun delim_scan :: "byte \<Rightarrow> int \<Rightarrow> byte list \<Rightarrow> byte list \<Rightarrow> byte list \<times> byte list option" where
  "delim_scan delim maxsize [] linebuf = (linebuf, None)"
| "delim_scan delim maxsize (c # buf) linebuf =
    (if c = delim \<or> int (length linebuf) > maxsize then (linebuf, Some buf)
     else delim_scan delim maxsize buf (linebuf @ [c]))"

datatype read_end = Read_finished | Read_timeout | Read_sockerr

lemma poll_read_buffer:
  assumes "poll_read strerr poll ans s = (r, s')" "ts_read_buffer s = []"
  shows "ts_read_buffer s' = []"
proof -
  have close: "ts_read_buffer t = [] \<Longrightarrow> ts_read_buffer (snd (sock_close t)) = []" for t :: "'a tcpsock"
    by (simp add: sock_close_def Let_def sys_def)
  have rd: "read_nolock strerr ans s = (x, t) \<Longrightarrow> ts_read_buffer t = []" for x t
    using assms(2) by (auto simp: read_nolock_def set_last_error_with_errno_def split: if_splits read_ans.splits)
  show ?thesis using assms
    by (auto simp: poll_read_def set_last_error_def set_last_error_with_errno_def intro!: close dest!: rd
        split: poll_ans.splits if_splits prod.splits)
qed

lemma timed_read_nolock_progress:
  assumes "timed_read_nolock strerr sz script s = Some ((ret, bs), script', s')" "0 < ret"
  shows "length script' + length (ts_read_buffer s') < length script + length (ts_read_buffer s)"
  using assms
  by (auto simp: timed_read_nolock_def Let_def dest!: poll_read_buffer split: if_splits list.splits prod.splits)

text \<open>The loop, for the scan of either function: how it ends, whether a fault stops it.\<close>

function (sequential) line_loop ::
  "(errno \<Rightarrow> byte list) \<Rightarrow> (byte list \<Rightarrow> byte list \<Rightarrow> byte list \<times> byte list option) \<Rightarrow> script \<Rightarrow> 's tcpsock \<Rightarrow>
    (c_fault + (read_end \<times> script \<times> 's tcpsock)) option" where
  "line_loop strerr scan script s =
    (case timed_read_nolock strerr 512 script s of
       None \<Rightarrow> None
     | Some ((ret, buf), script, s) \<Rightarrow>
         if ret < 0 then Some (Inr (if ts_linebuf s \<noteq> [] then Read_finished else Read_sockerr, script, s))
         else if ret = 0 then Some (Inr (Read_timeout, script, s))
         else if ret > 512 then Some (Inl Assert_failed)
         else if int (length buf) < ret then Some (Inl Read_past_end)
         else
           (case scan buf (ts_linebuf s) of
              (linebuf, Some rest) \<Rightarrow>
                Some (Inr (Read_finished, script,
                  (if rest \<noteq> [] then snd (append_to_read_buffer rest s) else s)\<lparr>ts_linebuf := linebuf\<rparr>))
            | (linebuf, None) \<Rightarrow> line_loop strerr scan script (s\<lparr>ts_linebuf := linebuf\<rparr>)))"
  by pat_completeness auto
termination
  by (relation "measure (\<lambda>(strerr, scan, script, s). length script + length (ts_read_buffer s))")
     (auto dest: timed_read_nolock_progress)

declare line_loop.simps [simp del]

text \<open>What a \<open>readline\<close> returns: its value, the string, the script left and the socket.\<close>

type_synonym 's line_result = "(c_fault + ((int \<times> byte list) \<times> script \<times> 's tcpsock)) option"

text \<open>After \<open>read_finished\<close>.\<close>

definition read_finished :: "'s iconv_lib \<Rightarrow> script \<Rightarrow> 's tcpsock \<Rightarrow> 's line_result" where
  "read_finished I script s =
    (case ts_conv_s2m s of
       None \<Rightarrow> Some (Inr ((int (length (ts_linebuf s)), ts_linebuf s), script, s\<lparr>ts_linebuf := []\<rparr>))
     | Some conv \<Rightarrow>
         (case encconv_convert_v I (ts_linebuf s) False conv of
            None \<Rightarrow> None
          | Some (Inl f) \<Rightarrow> Some (Inl f)
          | Some (Inr (dest, conv)) \<Rightarrow>
              Some (Inr ((int (length (ts_linebuf s)), dest), script,
                         s\<lparr>ts_conv_s2m := Some conv, ts_linebuf := []\<rparr>))))"

definition read_line_with ::
  "(errno \<Rightarrow> byte list) \<Rightarrow> 's iconv_lib \<Rightarrow> int \<Rightarrow> errno \<Rightarrow> (byte list \<Rightarrow> byte list \<Rightarrow> byte list \<times> byte list option) \<Rightarrow>
    script \<Rightarrow> 's tcpsock \<Rightarrow> 's line_result" where
  "read_line_with strerr I lk e scan script s =
    (if ts_status s \<noteq> SOCKSTATUS_CONNECTED then Some (Inr ((- 2, []), script, s))
     else (case lock_read strerr lk e s of
       (ret, s) \<Rightarrow>
         if ret < 0 then Some (Inr ((- 1, []), script, s))
         else
           (case line_loop strerr scan script s of
              None \<Rightarrow> None
            | Some (Inl f) \<Rightarrow> Some (Inl f)
            | Some (Inr (r, script, s)) \<Rightarrow>
                (case r of
                   Read_sockerr \<Rightarrow> Some (Inr ((- 2, []), script, unlock_read s))
                 | Read_timeout \<Rightarrow> Some (Inr ((- 1, []), script, unlock_read s))
                 | Read_finished \<Rightarrow>
                     map_option (map_sum id (\<lambda>(r, script, s). (r, script, unlock_read s))) (read_finished I script s)))))"

definition max_of :: "int \<Rightarrow> int" where
  "max_of maxsize = (if maxsize < 0 then 2147483647 else maxsize)"

definition readline ::
  "(errno \<Rightarrow> byte list) \<Rightarrow> 's iconv_lib \<Rightarrow> int \<Rightarrow> errno \<Rightarrow> int \<Rightarrow> script \<Rightarrow> 's tcpsock \<Rightarrow> 's line_result" where
  "readline strerr I lk e maxsize script s =
    read_line_with strerr I lk e (readline_scan (max_of maxsize)) script s"

definition readline_delim ::
  "(errno \<Rightarrow> byte list) \<Rightarrow> 's iconv_lib \<Rightarrow> int \<Rightarrow> errno \<Rightarrow> byte \<Rightarrow> int \<Rightarrow> script \<Rightarrow> 's tcpsock \<Rightarrow> 's line_result" where
  "readline_delim strerr I lk e delim maxsize script s =
    read_line_with strerr I lk e (delim_scan delim (max_of maxsize)) script s"

text \<open>\<open>operator>>\<close>, which does not return while nothing but timeouts happens.\<close>

partial_function (option) op_read ::
  "(errno \<Rightarrow> byte list) \<Rightarrow> 's iconv_lib \<Rightarrow> int \<Rightarrow> errno \<Rightarrow> script \<Rightarrow> 's tcpsock \<Rightarrow> 's line_result" where
  "op_read strerr I lk e script s =
    (case readline strerr I lk e 65535 script s of
       None \<Rightarrow> None
     | Some r \<Rightarrow>
         (case r of
            Inl f \<Rightarrow> Some (Inl f)
          | Inr ((ret, str), script, s) \<Rightarrow>
              if ret = - 1 then op_read strerr I lk e script s else Some (Inr ((ret, str), script, s))))"

subsection \<open>Blocks\<close>

text \<open>Division of the C language.\<close>

definition c_quot :: "int \<Rightarrow> int \<Rightarrow> int" where
  "c_quot a b = (if a < 0 then - (- a div b) else a div b)"

text \<open>The loop of \<open>timed_read_acc\<close>: \<open>elapsed k\<close> is the time that has passed after the \<open>k\<close>-th read. The result is
  the last return value, \<open>totalread\<close>, the buffer, the script left and the socket.\<close>

function (sequential) acc_loop ::
  "(errno \<Rightarrow> byte list) \<Rightarrow> (nat \<Rightarrow> int) \<Rightarrow> nat \<Rightarrow> int \<Rightarrow> nat \<Rightarrow> nat \<Rightarrow> byte list \<Rightarrow> script \<Rightarrow> 's tcpsock \<Rightarrow>
    (int \<times> nat \<times> byte list \<times> script \<times> 's tcpsock) option" where
  "acc_loop strerr elapsed sz timeout k totalread dest script s =
    (case timed_read_nolock strerr (sz - totalread) script s of
       None \<Rightarrow> None
     | Some ((ret, bs), script, s) \<Rightarrow>
         if ret \<le> 0 then Some (ret, totalread, dest, script, s)
         else
           (let totalread = totalread + nat ret; dest = bs @ drop (length bs) dest
            in if totalread = sz then Some (ret, totalread, dest, script, s)
               else if elapsed k \<le> c_quot timeout 1000
               then acc_loop strerr elapsed sz timeout (Suc k) (min totalread sz) dest script s
               else Some (ret, min totalread sz, dest, script, s)))"
  by pat_completeness auto
termination
  by (relation "measure (\<lambda>(strerr, elapsed, sz, timeout, k, totalread, dest, script, s).
        length script + length (ts_read_buffer s))")
     (auto dest: timed_read_nolock_progress)

declare acc_loop.simps [simp del]

text \<open>\<open>dest\<close> is the buffer before the call, the third result after it.\<close>

definition timed_read_acc ::
  "(errno \<Rightarrow> byte list) \<Rightarrow> (nat \<Rightarrow> int) \<Rightarrow> int \<Rightarrow> errno \<Rightarrow> nat \<Rightarrow> int \<Rightarrow> byte list \<Rightarrow> script \<Rightarrow> 's tcpsock \<Rightarrow>
    ((int \<times> byte list) \<times> script \<times> 's tcpsock) option" where
  "timed_read_acc strerr elapsed lk e sz timeout dest script s =
    (if ts_status s \<noteq> SOCKSTATUS_CONNECTED then Some ((- 1, dest), script, s)
     else
       (let timeout = timeout_of timeout s
        in case lock_read strerr lk e s of
             (ret, s) \<Rightarrow>
               if ret < 0 then Some ((0, dest), script, s)
               else
                 map_option
                   (\<lambda>(ret, totalread, dest, script, s).
                      if totalread < sz then
                        (if ts_status s = SOCKSTATUS_CONNECTED
                         then ((0, dest), script, unlock_read (snd (append_to_read_buffer (take totalread dest) s)))
                         else ((- 1, dest), script, unlock_read s))
                      else ((ret, dest), script, unlock_read s))
                   (acc_loop strerr elapsed sz timeout 0 0 dest script s)))"

subsection \<open>The bytes on the wire\<close>

fun wire :: "script \<Rightarrow> byte list" where
  "wire [] = []"
| "wire (a # script) =
    (case a of (Poll_ready revents, Read_data bs) \<Rightarrow> bs | _ \<Rightarrow> []) @ wire script"

text \<open>Answers while the connection lives: data, at most what fits the buffer, or none for the moment.\<close>

definition data_ans :: "poll_ans \<times> read_ans \<Rightarrow> bool" where
  "data_ans a \<longleftrightarrow> (\<exists>bs. a = (Poll_ready POLLIN, Read_data bs) \<and> bs \<noteq> [] \<and> length bs \<le> 512)"

definition quiet_ans :: "poll_ans \<times> read_ans \<Rightarrow> bool" where
  "quiet_ans a \<longleftrightarrow> fst a = Poll_timeout \<or> fst a = Poll_error EINTR \<or>
    (\<exists>e. a = (Poll_ready POLLIN, Read_error e) \<and> read_again e)"

definition live :: "script \<Rightarrow> bool" where
  "live script \<longleftrightarrow> (\<forall>a \<in> set script. data_ans a \<or> quiet_ans a)"

definition reader :: "'s tcpsock \<Rightarrow> bool" where
  "reader s \<longleftrightarrow> ts_status s = SOCKSTATUS_CONNECTED \<and> ts_mode s \<noteq> MODE_SERVER \<and>
    (ts_mode s = MODE_EXEC \<longrightarrow> 0 \<le> ts_e_recvp s) \<and> (ts_mode s \<noteq> MODE_EXEC \<longrightarrow> 0 \<le> ts_fd s) \<and>
    ts_conv_s2m s = None \<and> length (ts_read_buffer s) \<le> 512"

definition pending :: "script \<Rightarrow> 's tcpsock \<Rightarrow> byte list" where
  "pending script s = ts_read_buffer s @ wire script"

lemma live_Cons [simp]: "live (a # script) \<longleftrightarrow> (data_ans a \<or> quiet_ans a) \<and> live script"
  by (auto simp: live_def)

lemma wire_quiet: "quiet_ans a \<Longrightarrow> wire (a # script) = wire script"
  by (cases a) (auto simp: quiet_ans_def split: poll_ans.splits read_ans.splits)

lemma read_quiet:
  assumes "reader s" "ts_read_buffer s = []" "quiet_ans a"
  shows "\<exists>s'. timed_read_nolock strerr 512 (a # script) s = Some ((0, []), script, s') \<and> reader s' \<and>
    ts_read_buffer s' = [] \<and> ts_linebuf s' = ts_linebuf s"
  using assms
  by (cases a)
     (auto simp: timed_read_nolock_def reader_def quiet_ans_def poll_read_def read_nolock_def read_again_def
       set_last_error_with_errno_def)

lemma read_data:
  assumes "reader s" "ts_read_buffer s = []"
  shows "bs \<noteq> [] \<Longrightarrow> timed_read_nolock strerr 512 ((Poll_ready POLLIN, Read_data bs) # script) s =
    Some ((int (length bs), bs), script, s)"
  using assms by (auto simp: timed_read_nolock_def reader_def poll_read_def read_nolock_def)

lemma read_buffered:
  assumes "reader s" "ts_read_buffer s \<noteq> []"
  shows "timed_read_nolock strerr 512 script s =
    Some ((int (length (ts_read_buffer s)), ts_read_buffer s), script, s\<lparr>ts_read_buffer := []\<rparr>)"
  using assms by (auto simp: timed_read_nolock_def reader_def Let_def min_def)

text \<open>A scan works on the stream of bytes: it does not matter where a block ends.\<close>

definition stream_scan :: "(byte list \<Rightarrow> byte list \<Rightarrow> byte list \<times> byte list option) \<Rightarrow> bool" where
  "stream_scan scan \<longleftrightarrow> (\<forall>l. scan [] l = (l, None)) \<and>
    (\<forall>a b l. scan (a @ b) l =
      (case scan a l of (l', Some r) \<Rightarrow> (l', Some (r @ b)) | (l', None) \<Rightarrow> scan b l')) \<and>
    (\<forall>a l l' r. scan a l = (l', Some r) \<longrightarrow> length r \<le> length a)"

lemma stream_scan_readline: "stream_scan (readline_scan m)"
proof -
  have "readline_scan m (a @ b) l =
    (case readline_scan m a l of (l', Some r) \<Rightarrow> (l', Some (r @ b)) | (l', None) \<Rightarrow> readline_scan m b l')" for a b l
    by (induction m a l rule: readline_scan.induct) auto
  moreover have "readline_scan m a l = (l', Some r) \<Longrightarrow> length r \<le> length a" for a l l' r
    by (induction m a l rule: readline_scan.induct) (auto split: if_splits)
  ultimately show ?thesis by (simp add: stream_scan_def)
qed

lemma stream_scan_delim: "stream_scan (delim_scan d m)"
proof -
  have "delim_scan d m (a @ b) l =
    (case delim_scan d m a l of (l', Some r) \<Rightarrow> (l', Some (r @ b)) | (l', None) \<Rightarrow> delim_scan d m b l')" for a b l
    by (induction d m a l rule: delim_scan.induct) auto
  moreover have "delim_scan d m a l = (l', Some r) \<Longrightarrow> length r \<le> length a" for a l l' r
    by (induction d m a l rule: delim_scan.induct) (auto split: if_splits)
  ultimately show ?thesis by (simp add: stream_scan_def)
qed

text \<open>How \<open>line_loop\<close> has to end when scanning all the pending bytes gives \<open>t\<close>.\<close>

definition line_outcome ::
  "(byte list \<Rightarrow> byte list \<Rightarrow> byte list \<times> byte list option) \<Rightarrow> byte list \<times> byte list option \<Rightarrow> script \<Rightarrow>
    (c_fault + (read_end \<times> script \<times> 's tcpsock)) option \<Rightarrow> bool" where
  "line_outcome scan t script out \<longleftrightarrow>
    (case out of
       None \<Rightarrow> snd t = None
     | Some (Inl f) \<Rightarrow> False
     | Some (Inr (r, script', s')) \<Rightarrow> reader s' \<and> live script' \<and>
         (case r of
            Read_sockerr \<Rightarrow> False
          | Read_timeout \<Rightarrow> scan (pending script' s') (ts_linebuf s') = t \<and> length script' < length script
          | Read_finished \<Rightarrow> t = (ts_linebuf s', Some (pending script' s'))))"

lemma line_outcome_more:
  "line_outcome scan t script out \<Longrightarrow> line_outcome scan t (a # script) out"
  by (auto simp: line_outcome_def split: option.splits sum.splits read_end.splits)

lemma reader_fields:
  "reader s \<Longrightarrow> reader (s\<lparr>ts_linebuf := l\<rparr>)"
  "reader s \<Longrightarrow> length b \<le> 512 \<Longrightarrow> reader (s\<lparr>ts_read_buffer := b\<rparr>)"
  "reader s \<Longrightarrow> reader (unlock_read s)" "reader s \<Longrightarrow> reader (s\<lparr>ts_read_mutex := m\<rparr>)"
  by (simp_all add: reader_def unlock_read_def)

lemma line_loop_stream_empty:
  assumes "stream_scan scan" "reader s" "live script" "ts_read_buffer s = []"
  shows "line_outcome scan (scan (wire script) (ts_linebuf s)) script (line_loop strerr scan script s)"
  using assms(2-4)
proof (induction script arbitrary: s)
  case Nil
  have "timed_read_nolock strerr 512 [] s = None" using Nil by (auto simp: timed_read_nolock_def reader_def)
  then show ?case using assms(1) by (subst line_loop.simps) (simp add: line_outcome_def stream_scan_def)
next
  case (Cons a script)
  show ?case
  proof (cases "data_ans a")
    case True
    then obtain bs where a: "a = (Poll_ready POLLIN, Read_data bs)" "bs \<noteq> []" "length bs \<le> 512"
      by (auto simp: data_ans_def)
    note rd = read_data [OF Cons.prems(1,3) a(2)]
    obtain l r where sc: "scan bs (ts_linebuf s) = (l, r)" by force
    have app: "scan (wire (a # script)) (ts_linebuf s) =
      (case r of Some r \<Rightarrow> (l, Some (r @ wire script)) | None \<Rightarrow> scan (wire script) l)"
      using assms(1) sc a by (auto simp: stream_scan_def split: option.splits)
    show ?thesis
    proof (cases r)
      case None
      have "line_outcome scan (scan (wire script) l) script (line_loop strerr scan script (s\<lparr>ts_linebuf := l\<rparr>))"
        using Cons.IH [of "s\<lparr>ts_linebuf := l\<rparr>"] Cons.prems by (simp add: reader_fields)
      then show ?thesis unfolding app using None sc rd a
        by (subst line_loop.simps) (simp add: line_outcome_more)
    next
      case (Some rest)
      then have "length rest \<le> length bs" using assms(1) sc unfolding stream_scan_def by blast
      then show ?thesis unfolding app using Some sc rd a Cons.prems
        by (subst line_loop.simps) (simp add: line_outcome_def append_to_read_buffer_def pending_def reader_def)
    qed
  next
    case False
    then have q: "quiet_ans a" using Cons.prems(2) by simp
    obtain s' where s': "timed_read_nolock strerr 512 (a # script) s = Some ((0, []), script, s')" "reader s'"
      "ts_read_buffer s' = []" "ts_linebuf s' = ts_linebuf s"
      using read_quiet [OF Cons.prems(1,3) q] by blast
    then show ?thesis using Cons.prems wire_quiet [OF q]
      by (subst line_loop.simps) (simp add: line_outcome_def pending_def)
  qed
qed

lemma line_loop_stream:
  assumes "stream_scan scan" "reader s" "live script"
  shows "line_outcome scan (scan (pending script s) (ts_linebuf s)) script (line_loop strerr scan script s)"
proof (cases "ts_read_buffer s = []")
  case True
  then show ?thesis using line_loop_stream_empty [OF assms] by (simp add: pending_def)
next
  case False
  let ?s = "s\<lparr>ts_read_buffer := []\<rparr>"
  note rd = read_buffered [OF assms(2) False]
  obtain l r where sc: "scan (ts_read_buffer s) (ts_linebuf s) = (l, r)" by force
  have app: "scan (pending script s) (ts_linebuf s) =
    (case r of Some r \<Rightarrow> (l, Some (r @ wire script)) | None \<Rightarrow> scan (wire script) l)"
    using assms(1) sc by (auto simp: stream_scan_def pending_def split: option.splits)
  have len: "length (ts_read_buffer s) \<le> 512" using assms(2) by (simp add: reader_def)
  show ?thesis
  proof (cases r)
    case None
    have "line_outcome scan (scan (wire script) l) script (line_loop strerr scan script (?s\<lparr>ts_linebuf := l\<rparr>))"
      using line_loop_stream_empty [OF assms(1) _ assms(3), of "?s\<lparr>ts_linebuf := l\<rparr>"] assms(2)
      by (simp add: reader_fields)
    then show ?thesis unfolding app using None sc rd False len by (subst line_loop.simps) simp
  next
    case (Some rest)
    then have "length rest \<le> length (ts_read_buffer s)" using assms(1) sc unfolding stream_scan_def by blast
    then show ?thesis unfolding app using Some sc rd False len assms(2,3)
      by (subst line_loop.simps) (simp add: line_outcome_def append_to_read_buffer_def pending_def reader_def)
  qed
qed

lemma read_line_with_stream:
  assumes "stream_scan scan" "reader s" "live script" "0 \<le> lk"
  shows "case read_line_with strerr I lk e scan script s of
      None \<Rightarrow> snd (scan (pending script s) (ts_linebuf s)) = None
    | Some (Inl f) \<Rightarrow> False
    | Some (Inr ((ret, str), script', s')) \<Rightarrow> reader s' \<and> live script' \<and>
       (ret = - 1 \<and> scan (pending script' s') (ts_linebuf s') = scan (pending script s) (ts_linebuf s) \<and>
          length script' < length script \<or>
        ret = int (length str) \<and> ts_linebuf s' = [] \<and>
          scan (pending script s) (ts_linebuf s) = (str, Some (pending script' s')))"
proof -
  obtain m where lock: "lock_read strerr lk e s = (0, s\<lparr>ts_read_mutex := m\<rparr>)"
  proof (cases "lk = 0")
    case False
    then show ?thesis using that [of "ts_read_mutex s"] assms(4) by (simp add: lock_read_def)
  qed (simp add: lock_read_def)
  let ?s = "s\<lparr>ts_read_mutex := m\<rparr>"
  have r: "reader ?s" by (rule reader_fields(4) [OF assms(2)])
  have p: "pending script ?s = pending script s" by (simp add: pending_def)
  have st: "ts_status s = SOCKSTATUS_CONNECTED" using assms(2) by (simp add: reader_def)
  have u: "pending sc (unlock_read t) = pending sc t" "ts_linebuf (unlock_read t) = ts_linebuf t"
    "pending sc (t\<lparr>ts_linebuf := l\<rparr>) = pending sc t" for sc l and t :: "'a tcpsock"
    by (simp_all add: pending_def unlock_read_def)
  have fin: "reader t \<Longrightarrow> read_finished I sc t =
    Some (Inr ((int (length (ts_linebuf t)), ts_linebuf t), sc, t\<lparr>ts_linebuf := []\<rparr>))" for sc t
    by (simp add: read_finished_def reader_def)
  show ?thesis
    using line_loop_stream [OF assms(1) r assms(3), of strerr]
    unfolding read_line_with_def lock line_outcome_def p
    by (auto simp: st u fin reader_fields split: option.splits sum.splits read_end.splits)
qed

lemma op_read_stream:
  assumes "reader s" "live script" "0 \<le> lk"
  shows "case readline_scan 65535 (pending script s) (ts_linebuf s) of
      (l, None) \<Rightarrow> op_read strerr I lk e script s = None
    | (l, Some rest) \<Rightarrow>
        \<exists>script' s'. op_read strerr I lk e script s = Some (Inr ((int (length l), l), script', s')) \<and>
          reader s' \<and> live script' \<and> ts_linebuf s' = [] \<and> pending script' s' = rest"
  using assms(1,2)
proof (induction "length script" arbitrary: script s rule: less_induct)
  case less
  let ?t = "readline_scan 65535 (pending script s) (ts_linebuf s)"
  note line = read_line_with_stream [OF stream_scan_readline less.prems assms(3), of 65535 strerr I e]
  have rl: "readline strerr I lk e 65535 script s = read_line_with strerr I lk e (readline_scan 65535) script s"
    by (simp add: readline_def max_of_def)
  show ?case
  proof (cases "read_line_with strerr I lk e (readline_scan 65535) script s")
    case None
    then show ?thesis using line by (subst (1 2) op_read.simps) (auto simp: rl split: prod.splits option.splits)
  next
    case (Some r)
    then obtain ret str script' s' where r: "r = Inr ((ret, str), script', s')"
      using line by (cases r) auto
    have ok: "reader s'" "live script'" using line Some r by auto
    show ?thesis
    proof (cases "ret = - 1")
      case True
      then have again: "readline_scan 65535 (pending script' s') (ts_linebuf s') = ?t" "length script' < length script"
        using line Some r by auto
      have "op_read strerr I lk e script s = op_read strerr I lk e script' s'"
        using Some r True by (subst op_read.simps) (simp add: rl)
      then show ?thesis using less.hyps [OF again(2) ok] again(1) by simp
    next
      case False
      then have t: "ret = int (length str)" "ts_linebuf s' = []" "?t = (str, Some (pending script' s'))"
        using line Some r by auto
      have "op_read strerr I lk e script s = Some (Inr ((ret, str), script', s'))"
        using Some r False by (subst op_read.simps) (simp add: rl)
      then show ?thesis using t ok by simp
    qed
  qed
qed

definition strip_line :: "byte list \<Rightarrow> byte list" where
  "strip_line l = filter (\<lambda>c. c \<noteq> 0x0D \<and> c \<noteq> 0) l"

lemma scan_line:
  "0x0A \<notin> set l \<Longrightarrow> int (length linebuf + length l) \<le> m + 1 \<Longrightarrow>
    readline_scan m (l @ 0x0A # rest) linebuf = (linebuf @ strip_line l, Some rest)"
  by (induction m l linebuf rule: readline_scan.induct) (auto simp: strip_line_def)

text \<open>A caller that reads \<open>n\<close> lines.\<close>

primrec read_lines ::
  "(errno \<Rightarrow> byte list) \<Rightarrow> 's iconv_lib \<Rightarrow> int \<Rightarrow> errno \<Rightarrow> nat \<Rightarrow> script \<Rightarrow> 's tcpsock \<Rightarrow>
    (byte list list \<times> script \<times> 's tcpsock) option" where
  "read_lines strerr I lk e 0 script s = Some ([], script, s)"
| "read_lines strerr I lk e (Suc n) script s =
    (case op_read strerr I lk e script s of
       Some (Inr ((ret, l), script, s)) \<Rightarrow>
         map_option (\<lambda>(ls, script, s). (l # ls, script, s)) (read_lines strerr I lk e n script s)
     | _ \<Rightarrow> None)"

text \<open>C7: Lines do not depend on how the network cuts the stream. While the connection lives, whatever blocks
  the bytes arrive in and however often the socket is silent or a call is interrupted, reading \<open>n\<close> lines
  gives the first \<open>n\<close> lines of the stream in order, without carriage returns and NULs; nothing behind them
  is lost or reordered; and the reader never faults. A line may have 65536 bytes.\<close>

theorem lines_of_stream:
  assumes "reader s" "live script" "0 \<le> lk" "ts_linebuf s = []"
    and "pending script s = concat (map (\<lambda>l. l @ [0x0A]) ls) @ rest"
    and "\<forall>l \<in> set ls. 0x0A \<notin> set l \<and> length l \<le> 65536"
  shows "\<exists>script' s'. read_lines strerr I lk e (length ls) script s = Some (map strip_line ls, script', s') \<and>
    pending script' s' = rest \<and> reader s'"
  using assms(1,2,4-6)
proof (induction ls arbitrary: script s)
  case (Cons l ls)
  have scan: "readline_scan 65535 (pending script s) (ts_linebuf s) =
    (strip_line l, Some (concat (map (\<lambda>l. l @ [0x0A]) ls) @ rest))"
    using scan_line [of l "[]" 65535] Cons.prems(3-5) by simp
  obtain script' s' where r: "op_read strerr I lk e script s = Some (Inr ((int (length (strip_line l)), strip_line l), script', s'))"
    "reader s'" "live script'" "ts_linebuf s' = []" "pending script' s' = concat (map (\<lambda>l. l @ [0x0A]) ls) @ rest"
    using op_read_stream [OF Cons.prems(1,2) assms(3), of strerr I e] scan by auto
  then show ?case using Cons.IH [OF r(2,3,4,5)] Cons.prems(5) by auto
qed auto

definition reader_witness :: "unit tcpsock" where
  "reader_witness = (tcpsock_new [])\<lparr>ts_fd := 3, ts_status := SOCKSTATUS_CONNECTED\<rparr>"

definition script_witness :: script where
  "script_witness =
    [(Poll_ready POLLIN, Read_data [0x61]), (Poll_timeout, Read_error 0),
     (Poll_ready POLLIN, Read_data [0x62, 0x0D, 0x0A, 0x63]), (Poll_ready POLLIN, Read_error EAGAIN),
     (Poll_ready POLLIN, Read_data [0x0A, 0x64])]"

lemma lines_of_stream_witness:
  "\<exists>script' s'. read_lines (\<lambda>_. []) iconv_identity 0 0 2 script_witness reader_witness =
    Some ([[0x61, 0x62], [0x63]], script', s') \<and> pending script' s' = [0x64]"
proof -
  have hyps: "reader reader_witness" "live script_witness" "ts_linebuf reader_witness = []"
    "pending script_witness reader_witness = concat (map (\<lambda>l. l @ [0x0A]) [[0x61, 0x62, 0x0D], [0x63]]) @ [0x64]"
    "\<forall>l \<in> set [[0x61, 0x62, 0x0D :: byte], [0x63]]. 0x0A \<notin> set l \<and> length l \<le> 65536"
    by (simp_all add: reader_witness_def tcpsock_new_def reader_def pending_def data_ans_def quiet_ans_def
        read_again_def live_def script_witness_def)
  have strip: "map strip_line [[0x61, 0x62, 0x0D], [0x63]] = [[0x61, 0x62], [0x63]]" by (simp add: strip_line_def)
  have len: "length [[0x61, 0x62, 0x0D :: byte], [0x63]] = 2" by simp
  show ?thesis
    using lines_of_stream [OF hyps(1,2) _ hyps(3-5), of 0 "\<lambda>_. []" iconv_identity 0, unfolded strip len]
    by auto
qed

text \<open>\<open>close\<close> and \<open>connect\<close> keep \<open>linebuf\<close>: a line of which only a part had arrived is glued in front of the
  first line of the next connection.\<close>

lemma stale_line:
  assumes "sock_close s = (0, s1)" "sock_connect strerr C timeout s1 = (0, s2)" "ts_conv_s2m s = None"
    and "cs_socket C = Inr fd" "0 \<le> fd" "live script" "0 \<le> lk"
    and "wire script = l @ 0x0A # rest" "0x0A \<notin> set l" "length (ts_linebuf s) + length l \<le> 65536"
  shows "\<exists>script' s'. op_read strerr I lk e script s2 =
    Some (Inr ((int (length (ts_linebuf s @ strip_line l)), ts_linebuf s @ strip_line l), script', s'))"
proof -
  have s1: "ts_linebuf s1 = ts_linebuf s" "ts_read_buffer s1 = []" "ts_conv_s2m s1 = None"
    using assms(1,3) by (auto simp: sock_close_def Let_def sys_def split: if_splits)
  have nd: "ts_linebuf (snd (set_ndelay b t)) = ts_linebuf t" "ts_read_buffer (snd (set_ndelay b t)) = ts_read_buffer t"
    "ts_conv_s2m (snd (set_ndelay b t)) = ts_conv_s2m t" "ts_fd (snd (set_ndelay b t)) = ts_fd t" for b and t :: "'a tcpsock"
    by (simp_all add: set_ndelay_def sys_def)
  have est: "conn_established timeout fd t = (0, t') \<Longrightarrow> ts_linebuf t' = ts_linebuf t \<and> ts_read_buffer t' = ts_read_buffer t \<and>
    ts_conv_s2m t' = ts_conv_s2m t \<and> ts_fd t' = fd \<and> ts_mode t' = MODE_SOCK \<and> ts_status t' = SOCKSTATUS_CONNECTED"
    for timeout t and t' :: "'a tcpsock"
    by (auto simp: conn_established_def nd Let_def split: if_splits)
  have fin: "connect_finish strerr C timeout fd t = (0, t') \<Longrightarrow> ts_linebuf t' = ts_linebuf t \<and>
    ts_read_buffer t' = ts_read_buffer t \<and> ts_conv_s2m t' = ts_conv_s2m t \<and> ts_fd t' = fd \<and> ts_mode t' = MODE_SOCK \<and>
    ts_status t' = SOCKSTATUS_CONNECTED" for timeout t and t' :: "'a tcpsock"
    by (auto simp: connect_finish_def conn_fail_def dest!: est split: option.splits if_splits poll_ans.splits sum.splits)
  have s2: "ts_linebuf s2 = ts_linebuf s" "ts_read_buffer s2 = []" "reader s2"
    using assms(2,4,5) s1
    by (auto simp: sock_connect_def connect_sock_def Let_def conn_fail_def nd reader_def dest!: fin
        split: option.splits if_splits)
  have scan: "readline_scan 65535 (pending script s2) (ts_linebuf s2) = (ts_linebuf s @ strip_line l, Some rest)"
    using scan_line [of l "ts_linebuf s" 65535 rest] assms(8-10) s2 by (simp add: pending_def)
  show ?thesis using op_read_stream [OF s2(3) assms(6,7), of strerr I e] scan by auto
qed

subsection \<open>Where the readers lose bytes\<close>

text \<open>A line that is too long is cut, and the byte at the cut is dropped.\<close>

lemma long_line_drops_byte:
  "\<forall>c \<in> set l. c \<notin> {0x0A, 0x0D, 0} \<Longrightarrow> int (length linebuf + length l) = m + 1 \<Longrightarrow> c \<notin> {0x0D, 0} \<Longrightarrow>
    readline_scan m (l @ c # rest) linebuf = (linebuf @ l, Some rest)"
  by (induction m l linebuf rule: readline_scan.induct) auto

text \<open>What is left of a block goes to the end of \<open>read_buffer\<close>: when that holds more than one block, as
  \<open>append_to_read_buffer\<close> allows, the bytes behind the line end up behind bytes that follow them.\<close>

lemma readline_reorders:
  assumes "reader (s\<lparr>ts_read_buffer := []\<rparr>)" "ts_linebuf s = []" "0 \<le> lk"
    and "ts_read_buffer s = l @ 0x0A # y @ z" "length (l @ 0x0A # y) = 512" "0x0A \<notin> set l" "y \<noteq> []"
  shows "\<exists>s'. readline strerr I lk e 65535 script s = Some (Inr ((int (length (strip_line l)), strip_line l), script, s')) \<and>
    ts_read_buffer s' = z @ y"
proof -
  have rd: "timed_read_nolock strerr 512 script t =
      Some ((512, l @ 0x0A # y), script, t\<lparr>ts_read_buffer := z\<rparr>)"
    if "ts_status t = SOCKSTATUS_CONNECTED" "ts_read_buffer t = l @ 0x0A # y @ z" for t :: "'a tcpsock"
  proof -
    have "take 512 ((l @ 0x0A # y) @ z) = l @ 0x0A # y" "drop 512 ((l @ 0x0A # y) @ z) = z"
      unfolding assms(5) [symmetric] by (rule append_eq_conv_conj [THEN iffD1, THEN conjunct1, symmetric], simp)
        (rule append_eq_conv_conj [THEN iffD1, THEN conjunct2, symmetric], simp)
    moreover have "512 \<le> length ((l @ 0x0A # y) @ z)" using assms(5) by simp
    ultimately show ?thesis using that assms(5) by (simp add: timed_read_nolock_def Let_def min_def)
  qed
  have len: "length l + length y = 511" using assms(5) by simp
  have scan: "readline_scan 65535 (l @ 0x0A # y) [] = (strip_line l, Some y)"
    using scan_line [of l "[]" 65535 y] assms(6) len by simp
  obtain m where lock: "lock_read strerr lk e s = (0, s\<lparr>ts_read_mutex := m\<rparr>)"
  proof (cases "lk = 0")
    case False
    then show ?thesis using that [of "ts_read_mutex s"] assms(3) by (simp add: lock_read_def)
  qed (simp add: lock_read_def)
  have st: "ts_status s = SOCKSTATUS_CONNECTED" "ts_conv_s2m s = None" using assms(1) by (simp_all add: reader_def)
  have "line_loop strerr (readline_scan 65535) script (s\<lparr>ts_read_mutex := m\<rparr>) =
    Some (Inr (Read_finished, script, s\<lparr>ts_read_mutex := m, ts_read_buffer := z @ y, ts_linebuf := strip_line l\<rparr>))"
    using rd [of "s\<lparr>ts_read_mutex := m\<rparr>"] st assms(2,4,7) scan len
    by (subst line_loop.simps) (simp add: append_to_read_buffer_def)
  then show ?thesis using st
    by (simp add: readline_def read_line_with_def max_of_def lock read_finished_def unlock_read_def)
qed

text \<open>\<open>timed_read_acc\<close> stores every block at the start of the buffer: when the bytes come in two blocks the
  first is overwritten, and the return value counts the second only.\<close>

lemma read_acc_overwrites:
  assumes "reader s" "ts_read_buffer s = []" "a \<noteq> []" "b \<noteq> []" "length a + length b = sz" "sz \<le> length dest"
    and "0 \<le> lk" "elapsed 0 \<le> c_quot timeout 1000" "timeout \<noteq> DEFAULT_TIMEOUT"
  shows "\<exists>s'. timed_read_acc strerr elapsed lk e sz timeout dest
      [(Poll_ready POLLIN, Read_data a), (Poll_ready POLLIN, Read_data b)] s =
    Some ((int (length b), b @ drop (length b) (a @ drop (length a) dest)), [], s')"
proof -
  have rd: "timed_read_nolock strerr n ((Poll_ready POLLIN, Read_data bs) # script) t =
      Some ((int (length bs), bs), script, t)"
    if "bs \<noteq> []" "0 < n" "reader t" "ts_read_buffer t = []" for n bs script and t :: "'a tcpsock"
    using that by (auto simp: timed_read_nolock_def reader_def poll_read_def read_nolock_def)
  obtain m where lock: "lock_read strerr lk e s = (0, s\<lparr>ts_read_mutex := m\<rparr>)"
  proof (cases "lk = 0")
    case False
    then show ?thesis using that [of "ts_read_mutex s"] assms(7) by (simp add: lock_read_def)
  qed (simp add: lock_read_def)
  let ?s = "s\<lparr>ts_read_mutex := m\<rparr>"
  have r: "reader ?s" "ts_read_buffer ?s = []" using assms(1,2) by (simp_all add: reader_fields)
  have l: "0 < length a" "0 < length b" using assms(3,4) by simp_all
  have "acc_loop strerr elapsed sz timeout 0 0 dest
      [(Poll_ready POLLIN, Read_data a), (Poll_ready POLLIN, Read_data b)] ?s =
    Some (int (length b), sz, b @ drop (length b) (a @ drop (length a) dest), [], ?s)"
    using assms(8) l rd [OF assms(3) _ r, of sz] rd [OF assms(4) _ r, of "sz - length a"] assms(5) [symmetric]
    by (subst acc_loop.simps) (simp add: Let_def acc_loop.simps [of _ _ _ _ "Suc 0"])
  then show ?thesis using assms(1,9)
    by (simp add: timed_read_acc_def lock timeout_of_def reader_def)
qed

end
