(* ===== verification/Pollfd.thy ===== *)
theory Pollfd
  imports Prelude
begin

text \<open>
  \<open>v_pollfd\<close> and \<open>v_pollfd_ts\<close> of \<open>tcpsock.h\<close>: the growing array of descriptors for \<open>poll\<close>, and the one that
  also maps descriptors to their sockets. \<open>pl_fds\<close> is \<open>fdlist\<close>, whose length is \<open>size\<close>. The lock is a flag that
  says whether somebody holds it for writing; every operation is that of a caller with \<open>do_lock\<close>, the inner
  calls without are the \<open>_nl\<close> versions. A socket is a number, 0 is \<open>NULL\<close>; \<open>pl_closed\<close> and \<open>pl_deleted\<close> collect
  the descriptors closed and the sockets deleted.
\<close>

record v_pollfd =
  pl_fds :: "(int \<times> 16 word) list"
  pl_wrlocked :: bool
  pl_closed :: "int list"

definition pl_resize :: "bool \<Rightarrow> nat \<Rightarrow> 'a v_pollfd_scheme \<Rightarrow> bool \<times> 'a v_pollfd_scheme" where
  "pl_resize ok newsize v =
    (if newsize = 0 then (True, v\<lparr>pl_fds := []\<rparr>)
     else if \<not> ok then (False, v\<lparr>pl_fds := []\<rparr>)
     else (True, v\<lparr>pl_fds := take newsize (pl_fds v) @ replicate (newsize - length (pl_fds v)) (- 1, 0)\<rparr>))"

definition pl_check_size :: "bool \<Rightarrow> nat \<Rightarrow> 'a v_pollfd_scheme \<Rightarrow> bool \<times> 'a v_pollfd_scheme" where
  "pl_check_size ok n v = (if length (pl_fds v) < n then (False, snd (pl_resize ok n v)) else (True, v))"

fun find_fd_from :: "int \<Rightarrow> (int \<times> 16 word) list \<Rightarrow> nat \<Rightarrow> int" where
  "find_fd_from fd [] i = - 1"
| "find_fd_from fd (e # es) i = (if fst e = fd then int i else find_fd_from fd es (Suc i))"

definition find_fd :: "int \<Rightarrow> 'a v_pollfd_scheme \<Rightarrow> int" where
  "find_fd fd v = find_fd_from fd (pl_fds v) 0"

definition add_fd_nl :: "bool \<Rightarrow> int \<Rightarrow> 16 word \<Rightarrow> 'a v_pollfd_scheme \<Rightarrow> int \<times> 'a v_pollfd_scheme" where
  "add_fd_nl ok fd events v =
    (if fd < 0 then (- 1, v)
     else
       (let pos = find_fd (- 1) v
        in if pos < 0 then
             (case pl_resize ok (length (pl_fds v) + 1) v of
                (False, v) \<Rightarrow> (- 1, v)
              | (True, v) \<Rightarrow>
                  (let pos = length (pl_fds v) - 1 in (int pos, v\<lparr>pl_fds := (pl_fds v)[pos := (fd, events)]\<rparr>)))
           else (pos, v\<lparr>pl_fds := (pl_fds v)[nat pos := (fd, events)]\<rparr>)))"

text \<open>With the lock: taken before and released after, except on the early return.\<close>

definition add_fd :: "bool \<Rightarrow> int \<Rightarrow> 16 word \<Rightarrow> 'a v_pollfd_scheme \<Rightarrow> int \<times> 'a v_pollfd_scheme" where
  "add_fd ok fd events v =
    (if fd < 0 then (- 1, v)
     else (case add_fd_nl ok fd events (v\<lparr>pl_wrlocked := True\<rparr>) of (r, v) \<Rightarrow> (r, v\<lparr>pl_wrlocked := False\<rparr>)))"

text \<open>A \<open>bool\<close>: the \<open>-1\<close> returned for a negative descriptor is true.\<close>

definition del_fd_nl :: "bool \<Rightarrow> int \<Rightarrow> 'a v_pollfd_scheme \<Rightarrow> bool \<times> 'a v_pollfd_scheme" where
  "del_fd_nl ok fd v =
    (if fd < 0 then (True, v)
     else
       (let pos = find_fd fd v
        in if pos < 0 then (False, v)
           else
             (True, snd (pl_resize ok (length (pl_fds v) - 1)
               (v\<lparr>pl_fds := take (nat pos) (pl_fds v) @ drop (nat pos + 1) (pl_fds v) @ [last (pl_fds v)]\<rparr>)))))"

definition del_fd :: "bool \<Rightarrow> int \<Rightarrow> 'a v_pollfd_scheme \<Rightarrow> bool \<times> 'a v_pollfd_scheme" where
  "del_fd ok fd v =
    (if fd < 0 then (True, v)
     else (case del_fd_nl ok fd (v\<lparr>pl_wrlocked := True\<rparr>) of (r, v) \<Rightarrow> (r, v\<lparr>pl_wrlocked := False\<rparr>)))"

definition del_fd_close :: "bool \<Rightarrow> int \<Rightarrow> 'a v_pollfd_scheme \<Rightarrow> bool \<times> 'a v_pollfd_scheme" where
  "del_fd_close ok fd v =
    (if fd < 0 then (True, v) else del_fd ok fd (v\<lparr>pl_closed := pl_closed v @ [fd]\<rparr>))"

definition pl_clear :: "'a v_pollfd_scheme \<Rightarrow> int \<times> 'a v_pollfd_scheme" where
  "pl_clear v = (0, snd (pl_resize True 0 v))"

definition pl_clear_closeall :: "'a v_pollfd_scheme \<Rightarrow> int \<times> 'a v_pollfd_scheme" where
  "pl_clear_closeall v =
    (0, snd (pl_resize True 0 (v\<lparr>pl_closed := pl_closed v @ filter (\<lambda>fd. 0 \<le> fd) (map fst (pl_fds v))\<rparr>)))"

subsection \<open>Descriptors with their sockets\<close>

text \<open>\<open>tslist\<close> is a \<open>std::map\<close>, here the list of its pairs in the order of the keys.\<close>

record v_pollfd_ts = v_pollfd +
  pl_tslist :: "(int \<times> nat) list"
  pl_deleted :: "nat list"

definition pl_new :: v_pollfd_ts where
  "pl_new = \<lparr>pl_fds = [], pl_wrlocked = False, pl_closed = [], pl_tslist = [], pl_deleted = []\<rparr>"

definition ts_erase :: "int \<Rightarrow> (int \<times> nat) list \<Rightarrow> (int \<times> nat) list" where
  "ts_erase fd m = filter (\<lambda>e. fst e \<noteq> fd) m"

fun ts_put :: "int \<Rightarrow> nat \<Rightarrow> (int \<times> nat) list \<Rightarrow> (int \<times> nat) list" where
  "ts_put fd ts [] = [(fd, ts)]"
| "ts_put fd ts ((k, x) # m) =
    (if fd < k then (fd, ts) # (k, x) # m
     else if fd = k then (fd, ts) # m
     else (k, x) # ts_put fd ts m)"

text \<open>\<open>ts\<close> is a socket and \<open>fd\<close> its descriptor. The result of \<open>add_fd\<close>, a position or -1, is stored in a \<open>bool\<close>.\<close>

definition add_ts :: "bool \<Rightarrow> nat \<Rightarrow> int \<Rightarrow> 16 word \<Rightarrow> v_pollfd_ts \<Rightarrow> int \<times> v_pollfd_ts" where
  "add_ts ok ts fd events v =
    (let v = v\<lparr>pl_wrlocked := True\<rparr>
     in if map_of (pl_tslist v) fd \<noteq> None then (- 1, v)
        else
          (case add_fd_nl ok fd events v of
             (pos, v) \<Rightarrow>
               (let ret = pos \<noteq> 0; v = (if ret then v\<lparr>pl_tslist := ts_put fd ts (pl_tslist v)\<rparr> else v)
                in (if ret then 1 else 0, v\<lparr>pl_wrlocked := False\<rparr>))))"

definition del_ts :: "bool \<Rightarrow> int \<Rightarrow> v_pollfd_ts \<Rightarrow> bool \<times> v_pollfd_ts" where
  "del_ts ok fd v =
    (case del_fd_nl ok fd (v\<lparr>pl_wrlocked := True\<rparr>) of
       (ret, v) \<Rightarrow> (ret, v\<lparr>pl_tslist := ts_erase fd (pl_tslist v), pl_wrlocked := False\<rparr>))"

definition del_ts_close :: "bool \<Rightarrow> nat \<Rightarrow> int \<Rightarrow> v_pollfd_ts \<Rightarrow> bool \<times> v_pollfd_ts" where
  "del_ts_close ok ts fd v =
    (case del_ts ok fd v of (ret, v) \<Rightarrow> (ret, v\<lparr>pl_deleted := pl_deleted v @ [ts]\<rparr>))"

definition find_ts_by_fd :: "int \<Rightarrow> v_pollfd_ts \<Rightarrow> nat" where
  "find_ts_by_fd fd v = (case map_of (pl_tslist v) fd of None \<Rightarrow> 0 | Some ts \<Rightarrow> ts)"

definition find_ts_by_n :: "int \<Rightarrow> v_pollfd_ts \<Rightarrow> nat" where
  "find_ts_by_n n v =
    (if n < 0 \<or> n \<ge> int (length (pl_fds v)) then 0 else find_ts_by_fd (fst (pl_fds v ! nat n)) v)"

definition ts_clear :: "v_pollfd_ts \<Rightarrow> int \<times> v_pollfd_ts" where
  "ts_clear v = (0, (snd (pl_resize True 0 v))\<lparr>pl_tslist := [], pl_wrlocked := False\<rparr>)"

text \<open>\<open>fd_of\<close> gives the descriptor a socket has at the time of the call.\<close>

definition ts_clear_closeall :: "bool \<Rightarrow> (nat \<Rightarrow> int) \<Rightarrow> v_pollfd_ts \<Rightarrow> int \<times> v_pollfd_ts" where
  "ts_clear_closeall ok fd_of v =
    (let v = fold (\<lambda>(fd, ts) v. (snd (del_fd_nl ok (fd_of ts) v))\<lparr>pl_deleted := pl_deleted v @ [ts]\<rparr>) (pl_tslist v) v
     in (0, (snd (pl_clear_closeall v))\<lparr>pl_tslist := [], pl_wrlocked := False\<rparr>))"

subsection \<open>What the table holds\<close>

lemma find_fd_from_range:
  "find_fd_from fd es i = - 1 \<and> fd \<notin> fst ` set es \<or>
    (\<exists>j < length es. find_fd_from fd es i = int (i + j) \<and> fst (es ! j) = fd)"
proof (induction es arbitrary: i)
  case (Cons e es)
  show ?case
  proof (cases "fst e = fd")
    case False
    from Cons [of "Suc i"] show ?thesis
    proof
      assume "\<exists>j < length es. find_fd_from fd es (Suc i) = int (Suc i + j) \<and> fst (es ! j) = fd"
      then obtain j where "j < length es" "find_fd_from fd es (Suc i) = int (Suc i + j)" "fst (es ! j) = fd" by blast
      then have "Suc j < length (e # es)" "find_fd_from fd (e # es) i = int (i + Suc j)" "fst ((e # es) ! Suc j) = fd"
        using False by simp_all
      then show ?thesis by blast
    qed (use False in auto)
  qed (auto intro!: exI [of _ 0])
qed simp

lemma find_fd_none: "fd \<notin> fst ` set (pl_fds v) \<Longrightarrow> find_fd fd v = - 1"
  using find_fd_from_range [of fd "pl_fds v" 0] by (auto simp: find_fd_def)

lemma add_fd_appends:
  assumes "- 1 \<notin> fst ` set (pl_fds v)" "0 \<le> fd"
  shows "add_fd_nl True fd ev v = (int (length (pl_fds v)), v\<lparr>pl_fds := pl_fds v @ [(fd, ev)]\<rparr>)"
  using assms find_fd_none [OF assms(1)]
  by (simp add: add_fd_nl_def pl_resize_def Let_def list_update_append)

lemma map_of_ts_put: "map_of (ts_put fd ts m) = (map_of m)(fd \<mapsto> ts)"
  by (induction fd ts m rule: ts_put.induct) (auto simp: fun_eq_iff)

text \<open>Sockets added one after the other, with the descriptors they have.\<close>

definition add_all :: "(nat \<times> int) list \<Rightarrow> 16 word \<Rightarrow> v_pollfd_ts \<Rightarrow> v_pollfd_ts" where
  "add_all socks ev v = fold (\<lambda>(ts, fd) v. snd (add_ts True ts fd ev v)) socks v"

lemma add_ts_new:
  assumes "- 1 \<notin> fst ` set (pl_fds v)" "0 \<le> fd" "map_of (pl_tslist v) fd = None"
  shows "add_ts True ts fd ev v =
    (if pl_fds v = [] then 0 else 1,
     v\<lparr>pl_fds := pl_fds v @ [(fd, ev)], pl_wrlocked := False,
       pl_tslist := if pl_fds v = [] then pl_tslist v else ts_put fd ts (pl_tslist v)\<rparr>)"
  using assms add_fd_appends [of "v\<lparr>pl_wrlocked := True\<rparr>" fd ev]
  by (simp add: add_ts_def Let_def)

lemma add_all_state:
  assumes "distinct (map snd socks)" "\<forall>(ts, fd) \<in> set socks. 0 \<le> fd"
    and "v = add_all socks ev pl_new"
  shows "map fst (pl_fds v) = map snd socks \<and> pl_wrlocked v = False \<and>
    map_of (pl_tslist v) = map_of (rev (map (\<lambda>(ts, fd). (fd, ts)) (tl socks)))"
  using assms
proof (induction socks arbitrary: v rule: rev_induct)
  case Nil
  then show ?case by (simp add: add_all_def pl_new_def)
next
  case (snoc x socks)
  obtain ts fd where x: "x = (ts, fd)" by (cases x)
  let ?w = "add_all socks ev pl_new"
  have ih: "map fst (pl_fds ?w) = map snd socks" "pl_wrlocked ?w = False"
    "map_of (pl_tslist ?w) = map_of (rev (map (\<lambda>(ts, fd). (fd, ts)) (tl socks)))"
    using snoc.IH [of ?w] snoc.prems by auto
  have fd: "0 \<le> fd" "fd \<notin> set (map snd socks)" using snoc.prems x by auto
  have "set (tl socks) \<subseteq> set socks" by (cases socks) auto
  then have "fd \<notin> fst ` set (rev (map (\<lambda>(ts, fd). (fd, ts)) (tl socks)))" using fd(2) by force
  then have none: "map_of (pl_tslist ?w) fd = None" unfolding ih(3) by (simp add: map_of_eq_None_iff)
  have neg: "- 1 \<notin> fst ` set (pl_fds ?w)"
  proof
    assume "- 1 \<in> fst ` set (pl_fds ?w)"
    then have "- 1 \<in> set (map snd socks)" unfolding ih(1) [symmetric] by simp
    then show False using snoc.prems(2) by fastforce
  qed
  have v: "v = snd (add_ts True ts fd ev ?w)" using snoc.prems(3) x by (simp add: add_all_def)
  have e: "pl_fds ?w = [] \<longleftrightarrow> socks = []" using ih(1) by (metis map_is_Nil_conv)
  show ?case unfolding v add_ts_new [OF neg fd(1) none] using ih e x
    by (cases socks) (simp_all add: map_of_ts_put)
qed

text \<open>The table of sockets to wait for. Sockets with different descriptors that are added to an empty table
  stand in it in the order they were added, and the lock is free after each call; every one is found by its
  position and its descriptor, except the first: its position is 0, \<open>add_ts\<close> takes that for a failure, returns
  0 and does not register it, so the lookup gives a null pointer. Adding a registered socket again
  returns -1 and keeps the lock for ever.\<close>

theorem add_ts_first_unregistered:
  assumes "distinct (map snd socks)" "\<forall>(ts, fd) \<in> set socks. 0 \<le> fd" "i < length socks"
  shows "map fst (pl_fds (add_all socks ev pl_new)) = map snd socks \<and>
    \<not> pl_wrlocked (add_all socks ev pl_new) \<and>
    find_ts_by_n (int i) (add_all socks ev pl_new) = (if i = 0 then 0 else fst (socks ! i)) \<and>
    find_ts_by_fd (snd (socks ! i)) (add_all socks ev pl_new) = (if i = 0 then 0 else fst (socks ! i)) \<and>
    (0 < i \<longrightarrow> (case add_ts True ts (snd (socks ! i)) ev' (add_all socks ev pl_new) of
       (r, v) \<Rightarrow> r = - 1 \<and> pl_wrlocked v))"
proof -
  let ?v = "add_all socks ev pl_new" and ?m = "map (\<lambda>(ts, fd). (fd, ts)) (tl socks)"
  note st = add_all_state [OF assms(1,2) refl, of ev]
  have d: "distinct (map fst (rev ?m))" "distinct (map snd socks)"
    using assms(1) by (cases socks; auto simp: comp_def case_prod_unfold rev_map [symmetric])+
  have reg: "map_of (pl_tslist ?v) (snd (socks ! i)) = (if i = 0 then None else Some (fst (socks ! i)))"
  proof (cases i)
    case 0
    then obtain x xs where "socks = x # xs" using assms(3) by (cases socks) auto
    then have "snd (socks ! i) \<notin> fst ` set (rev ?m)" using 0 d(2) by (auto simp: rev_image_eqI)
    then show ?thesis using st 0 by (simp add: map_of_eq_None_iff)
  next
    case (Suc j)
    then have j: "tl socks ! j = socks ! i" "j < length (tl socks)" using assms(3) by (auto simp: nth_tl)
    then have "(snd (socks ! i), fst (socks ! i)) \<in> set (rev ?m)"
      by (auto simp: in_set_conv_nth case_prod_unfold intro!: image_eqI [of _ _ "socks ! i"] exI [of _ j])
    then show ?thesis using st Suc map_of_is_SomeI [OF d(1)] by simp
  qed
  have fst: "fst (pl_fds ?v ! i) = snd (socks ! i)" "length (pl_fds ?v) = length socks"
    using st assms(3) by (metis length_map nth_map)+
  show ?thesis using st reg fst assms(3)
    by (auto simp: find_ts_by_n_def find_ts_by_fd_def add_ts_def Let_def)
qed

lemma add_ts_first_unregistered_witness:
  "find_ts_by_n 0 (add_all [(1, 5), (2, 6)] 1 pl_new) = 0 \<and> find_ts_by_n 1 (add_all [(1, 5), (2, 6)] 1 pl_new) = 2"
  using add_ts_first_unregistered [of "[(1, 5), (2, 6)]" 0 1 0 0] add_ts_first_unregistered [of "[(1, 5), (2, 6)]" 1 1 0 0]
  by simp

text \<open>Deleting a negative descriptor, that of a socket already closed, reports success and deletes nothing.\<close>

lemma del_fd_negative: "fd < 0 \<Longrightarrow> del_fd ok fd v = (True, v) \<and> del_fd_close ok fd v = (True, v)"
  by (simp add: del_fd_def del_fd_close_def)

end
