(* ===== verification/Bottimer.thy ===== *)
theory Bottimer
  imports Ircdefs "HOL-Library.Multiset" "HOL-Library.Signed_Division"
begin

text \<open>
  The timers of the bot, \<open>ircbot.h\<close> and \<open>ircbot.cpp\<close>: the list \<open>timers\<close>, the operations on it and one
  turn of the timer thread, which holds the lock of the list from the look at the clock to the
  computation of the sleep. A callback and its user data are pointers (None for NULL); a callback
  leaves the list alone, as the thread holds the lock for writing while it runs. \<open>std::sort\<close> is a
  parameter: it may put timers with equal times in any order (\<open>sorts_by\<close>).
\<close>

definition IRCBOT_TIMERATTR_NONE :: u32 where "IRCBOT_TIMERATTR_NONE = 0x0000"
definition IRCBOT_TIMERATTR_ONCE :: u32 where "IRCBOT_TIMERATTR_ONCE = 0x0001"
definition IRCBOT_TIMERATTR_ATTIME :: u32 where "IRCBOT_TIMERATTR_ATTIME = 0x0002 OR IRCBOT_TIMERATTR_ONCE"

record ircbot_timer_info =
  ti_id :: int
  ti_name :: "byte list"
  ti_fxn :: "nat option"
  ti_interval :: int
  ti_next :: int
  ti_attr :: u32
  ti_userdata :: nat

text \<open>The constructor; \<open>now\<close> is the value of \<open>time(NULL)\<close>.\<close>

definition ircbot_timer_info_new ::
  "int \<Rightarrow> int \<Rightarrow> byte list \<Rightarrow> nat option \<Rightarrow> int \<Rightarrow> u32 \<Rightarrow> nat \<Rightarrow> ircbot_timer_info" where
  "ircbot_timer_info_new now tid name fxn interval attr userdata =
    \<lparr>ti_id = tid, ti_name = name, ti_fxn = fxn, ti_interval = interval,
     ti_next = (if attr AND IRCBOT_TIMERATTR_ATTIME = IRCBOT_TIMERATTR_ATTIME then interval
                else now + interval sdiv 1000),
     ti_attr = attr, ti_userdata = userdata\<rparr>"

text \<open>\<open>timer_nextid\<close> is an \<open>int\<close>, taken to wrap around when it overflows, as the code expects.\<close>

record bot_timers =
  bt_timers :: "ircbot_timer_info list"
  bt_nextid :: u32

type_synonym timer_sort = "ircbot_timer_info list \<Rightarrow> ircbot_timer_info list"

definition add_timer ::
  "timer_sort \<Rightarrow> int \<Rightarrow> byte list \<Rightarrow> nat option \<Rightarrow> int \<Rightarrow> nat \<Rightarrow> u32 \<Rightarrow> bot_timers \<Rightarrow> int \<times> bot_timers" where
  "add_timer srt now name fxn interval userdata attr bt =
    (if fxn = None then (- 1, bt)
     else
       (let tmrid = sint (bt_nextid bt);
            nextid = bt_nextid bt + 1;
            nextid = (if sint nextid < 0 then 0 else nextid)
        in (tmrid, \<lparr>bt_timers = srt (bt_timers bt @
              [ircbot_timer_info_new now tmrid name fxn interval attr userdata]), bt_nextid = nextid\<rparr>)))"

definition del_timer :: "timer_sort \<Rightarrow> byte list \<Rightarrow> bot_timers \<Rightarrow> int \<times> bot_timers" where
  "del_timer srt name bt = (0, bt\<lparr>bt_timers := srt (filter (\<lambda>t. ti_name t \<noteq> name) (bt_timers bt))\<rparr>)"

definition del_timer_by_cbptr :: "timer_sort \<Rightarrow> nat option \<Rightarrow> bot_timers \<Rightarrow> int \<times> bot_timers" where
  "del_timer_by_cbptr srt fxn bt = (0, bt\<lparr>bt_timers := srt (filter (\<lambda>t. ti_fxn t \<noteq> fxn) (bt_timers bt))\<rparr>)"

text \<open>The iterator that is found: a position, or None for \<open>end()\<close>.\<close>

fun find_timer_from :: "(ircbot_timer_info \<Rightarrow> bool) \<Rightarrow> nat \<Rightarrow> ircbot_timer_info list \<Rightarrow> nat option" where
  "find_timer_from P n [] = None"
| "find_timer_from P n (t # ts) = (if P t then Some n else find_timer_from P (Suc n) ts)"

definition find_timer :: "byte list \<Rightarrow> bot_timers \<Rightarrow> nat option" where
  "find_timer name bt = find_timer_from (\<lambda>t. ti_name t = name) 0 (bt_timers bt)"

definition find_cbtimer :: "nat option \<Rightarrow> bot_timers \<Rightarrow> nat option" where
  "find_cbtimer fxn bt = find_timer_from (\<lambda>t. ti_fxn t = fxn) 0 (bt_timers bt)"

text \<open>The loop over the timers in \<open>timer_thread\<close>: the timers whose callbacks are called, in order, and
  the list it leaves. \<open>timer_rearm\<close> is a timer that stays after it has fired.\<close>

definition timer_rearm :: "int \<Rightarrow> ircbot_timer_info \<Rightarrow> ircbot_timer_info" where
  "timer_rearm crnttime t = t\<lparr>ti_next := crnttime + ti_interval t sdiv 1000\<rparr>"

fun timer_loop ::
  "int \<Rightarrow> ircbot_timer_info list \<Rightarrow> ircbot_timer_info list \<times> ircbot_timer_info list" where
  "timer_loop crnttime [] = ([], [])"
| "timer_loop crnttime (t # ts) =
    (if ti_next t > crnttime then ([], t # ts)
     else
       (let (fired, rest) = timer_loop crnttime ts
        in (if ti_fxn t = None then fired else t # fired,
            if ti_attr t AND IRCBOT_TIMERATTR_ONCE \<noteq> 0 then rest else timer_rearm crnttime t # rest)))"

text \<open>\<open>wait_time\<close> is an \<open>int\<close> that is passed to \<open>usleep\<close> as unsigned microseconds.\<close>

definition timer_wait :: "int \<Rightarrow> ircbot_timer_info list \<Rightarrow> u32" where
  "timer_wait crnttime ts = (case ts of [] \<Rightarrow> 1000 | t # _ \<Rightarrow> word_of_int ((ti_next t - crnttime) * 1000))"

definition timer_turn :: "int \<Rightarrow> bot_timers \<Rightarrow> ircbot_timer_info list \<times> u32 \<times> bot_timers" where
  "timer_turn crnttime bt =
    (let (fired, ts) = timer_loop crnttime (bt_timers bt)
     in (fired, timer_wait crnttime ts, bt\<lparr>bt_timers := ts\<rparr>))"

subsection \<open>Properties\<close>

definition timers_sorted :: "ircbot_timer_info list \<Rightarrow> bool" where
  "timers_sorted ts \<longleftrightarrow> sorted (map ti_next ts)"

text \<open>What \<open>std::sort\<close> with the comparator on \<open>next\<close> promises.\<close>

definition sorts_by :: "timer_sort \<Rightarrow> bool" where
  "sorts_by srt \<longleftrightarrow> (\<forall>ts. mset (srt ts) = mset ts \<and> timers_sorted (srt ts))"

lemma sorts_by_sort_key: "sorts_by (sort_key ti_next)"
  by (simp add: sorts_by_def timers_sorted_def)

lemma sorts_byD: "sorts_by srt \<Longrightarrow> mset (srt ts) = mset ts" "sorts_by srt \<Longrightarrow> timers_sorted (srt ts)"
  "sorts_by srt \<Longrightarrow> set (srt ts) = set ts"
  by (auto simp: sorts_by_def dest: mset_eq_setD)

definition timer_due :: "int \<Rightarrow> ircbot_timer_info \<Rightarrow> bool" where
  "timer_due now t \<longleftrightarrow> ti_next t \<le> now"

definition timer_once :: "ircbot_timer_info \<Rightarrow> bool" where
  "timer_once t \<longleftrightarrow> ti_attr t AND IRCBOT_TIMERATTR_ONCE \<noteq> 0"

lemma timer_loop_sorted:
  "timers_sorted ts \<Longrightarrow>
    timer_loop now ts =
      (filter (\<lambda>t. timer_due now t \<and> ti_fxn t \<noteq> None) ts,
       map (timer_rearm now) (filter (\<lambda>t. timer_due now t \<and> \<not> timer_once t) ts) @ filter (\<lambda>t. \<not> timer_due now t) ts)"
proof (induction ts)
  case (Cons t ts)
  show ?case
  proof (cases "ti_next t > now")
    case True
    then have "\<forall>s \<in> set (t # ts). \<not> timer_due now s"
      using Cons.prems by (auto simp: timers_sorted_def timer_due_def)
    then show ?thesis using True by (simp add: filter_empty_conv filter_id_conv)
  next
    case False
    have "timers_sorted ts" using Cons.prems by (simp add: timers_sorted_def)
    then show ?thesis using False Cons.IH by (simp add: timer_due_def timer_once_def Let_def)
  qed
qed (simp add: timers_sorted_def)

lemma find_timer_from_none: "find_timer_from P n ts = None \<longleftrightarrow> (\<forall>t \<in> set ts. \<not> P t)"
  by (induction P n ts rule: find_timer_from.induct) auto

lemma find_timer_from_some:
  "find_timer_from P n ts = Some m \<Longrightarrow>
    n \<le> m \<and> m - n < length ts \<and> P (ts ! (m - n)) \<and> (\<forall>k < m - n. \<not> P (ts ! k))"
proof (induction P n ts rule: find_timer_from.induct)
  case (2 P n t ts)
  show ?case
  proof (cases "P t")
    case False
    have d: "m - n = Suc (m - Suc n)" using 2 False by auto
    show ?thesis using 2 False unfolding d by (auto simp: less_Suc_eq_0_disj)
  qed (use 2 in simp)
qed simp

lemma find_timer_from_first:
  assumes "timers_sorted ts" "t \<in> set ts" "P t"
  shows "\<exists>m. find_timer_from P 0 ts = Some m \<and> m < length ts \<and> P (ts ! m) \<and>
    (\<forall>s \<in> set ts. P s \<longrightarrow> ti_next (ts ! m) \<le> ti_next s)"
proof -
  obtain m where m: "find_timer_from P 0 ts = Some m"
    using find_timer_from_none [of P 0 ts] assms(2,3) by (cases "find_timer_from P 0 ts") auto
  have first: "m < length ts" "P (ts ! m)" "\<forall>k < m. \<not> P (ts ! k)" using find_timer_from_some [OF m] by auto
  have "ti_next (ts ! m) \<le> ti_next (ts ! k)" if "k < length ts" "P (ts ! k)" for k
    using that first assms(1) sorted_nth_mono [of "map ti_next ts" m k] linorder_not_less
    by (auto simp: timers_sorted_def)
  then show ?thesis using m first by (auto simp: in_set_conv_nth)
qed

text \<open>The list of timers is kept in the order of their times: adding a timer puts it in its place and
  keeps all others, deleting by name or callback takes away exactly those timers, and a search by name
  afterwards finds the one that is due first. The identifiers handed out are never negative.\<close>

theorem timer_list_ops:
  assumes "sorts_by srt" and "0 \<le> sint (bt_nextid bt)" and "fxn \<noteq> None"
    and "add_timer srt now name fxn interval ud attr bt = (i, bt')"
  shows "timers_sorted (bt_timers bt') \<and> 0 \<le> i \<and> 0 \<le> sint (bt_nextid bt') \<and>
    mset (bt_timers bt') = mset (bt_timers bt) + {#ircbot_timer_info_new now i name fxn interval attr ud#} \<and>
    (\<exists>n. find_timer name bt' = Some n \<and> n < length (bt_timers bt') \<and> ti_name (bt_timers bt' ! n) = name \<and>
      (\<forall>t \<in> set (bt_timers bt'). ti_name t = name \<longrightarrow> ti_next (bt_timers bt' ! n) \<le> ti_next t)) \<and>
    timers_sorted (bt_timers (snd (del_timer srt name bt'))) \<and>
    mset (bt_timers (snd (del_timer srt name bt'))) = {#t \<in># mset (bt_timers bt). ti_name t \<noteq> name#} \<and>
    find_timer name (snd (del_timer srt name bt')) = None \<and>
    mset (bt_timers (snd (del_timer_by_cbptr srt fxn bt'))) = {#t \<in># mset (bt_timers bt). ti_fxn t \<noteq> fxn#} \<and>
    find_cbtimer fxn (snd (del_timer_by_cbptr srt fxn bt')) = None"
proof -
  let ?new = "ircbot_timer_info_new now i name fxn interval attr ud"
  note srt = sorts_byD [OF assms(1)]
  have bt': "bt_timers bt' = srt (bt_timers bt @ [?new])" "i = sint (bt_nextid bt)" "0 \<le> sint (bt_nextid bt')"
    using assms(3,4) by (auto simp: add_timer_def Let_def)
  have new: "ti_name ?new = name" "ti_fxn ?new = fxn" by (simp_all add: ircbot_timer_info_new_def)
  have gone: "find_timer_from P n (srt (filter (\<lambda>t. \<not> P t) ts)) = None" for P n ts
    by (simp add: find_timer_from_none srt(3))
  obtain n where "find_timer name bt' = Some n" "n < length (bt_timers bt')" "ti_name (bt_timers bt' ! n) = name"
    "\<forall>t \<in> set (bt_timers bt'). ti_name t = name \<longrightarrow> ti_next (bt_timers bt' ! n) \<le> ti_next t"
    using find_timer_from_first [of "srt (bt_timers bt @ [?new])" ?new "\<lambda>t. ti_name t = name"] srt(2,3) new
    by (auto simp: find_timer_def bt'(1))
  then show ?thesis
    using gone [of "\<lambda>t. ti_name t = name"] gone [of "\<lambda>t. ti_fxn t = fxn"] new assms(2) bt'(2,3)
    by (auto simp: bt'(1) srt(1,2) del_timer_def del_timer_by_cbptr_def find_timer_def find_cbtimer_def mset_filter)
qed

text \<open>C14: on a list in order one turn of the timer thread calls exactly the timers that are due, each
  once and the earliest first. One-shot timers that were due are gone, periodic ones are set to the
  time of the turn plus their interval, and the timers that are not due are untouched; so nothing due
  is left when every interval is a second or more.\<close>

theorem timer_turn_due:
  assumes "timers_sorted (bt_timers bt)" and "timer_turn now bt = (fired, w, bt')"
  shows "fired = filter (\<lambda>t. timer_due now t \<and> ti_fxn t \<noteq> None) (bt_timers bt) \<and>
    bt_timers bt' = map (timer_rearm now) (filter (\<lambda>t. timer_due now t \<and> \<not> timer_once t) (bt_timers bt)) @
      filter (\<lambda>t. \<not> timer_due now t) (bt_timers bt) \<and>
    ((\<forall>t \<in> set (bt_timers bt). 1000 \<le> ti_interval t) \<longrightarrow> (\<forall>t \<in> set (bt_timers bt'). \<not> timer_due now t))"
proof -
  have l: "fired = fst (timer_loop now (bt_timers bt))" "bt_timers bt' = snd (timer_loop now (bt_timers bt))"
    using assms(2) by (auto simp: timer_turn_def Let_def split: prod.splits)
  have "1000 \<le> i \<Longrightarrow> 0 < i sdiv 1000" for i :: int by (simp add: signed_divide_int_def div_pos_pos_trivial pos_imp_zdiv_pos_iff)
  then show ?thesis
    unfolding l timer_loop_sorted [OF assms(1)] by (fastforce simp: timer_due_def timer_rearm_def)
qed

text \<open>The turn does not sort the list again, although the times of the periodic timers have changed.
  From then on a timer behind a rearmed one is overdue without being called: while the first timer is
  not due, no turn calls any timer, however late.\<close>

theorem timer_starved:
  assumes "bt_timers bt = p # ts" "timer_due now p" "\<not> timer_once p" "\<forall>t \<in> set ts. \<not> timer_due now t"
    and "timer_turn now bt = (fired, w, bt1)" "t \<in> set ts" "timer_due later t" "later < now + ti_interval p sdiv 1000"
  shows "timer_turn later bt1 = ([], word_of_int ((now + ti_interval p sdiv 1000 - later) * 1000), bt1) \<and>
    t \<in> set (bt_timers bt1) \<and> \<not> timers_sorted (bt_timers bt1)"
proof -
  have "timer_loop now ts = ([], ts)"
    using assms(4) by (cases ts) (auto simp: timer_due_def)
  then have b: "bt1 = bt\<lparr>bt_timers := timer_rearm now p # ts\<rparr>"
    using assms(1-3,5) by (auto simp: timer_turn_def timer_due_def timer_once_def Let_def)
  show ?thesis
    using assms(6-8) by (fastforce simp: b timer_turn_def timer_rearm_def timer_wait_def timer_due_def timers_sorted_def)
qed

text \<open>Two periodic timers, of 100 and 101 seconds, set at time 0.\<close>

definition timers_witness :: bot_timers where
  "timers_witness =
    \<lparr>bt_timers = [ircbot_timer_info_new 0 0 (c_lit ''a'') (Some 1) 100000 IRCBOT_TIMERATTR_NONE 0,
      ircbot_timer_info_new 0 1 (c_lit ''b'') (Some 2) 101000 IRCBOT_TIMERATTR_NONE 0], bt_nextid = 2\<rparr>"

lemma timer_starved_witness:
  "fst (timer_turn 150 (snd (snd (timer_turn 100 timers_witness)))) = []"
proof -
  let ?bt1 = "snd (snd (timer_turn 100 timers_witness))"
  have "timer_turn 150 ?bt1 = ([], word_of_int ((100 + ti_interval (hd (bt_timers timers_witness)) sdiv 1000 - 150) * 1000), ?bt1) \<and>
      hd (tl (bt_timers timers_witness)) \<in> set (bt_timers ?bt1) \<and> \<not> timers_sorted (bt_timers ?bt1)"
    by (rule timer_starved [where ts = "tl (bt_timers timers_witness)" and fired = "fst (timer_turn 100 timers_witness)"
          and w = "fst (snd (timer_turn 100 timers_witness))"])
      (simp_all add: timers_witness_def ircbot_timer_info_new_def timer_due_def timer_once_def IRCBOT_TIMERATTR_NONE_def
        IRCBOT_TIMERATTR_ATTIME_def IRCBOT_TIMERATTR_ONCE_def signed_divide_int_def)
  then show ?thesis by simp
qed

lemma timer_turn_due_witness:
  "map ti_id (fst (timer_turn 100 timers_witness)) = [0]"
proof -
  note eval = timers_witness_def ircbot_timer_info_new_def IRCBOT_TIMERATTR_NONE_def IRCBOT_TIMERATTR_ATTIME_def
    IRCBOT_TIMERATTR_ONCE_def signed_divide_int_def
  have s: "timers_sorted (bt_timers timers_witness)" by (simp add: eval timers_sorted_def)
  obtain fired w bt' where r: "timer_turn 100 timers_witness = (fired, w, bt')" by (metis prod.collapse)
  have "fired = filter (\<lambda>t. timer_due 100 t \<and> ti_fxn t \<noteq> None) (bt_timers timers_witness)"
    using timer_turn_due [OF s r] by blast
  then show ?thesis unfolding r by (simp add: eval timer_due_def)
qed

lemma timer_list_ops_witness:
  "timers_sorted (bt_timers (snd (add_timer (sort_key ti_next) 0 (c_lit ''c'') (Some 3) 5000 0 IRCBOT_TIMERATTR_ONCE timers_witness)))"
  using timer_list_ops [OF sorts_by_sort_key, of timers_witness "Some 3", OF _ _ prod.collapse [symmetric]]
  by (simp add: timers_witness_def)

end
