(* ===== verification/Botthread.thy ===== *)
theory Botthread
  imports Ircevent "HOL-Library.Multiset" "HOL-Library.Sublist"
begin

text \<open>
  The event threads of \<open>ircbot.cpp\<close> and \<open>pause_event_threads\<close>, as one step relation. A step is what a
  thread does between two points at which another can see it: the event queue is only touched with
  \<open>event_queue_mutex\<close> held (\<open>bs_mutex\<close>), but the pause level and the states of the threads are read
  without it, so the check of the level (\<open>loop_go\<close>) and the mark \<open>RUNNING\<close> (\<open>take\<close>) are two steps. A
  thread that waits may wake at any time, as condition variables allow. Events are pairs of a
  connection and an event; handling one is \<open>event_cb_real\<close> (theory \<open>Ircbot\<close>), which deletes it. The
  number of threads is fixed, killing one is a flag it looks at; the timer thread, which obeys the level
  in the same way, is left out. The cleanup of a connection takes its events from the queue as the loop
  of \<open>main_thread_cleanup\<close> means to (its iterator is another matter, see \<open>drop_conn_events\<close> of \<open>Ircbot\<close>).
  The fifteen seconds after which \<open>pause_event_threads\<close> gives up may pass at any turn of its loops.
  \<open>bs_added\<close>, \<open>bs_taken\<close>, \<open>bs_deleted\<close> and \<open>bs_paused\<close> (a call that has returned 0) record the history.
\<close>

datatype IRCEVTHREAD_STATE =
    IRCEVTHREAD_STATE_IDLE | IRCEVTHREAD_STATE_WAITING | IRCEVTHREAD_STATE_RUNNING
  | IRCEVTHREAD_STATE_PAUSED | IRCEVTHREAD_STATE_END

type_synonym queued = "nat \<times> ircevent"

text \<open>Where an event thread is: before its first lock, in \<open>pthread_cond_wait\<close>, at the head of the inner loop
  with the mutex, in the loop that waits for the end of a pause, before the lock after it, past the check
  of the level with the mutex, in \<open>event_cb_real\<close>, or gone.\<close>

datatype ev_pc = Ev_start | Ev_wait | Ev_loop | Ev_spin | Ev_relock | Ev_take | Ev_handle queued | Ev_exit

record ev_thread =
  et_state :: IRCEVTHREAD_STATE
  et_pc :: ev_pc
  et_kill_on :: bool

text \<open>A call of \<open>pause_event_threads\<close> in progress: its thread, and the position of the scan over the
  event threads.\<close>

datatype pause_pc = Pause_none | Pause_scan nat nat | Resume_scan nat nat

record bot_sys =
  bs_queue :: "queued list"
  bs_conns :: "nat set"
  bs_mutex :: "nat option"
  bs_level :: int
  bs_lock_owner :: "nat option"
  bs_threads :: "ev_thread list"
  bs_pausing :: pause_pc
  bs_paused :: "nat option"
  bs_added :: "queued list"
  bs_taken :: "queued list"
  bs_deleted :: "queued list"

definition thr :: "bot_sys \<Rightarrow> nat \<Rightarrow> ev_thread" where
  "thr s t = bs_threads s ! t"

definition set_thr :: "nat \<Rightarrow> (ev_thread \<Rightarrow> ev_thread) \<Rightarrow> bot_sys \<Rightarrow> bot_sys" where
  "set_thr t f s = s\<lparr>bs_threads := (bs_threads s)[t := f (bs_threads s ! t)]\<rparr>"

definition at_pc :: "bot_sys \<Rightarrow> nat \<Rightarrow> ev_pc \<Rightarrow> bool" where
  "at_pc s t p \<longleftrightarrow> t < length (bs_threads s) \<and> et_pc (thr s t) = p"

definition goto_pc :: "nat \<Rightarrow> ev_pc \<Rightarrow> bot_sys \<Rightarrow> bot_sys" where
  "goto_pc t p s = set_thr t (\<lambda>e. e\<lparr>et_pc := p\<rparr>) s"

definition mark :: "nat \<Rightarrow> IRCEVTHREAD_STATE \<Rightarrow> bot_sys \<Rightarrow> bot_sys" where
  "mark t st s = set_thr t (\<lambda>e. e\<lparr>et_state := st\<rparr>) s"

text \<open>The end of a thread: \<open>out\<close> and \<open>event_thread_cleanup\<close>. The mutex is of the error checking kind, so
  unlocking it has no effect unless the thread holds it.\<close>

definition leave :: "nat \<Rightarrow> bot_sys \<Rightarrow> bot_sys" where
  "leave t s = goto_pc t Ev_exit (mark t IRCEVTHREAD_STATE_IDLE
    (s\<lparr>bs_mutex := (if bs_mutex s = Some t then None else bs_mutex s)\<rparr>))"

text \<open>The test at the end of a round, \<open>ets->state == ets->kill_on\<close>, where the state is \<open>WAITING\<close>: its
  number is 1, so the thread leaves exactly when \<open>kill_on\<close> is set.\<close>

definition next_round :: "nat \<Rightarrow> bot_sys \<Rightarrow> bot_sys" where
  "next_round t s =
    (let s = mark t IRCEVTHREAD_STATE_WAITING s
     in if et_kill_on (thr s t) then leave t s else goto_pc t Ev_loop s)"

text \<open>The event threads, \<open>add_to_event_queue\<close>, the cleanup of a connection, the list of connections, \<open>kill\<close>.\<close>

inductive ev_step :: "bot_sys \<Rightarrow> bot_sys \<Rightarrow> bool" where
  start: "at_pc s t Ev_start \<Longrightarrow> bs_mutex s = None \<Longrightarrow>
    ev_step s (goto_pc t Ev_wait (mark t IRCEVTHREAD_STATE_WAITING s))"
| wake: "at_pc s t Ev_wait \<Longrightarrow> bs_mutex s = None \<Longrightarrow>
    ev_step s (let s = s\<lparr>bs_mutex := Some t\<rparr> in if et_kill_on (thr s t) then leave t s else goto_pc t Ev_loop s)"
| loop_empty: "at_pc s t Ev_loop \<Longrightarrow> bs_queue s = [] \<Longrightarrow> ev_step s (goto_pc t Ev_wait (s\<lparr>bs_mutex := None\<rparr>))"
| loop_pause: "at_pc s t Ev_loop \<Longrightarrow> bs_queue s \<noteq> [] \<Longrightarrow> bs_level s > 0 \<Longrightarrow>
    ev_step s (goto_pc t Ev_spin (mark t IRCEVTHREAD_STATE_PAUSED (s\<lparr>bs_mutex := None\<rparr>)))"
| loop_go: "at_pc s t Ev_loop \<Longrightarrow> bs_queue s \<noteq> [] \<Longrightarrow> bs_level s \<le> 0 \<Longrightarrow> ev_step s (goto_pc t Ev_take s)"
| spin_kill: "at_pc s t Ev_spin \<Longrightarrow> bs_level s > 0 \<Longrightarrow> et_kill_on (thr s t) \<Longrightarrow> ev_step s (leave t s)"
| spin_end: "at_pc s t Ev_spin \<Longrightarrow> bs_level s \<le> 0 \<Longrightarrow> ev_step s (goto_pc t Ev_relock s)"
| relock: "at_pc s t Ev_relock \<Longrightarrow> bs_mutex s = None \<Longrightarrow>
    ev_step s (if bs_queue s = [] then goto_pc t Ev_wait (mark t IRCEVTHREAD_STATE_WAITING s)
      else goto_pc t Ev_take (s\<lparr>bs_mutex := Some t\<rparr>))"
| take: "at_pc s t Ev_take \<Longrightarrow> bs_queue s = (c, ev) # q \<Longrightarrow> c \<in> bs_conns s \<Longrightarrow>
    ev_step s (goto_pc t (Ev_handle (c, ev)) (mark t IRCEVTHREAD_STATE_RUNNING
      (s\<lparr>bs_queue := q, bs_taken := bs_taken s @ [(c, ev)], bs_mutex := None\<rparr>)))"
| skip: "at_pc s t Ev_take \<Longrightarrow> bs_queue s = (c, ev) # q \<Longrightarrow> c \<notin> bs_conns s \<Longrightarrow>
    ev_step s (next_round t
      (s\<lparr>bs_queue := q, bs_taken := bs_taken s @ [(c, ev)], bs_deleted := bs_deleted s @ [(c, ev)]\<rparr>))"
| handled: "at_pc s t (Ev_handle e) \<Longrightarrow> bs_mutex s = None \<Longrightarrow>
    ev_step s (next_round t (s\<lparr>bs_mutex := Some t, bs_deleted := bs_deleted s @ [e]\<rparr>))"
| enqueue: "bs_mutex s = None \<Longrightarrow> ev_step s (s\<lparr>bs_queue := bs_queue s @ [e], bs_added := bs_added s @ [e]\<rparr>)"
| cleanup: "bs_mutex s = None \<Longrightarrow> gone = (\<lambda>e. fst e = c \<and> event_id (snd e) \<noteq> IRCEVENT_DISCONNECTED) \<Longrightarrow>
    ev_step s (s\<lparr>bs_queue := filter (\<lambda>e. \<not> gone e) (bs_queue s),
      bs_deleted := bs_deleted s @ filter gone (bs_queue s)\<rparr>)"
| conns: "ev_step s (s\<lparr>bs_conns := C\<rparr>)"
| kill: "t < length (bs_threads s) \<Longrightarrow> ev_step s (set_thr t (\<lambda>e. e\<lparr>et_kill_on := True\<rparr>) s)"

text \<open>\<open>pause_event_threads(true)\<close>, from \<open>pause\<close> to \<open>pause_done\<close>, and \<open>pause_event_threads(false)\<close>, from \<open>resume\<close> to
  \<open>resume_done\<close>. The calls that are refused (-1) or find nothing to do (1) change nothing.\<close>

inductive pause_step :: "bot_sys \<Rightarrow> bot_sys \<Rightarrow> bool" where
  pause: "bs_pausing s = Pause_none \<Longrightarrow> \<not> (bs_level s > 0 \<and> bs_lock_owner s \<noteq> None \<and> bs_lock_owner s \<noteq> Some p) \<Longrightarrow>
    bs_level s + 1 < 2 \<Longrightarrow>
    pause_step s (s\<lparr>bs_level := bs_level s + 1, bs_lock_owner := Some p, bs_pausing := Pause_scan p 0\<rparr>)"
| pause_again: "bs_pausing s = Pause_none \<Longrightarrow>
    \<not> (bs_level s > 0 \<and> bs_lock_owner s \<noteq> None \<and> bs_lock_owner s \<noteq> Some p) \<Longrightarrow> bs_level s + 1 \<ge> 2 \<Longrightarrow>
    pause_step s (s\<lparr>bs_level := bs_level s + 1\<rparr>)"
| pause_scan: "bs_pausing s = Pause_scan p i \<Longrightarrow> i < length (bs_threads s) \<Longrightarrow>
    i = p \<or> et_state (thr s i) \<noteq> IRCEVTHREAD_STATE_RUNNING \<Longrightarrow>
    pause_step s (s\<lparr>bs_pausing := Pause_scan p (Suc i)\<rparr>)"
| pause_retry: "bs_pausing s = Pause_scan p i \<Longrightarrow> i < length (bs_threads s) \<Longrightarrow> i \<noteq> p \<Longrightarrow>
    et_state (thr s i) = IRCEVTHREAD_STATE_RUNNING \<Longrightarrow> pause_step s (s\<lparr>bs_pausing := Pause_scan p 0\<rparr>)"
| pause_timeout: "bs_pausing s = Pause_scan p i \<Longrightarrow> i < length (bs_threads s) \<Longrightarrow> i \<noteq> p \<Longrightarrow>
    et_state (thr s i) = IRCEVTHREAD_STATE_RUNNING \<Longrightarrow>
    pause_step s (s\<lparr>bs_level := bs_level s - 1, bs_lock_owner := (if bs_level s - 1 = 0 then None else bs_lock_owner s),
      bs_pausing := Pause_none\<rparr>)"
| pause_done: "bs_pausing s = Pause_scan p i \<Longrightarrow> i = length (bs_threads s) \<Longrightarrow>
    pause_step s (s\<lparr>bs_pausing := Pause_none, bs_paused := Some p\<rparr>)"
| resume: "bs_pausing s = Pause_none \<Longrightarrow> \<not> (bs_level s > 0 \<and> bs_lock_owner s \<noteq> None \<and> bs_lock_owner s \<noteq> Some p) \<Longrightarrow>
    bs_level s > 0 \<Longrightarrow>
    pause_step s (s\<lparr>bs_level := bs_level s - 1, bs_pausing := Resume_scan p 0,
      bs_paused := (if bs_level s - 1 = 0 then None else bs_paused s)\<rparr>)"
| resume_scan: "bs_pausing s = Resume_scan p i \<Longrightarrow> i < length (bs_threads s) \<Longrightarrow>
    i = p \<or> et_state (thr s i) \<noteq> IRCEVTHREAD_STATE_PAUSED \<Longrightarrow>
    pause_step s (s\<lparr>bs_pausing := Resume_scan p (Suc i)\<rparr>)"
| resume_retry: "bs_pausing s = Resume_scan p i \<Longrightarrow> i < length (bs_threads s) \<Longrightarrow> i \<noteq> p \<Longrightarrow>
    et_state (thr s i) = IRCEVTHREAD_STATE_PAUSED \<Longrightarrow> pause_step s (s\<lparr>bs_pausing := Resume_scan p 0\<rparr>)"
| resume_timeout: "bs_pausing s = Resume_scan p i \<Longrightarrow> i < length (bs_threads s) \<Longrightarrow> i \<noteq> p \<Longrightarrow>
    et_state (thr s i) = IRCEVTHREAD_STATE_PAUSED \<Longrightarrow> pause_step s (s\<lparr>bs_pausing := Pause_none\<rparr>)"
| resume_done: "bs_pausing s = Resume_scan p i \<Longrightarrow> i = length (bs_threads s) \<Longrightarrow>
    pause_step s (s\<lparr>bs_pausing := Pause_none, bs_lock_owner := (if bs_level s = 0 then None else bs_lock_owner s)\<rparr>)"

inductive bot_step :: "bot_sys \<Rightarrow> bot_sys \<Rightarrow> bool" where
  by_event: "ev_step s u \<Longrightarrow> bot_step s u"
| by_pause: "pause_step s u \<Longrightarrow> bot_step s u"

inductive_cases bot_stepE: "bot_step s u"

inductive bot_run :: "bot_sys \<Rightarrow> bot_sys \<Rightarrow> bool" where
  bot_run_refl: "bot_run s s"
| bot_run_step: "bot_run s u \<Longrightarrow> bot_step u v \<Longrightarrow> bot_run s v"

text \<open>The bot after \<open>create_event_threads(n)\<close>.\<close>

definition bot_start :: "nat \<Rightarrow> nat set \<Rightarrow> bot_sys" where
  "bot_start n conns =
    \<lparr>bs_queue = [], bs_conns = conns, bs_mutex = None, bs_level = 0, bs_lock_owner = None,
     bs_threads = replicate n \<lparr>et_state = IRCEVTHREAD_STATE_IDLE, et_pc = Ev_start, et_kill_on = False\<rparr>,
     bs_pausing = Pause_none, bs_paused = None, bs_added = [], bs_taken = [], bs_deleted = []\<rparr>"

subsection \<open>No event is lost\<close>

definition in_hand :: "ev_thread \<Rightarrow> queued list" where
  "in_hand e = (case et_pc e of Ev_handle x \<Rightarrow> [x] | _ \<Rightarrow> [])"

definition handling :: "bot_sys \<Rightarrow> queued multiset" where
  "handling s = mset (concat (map in_hand (bs_threads s)))"

lemma hand_add:
  "t < length xs \<Longrightarrow> in_hand (xs ! t) = [] \<Longrightarrow>
    mset (concat (map in_hand (xs[t := x]))) = mset (concat (map in_hand xs)) + mset (in_hand x)"
  by (induction xs arbitrary: t) (auto simp: nth_Cons split: nat.splits)

lemma hand_drop:
  "t < length xs \<Longrightarrow> in_hand x = [] \<Longrightarrow>
    mset (concat (map in_hand xs)) = mset (concat (map in_hand (xs[t := x]))) + mset (in_hand (xs ! t))"
  by (induction xs arbitrary: t) (auto simp: nth_Cons split: nat.splits)

definition pc_mutex :: "ev_thread \<Rightarrow> bool" where
  "pc_mutex e \<longleftrightarrow> et_pc e = Ev_loop \<or> et_pc e = Ev_take"

definition mutex_ok :: "bot_sys \<Rightarrow> bool" where
  "mutex_ok s \<longleftrightarrow> (\<forall>t < length (bs_threads s). bs_mutex s = Some t \<longleftrightarrow> pc_mutex (bs_threads s ! t)) \<and>
    (\<forall>t. bs_mutex s = Some t \<longrightarrow> t < length (bs_threads s))"

definition marks_ok :: "bot_sys \<Rightarrow> bool" where
  "marks_ok s \<longleftrightarrow> (\<forall>e \<in> set (bs_threads s). et_state e = IRCEVTHREAD_STATE_RUNNING \<longleftrightarrow> in_hand e \<noteq> [])"

definition nothing_lost :: "bot_sys \<Rightarrow> bool" where
  "nothing_lost s \<longleftrightarrow> mset (bs_added s) = mset (bs_queue s) + mset (bs_deleted s) + handling s"

definition in_order :: "bot_sys \<Rightarrow> bool" where
  "in_order s \<longleftrightarrow> subseq (bs_taken s @ bs_queue s) (bs_added s)"

lemmas thr_ops = goto_pc_def mark_def set_thr_def leave_def next_round_def at_pc_def thr_def Let_def

text \<open>A step of \<open>pause_event_threads\<close> touches the level and its own position only.\<close>

lemma pause_step_frame:
  "pause_step s u \<Longrightarrow> bs_threads u = bs_threads s \<and> bs_queue u = bs_queue s \<and> bs_mutex u = bs_mutex s \<and>
    bs_added u = bs_added s \<and> bs_taken u = bs_taken s \<and> bs_deleted u = bs_deleted s"
  by (induction rule: pause_step.induct) auto

lemma mutex_okD: "mutex_ok s \<Longrightarrow> at_pc s t p \<Longrightarrow> p \<in> {Ev_loop, Ev_take} \<Longrightarrow> bs_mutex s = Some t"
  by (auto simp: mutex_ok_def at_pc_def thr_def pc_mutex_def)

lemma mutex_ok_ev:
  assumes "ev_step s u" "mutex_ok s"
  shows "mutex_ok u"
  using assms
proof (induction rule: ev_step.induct)
  case (loop_empty s t)
  then have "bs_mutex s = Some t" by (auto dest: mutex_okD)
  with loop_empty show ?case by (auto simp: mutex_ok_def thr_ops pc_mutex_def nth_list_update)
next
  case (loop_pause s t)
  then have "bs_mutex s = Some t" by (auto dest: mutex_okD)
  with loop_pause show ?case by (auto simp: mutex_ok_def thr_ops pc_mutex_def nth_list_update)
next
  case (loop_go s t)
  then have "bs_mutex s = Some t" by (auto dest: mutex_okD)
  with loop_go show ?case by (auto simp: mutex_ok_def thr_ops pc_mutex_def nth_list_update)
next
  case (take s t c ev q)
  then have "bs_mutex s = Some t" by (auto dest: mutex_okD)
  with take show ?case by (auto simp: mutex_ok_def thr_ops pc_mutex_def nth_list_update)
next
  case (skip s t c ev q)
  then have "bs_mutex s = Some t" by (auto dest: mutex_okD)
  with skip show ?case by (auto simp: mutex_ok_def thr_ops pc_mutex_def nth_list_update)
qed (auto simp: mutex_ok_def thr_ops pc_mutex_def nth_list_update)

lemma marks_ok_ev: "ev_step s u \<Longrightarrow> marks_ok s \<Longrightarrow> marks_ok u"
  by (induction rule: ev_step.induct)
    (auto simp: marks_ok_def thr_ops in_hand_def dest!: set_update_subset_insert [THEN subsetD] split: if_splits)

lemma hand_same:
  "in_hand x = in_hand (xs ! t) \<Longrightarrow> map in_hand (xs[t := x]) = map in_hand xs"
  by (metis list_update_id map_update)

lemma nothing_lost_ev: "ev_step s u \<Longrightarrow> nothing_lost s \<Longrightarrow> nothing_lost u"
proof (induction rule: ev_step.induct)
  case (handled s t e)
  let ?xs = "bs_threads s"
  have t: "t < length ?xs" "in_hand (?xs ! t) = [e]"
    using handled by (auto simp: thr_ops in_hand_def)
  have "in_hand x = [] \<Longrightarrow> mset (concat (map in_hand ?xs)) = mset (concat (map in_hand (?xs[t := x]))) + {#e#}" for x
    using hand_drop [of t ?xs x] t by simp
  with handled show ?case by (auto simp: nothing_lost_def thr_ops handling_def in_hand_def)
next
  case (kill t s)
  then show ?case by (simp add: nothing_lost_def thr_ops handling_def hand_same in_hand_def)
qed (auto simp: nothing_lost_def thr_ops handling_def hand_add in_hand_def)

lemma in_order_ev: "ev_step s u \<Longrightarrow> in_order s \<Longrightarrow> in_order u"
proof (induction rule: ev_step.induct)
  case (enqueue s e)
  then have "subseq ((bs_taken s @ bs_queue s) @ [e]) (bs_added s @ [e])"
    unfolding in_order_def by (intro list_emb_append_mono) auto
  then show ?case by (simp add: in_order_def)
next
  case (cleanup s gone c)
  have "subseq (bs_taken s @ filter (\<lambda>e. \<not> gone e) (bs_queue s)) (bs_taken s @ bs_queue s)"
    by (intro list_emb_append_mono) (auto simp: subseq_filter_left)
  with cleanup show ?case
    by (auto simp: in_order_def intro: subseq_order.trans)
qed (auto simp: in_order_def thr_ops)

definition bot_inv :: "bot_sys \<Rightarrow> bool" where
  "bot_inv s \<longleftrightarrow> mutex_ok s \<and> marks_ok s \<and> nothing_lost s \<and> in_order s"

lemma bot_inv_start: "bot_inv (bot_start n C)"
  by (auto simp: bot_inv_def bot_start_def mutex_ok_def marks_ok_def nothing_lost_def in_order_def
    pc_mutex_def handling_def in_hand_def)

lemma bot_inv_step: "bot_step s u \<Longrightarrow> bot_inv s \<Longrightarrow> bot_inv u"
  by (auto elim!: bot_stepE dest!: pause_step_frame simp: bot_inv_def mutex_ok_ev marks_ok_ev nothing_lost_ev in_order_ev)
    (auto simp: mutex_ok_def marks_ok_def nothing_lost_def in_order_def handling_def)

lemma bot_run_inv: "bot_run s u \<Longrightarrow> bot_inv s \<Longrightarrow> bot_inv u"
  by (induction rule: bot_run.induct) (auto intro: bot_inv_step)

lemma mutex_owner_unique:
  "mutex_ok s \<Longrightarrow> i < length (bs_threads s) \<Longrightarrow> j < length (bs_threads s) \<Longrightarrow>
    pc_mutex (thr s i) \<Longrightarrow> pc_mutex (thr s j) \<Longrightarrow> i = j"
  by (metis mutex_ok_def option.inject thr_def)

subsection \<open>What a pause promises\<close>

definition between :: "ev_thread \<Rightarrow> bool" where
  "between e \<longleftrightarrow> et_pc e = Ev_take \<or> et_pc e = Ev_relock"

definition others :: "bot_sys \<Rightarrow> nat \<Rightarrow> nat set" where
  "others s p = {t. t < length (bs_threads s) \<and> t \<noteq> p}"

text \<open>The pause of thread \<open>p\<close> is on its way or done: no other thread is past its check of the level, and
  those the scan has passed handle nothing.\<close>

definition quiet :: "nat \<Rightarrow> bot_sys \<Rightarrow> bool" where
  "quiet p s \<longleftrightarrow> bs_level s > 0 \<and> bs_lock_owner s = Some p \<and> (\<forall>t \<in> others s p. \<not> between (thr s t)) \<and>
    (case bs_pausing s of
      Pause_scan q i \<Rightarrow> q = p \<and> bs_level s = 1 \<and> (\<forall>t \<in> others s p. t < i \<longrightarrow> in_hand (thr s t) = [])
    | _ \<Rightarrow> (\<forall>t \<in> others s p. in_hand (thr s t) = []))"

lemma quiet_ev: "ev_step s u \<Longrightarrow> quiet p s \<Longrightarrow> quiet p u"
  by (induction rule: ev_step.induct)
    (auto simp: quiet_def thr_ops others_def between_def in_hand_def nth_list_update split: pause_pc.splits)

lemma quiet_pause:
  assumes "pause_step s u" "marks_ok s" "quiet p s" "bs_level u > 0"
  shows "quiet p u"
  using assms
proof (induction rule: pause_step.induct)
  case (pause_scan s q i)
  then have "in_hand (thr s i) = []" if "i \<noteq> p" using that
    by (auto simp: quiet_def marks_ok_def thr_def)
  with pause_scan show ?case by (auto simp: quiet_def thr_def others_def less_Suc_eq)
qed (auto simp: quiet_def thr_def others_def between_def split: pause_pc.splits)

lemma quiet_step:
  "bot_step s u \<Longrightarrow> marks_ok s \<Longrightarrow> quiet p s \<Longrightarrow> bs_level u > 0 \<Longrightarrow> quiet p u"
  by (auto elim!: bot_stepE intro: quiet_ev quiet_pause)

text \<open>A step in which the pause level stays positive.\<close>

definition held :: "bot_sys \<Rightarrow> bot_sys \<Rightarrow> bool" where
  "held s u \<longleftrightarrow> bot_step s u \<and> bs_level u > 0"

lemma quiet_held:
  "held\<^sup>*\<^sup>* s u \<Longrightarrow> bot_inv s \<Longrightarrow> quiet p s \<Longrightarrow> bot_inv u \<and> quiet p u"
  by (induction rule: rtranclp_induct) (auto simp: held_def bot_inv_def[of s] intro: bot_inv_step quiet_step dest: bot_inv_def [THEN iffD1])


text \<open>C11: What \<open>pause_event_threads(true)\<close> promises. When thread \<open>p\<close> raises the level and no other thread
  is just then between its check of the level and its mark, then from the return of the call until the
  level falls to 0 again no other thread handles an event, whatever the threads, the connections and
  other callers of the function do, and only \<open>p\<close> owns the pause.\<close>

theorem pause_is_exclusive:
  assumes "bot_run (bot_start n C) s" "bs_pausing s = Pause_none" "bs_level s = 0"
    and "\<forall>t \<in> others s p. \<not> between (thr s t)"
    and "held\<^sup>*\<^sup>* (s\<lparr>bs_level := 1, bs_lock_owner := Some p, bs_pausing := Pause_scan p 0\<rparr>) u"
    and "bs_pausing u = Pause_none"
  shows "bot_step s (s\<lparr>bs_level := 1, bs_lock_owner := Some p, bs_pausing := Pause_scan p 0\<rparr>)
    \<and> bs_level u > 0 \<and> bs_lock_owner u = Some p \<and> (\<forall>t \<in> others u p. in_hand (thr u t) = [])"
proof -
  let ?s = "s\<lparr>bs_level := 1, bs_lock_owner := Some p, bs_pausing := Pause_scan p 0\<rparr>"
  have step: "bot_step s ?s" using pause_step.pause [THEN by_pause, of s p] assms by simp
  have "bot_inv ?s" using bot_inv_step [OF step] bot_run_inv [OF assms(1) bot_inv_start] by simp
  moreover have "quiet p ?s" using assms by (simp add: quiet_def others_def thr_def)
  ultimately have "quiet p u" using quiet_held [OF assms(5)] by simp
  with assms step show ?thesis by (simp add: quiet_def)
qed

subsection \<open>What a pause does not promise\<close>

text \<open>A bot with one event thread and one connection, and the runs of the thread up to its check of the
  level and up to the handler.\<close>

definition one_thread :: "queued \<Rightarrow> queued list \<Rightarrow> nat option \<Rightarrow> IRCEVTHREAD_STATE \<Rightarrow> ev_pc \<Rightarrow> bot_sys" where
  "one_thread e q m st pc = \<lparr>bs_queue = q, bs_conns = {fst e}, bs_mutex = m, bs_level = 0, bs_lock_owner = None,
     bs_threads = [\<lparr>et_state = st, et_pc = pc, et_kill_on = False\<rparr>],
     bs_pausing = Pause_none, bs_paused = None, bs_added = [e], bs_taken = (if q = [] then [e] else []),
     bs_deleted = []\<rparr>"

abbreviation one_checked :: "queued \<Rightarrow> bot_sys" where
  "one_checked e \<equiv> one_thread e [e] (Some 0) IRCEVTHREAD_STATE_WAITING Ev_take"

abbreviation one_handling :: "queued \<Rightarrow> bot_sys" where
  "one_handling e \<equiv> one_thread e [] None IRCEVTHREAD_STATE_RUNNING (Ev_handle e)"

lemma one_checked_run: "bot_run (bot_start 1 {fst e}) (one_checked e)"
proof -
  let ?w = "\<lparr>et_state = IRCEVTHREAD_STATE_WAITING, et_pc = Ev_wait, et_kill_on = False\<rparr>"
  let ?a = "bot_start 1 {fst e}" let ?b = "?a\<lparr>bs_threads := [?w]\<rparr>"
  let ?c = "one_thread e [e] None IRCEVTHREAD_STATE_WAITING Ev_wait"
  let ?d = "one_thread e [e] (Some 0) IRCEVTHREAD_STATE_WAITING Ev_loop"
  have "bot_step ?a ?b" using ev_step.start [THEN by_event, of ?a 0] by (simp add: bot_start_def thr_ops)
  then have "bot_run ?a ?b" by (rule bot_run_step [OF bot_run_refl])
  moreover have "bot_step ?b ?c" using ev_step.enqueue [THEN by_event, of ?b e] by (simp add: bot_start_def one_thread_def)
  ultimately have "bot_run ?a ?c" by (rule bot_run_step)
  moreover have "bot_step ?c ?d" using ev_step.wake [THEN by_event, of ?c 0] by (simp add: thr_ops one_thread_def)
  ultimately have "bot_run ?a ?d" by (rule bot_run_step)
  moreover have "bot_step ?d (one_checked e)" using ev_step.loop_go [THEN by_event, of ?d 0] by (simp add: thr_ops one_thread_def)
  ultimately show ?thesis by (rule bot_run_step)
qed

lemma one_handling_run: "bot_run (bot_start 1 {fst e}) (one_handling e)"
proof (rule bot_run_step [OF one_checked_run])
  show "bot_step (one_checked e) (one_handling e)"
    using ev_step.take [THEN by_event, of "one_checked e" 0 "fst e" "snd e" "[]"] by (simp add: one_thread_def thr_ops)
qed

text \<open>A pause of another thread can succeed while an event is handled: a thread that has found the
  level 0 and is about to mark itself \<open>RUNNING\<close> passes the scan of \<open>pause_event_threads(true)\<close>, which
  returns 0 with the level raised, and then takes its event and runs the handlers, although the level is
  positive all the time.\<close>

theorem pause_is_not_exclusive:
  "\<exists>s. bot_run (bot_start 1 {c}) s \<and> bs_paused s = Some 1 \<and> bs_pausing s = Pause_none \<and> bs_level s = 1 \<and>
    in_hand (thr s 0) = [(c, ev)] \<and> et_state (thr s 0) = IRCEVTHREAD_STATE_RUNNING"
proof -
  let ?e = "(c, ev)" let ?a = "bot_start 1 {c}" let ?t = "one_checked ?e"
  let ?p = "?t\<lparr>bs_level := 1, bs_lock_owner := Some 1, bs_pausing := Pause_scan 1 0\<rparr>"
  let ?q = "?t\<lparr>bs_level := 1, bs_lock_owner := Some 1, bs_pausing := Pause_scan 1 1\<rparr>"
  let ?d = "?t\<lparr>bs_level := 1, bs_lock_owner := Some 1, bs_paused := Some 1\<rparr>"
  let ?h = "(one_handling ?e)\<lparr>bs_level := 1, bs_lock_owner := Some 1, bs_paused := Some 1\<rparr>"
  have "bot_run ?a ?t" using one_checked_run [of ?e] by simp
  moreover have "bot_step ?t ?p" using pause_step.pause [THEN by_pause, of ?t 1] by (simp add: one_thread_def)
  ultimately have "bot_run ?a ?p" by (rule bot_run_step)
  moreover have "bot_step ?p ?q" using pause_step.pause_scan [THEN by_pause, of ?p 1 0] by (simp add: one_thread_def thr_def)
  ultimately have "bot_run ?a ?q" by (rule bot_run_step)
  moreover have "bot_step ?q ?d" using pause_step.pause_done [THEN by_pause, of ?q 1 1] by (simp add: one_thread_def)
  ultimately have "bot_run ?a ?d" by (rule bot_run_step)
  moreover have "bot_step ?d ?h" using ev_step.take [THEN by_event, of ?d 0 c ev "[]"] by (simp add: one_thread_def thr_ops)
  ultimately have "bot_run ?a ?h" by (rule bot_run_step)
  then show ?thesis by (intro exI [of _ ?h]) (simp add: one_thread_def thr_def in_hand_def)
qed


lemma pause_is_exclusive_witness:
  "\<exists>u. held\<^sup>*\<^sup>* ((bot_start 1 {3})\<lparr>bs_level := 1, bs_lock_owner := Some 5, bs_pausing := Pause_scan 5 0\<rparr>) u \<and>
    bs_pausing u = Pause_none \<and> in_hand (thr u 0) = []"
proof -
  let ?a = "bot_start 1 {3}"
  let ?p = "?a\<lparr>bs_level := 1, bs_lock_owner := Some 5, bs_pausing := Pause_scan 5 0\<rparr>"
  let ?q = "?a\<lparr>bs_level := 1, bs_lock_owner := Some 5, bs_pausing := Pause_scan 5 1\<rparr>"
  let ?d = "?a\<lparr>bs_level := 1, bs_lock_owner := Some 5, bs_paused := Some 5\<rparr>"
  have "held ?p ?q" using pause_step.pause_scan [THEN by_pause, of ?p 5 0] by (simp add: bot_start_def thr_def held_def)
  moreover have "held ?q ?d" using pause_step.pause_done [THEN by_pause, of ?q 5 1] by (simp add: bot_start_def held_def)
  ultimately have r: "held\<^sup>*\<^sup>* ?p ?d" by (rule converse_rtranclp_into_rtranclp [OF _ r_into_rtranclp])
  have "0 \<in> others ?d 5" by (simp add: others_def bot_start_def)
  moreover have "\<forall>t \<in> others ?d 5. in_hand (thr ?d t) = []"
    using pause_is_exclusive [OF bot_run_refl _ _ _ r]
    by (simp add: bot_start_def others_def thr_def between_def)
  ultimately show ?thesis using r by (intro exI [of _ ?d]) (simp add: bot_start_def)
qed

text \<open>The inner of two nested calls of \<open>pause_event_threads(false)\<close> waits for threads that wait for the
  outer one.\<close>

definition nested_resume :: "nat \<Rightarrow> nat \<Rightarrow> bot_sys \<Rightarrow> bool" where
  "nested_resume p t s \<longleftrightarrow> (\<exists>i \<le> t. bs_pausing s = Resume_scan p i) \<and> bs_level s > 0 \<and> t < length (bs_threads s) \<and>
    t \<noteq> p \<and> et_pc (thr s t) = Ev_spin \<and> et_state (thr s t) = IRCEVTHREAD_STATE_PAUSED \<and> \<not> et_kill_on (thr s t)"

lemma nested_resume_ev: "ev_step s u \<Longrightarrow> nested_resume p t s \<Longrightarrow> nested_resume p t u \<or> et_kill_on (thr u t)"
  by (induction rule: ev_step.induct) (auto simp: nested_resume_def thr_ops nth_list_update)

lemma nested_resume_pause:
  "pause_step s u \<Longrightarrow> nested_resume p t s \<Longrightarrow> nested_resume p t u \<or> u = s\<lparr>bs_pausing := Pause_none\<rparr>"
proof (induction rule: pause_step.induct)
  case (resume_scan s q i)
  then have "i \<noteq> t" by (auto simp: nested_resume_def)
  with resume_scan show ?case by (auto simp: nested_resume_def thr_def)
qed (auto simp: nested_resume_def thr_def)

text \<open>Leaving the inner of two nested pauses fails. While a thread waits for the end of the pause and is
  not killed, a call of \<open>pause_event_threads(false)\<close> that leaves the level positive never finishes its
  scan: each step keeps it waiting, or is its timeout (the call returns -1, with the level lowered), or
  kills the thread.\<close>

theorem nested_resume_times_out:
  assumes "nested_resume p t s" "bot_step s u"
  shows "bs_pausing s \<noteq> Resume_scan p (length (bs_threads s)) \<and>
    (nested_resume p t u \<or> u = s\<lparr>bs_pausing := Pause_none\<rparr> \<or> et_kill_on (thr u t))"
proof
  show "bs_pausing s \<noteq> Resume_scan p (length (bs_threads s))"
    using assms(1) by (auto simp: nested_resume_def)
  show "nested_resume p t u \<or> u = s\<lparr>bs_pausing := Pause_none\<rparr> \<or> et_kill_on (thr u t)"
    using assms(2,1) by (auto elim!: bot_stepE dest: nested_resume_ev nested_resume_pause)
qed

lemma nested_resume_times_out_witness:
  "\<exists>s u. nested_resume 1 0 s \<and> bot_step s u \<and> nested_resume 1 0 u \<and> bs_level s = 1"
proof -
  let ?s = "(one_thread (3, Ircevent_idle) [(3, Ircevent_idle)] None IRCEVTHREAD_STATE_PAUSED Ev_spin)
    \<lparr>bs_level := 1, bs_lock_owner := Some 1, bs_pausing := Resume_scan 1 0\<rparr>"
  have n: "nested_resume 1 0 ?s" by (simp add: nested_resume_def one_thread_def thr_def)
  have st: "bot_step ?s ?s" using pause_step.resume_retry [THEN by_pause, of ?s 1 0] by (simp add: one_thread_def thr_def)
  have "?s \<noteq> ?s\<lparr>bs_pausing := Pause_none\<rparr>" "\<not> et_kill_on (thr ?s 0)"
    by (simp_all add: one_thread_def thr_def)
  with nested_resume_times_out [OF n st] have "nested_resume 1 0 ?s" by blast
  with n st show ?thesis by (intro exI [of _ ?s]) (simp add: one_thread_def)
qed

end
