(* ===== verification/Botconn.thy ===== *)
theory Botconn
  imports Ircsession
begin

text \<open>
  \<open>ircbot_conn\<close> of \<open>ircbot.cpp\<close>: a session with a thread of its own that connects, logs in, runs the loop
  of the session and connects again, and the calls by which other threads end it. A step is what happens
  between two points at which another thread can act; \<open>connfxn_mutex\<close> is \<open>cn_mutex\<close>, the thread that
  holds it. The calls test \<open>is_destructing\<close> before they wait for the mutex, so their steps do not repeat
  that test. Thread 0 is the connection's own. \<open>cn_logins\<close> counts the logins.
\<close>

datatype conn_pc =
    Conn_none | Conn_top | Conn_dialling | Conn_dialled int | Conn_login | Conn_loop loop_vars
  | Conn_left int | Conn_sleep nat | Conn_end | Conn_cleanup | Conn_locking | Conn_gone | Conn_abort

record conn =
  cn_irc :: irc
  cn_server :: "byte list"
  cn_port :: int
  cn_nickbuf :: "byte list"
  cn_thread :: bool
  cn_is_destructing :: bool
  cn_disconnect_on :: bool
  cn_reconnect_on :: bool
  cn_mutex :: "nat option"
  cn_pc :: conn_pc
  cn_cancelled :: bool
  cn_last_conn_time :: int
  cn_logins :: nat

definition conn_new :: "irc \<Rightarrow> byte list \<Rightarrow> int \<Rightarrow> byte list \<Rightarrow> conn" where
  "conn_new st server port nick =
    \<lparr>cn_irc = st, cn_server = server, cn_port = port, cn_nickbuf = nick, cn_thread = False,
     cn_is_destructing = False, cn_disconnect_on = False, cn_reconnect_on = False, cn_mutex = None,
     cn_pc = Conn_none, cn_cancelled = False, cn_last_conn_time = 0, cn_logins = 0\<rparr>"

subsection \<open>Calls of other threads\<close>

definition launch_thread :: "int \<Rightarrow> conn \<Rightarrow> bool \<times> conn" where
  "launch_thread ret c =
    (if cn_thread c then (False, c)
     else if ret < 0 then (False, c\<lparr>cn_reconnect_on := False\<rparr>)
     else (True, c\<lparr>cn_reconnect_on := False, cn_thread := True, cn_pc := Conn_top\<rparr>))"

text \<open>What the calls do with the mutex held. \<open>irc::quit\<close> and \<open>irc::disconnect\<close> return an \<open>int\<close>, 0 for
  success, which becomes the \<open>bool\<close> these functions return.\<close>

definition quit_locked :: "irc_env \<Rightarrow> int \<Rightarrow> byte list \<Rightarrow> conn \<Rightarrow> bool \<times> conn" where
  "quit_locked E now quitmsg c =
    (let c = c\<lparr>cn_reconnect_on := False, cn_disconnect_on := True\<rparr>;
         (ret, st) = irc_quit E now quitmsg (cn_irc c)
     in (ret \<noteq> 0, c\<lparr>cn_irc := st\<rparr>))"

definition conn_quit :: "irc_env \<Rightarrow> int \<Rightarrow> byte list \<Rightarrow> conn \<Rightarrow> bool \<times> conn" where
  "conn_quit E now quitmsg c = (if cn_is_destructing c then (False, c) else quit_locked E now quitmsg c)"

definition disconnect_locked :: "conn \<Rightarrow> bool \<times> conn" where
  "disconnect_locked c =
    (let c = c\<lparr>cn_reconnect_on := False, cn_disconnect_on := True\<rparr>;
         (ret, st) = irc_disconnect (cn_irc c)
     in (ret \<noteq> 0, c\<lparr>cn_irc := st\<rparr>))"

definition conn_disconnect :: "conn \<Rightarrow> bool \<times> conn" where
  "conn_disconnect c = (if cn_is_destructing c then (False, c) else disconnect_locked c)"

text \<open>Both branches of \<open>reconnect\<close> return in front of the call that unlocks the mutex.\<close>

definition reconnect_locked :: "irc_env \<Rightarrow> nat \<Rightarrow> int \<Rightarrow> byte list \<Rightarrow> conn \<Rightarrow> bool \<times> conn" where
  "reconnect_locked E t now quitmsg c =
    (let c = c\<lparr>cn_mutex := Some t, cn_reconnect_on := True\<rparr>;
         (ret, st) = irc_quit E now (if quitmsg = [] then c_lit ''Reconnecting'' else quitmsg) (cn_irc c)
     in (ret \<noteq> 0, c\<lparr>cn_irc := st\<rparr>))"

definition conn_reconnect :: "irc_env \<Rightarrow> nat \<Rightarrow> int \<Rightarrow> byte list \<Rightarrow> conn \<Rightarrow> bool \<times> conn" where
  "conn_reconnect E t now quitmsg c =
    (if cn_is_destructing c \<or> cn_disconnect_on c then (False, c) else reconnect_locked E t now quitmsg c)"

text \<open>\<open>pthread_cancel\<close> leaves a mark that the thread obeys at its next cancellation point.\<close>

definition force_kill_locked :: "irc_env \<Rightarrow> int \<Rightarrow> conn \<Rightarrow> bool \<times> conn" where
  "force_kill_locked E now c =
    (let c = (if ir_status (cn_irc c) = IRCSTATUS_CONNECTED \<and> \<not> cn_reconnect_on c \<and> \<not> cn_disconnect_on c
              then c\<lparr>cn_irc := snd (irc_quit E now (c_lit ''Forced quit'') (cn_irc c))\<rparr> else c);
         c = c\<lparr>cn_reconnect_on := False, cn_disconnect_on := True\<rparr>
     in if cn_thread c then (True, c\<lparr>cn_thread := False, cn_cancelled := True\<rparr>) else (False, c))"

definition force_kill :: "irc_env \<Rightarrow> int \<Rightarrow> conn \<Rightarrow> bool \<times> conn" where
  "force_kill E now c = (if cn_is_destructing c then (False, c) else force_kill_locked E now c)"

subsection \<open>The thread\<close>

definition restart_delay :: "int \<Rightarrow> nat" where
  "restart_delay passed_time = (if passed_time < 60 * 5 then 60 else if passed_time < 60 * 10 then 30 else 5)"

text \<open>\<open>SHORT_SLEEP\<close> is \<open>Conn_sleep\<close>; \<open>pass\<close> is the setting \<open>server_pass\<close>, \<open>sret\<close> the result of connecting
  the socket, \<open>pret\<close> that of creating the send thread.\<close>

inductive main_step :: "irc_env \<Rightarrow> conn \<Rightarrow> conn \<Rightarrow> bool" for E where
  top_stop: "cn_pc c = Conn_top \<Longrightarrow> cn_disconnect_on c \<Longrightarrow> main_step E c (c\<lparr>cn_pc := Conn_end\<rparr>)"
| top: "cn_pc c = Conn_top \<Longrightarrow> \<not> cn_disconnect_on c \<Longrightarrow>
    main_step E c (c\<lparr>cn_last_conn_time := now, cn_reconnect_on := False, cn_pc := Conn_dialling,
      cn_irc := (snd (change_nick E (cn_nickbuf c) (cn_irc c)))\<lparr>ir_server_pass := pass\<rparr>\<rparr>)"
| dial: "cn_pc c = Conn_dialling \<Longrightarrow> 0 \<le> pret \<Longrightarrow>
    irc_connect (cn_server c) (cn_port c) sret pret (cn_irc c) = (ret, st) \<Longrightarrow>
    main_step E c (c\<lparr>cn_irc := st, cn_pc := Conn_dialled ret\<rparr>)"
| dialled_stop: "cn_pc c = Conn_dialled ret \<Longrightarrow> cn_disconnect_on c \<Longrightarrow> ret = 0 \<Longrightarrow> cn_mutex c = None \<Longrightarrow>
    main_step E c ((snd (conn_disconnect c))\<lparr>cn_pc := Conn_end\<rparr>)"
| failed_stop: "cn_pc c = Conn_dialled ret \<Longrightarrow> cn_disconnect_on c \<Longrightarrow> ret \<noteq> 0 \<Longrightarrow>
    main_step E c (c\<lparr>cn_pc := Conn_end\<rparr>)"
| dial_failed: "cn_pc c = Conn_dialled ret \<Longrightarrow> \<not> cn_disconnect_on c \<Longrightarrow> ret < 0 \<Longrightarrow>
    main_step E c (c\<lparr>cn_pc := Conn_top\<rparr>)"
| dialled: "cn_pc c = Conn_dialled ret \<Longrightarrow> \<not> cn_disconnect_on c \<Longrightarrow> \<not> ret < 0 \<Longrightarrow>
    main_step E c (c\<lparr>cn_pc := Conn_login\<rparr>)"
| login: "cn_pc c = Conn_login \<Longrightarrow> login_to_server E (cn_irc c) = Inr st \<Longrightarrow>
    main_step E c (c\<lparr>cn_irc := st\<lparr>ir_last_ping := now, ir_last_pong := now\<rparr>, cn_logins := cn_logins c + 1,
      cn_pc := Conn_loop (loop_vars_start conv)\<rparr>)"
| login_abort: "cn_pc c = Conn_login \<Longrightarrow> login_to_server E (cn_irc c) = Inl f \<Longrightarrow>
    main_step E c (c\<lparr>cn_pc := Conn_abort\<rparr>)"
| turn: "cn_pc c = Conn_loop lv \<Longrightarrow> loop_step E now len line lv (cn_irc c) = Inr (Go_on, lv', st) \<Longrightarrow>
    main_step E c (c\<lparr>cn_irc := st, cn_pc := Conn_loop lv'\<rparr>)"
| loop_end: "cn_pc c = Conn_loop lv \<Longrightarrow> loop_step E now len line lv (cn_irc c) = Inr (Goto_end ret, lv', st) \<Longrightarrow>
    main_step E c (c\<lparr>cn_irc := snd (irc_disconnect st), cn_pc := Conn_left ret\<rparr>)"
| loop_fault: "cn_pc c = Conn_loop lv \<Longrightarrow> loop_step E now len line lv (cn_irc c) = Inl f \<Longrightarrow>
    main_step E c (c\<lparr>cn_pc := Conn_abort\<rparr>)"
| left: "cn_pc c = Conn_left ret \<Longrightarrow>
    main_step E c (c\<lparr>cn_pc := (if cn_reconnect_on c then Conn_top else if ret = 0 then Conn_end
      else Conn_sleep (restart_delay (now - cn_last_conn_time c)))\<rparr>)"
| sleep: "cn_pc c = Conn_sleep (Suc n) \<Longrightarrow> \<not> cn_disconnect_on c \<Longrightarrow> main_step E c (c\<lparr>cn_pc := Conn_sleep n\<rparr>)"
| awake: "cn_pc c = Conn_sleep n \<Longrightarrow> n = 0 \<or> cn_disconnect_on c \<Longrightarrow> main_step E c (c\<lparr>cn_pc := Conn_top\<rparr>)"
| ending: "cn_pc c = Conn_end \<Longrightarrow>
    main_step E c (c\<lparr>cn_disconnect_on := False, cn_reconnect_on := False, cn_thread := False, cn_pc := Conn_cleanup\<rparr>)"
| cleanup: "cn_pc c = Conn_cleanup \<Longrightarrow>
    main_step E c (c\<lparr>cn_is_destructing := True, cn_pc := Conn_locking\<rparr>)"
| gone: "cn_pc c = Conn_locking \<Longrightarrow> cn_mutex c = None \<Longrightarrow>
    main_step E c (c\<lparr>cn_mutex := Some 0, cn_thread := False, cn_pc := Conn_gone\<rparr>)"

| cancelled: "cn_cancelled c \<Longrightarrow> cn_pc c \<notin> {Conn_none, Conn_cleanup, Conn_locking, Conn_gone, Conn_abort} \<Longrightarrow>
    main_step E c (c\<lparr>cn_pc := Conn_cleanup\<rparr>)"

text \<open>The steps of the other threads: the calls, with the mutex free, and what the bot, its handlers and the
  send thread do to the session, which leaves it in a state a session can reach.\<close>

inductive call_step :: "irc_env \<Rightarrow> conn \<Rightarrow> conn \<Rightarrow> bool" for E where
  launch: "cn_pc c = Conn_none \<Longrightarrow> call_step E c (snd (launch_thread ret c))"
| quit: "cn_mutex c = None \<Longrightarrow> call_step E c (snd (quit_locked E now msg c))"
| disconnect: "cn_mutex c = None \<Longrightarrow> call_step E c (snd (disconnect_locked c))"
| reconnect: "cn_mutex c = None \<Longrightarrow> 0 < t \<Longrightarrow> call_step E c (snd (reconnect_locked E t now msg c))"
| kill: "cn_mutex c = None \<Longrightarrow> call_step E c (snd (force_kill_locked E now c))"
| session: "irc_reach E st \<Longrightarrow> call_step E c (c\<lparr>cn_irc := st\<rparr>)"

definition conn_step :: "irc_env \<Rightarrow> conn \<Rightarrow> conn \<Rightarrow> bool" where
  "conn_step E c d \<longleftrightarrow> main_step E c d \<or> call_step E c d"

definition conn_run :: "irc_env \<Rightarrow> conn \<Rightarrow> conn \<Rightarrow> bool" where
  "conn_run E = (conn_step E)\<^sup>*\<^sup>*"

lemma conn_run_inv:
  assumes "conn_run E c d" "P c" "\<And>c d. P c \<Longrightarrow> main_step E c d \<Longrightarrow> P d" "\<And>c d. P c \<Longrightarrow> call_step E c d \<Longrightarrow> P d"
  shows "P d"
proof -
  have "(conn_step E)\<^sup>*\<^sup>* c d" using assms(1) by (simp add: conn_run_def)
  then show ?thesis
  proof (induction rule: rtranclp_induct)
    case base
    show ?case by (rule assms(2))
  next
    case (step x y)
    then show ?case using assms(3,4) [of x y] unfolding conn_step_def by blast
  qed
qed

lemmas call_defs = launch_thread_def quit_locked_def conn_quit_def disconnect_locked_def conn_disconnect_def
  reconnect_locked_def conn_reconnect_def force_kill_locked_def force_kill_def

subsection \<open>The session of a connection\<close>

lemma reach_pass: "irc_reach E st \<Longrightarrow> irc_reach E (st\<lparr>ir_server_pass := p\<rparr>)"
  using irc_reach.settings [of E st, where u = "ir_username st" and r = "ir_realname st" and p = p and
    b = "ir_preserve_eilseq_line st" and f = "ir_enable_flood_protection st"] by simp

lemma reach_snd:
  "irc_reach E st \<Longrightarrow> 0 \<le> pret \<Longrightarrow> irc_connect server port sret pret st = (ret, st') \<Longrightarrow> irc_reach E st'"
  "irc_reach E st \<Longrightarrow> irc_quit E now msg st = (ret, st') \<Longrightarrow> irc_reach E st'"
  "irc_reach E st \<Longrightarrow> irc_disconnect st = (ret, st') \<Longrightarrow> irc_reach E st'"
  by (metis irc_reach.connect snd_conv, metis irc_reach.quit snd_conv, metis irc_reach.disconnect snd_conv)

lemma reach_main: "main_step E c d \<Longrightarrow> irc_reach E (cn_irc c) \<Longrightarrow> irc_reach E (cn_irc d)"
proof (induction rule: main_step.induct)
  case (top c now pass)
  then show ?case by (auto intro: reach_pass irc_reach.nick)
next
  case (dial c pret sret ret st)
  then show ?case by (auto intro: reach_snd)
next
  case (dialled_stop c ret)
  then show ?case by (auto simp: call_defs split: prod.split intro: reach_snd)
next
  case (login c st now conv)
  then show ?case by (auto intro: irc_reach.login irc_reach.start_loop)
next
  case (turn c lv now len line lv' st)
  then show ?case by (auto intro: irc_reach.turn)
next
  case (loop_end c lv now len line ret lv' st)
  then show ?case by (auto intro: irc_reach.turn irc_reach.disconnect)
qed simp_all

lemma reach_call: "call_step E c d \<Longrightarrow> irc_reach E (cn_irc c) \<Longrightarrow> irc_reach E (cn_irc d)"
  by (induction rule: call_step.induct)
    (auto simp: call_defs Let_def split: prod.split intro: reach_snd irc_reach.quit)


subsection \<open>Ending a connection\<close>

text \<open>How far the thread has still to go when it is told to stop.\<close>

fun conn_rank :: "conn_pc \<Rightarrow> nat" where
  "conn_rank Conn_dialling = 10"
| "conn_rank (Conn_dialled ret) = 9"
| "conn_rank Conn_login = 8"
| "conn_rank (Conn_loop lv) = 7"
| "conn_rank (Conn_left ret) = 6"
| "conn_rank (Conn_sleep n) = 5"
| "conn_rank Conn_top = 4"
| "conn_rank Conn_end = 3"
| "conn_rank Conn_cleanup = 2"
| "conn_rank Conn_locking = 1"
| "conn_rank _ = 0"

definition in_loop :: "conn \<Rightarrow> bool" where
  "in_loop c \<longleftrightarrow> (\<exists>lv. cn_pc c = Conn_loop lv)"

definition stopping :: "conn \<Rightarrow> bool" where
  "stopping c \<longleftrightarrow> cn_pc c \<noteq> Conn_none \<and> (cn_disconnect_on c \<or> conn_rank (cn_pc c) \<le> 2)"

lemma rank_live: "p \<notin> {Conn_none, Conn_cleanup, Conn_locking, Conn_gone, Conn_abort} \<Longrightarrow> 2 < conn_rank p"
  by (cases p) auto

lemma stopping_main:
  "main_step E c d \<Longrightarrow> stopping c \<Longrightarrow>
    stopping d \<and> (conn_rank (cn_pc d) < conn_rank (cn_pc c) \<or> in_loop c \<and> in_loop d) \<and>
    (cn_pc c \<noteq> Conn_login \<longrightarrow> cn_logins d = cn_logins c)"
proof (induction rule: main_step.induct)
  case (cancelled c)
  then show ?case using rank_live by (auto simp: stopping_def)
qed (auto simp: stopping_def in_loop_def call_defs Let_def split: prod.split)

lemma stopping_call:
  "call_step E c d \<Longrightarrow> stopping c \<Longrightarrow> stopping d \<and> cn_pc d = cn_pc c \<and> cn_logins d = cn_logins c"
  by (induction rule: call_step.induct) (auto simp: stopping_def call_defs Let_def split: prod.split)

lemma no_login: "main_step E c d \<Longrightarrow> stopping c \<Longrightarrow> cn_pc d \<noteq> Conn_login"
  by (induction rule: main_step.induct) (auto simp: stopping_def call_defs Let_def split: prod.split)

text \<open>C12: \<open>quit\<close> ends a connection. Once it has returned (with \<open>true\<close> exactly when the session was
  disconnected), the connection's thread stays told to stop, whatever other threads do: each of its
  steps other than a turn of the session's loop takes it nearer to its end, so there are at most ten of
  them, and it never logs in again unless it had passed the last test in front of the login.\<close>

theorem quit_ends_connection:
  assumes "conn_quit E now msg c = (ret, c1)" "\<not> cn_is_destructing c" "cn_pc c \<noteq> Conn_none"
    and "conn_run E c1 d" "conn_step E d e"
  shows "(ret \<longleftrightarrow> ir_status (cn_irc c) = IRCSTATUS_DISCONNECTED) \<and>
    (main_step E d e \<longrightarrow> conn_rank (cn_pc e) < conn_rank (cn_pc d) \<or> in_loop d \<and> in_loop e) \<and>
    (call_step E d e \<and> \<not> main_step E d e \<longrightarrow> conn_rank (cn_pc e) = conn_rank (cn_pc d)) \<and>
    (cn_pc c \<noteq> Conn_login \<longrightarrow> cn_logins d = cn_logins c)"
proof -
  have c1: "stopping c1" "cn_pc c1 = cn_pc c" "cn_logins c1 = cn_logins c"
    using assms(1-3) by (auto simp: call_defs stopping_def Let_def split: prod.splits)
  have ret: "ret \<longleftrightarrow> ir_status (cn_irc c) = IRCSTATUS_DISCONNECTED"
    using assms(1,2) by (auto simp: call_defs irc_quit_def Let_def split: prod.splits if_splits)
  have st: "stopping d"
    by (rule conn_run_inv [where P = stopping, OF assms(4) c1(1)]) (auto dest: stopping_main stopping_call)
  have "cn_logins d = cn_logins c" if "cn_pc c \<noteq> Conn_login"
  proof -
    have "stopping d \<and> cn_pc d \<noteq> Conn_login \<and> cn_logins d = cn_logins c1"
      by (rule conn_run_inv [OF assms(4)])
        (use c1 that in \<open>auto dest: stopping_main no_login stopping_call\<close>)
    then show ?thesis using c1 by simp
  qed
  with ret st show ?thesis
    using stopping_main [of E d e] stopping_call [of E d e] by auto
qed

subsection \<open>Reconnecting\<close>

text \<open>The mutex stays with thread \<open>t\<close> and nothing can be asked of the connection any more.\<close>

definition locked_by :: "nat \<Rightarrow> conn \<Rightarrow> bool" where
  "locked_by t c \<longleftrightarrow> cn_mutex c = Some t \<and> \<not> cn_cancelled c \<and> cn_pc c \<noteq> Conn_gone \<and>
    \<not> cn_disconnect_on c"

lemma locked_main: "locked_by t c \<Longrightarrow> main_step E c d \<Longrightarrow> locked_by t d"
  by (erule main_step.cases) (auto simp: locked_by_def)

lemma locked_call: "locked_by t c \<Longrightarrow> call_step E c d \<Longrightarrow> locked_by t d"
  by (erule call_step.cases) (auto simp: locked_by_def launch_thread_def)

text \<open>C13: \<open>reconnect\<close> never gives the mutex back: both of its branches return in front of the call that
  unlocks it. From then on no other call on the connection returns - \<open>quit\<close>, \<open>disconnect\<close>, \<open>reconnect\<close> and
  \<open>force_kill\<close> by any thread, \<open>quit_all\<close> and \<open>wait\<close> with them, wait for ever -, it is never told to stop,
  and should its thread end, the cleanup waits for ever too, with the event threads paused.\<close>

theorem reconnect_never_unlocks:
  assumes "conn_reconnect E t now msg c = (ret, c1)" "\<not> cn_is_destructing c" "\<not> cn_disconnect_on c"
    and "\<not> cn_cancelled c" "cn_pc c \<noteq> Conn_gone" "conn_run E c1 d"
  shows "cn_mutex d = Some t \<and> cn_pc d \<noteq> Conn_gone \<and> \<not> cn_disconnect_on d \<and>
    (\<forall>e. call_step E d e \<longrightarrow> cn_disconnect_on e = cn_disconnect_on d \<and> cn_reconnect_on e = cn_reconnect_on d \<or>
      cn_pc d = Conn_none) \<and>
    (\<forall>e. cn_pc d = Conn_locking \<longrightarrow> \<not> main_step E d e)"
proof -
  have c1: "locked_by t c1" using assms(1-5)
    by (auto simp: conn_reconnect_def reconnect_locked_def locked_by_def Let_def split: prod.splits)
  have d: "locked_by t d"
    by (rule conn_run_inv [where P = "locked_by t", OF assms(6) c1]) (auto dest: locked_main locked_call)
  have "cn_disconnect_on e = cn_disconnect_on d \<and> cn_reconnect_on e = cn_reconnect_on d \<or> cn_pc d = Conn_none"
    if "call_step E d e" for e
    using that d by (cases rule: call_step.cases) (auto simp: locked_by_def launch_thread_def)
  moreover have "\<not> main_step E d e" if "cn_pc d = Conn_locking" for e
    using that d by (auto simp: locked_by_def elim: main_step.cases)
  ultimately show ?thesis using d by (auto simp: locked_by_def)
qed

text \<open>After a connection is lost and nobody has told the thread to stop or to reconnect, it sleeps 60, 30
  or 5 seconds, the less the longer the connection had lasted, and only then goes on to connect again.\<close>

theorem restart_after_delay:
  assumes "cn_pc c = Conn_left ret" "ret \<noteq> 0" "\<not> cn_reconnect_on c" "\<not> cn_disconnect_on c"
  shows "main_step E c (c\<lparr>cn_pc := Conn_sleep (restart_delay (now - cn_last_conn_time c))\<rparr>) \<and>
    (\<forall>n. (main_step E ^^ n) (c\<lparr>cn_pc := Conn_sleep n\<rparr>) (c\<lparr>cn_pc := Conn_sleep 0\<rparr>)) \<and>
    main_step E (c\<lparr>cn_pc := Conn_sleep 0\<rparr>) (c\<lparr>cn_pc := Conn_top\<rparr>)"
proof -
  have "(main_step E ^^ n) (c\<lparr>cn_pc := Conn_sleep n\<rparr>) (c\<lparr>cn_pc := Conn_sleep 0\<rparr>)" for n
  proof (induction n)
    case (Suc n)
    have "main_step E (c\<lparr>cn_pc := Conn_sleep (Suc n)\<rparr>) (c\<lparr>cn_pc := Conn_sleep n\<rparr>)"
      using main_step.sleep [of "c\<lparr>cn_pc := Conn_sleep (Suc n)\<rparr>" n E] assms by simp
    then show ?case using Suc by (metis relpowp_Suc_I2)
  qed simp
  then show ?thesis
    using main_step.left [of c ret E now] main_step.awake [of "c\<lparr>cn_pc := Conn_sleep 0\<rparr>" 0 E] assms by simp
qed

subsection \<open>Waiting for the connections\<close>

text \<open>One turn of the loop in \<open>ircbot::wait\<close>, for \<open>n\<close> connections and the time \<open>ts\<close> of \<open>disconnect_all\<close>: the
  loop goes on, goes on after \<open>force_kill_all\<close>, or returns.\<close>

datatype wait_turn = Wait_on | Wait_kill_all | Wait_return int

definition bot_wait :: "int \<Rightarrow> int \<Rightarrow> nat \<Rightarrow> wait_turn" where
  "bot_wait now ts n =
    (if n = 0 then Wait_return 0
     else if ts \<noteq> 0 then
       (if now - ts > 8 then Wait_kill_all else if now - ts > 32 then Wait_return (- 1) else Wait_on)
     else Wait_on)"

lemma wait_never_gives_up: "0 < n \<Longrightarrow> bot_wait now ts n \<noteq> Wait_return r"
  by (simp add: bot_wait_def)

subsection \<open>A run up to the login\<close>

definition login_irc :: "irc_env \<Rightarrow> irc \<Rightarrow> byte list \<Rightarrow> int \<Rightarrow> byte list \<Rightarrow> irc" where
  "login_irc E st server port nick =
    snd (irc_connect server port 0 0 ((snd (change_nick E nick st))\<lparr>ir_server_pass := []\<rparr>))"

definition at_login :: "irc_env \<Rightarrow> irc \<Rightarrow> byte list \<Rightarrow> int \<Rightarrow> byte list \<Rightarrow> conn" where
  "at_login E st server port nick =
    (conn_new st server port nick)\<lparr>cn_irc := login_irc E st server port nick, cn_thread := True, cn_pc := Conn_login\<rparr>"

lemma at_login_run:
  assumes "ir_status st = IRCSTATUS_DISCONNECTED"
  shows "conn_run E (conn_new st server port nick) (at_login E st server port nick)"
    "ir_status (login_irc E st server port nick) = IRCSTATUS_CONNECTING"
proof -
  let ?irc = "(snd (change_nick E nick st))\<lparr>ir_server_pass := []\<rparr>"
  let ?a = "conn_new st server port nick"
  let ?b = "?a\<lparr>cn_thread := True, cn_pc := Conn_top\<rparr>"
  let ?c = "?b\<lparr>cn_pc := Conn_dialling, cn_irc := ?irc\<rparr>"
  let ?d = "?b\<lparr>cn_pc := Conn_dialled 0, cn_irc := login_irc E st server port nick\<rparr>"
  have con: "irc_connect server port 0 0 ?irc = (0, login_irc E st server port nick)"
    "ir_status (login_irc E st server port nick) = IRCSTATUS_CONNECTING"
    using assms by (simp_all add: login_irc_def irc_connect_def change_nick_def create_send_thread_def send_event_def Let_def)
  have "conn_step E ?a ?b"
    using call_step.launch [of ?a E 0] by (simp add: conn_step_def conn_new_def launch_thread_def)
  moreover have "conn_step E ?b ?c"
    using main_step.top [where c = ?b and E = E and now = 0 and pass = "[]"] by (simp add: conn_step_def conn_new_def)
  moreover have "conn_step E ?c ?d"
    using main_step.dial [where c = ?c and E = E and pret = 0 and sret = 0] con(1) by (simp add: conn_step_def conn_new_def)
  moreover have "conn_step E ?d (at_login E st server port nick)"
    using main_step.dialled [of ?d 0 E] by (simp add: conn_step_def conn_new_def at_login_def)
  ultimately show "conn_run E ?a (at_login E st server port nick)"
    unfolding conn_run_def by (meson converse_rtranclp_into_rtranclp rtranclp.rtrancl_refl)
  show "ir_status (login_irc E st server port nick) = IRCSTATUS_CONNECTING" by (rule con(2))
qed

text \<open>Between the last test of \<open>disconnect_on\<close> and the login another thread can disconnect the session;
  the assertion in \<open>login_to_server\<close> then ends the whole program.\<close>

theorem disconnect_can_abort_login:
  "\<exists>c. conn_run E (conn_new (irc_new ping pong timer si) server port nick) c \<and> cn_pc c = Conn_abort"
proof -
  let ?st = "irc_new ping pong timer si"
  let ?l = "at_login E ?st server port nick" let ?d = "snd (disconnect_locked ?l)"
  have s: "ir_status ?st = IRCSTATUS_DISCONNECTED" by (simp add: irc_new_def)
  have "conn_run E (conn_new ?st server port nick) ?l" by (rule at_login_run(1) [OF s])
  moreover have "conn_step E ?l ?d"
    using call_step.disconnect [of ?l E] by (simp add: conn_step_def at_login_def conn_new_def)
  moreover have "ir_status (cn_irc ?d) = IRCSTATUS_DISCONNECTED" "cn_pc ?d = Conn_login"
    by (simp_all add: disconnect_locked_def irc_disconnect_def Let_def at_login_def split: prod.split)
  then have "conn_step E ?d (?d\<lparr>cn_pc := Conn_abort\<rparr>)"
    using main_step.login_abort [of ?d E Assert_failed] by (simp add: conn_step_def login_to_server_def)
  ultimately have "conn_run E (conn_new ?st server port nick) (?d\<lparr>cn_pc := Conn_abort\<rparr>)"
    unfolding conn_run_def by (meson rtranclp.rtrancl_into_rtrancl)
  then show ?thesis by (intro exI [of _ "?d\<lparr>cn_pc := Conn_abort\<rparr>"]) simp
qed

subsection \<open>Witnesses\<close>

definition conn_irc_witness :: irc where
  "conn_irc_witness = irc_new 0 0 0 (ir_srvinfo session_witness)"

lemma conn_irc_witness: "irc_reach env_witness conn_irc_witness" "ir_status conn_irc_witness = IRCSTATUS_DISCONNECTED"
  unfolding conn_irc_witness_def by (rule irc_reach.new) (simp add: irc_new_def)

definition conn_witness :: conn where
  "conn_witness = at_login env_witness conn_irc_witness (c_lit ''irc'') 6667 (c_lit ''bot'')"


lemma conn_witness_simps: "cn_pc conn_witness = Conn_login" "\<not> cn_is_destructing conn_witness"
  "\<not> cn_disconnect_on conn_witness" "\<not> cn_cancelled conn_witness" "\<not> cn_reconnect_on conn_witness"
  "ir_status (cn_irc conn_witness) = IRCSTATUS_CONNECTING"
  using at_login_run(2) [OF conn_irc_witness(2)] by (simp_all add: conn_witness_def at_login_def conn_new_def)

lemma quit_ends_connection_witness:
  "fst (conn_quit env_witness 7 [] conn_witness) = False \<and> conn_rank (cn_pc conn_witness) = 8"
proof -
  obtain ret c1 where q: "conn_quit env_witness 7 [] conn_witness = (ret, c1)" by fastforce
  have step: "conn_step env_witness c1 (c1\<lparr>cn_irc := conn_irc_witness\<rparr>)"
    using call_step.session [OF conn_irc_witness(1)] by (simp add: conn_step_def)
  have "conn_run env_witness c1 c1" by (simp add: conn_run_def)
  from quit_ends_connection [OF q _ _ this step] show ?thesis by (simp add: conn_witness_simps q)
qed

lemma reconnect_never_unlocks_witness:
  "cn_mutex (snd (conn_reconnect env_witness 3 7 [] conn_witness)) = Some 3"
proof -
  obtain ret c1 where r: "conn_reconnect env_witness 3 7 [] conn_witness = (ret, c1)" by fastforce
  have "conn_run env_witness c1 c1" by (simp add: conn_run_def)
  from reconnect_never_unlocks [OF r _ _ _ _ this] show ?thesis by (simp add: conn_witness_simps r)
qed

lemma restart_after_delay_witness:
  "main_step env_witness (conn_witness\<lparr>cn_pc := Conn_left (- 1)\<rparr>) (conn_witness\<lparr>cn_pc := Conn_sleep 60\<rparr>)"
  using restart_after_delay [of "conn_witness\<lparr>cn_pc := Conn_left (- 1)\<rparr>" "- 1" env_witness 100]
  by (simp add: conn_witness_simps restart_delay_def conn_witness_def at_login_def conn_new_def)

end
