(* ===== verification/Luacpp.thy ===== *)
theory Luacpp
  imports Etc
begin

text \<open>
  The wrapper around a Lua state: class \<open>luacpp\<close>, the conversions \<open>lua_my_tostdstring\<close> and \<open>lua_my_toint\<close>, and
  the references \<open>luaref\<close> with the registry they live in (\<open>luacpp.cpp\<close>, \<open>luacpp.h\<close>). The Lua interpreter is a
  parameter, \<open>lua_api\<close>: what loading a chunk, calling a function and reading a global do. What the C interface
  of Lua does with the stack of values is written out.
\<close>

subsection \<open>Values and the stack\<close>

text \<open>A number is what \<open>lua_tointeger\<close> and \<open>lua_tostring\<close> make of it; a table is its entries in the order of
  \<open>lua_next\<close>; the other kinds are told apart by an identity only.\<close>

datatype lua_value =
    LUA_TNIL
  | LUA_TBOOLEAN bool
  | LUA_TNUMBER int "byte list"
  | LUA_TSTRING "byte list"
  | LUA_TTABLE "(lua_value \<times> lua_value) list"
  | LUA_TFUNCTION nat
  | LUA_TUSERDATA nat
  | LUA_TTHREAD nat
  | LUA_TLIGHTUSERDATA nat

text \<open>\<open>lua_tointeger\<close> of a value that is not a string.\<close>

fun lua_tointeger :: "lua_value \<Rightarrow> int" where
  "lua_tointeger (LUA_TNUMBER n s) = n"
| "lua_tointeger _ = 0"

fun lua_tolstring :: "lua_value \<Rightarrow> byte list option" where
  "lua_tolstring (LUA_TNUMBER n s) = Some s"
| "lua_tolstring (LUA_TSTRING s) = Some s"
| "lua_tolstring _ = None"

fun lua_toboolean :: "lua_value \<Rightarrow> bool" where
  "lua_toboolean LUA_TNIL = False"
| "lua_toboolean (LUA_TBOOLEAN b) = b"
| "lua_toboolean _ = True"

text \<open>The stack has its top in front; \<open>'w\<close> is everything else in the interpreter.\<close>

record 'w lua_state =
  L_stack :: "lua_value list"
  L_world :: 'w

text \<open>Loading gives a status and a function or an error object; a call gives a status and the results or
  the error object. A string is converted to a number as \<open>la_str2int\<close>, 0 when it is none.\<close>

record 'w lua_api =
  la_loadfile :: "byte list \<Rightarrow> 'w \<Rightarrow> int \<times> lua_value \<times> 'w"
  la_loadstring :: "byte list \<Rightarrow> 'w \<Rightarrow> int \<times> lua_value \<times> 'w"
  la_call :: "lua_value \<Rightarrow> lua_value list \<Rightarrow> 'w \<Rightarrow> int \<times> lua_value list \<times> 'w"
  la_getglobal :: "byte list \<Rightarrow> 'w \<Rightarrow> lua_value"
  la_str2int :: "byte list \<Rightarrow> int"

definition lua_pushvalues :: "lua_value list \<Rightarrow> 'w lua_state \<Rightarrow> 'w lua_state" where
  "lua_pushvalues vs L = L\<lparr>L_stack := rev vs @ L_stack L\<rparr>"

definition lua_pop :: "nat \<Rightarrow> 'w lua_state \<Rightarrow> 'w lua_state" where
  "lua_pop n L = L\<lparr>L_stack := drop n (L_stack L)\<rparr>"

definition LUA_MULTRET :: int where
  "LUA_MULTRET = - 1"

definition adjust_results :: "int \<Rightarrow> lua_value list \<Rightarrow> lua_value list" where
  "adjust_results n rs = (if n = LUA_MULTRET then rs else take (nat n) (rs @ replicate (nat n) LUA_TNIL))"

definition lua_pcall :: "'w lua_api \<Rightarrow> nat \<Rightarrow> int \<Rightarrow> 'w lua_state \<Rightarrow> c_fault + (int \<times> 'w lua_state)" where
  "lua_pcall A nargs nresults L =
    (if length (L_stack L) \<le> nargs then Inl Read_past_end
     else
       (let (ret, rs, w) = la_call A (L_stack L ! nargs) (rev (take nargs (L_stack L))) (L_world L);
            L = L\<lparr>L_stack := drop (Suc nargs) (L_stack L), L_world := w\<rparr>
        in Inr (ret, lua_pushvalues (if ret = 0 then adjust_results nresults rs else take 1 (rs @ [LUA_TNIL])) L)))"

subsection \<open>Class \<open>luacpp\<close>\<close>

record 'w luacpp =
  lw_lua :: "'w lua_state option"
  lw_lasterr_str :: "byte list"

text \<open>\<open>CHECK_LUA_STATE_PTR\<close>.\<close>

definition check_lua :: "'w luacpp \<Rightarrow> c_fault + 'w lua_state" where
  "check_lua lw = (case lw_lua lw of None \<Rightarrow> Inl Assert_failed | Some L \<Rightarrow> Inr L)"

definition lw_close :: "'w luacpp \<Rightarrow> int \<times> 'w luacpp" where
  "lw_close lw = (case lw_lua lw of Some L \<Rightarrow> (0, lw\<lparr>lw_lua := None\<rparr>) | None \<Rightarrow> (- 1, lw))"

text \<open>\<open>newstate\<close> is the result of \<open>luaL_newstate\<close> with the libraries opened.\<close>

definition lw_init :: "'w lua_state option \<Rightarrow> 'w luacpp \<Rightarrow> int \<times> 'w luacpp" where
  "lw_init newstate lw =
    (let lw = (if lw_lua lw \<noteq> None then snd (lw_close lw) else lw); lw = lw\<lparr>lw_lua := newstate\<rparr>
     in if newstate = None then (- 1, lw) else (0, lw))"

text \<open>A \<open>std::string\<close> made from the null pointer that \<open>lua_tostring\<close> gives for other values.\<close>

definition lw_popstring :: "'w luacpp \<Rightarrow> c_fault + (byte list \<times> 'w luacpp)" where
  "lw_popstring lw =
    (case check_lua lw of
       Inl f \<Rightarrow> Inl f
     | Inr L \<Rightarrow>
         (case L_stack L of
            [] \<Rightarrow> Inl Read_past_end
          | v # _ \<Rightarrow>
              (case lua_tolstring v of
                 None \<Rightarrow> Inl Null_deref
               | Some buf \<Rightarrow> Inr (until_nul buf, lw\<lparr>lw_lua := Some (lua_pop 1 L)\<rparr>))))"

definition lw_pcall :: "'w lua_api \<Rightarrow> nat \<Rightarrow> int \<Rightarrow> 'w luacpp \<Rightarrow> c_fault + (int \<times> 'w luacpp)" where
  "lw_pcall A nargs nresults lw =
    (case check_lua lw of
       Inl f \<Rightarrow> Inl f
     | Inr L \<Rightarrow>
         (case lua_pcall A nargs nresults L of
            Inl f \<Rightarrow> Inl f
          | Inr (ret, L) \<Rightarrow>
              if ret \<noteq> 0 then
                (case lua_tolstring (hd (L_stack L)) of
                   None \<Rightarrow> Inl Null_deref
                 | Some errmsg \<Rightarrow> Inr (ret, lw\<lparr>lw_lua := Some (lua_pop 1 L), lw_lasterr_str := until_nul errmsg\<rparr>))
              else Inr (0, lw\<lparr>lw_lua := Some L\<rparr>)))"

text \<open>The part that \<open>dofile\<close> and \<open>dostring\<close> share; \<open>load\<close> is what loading gives.\<close>

definition lw_doload ::
  "'w lua_api \<Rightarrow> ('w \<Rightarrow> int \<times> lua_value \<times> 'w) \<Rightarrow> 'w luacpp \<Rightarrow> c_fault + (int \<times> 'w luacpp)" where
  "lw_doload A load lw =
    (case check_lua lw of
       Inl f \<Rightarrow> Inl f
     | Inr L \<Rightarrow>
         (let (ret, v, w) = load (L_world L);
              lw = lw\<lparr>lw_lua := Some (lua_pushvalues [v] (L\<lparr>L_world := w\<rparr>))\<rparr>
          in if ret \<noteq> 0 then
               (case lw_popstring lw of
                  Inl f \<Rightarrow> Inl f
                | Inr (str, lw) \<Rightarrow> Inr (ret, lw\<lparr>lw_lasterr_str := str\<rparr>))
             else lw_pcall A 0 0 lw))"

definition lw_dofile :: "'w lua_api \<Rightarrow> byte list \<Rightarrow> 'w luacpp \<Rightarrow> c_fault + (int \<times> 'w luacpp)" where
  "lw_dofile A file lw = lw_doload A (la_loadfile A (until_nul file)) lw"

definition lw_dostring :: "'w lua_api \<Rightarrow> byte list \<Rightarrow> 'w luacpp \<Rightarrow> c_fault + (int \<times> 'w luacpp)" where
  "lw_dostring A code lw = lw_doload A (la_loadstring A (until_nul code)) lw"

subsection \<open>Calls with a format of arguments\<close>

text \<open>The arguments behind the dots: a number also has its text, a string may be the null pointer.\<close>

datatype lua_va =
    Va_integer int "byte list"
  | Va_string "byte list option"
  | Va_null
  | Va_boolean bool
  | Va_number int "byte list"
  | Va_lightuserdata nat

text \<open>\<open>!strncmp(s, t, n)\<close>.\<close>

fun strncmp0 :: "byte list \<Rightarrow> byte list \<Rightarrow> nat \<Rightarrow> bool" where
  "strncmp0 s t 0 \<longleftrightarrow> True"
| "strncmp0 s t (Suc n) \<longleftrightarrow>
    cstr_at s 0 = cstr_at t 0 \<and> (cstr_at s 0 = 0 \<or> strncmp0 (drop 1 s) (drop 1 t) n)"

text \<open>One round of the loop: the value pushed and the arguments left, None for a type that is not known.
  Reading an argument as another type than it was passed is a fault.\<close>

definition va_push :: "byte list \<Rightarrow> nat \<Rightarrow> lua_va list \<Rightarrow> (c_fault + (lua_value \<times> lua_va list)) option" where
  "va_push p len ap =
    (if strncmp0 p (c_lit ''integer'') len then
       Some (case ap of Va_integer n s # ap \<Rightarrow> Inr (LUA_TNUMBER n s, ap) | _ \<Rightarrow> Inl Read_past_end)
     else if strncmp0 p (c_lit ''string'') len then
       Some (case ap of
           Va_string (Some s) # ap \<Rightarrow> Inr (LUA_TSTRING (until_nul s), ap)
         | Va_string None # ap \<Rightarrow> Inr (LUA_TNIL, ap)
         | _ \<Rightarrow> Inl Read_past_end)
     else if strncmp0 p (c_lit ''null'') len then
       Some (case ap of Va_null # ap \<Rightarrow> Inr (LUA_TNIL, ap) | _ \<Rightarrow> Inl Read_past_end)
     else if strncmp0 p (c_lit ''boolean'') len then
       Some (case ap of Va_boolean b # ap \<Rightarrow> Inr (LUA_TBOOLEAN b, ap) | _ \<Rightarrow> Inl Read_past_end)
     else if strncmp0 p (c_lit ''number'') len then
       Some (case ap of Va_number n s # ap \<Rightarrow> Inr (LUA_TNUMBER n s, ap) | _ \<Rightarrow> Inl Read_past_end)
     else if strncmp0 p (c_lit ''lightuserdata'') len then
       Some (case ap of Va_lightuserdata q # ap \<Rightarrow> Inr (LUA_TLIGHTUSERDATA q, ap) | _ \<Rightarrow> Inl Read_past_end)
     else None)"

text \<open>The text up to the next comma and what is behind the comma.\<close>

definition comma_split :: "byte list \<Rightarrow> byte list \<times> byte list option" where
  "comma_split p =
    (let tok = takeWhile (\<lambda>c. c \<noteq> 0x2C) p
     in (tok, if length tok < length p then Some (drop (Suc (length tok)) p) else None))"

text \<open>The loop: the number of values pushed, the values in the order pushed, and the text of a bad type.\<close>

function vparg_loop ::
  "byte list \<Rightarrow> lua_va list \<Rightarrow> lua_value list \<Rightarrow> c_fault + (lua_value list \<times> byte list option)" where
  "vparg_loop p ap vs =
    (let (tok, nxt) = comma_split p
     in if tok = [] then Inr (vs, Some tok)
        else
          (case va_push p (length tok) ap of
             None \<Rightarrow> Inr (vs, Some tok)
           | Some (Inl f) \<Rightarrow> Inl f
           | Some (Inr (v, ap)) \<Rightarrow>
               (case nxt of None \<Rightarrow> Inr (vs @ [v], None) | Some p \<Rightarrow> vparg_loop p ap (vs @ [v]))))"
  by pat_completeness auto
termination
  by (relation "measure (\<lambda>(p, ap, vs). length p)") (auto simp: comma_split_def Let_def split: if_splits)

declare vparg_loop.simps [simp del]

definition lw_vpcallarg ::
  "'w lua_api \<Rightarrow> int \<Rightarrow> byte list \<Rightarrow> lua_va list \<Rightarrow> 'w luacpp \<Rightarrow> c_fault + (int \<times> 'w luacpp)" where
  "lw_vpcallarg A nresults argfmt ap lw =
    (case check_lua lw of
       Inl f \<Rightarrow> Inl f
     | Inr L \<Rightarrow>
         (case vparg_loop (until_nul argfmt) ap [] of
            Inl f \<Rightarrow> Inl f
          | Inr (vs, bad) \<Rightarrow>
              (let nargs = length vs; lw = lw\<lparr>lw_lua := Some (lua_pushvalues vs L)\<rparr>
               in case bad of
                    Some tok \<Rightarrow>
                      Inr (- 1, lw\<lparr>lw_lua := Some (lua_pop nargs (lua_pushvalues vs L)),
                        lw_lasterr_str := c_lit ''invalid argument format string: `'' @ tok @ [0x27]\<rparr>)
                  | None \<Rightarrow> lw_pcall A nargs nresults lw)))"

definition lw_pcallarg ::
  "'w lua_api \<Rightarrow> int \<Rightarrow> byte list \<Rightarrow> lua_va list \<Rightarrow> 'w luacpp \<Rightarrow> c_fault + (int \<times> 'w luacpp)" where
  "lw_pcallarg A nresults argfmt ap lw =
    (case check_lua lw of Inl f \<Rightarrow> Inl f | Inr L \<Rightarrow> lw_vpcallarg A nresults argfmt ap lw)"

definition lw_callfxn ::
  "'w lua_api \<Rightarrow> byte list \<Rightarrow> int \<Rightarrow> byte list \<Rightarrow> lua_va list \<Rightarrow> 'w luacpp \<Rightarrow> c_fault + (int \<times> 'w luacpp)" where
  "lw_callfxn A name nresults argfmt ap lw =
    (case check_lua lw of
       Inl f \<Rightarrow> Inl f
     | Inr L \<Rightarrow>
         lw_vpcallarg A nresults argfmt ap
           (lw\<lparr>lw_lua := Some (lua_pushvalues [la_getglobal A (until_nul name) (L_world L)] L)\<rparr>))"

subsection \<open>Conversions\<close>

text \<open>What \<open>*dest\<close> becomes; None for the result \<open>false\<close>. A number is printed with \<open>%d\<close>, which takes the low
  32 bits of the \<open>lua_Integer\<close>.\<close>

definition low_int :: "int \<Rightarrow> int" where
  "low_int n = sint (of_int n :: u32)"

fun lua_my_tostdstring :: "lua_value \<Rightarrow> byte list option" where
  "lua_my_tostdstring (LUA_TNUMBER n s) = Some (int2string (low_int n))"
| "lua_my_tostdstring (LUA_TBOOLEAN b) = Some (if b then c_lit ''true'' else c_lit ''false'')"
| "lua_my_tostdstring (LUA_TSTRING s) = Some s"
| "lua_my_tostdstring _ = None"

definition lua_my_tostdstring_v :: "lua_value \<Rightarrow> byte list" where
  "lua_my_tostdstring_v v = (case lua_my_tostdstring v of Some s \<Rightarrow> s | None \<Rightarrow> [])"

fun lua_my_toint :: "lua_value \<Rightarrow> int option" where
  "lua_my_toint (LUA_TNUMBER n s) = Some (low_int n)"
| "lua_my_toint (LUA_TBOOLEAN b) = Some (if b then 1 else 0)"
| "lua_my_toint (LUA_TSTRING s) = Some (sint (my_atoi (until_nul s)))"
| "lua_my_toint _ = None"

definition lua_my_toint_v :: "lua_value \<Rightarrow> int" where
  "lua_my_toint_v v = (case lua_my_toint v of Some n \<Rightarrow> n | None \<Rightarrow> 0)"

subsection \<open>References\<close>

text \<open>
  The registry as \<open>luaL_ref\<close> and \<open>luaL_unref\<close> keep it: the slots 1, 2, \<dots> of the table, and in its slot 0
  the head of the list of free ones, each of which holds the next (0 or nil at the end). Storing at a slot
  behind the last one would leave a hole, and the length of a table with holes is not specified: None.
\<close>

record lua_registry =
  rg_free :: int
  rg_slots :: "lua_value list"

definition LUA_NOREF :: int where "LUA_NOREF = - 2"
definition LUA_REFNIL :: int where "LUA_REFNIL = - 1"

definition rg_link :: "int \<Rightarrow> lua_value" where
  "rg_link n = (if n = 0 then LUA_TNIL else LUA_TNUMBER n (int2string n))"

definition rg_in :: "int \<Rightarrow> lua_registry \<Rightarrow> bool" where
  "rg_in i g \<longleftrightarrow> 1 \<le> i \<and> i \<le> int (length (rg_slots g))"

definition lua_rawgeti :: "lua_registry \<Rightarrow> int \<Rightarrow> lua_value" where
  "lua_rawgeti g i = (if i = 0 then rg_link (rg_free g) else if rg_in i g then rg_slots g ! nat (i - 1) else LUA_TNIL)"

definition luaL_ref :: "lua_value \<Rightarrow> lua_registry \<Rightarrow> int \<times> lua_registry" where
  "luaL_ref v g =
    (if v = LUA_TNIL then (LUA_REFNIL, g)
     else
       (let ref = rg_free g
        in if ref \<noteq> 0 then
             (ref, g\<lparr>rg_free := lua_tointeger (lua_rawgeti g ref), rg_slots := (rg_slots g)[nat (ref - 1) := v]\<rparr>)
           else (int (length (rg_slots g)) + 1, g\<lparr>rg_slots := rg_slots g @ [v]\<rparr>)))"

definition luaL_unref :: "int \<Rightarrow> lua_registry \<Rightarrow> lua_registry option" where
  "luaL_unref ref g =
    (if ref < 0 then Some g
     else if ref = 0 then Some (g\<lparr>rg_free := 0\<rparr>)
     else if rg_in ref g then
       Some (g\<lparr>rg_free := ref, rg_slots := (rg_slots g)[nat (ref - 1) := rg_link (rg_free g)]\<rparr>)
     else None)"

text \<open>The stacks of the \<open>lua_State\<close> pointers, and the registries, which the coroutines of one state share.\<close>

record lua_mem =
  lm_stack :: "nat \<Rightarrow> lua_value list"
  lm_global :: "nat \<Rightarrow> nat"
  lm_registry :: "nat \<Rightarrow> lua_registry"

record luaref =
  lr_L :: nat
  lr_ref_id :: int

definition lua_index :: "int \<Rightarrow> lua_value list \<Rightarrow> lua_value" where
  "lua_index n st =
    (if 0 < n \<and> n \<le> int (length st) then rev st ! nat (n - 1)
     else if n < 0 \<and> - n \<le> int (length st) then st ! nat (- n - 1) else LUA_TNIL)"

definition luaref_unref :: "lua_mem \<Rightarrow> luaref \<Rightarrow> (lua_mem \<times> luaref) option" where
  "luaref_unref M r =
    (let k = lm_global M (lr_L r)
     in case luaL_unref (lr_ref_id r) (lm_registry M k) of
          None \<Rightarrow> None
        | Some g \<Rightarrow> Some (M\<lparr>lm_registry := (lm_registry M)(k := g)\<rparr>, r\<lparr>lr_ref_id := LUA_NOREF\<rparr>))"

definition luaref_ref :: "nat \<Rightarrow> int \<Rightarrow> lua_mem \<Rightarrow> luaref \<Rightarrow> (int \<times> lua_mem \<times> luaref) option" where
  "luaref_ref L stack_n M r =
    (let r = r\<lparr>lr_L := L\<rparr>
     in case (if lr_ref_id r \<noteq> LUA_NOREF then luaref_unref M r else Some (M, r)) of
          None \<Rightarrow> None
        | Some (M, r) \<Rightarrow>
            (let k = lm_global M L;
                 (i, g) = luaL_ref (lua_index stack_n (lm_stack M L)) (lm_registry M k)
             in Some (i, M\<lparr>lm_registry := (lm_registry M)(k := g)\<rparr>, r\<lparr>lr_ref_id := i\<rparr>)))"

text \<open>The constructors: an empty one, one that refers to a value of the stack, and the copy.\<close>

definition luaref_new :: luaref where
  "luaref_new = \<lparr>lr_L = 0, lr_ref_id = LUA_NOREF\<rparr>"

definition luaref_new_at :: "nat \<Rightarrow> int \<Rightarrow> lua_mem \<Rightarrow> (int \<times> lua_mem \<times> luaref) option" where
  "luaref_new_at L stack_n M = luaref_ref L stack_n M luaref_new"

definition luaref_copy :: "luaref \<Rightarrow> luaref" where
  "luaref_copy o' = \<lparr>lr_L = lr_L o', lr_ref_id = lr_ref_id o'\<rparr>"

definition luaref_pushref :: "nat \<Rightarrow> luaref \<Rightarrow> lua_mem \<Rightarrow> lua_mem" where
  "luaref_pushref L r M =
    M\<lparr>lm_stack := (lm_stack M)(L := lua_rawgeti (lm_registry M (lm_global M L)) (lr_ref_id r) # lm_stack M L)\<rparr>"

definition luaref_clearref :: "luaref \<Rightarrow> luaref" where
  "luaref_clearref r = r\<lparr>lr_ref_id := LUA_NOREF\<rparr>"

definition luaref_eq :: "luaref \<Rightarrow> luaref \<Rightarrow> bool" where
  "luaref_eq a b \<longleftrightarrow> lr_L a = lr_L b \<and> lr_ref_id a = lr_ref_id b"

subsection \<open>Calls keep the stack\<close>

lemma strncmp0_prefix: "cstr_ok tok \<Longrightarrow> strncmp0 (tok @ r) lit (length tok) \<longleftrightarrow> take (length tok) lit = tok"
proof (induction tok arbitrary: lit)
  case (Cons c tok)
  then show ?case by (cases lit) auto
qed simp

text \<open>The kind of value that a type in the format stands for; a prefix of a name is enough. And the value that
  an argument of this kind is passed as.\<close>

datatype va_kind = K_integer | K_string | K_null | K_boolean | K_number | K_lightuserdata

definition kind_of :: "byte list \<Rightarrow> va_kind option" where
  "kind_of tok =
    map_of (map (\<lambda>(n, k). (take (length tok) (c_lit n), k))
      [(''integer'', K_integer), (''string'', K_string), (''null'', K_null), (''boolean'', K_boolean),
       (''number'', K_number), (''lightuserdata'', K_lightuserdata)]) tok"

fun va_value :: "va_kind \<Rightarrow> lua_va \<Rightarrow> lua_value option" where
  "va_value K_integer (Va_integer n s) = Some (LUA_TNUMBER n s)"
| "va_value K_string (Va_string s) = Some (case s of None \<Rightarrow> LUA_TNIL | Some s \<Rightarrow> LUA_TSTRING (until_nul s))"
| "va_value K_null Va_null = Some LUA_TNIL"
| "va_value K_boolean (Va_boolean b) = Some (LUA_TBOOLEAN b)"
| "va_value K_number (Va_number n s) = Some (LUA_TNUMBER n s)"
| "va_value K_lightuserdata (Va_lightuserdata q) = Some (LUA_TLIGHTUSERDATA q)"
| "va_value _ _ = None"

lemma va_push_kind:
  assumes "cstr_ok tok" "kind_of tok = Some k" "va_value k a = Some v"
  shows "va_push (tok @ r) (length tok) (a # ap) = Some (Inr (v, ap))"
  using assms(2,3) strncmp0_prefix [OF assms(1), of r]
  by (auto simp: kind_of_def va_push_def split: if_splits lua_va.splits option.splits elim!: va_value.elims)

lemma va_push_bad: "cstr_ok tok \<Longrightarrow> kind_of tok = None \<Longrightarrow> va_push (tok @ r) (length tok) ap = None"
  using strncmp0_prefix [of tok r] by (auto simp: kind_of_def va_push_def split: if_splits)

lemma comma_split_simps:
  assumes "0x2C \<notin> set tok"
  shows "comma_split tok = (tok, None)" "comma_split (tok @ 0x2C # r) = (tok, Some r)"
proof -
  have tw: "takeWhile (\<lambda>c. c \<noteq> 0x2C) tok = tok" "takeWhile (\<lambda>c. c \<noteq> 0x2C) (tok @ 0x2C # r) = tok"
    using assms by (induction tok) auto
  then show "comma_split tok = (tok, None)" "comma_split (tok @ 0x2C # r) = (tok, Some r)"
    by (simp_all add: comma_split_def tw)
qed

definition good_tok :: "byte list \<Rightarrow> bool" where
  "good_tok tok \<longleftrightarrow> tok \<noteq> [] \<and> 0x2C \<notin> set tok \<and> cstr_ok tok"

lemma vparg_loop_all:
  assumes "toks \<noteq> []" "\<forall>tok \<in> set toks. good_tok tok \<and> kind_of tok \<noteq> None"
    and "list_all2 (\<lambda>tok (a, v). va_value (the (kind_of tok)) a = Some v) toks avs"
  shows "vparg_loop (join_with [0x2C] toks) (map fst avs @ ap) vs = Inr (vs @ map snd avs, None)"
  using assms
proof (induction toks arbitrary: avs vs)
  case (Cons tok toks)
  then obtain a v avs' where av: "avs = (a, v) # avs'" "va_value (the (kind_of tok)) a = Some v"
    "list_all2 (\<lambda>tok (a, v). va_value (the (kind_of tok)) a = Some v) toks avs'"
    by (auto simp: list_all2_Cons1)
  have t: "tok \<noteq> []" "0x2C \<notin> set tok" "cstr_ok tok" "kind_of tok = Some (the (kind_of tok))"
    using Cons.prems(2) by (auto simp: good_tok_def)
  note push = va_push_kind [OF t(3,4) av(2)]
  show ?case
  proof (cases toks)
    case Nil
    then show ?thesis using t push [of "[]"] av by (simp add: vparg_loop.simps comma_split_simps)
  next
    case (Cons u us)
    then have "vparg_loop (join_with [0x2C] toks) (map fst avs' @ ap) (vs @ [v]) = Inr ((vs @ [v]) @ map snd avs', None)"
      using Cons.IH Cons.prems(2) av(3) by simp
    then show ?thesis using Cons t push av
      by (subst vparg_loop.simps) (simp add: comma_split_simps)
  qed
qed simp

lemma vparg_loop_bad:
  assumes "\<forall>tok \<in> set toks. good_tok tok \<and> kind_of tok \<noteq> None" "0x2C \<notin> set bad" "cstr_ok bad"
    and "bad = [] \<or> kind_of bad = None" "rest = [] \<or> hd rest = 0x2C"
    and "list_all2 (\<lambda>tok (a, v). va_value (the (kind_of tok)) a = Some v) toks avs"
  shows "vparg_loop (concat (map (\<lambda>t. t @ [0x2C]) toks) @ bad @ rest) (map fst avs @ ap) vs =
    Inr (vs @ map snd avs, Some bad)"
  using assms(1,6)
proof (induction toks arbitrary: avs vs)
  case Nil
  have "fst (comma_split (bad @ rest)) = bad"
    using assms(2,5) by (cases rest) (auto simp: comma_split_simps)
  then show ?case using Nil assms(3,4) va_push_bad [of bad rest]
    by (subst vparg_loop.simps) (auto simp: split: prod.splits)
next
  case (Cons tok toks)
  then obtain a v avs' where av: "avs = (a, v) # avs'" "va_value (the (kind_of tok)) a = Some v"
    "list_all2 (\<lambda>tok (a, v). va_value (the (kind_of tok)) a = Some v) toks avs'"
    by (auto simp: list_all2_Cons1)
  have t: "tok \<noteq> []" "0x2C \<notin> set tok" "cstr_ok tok" "kind_of tok = Some (the (kind_of tok))"
    using Cons.prems(1) by (auto simp: good_tok_def)
  show ?case using Cons.IH [OF _ av(3), of "vs @ [v]"] Cons.prems(1) va_push_kind [OF t(3,4) av(2)] t av(1)
    by (subst vparg_loop.simps) (simp add: comma_split_simps)
qed

lemma lw_pcall_stack:
  assumes "lw_lua lw = Some L" "L_stack L = rev vs @ f # st" "la_call A f vs (L_world L) = (ret, rs, w)"
  shows "lw_pcall A (length vs) nres lw =
    (if ret = 0 then Inr (0, lw\<lparr>lw_lua := Some \<lparr>L_stack = rev (adjust_results nres rs) @ st, L_world = w\<rparr>\<rparr>)
     else
       (case lua_tolstring (hd (rs @ [LUA_TNIL])) of
          None \<Rightarrow> Inl Null_deref
        | Some e \<Rightarrow> Inr (ret, lw\<lparr>lw_lua := Some \<lparr>L_stack = st, L_world = w\<rparr>, lw_lasterr_str := until_nul e\<rparr>)))"
  using assms
  by (cases rs) (auto simp: lw_pcall_def lua_pcall_def check_lua_def lua_pushvalues_def lua_pop_def nth_append
      split: option.splits)

lemma callfxn_format:
  assumes "lw_lua lw = Some L" "vparg_loop (until_nul argfmt) ap [] = Inr (vs, None)"
  shows "lw_callfxn A name nres argfmt ap lw =
    lw_pcall A (length vs) nres
      (lw\<lparr>lw_lua := Some (L\<lparr>L_stack := rev vs @ la_getglobal A (until_nul name) (L_world L) # L_stack L\<rparr>)\<rparr>)"
  using assms by (simp add: lw_callfxn_def lw_vpcallarg_def check_lua_def lua_pushvalues_def)

lemma join_with_ok: "\<forall>t \<in> set toks. cstr_ok t \<Longrightarrow> cstr_ok d \<Longrightarrow> cstr_ok (join_with d toks)"
  by (induction d toks rule: join_with.induct) auto

text \<open>A call with a format whose types are known calls the global function with exactly the arguments, in
  their order. When it succeeds, its results, cut or filled up with nil to the number asked for, are all
  that is new on the stack. When it fails, the stack is what it was and the message is kept, except that an error
  object that is no string (a table, say, or nil) is taken for a null string.\<close>

theorem callfxn_calls:
  assumes "lw_lua lw = Some L" "toks \<noteq> []" "\<forall>tok \<in> set toks. good_tok tok \<and> kind_of tok \<noteq> None"
    and "list_all2 (\<lambda>tok (a, v). va_value (the (kind_of tok)) a = Some v) toks avs"
    and "la_call A (la_getglobal A (until_nul name) (L_world L)) (map snd avs) (L_world L) = (ret, rs, w)"
  shows "lw_callfxn A name nres (join_with [0x2C] toks) (map fst avs @ ap) lw =
    (if ret = 0 then
       Inr (0, lw\<lparr>lw_lua := Some \<lparr>L_stack = rev (adjust_results nres rs) @ L_stack L, L_world = w\<rparr>\<rparr>)
     else
       (case lua_tolstring (hd (rs @ [LUA_TNIL])) of
          None \<Rightarrow> Inl Null_deref
        | Some e \<Rightarrow> Inr (ret, lw\<lparr>lw_lua := Some \<lparr>L_stack = L_stack L, L_world = w\<rparr>, lw_lasterr_str := until_nul e\<rparr>)))"
proof -
  have "until_nul (join_with [0x2C] toks) = join_with [0x2C] toks"
    using assms(3) by (intro until_nul_id join_with_ok) (auto simp: good_tok_def)
  then have "vparg_loop (until_nul (join_with [0x2C] toks)) (map fst avs @ ap) [] = Inr (map snd avs, None)"
    using vparg_loop_all [OF assms(2,3,4), of ap "[]"] by simp
  note f = callfxn_format [OF assms(1) this, of A name nres]
  let ?f = "la_getglobal A (until_nul name) (L_world L)"
  let ?L = "L\<lparr>L_stack := rev (map snd avs) @ ?f # L_stack L\<rparr>"
  have "la_call A ?f (map snd avs) (L_world ?L) = (ret, rs, w)" using assms(5) by simp
  note p = lw_pcall_stack [of "lw\<lparr>lw_lua := Some ?L\<rparr>" ?L "map snd avs" ?f "L_stack L", OF _ _ this]
  show ?thesis unfolding f by (subst p) (simp_all add: luacpp.defs split: option.split)
qed

lemma callfxn_calls_witness:
  "lw_callfxn \<lparr>la_loadfile = \<lambda>_ w. (0, LUA_TNIL, w), la_loadstring = \<lambda>_ w. (0, LUA_TNIL, w),
      la_call = \<lambda>f vs w. (0, vs, w), la_getglobal = \<lambda>_ _. LUA_TFUNCTION 1, la_str2int = \<lambda>_. 0\<rparr>
    (c_lit ''f'') 1 (c_lit ''string,bool'') [Va_string (Some (c_lit ''hi'')), Va_boolean True]
    \<lparr>lw_lua = Some \<lparr>L_stack = [], L_world = ()\<rparr>, lw_lasterr_str = []\<rparr> =
    Inr (0, \<lparr>lw_lua = Some \<lparr>L_stack = [LUA_TSTRING (c_lit ''hi'')], L_world = ()\<rparr>, lw_lasterr_str = []\<rparr>)"
  using callfxn_calls [of "\<lparr>lw_lua = Some \<lparr>L_stack = [], L_world = ()\<rparr>, lw_lasterr_str = []\<rparr>"
      "\<lparr>L_stack = [], L_world = ()\<rparr>" "[c_lit ''string'', c_lit ''bool'']"
      "[(Va_string (Some (c_lit ''hi'')), LUA_TSTRING (c_lit ''hi'')), (Va_boolean True, LUA_TBOOLEAN True)]"
      "\<lparr>la_loadfile = \<lambda>_ w. (0, LUA_TNIL, w), la_loadstring = \<lambda>_ w. (0, LUA_TNIL, w),
        la_call = \<lambda>f vs w. (0, vs, w), la_getglobal = \<lambda>_ _. LUA_TFUNCTION 1, la_str2int = \<lambda>_. 0\<rparr>"
      "c_lit ''f''" 0 "[LUA_TSTRING (c_lit ''hi''), LUA_TBOOLEAN True]" "()" 1 "[]"]
  by (simp add: c_lit_def good_tok_def kind_of_def until_nul_def adjust_results_def LUA_MULTRET_def)

text \<open>A type that is not known leaves the function on the stack, and so does a call without arguments, for the
  empty format is an unknown type.\<close>

lemma callfxn_leak:
  assumes "lw_lua lw = Some L" "\<forall>tok \<in> set toks. good_tok tok \<and> kind_of tok \<noteq> None"
    and "0x2C \<notin> set bad" "cstr_ok bad" "bad = [] \<or> kind_of bad = None"
    and "list_all2 (\<lambda>tok (a, v). va_value (the (kind_of tok)) a = Some v) toks avs"
  shows "\<exists>lw'. lw_callfxn A name nres (concat (map (\<lambda>t. t @ [0x2C]) toks) @ bad) (map fst avs @ ap) lw = Inr (- 1, lw') \<and>
    map_option L_stack (lw_lua lw') = Some (la_getglobal A (until_nul name) (L_world L) # L_stack L)"
proof -
  have "cstr_ok (concat (map (\<lambda>t. t @ [0x2C]) toks) @ bad)" using assms(2,4) by (induction toks) (auto simp: good_tok_def)
  then have "vparg_loop (until_nul (concat (map (\<lambda>t. t @ [0x2C]) toks) @ bad)) (map fst avs @ ap) [] = Inr (map snd avs, Some bad)"
    using vparg_loop_bad [OF assms(2,3,4,5), of "[]" avs ap "[]"] assms(6) by (simp add: until_nul_id)
  then show ?thesis using assms(1)
    by (simp add: lw_callfxn_def lw_vpcallarg_def check_lua_def lua_pushvalues_def lua_pop_def)
qed

lemma callfxn_no_args:
  "lw_lua lw = Some L \<Longrightarrow> \<exists>lw'. lw_callfxn A name nres [] ap lw = Inr (- 1, lw')"
  using callfxn_leak [of lw L "[]" "[]" "[]" A name nres ap] by auto

text \<open>A number converts to its low 32 bits, and the text and the number of the conversion agree.\<close>

lemma lua_number_conversions:
  "lua_my_tostdstring (LUA_TNUMBER n s) = Some t \<Longrightarrow> lua_my_toint (LUA_TSTRING t) = lua_my_toint (LUA_TNUMBER n s)"
  "lua_my_toint (LUA_TNUMBER (2 ^ 32 + 5) s) = Some 5"
proof -
  have r: "- (2 ^ 31) \<le> low_int n \<and> low_int n < 2 ^ 31" for n
    using sint_greater_eq [of "of_int n :: u32"] sint_less [of "of_int n :: u32"] by (simp add: low_int_def)
  have ok: "cstr_ok (int2string (low_int n))" for n
  proof -
    have "c \<noteq> 0" if "c \<in> set (dec_str k)" for c k using dec_str_digits [OF that] by auto
    then show ?thesis using r [of n] by (auto simp: int2string_full cstr_ok_def)
  qed
  show "lua_my_tostdstring (LUA_TNUMBER n s) = Some t \<Longrightarrow> lua_my_toint (LUA_TSTRING t) = lua_my_toint (LUA_TNUMBER n s)"
    using my_atoi_int2string [of "low_int n" "[]"] r [of n] ok [of n]
    by (auto simp: until_nul_id atoi_digit_def)
  show "lua_my_toint (LUA_TNUMBER (2 ^ 32 + 5) s) = Some 5" by (simp add: low_int_def)
qed

subsection \<open>References do not clash\<close>

text \<open>The chain of free slots; what is not on it is in use.\<close>

fun rg_chain :: "lua_registry \<Rightarrow> int \<Rightarrow> int list \<Rightarrow> bool" where
  "rg_chain g i [] \<longleftrightarrow> i = 0"
| "rg_chain g i (j # js) \<longleftrightarrow> i = j \<and> rg_in j g \<and> rg_chain g (lua_tointeger (lua_rawgeti g j)) js"

definition rg_inv :: "lua_registry \<Rightarrow> int list \<Rightarrow> bool" where
  "rg_inv g fs \<longleftrightarrow> rg_chain g (rg_free g) fs \<and> distinct fs"

definition rg_live :: "lua_registry \<Rightarrow> int list \<Rightarrow> int \<Rightarrow> bool" where
  "rg_live g fs i \<longleftrightarrow> rg_in i g \<and> i \<notin> set fs"

lemma rg_chain_cong:
  "length (rg_slots g) \<le> length (rg_slots g') \<Longrightarrow> \<forall>j \<in> set js. rg_slots g' ! nat (j - 1) = rg_slots g ! nat (j - 1) \<Longrightarrow>
    rg_chain g i js \<Longrightarrow> rg_chain g' i js"
  by (induction js arbitrary: i) (auto simp: rg_in_def lua_rawgeti_def)

lemma rg_chain_in: "rg_chain g i js \<Longrightarrow> j \<in> set js \<Longrightarrow> rg_in j g"
  by (induction js arbitrary: i) auto

lemma rg_link_int: "lua_tointeger (rg_link n) = n"
  by (simp add: rg_link_def)

lemma rg_other: "rg_in i g \<Longrightarrow> rg_in j g \<Longrightarrow> i \<noteq> j \<Longrightarrow> nat (i - 1) \<noteq> nat (j - 1)"
  by (auto simp: rg_in_def)

lemma luaL_ref_inv:
  assumes "rg_inv g fs" "v \<noteq> LUA_TNIL" "luaL_ref v g = (ref, g')"
  shows "rg_inv g' (tl fs) \<and> \<not> rg_live g fs ref \<and> rg_live g' (tl fs) ref \<and> lua_rawgeti g' ref = v \<and>
    (\<forall>i. rg_live g fs i \<longrightarrow> rg_live g' (tl fs) i \<and> lua_rawgeti g' i = lua_rawgeti g i)"
proof (cases fs)
  case Nil
  then have "rg_free g = 0" using assms(1) by (simp add: rg_inv_def)
  then have g': "ref = int (length (rg_slots g)) + 1" "g' = g\<lparr>rg_slots := rg_slots g @ [v]\<rparr>"
    using assms(2,3) by (auto simp: luaL_ref_def Let_def)
  then show ?thesis using Nil \<open>rg_free g = 0\<close>
    by (auto simp: rg_inv_def rg_live_def rg_in_def lua_rawgeti_def nth_append)
next
  case (Cons f fs')
  then have f: "rg_free g = f" "rg_in f g" "rg_chain g (lua_tointeger (lua_rawgeti g f)) fs'" "f \<notin> set fs'" "distinct fs'"
    using assms(1) by (auto simp: rg_inv_def)
  then have g': "ref = f" "g' = g\<lparr>rg_free := lua_tointeger (lua_rawgeti g f), rg_slots := (rg_slots g)[nat (f - 1) := v]\<rparr>"
    using assms(2,3) by (auto simp: luaL_ref_def Let_def rg_in_def)
  have other: "rg_in i g \<Longrightarrow> i \<noteq> f \<Longrightarrow> rg_slots g' ! nat (i - 1) = rg_slots g ! nat (i - 1)" for i
    using rg_other [of i g f] f(2) g'(2) by simp
  have "rg_chain g' (lua_tointeger (lua_rawgeti g f)) fs'"
    using rg_chain_cong [OF _ _ f(3), of g'] other rg_chain_in [OF f(3)] f(4) g'(2) by fastforce
  moreover have "rg_in i g' \<longleftrightarrow> rg_in i g" for i using g'(2) by (simp add: rg_in_def)
  moreover have "rg_slots g' ! nat (f - 1) = v"
  proof -
    have "nat (f - 1) < length (rg_slots g)" using f(2) by (auto simp: rg_in_def)
    then show ?thesis using g'(2) by simp
  qed
  ultimately show ?thesis using f other g' Cons
    by (auto simp: rg_inv_def rg_live_def lua_rawgeti_def rg_in_def)
qed

lemma luaL_unref_inv:
  assumes "rg_inv g fs" "rg_live g fs ref"
  shows "\<exists>g'. luaL_unref ref g = Some g' \<and> rg_inv g' (ref # fs) \<and>
    (\<forall>i. rg_live g fs i \<and> i \<noteq> ref \<longrightarrow> rg_live g' (ref # fs) i \<and> lua_rawgeti g' i = lua_rawgeti g i)"
proof -
  have r: "rg_in ref g" "ref \<notin> set fs" "1 \<le> ref" using assms(2) by (auto simp: rg_live_def rg_in_def)
  let ?g = "g\<lparr>rg_free := ref, rg_slots := (rg_slots g)[nat (ref - 1) := rg_link (rg_free g)]\<rparr>"
  have u: "luaL_unref ref g = Some ?g" using r by (simp add: luaL_unref_def)
  have c: "rg_chain g (rg_free g) fs" "distinct fs" using assms(1) by (auto simp: rg_inv_def)
  have other: "rg_in i g \<Longrightarrow> i \<noteq> ref \<Longrightarrow> rg_slots ?g ! nat (i - 1) = rg_slots g ! nat (i - 1)" for i
    using rg_other [of i g ref] r(1) by simp
  have inn: "rg_in i ?g \<longleftrightarrow> rg_in i g" for i by (simp add: rg_in_def)
  have "rg_chain ?g (rg_free g) fs"
  proof (rule rg_chain_cong [OF _ _ c(1)])
    show "\<forall>j \<in> set fs. rg_slots ?g ! nat (j - 1) = rg_slots g ! nat (j - 1)"
      using other rg_chain_in [OF c(1)] r(2) by blast
  qed simp
  moreover have "lua_rawgeti ?g ref = rg_link (rg_free g)" using r(1,3) by (simp add: lua_rawgeti_def rg_in_def)
  ultimately have "rg_inv ?g (ref # fs)" using r c(2) inn by (simp add: rg_inv_def rg_link_int)
  then show ?thesis using u other inn by (auto simp: rg_live_def lua_rawgeti_def rg_in_def)
qed

text \<open>A copy of a \<open>luaref\<close> has the same slot: when both are released, the next two references that are made get
  one slot between them.\<close>

definition mem_one :: "lua_value \<Rightarrow> lua_value \<Rightarrow> lua_mem" where
  "mem_one a b =
    \<lparr>lm_stack = \<lambda>_. [b, a], lm_global = \<lambda>_. 0, lm_registry = \<lambda>_. \<lparr>rg_free = 0, rg_slots = []\<rparr>\<rparr>"

definition copied_refs :: "lua_value \<Rightarrow> lua_value \<Rightarrow> (luaref \<times> luaref) option" where
  "copied_refs a b =
    (case luaref_new_at 0 1 (mem_one a b) of None \<Rightarrow> None | Some (_, M, r) \<Rightarrow>
       (case luaref_unref M r of None \<Rightarrow> None | Some (M, _) \<Rightarrow>
          (case luaref_unref M (luaref_copy r) of None \<Rightarrow> None | Some (M, _) \<Rightarrow>
             (case luaref_new_at 0 1 M of None \<Rightarrow> None | Some (_, M, p) \<Rightarrow>
                map_option (\<lambda>(_, M, q). (p, q)) (luaref_new_at 0 2 M)))))"

lemma luaref_copies_clash:
  "a \<noteq> LUA_TNIL \<Longrightarrow> b \<noteq> LUA_TNIL \<Longrightarrow> \<exists>r. copied_refs a b = Some (r, r)"
  by (simp add: copied_refs_def luaref_new_at_def luaref_ref_def luaref_new_def mem_one_def luaL_ref_def lua_index_def
      luaref_unref_def luaL_unref_def rg_in_def luaref_copy_def rg_link_def lua_rawgeti_def LUA_NOREF_def Let_def)

text \<open>\<open>luaref::ref\<close> sets the new state before it releases the old reference, so a reference that moves to another
  state releases a slot of that one.\<close>

lemma luaref_ref_releases_new_state:
  assumes "lm_global M L \<noteq> lm_global M (lr_L r)" "luaref_ref L n M r = Some (i, M', r')"
  shows "lm_registry M' (lm_global M (lr_L r)) = lm_registry M (lm_global M (lr_L r))"
  using assms by (auto simp: luaref_ref_def luaref_unref_def Let_def split: if_splits option.splits prod.splits)

end
