(* ===== verification/Config.thy ===== *)
theory Config
  imports Luacpp Strmap
begin

text \<open>
  The configuration of \<open>config.cpp\<close> and \<open>config.h\<close>: class \<open>config\<close>, a map of texts read from a file of lines, and
  class \<open>lconfig\<close>, which evaluates expressions in a Lua state. The files are a parameter, a function from paths to
  contents; \<open>nfd\<close> is the number of descriptors that the process can still open, so that files that include
  each other end as they do in the program, with a file that cannot be opened.
\<close>

subsection \<open>Lines\<close>

definition re_cfgline :: "byte list" where
  "re_cfgline = c_lit ''^([^+= '' @ [0x09] @ c_lit '']+)[ '' @ [0x09] @ c_lit '']*=[ '' @ [0x09] @ c_lit '']*(.*)''"

definition re_cfgline_append :: "byte list" where
  "re_cfgline_append =
    c_lit ''^([^+= '' @ [0x09] @ c_lit '']+)[ '' @ [0x09, 0x5D, 0x2A, 0x5C] @ c_lit ''+=[ '' @ [0x09] @ c_lit '']*(.*)''"

definition re_cfgline_include :: "byte list" where
  "re_cfgline_include = c_lit ''^include (.+)''"

definition re_cfg_comment :: "byte list" where
  "re_cfg_comment = c_lit ''^[ '' @ [0x09] @ c_lit '']*#.*''"

text \<open>\<open>std::getline\<close> until the stream is not good any more.\<close>

fun getlines :: "byte list \<Rightarrow> byte list list" where
  "getlines [] = [[]]"
| "getlines (c # s) = (if c = 0x0A then [] # getlines s else case getlines s of [] \<Rightarrow> [[c]] | l # ls \<Rightarrow> (c # l) # ls)"

subsection \<open>Class \<open>config\<close>\<close>

record config =
  cf_filename :: "byte list"
  cf_data :: "byte list std_strmap"

definition config_new :: config where
  "config_new = \<lparr>cf_filename = [], cf_data = []\<rparr>"

definition cf_set :: "byte list \<Rightarrow> byte list \<Rightarrow> config \<Rightarrow> config" where
  "cf_set key val c = c\<lparr>cf_data := smap_set string_less key val (cf_data c)\<rparr>"

definition config_getval :: "byte list \<Rightarrow> byte list \<Rightarrow> config \<Rightarrow> byte list" where
  "config_getval key default_val c =
    (case smap_find string_less key (cf_data c) of None \<Rightarrow> default_val | Some v \<Rightarrow> v)"

text \<open>What goes to \<open>stderr\<close>: the file and the line.\<close>

datatype cfg_msg = Cannot_open "byte list" nat "byte list" | Parsing_failed "byte list" nat

type_synonym cfg_files = "byte list \<Rightarrow> byte list option"

fun parse_file :: "byte pcre \<Rightarrow> cfg_files \<Rightarrow> nat \<Rightarrow> byte list \<Rightarrow> config \<times> cfg_msg list \<Rightarrow> int \<times> config \<times> cfg_msg list"
  and parse_lines :: "byte pcre \<Rightarrow> cfg_files \<Rightarrow> nat \<Rightarrow> byte list \<Rightarrow> nat \<Rightarrow> byte list list \<Rightarrow> config \<times> cfg_msg list \<Rightarrow>
    int \<times> config \<times> cfg_msg list" where
  "parse_file R fs 0 filename st = (- 1, st)"
| "parse_file R fs (Suc nfd) filename st =
    (case fs (until_nul filename) of
       None \<Rightarrow> (- 1, st)
     | Some content \<Rightarrow> parse_lines R fs nfd filename 1 (getlines content) st)"
| "parse_lines R fs nfd filename ln [] st = (0, st)"
| "parse_lines R fs nfd filename ln (buf # lines) (c, err) =
    (if buf = [] \<or> re_full R re_cfg_comment buf \<noteq> None then
       parse_lines R fs nfd filename (Suc ln) lines (c, err)
     else
       (case re_full R re_cfgline buf of
          Some gs \<Rightarrow> parse_lines R fs nfd filename (Suc ln) lines (cf_set (gs ! 0) (gs ! 1) c, err)
        | None \<Rightarrow>
       (case re_full R re_cfgline_append buf of
          Some gs \<Rightarrow>
            parse_lines R fs nfd filename (Suc ln) lines
              (cf_set (gs ! 0) (config_getval (gs ! 0) [] c @ gs ! 1) c, err)
        | None \<Rightarrow>
       (case re_full R re_cfgline_include buf of
          Some gs \<Rightarrow>
            (let (ret, c, err) = parse_file R fs nfd (gs ! 0) (c, err)
             in if ret = - 1 then (- 2, c, err @ [Cannot_open filename ln (gs ! 0)])
                else if ret < 0 then (ret, c, err)
                else parse_lines R fs nfd filename (Suc ln) lines (c, err))
        | None \<Rightarrow> (- 2, c, err @ [Parsing_failed filename ln])))))"

declare parse_lines.simps(2) [simp del]

definition config_open ::
  "byte pcre \<Rightarrow> cfg_files \<Rightarrow> nat \<Rightarrow> byte list \<Rightarrow> config \<times> cfg_msg list \<Rightarrow> int \<times> config \<times> cfg_msg list" where
  "config_open R fs nfd filename = (\<lambda>(c, err).
    (let (ret, c, err) = parse_file R fs nfd filename (c\<lparr>cf_data := []\<rparr>, err)
     in (ret, c\<lparr>cf_filename := filename\<rparr>, err)))"

text \<open>\<open>can_unlink\<close> and \<open>can_create\<close> tell what the system lets the process do with a path. The file is removed first,
  and what is written to a stream that could not be opened goes nowhere.\<close>

definition config_text :: "config \<Rightarrow> byte list" where
  "config_text c = concat (map (\<lambda>(k, v). k @ c_lit '' = '' @ v @ [0x0A]) (cf_data c)) @ [0x0A]"

definition config_save ::
  "(byte list \<Rightarrow> bool) \<Rightarrow> (byte list \<Rightarrow> bool) \<Rightarrow> byte list \<Rightarrow> cfg_files \<Rightarrow> config \<Rightarrow> int \<times> cfg_files \<times> config" where
  "config_save can_unlink can_create filename fs c =
    (let path = until_nul filename;
         fs = (if can_unlink path then fs(path := None) else fs);
         c = c\<lparr>cf_filename := filename\<rparr>;
         fs = (if can_create path then fs(path := Some (config_text c)) else fs)
     in (0, fs, c))"

text \<open>\<open>split\<close> is what \<open>pcre_split\<close> makes of the delimiter: the consuming match for \<open>pcre_csplit\<close>.\<close>

definition config_getarray ::
  "(byte list \<Rightarrow> consume) \<Rightarrow> byte list \<Rightarrow> byte list \<Rightarrow> byte list \<Rightarrow> config \<Rightarrow> (int \<times> byte list list) option" where
  "config_getarray split key default_val delimeter c =
    (case pcre_csplit (split delimeter) (config_getval key default_val c) of
       None \<Rightarrow> None
     | Some dest \<Rightarrow> Some (int (length dest), dest))"

definition config_getint :: "byte list \<Rightarrow> int \<Rightarrow> config \<Rightarrow> int" where
  "config_getint key default_val c = sint (my_atoi (until_nul (config_getval key (int2string default_val) c)))"

definition config_setval :: "byte list \<Rightarrow> byte list \<Rightarrow> config \<Rightarrow> int \<times> config" where
  "config_setval key value c = (0, cf_set key value c)"

definition config_setint :: "byte list \<Rightarrow> int \<Rightarrow> config \<Rightarrow> int \<times> config" where
  "config_setint key value c = config_setval key (int2string value) c"

text \<open>\<open>operator[]\<close> makes an empty entry when there is none.\<close>

definition config_index :: "byte list \<Rightarrow> config \<Rightarrow> byte list \<times> config" where
  "config_index key c =
    (case smap_find string_less key (cf_data c) of
       Some v \<Rightarrow> (v, c)
     | None \<Rightarrow> ([], cf_set key [] c))"

subsection \<open>Class \<open>lconfig\<close>\<close>

record 'w lconfig =
  lc_Lw :: "'w luacpp"
  lc_filename :: "byte list"

definition lconfig_new :: "'w lua_state option \<Rightarrow> 'w lconfig" where
  "lconfig_new newstate =
    \<lparr>lc_Lw = snd (lw_init newstate \<lparr>lw_lua = None, lw_lasterr_str = []\<rparr>), lc_filename = []\<rparr>"

definition lconfig_clear :: "'w lua_state option \<Rightarrow> 'w lconfig \<Rightarrow> int \<times> 'w lconfig" where
  "lconfig_clear newstate lc =
    (let (ret, lw) = lw_init newstate (snd (lw_close (lc_Lw lc))) in (ret, lc\<lparr>lc_Lw := lw\<rparr>))"

definition lconfig_open ::
  "'w lua_api \<Rightarrow> 'w lua_state option \<Rightarrow> byte list \<Rightarrow> 'w lconfig \<Rightarrow> c_fault + (int \<times> 'w lconfig)" where
  "lconfig_open A newstate filename lc =
    (let lc = snd (lconfig_clear newstate lc)
     in case lw_dofile A (until_nul filename) (lc_Lw lc) of
          Inl f \<Rightarrow> Inl f
        | Inr (ret, lw) \<Rightarrow>
            let lc = lc\<lparr>lc_Lw := lw\<rparr>
            in Inr (if ret \<noteq> 0 then (- 1, lc) else (0, lc\<lparr>lc_filename := filename\<rparr>)))"

definition lconfig_save :: "byte list \<Rightarrow> 'w lconfig \<Rightarrow> int \<times> 'w lconfig" where
  "lconfig_save filename lc = (- 1, lc)"

definition getfield_1 :: "'w lua_api \<Rightarrow> byte list \<Rightarrow> 'w luacpp \<Rightarrow> c_fault + (int \<times> 'w luacpp)" where
  "getfield_1 A key lw =
    (case lw_lua lw of
       None \<Rightarrow> Inl Null_deref
     | Some L \<Rightarrow>
         Inr (0, lw\<lparr>lw_lua := Some (lua_pushvalues [la_getglobal A (until_nul key) (L_world L)] L)\<rparr>))"

definition return_code :: "byte list \<Rightarrow> byte list" where
  "return_code code = c_lit ''return ('' @ code @ c_lit '')''"

definition getfield_c_1 :: "'w lua_api \<Rightarrow> byte list \<Rightarrow> 'w luacpp \<Rightarrow> c_fault + (int \<times> 'w luacpp)" where
  "getfield_c_1 A code lw =
    (case lw_lua lw of
       None \<Rightarrow> Inl Null_deref
     | Some L \<Rightarrow>
         (let (ret, v, w) = la_loadstring A (return_code (until_nul code)) (L_world L);
              lw = lw\<lparr>lw_lua := Some (lua_pushvalues [v] (L\<lparr>L_world := w\<rparr>))\<rparr>
          in if ret \<noteq> 0 then
               (case lw_popstring lw of
                  Inl f \<Rightarrow> Inl f
                | Inr (str, lw) \<Rightarrow> Inr (- 1, lw\<lparr>lw_lasterr_str := str\<rparr>))
             else lw_pcall A 0 1 lw))"

text \<open>The unfinished variant loads the code and leaves it on the stack.\<close>

definition getfield_c :: "'w lua_api \<Rightarrow> byte list \<Rightarrow> 'w luacpp \<Rightarrow> c_fault + (int \<times> 'w luacpp)" where
  "getfield_c A code lw =
    (case lw_lua lw of
       None \<Rightarrow> Inl Null_deref
     | Some L \<Rightarrow>
         (let (ret, v, w) = la_loadstring A (return_code (until_nul code)) (L_world L);
              lw = lw\<lparr>lw_lua := Some (lua_pushvalues [v] (L\<lparr>L_world := w\<rparr>))\<rparr>
          in if ret \<noteq> 0 then
               (case lw_popstring lw of
                  Inl f \<Rightarrow> Inl f
                | Inr (str, lw) \<Rightarrow> Inr (- 1, lw\<lparr>lw_lasterr_str := str\<rparr>))
             else Inr (0, lw)))"

text \<open>\<open>lua_table_to_stdvector\<close>: the values of the table as texts.\<close>

fun lua_table_to_stdvector :: "(lua_value \<times> lua_value) list \<Rightarrow> byte list list \<Rightarrow> int \<Rightarrow> int \<times> byte list list" where
  "lua_table_to_stdvector [] dest cnt = (cnt, dest)"
| "lua_table_to_stdvector ((k, v) # es) dest cnt =
    lua_table_to_stdvector es (dest @ [lua_my_tostdstring_v v]) (cnt + 1)"

text \<open>The value on top of the stack, and the object after it is popped.\<close>

definition lc_top :: "'w luacpp \<Rightarrow> lua_value" where
  "lc_top lw = (case lw_lua lw of Some L \<Rightarrow> lua_index (- 1) (L_stack L) | None \<Rightarrow> LUA_TNIL)"

definition lc_pop :: "'w luacpp \<Rightarrow> 'w lconfig \<Rightarrow> 'w lconfig" where
  "lc_pop lw lc = lc\<lparr>lc_Lw := lw\<lparr>lw_lua := map_option (lua_pop 1) (lw_lua lw)\<rparr>\<rparr>"

definition lconfig_getstr ::
  "'w lua_api \<Rightarrow> byte list \<Rightarrow> byte list \<Rightarrow> 'w lconfig \<Rightarrow> c_fault + (byte list \<times> 'w lconfig)" where
  "lconfig_getstr A code default_val lc =
    (case getfield_c_1 A code (lc_Lw lc) of
       Inl f \<Rightarrow> Inl f
     | Inr (ret, lw) \<Rightarrow>
         if ret \<noteq> 0 then Inr (default_val, lc\<lparr>lc_Lw := lw\<rparr>)
         else
           (case lua_my_tostdstring (lc_top lw) of
              Some res \<Rightarrow> Inr (res, lc_pop lw lc)
            | None \<Rightarrow> Inr (default_val, lc_pop lw lc)))"

definition lconfig_getint :: "'w lua_api \<Rightarrow> byte list \<Rightarrow> int \<Rightarrow> 'w lconfig \<Rightarrow> c_fault + (int \<times> 'w lconfig)" where
  "lconfig_getint A code default_val lc =
    (case getfield_c_1 A code (lc_Lw lc) of
       Inl f \<Rightarrow> Inl f
     | Inr (ret, lw) \<Rightarrow>
         if ret \<noteq> 0 then Inr (default_val, lc\<lparr>lc_Lw := lw\<rparr>)
         else
           (case lua_my_toint (lc_top lw) of
              Some res \<Rightarrow> Inr (res, lc_pop lw lc)
            | None \<Rightarrow> Inr (default_val, lc_pop lw lc)))"

definition lconfig_getbool :: "'w lua_api \<Rightarrow> byte list \<Rightarrow> bool \<Rightarrow> 'w lconfig \<Rightarrow> c_fault + (bool \<times> 'w lconfig)" where
  "lconfig_getbool A code default_val lc =
    (case getfield_c_1 A code (lc_Lw lc) of
       Inl f \<Rightarrow> Inl f
     | Inr (ret, lw) \<Rightarrow>
         if ret \<noteq> 0 then Inr (default_val, lc\<lparr>lc_Lw := lw\<rparr>)
         else Inr (case lc_top lw of LUA_TBOOLEAN b \<Rightarrow> b | _ \<Rightarrow> default_val, lc_pop lw lc))"

definition lconfig_getarray ::
  "'w lua_api \<Rightarrow> byte list \<Rightarrow> byte list list option \<Rightarrow> 'w lconfig \<Rightarrow>
    c_fault + (bool \<times> byte list list \<times> 'w lconfig)" where
  "lconfig_getarray A code default_val lc =
    (case getfield_c_1 A code (lc_Lw lc) of
       Inl f \<Rightarrow> Inl f
     | Inr (ret, lw) \<Rightarrow>
         if ret \<noteq> 0 then
           (case default_val of None \<Rightarrow> Inl Null_deref | Some d \<Rightarrow> Inr (False, d, lc\<lparr>lc_Lw := lw\<rparr>))
         else
           (case lc_top lw of
              LUA_TTABLE es \<Rightarrow> Inr (True, snd (lua_table_to_stdvector es [] 0), lc_pop lw lc)
            | _ \<Rightarrow> Inr (False, case default_val of None \<Rightarrow> [] | Some d \<Rightarrow> d, lc_pop lw lc)))"

definition lconfig_index :: "'w lua_api \<Rightarrow> byte list \<Rightarrow> 'w lconfig \<Rightarrow> c_fault + (byte list \<times> 'w lconfig)" where
  "lconfig_index A key lc = lconfig_getstr A key [] lc"

subsection \<open>Values of a Lua configuration\<close>

text \<open>What an expression evaluates to: a value, or None when it does not compile or fails; and the interpreter
  afterwards. An error object that is no string is not described (the program ends there).\<close>

definition lua_eval :: "'w lua_api \<Rightarrow> byte list \<Rightarrow> 'w \<Rightarrow> (lua_value option \<times> 'w) option" where
  "lua_eval A code w =
    (let (ret, f, w) = la_loadstring A (return_code (until_nul code)) w
     in if ret \<noteq> 0 then (if lua_tolstring f = None then None else Some (None, w))
        else
          (let (ret, rs, w) = la_call A f [] w; v = hd (rs @ [LUA_TNIL])
           in if ret = 0 then Some (Some v, w) else if lua_tolstring v = None then None else Some (None, w)))"

lemma adjust_one: "adjust_results 1 rs = [hd (rs @ [LUA_TNIL])]"
  by (cases rs) (simp_all add: adjust_results_def LUA_MULTRET_def)

lemma getfield_c_1_eval:
  assumes "lw_lua lw = Some L" "lua_eval A code (L_world L) = Some (v, w)"
  shows "\<exists>ret err. getfield_c_1 A code lw =
    Inr (ret, lw\<lparr>lw_lua := Some (L\<lparr>L_stack := (case v of None \<Rightarrow> [] | Some v \<Rightarrow> [v]) @ L_stack L, L_world := w\<rparr>),
      lw_lasterr_str := err\<rparr>) \<and> (ret = 0 \<longleftrightarrow> v \<noteq> None)"
proof -
  obtain r f w1 where load: "la_loadstring A (return_code (until_nul code)) (L_world L) = (r, f, w1)"
    by (metis prod_cases3)
  show ?thesis
  proof (cases "r = 0")
    case False
    then show ?thesis using assms load
      by (auto simp: lua_eval_def getfield_c_1_def lw_popstring_def check_lua_def lua_pushvalues_def lua_pop_def
          split: if_splits)
  next
    case True
    obtain r2 rs w2 where call: "la_call A f [] w1 = (r2, rs, w2)" by (metis prod_cases3)
    let ?L = "L\<lparr>L_world := w1, L_stack := f # L_stack L\<rparr>"
    have c: "la_call A f [] (L_world ?L) = (r2, rs, w2)" using call by simp
    have st: "L_stack ?L = rev [] @ f # L_stack L" by simp
    note p = lw_pcall_stack [of "lw\<lparr>lw_lua := Some ?L\<rparr>" ?L "[]" f "L_stack L" A r2 rs w2 1, OF _ st c]
    have "getfield_c_1 A code lw = lw_pcall A 0 1 (lw\<lparr>lw_lua := Some ?L\<rparr>)"
      using assms(1) load True by (simp add: getfield_c_1_def lua_pushvalues_def)
    then show ?thesis using p assms load True call
      by (cases L; cases lw; cases "r2 = 0") (auto simp: lua_eval_def adjust_one Let_def split: if_splits option.splits)
  qed
qed

lemma lua_table_texts: "lua_table_to_stdvector es dest n = (n + int (length es), dest @ map (lua_my_tostdstring_v \<circ> snd) es)"
  by (induction es dest n rule: lua_table_to_stdvector.induct) simp_all

definition lookup_state :: "'w lua_state \<Rightarrow> 'w \<Rightarrow> byte list \<Rightarrow> 'w lconfig \<Rightarrow> 'w lconfig" where
  "lookup_state L w err lc = lc\<lparr>lc_Lw := (lc_Lw lc)\<lparr>lw_lua := Some (L\<lparr>L_world := w\<rparr>), lw_lasterr_str := err\<rparr>\<rparr>"

lemma lconfig_getarray_eval:
  assumes "lw_lua (lc_Lw lc) = Some L" "lua_eval A code (L_world L) = Some (v, w)"
  shows "\<exists>err. lconfig_getarray A code d lc =
    (case (v, d) of
       (None, None) \<Rightarrow> Inl Null_deref
     | (Some (LUA_TTABLE es), _) \<Rightarrow> Inr (True, map (lua_my_tostdstring_v \<circ> snd) es, lookup_state L w err lc)
     | (_, None) \<Rightarrow> Inr (False, [], lookup_state L w err lc)
     | (_, Some d) \<Rightarrow> Inr (False, d, lookup_state L w err lc))"
proof -
  obtain ret err where g: "getfield_c_1 A code (lc_Lw lc) =
      Inr (ret, (lc_Lw lc)\<lparr>lw_lua := Some (L\<lparr>L_stack := (case v of None \<Rightarrow> [] | Some v \<Rightarrow> [v]) @ L_stack L, L_world := w\<rparr>),
        lw_lasterr_str := err\<rparr>)" "ret = 0 \<longleftrightarrow> v \<noteq> None"
    using getfield_c_1_eval [OF assms] by blast
  then show ?thesis
    by (intro exI [of _ err]) (auto simp: lookup_state_def lconfig_getarray_def lc_top_def lc_pop_def lua_pop_def lua_index_def
        lua_table_texts split: option.split lua_value.split)
qed

text \<open>Every lookup leaves the stack of the interpreter as it was, whatever the expression does, and falls back to
  its default when the expression fails or has another type, except \<open>getarray\<close>: when the expression fails and
  no default was given it reads the default through a null pointer.\<close>

theorem lconfig_lookup:
  assumes "lw_lua (lc_Lw lc) = Some L" "lua_eval A code (L_world L) = Some (v, w)"
  shows "\<exists>err. let lc' = lookup_state L w err lc in
    lconfig_getstr A code s lc = Inr (case Option.bind v lua_my_tostdstring of None \<Rightarrow> s | Some t \<Rightarrow> t, lc') \<and>
    lconfig_getint A code n lc = Inr (case Option.bind v lua_my_toint of None \<Rightarrow> n | Some t \<Rightarrow> t, lc') \<and>
    lconfig_getbool A code b lc = Inr (case v of Some (LUA_TBOOLEAN t) \<Rightarrow> t | _ \<Rightarrow> b, lc') \<and>
    lconfig_getarray A code d lc =
      (case (v, d) of
         (None, None) \<Rightarrow> Inl Null_deref
       | (Some (LUA_TTABLE es), _) \<Rightarrow> Inr (True, map (lua_my_tostdstring_v \<circ> snd) es, lc')
       | (_, None) \<Rightarrow> Inr (False, [], lc')
       | (_, Some d) \<Rightarrow> Inr (False, d, lc'))"
proof -
  obtain ret err where g: "getfield_c_1 A code (lc_Lw lc) =
      Inr (ret, (lc_Lw lc)\<lparr>lw_lua := Some (L\<lparr>L_stack := (case v of None \<Rightarrow> [] | Some v \<Rightarrow> [v]) @ L_stack L, L_world := w\<rparr>),
        lw_lasterr_str := err\<rparr>)" "ret = 0 \<longleftrightarrow> v \<noteq> None"
    using getfield_c_1_eval [OF assms] by blast
  show ?thesis
  proof (cases v)
    case None
    then show ?thesis using g
      by (intro exI [of _ err]) (simp add: Let_def lookup_state_def lconfig_getstr_def lconfig_getint_def lconfig_getbool_def
          lconfig_getarray_def split: option.split)
  next
    case (Some x)
    then show ?thesis using g
      by (intro exI [of _ err]) (auto simp: Let_def lookup_state_def lconfig_getstr_def lconfig_getint_def lconfig_getbool_def
          lconfig_getarray_def lc_top_def lc_pop_def lua_pop_def lua_index_def lua_table_texts
          split: option.split lua_value.split)
  qed
qed

definition lua_demo :: "unit lua_api" where
  "lua_demo =
    \<lparr>la_loadfile = \<lambda>_ w. (0, LUA_TFUNCTION 0, w), la_loadstring = \<lambda>_ w. (0, LUA_TFUNCTION 0, w),
     la_call = \<lambda>f vs w. (0, LUA_TSTRING (c_lit ''42'') # vs, w), la_getglobal = \<lambda>_ _. LUA_TFUNCTION 1, la_str2int = \<lambda>_. 0\<rparr>"

lemma lconfig_lookup_witness:
  "\<exists>lc'. lconfig_getint lua_demo (c_lit ''x'') 7 (lconfig_new (Some \<lparr>L_stack = [LUA_TNIL], L_world = ()\<rparr>)) = Inr (42, lc') \<and>
    map_option L_stack (lw_lua (lc_Lw lc')) = Some [LUA_TNIL]"
proof -
  let ?L = "\<lparr>L_stack = [LUA_TNIL], L_world = ()\<rparr>"
  have e: "lua_eval lua_demo (c_lit ''x'') (L_world ?L) = Some (Some (LUA_TSTRING (c_lit ''42'')), ())"
    by (simp add: lua_eval_def lua_demo_def)
  have i: "sint (my_atoi (until_nul (c_lit ''42''))) = 42"
    by (simp add: c_lit_def until_nul_def my_atoi_def atoi_sign_def atoi_base_of_def atoi_digit_def)
  have l: "lw_lua (lc_Lw (lconfig_new (Some ?L))) = Some ?L" by (simp add: lconfig_new_def lw_init_def)
  from lconfig_lookup [OF l e, of "[]" 7 False None] show ?thesis
    by (auto simp: Let_def i lookup_state_def)
qed

subsection \<open>What a configuration file means\<close>

definition cfg_blank :: "byte \<Rightarrow> bool" where
  "cfg_blank c \<longleftrightarrow> c = 0x20 \<or> c = 0x09"

definition cfg_key_char :: "byte \<Rightarrow> bool" where
  "cfg_key_char c \<longleftrightarrow> c \<noteq> 0x2B \<and> c \<noteq> 0x3D \<and> \<not> cfg_blank c"

datatype cfg_line = Skip | Assign "byte list" "byte list" | Append "byte list" "byte list" | Include "byte list" | Bad

definition cfg_comment :: "byte list \<Rightarrow> bool" where
  "cfg_comment s \<longleftrightarrow> take 1 (dropWhile cfg_blank s) = [0x23]"

text \<open>A key, blanks, the operator, blanks, and the value.\<close>

definition cfg_setting :: "byte list \<Rightarrow> byte list \<Rightarrow> (byte list \<times> byte list) option" where
  "cfg_setting oper s =
    (let key = takeWhile cfg_key_char s; r = dropWhile cfg_blank (dropWhile cfg_key_char s)
     in if key \<noteq> [] \<and> take (length oper) r = oper then Some (key, dropWhile cfg_blank (drop (length oper) r))
        else None)"

definition cfg_classify :: "byte list \<Rightarrow> cfg_line" where
  "cfg_classify s =
    (if s = [] \<or> cfg_comment s then Skip
     else case cfg_setting [0x3D] s of
         Some (k, v) \<Rightarrow> Assign k v
       | None \<Rightarrow>
     (case cfg_setting [0x2B, 0x3D] s of
         Some (k, v) \<Rightarrow> Append k v
       | None \<Rightarrow> if take 8 s = c_lit ''include '' \<and> length s > 8 then Include (drop 8 s) else Bad))"

text \<open>What the four patterns match, for a text of one line.\<close>

definition cfg_pcre :: "byte pcre \<Rightarrow> bool" where
  "cfg_pcre R \<longleftrightarrow> (\<forall>s. 0x0A \<notin> set s \<longrightarrow>
    (re_full R re_cfg_comment s \<noteq> None \<longleftrightarrow> cfg_comment s) \<and>
    re_full R re_cfgline s = map_option (\<lambda>(k, v). [k, v]) (cfg_setting [0x3D] s) \<and>
    re_full R re_cfgline_append s = map_option (\<lambda>(k, v). [k, v]) (cfg_setting [0x2B, 0x3D] s) \<and>
    re_full R re_cfgline_include s =
      (if take 8 s = c_lit ''include '' \<and> length s > 8 then Some [drop 8 s] else None))"

text \<open>The settings of a file with those of the files it includes in their places; None when a line is bad or
  a file cannot be opened. A setting is a key, a value and whether the value is appended.\<close>

fun settings_file :: "cfg_files \<Rightarrow> nat \<Rightarrow> byte list \<Rightarrow> (byte list \<times> byte list \<times> bool) list option"
  and settings_lines :: "cfg_files \<Rightarrow> nat \<Rightarrow> byte list list \<Rightarrow> (byte list \<times> byte list \<times> bool) list option" where
  "settings_file fs 0 filename = None"
| "settings_file fs (Suc nfd) filename =
    (case fs (until_nul filename) of None \<Rightarrow> None | Some content \<Rightarrow> settings_lines fs nfd (getlines content))"
| "settings_lines fs nfd [] = Some []"
| "settings_lines fs nfd (buf # lines) =
    (case cfg_classify buf of
       Skip \<Rightarrow> settings_lines fs nfd lines
     | Assign k v \<Rightarrow> map_option (Cons (k, v, False)) (settings_lines fs nfd lines)
     | Append k v \<Rightarrow> map_option (Cons (k, v, True)) (settings_lines fs nfd lines)
     | Include f \<Rightarrow>
         (case settings_file fs nfd f of
            None \<Rightarrow> None
          | Some xs \<Rightarrow> map_option (\<lambda>ys. xs @ ys) (settings_lines fs nfd lines))
     | Bad \<Rightarrow> None)"

text \<open>The value a list of settings gives to a key that had the value \<open>old\<close>.\<close>

fun setting_value :: "byte list \<Rightarrow> (byte list \<times> byte list \<times> bool) list \<Rightarrow> byte list option \<Rightarrow> byte list option" where
  "setting_value key [] old = old"
| "setting_value key ((k, v, app) # xs) old =
    setting_value key xs
      (if k = key then Some ((if app then case old of Some u \<Rightarrow> u | None \<Rightarrow> [] else []) @ v) else old)"

definition cf_apply :: "byte list \<times> byte list \<times> bool \<Rightarrow> config \<Rightarrow> config" where
  "cf_apply = (\<lambda>(k, v, app) c. cf_set k ((if app then config_getval k [] c else []) @ v) c)"

lemma cf_apply_ok: "smap_ok string_less (cf_data c) \<Longrightarrow> smap_ok string_less (cf_data (cf_apply x c))"
  by (simp add: cf_apply_def cf_set_def std_string.set_ok split: prod.split)

lemma cf_apply_find:
  "smap_ok string_less (cf_data c) \<Longrightarrow> smap_find string_less key (cf_data (cf_apply (k, v, app) c)) =
    setting_value key [(k, v, app)] (smap_find string_less key (cf_data c))"
  by (auto simp: cf_apply_def cf_set_def std_find_set config_getval_def)

lemma cf_apply_value:
  "smap_ok string_less (cf_data c) \<Longrightarrow> smap_find string_less key (cf_data (fold cf_apply xs c)) =
    setting_value key xs (smap_find string_less key (cf_data c))"
proof (induction xs arbitrary: c)
  case (Cons x xs)
  obtain k v app where x: "x = (k, v, app)" by (metis prod_cases3)
  show ?case using Cons.IH [OF cf_apply_ok [OF Cons.prems], of x] cf_apply_find [OF Cons.prems, of key k v app]
    by (simp add: x)
qed simp

lemma getlines_nonempty: "getlines s \<noteq> []"
  by (cases s) (auto split: list.split)

lemma getlines_plain: "l \<in> set (getlines s) \<Longrightarrow> 0x0A \<notin> set l"
  by (induction s arbitrary: l) (auto split: if_splits list.splits)

lemma parse_lines_step:
  assumes "cfg_pcre R" "0x0A \<notin> set buf"
  shows "parse_lines R fs nfd f ln (buf # ls) (c, err) =
    (case cfg_classify buf of
       Skip \<Rightarrow> parse_lines R fs nfd f (Suc ln) ls (c, err)
     | Assign k v \<Rightarrow> parse_lines R fs nfd f (Suc ln) ls (cf_apply (k, v, False) c, err)
     | Append k v \<Rightarrow> parse_lines R fs nfd f (Suc ln) ls (cf_apply (k, v, True) c, err)
     | Include g \<Rightarrow>
         (let (ret, c, err) = parse_file R fs nfd g (c, err)
          in if ret = - 1 then (- 2, c, err @ [Cannot_open f ln g]) else if ret < 0 then (ret, c, err)
             else parse_lines R fs nfd f (Suc ln) ls (c, err))
     | Bad \<Rightarrow> (- 2, c, err @ [Parsing_failed f ln]))"
  using assms(1) [unfolded cfg_pcre_def, rule_format, OF assms(2)]
  by (auto simp: parse_lines.simps(2) cfg_classify_def cf_apply_def Let_def split: option.split prod.split)

lemma parse_settings:
  assumes "cfg_pcre R"
  shows "case settings_file fs nfd f of
      Some xs \<Rightarrow> parse_file R fs nfd f st = (0, fold cf_apply xs (fst st), snd st)
    | None \<Rightarrow> fst (parse_file R fs nfd f st) = (if nfd = 0 \<or> fs (until_nul f) = None then - 1 else - 2)"
    and "\<forall>l \<in> set ls. 0x0A \<notin> set l \<Longrightarrow> case settings_lines fs nfd ls of
      Some xs \<Rightarrow> parse_lines R fs nfd f ln ls st = (0, fold cf_apply xs (fst st), snd st)
    | None \<Rightarrow> fst (parse_lines R fs nfd f ln ls st) = - 2"
proof (induction fs nfd f and fs nfd ls arbitrary: st and f ln st rule: settings_file_settings_lines.induct)
  case (2 fs nfd f)
  show ?case
  proof (cases "fs (until_nul f)")
    case (Some content)
    then show ?thesis using "2.IH" [OF Some, of f 1 st] getlines_plain by (auto split: option.splits)
  qed simp
next
  case (4 fs nfd buf lines)
  have m: "0x0A \<notin> set buf" "\<forall>l \<in> set lines. 0x0A \<notin> set l" using "4.prems" by auto
  obtain c err where st: "st = (c, err)" by (cases st)
  note step = parse_lines_step [OF assms m(1), of fs nfd f ln lines c err]
  show ?case
  proof (cases "cfg_classify buf")
    case Skip
    then show ?thesis using "4.IH"(1) [OF Skip m(2), of f "Suc ln" st] step Skip st by (auto split: option.splits)
  next
    case (Assign k v)
    then show ?thesis using "4.IH"(2) [OF Assign m(2), of f "Suc ln" "(cf_apply (k, v, False) c, err)"] step st
      by (auto split: option.splits)
  next
    case (Append k v)
    then show ?thesis using "4.IH"(3) [OF Append m(2), of f "Suc ln" "(cf_apply (k, v, True) c, err)"] step st
      by (auto split: option.splits)
  next
    case (Include g)
    show ?thesis
    proof (cases "settings_file fs nfd g")
      case None
      then have "fst (parse_file R fs nfd g st) \<in> {- 1, - 2}" using "4.IH"(4) [OF Include, of st] by (auto split: if_splits)
      then show ?thesis using None Include step st by (cases "parse_file R fs nfd g st") auto
    next
      case (Some xs)
      then show ?thesis
        using "4.IH"(4) [OF Include, of st] "4.IH"(5) [OF Include Some m(2), of f "Suc ln" "(fold cf_apply xs c, err)"]
          Include step st by (auto split: option.splits)
    qed
  next
    case Bad
    then show ?thesis using step st by simp
  qed
qed simp_all

lemma config_open_effect:
  assumes "cfg_pcre R"
  shows "case settings_file fs nfd f of
      Some xs \<Rightarrow> \<exists>c'. config_open R fs nfd f (c, err) = (0, c', err) \<and> cf_filename c' = f \<and>
        smap_ok string_less (cf_data c') \<and>
        (\<forall>key d. config_getval key d c' = (case setting_value key xs None of None \<Rightarrow> d | Some v \<Rightarrow> v))
    | None \<Rightarrow> fst (config_open R fs nfd f (c, err)) = (if nfd = 0 \<or> fs (until_nul f) = None then - 1 else - 2)"
proof -
  let ?c = "c\<lparr>cf_data := []\<rparr>"
  note p = parse_settings(1) [OF assms, of fs nfd f "(?c, err)"]
  have "smap_ok string_less (cf_data (fold cf_apply xs c))" if "smap_ok string_less (cf_data c)" for xs c
    using that by (induction xs arbitrary: c) (auto intro: cf_apply_ok)
  then show ?thesis using p cf_apply_value [of ?c]
    by (auto simp: config_open_def config_getval_def split: option.splits prod.splits)
qed

text \<open>C33: Opening a configuration that can be read gives each key the value that the settings, taken in
  their order with those of an included file in its place, assign to it; otherwise the result is -1 when
  the file itself cannot be opened and -2 for a bad line or an include that fails.\<close>

theorem config_open_settings:
  assumes "cfg_pcre R"
  shows "case settings_file fs nfd f of
      Some xs \<Rightarrow> \<exists>c'. config_open R fs nfd f (c, err) = (0, c', err) \<and> cf_filename c' = f \<and>
        smap_ok string_less (cf_data c') \<and>
        (\<forall>key d. config_getval key d c' = (case setting_value key xs None of None \<Rightarrow> d | Some v \<Rightarrow> v))
    | None \<Rightarrow> fst (config_open R fs nfd f (c, err)) = (if nfd = 0 \<or> fs (until_nul f) = None then - 1 else - 2)"
  by (rule config_open_effect [OF assms])

text \<open>Patterns that match as described.\<close>

definition cfg_R :: "byte pcre" where
  "cfg_R =
    \<lparr>re_full = (\<lambda>p s.
       if p = re_cfg_comment then (if cfg_comment s then Some [] else None)
       else if p = re_cfgline then map_option (\<lambda>(k, v). [k, v]) (cfg_setting [0x3D] s)
       else if p = re_cfgline_append then map_option (\<lambda>(k, v). [k, v]) (cfg_setting [0x2B, 0x3D] s)
       else if take 8 s = c_lit ''include '' \<and> length s > 8 then Some [drop 8 s] else None),
     re_partial = (\<lambda>_ _. None), re_global_replace = (\<lambda>_ _ s. s)\<rparr>"

lemma cfg_patterns:
  "re_cfgline \<noteq> re_cfg_comment" "re_cfgline_append \<noteq> re_cfg_comment" "re_cfgline_include \<noteq> re_cfg_comment"
  "re_cfgline_append \<noteq> re_cfgline" "re_cfgline_include \<noteq> re_cfgline" "re_cfgline_include \<noteq> re_cfgline_append"
  by (simp_all add: re_cfgline_def re_cfgline_append_def re_cfgline_include_def re_cfg_comment_def c_lit_def)

lemma cfg_R_ok: "cfg_pcre cfg_R"
  by (auto simp: cfg_pcre_def cfg_R_def cfg_patterns)

definition cfg_demo :: cfg_files where
  "cfg_demo p =
    (if p = c_lit ''a'' then Some (c_lit ''x = 1'' @ [0x0A] @ c_lit ''include b'' @ [0x0A] @ c_lit ''x += 3'')
     else if p = c_lit ''b'' then Some (c_lit ''# b'' @ [0x0A] @ c_lit ''y=2'' @ [0x0A]) else None)"

lemma cfg_demo_lines:
  "cfg_classify (c_lit ''x = 1'') = Assign (c_lit ''x'') (c_lit ''1'')"
  "cfg_classify (c_lit ''y=2'') = Assign (c_lit ''y'') (c_lit ''2'')"
  "cfg_classify (c_lit ''x += 3'') = Append (c_lit ''x'') (c_lit ''3'')"
  "cfg_classify (c_lit ''include b'') = Include (c_lit ''b'')"
  "cfg_classify (c_lit ''# b'') = Skip"
  by (simp_all add: cfg_classify_def cfg_setting_def cfg_comment_def cfg_key_char_def cfg_blank_def c_lit_def)

lemma cfg_demo_settings:
  "settings_file cfg_demo (Suc (Suc 0)) (c_lit ''a'') =
    Some [(c_lit ''x'', c_lit ''1'', False), (c_lit ''y'', c_lit ''2'', False), (c_lit ''x'', c_lit ''3'', True)]"
proof -
  have u: "until_nul (c_lit ''a'') = c_lit ''a''" "until_nul (c_lit ''b'') = c_lit ''b''" "c_lit ''a'' \<noteq> c_lit ''b''"
    by (simp_all add: until_nul_def c_lit_def)
  have "getlines (c_lit ''x = 1'' @ [0x0A] @ c_lit ''include b'' @ [0x0A] @ c_lit ''x += 3'') =
      [c_lit ''x = 1'', c_lit ''include b'', c_lit ''x += 3'']"
    "getlines (c_lit ''# b'' @ [0x0A] @ c_lit ''y=2'' @ [0x0A]) = [c_lit ''# b'', c_lit ''y=2'', []]"
    by (simp_all add: c_lit_def)
  moreover have "cfg_classify [] = Skip" by (simp add: cfg_classify_def)
  ultimately show ?thesis using u by (simp add: cfg_demo_def cfg_demo_lines)
qed

lemma config_open_settings_witness:
  "\<exists>c'. config_open cfg_R cfg_demo (Suc (Suc 0)) (c_lit ''a'') (config_new, []) = (0, c', []) \<and>
    config_getval (c_lit ''x'') [] c' = c_lit ''13'' \<and> config_getval (c_lit ''y'') [] c' = c_lit ''2''"
proof -
  have v: "setting_value (c_lit ''x'') [(c_lit ''x'', c_lit ''1'', False), (c_lit ''y'', c_lit ''2'', False),
      (c_lit ''x'', c_lit ''3'', True)] None = Some (c_lit ''13'')"
    "setting_value (c_lit ''y'') [(c_lit ''x'', c_lit ''1'', False), (c_lit ''y'', c_lit ''2'', False),
      (c_lit ''x'', c_lit ''3'', True)] None = Some (c_lit ''2'')"
    by (simp_all add: c_lit_def)
  show ?thesis
    using config_open_settings [OF cfg_R_ok, of cfg_demo "Suc (Suc 0)" "c_lit ''a''" config_new "[]"]
    unfolding cfg_demo_settings option.case by (metis v option.case(2))
qed

subsection \<open>Saving and opening\<close>

definition saveable :: "byte list \<Rightarrow> byte list \<Rightarrow> bool" where
  "saveable k v \<longleftrightarrow> k \<noteq> [] \<and> (\<forall>c \<in> set k. cfg_key_char c) \<and> hd k \<noteq> 0x23 \<and> 0x0A \<notin> set k \<and>
    0x0A \<notin> set v \<and> (v = [] \<or> \<not> cfg_blank (hd v))"

lemma getlines_line: "0x0A \<notin> set l \<Longrightarrow> getlines (l @ 0x0A # s) = l # getlines s"
  by (induction l) auto

lemma takeWhile_stop: "\<forall>c \<in> set k. P c \<Longrightarrow> \<not> P d \<Longrightarrow> takeWhile P (k @ d # s) = k \<and> dropWhile P (k @ d # s) = d # s"
  by (induction k) auto

lemma classify_saved:
  assumes "saveable k v"
  shows "cfg_classify (k @ c_lit '' = '' @ v) = Assign k v"
proof -
  have l: "c_lit '' = '' = [0x20, 0x3D, 0x20]" by (simp add: c_lit_def)
  have k: "k \<noteq> []" "\<forall>c \<in> set k. cfg_key_char c" "hd k \<noteq> 0x23" using assms by (auto simp: saveable_def)
  have tw: "takeWhile cfg_key_char (k @ 0x20 # 0x3D # 0x20 # v) = k \<and>
      dropWhile cfg_key_char (k @ 0x20 # 0x3D # 0x20 # v) = 0x20 # 0x3D # 0x20 # v"
    using takeWhile_stop [where P = cfg_key_char and d = "0x20" and s = "0x3D # 0x20 # v", OF k(2)] by (auto simp: cfg_key_char_def cfg_blank_def)
  have b: "\<not> cfg_blank (hd k)" using k(1,2) by (cases k) (auto simp: cfg_key_char_def)
  have "dropWhile cfg_blank v = v" using assms by (cases v) (auto simp: saveable_def)
  then have "cfg_setting [0x3D] (k @ 0x20 # 0x3D # 0x20 # v) = Some (k, v)"
    using tw k(1) by (simp add: cfg_setting_def cfg_blank_def)
  moreover have "\<not> cfg_comment (k @ 0x20 # 0x3D # 0x20 # v)" using k b by (cases k) (auto simp: cfg_comment_def)
  ultimately show ?thesis using k(1) by (simp add: cfg_classify_def l)
qed

lemma settings_saved:
  assumes "\<forall>(k, v) \<in> set m. saveable k v"
  shows "settings_lines fs nfd (getlines (concat (map (\<lambda>(k, v). k @ c_lit '' = '' @ v @ [0x0A]) m) @ [0x0A])) =
    Some (map (\<lambda>(k, v). (k, v, False)) m)"
  using assms
proof (induction m)
  case Nil
  then show ?case by (simp add: cfg_classify_def)
next
  case (Cons p m)
  obtain k v where p: "p = (k, v)" by (cases p)
  have s: "saveable k v" using Cons.prems p by simp
  then have "0x0A \<notin> set (k @ c_lit '' = '' @ v)" by (auto simp: saveable_def c_lit_def)
  from getlines_line [OF this] show ?case using Cons classify_saved [OF s] p by simp
qed

lemma setting_value_map:
  "distinct (map fst m) \<Longrightarrow> setting_value key (map (\<lambda>(k, v). (k, v, False)) m) old =
    (case map_of m key of None \<Rightarrow> old | Some v \<Rightarrow> Some v)"
  by (induction m arbitrary: old) (auto split: option.split dest: map_of_SomeD simp: image_iff)

lemma std_map_of:
  assumes "smap_ok string_less m"
  shows "distinct (map fst m)" "map_of m key = smap_find string_less key m"
proof -
  show d: "distinct (map fst m)" using assms by (induction m) force+
  show "map_of m key = smap_find string_less key m"
    using std_find_in [OF assms, of key] map_of_eq_Some_iff [OF d, of key] by (metis not_Some_eq)
qed

text \<open>C34: What is saved is read back: for keys that the format can express and values without a line feed or a blank in
  front, saving a configuration and opening the file gives the same map.\<close>

theorem config_save_open:
  assumes "cfg_pcre R" "smap_ok string_less (cf_data c)" "\<forall>(k, v) \<in> set (cf_data c). saveable k v"
    and "can_create (until_nul f)" "0 < nfd"
  shows "\<exists>fs' c1 c2. config_save can_unlink can_create f fs c = (0, fs', c1) \<and>
    config_open R fs' nfd f (c', err) = (0, c2, err) \<and> cf_data c2 = cf_data c \<and> cf_filename c2 = f"
proof -
  obtain n where n: "nfd = Suc n" using assms(5) by (cases nfd) auto
  obtain fs' c1 where s: "config_save can_unlink can_create f fs c = (0, fs', c1)"
    "fs' (until_nul f) = Some (config_text c)"
    using assms(4) by (auto simp: config_save_def Let_def config_text_def)
  have "settings_file fs' nfd f = Some (map (\<lambda>(k, v). (k, v, False)) (cf_data c))"
    using settings_saved [OF assms(3)] s(2) n by (simp add: config_text_def)
  then obtain c2 where o: "config_open R fs' nfd f (c', err) = (0, c2, err)" "cf_filename c2 = f"
    "smap_ok string_less (cf_data c2)"
    "\<And>key d. config_getval key d c2 =
      (case setting_value key (map (\<lambda>(k, v). (k, v, False)) (cf_data c)) None of None \<Rightarrow> d | Some v \<Rightarrow> v)"
    using config_open_effect [OF assms(1), of fs' nfd f c' err] by auto
  have "smap_find string_less key (cf_data c2) = smap_find string_less key (cf_data c)" for key
    using o(4) [of key "[]"] o(4) [of key "[0]"] setting_value_map [of "cf_data c" key None]
      std_map_of [OF assms(2)]
    by (auto simp: config_getval_def split: option.splits)
  then have "cf_data c2 = cf_data c" using std_map_ext [OF o(3) assms(2)] by blast
  then show ?thesis using s(1) o(1,2) by blast
qed

lemma config_save_open_witness:
  "\<exists>fs' c1 c2. config_save (\<lambda>_. True) (\<lambda>_. True) (c_lit ''f'') (\<lambda>_. None)
      (cf_set (c_lit ''k'') (c_lit ''a b'') config_new) = (0, fs', c1) \<and>
    config_open cfg_R fs' 1 (c_lit ''f'') (config_new, []) = (0, c2, []) \<and>
    cf_data c2 = [(c_lit ''k'', c_lit ''a b'')]"
  using config_save_open [of cfg_R "cf_set (c_lit ''k'') (c_lit ''a b'') config_new" "\<lambda>_. True" "c_lit ''f''" 1 "\<lambda>_. True"
      "\<lambda>_. None" config_new "[]"]
  by (auto simp: cfg_R_ok cf_set_def config_new_def saveable_def c_lit_def cfg_key_char_def cfg_blank_def)

text \<open>A value with a line feed is read back as a setting of its own, and \<open>save\<close> reports success whether anything
  was written or not, even when it has just removed the old file.\<close>

definition injecting :: config where
  "injecting = snd (config_setval (c_lit ''motd'') (c_lit ''hi'' @ [0x0A] @ c_lit ''owner = me'') config_new)"

lemma config_injection:
  "getlines (config_text injecting) = [c_lit ''motd = hi'', c_lit ''owner = me'', [], []]"
  "cfg_classify (c_lit ''motd = hi'') = Assign (c_lit ''motd'') (c_lit ''hi'')"
  "cfg_classify (c_lit ''owner = me'') = Assign (c_lit ''owner'') (c_lit ''me'')"
proof -
  show "getlines (config_text injecting) = [c_lit ''motd = hi'', c_lit ''owner = me'', [], []]"
    by (simp add: config_text_def injecting_def config_setval_def cf_set_def config_new_def c_lit_def)
  have "saveable (c_lit ''motd'') (c_lit ''hi'')" "saveable (c_lit ''owner'') (c_lit ''me'')"
    by (simp_all add: saveable_def c_lit_def cfg_key_char_def cfg_blank_def)
  note classify_saved [OF this(1)] classify_saved [OF this(2)]
  then show "cfg_classify (c_lit ''motd = hi'') = Assign (c_lit ''motd'') (c_lit ''hi'')"
    "cfg_classify (c_lit ''owner = me'') = Assign (c_lit ''owner'') (c_lit ''me'')"
    by (simp_all add: c_lit_def)
qed

lemma config_save_lost:
  assumes "can_unlink (until_nul f)" "\<not> can_create (until_nul f)"
  shows "\<exists>fs' c'. config_save can_unlink can_create f fs c = (0, fs', c') \<and> fs' (until_nul f) = None"
  using assms by (simp add: config_save_def Let_def)

text \<open>A file that includes itself ends with the error of a file that cannot be opened, when the descriptors are used
  up.\<close>

lemma config_self_include:
  assumes "fs (until_nul f) = Some (c_lit ''include '' @ f)" "f \<noteq> []" "0x0A \<notin> set f" "\<not> cfg_blank (hd f)" "hd f \<noteq> 0x3D" "hd f \<noteq> 0x2B"
  shows "settings_file fs nfd f = None"
proof (induction nfd)
  case (Suc n)
  have inc: "c_lit ''include '' = [0x69, 0x6E, 0x63, 0x6C, 0x75, 0x64, 0x65, 0x20]" by (simp add: c_lit_def)
  have l: "getlines (c_lit ''include '' @ f) = [c_lit ''include '' @ f]"
  proof -
    have "0x0A \<notin> set l \<Longrightarrow> getlines l = [l]" for l by (induction l) auto
    then show ?thesis using assms(3) by (simp add: inc)
  qed
  have "cfg_classify (c_lit ''include '' @ f) = Include f"
    using assms(2,4-) by (cases f) (auto simp: inc cfg_classify_def cfg_comment_def cfg_setting_def cfg_blank_def cfg_key_char_def)
  then show ?case using assms(1) l Suc by simp
qed simp

text \<open>What \<open>setint\<close> stores, \<open>getint\<close> gives back, and other keys keep their values.\<close>

lemma config_setint_getint:
  assumes "smap_ok string_less (cf_data c)" "- (2 ^ 31) \<le> n" "n < 2 ^ 31"
  shows "config_getint k d (snd (config_setint k n c)) = n"
    and "k' \<noteq> k \<Longrightarrow> config_getval k' v (snd (config_setint k n c)) = config_getval k' v c"
proof -
  have "c \<noteq> 0" if "c \<in> set (dec_str m)" for c m using dec_str_digits [OF that] by auto
  then have "cstr_ok (int2string n)" using assms(2,3) by (auto simp: int2string_full cstr_ok_def)
  then show "config_getint k d (snd (config_setint k n c)) = n"
    using my_atoi_int2string [OF assms(2,3), of "[]"] std_find_set [OF assms(1)]
    by (simp add: config_getint_def config_setint_def config_setval_def cf_set_def config_getval_def until_nul_id atoi_digit_def)
  show "k' \<noteq> k \<Longrightarrow> config_getval k' v (snd (config_setint k n c)) = config_getval k' v c"
    using std_find_set [OF assms(1)]
    by (simp add: config_setint_def config_setval_def cf_set_def config_getval_def)
qed

end
