(* ===== verification/Botcfg.thy ===== *)
theory Botcfg
  imports Ircbot Botconn Config Module
begin

text \<open>
  What the bot does with its configuration and its modules (\<open>ircbot.cpp\<close>): reading the configuration, the list of
  administrators, setting up the connections it names, loading and unloading modules by name, and the commands
  \<open>load\<close>, \<open>unload\<close>, \<open>reload\<close> and \<open>sendraw\<close>. It is put together from the theories of the Lua configuration, the
  module loader, the bot and the connections.
\<close>

subsection \<open>The configuration\<close>

definition bot_is_botadmin ::
  "'w lua_api \<Rightarrow> byte list \<Rightarrow> 'w lconfig \<Rightarrow> c_fault + (bool \<times> 'w lconfig)" where
  "bot_is_botadmin A ident lc =
    (case lconfig_getarray A (c_lit ''botadmin_masks'') None lc of
       Inl f \<Rightarrow> Inl f
     | Inr (_, admin_masks, lc) \<Rightarrow> map_sum id (\<lambda>r. (r, lc)) (is_botadmin admin_masks ident))"

text \<open>\<open>load_cfg_file\<close>: the result, the configuration, the bot, and the bind address that is set for new sockets.
  \<open>compiles\<close> tells whether the expression of a command compiles.\<close>

definition bot_load_cfg_file ::
  "'w lua_api \<Rightarrow> 'w lua_state option \<Rightarrow> (byte list \<Rightarrow> bool) \<Rightarrow> byte list \<Rightarrow> 'w lconfig \<Rightarrow> 'b ircbot \<Rightarrow>
    c_fault + (int \<times> 'w lconfig \<times> 'b ircbot \<times> byte list option)" where
  "bot_load_cfg_file A newstate compiles path lc b =
    (case lconfig_open A newstate path lc of
       Inl f \<Rightarrow> Inl f
     | Inr (ret, lc) \<Rightarrow>
         if ret < 0 then Inr (ret, lc, b, None)
         else
    (case lconfig_getstr A (c_lit ''default_bind_address'') [] lc of
       Inl f \<Rightarrow> Inl f
     | Inr (bindaddr, lc) \<Rightarrow>
    (case lconfig_getstr A (c_lit ''cmd_prefix'') (c_lit ''[!.]'') lc of
       Inl f \<Rightarrow> Inl f
     | Inr (pre, lc) \<Rightarrow>
         if \<not> compiles (re_command_pattern pre) then
           Inr (- 1, lc, snd (load_cfg_file 0 pre False 0 b), Some bindaddr)
         else
    (case lconfig_getint A (c_lit ''max_lines_per_cmd'') 3 lc of
       Inl f \<Rightarrow> Inl f
     | Inr (maxl, lc) \<Rightarrow> Inr (0, lc, snd (load_cfg_file 0 pre True maxl b), Some bindaddr)))))"

subsection \<open>Connections\<close>

definition re_conn_name :: "byte list" where
  "re_conn_name = c_lit ''^[0-9a-zA-Z_-]+$''"

definition ircbot_check_conn_name :: "byte pcre \<Rightarrow> byte list \<Rightarrow> bool" where
  "ircbot_check_conn_name R name \<longleftrightarrow> re_full R re_conn_name name \<noteq> None"

text \<open>\<open>lua_rawget\<close> of a table with a string as the key, and the three macros with which a field is read.\<close>

definition lua_rawget :: "(lua_value \<times> lua_value) list \<Rightarrow> byte list \<Rightarrow> lua_value" where
  "lua_rawget tbl key = (case map_of tbl (LUA_TSTRING key) of Some v \<Rightarrow> v | None \<Rightarrow> LUA_TNIL)"

definition lua_rawget_kstdstring :: "(lua_value \<times> lua_value) list \<Rightarrow> string \<Rightarrow> byte list" where
  "lua_rawget_kstdstring tbl key = lua_my_tostdstring_v (lua_rawget tbl (c_lit key))"

definition lua_rawget_kint :: "'w lua_api \<Rightarrow> (lua_value \<times> lua_value) list \<Rightarrow> string \<Rightarrow> int" where
  "lua_rawget_kint A tbl key =
    (case lua_rawget tbl (c_lit key) of
       LUA_TNUMBER n _ \<Rightarrow> low_int n
     | LUA_TSTRING s \<Rightarrow> low_int (la_str2int A s)
     | _ \<Rightarrow> 0)"

definition lua_rawget_kbool :: "(lua_value \<times> lua_value) list \<Rightarrow> string \<Rightarrow> bool \<Rightarrow> bool" where
  "lua_rawget_kbool tbl key default_val =
    (case lua_my_toint (lua_rawget tbl (c_lit key)) of Some res \<Rightarrow> res \<noteq> 0 | None \<Rightarrow> default_val)"

text \<open>A connection made from the configuration: its name, the object, and the bind address of its socket, if one
  is set.\<close>

record new_conn =
  nc_name :: "byte list"
  nc_conn :: conn
  nc_bind :: "byte list option"

definition conn_of_table ::
  "'w lua_api \<Rightarrow> irc_env \<Rightarrow> irc \<Rightarrow> byte list \<Rightarrow> (lua_value \<times> lua_value) list \<Rightarrow> new_conn" where
  "conn_of_table A E st0 name tbl =
    (let nick = lua_rawget_kstdstring tbl ''nickname'';
         st = st0\<lparr>ir_username := lua_rawget_kstdstring tbl ''username'',
                  ir_realname := lua_rawget_kstdstring tbl ''realname''\<rparr>;
         st = snd (set_encoding E (lua_rawget_kstdstring tbl ''encoding'') st);
         server = lua_rawget_kstdstring tbl ''server''; port = lua_rawget_kint A tbl ''port'';
         st = st\<lparr>ir_server := server, ir_port := port,
                 ir_enable_flood_protection := lua_rawget_kbool tbl ''enable_flood_protection'' True\<rparr>
     in \<lparr>nc_name = name, nc_conn = conn_new st server port nick,
         nc_bind = lua_my_tostdstring (lua_rawget tbl (c_lit ''irc_bind_address''))\<rparr>)"

text \<open>The loop of \<open>run\<close> over the table \<open>irc_servers\<close>. When it starts a round the stack has the previous key on the
  table; \<open>lua_next\<close> takes the key off and puts the next key and its value on, or nothing at the end.\<close>

fun run_loop ::
  "'w lua_api \<Rightarrow> byte pcre \<Rightarrow> irc_env \<Rightarrow> irc \<Rightarrow> (lua_value \<times> lua_value) list \<Rightarrow> 'w lua_state \<Rightarrow> new_conn list \<Rightarrow>
    'w lua_state \<times> new_conn list" where
  "run_loop A R E st0 [] L ics = (lua_pop 1 L, ics)"
| "run_loop A R E st0 ((k, v) # es) L ics =
    (let L = lua_pushvalues [k, v] (lua_pop 1 L)
     in case v of
          LUA_TTABLE tbl \<Rightarrow>
            (let cname = lua_my_tostdstring_v k
             in if \<not> ircbot_check_conn_name R cname then run_loop A R E st0 es (lua_pop 1 L) ics
                else run_loop A R E st0 es (lua_pop 1 L) (ics @ [conn_of_table A E st0 cname tbl]))
        | _ \<Rightarrow> run_loop A R E st0 es (lua_pop 1 L) ics)"

text \<open>\<open>lua_pop\<close> of more values than there are.\<close>

definition lua_pop_some :: "nat \<Rightarrow> 'w lua_state \<Rightarrow> c_fault + 'w lua_state" where
  "lua_pop_some n L = (if length (L_stack L) < n then Inl Read_past_end else Inr (lua_pop n L))"

text \<open>\<open>conns\<close> are the connections there are; \<open>thr\<close> is the result of \<open>pthread_create\<close>.\<close>

definition launch :: "int \<Rightarrow> new_conn \<Rightarrow> new_conn" where
  "launch thr nc = nc\<lparr>nc_conn := snd (launch_thread thr (nc_conn nc))\<rparr>"

definition bot_run ::
  "'w lua_api \<Rightarrow> byte pcre \<Rightarrow> irc_env \<Rightarrow> irc \<Rightarrow> int \<Rightarrow> 'w lconfig \<Rightarrow> new_conn list \<Rightarrow>
    c_fault + (int \<times> 'w lconfig \<times> new_conn list)" where
  "bot_run A R E st0 thr lc conns =
    (if conns \<noteq> [] then Inr (- 1, lc, conns)
     else
       (case lw_lua (lc_Lw lc) of
          None \<Rightarrow> Inl Null_deref
        | Some L \<Rightarrow>
            (let t = la_getglobal A (c_lit ''irc_servers'') (L_world L); L = lua_pushvalues [t] L
             in case t of
                  LUA_TTABLE es \<Rightarrow>
                    (let (L, ics) = run_loop A R E st0 es (lua_pushvalues [LUA_TNIL] L) []
                     in case lua_pop_some 2 L of
                          Inl f \<Rightarrow> Inl f
                        | Inr L \<Rightarrow> Inr (0, lc\<lparr>lc_Lw := (lc_Lw lc)\<lparr>lw_lua := Some L\<rparr>\<rparr>, map (launch thr) ics))
                | _ \<Rightarrow> Inr (- 1, lc\<lparr>lc_Lw := (lc_Lw lc)\<lparr>lw_lua := Some (lua_pop 1 L)\<rparr>\<rparr>, conns))))"

definition connect_1 ::
  "'w lua_api \<Rightarrow> byte pcre \<Rightarrow> irc_env \<Rightarrow> irc \<Rightarrow> int \<Rightarrow> byte list \<Rightarrow> 'w lconfig \<Rightarrow> new_conn list \<Rightarrow>
    c_fault + (int \<times> 'w lconfig \<times> new_conn list)" where
  "connect_1 A R E st0 thr name lc conns =
    (if \<not> ircbot_check_conn_name R name then Inr (- 1, lc, conns)
     else if list_ex (\<lambda>nc. nc_name nc = name) conns then Inr (- 1, lc, conns)
     else
       (case lw_lua (lc_Lw lc) of
          None \<Rightarrow> Inl Null_deref
        | Some L \<Rightarrow>
            (let t = la_getglobal A (c_lit ''irc_servers'') (L_world L); L = lua_pushvalues [t] L
             in case t of
                  LUA_TTABLE es \<Rightarrow>
                    (let v = lua_rawget es name; L = lua_pushvalues [v] L
                     in case v of
                          LUA_TTABLE tbl \<Rightarrow>
                            Inr (0, lc\<lparr>lc_Lw := (lc_Lw lc)\<lparr>lw_lua := Some (lua_pop 2 L)\<rparr>\<rparr>,
                              conns @ [launch thr (conn_of_table A E st0 name tbl)])
                        | _ \<Rightarrow> Inr (- 1, lc\<lparr>lc_Lw := (lc_Lw lc)\<lparr>lw_lua := Some (lua_pop 2 L)\<rparr>\<rparr>, conns))
                | _ \<Rightarrow> Inr (- 1, lc\<lparr>lc_Lw := (lc_Lw lc)\<lparr>lw_lua := Some (lua_pop 1 L)\<rparr>\<rparr>, conns))))"

text \<open>The calls for all connections; the last component is \<open>disconnect_all_ts\<close>.\<close>

definition disconnect_all :: "int \<Rightarrow> conn list \<Rightarrow> int \<Rightarrow> conn list \<times> int" where
  "disconnect_all now conns ts = (map (\<lambda>c. snd (conn_disconnect c)) conns, now)"

definition quit_all :: "irc_env \<Rightarrow> int \<Rightarrow> byte list \<Rightarrow> conn list \<Rightarrow> int \<Rightarrow> conn list \<times> int" where
  "quit_all E now quitmsg conns ts = (map (\<lambda>c. snd (conn_quit E now quitmsg c)) conns, now)"

definition force_kill_all :: "irc_env \<Rightarrow> int \<Rightarrow> conn list \<Rightarrow> int \<Rightarrow> conn list \<times> int" where
  "force_kill_all E now conns ts = (map (\<lambda>c. snd (force_kill E now c)) conns, if ts = 0 then now else ts)"

subsection \<open>Modules\<close>

definition re_mod_name :: "byte list" where
  "re_mod_name = c_lit ''^mod_[a-zA-Z0-9_]+$''"

definition re_mod_name2 :: "byte list" where
  "re_mod_name2 = c_lit ''^[a-zA-Z0-9_]+$''"

definition ircbot_normalize_modname :: "byte pcre \<Rightarrow> byte list \<Rightarrow> byte list" where
  "ircbot_normalize_modname R name =
    (if re_full R re_mod_name name = None then
       (if re_full R re_mod_name2 name \<noteq> None then c_lit ''mod_'' @ name else [])
     else name)"

text \<open>\<open>static_modules\<close> is whether \<open>STATIC_MODULES\<close> is defined; \<open>bot\<close> is the pointer that modules get as their
  argument.\<close>

definition bot_load_module ::
  "dl_sys \<Rightarrow> byte pcre \<Rightarrow> bool \<Rightarrow> nat \<Rightarrow> nat \<Rightarrow> byte list \<Rightarrow> module_list \<times> dl_log \<Rightarrow> int \<times> module_list \<times> dl_log" where
  "bot_load_module D R static_modules junk self name = (\<lambda>(ml, log).
    (let modname = ircbot_normalize_modname R name
     in if modname = [] then (- 100, ml, log)
        else if ml_find_by_name modname ml \<noteq> None then (- 101, ml, log)
        else if static_modules then ml_load_static_module D junk modname self (ml, log)
        else ml_load_module D junk (c_lit ''./modules/'' @ modname @ c_lit ''.so'') self (ml, log)))"

definition bot_unload_module ::
  "dl_sys \<Rightarrow> byte pcre \<Rightarrow> byte list \<Rightarrow> module_list \<times> dl_log \<Rightarrow> int \<times> module_list \<times> dl_log" where
  "bot_unload_module D R name = (\<lambda>(ml, log).
    (let modname = ircbot_normalize_modname R name
     in if modname = [] then (- 100, ml, log)
        else if ml_find_by_name modname ml = None then (- 101, ml, log)
        else ml_unload_module D modname (ml, log)))"

text \<open>\<open>initialize\<close>: \<open>evt\<close> and \<open>tmr\<close> are the results of creating the threads.\<close>

fun autoload ::
  "dl_sys \<Rightarrow> byte pcre \<Rightarrow> bool \<Rightarrow> nat \<Rightarrow> nat \<Rightarrow> byte list list \<Rightarrow> module_list \<times> dl_log \<Rightarrow> module_list \<times> dl_log" where
  "autoload D R sm junk self [] st = st"
| "autoload D R sm junk self (m # ms) st =
    (if m = [] then autoload D R sm junk self ms st
     else autoload D R sm junk self ms (snd (bot_load_module D R sm junk self m st)))"

definition bot_initialize ::
  "'w lua_api \<Rightarrow> dl_sys \<Rightarrow> byte pcre \<Rightarrow> bool \<Rightarrow> nat \<Rightarrow> nat \<Rightarrow> (int \<Rightarrow> int) \<Rightarrow> bool \<Rightarrow> 'w lconfig \<Rightarrow> module_list \<times> dl_log \<Rightarrow>
    c_fault + (int \<times> 'w lconfig \<times> module_list \<times> dl_log)" where
  "bot_initialize A D R sm junk self evt tmr lc st =
    (case lconfig_getint A (c_lit ''event_threads'') 1 lc of
       Inl f \<Rightarrow> Inl f
     | Inr (n, lc) \<Rightarrow>
         if evt n < 0 \<or> \<not> tmr then Inr (- 1, lc, st)
         else
           (let (_, ml, log) = ml_unload_all D st
            in case lconfig_getarray A (c_lit ''autoload_modules'') None lc of
                 Inl f \<Rightarrow> Inl f
               | Inr (_, mods, lc) \<Rightarrow> Inr (0, lc, autoload D R sm junk self mods (ml, log))))"

subsection \<open>Administration commands\<close>

datatype adm_out = Adm_reply "byte list" | Adm_quote "byte list" | Adm_pause bool

definition enter_module_name :: "byte list" where
  "enter_module_name =
    [0xEB, 0xAA, 0xA8, 0xEB, 0x93, 0x88, 0x20, 0xEC, 0x9D, 0xB4, 0xEB, 0xA6, 0x84, 0xEC, 0x9D, 0x84, 0x20,
     0xEC, 0x9E, 0x85, 0xEB, 0xA0, 0xA5, 0xED, 0x95, 0x98, 0xEC, 0x84, 0xB8, 0xEC, 0x9A, 0x94]"

definition load_error :: "int \<Rightarrow> byte list \<Rightarrow> byte list" where
  "load_error ret what =
    (if ret = - 100 then c_lit ''invalid module name'' else if ret = - 101 then what else [])"

text \<open>What \<open>privmsgf\<close> makes of the format with the name, the number and the message.\<close>

definition failed_text :: "string \<Rightarrow> byte list \<Rightarrow> int \<Rightarrow> byte list \<Rightarrow> byte list" where
  "failed_text what carg ret errmsg =
    c_lit what @ until_nul carg @ c_lit '': '' @ int2string ret @ c_lit '' '' @ errmsg"

text \<open>\<open>pause\<close> is what \<open>pause_event_threads(true)\<close> returns. The result: the return value, what is sent and paused in
  its order, and the modules.\<close>

definition cmd_cb_module_admin ::
  "dl_sys \<Rightarrow> byte pcre \<Rightarrow> bool \<Rightarrow> nat \<Rightarrow> nat \<Rightarrow> int \<Rightarrow> bool \<Rightarrow> byte list \<Rightarrow> byte list \<Rightarrow> module_list \<times> dl_log \<Rightarrow>
    int \<times> adm_out list \<times> module_list \<times> dl_log" where
  "cmd_cb_module_admin D R sm junk self pause admin cmd carg st =
    (if \<not> admin then (HANDLER_FINISHED, [], st)
     else if cmd = c_lit ''load'' then
       (if carg = [] then (HANDLER_FINISHED, [Adm_reply enter_module_name], st)
        else if pause < 0 then (0, [Adm_pause True, Adm_reply (c_lit ''failed to lock event threads'')], st)
        else
          (let (ret, st) = bot_load_module D R sm junk self carg st
           in (HANDLER_FINISHED,
               [Adm_pause True, Adm_pause False,
                Adm_reply (if ret < 0 then
                    failed_text ''failed to load module '' carg ret (load_error ret (c_lit ''already loaded''))
                  else c_lit ''module '' @ carg @ c_lit '' loaded'')], st)))
     else if cmd = c_lit ''unload'' then
       (if carg = [] then (HANDLER_FINISHED, [Adm_reply enter_module_name], st)
        else if pause < 0 then (0, [Adm_pause True, Adm_reply (c_lit ''failed to lock event threads'')], st)
        else
          (let (ret, st) = bot_unload_module D R carg st
           in (HANDLER_FINISHED,
               [Adm_pause True, Adm_pause False,
                Adm_reply (if ret < 0 then
                    failed_text ''failed to unload module '' carg ret (load_error ret (c_lit ''not loaded''))
                  else c_lit ''module '' @ carg @ c_lit '' unloaded'')], st)))
     else if cmd = c_lit ''reload'' then
       (if carg = [] then (HANDLER_FINISHED, [Adm_reply enter_module_name], st)
        else if pause < 0 then (0, [Adm_pause True, Adm_reply (c_lit ''failed to lock event threads'')], st)
        else
          (let (ret, st) = bot_unload_module D R carg st; is_unloaded = (\<not> ret < 0);
               (ret, st) = bot_load_module D R sm junk self carg st;
               re = (if is_unloaded then ''re'' else '''')
           in (HANDLER_FINISHED,
               [Adm_pause True, Adm_pause False,
                Adm_reply (if ret < 0 then
                    failed_text (''failed to '' @ re @ ''load module '') carg ret (load_error ret (c_lit ''already loaded''))
                  else c_lit ''module '' @ until_nul carg @ c_lit '' '' @ c_lit re @ c_lit ''loaded'')], st)))
     else if cmd = c_lit ''sendraw'' then (HANDLER_FINISHED, [Adm_quote carg], st)
     else (HANDLER_FINISHED, [], st))"

subsection \<open>Properties of the connections\<close>

text \<open>The characters of names; what the patterns match.\<close>

definition alnum :: "byte \<Rightarrow> bool" where
  "alnum c \<longleftrightarrow> 0x30 \<le> c \<and> c \<le> 0x39 \<or> 0x41 \<le> c \<and> c \<le> 0x5A \<or> 0x61 \<le> c \<and> c \<le> 0x7A \<or> c = 0x5F"

definition all_alnum :: "byte list \<Rightarrow> bool" where
  "all_alnum s \<longleftrightarrow> s \<noteq> [] \<and> (\<forall>c \<in> set s. alnum c)"

definition botcfg_pcre :: "byte pcre \<Rightarrow> bool" where
  "botcfg_pcre R \<longleftrightarrow> (\<forall>s.
    (re_full R re_conn_name s \<noteq> None \<longleftrightarrow> s \<noteq> [] \<and> (\<forall>c \<in> set s. alnum c \<or> c = 0x2D)) \<and>
    (re_full R re_mod_name s \<noteq> None \<longleftrightarrow> (\<exists>w. s = c_lit ''mod_'' @ w \<and> all_alnum w)) \<and>
    (re_full R re_mod_name2 s \<noteq> None \<longleftrightarrow> all_alnum s))"

lemma run_loop_all:
  assumes "L_stack L = x # t # st"
  shows "run_loop A R E st0 es L ics = (L\<lparr>L_stack := t # st\<rparr>,
    ics @ concat (map (\<lambda>(k, v). case v of
        LUA_TTABLE tbl \<Rightarrow>
          if ircbot_check_conn_name R (lua_my_tostdstring_v k) then [conn_of_table A E st0 (lua_my_tostdstring_v k) tbl] else []
      | _ \<Rightarrow> []) es))"
  using assms
proof (induction es arbitrary: L ics x)
  case (Cons e es)
  obtain k v where e: "e = (k, v)" by (cases e)
  have step: "lua_pop 1 (lua_pushvalues [k, v] (lua_pop 1 L)) = L\<lparr>L_stack := k # t # st\<rparr>"
    using Cons.prems by (simp add: lua_pop_def lua_pushvalues_def)
  show ?case using Cons.IH [of "L\<lparr>L_stack := k # t # st\<rparr>" k] step by (auto simp: e Let_def split: lua_value.split)
qed (simp add: lua_pop_def)

text \<open>\<open>run\<close> makes one connection for each entry of \<open>irc_servers\<close> that is a table under an admissible name, in the
  order of the table, with the settings of the entry. It takes one value more off the stack than it has put
  there, which is beyond its bottom when the stack was empty.\<close>

theorem bot_run_connections:
  assumes "lw_lua (lc_Lw lc) = Some L" "la_getglobal A (c_lit ''irc_servers'') (L_world L) = LUA_TTABLE es"
  shows "bot_run A R E st0 thr lc [] =
    (if L_stack L = [] then Inl Read_past_end
     else
       Inr (0, lc\<lparr>lc_Lw := (lc_Lw lc)\<lparr>lw_lua := Some (L\<lparr>L_stack := tl (L_stack L)\<rparr>)\<rparr>\<rparr>,
         concat (map (\<lambda>(k, v). case v of
             LUA_TTABLE tbl \<Rightarrow>
               if ircbot_check_conn_name R (lua_my_tostdstring_v k)
               then [launch thr (conn_of_table A E st0 (lua_my_tostdstring_v k) tbl)] else []
           | _ \<Rightarrow> []) es)))"
proof -
  have m: "map (launch thr) (concat (map f es)) = concat (map (\<lambda>e. map (launch thr) (f e)) es)" for f :: "_ \<Rightarrow> new_conn list"
    by (induction es) auto
  let ?L = "lua_pushvalues [LUA_TNIL] (lua_pushvalues [LUA_TTABLE es] L)"
  have s: "L_stack ?L = LUA_TNIL # LUA_TTABLE es # L_stack L" by (simp add: lua_pushvalues_def)
  show ?thesis using assms run_loop_all [OF s, of A R E st0 es "[]"]
    by (cases "L_stack L") (auto simp: bot_run_def lua_pop_some_def lua_pop_def m lua_pushvalues_def intro!: arg_cong [where f = concat] map_cong
        split: lua_value.split)
qed

text \<open>Patterns that match as described.\<close>

definition botcfg_R :: "byte pcre" where
  "botcfg_R =
    \<lparr>re_full = (\<lambda>p s.
       if p = re_conn_name then (if s \<noteq> [] \<and> list_all (\<lambda>c. alnum c \<or> c = 0x2D) s then Some [] else None)
       else if p = re_mod_name then
         (if take 4 s = c_lit ''mod_'' \<and> drop 4 s \<noteq> [] \<and> list_all alnum (drop 4 s) then Some [] else None)
       else if s \<noteq> [] \<and> list_all alnum s then Some [] else None),
     re_partial = (\<lambda>_ _. None), re_global_replace = (\<lambda>_ _ s. s)\<rparr>"

lemma botcfg_patterns: "re_mod_name \<noteq> re_conn_name" "re_mod_name2 \<noteq> re_conn_name" "re_mod_name2 \<noteq> re_mod_name"
  by (simp_all add: re_conn_name_def re_mod_name_def re_mod_name2_def c_lit_def)

lemma botcfg_R_ok: "botcfg_pcre botcfg_R"
proof -
  have l: "length (c_lit ''mod_'') = 4" by (simp add: c_lit_def)
  have "(\<exists>w. s = c_lit ''mod_'' @ w \<and> all_alnum w) \<longleftrightarrow> take 4 s = c_lit ''mod_'' \<and> all_alnum (drop 4 s)" for s
    using l by (metis append_eq_conv_conj append_take_drop_id)
  then show ?thesis by (simp add: botcfg_pcre_def botcfg_R_def botcfg_patterns all_alnum_def list_all_iff)
qed

definition servers_demo :: "unit lua_api" where
  "servers_demo = lua_demo\<lparr>la_getglobal := \<lambda>_ _. LUA_TTABLE
    [(LUA_TSTRING (c_lit ''net''), LUA_TTABLE [(LUA_TSTRING (c_lit ''nickname''), LUA_TSTRING (c_lit ''bob''))]),
     (LUA_TSTRING (c_lit ''a b''), LUA_TTABLE []), (LUA_TSTRING (c_lit ''x''), LUA_TNIL)]\<rparr>"

lemma bot_run_connections_witness:
  "\<exists>lc' nc. bot_run servers_demo botcfg_R env_witness (irc_new 0 0 0 undefined) 0
      (lconfig_new (Some \<lparr>L_stack = [LUA_TNIL, LUA_TBOOLEAN True], L_world = ()\<rparr>)) [] = Inr (0, lc', [nc]) \<and>
    nc_name nc = c_lit ''net'' \<and> cn_nickbuf (nc_conn nc) = c_lit ''bob'' \<and>
    map_option L_stack (lw_lua (lc_Lw lc')) = Some [LUA_TBOOLEAN True]"
proof -
  let ?L = "\<lparr>L_stack = [LUA_TNIL, LUA_TBOOLEAN True], L_world = ()\<rparr>"
  have l: "lw_lua (lc_Lw (lconfig_new (Some ?L))) = Some ?L" by (simp add: lconfig_new_def lw_init_def)
  have n: "ircbot_check_conn_name botcfg_R [0x6E, 0x65, 0x74]" "\<not> ircbot_check_conn_name botcfg_R [0x61, 0x20, 0x62]"
    by (simp_all add: ircbot_check_conn_name_def botcfg_R_def c_lit_def alnum_def)
  note bot_run_connections [OF l, of servers_demo _ botcfg_R env_witness "irc_new 0 0 0 undefined" 0]
  then show ?thesis
    by (simp add: servers_demo_def lua_my_tostdstring_v_def n launch_def launch_thread_def conn_of_table_def conn_new_def Let_def
        lua_rawget_kstdstring_def lua_rawget_def c_lit_def)
qed

text \<open>\<open>connect_1\<close> leaves the stack as it was and does not make a second connection of one name.\<close>

lemma connect_1_stack:
  assumes "lw_lua (lc_Lw lc) = Some L"
  shows "\<exists>ret lc' conns'. connect_1 A R E st0 thr name lc conns = Inr (ret, lc', conns') \<and> lw_lua (lc_Lw lc') = Some L \<and>
    (conns' = conns \<or> ret = 0 \<and> name \<notin> nc_name ` set conns \<and> map nc_name conns' = map nc_name conns @ [name])"
  using assms
  by (auto simp: connect_1_def Let_def lua_pop_def lua_pushvalues_def list_ex_iff launch_def conn_of_table_def split: lua_value.split)

text \<open>A name has no quotation mark in it and no backslash, so the expression that a setting of the connection is
  looked up with names that connection.\<close>

lemma conn_name_quoted:
  assumes "botcfg_pcre R" "ircbot_check_conn_name R name" "c \<in> set name"
  shows "c \<noteq> 0x27" "c \<noteq> 0x5C" "c \<noteq> 0x0A" "c \<noteq> 0"
proof -
  have "alnum c \<or> c = 0x2D" using assms by (auto simp: botcfg_pcre_def ircbot_check_conn_name_def)
  then show "c \<noteq> 0x27" "c \<noteq> 0x5C" "c \<noteq> 0x0A" "c \<noteq> 0" by (auto simp: alnum_def)
qed

subsection \<open>Properties of the modules\<close>

definition module_path :: "byte list \<Rightarrow> bool" where
  "module_path p \<longleftrightarrow> (\<exists>w. p = c_lit ''./modules/mod_'' @ w @ c_lit ''.so'' \<and> all_alnum w)"

lemma normalize_name:
  assumes "botcfg_pcre R" "ircbot_normalize_modname R name = m" "m \<noteq> []"
  shows "\<exists>w. m = c_lit ''mod_'' @ w \<and> all_alnum w"
  using assms by (auto simp: botcfg_pcre_def ircbot_normalize_modname_def split: if_splits)

text \<open>Two linkers that differ at most in what they open for other paths than those of modules.\<close>

definition same_modules :: "dl_sys \<Rightarrow> dl_sys \<Rightarrow> bool" where
  "same_modules D D' \<longleftrightarrow> dl_sym D = dl_sym D' \<and> dl_str D = dl_str D' \<and> dl_ret D = dl_ret D' \<and>
    (\<forall>log p. module_path p \<longrightarrow> dl_open D log p = dl_open D' log p)"

lemma module_unload_same:
  assumes "same_modules D D'"
  shows "module_unload_module D = module_unload_module D'" "ml_add D = ml_add D'"
    "ml_unload_module D = ml_unload_module D'"
proof -
  show u: "module_unload_module D = module_unload_module D'"
    using assms by (simp add: same_modules_def module_unload_module_def fun_eq_iff)
  show "ml_add D = ml_add D'" "ml_unload_module D = ml_unload_module D'"
    unfolding ml_add_def ml_unload_module_def u by (rule refl)+
qed

lemma unload_same: "same_modules D D' \<Longrightarrow> bot_unload_module D R name = bot_unload_module D' R name"
  unfolding bot_unload_module_def by (simp only: module_unload_same(3))

lemma load_same:
  assumes "botcfg_pcre R" "same_modules D D'"
  shows "bot_load_module D R sm junk self name = bot_load_module D' R sm junk self name"
proof -
  let ?m = "ircbot_normalize_modname R name"
  note add = module_unload_same(2) [OF assms(2)]
  have eqs: "dl_sym D = dl_sym D'" "dl_str D = dl_str D'" "dl_ret D = dl_ret D'"
    using assms(2) by (simp_all add: same_modules_def)
  have ci: "call_init D = call_init D'" by (intro ext) (simp add: call_init_def eqs split: option.split)
  have static: "module_load_static_module D = module_load_static_module D'"
    unfolding module_load_static_module_def eqs ci by (rule refl)
  have load: "module_load_module D p = module_load_module D' p" if "module_path (until_nul p)" for p
  proof -
    have "dl_open D lg (until_nul p) = dl_open D' lg (until_nul p)" for lg
      using assms(2) that by (simp add: same_modules_def)
    then show ?thesis unfolding module_load_module_def eqs ci by presburger
  qed
  show ?thesis
  proof (cases "?m = []")
    case False
    then obtain w where w: "?m = c_lit ''mod_'' @ w" "all_alnum w" using normalize_name [OF assms(1) refl] by blast
    let ?p = "c_lit ''./modules/'' @ ?m @ c_lit ''.so''"
    have "0 \<notin> set w" using w(2) by (auto simp: all_alnum_def alnum_def)
    then have "until_nul ?p = ?p" by (intro until_nul_id) (auto simp: cstr_ok_def w(1) c_lit_def)
    moreover have "module_path ?p" using w by (auto simp: module_path_def c_lit_def)
    ultimately have lm: "ml_load_module D junk ?p = ml_load_module D' junk ?p" using load [of ?p]
      unfolding ml_load_module_def add by simp
    have ls: "ml_load_static_module D = ml_load_static_module D'" unfolding ml_load_static_module_def static add by (rule refl)
    show ?thesis unfolding bot_load_module_def Let_def lm ls by (rule refl)
  qed (simp add: bot_load_module_def)
qed

text \<open>C36: The administration commands do nothing for a user who is no administrator. Whatever the argument is, the only
  files they can have opened are \<open>./modules/mod_\<close>\<dots>\<open>.so\<close> with letters, digits and underscores in between: with a
  linker that behaves differently for other paths everything is the same. The list of modules stays in order,
  and a pause that was granted is ended before the command returns.\<close>

theorem module_commands_confined:
  assumes "botcfg_pcre R" "ml_inv st" "cmd_cb_module_admin D R sm junk self pause admin cmd carg st = (ret, out, st')"
  shows "(\<not> admin \<longrightarrow> out = [] \<and> st' = st) \<and>
    (\<forall>D'. same_modules D D' \<longrightarrow> cmd_cb_module_admin D' R sm junk self pause admin cmd carg st = (ret, out, st')) \<and>
    ml_inv st' \<and> (0 \<le> pause \<longrightarrow> count_list out (Adm_pause True) = count_list out (Adm_pause False))"
proof -
  have l: "ml_inv (snd (bot_load_module D R sm junk self carg s))" if "ml_inv s" for s
    using mod_exec_inv [OF that, of D "Load_module junk (c_lit ''./modules/'' @ ircbot_normalize_modname R carg @ c_lit ''.so'') self"]
      mod_exec_inv [OF that, of D "Load_static junk (ircbot_normalize_modname R carg) self"] that
    by (cases s) (auto simp: bot_load_module_def mod_exec_def Let_def)
  have u: "ml_inv (snd (bot_unload_module D R carg s))" if "ml_inv s" for s
    using mod_exec_inv [OF that, of D "Unload (ircbot_normalize_modname R carg)"] that
    by (cases s) (auto simp: bot_unload_module_def mod_exec_def Let_def)
  have "cmd_cb_module_admin D' R sm junk self pause admin cmd carg st = (ret, out, st')" if "same_modules D D'" for D'
    using assms(3) unfolding cmd_cb_module_admin_def load_same [OF assms(1) that] unload_same [OF that] .
  then have same: "\<forall>D'. same_modules D D' \<longrightarrow> cmd_cb_module_admin D' R sm junk self pause admin cmd carg st = (ret, out, st')"
    by blast
  obtain r1 s1 where 1: "bot_load_module D R sm junk self carg st = (r1, s1)" by (metis surj_pair)
  obtain r2 s2 where 2: "bot_unload_module D R carg st = (r2, s2)" by (metis surj_pair)
  obtain r3 s3 where 3: "bot_load_module D R sm junk self carg s2 = (r3, s3)" by (metis surj_pair)
  have i: "ml_inv s1" "ml_inv s2" using l [OF assms(2)] u [OF assms(2)] 1 2 by simp_all
  then have "ml_inv s3" using l [of s2] 3 by simp
  moreover have "(\<not> admin \<longrightarrow> out = [] \<and> st' = st) \<and> (st' = st \<or> st' = s1 \<or> st' = s2 \<or> st' = s3) \<and>
      (0 \<le> pause \<longrightarrow> count_list out (Adm_pause True) = count_list out (Adm_pause False))"
    using assms(3) 1 2 3 by (simp add: cmd_cb_module_admin_def Let_def split: if_splits) auto
  ultimately show ?thesis using i assms(2) same by blast
qed

definition no_modules :: dl_sys where
  "no_modules = \<lparr>dl_open = \<lambda>_ _. None, dl_sym = \<lambda>_ _. None, dl_str = \<lambda>_. [], dl_ret = \<lambda>_ _ _. 0\<rparr>"

lemma module_commands_confined_witness:
  "cmd_cb_module_admin (no_modules\<lparr>dl_open := \<lambda>_ p. if module_path p then None else Some 7\<rparr>) botcfg_R False 0 1 0 True
      (c_lit ''load'') (c_lit ''../evil'') ([], []) =
    (HANDLER_FINISHED, [Adm_pause True, Adm_pause False,
       Adm_reply (failed_text ''failed to load module '' (c_lit ''../evil'') (- 100) (c_lit ''invalid module name''))], ([], []))"
proof -
  have n: "ircbot_normalize_modname botcfg_R (c_lit ''../evil'') = []"
    by (simp add: ircbot_normalize_modname_def botcfg_R_def botcfg_patterns c_lit_def alnum_def)
  have c: "cmd_cb_module_admin no_modules botcfg_R False 0 1 0 True (c_lit ''load'') (c_lit ''../evil'') ([], []) =
    (HANDLER_FINISHED, [Adm_pause True, Adm_pause False,
       Adm_reply (failed_text ''failed to load module '' (c_lit ''../evil'') (- 100) (c_lit ''invalid module name''))], ([], []))"
    by (simp add: cmd_cb_module_admin_def bot_load_module_def n load_error_def) (simp add: c_lit_def)
  have i: "ml_inv ([], [])" by (simp add: ml_inv_def listed_def)
  have "same_modules no_modules (no_modules\<lparr>dl_open := \<lambda>_ p. if module_path p then None else Some 7\<rparr>)"
    by (simp add: same_modules_def no_modules_def)
  with module_commands_confined [OF botcfg_R_ok i c] show ?thesis by blast
qed

text \<open>The commands are found whatever the case of their names, but only act on the lower-case one.\<close>

lemma upper_case_command:
  "cmd_cb_module_admin D R sm junk self pause True (c_lit ''LOAD'') carg st = (HANDLER_FINISHED, [], st)"
  by (simp add: cmd_cb_module_admin_def c_lit_def)

subsection \<open>Properties of the administrators\<close>

text \<open>Who is an administrator: the users that a mask of the table \<open>botadmin_masks\<close> matches. When that is no table
  there is none, and when it cannot be evaluated the bot reads through a null pointer.\<close>

lemma botadmin_of_config:
  assumes "lw_lua (lc_Lw lc) = Some L" "lua_eval A (c_lit ''botadmin_masks'') (L_world L) = Some (v, w)"
  shows "\<exists>err. bot_is_botadmin A ident lc =
    (case v of
       None \<Rightarrow> Inl Null_deref
     | Some (LUA_TTABLE es) \<Rightarrow>
         Inr (\<exists>(k, m) \<in> set es. glob irc_tolower (until_nul (lua_my_tostdstring_v m)) (until_nul ident), lookup_state L w err lc)
     | Some _ \<Rightarrow> Inr (False, lookup_state L w err lc))"
proof -
  obtain err where e: "lconfig_getarray A (c_lit ''botadmin_masks'') None lc =
    (case (v, None) of
       (None, None) \<Rightarrow> Inl Null_deref
     | (Some (LUA_TTABLE es), _) \<Rightarrow> Inr (True, map (lua_my_tostdstring_v \<circ> snd) es, lookup_state L w err lc)
     | (_, None) \<Rightarrow> Inr (False, [], lookup_state L w err lc)
     | (_, Some d) \<Rightarrow> Inr (False, d, lookup_state L w err lc))"
    using lconfig_getarray_eval [OF assms, of None] by blast
  show ?thesis
    by (intro exI [of _ err]) (force simp: bot_is_botadmin_def e is_botadmin_masks split: option.split lua_value.split)
qed

text \<open>A configuration file with a syntax error, loaded again while the bot runs, leaves it without any administrator:
  the old values are gone before the file is read.\<close>

lemma failed_reload_no_admins:
  assumes "newstate = Some L0" "la_loadfile A (until_nul path) (L_world L0) = (e, msg, w)" "e \<noteq> 0"
    and "lua_tolstring msg \<noteq> None" "lua_eval A (c_lit ''botadmin_masks'') w = Some (Some LUA_TNIL, w2)"
  shows "\<exists>lc'. bot_load_cfg_file A newstate compiles path lc b = Inr (- 1, lc', b, None) \<and>
    (\<forall>ident. \<exists>lc''. bot_is_botadmin A ident lc' = Inr (False, lc''))"
proof -
  obtain m where m: "lua_tolstring msg = Some m" using assms(4) by blast
  let ?L = "L0\<lparr>L_world := w\<rparr>"
  let ?lc = "lc\<lparr>lc_Lw := \<lparr>lw_lua = Some ?L, lw_lasterr_str = until_nul m\<rparr>\<rparr>"
  have u: "until_nul (until_nul path) = until_nul path" by (simp add: until_nul_id)
  have "bot_load_cfg_file A newstate compiles path lc b = Inr (- 1, ?lc, b, None)"
    using assms(1-3) m u
    by (cases L0; cases "lw_lua (lc_Lw lc)"; cases "lc_Lw lc") (simp_all add: bot_load_cfg_file_def lconfig_open_def lconfig_clear_def lw_init_def lw_close_def Let_def
        lw_dofile_def lw_doload_def check_lua_def lua_pushvalues_def lw_popstring_def lua_pop_def)
  moreover have "\<exists>lc''. bot_is_botadmin A ident ?lc = Inr (False, lc'')" for ident
    using botadmin_of_config [of ?lc ?L A "Some LUA_TNIL" w2 ident] assms(5) by auto
  ultimately show ?thesis by blast
qed

end
