(* ===== verification/Spec2Isabelle.thy ===== *)
theory Spec2Isabelle
  imports Extcmd Ewordquiz Dcc Admin Hanja Strutils Remember Utf8 Hangul Base64 Md5 Encconv Etc Pobj Tcpline Pollfd Printf Bottimer Botthread Botcfg
begin

text \<open>
  A verification library for meowbot, an IRC bot in C and C++ for Korean channels.

  \<^bold>\<open>The program.\<close> One thread per connection (\<open>ircbot_conn\<close>, \<open>ircbot.cpp\<close>) runs \<open>irc::main_loop\<close>
  (\<open>irc.cpp\<close>): it reads lines from a \<open>tcpsock\<close>, converts their character set, parses them, keeps the lists of
  channels and of their users, and turns them into events for the bot. Lines for the server go through a
  queue with priorities that a second thread empties under the server's flood rules. Events go into a queue
  that the bot's event threads (\<open>ircbot.cpp\<close>) empty; they call handlers and commands of modules, and a timer
  thread calls timers. What the bot connects to, who administers it and which modules it loads comes from its
  configuration; modules add commands and handlers. Below this are libraries: sockets with buffered reading,
  formatted printing, vectors of pointers, URL and number coding, UTF-8, Hangul letters and particles,
  case-insensitive names, wildcard masks, Base64, MD5, wrappers around Lua and SQLite.

  \<^bold>\<open>Theories and sources.\<close>
  \<^item> \<open>Prelude\<close>: bytes, C strings (a list of bytes that ends at a NUL, \<open>cstr_at\<close>, \<open>until_nul\<close>), machine
    words, the faults \<open>c_fault\<close> of undefined behaviour, shared lemmas. \<open>Pcre\<close>: the interface to the
    regular expressions. \<open>Strmap\<close>: \<open>std::map\<close> with a comparator as a sorted list of pairs, its laws as
    a locale that the name maps interpret.
  \<^item> \<open>Utf8\<close> (\<open>utf8_impl.c\<close>, \<open>utf8.cpp\<close>), \<open>Hangul\<close> (\<open>hangul_impl.c\<close>, \<open>hangul.cpp\<close>), \<open>Base64\<close>
    (\<open>base64_impl.c\<close>, \<open>base64.cpp\<close>), \<open>Md5\<close> (\<open>md5_impl.c\<close>, \<open>md5.cpp\<close>), \<open>Wildcard\<close> (\<open>wildcard.cpp\<close>): each C
    function under its own name, loops as recursive functions, tables as lists.
  \<^item> \<open>Numstr\<close>, \<open>Etc\<close>, \<open>Pobj\<close> (\<open>etc.cpp\<close>, \<open>etc.h\<close>): numbers and their text; URLs, HTML entities, splitting,
    files; \<open>pobj_vector\<close> with its memory as cells. \<open>Printf\<close> (\<open>my_vsprintf.cpp\<close>, \<open>my_vsprintf_core_impl.h\<close>): the
    format interpreter over a buffer in memory, each conversion as the characters it writes.
  \<^item> \<open>Ircstring\<close> (\<open>ircstring.h\<close>, \<open>ircstring.cpp\<close>), \<open>Ircdefs\<close>, \<open>Ircutils\<close>, \<open>Ircevent\<close> (the headers of the same
    names): case folding, constants, identities, users, messages, events and their copies.
  \<^item> \<open>Encconv\<close> (\<open>encoding_converter.cpp\<close>): conversion around \<open>iconv\<close>.
  \<^item> \<open>Tcpsock\<close>, \<open>Tcpline\<close>, \<open>Pollfd\<close> (\<open>tcpsock.cpp\<close>, \<open>tcpsock.h\<close>): opening, closing and timed input and output with
    the answers of the system calls as arguments; reading lines and blocks over a script of such answers; the
    tables for \<open>poll\<close>.
  \<^item> \<open>Ircparse\<close>, \<open>Irc\<close>, \<open>Ircloop\<close>, \<open>Ircsend\<close> (all \<open>irc.cpp\<close>): the line parser; the class \<open>irc\<close> as a
    record with one function per method; the main loop with one function per server message; the send
    thread as a step relation. \<open>Ircsession\<close>: everything that can happen to a session as one inductive
    relation, with its invariants.
  \<^item> \<open>Bottimer\<close>, \<open>Ircbot\<close>, \<open>Botthread\<close>, \<open>Botconn\<close> (\<open>ircbot.h\<close>, \<open>ircbot.cpp\<close>): the list of timers and a turn of its
    thread; the tables of handlers and commands and the handling of an event, with the code behind the
    pointers as a parameter (\<open>bot_code\<close>); the event threads with their mutex and \<open>pause_event_threads\<close> as a step
    relation over program counters; the thread of a connection and the calls that end or renew it, over
    the step relation of \<open>Ircsession\<close>.
  \<^item> \<open>Luacpp\<close> (\<open>luacpp.cpp\<close>, \<open>luacpp.h\<close>), \<open>Config\<close> (\<open>config.cpp\<close>, \<open>config.h\<close>), \<open>Module\<close> (\<open>module.cpp\<close>,
    \<open>module.h\<close>), \<open>Botcfg\<close> (\<open>ircbot.cpp\<close>): the stack and the references of a Lua state, the two readers of
    configurations, the loader of modules with a log of its calls of the dynamic linker, and what the bot does
    with them: its administrators, the connections it starts, the commands that load and unload modules.
  \<^item> \<open>Sqlitedb\<close> (\<open>sqlite3_db.cpp\<close>, \<open>sqlite3_db.h\<close>): statements on a database. \<open>Botmod\<close>: what modules share,
    the messages of a command as the list of what it sends, and the registration of commands. \<open>Dubeol\<close>,
    \<open>Strutils\<close> (\<open>mod_strutils.cpp\<close>): the automaton of the Korean keyboard, and the other commands on texts. \<open>Remember\<close>
    (\<open>mod_remember.cpp\<close>): the words that users teach the bot. \<open>Ewordquiz\<close> (\<open>mod_ewordquiz.cpp\<close>): the word chain
    game, its word lists, and its handlers as a step relation over threads and a lock. \<open>Dcc\<close> (\<open>mod_dcc.cpp\<close>): receiving
    files. \<open>Chanmods\<close> (\<open>mod_basic.cpp\<close>, \<open>mod_query_redir.cpp\<close>), \<open>Admin\<close> (\<open>mod_admin.cpp\<close>), \<open>Hanja\<close>
    (\<open>mod_hanja.cpp\<close>), \<open>Extcmd\<close> (\<open>mod_extcmd.cpp\<close>, \<open>mod_kor_orthography.cpp\<close>): commands that return what they
    send and do as a list, over the lines that a program or a page answers.

  \<^bold>\<open>How the model follows the code.\<close> A method of a class takes the record of its object last and
  returns the result and the new record. Integers whose width matters are words; times and sizes
  that cannot wrap are \<open>int\<close> and \<open>nat\<close>. Reading or writing outside an array, a null pointer and a failed
  assertion are values of \<open>c_fault\<close>. What leaves an object is recorded in it (\<open>ir_sent\<close>, \<open>ir_events\<close>, \<open>ts_sys\<close>).
  An operation that holds a lock is one step; where the code lets go of a lock the step relation
  allows other steps in between. Loops whose end depends on code outside are \<open>partial_function\<close>
  (\<open>convert_loop\<close>, \<open>csplit_loop\<close>, \<open>op_read\<close>) or run over a finite list of inputs (\<open>loop_run\<close>, \<open>line_loop\<close>, where
  None is a call that still waits); the others are total, so no fuel is needed.

  \<^bold>\<open>Parameters.\<close> The regular expressions (\<open>byte pcre\<close>, with \<open>irc_pcre\<close>, \<open>nick_pcre\<close> and \<open>josa_pcre\<close> for
  what the used patterns mean), \<open>iconv\<close> (\<open>iconv_lib\<close>, with \<open>iconv_ok\<close> and \<open>iconv_expands4\<close>), the
  conversion of a session (\<open>en_convert\<close>), the clock, the answers of the system to socket calls (\<open>script\<close>,
  \<open>conn_sys\<close>; \<open>live\<close> for a connection that does not break), \<open>fcvt_r\<close> and the arithmetic on \<open>double\<close>
  (\<open>double_ops\<close>), the files, the Lua interpreter (\<open>lua_api\<close>), the dynamic linker (\<open>dl_sys\<close>), SQLite
  (\<open>sqlite_lib\<close>, with \<open>remember_db\<close> for what the statements of one module do to its table; \<open>cfg_pcre\<close>,
  \<open>botcfg_pcre\<close> and \<open>rem_pcre\<close> are the patterns of configuration and memory), and the code of handlers, commands and
  timers. Each hypothesis on them has an instance that satisfies it, used by the witnesses.

  \<^bold>\<open>What the lemmas show.\<close> For the strings: round trips of encoders and decoders, agreement of table
  driven and arithmetic code, bounds of buffers, the digest of RFC 1321 for any message, the meaning
  of a mask; formatted printing stays in its buffer and its numbers are read back. For sockets: the lines
  read are those of the byte stream however it is cut, no descriptor leaks, what the tables for \<open>poll\<close> hold.
  For sessions: a line cannot smuggle a second command, the parser undoes the grammar of
  the protocol, the lists of users follow the server, a message arrives over the network as it was sent
  (\<open>message_over_network\<close> below, over sessions and sockets), the send queue
  is a priority queue without starvation within a priority and keeps the flood rule, a silent server
  is noticed, and the invariant of \<open>session_in_order\<close> holds in all reachable states. For the bot: no event
  is lost or handled twice, handlers run in the order of their priorities, a pause is exclusive under the
  condition stated, timers run when they are due, and a connection that was told to quit ends. For the
  configuration: a file read gives the settings it states, one that was written is read back, each library that was
  opened is closed or loaded, commands load modules from the module directory only. For the modules: typing a Hangul
  text on the keyboard gives that text, the percentage of two names is one, a word that was taught is
  found, also through links, the games of all channels keep their rules, a received file stays in its directory. Where the code does
  not do what it means to, a theorem or lemma says what it does instead: four-byte UTF-8 above 0x3FFFF, stray
  stores of the Base64 decoder, reads behind the parameter vector, the stale identity after NICK, the
  timer of \<open>quit\<close>, the mutex that \<open>reconnect\<close> keeps, the pause that is not exclusive, the first socket
  of a poll table, the line left over from an old connection, blocks read on top of each other, locks that
  never fail, arguments formatted twice, a lock that a won game keeps, words read behind their list.

  \<^bold>\<open>Not modelled.\<close> The Lua and Perl bindings and the version of the format interpreter that takes its
  arguments from Lua, whose code moves values between two interpreters; the modules that query network services and
  libraries or run scripts; the entry point with its signals; name resolution, random numbers and time strings,
  which only call the C library; the table of \<open>mod_hanja_data.h\<close>, which is an argument; the vendored SQLite, Lua and pcrecpp.
\<close>

section \<open>A message from one client to another\<close>

text \<open>C6: From one client to another over the network. What \<open>privmsg\<close> queues is a line \<open>l\<close> that ends with
  CR LF. When the server relays it behind the sender's prefix, and the bytes reach the other client's socket
  in any pieces and with any pauses, reading a line gives exactly that line and leaves what follows it, and
  handling it raises one message event, with the sender's identity, the same kind of message (plain, notice,
  action, CTCP request or reply) and the same text: the frames that \<open>privmsg\<close> puts around the text are the
  ones that the parser and the message classification take off. The text is a single line that fits, and is
  not itself framed.\<close>

theorem message_over_network:
  assumes "ir_status A = IRCSTATUS_CONNECTED" "ir_enable_flood_protection A" "ir_conv_m2s A = None"
    and "mi_chantype dest \<noteq> IRC_CHANTYPE_DCC" "sendable (mi_msgtype dest) msg"
    and "middle_word (mi_chan dest)" "0x0A \<notin> set (mi_chan dest)" "0x0D \<notin> set (mi_chan dest)"
    and "length (mi_chan dest) + length msg < 480"
    and "irc_pcre (en_pcre E')" "line_word src" "0x0A \<notin> set src" "0x0D \<notin> set src" "ir_conv_s2m B = None"
  shows "\<exists>A' l line B' pm. privmsg E dest msg A = (0, A') \<and>
    ir_send_queue A' = ir_send_queue A @ [\<lparr>sq_line = l @ [0x0D, 0x0A], sq_priority = mi_priority dest\<rparr>] \<and>
    line = 0x3A # src @ 0x20 # l \<and>
    (\<forall>script sock rest. reader sock \<and> live script \<and> ts_linebuf sock = [] \<and>
        pending script sock = line @ [0x0D, 0x0A] @ rest \<longrightarrow>
      (\<exists>script' sock'. op_read strerr I 0 e script sock = Some (Inr ((int (length line), line), script', sock')) \<and>
        pending script' sock' = rest)) \<and>
    handle_line E' now line lv B = Inr (Go_on, lv, B') \<and>
    ir_events B' = ir_events B @ [Ircevent_srvincoming line (lv_line_converted lv), Ircevent_privmsg pm] \<and>
    pm_ident pm = irc_ident_new (en_pcre E') src \<and> pm_msg pm = msg \<and> mi_msgtype (pm_msginfo pm) = mi_msgtype dest \<and>
    (chan_prefix (mi_chan dest) \<longrightarrow>
      mi_chantype (pm_msginfo pm) = IRC_CHANTYPE_CHAN \<and> mi_chan (pm_msginfo pm) = mi_chan dest)"
proof -
  obtain A' l B' pm where p: "privmsg E dest msg A = (0, A')" and l: "one_line l = l" "length l < IRC_MAX_LINE_SIZE"
    and q: "ir_send_queue A' = ir_send_queue A @ [\<lparr>sq_line = l @ [0x0D, 0x0A], sq_priority = mi_priority dest\<rparr>]"
    and h: "handle_line E' now (0x3A # src @ 0x20 # l) lv B = Inr (Go_on, lv, B')"
      "ir_events B' = ir_events B @
        [Ircevent_srvincoming (0x3A # src @ 0x20 # l) (lv_line_converted lv), Ircevent_privmsg pm]"
      "pm_ident pm = irc_ident_new (en_pcre E') src" "pm_msg pm = msg" "mi_msgtype (pm_msginfo pm) = mi_msgtype dest"
      "chan_prefix (mi_chan dest) \<longrightarrow>
        mi_chantype (pm_msginfo pm) = IRC_CHANTYPE_CHAN \<and> mi_chan (pm_msginfo pm) = mi_chan dest"
    using privmsg_relayed [OF assms(1-11,14), of E now lv] by (elim exE conjE) blast
  let ?line = "0x3A # src @ 0x20 # l"
  have plain: "c \<noteq> 0x0A \<and> c \<noteq> 0x0D \<and> c \<noteq> 0" if "c \<in> set ?line" for c
  proof -
    have "c \<in> set l \<Longrightarrow> c \<noteq> 0x0A \<and> c \<noteq> 0x0D \<and> c \<noteq> 0" using one_line_clean [of l] l(1) by auto
    moreover have "c \<in> set src \<Longrightarrow> c \<noteq> 0x0A \<and> c \<noteq> 0x0D \<and> c \<noteq> 0"
      using assms(11-13) by (auto simp: line_word_def cstr_ok_def)
    ultimately show ?thesis using that by auto
  qed
  have "\<exists>script' sock'. op_read strerr I 0 e script sock = Some (Inr ((int (length ?line), ?line), script', sock')) \<and>
      pending script' sock' = rest"
    if "reader sock" "live script" "ts_linebuf sock = []" "pending script sock = ?line @ [0x0D, 0x0A] @ rest"
    for script sock rest
  proof -
    have lf: "0x0A \<notin> set (?line @ [0x0D])" "strip_line (?line @ [0x0D]) = ?line"
      using plain by (auto simp: strip_line_def intro!: filter_True)
    have len: "int (length [] + length (?line @ [0x0D])) \<le> 65535 + 1"
      using l(2) assms(11) by (simp add: line_word_def IRC_MAX_LINE_SIZE_def)
    have "readline_scan 65535 (pending script sock) (ts_linebuf sock) = (?line, Some rest)"
      using scan_line [OF lf(1) len, of rest] that(3,4) lf(2) by simp
    then show ?thesis using op_read_stream [OF that(1,2), of 0 strerr I e] by auto
  qed
  then show ?thesis using p q h by (intro exI [of _ A'] exI [of _ l] exI [of _ ?line] exI [of _ B'] exI [of _ pm]) blast
qed

text \<open>A network that delivers one byte at a time.\<close>

definition byte_script :: "byte list \<Rightarrow> script" where
  "byte_script bs = map (\<lambda>b. (Poll_ready POLLIN, Read_data [b])) bs"

lemma byte_script_live: "live (byte_script bs)" "wire (byte_script bs) = bs"
  by (induction bs) (simp_all add: byte_script_def data_ans_def live_def)

lemma message_over_network_witness:
  "\<exists>l script' sock' B' pm. op_read (\<lambda>_. []) iconv_identity 0 0
      (byte_script ((0x3A # c_lit ''bob!b@h'' @ 0x20 # l) @ [0x0D, 0x0A])) reader_witness =
      Some (Inr ((int (length (0x3A # c_lit ''bob!b@h'' @ 0x20 # l)), 0x3A # c_lit ''bob!b@h'' @ 0x20 # l), script', sock')) \<and>
    handle_line env_witness 0 (0x3A # c_lit ''bob!b@h'' @ 0x20 # l) (loop_vars_start False) session_witness =
      Inr (Go_on, loop_vars_start False, B') \<and>
    last (ir_events B') = Ircevent_privmsg pm \<and> pm_msg pm = c_lit ''waves'' \<and> mi_msgtype (pm_msginfo pm) = IRC_MSGTYPE_ACTION"
proof -
  let ?d = "irc_msginfo_new (c_lit ''#a'') IRC_MSGTYPE_ACTION IRC_CHANTYPE_CHAN False"
  let ?src = "c_lit ''bob!b@h''"
  have hyps: "ir_status session_witness = IRCSTATUS_CONNECTED" "ir_enable_flood_protection session_witness"
    "ir_conv_m2s session_witness = None" "mi_chantype ?d \<noteq> IRC_CHANTYPE_DCC" "sendable (mi_msgtype ?d) (c_lit ''waves'')"
    "middle_word (mi_chan ?d)" "0x0A \<notin> set (mi_chan ?d)" "0x0D \<notin> set (mi_chan ?d)"
    "length (mi_chan ?d) + length (c_lit ''waves'') < 480"
    "irc_pcre (en_pcre env_witness)" "line_word ?src" "0x0A \<notin> set ?src" "0x0D \<notin> set ?src" "ir_conv_s2m session_witness = None"
    by (simp_all add: session_witness_def irc_new_def irc_msginfo_new_def sendable_def middle_word_def line_word_def
        IRC_MAX_LINE_SIZE_def c_lit_def env_witness_def irc_pcre_instance)
  obtain A' l line B' pm where l: "line = 0x3A # ?src @ 0x20 # l"
    and rd: "\<forall>script sock rest. reader sock \<and> live script \<and> ts_linebuf sock = [] \<and>
        pending script sock = line @ [0x0D, 0x0A] @ rest \<longrightarrow>
      (\<exists>script' sock'. op_read (\<lambda>_. []) iconv_identity 0 0 script sock = Some (Inr ((int (length line), line), script', sock')) \<and>
        pending script' sock' = rest)"
    and h: "handle_line env_witness 0 line (loop_vars_start False) session_witness = Inr (Go_on, loop_vars_start False, B')"
    and e: "ir_events B' = ir_events session_witness @
      [Ircevent_srvincoming line (lv_line_converted (loop_vars_start False)), Ircevent_privmsg pm]"
    and m: "pm_msg pm = c_lit ''waves''" and t: "mi_msgtype (pm_msginfo pm) = mi_msgtype ?d"
    using message_over_network [OF hyps, of env_witness "\<lambda>_. []" iconv_identity 0 0 "loop_vars_start False"]
    by (elim exE conjE) blast
  have sock: "reader reader_witness" "ts_linebuf reader_witness = []" "ts_read_buffer reader_witness = []"
    by (simp_all add: reader_witness_def tcpsock_new_def reader_def)
  obtain script' sock' where
    "op_read (\<lambda>_. []) iconv_identity 0 0 (byte_script (line @ [0x0D, 0x0A])) reader_witness =
      Some (Inr ((int (length line), line), script', sock'))"
    using rd [rule_format, of reader_witness "byte_script (line @ [0x0D, 0x0A])" "[]"] sock
    by (auto simp: pending_def byte_script_live)
  moreover have "last (ir_events B') = Ircevent_privmsg pm" unfolding e by simp
  moreover have "mi_msgtype (pm_msginfo pm) = IRC_MSGTYPE_ACTION" using t by (simp add: irc_msginfo_new_def)
  ultimately show ?thesis using h m unfolding l by blast
qed

end
